(* ===== verification/Prelude.thy ===== *)
theory Prelude
  imports Main "HOL-Library.Sublist" "HOL-Library.Multiset"
begin

text \<open>
  Shared vocabulary of the development: the JavaScript containers and string operations the
  TypeScript sources use, and the interfaces (locales) several components implement.

  A JavaScript \<^verbatim>\<open>Map\<close> iterates in insertion order and \<^verbatim>\<open>set\<close> on an existing key keeps the
  key's position, so it is an association list with distinct keys. A \<^verbatim>\<open>Set\<close> is a distinct
  list. Strings are character lists; where the code depends on UTF-16 code units (text splitting) the
  component uses 16-bit words instead. Timestamps (\<^verbatim>\<open>Date.now()\<close>, milliseconds) are
  integers passed as arguments.
\<close>

named_theorems js_map_simps \<open>laws of insertion-ordered maps\<close>
named_theorems js_string_simps \<open>string operations\<close>

section \<open>Insertion-ordered maps (Map)\<close>

type_synonym ('k, 'v) js_map = "('k \<times> 'v) list"

definition js_get :: "('k, 'v) js_map \<Rightarrow> 'k \<Rightarrow> 'v option" where
  "js_get m k = map_of m k"

fun js_set :: "'k \<Rightarrow> 'v \<Rightarrow> ('k, 'v) js_map \<Rightarrow> ('k, 'v) js_map" where
  "js_set k v [] = [(k, v)]"
| "js_set k v ((k', v') # m) = (if k = k' then (k, v) # m else (k', v') # js_set k v m)"

definition js_delete :: "'k \<Rightarrow> ('k, 'v) js_map \<Rightarrow> ('k, 'v) js_map" where
  "js_delete k m = filter (\<lambda>e. fst e \<noteq> k) m"

definition js_has :: "('k, 'v) js_map \<Rightarrow> 'k \<Rightarrow> bool" where
  "js_has m k \<longleftrightarrow> js_get m k \<noteq> None"

abbreviation js_keys :: "('k, 'v) js_map \<Rightarrow> 'k list" where
  "js_keys m \<equiv> map fst m"

abbreviation js_values :: "('k, 'v) js_map \<Rightarrow> 'v list" where
  "js_values m \<equiv> map snd m"

definition wf_map :: "('k, 'v) js_map \<Rightarrow> bool" where
  "wf_map m \<longleftrightarrow> distinct (js_keys m)"

text \<open>Dropping the first key of a map: \<^verbatim>\<open>cache.keys().next().value\<close> followed by a delete.\<close>

definition js_drop_oldest :: "('k, 'v) js_map \<Rightarrow> ('k, 'v) js_map" where
  "js_drop_oldest m = (case m of [] \<Rightarrow> [] | (k, _) # _ \<Rightarrow> js_delete k m)"

section \<open>Insertion-ordered sets (Set)\<close>

definition js_add :: "'a \<Rightarrow> 'a list \<Rightarrow> 'a list" where
  "js_add x xs = (if x \<in> set xs then xs else xs @ [x])"

definition js_set_of :: "'a list \<Rightarrow> 'a list" where
  "js_set_of xs = foldl (\<lambda>acc x. js_add x acc) [] xs"

section \<open>JSON values\<close>

datatype json =
    JNull
  | JBool bool
  | JNum int
  | JStr string
  | JArr "json list"
  | JObj "(string \<times> json) list"

section \<open>Strings\<close>

definition starts_with :: "'a list \<Rightarrow> 'a list \<Rightarrow> bool" where
  "starts_with s p \<longleftrightarrow> take (length p) s = p"

definition ends_with :: "'a list \<Rightarrow> 'a list \<Rightarrow> bool" where
  "ends_with s p \<longleftrightarrow> length p \<le> length s \<and> drop (length s - length p) s = p"

fun index_of :: "'a \<Rightarrow> 'a list \<Rightarrow> nat option" where
  "index_of c [] = None"
| "index_of c (x # xs) = (if x = c then Some 0 else map_option Suc (index_of c xs))"

text \<open>\<^verbatim>\<open>s.split(c)\<close> for a one-character separator: always at least one part.\<close>

fun split_on :: "'a \<Rightarrow> 'a list \<Rightarrow> 'a list list" where
  "split_on c [] = [[]]"
| "split_on c (x # xs) =
     (if x = c then [] # split_on c xs
      else (case split_on c xs of [] \<Rightarrow> [[x]] | p # ps \<Rightarrow> (x # p) # ps))"

text \<open>\<^verbatim>\<open>parts.join(sep)\<close>.\<close>

fun join_with :: "'a list \<Rightarrow> 'a list list \<Rightarrow> 'a list" where
  "join_with sep [] = []"
| "join_with sep [p] = p"
| "join_with sep (p # q # ps) = p @ sep @ join_with sep (q # ps)"

definition lower_char :: "char \<Rightarrow> char" where
  "lower_char c = (if 65 \<le> (of_char c :: nat) \<and> (of_char c :: nat) \<le> 90
                   then char_of ((of_char c :: nat) + 32) else c)"

text \<open>\<^verbatim>\<open>toLowerCase()\<close> on ASCII text; other characters are left alone.\<close>

definition to_lower :: "string \<Rightarrow> string" where
  "to_lower s = map lower_char s"

definition is_space :: "char \<Rightarrow> bool" where
  "is_space c \<longleftrightarrow> (of_char c :: nat) \<in> {9, 10, 11, 12, 13, 32, 160}"

definition is_digit :: "char \<Rightarrow> bool" where
  "is_digit c \<longleftrightarrow> 48 \<le> (of_char c :: nat) \<and> (of_char c :: nat) \<le> 57"

definition js_trim :: "string \<Rightarrow> string" where
  "js_trim s = rev (dropWhile is_space (rev (dropWhile is_space s)))"

fun nat_to_string :: "nat \<Rightarrow> string" where
  "nat_to_string n =
     (if n < 10 then [char_of (48 + n)]
      else nat_to_string (n div 10) @ [char_of (48 + n mod 10)])"

declare nat_to_string.simps [simp del]

section \<open>Laws of maps and sets\<close>

lemma js_get_Nil [simp, js_map_simps]: "js_get [] k = None"
  by (simp add: js_get_def)

lemma js_get_Cons [js_map_simps]:
  "js_get ((k, v) # m) k' = (if k' = k then Some v else js_get m k')"
  by (auto simp: js_get_def)

lemma js_get_set [simp, js_map_simps]:
  "js_get (js_set k v m) k' = (if k' = k then Some v else js_get m k')"
  by (induction k v m rule: js_set.induct) (auto simp: js_get_def)

lemma js_get_delete [simp, js_map_simps]:
  "js_get (js_delete k m) k' = (if k' = k then None else js_get m k')"
  by (induction m) (auto simp: js_get_def js_delete_def)

lemma js_keys_set: "set (js_keys (js_set k v m)) = insert k (set (js_keys m))"
  by (induction k v m rule: js_set.induct) auto

lemma js_keys_delete: "js_keys (js_delete k m) = filter (\<lambda>x. x \<noteq> k) (js_keys m)"
  by (induction m) (auto simp: js_delete_def)

lemma js_get_None_iff: "js_get m k = None \<longleftrightarrow> k \<notin> set (js_keys m)"
  by (simp add: js_get_def map_of_eq_None_iff)

lemma js_get_Some_mem: "js_get m k = Some v \<Longrightarrow> (k, v) \<in> set m"
  by (simp add: js_get_def map_of_SomeD)

lemma js_get_mem: "wf_map m \<Longrightarrow> (k, v) \<in> set m \<Longrightarrow> js_get m k = Some v"
  by (simp add: js_get_def wf_map_def)

lemma wf_map_Nil [simp]: "wf_map []"
  by (simp add: wf_map_def)

lemma wf_map_set [simp, intro]: "wf_map m \<Longrightarrow> wf_map (js_set k v m)"
  unfolding wf_map_def
proof (induction k v m rule: js_set.induct)
  case (2 k v k' v' m)
  then show ?case using js_keys_set [of k v m] by auto
qed simp

lemma wf_map_filter [simp, intro]: "wf_map m \<Longrightarrow> wf_map (filter P m)"
  by (simp add: wf_map_def distinct_map_filter)

lemma wf_map_delete [simp, intro]: "wf_map m \<Longrightarrow> wf_map (js_delete k m)"
  by (simp add: js_delete_def)

lemma length_js_set:
  "length (js_set k v m) = (if js_get m k = None then Suc (length m) else length m)"
  by (induction k v m rule: js_set.induct) (auto simp: js_get_def)

lemma length_js_delete_le [simp]: "length (js_delete k m) \<le> length m"
  by (simp add: js_delete_def)

lemma length_filter_less_mem: "x \<in> set xs \<Longrightarrow> \<not> P x \<Longrightarrow> length (filter P xs) < length xs"
  by (rule length_filter_less)

lemma length_filter_mono:
  "(\<And>x. x \<in> set xs \<Longrightarrow> P x \<Longrightarrow> Q x) \<Longrightarrow> length (filter P xs) \<le> length (filter Q xs)"
  by (induction xs) (auto simp: le_SucI)

lemma js_delete_absent: "js_get m k = None \<Longrightarrow> js_delete k m = m"
  by (induction m) (auto simp: js_get_def js_delete_def split: if_splits)

lemma length_js_delete_present:
  "js_get m k \<noteq> None \<Longrightarrow> length (js_delete k m) < length m"
  using js_get_Some_mem [of m k] length_filter_less [of _ m "\<lambda>e. fst e \<noteq> k"]
  by (fastforce simp: js_delete_def)

lemma js_get_filter_key:
  "js_get (filter (\<lambda>e. P (fst e)) m) k = (if P k then js_get m k else None)"
  by (induction m) (auto simp: js_get_def)

lemma js_get_filter_wf:
  assumes "wf_map m"
  shows "js_get (filter P m) k =
    (case js_get m k of None \<Rightarrow> None | Some v \<Rightarrow> if P (k, v) then Some v else None)"
  using assms
proof (induction m)
  case (Cons e m)
  then show ?case
    by (cases e) (auto simp: js_get_def wf_map_def map_of_eq_None_iff split: option.splits
        dest: map_of_SomeD)
qed simp

lemma wf_map_drop_oldest [simp, intro]: "wf_map m \<Longrightarrow> wf_map (js_drop_oldest m)"
  by (cases m) (auto simp: js_drop_oldest_def split: prod.splits)

lemma length_drop_oldest: "m \<noteq> [] \<Longrightarrow> length (js_drop_oldest m) < length m"
proof -
  assume "m \<noteq> []"
  then obtain k v r where m: "m = (k, v) # r" by (cases m) auto
  then have "js_get m k \<noteq> None" by (simp add: js_get_Cons)
  then show ?thesis using length_js_delete_present [of m k] m by (simp add: js_drop_oldest_def)
qed

lemma js_get_drop_oldest_Some: "js_get (js_drop_oldest m) k = Some v \<Longrightarrow> js_get m k = Some v"
  by (cases m) (auto simp: js_drop_oldest_def split: if_splits prod.splits)

lemma set_js_add [simp]: "set (js_add x xs) = insert x (set xs)"
  by (auto simp: js_add_def)

lemma distinct_js_add [simp]: "distinct xs \<Longrightarrow> distinct (js_add x xs)"
  by (simp add: js_add_def)

lemma js_set_of_gen:
  "set (foldl (\<lambda>acc x. js_add x acc) acc xs) = set acc \<union> set xs"
  "distinct acc \<Longrightarrow> distinct (foldl (\<lambda>acc x. js_add x acc) acc xs)"
  by (induction xs arbitrary: acc) auto

lemma set_js_set_of [simp]: "set (js_set_of xs) = set xs"
  by (simp add: js_set_of_def js_set_of_gen)

lemma distinct_js_set_of [simp]: "distinct (js_set_of xs)"
  by (simp add: js_set_of_def js_set_of_gen)

section \<open>Laws of strings\<close>

lemma starts_with_iff: "starts_with s p \<longleftrightarrow> (\<exists>r. s = p @ r)"
  unfolding starts_with_def by (metis append_eq_conv_conj append_take_drop_id)

lemma ends_with_iff: "ends_with s p \<longleftrightarrow> (\<exists>r. s = r @ p)"
proof
  assume "ends_with s p"
  then show "\<exists>r. s = r @ p"
    unfolding ends_with_def by (metis append_take_drop_id)
qed (auto simp: ends_with_def)

lemma index_of_None [js_string_simps]: "index_of c s = None \<longleftrightarrow> c \<notin> set s"
  by (induction s) auto

lemma index_of_append [js_string_simps]:
  "c \<notin> set p \<Longrightarrow> index_of c (p @ c # r) = Some (length p)"
  by (induction p) auto

lemma index_of_Some:
  "index_of c s = Some i \<Longrightarrow> i < length s \<and> s ! i = c \<and> c \<notin> set (take i s)"
  by (induction s arbitrary: i) (auto split: if_splits)

lemma index_of_split:
  assumes "index_of c s = Some i"
  shows "s = take i s @ c # drop (Suc i) s"
  using index_of_Some [OF assms] by (metis id_take_nth_drop)

lemma split_on_nonempty [simp]: "split_on c s \<noteq> []"
  by (cases s) (auto split: list.splits)

lemma split_on_plain: "c \<notin> set s \<Longrightarrow> split_on c s = [s]"
  by (induction s) auto

lemma split_on_append: "c \<notin> set p \<Longrightarrow> split_on c (p @ c # r) = p # split_on c r"
  by (induction p) auto

lemma join_split_on: "join_with [c] (split_on c s) = s"
proof (induction s)
  case (Cons x xs)
  obtain p ps where "split_on c xs = p # ps" by (cases "split_on c xs") auto
  with Cons show ?case by (cases ps) auto
qed simp

lemma split_on_parts: "p \<in> set (split_on c s) \<Longrightarrow> c \<notin> set p"
proof (induction s arbitrary: p)
  case (Cons x xs)
  obtain q qs where "split_on c xs = q # qs" by (cases "split_on c xs") auto
  with Cons show ?case by (auto split: if_splits)
qed simp

lemma length_to_lower [simp]: "length (to_lower s) = length s"
  by (simp add: to_lower_def)

lemma to_lower_append [simp]: "to_lower (s @ t) = to_lower s @ to_lower t"
  by (simp add: to_lower_def)

lemma to_lower_Nil [simp]: "to_lower [] = []"
  by (simp add: to_lower_def)

lemma to_lower_eq_Nil [simp]: "to_lower s = [] \<longleftrightarrow> s = []"
  by (simp add: to_lower_def)

section \<open>Interface: a keyed store\<close>

text \<open>
  What the sources rely on when they hold state in a \<^verbatim>\<open>Map\<close>: a read sees the last write to
  its key and nothing else, a delete removes exactly its key, and the key list has no
  duplicates, so its length counts entries.
\<close>

locale keyed_store =
  fixes get :: "'m \<Rightarrow> 'k \<Rightarrow> 'v option"
    and put :: "'k \<Rightarrow> 'v \<Rightarrow> 'm \<Rightarrow> 'm"
    and del :: "'k \<Rightarrow> 'm \<Rightarrow> 'm"
    and keys :: "'m \<Rightarrow> 'k list"
    and ok :: "'m \<Rightarrow> bool"
  assumes get_put: "get (put k v m) k' = (if k' = k then Some v else get m k')"
    and get_del: "get (del k m) k' = (if k' = k then None else get m k')"
    and keys_iff: "k \<in> set (keys m) \<longleftrightarrow> get m k \<noteq> None"
    and keys_distinct: "ok m \<Longrightarrow> distinct (keys m)"
    and ok_put: "ok m \<Longrightarrow> ok (put k v m)"
    and ok_del: "ok m \<Longrightarrow> ok (del k m)"
begin

lemma keys_put_set: "set (keys (put k v m)) = insert k (set (keys m))"
  by (auto simp: keys_iff get_put split: if_splits)

lemma keys_del_set: "set (keys (del k m)) = set (keys m) - {k}"
  by (auto simp: keys_iff get_del split: if_splits)

lemma size_put:
  assumes "ok m"
  shows "length (keys (put k v m)) = (if get m k = None then Suc (length (keys m)) else length (keys m))"
proof -
  have "length (keys (put k v m)) = card (insert k (set (keys m)))"
    using assms by (metis distinct_card keys_distinct keys_put_set ok_put)
  also have "\<dots> = (if k \<in> set (keys m) then length (keys m) else Suc (length (keys m)))"
    using assms by (simp add: card_insert_if distinct_card keys_distinct)
  finally show ?thesis by (simp add: keys_iff)
qed

lemma size_del:
  assumes "ok m"
  shows "length (keys (del k m)) = (if get m k = None then length (keys m) else length (keys m) - 1)"
proof -
  have "length (keys (del k m)) = card (set (keys m) - {k})"
    using assms by (metis distinct_card keys_distinct keys_del_set ok_del)
  also have "\<dots> = (if k \<in> set (keys m) then length (keys m) - 1 else length (keys m))"
    using assms by (simp add: card_Diff_singleton_if distinct_card keys_distinct)
  finally show ?thesis by (simp add: keys_iff)
qed

lemma put_after_del: "get (put k v (del k m)) k' = get (put k v m) k'"
  by (simp add: get_put get_del)

end

interpretation jsm: keyed_store js_get js_set js_delete js_keys wf_map
  by unfold_locales (simp_all add: js_get_None_iff wf_map_def [symmetric] wf_map_set wf_map_delete)

section \<open>Interface: machines with an invariant\<close>

text \<open>
  A component with state is a step function over events. An invariant that each step keeps
  holds after every sequence of events; a state in which the component has finished stays.
\<close>

locale invariant_machine =
  fixes step :: "'s \<Rightarrow> 'e \<Rightarrow> 's"
    and inv :: "'s \<Rightarrow> bool"
  assumes inv_step: "inv s \<Longrightarrow> inv (step s e)"
begin

lemma inv_run: "inv s \<Longrightarrow> inv (foldl step s es)"
  by (induction es arbitrary: s) (auto intro: inv_step)

end

locale absorbing_machine = invariant_machine +
  fixes final :: "'s \<Rightarrow> bool"
  assumes final_step: "inv s \<Longrightarrow> final s \<Longrightarrow> step s e = s"
begin

lemma final_run: "inv s \<Longrightarrow> final s \<Longrightarrow> foldl step s es = s"
  by (induction es) (auto simp: final_step)

lemma final_stays: "inv s \<Longrightarrow> final (foldl step s es) \<Longrightarrow> foldl step s (es @ es') = foldl step s es"
  using final_run [of "foldl step s es" es'] inv_run by simp

end

text \<open>
  A machine that only moves a rank upwards: what is reached is never left downwards. The
  rank is an order on the part of the state the contract speaks of.
\<close>

locale ranked_machine =
  fixes step :: "'s \<Rightarrow> 'e \<Rightarrow> 's"
    and rank :: "'s \<Rightarrow> 'r :: preorder"
  assumes rank_step: "rank s \<le> rank (step s e)"
begin

lemma rank_run: "rank s \<le> rank (foldl step s es)"
proof (induction es arbitrary: s)
  case (Cons e es)
  have "rank s \<le> rank (step s e)" by (rule rank_step)
  also have "\<dots> \<le> rank (foldl step (step s e) es)" by (rule Cons.IH)
  finally show ?case by simp
qed simp

end

section \<open>Interface: claims that are won at most once\<close>

text \<open>
  A shared store on which several parties run atomic statements, some of which try to claim a
  key. The store promises that a won claim leaves the key spent, that no statement makes a
  spent key claimable again, and that a spent key is never won. Then, in every interleaving of
  statements, a key is won at most once. The general interface lets statements reopen a key.
\<close>

fun count_wins :: "('s \<Rightarrow> 'e \<Rightarrow> 's) \<Rightarrow> ('s \<Rightarrow> 'e \<Rightarrow> bool) \<Rightarrow> 's \<Rightarrow> 'e list \<Rightarrow> nat" where
  "count_wins exec win s [] = 0"
| "count_wins exec win s (e # es) = (if win s e then 1 else 0) + count_wins exec win (exec s e) es"

text \<open>A store in which some statements may reopen a key: each win beyond the first needs a reopening.\<close>

locale reopenable_store =
  fixes exec :: "'s \<Rightarrow> 'e \<Rightarrow> 's"
    and win :: "'k \<Rightarrow> 's \<Rightarrow> 'e \<Rightarrow> bool"
    and spent :: "'k \<Rightarrow> 's \<Rightarrow> bool"
    and reopens :: "'k \<Rightarrow> 'e \<Rightarrow> bool"
  assumes win_spends: "win k s e \<Longrightarrow> spent k (exec s e)"
    and spent_stays: "spent k s \<Longrightarrow> \<not> reopens k e \<Longrightarrow> spent k (exec s e)"
    and spent_no_win: "spent k s \<Longrightarrow> \<not> win k s e"
begin

lemma wins_bounded:
  "count_wins exec (win k) s es \<le> (if spent k s then 0 else 1) + length (filter (reopens k) es)"
proof (induction es arbitrary: s)
  case (Cons e es)
  have "spent k (exec s e) \<or> reopens k e" if "spent k s \<or> win k s e"
    using that win_spends spent_stays by blast
  then show ?case
    using Cons.IH [of "exec s e"] spent_no_win [of k s e] by (auto split: if_splits)
qed simp

lemma spent_run: "spent k s \<Longrightarrow> \<forall>e \<in> set es. \<not> reopens k e \<Longrightarrow> spent k (foldl exec s es)"
  by (induction es arbitrary: s) (auto simp: spent_stays)

end

text \<open>A store without reopening: a key is won at most once.\<close>

locale claim_store =
  fixes exec :: "'s \<Rightarrow> 'e \<Rightarrow> 's"
    and win :: "'k \<Rightarrow> 's \<Rightarrow> 'e \<Rightarrow> bool"
    and spent :: "'k \<Rightarrow> 's \<Rightarrow> bool"
  assumes win_spends: "win k s e \<Longrightarrow> spent k (exec s e)"
    and spent_stays: "spent k s \<Longrightarrow> spent k (exec s e)"
    and spent_no_win: "spent k s \<Longrightarrow> \<not> win k s e"

sublocale claim_store \<subseteq> reopening: reopenable_store exec win spent "\<lambda>_ _. False"
  using win_spends spent_stays spent_no_win by unfold_locales auto

context claim_store begin

lemma spent_never_wins: "spent k s \<Longrightarrow> count_wins exec (win k) s es = 0"
  using reopening.wins_bounded [of k s es] by simp

lemma wins_at_most_once: "count_wins exec (win k) s es \<le> 1"
  using reopening.wins_bounded [of k s es] by (simp split: if_splits)

end

end
