(* ===== verification/Messages.thy ===== *)
theory Messages
  imports Prelude
begin

text \<open>
  The provider message model (\<^verbatim>\<open>assistant/src/providers/types.ts\<close>), the predicates over
  content blocks (\<^verbatim>\<open>providers/content-blocks.ts\<close>) and the analysis that pairs server-side
  tool blocks across a message list (\<^verbatim>\<open>providers/server-tool-pairing.ts\<close>). Media sources,
  tool inputs and UI surfaces are opaque here and carried as JSON.
\<close>

section \<open>Content blocks and messages\<close>

datatype content_block =
    Text string
  | Thinking string string
  | RedactedThinking string
  | Image json
  | File json
  | ToolUse string string json
  | ToolResult string string "bool option" "content_block list option"
  | ServerToolUse string string json
  | WebSearchToolResult string json
  | UiSurface json

datatype role = User | Assistant

record message =
  role :: role
  content :: "content_block list"

section \<open>Predicates over content\<close>

definition hasVisibleText :: "content_block list \<Rightarrow> bool" where
  "hasVisibleText bs \<longleftrightarrow> list_ex (\<lambda>b. case b of Text t \<Rightarrow> js_trim t \<noteq> [] | _ \<Rightarrow> False) bs"

definition isEffectivelyEmptyContent :: "content_block list \<Rightarrow> bool" where
  "isEffectivelyEmptyContent bs \<longleftrightarrow> list_all (\<lambda>b. case b of Text t \<Rightarrow> js_trim t = [] | _ \<Rightarrow> False) bs"

definition hasToolUse :: "content_block list \<Rightarrow> bool" where
  "hasToolUse bs \<longleftrightarrow> list_ex (\<lambda>b. case b of ToolUse _ _ _ \<Rightarrow> True | _ \<Rightarrow> False) bs"

text \<open>Ids of the client-side tool calls and results of a content list, in order.\<close>

fun tool_use_ids :: "content_block list \<Rightarrow> string list" where
  "tool_use_ids [] = []"
| "tool_use_ids (ToolUse i _ _ # bs) = i # tool_use_ids bs"
| "tool_use_ids (_ # bs) = tool_use_ids bs"

fun tool_result_ids :: "content_block list \<Rightarrow> string list" where
  "tool_result_ids [] = []"
| "tool_result_ids (ToolResult i _ _ _ # bs) = i # tool_result_ids bs"
| "tool_result_ids (_ # bs) = tool_result_ids bs"

text \<open>The server-tool block ids of a content list.\<close>

fun server_use_ids :: "content_block list \<Rightarrow> string list" where
  "server_use_ids [] = []"
| "server_use_ids (ServerToolUse i _ _ # bs) = i # server_use_ids bs"
| "server_use_ids (_ # bs) = server_use_ids bs"

fun web_result_ids :: "content_block list \<Rightarrow> string list" where
  "web_result_ids [] = []"
| "web_result_ids (WebSearchToolResult i _ # bs) = i # web_result_ids bs"
| "web_result_ids (_ # bs) = web_result_ids bs"

section \<open>Server-side tool pairing\<close>

fun isServerToolUseBlock :: "content_block \<Rightarrow> bool" where
  "isServerToolUseBlock (ServerToolUse _ _ _) = True"
| "isServerToolUseBlock _ = False"

fun isWebSearchToolResultBlock :: "content_block \<Rightarrow> bool" where
  "isWebSearchToolResultBlock (WebSearchToolResult _ _) = True"
| "isWebSearchToolResultBlock _ = False"

fun isToolResultShapedBlock :: "content_block \<Rightarrow> bool" where
  "isToolResultShapedBlock (ToolResult _ _ _ _) = True"
| "isToolResultShapedBlock _ = False"

record server_tool_pairing =
  resolvedPairIds :: "string list"
  deferredUseIds :: "string list"
  crossMessageIds :: "string list"

record pairing_scan =
  useIndexById :: "(string, nat) js_map"
  resultIndexById :: "(string, nat) js_map"
  lastAssistantIndex :: "nat option"

text \<open>One block of an assistant message: the first index seen for each id is kept.\<close>

fun scan_block :: "nat \<Rightarrow> pairing_scan \<Rightarrow> content_block \<Rightarrow> pairing_scan" where
  "scan_block i s (ServerToolUse uid _ _) =
     (if js_has (useIndexById s) uid then s
      else s\<lparr>useIndexById := js_set uid i (useIndexById s)\<rparr>)"
| "scan_block i s (WebSearchToolResult rid _) =
     (if js_has (resultIndexById s) rid then s
      else s\<lparr>resultIndexById := js_set rid i (resultIndexById s)\<rparr>)"
| "scan_block i s _ = s"

fun scan_messages :: "nat \<Rightarrow> pairing_scan \<Rightarrow> message list \<Rightarrow> pairing_scan" where
  "scan_messages i s [] = s"
| "scan_messages i s (m # ms) =
     scan_messages (Suc i)
       (case role m of
          User \<Rightarrow> s
        | Assistant \<Rightarrow> foldl (scan_block i) (s\<lparr>lastAssistantIndex := Some i\<rparr>) (content m)) ms"

definition pair_result_index :: "pairing_scan \<Rightarrow> string \<times> nat \<Rightarrow> nat option" where
  "pair_result_index s e =
     (case js_get (resultIndexById s) (fst e) of
        None \<Rightarrow> None
      | Some r \<Rightarrow> if snd e \<le> r then Some r else None)"

definition deferred_ids :: "message list \<Rightarrow> string list \<Rightarrow> nat option \<Rightarrow> string list" where
  "deferred_ids ms resolved lastA =
     (case lastA of
        None \<Rightarrow> []
      | Some k \<Rightarrow>
          let trailing = drop (Suc k) ms;
              allUser = list_all (\<lambda>m. role m = User) trailing;
              hasResult = list_ex (\<lambda>m. list_ex isToolResultShapedBlock (content m)) trailing
          in if allUser \<and> (trailing = [] \<or> hasResult)
             then js_set_of (concat (map (\<lambda>b. case b of
                    ServerToolUse uid _ _ \<Rightarrow> if uid \<in> set resolved then [] else [uid]
                  | _ \<Rightarrow> []) (content (ms ! k))))
             else [])"

definition analyzeServerToolPairing :: "message list \<Rightarrow> server_tool_pairing" where
  "analyzeServerToolPairing ms =
     (let s = scan_messages 0 \<lparr>useIndexById = [], resultIndexById = [], lastAssistantIndex = None\<rparr> ms;
          resolved = map fst (filter (\<lambda>e. pair_result_index s e \<noteq> None) (useIndexById s));
          cross = map fst (filter (\<lambda>e. case pair_result_index s e of
                     None \<Rightarrow> False | Some r \<Rightarrow> snd e < r) (useIndexById s))
      in \<lparr>resolvedPairIds = resolved,
          deferredUseIds = deferred_ids ms resolved (lastAssistantIndex s),
          crossMessageIds = cross\<rparr>)"

text \<open>Reference definition: the index of the first assistant message with a given id.\<close>

fun first_index :: "(content_block list \<Rightarrow> string list) \<Rightarrow> string \<Rightarrow> nat \<Rightarrow> message list \<Rightarrow> nat option" where
  "first_index ids x i [] = None"
| "first_index ids x i (m # ms) =
     (if role m = Assistant \<and> x \<in> set (ids (content m)) then Some i
      else first_index ids x (Suc i) ms)"

section \<open>Lemmas\<close>

lemma tool_use_ids_append [simp]: "tool_use_ids (xs @ ys) = tool_use_ids xs @ tool_use_ids ys"
  by (induction xs rule: tool_use_ids.induct) auto

lemma tool_result_ids_append [simp]:
  "tool_result_ids (xs @ ys) = tool_result_ids xs @ tool_result_ids ys"
  by (induction xs rule: tool_result_ids.induct) auto

lemma tool_result_ids_mem:
  "i \<in> set (tool_result_ids bs) \<longleftrightarrow> (\<exists>c e r. ToolResult i c e r \<in> set bs)"
  by (induction bs rule: tool_result_ids.induct) auto

lemma tool_use_ids_mem: "i \<in> set (tool_use_ids bs) \<longleftrightarrow> (\<exists>n j. ToolUse i n j \<in> set bs)"
  by (induction bs rule: tool_use_ids.induct) auto

lemma hasToolUse_iff: "hasToolUse bs \<longleftrightarrow> tool_use_ids bs \<noteq> []"
  by (induction bs rule: tool_use_ids.induct) (auto simp: hasToolUse_def)

lemma server_use_ids_append [simp]:
  "server_use_ids (xs @ ys) = server_use_ids xs @ server_use_ids ys"
  by (induction xs rule: server_use_ids.induct) auto

lemma web_result_ids_append [simp]:
  "web_result_ids (xs @ ys) = web_result_ids xs @ web_result_ids ys"
  by (induction xs rule: web_result_ids.induct) auto

text \<open>What the scan records: an id maps to the first assistant message that carries it.\<close>

lemma scan_block_fold_use:
  "js_get (useIndexById (foldl (scan_block i) s bs)) uid =
     (case js_get (useIndexById s) uid of
        Some k \<Rightarrow> Some k
      | None \<Rightarrow> if uid \<in> set (server_use_ids bs) then Some i else None)"
proof (induction bs arbitrary: s)
  case (Cons b bs)
  show ?case
    by (cases b) (auto simp: Cons js_has_def split: option.splits)
qed (simp split: option.splits)

lemma scan_block_fold_result:
  "js_get (resultIndexById (foldl (scan_block i) s bs)) rid =
     (case js_get (resultIndexById s) rid of
        Some k \<Rightarrow> Some k
      | None \<Rightarrow> if rid \<in> set (web_result_ids bs) then Some i else None)"
proof (induction bs arbitrary: s)
  case (Cons b bs)
  show ?case
    by (cases b) (auto simp: Cons js_has_def split: option.splits)
qed (simp split: option.splits)

lemma scan_messages_use:
  "js_get (useIndexById (scan_messages i s ms)) x =
     (case js_get (useIndexById s) x of
        Some k \<Rightarrow> Some k | None \<Rightarrow> first_index server_use_ids x i ms)"
proof (induction ms arbitrary: i s)
  case (Cons m ms)
  show ?case
    by (cases "role m") (auto simp: Cons scan_block_fold_use split: option.splits)
qed (simp split: option.splits)

lemma scan_messages_result:
  "js_get (resultIndexById (scan_messages i s ms)) x =
     (case js_get (resultIndexById s) x of
        Some k \<Rightarrow> Some k | None \<Rightarrow> first_index web_result_ids x i ms)"
proof (induction ms arbitrary: i s)
  case (Cons m ms)
  show ?case
    by (cases "role m") (auto simp: Cons scan_block_fold_result split: option.splits)
qed (simp split: option.splits)

lemma scan_block_wf: "wf_map (useIndexById s) \<Longrightarrow> wf_map (useIndexById (foldl (scan_block i) s bs))"
proof (induction bs arbitrary: s)
  case (Cons b bs)
  then show ?case by (cases b) auto
qed simp

lemma scan_messages_wf:
  "wf_map (useIndexById s) \<Longrightarrow> wf_map (useIndexById (scan_messages i s ms))"
proof (induction ms arbitrary: i s)
  case (Cons m ms)
  then show ?case by (cases "role m") (auto intro!: Cons.IH scan_block_wf)
qed simp

lemma resolvedPairIds_iff:
  "x \<in> set (resolvedPairIds (analyzeServerToolPairing ms)) \<longleftrightarrow>
     (\<exists>u r. first_index server_use_ids x 0 ms = Some u \<and>
            first_index web_result_ids x 0 ms = Some r \<and> u \<le> r)"
proof -
  let ?s0 = "\<lparr>useIndexById = [], resultIndexById = [], lastAssistantIndex = None\<rparr>"
  let ?s = "scan_messages 0 ?s0 ms"
  have wf: "wf_map (useIndexById ?s)" by (rule scan_messages_wf) simp
  have use: "js_get (useIndexById ?s) x = first_index server_use_ids x 0 ms"
    by (simp add: scan_messages_use)
  have res: "js_get (resultIndexById ?s) x = first_index web_result_ids x 0 ms"
    by (simp add: scan_messages_result)
  have "x \<in> set (resolvedPairIds (analyzeServerToolPairing ms)) \<longleftrightarrow>
    (\<exists>u. (x, u) \<in> set (useIndexById ?s) \<and> pair_result_index ?s (x, u) \<noteq> None)"
    by (auto simp: analyzeServerToolPairing_def Let_def image_iff)
  also have "\<dots> \<longleftrightarrow> (\<exists>u. js_get (useIndexById ?s) x = Some u \<and> pair_result_index ?s (x, u) \<noteq> None)"
    using wf by (metis js_get_Some_mem js_get_mem)
  finally show ?thesis
    by (auto simp: use res pair_result_index_def split: option.splits if_splits)
qed

end
