(* ===== verification/History_Repair.thy ===== *)
theory History_Repair
  imports Messages
begin

text \<open>
  History repair (\<^verbatim>\<open>assistant/src/agent/history-repair/history-repair.ts\<close>): the pass that
  normalises a message history before each provider call. The loop keeps the ids of the
  unanswered tool calls of the last assistant message and the tool results it stripped from
  it; the merge pass then joins neighbours of the same role and records where each input
  message went.
\<close>

section \<open>State and helpers\<close>

record repair_stats =
  assistantToolResultsMigrated :: nat
  missingToolResultsInserted :: nat
  orphanToolResultsDowngraded :: nat
  consecutiveSameRoleMerged :: nat

definition zero_stats :: repair_stats where
  "zero_stats = \<lparr>assistantToolResultsMigrated = 0, missingToolResultsInserted = 0,
     orphanToolResultsDowngraded = 0, consecutiveSameRoleMerged = 0\<rparr>"

record repair_result =
  messages :: "message list"
  stats :: repair_stats
  inputToOutputIndex :: "nat option list option"

record repair_state =
  result :: "(message \<times> nat option) list"
  pendingToolUseIds :: "string list"
  recoveredResults :: "(string, content_block) js_map"
  rstats :: repair_stats

definition SYNTHETIC_RESULT :: string where
  "SYNTHETIC_RESULT = ''<synthesized_result>tool result missing from history</synthesized_result>''"

definition SYNTHETIC_WEB_SEARCH_ERROR :: json where
  "SYNTHETIC_WEB_SEARCH_ERROR =
     JObj [(''type'', JStr ''web_search_tool_result_error''), (''error_code'', JStr ''unavailable'')]"

definition synthetic_result :: "string \<Rightarrow> content_block" where
  "synthetic_result i = ToolResult i SYNTHETIC_RESULT (Some True) None"

fun js_str_field :: "json \<Rightarrow> string \<Rightarrow> string option" where
  "js_str_field (JObj fs) k = (case js_get fs k of Some (JStr s) \<Rightarrow> Some s | _ \<Rightarrow> None)"
| "js_str_field _ _ = None"

fun web_entries :: "nat \<Rightarrow> json list \<Rightarrow> string list" where
  "web_entries n [] = []"
| "web_entries n (r # rs) =
     (if js_str_field r ''type'' \<noteq> Some ''web_search_result'' then web_entries n rs
      else
        let title = (case js_str_field r ''title'' of Some t \<Rightarrow> t | None \<Rightarrow> ''(untitled)'');
            url = (case js_str_field r ''url'' of Some u \<Rightarrow> u | None \<Rightarrow> []);
            idx = Suc n
        in (if url \<noteq> []
            then nat_to_string idx @ ''. '' @ title @ [CHR 0x0A] @ ''   '' @ url
            else nat_to_string idx @ ''. '' @ title) # web_entries idx rs)"

definition formatWebSearchContent :: "json \<Rightarrow> string" where
  "formatWebSearchContent c =
     (case c of
        JArr rs \<Rightarrow> (let entries = web_entries 0 rs in
           if entries \<noteq> [] then join_with [CHR 0x0A] entries else ''results unavailable'')
      | _ \<Rightarrow> ''results unavailable'')"

fun downgradeResult :: "content_block \<Rightarrow> content_block" where
  "downgradeResult (ToolResult i c _ _) =
     Text (''[orphaned tool_result for '' @ i @ '']: '' @ c)"
| "downgradeResult (WebSearchToolResult i c) =
     Text (''[orphaned web_search_tool_result for '' @ i @ '']: '' @ formatWebSearchContent c)"
| "downgradeResult b = b"

text \<open>The result message synthesised for unanswered tool calls: a recovered result where
  one exists, a synthetic error for the rest.\<close>

definition fill_result :: "(string, content_block) js_map \<Rightarrow> string \<Rightarrow> content_block" where
  "fill_result recovered i =
     (case js_get recovered i of Some r \<Rightarrow> r | None \<Rightarrow> synthetic_result i)"

definition missing_count :: "(string, content_block) js_map \<Rightarrow> string list \<Rightarrow> nat" where
  "missing_count recovered ids = length (filter (\<lambda>i. js_get recovered i = None) ids)"

definition buildResultMessage ::
  "string list \<Rightarrow> (string, content_block) js_map \<Rightarrow> repair_stats \<Rightarrow> message \<times> repair_stats" where
  "buildResultMessage ids recovered st =
     (\<lparr>role = User, content = map (fill_result recovered) ids\<rparr>,
      st\<lparr>missingToolResultsInserted := missingToolResultsInserted st + missing_count recovered ids\<rparr>)"

section \<open>Assistant messages\<close>

text \<open>Client-side tool results are stripped and remembered under their id.\<close>

fun strip_tool_results ::
  "content_block list \<Rightarrow> content_block list \<Rightarrow> (string, content_block) js_map \<Rightarrow> nat
   \<Rightarrow> content_block list \<times> (string, content_block) js_map \<times> nat" where
  "strip_tool_results [] cleaned rec n = (cleaned, rec, n)"
| "strip_tool_results (b # bs) cleaned rec n =
     (case b of
        ToolResult i _ _ _ \<Rightarrow> strip_tool_results bs cleaned (js_set i b rec) (Suc n)
      | _ \<Rightarrow> strip_tool_results bs (cleaned @ [b]) rec n)"

definition orphanedServerIds :: "server_tool_pairing \<Rightarrow> content_block list \<Rightarrow> string list" where
  "orphanedServerIds p cleaned =
     js_set_of (filter (\<lambda>i. i \<notin> set (resolvedPairIds p) \<and> i \<notin> set (deferredUseIds p))
       (server_use_ids cleaned))"

definition orphanedWebSearchResultIds :: "server_tool_pairing \<Rightarrow> content_block list \<Rightarrow> string list" where
  "orphanedWebSearchResultIds p cleaned =
     js_set_of (filter (\<lambda>i. i \<notin> set (resolvedPairIds p)) (web_result_ids cleaned))"

fun repair_server_blocks ::
  "string list \<Rightarrow> string list \<Rightarrow> content_block list \<Rightarrow> repair_stats \<Rightarrow> content_block list \<times> repair_stats" where
  "repair_server_blocks osrv oweb [] st = ([], st)"
| "repair_server_blocks osrv oweb (b # bs) st =
     (case b of
        WebSearchToolResult i _ \<Rightarrow>
          if i \<in> set oweb
          then (let (cs, st') = repair_server_blocks osrv oweb bs
                      (st\<lparr>orphanToolResultsDowngraded := Suc (orphanToolResultsDowngraded st)\<rparr>)
                in (downgradeResult b # cs, st'))
          else (let (cs, st') = repair_server_blocks osrv oweb bs st in (b # cs, st'))
      | ServerToolUse i _ _ \<Rightarrow>
          if i \<in> set osrv
          then (let (cs, st') = repair_server_blocks osrv oweb bs
                      (st\<lparr>missingToolResultsInserted := Suc (missingToolResultsInserted st)\<rparr>)
                in (b # WebSearchToolResult i SYNTHETIC_WEB_SEARCH_ERROR # cs, st'))
          else (let (cs, st') = repair_server_blocks osrv oweb bs st in (b # cs, st'))
      | _ \<Rightarrow> (let (cs, st') = repair_server_blocks osrv oweb bs st in (b # cs, st')))"

definition repair_content ::
  "server_tool_pairing \<Rightarrow> content_block list \<Rightarrow> repair_stats \<Rightarrow> content_block list \<times> repair_stats" where
  "repair_content p cleaned st =
     (let osrv = orphanedServerIds p cleaned; oweb = orphanedWebSearchResultIds p cleaned in
      if osrv \<noteq> [] \<or> oweb \<noteq> [] then repair_server_blocks osrv oweb cleaned st else (cleaned, st))"

text \<open>Unanswered calls of the previous assistant message are answered first; the message is
  then pushed with its server-side orphans repaired.\<close>

definition flush_pending :: "repair_state \<Rightarrow> repair_state" where
  "flush_pending s =
     (if pendingToolUseIds s = [] then s
      else let (m, st) = buildResultMessage (pendingToolUseIds s) (recoveredResults s) (rstats s)
           in s\<lparr>result := result s @ [(m, None)], pendingToolUseIds := [],
                recoveredResults := [], rstats := st\<rparr>)"

definition repair_assistant ::
  "server_tool_pairing \<Rightarrow> nat \<Rightarrow> message \<Rightarrow> repair_state \<Rightarrow> repair_state" where
  "repair_assistant p i m s0 =
     (let s = flush_pending s0;
          (cleaned, rec, n) = strip_tool_results (content m) [] [] 0;
          st1 = (rstats s)\<lparr>assistantToolResultsMigrated := assistantToolResultsMigrated (rstats s) + n\<rparr>;
          (repaired, st2) = repair_content p cleaned st1
      in s\<lparr>result := result s @ [(\<lparr>role = Assistant, content = repaired\<rparr>, Some i)],
           pendingToolUseIds := js_set_of (tool_use_ids cleaned),
           recoveredResults := rec, rstats := st2\<rparr>)"

section \<open>User messages\<close>

text \<open>With calls pending: matching results stay, the others become text, and every
  unmatched id is filled.\<close>

fun match_results ::
  "string list \<Rightarrow> content_block list \<Rightarrow> content_block list \<times> string list \<times> nat" where
  "match_results pend [] = ([], [], 0)"
| "match_results pend (b # bs) =
     (let (cs, matched, n) = match_results pend bs in
      case b of
        ToolResult i _ _ _ \<Rightarrow>
          if i \<in> set pend then (b # cs, i # matched, n) else (downgradeResult b # cs, matched, Suc n)
      | WebSearchToolResult _ _ \<Rightarrow> (downgradeResult b # cs, matched, Suc n)
      | _ \<Rightarrow> (b # cs, matched, n))"

definition answer_pending :: "repair_state \<Rightarrow> nat \<Rightarrow> message \<Rightarrow> repair_state" where
  "answer_pending s i m =
     (let (kept, matched, n) = match_results (pendingToolUseIds s) (content m);
          unmatched = filter (\<lambda>x. x \<notin> set matched) (pendingToolUseIds s);
          st = (rstats s)\<lparr>orphanToolResultsDowngraded := orphanToolResultsDowngraded (rstats s) + n,
                 missingToolResultsInserted :=
                   missingToolResultsInserted (rstats s) + missing_count (recoveredResults s) unmatched\<rparr>
      in s\<lparr>result := result s @
             [(\<lparr>role = User, content = kept @ map (fill_result (recoveredResults s)) unmatched\<rparr>, Some i)],
           pendingToolUseIds := [], recoveredResults := [], rstats := st\<rparr>)"

definition is_result_block :: "content_block \<Rightarrow> bool" where
  "is_result_block b \<longleftrightarrow> (case b of ToolResult _ _ _ _ \<Rightarrow> True | WebSearchToolResult _ _ \<Rightarrow> True | _ \<Rightarrow> False)"

definition downgrade_all :: "repair_state \<Rightarrow> nat \<Rightarrow> message \<Rightarrow> repair_state" where
  "downgrade_all s i m =
     s\<lparr>result := result s @ [(\<lparr>role = User, content = map downgradeResult (content m)\<rparr>, Some i)],
       rstats := (rstats s)\<lparr>orphanToolResultsDowngraded :=
         orphanToolResultsDowngraded (rstats s) + length (filter is_result_block (content m))\<rparr>\<rparr>"

definition repair_user :: "nat \<Rightarrow> message \<Rightarrow> repair_state \<Rightarrow> repair_state" where
  "repair_user i m s = (if pendingToolUseIds s \<noteq> [] then answer_pending s i m else downgrade_all s i m)"

fun repair_loop :: "server_tool_pairing \<Rightarrow> nat \<Rightarrow> message list \<Rightarrow> repair_state \<Rightarrow> repair_state" where
  "repair_loop p i [] s = s"
| "repair_loop p i (m # ms) s =
     repair_loop p (Suc i) ms
       (case role m of Assistant \<Rightarrow> repair_assistant p i m s | User \<Rightarrow> repair_user i m s)"

section \<open>Merging neighbours of one role\<close>

definition append_merge :: "message list \<Rightarrow> message \<Rightarrow> message list" where
  "append_merge merged m =
     (if merged \<noteq> [] \<and> role (last merged) = role m
      then butlast merged @ [(last merged)\<lparr>content := content (last merged) @ content m\<rparr>]
      else merged @ [m])"

fun merge_loop ::
  "(message \<times> nat option) list \<Rightarrow> message list \<Rightarrow> nat \<Rightarrow> nat option list
   \<Rightarrow> message list \<times> nat \<times> nat option list" where
  "merge_loop [] merged n idx = (merged, n, idx)"
| "merge_loop ((m, src) # rs) merged n idx =
     (let merged' = append_merge merged m;
          n' = (if length merged' = length merged then Suc n else n);
          idx' = (case src of Some k \<Rightarrow> idx[k := Some (length merged' - 1)] | None \<Rightarrow> idx)
      in merge_loop rs merged' n' idx')"

definition repair_init :: repair_state where
  "repair_init = \<lparr>result = [], pendingToolUseIds = [], recoveredResults = [], rstats = zero_stats\<rparr>"

definition repairHistory :: "message list \<Rightarrow> repair_result" where
  "repairHistory ms =
     (let s = flush_pending (repair_loop (analyzeServerToolPairing ms) 0 ms repair_init);
          (merged, n, idx) = merge_loop (result s) [] 0 (replicate (length ms) None)
      in \<lparr>messages = merged,
          stats = (rstats s)\<lparr>consecutiveSameRoleMerged := consecutiveSameRoleMerged (rstats s) + n\<rparr>,
          inputToOutputIndex = Some idx\<rparr>)"

text \<open>The per-turn wrapper: the repaired messages, and whether the warning is logged.\<close>

definition repairHistoryForRun :: "message list \<Rightarrow> message list \<times> bool" where
  "repairHistoryForRun ms =
     (let r = repairHistory ms; st = stats r in
      (messages r,
       assistantToolResultsMigrated st > 0 \<or> missingToolResultsInserted st > 0 \<or>
       orphanToolResultsDowngraded st > 0 \<or> consecutiveSameRoleMerged st > 0))"

definition deepRepairHistory :: "message list \<Rightarrow> bool \<Rightarrow> repair_result" where
  "deepRepairHistory ms requireUserTerminal =
     (let cleaned = filter (\<lambda>m. \<not> isEffectivelyEmptyContent (content m)) ms;
          userFirst = dropWhile (\<lambda>m. role m = Assistant) cleaned;
          merged = foldl append_merge [] userFirst;
          trimmed = (if requireUserTerminal
                     then rev (dropWhile (\<lambda>m. role m = Assistant) (rev merged)) else merged);
          r = repairHistory trimmed
      in \<lparr>messages = messages r, stats = stats r, inputToOutputIndex = None\<rparr>)"

section \<open>The provider's rules\<close>

text \<open>
  \<open>provider_ok ids ms\<close>: \<open>ms\<close> may follow an assistant message whose tool calls are \<open>ids\<close>.
  Every tool call of an assistant message is answered in the very next message, a user
  message, and user messages answer nothing else; assistant messages carry no client-side
  results.
\<close>

fun provider_ok :: "string list \<Rightarrow> message list \<Rightarrow> bool" where
  "provider_ok ids [] \<longleftrightarrow> ids = []"
| "provider_ok ids (m # ms) \<longleftrightarrow>
     (case role m of
        Assistant \<Rightarrow> ids = [] \<and> tool_result_ids (content m) = [] \<and>
                     provider_ok (tool_use_ids (content m)) ms
      | User \<Rightarrow> set (tool_result_ids (content m)) = set ids \<and> provider_ok [] ms)"

fun alternating :: "message list \<Rightarrow> bool" where
  "alternating (m # n # ms) \<longleftrightarrow> role m \<noteq> role n \<and> alternating (n # ms)"
| "alternating _ \<longleftrightarrow> True"

text \<open>The server-side half: no server block of the history is an orphan, and user messages
  carry no server results.\<close>

definition server_clean :: "message list \<Rightarrow> bool" where
  "server_clean ms \<longleftrightarrow> (\<forall>m \<in> set ms.
     case role m of
       Assistant \<Rightarrow> orphanedServerIds (analyzeServerToolPairing ms) (content m) = [] \<and>
                    orphanedWebSearchResultIds (analyzeServerToolPairing ms) (content m) = []
     | User \<Rightarrow> web_result_ids (content m) = [])"

section \<open>Lemmas on the helpers\<close>

text \<open>A recovered result is stored under the id it answers.\<close>

definition rec_ok :: "(string, content_block) js_map \<Rightarrow> bool" where
  "rec_ok rec \<longleftrightarrow> (\<forall>i b. js_get rec i = Some b \<longrightarrow> (\<exists>c e r. b = ToolResult i c e r))"

definition carries :: "message \<Rightarrow> message \<Rightarrow> bool" where
  "carries m m' \<longleftrightarrow> role m' = role m \<and> {b \<in> set (content m). \<not> is_result_block b} \<subseteq> set (content m')"

definition somes :: "('a \<times> nat option) list \<Rightarrow> nat list" where
  "somes es = concat (map (\<lambda>e. case snd e of None \<Rightarrow> [] | Some k \<Rightarrow> [k]) es)"

definition no_server_blocks :: "message \<Rightarrow> bool" where
  "no_server_blocks m \<longleftrightarrow> server_use_ids (content m) = [] \<and> web_result_ids (content m) = []"

lemma rec_ok_Nil [simp]: "rec_ok []"
  by (simp add: rec_ok_def)

lemma fill_result_shape: "rec_ok rec \<Longrightarrow> \<exists>c e r. fill_result rec i = ToolResult i c e r"
  by (auto simp: rec_ok_def fill_result_def synthetic_result_def split: option.splits)

lemma result_ids_fill: "rec_ok rec \<Longrightarrow> tool_result_ids (map (fill_result rec) ids) = ids"
proof (induction ids)
  case (Cons i ids)
  then obtain c e r where "fill_result rec i = ToolResult i c e r" using fill_result_shape by blast
  with Cons show ?case by simp
qed simp

lemma use_ids_fill: "rec_ok rec \<Longrightarrow> tool_use_ids (map (fill_result rec) ids) = []"
proof (induction ids)
  case (Cons i ids)
  then obtain c e r where "fill_result rec i = ToolResult i c e r" using fill_result_shape by blast
  with Cons show ?case by simp
qed simp

lemma server_ids_fill:
  "rec_ok rec \<Longrightarrow> server_use_ids (map (fill_result rec) ids) = [] \<and> web_result_ids (map (fill_result rec) ids) = []"
proof (induction ids)
  case (Cons i ids)
  then obtain c e r where "fill_result rec i = ToolResult i c e r" using fill_result_shape by blast
  with Cons show ?case by simp
qed simp

lemma strip_tool_results_eq:
  "strip_tool_results bs cleaned rec n =
     (cleaned @ filter (\<lambda>b. \<not> isToolResultShapedBlock b) bs,
      foldl (\<lambda>m b. case b of ToolResult i _ _ _ \<Rightarrow> js_set i b m | _ \<Rightarrow> m) rec bs,
      n + length (filter isToolResultShapedBlock bs))"
proof (induction bs arbitrary: cleaned rec n)
  case (Cons b bs)
  show ?case by (cases b) (auto simp: Cons)
qed simp

lemma rec_ok_set: "rec_ok rec \<Longrightarrow> rec_ok (js_set i (ToolResult i c e r) rec)"
  by (auto simp: rec_ok_def)

lemma rec_ok_fold:
  "rec_ok rec \<Longrightarrow> rec_ok (foldl (\<lambda>m b. case b of ToolResult i _ _ _ \<Rightarrow> js_set i b m | _ \<Rightarrow> m) rec bs)"
proof (induction bs arbitrary: rec)
  case (Cons b bs)
  then show ?case by (cases b) (auto intro!: Cons.IH rec_ok_set)
qed simp

lemma no_results_stripped:
  "tool_result_ids (filter (\<lambda>b. \<not> isToolResultShapedBlock b) bs) = []"
proof (induction bs)
  case (Cons b bs)
  then show ?case by (cases b) auto
qed simp

lemma stripped_keeps:
  "{b \<in> set bs. \<not> is_result_block b} \<subseteq> set (filter (\<lambda>b. \<not> isToolResultShapedBlock b) bs)"
proof
  fix b assume "b \<in> {b \<in> set bs. \<not> is_result_block b}"
  then show "b \<in> set (filter (\<lambda>b. \<not> isToolResultShapedBlock b) bs)"
    by (cases b) (auto simp: is_result_block_def)
qed

lemma repair_server_blocks_ids:
  "repair_server_blocks osrv oweb bs st = (cs, st') \<Longrightarrow>
     tool_use_ids cs = tool_use_ids bs \<and> tool_result_ids cs = tool_result_ids bs"
proof (induction bs arbitrary: st cs st')
  case (Cons b bs)
  then show ?case by (cases b) (auto split: prod.splits if_splits)
qed auto

lemma repair_server_blocks_keeps:
  "repair_server_blocks osrv oweb bs st = (cs, st') \<Longrightarrow> b \<in> set bs \<Longrightarrow> \<not> is_result_block b \<Longrightarrow> b \<in> set cs"
proof (induction bs arbitrary: st cs st')
  case (Cons c bs)
  then show ?case
    by (cases c) (auto simp: is_result_block_def split: prod.splits if_splits)
qed auto

lemma match_results_Cons:
  assumes "match_results pend bs = (cs, mt, k)"
  shows "match_results pend (b # bs) =
    (case b of
       ToolResult i _ _ _ \<Rightarrow> if i \<in> set pend then (b # cs, i # mt, k) else (downgradeResult b # cs, mt, Suc k)
     | WebSearchToolResult _ _ \<Rightarrow> (downgradeResult b # cs, mt, Suc k)
     | _ \<Rightarrow> (b # cs, mt, k))"
  by (simp add: assms)

lemma match_results_props:
  assumes "match_results pend bs = (kept, matched, n)"
  shows "tool_result_ids kept = matched \<and>
    matched = filter (\<lambda>i. i \<in> set pend) (tool_result_ids bs) \<and> web_result_ids kept = []"
  using assms
proof (induction bs arbitrary: kept matched n)
  case (Cons b bs)
  obtain cs mt k where r: "match_results pend bs = (cs, mt, k)" by (cases "match_results pend bs")
  show ?case using Cons.IH [OF r] Cons.prems unfolding match_results_Cons [OF r]
    by (cases b) (auto split: if_splits)
qed auto

lemma match_results_keeps:
  "match_results pend bs = (kept, matched, n) \<Longrightarrow> c \<in> set bs \<Longrightarrow> \<not> is_result_block c \<Longrightarrow> c \<in> set kept"
proof (induction bs arbitrary: kept matched n)
  case (Cons b bs)
  obtain cs mt k where r: "match_results pend bs = (cs, mt, k)" by (cases "match_results pend bs")
  show ?case using Cons.IH [OF r] Cons.prems unfolding match_results_Cons [OF r]
    by (cases b) (auto simp: is_result_block_def split: if_splits)
qed auto

lemma match_results_server:
  "match_results pend bs = (kept, matched, n) \<Longrightarrow> server_use_ids kept = server_use_ids bs"
proof (induction bs arbitrary: kept matched n)
  case (Cons b bs)
  obtain cs mt k where r: "match_results pend bs = (cs, mt, k)" by (cases "match_results pend bs")
  show ?case using Cons.IH [OF r] Cons.prems unfolding match_results_Cons [OF r]
    by (cases b) (auto split: if_splits)
qed auto

lemma downgrade_ids:
  "tool_result_ids (map downgradeResult bs) = []" "web_result_ids (map downgradeResult bs) = []"
  "server_use_ids (map downgradeResult bs) = server_use_ids bs"
proof (induction bs)
  case (Cons b bs)
  { case 1 show ?case using Cons(1) by (cases b) auto
  next case 2 show ?case using Cons(2) by (cases b) auto
  next case 3 show ?case using Cons(3) by (cases b) auto }
qed auto

lemma downgrade_keeps: "{b \<in> set bs. \<not> is_result_block b} \<subseteq> set (map downgradeResult bs)"
proof
  fix b assume b: "b \<in> {b \<in> set bs. \<not> is_result_block b}"
  then have "downgradeResult b = b" by (cases b) (auto simp: is_result_block_def)
  with b show "b \<in> set (map downgradeResult bs)" by force
qed

section \<open>The loop keeps the provider's rules\<close>

lemma provider_ok_cong: "set ids = set ids' \<Longrightarrow> provider_ok ids ms = provider_ok ids' ms"
  by (cases ms) (auto split: role.splits)

text \<open>The invariant: whatever may follow the pending calls may follow the whole result.\<close>

definition loop_inv :: "repair_state \<Rightarrow> bool" where
  "loop_inv s \<longleftrightarrow> rec_ok (recoveredResults s) \<and>
     (\<forall>rest. provider_ok (pendingToolUseIds s) rest \<longrightarrow> provider_ok [] (map fst (result s) @ rest))"

lemma loop_inv_flush: "loop_inv s \<Longrightarrow> loop_inv (flush_pending s)"
  by (auto simp: loop_inv_def flush_pending_def buildResultMessage_def result_ids_fill)

lemma flush_pending_done [simp]: "pendingToolUseIds (flush_pending s) = []"
  by (auto simp: flush_pending_def buildResultMessage_def)

lemma repair_content_ids:
  "repair_content p bs st = (cs, st') \<Longrightarrow>
     tool_use_ids cs = tool_use_ids bs \<and> tool_result_ids cs = tool_result_ids bs"
  using repair_server_blocks_ids by (auto simp: repair_content_def Let_def split: if_splits)

lemma repair_content_keeps:
  "repair_content p bs st = (cs, st') \<Longrightarrow> b \<in> set bs \<Longrightarrow> \<not> is_result_block b \<Longrightarrow> b \<in> set cs"
  using repair_server_blocks_keeps by (auto simp: repair_content_def Let_def split: if_splits)

lemma repair_assistant_eq:
  assumes "repair_content p (filter (\<lambda>b. \<not> isToolResultShapedBlock b) (content m))
     ((rstats (flush_pending s))\<lparr>assistantToolResultsMigrated :=
        assistantToolResultsMigrated (rstats (flush_pending s)) +
        length (filter isToolResultShapedBlock (content m))\<rparr>) = (repaired, st)"
  shows "repair_assistant p i m s = (flush_pending s)
     \<lparr>result := result (flush_pending s) @ [(\<lparr>role = Assistant, content = repaired\<rparr>, Some i)],
      pendingToolUseIds := js_set_of (tool_use_ids (filter (\<lambda>b. \<not> isToolResultShapedBlock b) (content m))),
      recoveredResults :=
        foldl (\<lambda>m b. case b of ToolResult i _ _ _ \<Rightarrow> js_set i b m | _ \<Rightarrow> m) [] (content m),
      rstats := st\<rparr>"
  by (simp add: repair_assistant_def Let_def strip_tool_results_eq assms)

lemma loop_inv_assistant: "loop_inv s \<Longrightarrow> loop_inv (repair_assistant p i m s)"
proof -
  assume "loop_inv s"
  then have inv: "loop_inv (flush_pending s)" by (rule loop_inv_flush)
  let ?c = "filter (\<lambda>b. \<not> isToolResultShapedBlock b) (content m)"
  obtain repaired st where r: "repair_content p ?c
     ((rstats (flush_pending s))\<lparr>assistantToolResultsMigrated :=
        assistantToolResultsMigrated (rstats (flush_pending s)) +
        length (filter isToolResultShapedBlock (content m))\<rparr>) = (repaired, st)"
    by (cases "repair_content p ?c
     ((rstats (flush_pending s))\<lparr>assistantToolResultsMigrated :=
        assistantToolResultsMigrated (rstats (flush_pending s)) +
        length (filter isToolResultShapedBlock (content m))\<rparr>)")
  note eq = repair_assistant_eq [OF r]
  have "provider_ok (js_set_of (tool_use_ids ?c)) rest = provider_ok (tool_use_ids ?c) rest" for rest
    by (rule provider_ok_cong) simp
  then show ?thesis
    using inv repair_content_ids [OF r] no_results_stripped
    by (simp add: loop_inv_def eq rec_ok_fold)
qed

lemma answer_pending_ids:
  assumes "rec_ok rec" and "match_results pend bs = (kept, matched, n)"
  shows "set (tool_result_ids (kept @ map (fill_result rec) (filter (\<lambda>x. x \<notin> set matched) pend))) = set pend"
  using match_results_props [OF assms(2)] by (auto simp: result_ids_fill assms(1))

lemma loop_inv_user: "loop_inv s \<Longrightarrow> loop_inv (repair_user i m s)"
proof -
  assume inv: "loop_inv s"
  obtain kept matched n where r: "match_results (pendingToolUseIds s) (content m) = (kept, matched, n)"
    by (metis prod_cases3)
  have "rec_ok (recoveredResults s)" using inv by (simp add: loop_inv_def)
  note ids = answer_pending_ids [OF this r]
  show ?thesis
  proof (cases "pendingToolUseIds s = []")
    case True
    then show ?thesis using inv by (simp add: loop_inv_def repair_user_def downgrade_all_def downgrade_ids)
  next
    case False
    then show ?thesis using inv ids
      by (simp add: loop_inv_def repair_user_def answer_pending_def r Let_def del: tool_result_ids_append)
  qed
qed

lemma loop_inv_loop: "loop_inv s \<Longrightarrow> loop_inv (repair_loop p i ms s)"
proof (induction ms arbitrary: i s)
  case (Cons m ms)
  then show ?case
    by (cases "role m") (auto intro!: Cons.IH loop_inv_assistant loop_inv_user)
qed simp

lemma raw_provider_ok:
  "provider_ok [] (map fst (result (flush_pending (repair_loop p i ms repair_init))))"
proof -
  let ?s = "flush_pending (repair_loop p i ms repair_init)"
  have "loop_inv repair_init" by (simp add: loop_inv_def repair_init_def)
  then have "loop_inv ?s" by (intro loop_inv_flush loop_inv_loop)
  then have "provider_ok [] [] \<longrightarrow> provider_ok [] (map fst (result ?s) @ [])"
    unfolding loop_inv_def flush_pending_done by blast
  then show ?thesis by simp
qed

section \<open>The merge pass\<close>

lemma merge_loop_messages:
  "merge_loop rs merged n idx = (merged', n', idx') \<Longrightarrow> merged' = foldl append_merge merged (map fst rs)"
  by (induction rs merged n idx rule: merge_loop.induct) (auto simp: Let_def)

lemma alternating_append:
  "alternating (xs @ ys) \<longleftrightarrow> alternating xs \<and> alternating ys \<and>
     (xs \<noteq> [] \<longrightarrow> ys \<noteq> [] \<longrightarrow> role (last xs) \<noteq> role (hd ys))"
proof (induction xs rule: alternating.induct)
  case "2_2"
  show ?case by (cases ys) auto
qed auto

lemma append_merge_last:
  "append_merge (xs @ [l]) m =
     (if role l = role m then xs @ [l\<lparr>content := content l @ content m\<rparr>] else xs @ [l, m])"
  by (simp add: append_merge_def)

lemma append_merge_Nil [simp]: "append_merge [] m = [m]"
  by (simp add: append_merge_def)

lemma alternating_append_merge: "alternating ms \<Longrightarrow> alternating (append_merge ms m)"
proof (cases ms rule: rev_cases)
  case (snoc xs l)
  then show "alternating ms \<Longrightarrow> ?thesis"
    by (auto simp: append_merge_last alternating_append)
qed simp

lemma alternating_foldl: "alternating ms \<Longrightarrow> alternating (foldl append_merge ms rs)"
  by (induction rs arbitrary: ms) (auto simp: alternating_append_merge)

lemma provider_ok_merge_pair:
  "provider_ok ids (xs @ l # m # ys) \<Longrightarrow> role l = role m \<Longrightarrow>
   provider_ok ids (xs @ l\<lparr>content := content l @ content m\<rparr> # ys)"
proof (induction xs arbitrary: ids)
  case Nil
  then show ?case by (cases "role m") auto
next
  case (Cons x xs)
  then show ?case by (cases "role x") auto
qed

lemma provider_ok_foldl:
  "provider_ok ids (merged @ ms) \<Longrightarrow> provider_ok ids (foldl append_merge merged ms)"
proof (induction ms arbitrary: merged)
  case (Cons m ms)
  have "provider_ok ids (append_merge merged m @ ms)"
  proof (cases merged rule: rev_cases)
    case Nil
    then show ?thesis using Cons.prems by simp
  next
    case (snoc xs l)
    then show ?thesis
      using Cons.prems provider_ok_merge_pair [of ids xs l m ms]
      by (auto simp: append_merge_last)
  qed
  then show ?case using Cons.IH by simp
qed simp

lemma append_merge_grows:
  assumes "k < length ms"
  shows "k < length (append_merge ms m) \<and> role (append_merge ms m ! k) = role (ms ! k) \<and>
    set (content (ms ! k)) \<subseteq> set (content (append_merge ms m ! k))"
proof (cases ms rule: rev_cases)
  case (snoc xs l)
  then show ?thesis using assms
    by (auto simp: append_merge_last nth_append less_Suc_eq)
qed (use assms in simp)

lemma foldl_append_merge_grows:
  "k < length ms \<Longrightarrow> k < length (foldl append_merge ms rs) \<and>
    role (foldl append_merge ms rs ! k) = role (ms ! k) \<and>
    set (content (ms ! k)) \<subseteq> set (content (foldl append_merge ms rs ! k))"
proof (induction rs arbitrary: ms)
  case (Cons r rs)
  note step = append_merge_grows [OF Cons.prems, of r]
  then have "k < length (append_merge ms r)" by simp
  from Cons.IH [OF this] step show ?case by force
qed simp

lemma append_merge_at:
  "append_merge ms m \<noteq> [] \<and> role (last (append_merge ms m)) = role m \<and>
   set (content m) \<subseteq> set (content (last (append_merge ms m)))"
  by (auto simp: append_merge_def)

lemma merge_loop_length:
  "merge_loop rs merged n idx = (merged', n', idx') \<Longrightarrow> length idx' = length idx"
  by (induction rs merged n idx rule: merge_loop.induct) (auto simp: Let_def split: option.splits)

lemma somes_Cons [simp]:
  "somes (e # es) = (case snd e of None \<Rightarrow> somes es | Some k \<Rightarrow> k # somes es)"
  by (auto simp: somes_def split: option.splits)

lemma somes_Nil [simp]: "somes [] = []"
  by (simp add: somes_def)

lemma somes_append [simp]: "somes (xs @ ys) = somes xs @ somes ys"
  by (simp add: somes_def)

lemma merge_loop_keeps_idx:
  "merge_loop rs merged n idx = (merged', n', idx') \<Longrightarrow> k \<notin> set (somes rs) \<Longrightarrow> idx' ! k = idx ! k"
  by (induction rs merged n idx rule: merge_loop.induct) (auto simp: Let_def split: option.splits)

lemma mem_somes: "(m, Some k) \<in> set rs \<Longrightarrow> k \<in> set (somes rs)"
  by (induction rs) (auto split: option.splits)

lemma merge_loop_indexes:
  assumes "merge_loop rs merged n idx = (merged', n', idx')"
    and "(m, Some k) \<in> set rs" and "distinct (somes rs)" and "k < length idx"
  shows "\<exists>pos. idx' ! k = Some pos \<and> pos < length merged' \<and> role (merged' ! pos) = role m \<and>
    set (content m) \<subseteq> set (content (merged' ! pos))"
  using assms
proof (induction rs merged n idx rule: merge_loop.induct)
  case (2 x src rs merged n idx)
  let ?mg = "append_merge merged x"
  let ?n = "if length ?mg = length merged then Suc n else n"
  let ?idx = "case src of Some k \<Rightarrow> idx[k := Some (length ?mg - 1)] | None \<Rightarrow> idx"
  have rec: "merge_loop rs ?mg ?n ?idx = (merged', n', idx')" using "2.prems"(1) by (simp add: Let_def)
  have len: "k < length ?idx" using "2.prems"(4) by (simp split: option.splits)
  have dist: "distinct (somes rs)" using "2.prems"(3) by (simp split: option.splits)
  show ?case
  proof (cases "(m, Some k) \<in> set rs")
    case True
    show ?thesis by (rule "2.IH" [OF refl refl refl rec True dist len])
  next
    case False
    then have here: "x = m" "src = Some k" using "2.prems"(2) by auto
    then have "k \<notin> set (somes rs)" using "2.prems"(3) by simp
    then have idx: "idx' ! k = Some (length ?mg - 1)"
      using merge_loop_keeps_idx [OF rec] here "2.prems"(4) by simp
    have mg: "merged' = foldl append_merge ?mg (map fst rs)" by (rule merge_loop_messages [OF rec])
    have at: "?mg \<noteq> []" "role (last ?mg) = role x" "set (content x) \<subseteq> set (content (last ?mg))"
      using append_merge_at [of merged x] by auto
    then have "length ?mg - 1 < length ?mg" by (cases ?mg) auto
    from foldl_append_merge_grows [OF this, of "map fst rs"] at here mg idx show ?thesis
      by (auto simp: last_conv_nth)
  qed
qed simp

section \<open>Every input message is carried\<close>

lemma flush_pending_result:
  "\<exists>new. result (flush_pending s) = result s @ new \<and> somes new = []"
  by (auto simp: flush_pending_def buildResultMessage_def)

lemma repair_assistant_result:
  "\<exists>new m'. result (repair_assistant p i m s) = result s @ new @ [(m', Some i)] \<and> somes new = [] \<and>
     (role m = Assistant \<longrightarrow> carries m m')"
proof -
  obtain new where new: "result (flush_pending s) = result s @ new" "somes new = []"
    using flush_pending_result by blast
  let ?c = "filter (\<lambda>b. \<not> isToolResultShapedBlock b) (content m)"
  obtain repaired st where c: "repair_content p ?c
     ((rstats (flush_pending s))\<lparr>assistantToolResultsMigrated :=
        assistantToolResultsMigrated (rstats (flush_pending s)) +
        length (filter isToolResultShapedBlock (content m))\<rparr>) = (repaired, st)"
    by (cases "repair_content p ?c
     ((rstats (flush_pending s))\<lparr>assistantToolResultsMigrated :=
        assistantToolResultsMigrated (rstats (flush_pending s)) +
        length (filter isToolResultShapedBlock (content m))\<rparr>)")
  note r = repair_assistant_eq [OF c, of i]
  have keep: "set ?c \<inter> {b. \<not> is_result_block b} \<subseteq> set repaired"
    using repair_content_keeps [OF c] by auto
  have "carries m \<lparr>role = Assistant, content = repaired\<rparr>" if "role m = Assistant"
    using that keep stripped_keeps [of "content m"] by (auto simp: carries_def)
  with new r show ?thesis by auto
qed

lemma repair_user_result:
  "\<exists>m'. result (repair_user i m s) = result s @ [(m', Some i)] \<and> (role m = User \<longrightarrow> carries m m')"
proof -
  obtain kept matched n where r: "match_results (pendingToolUseIds s) (content m) = (kept, matched, n)"
    by (cases "match_results (pendingToolUseIds s) (content m)")
  show ?thesis
    using match_results_keeps [OF r] downgrade_keeps [of "content m"]
    by (auto simp: repair_user_def answer_pending_def downgrade_all_def carries_def r Let_def)
qed

lemma repair_step_result:
  "\<exists>new m'. result (case role m of Assistant \<Rightarrow> repair_assistant p i m s | User \<Rightarrow> repair_user i m s) =
     result s @ new @ [(m', Some i)] \<and> somes new = [] \<and> carries m m'"
proof (cases "role m")
  case User
  then show ?thesis using repair_user_result [of i m s] by fastforce
next
  case Assistant
  then show ?thesis using repair_assistant_result [of p i m s] by simp
qed

lemma repair_loop_result:
  "\<exists>new. result (repair_loop p i ms s) = result s @ new \<and> somes new = [i..<i + length ms] \<and>
     (\<forall>j < length ms. \<exists>m'. (m', Some (i + j)) \<in> set new \<and> carries (ms ! j) m')"
proof (induction ms arbitrary: i s)
  case (Cons m ms)
  let ?s = "case role m of Assistant \<Rightarrow> repair_assistant p i m s | User \<Rightarrow> repair_user i m s"
  obtain new1 m1 where 1: "result ?s = result s @ new1 @ [(m1, Some i)]" "somes new1 = []" "carries m m1"
    using repair_step_result by blast
  obtain new2 where 2: "result (repair_loop p (Suc i) ms ?s) = result ?s @ new2"
      "somes new2 = [Suc i..<Suc i + length ms]"
      "\<forall>j < length ms. \<exists>m'. (m', Some (Suc i + j)) \<in> set new2 \<and> carries (ms ! j) m'"
    using Cons.IH by blast
  have "\<exists>m'. (m', Some (i + j)) \<in> set (new1 @ [(m1, Some i)] @ new2) \<and> carries ((m # ms) ! j) m'"
    if "j < length (m # ms)" for j
    using that 1(3) 2(3) by (cases j) auto
  moreover have "somes (new1 @ [(m1, Some i)] @ new2) = [i..<i + length (m # ms)]"
    using 1(2) 2(2) by (simp add: upt_rec)
  ultimately show ?case using 1(1) 2(1) by (intro exI [of _ "new1 @ [(m1, Some i)] @ new2"]) simp
qed simp

section \<open>The whole pass\<close>

abbreviation repaired_raw :: "message list \<Rightarrow> (message \<times> nat option) list" where
  "repaired_raw ms \<equiv> result (flush_pending (repair_loop (analyzeServerToolPairing ms) 0 ms repair_init))"

lemma repairHistory_messages:
  "messages (repairHistory ms) = foldl append_merge [] (map fst (repaired_raw ms))"
  using merge_loop_messages by (simp add: repairHistory_def Let_def split: prod.splits)

lemma repaired_ok:
  "provider_ok [] (messages (repairHistory ms))" "alternating (messages (repairHistory ms))"
  by (auto simp: repairHistory_messages intro!: provider_ok_foldl alternating_foldl raw_provider_ok)

lemma repaired_raw_sources:
  "somes (repaired_raw ms) = [0..<length ms] \<and>
   (\<forall>j < length ms. \<exists>m'. (m', Some j) \<in> set (repaired_raw ms) \<and> carries (ms ! j) m')"
proof -
  let ?s = "repair_loop (analyzeServerToolPairing ms) 0 ms repair_init"
  obtain new where new: "result ?s = result repair_init @ new" "somes new = [0..<0 + length ms]"
    "\<forall>j < length ms. \<exists>m'. (m', Some (0 + j)) \<in> set new \<and> carries (ms ! j) m'"
    using repair_loop_result by blast
  obtain more where "result (flush_pending ?s) = result ?s @ more" "somes more = []"
    using flush_pending_result by blast
  with new show ?thesis by (auto simp: repair_init_def)
qed

lemma hd_foldl_append_merge:
  "ms \<noteq> [] \<Longrightarrow> foldl append_merge ms rs \<noteq> [] \<and> role (hd (foldl append_merge ms rs)) = role (hd ms)"
  using foldl_append_merge_grows [of 0 ms rs] by (auto simp: hd_conv_nth)

lemma last_foldl_append_merge:
  "rs \<noteq> [] \<Longrightarrow> foldl append_merge ms rs \<noteq> [] \<and> role (last (foldl append_merge ms rs)) = role (last rs)"
proof (induction rs rule: rev_induct)
  case (snoc r rs)
  show ?case using append_merge_at [of "foldl append_merge ms rs" r] by simp
qed simp

lemma repair_user_pending [simp]: "pendingToolUseIds (repair_user i m s) = []"
  by (auto simp: repair_user_def answer_pending_def downgrade_all_def Let_def split: prod.splits)

lemma repair_loop_snoc:
  "repair_loop p i (ms @ [m]) s =
     (case role m of
        Assistant \<Rightarrow> repair_assistant p (i + length ms) m (repair_loop p i ms s)
      | User \<Rightarrow> repair_user (i + length ms) m (repair_loop p i ms s))"
  by (induction ms arbitrary: i s) (auto split: role.splits)

lemma raw_hd_role:
  assumes "ms \<noteq> []" and "role (hd ms) = User"
  shows "repaired_raw ms \<noteq> [] \<and> role (fst (hd (repaired_raw ms))) = User"
proof -
  obtain m ms' where ms: "ms = m # ms'" using assms by (cases ms) auto
  let ?p = "analyzeServerToolPairing ms"
  obtain m' where m': "result (repair_user 0 m repair_init) = [(m', Some 0)]" "carries m m'"
    using repair_user_result [of 0 m repair_init] assms ms by (auto simp: repair_init_def)
  obtain new where "result (repair_loop ?p (Suc 0) ms' (repair_user 0 m repair_init)) = [(m', Some 0)] @ new"
    using repair_loop_result [of ?p "Suc 0" ms' "repair_user 0 m repair_init"] m' by auto
  moreover obtain more where "result (flush_pending (repair_loop ?p 0 ms repair_init)) =
      result (repair_loop ?p 0 ms repair_init) @ more"
    using flush_pending_result by blast
  ultimately show ?thesis using assms ms m' by (simp add: carries_def)
qed

lemma raw_last_role:
  assumes "ms \<noteq> []" and "role (last ms) = User"
  shows "repaired_raw ms \<noteq> [] \<and> role (fst (last (repaired_raw ms))) = User"
proof -
  obtain ms' m where ms: "ms = ms' @ [m]" using assms by (cases ms rule: rev_cases) auto
  let ?s = "repair_loop (analyzeServerToolPairing ms) 0 ms' repair_init"
  have loop: "repair_loop (analyzeServerToolPairing ms) 0 ms repair_init = repair_user (length ms') m ?s"
    using assms by (simp add: ms repair_loop_snoc)
  obtain m' where "result (repair_user (length ms') m ?s) = result ?s @ [(m', Some (length ms'))]" "carries m m'"
    using repair_user_result [of "length ms'" m ?s] assms ms by auto
  with assms ms show ?thesis unfolding loop by (simp add: flush_pending_def carries_def)
qed

lemma repaired_ends:
  assumes "ms \<noteq> []"
  shows "role (hd ms) = User \<Longrightarrow> role (hd (messages (repairHistory ms))) = User"
    and "role (last ms) = User \<Longrightarrow> role (last (messages (repairHistory ms))) = User"
    and "role (hd ms) = User \<Longrightarrow> messages (repairHistory ms) \<noteq> []"
proof -
  assume h: "role (hd ms) = User"
  obtain e es where raw: "repaired_raw ms = e # es" "role (fst e) = User"
    using raw_hd_role [OF assms h] by (cases "repaired_raw ms") auto
  then show "role (hd (messages (repairHistory ms))) = User" "messages (repairHistory ms) \<noteq> []"
    using hd_foldl_append_merge [of "[fst e]" "map fst es"] by (simp_all add: repairHistory_messages)
next
  assume l: "role (last ms) = User"
  from raw_last_role [OF assms l] show "role (last (messages (repairHistory ms))) = User"
    using last_foldl_append_merge [of "map fst (repaired_raw ms)" "[]"]
    by (simp add: repairHistory_messages last_map)
qed

section \<open>Repaired histories are left alone\<close>

lemma downgrade_none:
  "tool_result_ids bs = [] \<Longrightarrow> web_result_ids bs = [] \<Longrightarrow>
   map downgradeResult bs = bs \<and> filter is_result_block bs = []"
proof (induction bs)
  case (Cons b bs)
  then show ?case by (cases b) (auto simp: is_result_block_def)
qed simp

lemma strip_none:
  "tool_result_ids bs = [] \<Longrightarrow>
   filter (\<lambda>b. \<not> isToolResultShapedBlock b) bs = bs \<and> filter isToolResultShapedBlock bs = []"
proof (induction bs)
  case (Cons b bs)
  then show ?case by (cases b) auto
qed simp

lemma match_all:
  "set (tool_result_ids bs) \<subseteq> set pend \<Longrightarrow> web_result_ids bs = [] \<Longrightarrow>
   match_results pend bs = (bs, tool_result_ids bs, 0)"
proof (induction bs)
  case (Cons b bs)
  then show ?case by (cases b) auto
qed simp

definition clean_for :: "server_tool_pairing \<Rightarrow> message \<Rightarrow> bool" where
  "clean_for p m \<longleftrightarrow> (case role m of
     Assistant \<Rightarrow> orphanedServerIds p (content m) = [] \<and> orphanedWebSearchResultIds p (content m) = []
   | User \<Rightarrow> web_result_ids (content m) = [])"

lemma repair_assistant_clean:
  assumes "role m = Assistant" and "tool_result_ids (content m) = []" and "clean_for p m"
    and "pendingToolUseIds s = []"
  shows "result (repair_assistant p i m s) = result s @ [(m, Some i)] \<and>
    pendingToolUseIds (repair_assistant p i m s) = js_set_of (tool_use_ids (content m)) \<and>
    rstats (repair_assistant p i m s) = rstats s"
proof -
  have f: "flush_pending s = s" using assms(4) by (simp add: flush_pending_def)
  have c: "repair_content p (filter (\<lambda>b. \<not> isToolResultShapedBlock b) (content m))
     ((rstats (flush_pending s))\<lparr>assistantToolResultsMigrated :=
        assistantToolResultsMigrated (rstats (flush_pending s)) +
        length (filter isToolResultShapedBlock (content m))\<rparr>) = (content m, rstats s)"
    using assms strip_none [OF assms(2)] by (simp add: f repair_content_def clean_for_def)
  show ?thesis
    using assms strip_none [OF assms(2)] by (simp add: repair_assistant_eq [OF c] f)
qed

lemma repair_user_clean:
  assumes "role m = User" and "set (tool_result_ids (content m)) = set (pendingToolUseIds s)"
    and "clean_for p m"
  shows "result (repair_user i m s) = result s @ [(m, Some i)] \<and> rstats (repair_user i m s) = rstats s"
proof (cases "pendingToolUseIds s = []")
  case True
  then show ?thesis
    using assms downgrade_none [of "content m"]
    by (simp add: repair_user_def downgrade_all_def clean_for_def)
next
  case False
  have w: "web_result_ids (content m) = []" using assms by (simp add: clean_for_def)
  have mr: "match_results (pendingToolUseIds s) (content m) = (content m, tool_result_ids (content m), 0)"
    by (rule match_all) (use assms w in auto)
  have un: "filter (\<lambda>x. x \<notin> set (tool_result_ids (content m))) (pendingToolUseIds s) = []"
    using assms(2) by simp
  have mc: "missing_count r [] = 0" for r by (simp add: missing_count_def)
  show ?thesis using False assms(1)
    by (simp add: repair_user_def answer_pending_def mr un mc Let_def del: filter_False)
qed

lemma repair_loop_clean:
  assumes "provider_ok ids ms" and "set (pendingToolUseIds s) = set ids" and "\<forall>m \<in> set ms. clean_for p m"
  shows "result (repair_loop p i ms s) = result s @ zip ms (map Some [i..<i + length ms]) \<and>
    rstats (repair_loop p i ms s) = rstats s \<and> pendingToolUseIds (repair_loop p i ms s) = []"
  using assms
proof (induction ms arbitrary: i s ids)
  case (Cons m ms)
  have c: "clean_for p m" "\<forall>m \<in> set ms. clean_for p m" using Cons.prems(3) by auto
  have upt: "[i..<i + length (m # ms)] = i # [Suc i..<Suc i + length ms]" by (simp add: upt_rec)
  show ?case
  proof (cases "role m")
    case User
    with Cons.prems have "set (tool_result_ids (content m)) = set (pendingToolUseIds s)" "provider_ok [] ms"
      by auto
    with repair_user_clean [OF User _ c(1)] Cons.IH [of "[]" "repair_user i m s" "Suc i"] c(2) User
    show ?thesis unfolding upt by simp
  next
    case Assistant
    with Cons.prems have *: "pendingToolUseIds s = []" "tool_result_ids (content m) = []"
      "provider_ok (tool_use_ids (content m)) ms" by auto
    with repair_assistant_clean [OF Assistant *(2) c(1) *(1), of i]
      Cons.IH [of "tool_use_ids (content m)" "repair_assistant p i m s" "Suc i"] c(2) Assistant
    show ?thesis unfolding upt by simp
  qed
qed simp

lemma foldl_append_merge_alternating:
  "alternating (merged @ ms) \<Longrightarrow> foldl append_merge merged ms = merged @ ms"
proof (induction ms arbitrary: merged)
  case (Cons m ms)
  have "append_merge merged m = merged @ [m]"
    using Cons.prems by (auto simp: append_merge_def alternating_append)
  with Cons show ?case by simp
qed simp

lemma merge_count_alternating:
  "alternating (merged @ map fst rs) \<Longrightarrow> merge_loop rs merged n idx = (merged', n', idx') \<Longrightarrow> n' = n"
proof (induction rs merged n idx rule: merge_loop.induct)
  case (2 m src rs merged n idx)
  have "append_merge merged m = merged @ [m]"
    using "2.prems" by (auto simp: append_merge_def alternating_append)
  with 2 show ?case by (simp add: Let_def)
qed simp

lemma server_clean_iff: "server_clean ms \<longleftrightarrow> (\<forall>m \<in> set ms. clean_for (analyzeServerToolPairing ms) m)"
  by (simp add: server_clean_def clean_for_def)

lemma clean_history_unchanged:
  assumes "alternating ms" and "provider_ok [] ms" and "server_clean ms"
  shows "messages (repairHistory ms) = ms \<and> stats (repairHistory ms) = zero_stats"
proof -
  let ?s = "repair_loop (analyzeServerToolPairing ms) 0 ms repair_init"
  have loop: "result ?s = zip ms (map Some [0..<length ms])" "rstats ?s = zero_stats" "pendingToolUseIds ?s = []"
    using repair_loop_clean [OF assms(2), of repair_init] assms(3)
    by (simp_all add: repair_init_def server_clean_iff)
  then have flush: "flush_pending ?s = ?s" by (simp add: flush_pending_def)
  obtain merged n idx where m: "merge_loop (result ?s) [] 0 (replicate (length ms) None) = (merged, n, idx)"
    by (cases "merge_loop (result ?s) [] 0 (replicate (length ms) None)")
  have fst: "map fst (result ?s) = ms" by (simp add: loop)
  have "merged = ms"
    using merge_loop_messages [OF m] foldl_append_merge_alternating [of "[]" ms] assms(1) by (simp add: fst)
  moreover have "n = 0" using merge_count_alternating [OF _ m] assms(1) by (simp add: fst)
  ultimately show ?thesis
    unfolding repairHistory_def flush Let_def m by (simp add: loop(2) zero_stats_def)
qed

text \<open>Histories without server-side blocks stay without them, so their repair is clean.\<close>

lemma analyze_no_server:
  assumes "\<forall>m \<in> set ms. no_server_blocks m" and "m \<in> set ms"
  shows "clean_for p m"
  using assms by (auto simp: clean_for_def no_server_blocks_def orphanedServerIds_def
      orphanedWebSearchResultIds_def js_set_of_def split: role.splits)

lemma strip_server_ids:
  "server_use_ids (filter (\<lambda>b. \<not> isToolResultShapedBlock b) bs) = server_use_ids bs"
  "web_result_ids (filter (\<lambda>b. \<not> isToolResultShapedBlock b) bs) = web_result_ids bs"
proof (induction bs)
  case (Cons b bs)
  { case 1 show ?case using Cons(1) by (cases b) auto
  next case 2 show ?case using Cons(2) by (cases b) auto }
qed auto

definition raw_no_server :: "repair_state \<Rightarrow> bool" where
  "raw_no_server s \<longleftrightarrow> rec_ok (recoveredResults s) \<and> (\<forall>e \<in> set (result s). no_server_blocks (fst e))"

lemma raw_no_server_flush: "raw_no_server s \<Longrightarrow> raw_no_server (flush_pending s)"
  by (auto simp: raw_no_server_def flush_pending_def buildResultMessage_def no_server_blocks_def server_ids_fill)

lemma raw_no_server_assistant:
  assumes "raw_no_server s" and "no_server_blocks m"
  shows "raw_no_server (repair_assistant p i m s)"
proof -
  let ?c = "filter (\<lambda>b. \<not> isToolResultShapedBlock b) (content m)"
  have c: "repair_content p ?c st = (?c, st)" for st
    using assms(2) by (simp add: repair_content_def no_server_blocks_def strip_server_ids
        orphanedServerIds_def orphanedWebSearchResultIds_def js_set_of_def)
  show ?thesis
    using assms raw_no_server_flush [OF assms(1)]
    by (auto simp: repair_assistant_eq [OF c] raw_no_server_def no_server_blocks_def strip_server_ids rec_ok_fold)
qed

lemma raw_no_server_user:
  assumes "raw_no_server s" and "no_server_blocks m"
  shows "raw_no_server (repair_user i m s)"
proof -
  obtain kept matched n where r: "match_results (pendingToolUseIds s) (content m) = (kept, matched, n)"
    by (cases "match_results (pendingToolUseIds s) (content m)")
  show ?thesis
    using assms match_results_server [OF r] match_results_props [OF r]
    by (auto simp: repair_user_def answer_pending_def downgrade_all_def r raw_no_server_def
        no_server_blocks_def server_ids_fill downgrade_ids Let_def)
qed

lemma raw_no_server_loop:
  "raw_no_server s \<Longrightarrow> \<forall>m \<in> set ms. no_server_blocks m \<Longrightarrow> raw_no_server (repair_loop p i ms s)"
proof (induction ms arbitrary: i s)
  case (Cons m ms)
  then show ?case
    by (cases "role m") (auto intro!: Cons.IH raw_no_server_assistant raw_no_server_user)
qed simp

lemma no_server_append_merge:
  "\<forall>m \<in> set ms. no_server_blocks m \<Longrightarrow> no_server_blocks x \<Longrightarrow> \<forall>m \<in> set (append_merge ms x). no_server_blocks m"
proof (cases ms rule: rev_cases)
  case (snoc xs l)
  then show "\<forall>m \<in> set ms. no_server_blocks m \<Longrightarrow> no_server_blocks x \<Longrightarrow> ?thesis"
    by (auto simp: append_merge_last no_server_blocks_def)
qed simp

lemma no_server_foldl:
  "\<forall>m \<in> set ms. no_server_blocks m \<Longrightarrow> \<forall>m \<in> set rs. no_server_blocks m \<Longrightarrow>
   \<forall>m \<in> set (foldl append_merge ms rs). no_server_blocks m"
proof (induction rs arbitrary: ms)
  case (Cons r rs)
  then have "\<forall>m \<in> set (append_merge ms r). no_server_blocks m"
    by (intro no_server_append_merge) auto
  with Cons show ?case by simp
qed simp

lemma repaired_no_server:
  assumes "\<forall>m \<in> set ms. no_server_blocks m"
  shows "\<forall>m \<in> set (messages (repairHistory ms)). no_server_blocks m"
proof -
  have "raw_no_server repair_init" by (simp add: raw_no_server_def repair_init_def)
  then have "raw_no_server (flush_pending (repair_loop (analyzeServerToolPairing ms) 0 ms repair_init))"
    by (intro raw_no_server_flush raw_no_server_loop assms)
  then show ?thesis
    unfolding repairHistory_messages by (intro no_server_foldl) (auto simp: raw_no_server_def)
qed

section \<open>The deep repair's pre-passes\<close>

definition deep_prepared :: "message list \<Rightarrow> bool \<Rightarrow> message list" where
  "deep_prepared ms ut =
     (let merged = foldl append_merge []
            (dropWhile (\<lambda>m. role m = Assistant) (filter (\<lambda>m. \<not> isEffectivelyEmptyContent (content m)) ms))
      in if ut then rev (dropWhile (\<lambda>m. role m = Assistant) (rev merged)) else merged)"

lemma role_not_Assistant [simp]: "role (m :: message) \<noteq> Assistant \<longleftrightarrow> role m = User"
  by (cases "role m") auto

lemma hd_trim_end:
  assumes "rev (dropWhile P (rev xs)) \<noteq> []"
  shows "hd (rev (dropWhile P (rev xs))) = hd xs"
proof -
  have "xs = rev (takeWhile P (rev xs) @ dropWhile P (rev xs))" by simp
  then have "xs = rev (dropWhile P (rev xs)) @ rev (takeWhile P (rev xs))" by (metis rev_append)
  with assms show ?thesis by (metis hd_append2)
qed

lemma deep_prepared_ends:
  assumes "deep_prepared ms ut \<noteq> []"
  shows "role (hd (deep_prepared ms ut)) = User \<and> (ut \<longrightarrow> role (last (deep_prepared ms ut)) = User)"
proof -
  define uf where "uf = dropWhile (\<lambda>m. role m = Assistant) (filter (\<lambda>m. \<not> isEffectivelyEmptyContent (content m)) ms)"
  define mg where "mg = foldl append_merge [] uf"
  have tr: "deep_prepared ms ut = (if ut then rev (dropWhile (\<lambda>m. role m = Assistant) (rev mg)) else mg)"
    by (simp add: deep_prepared_def mg_def uf_def Let_def)
  have "mg \<noteq> []" using assms by (auto simp: tr split: if_splits)
  then obtain x xs where uf: "uf = x # xs" by (cases uf) (auto simp: mg_def)
  have "role x = User"
    using hd_dropWhile [of "\<lambda>m. role m = Assistant" "filter (\<lambda>m. \<not> isEffectivelyEmptyContent (content m)) ms"]
    by (simp add: uf_def [symmetric] uf)
  then have "role (hd mg) = User" using hd_foldl_append_merge [of "[x]" xs] by (simp add: mg_def uf)
  then have "role (hd (deep_prepared ms ut)) = User"
    using assms hd_trim_end [of "\<lambda>m. role m = Assistant" mg] by (simp add: tr split: if_splits)
  moreover have "role (last (deep_prepared ms ut)) = User" if u: ut
  proof -
    have eq: "deep_prepared ms ut = rev (dropWhile (\<lambda>m. role m = Assistant) (rev mg))"
      using tr u by (simp only: if_True)
    have ne: "dropWhile (\<lambda>m. role m = Assistant) (rev mg) \<noteq> []"
      using assms by (simp only: eq rev_is_Nil_conv) simp
    show ?thesis using hd_dropWhile [OF ne] by (simp only: eq last_rev role_not_Assistant)
  qed
  ultimately show ?thesis by blast
qed

lemma repairHistory_Nil [simp]: "messages (repairHistory []) = []"
  by (simp add: repairHistory_messages flush_pending_def repair_init_def)

section \<open>Properties\<close>

text \<open>C1: For every input history, the repaired history obeys the provider's rules: roles
  alternate, each tool call of an assistant message is answered in the very next (user)
  message, user messages carry results for exactly those calls, and assistant messages carry
  no client-side tool results.\<close>

theorem repairHistory_provider_ok:
  "alternating (messages (repairHistory ms)) \<and> provider_ok [] (messages (repairHistory ms))"
  using repaired_ok by blast

text \<open>Nothing but results is rewritten: the index map sends every input message to an
  output message of the same role that still contains each of its blocks other than tool
  results and web-search results.\<close>

theorem repairHistory_carries:
  assumes "i < length ms"
  shows "\<exists>idx pos. inputToOutputIndex (repairHistory ms) = Some idx \<and> length idx = length ms \<and>
    idx ! i = Some pos \<and> pos < length (messages (repairHistory ms)) \<and>
    role (messages (repairHistory ms) ! pos) = role (ms ! i) \<and>
    (\<forall>b \<in> set (content (ms ! i)). \<not> is_result_block b \<longrightarrow>
       b \<in> set (content (messages (repairHistory ms) ! pos)))"
proof -
  obtain merged n idx where m:
    "merge_loop (repaired_raw ms) [] 0 (replicate (length ms) None) = (merged, n, idx)"
    by (cases "merge_loop (repaired_raw ms) [] 0 (replicate (length ms) None)")
  have out: "messages (repairHistory ms) = merged" "inputToOutputIndex (repairHistory ms) = Some idx"
    by (simp_all add: repairHistory_def m Let_def)
  obtain m' where m': "(m', Some i) \<in> set (repaired_raw ms)" "carries (ms ! i) m'"
    using repaired_raw_sources assms by blast
  have "distinct (somes (repaired_raw ms))" using repaired_raw_sources by simp
  with merge_loop_indexes [OF m m'(1)] assms obtain pos where
    "idx ! i = Some pos" "pos < length merged" "role (merged ! pos) = role m'"
    "set (content m') \<subseteq> set (content (merged ! pos))" by auto
  with m'(2) merge_loop_length [OF m] out show ?thesis by (auto simp: carries_def)
qed

theorem repairHistory_carries_witness:
  "\<exists>idx pos. inputToOutputIndex (repairHistory [\<lparr>role = User, content = [Text ''hi'']\<rparr>]) = Some idx \<and>
    idx ! 0 = Some pos \<and>
    Text ''hi'' \<in> set (content (messages (repairHistory [\<lparr>role = User, content = [Text ''hi'']\<rparr>]) ! pos))"
  using repairHistory_carries [of 0 "[\<lparr>role = User, content = [Text ''hi'']\<rparr>]"]
  by (auto simp: is_result_block_def)

text \<open>A history that already obeys the rules, with no orphaned server-side block, is
  returned unchanged and the statistics are all zero, so no warning is logged for it.\<close>

theorem repairHistory_fixpoint:
  assumes "alternating ms" and "provider_ok [] ms" and "server_clean ms"
  shows "messages (repairHistory ms) = ms \<and> stats (repairHistory ms) = zero_stats \<and>
    repairHistoryForRun ms = (ms, False)"
  using clean_history_unchanged [OF assms] by (simp add: repairHistoryForRun_def zero_stats_def Let_def)

definition sample_history :: "message list" where
  "sample_history =
     [\<lparr>role = User, content = [Text ''list files'']\<rparr>,
      \<lparr>role = Assistant, content = [ToolUse ''t1'' ''bash'' JNull]\<rparr>,
      \<lparr>role = User, content = [ToolResult ''t1'' ''a.txt'' None None]\<rparr>]"

theorem repairHistory_fixpoint_witness:
  "alternating sample_history \<and> provider_ok [] sample_history \<and> server_clean sample_history \<and>
   repairHistoryForRun sample_history = (sample_history, False)"
proof -
  have h: "alternating sample_history" "provider_ok [] sample_history" "server_clean sample_history"
    by (simp_all add: sample_history_def server_clean_def orphanedServerIds_def
        orphanedWebSearchResultIds_def js_set_of_def)
  with repairHistory_fixpoint [OF h] show ?thesis by simp
qed

text \<open>On histories without server-side tool blocks the repair is idempotent: repairing a
  repaired history changes nothing and counts nothing.\<close>

theorem repairHistory_idempotent:
  assumes "\<forall>m \<in> set ms. no_server_blocks m"
  shows "messages (repairHistory (messages (repairHistory ms))) = messages (repairHistory ms) \<and>
    stats (repairHistory (messages (repairHistory ms))) = zero_stats"
proof (rule clean_history_unchanged)
  show "server_clean (messages (repairHistory ms))"
    unfolding server_clean_iff using analyze_no_server [OF repaired_no_server [OF assms]] by blast
qed (rule repaired_ok)+

theorem repairHistory_idempotent_witness:
  "messages (repairHistory (messages (repairHistory [\<lparr>role = Assistant, content = [ToolUse ''t'' ''n'' JNull]\<rparr>]))) =
   messages (repairHistory [\<lparr>role = Assistant, content = [ToolUse ''t'' ''n'' JNull]\<rparr>])"
  using repairHistory_idempotent [of "[\<lparr>role = Assistant, content = [ToolUse ''t'' ''n'' JNull]\<rparr>]"]
  by (simp add: no_server_blocks_def)

text \<open>With server-side blocks idempotence fails. A server call whose trailing user message
  holds only an orphaned client result counts as deferred, the orphan is then downgraded to
  text, and the repaired history is left with a server call that the pairing analysis itself
  calls an orphan.\<close>

theorem repairHistory_leaves_server_orphan:
  "let ms = [\<lparr>role = Assistant, content = [ServerToolUse ''s1'' ''web_search'' JNull]\<rparr>,
             \<lparr>role = User, content = [ToolResult ''gone'' ''x'' None None]\<rparr>]
   in \<not> server_clean (messages (repairHistory ms)) \<and>
      messages (repairHistory (messages (repairHistory ms))) \<noteq> messages (repairHistory ms)"
  by code_simp

text \<open>The deep repair also yields a history that obeys the provider's rules; a non-empty
  result starts with a user message, and with \<^verbatim>\<open>requireUserTerminal\<close> it ends with one.\<close>

theorem deepRepairHistory_ok:
  "let out = messages (deepRepairHistory ms ut) in
     alternating out \<and> provider_ok [] out \<and>
     (out \<noteq> [] \<longrightarrow> role (hd out) = User) \<and> (ut \<and> out \<noteq> [] \<longrightarrow> role (last out) = User)"
proof -
  let ?tr = "deep_prepared ms ut"
  have eq: "messages (deepRepairHistory ms ut) = messages (repairHistory ?tr)"
    by (simp add: deepRepairHistory_def deep_prepared_def Let_def)
  show ?thesis
    unfolding eq Let_def
    using repaired_ok [of ?tr] repaired_ends [of ?tr] deep_prepared_ends [of ms ut] repairHistory_Nil
    by (cases "?tr = []") auto
qed

theorem deepRepairHistory_ok_witness:
  "let out = messages (deepRepairHistory
        [\<lparr>role = Assistant, content = [Text ''a'']\<rparr>, \<lparr>role = User, content = [Text ''b'']\<rparr>,
         \<lparr>role = Assistant, content = [Text ''c'']\<rparr>] True)
   in out = [\<lparr>role = User, content = [Text ''b'']\<rparr>] \<and> role (last out) = User"
proof -
  let ?ms = "[\<lparr>role = Assistant, content = [Text ''a'']\<rparr>, \<lparr>role = User, content = [Text ''b'']\<rparr>,
         \<lparr>role = Assistant, content = [Text ''c'']\<rparr>]"
  have "messages (deepRepairHistory ?ms True) = [\<lparr>role = User, content = [Text ''b'']\<rparr>]" by code_simp
  with deepRepairHistory_ok [of ?ms True] show ?thesis by simp
qed

end
