(* ===== verification/Approval_Policy.thy ===== *)
theory Approval_Policy
  imports Prelude
begin

text \<open>
  The auto-approve decision (\<^verbatim>\<open>assistant/src/permissions/approval-policy.ts\<close>,
  \<^verbatim>\<open>permissions/threshold.ts\<close>) and the trust-rule override of a risk assessment
  (\<^verbatim>\<open>gateway/src/risk/user-rule-override.ts\<close>). Risk levels and thresholds are the source's
  string enums; an absent optional field is \<open>None\<close>.
\<close>

section \<open>Vocabulary\<close>

datatype risk_level = LowRisk | MediumRisk | HighRisk

datatype threshold = ThrNone | ThrLow | ThrMedium | ThrHigh

datatype owner_kind = OwnDefault | OwnSkill | OwnMcp | OwnPlugin | OwnWorkspace

datatype verdict = Allow | Prompt | Deny

record approval_context =
  riskLevel :: risk_level
  toolName :: string
  isContainerized :: bool
  isWorkspaceScoped :: bool
  toolOrigin :: "owner_kind option"
  isSkillBundled :: "bool option"
  hasManifestOverride :: "bool option"
  hasSandboxAutoApprove :: "bool option"
  autoApproveUpTo :: "threshold option"

record approval_decision =
  decision :: verdict
  reason :: string

text \<open>The ordinal tables.\<close>

fun RISK_ORDINAL :: "risk_level \<Rightarrow> int" where
  "RISK_ORDINAL LowRisk = 0"
| "RISK_ORDINAL MediumRisk = 1"
| "RISK_ORDINAL HighRisk = 2"

fun THRESHOLD_ORDINAL :: "threshold \<Rightarrow> int" where
  "THRESHOLD_ORDINAL ThrNone = -1"
| "THRESHOLD_ORDINAL ThrLow = 0"
| "THRESHOLD_ORDINAL ThrMedium = 1"
| "THRESHOLD_ORDINAL ThrHigh = 2"

text \<open>Thresholds and risks are ordered by their ordinals.\<close>

instantiation threshold :: linorder
begin

definition less_eq_threshold :: "threshold \<Rightarrow> threshold \<Rightarrow> bool" where
  "less_eq_threshold a b \<longleftrightarrow> THRESHOLD_ORDINAL a \<le> THRESHOLD_ORDINAL b"

definition less_threshold :: "threshold \<Rightarrow> threshold \<Rightarrow> bool" where
  "less_threshold a b \<longleftrightarrow> THRESHOLD_ORDINAL a < THRESHOLD_ORDINAL b"

instance
proof
  fix x y :: threshold
  show "x \<le> y \<Longrightarrow> y \<le> x \<Longrightarrow> x = y"
    by (cases x; cases y) (auto simp: less_eq_threshold_def)
qed (auto simp: less_eq_threshold_def less_threshold_def)

end

instantiation risk_level :: linorder
begin

definition less_eq_risk_level :: "risk_level \<Rightarrow> risk_level \<Rightarrow> bool" where
  "less_eq_risk_level a b \<longleftrightarrow> RISK_ORDINAL a \<le> RISK_ORDINAL b"

definition less_risk_level :: "risk_level \<Rightarrow> risk_level \<Rightarrow> bool" where
  "less_risk_level a b \<longleftrightarrow> RISK_ORDINAL a < RISK_ORDINAL b"

instance
proof
  fix x y :: risk_level
  show "x \<le> y \<Longrightarrow> y \<le> x \<Longrightarrow> x = y"
    by (cases x; cases y) (auto simp: less_eq_risk_level_def)
qed (auto simp: less_eq_risk_level_def less_risk_level_def)

end

definition effective_threshold :: "threshold option \<Rightarrow> threshold" where
  "effective_threshold t = (case t of None \<Rightarrow> ThrLow | Some x \<Rightarrow> x)"

definition isRiskWithinThreshold :: "risk_level \<Rightarrow> threshold option \<Rightarrow> bool" where
  "isRiskWithinThreshold r t \<longleftrightarrow> RISK_ORDINAL r \<le> THRESHOLD_ORDINAL (effective_threshold t)"

definition isFullAccessThreshold :: "threshold \<Rightarrow> bool" where
  "isFullAccessThreshold t \<longleftrightarrow> t = ThrHigh"

fun risk_name :: "risk_level \<Rightarrow> string" where
  "risk_name LowRisk = ''low''"
| "risk_name MediumRisk = ''medium''"
| "risk_name HighRisk = ''high''"

section \<open>The decision\<close>

definition isThirdPartySkill :: "approval_context \<Rightarrow> bool" where
  "isThirdPartySkill c \<longleftrightarrow>
     ((toolOrigin c = Some OwnSkill \<or> toolOrigin c = Some OwnPlugin) \<and> isSkillBundled c \<noteq> Some True) \<or>
     (hasManifestOverride c = Some True \<and> (toolOrigin c = None \<or> toolOrigin c = Some OwnDefault))"

definition evaluate :: "approval_context \<Rightarrow> approval_decision" where
  "evaluate c =
     (if toolName c = ''bash'' \<and> hasSandboxAutoApprove c = Some True \<and> autoApproveUpTo c \<noteq> Some ThrNone
      then \<lparr>decision = Allow, reason = ''Workspace filesystem operation (sandbox auto-approve)''\<rparr>
      else if isThirdPartySkill c
      then (if isRiskWithinThreshold (riskLevel c) (autoApproveUpTo c)
            then \<lparr>decision = Allow,
                  reason = risk_name (riskLevel c) @ '' risk: within auto-approve threshold (skill tool)''\<rparr>
            else \<lparr>decision = Prompt, reason = ''Skill tool: requires approval by default''\<rparr>)
      else if riskLevel c = LowRisk \<and> isWorkspaceScoped c \<and>
              isRiskWithinThreshold (riskLevel c) (autoApproveUpTo c)
      then \<lparr>decision = Allow, reason = ''Workspace-scoped low-risk operation auto-allowed''\<rparr>
      else if riskLevel c = LowRisk \<and> toolOrigin c = Some OwnSkill \<and> isSkillBundled c = Some True \<and>
              isRiskWithinThreshold (riskLevel c) (autoApproveUpTo c)
      then \<lparr>decision = Allow, reason = ''Bundled skill tool: low risk, auto-allowed''\<rparr>
      else if isRiskWithinThreshold (riskLevel c) (autoApproveUpTo c)
      then \<lparr>decision = Allow, reason = risk_name (riskLevel c) @ '' risk: within auto-approve threshold''\<rparr>
      else \<lparr>decision = Prompt, reason = risk_name (riskLevel c) @ '' risk: above auto-approve threshold''\<rparr>)"

section \<open>The trust-rule override\<close>

text \<open>An assessment's option ladders are opaque to the override and carried as JSON.\<close>

datatype assessed_risk = Classified risk_level | UnknownRisk

record allowlist_option =
  al_label :: string
  al_description :: string
  al_pattern :: string

definition option_json :: "allowlist_option \<Rightarrow> json" where
  "option_json a = JObj [(''label'', JStr (al_label a)), (''description'', JStr (al_description a)),
                         (''pattern'', JStr (al_pattern a))]"

record risk_assessment =
  ra_riskLevel :: assessed_risk
  ra_reason :: string
  scopeOptions :: json
  matchType :: string
  allowlistOptions :: "json option"
  directoryScopeOptions :: "json option"

record trust_rule =
  risk :: risk_level
  description :: string

definition applyUserRuleOverride :: "risk_assessment \<Rightarrow> trust_rule \<Rightarrow> risk_assessment" where
  "applyUserRuleOverride a r =
     a\<lparr>ra_riskLevel := Classified (risk r), ra_reason := description r, matchType := ''user_rule''\<rparr>"

section \<open>Lemmas\<close>

lemma within_none [simp]: "\<not> isRiskWithinThreshold r (Some ThrNone)"
  by (cases r) (auto simp: isRiskWithinThreshold_def effective_threshold_def)

lemma within_mono_threshold:
  "effective_threshold t \<le> effective_threshold t' \<Longrightarrow> isRiskWithinThreshold r t \<Longrightarrow> isRiskWithinThreshold r t'"
  by (simp add: isRiskWithinThreshold_def less_eq_threshold_def)

lemma within_mono_risk:
  "r' \<le> r \<Longrightarrow> isRiskWithinThreshold r t \<Longrightarrow> isRiskWithinThreshold r' t"
  by (simp add: isRiskWithinThreshold_def less_eq_risk_level_def)

lemma evaluate_decision:
  "decision (evaluate c) =
     (if toolName c = ''bash'' \<and> hasSandboxAutoApprove c = Some True \<and> autoApproveUpTo c \<noteq> Some ThrNone
         \<or> isRiskWithinThreshold (riskLevel c) (autoApproveUpTo c)
      then Allow else Prompt)"
  by (simp add: evaluate_def)

lemma effective_least: "effective_threshold t \<le> effective_threshold t' \<Longrightarrow> t \<noteq> Some ThrNone \<Longrightarrow> t' \<noteq> Some ThrNone"
proof -
  assume a: "effective_threshold t \<le> effective_threshold t'" "t \<noteq> Some ThrNone"
  have "effective_threshold t \<noteq> ThrNone" using a(2) by (auto simp: effective_threshold_def split: option.splits)
  then show "t' \<noteq> Some ThrNone"
    using a(1) by (cases "effective_threshold t") (auto simp: less_eq_threshold_def effective_threshold_def)
qed

section \<open>Properties\<close>

text \<open>C2: The six branches of the decision come to one rule: an invocation is allowed exactly
  when it is a sandbox-approved bash command and the threshold is not \<open>none\<close>, or its risk is
  at or below the threshold (\<open>low\<close> when unset); everything else prompts, and the policy
  never denies. In particular a tool's origin, bundling and manifest override do not change
  the decision, only its reason.\<close>

theorem evaluate_allow_iff:
  "(decision (evaluate c) = Allow \<longleftrightarrow>
      (toolName c = ''bash'' \<and> hasSandboxAutoApprove c = Some True \<and> autoApproveUpTo c \<noteq> Some ThrNone) \<or>
      RISK_ORDINAL (riskLevel c) \<le> THRESHOLD_ORDINAL (effective_threshold (autoApproveUpTo c))) \<and>
   decision (evaluate c) \<noteq> Deny"
  by (simp add: evaluate_decision isRiskWithinThreshold_def)

text \<open>Raising the threshold and lowering the risk never turns an automatic approval into a
  prompt, and with threshold \<open>none\<close> every invocation prompts.\<close>

theorem evaluate_monotone:
  assumes "decision (evaluate c) = Allow"
    and "effective_threshold (autoApproveUpTo c) \<le> effective_threshold t"
    and "r \<le> riskLevel c"
  shows "decision (evaluate (c\<lparr>autoApproveUpTo := t, riskLevel := r\<rparr>)) = Allow \<and>
         decision (evaluate (c\<lparr>autoApproveUpTo := Some ThrNone\<rparr>)) = Prompt"
  using assms effective_least [OF assms(2)] within_mono_risk [OF assms(3)] within_mono_threshold [OF assms(2)]
  by (auto simp: evaluate_decision split: if_splits)

theorem evaluate_monotone_witness:
  "let c = \<lparr>riskLevel = MediumRisk, toolName = ''file_write'', isContainerized = False,
             isWorkspaceScoped = True, toolOrigin = None, isSkillBundled = None,
             hasManifestOverride = None, hasSandboxAutoApprove = None, autoApproveUpTo = Some ThrMedium\<rparr>
   in decision (evaluate (c\<lparr>autoApproveUpTo := Some ThrHigh, riskLevel := LowRisk\<rparr>)) = Allow \<and>
      decision (evaluate (c\<lparr>autoApproveUpTo := Some ThrNone\<rparr>)) = Prompt"
proof -
  let ?c = "\<lparr>riskLevel = MediumRisk, toolName = ''file_write'', isContainerized = False,
             isWorkspaceScoped = True, toolOrigin = None, isSkillBundled = None,
             hasManifestOverride = None, hasSandboxAutoApprove = None, autoApproveUpTo = Some ThrMedium\<rparr>"
  have "decision (evaluate ?c) = Allow"
    and "effective_threshold (autoApproveUpTo ?c) \<le> effective_threshold (Some ThrHigh)"
    and "LowRisk \<le> riskLevel ?c"
    by code_simp+
  from evaluate_monotone [OF this] show ?thesis by simp
qed

end
