(* ===== verification/Arg_Parser.thy ===== *)
theory Arg_Parser
  imports Prelude
begin

text \<open>
  The argument parser of the command risk classifier (\<^verbatim>\<open>gateway/src/risk/arg-parser.ts\<close>).
  It decides which tokens of a shell command are filesystem paths; the sandbox policy checks
  exactly those, so a path it misses is a path nobody checks.
\<close>

section \<open>Schemas\<close>

datatype pos_role = RPath | RPattern | RScript | RValue | RCommand

record positional_desc =
  pd_role :: pos_role
  rest :: bool

datatype positionals_def = PathsDef | NoneDef | Descs "positional_desc list"

text \<open>An omitted \<^verbatim>\<open>positionals\<close> is \<open>None\<close>; omitted flag lists are empty;
  \<^verbatim>\<open>respectsDoubleDash\<close> is on unless it is \<open>Some False\<close>.\<close>

record arg_schema =
  valueFlags :: "string list"
  sch_positionals :: "positionals_def option"
  pathFlags :: "string list"
  respectsDoubleDash :: "bool option"

datatype flag_value = FlagTrue | FlagStr string

record parsed_args =
  flags :: "(string, flag_value) js_map"
  positionals :: "string list"
  pathArgs :: "string list"
  sawDoubleDash :: bool

section \<open>Parsing\<close>

text \<open>The last descriptor marked \<^verbatim>\<open>rest\<close>, for positions past the list.\<close>

definition last_rest :: "positional_desc list \<Rightarrow> positional_desc option" where
  "last_rest ds = List.find rest (rev ds)"

definition positional_is_path :: "positionals_def option \<Rightarrow> nat \<Rightarrow> bool" where
  "positional_is_path d i =
     (case d of
        None \<Rightarrow> True
      | Some PathsDef \<Rightarrow> True
      | Some NoneDef \<Rightarrow> False
      | Some (Descs ds) \<Rightarrow>
          (case (if i < length ds then Some (ds ! i) else last_rest ds) of
             Some x \<Rightarrow> pd_role x = RPath
           | None \<Rightarrow> True))"

definition addIfPath :: "string \<Rightarrow> nat \<Rightarrow> positionals_def option \<Rightarrow> string list \<Rightarrow> string list" where
  "addIfPath tok i d paths = (if positional_is_path d i then paths @ [tok] else paths)"

definition push_positional :: "arg_schema \<Rightarrow> string \<Rightarrow> parsed_args \<Rightarrow> parsed_args" where
  "push_positional sch tok p =
     p\<lparr>positionals := positionals p @ [tok],
       pathArgs := addIfPath tok (length (positionals p)) (sch_positionals sch) (pathArgs p)\<rparr>"

definition set_flag :: "arg_schema \<Rightarrow> string \<Rightarrow> string \<Rightarrow> parsed_args \<Rightarrow> parsed_args" where
  "set_flag sch f v p =
     p\<lparr>flags := js_set f (FlagStr v) (flags p),
       pathArgs := (if f \<in> set (pathFlags sch) then pathArgs p @ [v] else pathArgs p)\<rparr>"

definition set_bool_flag :: "string \<Rightarrow> parsed_args \<Rightarrow> parsed_args" where
  "set_bool_flag f p = p\<lparr>flags := js_set f FlagTrue (flags p)\<rparr>"

text \<open>The \<^verbatim>\<open>--flag=value\<close> form: the name before the first \<^verbatim>\<open>=\<close> must be a value flag.\<close>

definition flag_eq_value :: "arg_schema \<Rightarrow> string \<Rightarrow> (string \<times> string) option" where
  "flag_eq_value sch tok =
     (case index_of (CHR ''='') tok of
        None \<Rightarrow> None
      | Some i \<Rightarrow> if take i tok \<in> set (valueFlags sch) then Some (take i tok, drop (Suc i) tok) else None)"

fun parse_loop :: "arg_schema \<Rightarrow> string list \<Rightarrow> parsed_args \<Rightarrow> parsed_args" where
  "parse_loop sch [] p = p"
| "parse_loop sch (tok # toks) p =
     (if sawDoubleDash p then parse_loop sch toks (push_positional sch tok p)
      else if tok = ''--'' \<and> respectsDoubleDash sch \<noteq> Some False
      then parse_loop sch toks (p\<lparr>sawDoubleDash := True\<rparr>)
      else if starts_with tok ''-'' \<and> tok \<in> set (valueFlags sch)
      then (case toks of
              v # toks' \<Rightarrow> parse_loop sch toks' (set_flag sch tok v p)
            | [] \<Rightarrow> set_bool_flag tok p)
      else if starts_with tok ''-''
      then (case flag_eq_value sch tok of
              Some (f, v) \<Rightarrow> parse_loop sch toks (set_flag sch f v p)
            | None \<Rightarrow> parse_loop sch toks (set_bool_flag tok p))
      else parse_loop sch toks (push_positional sch tok p))"

definition parseArgs :: "string list \<Rightarrow> arg_schema \<Rightarrow> parsed_args" where
  "parseArgs args sch =
     parse_loop sch args \<lparr>flags = [], positionals = [], pathArgs = [], sawDoubleDash = False\<rparr>"

section \<open>Lemmas\<close>

lemmas parse_defs = push_positional_def set_flag_def set_bool_flag_def addIfPath_def

declare parse_loop.simps(2) [simp del]

text \<open>One iteration: a single token consumed with one of the four updates, or a value flag
  consumed together with its value.\<close>

lemma parse_loop_step:
  obtains (one) q where "parse_loop sch (tok # toks) p = parse_loop sch toks q"
      "q = push_positional sch tok p \<or> q = p\<lparr>sawDoubleDash := True\<rparr> \<or> (\<exists>f v. q = set_flag sch f v p) \<or>
       q = set_bool_flag tok p"
  | (two) v toks' where "toks = v # toks'" "tok \<in> set (valueFlags sch)"
      "parse_loop sch (tok # toks) p = parse_loop sch toks' (set_flag sch tok v p)"
proof -
  note eq = parse_loop.simps(2) [of sch tok toks p]
  show thesis
  proof (cases "\<not> sawDoubleDash p \<and> \<not> (tok = ''--'' \<and> respectsDoubleDash sch \<noteq> Some False) \<and>
      starts_with tok ''-'' \<and> tok \<in> set (valueFlags sch)")
    case True
    then have e: "parse_loop sch (tok # toks) p =
        (case toks of v # toks' \<Rightarrow> parse_loop sch toks' (set_flag sch tok v p) | [] \<Rightarrow> set_bool_flag tok p)"
      unfolding eq by (simp only: if_False if_True simp_thms)
    show thesis
    proof (cases toks)
      case Nil
      show thesis by (rule one [of "set_bool_flag tok p"]) (use e Nil in simp_all)
    next
      case (Cons v toks')
      show thesis by (rule two [OF Cons]) (use e Cons True in simp_all)
    qed
  next
    case False
    then show thesis using eq one by (simp split: if_splits option.splits prod.splits) blast+
  qed
qed

text \<open>Whatever the four updates of the result keep, the loop keeps.\<close>

lemma parse_loop_inv:
  assumes push: "\<And>tok p. I p \<Longrightarrow> I (push_positional sch tok p)"
    and dash: "\<And>p. I p \<Longrightarrow> I (p\<lparr>sawDoubleDash := True\<rparr>)"
    and flag: "\<And>f v p. I p \<Longrightarrow> I (set_flag sch f v p)"
    and bflag: "\<And>f p. I p \<Longrightarrow> I (set_bool_flag f p)"
  shows "I p \<Longrightarrow> I (parse_loop sch toks p)"
proof (induction toks arbitrary: p rule: measure_induct_rule [of length])
  case (less toks)
  show ?case
  proof (cases toks)
    case (Cons tok rest)
    show ?thesis
    proof (cases rule: parse_loop_step [of sch tok rest p])
      case (one q)
      then have "I q" using less.prems push dash flag bflag by auto
      then show ?thesis using less.IH [of rest q] one(1) Cons by simp
    next
      case (two v toks')
      then show ?thesis using less.IH [of toks'] less.prems flag Cons by simp
    qed
  qed (use less.prems in simp)
qed

lemma parse_loop_after_dash:
  "sawDoubleDash p \<Longrightarrow> positionals (parse_loop sch toks p) = positionals p @ toks \<and>
     sawDoubleDash (parse_loop sch toks p)"
  by (induction toks arbitrary: p) (auto simp: push_positional_def parse_loop.simps(2))

lemma parse_loop_keeps: "set (positionals p) \<subseteq> set (positionals (parse_loop sch toks p))"
  by (rule parse_loop_inv [where I = "\<lambda>q. set (positionals p) \<subseteq> set (positionals q)"])
     (auto simp: parse_defs)

text \<open>The positionals the schema calls paths, of a list of positionals starting at \<open>n\<close>.\<close>

definition path_positions :: "arg_schema \<Rightarrow> nat \<Rightarrow> string list \<Rightarrow> string list" where
  "path_positions sch n ps =
     map snd (filter (\<lambda>e. positional_is_path (sch_positionals sch) (fst e)) (enumerate n ps))"

lemma path_positions_Nil [simp]: "path_positions sch n [] = []"
  by (simp add: path_positions_def)

lemma path_positions_snoc:
  "path_positions sch n (ps @ [t]) =
     path_positions sch n ps @ (if positional_is_path (sch_positionals sch) (n + length ps) then [t] else [])"
  by (simp add: path_positions_def enumerate_append_eq)

text \<open>What the result promises: every path positional is listed, in order, and so is the
  value of every path flag.\<close>

definition paths_ok :: "arg_schema \<Rightarrow> parsed_args \<Rightarrow> bool" where
  "paths_ok sch p \<longleftrightarrow>
     subseq (path_positions sch 0 (positionals p)) (pathArgs p) \<and>
     (\<forall>f v. f \<in> set (pathFlags sch) \<longrightarrow> js_get (flags p) f = Some (FlagStr v) \<longrightarrow> v \<in> set (pathArgs p))"

lemma paths_ok_loop: "paths_ok sch p \<Longrightarrow> paths_ok sch (parse_loop sch toks p)"
proof (rule parse_loop_inv [where I = "paths_ok sch"])
  fix tok q assume "paths_ok sch q"
  then show "paths_ok sch (push_positional sch tok q)"
    by (auto simp: paths_ok_def parse_defs path_positions_snoc list_emb_append_mono)
next
  fix f v q assume "paths_ok sch q"
  then show "paths_ok sch (set_flag sch f v q)"
    by (auto simp: paths_ok_def parse_defs split: if_splits)
qed (auto simp: paths_ok_def parse_defs split: if_splits)

text \<open>Tokens are never lost: one that is no flag is positional or the value of the token
  before it.\<close>

lemma parse_loop_accounts:
  "i < length toks \<Longrightarrow> \<not> starts_with (toks ! i) ''-'' \<Longrightarrow>
     toks ! i \<in> set (positionals (parse_loop sch toks p)) \<or> (0 < i \<and> toks ! (i - 1) \<in> set (valueFlags sch))"
proof (induction toks arbitrary: p i rule: measure_induct_rule [of length])
  case (less toks)
  obtain tok rest where toks: "toks = tok # rest" using less.prems(1) by (cases toks) auto
  show ?case
  proof (cases i)
    case 0
    then have "\<not> starts_with tok ''-''" using less.prems toks by simp
    then have "parse_loop sch toks p = parse_loop sch rest (push_positional sch tok p)"
      unfolding toks parse_loop.simps(2) [of sch tok rest p] by (auto simp: starts_with_def)
    then show ?thesis using parse_loop_keeps [of "push_positional sch tok p" sch rest] 0 toks
      by (auto simp: push_positional_def)
  next
    case (Suc j)
    show ?thesis
    proof (cases rule: parse_loop_step [of sch tok rest p])
      case (one q)
      then show ?thesis using less.IH [of rest j q] less.prems toks Suc by (cases j) auto
    next
      case (two v toks')
      show ?thesis
      proof (cases j)
        case 0
        then show ?thesis using Suc two toks by simp
      next
        case (Suc k)
        then show ?thesis
          using less.IH [of toks' k] less.prems two toks \<open>i = Suc j\<close> by (cases k) auto
      qed
    qed
  qed
qed

lemma parse_loop_append:
  "pre = [] \<or> last pre \<notin> set (valueFlags sch) \<Longrightarrow>
     parse_loop sch (pre @ post) p = parse_loop sch post (parse_loop sch pre p)"
proof (induction pre arbitrary: p rule: measure_induct_rule [of length])
  case (less pre)
  show ?case
  proof (cases pre)
    case (Cons tok rest)
    have one: "parse_loop sch (rest @ post) q = parse_loop sch post (parse_loop sch rest q)" for q
      using less.prems Cons by (intro less.IH) auto
    have two: "parse_loop sch (r @ post) q = parse_loop sch post (parse_loop sch r q)"
      if "rest = v # r" for v r q
      using less.prems that Cons by (intro less.IH) auto
    show ?thesis
      unfolding Cons append_Cons parse_loop.simps(2) [of sch tok rest p] parse_loop.simps(2) [of sch tok "rest @ post" p]
      using one two less.prems Cons by (cases rest) (auto split: option.splits)
  qed simp
qed

section \<open>Properties\<close>

text \<open>No path argument is missed. Every positional that the schema does not declare to be
  something else is in \<^verbatim>\<open>pathArgs\<close>, in order; so is the value of every path flag. In
  particular, without a positionals declaration every positional counts as a path.\<close>

theorem parseArgs_paths:
  "subseq (path_positions sch 0 (positionals (parseArgs args sch))) (pathArgs (parseArgs args sch)) \<and>
   (\<forall>f v. f \<in> set (pathFlags sch) \<longrightarrow> js_get (flags (parseArgs args sch)) f = Some (FlagStr v) \<longrightarrow>
      v \<in> set (pathArgs (parseArgs args sch)))"
  using paths_ok_loop [of sch "\<lparr>flags = [], positionals = [], pathArgs = [], sawDoubleDash = False\<rparr>" args]
  by (simp add: paths_ok_def parseArgs_def)

definition cp_schema :: arg_schema where
  "cp_schema = \<lparr>valueFlags = [''-t'', ''--target-directory'', ''-S''], sch_positionals = None,
     pathFlags = [''-t'', ''--target-directory''], respectsDoubleDash = None\<rparr>"

theorem parseArgs_paths_witness:
  "''/tmp'' \<in> set (pathArgs (parseArgs [''-v'', ''-t'', ''/tmp'', ''a.txt'', ''--'', ''-b''] cp_schema)) \<and>
   pathArgs (parseArgs [''-v'', ''-t'', ''/tmp'', ''a.txt'', ''--'', ''-b''] cp_schema) = [''/tmp'', ''a.txt'', ''-b'']"
proof -
  let ?p = "parseArgs [''-v'', ''-t'', ''/tmp'', ''a.txt'', ''--'', ''-b''] cp_schema"
  have "''-t'' \<in> set (pathFlags cp_schema)" "js_get (flags ?p) ''-t'' = Some (FlagStr ''/tmp'')"
    by code_simp+
  then have "''/tmp'' \<in> set (pathArgs ?p)" using parseArgs_paths by blast
  moreover have "pathArgs ?p = [''/tmp'', ''a.txt'', ''-b'']" by code_simp
  ultimately show ?thesis by blast
qed

text \<open>No token is dropped: a token that does not start with a dash is a positional, or the
  token before it is a value flag; and everything after the first \<^verbatim>\<open>--\<close> that is not itself
  the value of a flag is positional, in order.\<close>

theorem parseArgs_accounts:
  assumes "i < length args" "\<not> starts_with (args ! i) ''-''"
    and "respectsDoubleDash sch \<noteq> Some False" "pre = [] \<or> last pre \<notin> set (valueFlags sch)"
  shows "(args ! i \<in> set (positionals (parseArgs args sch)) \<or>
           (0 < i \<and> args ! (i - 1) \<in> set (valueFlags sch))) \<and>
         (\<exists>ps. positionals (parseArgs (pre @ ''--'' # post) sch) = ps @ post)"
proof -
  let ?q = "parse_loop sch pre \<lparr>flags = [], positionals = [], pathArgs = [], sawDoubleDash = False\<rparr>"
  have "\<exists>ps. positionals (parse_loop sch (''--'' # post) ?q) = ps @ post"
    using assms(3) parse_loop_after_dash [of _ sch post]
    by (auto simp: push_positional_def parse_loop.simps(2))
  then show ?thesis
    using parse_loop_accounts [OF assms(1,2)] parse_loop_append [OF assms(4)]
    unfolding parseArgs_def by metis
qed

theorem parseArgs_accounts_witness:
  "''a.txt'' \<in> set (positionals (parseArgs [''-v'', ''a.txt''] cp_schema)) \<and>
   (\<exists>ps. positionals (parseArgs [''-v'', ''x'', ''--'', ''-rf''] cp_schema) = ps @ [''-rf''])"
proof -
  have "(1::nat) < length [''-v'', ''a.txt'']" "\<not> starts_with ([''-v'', ''a.txt''] ! 1) ''-''"
    "respectsDoubleDash cp_schema \<noteq> Some False" "[''-v'', ''x''] = [] \<or> last [''-v'', ''x''] \<notin> set (valueFlags cp_schema)"
    by code_simp+
  moreover have "''-v'' \<notin> set (valueFlags cp_schema)" by code_simp
  ultimately show ?thesis
    using parseArgs_accounts [of 1 "[''-v'', ''a.txt'']" cp_schema "[''-v'', ''x'']" "[''-rf'']"] by simp
qed

end
