(* ===== verification/Approval_Grants.thy ===== *)
theory Approval_Grants
  imports Prelude
begin

text \<open>
  Scoped approval grants: the table operations of
  \<^verbatim>\<open>assistant/src/approvals/scoped-approval-grants.ts\<close> and the mint/consume interface of
  \<^verbatim>\<open>approvals/approval-primitive.ts\<close>. The table is a list of rows whose ids are its primary
  key. Two things the sources leave to SQLite are parameters: \<open>pick\<close> chooses the row that
  \<^verbatim>\<open>LIMIT 1\<close> returns among those the query ranks first, and \<open>env\<close> is what other
  connections do to the table between the select and the update of one attempt.
\<close>

section \<open>The table\<close>

datatype scope_mode = RequestId | ToolSignature

datatype grant_status = Active | Consumed | Expired | Revoked

record grant =
  gid :: string
  scopeMode :: scope_mode
  requestId :: "string option"
  toolName :: "string option"
  inputDigest :: "string option"
  requestChannel :: string
  decisionChannel :: string
  executionChannel :: "string option"
  conversationId :: "string option"
  callSessionId :: "string option"
  requesterExternalUserId :: "string option"
  guardianExternalUserId :: "string option"
  status :: grant_status
  expiresAt :: int
  consumedAt :: "int option"
  consumedByRequestId :: "string option"
  createdAt :: int
  updatedAt :: int

type_synonym grant_table = "grant list"

definition MAX_CAS_RETRIES :: nat where
  "MAX_CAS_RETRIES = 3"

text \<open>An update statement: the rows that satisfy the condition are rewritten; the number of
  them is what \<^verbatim>\<open>rawChanges()\<close> reports.\<close>

definition sql_update :: "(grant \<Rightarrow> bool) \<Rightarrow> (grant \<Rightarrow> grant) \<Rightarrow> grant_table \<Rightarrow> grant_table \<times> nat" where
  "sql_update P f t = (map (\<lambda>g. if P g then f g else g) t, length (filter P t))"

section \<open>Create\<close>

record create_params =
  p_scopeMode :: scope_mode
  p_requestId :: "string option"
  p_toolName :: "string option"
  p_inputDigest :: "string option"
  p_requestChannel :: string
  p_decisionChannel :: string
  p_executionChannel :: "string option"
  p_conversationId :: "string option"
  p_callSessionId :: "string option"
  p_requesterExternalUserId :: "string option"
  p_guardianExternalUserId :: "string option"
  p_expiresAt :: int

definition new_row :: "string \<Rightarrow> int \<Rightarrow> create_params \<Rightarrow> grant" where
  "new_row i now p =
     \<lparr>gid = i, scopeMode = p_scopeMode p, requestId = p_requestId p, toolName = p_toolName p,
      inputDigest = p_inputDigest p, requestChannel = p_requestChannel p,
      decisionChannel = p_decisionChannel p, executionChannel = p_executionChannel p,
      conversationId = p_conversationId p, callSessionId = p_callSessionId p,
      requesterExternalUserId = p_requesterExternalUserId p,
      guardianExternalUserId = p_guardianExternalUserId p, status = Active,
      expiresAt = p_expiresAt p, consumedAt = None, consumedByRequestId = None,
      createdAt = now, updatedAt = now\<rparr>"

text \<open>Inserting under an id that is taken violates the primary key and raises (\<open>None\<close>).\<close>

definition createScopedApprovalGrant ::
  "string \<Rightarrow> int \<Rightarrow> create_params \<Rightarrow> grant_table \<Rightarrow> (grant_table \<times> grant) option" where
  "createScopedApprovalGrant i now p t =
     (if i \<in> set (map gid t) then None else Some (t @ [new_row i now p], new_row i now p))"

section \<open>Consume\<close>

definition cas_consume :: "string \<Rightarrow> int \<Rightarrow> string \<Rightarrow> grant_table \<Rightarrow> grant_table \<times> nat" where
  "cas_consume i now by_id t =
     sql_update (\<lambda>g. gid g = i \<and> status g = Active)
       (\<lambda>g. g\<lparr>status := Consumed, consumedAt := Some now, consumedByRequestId := Some by_id,
              updatedAt := now\<rparr>) t"

text \<open>The retry loop both consumers share: select a candidate, compare-and-swap its status,
  and on a lost race select again. The result is the consumed row, or \<open>None\<close> for a miss.\<close>

fun cas_loop ::
  "(grant_table \<Rightarrow> grant list) \<Rightarrow> (grant list \<Rightarrow> grant) \<Rightarrow> (nat \<Rightarrow> grant_table \<Rightarrow> grant_table)
   \<Rightarrow> int \<Rightarrow> string \<Rightarrow> nat \<Rightarrow> nat \<Rightarrow> grant_table \<Rightarrow> grant_table \<times> grant option" where
  "cas_loop sel pick env now by_id attempt 0 t = (t, None)"
| "cas_loop sel pick env now by_id attempt (Suc n) t =
     (if sel t = [] then (t, None)
      else let i = gid (pick (sel t));
               (t', changes) = cas_consume i now by_id (env attempt t)
           in if changes = 0 then cas_loop sel pick env now by_id (Suc attempt) n t'
              else (t', List.find (\<lambda>g. gid g = i) t'))"

definition request_candidates :: "string \<Rightarrow> int \<Rightarrow> grant_table \<Rightarrow> grant list" where
  "request_candidates rid now t =
     filter (\<lambda>g. requestId g = Some rid \<and> scopeMode g = RequestId \<and> status g = Active \<and>
                 expiresAt g > now) t"

definition consumeScopedApprovalGrantByRequestId ::
  "(grant list \<Rightarrow> grant) \<Rightarrow> (nat \<Rightarrow> grant_table \<Rightarrow> grant_table) \<Rightarrow> string \<Rightarrow> string \<Rightarrow> int \<Rightarrow> grant_table
   \<Rightarrow> grant_table \<times> grant option" where
  "consumeScopedApprovalGrantByRequestId pick env rid by_id now t =
     cas_loop (request_candidates rid now) pick env now by_id 0 (Suc MAX_CAS_RETRIES) t"

record signature_params =
  s_toolName :: string
  s_inputDigest :: string
  s_consumingRequestId :: string
  s_executionChannel :: "string option"
  s_conversationId :: "string option"
  s_callSessionId :: "string option"
  s_requesterExternalUserId :: "string option"

text \<open>A context constraint: the grant's field is NULL, or the caller provides exactly it.\<close>

definition scope_field_ok :: "string option \<Rightarrow> string option \<Rightarrow> bool" where
  "scope_field_ok given field =
     (case given of
        Some v \<Rightarrow> field = None \<or> field = Some v
      | None \<Rightarrow> field = None)"

definition signature_match :: "signature_params \<Rightarrow> int \<Rightarrow> grant \<Rightarrow> bool" where
  "signature_match p now g \<longleftrightarrow>
     toolName g = Some (s_toolName p) \<and> inputDigest g = Some (s_inputDigest p) \<and>
     scopeMode g = ToolSignature \<and> status g = Active \<and> expiresAt g > now \<and>
     scope_field_ok (s_executionChannel p) (executionChannel g) \<and>
     scope_field_ok (s_conversationId p) (conversationId g) \<and>
     scope_field_ok (s_callSessionId p) (callSessionId g) \<and>
     scope_field_ok (s_requesterExternalUserId p) (requesterExternalUserId g)"

definition specificity :: "grant \<Rightarrow> nat" where
  "specificity g = (if executionChannel g \<noteq> None then 1 else 0) + (if conversationId g \<noteq> None then 1 else 0) +
     (if callSessionId g \<noteq> None then 1 else 0) + (if requesterExternalUserId g \<noteq> None then 1 else 0)"

text \<open>The rows \<^verbatim>\<open>ORDER BY specificity DESC\<close> can put first: those no match exceeds.\<close>

definition signature_candidates :: "signature_params \<Rightarrow> int \<Rightarrow> grant_table \<Rightarrow> grant list" where
  "signature_candidates p now t =
     (let ms = filter (signature_match p now) t
      in filter (\<lambda>g. list_all (\<lambda>h. specificity h \<le> specificity g) ms) ms)"

definition consumeScopedApprovalGrantByToolSignature ::
  "(grant list \<Rightarrow> grant) \<Rightarrow> (nat \<Rightarrow> grant_table \<Rightarrow> grant_table) \<Rightarrow> signature_params \<Rightarrow> int \<Rightarrow> grant_table
   \<Rightarrow> grant_table \<times> grant option" where
  "consumeScopedApprovalGrantByToolSignature pick env p now t =
     cas_loop (signature_candidates p now) pick env now (s_consumingRequestId p) 0 (Suc MAX_CAS_RETRIES) t"

section \<open>Expire and revoke\<close>

definition expireScopedApprovalGrants :: "int \<Rightarrow> grant_table \<Rightarrow> grant_table \<times> nat" where
  "expireScopedApprovalGrants now t =
     sql_update (\<lambda>g. status g = Active \<and> expiresAt g \<le> now)
       (\<lambda>g. g\<lparr>status := Expired, updatedAt := now\<rparr>) t"

record revoke_params =
  r_conversationId :: "string option"
  r_callSessionId :: "string option"
  r_requestChannel :: "string option"

definition revoke_match :: "revoke_params \<Rightarrow> grant \<Rightarrow> bool" where
  "revoke_match p g \<longleftrightarrow>
     (case r_conversationId p of None \<Rightarrow> True | Some v \<Rightarrow> conversationId g = Some v) \<and>
     (case r_callSessionId p of None \<Rightarrow> True | Some v \<Rightarrow> callSessionId g = Some v) \<and>
     (case r_requestChannel p of None \<Rightarrow> True | Some v \<Rightarrow> requestChannel g = v)"

text \<open>Without any filter the call raises (\<open>None\<close>) instead of revoking every grant.\<close>

definition revokeScopedApprovalGrantsForContext ::
  "revoke_params \<Rightarrow> int \<Rightarrow> grant_table \<Rightarrow> (grant_table \<times> nat) option" where
  "revokeScopedApprovalGrantsForContext p now t =
     (if r_conversationId p = None \<and> r_callSessionId p = None \<and> r_requestChannel p = None then None
      else Some (sql_update (\<lambda>g. status g = Active \<and> revoke_match p g)
                   (\<lambda>g. g\<lparr>status := Revoked, updatedAt := now\<rparr>) t))"

section \<open>The approval primitive\<close>

datatype mint_error = MissingRequestId | MissingToolFields | StorageError

definition js_truthy :: "string option \<Rightarrow> bool" where
  "js_truthy x = (case x of None \<Rightarrow> False | Some s \<Rightarrow> s \<noteq> [])"

definition mintGrantFromDecision ::
  "string \<Rightarrow> int \<Rightarrow> create_params \<Rightarrow> grant_table \<Rightarrow> grant_table \<times> (mint_error + grant)" where
  "mintGrantFromDecision i now p t =
     (if p_scopeMode p = RequestId \<and> \<not> js_truthy (p_requestId p) then (t, Inl MissingRequestId)
      else if p_scopeMode p = ToolSignature \<and> (\<not> js_truthy (p_toolName p) \<or> \<not> js_truthy (p_inputDigest p))
      then (t, Inl MissingToolFields)
      else (case createScopedApprovalGrant i now p t of
              Some (t', g) \<Rightarrow> (t', Inr g)
            | None \<Rightarrow> (t, Inl StorageError)))"

datatype consume_failure = NoMatch | Aborted

record consume_params =
  c_requestId :: "string option"
  c_sig :: signature_params

text \<open>\<open>c_sig\<close> holds the invocation's tool name, digest, consuming request and context.\<close>

definition consumeGrantSync ::
  "(grant list \<Rightarrow> grant) \<Rightarrow> (nat \<Rightarrow> grant_table \<Rightarrow> grant_table) \<Rightarrow> consume_params \<Rightarrow> int \<times> int \<Rightarrow> grant_table
   \<Rightarrow> grant_table \<times> (consume_failure + grant)" where
  "consumeGrantSync pick env p nows t =
     (let (t1, r1) = (if js_truthy (c_requestId p)
                      then consumeScopedApprovalGrantByRequestId pick env (the (c_requestId p))
                             (s_consumingRequestId (c_sig p)) (fst nows) t
                      else (t, None))
      in case r1 of
           Some g \<Rightarrow> (t1, Inr g)
         | None \<Rightarrow>
             (let (t2, r2) = consumeScopedApprovalGrantByToolSignature pick
                               (\<lambda>a. env (a + Suc MAX_CAS_RETRIES)) (c_sig p) (snd nows) t1
              in case r2 of Some g \<Rightarrow> (t2, Inr g) | None \<Rightarrow> (t2, Inl NoMatch)))"

definition GRANT_RETRY_INTERVAL_MS :: int where
  "GRANT_RETRY_INTERVAL_MS = 250"

definition GRANT_RETRY_MAX_WAIT_MS :: int where
  "GRANT_RETRY_MAX_WAIT_MS = 10000"

text \<open>
  What the polling loop sees of the outside, by iteration: the clock it compares with the
  deadline, the two clock readings of the attempt, the abort signal before and after the
  sleep, what the rest of the system did to the table during the sleep, and the other
  connections during the attempt (index 0 is the attempt before the loop).
\<close>

record poll_env =
  clock :: "nat \<Rightarrow> int"
  attempt_nows :: "nat \<Rightarrow> int \<times> int"
  aborted :: "nat \<Rightarrow> bool"
  aborted' :: "nat \<Rightarrow> bool"
  world :: "nat \<Rightarrow> grant_table \<Rightarrow> grant_table"
  others :: "nat \<Rightarrow> nat \<Rightarrow> grant_table \<Rightarrow> grant_table"

text \<open>The loop itself; the first argument is fuel and \<open>None\<close> means it ran out.\<close>

fun poll_loop ::
  "nat \<Rightarrow> (grant list \<Rightarrow> grant) \<Rightarrow> poll_env \<Rightarrow> consume_params \<Rightarrow> int \<Rightarrow> nat \<Rightarrow> grant_table
   \<Rightarrow> (grant_table \<times> (consume_failure + grant)) option" where
  "poll_loop 0 pick e p deadline k t = None"
| "poll_loop (Suc fuel) pick e p deadline k t =
     (if \<not> clock e k < deadline then Some (t, Inl NoMatch)
      else if aborted e k then Some (t, Inl Aborted)
      else let t1 = world e k t in
        if aborted' e k then Some (t1, Inl Aborted)
        else (case consumeGrantSync pick (others e (Suc k)) p (attempt_nows e (Suc k)) t1 of
                (t2, Inr g) \<Rightarrow> Some (t2, Inr g)
              | (t2, Inl _) \<Rightarrow> poll_loop fuel pick e p deadline (Suc k) t2))"

definition consumeGrantForInvocation ::
  "nat \<Rightarrow> (grant list \<Rightarrow> grant) \<Rightarrow> poll_env \<Rightarrow> consume_params \<Rightarrow> int option \<Rightarrow> int \<Rightarrow> grant_table
   \<Rightarrow> (grant_table \<times> (consume_failure + grant)) option" where
  "consumeGrantForInvocation fuel pick e p maxWaitMs start t =
     (case consumeGrantSync pick (others e 0) p (attempt_nows e 0) t of
        (t1, Inr g) \<Rightarrow> Some (t1, Inr g)
      | (t1, Inl err) \<Rightarrow>
          (let maxWait = (case maxWaitMs of Some w \<Rightarrow> w | None \<Rightarrow> GRANT_RETRY_MAX_WAIT_MS)
           in if maxWait \<le> 0 then Some (t1, Inl err)
              else poll_loop fuel pick e p (start + maxWait) 0 t1))"

section \<open>Statements and interleavings\<close>

text \<open>The atomic SQL statements the operations issue against the table, for any number of
  concurrent callers.\<close>

datatype stmt =
    InsertGrant string int create_params
  | CasConsume string int string
  | ExpireAll int
  | RevokeFor revoke_params int

fun exec_stmt :: "grant_table \<Rightarrow> stmt \<Rightarrow> grant_table" where
  "exec_stmt t (InsertGrant i now p) =
     (case createScopedApprovalGrant i now p t of Some r \<Rightarrow> fst r | None \<Rightarrow> t)"
| "exec_stmt t (CasConsume i now b) = fst (cas_consume i now b t)"
| "exec_stmt t (ExpireAll now) = fst (expireScopedApprovalGrants now t)"
| "exec_stmt t (RevokeFor p now) =
     (case revokeScopedApprovalGrantsForContext p now t of Some r \<Rightarrow> fst r | None \<Rightarrow> t)"

definition wins :: "string \<Rightarrow> grant_table \<Rightarrow> stmt \<Rightarrow> bool" where
  "wins i t st = (case st of CasConsume j now b \<Rightarrow> j = i \<and> snd (cas_consume j now b t) \<noteq> 0 | _ \<Rightarrow> False)"

definition spent :: "string \<Rightarrow> grant_table \<Rightarrow> bool" where
  "spent i t \<longleftrightarrow> i \<in> set (map gid t) \<and> (\<forall>g \<in> set t. gid g = i \<longrightarrow> status g \<noteq> Active)"

text \<open>
  How a table may change: rows are added but never removed, a row's scope is fixed when it is
  inserted, and a row that is no longer active never changes again.
\<close>

definition same_grant :: "grant \<Rightarrow> grant \<Rightarrow> bool" where
  "same_grant g g' \<longleftrightarrow>
     g' = g\<lparr>status := status g', consumedAt := consumedAt g',
            consumedByRequestId := consumedByRequestId g', updatedAt := updatedAt g'\<rparr> \<and>
     (status g \<noteq> Active \<longrightarrow> g' = g)"

definition table_ok :: "grant_table \<Rightarrow> bool" where
  "table_ok t \<longleftrightarrow> distinct (map gid t)"

definition evolves :: "grant_table \<Rightarrow> grant_table \<Rightarrow> bool" where
  "evolves t t' \<longleftrightarrow> (table_ok t \<longrightarrow> table_ok t') \<and> (\<forall>g \<in> set t. \<exists>g' \<in> set t'. same_grant g g')"

section \<open>Lemmas\<close>

named_theorems grant_simps \<open>the table operations, unfolded\<close>

declare cas_consume_def [grant_simps] expireScopedApprovalGrants_def [grant_simps]
  revokeScopedApprovalGrantsForContext_def [grant_simps] createScopedApprovalGrant_def [grant_simps]
  sql_update_def [grant_simps]

lemma same_grant_refl [simp]: "same_grant g g"
  by (simp add: same_grant_def)

lemma same_grant_trans: "same_grant a b \<Longrightarrow> same_grant b c \<Longrightarrow> same_grant a c"
  unfolding same_grant_def by (cases a; cases b; cases c) auto

lemma same_grant_gid: "same_grant g g' \<Longrightarrow> gid g' = gid g"
  unfolding same_grant_def by (cases g; cases g') simp

lemma evolves_grow:
  assumes "set t \<subseteq> set t'" "table_ok t \<Longrightarrow> table_ok t'"
  shows "evolves t t'"
  unfolding evolves_def
proof (intro conjI impI ballI)
  fix g assume "g \<in> set t"
  then show "\<exists>g' \<in> set t'. same_grant g g'" using assms(1) by (intro bexI [of _ g]) auto
qed (use assms(2) in simp)

lemma evolves_refl [simp]: "evolves t t"
  by (simp add: evolves_grow)

lemma evolves_trans: "evolves a b \<Longrightarrow> evolves b c \<Longrightarrow> evolves a c"
  unfolding evolves_def using same_grant_trans by meson

lemma sql_update_evolves:
  assumes "\<And>g. P g \<Longrightarrow> same_grant g (f g)"
  shows "evolves t (fst (sql_update P f t))"
proof -
  have gids: "map gid (map (\<lambda>g. if P g then f g else g) t) = map gid t"
    using assms same_grant_gid by simp
  have "\<forall>g \<in> set t. \<exists>g' \<in> set (map (\<lambda>g. if P g then f g else g) t). same_grant g g'"
  proof
    fix g assume g: "g \<in> set t"
    then have "(if P g then f g else g) \<in> set (map (\<lambda>g. if P g then f g else g) t)" by simp
    moreover have "same_grant g (if P g then f g else g)" using assms by simp
    ultimately show "\<exists>g' \<in> set (map (\<lambda>g. if P g then f g else g) t). same_grant g g'" by blast
  qed
  then show ?thesis unfolding evolves_def table_ok_def sql_update_def fst_conv gids by blast
qed

lemma sql_update_rel: "list_all2 (\<lambda>g g'. g' = (if P g then f g else g)) t (fst (sql_update P f t))"
  by (induction t) (simp_all add: sql_update_def)

lemma sql_update_none:
  assumes "\<And>g. P g \<Longrightarrow> \<not> P (f g)"
  shows "list_all (\<lambda>g. \<not> P g) (fst (sql_update P f t))"
  using assms by (induction t) (simp_all add: sql_update_def)

lemma cas_evolves: "evolves t (fst (cas_consume i now b t))"
  unfolding cas_consume_def by (rule sql_update_evolves) (simp add: same_grant_def)

lemma exec_stmt_evolves: "evolves t (exec_stmt t st)"
proof (cases st)
  case (InsertGrant i now p)
  have "evolves t (t @ [new_row i now p])" if "i \<notin> set (map gid t)"
    using that by (intro evolves_grow) (auto simp: table_ok_def new_row_def)
  then show ?thesis using InsertGrant by (simp add: createScopedApprovalGrant_def)
next
  case (ExpireAll now)
  then show ?thesis
    by (simp add: expireScopedApprovalGrants_def) (rule sql_update_evolves, simp add: same_grant_def)
next
  case (RevokeFor p now)
  then show ?thesis
    using sql_update_evolves [of "\<lambda>g. status g = Active \<and> revoke_match p g"
        "\<lambda>g. g\<lparr>status := Revoked, updatedAt := now\<rparr>" t]
    by (simp add: revokeScopedApprovalGrantsForContext_def same_grant_def)
qed (simp add: cas_evolves)

lemma spent_update:
  assumes "spent i t" "\<And>g. gid (f g) = gid g" "\<And>g. P g \<Longrightarrow> status g = Active"
  shows "spent i (fst (sql_update P f t))"
proof -
  have rows: "gid (if P g then f g else g) = gid g" for g using assms(2) by simp
  have "status (if P g then f g else g) \<noteq> Active" if "g \<in> set t" "gid g = i" for g
    using assms(1,3) that by (auto simp: spent_def)
  then have "\<forall>h \<in> set (map (\<lambda>g. if P g then f g else g) t). gid h = i \<longrightarrow> status h \<noteq> Active"
    using rows by (simp only: set_map ball_simps) metis
  moreover have "map gid (map (\<lambda>g. if P g then f g else g) t) = map gid t" using rows by simp
  ultimately show ?thesis using assms(1) unfolding spent_def sql_update_def fst_conv by metis
qed

lemma cas_changes: "0 < snd (cas_consume i now b t) \<longleftrightarrow> (\<exists>g \<in> set t. gid g = i \<and> status g = Active)"
  by (auto simp: cas_consume_def sql_update_def filter_empty_conv length_greater_0_conv)

lemma spent_cas: "i \<in> set (map gid t) \<Longrightarrow> spent i (fst (cas_consume i now b t))"
  by (auto simp: spent_def cas_consume_def sql_update_def image_iff)

interpretation grant_claims: claim_store exec_stmt wins spent
proof
  fix i t st
  show "spent i (exec_stmt t st)" if w: "wins i t st"
  proof (cases st)
    case (CasConsume j now b)
    then have "j = i" "\<exists>g \<in> set t. gid g = i \<and> status g = Active" using w by (auto simp: wins_def cas_changes)
    then show ?thesis using CasConsume spent_cas [of i t now b] by auto
  qed (use w in \<open>simp_all add: wins_def\<close>)
  show "spent i (exec_stmt t st)" if sp: "spent i t"
  proof (cases st)
    case (InsertGrant j now p)
    then show ?thesis using sp
      by (auto simp: createScopedApprovalGrant_def spent_def new_row_def)
  next
    case (CasConsume j now b)
    show ?thesis unfolding CasConsume exec_stmt.simps cas_consume_def by (rule spent_update [OF sp]) simp_all
  next
    case (ExpireAll now)
    show ?thesis unfolding ExpireAll exec_stmt.simps expireScopedApprovalGrants_def by (rule spent_update [OF sp]) simp_all
  next
    case (RevokeFor p now)
    then show ?thesis
      using sp spent_update [OF sp, of "\<lambda>g. g\<lparr>status := Revoked, updatedAt := now\<rparr>"
          "\<lambda>g. status g = Active \<and> revoke_match p g"]
      by (simp add: revokeScopedApprovalGrantsForContext_def)
  qed
  show "\<not> wins i t st" if "spent i t"
    using that by (auto simp: wins_def spent_def cas_changes split: stmt.splits)
qed

text \<open>What the retry loop returns, whatever other connections do within \<open>evolves\<close>: the
  consumed row is one the query selected, with nothing but the consumption recorded.\<close>

definition consumed_by :: "int \<Rightarrow> string \<Rightarrow> grant \<Rightarrow> grant" where
  "consumed_by now b g =
     g\<lparr>status := Consumed, consumedAt := Some now, consumedByRequestId := Some b, updatedAt := now\<rparr>"

lemma find_unique:
  "table_ok t \<Longrightarrow> g \<in> set t \<Longrightarrow> List.find (\<lambda>h. gid h = gid g) t = Some g"
  by (induction t) (auto simp: table_ok_def)

lemma cas_result:
  assumes ok: "table_ok u" and ev: "evolves t u" "table_ok t" and g: "g \<in> set t"
    and ch: "snd (cas_consume (gid g) now b u) \<noteq> 0"
  shows "List.find (\<lambda>h. gid h = gid g) (fst (cas_consume (gid g) now b u)) = Some (consumed_by now b g) \<and>
         consumed_by now b g \<in> set (fst (cas_consume (gid g) now b u))"
proof -
  obtain h where h: "h \<in> set u" "gid h = gid g" "status h = Active" using ch by (auto simp: cas_changes)
  obtain h' where h': "h' \<in> set u" "same_grant g h'" using ev(1) g by (auto simp: evolves_def)
  have "h' = h" using ok h h' same_grant_gid [OF h'(2)] by (auto simp: table_ok_def distinct_map inj_on_def)
  then have eq: "consumed_by now b h = consumed_by now b g"
    using h'(2) by (cases g; cases h) (simp add: same_grant_def consumed_by_def)
  have mem: "consumed_by now b h \<in> set (fst (cas_consume (gid g) now b u))"
    using h by (auto simp: cas_consume_def sql_update_def consumed_by_def image_iff intro!: bexI [of _ h])
  have "table_ok (fst (cas_consume (gid g) now b u))"
    using cas_evolves ok by (auto simp: evolves_def)
  then show ?thesis using find_unique [OF _ mem] mem eq h by (simp add: consumed_by_def)
qed

lemma cas_loop_sound:
  assumes env: "\<And>a u. table_ok u \<Longrightarrow> evolves u (env a u)"
    and pick: "\<And>xs. xs \<noteq> [] \<Longrightarrow> pick xs \<in> set xs"
    and sel: "\<And>u. set (sel u) \<subseteq> set u"
  shows "table_ok t \<Longrightarrow> cas_loop sel pick env now b a n t = (t', r) \<Longrightarrow>
    evolves t t' \<and> (\<forall>g. r = Some g \<longrightarrow> g \<in> set t' \<and>
      (\<exists>u g0. evolves t u \<and> g0 \<in> set (sel u) \<and> g = consumed_by now b g0))"
proof (induction n arbitrary: a t)
  case (Suc n)
  show ?case
  proof (cases "sel t = []")
    case True
    then show ?thesis using Suc.prems by auto
  next
    case False
    define g0 where "g0 = pick (sel t)"
    have g0: "g0 \<in> set (sel t)" "g0 \<in> set t" using pick [OF False] sel [of t] by (auto simp: g0_def)
    obtain t1 ch where cas: "cas_consume (gid g0) now b (env a t) = (t1, ch)"
      by (cases "cas_consume (gid g0) now b (env a t)")
    have ev: "evolves t (env a t)" using env Suc.prems(1) by blast
    have ok: "table_ok (env a t)" using ev Suc.prems(1) by (simp add: evolves_def)
    have ev1: "evolves t t1" using ev cas_evolves [of "env a t" "gid g0" now b] cas evolves_trans by fastforce
    have loop: "cas_loop sel pick env now b a (Suc n) t =
        (if ch = 0 then cas_loop sel pick env now b (Suc a) n t1 else (t1, List.find (\<lambda>g. gid g = gid g0) t1))"
      using False by (simp add: g0_def [symmetric] cas Let_def)
    show ?thesis
    proof (cases "ch = 0")
      case True
      then have "cas_loop sel pick env now b (Suc a) n t1 = (t', r)" using loop Suc.prems by simp
      moreover have "table_ok t1" using ev1 Suc.prems(1) by (simp add: evolves_def)
      ultimately have "evolves t1 t' \<and> (\<forall>g. r = Some g \<longrightarrow> g \<in> set t' \<and>
          (\<exists>u g0. evolves t1 u \<and> g0 \<in> set (sel u) \<and> g = consumed_by now b g0))"
        by (intro Suc.IH [of t1 "Suc a"])
      then show ?thesis using evolves_trans [OF ev1] by blast
    next
      case False
      then have "t' = t1" "r = Some (consumed_by now b g0)" "consumed_by now b g0 \<in> set t1"
        using loop Suc.prems cas_result [OF ok ev Suc.prems(1) g0(2), of now b] cas by auto
      then show ?thesis using ev1 g0 by (auto intro!: exI [of _ t] exI [of _ g0])
    qed
  qed
qed auto

text \<open>Without interference the first candidate is consumed.\<close>

lemma cas_loop_hit:
  assumes "sel t \<noteq> []" "pick (sel t) \<in> set t" "status (pick (sel t)) = Active" "table_ok t"
  shows "\<exists>t'. cas_loop sel pick (\<lambda>_ u. u) now b a (Suc n) t = (t', Some (consumed_by now b (pick (sel t))))"
proof -
  have "snd (cas_consume (gid (pick (sel t))) now b t) \<noteq> 0" using assms(2,3) by (auto simp: cas_changes)
  then show ?thesis
    using assms cas_result [OF assms(4) evolves_refl assms(4,2), of now b] by (auto simp: Let_def split: prod.splits)
qed

declare cas_loop.simps [simp del]

lemma run_evolves: "evolves t (foldl exec_stmt t sts)"
  by (induction sts arbitrary: t) (auto intro: evolves_trans exec_stmt_evolves)

lemma consumed_by_props [simp]:
  "status (consumed_by now b g) = Consumed" "consumedByRequestId (consumed_by now b g) = Some b"
  "consumedAt (consumed_by now b g) = Some now" "gid (consumed_by now b g) = gid g"
  "scopeMode (consumed_by now b g) = scopeMode g" "requestId (consumed_by now b g) = requestId g"
  by (simp_all add: consumed_by_def)

lemma candidates_subset:
  "set (request_candidates rid now t) \<subseteq> set t" "set (signature_candidates p now t) \<subseteq> set t"
  by (auto simp: request_candidates_def signature_candidates_def Let_def)

lemma request_candidates_mem:
  "g \<in> set (request_candidates rid now t) \<longleftrightarrow>
     g \<in> set t \<and> requestId g = Some rid \<and> scopeMode g = RequestId \<and> status g = Active \<and> expiresAt g > now"
  by (auto simp: request_candidates_def)

lemma signature_candidates_mem:
  "g \<in> set (signature_candidates p now t) \<longleftrightarrow>
     g \<in> set t \<and> signature_match p now g \<and>
     (\<forall>h \<in> set t. signature_match p now h \<longrightarrow> specificity h \<le> specificity g)"
  by (auto simp: signature_candidates_def Let_def list_all_iff)

lemma signature_candidates_empty:
  "signature_candidates p now t = [] \<longleftrightarrow> (\<forall>g \<in> set t. \<not> signature_match p now g)"
proof
  assume none: "signature_candidates p now t = []"
  show "\<forall>g \<in> set t. \<not> signature_match p now g"
  proof (rule ccontr)
    assume "\<not> (\<forall>g \<in> set t. \<not> signature_match p now g)"
    then have ne: "{g \<in> set t. signature_match p now g} \<noteq> {}" (is "?M \<noteq> {}") by blast
    then have "Max (specificity ` ?M) \<in> specificity ` ?M" by (intro Max_in) auto
    then obtain g where g: "g \<in> ?M" "specificity g = Max (specificity ` ?M)" by auto
    then have "\<forall>h \<in> ?M. specificity h \<le> specificity g" by simp
    then have "g \<in> set (signature_candidates p now t)" using g(1) by (simp add: signature_candidates_mem)
    then show False using none by simp
  qed
qed (use signature_candidates_mem [of _ p now t] in \<open>auto simp: signature_candidates_def Let_def filter_empty_conv\<close>)

lemma scope_field_ok_iff: "scope_field_ok given field \<longleftrightarrow> field = None \<or> field = given"
  by (auto simp: scope_field_ok_def split: option.splits)

text \<open>The two consumers, with other connections running arbitrary statements.\<close>

definition interfering :: "(nat \<Rightarrow> stmt list) \<Rightarrow> nat \<Rightarrow> grant_table \<Rightarrow> grant_table" where
  "interfering sts a t = foldl exec_stmt t (sts a)"

lemma cas_loop_interfering:
  assumes "\<And>xs. xs \<noteq> [] \<Longrightarrow> pick xs \<in> set xs" "\<And>u. set (sel u) \<subseteq> set u" "table_ok t"
    and "cas_loop sel pick (\<lambda>a. interfering sts (f a)) now b a n t = (t', r)"
  shows "evolves t t' \<and> (\<forall>g. r = Some g \<longrightarrow> g \<in> set t' \<and>
      (\<exists>u g0. evolves t u \<and> g0 \<in> set (sel u) \<and> g = consumed_by now b g0))"
  using cas_loop_sound [where env = "\<lambda>a. interfering sts (f a)", of pick sel t now b a n t' r] assms
  by (simp add: interfering_def run_evolves)

text \<open>What a consumed grant must have been when it was selected.\<close>

definition authorises :: "consume_params \<Rightarrow> int \<times> int \<Rightarrow> grant_table \<Rightarrow> grant \<Rightarrow> bool" where
  "authorises p nows u g \<longleftrightarrow> g \<in> set u \<and> status g = Active \<and>
     ((scopeMode g = RequestId \<and> requestId g \<noteq> None \<and> requestId g = c_requestId p \<and> expiresAt g > fst nows) \<or>
      (signature_match (c_sig p) (snd nows) g \<and>
       (\<forall>h \<in> set u. signature_match (c_sig p) (snd nows) h \<longrightarrow> specificity h \<le> specificity g)))"

lemma byRequestId_sound:
  assumes "\<And>xs. xs \<noteq> [] \<Longrightarrow> pick xs \<in> set xs" "table_ok t"
    and "consumeScopedApprovalGrantByRequestId pick (interfering sts) rid b now t = (t', r)"
  shows "evolves t t' \<and> (\<forall>g. r = Some g \<longrightarrow> g \<in> set t' \<and> (\<exists>u g0. evolves t u \<and>
      g0 \<in> set (request_candidates rid now u) \<and> g = consumed_by now b g0))"
  using cas_loop_interfering [of pick "request_candidates rid now" t sts id] assms candidates_subset(1)
  by (simp add: consumeScopedApprovalGrantByRequestId_def)

lemma byToolSignature_sound:
  assumes "\<And>xs. xs \<noteq> [] \<Longrightarrow> pick xs \<in> set xs" "table_ok t"
    and "consumeScopedApprovalGrantByToolSignature pick (\<lambda>a. interfering sts (f a)) p now t = (t', r)"
  shows "evolves t t' \<and> (\<forall>g. r = Some g \<longrightarrow> g \<in> set t' \<and> (\<exists>u g0. evolves t u \<and>
      g0 \<in> set (signature_candidates p now u) \<and> g = consumed_by now (s_consumingRequestId p) g0))"
  using cas_loop_interfering [of pick "signature_candidates p now" t sts f] assms candidates_subset(2)
  by (simp add: consumeScopedApprovalGrantByToolSignature_def)

lemma consumeGrantSync_hit:
  assumes pick: "\<And>xs. xs \<noteq> [] \<Longrightarrow> pick xs \<in> set xs" and ok: "table_ok t"
    and hit: "consumeGrantSync pick (interfering sts) p nows t = (t', Inr g)"
  shows "evolves t t' \<and> g \<in> set t' \<and>
    (\<exists>u g0 now. evolves t u \<and> authorises p nows u g0 \<and> now \<in> {fst nows, snd nows} \<and>
       g = consumed_by now (s_consumingRequestId (c_sig p)) g0)"
proof -
  let ?b = "s_consumingRequestId (c_sig p)"
  obtain t1 r1 where one: "(if js_truthy (c_requestId p)
      then consumeScopedApprovalGrantByRequestId pick (interfering sts) (the (c_requestId p)) ?b (fst nows) t
      else (t, None)) = (t1, r1)" by fastforce
  obtain t2 r2 where two: "consumeScopedApprovalGrantByToolSignature pick
      (\<lambda>a. interfering sts (a + Suc MAX_CAS_RETRIES)) (c_sig p) (snd nows) t1 = (t2, r2)" by fastforce
  have one_ok: "evolves t t1 \<and> (\<forall>g. r1 = Some g \<longrightarrow> g \<in> set t1 \<and> (\<exists>u g0. evolves t u \<and>
      js_truthy (c_requestId p) \<and> g0 \<in> set (request_candidates (the (c_requestId p)) (fst nows) u) \<and>
      g = consumed_by (fst nows) ?b g0))"
    using one byRequestId_sound [OF pick ok, of sts "the (c_requestId p)" ?b "fst nows"]
    by (cases "js_truthy (c_requestId p)") auto
  have ok1: "table_ok t1" using one_ok ok by (simp add: evolves_def)
  have two_ok: "evolves t1 t2 \<and> (\<forall>g. r2 = Some g \<longrightarrow> g \<in> set t2 \<and> (\<exists>u g0. evolves t1 u \<and>
      g0 \<in> set (signature_candidates (c_sig p) (snd nows) u) \<and> g = consumed_by (snd nows) ?b g0))"
    by (rule byToolSignature_sound [OF pick ok1 two])
  show ?thesis
  proof (cases r1)
    case (Some h)
    then have eq: "h = g" "t1 = t'" using hit one by (auto simp: consumeGrantSync_def)
    obtain u g0 where "evolves t u" "js_truthy (c_requestId p)"
        "g0 \<in> set (request_candidates (the (c_requestId p)) (fst nows) u)" "g = consumed_by (fst nows) ?b g0"
      using one_ok Some eq by blast
    moreover from this have "authorises p nows u g0"
      by (auto simp: request_candidates_mem authorises_def js_truthy_def split: option.splits)
    ultimately show ?thesis using one_ok Some eq by blast
  next
    case None
    then have eq: "r2 = Some g" "t2 = t'" using hit one two
      by (auto simp: consumeGrantSync_def split: option.splits)
    obtain u g0 where "evolves t1 u" "g0 \<in> set (signature_candidates (c_sig p) (snd nows) u)"
        "g = consumed_by (snd nows) ?b g0"
      using two_ok eq by blast
    moreover from this have "authorises p nows u g0"
      by (auto simp: signature_candidates_mem authorises_def signature_match_def)
    moreover have "evolves t u" "evolves t t'" using one_ok two_ok eq calculation evolves_trans by blast+
    ultimately show ?thesis using two_ok eq by blast
  qed
qed

text \<open>Without interference, a consumer misses only when nothing matches.\<close>

lemma byRequestId_alone:
  assumes "\<And>xs. xs \<noteq> [] \<Longrightarrow> pick xs \<in> set xs" "table_ok t"
  shows "if request_candidates rid now t \<noteq> []
         then \<exists>t' g. consumeScopedApprovalGrantByRequestId pick (\<lambda>_ u. u) rid b now t = (t', Some g) \<and>
                scopeMode g = RequestId \<and> requestId g = Some rid
         else consumeScopedApprovalGrantByRequestId pick (\<lambda>_ u. u) rid b now t = (t, None)"
proof (cases "request_candidates rid now t = []")
  case False
  let ?g = "pick (request_candidates rid now t)"
  have g: "?g \<in> set (request_candidates rid now t)" using assms(1) False by blast
  then show ?thesis
    using cas_loop_hit [of "request_candidates rid now" t pick now b 0 MAX_CAS_RETRIES] False assms(2)
    by (fastforce simp: request_candidates_mem consumeScopedApprovalGrantByRequestId_def)
qed (simp add: consumeScopedApprovalGrantByRequestId_def cas_loop.simps)

lemma byToolSignature_alone:
  assumes "\<And>xs. xs \<noteq> [] \<Longrightarrow> pick xs \<in> set xs" "table_ok t"
  shows "if list_ex (signature_match p now) t
         then \<exists>t' g. consumeScopedApprovalGrantByToolSignature pick (\<lambda>_ u. u) p now t = (t', Some g) \<and>
                scopeMode g = ToolSignature
         else consumeScopedApprovalGrantByToolSignature pick (\<lambda>_ u. u) p now t = (t, None)"
proof (cases "list_ex (signature_match p now) t")
  case True
  then have False: "signature_candidates p now t \<noteq> []" by (auto simp: signature_candidates_empty list_ex_iff)
  let ?g = "pick (signature_candidates p now t)"
  have g: "?g \<in> set (signature_candidates p now t)" using assms(1) False by blast
  then show ?thesis
    using cas_loop_hit [of "signature_candidates p now" t pick now "s_consumingRequestId p" 0 MAX_CAS_RETRIES]
      False True assms(2)
    by (fastforce simp: signature_candidates_mem signature_match_def consumeScopedApprovalGrantByToolSignature_def)
qed (simp add: consumeScopedApprovalGrantByToolSignature_def cas_loop.simps signature_candidates_empty list_ex_iff)

lemma poll_loop_ends:
  assumes "deadline \<le> clock e (k + n)"
  shows "\<exists>r. poll_loop (Suc n) pick e p deadline k t = Some r"
  using assms
proof (induction n arbitrary: k t)
  case 0
  then show ?case by simp
next
  case (Suc n)
  obtain t1 r where c: "consumeGrantSync pick (others e (Suc k)) p (attempt_nows e (Suc k)) (world e k t) = (t1, r)"
    by fastforce
  show ?case using Suc.IH [of "Suc k" t1] Suc.prems
    by (subst poll_loop.simps(2)) (cases r, auto simp: Let_def c simp del: poll_loop.simps)
qed

lemma clock_advances:
  fixes c :: "nat \<Rightarrow> int"
  assumes "\<And>k. c k + d \<le> c (Suc k)"
  shows "c 0 + int k * d \<le> c k"
proof (induction k)
  case (Suc k)
  then show ?case using assms [of k] by (simp add: algebra_simps)
qed simp

section \<open>Properties\<close>

text \<open>C16: A grant authorises at most one execution. In every interleaving of the SQL statements
  issued by any number of concurrent callers, at most one compare-and-swap on a given grant
  succeeds, and none succeeds on a grant that is consumed, expired or revoked.\<close>

theorem grant_consumed_at_most_once:
  "count_wins exec_stmt (wins i) t sts \<le> (if spent i t then 0 else 1)"
  using grant_claims.wins_at_most_once [of i t sts] grant_claims.spent_never_wins [of i t sts] by simp

text \<open>Whatever statements other connections run during the call, a grant returned by the
  consume operation was active and unexpired when it was selected and authorises this
  invocation: it is bound to the given request, or its tool, digest and every non-null scope
  field match and no matching grant is more specific. The returned row is that grant with the
  consumption by this request recorded, and no row's scope or settled status changed.\<close>

theorem consumeGrantSync_sound:
  assumes "\<And>xs. xs \<noteq> [] \<Longrightarrow> pick xs \<in> set xs" and "table_ok t"
    and "consumeGrantSync pick (interfering sts) p nows t = (t', Inr g)"
  shows "evolves t t' \<and> g \<in> set t' \<and>
    (\<exists>u g0 now. evolves t u \<and> authorises p nows u g0 \<and> now \<in> {fst nows, snd nows} \<and>
       g = consumed_by now (s_consumingRequestId (c_sig p)) g0)"
  by (rule consumeGrantSync_hit [OF assms])

definition sample_params :: "scope_mode \<Rightarrow> create_params" where
  "sample_params m =
     \<lparr>p_scopeMode = m, p_requestId = Some ''req-1'', p_toolName = Some ''bash'',
      p_inputDigest = Some ''d1'', p_requestChannel = ''voice'', p_decisionChannel = ''sms'',
      p_executionChannel = None, p_conversationId = Some ''conv'', p_callSessionId = None,
      p_requesterExternalUserId = None, p_guardianExternalUserId = None, p_expiresAt = 100\<rparr>"

definition sample_sig :: "string \<Rightarrow> signature_params" where
  "sample_sig tool =
     \<lparr>s_toolName = tool, s_inputDigest = ''d1'', s_consumingRequestId = ''run-7'',
      s_executionChannel = None, s_conversationId = Some ''conv'', s_callSessionId = None,
      s_requesterExternalUserId = None\<rparr>"

theorem consumeGrantSync_sound_witness:
  "\<exists>u g0 now. evolves [new_row ''g1'' 1 (sample_params ToolSignature)] u \<and>
     authorises \<lparr>c_requestId = None, c_sig = sample_sig ''bash''\<rparr> (5, 6) u g0 \<and> now \<in> {fst (5, 6), snd (5, 6)} \<and>
     consumed_by 6 ''run-7'' (new_row ''g1'' 1 (sample_params ToolSignature)) = consumed_by now ''run-7'' g0"
proof -
  let ?t = "[new_row ''g1'' 1 (sample_params ToolSignature)]"
  let ?p = "\<lparr>c_requestId = None, c_sig = sample_sig ''bash''\<rparr>"
  have pick: "\<And>xs :: grant list. xs \<noteq> [] \<Longrightarrow> hd xs \<in> set xs" by simp
  have ok: "table_ok ?t" by (simp add: table_ok_def)
  have run: "consumeGrantSync hd (interfering (\<lambda>_. [ExpireAll 3])) ?p (5, 6) ?t =
      (map (consumed_by 6 ''run-7'') ?t, Inr (consumed_by 6 ''run-7'' (hd ?t)))"
    by code_simp
  have b: "s_consumingRequestId (c_sig ?p) = ''run-7''" by (simp add: sample_sig_def)
  show ?thesis using consumeGrantSync_sound [OF pick ok run] unfolding b by auto
qed

text \<open>Without interference, consuming succeeds exactly when an active, unexpired grant is
  bound to the request or matches the tool signature; a request-bound grant is used before a
  tool-signature grant, and a miss leaves the table as it was.\<close>

theorem consumeGrantSync_complete:
  assumes "\<And>xs. xs \<noteq> [] \<Longrightarrow> pick xs \<in> set xs" and "table_ok t" and "c_requestId p = Some rid" "rid \<noteq> []"
  shows "if request_candidates rid (fst nows) t \<noteq> []
         then \<exists>t' g. consumeGrantSync pick (\<lambda>_ u. u) p nows t = (t', Inr g) \<and> scopeMode g = RequestId \<and>
                requestId g = Some rid
         else if list_ex (signature_match (c_sig p) (snd nows)) t
         then \<exists>t' g. consumeGrantSync pick (\<lambda>_ u. u) p nows t = (t', Inr g) \<and> scopeMode g = ToolSignature
         else consumeGrantSync pick (\<lambda>_ u. u) p nows t = (t, Inl NoMatch)"
  using byRequestId_alone [OF assms(1,2), of rid "fst nows" "s_consumingRequestId (c_sig p)"]
    byToolSignature_alone [OF assms(1,2), of "c_sig p" "snd nows"] assms(3,4)
  by (auto simp: consumeGrantSync_def js_truthy_def split: if_splits)

theorem consumeGrantSync_complete_witness:
  "\<exists>t' g. consumeGrantSync hd (\<lambda>_ u. u) \<lparr>c_requestId = Some ''req-1'', c_sig = sample_sig ''bash''\<rparr> (5, 6)
     [new_row ''g2'' 1 (sample_params ToolSignature), new_row ''g1'' 1 (sample_params RequestId)] = (t', Inr g) \<and>
     scopeMode g = RequestId \<and> requestId g = Some ''req-1''"
proof -
  let ?t = "[new_row ''g2'' 1 (sample_params ToolSignature), new_row ''g1'' 1 (sample_params RequestId)]"
  have pick: "\<And>xs :: grant list. xs \<noteq> [] \<Longrightarrow> hd xs \<in> set xs" by simp
  have ok: "table_ok ?t" by (simp add: table_ok_def new_row_def)
  have "request_candidates ''req-1'' (fst (5, 6)) ?t \<noteq> []" by code_simp
  then show ?thesis
    using consumeGrantSync_complete [OF pick ok, of "\<lparr>c_requestId = Some ''req-1'', c_sig = sample_sig ''bash''\<rparr>"
        "''req-1''" "(5, 6)"] by simp
qed

text \<open>After the expiry sweep no active grant is past its time and every other row is as it
  was; revoking for a context leaves no active grant of that context and touches no other
  row, and without any filter it is refused.\<close>

theorem expire_and_revoke:
  assumes "revokeScopedApprovalGrantsForContext p now t = Some (t', n)"
  shows "list_all (\<lambda>g. status g = Active \<longrightarrow> expiresAt g > now) (fst (expireScopedApprovalGrants now t)) \<and>
    list_all2 (\<lambda>g g'. g' = (if status g = Active \<and> expiresAt g \<le> now
                            then g\<lparr>status := Expired, updatedAt := now\<rparr> else g))
      t (fst (expireScopedApprovalGrants now t)) \<and>
    list_all (\<lambda>g. status g = Active \<longrightarrow> \<not> revoke_match p g) t' \<and>
    list_all2 (\<lambda>g g'. g' = (if status g = Active \<and> revoke_match p g
                            then g\<lparr>status := Revoked, updatedAt := now\<rparr> else g)) t t' \<and>
    (r_conversationId p \<noteq> None \<or> r_callSessionId p \<noteq> None \<or> r_requestChannel p \<noteq> None)"
proof -
  let ?P = "\<lambda>g. status g = Active \<and> expiresAt g \<le> now" and ?Q = "\<lambda>g. status g = Active \<and> revoke_match p g"
  let ?f = "\<lambda>g. g\<lparr>status := Expired, updatedAt := now\<rparr>" and ?h = "\<lambda>g. g\<lparr>status := Revoked, updatedAt := now\<rparr>"
  have e: "fst (expireScopedApprovalGrants now t) = fst (sql_update ?P ?f t)"
    by (simp add: expireScopedApprovalGrants_def)
  have r: "t' = fst (sql_update ?Q ?h t)"
    "r_conversationId p \<noteq> None \<or> r_callSessionId p \<noteq> None \<or> r_requestChannel p \<noteq> None"
    using assms by (auto simp: revokeScopedApprovalGrantsForContext_def split: if_splits)
  have "list_all (\<lambda>g. \<not> ?P g) (fst (sql_update ?P ?f t))" "list_all (\<lambda>g. \<not> ?Q g) t'"
    unfolding r by (rule sql_update_none, simp)+
  then show ?thesis using sql_update_rel [of ?P ?f t] sql_update_rel [of ?Q ?h t] r
    unfolding e r by (auto simp: list_all_iff not_le)
qed

theorem expire_and_revoke_witness:
  "list_all (\<lambda>g. status g = Active \<longrightarrow> expiresAt g > 200)
     (fst (expireScopedApprovalGrants 200 [new_row ''g1'' 1 (sample_params RequestId)]))"
proof -
  have "revokeScopedApprovalGrantsForContext
      \<lparr>r_conversationId = Some ''conv'', r_callSessionId = None, r_requestChannel = None\<rparr> 200
      [new_row ''g1'' 1 (sample_params RequestId)] =
      Some ([(new_row ''g1'' 1 (sample_params RequestId))\<lparr>status := Revoked, updatedAt := 200\<rparr>], 1)"
    by code_simp
  from expire_and_revoke [OF this] show ?thesis by blast
qed

text \<open>C39: Polling for a grant ends: if every sleep moves the clock by at least the interval,
  the call returns after at most \<open>k\<close> sleeps, where \<open>k\<close> intervals cover the maximum wait
  (forty with the defaults).\<close>

theorem consumeGrantForInvocation_returns:
  assumes "\<And>k. clock e k + interval \<le> clock e (Suc k)" and "start \<le> clock e 0"
    and "(case maxWaitMs of Some w \<Rightarrow> w | None \<Rightarrow> GRANT_RETRY_MAX_WAIT_MS) \<le> int k * interval"
  shows "\<exists>r. consumeGrantForInvocation (Suc k) pick e p maxWaitMs start t = Some r"
proof -
  let ?w = "case maxWaitMs of Some w \<Rightarrow> w | None \<Rightarrow> GRANT_RETRY_MAX_WAIT_MS"
  have "start + ?w \<le> clock e (0 + k)" using clock_advances [of "clock e" interval k] assms(1) assms(2,3) by simp
  note ends = poll_loop_ends [OF this]
  obtain t1 r where "consumeGrantSync pick (others e 0) p (attempt_nows e 0) t = (t1, r)" by fastforce
  then show ?thesis using ends [of pick p t1]
    by (cases r) (simp_all add: consumeGrantForInvocation_def Let_def del: poll_loop.simps)
qed

theorem consumeGrantForInvocation_returns_witness:
  "\<exists>r. consumeGrantForInvocation 41 hd
     \<lparr>clock = (\<lambda>k. 250 * int k), attempt_nows = (\<lambda>k. (250 * int k, 250 * int k)), aborted = (\<lambda>_. False),
      aborted' = (\<lambda>_. False), world = (\<lambda>_ t. t), others = (\<lambda>_ _ t. t)\<rparr>
     \<lparr>c_requestId = None, c_sig = sample_sig ''bash''\<rparr> None 0 [] = Some r"
proof -
  let ?e = "\<lparr>clock = (\<lambda>k. 250 * int k), attempt_nows = (\<lambda>k. (250 * int k, 250 * int k)), aborted = (\<lambda>_. False),
      aborted' = (\<lambda>_. False), world = (\<lambda>_ t. t), others = (\<lambda>_ _ t. t)\<rparr> :: poll_env"
  have "\<exists>r. consumeGrantForInvocation (Suc 40) hd ?e
      \<lparr>c_requestId = None, c_sig = sample_sig ''bash''\<rparr> None 0 [] = Some r"
    by (rule consumeGrantForInvocation_returns [where interval = GRANT_RETRY_INTERVAL_MS])
       (simp_all add: GRANT_RETRY_INTERVAL_MS_def GRANT_RETRY_MAX_WAIT_MS_def)
  then show ?thesis by (simp add: eval_nat_numeral)
qed

text \<open>A grant minted for a request is found: after a successful mint in request mode, and
  without interference, consuming with that request id before the expiry succeeds with a
  grant of that request.\<close>

theorem mint_then_consume:
  assumes "\<And>xs. xs \<noteq> [] \<Longrightarrow> pick xs \<in> set xs" and "table_ok t"
    and "mintGrantFromDecision i now p t = (t', Inr g)" and "p_scopeMode p = RequestId"
    and "c_requestId c = p_requestId p" and "fst nows < p_expiresAt p"
  shows "\<exists>t'' g'. consumeGrantSync pick (\<lambda>_ u. u) c nows t' = (t'', Inr g') \<and> requestId g' = p_requestId p"
proof -
  obtain rid where rid: "p_requestId p = Some rid" "rid \<noteq> []"
    using assms(3,4) by (auto simp: mintGrantFromDecision_def js_truthy_def split: if_splits option.splits)
  have t': "t' = t @ [new_row i now p]" "i \<notin> set (map gid t)"
    using assms(3,4) by (auto simp: mintGrantFromDecision_def createScopedApprovalGrant_def split: if_splits)
  have ok: "table_ok t'" using assms(2) t' by (simp add: table_ok_def new_row_def)
  have "new_row i now p \<in> set (request_candidates rid (fst nows) t')"
    using t' rid assms(4,6) by (simp add: request_candidates_mem new_row_def)
  then have "request_candidates rid (fst nows) t' \<noteq> []" by auto
  then show ?thesis
    using byRequestId_alone [OF assms(1) ok, of rid "fst nows" "s_consumingRequestId (c_sig c)"] rid assms(5)
    by (auto simp: consumeGrantSync_def js_truthy_def)
qed

theorem mint_then_consume_witness:
  "\<exists>t'' g'. consumeGrantSync hd (\<lambda>_ u. u) \<lparr>c_requestId = Some ''req-1'', c_sig = sample_sig ''other''\<rparr> (5, 6)
     [new_row ''g1'' 1 (sample_params RequestId)] = (t'', Inr g') \<and> requestId g' = p_requestId (sample_params RequestId)"
proof -
  have pick: "\<And>xs :: grant list. xs \<noteq> [] \<Longrightarrow> hd xs \<in> set xs" by simp
  have m: "mintGrantFromDecision ''g1'' 1 (sample_params RequestId) [] =
      ([new_row ''g1'' 1 (sample_params RequestId)], Inr (new_row ''g1'' 1 (sample_params RequestId)))" by code_simp
  show ?thesis
    by (rule mint_then_consume [OF pick _ m]) (simp_all add: table_ok_def sample_params_def)
qed

text \<open>The request-id path checks the request id only. A grant minted for one tool, digest
  and conversation under a request id is consumed by an invocation of another tool with
  another digest in another conversation, although the module's header promises that all
  non-null scope fields must match.\<close>

theorem request_grant_ignores_scope:
  "let g = new_row ''g1'' 1 (sample_params RequestId);
       p = \<lparr>c_requestId = Some ''req-1'',
            c_sig = (sample_sig ''rm'')\<lparr>s_inputDigest := ''d2'', s_conversationId := Some ''elsewhere''\<rparr>\<rparr>
   in snd (consumeGrantSync hd (\<lambda>_ u. u) p (5, 6) [g]) = Inr (consumed_by 5 ''run-7'' g) \<and>
      toolName g = Some ''bash'' \<and> conversationId g = Some ''conv''"
  by code_simp

end
