(* ===== verification/Posix_Paths.thy ===== *)
theory Posix_Paths
  imports Prelude "HOL-Library.Sublist"
begin

text \<open>
  The part of the \<^verbatim>\<open>node:path\<close> module (POSIX flavour) that the permission code calls:
  \<open>isAbsolute\<close>, \<open>normalize\<close>, \<open>join\<close>, \<open>resolve\<close>, \<open>dirname\<close>, \<open>basename\<close> and \<open>relative\<close> on
  strings, and the laws that tie the strings to lists of segments. The working directory of
  the process, which \<open>resolve\<close> falls back to, is an argument.

  The locale \<open>containment\<close> is the contract of a test that asks whether one path is another
  or lies under it. The source writes that test five times, in four files; each copy is an
  interpretation in the theory of its component.
\<close>

section \<open>The path functions\<close>

abbreviation slash :: char where
  "slash \<equiv> CHR ''/''"

definition isAbsolute :: "string \<Rightarrow> bool" where
  "isAbsolute p \<longleftrightarrow> p \<noteq> [] \<and> hd p = slash"

text \<open>One segment of \<open>normalizeString\<close>: empty and dot segments vanish, a double dot removes
  the segment before it, and stays only where the path may climb above its start.\<close>

definition norm_step :: "bool \<Rightarrow> string list \<Rightarrow> string \<Rightarrow> string list" where
  "norm_step allowAboveRoot acc s =
     (if s = [] \<or> s = ''.'' then acc
      else if s = ''..'' then
        (if acc \<noteq> [] \<and> last acc \<noteq> ''..'' then butlast acc
         else if allowAboveRoot then acc @ [s] else acc)
      else acc @ [s])"

definition normalizeString :: "bool \<Rightarrow> string \<Rightarrow> string list" where
  "normalizeString allowAboveRoot p = foldl (norm_step allowAboveRoot) [] (split_on slash p)"

definition abs_path :: "string list \<Rightarrow> string" where
  "abs_path segs = slash # join_with [slash] segs"

abbreviation norm_segs :: "string \<Rightarrow> string list" where
  "norm_segs \<equiv> normalizeString False"

definition normalize :: "string \<Rightarrow> string" where
  "normalize p =
     (if p = [] then ''.''
      else let body = join_with [slash] (normalizeString (\<not> isAbsolute p) p);
               trailing = last p = slash;
               body = (if body = [] \<and> \<not> isAbsolute p then (if trailing then ''./'' else ''.'')
                       else if body \<noteq> [] \<and> trailing then body @ [slash] else body)
           in if isAbsolute p then slash # body else body)"

definition path_join :: "string list \<Rightarrow> string" where
  "path_join ps =
     (let qs = filter (\<lambda>p. p \<noteq> []) ps in if qs = [] then ''.'' else normalize (join_with [slash] qs))"

text \<open>\<open>resolve\<close> reads its arguments from the right and stops at the first absolute one; the
  working directory, an absolute path, comes last.\<close>

fun resolve_text :: "string \<Rightarrow> string list \<Rightarrow> string \<Rightarrow> string" where
  "resolve_text cwd [] acc = cwd @ slash # acc"
| "resolve_text cwd (p # ps) acc =
     (if p = [] then resolve_text cwd ps acc
      else if isAbsolute p then p @ slash # acc
      else resolve_text cwd ps (p @ slash # acc))"

definition path_resolve :: "string \<Rightarrow> string list \<Rightarrow> string" where
  "path_resolve cwd args = abs_path (norm_segs (resolve_text cwd (rev args) []))"

definition dirname :: "string \<Rightarrow> string" where
  "dirname p =
     (case p of [] \<Rightarrow> ''.''
      | c # cs \<Rightarrow>
          (case dropWhile (\<lambda>x. x \<noteq> slash) (dropWhile (\<lambda>x. x = slash) (rev cs)) of
             [] \<Rightarrow> if c = slash then [slash] else ''.''
           | _ # r \<Rightarrow> if c = slash \<and> r = [] then ''//'' else c # rev r))"

definition basename :: "string \<Rightarrow> string" where
  "basename p = rev (takeWhile (\<lambda>x. x \<noteq> slash) (dropWhile (\<lambda>x. x = slash) (rev p)))"

fun common_prefix :: "'a list \<Rightarrow> 'a list \<Rightarrow> 'a list" where
  "common_prefix (x # xs) (y # ys) = (if x = y then x # common_prefix xs ys else [])"
| "common_prefix _ _ = []"

definition path_relative :: "string \<Rightarrow> string \<Rightarrow> string \<Rightarrow> string" where
  "path_relative cwd source target =
     (let xs = norm_segs (path_resolve cwd [source]);
          ys = norm_segs (path_resolve cwd [target]);
          k = length (common_prefix xs ys)
      in join_with [slash] (replicate (length xs - k) ''..'' @ drop k ys))"

section \<open>Segments\<close>

definition proper :: "string list \<Rightarrow> bool" where
  "proper segs \<longleftrightarrow> (\<forall>s \<in> set segs. s \<noteq> [] \<and> s \<noteq> ''.'' \<and> s \<noteq> ''..'' \<and> slash \<notin> set s)"

text \<open>A path that \<open>resolve\<close> would return: absolute, without dots or doubled slashes.\<close>

definition resolved :: "string \<Rightarrow> bool" where
  "resolved p \<longleftrightarrow> p = abs_path (norm_segs p)"

lemma proper_simps [simp]:
  "proper []"
  "proper (s # ss) \<longleftrightarrow> (s \<noteq> [] \<and> s \<noteq> ''.'' \<and> s \<noteq> ''..'' \<and> slash \<notin> set s) \<and> proper ss"
  "proper (xs @ ys) \<longleftrightarrow> proper xs \<and> proper ys"
  by (auto simp: proper_def)

lemma proper_butlast [simp]: "proper xs \<Longrightarrow> proper (butlast xs)"
  by (auto simp: proper_def dest: in_set_butlastD)

lemma proper_take_drop [simp]: "proper xs \<Longrightarrow> proper (take n xs)" "proper xs \<Longrightarrow> proper (drop n xs)"
  by (auto simp: proper_def dest: in_set_takeD in_set_dropD)

lemma proper_prefix: "proper xs \<Longrightarrow> prefix ys xs \<Longrightarrow> proper ys"
  by (auto simp: prefix_def)

lemma split_on_append_sep: "split_on c (p @ c # q) = split_on c p @ split_on c q"
proof (induction p)
  case (Cons x p)
  then show ?case by (cases "split_on c p") auto
qed simp

lemma split_on_Cons_sep [simp]: "split_on c (c # q) = [] # split_on c q"
  by simp

lemma split_join: "(\<forall>s \<in> set ss. c \<notin> set s) \<Longrightarrow> ss \<noteq> [] \<Longrightarrow> split_on c (join_with [c] ss) = ss"
  by (induction "[c]" ss rule: join_with.induct) (auto simp: split_on_plain split_on_append_sep)

lemma proper_norm_step:
  assumes "proper acc" "slash \<notin> set s"
  shows "proper (norm_step False acc s)"
  using assms by (auto simp: norm_step_def)

lemma proper_foldl:
  "proper acc \<Longrightarrow> \<forall>s \<in> set ss. slash \<notin> set s \<Longrightarrow> proper (foldl (norm_step False) acc ss)"
proof (induction ss arbitrary: acc)
  case (Cons s ss)
  then show ?case using proper_norm_step [of acc s] by simp
qed simp

lemma proper_norm_segs [simp]: "proper (norm_segs p)"
  unfolding normalizeString_def by (rule proper_foldl) (auto dest: split_on_parts)

lemma foldl_proper:
  "proper ss \<Longrightarrow> foldl (norm_step b) acc ss = acc @ ss"
  by (induction ss arbitrary: acc) (auto simp: norm_step_def)

lemma norm_step_Nil [simp]: "norm_step b acc [] = acc"
  by (simp add: norm_step_def)

lemma join_with_eq_Nil: "proper ss \<Longrightarrow> join_with [slash] ss = [] \<longleftrightarrow> ss = []"
  by (cases ss rule: join_with.cases [of "([slash], ss)" for ss, simplified]) (auto simp: proper_def)

lemma norm_join:
  assumes "proper ss"
  shows "normalizeString b (join_with [slash] ss) = ss"
proof (cases "ss = []")
  case True
  then show ?thesis by (simp add: normalizeString_def)
next
  case False
  have "split_on slash (join_with [slash] ss) = ss"
    using assms by (intro split_join False) (auto simp: proper_def)
  then show ?thesis using foldl_proper [OF assms, of b "[]"] by (simp add: normalizeString_def)
qed

lemma norm_abs_path [simp]:
  assumes "proper ss"
  shows "normalizeString b (abs_path ss) = ss"
  using norm_join [OF assms, of b] by (simp add: normalizeString_def abs_path_def)

lemma abs_path_inj: "proper xs \<Longrightarrow> proper ys \<Longrightarrow> abs_path xs = abs_path ys \<longleftrightarrow> xs = ys"
  by (metis norm_abs_path)

lemma norm_append:
  "normalizeString b (p @ slash # q) = foldl (norm_step b) (normalizeString b p) (split_on slash q)"
  by (simp add: normalizeString_def split_on_append_sep)

lemma norm_append_proper:
  assumes "proper ss"
  shows "normalizeString b (p @ slash # join_with [slash] ss) = normalizeString b p @ ss"
proof (cases "ss = []")
  case False
  have "split_on slash (join_with [slash] ss) = ss"
    using assms by (intro split_join False) (auto simp: proper_def)
  then show ?thesis using assms by (simp add: norm_append foldl_proper)
qed (simp add: norm_append)

lemma resolved_abs_path [simp]: "proper xs \<Longrightarrow> resolved (abs_path xs)"
  by (simp add: resolved_def)

lemma resolved_resolve [simp]: "resolved (path_resolve cwd args)"
  by (simp add: path_resolve_def)

lemma resolvedE:
  assumes "resolved p"
  obtains xs where "proper xs" "p = abs_path xs"
  using assms proper_norm_segs resolved_def by metis

lemma isAbsolute_abs_path [simp]: "isAbsolute (abs_path xs)"
  by (simp add: isAbsolute_def abs_path_def)

lemma abs_path_not_Nil [simp]: "abs_path xs \<noteq> []"
  by (simp add: abs_path_def)

lemma resolve_abs: "isAbsolute p \<Longrightarrow> path_resolve cwd [d, p] = abs_path (norm_segs p)"
  by (auto simp: path_resolve_def norm_append isAbsolute_def)

lemma resolve_one_abs: "isAbsolute p \<Longrightarrow> path_resolve cwd [p] = abs_path (norm_segs p)"
  by (auto simp: path_resolve_def norm_append isAbsolute_def)

lemma resolve_resolved [simp]: "resolved p \<Longrightarrow> path_resolve cwd [p] = p"
  by (metis resolve_one_abs isAbsolute_abs_path resolved_def)

lemma resolve_rel:
  assumes "isAbsolute d" "\<not> isAbsolute q"
  shows "path_resolve cwd [d, q] =
         abs_path (foldl (norm_step False) (norm_segs d) (if q = [] then [] else split_on slash q))"
proof -
  have "foldl (norm_step False) acc (split_on slash (q @ [slash])) = foldl (norm_step False) acc (split_on slash q)"
    for acc
    using split_on_append_sep [of slash q "[]"] by simp
  then show ?thesis
    using assms by (auto simp: path_resolve_def norm_append isAbsolute_def)
qed

lemma join_with_snoc:
  "join_with sep (xs @ [x]) = (if xs = [] then x else join_with sep xs @ sep @ x)"
  by (induction sep xs rule: join_with.induct) auto

lemma last_join:
  assumes "proper ss" "ss \<noteq> []"
  shows "last (join_with [slash] ss) \<noteq> slash"
  using assms by (cases ss rule: rev_cases) (auto simp: join_with_snoc last_in_set split: if_splits dest: last_in_set)

lemma dirname_snoc [simp]:
  assumes "proper (xs @ [x])"
  shows "dirname (abs_path (xs @ [x])) = abs_path xs"
proof -
  have x: "x \<noteq> []" "slash \<notin> set x" using assms by auto
  have d: "dropWhile (\<lambda>c. c = slash) (rev x @ r) = rev x @ r" for r
    using x by (cases x rule: rev_cases) auto
  have e: "dropWhile (\<lambda>c. c \<noteq> slash) (rev x @ slash # r) = slash # r" "dropWhile (\<lambda>c. c \<noteq> slash) (rev x) = []" for r
    using x(2) by (auto simp: dropWhile_append dropWhile_eq_Nil_conv)
  show ?thesis
    using assms join_with_eq_Nil [of xs] d [of "[]"]
    by (cases "xs = []") (simp_all add: dirname_def abs_path_def join_with_snoc d e)
qed

lemma dirname_root [simp]: "dirname (abs_path []) = abs_path []" "dirname [slash] = [slash]"
  by (simp_all add: dirname_def abs_path_def)

lemma dirname_abs_path: "proper xs \<Longrightarrow> dirname (abs_path xs) = abs_path (butlast xs)"
  by (cases xs rule: rev_cases) simp_all

lemma basename_snoc [simp]:
  assumes "proper (xs @ [x])"
  shows "basename (abs_path (xs @ [x])) = x"
proof -
  have x: "x \<noteq> []" "slash \<notin> set x" using assms by auto
  have d: "dropWhile (\<lambda>c. c = slash) (rev x @ r) = rev x @ r" for r
    using x by (cases x rule: rev_cases) auto
  have e: "takeWhile (\<lambda>c. c \<noteq> slash) (rev x @ slash # r) = rev x" for r
    using x(2) by (auto simp: takeWhile_append)
  show ?thesis by (simp add: basename_def abs_path_def join_with_snoc d e)
qed

lemma basename_root [simp]: "basename (abs_path []) = []"
  by (simp add: basename_def abs_path_def)

lemma dirname_fixed: "proper xs \<Longrightarrow> dirname (abs_path xs) = abs_path xs \<longleftrightarrow> xs = []"
  by (cases xs rule: rev_cases) (auto simp: abs_path_inj)

lemma path_join_abs:
  assumes "proper xs" "proper ys"
  shows "path_join (abs_path xs # ys) = abs_path (xs @ ys)"
proof -
  have f: "filter (\<lambda>p. p \<noteq> []) (abs_path xs # ys) = abs_path xs # ys"
    using assms(2) by (auto simp: proper_def abs_path_def intro: filter_True)
  have n: "normalizeString False (join_with [slash] (abs_path xs # ys)) = xs @ ys"
    using assms by (cases ys) (simp_all add: norm_append_proper)
  have l: "last (join_with [slash] (abs_path xs # ys)) = slash \<longleftrightarrow> xs @ ys = []"
    using assms last_join [of xs] last_join [of ys] join_with_eq_Nil [of xs] join_with_eq_Nil [of ys]
    by (cases ys) (auto simp: abs_path_def)
  have a: "isAbsolute (join_with [slash] (abs_path xs # ys))" "join_with [slash] (abs_path xs # ys) \<noteq> []"
    by (cases ys; simp add: isAbsolute_def abs_path_def)+
  have p: "proper (xs @ ys)" using assms by simp
  show ?thesis
    unfolding path_join_def f normalize_def Let_def
    using a l n join_with_eq_Nil [OF p] by (simp add: abs_path_def)
qed

section \<open>Containment\<close>

text \<open>A directory as a string prefix: the path with one slash at its end.\<close>

definition dir_prefix :: "string \<Rightarrow> string" where
  "dir_prefix d = (if ends_with d [slash] then d else d @ [slash])"

definition slashed :: "string list \<Rightarrow> string" where
  "slashed ss = concat (map (\<lambda>s. s @ [slash]) ss)"

lemma starts_with_prefix: "starts_with s p \<longleftrightarrow> prefix p s"
  by (simp add: starts_with_iff prefix_def)

lemma slashed_join: "ss \<noteq> [] \<Longrightarrow> slashed ss = join_with [slash] ss @ [slash]"
  unfolding slashed_def by (induction "[slash]" ss rule: join_with.induct) auto

lemma prefix_slashed: "proper xs \<Longrightarrow> proper ys \<Longrightarrow> prefix (slashed ys) (slashed xs) \<longleftrightarrow> prefix ys xs"
proof (induction ys arbitrary: xs)
  case (Cons y ys)
  have "prefix (y @ slash # a) (x @ slash # b) \<longleftrightarrow> y = x \<and> prefix a b"
    if "slash \<notin> set x" "slash \<notin> set y" for a b x
    using that by (fastforce simp: prefix_def append_eq_append_conv2 Cons_eq_append_conv append_eq_Cons_conv)
  with Cons show ?case by (cases xs) (auto simp: slashed_def)
qed (simp add: slashed_def)

lemma ends_with_last: "ends_with p [c] \<longleftrightarrow> p \<noteq> [] \<and> last p = c"
  by (cases p rule: rev_cases) (auto simp: ends_with_iff)

lemma abs_path_ends: "proper xs \<Longrightarrow> ends_with (abs_path xs) [slash] \<longleftrightarrow> xs = []"
  using last_join [of xs] join_with_eq_Nil [of xs] by (auto simp: ends_with_last abs_path_def)

lemma dir_prefix_abs: "proper ys \<Longrightarrow> dir_prefix (abs_path ys) = slash # slashed ys"
  using slashed_join [of ys] by (auto simp: dir_prefix_def abs_path_ends) (simp_all add: abs_path_def slashed_def)

lemma under_iff:
  assumes "proper xs" "proper ys"
  shows "abs_path xs = abs_path ys \<or> starts_with (abs_path xs) (dir_prefix (abs_path ys)) \<longleftrightarrow> prefix ys xs"
proof (cases "ys = []")
  case True
  have "dir_prefix (abs_path []) = [slash]" by (simp add: dir_prefix_abs slashed_def)
  with True show ?thesis by (simp add: starts_with_prefix) (simp add: abs_path_def)
next
  case False
  show ?thesis
  proof (cases "xs = []")
    case True
    with False assms have "\<not> prefix (dir_prefix (abs_path ys)) [slash]" "abs_path [] \<noteq> abs_path ys"
      by (simp_all add: dir_prefix_abs slashed_join abs_path_inj)
    with True False show ?thesis by (simp add: starts_with_prefix) (simp add: abs_path_def)
  next
    case xs: False
    have "prefix (slashed ys) (join_with [slash] xs @ [slash]) \<longleftrightarrow> prefix ys xs"
      using prefix_slashed [OF assms] by (simp add: slashed_join xs)
    moreover have "dir_prefix (abs_path ys) = slash # join_with [slash] ys @ [slash]"
      using False assms by (simp add: dir_prefix_abs slashed_join)
    ultimately show ?thesis
      using abs_path_inj [OF assms] by (simp only: starts_with_prefix slashed_join [OF False]) (auto simp: abs_path_def)
  qed
qed

lemma abs_path_root: "proper ys \<Longrightarrow> abs_path ys = [slash] \<longleftrightarrow> ys = []"
  using join_with_eq_Nil [of ys] by (simp add: abs_path_def)

text \<open>The contract of a containment test on resolved paths.\<close>

locale containment =
  fixes within :: "string \<Rightarrow> string \<Rightarrow> bool"
  assumes within_abs: "proper xs \<Longrightarrow> proper ys \<Longrightarrow> within (abs_path xs) (abs_path ys) \<longleftrightarrow> prefix ys xs"
begin

lemma within_segs: "resolved p \<Longrightarrow> resolved q \<Longrightarrow> within p q \<longleftrightarrow> prefix (norm_segs q) (norm_segs p)"
  by (metis within_abs resolvedE norm_abs_path)

lemma within_refl: "resolved p \<Longrightarrow> within p p"
  by (simp add: within_segs)

lemma within_trans:
  "resolved p \<Longrightarrow> resolved q \<Longrightarrow> resolved r \<Longrightarrow> within p q \<Longrightarrow> within q r \<Longrightarrow> within p r"
  by (metis within_segs prefix_order.trans)

lemma within_antisym: "resolved p \<Longrightarrow> resolved q \<Longrightarrow> within p q \<Longrightarrow> within q p \<Longrightarrow> p = q"
  by (metis within_segs prefix_order.antisym resolved_def)

lemma within_root: "resolved p \<Longrightarrow> within p [slash]"
  using within_segs [of p "abs_path []"] by (simp add: resolved_def abs_path_def normalizeString_def)

lemma within_linear:
  "resolved p \<Longrightarrow> resolved a \<Longrightarrow> resolved b \<Longrightarrow> within p a \<Longrightarrow> within p b \<Longrightarrow> within a b \<or> within b a"
  using prefix_same_cases by (fastforce simp: within_segs)

lemma within_dirname: "resolved p \<Longrightarrow> within p (dirname p)"
  by (elim resolvedE) (simp add: dirname_abs_path within_abs prefix_def, metis append_butlast_last_id append_Nil2 butlast.simps(1))

end

end
