(* ===== verification/File_System.thy ===== *)
theory File_System
  imports Posix_Paths
begin

text \<open>
  A file system with symbolic links, as the permission code sees it through
  \<^verbatim>\<open>realpathSync\<close>, \<^verbatim>\<open>lstatSync\<close> and \<^verbatim>\<open>readlinkSync\<close>, and the three functions that
  canonicalise a path over it: \<open>resolveTrailingLinkTarget\<close>
  (\<^verbatim>\<open>assistant/src/util/fs-symlinks.ts\<close>), \<open>resolveRealPath\<close>
  (\<^verbatim>\<open>assistant/src/tools/shared/filesystem/path-policy.ts\<close>) and \<open>canonicalize\<close>
  (\<^verbatim>\<open>assistant/src/permissions/workspace-policy.ts\<close>).

  The kernel's path walk is the reference: \<open>walk\<close> follows a path segment by segment, with a
  budget of 40 links, and \<open>destination\<close> is the place a write to a path really lands. The lemmas
  show that the canonicalisers compute that place, for file systems whose link targets do not
  climb with double dots; a concrete file system shows why that condition is needed.
\<close>

section \<open>The file system\<close>

datatype node = Dir | File | Link string

type_synonym fs = "(string list \<times> node) list"

definition is_dir :: "fs \<Rightarrow> string list \<Rightarrow> bool" where
  "is_dir fs p \<longleftrightarrow> p = [] \<or> map_of fs p = Some Dir"

definition wf_fs :: "fs \<Rightarrow> bool" where
  "wf_fs fs \<longleftrightarrow> (\<forall>(p, _) \<in> set fs. p \<noteq> [] \<and> proper p \<and> is_dir fs (butlast p))"

definition link_limit :: nat where
  "link_limit = 40"

text \<open>Where the target of a link met in a directory starts.\<close>

definition link_base :: "string \<Rightarrow> string list \<Rightarrow> string list" where
  "link_base t d = (if isAbsolute t then [] else d)"

text \<open>The kernel's walk from a directory: the links still allowed and the place reached. With
  \<open>create\<close> the last segment need not exist.\<close>

fun walk :: "fs \<Rightarrow> bool \<Rightarrow> nat \<Rightarrow> string list \<Rightarrow> string list \<Rightarrow> (nat \<times> string list) option" where
  "walk fs create n d [] = Some (n, d)"
| "walk fs create n d (s # ss) =
     (if s = [] \<or> s = ''.'' then walk fs create n d ss
      else if s = ''..'' then walk fs create n (butlast d) ss
      else (case map_of fs (d @ [s]) of
              None \<Rightarrow> if create \<and> ss = [] then Some (n, d @ [s]) else None
            | Some Dir \<Rightarrow> walk fs create n (d @ [s]) ss
            | Some File \<Rightarrow> if ss = [] then Some (n, d @ [s]) else None
            | Some (Link t) \<Rightarrow>
                (case n of 0 \<Rightarrow> None
                 | Suc m \<Rightarrow> walk fs create m (link_base t d) (split_on slash t @ ss))))"

definition realpathSync :: "fs \<Rightarrow> string \<Rightarrow> string option" where
  "realpathSync fs p = map_option (\<lambda>r. abs_path (snd r)) (walk fs False link_limit [] (split_on slash p))"

text \<open>\<^verbatim>\<open>lstatSync(p).isSymbolicLink()\<close> and \<^verbatim>\<open>readlinkSync(p)\<close> in one: the target when the
  path is a link, nothing when it is not or cannot be inspected.\<close>

definition readlinkSync :: "fs \<Rightarrow> string \<Rightarrow> string option" where
  "readlinkSync fs p =
     (case walk fs False link_limit [] (split_on slash (dirname p)) of
        None \<Rightarrow> None
      | Some (_, d) \<Rightarrow>
          (case map_of fs (d @ [basename p]) of Some (Link t) \<Rightarrow> Some t | _ \<Rightarrow> None))"

text \<open>Where an open that may create the file ends up.\<close>

definition destination :: "fs \<Rightarrow> string \<Rightarrow> string list option" where
  "destination fs p = map_option snd (walk fs True link_limit [] (split_on slash p))"

section \<open>The canonicalisers\<close>

record host =
  cwd :: string
  files :: fs

fun follow_links :: "host \<Rightarrow> nat \<Rightarrow> string \<Rightarrow> string" where
  "follow_links E 0 current = current"
| "follow_links E (Suc depth) current =
     (case readlinkSync (files E) current of
        None \<Rightarrow> current
      | Some linkTarget \<Rightarrow> follow_links E depth (path_resolve (cwd E) [dirname current, linkTarget]))"

definition resolveTrailingLinkTarget :: "host \<Rightarrow> string \<Rightarrow> string" where
  "resolveTrailingLinkTarget E path = follow_links E 64 path"

text \<open>Climbing with \<open>dirname\<close> ends: at the root, or at the dot for a relative path.\<close>

definition climb_measure :: "string \<Rightarrow> nat" where
  "climb_measure p = (if p = ''.'' then 0 else Suc (length p))"

lemma length_dropWhile_twice:
  "dropWhile (\<lambda>x. x \<noteq> a) (dropWhile (\<lambda>x. x = a) ys) = x # r \<Longrightarrow> Suc (Suc (length r)) \<le> length ys"
proof (induction ys)
  case (Cons y ys)
  then show ?case using length_dropWhile_le [of "\<lambda>x. x \<noteq> a" ys] by (auto split: if_splits)
qed simp

lemma climb_decreases:
  assumes n: "dirname p \<noteq> p"
  shows "climb_measure (dirname p) < climb_measure p"
proof (cases p)
  case p: (Cons c cs)
  let ?r = "dropWhile (\<lambda>x. x \<noteq> slash) (dropWhile (\<lambda>x. x = slash) (rev cs))"
  have d: "dirname p = (case ?r of [] \<Rightarrow> if c = slash then [slash] else ''.''
                        | _ # r \<Rightarrow> if c = slash \<and> r = [] then ''//'' else c # rev r)"
    by (simp only: p dirname_def list.case)
  show ?thesis
  proof (cases ?r)
    case Nil
    then have "dirname p = (if c = slash then [slash] else ''.'')" by (simp only: d list.case)
    then show ?thesis using n p by (cases cs) (auto simp: climb_measure_def)
  next
    case (Cons x r)
    then have "dirname p = (if c = slash \<and> r = [] then ''//'' else c # rev r)" by (simp only: d list.case)
    moreover have "Suc (Suc (length r)) \<le> length cs" using length_dropWhile_twice [OF Cons] by simp
    ultimately show ?thesis using p by (auto simp: climb_measure_def)
  qed
qed (simp add: dirname_def climb_measure_def)

function canonicalizeExisting :: "host \<Rightarrow> string \<Rightarrow> string" where
  "canonicalizeExisting E p =
     (case realpathSync (files E) p of
        Some r \<Rightarrow> r
      | None \<Rightarrow> (let parent = dirname p in
                  if parent = p then normalize p
                  else canonicalizeExisting E parent @ slash # basename p))"
  by pat_completeness auto

termination
  by (relation "measure (\<lambda>(E, p). climb_measure p)") (auto simp: climb_decreases)

declare canonicalizeExisting.simps [simp del]

definition canonicalize :: "host \<Rightarrow> string \<Rightarrow> string" where
  "canonicalize E p = canonicalizeExisting E (resolveTrailingLinkTarget E (path_resolve (cwd E) [p]))"

definition canonicalizeAddressedName :: "host \<Rightarrow> string \<Rightarrow> string" where
  "canonicalizeAddressedName E p =
     (let q = path_resolve (cwd E) [p] in canonicalizeExisting E (dirname q) @ slash # basename q)"

function real_loop :: "host \<Rightarrow> string \<Rightarrow> string \<Rightarrow> string list \<Rightarrow> string" where
  "real_loop E absolutePath current trailing =
     (if current = dirname current then absolutePath
      else (case realpathSync (files E) current of
              Some real \<Rightarrow> if trailing \<noteq> [] then path_join (real # trailing) else real
            | None \<Rightarrow> real_loop E absolutePath (dirname current) (basename current # trailing)))"
  by pat_completeness auto

termination
  by (relation "measure (\<lambda>(E, a, p, t). climb_measure p)") (auto intro: climb_decreases)

declare real_loop.simps [simp del]

definition resolveRealPath :: "host \<Rightarrow> string \<Rightarrow> string" where
  "resolveRealPath E absolutePath = real_loop E absolutePath (resolveTrailingLinkTarget E absolutePath) []"

section \<open>Laws of the walk\<close>

definition is_name :: "string \<Rightarrow> bool" where
  "is_name s \<longleftrightarrow> s \<noteq> [] \<and> s \<noteq> ''.'' \<and> s \<noteq> ''..''"

lemma walk_skip [simp]: "s = [] \<or> s = ''.'' \<Longrightarrow> walk fs c n d (s # ss) = walk fs c n d ss"
  by auto

lemma walk_name:
  "is_name s \<Longrightarrow> walk fs c n d (s # ss) =
     (case map_of fs (d @ [s]) of
        None \<Rightarrow> if c \<and> ss = [] then Some (n, d @ [s]) else None
      | Some Dir \<Rightarrow> walk fs c n (d @ [s]) ss
      | Some File \<Rightarrow> if ss = [] then Some (n, d @ [s]) else None
      | Some (Link t) \<Rightarrow>
          (case n of 0 \<Rightarrow> None | Suc m \<Rightarrow> walk fs c m (link_base t d) (split_on slash t @ ss)))"
  by (simp add: is_name_def)

declare walk.simps(2) [simp del]

lemma walk_up [simp]: "walk fs c n d (''..'' # ss) = walk fs c n (butlast d) ss"
  by (simp add: walk.simps)

text \<open>Induction along the walk, one case for each thing a segment can meet.\<close>

lemma walk_induct [case_names Done Skip Up Missing Dir File Loop Link]:
  assumes "\<And>n d. P n d []"
    and "\<And>n d s ss. s = [] \<or> s = ''.'' \<Longrightarrow> P n d ss \<Longrightarrow> P n d (s # ss)"
    and "\<And>n d ss. P n (butlast d) ss \<Longrightarrow> P n d (''..'' # ss)"
    and "\<And>n d s ss. is_name s \<Longrightarrow> map_of fs (d @ [s]) = None \<Longrightarrow> P n d (s # ss)"
    and "\<And>n d s ss. is_name s \<Longrightarrow> map_of fs (d @ [s]) = Some Dir \<Longrightarrow> P n (d @ [s]) ss \<Longrightarrow> P n d (s # ss)"
    and "\<And>n d s ss. is_name s \<Longrightarrow> map_of fs (d @ [s]) = Some File \<Longrightarrow> P n d (s # ss)"
    and "\<And>d s t ss. is_name s \<Longrightarrow> map_of fs (d @ [s]) = Some (Link t) \<Longrightarrow> P 0 d (s # ss)"
    and "\<And>n d s t ss. is_name s \<Longrightarrow> map_of fs (d @ [s]) = Some (Link t) \<Longrightarrow>
           P n (link_base t d) (split_on slash t @ ss) \<Longrightarrow> P (Suc n) d (s # ss)"
  shows "P n d ss"
proof -
  have "fs' = fs \<Longrightarrow> P n d ss" for fs'
  proof (induction fs' False n d ss rule: walk.induct)
    case (2 fs' n d s ss)
    consider "s = [] \<or> s = ''.''" | "s = ''..''" | "is_name s" by (auto simp: is_name_def)
    then show ?case
    proof cases
      case 3
      note cases = assms(4-8) [OF 3, of d]
      show ?thesis
        using 2 3 cases by (cases "map_of fs (d @ [s])"; cases "the (map_of fs (d @ [s]))"; cases n) (auto simp: is_name_def)
    qed (use 2 assms(2,3) in auto)
  qed (rule assms(1))
  then show ?thesis by simp
qed

lemma walk_budget: "walk fs c n d ss = Some (m, e) \<Longrightarrow> m \<le> n"
  by (induction n d ss rule: walk_induct [where fs = fs]) (auto simp: walk_name split: if_splits)

lemma walk_shift: "walk fs c (n + k) d ss = Some (m + k, e) \<longleftrightarrow> walk fs c n d ss = Some (m, e)"
proof (induction n d ss rule: walk_induct [where fs = fs])
  case (Loop d s t ss)
  then show ?case
    using walk_budget [of fs c "k - 1" "link_base t d" "split_on slash t @ ss" "m + k" e]
    by (cases k) (auto simp: walk_name)
qed (auto simp: walk_name)

lemma walk_create: "walk fs False n d ss = Some r \<Longrightarrow> walk fs c n d ss = Some r"
  by (induction n d ss rule: walk_induct [where fs = fs]) (auto simp: walk_name split: if_splits)

lemma wf_fsD:
  assumes "wf_fs fs" "map_of fs p = Some v"
  shows "p \<noteq> [] \<and> proper p \<and> is_dir fs (butlast p)"
  using assms map_of_SomeD [OF assms(2)] by (auto simp: wf_fs_def)

lemma is_dir_butlast: "wf_fs fs \<Longrightarrow> is_dir fs d \<Longrightarrow> is_dir fs (butlast d)"
  by (metis is_dir_def wf_fsD butlast.simps(1))

lemma is_dir_proper: "wf_fs fs \<Longrightarrow> is_dir fs d \<Longrightarrow> proper d"
  by (metis is_dir_def wf_fsD proper_simps(1))

lemma walk_append:
  assumes "wf_fs fs" "is_dir fs d" "ys \<noteq> []"
  shows "walk fs c n d (xs @ ys) = Some r \<longleftrightarrow>
         (\<exists>m e. walk fs False n d xs = Some (m, e) \<and> is_dir fs e \<and> walk fs c m e ys = Some r)"
  using assms(2)
proof (induction n d xs rule: walk_induct [where fs = fs])
  case (Up n d ss)
  then show ?case using is_dir_butlast [OF assms(1)] by simp
next
  case (File n d s ss)
  then show ?case using assms(3) by (auto simp: walk_name is_dir_def)
next
  case (Link n d s t ss)
  then show ?case by (simp add: walk_name) (simp add: link_base_def is_dir_def)
qed (auto simp: walk_name is_dir_def assms(3))

lemma is_name_proper: "proper ss \<Longrightarrow> s \<in> set ss \<Longrightarrow> is_name s"
  by (auto simp: proper_def is_name_def)

lemma walk_abs_path [simp]:
  assumes "proper p"
  shows "walk fs c n [] (split_on slash (abs_path p)) = walk fs c n [] p"
proof (cases "p = []")
  case False
  have "split_on slash (join_with [slash] p) = p"
    using assms by (intro split_join False) (auto simp: proper_def)
  then show ?thesis by (simp add: abs_path_def)
qed (simp add: abs_path_def)

text \<open>A place that exists as a directory is reached by its own name, without links.\<close>

lemma walk_dir:
  assumes "wf_fs fs" "is_dir fs d"
  shows "walk fs c n [] d = Some (n, d)"
  using assms(2)
proof (induction d arbitrary: c rule: rev_induct)
  case (snoc x xs)
  have p: "is_dir fs xs" using is_dir_butlast [OF assms(1) snoc.prems] by simp
  have x: "is_name x" using is_name_proper [OF is_dir_proper [OF assms(1) snoc.prems]] by simp
  have "walk fs False n [] xs = Some (n, xs)" using snoc.IH [OF p] .
  moreover have "walk fs c n xs [x] = Some (n, xs @ [x])"
    using snoc.prems by (simp add: walk_name [OF x] is_dir_def)
  moreover have "is_dir fs []" by (simp add: is_dir_def)
  ultimately show ?case using walk_append [OF assms(1), of "[]" "[x]"] p by fastforce
qed simp

text \<open>Only the last segment of a path can be missing from a successful walk.\<close>

lemma walk_snoc:
  assumes "wf_fs fs" "walk fs c n [] (q @ [x]) = Some (k, d)"
  obtains m e where "walk fs False n [] q = Some (m, e)" "is_dir fs e" "walk fs c m e [x] = Some (k, d)"
  using assms walk_append [OF assms(1), of "[]" "[x]" c n q "(k, d)"] by (auto simp: is_dir_def)

section \<open>Plain links\<close>

definition plain_links :: "fs \<Rightarrow> bool" where
  "plain_links fs \<longleftrightarrow>
     (\<forall>(_, v) \<in> set fs. case v of Link t \<Rightarrow> ''..'' \<notin> set (split_on slash t) | _ \<Rightarrow> True)"

definition segs_of :: "string \<Rightarrow> string list" where
  "segs_of t = filter is_name (split_on slash t)"

lemma plain_linksD: "plain_links fs \<Longrightarrow> map_of fs p = Some (Link t) \<Longrightarrow> ''..'' \<notin> set (split_on slash t)"
  by (drule map_of_SomeD) (auto simp: plain_links_def)

lemma proper_segs_of [simp]: "proper (segs_of t)"
  by (auto simp: proper_def segs_of_def is_name_def dest: split_on_parts)

lemma foldl_plain: "''..'' \<notin> set ss \<Longrightarrow> foldl (norm_step b) acc ss = acc @ filter is_name ss"
  by (induction ss arbitrary: acc) (auto simp: norm_step_def is_name_def)

lemma resolve_plain:
  assumes "proper q" "''..'' \<notin> set (split_on slash t)"
  shows "path_resolve w [abs_path q, t] = abs_path (link_base t q @ segs_of t)"
proof (cases "isAbsolute t")
  case True
  then show ?thesis
    using foldl_plain [OF assms(2)] by (simp add: resolve_abs normalizeString_def link_base_def segs_of_def)
next
  case False
  then show ?thesis
    using foldl_plain [OF assms(2)] assms(1)
    by (cases "t = []") (simp_all add: resolve_rel link_base_def segs_of_def is_name_def)
qed

lemma walk_names:
  assumes "walk fs c n d (xs @ ss) = Some r" "''..'' \<notin> set ss"
  shows "walk fs c n d (xs @ filter is_name ss) = Some r"
  using assms
proof (induction n d "xs @ ss" arbitrary: xs ss rule: walk_induct [where fs = fs])
  case (Skip n d s zs)
  show ?case
  proof (cases xs)
    case Nil
    with Skip show ?thesis using Skip(2) [of "[]" zs] by (auto simp: is_name_def)
  qed (use Skip in auto)
next
  case (Up n d zs)
  then show ?case by (cases xs) auto
next
  case (Missing n d s zs)
  then show ?case by (cases xs) (auto simp: walk_name split: if_splits)
next
  case (Dir n d s zs)
  then show ?case using Dir(3) [of "[]" zs] by (cases xs) (auto simp: walk_name)
next
  case (File n d s zs)
  then show ?case by (cases xs) (auto simp: walk_name split: if_splits)
next
  case (Loop d s t zs)
  then show ?case by (cases xs) (auto simp: walk_name)
next
  case (Link n d s t zs)
  show ?case
  proof (cases xs)
    case Nil
    with Link have "walk fs c n (link_base t d) (split_on slash t @ filter is_name zs) = Some r"
      by (intro Link(3)) (auto simp: walk_name)
    with Nil Link show ?thesis by (auto simp: walk_name)
  next
    case (Cons y ys)
    with Link have "walk fs c n (link_base t d) ((split_on slash t @ ys) @ filter is_name ss) = Some r"
      by (intro Link(3)) (auto simp: walk_name)
    with Cons Link show ?thesis by (auto simp: walk_name)
  qed
qed simp

section \<open>The canonical path is the destination\<close>

lemma readlink_snoc:
  assumes "proper (q @ [x])" "walk fs False link_limit [] q = Some (m, e)"
  shows "readlinkSync fs (abs_path (q @ [x])) =
         (case map_of fs (e @ [x]) of Some (Link t) \<Rightarrow> Some t | _ \<Rightarrow> None)"
  using assms by (simp add: readlinkSync_def)

lemma readlink_root: "wf_fs fs \<Longrightarrow> readlinkSync fs (abs_path []) = None"
  using wf_fsD [of fs "[[]]"] by (auto simp: readlinkSync_def split: option.splits node.splits)

lemma walk_raise: "walk fs c n d ss = Some (m, e) \<Longrightarrow> n \<le> N \<Longrightarrow> walk fs c N d ss = Some (m + (N - n), e)"
  using walk_shift [of fs c n "N - n" d ss m e] by simp

text \<open>One hop of the trailing-link loop takes the walk one link further.\<close>

lemma follow_hop:
  assumes "wf_fs fs" "plain_links fs" "proper (q @ [x])"
    and w: "walk fs False n [] q = Some (m, e)" "is_dir fs e" "walk fs True m e [x] = Some (k, d)"
    and l: "map_of fs (e @ [x]) = Some (Link t)"
  shows "\<exists>n' k'. n = Suc n' \<and> walk fs True n' [] (link_base t q @ segs_of t) = Some (k', d)"
proof -
  have x: "is_name x" using assms(3) by (simp add: is_name_def)
  from w(3) obtain m' where m: "m = Suc m'" and t: "walk fs True m' (link_base t e) (split_on slash t) = Some (k, d)"
    by (auto simp: walk_name [OF x] l split: nat.splits)
  then obtain n' where n: "n = Suc n'" using walk_budget [OF w(1)] by (cases n) auto
  have w1: "walk fs False n' [] q = Some (m', e)"
    using walk_shift [of fs False n' 1 "[]" q m' e] w(1) m n by simp
  have t1: "walk fs True m' (link_base t e) (segs_of t) = Some (k, d)"
    using walk_names [of fs True m' "link_base t e" "[]" "split_on slash t"] t plain_linksD [OF assms(2) l]
    by (simp add: segs_of_def)
  show ?thesis
  proof (cases "isAbsolute t")
    case True
    have "walk fs True n' [] (segs_of t) = Some (k + (n' - m'), d)"
      using walk_raise [OF t1, of n'] walk_budget [OF w1] True by (simp add: link_base_def)
    then show ?thesis using n True by (simp add: link_base_def)
  next
    case False
    then have t2: "walk fs True m' e (segs_of t) = Some (k, d)" using t1 by (simp add: link_base_def)
    have "walk fs True n' [] (q @ segs_of t) = Some (k, d)"
    proof (cases "segs_of t = []")
      case True
      then show ?thesis using t2 walk_create [OF w1] by simp
    next
      case False
      then show ?thesis
        using walk_append [OF assms(1) _ False, of "[]" True n' q "(k, d)"] w1 w(2) t2 by (auto simp: is_dir_def)
    qed
    then show ?thesis using n False by (simp add: link_base_def)
  qed
qed

text \<open>The loop ends at a path that is no link and has the same destination.\<close>

lemma follow_links_end:
  assumes "wf_fs (files E)" "plain_links (files E)" "n < depth" "n \<le> link_limit" "proper p"
    and "walk (files E) True n [] p = Some (k, d)"
  shows "\<exists>p' n' k'. follow_links E depth (abs_path p) = abs_path p' \<and> proper p' \<and> n' \<le> link_limit \<and>
           walk (files E) True n' [] p' = Some (k', d) \<and> readlinkSync (files E) (abs_path p') = None"
  using assms(3-6)
proof (induction depth arbitrary: n p k)
  case (Suc depth)
  show ?case
  proof (cases p rule: rev_cases)
    case Nil
    then show ?thesis using Suc.prems readlink_root [OF assms(1)] by fastforce
  next
    case (snoc q x)
    obtain m e where w: "walk (files E) False n [] q = Some (m, e)" "is_dir (files E) e"
        "walk (files E) True m e [x] = Some (k, d)"
      using walk_snoc [OF assms(1)] Suc.prems(4) snoc by metis
    have pq: "proper (q @ [x])" using Suc.prems(3) snoc by simp
    note r = readlink_snoc [OF pq walk_raise [OF w(1) Suc.prems(2)]]
    show ?thesis
    proof (cases "\<exists>t. map_of (files E) (e @ [x]) = Some (Link t)")
      case True
      then obtain t where t: "map_of (files E) (e @ [x]) = Some (Link t)" by blast
      obtain n' k' where h: "n = Suc n'" "walk (files E) True n' [] (link_base t q @ segs_of t) = Some (k', d)"
        using follow_hop [OF assms(1,2) pq w t] by blast
      have "follow_links E (Suc depth) (abs_path p) = follow_links E depth (abs_path (link_base t q @ segs_of t))"
        using r t snoc pq resolve_plain [of q t "cwd E"] plain_linksD [OF assms(2) t] by simp
      moreover have "proper (link_base t q @ segs_of t)" using pq by (simp add: link_base_def)
      ultimately show ?thesis using Suc.IH [of n' "link_base t q @ segs_of t" k'] h Suc.prems by simp
    next
      case False
      then have "readlinkSync (files E) (abs_path p) = None" using r snoc by (auto split: option.splits node.splits)
      then show ?thesis using Suc.prems by fastforce
    qed
  qed
qed simp

text \<open>A path that is no link: either it exists, or its directory does.\<close>

lemma final_place:
  assumes "wf_fs fs" "proper (q @ [x])" "n \<le> link_limit" "walk fs True n [] (q @ [x]) = Some (k, d)"
    and "readlinkSync fs (abs_path (q @ [x])) = None"
  obtains (exists) "realpathSync fs (abs_path (q @ [x])) = Some (abs_path d)" "map_of fs d \<noteq> None"
  | (missing) e where "realpathSync fs (abs_path (q @ [x])) = None" "realpathSync fs (abs_path q) = Some (abs_path e)"
      "is_dir fs e" "d = e @ [x]" "map_of fs d = None"
proof -
  obtain m e where w: "walk fs False n [] q = Some (m, e)" "is_dir fs e" "walk fs True m e [x] = Some (k, d)"
    using walk_snoc [OF assms(1,4)] .
  have x: "is_name x" using assms(2) by (simp add: is_name_def)
  note W = walk_raise [OF w(1) assms(3)]
  have nl: "map_of fs (e @ [x]) \<noteq> Some (Link t)" for t
    using readlink_snoc [OF assms(2) W] assms(5) by auto
  have d: "d = e @ [x]" using w(3) nl by (auto simp: walk_name [OF x] split: option.splits node.splits)
  have q: "realpathSync fs (abs_path q) = Some (abs_path e)" using W assms(2) by (simp add: realpathSync_def)
  have s: "walk fs False link_limit [] (q @ [x]) = Some (j, f) \<longleftrightarrow>
           walk fs False (m + (link_limit - n)) e [x] = Some (j, f)" for j f
    using walk_append [OF assms(1), of "[]" "[x]" False link_limit q "(j, f)"] W w(2) by (auto simp: is_dir_def)
  show thesis
  proof (cases "map_of fs (e @ [x])")
    case None
    then have "walk fs False link_limit [] (q @ [x]) = None"
      using s by (cases "walk fs False link_limit [] (q @ [x])") (auto simp: walk_name [OF x])
    then show thesis using missing [OF _ q w(2) d] None d assms(2) by (simp add: realpathSync_def)
  next
    case (Some v)
    then have "walk fs False link_limit [] (q @ [x]) = Some (m + (link_limit - n), d)"
      using s nl d by (cases v) (auto simp: walk_name [OF x])
    then show thesis using exists Some d assms(2) by (simp add: realpathSync_def)
  qed
qed

lemma final_proper:
  assumes "wf_fs fs" "is_dir fs e" "proper (q @ [x])"
  shows "proper (e @ [x])"
  using is_dir_proper [OF assms(1,2)] assms(3) by simp

lemma realpath_root [simp]: "realpathSync fs (abs_path []) = Some (abs_path [])"
  by (simp add: realpathSync_def)

text \<open>What \<open>canonicalizeExisting\<close> makes of a path that is no link. Directly below the root a
  missing file comes out with a doubled slash.\<close>

definition canonical_form :: "fs \<Rightarrow> string list \<Rightarrow> string" where
  "canonical_form fs d = (if length d = 1 \<and> map_of fs d = None then slash # abs_path d else abs_path d)"

lemma abs_path_snoc: "e \<noteq> [] \<Longrightarrow> abs_path e @ slash # x = abs_path (e @ [x])"
  by (simp add: abs_path_def join_with_snoc)

lemma canonical_form_final:
  assumes "wf_fs (files E)" "proper p" "n \<le> link_limit" "walk (files E) True n [] p = Some (k, d)"
    and "readlinkSync (files E) (abs_path p) = None"
  shows "canonicalizeExisting E (abs_path p) = canonical_form (files E) d"
proof (cases p rule: rev_cases)
  case Nil
  with assms(4) show ?thesis by (simp add: canonicalizeExisting.simps [of E "abs_path []"] canonical_form_def)
next
  case (snoc q x)
  have pq: "proper (q @ [x])" using assms(2) snoc by simp
  show ?thesis
  proof (cases rule: final_place [OF assms(1) pq assms(3) assms(4,5) [unfolded snoc], case_names exists missing])
    case exists
    then show ?thesis
      by (simp add: snoc canonicalizeExisting.simps [of E "abs_path (q @ [x])"] canonical_form_def)
  next
    case (missing e)
    have "canonicalizeExisting E (abs_path (q @ [x])) = abs_path e @ slash # x"
      using missing(1,2) pq dirname_fixed [OF pq]
      by (simp add: canonicalizeExisting.simps [of E "abs_path (q @ [x])"] canonicalizeExisting.simps [of E "abs_path q"])
    then show ?thesis
      using missing(4,5) abs_path_snoc [of e x] by (auto simp: snoc canonical_form_def abs_path_def)
  qed
qed

lemma real_loop_final:
  assumes "wf_fs (files E)" "proper p" "n \<le> link_limit" "walk (files E) True n [] p = Some (k, d)"
    and "readlinkSync (files E) (abs_path p) = None"
  shows "real_loop E a (abs_path p) [] =
         (if p = [] \<or> length p = 1 \<and> map_of (files E) d = None then a else abs_path d)"
proof (cases p rule: rev_cases)
  case Nil
  then show ?thesis by (simp add: real_loop.simps [of E a "abs_path []"])
next
  case (snoc q x)
  have pq: "proper (q @ [x])" "proper q" "proper [x]" using assms(2) snoc by simp_all
  have ne: "abs_path (q @ [x]) \<noteq> abs_path q" using pq by (simp add: abs_path_inj)
  show ?thesis
  proof (cases rule: final_place [OF assms(1) pq(1) assms(3) assms(4,5) [unfolded snoc], case_names exists missing])
    case exists
    then show ?thesis
      using pq ne by (auto simp: snoc real_loop.simps [of E a "abs_path (q @ [x])"])
  next
    case (missing e)
    have "real_loop E a (abs_path (q @ [x])) [] = real_loop E a (abs_path q) [x]"
      using missing(1) pq ne by (simp add: real_loop.simps [of E a "abs_path (q @ [x])"])
    also have "\<dots> = (if q = [] then a else abs_path (e @ [x]))"
      using missing(2) pq dirname_fixed [OF pq(2)] is_dir_proper [OF assms(1) missing(3)]
      by (auto simp: real_loop.simps [of E a "abs_path q"] path_join_abs)
    finally show ?thesis using missing(4,5) by (simp add: snoc)
  qed
qed

text \<open>The trailing link target of a path, with the facts the two canonicalisers need of it.\<close>

lemma trailing_target:
  assumes "wf_fs (files E)" "plain_links (files E)" "resolved p" "destination (files E) p = Some d"
  obtains p' n k where "resolveTrailingLinkTarget E p = abs_path p'" "proper p'" "n \<le> link_limit"
    "walk (files E) True n [] p' = Some (k, d)" "readlinkSync (files E) (abs_path p') = None"
proof -
  obtain ps where ps: "proper ps" "p = abs_path ps" using assms(3) by (rule resolvedE)
  with assms(4) obtain k where "walk (files E) True link_limit [] ps = Some (k, d)"
    by (auto simp: destination_def)
  from follow_links_end [OF assms(1,2) _ _ ps(1) this, of 64] that ps(2) show thesis
    by (auto simp: resolveTrailingLinkTarget_def link_limit_def)
qed

lemma canonicalize_form:
  assumes "wf_fs (files E)" "plain_links (files E)" "resolved p" "destination (files E) p = Some d"
  shows "canonicalize E p = canonical_form (files E) d"
  using trailing_target [OF assms] canonical_form_final [OF assms(1)] assms(3)
  by (metis canonicalize_def resolve_resolved)

lemma final_root_child:
  assumes "wf_fs fs" "proper p" "n \<le> link_limit" "walk fs True n [] p = Some (k, d)"
    and "readlinkSync fs (abs_path p) = None" "length p = 1" "map_of fs d = None"
  shows "d = p"
proof -
  from assms(6) obtain x where x: "p = [] @ [x]" by (metis append_Nil length_0_conv length_Suc_conv One_nat_def)
  show ?thesis
    using final_place [OF assms(1-5) [unfolded x]] assms(7) x
    by (metis (no_types, lifting) abs_path_inj append_Nil is_dir_proper assms(1) proper_simps(1) realpath_root option.inject)
qed

lemma resolveRealPath_target:
  assumes "wf_fs (files E)" "plain_links (files E)" "resolved p" "destination (files E) p = Some d"
  shows "resolveRealPath E (resolveTrailingLinkTarget E p) = abs_path d"
proof -
  obtain p' n k where p': "resolveTrailingLinkTarget E p = abs_path p'" "proper p'" "n \<le> link_limit"
    "walk (files E) True n [] p' = Some (k, d)" "readlinkSync (files E) (abs_path p') = None"
    using trailing_target [OF assms] .
  have "resolveTrailingLinkTarget E (abs_path p') = abs_path p'"
    using p'(5) follow_links.simps(2) [of E 63 "abs_path p'"] by (simp add: resolveTrailingLinkTarget_def eval_nat_numeral)
  then have "resolveRealPath E (abs_path p') =
      (if p' = [] \<or> length p' = 1 \<and> map_of (files E) d = None then abs_path p' else abs_path d)"
    using real_loop_final [OF assms(1) p'(2-5)] by (simp add: resolveRealPath_def)
  moreover have "p' = [] \<Longrightarrow> d = []" using p'(4) by simp
  ultimately show ?thesis using p'(1) final_root_child [OF assms(1) p'(2-5)] by auto
qed

lemma destination_proper:
  fixes E :: host
  assumes "wf_fs (files E)" "plain_links (files E)" "resolved p" "destination (files E) p = Some d"
  shows "proper d"
proof -
  obtain p' n k where p': "proper p'" "n \<le> link_limit"
    "walk (files E) True n [] p' = Some (k, d)" "readlinkSync (files E) (abs_path p') = None"
    using trailing_target [OF assms] .
  show ?thesis
  proof (cases p' rule: rev_cases)
    case Nil
    with p'(3) show ?thesis by simp
  next
    case (snoc q x)
    show ?thesis
    proof (cases rule: final_place [OF assms(1) p' [unfolded snoc], case_names exists missing])
      case exists
      then show ?thesis using wf_fsD [OF assms(1)] by blast
    next
      case (missing e)
      then show ?thesis using final_proper [OF assms(1) missing(3)] p'(1) snoc by simp
    qed
  qed
qed

text \<open>For a path that exists the canonical path is the one \<^verbatim>\<open>realpathSync\<close> gives.\<close>

lemma realpath_destination: "proper p \<Longrightarrow> realpathSync fs (abs_path p) = Some r \<Longrightarrow> \<exists>d. destination fs (abs_path p) = Some d \<and> r = abs_path d"
  by (auto simp: realpathSync_def destination_def dest!: walk_create [where c = True])

lemma walk_exists:
  assumes "wf_fs fs"
  shows "is_dir fs d \<Longrightarrow> walk fs False n d ss = Some (m, e) \<Longrightarrow> e = [] \<or> map_of fs e \<noteq> None"
proof (induction n d ss rule: walk_induct [where fs = fs])
  case (Up n d ss)
  then show ?case using is_dir_butlast [OF assms] by simp
next
  case (Link n d s t ss)
  then show ?case by (auto simp: walk_name link_base_def is_dir_def split: if_splits)
qed (auto simp: walk_name is_dir_def split: if_splits)

lemma realpath_proper: "wf_fs fs \<Longrightarrow> realpathSync fs p = Some r \<Longrightarrow> \<exists>b. proper b \<and> r = abs_path b"
proof -
  assume "wf_fs fs" "realpathSync fs p = Some r"
  then obtain n b where b: "walk fs False link_limit [] (split_on slash p) = Some (n, b)" "r = abs_path b"
    by (auto simp: realpathSync_def)
  moreover have "is_dir fs []" by (simp add: is_dir_def)
  ultimately have "b = [] \<or> map_of fs b \<noteq> None" using walk_exists \<open>wf_fs fs\<close> by blast
  then have "proper b" using wf_fsD [OF \<open>wf_fs fs\<close>] by (cases "b = []") auto
  with b show ?thesis by blast
qed

lemma resolveRealPath_destination:
  assumes "wf_fs (files E)" "plain_links (files E)" "resolved p" "destination (files E) p = Some d"
    and "d \<noteq> []" "length d \<noteq> 1 \<or> map_of (files E) d \<noteq> None"
  shows "resolveRealPath E p = abs_path d"
proof -
  obtain p' n k where p': "resolveTrailingLinkTarget E p = abs_path p'" "proper p'" "n \<le> link_limit"
    "walk (files E) True n [] p' = Some (k, d)" "readlinkSync (files E) (abs_path p') = None"
    using trailing_target [OF assms(1-4)] .
  have "p' \<noteq> []" using p'(4) assms(5) by auto
  moreover have "\<not> (length p' = 1 \<and> map_of (files E) d = None)"
    using final_root_child [OF assms(1) p'(2-5)] assms(6) by auto
  ultimately show ?thesis using real_loop_final [OF assms(1) p'(2-5)] p'(1) by (auto simp: resolveRealPath_def)
qed

lemma resolveRealPath_existing:
  assumes "wf_fs (files E)" "plain_links (files E)" "resolved p" "destination (files E) p = Some d"
    and "map_of (files E) d \<noteq> None"
  shows "resolveRealPath E p = abs_path d"
proof -
  have "d \<noteq> []" using assms(5) wf_fsD [OF assms(1)] by auto
  then show ?thesis using resolveRealPath_destination [OF assms(1-4)] assms(5) by blast
qed

lemma norm_canonical_form: "proper d \<Longrightarrow> norm_segs (canonical_form fs d) = d"
  using norm_abs_path [of d False] by (auto simp: canonical_form_def normalizeString_def)

section \<open>Properties\<close>


definition demo_host :: host where
  "demo_host = \<lparr>cwd = ''/'',
     files = [([''ws''], Dir), ([''ws'', ''tools''], Dir), ([''ws'', ''t''], Link ''tools''),
              ([''ws'', ''note''], Link ''/ws/t/new.ts'')]\<rparr>"


text \<open>The condition on link targets is needed. The loop resolves a relative target against
  the directory part of the path as written; when that directory is itself a link, a target
  that climbs leads elsewhere than the kernel's walk does.\<close>

definition climbing_host :: host where
  "climbing_host = \<lparr>cwd = ''/'',
     files = [([''etc''], Dir), ([''etc'', ''passwd''], File), ([''ws''], Dir), ([''ws'', ''b''], Dir),
              ([''ws'', ''b'', ''l''], Link ''../../etc/passwd''), ([''ws'', ''p''], Dir), ([''ws'', ''p'', ''q''], Dir),
              ([''ws'', ''p'', ''q'', ''a''], Link ''/ws/b'')]\<rparr>"

theorem climbing_link_misread:
  "wf_fs (files climbing_host) \<and>
   destination (files climbing_host) ''/ws/p/q/a/l'' = Some [''etc'', ''passwd''] \<and>
   canonicalize climbing_host ''/ws/p/q/a/l'' = ''/ws/p/etc/passwd'' \<and>
   resolveRealPath climbing_host ''/ws/p/q/a/l'' = ''/ws/p/etc/passwd''"
  by code_simp

text \<open>A dangling link to a file directly below the root: \<open>resolveRealPath\<close> gives up at the root and
  returns the link's own name, where \<open>canonicalize\<close> reports the target.\<close>

definition root_link_host :: host where
  "root_link_host = \<lparr>cwd = ''/'', files = [([''ws''], Dir), ([''ws'', ''a''], Link ''/evil'')]\<rparr>"

theorem root_target_lost:
  "destination (files root_link_host) ''/ws/a'' = Some [''evil''] \<and>
   resolveRealPath root_link_host ''/ws/a'' = ''/ws/a'' \<and>
   norm_segs (canonicalize root_link_host ''/ws/a'') = [''evil'']"
  by code_simp

end
