(* ===== verification/Path_Policy.thy ===== *)
theory Path_Policy
  imports File_System
begin

text \<open>
  The path policies of the file tools (\<^verbatim>\<open>assistant/src/tools/shared/filesystem/path-policy.ts\<close>):
  the sandbox boundary, the secret-bearing paths that stay closed under every policy, the
  denied names, and the host policy. Environment variables, the home directory and the file
  system are fields of the environment record. A refusal is a value with its reason and text.
\<close>

section \<open>Vocabulary\<close>

datatype path_failure = NotAbsolute | OutOfBounds | Denied

datatype path_result = PathOk string | PathFail path_failure string

record policy_env =
  host :: host
  env_HOME :: "string option"
  userInfo_homedir :: "string option"
  os_homedir :: string
  env_GATEWAY_SECURITY_DIR :: "string option"
  env_CREDENTIAL_SECURITY_DIR :: "string option"
  dotEnvPath :: string
  containerized :: bool

record sandbox_target =
  target_resolved :: string
  realResolved :: string
  realBoundary :: string

section \<open>Denied names\<close>

definition isDeniedBasename :: "string \<Rightarrow> bool" where
  "isDeniedBasename path \<longleftrightarrow> basename path \<in> {''.backup.key'', ''backup.key''}"

text \<open>\<^verbatim>\<open>/^\/proc\/(?:\d+|self|thread-self)\/environ$/\<close>: four parts between the slashes, the
  first of them empty.\<close>

definition isProcessEnvironPath :: "string \<Rightarrow> bool" where
  "isProcessEnvironPath path =
     (case split_on slash path of
        [root, proc, pid, name] \<Rightarrow>
          root = [] \<and> proc = ''proc'' \<and> name = ''environ'' \<and>
          (pid \<noteq> [] \<and> list_all is_digit pid \<or> pid = ''self'' \<or> pid = ''thread-self'')
      | _ \<Rightarrow> False)"

section \<open>The target of a request\<close>

text \<open>The container remap, which the source writes in three places with the same text: a
  container-scoped path becomes relative to the boundary directory.\<close>

definition remap_workspace :: "string \<Rightarrow> string \<Rightarrow> string" where
  "remap_workspace rawPath boundaryDir =
     (if \<not> starts_with rawPath (boundaryDir @ ''/'') \<and> rawPath \<noteq> boundaryDir then
        if starts_with rawPath ''/workspace/'' then drop (length ''/workspace/'') rawPath
        else if rawPath = ''/workspace'' then ''.''
        else rawPath
      else rawPath)"

definition resolveSandboxTarget :: "host \<Rightarrow> string \<Rightarrow> string \<Rightarrow> bool \<Rightarrow> sandbox_target" where
  "resolveSandboxTarget E rawPath boundaryDir mustExist =
     (let resolved = path_resolve (cwd E) [boundaryDir, remap_workspace rawPath boundaryDir];
          linkTarget = resolveTrailingLinkTarget E resolved;
          realResolved =
            (if mustExist
             then (case realpathSync (files E) linkTarget of Some r \<Rightarrow> r | None \<Rightarrow> linkTarget)
             else resolveRealPath E linkTarget);
          realBoundary = (case realpathSync (files E) boundaryDir of Some r \<Rightarrow> r | None \<Rightarrow> boundaryDir)
      in \<lparr>target_resolved = resolved, realResolved = realResolved, realBoundary = realBoundary\<rparr>)"

definition isOutOfBounds :: "host \<Rightarrow> sandbox_target \<Rightarrow> bool" where
  "isOutOfBounds E target =
     (let rel = path_relative (cwd E) (realBoundary target) (realResolved target)
      in starts_with rel ''..'' \<or> path_resolve (cwd E) [realBoundary target, rel] \<noteq> realResolved target)"

definition outOfBoundsFailure :: "string \<Rightarrow> sandbox_target \<Rightarrow> path_result" where
  "outOfBoundsFailure rawPath target =
     PathFail OutOfBounds
       (''Path \"'' @ rawPath @ ''\" resolves to \"'' @ realResolved target @
        ''\" which is outside the working directory \"'' @ realBoundary target @ ''\"'')"

definition deniedFailure :: "sandbox_target \<Rightarrow> path_result option" where
  "deniedFailure target =
     (if isDeniedBasename (target_resolved target) \<or> isDeniedBasename (realResolved target)
      then Some (PathFail Denied (''Access to \"'' @ basename (target_resolved target) @ ''\" is denied''))
      else if isProcessEnvironPath (target_resolved target) \<or> isProcessEnvironPath (realResolved target)
      then Some (PathFail Denied ''Access to process environment blocks is denied'')
      else None)"

section \<open>Secret-bearing paths\<close>

definition js_or :: "string \<Rightarrow> string \<Rightarrow> string" where
  "js_or a b = (if a \<noteq> [] then a else b)"

definition getOr :: "string option \<Rightarrow> string" where
  "getOr v = (case v of None \<Rightarrow> [] | Some s \<Rightarrow> s)"

definition security_overrides :: "policy_env \<Rightarrow> string list" where
  "security_overrides V =
     map (\<lambda>v. js_trim (getOr v)) [env_GATEWAY_SECURITY_DIR V, env_CREDENTIAL_SECURITY_DIR V]"

definition getProtectedServicePaths :: "policy_env \<Rightarrow> string list" where
  "getProtectedServicePaths V =
     js_set_of
       (path_join [js_or (getOr (env_HOME V)) (js_or (getOr (userInfo_homedir V)) (os_homedir V)),
                   ''.vellum'', ''protected''] #
        map (\<lambda>d. path_resolve (cwd (host V)) [d]) (filter (\<lambda>d. d \<noteq> [] \<and> isAbsolute d) (security_overrides V)) @
        [dotEnvPath V])"

definition securityDirConfigMirrorable :: "policy_env \<Rightarrow> bool" where
  "securityDirConfigMirrorable V \<longleftrightarrow> list_all (\<lambda>d. d = [] \<or> isAbsolute d) (security_overrides V)"

definition isWithinDir :: "string \<Rightarrow> string \<Rightarrow> bool" where
  "isWithinDir path dir =
     (let normalized = (if dir \<noteq> ''/'' \<and> ends_with dir ''/'' then butlast dir else dir)
      in if normalized = ''/'' then isAbsolute path
         else path = normalized \<or> starts_with path (normalized @ ''/''))"

definition securityDirDenial :: "policy_env \<Rightarrow> sandbox_target \<Rightarrow> path_result option" where
  "securityDirDenial V target =
     (if list_ex (\<lambda>protectedPath.
           list_ex (\<lambda>path. isWithinDir path protectedPath \<or>
                           isWithinDir path (resolveRealPath (host V) protectedPath))
             [target_resolved target, realResolved target]) (getProtectedServicePaths V)
      then Some (PathFail Denied ''Access to the service security directory is denied'')
      else None)"

section \<open>The policies\<close>

definition evaluateSandboxPolicy ::
    "policy_env \<Rightarrow> string \<Rightarrow> string \<Rightarrow> bool option \<Rightarrow> bool \<Rightarrow> path_result" where
  "evaluateSandboxPolicy V rawPath boundaryDir mustExist allowOutOfBounds =
     (let target = resolveSandboxTarget (host V) rawPath boundaryDir
                     (case mustExist of None \<Rightarrow> True | Some b \<Rightarrow> b)
      in if \<not> allowOutOfBounds \<and> isOutOfBounds (host V) target then outOfBoundsFailure rawPath target
         else (case securityDirDenial V target of
                 Some f \<Rightarrow> f
               | None \<Rightarrow> (case deniedFailure target of
                           Some f \<Rightarrow> f
                         | None \<Rightarrow> PathOk (target_resolved target))))"

definition sandboxPolicy :: "policy_env \<Rightarrow> string \<Rightarrow> string \<Rightarrow> bool option \<Rightarrow> path_result" where
  "sandboxPolicy V rawPath boundaryDir mustExist =
     evaluateSandboxPolicy V rawPath boundaryDir mustExist False"

definition sandboxPolicyWithHostFallback :: "policy_env \<Rightarrow> string \<Rightarrow> string \<Rightarrow> bool option \<Rightarrow> path_result" where
  "sandboxPolicyWithHostFallback V rawPath boundaryDir mustExist =
     evaluateSandboxPolicy V rawPath boundaryDir mustExist (\<not> containerized V \<and> securityDirConfigMirrorable V)"

definition sandboxReadPolicy :: "policy_env \<Rightarrow> string \<Rightarrow> string \<Rightarrow> bool option \<Rightarrow> path_result" where
  "sandboxReadPolicy V rawPath boundaryDir mustExist =
     evaluateSandboxPolicy V rawPath boundaryDir mustExist (securityDirConfigMirrorable V)"

definition hostPolicy :: "string \<Rightarrow> path_result" where
  "hostPolicy rawPath =
     (if \<not> isAbsolute rawPath
      then PathFail NotAbsolute (''path must be absolute for host file access: '' @ rawPath)
      else if isDeniedBasename rawPath
      then PathFail Denied (''Access to \"'' @ basename rawPath @ ''\" is denied'')
      else PathOk rawPath)"

section \<open>Lemmas\<close>

text \<open>The directory test of this file keeps the containment contract.\<close>

lemma isWithinDir_under:
  assumes "proper xs" "proper ys"
  shows "isWithinDir (abs_path xs) (abs_path ys) \<longleftrightarrow> prefix ys xs"
proof (cases "ys = []")
  case True
  then show ?thesis using abs_path_root [of "[]"] by (simp add: isWithinDir_def)
next
  case False
  then show ?thesis
    using under_iff [OF assms] abs_path_ends [OF assms(2)] abs_path_root [OF assms(2)]
    by (simp add: isWithinDir_def dir_prefix_def)
qed

interpretation dir_test: containment isWithinDir
  by unfold_locales (simp add: isWithinDir_under)

lemma common_prefix_prefix: "prefix (common_prefix xs ys) xs" "prefix (common_prefix xs ys) ys"
  by (induction xs ys rule: common_prefix.induct) auto

lemma relative_inside:
  assumes "proper xs" "proper ys" "\<not> starts_with (path_relative w (abs_path xs) (abs_path ys)) ''..''"
  shows "prefix xs ys"
proof -
  let ?k = "length (common_prefix xs ys)"
  have "length xs \<le> ?k"
  proof (rule ccontr)
    assume "\<not> length xs \<le> ?k"
    then obtain n where n: "length xs - ?k = Suc n" by (metis Suc_diff_Suc not_le_imp_less)
    have "starts_with (join_with [slash] (''..'' # rest)) ''..''" for rest
      by (cases rest) (simp_all add: starts_with_def)
    then show False using assms by (simp add: path_relative_def Let_def n)
  qed
  then have "common_prefix xs ys = xs"
    using common_prefix_prefix(1) [of xs ys] by (metis prefix_length_prefix prefix_order.antisym prefix_order.refl)
  then show ?thesis using common_prefix_prefix(2) [of xs ys] by simp
qed

text \<open>What a successful evaluation says.\<close>

lemma evaluate_Ok:
  assumes "evaluateSandboxPolicy V raw b m allow = PathOk r"
  defines "T \<equiv> resolveSandboxTarget (host V) raw b (m \<noteq> Some False)"
  shows "r = target_resolved T \<and> (allow \<or> \<not> isOutOfBounds (host V) T) \<and>
         securityDirDenial V T = None \<and> deniedFailure T = None"
proof -
  have m: "(case m of None \<Rightarrow> True | Some b \<Rightarrow> b) = (m \<noteq> Some False)" by (cases m) auto
  show ?thesis
    using assms(1) unfolding evaluateSandboxPolicy_def Let_def m T_def [symmetric]
    by (auto simp: outOfBoundsFailure_def securityDirDenial_def deniedFailure_def split: if_splits option.splits)
qed

lemma target_resolved_resolved: "resolved (target_resolved (resolveSandboxTarget E raw b m))"
  by (simp add: resolveSandboxTarget_def Let_def)

lemma target_real:
  assumes fs: "wf_fs (files E)" "plain_links (files E)"
    and d: "destination (files E) (target_resolved (resolveSandboxTarget E raw b m)) = Some d"
    and e: "m \<longrightarrow> d = [] \<or> map_of (files E) d \<noteq> None"
  shows "realResolved (resolveSandboxTarget E raw b m) = abs_path d"
proof -
  let ?p = "path_resolve (cwd E) [b, remap_workspace raw b]"
  have d': "destination (files E) ?p = Some d" using d by (simp add: resolveSandboxTarget_def Let_def)
  have "realpathSync (files E) (resolveTrailingLinkTarget E ?p) = Some (abs_path d)" if m
  proof -
    obtain p' n k where p': "resolveTrailingLinkTarget E ?p = abs_path p'" "proper p'" "n \<le> link_limit"
      "walk (files E) True n [] p' = Some (k, d)" "readlinkSync (files E) (abs_path p') = None"
      using trailing_target [OF fs resolved_resolve d'] .
    show ?thesis
    proof (cases p' rule: rev_cases)
      case Nil
      with p' show ?thesis by simp
    next
      case (snoc q x)
      show ?thesis
      proof (cases rule: final_place [OF fs(1) p'(2-5) [unfolded snoc], case_names exists missing])
        case exists
        then show ?thesis using p'(1) snoc by simp
      next
        case (missing e)
        then show ?thesis using e that by simp
      qed
    qed
  qed
  then show ?thesis
    using resolveRealPath_target [OF fs resolved_resolve d'] by (simp add: resolveSandboxTarget_def Let_def)
qed

lemma in_bounds:
  assumes "\<not> isOutOfBounds E T" "realBoundary T = abs_path b" "realResolved T = abs_path d" "proper b" "proper d"
  shows "prefix b d"
  using assms relative_inside [of b d "cwd E"] by (simp add: isOutOfBounds_def Let_def)

section \<open>Properties\<close>

text \<open>C11: The sandbox boundary holds at the place the bytes land: when \<open>sandboxPolicy\<close> accepts a
  path (for a read of an existing file or for a write that may create one), the file the
  kernel opens under the returned name lies in the real boundary directory, whatever links
  the path crosses, dangling ones included. Link targets must not climb with double dots.\<close>

theorem sandbox_boundary_holds:
  assumes "wf_fs (files (host V))" "plain_links (files (host V))"
    and "sandboxPolicy V raw boundary mustExist = PathOk r"
    and "realpathSync (files (host V)) boundary = Some rb"
    and "destination (files (host V)) r = Some d"
    and "mustExist \<noteq> Some False \<longrightarrow> d = [] \<or> map_of (files (host V)) d \<noteq> None"
  shows "prefix (norm_segs rb) d"
proof -
  let ?T = "resolveSandboxTarget (host V) raw boundary (mustExist \<noteq> Some False)"
  note ok = evaluate_Ok [OF assms(3) [unfolded sandboxPolicy_def]]
  obtain b where b: "proper b" "rb = abs_path b" using realpath_proper [OF assms(1,4)] by blast
  have d: "destination (files (host V)) (target_resolved ?T) = Some d" using ok assms(5) by simp
  have "realBoundary ?T = abs_path b" using assms(4) b by (simp add: resolveSandboxTarget_def Let_def)
  moreover have "realResolved ?T = abs_path d" using target_real [OF assms(1,2) d] assms(6) by simp
  moreover have "proper d" using destination_proper [OF assms(1,2) target_resolved_resolved d] .
  ultimately show ?thesis using in_bounds [of "host V" ?T] ok b by simp
qed

definition demo_env :: policy_env where
  "demo_env = \<lparr>host = \<lparr>cwd = ''/'',
       files = [([''ws''], Dir), ([''ws'', ''sub''], Dir), ([''ws'', ''l''], Link ''/ws/sub/new''), ([''ws'', ''x''], Link ''/etc/passwd''),
                ([''etc''], Dir), ([''u''], Dir), ([''u'', ''.vellum''], Dir), ([''u'', ''.vellum'', ''protected''], Dir),
                ([''u'', ''.vellum'', ''protected'', ''key''], File), ([''ws'', ''k''], Link ''/u/.vellum/protected/key'')]\<rparr>,
     env_HOME = Some ''/u'', userInfo_homedir = None, os_homedir = ''/u'',
     env_GATEWAY_SECURITY_DIR = None, env_CREDENTIAL_SECURITY_DIR = None, dotEnvPath = ''/u/.vellum/.env'',
     containerized = True\<rparr>"

theorem sandbox_boundary_holds_witness:
  "sandboxPolicy demo_env ''/workspace/l'' ''/ws'' (Some False) = PathOk ''/ws/l'' \<and>
   destination (files (host demo_env)) ''/ws/l'' = Some [''ws'', ''sub'', ''new''] \<and>
   prefix (norm_segs ''/ws'') [''ws'', ''sub'', ''new'']"
proof -
  have h: "wf_fs (files (host demo_env))" "plain_links (files (host demo_env))"
    "sandboxPolicy demo_env ''/workspace/l'' ''/ws'' (Some False) = PathOk ''/ws/l''"
    "realpathSync (files (host demo_env)) ''/ws'' = Some ''/ws''"
    "destination (files (host demo_env)) ''/ws/l'' = Some [''ws'', ''sub'', ''new'']"
    by code_simp+
  from sandbox_boundary_holds [OF h] h(3,5) show ?thesis by blast
qed

text \<open>C12: The sandbox policies of the file tools open no secret: under the boundary, the write fallback and the read
  policy alike, an accepted path never leads the kernel to or below an existing secret-bearing directory or file, named
  directly or through links, and never to a backup key or a process environment block. This is for a file system whose
  links do not climb with double dots (climbing links defeat the resolution the check relies on), for the
  secret-bearing paths of the environment that are absolute and normalised, and, when the path must exist, for one
  that leads to something. The host policy is not among these policies: it tests only names.\<close>

theorem secrets_stay_closed:
  assumes "wf_fs (files (host V))" "plain_links (files (host V))"
    and "evaluateSandboxPolicy V raw boundary mustExist allowOutOfBounds = PathOk r"
    and "destination (files (host V)) r = Some d"
    and "mustExist \<noteq> Some False \<longrightarrow> d = [] \<or> map_of (files (host V)) d \<noteq> None"
    and "q \<in> set (getProtectedServicePaths V)" "resolved q"
    and "destination (files (host V)) q = Some s" "map_of (files (host V)) s \<noteq> None"
  shows "\<not> prefix s d \<and> \<not> prefix (norm_segs q) d \<and>
         \<not> isDeniedBasename (abs_path d) \<and> \<not> isProcessEnvironPath (abs_path d)"
proof -
  let ?E = "host V"
  let ?T = "resolveSandboxTarget ?E raw boundary (mustExist \<noteq> Some False)"
  note ok = evaluate_Ok [OF assms(3)]
  have d: "destination (files ?E) (target_resolved ?T) = Some d" using ok assms(4) by simp
  have real: "realResolved ?T = abs_path d" using target_real [OF assms(1,2) d] assms(5) by simp
  have pr: "proper d" "proper s"
    using destination_proper [OF assms(1,2) target_resolved_resolved d]
      destination_proper [OF assms(1,2,7,8)] by simp_all
  have "\<not> isWithinDir (abs_path d) q" "\<not> isWithinDir (abs_path d) (resolveRealPath ?E q)"
    using ok assms(6) real by (auto simp: securityDirDenial_def list_ex_iff split: if_splits)
  moreover have "deniedFailure ?T = None" using ok by blast
  ultimately show ?thesis
    using real pr resolveRealPath_existing [OF assms(1,2,7-9)] assms(7)
      dir_test.within_abs [OF pr] dir_test.within_segs [OF _ assms(7), of "abs_path d"]
    by (auto simp: deniedFailure_def split: if_splits)
qed

theorem secrets_stay_closed_witness:
  "sandboxReadPolicy demo_env ''/etc/passwd'' ''/ws'' (Some False) = PathOk ''/etc/passwd'' \<and>
   sandboxReadPolicy demo_env ''k'' ''/ws'' (Some False) = PathFail Denied ''Access to the service security directory is denied'' \<and>
   \<not> prefix [''u'', ''.vellum'', ''protected''] [''etc'', ''passwd'']"
proof -
  have h: "wf_fs (files (host demo_env))" "plain_links (files (host demo_env))"
    "evaluateSandboxPolicy demo_env ''/etc/passwd'' ''/ws'' (Some False) True = PathOk ''/etc/passwd''"
    "destination (files (host demo_env)) ''/etc/passwd'' = Some [''etc'', ''passwd'']"
    "Some False \<noteq> Some False \<longrightarrow> [''etc'', ''passwd''] = [] \<or> map_of (files (host demo_env)) [''etc'', ''passwd''] \<noteq> None"
    "''/u/.vellum/protected'' \<in> set (getProtectedServicePaths demo_env)" "resolved ''/u/.vellum/protected''"
    "destination (files (host demo_env)) ''/u/.vellum/protected'' = Some [''u'', ''.vellum'', ''protected'']"
    "map_of (files (host demo_env)) [''u'', ''.vellum'', ''protected''] \<noteq> None"
    by code_simp+
  have "securityDirConfigMirrorable demo_env" by code_simp
  moreover have "sandboxReadPolicy demo_env ''k'' ''/ws'' (Some False) = PathFail Denied ''Access to the service security directory is denied''"
    by code_simp
  ultimately show ?thesis using secrets_stay_closed [OF h] h(3) by (simp add: sandboxReadPolicy_def)
qed

text \<open>Three places where the policies do less, or more, than their comments say: a file of the
  workspace whose name starts with two dots is turned away as out of bounds; the host policy
  opens the secret directory and the process environment; and a climbing link behind a
  linked directory takes an access out of the boundary.\<close>

theorem dotdot_name_rejected:
  "destination (files (host demo_env)) ''/ws/..notes'' = Some [''ws'', ''..notes''] \<and>
   sandboxPolicy demo_env ''..notes'' ''/ws'' (Some False) =
     PathFail OutOfBounds ''Path \"..notes\" resolves to \"/ws/..notes\" which is outside the working directory \"/ws\"''"
  by code_simp

theorem host_policy_opens_secrets:
  "''/u/.vellum/protected'' \<in> set (getProtectedServicePaths demo_env) \<and>
   hostPolicy ''/u/.vellum/protected/key'' = PathOk ''/u/.vellum/protected/key'' \<and>
   hostPolicy ''/proc/self/environ'' = PathOk ''/proc/self/environ''"
  by code_simp

theorem climbing_link_escapes:
  "sandboxPolicy (demo_env\<lparr>host := climbing_host\<rparr>) ''p/q/a/l'' ''/ws'' None = PathOk ''/ws/p/q/a/l'' \<and>
   destination (files climbing_host) ''/ws/p/q/a/l'' = Some [''etc'', ''passwd'']"
  by code_simp

end
