(* ===== verification/Workspace_Policy.thy ===== *)
theory Workspace_Policy
  imports Path_Policy
begin

text \<open>
  Which tool invocations stay inside the workspace, and which of them write its control plane
  (\<^verbatim>\<open>assistant/src/permissions/workspace-policy.ts\<close>, with the directory getters of
  \<^verbatim>\<open>assistant/src/util/platform.ts\<close>). The canonicalisation itself is in \<open>File_System\<close>.
  A tool's input is a JSON object.
\<close>

section \<open>Containment\<close>

record workspace_env =
  ws_host :: host
  workspaceDir :: string
  ws_containerized :: bool

definition isAtOrUnderCanonicalDir :: "string \<Rightarrow> string \<Rightarrow> bool" where
  "isAtOrUnderCanonicalDir canonicalPath canonicalDir =
     (let pre = (if ends_with canonicalDir ''/'' then canonicalDir else canonicalDir @ ''/'')
      in canonicalPath = canonicalDir \<or> starts_with canonicalPath pre)"

definition isPathWithinWorkspaceRoot :: "host \<Rightarrow> string \<Rightarrow> string \<Rightarrow> bool" where
  "isPathWithinWorkspaceRoot E filePath workspaceRoot =
     (if filePath = [] \<or> workspaceRoot = [] then False
      else isAtOrUnderCanonicalDir (canonicalize E filePath) (canonicalize E workspaceRoot))"

section \<open>Tools\<close>

definition PATH_SCOPED_TOOLS :: "string set" where
  "PATH_SCOPED_TOOLS = {''file_read'', ''file_write'', ''file_edit''}"

definition WORKSPACE_WRITE_TOOLS :: "string set" where
  "WORKSPACE_WRITE_TOOLS = {''file_write'', ''file_edit''}"

definition isWorkspaceWriteTool :: "string \<Rightarrow> bool" where
  "isWorkspaceWriteTool tool \<longleftrightarrow> tool \<in> WORKSPACE_WRITE_TOOLS"

definition NETWORK_TOOLS :: "string set" where
  "NETWORK_TOOLS = {''web_search'', ''web_fetch'', ''network_request''}"

definition HOST_TOOLS :: "string set" where
  "HOST_TOOLS = {''host_file_read'', ''host_file_write'', ''host_file_edit'', ''host_file_transfer'',
                 ''host_bash'', ''computer_use_run_applescript''}"

definition ALWAYS_SCOPED_TOOLS :: "string set" where
  "ALWAYS_SCOPED_TOOLS = {''skill_load'', ''recall'', ''ui_update'', ''ui_dismiss''}"

type_synonym tool_input = "(string, json) js_map"

definition resolveSandboxBase :: "host \<Rightarrow> string \<Rightarrow> string \<Rightarrow> string" where
  "resolveSandboxBase E rawPath workingDir = path_resolve (cwd E) [workingDir, remap_workspace rawPath workingDir]"

definition string_field :: "tool_input \<Rightarrow> string \<Rightarrow> string option" where
  "string_field toolInput k = (case js_get toolInput k of Some (JStr s) \<Rightarrow> Some s | _ \<Rightarrow> None)"

definition resolvePathScopedTarget :: "host \<Rightarrow> tool_input \<Rightarrow> string \<Rightarrow> string" where
  "resolvePathScopedTarget E toolInput workspaceRoot =
     (let rawPath = (case string_field toolInput ''path'' of
                       Some s \<Rightarrow> s
                     | None \<Rightarrow> (case string_field toolInput ''file_path'' of Some s \<Rightarrow> s | None \<Rightarrow> ''''))
      in if rawPath = '''' then '''' else resolveSandboxBase E rawPath workspaceRoot)"

definition isOutOfWorkspaceFileInvocation :: "workspace_env \<Rightarrow> string \<Rightarrow> tool_input \<Rightarrow> string \<Rightarrow> bool" where
  "isOutOfWorkspaceFileInvocation W tool toolInput workspaceRoot =
     (if ws_containerized W then False
      else if tool \<notin> PATH_SCOPED_TOOLS then False
      else (let filePath = resolvePathScopedTarget (ws_host W) toolInput workspaceRoot
            in filePath \<noteq> '''' \<and> \<not> isPathWithinWorkspaceRoot (ws_host W) filePath workspaceRoot))"

section \<open>The control plane\<close>

definition getWorkspaceHooksDir :: "workspace_env \<Rightarrow> string" where
  "getWorkspaceHooksDir W = path_join [workspaceDir W, ''hooks'']"

definition getWorkspacePluginsDir :: "workspace_env \<Rightarrow> string" where
  "getWorkspacePluginsDir W = path_join [workspaceDir W, ''plugins'']"

definition getWorkspaceSkillsDir :: "workspace_env \<Rightarrow> string" where
  "getWorkspaceSkillsDir W = path_join [workspaceDir W, ''skills'']"

definition getWorkspaceToolsDir :: "workspace_env \<Rightarrow> string" where
  "getWorkspaceToolsDir W = path_join [workspaceDir W, ''tools'']"

definition getWorkspaceRoutesDir :: "workspace_env \<Rightarrow> string" where
  "getWorkspaceRoutesDir W = path_join [workspaceDir W, ''routes'']"

definition getWorkspaceWorkflowsDir :: "workspace_env \<Rightarrow> string" where
  "getWorkspaceWorkflowsDir W = path_join [workspaceDir W, ''workflows'']"

definition getDataDir :: "workspace_env \<Rightarrow> string" where
  "getDataDir W = path_join [workspaceDir W, ''data'']"

definition getMonitoringDataDir :: "workspace_env \<Rightarrow> string" where
  "getMonitoringDataDir W = path_join [getDataDir W, ''monitoring'']"

definition getWorkspaceSystemPromptDir :: "workspace_env \<Rightarrow> string" where
  "getWorkspaceSystemPromptDir W = path_join [workspaceDir W, ''prompts'', ''system'']"

definition executableSinkDirs :: "workspace_env \<Rightarrow> string list" where
  "executableSinkDirs W =
     [getWorkspaceHooksDir W, getWorkspacePluginsDir W, getWorkspaceSkillsDir W, getWorkspaceToolsDir W,
      getWorkspaceRoutesDir W, getWorkspaceWorkflowsDir W, getMonitoringDataDir W]"

definition PROMPT_SURFACE_FILES :: "string list" where
  "PROMPT_SURFACE_FILES =
     [''IDENTITY.md'', ''SOUL.md'', ''VOICE.md'', ''BOOTSTRAP.md'', ''HEARTBEAT.md'', ''NOW.md'']"

definition PROMPT_SURFACE_DIRS :: "string list" where
  "PROMPT_SURFACE_DIRS = [''users'', ''channels'']"

definition writes_under :: "host \<Rightarrow> string \<Rightarrow> string \<Rightarrow> string \<Rightarrow> bool" where
  "writes_under E target addressed dir =
     (let canonicalDir = canonicalize E dir
      in isAtOrUnderCanonicalDir target canonicalDir \<or> isAtOrUnderCanonicalDir addressed canonicalDir)"

definition isControlPlaneWorkspaceWrite :: "workspace_env \<Rightarrow> string \<Rightarrow> tool_input \<Rightarrow> string \<Rightarrow> bool" where
  "isControlPlaneWorkspaceWrite W tool toolInput workspaceRoot =
     (let E = ws_host W; filePath = resolvePathScopedTarget E toolInput workspaceRoot in
      if \<not> isWorkspaceWriteTool tool then False
      else if filePath = '''' then False
      else (let target = canonicalize E filePath;
                addressed = canonicalizeAddressedName E filePath;
                root = canonicalize E workspaceRoot
            in list_ex (writes_under E target addressed) (executableSinkDirs W) \<or>
               list_ex (\<lambda>file. let canonicalFile = canonicalize E (root @ ''/'' @ file)
                               in target = canonicalFile \<or> addressed = canonicalFile) PROMPT_SURFACE_FILES \<or>
               list_ex (\<lambda>dir. writes_under E target addressed (root @ ''/'' @ dir)) PROMPT_SURFACE_DIRS \<or>
               writes_under E target addressed (getWorkspaceSystemPromptDir W)))"

definition isWorkspaceScopedInvocation :: "workspace_env \<Rightarrow> string \<Rightarrow> tool_input \<Rightarrow> string \<Rightarrow> bool" where
  "isWorkspaceScopedInvocation W tool toolInput workspaceRoot =
     (if tool \<in> ALWAYS_SCOPED_TOOLS then True
      else if tool \<in> NETWORK_TOOLS then False
      else if tool \<in> HOST_TOOLS then False
      else if tool \<in> PATH_SCOPED_TOOLS then
        (let filePath = resolvePathScopedTarget (ws_host W) toolInput workspaceRoot
         in filePath \<noteq> '''' \<and> isPathWithinWorkspaceRoot (ws_host W) filePath workspaceRoot)
      else if tool = ''bash'' then ws_containerized W
      else False)"

section \<open>Lemmas\<close>

lemma isAtOrUnder_under:
  "proper xs \<Longrightarrow> proper ys \<Longrightarrow> isAtOrUnderCanonicalDir (abs_path xs) (abs_path ys) \<longleftrightarrow> prefix ys xs"
  using under_iff [of xs ys] by (simp add: isAtOrUnderCanonicalDir_def dir_prefix_def Let_def)

interpretation canonical_test: containment isAtOrUnderCanonicalDir
  by unfold_locales (simp add: isAtOrUnder_under)

text \<open>The doubled slash of a missing file below the root does no harm: such a file is only
  under the root itself, as an existing directory.\<close>

lemma canonical_form_under:
  assumes "wf_fs fs" "proper d" "proper r" "r = [] \<or> map_of fs r \<noteq> None"
  shows "isAtOrUnderCanonicalDir (canonical_form fs d) (canonical_form fs r) \<longleftrightarrow> prefix r d"
proof -
  have r: "canonical_form fs r = abs_path r" using assms(4) by (auto simp: canonical_form_def)
  show ?thesis
  proof (cases "length d = 1 \<and> map_of fs d = None")
    case False
    then show ?thesis using isAtOrUnder_under [OF assms(2,3)] r by (auto simp: canonical_form_def)
  next
    case True
    then obtain x where x: "d = [x]" by (metis One_nat_def length_0_conv length_Suc_conv)
    show ?thesis
    proof (cases r)
      case Nil
      have "abs_path [] = ''/''" by (simp add: abs_path_def)
      then show ?thesis
        using True Nil r by (simp add: canonical_form_def isAtOrUnderCanonicalDir_def starts_with_def ends_with_def)
    next
      case (Cons y ys)
      have "\<not> prefix r d" using assms(4) True x Cons by (auto simp: prefix_Cons)
      moreover obtain c z where "abs_path r = slash # c # z" "c \<noteq> slash"
        using assms(3) Cons by (cases ys; cases y) (auto simp: abs_path_def)
      ultimately show ?thesis
        using True r by (auto simp: canonical_form_def isAtOrUnderCanonicalDir_def Let_def starts_with_def abs_path_def)
    qed
  qed
qed

lemma resolved_target: "resolvePathScopedTarget E inp root \<noteq> [] \<Longrightarrow> resolved (resolvePathScopedTarget E inp root)"
  by (simp add: resolvePathScopedTarget_def resolveSandboxBase_def Let_def split: if_splits)

text \<open>The two views of a write that the control-plane check takes.\<close>

lemma control_plane_dir:
  assumes "isWorkspaceWriteTool tool" "dir \<in> set (executableSinkDirs W) \<union> {getWorkspaceSystemPromptDir W}"
    and "resolvePathScopedTarget (ws_host W) inp root = p" "p \<noteq> []"
    and "isAtOrUnderCanonicalDir (canonicalize (ws_host W) p) (canonicalize (ws_host W) dir) \<or>
         isAtOrUnderCanonicalDir (canonicalizeAddressedName (ws_host W) p) (canonicalize (ws_host W) dir)"
  shows "isControlPlaneWorkspaceWrite W tool inp root"
  using assms by (auto simp: isControlPlaneWorkspaceWrite_def Let_def list_ex_iff writes_under_def)

lemma addressed_place:
  assumes "wf_fs (files E)" "proper (q @ [x])" "realpathSync (files E) (abs_path q) = Some (abs_path e)" "proper e" "e \<noteq> []"
  shows "canonicalizeAddressedName E (abs_path (q @ [x])) = abs_path (e @ [x])"
  using assms abs_path_snoc [of e x]
  by (simp add: canonicalizeAddressedName_def Let_def canonicalizeExisting.simps [of E "abs_path q"])

section \<open>Properties\<close>

text \<open>The workspace test is exact: for a path the kernel can open or create and an existing
  workspace, \<open>isPathWithinWorkspaceRoot\<close> answers whether the place the path leads to is the real
  workspace directory or lies below it.\<close>

theorem workspace_test_exact:
  assumes "wf_fs (files E)" "plain_links (files E)" "resolved p" "resolved root"
    and "destination (files E) p = Some d" "destination (files E) root = Some r"
    and "r = [] \<or> map_of (files E) r \<noteq> None"
  shows "isPathWithinWorkspaceRoot E p root \<longleftrightarrow> prefix r d"
proof -
  have "p \<noteq> []" "root \<noteq> []" using assms(3,4) by (auto simp: resolved_def abs_path_def)
  then show ?thesis
    using canonicalize_form [OF assms(1-3,5)] canonicalize_form [OF assms(1,2,4,6)]
      canonical_form_under [OF assms(1) destination_proper [OF assms(1-3,5)] destination_proper [OF assms(1,2,4,6)] assms(7)]
    by (simp add: isPathWithinWorkspaceRoot_def)
qed

theorem workspace_test_exact_witness:
  "isPathWithinWorkspaceRoot (host demo_env) ''/ws/l'' ''/ws'' \<and> \<not> isPathWithinWorkspaceRoot (host demo_env) ''/ws/x'' ''/ws''"
proof -
  have h: "wf_fs (files (host demo_env))" "plain_links (files (host demo_env))"
    "resolved ''/ws/l''" "resolved ''/ws/x''" "resolved ''/ws''"
    "destination (files (host demo_env)) ''/ws/l'' = Some [''ws'', ''sub'', ''new'']"
    "destination (files (host demo_env)) ''/ws/x'' = Some [''etc'', ''passwd'']"
    "destination (files (host demo_env)) ''/ws'' = Some [''ws'']"
    "[''ws''] = [] \<or> map_of (files (host demo_env)) [''ws''] \<noteq> None"
    by code_simp+
  from workspace_test_exact [OF h(1,2,3,5,6,8,9)] workspace_test_exact [OF h(1,2,4,5,7,8,9)] show ?thesis by simp
qed

text \<open>A write to the control plane cannot hide behind links. If a file tool's write lands at
  or below the real place of a directory the daemon executes code from (or of the system
  prompt overrides), or is addressed by a name whose real parent directory lies there, the
  invocation is reported as a control-plane write, for the path field that executes and
  after the container remap.\<close>

theorem control_plane_write_seen:
  assumes "wf_fs (files (ws_host W))" "plain_links (files (ws_host W))"
    and "tool \<in> WORKSPACE_WRITE_TOOLS"
    and "resolvePathScopedTarget (ws_host W) inp root = abs_path (q @ [x])" "proper (q @ [x])"
    and "destination (files (ws_host W)) (abs_path (q @ [x])) = Some d"
    and "realpathSync (files (ws_host W)) (abs_path q) = Some (abs_path e)" "proper e" "e \<noteq> []"
    and "dir \<in> set (executableSinkDirs W) \<union> {getWorkspaceSystemPromptDir W}" "resolved dir"
    and "destination (files (ws_host W)) dir = Some s" "map_of (files (ws_host W)) s \<noteq> None"
    and "prefix s d \<or> prefix s (e @ [x])"
  shows "isControlPlaneWorkspaceWrite W tool inp root"
proof -
  let ?E = "ws_host W"
  have r: "resolved (abs_path (q @ [x]))" using assms(5) by simp
  have p: "proper d" "proper s"
    using destination_proper [OF assms(1,2) r assms(6)] destination_proper [OF assms(1,2,11,12)] by simp_all
  have "canonicalize ?E dir = abs_path s"
    using canonicalize_form [OF assms(1,2,11,12)] assms(13) by (auto simp: canonical_form_def)
  moreover have "canonicalizeAddressedName ?E (abs_path (q @ [x])) = abs_path (e @ [x])"
    using addressed_place [OF assms(1,5,7,8,9)] .
  moreover have "isAtOrUnderCanonicalDir (canonicalize ?E (abs_path (q @ [x]))) (canonicalize ?E dir) \<longleftrightarrow> prefix s d"
    using canonical_form_under [OF assms(1) p] canonicalize_form [OF assms(1,2) r assms(6)]
      canonicalize_form [OF assms(1,2,11,12)] assms(13) by auto
  ultimately show ?thesis
    using control_plane_dir [of tool dir W inp root "abs_path (q @ [x])"] assms(3,4,5,8,10,14) p isAtOrUnder_under [of "e @ [x]" s]
    by (auto simp: isWorkspaceWriteTool_def)
qed

theorem control_plane_write_seen_witness:
  "let W = \<lparr>ws_host = demo_host, workspaceDir = ''/ws'', ws_containerized = True\<rparr>
   in isControlPlaneWorkspaceWrite W ''file_write'' [(''path'', JStr ''/workspace/note'')] ''/ws''"
proof -
  let ?W = "\<lparr>ws_host = demo_host, workspaceDir = ''/ws'', ws_containerized = True\<rparr>"
  have h: "wf_fs (files (ws_host ?W))" "plain_links (files (ws_host ?W))" "''file_write'' \<in> WORKSPACE_WRITE_TOOLS"
    "resolvePathScopedTarget (ws_host ?W) [(''path'', JStr ''/workspace/note'')] ''/ws'' = abs_path ([''ws''] @ [''note''])"
    "proper ([''ws''] @ [''note''])"
    "destination (files (ws_host ?W)) (abs_path ([''ws''] @ [''note''])) = Some [''ws'', ''tools'', ''new.ts'']"
    "realpathSync (files (ws_host ?W)) (abs_path [''ws'']) = Some (abs_path [''ws''])" "proper [''ws'']" "[''ws''] \<noteq> []"
    "''/ws/tools'' \<in> set (executableSinkDirs ?W) \<union> {getWorkspaceSystemPromptDir ?W}" "resolved ''/ws/tools''"
    "destination (files (ws_host ?W)) ''/ws/tools'' = Some [''ws'', ''tools'']"
    "map_of (files (ws_host ?W)) [''ws'', ''tools''] \<noteq> None"
    "prefix [''ws'', ''tools''] [''ws'', ''tools'', ''new.ts''] \<or> prefix [''ws'', ''tools''] ([''ws''] @ [''note''])"
    by code_simp+
  from control_plane_write_seen [OF h] show ?thesis by simp
qed

end
