(* ===== verification/Trust_Rules.thy ===== *)
theory Trust_Rules
  imports Approval_Policy
begin

text \<open>
  The gateway's trust rules: the table with its operations
  (\<^verbatim>\<open>gateway/src/db/trust-rule-store.ts\<close>), its seeding from the command registry
  (\<^verbatim>\<open>gateway/src/db/seed-trust-rules.ts\<close>), and the in-memory cache that the classifiers ask
  (\<^verbatim>\<open>gateway/src/risk/trust-rule-cache.ts\<close>). The table is the list of its rows in insertion
  order; generated ids and the ISO time of a write are arguments; a thrown error is a value.
\<close>

section \<open>Rows and rules\<close>

datatype rule_origin = OriginDefault | OriginUser

record rule_row =
  rr_id :: string
  rr_tool :: string
  rr_pattern :: string
  rr_risk :: string
  rr_description :: string
  rr_origin :: rule_origin
  rr_userModified :: bool
  rr_deleted :: bool
  rr_scope :: "string option"
  rr_createdAt :: string
  rr_updatedAt :: string

text \<open>A rule adds the row's other columns to what the override needs of it.\<close>

record rule = trust_rule +
  rl_id :: string
  rl_tool :: string
  rl_pattern :: string
  rl_origin :: rule_origin
  rl_userModified :: bool
  rl_deleted :: bool
  rl_scope :: "string option"
  rl_createdAt :: string
  rl_updatedAt :: string

datatype rule_error = InvalidRisk string | RuleNotFound string | NotDefaultRule string | UniqueViolation

definition VALID_RISK_VALUES :: "string set" where
  "VALID_RISK_VALUES = {''low'', ''medium'', ''high''}"

definition assertValidRisk :: "string \<Rightarrow> bool" where
  "assertValidRisk v \<longleftrightarrow> v \<in> VALID_RISK_VALUES"

definition parse_risk :: "string \<Rightarrow> risk_level" where
  "parse_risk v = (if v = ''low'' then LowRisk else if v = ''medium'' then MediumRisk else HighRisk)"

definition toTrustRule :: "rule_row \<Rightarrow> rule" where
  "toTrustRule row =
     \<lparr>risk = (if rr_risk row \<in> VALID_RISK_VALUES then parse_risk (rr_risk row) else HighRisk),
      description = rr_description row, rl_id = rr_id row, rl_tool = rr_tool row, rl_pattern = rr_pattern row,
      rl_origin = rr_origin row, rl_userModified = rr_userModified row, rl_deleted = rr_deleted row,
      rl_scope = rr_scope row, rl_createdAt = rr_createdAt row, rl_updatedAt = rr_updatedAt row\<rparr>"

section \<open>The store\<close>

record rule_filters =
  f_origin :: "rule_origin option"
  f_tool :: "string option"
  includeDeleted :: bool
  userRelevantOnly :: bool

definition list_rules :: "rule_filters \<Rightarrow> rule_row list \<Rightarrow> rule list" where
  "list_rules F rows = map toTrustRule (filter (\<lambda>r.
     (includeDeleted F \<or> \<not> rr_deleted r) \<and>
     (f_origin F = None \<or> f_origin F = Some (rr_origin r)) \<and>
     (userRelevantOnly F \<longrightarrow> rr_origin r = OriginUser \<or> rr_userModified r) \<and>
     (f_tool F = None \<or> f_tool F = Some (rr_tool r))) rows)"

definition find_row :: "string \<Rightarrow> rule_row list \<Rightarrow> rule_row option" where
  "find_row i rows = find (\<lambda>r. rr_id r = i) rows"

definition getById :: "string \<Rightarrow> rule_row list \<Rightarrow> rule option" where
  "getById i rows = map_option toTrustRule (find_row i rows)"

definition rule_key :: "rule_row \<Rightarrow> string \<times> string" where
  "rule_key r = (rr_tool r, rr_pattern r)"

text \<open>\<^verbatim>\<open>INSERT ... ON CONFLICT (tool, pattern) DO UPDATE SET ... WHERE ...\<close>.\<close>

definition upsert ::
    "(rule_row \<Rightarrow> rule_row) \<Rightarrow> (rule_row \<Rightarrow> bool) \<Rightarrow> rule_row \<Rightarrow> rule_row list \<Rightarrow> rule_error + rule_row list" where
  "upsert change guard new rows =
     (if list_ex (\<lambda>r. rule_key r = rule_key new) rows
      then Inr (map (\<lambda>r. if rule_key r = rule_key new \<and> guard r then change r else r) rows)
      else if list_ex (\<lambda>r. rr_id r = rr_id new) rows then Inl UniqueViolation
      else Inr (rows @ [new]))"

record create_input =
  ci_tool :: string
  ci_pattern :: string
  ci_risk :: string
  ci_description :: string
  ci_scope :: "string option"

definition create ::
    "create_input \<Rightarrow> string \<Rightarrow> string \<Rightarrow> rule_row list \<Rightarrow> rule_error + rule \<times> rule_row list" where
  "create inp i now rows =
     (if \<not> assertValidRisk (ci_risk inp) then Inl (InvalidRisk (ci_risk inp))
      else (case upsert
              (\<lambda>r. r\<lparr>rr_risk := ci_risk inp, rr_description := ci_description inp, rr_origin := OriginUser,
                     rr_scope := ci_scope inp, rr_deleted := False, rr_updatedAt := now\<rparr>)
              (\<lambda>r. True)
              \<lparr>rr_id = i, rr_tool = ci_tool inp, rr_pattern = ci_pattern inp, rr_risk = ci_risk inp,
               rr_description = ci_description inp, rr_origin = OriginUser, rr_userModified = False,
               rr_deleted = False, rr_scope = ci_scope inp, rr_createdAt = now, rr_updatedAt = now\<rparr> rows of
              Inl e \<Rightarrow> Inl e
            | Inr rows' \<Rightarrow>
                (case find (\<lambda>r. rr_tool r = ci_tool inp \<and> rr_pattern r = ci_pattern inp) rows' of
                   Some row \<Rightarrow> Inr (toTrustRule row, rows')
                 | None \<Rightarrow> Inl (RuleNotFound i))))"

definition set_row :: "string \<Rightarrow> (rule_row \<Rightarrow> rule_row) \<Rightarrow> rule_row list \<Rightarrow> rule_row list" where
  "set_row i change rows = map (\<lambda>r. if rr_id r = i then change r else r) rows"

text \<open>The setters of an optional column value.\<close>

definition opt_set :: "('a \<Rightarrow> rule_row \<Rightarrow> rule_row) \<Rightarrow> 'a option \<Rightarrow> rule_row \<Rightarrow> rule_row" where
  "opt_set put v r = (case v of None \<Rightarrow> r | Some x \<Rightarrow> put x r)"

definition update_rule ::
    "string \<Rightarrow> string option \<Rightarrow> string option \<Rightarrow> string \<Rightarrow> rule_row list \<Rightarrow> rule_error + rule \<times> rule_row list" where
  "update_rule i new_risk new_description now rows =
     (case getById i rows of
        None \<Rightarrow> Inl (RuleNotFound i)
      | Some existing \<Rightarrow>
          if new_risk = None \<and> new_description = None then Inr (existing, rows)
          else if new_risk \<noteq> None \<and> \<not> assertValidRisk (the new_risk) then Inl (InvalidRisk (the new_risk))
          else (let rows' = set_row i (\<lambda>r.
                  opt_set (\<lambda>v r. r\<lparr>rr_risk := v\<rparr>) new_risk
                    (opt_set (\<lambda>v r. r\<lparr>rr_description := v\<rparr>) new_description
                      (if rl_origin existing = OriginDefault
                       then r\<lparr>rr_updatedAt := now, rr_userModified := True\<rparr> else r\<lparr>rr_updatedAt := now\<rparr>))) rows
                in (case getById i rows' of Some r \<Rightarrow> Inr (r, rows') | None \<Rightarrow> Inl (RuleNotFound i))))"

definition remove_rule :: "string \<Rightarrow> string \<Rightarrow> rule_row list \<Rightarrow> rule_error + rule_row list" where
  "remove_rule i now rows =
     (case getById i rows of
        None \<Rightarrow> Inl (RuleNotFound i)
      | Some existing \<Rightarrow>
          if rl_origin existing = OriginUser then Inr (filter (\<lambda>r. rr_id r \<noteq> i) rows)
          else Inr (set_row i (\<lambda>r. r\<lparr>rr_deleted := True, rr_updatedAt := now\<rparr>) rows))"

definition reset_rule ::
    "string \<Rightarrow> string \<Rightarrow> string option \<Rightarrow> string \<Rightarrow> rule_row list \<Rightarrow> rule_error + rule \<times> rule_row list" where
  "reset_rule i originalRisk originalDescription now rows =
     (case getById i rows of
        None \<Rightarrow> Inl (RuleNotFound i)
      | Some existing \<Rightarrow>
          if rl_origin existing \<noteq> OriginDefault then Inl (NotDefaultRule i)
          else (let rows' = set_row i (\<lambda>r.
                  opt_set (\<lambda>v r. r\<lparr>rr_description := v\<rparr>) originalDescription
                    (r\<lparr>rr_userModified := False, rr_deleted := False, rr_risk := originalRisk, rr_updatedAt := now\<rparr>)) rows
                in (case getById i rows' of Some r \<Rightarrow> Inr (r, rows') | None \<Rightarrow> Inl (RuleNotFound i))))"

record default_input =
  di_id :: string
  di_tool :: string
  di_pattern :: string
  di_risk :: string
  di_description :: string

definition upsertDefault :: "default_input \<Rightarrow> string \<Rightarrow> rule_row list \<Rightarrow> rule_error + rule_row list" where
  "upsertDefault inp now rows =
     upsert (\<lambda>r. r\<lparr>rr_risk := di_risk inp, rr_description := di_description inp, rr_updatedAt := now\<rparr>)
       (\<lambda>r. rr_origin r = OriginDefault \<and> \<not> rr_userModified r \<and> \<not> rr_deleted r)
       \<lparr>rr_id = di_id inp, rr_tool = di_tool inp, rr_pattern = di_pattern inp, rr_risk = di_risk inp,
        rr_description = di_description inp, rr_origin = OriginDefault, rr_userModified = False,
        rr_deleted = False, rr_scope = None, rr_createdAt = now, rr_updatedAt = now\<rparr> rows"

definition listActive :: "string option \<Rightarrow> rule_row list \<Rightarrow> rule list" where
  "listActive t rows = map toTrustRule (filter (\<lambda>r. \<not> rr_deleted r \<and> (t = None \<or> t = Some (rr_tool r))) rows)"

section \<open>Seeding\<close>

text \<open>The part of a command specification that seeding reads: base risk, reason, subcommands.\<close>

datatype command_spec = CommandSpec (baseRisk: string) (spec_reason: "string option") (subcommands: "(string \<times> command_spec) list")

definition makeId :: "string \<Rightarrow> string" where
  "makeId p = ''default:bash:'' @ map (\<lambda>c. if c = CHR '' '' then CHR ''-'' else c) p"

text \<open>The dash between pattern and reason is U+2014, here as its UTF-8 bytes.\<close>

definition em_dash :: string where
  "em_dash = [char_of (226 :: nat), char_of (128 :: nat), char_of (148 :: nat)]"

definition makeDescription :: "string \<Rightarrow> command_spec \<Rightarrow> string" where
  "makeDescription p spec =
     (case spec_reason spec of
        Some r \<Rightarrow> if r \<noteq> [] then p @ '' '' @ em_dash @ '' '' @ r else p @ '' (default)''
      | None \<Rightarrow> p @ '' (default)'')"

fun collectEntries :: "string \<Rightarrow> command_spec \<Rightarrow> default_input list"
and collectSubcommands :: "string \<Rightarrow> (string \<times> command_spec) list \<Rightarrow> default_input list" where
  "collectEntries p (CommandSpec b r subs) =
     \<lparr>di_id = makeId p, di_tool = ''bash'', di_pattern = p, di_risk = b,
      di_description = makeDescription p (CommandSpec b r subs)\<rparr> # collectSubcommands p subs"
| "collectSubcommands p [] = []"
| "collectSubcommands p ((sub, subSpec) # rest) = collectEntries (p @ '' '' @ sub) subSpec @ collectSubcommands p rest"

text \<open>Each upsert is a statement of its own: one that throws leaves the rows of those before it.\<close>

fun upsert_all :: "default_input list \<Rightarrow> string \<Rightarrow> rule_row list \<Rightarrow> rule_row list \<times> rule_error option" where
  "upsert_all [] now rows = (rows, None)"
| "upsert_all (e # es) now rows =
     (case upsertDefault e now rows of Inl err \<Rightarrow> (rows, Some err) | Inr rows' \<Rightarrow> upsert_all es now rows')"

definition seedTrustRulesFromRegistry ::
    "(string \<times> command_spec) list \<Rightarrow> string \<Rightarrow> rule_row list \<Rightarrow> rule_row list \<times> (rule_error + nat)" where
  "seedTrustRulesFromRegistry registry now rows =
     (let entries = concat (map (\<lambda>(command, spec). collectEntries command spec) registry);
          (rows', err) = upsert_all entries now rows
      in (rows', case err of Some e \<Rightarrow> Inl e | None \<Rightarrow> Inr (length entries)))"

section \<open>The cache\<close>

type_synonym rule_cache = "(string, (string, rule) js_map) js_map"

definition isScopeMatch :: "string option \<Rightarrow> string option \<Rightarrow> bool" where
  "isScopeMatch scope cwd =
     (case scope of
        None \<Rightarrow> True
      | Some s \<Rightarrow>
          if s = [] \<or> s = ''everywhere'' then True
          else (case cwd of
                  None \<Rightarrow> True
                | Some c \<Rightarrow>
                    if c = [] then True
                    else (let dir = (if ends_with s ''/*'' then take (length s - 2) s else s);
                              normalizedScope = (if ends_with dir ''/'' then dir else dir @ ''/'');
                              normalizedCwd = (if ends_with c ''/'' then c else c @ ''/'')
                          in normalizedCwd = normalizedScope \<or> starts_with normalizedCwd normalizedScope)))"

definition cache_add :: "rule_cache \<Rightarrow> rule \<Rightarrow> rule_cache" where
  "cache_add m r =
     js_set (rl_tool r) (js_set (rl_pattern r) r (case js_get m (rl_tool r) of None \<Rightarrow> [] | Some t \<Rightarrow> t)) m"

definition refresh :: "rule_row list \<Rightarrow> rule_cache" where
  "refresh rows = foldl cache_add [] (listActive None rows)"

definition cache_get :: "rule_cache \<Rightarrow> string \<Rightarrow> string \<Rightarrow> rule option" where
  "cache_get m t p = (case js_get m t of None \<Rightarrow> None | Some toolMap \<Rightarrow> js_get toolMap p)"

definition isUserRule :: "rule option \<Rightarrow> bool" where
  "isUserRule v = (case v of None \<Rightarrow> False | Some r \<Rightarrow> rl_userModified r \<or> rl_origin r = OriginUser)"

text \<open>The local \<open>lookup\<close> of \<open>findBaseRisk\<close>: both dialects of a key, user rules first.\<close>

definition in_scope :: "string option \<Rightarrow> rule option \<Rightarrow> rule option" where
  "in_scope cwd r = (case r of Some x \<Rightarrow> if isScopeMatch (rl_scope x) cwd then Some x else None | None \<Rightarrow> None)"

definition base_lookup :: "rule_cache \<Rightarrow> string \<Rightarrow> string option \<Rightarrow> string \<Rightarrow> rule option" where
  "base_lookup m t cwd key =
     (let litOk = in_scope cwd (cache_get m t key);
          actOk = in_scope cwd (cache_get m t (''action:'' @ key))
      in if isUserRule litOk then litOk
         else if isUserRule actOk then actOk
         else (case litOk of None \<Rightarrow> actOk | Some x \<Rightarrow> Some x))"

definition stripPath :: "string \<Rightarrow> string" where
  "stripPath command =
     (let binary = takeWhile (\<lambda>c. c \<noteq> CHR '' '') command;
          rest = dropWhile (\<lambda>c. c \<noteq> CHR '' '') command
      in if CHR ''/'' \<notin> set binary then command
         else last (split_on (CHR ''/'') binary) @ rest)"

text \<open>\<^verbatim>\<open>s.split(/\s+/)\<close>.\<close>

function split_spaces :: "string \<Rightarrow> string list" where
  "split_spaces s =
     (case dropWhile (\<lambda>c. \<not> is_space c) s of
        [] \<Rightarrow> [s]
      | c # rest \<Rightarrow> takeWhile (\<lambda>c. \<not> is_space c) s # split_spaces (dropWhile is_space rest))"
  by pat_completeness auto

termination
proof (relation "measure length")
  fix s c rest
  assume "dropWhile (\<lambda>c. \<not> is_space c) s = c # rest"
  then have "length (c # rest) \<le> length s" by (metis length_dropWhile_le)
  then show "(dropWhile is_space rest, s) \<in> measure length"
    using length_dropWhile_le [of is_space rest] by simp
qed simp

declare split_spaces.simps [simp del]

text \<open>The loop over shorter and shorter word prefixes, from \<open>i\<close> words down to one.\<close>

fun subcommand_match :: "(string \<Rightarrow> rule option) \<Rightarrow> string list \<Rightarrow> nat \<Rightarrow> rule option" where
  "subcommand_match look parts 0 = None"
| "subcommand_match look parts (Suc i) =
     (case look (join_with '' '' (take (Suc i) parts)) of
        Some r \<Rightarrow> Some r
      | None \<Rightarrow> subcommand_match look parts i)"

definition findBaseRisk :: "rule_cache \<Rightarrow> string \<Rightarrow> string \<Rightarrow> string option \<Rightarrow> rule option" where
  "findBaseRisk m t command cwd =
     (case js_get m t of
        None \<Rightarrow> None
      | Some _ \<Rightarrow>
          (case base_lookup m t cwd command of
             Some r \<Rightarrow> Some r
           | None \<Rightarrow>
               (let stripped = stripPath command;
                    strippedMatch = (if stripped \<noteq> command then base_lookup m t cwd stripped else None)
                in (case strippedMatch of
                      Some r \<Rightarrow> Some r
                    | None \<Rightarrow>
                        (let parts = split_spaces stripped
                         in subcommand_match (base_lookup m t cwd) parts (length parts - 1))))))"

definition findToolOverride :: "rule_cache \<Rightarrow> string \<Rightarrow> string \<Rightarrow> string option \<Rightarrow> rule option" where
  "findToolOverride m t p cwd =
     (case js_get m t of
        None \<Rightarrow> None
      | Some _ \<Rightarrow>
          (case in_scope cwd (cache_get m t p) of
             Some r \<Rightarrow> Some r
           | None \<Rightarrow> in_scope cwd (cache_get m t (t @ '':'' @ p))))"

definition getAllForTool :: "rule_cache \<Rightarrow> string \<Rightarrow> rule list" where
  "getAllForTool m t = (case js_get m t of None \<Rightarrow> [] | Some toolMap \<Rightarrow> map snd toolMap)"

section \<open>Histories of the table\<close>

datatype rule_op =
    OpCreate create_input string string
  | OpUpdate string "string option" "string option" string
  | OpRemove string string
  | OpReset string string "string option" string
  | OpUpsertDefault default_input string

text \<open>An operation that throws leaves the table as it was.\<close>

fun exec_rule :: "rule_row list \<Rightarrow> rule_op \<Rightarrow> rule_row list" where
  "exec_rule rows (OpCreate inp i now) = (case create inp i now rows of Inl _ \<Rightarrow> rows | Inr (_, rows') \<Rightarrow> rows')"
| "exec_rule rows (OpUpdate i r d now) = (case update_rule i r d now rows of Inl _ \<Rightarrow> rows | Inr (_, rows') \<Rightarrow> rows')"
| "exec_rule rows (OpRemove i now) = (case remove_rule i now rows of Inl _ \<Rightarrow> rows | Inr rows' \<Rightarrow> rows')"
| "exec_rule rows (OpReset i r d now) = (case reset_rule i r d now rows of Inl _ \<Rightarrow> rows | Inr (_, rows') \<Rightarrow> rows')"
| "exec_rule rows (OpUpsertDefault inp now) = (case upsertDefault inp now rows of Inl _ \<Rightarrow> rows | Inr rows' \<Rightarrow> rows')"

definition wf_rules :: "rule_row list \<Rightarrow> bool" where
  "wf_rules rows \<longleftrightarrow> distinct (map rr_id rows) \<and> distinct (map rule_key rows)"

section \<open>Lemmas\<close>

text \<open>A change of a row that keeps its id and key.\<close>

definition keeps_identity :: "(rule_row \<Rightarrow> rule_row) \<Rightarrow> bool" where
  "keeps_identity f \<longleftrightarrow> (\<forall>r. rr_id (f r) = rr_id r \<and> rule_key (f r) = rule_key r)"

lemma wf_rules_map:
  assumes "wf_rules rows" "keeps_identity f"
  shows "wf_rules (map (\<lambda>r. if P r then f r else r) rows)"
proof -
  have "map rr_id (map (\<lambda>r. if P r then f r else r) rows) = map rr_id rows"
    "map rule_key (map (\<lambda>r. if P r then f r else r) rows) = map rule_key rows"
    using assms(2) by (simp_all add: keeps_identity_def)
  then show ?thesis using assms(1) by (simp only: wf_rules_def)
qed

lemma wf_rules_upsert:
  assumes "wf_rules rows" "keeps_identity f" "upsert f g new rows = Inr rows'"
  shows "wf_rules rows'"
proof (cases "list_ex (\<lambda>r. rule_key r = rule_key new) rows")
  case True
  then show ?thesis using assms(3) wf_rules_map [OF assms(1,2)] by (auto simp: upsert_def)
next
  case False
  then have "rows' = rows @ [new]" "rr_id new \<notin> set (map rr_id rows)" "rule_key new \<notin> set (map rule_key rows)"
    using assms(3) by (auto simp: upsert_def list_ex_iff split: if_splits)
  then show ?thesis using assms(1) by (simp add: wf_rules_def)
qed

lemma create_upsert:
  assumes "create inp i now rows = Inr (r, rows')"
  obtains f g new where "keeps_identity f" "upsert f g new rows = Inr rows'"
  using assms
  by (auto simp: create_def split: sum.splits option.splits if_splits elim!: that [rotated])
     (simp add: keeps_identity_def rule_key_def)

lemma upsertDefault_upsert:
  assumes "upsertDefault inp now rows = Inr rows'"
  obtains f g new where "keeps_identity f" "upsert f g new rows = Inr rows'"
  using assms unfolding upsertDefault_def
  by (rule that [rotated]) (simp add: keeps_identity_def rule_key_def)

lemma toTrustRule_simps [simp]:
  "rl_tool (toTrustRule r) = rr_tool r" "rl_pattern (toTrustRule r) = rr_pattern r"
  "rl_scope (toTrustRule r) = rr_scope r" "rl_origin (toTrustRule r) = rr_origin r"
  by (simp_all add: toTrustRule_def)

lemma opt_set_simps [simp]:
  "rr_id (opt_set (\<lambda>v. rr_risk_update (\<lambda>_. v)) a r) = rr_id r"
  "rule_key (opt_set (\<lambda>v. rr_risk_update (\<lambda>_. v)) a r) = rule_key r"
  "rr_id (opt_set (\<lambda>v. rr_description_update (\<lambda>_. v)) a r) = rr_id r"
  "rule_key (opt_set (\<lambda>v. rr_description_update (\<lambda>_. v)) a r) = rule_key r"
  by (auto simp: opt_set_def rule_key_def split: option.splits)

lemma wf_rules_set_row: "wf_rules rows \<Longrightarrow> keeps_identity f \<Longrightarrow> wf_rules (set_row i f rows)"
  by (simp add: set_row_def wf_rules_map)

lemma key_updates [simp]:
  "rule_key (r\<lparr>rr_updatedAt := x\<rparr>) = rule_key r" "rule_key (r\<lparr>rr_userModified := b\<rparr>) = rule_key r"
  "rule_key (r\<lparr>rr_deleted := b\<rparr>) = rule_key r" "rule_key (r\<lparr>rr_risk := x\<rparr>) = rule_key r"
  by (simp_all add: rule_key_def)

lemma find_only_match:
  "\<forall>x \<in> set xs. \<forall>y \<in> set xs. P x \<longrightarrow> P y \<longrightarrow> x = y \<Longrightarrow> find P xs = Some r \<longleftrightarrow> r \<in> set xs \<and> P r"
  by (induction xs) auto

lemma exec_rule_wf: "wf_rules rows \<Longrightarrow> wf_rules (exec_rule rows e)"
proof (cases e)
  case (OpCreate inp i now)
  assume "wf_rules rows"
  then show ?thesis
    using OpCreate wf_rules_upsert by (auto split: sum.splits elim!: create_upsert)
next
  case (OpUpdate i r d now)
  assume "wf_rules rows"
  then show ?thesis
    using OpUpdate by (auto simp: update_rule_def Let_def keeps_identity_def
        split: option.splits if_splits intro!: wf_rules_set_row)
next
  case (OpRemove i now)
  assume "wf_rules rows"
  then show ?thesis
    using OpRemove wf_rules_set_row [of rows "\<lambda>r. r\<lparr>rr_deleted := True, rr_updatedAt := now\<rparr>"]
    by (auto simp: remove_rule_def keeps_identity_def split: option.splits if_splits)
       (auto simp: wf_rules_def intro: distinct_map_filter)
next
  case (OpReset i r d now)
  assume "wf_rules rows"
  then show ?thesis
    using OpReset by (auto simp: reset_rule_def Let_def keeps_identity_def
        split: option.splits if_splits intro!: wf_rules_set_row)
next
  case (OpUpsertDefault inp now)
  assume "wf_rules rows"
  then show ?thesis
    using OpUpsertDefault wf_rules_upsert by (auto split: sum.splits elim!: upsertDefault_upsert)
qed

interpretation rule_table: invariant_machine exec_rule wf_rules
  by unfold_locales (rule exec_rule_wf)

text \<open>The nested map of the cache is a map on pairs of tool and pattern.\<close>

lemma cache_get_add:
  "cache_get (cache_add m r) t p = (if t = rl_tool r \<and> p = rl_pattern r then Some r else cache_get m t p)"
  by (auto simp: cache_get_def cache_add_def split: option.splits)

lemma cache_get_foldl:
  "cache_get (foldl cache_add m rs) t p =
     (case find (\<lambda>r. rl_tool r = t \<and> rl_pattern r = p) (rev rs) of None \<Rightarrow> cache_get m t p | Some r \<Rightarrow> Some r)"
  by (induction rs rule: rev_induct) (auto simp: cache_get_add)

lemma cache_get_refresh_wf:
  assumes "wf_rules rows"
  shows "cache_get (refresh rows) t p = Some r \<longleftrightarrow>
         (\<exists>row \<in> set rows. rule_key row = (t, p) \<and> \<not> rr_deleted row \<and> r = toTrustRule row)"
proof -
  have inj: "row = row'" if "row \<in> set rows" "row' \<in> set rows" "rule_key row = rule_key row'" for row row'
    using that assms by (auto simp: wf_rules_def distinct_map inj_on_def)
  let ?P = "\<lambda>r. rl_tool r = t \<and> rl_pattern r = p"
  have g: "cache_get (refresh rows) t p = find ?P (rev (listActive None rows))"
    by (auto simp: refresh_def cache_get_foldl split: option.splits) (simp add: cache_get_def)
  have m: "x \<in> set (listActive None rows) \<and> ?P x \<longleftrightarrow>
      (\<exists>row \<in> set rows. rule_key row = (t, p) \<and> \<not> rr_deleted row \<and> x = toTrustRule row)" for x
    by (auto simp: listActive_def rule_key_def)
  have u: "x = y" if "x \<in> set (listActive None rows)" "?P x" "y \<in> set (listActive None rows)" "?P y" for x y
    using that m [of x] m [of y] inj by fastforce
  have "find ?P (rev (listActive None rows)) = Some r \<longleftrightarrow> r \<in> set (listActive None rows) \<and> ?P r"
    using u find_only_match [of "rev (listActive None rows)" ?P r] by simp
  then show ?thesis using g m by simp
qed

lemma upsertDefault_protects:
  assumes "upsertDefault inp now rows = Inr rows'" "row \<in> set rows"
    and "rr_origin row = OriginUser \<or> rr_userModified row \<or> rr_deleted row"
  shows "row \<in> set rows'"
  using assms by (force simp: upsertDefault_def upsert_def split: if_splits)

lemma upsert_all_protects:
  assumes "row \<in> set rows"
    and "rr_origin row = OriginUser \<or> rr_userModified row \<or> rr_deleted row"
  shows "row \<in> set (fst (upsert_all es now rows))"
  using assms
  by (induction es now rows rule: upsert_all.induct) (auto split: sum.splits dest: upsertDefault_protects)

lemma upsert_keys:
  assumes "upsert f g new rows = Inr rows'" "keeps_identity f"
  shows "set (map rule_key rows') = insert (rule_key new) (set (map rule_key rows))"
proof (cases "list_ex (\<lambda>r. rule_key r = rule_key new) rows")
  case True
  have "map rule_key (map (\<lambda>r. if P r then f r else r) rows) = map rule_key rows" for P
    using assms(2) by (simp add: keeps_identity_def)
  moreover have "rule_key new \<in> set (map rule_key rows)" using True by (auto simp: list_ex_iff intro: rev_image_eqI)
  ultimately show ?thesis using assms(1) True by (auto simp only: upsert_def if_True sum.inject)
next
  case False
  then show ?thesis using assms(1) by (simp add: upsert_def split: if_splits) auto
qed

lemma upsertDefault_keys:
  assumes "upsertDefault inp now rows = Inr rows'"
  shows "set (map rule_key rows') = insert (di_tool inp, di_pattern inp) (set (map rule_key rows))"
  using upsert_keys [OF assms [unfolded upsertDefault_def]] by (simp add: keeps_identity_def rule_key_def)

lemma upsert_all_keys:
  assumes "upsert_all es now rows = (rows', None)"
  shows "set (map rule_key rows') = set (map (\<lambda>e. (di_tool e, di_pattern e)) es) \<union> set (map rule_key rows)"
  using assms
proof (induction es now rows rule: upsert_all.induct)
  case (2 e es now rows)
  then obtain mid where "upsertDefault e now rows = Inr mid" "upsert_all es now mid = (rows', None)"
    by (auto split: sum.splits)
  with 2 show ?case using upsertDefault_keys [of e now rows mid] by auto
qed simp

text \<open>The only error: the id of a new row is the id of a row with another pattern.\<close>

lemma upsert_all_error:
  assumes "upsert_all es now rows = (rows', Some err)"
  shows "err = UniqueViolation \<and>
    (\<exists>e \<in> set es. \<exists>r \<in> set rows'. rr_id r = di_id e \<and> rule_key r \<noteq> (di_tool e, di_pattern e))"
  using assms
proof (induction es now rows rule: upsert_all.induct)
  case (2 e es now rows)
  show ?case
  proof (cases "upsertDefault e now rows")
    case (Inl x)
    then have "x = UniqueViolation" "\<exists>r \<in> set rows. rr_id r = di_id e \<and> rule_key r \<noteq> (di_tool e, di_pattern e)"
      by (auto simp: upsertDefault_def upsert_def list_ex_iff rule_key_def split: if_splits)
    then show ?thesis using 2(2) Inl by auto
  next
    case (Inr mid)
    then show ?thesis using 2 by auto
  qed
qed simp

text \<open>The rows a lookup may use, and what a scoped lookup of the cache finds among them.\<close>

definition live_rule :: "rule_row list \<Rightarrow> string \<Rightarrow> string option \<Rightarrow> string \<Rightarrow> rule_row \<Rightarrow> bool" where
  "live_rule rows t cwd q row \<longleftrightarrow>
     row \<in> set rows \<and> \<not> rr_deleted row \<and> rule_key row = (t, q) \<and> isScopeMatch (rr_scope row) cwd"

lemma in_scope_live:
  assumes "wf_rules rows"
  shows "in_scope cwd (cache_get (refresh rows) t q) = Some x \<longleftrightarrow> (\<exists>row. x = toTrustRule row \<and> live_rule rows t cwd q row)"
proof (cases "cache_get (refresh rows) t q")
  case None
  then show ?thesis using cache_get_refresh_wf [OF assms, of t q] by (auto simp: in_scope_def live_rule_def)
next
  case (Some a)
  note g = cache_get_refresh_wf [OF assms, of t q]
  obtain row where row: "row \<in> set rows" "rule_key row = (t, q)" "\<not> rr_deleted row" "a = toTrustRule row"
    using g [of a] Some by auto
  have eq: "toTrustRule row' = a" if "live_rule rows t cwd q row'" for row'
    using g [of "toTrustRule row'"] Some that by (auto simp: live_rule_def)
  have sc: "rl_scope a = rr_scope row" using row(4) by simp
  show ?thesis
  proof (cases "isScopeMatch (rl_scope a) cwd")
    case True
    then have l: "live_rule rows t cwd q row" using row(1-3) by (simp add: sc live_rule_def)
    have "in_scope cwd (cache_get (refresh rows) t q) = Some a" by (simp add: in_scope_def Some True)
    then show ?thesis using l row(4) eq by (metis option.inject)
  next
    case False
    then have "\<not> live_rule rows t cwd q row'" for row'
      using eq [of row'] by (metis toTrustRule_simps(3) live_rule_def)
    moreover have "in_scope cwd (cache_get (refresh rows) t q) = None" by (simp add: in_scope_def Some False)
    ultimately show ?thesis by simp
  qed
qed

lemma findToolOverride_cases:
  "findToolOverride m t p cwd =
     (case in_scope cwd (cache_get m t p) of
        Some x \<Rightarrow> Some x | None \<Rightarrow> in_scope cwd (cache_get m t (t @ '':'' @ p)))"
  by (simp add: findToolOverride_def cache_get_def in_scope_def split: option.splits)

lemma reachable_rules_wf: "wf_rules (foldl exec_rule [] ops)"
  by (rule rule_table.inv_run) (simp add: wf_rules_def)

lemma collectEntries_bash:
  "e \<in> set (collectEntries p s) \<Longrightarrow> di_tool e = ''bash'' \<and> di_id e = makeId (di_pattern e)"
  "e \<in> set (collectSubcommands p ss) \<Longrightarrow> di_tool e = ''bash'' \<and> di_id e = makeId (di_pattern e)"
  by (induction p s and p ss rule: collectEntries_collectSubcommands.induct) auto

section \<open>Properties\<close>

text \<open>The override the classifiers ask for is the rule the user sees: after any history of the
  table, \<open>findToolOverride\<close> on the refreshed cache returns exactly the active row of the tool,
  in scope of the working directory, whose pattern is the selector itself, or the selector
  with the tool's name before it when no such row is in scope.\<close>

theorem override_is_active_rule:
  "let rows = foldl exec_rule [] ops; live = live_rule rows t cwd
   in findToolOverride (refresh rows) t p cwd = Some r \<longleftrightarrow>
        (\<exists>row. r = toTrustRule row \<and> (live p row \<or> live (t @ '':'' @ p) row \<and> (\<nexists>row'. live p row')))"
proof -
  note look = in_scope_live [OF reachable_rules_wf [of ops], of cwd t]
  show ?thesis
    unfolding Let_def findToolOverride_cases using look [of p] look [of "t @ '':'' @ p" r]
    by (cases "in_scope cwd (cache_get (refresh (foldl exec_rule [] ops)) t p)") auto
qed

text \<open>C26: Seeding respects the user: whatever the registry holds, and whether seeding succeeds or
  throws, a rule the user created, changed or deleted is the same row after seeding as before. When
  it succeeds every command and subcommand of the registry has a row afterwards. It throws only a
  violation of a unique constraint, and only when the id it derives for some command of the registry
  is the id of a row of another pattern (a space and a hyphen give the same id).\<close>

theorem seeding_keeps_user_choices:
  assumes "row \<in> set rows" "rr_origin row = OriginUser \<or> rr_userModified row \<or> rr_deleted row"
  shows "let (rows', result) = seedTrustRulesFromRegistry registry now rows;
             entries = concat (map (\<lambda>(command, spec). collectEntries command spec) registry)
         in row \<in> set rows' \<and>
            (case result of
               Inr n \<Rightarrow> n = length entries \<and> (\<forall>e \<in> set entries. (''bash'', di_pattern e) \<in> set (map rule_key rows'))
             | Inl err \<Rightarrow> err = UniqueViolation \<and>
                 (\<exists>e \<in> set entries. \<exists>r \<in> set rows'. rr_id r = makeId (di_pattern e) \<and> rule_key r \<noteq> (''bash'', di_pattern e)))"
proof -
  let ?es = "concat (map (\<lambda>(command, spec). collectEntries command spec) registry)"
  obtain rows' err where u: "upsert_all ?es now rows = (rows', err)" by fastforce
  have bash: "di_tool e = ''bash'' \<and> di_id e = makeId (di_pattern e)" if "e \<in> set ?es" for e
    using that collectEntries_bash(1) by fastforce
  have "row \<in> set rows'" using upsert_all_protects [OF assms, of ?es now] u by simp
  moreover have "\<forall>e \<in> set ?es. (''bash'', di_pattern e) \<in> set (map rule_key rows')" if "err = None"
    using upsert_all_keys [of ?es now rows rows'] u that bash by force
  moreover have "x = UniqueViolation \<and>
      (\<exists>e \<in> set ?es. \<exists>r \<in> set rows'. rr_id r = makeId (di_pattern e) \<and> rule_key r \<noteq> (''bash'', di_pattern e))"
    if "err = Some x" for x
    using upsert_all_error [of ?es now rows rows' x] u that bash by metis
  ultimately show ?thesis
    unfolding seedTrustRulesFromRegistry_def Let_def u by (simp split: option.split)
qed

theorem seeding_keeps_user_choices_witness:
  "let row = \<lparr>rr_id = ''u1'', rr_tool = ''bash'', rr_pattern = ''git'', rr_risk = ''low'', rr_description = ''mine'',
              rr_origin = OriginUser, rr_userModified = False, rr_deleted = False, rr_scope = None,
              rr_createdAt = ''t0'', rr_updatedAt = ''t0''\<rparr>;
       registry = [(''git'', CommandSpec ''medium'' None [(''push'', CommandSpec ''high'' None [])])];
       (rows', result) = seedTrustRulesFromRegistry registry ''t1'' [row]
   in result = Inr 2 \<and> row \<in> set rows' \<and> (''bash'', ''git push'') \<in> set (map rule_key rows')"
proof -
  let ?row = "\<lparr>rr_id = ''u1'', rr_tool = ''bash'', rr_pattern = ''git'', rr_risk = ''low'', rr_description = ''mine'',
              rr_origin = OriginUser, rr_userModified = False, rr_deleted = False, rr_scope = None,
              rr_createdAt = ''t0'', rr_updatedAt = ''t0''\<rparr>"
  let ?reg = "[(''git'', CommandSpec ''medium'' None [(''push'', CommandSpec ''high'' None [])])]"
  obtain rows' result where s: "seedTrustRulesFromRegistry ?reg ''t1'' [?row] = (rows', result)" by fastforce
  have r: "snd (seedTrustRulesFromRegistry ?reg ''t1'' [?row]) = Inr 2" by code_simp
  have e: "map di_pattern (concat (map (\<lambda>(command, spec). collectEntries command spec) ?reg)) = [''git'', ''git push'']"
    by code_simp
  have "?row \<in> set rows' \<and>
      (\<forall>p \<in> set (map di_pattern (concat (map (\<lambda>(command, spec). collectEntries command spec) ?reg))).
         (''bash'', p) \<in> set (map rule_key rows'))"
    using seeding_keeps_user_choices [of ?row "[?row]" ?reg "''t1''"] r s by (simp add: Let_def)
  then show ?thesis
    unfolding Let_def e using s r by simp
qed

text \<open>Two commands of a registry that differ in a space and a hyphen share an id: seeding throws at the
  second one, which gets no row.\<close>

lemma seeding_id_collision:
  "let (rows', result) = seedTrustRulesFromRegistry
         [(''git'', CommandSpec ''medium'' None [(''push'', CommandSpec ''high'' None [])]),
          (''git-push'', CommandSpec ''high'' None [])] ''t1'' []
   in result = Inl UniqueViolation \<and> map rr_pattern rows' = [''git'', ''git push'']"
  by code_simp

text \<open>One row per tool and pattern: a rule for another directory replaces the first one's
  scope, and two registry commands that differ in a space and a hyphen would share an id.\<close>

theorem second_scope_replaces_first:
  "let inp = (\<lambda>d. \<lparr>ci_tool = ''bash'', ci_pattern = ''rm'', ci_risk = ''low'', ci_description = ''d'', ci_scope = Some d\<rparr>);
       rows = foldl exec_rule [] [OpCreate (inp ''/a/*'') ''1'' ''t'', OpCreate (inp ''/b/*'') ''2'' ''t'']
   in map rr_scope rows = [Some ''/b/*''] \<and> findToolOverride (refresh rows) ''bash'' ''rm'' (Some ''/a'') = None"
  by code_simp

end
