(* ===== verification/File_Risk.thy ===== *)
theory File_Risk
  imports Workspace_Policy Trust_Rules
begin

text \<open>
  Risk classification of the file tools: the gateway's classifier
  (\<^verbatim>\<open>gateway/src/risk/file-risk-classifier.ts\<close>) with its option ladder, and the daemon's side,
  which resolves the paths and directories it sends (\<^verbatim>\<open>assistant/src/permissions/checker.ts\<close>).
  The working directory and the home directory of the gateway process, and its rule cache
  (absent before initialisation), are the environment.
\<close>

section \<open>Vocabulary\<close>

datatype file_tool =
    FileRead | FileWrite | FileEdit | HostFileRead | HostFileWrite | HostFileEdit | HostFileTransfer

fun tool_name :: "file_tool \<Rightarrow> string" where
  "tool_name FileRead = ''file_read''"
| "tool_name FileWrite = ''file_write''"
| "tool_name FileEdit = ''file_edit''"
| "tool_name HostFileRead = ''host_file_read''"
| "tool_name HostFileWrite = ''host_file_write''"
| "tool_name HostFileEdit = ''host_file_edit''"
| "tool_name HostFileTransfer = ''host_file_transfer''"

record file_context =
  protectedDir :: string
  deprecatedDir :: string
  hooksDir :: string
  pluginsDir :: string
  toolsDir :: string
  routesDir :: string
  workflowsDir :: string
  monitoringDir :: string
  skillSourceDirs :: "string list"

record file_input =
  fi_tool :: file_tool
  filePath :: string
  workingDir :: string
  resolvedPath :: "string option"
  resolvedWorkingDir :: "string option"
  fi_containerized :: "bool option"
  transferSandboxDestPath :: "string option"
  transferSandboxWorkingDir :: "string option"
  resolvedTransferDestPath :: "string option"

record risk_env =
  gw_cwd :: string
  gw_home :: string
  ruleCache :: "rule_cache option"

section \<open>Path tests\<close>

definition normalizeDirPath :: "string \<Rightarrow> string" where
  "normalizeDirPath dirPath = (if ends_with dirPath ''/'' then dirPath else dirPath @ ''/'')"

definition resolveSandboxPath :: "risk_env \<Rightarrow> string \<Rightarrow> string \<Rightarrow> string" where
  "resolveSandboxPath G rawPath wd = path_resolve (gw_cwd G) [wd, remap_workspace rawPath wd]"

definition isPathWithinRoot :: "risk_env \<Rightarrow> string \<Rightarrow> string \<Rightarrow> bool" where
  "isPathWithinRoot G path root =
     (if path = [] \<or> root = [] then False
      else (let normalizedRoot = (if ends_with root ''/'' then root else root @ ''/'');
                normalizedPath = path_resolve (gw_cwd G) [path]
            in normalizedPath = (if ends_with root ''/'' then butlast root else root) \<or>
               starts_with normalizedPath normalizedRoot))"

definition truthy :: "string option \<Rightarrow> bool" where
  "truthy v \<longleftrightarrow> v \<noteq> None \<and> v \<noteq> Some []"

definition isOutsideSandboxBoundary :: "risk_env \<Rightarrow> file_input \<Rightarrow> bool" where
  "isOutsideSandboxBoundary G inp =
     (if fi_containerized inp = Some True \<or> filePath inp = [] then False
      else if truthy (resolvedPath inp) \<and> truthy (resolvedWorkingDir inp)
      then \<not> isPathWithinRoot G (the (resolvedPath inp)) (the (resolvedWorkingDir inp))
      else \<not> isPathWithinRoot G (resolveSandboxPath G (filePath inp) (workingDir inp)) (workingDir inp))"

definition isActorTokenSigningKeyPath :: "risk_env \<Rightarrow> string \<Rightarrow> string \<Rightarrow> file_context \<Rightarrow> bool" where
  "isActorTokenSigningKeyPath G path wd ctx \<longleftrightarrow>
     path \<in> set [path_join [gw_home G, ''.vellum'', ''protected'', ''actor-token-signing-key''],
                 path_join [protectedDir ctx, ''actor-token-signing-key''],
                 path_join [deprecatedDir ctx, ''actor-token-signing-key''],
                 path_resolve (gw_cwd G) [wd, ''deprecated'', ''actor-token-signing-key'']]"

text \<open>The body the six directory tests share: the directory itself or a path below it.\<close>

definition in_dir :: "string \<Rightarrow> string \<Rightarrow> bool" where
  "in_dir path dir =
     (let normalizedDir = normalizeDirPath dir
      in path = butlast normalizedDir \<or> starts_with path normalizedDir)"

definition isHooksPath :: "string \<Rightarrow> file_context \<Rightarrow> bool" where
  "isHooksPath path ctx = in_dir path (hooksDir ctx)"

definition isPluginsPath :: "string \<Rightarrow> file_context \<Rightarrow> bool" where
  "isPluginsPath path ctx = in_dir path (pluginsDir ctx)"

definition isToolsPath :: "string \<Rightarrow> file_context \<Rightarrow> bool" where
  "isToolsPath path ctx = in_dir path (toolsDir ctx)"

definition isRoutesPath :: "string \<Rightarrow> file_context \<Rightarrow> bool" where
  "isRoutesPath path ctx = in_dir path (routesDir ctx)"

definition isWorkflowsPath :: "string \<Rightarrow> file_context \<Rightarrow> bool" where
  "isWorkflowsPath path ctx = in_dir path (workflowsDir ctx)"

definition isMonitoringPath :: "string \<Rightarrow> file_context \<Rightarrow> bool" where
  "isMonitoringPath path ctx = in_dir path (monitoringDir ctx)"

definition isSkillSourcePath :: "string \<Rightarrow> file_context \<Rightarrow> bool" where
  "isSkillSourcePath path ctx = list_ex (\<lambda>dir. starts_with path (normalizeDirPath dir)) (skillSourceDirs ctx)"

section \<open>The option ladder\<close>

fun FILE_TOOL_DISPLAY_NAMES :: "file_tool \<Rightarrow> string" where
  "FILE_TOOL_DISPLAY_NAMES FileRead = ''file reads''"
| "FILE_TOOL_DISPLAY_NAMES FileWrite = ''file writes''"
| "FILE_TOOL_DISPLAY_NAMES FileEdit = ''file edits''"
| "FILE_TOOL_DISPLAY_NAMES HostFileRead = ''host file reads''"
| "FILE_TOOL_DISPLAY_NAMES HostFileWrite = ''host file writes''"
| "FILE_TOOL_DISPLAY_NAMES HostFileEdit = ''host file edits''"
| "FILE_TOOL_DISPLAY_NAMES HostFileTransfer = ''host file transfers''"

definition friendlyBasename :: "string \<Rightarrow> string" where
  "friendlyBasename path = (let l = last (split_on slash path) in if l \<noteq> [] then l else path)"

text \<open>The loop over ancestor directories; the number left counts the levels still allowed.\<close>

fun ancestor_options :: "string \<Rightarrow> string \<Rightarrow> nat \<Rightarrow> string \<Rightarrow> allowlist_option list" where
  "ancestor_options tool home 0 dir = []"
| "ancestor_options tool home (Suc left) dir =
     (if dir = [] \<or> dir = ''/'' \<or> dir = ''.'' then []
      else \<lparr>al_label = dir @ ''/**'', al_description = ''Anything in '' @ friendlyBasename dir @ ''/'',
            al_pattern = tool @ '':'' @ dir @ ''/**''\<rparr> #
           (if dir = home \<or> dirname dir = dir then [] else ancestor_options tool home left (dirname dir)))"

definition buildFileAllowlistOptions :: "risk_env \<Rightarrow> file_tool \<Rightarrow> string \<Rightarrow> allowlist_option list" where
  "buildFileAllowlistOptions G tool path =
     \<lparr>al_label = path, al_description = ''This file only'', al_pattern = tool_name tool @ '':'' @ path\<rparr> #
     ancestor_options (tool_name tool) (gw_home G) 3 (dirname path) @
     [\<lparr>al_label = tool_name tool @ '':*'', al_description = ''All '' @ FILE_TOOL_DISPLAY_NAMES tool,
       al_pattern = tool_name tool @ '':*''\<rparr>]"

section \<open>Classification\<close>

definition assess :: "risk_level \<Rightarrow> string \<Rightarrow> allowlist_option list \<Rightarrow> risk_assessment" where
  "assess level why opts =
     \<lparr>ra_riskLevel = Classified level, ra_reason = why, scopeOptions = JArr [], matchType = ''registry'',
      allowlistOptions = Some (JArr (map option_json opts)), directoryScopeOptions = None\<rparr>"

definition classifyCodeInjectionSink ::
    "string \<Rightarrow> file_context \<Rightarrow> string \<Rightarrow> allowlist_option list \<Rightarrow> risk_assessment option" where
  "classifyCodeInjectionSink path ctx verb opts =
     (let high = (\<lambda>target. Some (assess HighRisk (verb @ '' to '' @ target) opts))
      in if isSkillSourcePath path ctx then high ''skill source code''
         else if isHooksPath path ctx then high ''hooks directory''
         else if isPluginsPath path ctx then high ''plugins directory''
         else if isToolsPath path ctx then high ''tools directory''
         else if isRoutesPath path ctx then high ''routes directory''
         else if isWorkflowsPath path ctx then high ''workflows directory''
         else if isMonitoringPath path ctx then high ''monitoring directory''
         else None)"

definition classifyCodeInjectionSinkEither ::
    "string \<Rightarrow> string \<Rightarrow> file_context \<Rightarrow> string \<Rightarrow> allowlist_option list \<Rightarrow> risk_assessment option" where
  "classifyCodeInjectionSinkEither lexicalPath realPath ctx verb opts =
     (case classifyCodeInjectionSink lexicalPath ctx verb opts of
        Some sink \<Rightarrow> Some sink
      | None \<Rightarrow> if realPath = lexicalPath then None else classifyCodeInjectionSink realPath ctx verb opts)"

definition or_else :: "string option \<Rightarrow> string \<Rightarrow> string" where
  "or_else v d = (case v of None \<Rightarrow> d | Some s \<Rightarrow> s)"

definition classify_read ::
    "risk_env \<Rightarrow> file_input \<Rightarrow> file_context \<Rightarrow> allowlist_option list \<Rightarrow> risk_assessment" where
  "classify_read G inp ctx opts =
     (let lexicalPath = resolveSandboxPath G (filePath inp) (workingDir inp);
          realPath = or_else (resolvedPath inp) lexicalPath
      in if filePath inp \<noteq> [] \<and> (isActorTokenSigningKeyPath G lexicalPath (workingDir inp) ctx \<or>
                                  isActorTokenSigningKeyPath G realPath (workingDir inp) ctx)
         then assess HighRisk ''Reads actor token signing key'' opts
         else if filePath inp \<noteq> [] \<and> (isMonitoringPath lexicalPath ctx \<or> isMonitoringPath realPath ctx)
         then assess HighRisk ''Reads monitoring directory (snapshot data)'' opts
         else if isOutsideSandboxBoundary G inp then assess MediumRisk ''File read outside the workspace'' opts
         else assess LowRisk ''File read (default)'' opts)"

definition classify_write ::
    "risk_env \<Rightarrow> file_input \<Rightarrow> file_context \<Rightarrow> allowlist_option list \<Rightarrow> risk_assessment" where
  "classify_write G inp ctx opts =
     (let lexicalPath = resolveSandboxPath G (filePath inp) (workingDir inp);
          realPath = or_else (resolvedPath inp) lexicalPath;
          sink = (if filePath inp \<noteq> [] then classifyCodeInjectionSinkEither lexicalPath realPath ctx ''Writes'' opts
                  else None);
          verb = (if fi_tool inp = FileWrite then ''write'' else ''edit'')
      in (case sink of
            Some a \<Rightarrow> a
          | None \<Rightarrow> if isOutsideSandboxBoundary G inp
                    then assess MediumRisk (''File '' @ verb @ '' outside the workspace'') opts
                    else assess LowRisk (''File '' @ verb @ '' (default)'') opts))"

definition classify_host ::
    "risk_env \<Rightarrow> file_input \<Rightarrow> file_context \<Rightarrow> allowlist_option list \<Rightarrow> risk_assessment" where
  "classify_host G inp ctx opts =
     (let actionVerb = (if fi_tool inp = HostFileTransfer then ''Transfers'' else ''Writes'');
          destSink =
            (if truthy (transferSandboxDestPath inp)
             then (let lexicalDest = resolveSandboxPath G (the (transferSandboxDestPath inp))
                                       (or_else (transferSandboxWorkingDir inp) (gw_cwd G))
                   in classifyCodeInjectionSinkEither lexicalDest
                        (or_else (resolvedTransferDestPath inp) lexicalDest) ctx ''Transfers'' opts)
             else None);
          sink =
            (if filePath inp \<noteq> []
             then (let lexicalPath = path_resolve (gw_cwd G) [filePath inp]
                   in classifyCodeInjectionSinkEither lexicalPath (or_else (resolvedPath inp) lexicalPath)
                        ctx actionVerb opts)
             else None);
          defaultLabel = (if fi_tool inp = HostFileWrite then ''write''
                          else if fi_tool inp = HostFileEdit then ''edit'' else ''transfer'')
      in (case destSink of
            Some a \<Rightarrow> a
          | None \<Rightarrow> (case sink of
                      Some a \<Rightarrow> a
                    | None \<Rightarrow> assess MediumRisk (''Host file '' @ defaultLabel @ '' (default)'') opts)))"

definition classify_tool :: "risk_env \<Rightarrow> file_input \<Rightarrow> file_context \<Rightarrow> risk_assessment" where
  "classify_tool G inp ctx =
     (let opts = (if filePath inp \<noteq> [] then buildFileAllowlistOptions G (fi_tool inp) (filePath inp) else [])
      in (case fi_tool inp of
            FileRead \<Rightarrow> classify_read G inp ctx opts
          | FileWrite \<Rightarrow> classify_write G inp ctx opts
          | FileEdit \<Rightarrow> classify_write G inp ctx opts
          | HostFileRead \<Rightarrow> assess MediumRisk ''Host file read (default)'' opts
          | _ \<Rightarrow> classify_host G inp ctx opts))"

definition classify :: "risk_env \<Rightarrow> file_input \<Rightarrow> file_context \<Rightarrow> risk_assessment" where
  "classify G inp ctx =
     (let assessment = classify_tool G inp ctx
      in (case ruleCache G of
            None \<Rightarrow> assessment
          | Some cache \<Rightarrow>
              (case findToolOverride cache (tool_name (fi_tool inp)) (filePath inp) (Some (dirname (filePath inp))) of
                 None \<Rightarrow> assessment
               | Some r \<Rightarrow> if isUserRule (Some r)
                           then applyUserRuleOverride assessment (trust_rule.truncate r)
                           else assessment)))"

section \<open>The daemon's side\<close>

record daemon_env =
  d_ws :: workspace_env
  d_protectedDir :: string
  d_skillRoots :: "string list"

definition getDeprecatedDir :: "workspace_env \<Rightarrow> string" where
  "getDeprecatedDir W = path_join [workspaceDir W, ''deprecated'']"

definition buildFileContext :: "daemon_env \<Rightarrow> file_context" where
  "buildFileContext D =
     (let W = d_ws D; real = resolveRealPath (ws_host W)
      in \<lparr>protectedDir = real (d_protectedDir D), deprecatedDir = real (getDeprecatedDir W),
          hooksDir = real (getWorkspaceHooksDir W), pluginsDir = real (getWorkspacePluginsDir W),
          toolsDir = real (getWorkspaceToolsDir W), routesDir = real (getWorkspaceRoutesDir W),
          workflowsDir = real (getWorkspaceWorkflowsDir W), monitoringDir = real (getMonitoringDataDir W),
          skillSourceDirs = map real (d_skillRoots D)\<rparr>)"

definition resolveClassificationPath :: "host \<Rightarrow> string \<Rightarrow> string \<Rightarrow> bool \<Rightarrow> string option" where
  "resolveClassificationPath E path wd isHostTool =
     (if path = [] then None
      else Some (resolveRealPath E (if isHostTool then path_resolve (cwd E) [path] else resolveSandboxBase E path wd)))"

fun getStringField :: "tool_input \<Rightarrow> string list \<Rightarrow> string" where
  "getStringField inp [] = []"
| "getStringField inp (k # ks) = (case js_get inp k of Some (JStr s) \<Rightarrow> s | _ \<Rightarrow> getStringField inp ks)"

text \<open>The paths a file tool's invocation sends to the gateway, as the classifier receives them.\<close>

definition resolveFileToolPaths :: "daemon_env \<Rightarrow> file_tool \<Rightarrow> tool_input \<Rightarrow> string option \<Rightarrow> file_input" where
  "resolveFileToolPaths D tool inp wd =
     (let E = ws_host (d_ws D);
          isHostTool = starts_with (tool_name tool) ''host_'';
          to_sandbox = tool = HostFileTransfer \<and> getStringField inp [''direction''] = ''to_sandbox'';
          path = (if tool = HostFileTransfer
                  then (if to_sandbox then getStringField inp [''source_path''] else getStringField inp [''dest_path''])
                  else getStringField inp [''path'', ''file_path'']);
          dest = (if to_sandbox then Some (getStringField inp [''dest_path'']) else None);
          dest_wd = (if to_sandbox then Some (or_else wd (cwd E)) else None);
          effectiveWorkingDir = (if isHostTool then ''/'' else or_else wd (cwd E))
      in \<lparr>fi_tool = tool, filePath = path, workingDir = effectiveWorkingDir,
          resolvedPath = resolveClassificationPath E path effectiveWorkingDir isHostTool,
          resolvedWorkingDir = (if isHostTool then None else Some (resolveRealPath E effectiveWorkingDir)),
          fi_containerized = Some (ws_containerized (d_ws D)),
          transferSandboxDestPath = dest, transferSandboxWorkingDir = dest_wd,
          resolvedTransferDestPath =
            (case dest of None \<Rightarrow> None
             | Some p \<Rightarrow> resolveClassificationPath E p (or_else dest_wd (cwd E)) False)\<rparr>)"

section \<open>Lemmas\<close>

lemma normalizeDirPath_prefix: "normalizeDirPath d = dir_prefix d"
  by (simp add: normalizeDirPath_def dir_prefix_def)

lemma in_dir_under:
  assumes "proper xs" "proper ys"
  shows "in_dir (abs_path xs) (abs_path ys) \<longleftrightarrow> prefix ys xs"
proof (cases "ys = []")
  case True
  have "normalizeDirPath (abs_path []) = [slash]" by (simp add: normalizeDirPath_prefix dir_prefix_abs slashed_def)
  with True show ?thesis by (simp add: in_dir_def starts_with_def) (simp add: abs_path_def)
next
  case False
  have "butlast (normalizeDirPath (abs_path ys)) = abs_path ys"
    using False abs_path_ends [OF assms(2)] by (simp add: normalizeDirPath_def)
  then show ?thesis using under_iff [OF assms] by (simp add: in_dir_def Let_def normalizeDirPath_prefix)
qed

interpretation sink_test: containment in_dir
  by unfold_locales (rule in_dir_under)

lemma isPathWithinRoot_under:
  assumes "proper xs" "proper ys"
  shows "isPathWithinRoot G (abs_path xs) (abs_path ys) \<longleftrightarrow> prefix ys xs"
proof -
  have n: "normalizeDirPath d = (if ends_with d ''/'' then d else d @ ''/'')" for d by (simp add: normalizeDirPath_def)
  have b: "butlast (normalizeDirPath d) = (if ends_with d ''/'' then butlast d else d)" for d by (simp add: normalizeDirPath_def)
  show ?thesis
    using in_dir_under [OF assms] assms(1)
    by (simp add: isPathWithinRoot_def in_dir_def Let_def n [symmetric] b [symmetric])
qed

interpretation root_test: containment "isPathWithinRoot G" for G
  by unfold_locales (rule isPathWithinRoot_under)

text \<open>The sinks by their segments: the six directories with themselves, the skill roots without.\<close>

definition sink_hit :: "file_context \<Rightarrow> string \<Rightarrow> bool" where
  "sink_hit ctx p \<longleftrightarrow>
     (\<exists>d \<in> {hooksDir ctx, pluginsDir ctx, toolsDir ctx, routesDir ctx, workflowsDir ctx, monitoringDir ctx}.
        prefix (norm_segs d) (norm_segs p)) \<or>
     (\<exists>d \<in> set (skillSourceDirs ctx). prefix (norm_segs d) (norm_segs p) \<and> (p \<noteq> d \<or> d = ''/''))"

definition resolved_context :: "file_context \<Rightarrow> bool" where
  "resolved_context ctx \<longleftrightarrow>
     (\<forall>d \<in> {hooksDir ctx, pluginsDir ctx, toolsDir ctx, routesDir ctx, workflowsDir ctx, monitoringDir ctx}
           \<union> set (skillSourceDirs ctx). resolved d)"

lemma skill_test:
  assumes "resolved p" "resolved d"
  shows "starts_with p (normalizeDirPath d) \<longleftrightarrow> prefix (norm_segs d) (norm_segs p) \<and> (p \<noteq> d \<or> d = ''/'')"
proof -
  obtain xs ys where x: "proper xs" "p = abs_path xs" and y: "proper ys" "d = abs_path ys"
    using assms by (metis resolvedE)
  have "norm_segs [slash] = []" by (simp add: normalizeString_def)
  moreover have "\<not> starts_with (abs_path ys) (abs_path ys @ [slash])" by (simp add: starts_with_iff)
  ultimately show ?thesis
    using under_iff [OF x(1) y(1)] abs_path_root [OF y(1)] abs_path_ends [OF y(1)] x y
    by (cases "ys = []") (auto simp: normalizeDirPath_prefix dir_prefix_def starts_with_def)
qed

lemma sink_iff:
  assumes "resolved p" "resolved_context ctx"
  shows "classifyCodeInjectionSink p ctx verb opts \<noteq> None \<longleftrightarrow> sink_hit ctx p"
proof -
  have "isSkillSourcePath p ctx \<longleftrightarrow>
      (\<exists>d \<in> set (skillSourceDirs ctx). prefix (norm_segs d) (norm_segs p) \<and> (p \<noteq> d \<or> d = ''/''))"
    using skill_test [OF assms(1)] assms(2) by (auto simp: isSkillSourcePath_def list_ex_iff resolved_context_def)
  then show ?thesis
    using assms sink_test.within_segs
    by (auto simp: classifyCodeInjectionSink_def Let_def sink_hit_def resolved_context_def isHooksPath_def
        isPluginsPath_def isToolsPath_def isRoutesPath_def isWorkflowsPath_def isMonitoringPath_def)
qed

lemma sink_is_high: "classifyCodeInjectionSink p ctx verb opts = Some a \<Longrightarrow> ra_riskLevel a = Classified HighRisk"
  by (auto simp: classifyCodeInjectionSink_def Let_def assess_def split: if_splits)

lemma either_iff:
  assumes "resolved l" "resolved r" "resolved_context ctx"
  shows "classifyCodeInjectionSinkEither l r ctx verb opts \<noteq> None \<longleftrightarrow> sink_hit ctx l \<or> sink_hit ctx r"
  using sink_iff [OF assms(1,3), of verb opts] sink_iff [OF assms(2,3), of verb opts]
  by (auto simp: classifyCodeInjectionSinkEither_def split: option.splits)

lemma either_is_high:
  "classifyCodeInjectionSinkEither l r ctx verb opts = Some a \<Longrightarrow> ra_riskLevel a = Classified HighRisk"
  by (auto simp: classifyCodeInjectionSinkEither_def split: option.splits if_splits dest: sink_is_high)

lemma resolved_nonempty: "resolved p \<Longrightarrow> p \<noteq> []"
  by (auto simp: resolved_def abs_path_def)

lemma classify_write_level:
  fixes G :: risk_env
  assumes "filePath inp \<noteq> []" "resolvedPath inp = Some rp" "resolved rp" "resolvedWorkingDir inp = Some rw" "resolved rw"
    and "resolved_context ctx"
  defines "lexical \<equiv> resolveSandboxPath G (filePath inp) (workingDir inp)"
  shows "ra_riskLevel (classify_write G inp ctx opts) =
         Classified (if sink_hit ctx lexical \<or> sink_hit ctx rp then HighRisk
                     else if fi_containerized inp = Some True \<or> prefix (norm_segs rw) (norm_segs rp) then LowRisk
                     else MediumRisk)"
proof -
  have l: "resolved lexical" by (simp add: lexical_def resolveSandboxPath_def)
  let ?sink = "classifyCodeInjectionSinkEither lexical rp ctx ''Writes'' opts"
  have o: "isOutsideSandboxBoundary G inp \<longleftrightarrow>
      \<not> (fi_containerized inp = Some True \<or> prefix (norm_segs rw) (norm_segs rp))"
    using assms(1-5) resolved_nonempty root_test.within_segs
    by (auto simp: isOutsideSandboxBoundary_def truthy_def)
  have c: "classify_write G inp ctx opts =
      (case ?sink of Some a \<Rightarrow> a
       | None \<Rightarrow> if isOutsideSandboxBoundary G inp
                 then assess MediumRisk (''File '' @ (if fi_tool inp = FileWrite then ''write'' else ''edit'') @ '' outside the workspace'') opts
                 else assess LowRisk (''File '' @ (if fi_tool inp = FileWrite then ''write'' else ''edit'') @ '' (default)'') opts)"
    unfolding classify_write_def Let_def lexical_def using assms(1,2) by (simp only: or_else_def option.case if_True not_False_eq_True)
  show ?thesis
  proof (cases ?sink)
    case None
    then show ?thesis
      using either_iff [OF l assms(3,6), of "''Writes''" opts] o by (simp add: c) (simp add: assess_def)
  next
    case (Some a)
    then show ?thesis
      using either_iff [OF l assms(3,6), of "''Writes''" opts] either_is_high [OF Some] by (simp add: c)
  qed
qed

section \<open>Properties\<close>

text \<open>The risk of a sandbox write, exactly: high when the path as written or the path with its
  links resolved lies in a directory the daemon loads code from (or below a skill root),
  otherwise low inside the canonical working directory or in a container, and medium outside.\<close>

theorem write_risk_exact:
  assumes "fi_tool inp = FileWrite \<or> fi_tool inp = FileEdit" "filePath inp \<noteq> []"
    and "resolvedPath inp = Some rp" "resolved rp" "resolvedWorkingDir inp = Some rw" "resolved rw"
    and "resolved_context ctx"
  shows "ra_riskLevel (classify_tool G inp ctx) =
         Classified (if sink_hit ctx (resolveSandboxPath G (filePath inp) (workingDir inp)) \<or> sink_hit ctx rp then HighRisk
                     else if fi_containerized inp = Some True \<or> prefix (norm_segs rw) (norm_segs rp) then LowRisk
                     else MediumRisk)"
  using assms(1,2) classify_write_level [OF assms(2-7)] by (auto simp: classify_tool_def)

definition demo_context :: file_context where
  "demo_context = \<lparr>protectedDir = ''/p'', deprecatedDir = ''/ws/deprecated'', hooksDir = ''/ws/hooks'', pluginsDir = ''/ws/plugins'',
     toolsDir = ''/ws/tools'', routesDir = ''/ws/routes'', workflowsDir = ''/ws/workflows'',
     monitoringDir = ''/ws/data/monitoring'', skillSourceDirs = [''/ws/skills'']\<rparr>"

definition demo_input :: "string \<Rightarrow> string \<Rightarrow> file_input" where
  "demo_input path real = \<lparr>fi_tool = FileWrite, filePath = path, workingDir = ''/ws'', resolvedPath = Some real,
     resolvedWorkingDir = Some ''/ws'', fi_containerized = Some False, transferSandboxDestPath = None,
     transferSandboxWorkingDir = None, resolvedTransferDestPath = None\<rparr>"

definition demo_gateway :: risk_env where
  "demo_gateway = \<lparr>gw_cwd = ''/'', gw_home = ''/root'', ruleCache = None\<rparr>"

theorem write_risk_exact_witness:
  "ra_riskLevel (classify_tool demo_gateway (demo_input ''note.md'' ''/ws/tools/evil.ts'') demo_context) = Classified HighRisk \<and>
   ra_riskLevel (classify_tool demo_gateway (demo_input ''note.md'' ''/etc/note.md'') demo_context) = Classified MediumRisk \<and>
   ra_riskLevel (classify_tool demo_gateway (demo_input ''note.md'' ''/ws/note.md'') demo_context) = Classified LowRisk"
proof -
  have h: "fi_tool (demo_input ''note.md'' r) = FileWrite \<or> fi_tool (demo_input ''note.md'' r) = FileEdit"
    "filePath (demo_input ''note.md'' r) \<noteq> []" "resolvedPath (demo_input ''note.md'' r) = Some r"
    "resolvedWorkingDir (demo_input ''note.md'' r) = Some ''/ws''" for r
    by (simp_all add: demo_input_def)
  have c: "resolved ''/ws''" "resolved_context demo_context" "resolved ''/ws/tools/evil.ts''" "resolved ''/etc/note.md''" "resolved ''/ws/note.md''"
    by code_simp+
  have s: "sink_hit demo_context ''/ws/tools/evil.ts''" "\<not> sink_hit demo_context ''/etc/note.md''"
    "\<not> sink_hit demo_context ''/ws/note.md''"
    "resolveSandboxPath demo_gateway (filePath (demo_input ''note.md'' ''/x'')) (workingDir (demo_input ''note.md'' ''/x'')) = ''/ws/note.md''"
    by code_simp+
  have l: "resolveSandboxPath demo_gateway (filePath (demo_input ''note.md'' r)) (workingDir (demo_input ''note.md'' r)) = ''/ws/note.md''" for r
    using s(4) by (simp add: demo_input_def)
  have f: "fi_containerized (demo_input ''note.md'' r) \<noteq> Some True" for r by (simp add: demo_input_def)
  have b: "\<not> prefix (norm_segs ''/ws'') (norm_segs ''/etc/note.md'')" "prefix (norm_segs ''/ws'') (norm_segs ''/ws/note.md'')"
    by code_simp+
  note t = write_risk_exact [OF h(1,2,3) _ h(4) c(1,2)]
  show ?thesis using t [OF c(3), of demo_gateway] t [OF c(4), of demo_gateway] t [OF c(5), of demo_gateway] s b f by (simp add: l)
qed

text \<open>The six workspace directories the daemon names as sinks.\<close>

definition sink_getters :: "workspace_env \<Rightarrow> string set" where
  "sink_getters W = {getWorkspaceHooksDir W, getWorkspacePluginsDir W, getWorkspaceToolsDir W,
                     getWorkspaceRoutesDir W, getWorkspaceWorkflowsDir W, getMonitoringDataDir W}"

lemma high_when_real_in_dir:
  assumes "filePath inp \<noteq> []" "resolvedPath inp = Some rp" "in_dir rp dir"
    and "dir \<in> {hooksDir ctx, pluginsDir ctx, toolsDir ctx, routesDir ctx, workflowsDir ctx, monitoringDir ctx}"
  shows "ra_riskLevel (classify_write G inp ctx opts) = Classified HighRisk"
proof -
  let ?l = "resolveSandboxPath G (filePath inp) (workingDir inp)"
  have "classifyCodeInjectionSink rp ctx ''Writes'' opts \<noteq> None"
    using assms(3,4) by (auto simp: classifyCodeInjectionSink_def Let_def isHooksPath_def isPluginsPath_def
        isToolsPath_def isRoutesPath_def isWorkflowsPath_def isMonitoringPath_def)
  then have "classifyCodeInjectionSinkEither ?l rp ctx ''Writes'' opts \<noteq> None"
    by (auto simp: classifyCodeInjectionSinkEither_def split: option.splits)
  then obtain a where a: "classifyCodeInjectionSinkEither ?l rp ctx ''Writes'' opts = Some a" by blast
  then show ?thesis
    unfolding classify_write_def Let_def using assms(1,2) either_is_high [OF a] by (simp add: or_else_def)
qed

text \<open>C13: From the daemon to the verdict: when a file tool's write lands, by name or through links, at or below the real
  place of a workspace directory that is loaded as code, the paths and directories the daemon resolves and sends make
  the gateway's classifier rate it high. This is for every tool input that names a path, with the container remap, and
  whatever the gateway's own working directory is; in a file system whose links do not climb with double dots (through
  a climbing link the daemon resolves another place than the kernel opens), for a code directory that exists and whose
  path is absolute and normalised. It is the classifier's verdict, before a rule of the user overrides it.\<close>

theorem daemon_write_to_sink_is_high:
  assumes "wf_fs (files (ws_host (d_ws D)))" "plain_links (files (ws_host (d_ws D)))"
    and "tool = FileWrite \<or> tool = FileEdit"
    and "getStringField inp [''path'', ''file_path''] = path" "path \<noteq> []"
    and "destination (files (ws_host (d_ws D))) (resolveSandboxBase (ws_host (d_ws D)) path wd) = Some d"
    and "dir \<in> sink_getters (d_ws D)" "resolved dir"
    and "destination (files (ws_host (d_ws D))) dir = Some s" "map_of (files (ws_host (d_ws D))) s \<noteq> None"
    and "prefix s d"
  shows "ra_riskLevel (classify_tool G (resolveFileToolPaths D tool inp (Some wd)) (buildFileContext D)) = Classified HighRisk"
proof -
  let ?E = "ws_host (d_ws D)"
  let ?I = "resolveFileToolPaths D tool inp (Some wd)"
  let ?C = "buildFileContext D"
  have r: "resolved (resolveSandboxBase ?E path wd)" by (simp add: resolveSandboxBase_def)
  have s: "s \<noteq> []" "resolveRealPath ?E dir = abs_path s"
    using wf_fsD [OF assms(1)] assms(10) resolveRealPath_existing [OF assms(1,2,8,9,10)] by auto
  have "d \<noteq> []" "length d \<noteq> 1 \<or> map_of (files ?E) d \<noteq> None"
    using assms(10,11) s(1) by (auto simp: prefix_def) (cases s; cases "tl s"; auto)+
  then have real: "resolveRealPath ?E (resolveSandboxBase ?E path wd) = abs_path d"
    by (rule resolveRealPath_destination [OF assms(1,2) r assms(6)])
  have h: "\<not> starts_with (tool_name tool) ''host_''" "tool \<noteq> HostFileTransfer" "fi_tool ?I = tool"
    using assms(3) by (auto simp: starts_with_def resolveFileToolPaths_def Let_def)
  have i: "filePath ?I = path" "resolvedPath ?I = Some (abs_path d)"
    using h(1,2) assms(4,5) real
    by (simp_all add: resolveFileToolPaths_def resolveClassificationPath_def Let_def or_else_def)
  have "in_dir (abs_path d) (abs_path s)"
    using in_dir_under destination_proper [OF assms(1,2) r assms(6)] destination_proper [OF assms(1,2,8,9)] assms(11) by simp
  moreover have "abs_path s \<in> {hooksDir ?C, pluginsDir ?C, toolsDir ?C, routesDir ?C, workflowsDir ?C, monitoringDir ?C}"
    using assms(7) s(2) by (auto simp: sink_getters_def buildFileContext_def Let_def)
  ultimately have "ra_riskLevel (classify_write G ?I ?C opts) = Classified HighRisk" for opts
    using high_when_real_in_dir [of ?I "abs_path d" "abs_path s" ?C G opts] i assms(5) by simp
  then show ?thesis using assms(3) h(3) by (auto simp: classify_tool_def Let_def)
qed

definition demo_daemon :: daemon_env where
  "demo_daemon = \<lparr>d_ws = \<lparr>ws_host = demo_host, workspaceDir = ''/ws'', ws_containerized = True\<rparr>,
                   d_protectedDir = ''/p'', d_skillRoots = [''/ws/skills'']\<rparr>"

theorem daemon_write_to_sink_is_high_witness:
  "ra_riskLevel (classify_tool demo_gateway
     (resolveFileToolPaths demo_daemon FileWrite [(''path'', JStr ''/workspace/note'')] (Some ''/ws''))
     (buildFileContext demo_daemon)) = Classified HighRisk"
proof -
  have h: "wf_fs (files (ws_host (d_ws demo_daemon)))" "plain_links (files (ws_host (d_ws demo_daemon)))"
    "FileWrite = FileWrite \<or> FileWrite = FileEdit"
    "getStringField [(''path'', JStr ''/workspace/note'')] [''path'', ''file_path''] = ''/workspace/note''"
    "''/workspace/note'' \<noteq> []"
    "destination (files (ws_host (d_ws demo_daemon))) (resolveSandboxBase (ws_host (d_ws demo_daemon)) ''/workspace/note'' ''/ws'')
       = Some [''ws'', ''tools'', ''new.ts'']"
    "''/ws/tools'' \<in> sink_getters (d_ws demo_daemon)" "resolved ''/ws/tools''"
    "destination (files (ws_host (d_ws demo_daemon))) ''/ws/tools'' = Some [''ws'', ''tools'']"
    "map_of (files (ws_host (d_ws demo_daemon))) [''ws'', ''tools''] \<noteq> None"
    "prefix [''ws'', ''tools''] [''ws'', ''tools'', ''new.ts'']"
    by code_simp+
  show ?thesis by (rule daemon_write_to_sink_is_high [OF h])
qed

text \<open>A workspace reached through a linked directory: the sinks are sent with their links
  resolved, the path as written is not, so a file inside the tools directory that is itself
  a link elsewhere matches neither way and stays at low risk.\<close>

definition linked_daemon :: daemon_env where
  "linked_daemon = \<lparr>d_ws = \<lparr>ws_host = \<lparr>cwd = ''/'',
       files = [([''real''], Dir), ([''real'', ''ws''], Dir), ([''real'', ''ws'', ''tools''], Dir), ([''var''], Link ''/real''),
                ([''real'', ''ws'', ''tools'', ''t.ts''], Link ''/real/ws/notes.ts'')]\<rparr>,
     workspaceDir = ''/var/ws'', ws_containerized = True\<rparr>, d_protectedDir = ''/p'', d_skillRoots = []\<rparr>"

theorem linked_workspace_hides_sink:
  "ra_riskLevel (classify_tool demo_gateway
     (resolveFileToolPaths linked_daemon FileWrite [(''path'', JStr ''tools/t.ts'')] (Some ''/var/ws''))
     (buildFileContext linked_daemon)) = Classified LowRisk \<and>
   isControlPlaneWorkspaceWrite (d_ws linked_daemon) ''file_write'' [(''path'', JStr ''tools/t.ts'')] ''/var/ws''"
  by code_simp

text \<open>The rungs of the ladder above the first one end in a wildcard.\<close>

lemma wildcard_rungs:
  assumes "a \<in> set (tl (buildFileAllowlistOptions G tool path))"
  shows "last (al_pattern a) = CHR ''*'' \<and> al_pattern a \<noteq> []"
proof -
  have "last (al_pattern a) = CHR ''*'' \<and> al_pattern a \<noteq> []" if "a \<in> set (ancestor_options t h n dir)" for t h n dir
    using that by (induction t h n dir rule: ancestor_options.induct) (auto split: if_splits)
  then show ?thesis using assms by (auto simp: buildFileAllowlistOptions_def)
qed

text \<open>Only the first rung of the ladder is a rule that can apply: a rule saved from any other
  rung (a directory wildcard, or the whole tool) is never found for the file it was offered
  for, because rules are looked up by equality. The file's name must not itself end in a
  star.\<close>

theorem wildcard_rungs_never_apply:
  assumes "a \<in> set (tl (buildFileAllowlistOptions G tool path))" "path \<noteq> []" "last path \<noteq> CHR ''*''"
  shows "findToolOverride
           (refresh (foldl exec_rule []
              [OpCreate \<lparr>ci_tool = tool_name tool, ci_pattern = al_pattern a, ci_risk = ''low'',
                         ci_description = why, ci_scope = scope\<rparr> i now]))
           (tool_name tool) path (Some (dirname path)) = None"
proof -
  let ?inp = "\<lparr>ci_tool = tool_name tool, ci_pattern = al_pattern a, ci_risk = ''low'', ci_description = why, ci_scope = scope\<rparr>"
  let ?rows = "foldl exec_rule [] [OpCreate ?inp i now]"
  have pat: "row \<in> set ?rows \<Longrightarrow> rr_pattern row = al_pattern a" for row
    by (auto simp: create_def upsert_def assertValidRisk_def VALID_RISK_VALUES_def)
  have ne: "al_pattern a \<noteq> path" "al_pattern a \<noteq> tool_name tool @ '':'' @ path"
    using wildcard_rungs [OF assms(1)] assms(2,3) by auto
  have n: "\<not> live_rule ?rows t cwd q row" if "q = path \<or> q = tool_name tool @ '':'' @ path" for t cwd q row
    using that ne pat [of row] by (metis live_rule_def rule_key_def prod.inject)
  note look = in_scope_live [OF reachable_rules_wf [of "[OpCreate ?inp i now]"], of "Some (dirname path)" "tool_name tool"]
  have "in_scope (Some (dirname path)) (cache_get (refresh ?rows) (tool_name tool) q) = None"
    if "q = path \<or> q = tool_name tool @ '':'' @ path" for q
    using look [of q] n [OF that] by (metis option.exhaust)
  then show ?thesis unfolding findToolOverride_cases by simp
qed

theorem wildcard_rungs_never_apply_witness:
  "al_pattern (buildFileAllowlistOptions demo_gateway FileRead ''/ws/a.md'' ! 1) = ''file_read:/ws/**'' \<and>
   findToolOverride
     (refresh (foldl exec_rule []
        [OpCreate \<lparr>ci_tool = tool_name FileRead, ci_pattern = al_pattern (buildFileAllowlistOptions demo_gateway FileRead ''/ws/a.md'' ! 1),
                   ci_risk = ''low'', ci_description = ''d'', ci_scope = None\<rparr> ''1'' ''t'']))
     (tool_name FileRead) ''/ws/a.md'' (Some (dirname ''/ws/a.md'')) = None"
proof -
  have h: "buildFileAllowlistOptions demo_gateway FileRead ''/ws/a.md'' ! 1 \<in> set (tl (buildFileAllowlistOptions demo_gateway FileRead ''/ws/a.md''))"
    "''/ws/a.md'' \<noteq> []" "last ''/ws/a.md'' \<noteq> CHR ''*''"
    by code_simp+
  have "al_pattern (buildFileAllowlistOptions demo_gateway FileRead ''/ws/a.md'' ! 1) = ''file_read:/ws/**''" by code_simp
  then show ?thesis using wildcard_rungs_never_apply [OF h] by blast
qed

end
