(* ===== verification/Directory_Scope.thy ===== *)
theory Directory_Scope
  imports File_Risk
begin

text \<open>
  The directory-scope ladder offered with a filesystem invocation
  (\<^verbatim>\<open>gateway/src/risk/directory-scope.ts\<close>) and the search for a project boundary
  (\<^verbatim>\<open>gateway/src/risk/project-boundary.ts\<close>). The file system the two functions look at and the
  home directory are the environment. The last section ties the ladder to the scope test of
  the rule cache, which reads the scopes back.
\<close>

section \<open>Project boundary\<close>

record scope_env =
  sc_host :: host
  sc_home :: string

definition existsSync :: "host \<Rightarrow> string \<Rightarrow> bool" where
  "existsSync E p \<longleftrightarrow> realpathSync (files E) (if isAbsolute p then p else cwd E @ slash # p) \<noteq> None"

definition PROJECT_MARKERS :: "string list" where
  "PROJECT_MARKERS = [''.git'', ''package.json'', ''Cargo.toml'', ''go.mod'', ''pyproject.toml'', ''Makefile'']"

definition has_marker :: "host \<Rightarrow> string \<Rightarrow> bool" where
  "has_marker E current \<longleftrightarrow> list_ex (\<lambda>marker. existsSync E (current @ slash # marker)) PROJECT_MARKERS"

function boundary_loop :: "host \<Rightarrow> string option \<Rightarrow> string \<Rightarrow> string \<Rightarrow> string option" where
  "boundary_loop E stopAt current previous =
     (if current = previous then None
      else if has_marker E current then Some current
      else if stopAt \<noteq> None \<and> stopAt \<noteq> Some [] \<and> stopAt = Some current then None
      else boundary_loop E stopAt (dirname current) current)"
  by pat_completeness auto

termination
  by (relation "measure (\<lambda>(E, s, current, previous). if current = previous then 0 else Suc (climb_measure current))")
     (auto dest: climb_decreases)

declare boundary_loop.simps [simp del]

definition findProjectBoundary :: "host \<Rightarrow> string \<Rightarrow> string option \<Rightarrow> string option" where
  "findProjectBoundary E startDir stopAt = boundary_loop E stopAt startDir []"

section \<open>The ladder\<close>

definition pathIsExistingDirectory :: "host \<Rightarrow> string \<Rightarrow> bool" where
  "pathIsExistingDirectory E p =
     (case walk (files E) False link_limit [] (split_on slash (if isAbsolute p then p else cwd E @ slash # p)) of
        None \<Rightarrow> False
      | Some (_, d) \<Rightarrow> is_dir (files E) d)"

definition resolvePath :: "scope_env \<Rightarrow> string \<Rightarrow> string \<Rightarrow> string" where
  "resolvePath S path wd =
     (if path = ''~'' then sc_home S
      else if starts_with path ''~/'' then path_resolve (cwd (sc_host S)) [sc_home S, drop 2 path]
      else if isAbsolute path then path_resolve (cwd (sc_host S)) [path]
      else path_resolve (cwd (sc_host S)) [wd, path])"

text \<open>The loop over positions, with the number of positions left before the shortest split ends.\<close>

fun common_loop :: "string list list \<Rightarrow> nat \<Rightarrow> nat \<Rightarrow> string list" where
  "common_loop splits i 0 = []"
| "common_loop splits i (Suc left) =
     (let segment = hd splits ! i
      in if list_all (\<lambda>s. s ! i = segment) splits then segment # common_loop splits (Suc i) left else [])"

definition commonAncestor :: "host \<Rightarrow> string list \<Rightarrow> string" where
  "commonAncestor E paths =
     (let unique = js_set_of paths
      in if length unique = 1
         then (let only = hd unique in if pathIsExistingDirectory E only then only else dirname only)
         else (let splits = map (split_on slash) unique;
                   minLen = Min (set (map length splits));
                   common = common_loop splits 0 minLen
               in if common = [] then ''/''
                  else if common = [[]] then ''/''
                  else (let joined = join_with ''/'' common in if joined = [] then ''/'' else joined)))"

definition isWithin :: "string \<Rightarrow> string \<Rightarrow> bool" where
  "isWithin candidate root =
     (candidate = root \<or> starts_with candidate (if ends_with root ''/'' then root else root @ ''/''))"

record scope_option =
  so_scope :: string
  so_label :: string

definition push_option :: "scope_option \<Rightarrow> scope_option list \<Rightarrow> scope_option list" where
  "push_option o' opts = (if so_scope o' \<in> set (map so_scope opts) then opts else opts @ [o'])"

definition dir_option :: "string \<Rightarrow> scope_option" where
  "dir_option d = \<lparr>so_scope = d @ ''/*'', so_label = ''In '' @ basename d @ ''/''\<rparr>"

definition scope_ancestor :: "scope_env \<Rightarrow> string list \<Rightarrow> string \<Rightarrow> string" where
  "scope_ancestor S pathArgs wd =
     (if pathArgs = [] then wd else commonAncestor (sc_host S) (map (\<lambda>p. resolvePath S p wd) pathArgs))"

definition generateDirectoryScopeOptions ::
    "scope_env \<Rightarrow> string list \<Rightarrow> string \<Rightarrow> string option \<Rightarrow> scope_option list" where
  "generateDirectoryScopeOptions S pathArgs wd workspaceRoot =
     (let ancestor = scope_ancestor S pathArgs wd;
          home = sc_home S;
          inside = (case workspaceRoot of None \<Rightarrow> True | Some r \<Rightarrow> isWithin ancestor r);
          skipExact = (ancestor = ''/'' \<or> ancestor = home \<or> isWithin home ancestor \<or> \<not> inside);
          one = (if skipExact then [] else push_option (dir_option ancestor) []);
          two = (if inside
                 then (case findProjectBoundary (sc_host S) ancestor workspaceRoot of
                         None \<Rightarrow> one
                       | Some boundary \<Rightarrow>
                           if boundary \<noteq> ancestor \<and> Some boundary \<noteq> workspaceRoot
                           then push_option (dir_option boundary) one else one)
                 else one)
      in push_option \<lparr>so_scope = ''everywhere'', so_label = ''Everywhere''\<rparr> two)"

section \<open>Lemmas\<close>

lemma isWithin_under: "proper xs \<Longrightarrow> proper ys \<Longrightarrow> isWithin (abs_path xs) (abs_path ys) \<longleftrightarrow> prefix ys xs"
  using under_iff [of xs ys] by (simp add: isWithin_def dir_prefix_def)

interpretation ladder_test: containment isWithin
  by unfold_locales (rule isWithin_under)

text \<open>The search returns an ancestor of its start (or the start) that holds a marker, and no
  directory between the two holds one.\<close>

lemma boundary_loop_nearest:
  assumes "proper xs" "abs_path xs \<noteq> previous" "boundary_loop E stopAt (abs_path xs) previous = Some b"
  shows "\<exists>ys. proper ys \<and> b = abs_path ys \<and> prefix ys xs \<and> has_marker E b \<and>
              (\<forall>zs. prefix zs xs \<and> strict_prefix ys zs \<longrightarrow> \<not> has_marker E (abs_path zs))"
  using assms
proof (induction xs arbitrary: previous rule: rev_induct)
  case Nil
  then show ?case
    by (auto simp: boundary_loop.simps [of E stopAt "abs_path []" previous] boundary_loop.simps [of E stopAt "abs_path []" "abs_path []"]
        split: if_splits)
next
  case (snoc x xs)
  show ?case
  proof (cases "has_marker E (abs_path (xs @ [x]))")
    case True
    then have "b = abs_path (xs @ [x])"
      using snoc.prems by (simp add: boundary_loop.simps [of E stopAt "abs_path (xs @ [x])" previous])
    moreover have "\<not> (prefix zs (xs @ [x]) \<and> strict_prefix (xs @ [x]) zs)" for zs
      using prefix_order.less_le_not_le by blast
    ultimately show ?thesis using True snoc.prems(1) by blast
  next
    case False
    have "abs_path xs \<noteq> abs_path (xs @ [x])" using snoc.prems(1) by (simp add: abs_path_inj)
    moreover have "boundary_loop E stopAt (abs_path xs) (abs_path (xs @ [x])) = Some b"
      using snoc.prems False
      by (simp add: boundary_loop.simps [of E stopAt "abs_path (xs @ [x])" previous] split: if_splits)
    ultimately obtain ys where "proper ys" "b = abs_path ys" "prefix ys xs" "has_marker E b"
        "\<forall>zs. prefix zs xs \<and> strict_prefix ys zs \<longrightarrow> \<not> has_marker E (abs_path zs)"
      using snoc.IH snoc.prems(1) by auto
    then show ?thesis using False by (intro exI [of _ ys]) auto
  qed
qed

lemma findProjectBoundary_nearest:
  assumes "resolved s" "findProjectBoundary E s stopAt = Some b"
  shows "resolved b \<and> prefix (norm_segs b) (norm_segs s) \<and> has_marker E b \<and>
         (\<forall>zs. prefix zs (norm_segs s) \<and> strict_prefix (norm_segs b) zs \<longrightarrow> \<not> has_marker E (abs_path zs))"
proof -
  obtain xs where xs: "proper xs" "s = abs_path xs" using assms(1) by (rule resolvedE)
  have "abs_path xs \<noteq> []" by simp
  moreover have "boundary_loop E stopAt (abs_path xs) [] = Some b"
    using assms(2) xs(2) by (simp add: findProjectBoundary_def)
  ultimately obtain ys where
    "proper ys" "b = abs_path ys" "prefix ys xs" "has_marker E b"
    "\<forall>zs. prefix zs xs \<and> strict_prefix ys zs \<longrightarrow> \<not> has_marker E (abs_path zs)"
    using boundary_loop_nearest [OF xs(1)] by blast
  then show ?thesis using xs by simp
qed

lemma common_loop_prefix:
  assumes "s \<in> set splits" "i + left \<le> length s"
  shows "prefix (common_loop splits i left) (drop i s)"
  using assms(2)
proof (induction left arbitrary: i)
  case (Suc left)
  show ?case
  proof (cases "list_all (\<lambda>s. s ! i = hd splits ! i) splits")
    case True
    then have "s ! i = hd splits ! i" using assms(1) by (simp add: list_all_iff)
    moreover have "drop i s = s ! i # drop (Suc i) s" using Suc.prems by (simp add: Cons_nth_drop_Suc)
    ultimately show ?thesis using Suc.IH [of "Suc i"] Suc.prems True by (simp add: Let_def)
  qed (simp add: Let_def)
qed simp

lemma common_loop_greatest:
  assumes "splits \<noteq> []" "\<forall>s \<in> set splits. prefix z (drop i s)" "length z \<le> left"
  shows "prefix z (common_loop splits i left)"
  using assms(2,3)
proof (induction left arbitrary: i z)
  case (Suc left)
  show ?case
  proof (cases z)
    case (Cons c z')
    have d: "s ! i = c \<and> prefix z' (drop (Suc i) s)" if "s \<in> set splits" for s
    proof -
      from Suc.prems(1) that Cons obtain r where r: "drop i s = c # z' @ r" by (auto simp: prefix_def)
      then show ?thesis by (metis Cons_nth_drop_Suc drop_eq_Nil2 leI list.distinct(1) list.inject prefixI)
    qed
    then have "list_all (\<lambda>s. s ! i = hd splits ! i) splits" "hd splits ! i = c"
      using assms(1) by (auto simp: list_all_iff)
    moreover have "prefix z' (common_loop splits (Suc i) left)" using Suc.IH [of z' "Suc i"] d Suc.prems(2) Cons by simp
    ultimately show ?thesis using Cons by (simp add: Let_def)
  qed simp
qed simp

lemma split_abs_path:
  assumes "proper xs"
  shows "split_on slash (abs_path xs) = [] # (if xs = [] then [[]] else xs)"
proof (cases "xs = []")
  case False
  then have "split_on slash (join_with [slash] xs) = xs" using assms by (intro split_join) (auto simp: proper_def)
  then show ?thesis using False by (simp add: abs_path_def)
qed (simp add: abs_path_def)

text \<open>The ancestor of several distinct paths, by segments: their greatest common directory.\<close>

lemma commonAncestor_several:
  assumes "set (js_set_of paths) = abs_path ` X" "\<forall>xs \<in> X. proper xs" "length (js_set_of paths) \<noteq> 1" "paths \<noteq> []"
  shows "\<exists>c. proper c \<and> commonAncestor E paths = abs_path c \<and> (\<forall>xs \<in> X. prefix c xs) \<and>
             (\<forall>z. (\<forall>xs \<in> X. prefix z xs) \<longrightarrow> prefix z c)"
proof -
  let ?splits = "map (split_on slash) (js_set_of paths)"
  let ?min = "Min (set (map length ?splits))"
  let ?common = "common_loop ?splits 0 ?min"
  have X: "set ?splits = (\<lambda>xs. [] # (if xs = [] then [[]] else xs)) ` X"
    using assms(1,2) split_abs_path by (auto simp: image_iff)
  have ne: "js_set_of paths \<noteq> []" using assms(4) by (metis set_js_set_of set_empty)
  have mi: "?min \<le> length s" if "s \<in> set ?splits" for s using that by (intro Min_le) auto
  have pre: "prefix ?common s" if "s \<in> set ?splits" for s
    using common_loop_prefix [OF that, of 0 ?min] mi [OF that] by simp
  have great: "prefix z ?common" if "\<forall>s \<in> set ?splits. prefix z s" for z
  proof -
    have "?min \<in> set (map length ?splits)" using assms(4) by (intro Min_in) auto
    then obtain s where "s \<in> set ?splits" "?min = length s" by auto
    then have "length z \<le> ?min" using that prefix_length_le by metis
    then show ?thesis using common_loop_greatest [of ?splits z 0 ?min] that ne by simp
  qed
  have f: "\<exists>xs \<in> X. s = [] # (if xs = [] then [[]] else xs)" if "s \<in> set ?splits" for s
    using that unfolding X by auto
  have "prefix [[]] ?common" by (rule great) (use f in fastforce)
  then obtain c where c: "?common = [] # c" by (auto simp: prefix_def)
  have pc: "prefix c (if xs = [] then [[]] else xs)" if "xs \<in> X" for xs
  proof -
    have "[] # (if xs = [] then [[]] else xs) \<in> set ?splits" using that unfolding X by (rule imageI)
    then have "prefix ([] # c) ([] # (if xs = [] then [[]] else xs))" using pre c by metis
    then show ?thesis by simp
  qed
  have "X \<noteq> {[]}"
  proof
    assume "X = {[]}"
    then have "set (js_set_of paths) = {abs_path []}" using assms(1) by simp
    then have "length (js_set_of paths) = 1" using distinct_card [OF distinct_js_set_of, of paths] by simp
    then show False using assms(3) by simp
  qed
  moreover have "X \<noteq> {}" using assms(1,4) by auto
  ultimately obtain x where x: "x \<in> X" "x \<noteq> []" by blast
  have px: "prefix c xs" if "xs \<in> X" for xs
  proof (cases c)
    case (Cons a c')
    have "a \<noteq> []" using pc [OF x(1)] x assms(2) Cons by (cases x) (auto simp: proper_def)
    then show ?thesis using pc [OF that] Cons by (cases "xs = []") auto
  qed simp
  have "proper c" using px [OF x(1)] assms(2) x(1) proper_prefix by blast
  moreover have "commonAncestor E paths = abs_path c"
  proof -
    have "commonAncestor E paths =
        (if c = [] then ''/'' else if join_with ''/'' ([] # c) = [] then ''/'' else join_with ''/'' ([] # c))"
      unfolding commonAncestor_def Let_def c using assms(3) by simp
    then show ?thesis by (cases c) (auto simp: abs_path_def)
  qed
  moreover have "prefix z c" if "\<forall>xs \<in> X. prefix z xs" for z
  proof -
    have "prefix ([] # z) s" if "s \<in> set ?splits" for s
      using f [OF that] \<open>\<forall>xs \<in> X. prefix z xs\<close> by (auto split: if_splits)
    then have "prefix ([] # z) ?common" by (intro great) blast
    then show ?thesis using c by (metis Cons_prefix_Cons)
  qed
  ultimately show ?thesis using px by blast
qed

lemma commonAncestor_contains:
  assumes "paths \<noteq> []" "\<forall>p \<in> set paths. resolved p" "p \<in> set paths"
  shows "resolved (commonAncestor E paths) \<and> prefix (norm_segs (commonAncestor E paths)) (norm_segs p)"
proof (cases "length (js_set_of paths) = 1")
  case True
  then obtain q where q: "js_set_of paths = [q]" by (metis One_nat_def length_0_conv length_Suc_conv)
  then have s: "set paths = {q}" by (metis set_js_set_of list.set(1,2))
  then obtain xs where "proper xs" "q = abs_path xs" using assms(2) by (metis singletonI resolvedE)
  then show ?thesis
    using s assms(3) by (auto simp: commonAncestor_def Let_def q dirname_abs_path prefix_def)
      (metis append_butlast_last_id append_Nil2 butlast.simps(1))+
next
  case False
  let ?X = "norm_segs ` set paths"
  have "abs_path (norm_segs q) = q" if "q \<in> set paths" for q using assms(2) that by (metis resolved_def)
  then have "set (js_set_of paths) = abs_path ` ?X" by (force simp: image_iff)
  then obtain c where "proper c" "commonAncestor E paths = abs_path c" "\<forall>xs \<in> ?X. prefix c xs"
    using commonAncestor_several [of paths ?X E] False assms(1) by auto
  then show ?thesis using assms(3) by simp
qed

lemma resolvePath_resolved: "resolved (sc_home S) \<Longrightarrow> resolved (resolvePath S p wd)"
  by (simp add: resolvePath_def)

lemma ancestor_contains:
  assumes "resolved (sc_home S)" "resolved wd" "t \<in> (if pathArgs = [] then {wd} else (\<lambda>p. resolvePath S p wd) ` set pathArgs)"
  shows "resolved (scope_ancestor S pathArgs wd) \<and> prefix (norm_segs (scope_ancestor S pathArgs wd)) (norm_segs t)"
  using assms commonAncestor_contains [of "map (\<lambda>p. resolvePath S p wd) pathArgs" t "sc_host S"] resolvePath_resolved
  by (auto simp: scope_ancestor_def split: if_splits)

text \<open>The directories of the ladder: the ancestor and the project boundary above it.\<close>

lemma ladder_directories:
  assumes "o' \<in> set (generateDirectoryScopeOptions S pathArgs wd workspaceRoot)" "so_scope o' \<noteq> ''everywhere''"
  shows "\<exists>d. o' = dir_option d \<and>
           (d = scope_ancestor S pathArgs wd \<or>
            findProjectBoundary (sc_host S) (scope_ancestor S pathArgs wd) workspaceRoot = Some d)"
  using assms
  by (auto simp: generateDirectoryScopeOptions_def Let_def push_option_def split: if_splits option.splits)

section \<open>Properties\<close>

text \<open>The five hand-written containment tests of the permission code are one relation on resolved
  paths: the ladder's, the classifier's root and sink tests, the workspace policy's and the path
  policy's all say that the segments of the directory are a prefix of the path's.\<close>

theorem containment_tests_agree:
  assumes "resolved p" "resolved d"
  shows "[isWithin p d, isPathWithinRoot G p d, in_dir p d, isAtOrUnderCanonicalDir p d, isWithinDir p d] =
         replicate 5 (prefix (norm_segs d) (norm_segs p))"
  using ladder_test.within_segs [OF assms] root_test.within_segs [OF assms] sink_test.within_segs [OF assms]
    canonical_test.within_segs [OF assms] dir_test.within_segs [OF assms]
  by (simp add: numeral_eq_Suc)

theorem containment_tests_agree_witness:
  "isWithin ''/ws/a'' ''/ws'' \<and> in_dir ''/ws/a'' ''/ws'' \<and> isWithinDir ''/ws/a'' ''/ws'' \<and>
   \<not> isWithin ''/ws-extra'' ''/ws'' \<and> \<not> isPathWithinRoot demo_gateway ''/ws-extra'' ''/ws''"
proof -
  have h: "resolved ''/ws/a''" "resolved ''/ws''" "resolved ''/ws-extra''" by code_simp+
  have n: "prefix (norm_segs ''/ws'') (norm_segs ''/ws/a'')" "\<not> prefix (norm_segs ''/ws'') (norm_segs ''/ws-extra'')"
    by code_simp+
  show ?thesis
    using containment_tests_agree [OF h(1,2), of demo_gateway] containment_tests_agree [OF h(3,2), of demo_gateway] n
    by (simp add: numeral_eq_Suc)
qed

text \<open>C27: Every rung of the ladder covers the whole invocation: each directory offered contains every
  resolved target (the working directory, for a bare command), whether it is their common
  ancestor or the project boundary above it; a boundary offered holds a project marker.\<close>

theorem scope_ladder_covers_targets:
  assumes "resolved (sc_home S)" "resolved wd"
    and "o' \<in> set (generateDirectoryScopeOptions S pathArgs wd workspaceRoot)" "so_scope o' \<noteq> ''everywhere''"
    and "t \<in> (if pathArgs = [] then {wd} else (\<lambda>p. resolvePath S p wd) ` set pathArgs)"
  shows "\<exists>d. so_scope o' = d @ ''/*'' \<and> resolved d \<and> isWithin t d \<and>
             (d = scope_ancestor S pathArgs wd \<or> has_marker (sc_host S) d)"
proof -
  let ?a = "scope_ancestor S pathArgs wd"
  have a: "resolved ?a" "prefix (norm_segs ?a) (norm_segs t)" using ancestor_contains [OF assms(1,2,5)] by simp_all
  have t: "resolved t" using assms(1,2,5) resolvePath_resolved [OF assms(1)] by (auto split: if_splits)
  obtain d where d: "o' = dir_option d" "d = ?a \<or> findProjectBoundary (sc_host S) ?a workspaceRoot = Some d"
    using ladder_directories [OF assms(3,4)] by blast
  have "resolved d \<and> prefix (norm_segs d) (norm_segs ?a) \<and> (d = ?a \<or> has_marker (sc_host S) d)"
    using d(2) a(1) findProjectBoundary_nearest [OF a(1)] by auto
  then show ?thesis
    using d(1) a(2) ladder_test.within_segs [OF t] prefix_order.trans by (auto simp: dir_option_def)
qed

definition demo_scope :: scope_env where
  "demo_scope = \<lparr>sc_host = \<lparr>cwd = ''/'',
       files = [([''r''], Dir), ([''r'', ''.git''], Dir), ([''r'', ''src''], Dir), ([''r'', ''src'', ''a''], Dir), ([''r'', ''src'', ''b''], Dir)]\<rparr>,
     sc_home = ''/home/u''\<rparr>"

theorem scope_ladder_covers_targets_witness:
  "map so_scope (generateDirectoryScopeOptions demo_scope [''src/a/x'', ''/r/src/b/y''] ''/r'' None) = [''/r/src/*'', ''/r/*'', ''everywhere''] \<and>
   (\<exists>d. ''/r/*'' = d @ ''/*'' \<and> resolved d \<and> isWithin ''/r/src/b/y'' d \<and>
        (d = scope_ancestor demo_scope [''src/a/x'', ''/r/src/b/y''] ''/r'' \<or> has_marker (sc_host demo_scope) d))"
proof -
  let ?o = "dir_option ''/r''"
  have m: "map so_scope (generateDirectoryScopeOptions demo_scope [''src/a/x'', ''/r/src/b/y''] ''/r'' None) = [''/r/src/*'', ''/r/*'', ''everywhere'']"
    by code_simp
  have h: "resolved (sc_home demo_scope)" "resolved ''/r''"
    "?o \<in> set (generateDirectoryScopeOptions demo_scope [''src/a/x'', ''/r/src/b/y''] ''/r'' None)" "so_scope ?o \<noteq> ''everywhere''"
    "''/r/src/b/y'' \<in> (if [''src/a/x'', ''/r/src/b/y''] = [] then {''/r''} else (\<lambda>p. resolvePath demo_scope p ''/r'') ` set [''src/a/x'', ''/r/src/b/y''])"
    by code_simp+
  have "so_scope ?o = ''/r/*''" by code_simp
  then show ?thesis using scope_ladder_covers_targets [OF h] m by simp
qed

text \<open>Scopes survive the round trip through the rule table: for a file tool on an absolute path
  that is not a directory, every scope of its ladder is one the cache's scope test accepts
  when the same file is used again.\<close>

theorem file_scope_roundtrip:
  assumes "resolved (sc_home S)" "resolved wd" "resolved path" "\<not> pathIsExistingDirectory (sc_host S) path"
    and "\<not> starts_with path ''~''"
    and "o' \<in> set (generateDirectoryScopeOptions S [path] wd workspaceRoot)"
  shows "isScopeMatch (Some (so_scope o')) (Some (dirname path))"
proof (cases "so_scope o' = ''everywhere''")
  case True
  then show ?thesis by (simp add: isScopeMatch_def)
next
  case False
  obtain xs where xs: "proper xs" "path = abs_path xs" using assms(3) by (rule resolvedE)
  have r: "resolvePath S path wd = path" using assms(3) xs by (auto simp: resolvePath_def starts_with_def abs_path_def isAbsolute_def)
  have anc: "scope_ancestor S [path] wd = dirname path"
    using assms(4) by (simp add: scope_ancestor_def r commonAncestor_def Let_def js_set_of_def js_add_def)
  have dn: "dirname path = abs_path (butlast xs)" using xs dirname_abs_path by simp
  obtain d where d: "o' = dir_option d" "d = dirname path \<or> findProjectBoundary (sc_host S) (dirname path) workspaceRoot = Some d"
    using ladder_directories [OF assms(6) False] anc by auto
  have rd: "resolved (dirname path)" using dn xs by simp
  have "resolved d \<and> prefix (norm_segs d) (norm_segs (dirname path))"
    using d(2) rd findProjectBoundary_nearest [OF rd] by auto
  then obtain ys where ys: "proper ys" "d = abs_path ys" "prefix ys (butlast xs)"
    using xs dn by (metis resolvedE norm_abs_path proper_butlast)
  have "prefix (dir_prefix (abs_path ys)) (dir_prefix (abs_path (butlast xs)))"
    using ys xs prefix_slashed by (simp add: dir_prefix_abs)
  moreover have "ends_with (abs_path ys @ ''/*'') ''/*''" by (auto simp: ends_with_iff)
  moreover have "abs_path ys @ ''/*'' \<noteq> ''everywhere''" by (simp add: abs_path_def)
  ultimately show ?thesis
    using d(1) ys(2) dn by (simp add: isScopeMatch_def dir_option_def Let_def starts_with_prefix dir_prefix_def)
qed

theorem file_scope_roundtrip_witness:
  "isScopeMatch (Some ''/r/src/*'') (Some (dirname ''/r/src/new.ts'')) \<and> isScopeMatch (Some ''/r/*'') (Some (dirname ''/r/src/new.ts''))"
proof -
  have h: "resolved (sc_home demo_scope)" "resolved ''/r''" "resolved ''/r/src/new.ts''"
    "\<not> pathIsExistingDirectory (sc_host demo_scope) ''/r/src/new.ts''" "\<not> starts_with ''/r/src/new.ts'' ''~''"
    "dir_option ''/r/src'' \<in> set (generateDirectoryScopeOptions demo_scope [''/r/src/new.ts''] ''/r'' None)"
    "dir_option ''/r'' \<in> set (generateDirectoryScopeOptions demo_scope [''/r/src/new.ts''] ''/r'' None)"
    by code_simp+
  show ?thesis
    using file_scope_roundtrip [OF h(1-5) h(6)] file_scope_roundtrip [OF h(1-5) h(7)] by (simp add: dir_option_def)
qed

text \<open>Three limits of the ladder. A command's ladder is built from its path arguments and the
  saved scope is tested against its working directory, so a rule saved for a target elsewhere
  does not apply to the command it was saved for. For a file tool the scope is tested against the
  directory part of the path as written, so a relative path matches no saved scope. And the
  boundary rung offers the home directory that the first rung is careful to leave out.\<close>

theorem target_scope_not_matched:
  "hd (map so_scope (generateDirectoryScopeOptions demo_scope [''/data/x''] ''/r'' None)) = ''/data/*'' \<and>
   \<not> isScopeMatch (Some ''/data/*'') (Some ''/r'')"
  by code_simp

theorem relative_path_scope_not_matched:
  "hd (map so_scope (generateDirectoryScopeOptions demo_scope [''src/new.ts''] ''/r'' None)) = ''/r/src/*'' \<and>
   \<not> isScopeMatch (Some ''/r/src/*'') (Some (dirname ''src/new.ts''))"
  by code_simp

theorem home_offered_as_boundary:
  "map so_scope (generateDirectoryScopeOptions
     \<lparr>sc_host = \<lparr>cwd = ''/'', files = [([''u''], Dir), ([''u'', ''.git''], Dir), ([''u'', ''docs''], Dir)]\<rparr>, sc_home = ''/u''\<rparr>
     [''/u/docs/a''] ''/u'' None) = [''/u/docs/*'', ''/u/*'', ''everywhere'']"
  by code_simp

end
