(* ===== verification/Shell_Parser.thy ===== *)
theory Shell_Parser
  imports Prelude
begin

text \<open>
  The shell parser of the risk classifiers (\<^verbatim>\<open>gateway/src/risk/shell-parser.ts\<close>): from the
  syntax tree of a command line it extracts the command segments, the dangerous patterns and
  whether anything in the command is opaque. The tree itself comes from tree-sitter with its
  bash grammar, a library: it is an argument, \<open>ts_parse\<close>, here any function from source text
  to a tree or to nothing.
\<close>

section \<open>Syntax trees\<close>

text \<open>What the code reads of a tree-sitter node: its type, its text, where it starts and ends in
  the source, whether it is named, and its children in order.\<close>

datatype tsnode = TSNode (ntype: string) (ntext: string) (startIndex: nat) (endIndex: nat) (named: bool) (children: "tsnode list")

definition namedChildren :: "tsnode list \<Rightarrow> tsnode list" where
  "namedChildren cs = filter named cs"

definition namedChild0 :: "tsnode \<Rightarrow> tsnode option" where
  "namedChild0 n = (case namedChildren (children n) of [] \<Rightarrow> None | c # _ \<Rightarrow> Some c)"

lemma size_child: "c \<in> set cs \<Longrightarrow> size c \<le> size_list size cs"
  by (induction cs) auto

lemma namedChildren_mem: "c \<in> set (namedChildren cs) \<Longrightarrow> c \<in> set cs"
  by (simp add: namedChildren_def)

lemmas size_named = size_child [OF namedChildren_mem]

section \<open>Segments\<close>

datatype operator = NoOp | AndAnd | OrOr | Semi | Bar

record segment =
  sg_command :: string
  sg_program :: string
  sg_args :: "string list"
  sg_operator :: operator
  synthetic :: bool

datatype pattern_type =
    PipeToShell | Base64Execute | ProcessSubstitution | SensitiveRedirect | DangerousSubstitution | EnvInjection

record dangerous_pattern =
  dp_type :: pattern_type
  dp_description :: string
  dp_text :: string

record parsed_command =
  originalCommand :: string
  segments :: "segment list"
  dangerousPatterns :: "dangerous_pattern list"
  hasOpaqueConstructs :: bool

definition SHELL_PROGRAMS :: "string list" where
  "SHELL_PROGRAMS = [''sh'', ''bash'', ''zsh'', ''dash'', ''ksh'', ''fish'']"

definition SCRIPT_INTERPRETERS :: "string list" where
  "SCRIPT_INTERPRETERS = [''python'', ''python3'', ''ruby'', ''perl'', ''node'', ''deno'', ''bun'']"

definition STDIN_EXEC_FLAGS :: "string list" where
  "STDIN_EXEC_FLAGS = [''-'']"

definition INTERPRETER_INLINE_CODE_FLAGS :: "(string, string list) js_map" where
  "INTERPRETER_INLINE_CODE_FLAGS =
     [(''python'', [''-c'']), (''python3'', [''-c'']), (''ruby'', [''-e'']), (''perl'', [''-e'']),
      (''node'', [''-e'']), (''deno'', [''-e'']), (''bun'', [''-e''])]"

definition INTERPRETER_VALUE_FLAGS :: "(string, string list) js_map" where
  "INTERPRETER_VALUE_FLAGS =
     [(''python'', [''-W'', ''-X'', ''-Q'']), (''python3'', [''-W'', ''-X'', ''-Q'']),
      (''ruby'', [''-r'', ''--require'', ''-I'']),
      (''node'', [''-r'', ''--require'', ''--import'', ''--conditions'']),
      (''deno'', []), (''bun'', []), (''perl'', [''-I''])]"

definition OPAQUE_PROGRAMS :: "string list" where
  "OPAQUE_PROGRAMS = [''eval'', ''source'', ''alias'']"

definition DANGEROUS_ENV_VARS :: "string list" where
  "DANGEROUS_ENV_VARS =
     [''LD_PRELOAD'', ''LD_LIBRARY_PATH'', ''DYLD_INSERT_LIBRARIES'', ''DYLD_LIBRARY_PATH'',
      ''DYLD_FRAMEWORK_PATH'', ''NODE_OPTIONS'', ''NODE_PATH'', ''PATH'', ''PYTHONPATH'', ''RUBYLIB'']"

definition SENSITIVE_PATH_PREFIXES :: "string list" where
  "SENSITIVE_PATH_PREFIXES =
     [''~/.zshrc'', ''~/.bashrc'', ''~/.bash_profile'', ''~/.profile'', ''~/.ssh/'', ''~/.gnupg/'',
      ''~/.config/'', ''/etc/'', ''/usr/lib/'', ''/usr/bin/'']"

definition LIST_SEPARATOR_CHARS :: "char list" where
  "LIST_SEPARATOR_CHARS = [CHR '';'', CHR 0x0A, CHR 0x0D, CHR ''&'', CHR ''|'']"

text \<open>The text between two statements of the root, and whether some neighbours have no separator
  there: then the tree is the parser's recovery from an error.\<close>

definition gap :: "string \<Rightarrow> tsnode \<Rightarrow> tsnode \<Rightarrow> string" where
  "gap src a b = take (startIndex b - endIndex a) (drop (endIndex a) src)"

fun recovered :: "string \<Rightarrow> tsnode list \<Rightarrow> bool" where
  "recovered src (a # b # cs) \<longleftrightarrow>
     \<not> list_ex (\<lambda>c. c \<in> set LIST_SEPARATOR_CHARS) (gap src a b) \<or> recovered src (b # cs)"
| "recovered src _ \<longleftrightarrow> False"

definition WORD_TYPES :: "string list" where
  "WORD_TYPES =
     [''command_name'', ''word'', ''string'', ''raw_string'', ''simple_expansion'', ''expansion'',
      ''command_substitution'', ''concatenation'', ''number'']"

definition NESTED_TYPES :: "string list" where
  "NESTED_TYPES =
     [''subshell'', ''command_substitution'', ''compound_statement'', ''if_statement'', ''while_statement'',
      ''for_statement'', ''case_statement'', ''function_definition'']"

definition REDIRECT_TYPES :: "string list" where
  "REDIRECT_TYPES = [''file_redirect'', ''heredoc_redirect'', ''herestring_redirect'']"

text \<open>The words of a command node, and the segment it gives: none when it has no word.\<close>

definition command_words :: "tsnode list \<Rightarrow> string list" where
  "command_words cs = map ntext (filter (\<lambda>c. ntype c \<in> set WORD_TYPES) (namedChildren cs))"

definition emit :: "string \<Rightarrow> tsnode list \<Rightarrow> operator \<Rightarrow> bool \<Rightarrow> segment list" where
  "emit tx cs opr synth =
     (case command_words cs of
        [] \<Rightarrow> []
      | w # ws \<Rightarrow> [\<lparr>sg_command = tx, sg_program = w, sg_args = ws, sg_operator = opr, synthetic = synth\<rparr>])"

definition list_operator :: "string \<Rightarrow> operator option" where
  "list_operator ty =
     (if ty = ''&&'' then Some AndAnd else if ty = ''||'' then Some OrOr else if ty = '';'' then Some Semi else None)"

definition statementChildren :: "tsnode list \<Rightarrow> tsnode list" where
  "statementChildren cs = filter (\<lambda>c. ntype c \<noteq> ''comment'') (namedChildren cs)"

text \<open>The closure \<^verbatim>\<open>walkNode\<close>, and the loop of its \<^verbatim>\<open>list\<close> case, in which each operator token sets
  the operator of the next statement and a statement resets it.\<close>

function (sequential) walkNode :: "string \<Rightarrow> tsnode \<Rightarrow> operator \<Rightarrow> nat \<Rightarrow> bool \<Rightarrow> segment list"
and walkList :: "string \<Rightarrow> tsnode list \<Rightarrow> operator \<Rightarrow> nat \<Rightarrow> bool \<Rightarrow> segment list" where
  "walkNode src (TSNode ty tx s e nm cs) opr depth rcv =
     (if ty = ''program''
      then concat (map (\<lambda>c. walkNode src c NoOp depth (rcv \<or> recovered src (statementChildren cs))) (statementChildren cs))
      else if ty = ''list'' then walkList src cs opr depth rcv
      else if ty = ''pipeline''
      then (case namedChildren cs of
              [] \<Rightarrow> []
            | c # rest \<Rightarrow> walkNode src c opr depth rcv @ concat (map (\<lambda>c. walkNode src c Bar depth rcv) rest))
      else if ty = ''command'' then emit tx cs opr (0 < depth \<or> rcv)
      else if ty = ''redirected_statement''
      then concat (map (\<lambda>c. walkNode src c opr depth rcv)
             (filter (\<lambda>c. ntype c \<notin> set REDIRECT_TYPES) (namedChildren cs)))
      else if ty \<in> set NESTED_TYPES
      then concat (map (\<lambda>c. walkNode src c opr (Suc depth) rcv) (namedChildren cs))
      else concat (map (\<lambda>c. walkNode src c opr depth rcv) (namedChildren cs)))"
| "walkList src [] opr depth rcv = []"
| "walkList src (c # cs) opr depth rcv =
     (case list_operator (ntype c) of
        Some opr' \<Rightarrow> walkList src cs opr' depth rcv
      | None \<Rightarrow>
          if ntype c \<noteq> ''comment'' then walkNode src c opr depth rcv @ walkList src cs NoOp depth rcv
          else walkList src cs opr depth rcv)"
  by pat_completeness auto

termination
  by (relation "measure (case_sum (\<lambda>(_, n, _, _, _). size n) (\<lambda>(_, cs, _, _, _). size_list size cs))")
    (auto simp: statementChildren_def less_Suc_eq_le intro!: size_named)

declare walkNode.simps [simp del] walkList.simps(2) [simp del]

definition extractSegments :: "tsnode \<Rightarrow> string \<Rightarrow> segment list" where
  "extractSegments n src = walkNode src n NoOp 0 False"

section \<open>Dangerous patterns\<close>

fun stdin_exec_loop :: "string list \<Rightarrow> string list \<Rightarrow> string list \<Rightarrow> bool" where
  "stdin_exec_loop valueFs inlineFs [] = True"
| "stdin_exec_loop valueFs inlineFs (arg # rest) =
     (if arg \<in> set STDIN_EXEC_FLAGS then True
      else if arg \<in> set inlineFs then False
      else if \<not> starts_with arg ''-'' then False
      else if arg \<in> set valueFs then stdin_exec_loop valueFs inlineFs (drop 1 rest)
      else stdin_exec_loop valueFs inlineFs rest)"

definition isStdinExecMode :: "string \<Rightarrow> string list \<Rightarrow> bool" where
  "isStdinExecMode interpreter as =
     stdin_exec_loop (case js_get INTERPRETER_VALUE_FLAGS interpreter of Some f \<Rightarrow> f | None \<Rightarrow> [])
       (case js_get INTERPRETER_INLINE_CODE_FLAGS interpreter of Some f \<Rightarrow> f | None \<Rightarrow> []) as"

text \<open>Segments after the first that a pipe feeds into a shell, \<^verbatim>\<open>eval\<close>, \<^verbatim>\<open>xargs\<close>, or an
  interpreter that reads its program from standard input.\<close>

definition executes_stdin :: "segment \<Rightarrow> bool" where
  "executes_stdin s \<longleftrightarrow>
     sg_program s \<in> set SHELL_PROGRAMS \<or> sg_program s = ''eval'' \<or> sg_program s = ''xargs'' \<or>
     sg_program s \<in> set SCRIPT_INTERPRETERS \<and> isStdinExecMode (sg_program s) (sg_args s)"

definition pipe_patterns :: "segment list \<Rightarrow> dangerous_pattern list" where
  "pipe_patterns ss =
     map (\<lambda>s. \<lparr>dp_type = PipeToShell, dp_description = ''Pipeline into '' @ sg_program s, dp_text = sg_command s\<rparr>)
       (filter (\<lambda>s. sg_operator s = Bar \<and> executes_stdin s) (drop 1 ss))"

fun base64_patterns :: "segment list \<Rightarrow> dangerous_pattern list" where
  "base64_patterns (a # b # ss) =
     (if sg_program a = ''base64'' \<and> ''-d'' \<in> set (sg_args a) \<and> sg_operator b = Bar \<and>
         (sg_program b \<in> set SHELL_PROGRAMS \<or> sg_program b = ''eval'')
      then [\<lparr>dp_type = Base64Execute, dp_description = ''base64 decoded content piped to shell'',
             dp_text = sg_command a @ '' | '' @ sg_command b\<rparr>] else []) @ base64_patterns (b # ss)"
| "base64_patterns _ = []"

text \<open>\<^verbatim>\<open>prefix.replace("~", "$HOME")\<close>: the first occurrence.\<close>

definition home_form :: "string \<Rightarrow> string" where
  "home_form p = (case index_of (CHR ''~'') p of None \<Rightarrow> p | Some i \<Rightarrow> take i p @ ''$HOME'' @ drop (Suc i) p)"

definition sensitive_destination :: "string \<Rightarrow> bool" where
  "sensitive_destination d \<longleftrightarrow>
     list_ex (\<lambda>p. starts_with d p \<or> starts_with d (home_form p)) SENSITIVE_PATH_PREFIXES"

definition SUBSTITUTION_SENSITIVE :: "string list" where
  "SUBSTITUTION_SENSITIVE = [''rm'', ''chmod'', ''chown'']"

text \<open>What \<^verbatim>\<open>walkForPatterns\<close> adds at one node, given the node's parent.\<close>

definition node_patterns :: "tsnode option \<Rightarrow> tsnode \<Rightarrow> dangerous_pattern list" where
  "node_patterns parent n =
     (if ntype n = ''process_substitution''
      then [\<lparr>dp_type = ProcessSubstitution, dp_description = ''Process substitution detected'', dp_text = ntext n\<rparr>] else []) @
     (if ntype n = ''file_redirect'' \<and> children n \<noteq> [] \<and> sensitive_destination (ntext (last (children n)))
      then [\<lparr>dp_type = SensitiveRedirect,
             dp_description = ''Redirect to sensitive path: '' @ ntext (last (children n)), dp_text = ntext n\<rparr>] else []) @
     (case parent of
        None \<Rightarrow> []
      | Some p \<Rightarrow>
          if ntype n = ''command_substitution'' \<and> ntype p = ''command''
          then (case namedChild0 p of
                  None \<Rightarrow> []
                | Some w \<Rightarrow>
                    if ntext w \<in> set SUBSTITUTION_SENSITIVE
                    then [\<lparr>dp_type = DangerousSubstitution,
                           dp_description = ''Command substitution as argument to '' @ ntext w, dp_text = ntext p\<rparr>]
                    else [])
          else []) @
     (if ntype n = ''variable_assignment''
      then (case children n of
              [] \<Rightarrow> []
            | v # _ \<Rightarrow>
                if ntype v = ''variable_name'' \<and> ntext v \<in> set DANGEROUS_ENV_VARS
                then [\<lparr>dp_type = EnvInjection,
                       dp_description = ''Assignment to dangerous env var: '' @ ntext v, dp_text = ntext n\<rparr>]
                else [])
      else [])"

fun walkForPatterns :: "tsnode option \<Rightarrow> tsnode \<Rightarrow> dangerous_pattern list" where
  "walkForPatterns parent (TSNode ty tx s e nm cs) =
     node_patterns parent (TSNode ty tx s e nm cs) @
     concat (map (walkForPatterns (Some (TSNode ty tx s e nm cs))) cs)"

definition detectDangerousPatterns :: "tsnode \<Rightarrow> segment list \<Rightarrow> dangerous_pattern list" where
  "detectDangerousPatterns n ss = pipe_patterns ss @ base64_patterns ss @ walkForPatterns None n"

section \<open>Opaque constructs\<close>

definition opaque_segment :: "segment \<Rightarrow> bool" where
  "opaque_segment s \<longleftrightarrow>
     sg_program s \<in> set OPAQUE_PROGRAMS \<or> sg_program s = ''.'' \<or>
     sg_program s \<in> set SHELL_PROGRAMS \<and> (''-c'' \<in> set (sg_args s) \<or> ''-ec'' \<in> set (sg_args s))"

definition is_hex_digit :: "char \<Rightarrow> bool" where
  "is_hex_digit c \<longleftrightarrow> (let n = (of_char c :: nat) in 48 \<le> n \<and> n \<le> 57 \<or> 65 \<le> n \<and> n \<le> 70 \<or> 97 \<le> n \<and> n \<le> 102)"

definition is_octal_digit :: "char \<Rightarrow> bool" where
  "is_octal_digit c \<longleftrightarrow> (let n = (of_char c :: nat) in 48 \<le> n \<and> n \<le> 55)"

text \<open>\<^verbatim>\<open>/\\x[0-9a-fA-F]{2}|\\[0-7]{3}/.test(s)\<close>.\<close>

fun coded_escape :: "string \<Rightarrow> bool" where
  "coded_escape [] = False"
| "coded_escape (c # s) \<longleftrightarrow>
     (c = CHR 0x5C \<and>
       (case s of
          x # y # z # _ \<Rightarrow>
            x = CHR ''x'' \<and> is_hex_digit y \<and> is_hex_digit z \<or>
            is_octal_digit x \<and> is_octal_digit y \<and> is_octal_digit z
        | _ \<Rightarrow> False)) \<or> coded_escape s"

text \<open>A command whose name is an expansion or a substitution.\<close>

definition expanded_name :: "tsnode \<Rightarrow> bool" where
  "expanded_name n =
     (case namedChild0 n of
        None \<Rightarrow> False
      | Some f \<Rightarrow>
          ntype f \<in> {''simple_expansion'', ''expansion'', ''command_substitution''} \<or>
          ntype f = ''command_name'' \<and>
            (case namedChild0 f of
               None \<Rightarrow> False
             | Some i \<Rightarrow> ntype i \<in> {''simple_expansion'', ''expansion'', ''command_substitution'', ''concatenation''}))"

text \<open>\<^verbatim>\<open>text.includes("[@]")\<close>.\<close>

fun includes_at :: "string \<Rightarrow> bool" where
  "includes_at [] = False"
| "includes_at (c # s) \<longleftrightarrow> starts_with (c # s) ''[@]'' \<or> includes_at s"

text \<open>What \<^verbatim>\<open>walkForOpacity\<close> tests at one node. \<open>heads\<close> says that the node is the first named child of
  a command node (\<^verbatim>\<open>n.parent?.type === "command"\<close> and \<^verbatim>\<open>first.equals(n)\<close>).\<close>

definition opaque_node :: "bool \<Rightarrow> tsnode \<Rightarrow> bool" where
  "opaque_node heads n \<longleftrightarrow>
     ntype n \<in> {''heredoc_redirect'', ''heredoc_body'', ''herestring_redirect''} \<or>
     ntype n = ''command'' \<and> expanded_name n \<or>
     ntype n \<in> {''ansi_c_string'', ''ansii_c_string''} \<and> (heads \<or> coded_escape (ntext n)) \<or>
     ntype n = ''expansion'' \<and> includes_at (ntext n) \<and> heads"

text \<open>The children of a node, each with whether it is the first named one.\<close>

fun mark_first :: "bool \<Rightarrow> tsnode list \<Rightarrow> (bool \<times> tsnode) list" where
  "mark_first looking [] = []"
| "mark_first looking (c # cs) = (looking \<and> named c, c) # mark_first (looking \<and> \<not> named c) cs"

lemma snd_mark_first: "(b, c) \<in> set (mark_first l cs) \<Longrightarrow> c \<in> set cs"
  by (induction l cs rule: mark_first.induct) auto

function walkForOpacity :: "bool \<Rightarrow> tsnode \<Rightarrow> bool" where
  "walkForOpacity heads (TSNode ty tx s e nm cs) \<longleftrightarrow>
     opaque_node heads (TSNode ty tx s e nm cs) \<or>
     list_ex (\<lambda>(f, c). walkForOpacity (ty = ''command'' \<and> f) c) (mark_first True cs)"
  by pat_completeness auto

termination
  by (relation "measure (size \<circ> snd)") (auto simp: less_Suc_eq_le intro!: size_child dest: snd_mark_first)

definition detectOpaqueConstructs :: "tsnode \<Rightarrow> segment list \<Rightarrow> bool" where
  "detectOpaqueConstructs n ss \<longleftrightarrow> list_ex opaque_segment ss \<or> walkForOpacity False n"

section \<open>Parsing a command\<close>

definition parse :: "(string \<Rightarrow> tsnode option) \<Rightarrow> string \<Rightarrow> parsed_command" where
  "parse ts_parse cmd =
     (case ts_parse cmd of
        None \<Rightarrow> \<lparr>originalCommand = cmd, segments = [], dangerousPatterns = [], hasOpaqueConstructs = True\<rparr>
      | Some root \<Rightarrow>
          (let ss = extractSegments root cmd
           in \<lparr>originalCommand = cmd, segments = ss, dangerousPatterns = detectDangerousPatterns root ss,
               hasOpaqueConstructs = detectOpaqueConstructs root ss\<rparr>))"

section \<open>Which commands become segments\<close>

text \<open>The children of a node the extraction goes into: the words of a command are not walked, nor
  are redirections.\<close>

definition walked :: "tsnode \<Rightarrow> tsnode list" where
  "walked n =
     (if ntype n = ''program'' then statementChildren (children n)
      else if ntype n = ''list''
      then filter (\<lambda>c. list_operator (ntype c) = None \<and> ntype c \<noteq> ''comment'') (children n)
      else if ntype n = ''pipeline'' then namedChildren (children n)
      else if ntype n = ''command'' then []
      else if ntype n = ''redirected_statement''
      then filter (\<lambda>c. ntype c \<notin> set REDIRECT_TYPES) (namedChildren (children n))
      else namedChildren (children n))"

inductive visible :: "tsnode \<Rightarrow> tsnode \<Rightarrow> bool" where
  visible_refl: "visible n n"
| visible_step: "c \<in> set (walked n) \<Longrightarrow> visible c m \<Longrightarrow> visible n m"

inductive_simps visible_iff: "visible n m"

text \<open>The command a segment stands for: its text and its words.\<close>

definition seg_of :: "segment \<Rightarrow> string \<times> string list" where
  "seg_of s = (sg_command s, sg_program s # sg_args s)"

definition command_of :: "tsnode \<Rightarrow> string \<times> string list" where
  "command_of n = (ntext n, command_words (children n))"

definition word_commands :: "tsnode \<Rightarrow> (string \<times> string list) set" where
  "word_commands n = {command_of m | m. visible n m \<and> ntype m = ''command'' \<and> command_words (children m) \<noteq> []}"

lemma word_commands_step:
  assumes "ntype n \<noteq> ''command''"
  shows "word_commands n = (\<Union>c \<in> set (walked n). word_commands c)"
proof -
  have "visible n m \<and> ntype m = ''command'' \<longleftrightarrow> (\<exists>c \<in> set (walked n). visible c m) \<and> ntype m = ''command''" for m
    using assms by (auto simp: visible_iff [of n m])
  then show ?thesis by (auto simp: word_commands_def)
qed

lemma word_commands_command:
  assumes "ntype n = ''command''"
  shows "word_commands n = (if command_words (children n) = [] then {} else {command_of n})"
  using assms by (auto simp: word_commands_def visible_iff [of n] walked_def)

lemma seg_of_emit:
  "seg_of ` set (emit tx cs opr b) = (if command_words cs = [] then {} else {(tx, command_words cs)})"
  by (cases "command_words cs") (simp_all add: emit_def seg_of_def)

lemma walk_segments:
  "seg_of ` set (walkNode src n opr depth rcv) = word_commands n"
  "seg_of ` set (walkList src cs opr depth rcv) =
     (\<Union>c \<in> set (filter (\<lambda>c. list_operator (ntype c) = None \<and> ntype c \<noteq> ''comment'') cs). word_commands c)"
proof (induction src n opr depth rcv and src cs opr depth rcv rule: walkNode_walkList.induct)
  case (1 src ty tx s e nm cs opr depth rcv)
  let ?n = "TSNode ty tx s e nm cs"
  show ?case
  proof (cases "ty = ''command''")
    case True
    then show ?thesis
      by (simp add: walkNode.simps word_commands_command seg_of_emit command_of_def)
  next
    case False
    then have "word_commands ?n = (\<Union>c \<in> set (walked ?n). word_commands c)"
      by (intro word_commands_step) simp
    also have "\<dots> = seg_of ` set (walkNode src ?n opr depth rcv)"
      using 1 False
      by (cases "namedChildren cs") (simp_all add: walkNode.simps walked_def image_UN image_Un)
    finally show ?thesis by simp
  qed
next
  case (3 src c cs opr depth rcv)
  then show ?case
    by (cases "list_operator (ntype c)") (simp_all add: walkList.simps(2) image_Un)
qed (simp_all)

text \<open>C17: The segments of a parsed command are exactly the command nodes of its syntax tree that have a
  word and are reached from the root without passing through the words or assignments of another
  command or through a redirection: pipelines, lists, subshells, blocks, loops and functions hide
  nothing, and no segment is made up. Each segment carries the node's text, its first word as
  program and the other words as arguments.\<close>

theorem segments_are_visible_commands:
  "seg_of ` set (extractSegments root src) =
     {command_of m | m. visible root m \<and> ntype m = ''command'' \<and> command_words (children m) \<noteq> []}"
  by (simp add: extractSegments_def walk_segments word_commands_def)

section \<open>Where patterns are looked for\<close>

text \<open>Every node of a tree with its parent.\<close>

fun all_nodes :: "tsnode option \<Rightarrow> tsnode \<Rightarrow> (tsnode option \<times> tsnode) list" where
  "all_nodes parent (TSNode ty tx s e nm cs) =
     (parent, TSNode ty tx s e nm cs) # concat (map (all_nodes (Some (TSNode ty tx s e nm cs))) cs)"

lemma walkForPatterns_nodes:
  "set (walkForPatterns parent n) = (\<Union>x \<in> set (all_nodes parent n). set (node_patterns (fst x) (snd x)))"
  by (induction parent n rule: walkForPatterns.induct) simp

lemma parse_tree:
  assumes "ts_parse cmd = Some root"
  shows "segments (parse ts_parse cmd) = extractSegments root cmd"
    "dangerousPatterns (parse ts_parse cmd) =
       detectDangerousPatterns root (extractSegments root cmd)"
    "hasOpaqueConstructs (parse ts_parse cmd) =
       detectOpaqueConstructs root (extractSegments root cmd)"
  using assms by (simp_all add: parse_def Let_def)

lemma node_pattern_reported:
  assumes "ts_parse cmd = Some root" "(p, m) \<in> set (all_nodes None root)" "node_patterns p m \<noteq> []"
  shows "dangerousPatterns (parse ts_parse cmd) \<noteq> []"
proof -
  have "set (node_patterns p m) \<subseteq> set (walkForPatterns None root)"
    using assms(2) by (force simp: walkForPatterns_nodes)
  then show ?thesis
    using assms(1,3) by (auto simp: parse_tree detectDangerousPatterns_def)
qed

end
