(* ===== verification/Shell_Identity.thy ===== *)
theory Shell_Identity
  imports Shell_Parser Approval_Policy
begin

text \<open>
  The identity of a shell command for permission decisions
  (\<^verbatim>\<open>gateway/src/risk/shell-identity.ts\<close>): the cache of parse results, the action keys that name
  the family of a command, and the options offered for saving a rule from them.
\<close>

section \<open>The parse cache\<close>

definition PARSE_CACHE_MAX :: nat where
  "PARSE_CACHE_MAX = 256"

type_synonym parse_cache = "(string, parsed_command) js_map"

text \<open>\<^verbatim>\<open>cachedParse\<close> up to its \<^verbatim>\<open>await\<close>: a hit is moved to the end of the order and returned. What
  follows the \<^verbatim>\<open>await\<close> of a miss is a second step, as other calls may run between the two.\<close>

definition cache_lookup :: "string \<Rightarrow> parse_cache \<Rightarrow> parsed_command option \<times> parse_cache" where
  "cache_lookup cmd m =
     (case js_get m cmd of
        Some p \<Rightarrow> (Some p, js_set cmd p (js_delete cmd m))
      | None \<Rightarrow> (None, m))"

definition cache_store :: "string \<Rightarrow> parsed_command \<Rightarrow> parse_cache \<Rightarrow> parse_cache" where
  "cache_store cmd p m = js_set cmd p (if PARSE_CACHE_MAX \<le> length m then js_drop_oldest m else m)"

definition cachedParse :: "(string \<Rightarrow> parsed_command) \<Rightarrow> string \<Rightarrow> parse_cache \<Rightarrow> parsed_command \<times> parse_cache" where
  "cachedParse pf cmd m =
     (case cache_lookup cmd m of
        (Some p, m') \<Rightarrow> (p, m')
      | (None, m') \<Rightarrow> (pf cmd, cache_store cmd (pf cmd) m'))"

datatype cache_event = Lookup string | Parsed string

fun cache_step :: "(string \<Rightarrow> parsed_command) \<Rightarrow> parse_cache \<Rightarrow> cache_event \<Rightarrow> parse_cache" where
  "cache_step pf m (Lookup cmd) = snd (cache_lookup cmd m)"
| "cache_step pf m (Parsed cmd) = cache_store cmd (pf cmd) m"

definition cache_ok :: "(string \<Rightarrow> parsed_command) \<Rightarrow> parse_cache \<Rightarrow> bool" where
  "cache_ok pf m \<longleftrightarrow> wf_map m \<and> length m \<le> PARSE_CACHE_MAX \<and> (\<forall>(cmd, p) \<in> set m. p = pf cmd)"

section \<open>Action keys\<close>

record action_key =
  key :: string
  depth :: nat

record shell_analysis =
  an_segments :: "segment list"
  an_operators :: "operator list"
  an_opaque :: bool
  an_patterns :: "dangerous_pattern list"

record action_result =
  ar_keys :: "action_key list"
  isSimpleAction :: bool
  primarySegment :: "segment option"

definition SETUP_PREFIX_PROGRAMS :: "string list" where
  "SETUP_PREFIX_PROGRAMS = [''cd'', ''pushd'', ''export'', ''unset'', ''set'']"

definition MAX_ACTION_KEY_DEPTH :: nat where
  "MAX_ACTION_KEY_DEPTH = 3"

definition analyzeShellCommand :: "parsed_command \<Rightarrow> shell_analysis" where
  "analyzeShellCommand p =
     \<lparr>an_segments = segments p,
      an_operators = filter (\<lambda>x. x \<noteq> NoOp) (map sg_operator (segments p)),
      an_opaque = hasOpaqueConstructs p, an_patterns = dangerousPatterns p\<rparr>"

text \<open>Arguments that are not part of the command's identity: flags, paths, numbers, and anything
  with a variable or a quote.\<close>

definition unstable_arg :: "string \<Rightarrow> bool" where
  "unstable_arg a \<longleftrightarrow>
     starts_with a ''-'' \<or> CHR ''/'' \<in> set a \<or> starts_with a ''.'' \<or> (a \<noteq> [] \<and> list_all is_digit a) \<or>
     CHR ''$'' \<in> set a \<or> CHR 0x22 \<in> set a \<or> CHR 0x27 \<in> set a"

fun add_tokens :: "string list \<Rightarrow> string list \<Rightarrow> string list" where
  "add_tokens toks [] = toks"
| "add_tokens toks (a # as) =
     (if MAX_ACTION_KEY_DEPTH \<le> length toks then toks
      else if unstable_arg a then add_tokens toks as
      else add_tokens (toks @ [a]) as)"

definition action_tokens :: "segment \<Rightarrow> string list" where
  "action_tokens s = add_tokens [sg_program s] (sg_args s)"

definition token_keys :: "string list \<Rightarrow> action_key list" where
  "token_keys toks =
     map (\<lambda>d. \<lparr>key = ''action:'' @ join_with '' '' (take d toks), depth = d\<rparr>) (rev [1 ..< Suc (length toks)])"

definition no_keys :: action_result where
  "no_keys = \<lparr>ar_keys = [], isSimpleAction = False, primarySegment = None\<rparr>"

definition is_setup :: "segment \<Rightarrow> bool" where
  "is_setup s \<longleftrightarrow> sg_program s \<in> set SETUP_PREFIX_PROGRAMS"

text \<open>Operators other than \<^verbatim>\<open>&&\<close> and \<^verbatim>\<open>|\<close>, or a separator that was not captured.\<close>

definition complex_chain :: "segment list \<Rightarrow> bool" where
  "complex_chain ss \<longleftrightarrow>
     list_ex (\<lambda>s. sg_operator s \<notin> {NoOp, AndAnd, Bar}) ss \<or> list_ex (\<lambda>s. sg_operator s = NoOp) (tl ss)"

definition pipeline_keys :: "segment list \<Rightarrow> action_result" where
  "pipeline_keys ss =
     (let pre = takeWhile (\<lambda>s. sg_operator s \<noteq> Bar) ss
      in if pre = [] then no_keys
         else (case filter (\<lambda>s. \<not> is_setup s) pre of
                 [s] \<Rightarrow> \<lparr>ar_keys = token_keys (action_tokens s), isSimpleAction = False, primarySegment = Some s\<rparr>
               | _ \<Rightarrow> no_keys))"

definition simple_keys :: "segment list \<Rightarrow> action_result" where
  "simple_keys ss =
     (case dropWhile is_setup ss of
        [s] \<Rightarrow> \<lparr>ar_keys = token_keys (action_tokens s), isSimpleAction = True, primarySegment = Some s\<rparr>
      | _ \<Rightarrow> no_keys)"

definition deriveShellActionKeys :: "shell_analysis \<Rightarrow> action_result" where
  "deriveShellActionKeys a =
     (let ss = an_segments a
      in if ss = [] then no_keys
         else if 1 < length ss \<and> complex_chain ss then no_keys
         else if 1 < length ss \<and> list_ex (\<lambda>s. sg_operator s = Bar) ss then pipeline_keys ss
         else simple_keys ss)"

section \<open>Options for saving a rule\<close>

definition strip_action :: "string \<Rightarrow> string" where
  "strip_action k = (if starts_with k ''action:'' then drop 7 k else k)"

definition key_option :: "action_key \<Rightarrow> allowlist_option" where
  "key_option k =
     \<lparr>al_label = strip_action (key k) @ '' *'',
      al_description = ''Any '' @ [CHR 0x22] @ strip_action (key k) @ [CHR 0x22] @ '' command'',
      al_pattern = key k\<rparr>"

text \<open>Keeping the first option of each pattern.\<close>

fun dedup_options :: "string list \<Rightarrow> allowlist_option list \<Rightarrow> allowlist_option list" where
  "dedup_options seen [] = []"
| "dedup_options seen (x # xs) =
     (if al_pattern x \<in> set seen then dedup_options seen xs
      else x # dedup_options (al_pattern x # seen) xs)"

definition buildShellAllowlistOptions :: "(string \<Rightarrow> parsed_command) \<Rightarrow> string \<Rightarrow> allowlist_option list" where
  "buildShellAllowlistOptions pf cmd =
     (let trimmed = js_trim cmd
      in if trimmed = [] then []
         else (let r = deriveShellActionKeys (analyzeShellCommand (pf trimmed))
               in if \<not> isSimpleAction r \<or> primarySegment r = None
                  then \<lparr>al_label = trimmed, al_description = ''This exact compound command'', al_pattern = trimmed\<rparr> #
                       map key_option (ar_keys r)
                  else dedup_options []
                       (\<lparr>al_label = trimmed, al_description = ''This exact command'', al_pattern = trimmed\<rparr> #
                        map key_option (ar_keys r))))"

section \<open>Lemmas\<close>

lemma cache_okI:
  assumes "wf_map m" "length m \<le> PARSE_CACHE_MAX" "\<And>c q. js_get m c = Some q \<Longrightarrow> q = pf c"
  shows "cache_ok pf m"
  unfolding cache_ok_def using assms(1,2) assms(3) [OF js_get_mem [OF assms(1)]] by blast

lemma cache_okD:
  assumes "cache_ok pf m"
  shows "wf_map m" "length m \<le> PARSE_CACHE_MAX" "js_get m c = Some q \<Longrightarrow> q = pf c"
proof -
  show "wf_map m" "length m \<le> PARSE_CACHE_MAX" using assms by (simp_all add: cache_ok_def)
  assume "js_get m c = Some q"
  then have "(c, q) \<in> set m" by (rule js_get_Some_mem)
  then show "q = pf c" using assms unfolding cache_ok_def by blast
qed

lemma cache_lookup_ok:
  assumes ok: "cache_ok pf m"
  shows "cache_ok pf (snd (cache_lookup cmd m))"
proof (cases "js_get m cmd")
  case (Some p)
  let ?m = "js_set cmd p (js_delete cmd m)"
  have "length ?m = Suc (length (js_delete cmd m))" by (simp add: length_js_set)
  moreover have "length (js_delete cmd m) < length m"
    using Some by (intro length_js_delete_present) simp
  ultimately have len: "length ?m \<le> PARSE_CACHE_MAX" using cache_okD(2) [OF ok] by linarith
  have "q = pf c" if "js_get ?m c = Some q" for c q
  proof (cases "c = cmd")
    case True
    then show ?thesis using that cache_okD(3) [OF ok Some] by simp
  next
    case False
    then show ?thesis using that cache_okD(3) [OF ok] by simp
  qed
  moreover have "wf_map ?m" by (intro wf_map_set wf_map_delete cache_okD(1) [OF ok])
  ultimately have "cache_ok pf ?m" using len by (intro cache_okI)
  then show ?thesis using Some by (simp add: cache_lookup_def)
qed (simp add: cache_lookup_def ok)

lemma cache_store_ok:
  assumes ok: "cache_ok pf m"
  shows "cache_ok pf (cache_store cmd (pf cmd) m)"
proof -
  define m' where "m' = (if PARSE_CACHE_MAX \<le> length m then js_drop_oldest m else m)"
  have wf: "wf_map m'" using cache_okD(1) [OF ok] by (simp add: m'_def wf_map_drop_oldest)
  have "length m' < PARSE_CACHE_MAX"
  proof (cases "PARSE_CACHE_MAX \<le> length m")
    case True
    then have "m \<noteq> []" by (auto simp: PARSE_CACHE_MAX_def)
    then show ?thesis using length_drop_oldest [of m] cache_okD(2) [OF ok] True by (simp add: m'_def)
  qed (simp add: m'_def)
  then have len: "length (js_set cmd (pf cmd) m') \<le> PARSE_CACHE_MAX" by (simp add: length_js_set)
  have old: "js_get m c = Some q" if "js_get m' c = Some q" for c q
    using that js_get_drop_oldest_Some [of m c q] by (simp add: m'_def split: if_splits)
  have "q = pf c" if "js_get (js_set cmd (pf cmd) m') c = Some q" for c q
  proof (cases "c = cmd")
    case False
    then have "js_get m' c = Some q" using that by simp
    then show ?thesis using cache_okD(3) [OF ok] old by blast
  qed (use that in simp)
  then have "cache_ok pf (js_set cmd (pf cmd) m')" using len wf by (intro cache_okI wf_map_set)
  then show ?thesis by (simp add: cache_store_def m'_def)
qed

interpretation parse_lru: invariant_machine "cache_step pf" "cache_ok pf" for pf
proof
  fix s e assume "cache_ok pf s"
  then show "cache_ok pf (cache_step pf s e)" by (cases e) (simp_all add: cache_lookup_ok cache_store_ok)
qed

text \<open>The parse cache is transparent and bounded: after any interleaving of lookups and of stores
  by calls whose parse has finished, a hit is the parse of exactly the command asked for,
  \<^verbatim>\<open>cachedParse\<close> returns what parsing afresh would return, and the cache never holds more than 256
  entries.\<close>

theorem cached_parse_is_parse:
  "fst (cachedParse pf cmd (foldl (cache_step pf) [] es)) = pf cmd \<and>
   length (snd (cachedParse pf cmd (foldl (cache_step pf) [] es))) \<le> PARSE_CACHE_MAX"
proof -
  let ?m = "foldl (cache_step pf) [] es"
  have ok: "cache_ok pf ?m" by (rule parse_lru.inv_run) (simp add: cache_ok_def)
  show ?thesis
  proof (cases "js_get ?m cmd")
    case None
    then show ?thesis using cache_okD(2) [OF cache_store_ok [OF ok, of cmd]]
      by (simp add: cachedParse_def cache_lookup_def)
  next
    case (Some p)
    then show ?thesis using cache_okD(3) [OF ok Some] cache_okD(2) [OF cache_lookup_ok [OF ok, of cmd]]
      by (simp add: cachedParse_def cache_lookup_def)
  qed
qed

lemma add_tokens_stable:
  "length toks \<le> MAX_ACTION_KEY_DEPTH \<Longrightarrow>
   \<exists>as'. add_tokens toks as = toks @ as' \<and> subseq as' (filter (\<lambda>a. \<not> unstable_arg a) as) \<and>
         length (toks @ as') \<le> MAX_ACTION_KEY_DEPTH"
proof (induction toks as rule: add_tokens.induct)
  case (1 toks)
  then show ?case by simp
next
  case (2 toks a as)
  show ?case
  proof (cases "MAX_ACTION_KEY_DEPTH \<le> length toks \<or> unstable_arg a")
    case True
    then show ?thesis using 2 by (cases "MAX_ACTION_KEY_DEPTH \<le> length toks") auto
  next
    case False
    then obtain as' where "add_tokens (toks @ [a]) as = (toks @ [a]) @ as'"
        "subseq as' (filter (\<lambda>a. \<not> unstable_arg a) as)" "length ((toks @ [a]) @ as') \<le> MAX_ACTION_KEY_DEPTH"
      using 2(2) by auto
    then show ?thesis using False by (intro exI [of _ "a # as'"]) simp
  qed
qed

text \<open>What a result with keys says: one segment, its program and some of its stable arguments.\<close>

definition names_segment :: "action_result \<Rightarrow> segment \<Rightarrow> bool" where
  "names_segment r s \<longleftrightarrow> primarySegment r = Some s \<and> ar_keys r = token_keys (action_tokens s)"

lemma complex_chain_ops:
  "list_ex (\<lambda>s. sg_operator s \<in> {OrOr, Semi}) ss \<or> list_ex (\<lambda>s. sg_operator s = NoOp) (tl ss) \<Longrightarrow>
     complex_chain ss"
  by (force simp: complex_chain_def list_ex_iff)

lemma pipeline_keys_cases:
  "pipeline_keys ss = no_keys \<or>
   (\<exists>s \<in> set ss. \<not> is_setup s \<and> names_segment (pipeline_keys ss) s \<and> \<not> isSimpleAction (pipeline_keys ss))"
proof (cases "filter (\<lambda>s. \<not> is_setup s) (takeWhile (\<lambda>s. sg_operator s \<noteq> Bar) ss)")
  case (Cons s rest)
  then have "s \<in> set (filter (\<lambda>s. \<not> is_setup s) (takeWhile (\<lambda>s. sg_operator s \<noteq> Bar) ss))" by simp
  then have "s \<in> set ss" "\<not> is_setup s" by (auto dest: set_takeWhileD)
  then show ?thesis using Cons by (cases rest) (auto simp: pipeline_keys_def Let_def names_segment_def)
qed (simp add: pipeline_keys_def Let_def)

lemma simple_keys_cases:
  obtains "simple_keys ss = no_keys"
  | s where "ss = takeWhile is_setup ss @ [s]" "\<not> is_setup s" "names_segment (simple_keys ss) s"
proof (cases "dropWhile is_setup ss")
  case (Cons s rest)
  then have "\<not> is_setup s" using hd_dropWhile [of is_setup ss] by simp
  moreover have "ss = takeWhile is_setup ss @ s # rest" by (metis Cons takeWhile_dropWhile_id)
  ultimately show ?thesis using Cons that
    by (cases rest) (auto simp: simple_keys_def names_segment_def)
next
  case Nil
  then have "simple_keys ss = no_keys" by (simp only: simple_keys_def list.case)
  then show ?thesis by (rule that(1))
qed

lemma derive_cases:
  obtains (none) "deriveShellActionKeys a = no_keys"
  | (names) s where "s \<in> set (an_segments a)" "names_segment (deriveShellActionKeys a) s"
      "\<not> is_setup s" "1 < length (an_segments a) \<longrightarrow> \<not> complex_chain (an_segments a)"
      "isSimpleAction (deriveShellActionKeys a) \<longrightarrow>
         an_segments a = takeWhile is_setup (an_segments a) @ [s]"
proof -
  let ?ss = "an_segments a" and ?r = "deriveShellActionKeys a"
  have "(?ss = [] \<or> 1 < length ?ss \<and> complex_chain ?ss) \<or>
      (1 < length ?ss \<and> \<not> complex_chain ?ss \<and> ?r = pipeline_keys ?ss) \<or>
      ((1 < length ?ss \<longrightarrow> \<not> complex_chain ?ss) \<and> ?r = simple_keys ?ss)"
    by (simp add: deriveShellActionKeys_def Let_def)
  then consider (nothing) "?ss = [] \<or> 1 < length ?ss \<and> complex_chain ?ss"
    | (pipe) "1 < length ?ss" "\<not> complex_chain ?ss" "?r = pipeline_keys ?ss"
    | (plain) "1 < length ?ss \<longrightarrow> \<not> complex_chain ?ss" "?r = simple_keys ?ss"
    by blast
  then show thesis
  proof cases
    case nothing
    then show ?thesis by (intro none) (auto simp: deriveShellActionKeys_def Let_def)
  next
    case pipe
    from pipeline_keys_cases [of ?ss] show ?thesis
    proof
      assume "\<exists>s \<in> set ?ss. \<not> is_setup s \<and> names_segment (pipeline_keys ?ss) s \<and> \<not> isSimpleAction (pipeline_keys ?ss)"
      then show ?thesis using pipe names by auto
    qed (use pipe none in simp)
  next
    case plain
    show ?thesis
    proof (cases rule: simple_keys_cases [of ?ss])
      case 1
      then show ?thesis using plain none by simp
    next
      case (2 s)
      then have "s \<in> set ?ss" by (metis in_set_conv_decomp)
      then show ?thesis using plain 2 by (intro names [of s]) simp_all
    qed
  qed
qed

lemma key_token_keys:
  "k \<in> set (token_keys toks) \<longleftrightarrow>
   (\<exists>d. 1 \<le> d \<and> d \<le> length toks \<and> k = \<lparr>key = ''action:'' @ join_with '' '' (take d toks), depth = d\<rparr>)"
  by (auto simp: token_keys_def less_Suc_eq_le image_iff)

text \<open>The action keys of a command name one of its segments, never a setup prefix such as
  \<^verbatim>\<open>cd\<close>: each key is \<^verbatim>\<open>action:\<close>, that segment's program, and up to two of its stable arguments in
  order, narrowest key first. A chain with \<^verbatim>\<open>;\<close>, \<^verbatim>\<open>||\<close> or an uncaptured separator has no keys, and a simple
  action is a single command after setup prefixes.\<close>

theorem action_keys_name_one_command:
  "let r = deriveShellActionKeys a; ss = an_segments a in
     ar_keys r = [] \<and> \<not> isSimpleAction r \<and> primarySegment r = None \<or>
     (\<exists>s \<in> set ss. \<exists>as.
        primarySegment r = Some s \<and> \<not> is_setup s \<and>
        subseq as (filter (\<lambda>x. \<not> unstable_arg x) (sg_args s)) \<and> length as \<le> 2 \<and>
        ar_keys r = token_keys (sg_program s # as) \<and>
        \<not> (1 < length ss \<and>
           (list_ex (\<lambda>s. sg_operator s \<in> {OrOr, Semi}) ss \<or> list_ex (\<lambda>s. sg_operator s = NoOp) (tl ss))) \<and>
        \<not> (isSimpleAction r \<and> ss \<noteq> takeWhile is_setup ss @ [s]))"
proof (cases rule: derive_cases [of a])
  case none
  then show ?thesis by (simp add: no_keys_def Let_def)
next
  case (names s)
  obtain as where "action_tokens s = sg_program s # as" "length as \<le> 2"
      "subseq as (filter (\<lambda>x. \<not> unstable_arg x) (sg_args s))"
    using add_tokens_stable [of "[sg_program s]" "sg_args s"]
    by (auto simp: action_tokens_def MAX_ACTION_KEY_DEPTH_def)
  then show ?thesis using names complex_chain_ops [of "an_segments a"] unfolding Let_def names_segment_def by metis
qed

end
