(* ===== verification/Bash_Risk.thy ===== *)
theory Bash_Risk
  imports Arg_Parser Trust_Rules Shell_Identity
begin

text \<open>
  The risk classifier of shell commands (\<^verbatim>\<open>gateway/src/risk/bash-risk-classifier.ts\<close>, with its types
  in \<^verbatim>\<open>risk-types.ts\<close>). A command is parsed into segments; each is classified from the user's
  trust rules and the command registry, wrappers are unwrapped, argument rules raise or lower the
  base risk, and the risk of the command is the highest of its segments, raised further by dangerous
  patterns and opaque constructs. The regular expressions of argument rules are run by the
  JavaScript engine: \<open>re_test\<close>, from pattern and text to a verdict, is an argument.
\<close>

section \<open>Risk levels\<close>

text \<open>\<open>RUndefined\<close> is what the code reads as the risk of an object that is not a registry entry, the
  value of an inherited property; comparisons with it are false.\<close>

datatype command_risk = RLow | RMedium | RHigh | RUnknown | RUndefined

fun riskOrd :: "command_risk \<Rightarrow> nat option" where
  "riskOrd RLow = Some 0"
| "riskOrd RMedium = Some 1"
| "riskOrd RUnknown = Some 2"
| "riskOrd RHigh = Some 3"
| "riskOrd RUndefined = None"

definition ord_gt :: "command_risk \<Rightarrow> command_risk \<Rightarrow> bool" where
  "ord_gt a b \<longleftrightarrow> (case (riskOrd a, riskOrd b) of (Some x, Some y) \<Rightarrow> y < x | _ \<Rightarrow> False)"

definition ord_ge :: "command_risk \<Rightarrow> command_risk \<Rightarrow> bool" where
  "ord_ge a b \<longleftrightarrow> (case (riskOrd a, riskOrd b) of (Some x, Some y) \<Rightarrow> y \<le> x | _ \<Rightarrow> False)"

definition maxRisk :: "command_risk \<Rightarrow> command_risk \<Rightarrow> command_risk" where
  "maxRisk a b = (if ord_ge a b then a else b)"

fun escalateOne :: "command_risk \<Rightarrow> command_risk" where
  "escalateOne RLow = RMedium"
| "escalateOne RMedium = RHigh"
| "escalateOne RHigh = RHigh"
| "escalateOne RUnknown = RUnknown"
| "escalateOne RUndefined = RUndefined"

fun riskToRiskLevel :: "command_risk \<Rightarrow> risk_level option" where
  "riskToRiskLevel RLow = Some LowRisk"
| "riskToRiskLevel RMedium = Some MediumRisk"
| "riskToRiskLevel RHigh = Some HighRisk"
| "riskToRiskLevel RUnknown = Some MediumRisk"
| "riskToRiskLevel RUndefined = None"

fun of_level :: "risk_level \<Rightarrow> command_risk" where
  "of_level LowRisk = RLow"
| "of_level MediumRisk = RMedium"
| "of_level HighRisk = RHigh"

section \<open>The command registry's types\<close>

record arg_rule =
  ar_id :: string
  ar_flags :: "string list"
  ar_valuePattern :: "string option"
  ar_risk :: command_risk
  ar_reason :: string

record spec_attrs =
  sa_baseRisk :: command_risk
  sa_argRules :: "arg_rule list"
  sa_isWrapper :: bool
  sa_nonExecFlags :: "string list option"
  sa_complexSyntax :: bool
  sa_reason :: "string option"
  sa_sandboxAutoApprove :: bool
  sa_filesystemOp :: bool
  sa_argSchema :: "arg_schema option"

datatype risk_spec = RiskSpec (attrs: spec_attrs) (rs_subcommands: "(string \<times> risk_spec) list option")

type_synonym registry = "(string, risk_spec) js_map"

definition spec_of :: "command_risk \<Rightarrow> spec_attrs" where
  "spec_of r =
     \<lparr>sa_baseRisk = r, sa_argRules = [], sa_isWrapper = False, sa_nonExecFlags = None,
      sa_complexSyntax = False, sa_reason = None, sa_sandboxAutoApprove = False,
      sa_filesystemOp = False, sa_argSchema = None\<rparr>"

definition empty_schema :: arg_schema where
  "empty_schema = \<lparr>valueFlags = [], sch_positionals = None, pathFlags = [], respectsDoubleDash = None\<rparr>"

definition schema_of :: "spec_attrs \<Rightarrow> arg_schema" where
  "schema_of a = (case sa_argSchema a of Some s \<Rightarrow> s | None \<Rightarrow> empty_schema)"

text \<open>Reading a property of an object finds the properties of \<^verbatim>\<open>Object.prototype\<close> too; what is found
  there has none of a specification's fields.\<close>

definition OBJECT_PROTOTYPE_KEYS :: "string list" where
  "OBJECT_PROTOTYPE_KEYS =
     [''constructor'', ''__defineGetter__'', ''__defineSetter__'', ''hasOwnProperty'', ''__lookupGetter__'',
      ''__lookupSetter__'', ''isPrototypeOf'', ''propertyIsEnumerable'', ''toString'', ''valueOf'',
      ''__proto__'', ''toLocaleString'']"

definition inherited_spec :: risk_spec where
  "inherited_spec = RiskSpec (spec_of RUndefined) None"

definition property_get :: "registry \<Rightarrow> string \<Rightarrow> risk_spec option" where
  "property_get m k =
     (case js_get m k of
        Some v \<Rightarrow> Some v
      | None \<Rightarrow> if k \<in> set OBJECT_PROTOTYPE_KEYS then Some inherited_spec else None)"

section \<open>Argument rules\<close>

text \<open>An empty pattern counts as none.\<close>

definition rule_pattern :: "arg_rule \<Rightarrow> string option" where
  "rule_pattern r = (case ar_valuePattern r of Some (c # p) \<Rightarrow> Some (c # p) | _ \<Rightarrow> None)"

definition matchesArgRule :: "(string \<Rightarrow> string \<Rightarrow> bool) \<Rightarrow> arg_rule \<Rightarrow> string \<Rightarrow> bool" where
  "matchesArgRule re_test r arg =
     (if ar_flags r \<noteq> []
      then (let inline = (case index_of (CHR ''='') arg of
                            None \<Rightarrow> None
                          | Some i \<Rightarrow> if 0 < i \<and> take i arg \<in> set (ar_flags r) then Some (drop (Suc i) arg) else None)
            in (case inline of
                  Some v \<Rightarrow> (case rule_pattern r of Some p \<Rightarrow> re_test p v | None \<Rightarrow> True)
                | None \<Rightarrow> arg \<in> set (ar_flags r) \<and> rule_pattern r = None))
      else (case rule_pattern r of Some p \<Rightarrow> re_test p arg | None \<Rightarrow> True))"

section \<open>Wrappers, help and subcommands\<close>

definition WRAPPER_SKIP_FIRST_POSITIONAL :: "string list" where
  "WRAPPER_SKIP_FIRST_POSITIONAL = [''timeout'', ''taskset'']"

definition ENV_VALUE_FLAGS :: "string list" where
  "ENV_VALUE_FLAGS = [''-u'', ''--unset'', ''-C'', ''--chdir'']"

definition TIMEOUT_VALUE_FLAGS :: "string list" where
  "TIMEOUT_VALUE_FLAGS = [''-s'', ''--signal'', ''-k'', ''--kill-after'']"

fun wrapped_loop :: "string \<Rightarrow> bool \<Rightarrow> string list \<Rightarrow> (string \<times> string list) option" where
  "wrapped_loop prog skipped [] = None"
| "wrapped_loop prog skipped (arg # as) =
     (if starts_with arg ''-''
      then wrapped_loop prog skipped
             (if prog = ''env'' \<and> arg \<in> set ENV_VALUE_FLAGS \<or> prog = ''timeout'' \<and> arg \<in> set TIMEOUT_VALUE_FLAGS
              then drop 1 as else as)
      else if prog = ''env'' \<and> CHR ''='' \<in> set arg then wrapped_loop prog skipped as
      else if prog \<in> set WRAPPER_SKIP_FIRST_POSITIONAL \<and> \<not> skipped then wrapped_loop prog True as
      else Some (arg, as))"

definition getWrappedProgramWithArgs :: "string \<Rightarrow> string list \<Rightarrow> (string \<times> string list) option" where
  "getWrappedProgramWithArgs prog as = wrapped_loop prog False as"

lemma wrapped_shorter: "wrapped_loop prog b as = Some (p, as') \<Longrightarrow> length as' < length as"
  by (induction prog b as rule: wrapped_loop.induct) (auto split: if_splits)

definition firstPositionalArg :: "string list \<Rightarrow> string list \<Rightarrow> string option" where
  "firstPositionalArg as valueFs =
     (case positionals (parseArgs as (empty_schema\<lparr>valueFlags := valueFs, sch_positionals := Some NoneDef\<rparr>)) of
        [] \<Rightarrow> None
      | p # _ \<Rightarrow> Some p)"

fun help_loop :: "string list \<Rightarrow> string list \<Rightarrow> bool" where
  "help_loop valueFs [] = False"
| "help_loop valueFs (arg # as) =
     (if arg = ''--'' then False
      else if arg \<in> set valueFs then help_loop valueFs (drop 1 as)
      else if starts_with arg ''-'' \<and> \<not> starts_with arg ''--'' \<and> 2 < length arg \<and> [CHR ''-'', last arg] \<in> set valueFs
      then help_loop valueFs (drop 1 as)
      else if starts_with arg ''-'' \<and>
              (case index_of (CHR ''='') arg of None \<Rightarrow> False | Some i \<Rightarrow> take i arg \<in> set valueFs)
      then help_loop valueFs as
      else if arg = ''--help'' \<or> starts_with arg ''--help='' then True
      else help_loop valueFs as)"

definition hasStandaloneHelpFlag :: "string list \<Rightarrow> arg_schema option \<Rightarrow> bool" where
  "hasStandaloneHelpFlag as schema = (case schema of None \<Rightarrow> False | Some s \<Rightarrow> help_loop (valueFlags s) as)"

text \<open>One level of the subcommand tree: the name, its specification, and the arguments after its
  first occurrence (\<^verbatim>\<open>args.indexOf\<close>).\<close>

definition sub_step :: "risk_spec \<Rightarrow> string list \<Rightarrow> (string \<times> risk_spec \<times> string list) option" where
  "sub_step spec as =
     (case rs_subcommands spec of
        None \<Rightarrow> None
      | Some subs \<Rightarrow>
          if as = [] then None
          else (case firstPositionalArg as (valueFlags (schema_of (attrs spec))) of
                  None \<Rightarrow> None
                | Some name \<Rightarrow>
                    if name = [] then None
                    else (case property_get subs name of
                            None \<Rightarrow> None
                          | Some sub \<Rightarrow> Some (name, sub, tl (dropWhile (\<lambda>a. a \<noteq> name) as)))))"

lemma sub_step_shorter: "sub_step spec as = Some (n, s, as') \<Longrightarrow> length as' < length as"
  using length_dropWhile_le [of "\<lambda>a. a \<noteq> n" as]
  by (cases as) (auto simp: sub_step_def split: option.splits if_splits intro: le_less_trans)

function resolveSubcommand :: "risk_spec \<Rightarrow> string list \<Rightarrow> risk_spec \<times> string list" where
  "resolveSubcommand spec as =
     (case sub_step spec as of
        None \<Rightarrow> (spec, as)
      | Some (name, sub, as') \<Rightarrow> resolveSubcommand sub as')"
  by pat_completeness auto

termination by (relation "measure (length \<circ> snd)") (auto dest: sub_step_shorter)

text \<open>The walk that collects the names, the loop inside \<^verbatim>\<open>classifySegment\<close>.\<close>

function subcommandChain :: "risk_spec \<Rightarrow> string list \<Rightarrow> string list" where
  "subcommandChain spec as =
     (case sub_step spec as of
        None \<Rightarrow> []
      | Some (name, sub, as') \<Rightarrow> name # subcommandChain sub as')"
  by pat_completeness auto

termination by (relation "measure (length \<circ> snd)") (auto dest: sub_step_shorter)

declare resolveSubcommand.simps [simp del] subcommandChain.simps [simp del]

section \<open>Classifying a segment\<close>

text \<open>What a classification depends on: the pattern engine, the registry, and the rule cache
  (\<open>None\<close> before it is initialised, when reading it throws and the code falls through).\<close>

record bash_env =
  re_test :: "string \<Rightarrow> string \<Rightarrow> bool"
  registry :: registry
  rule_cache :: "rule_cache option"

record seg_result =
  sr_risk :: command_risk
  sr_reason :: string
  sr_matchType :: string

definition cached_rule :: "bash_env \<Rightarrow> string \<Rightarrow> string \<Rightarrow> string option \<Rightarrow> rule option" where
  "cached_rule E tool cmd wd = (case rule_cache E of None \<Rightarrow> None | Some m \<Rightarrow> findBaseRisk m tool cmd wd)"

text \<open>The program's entry, else the entry of its last path component.\<close>

definition find_spec :: "registry \<Rightarrow> string \<Rightarrow> string \<times> risk_spec option" where
  "find_spec reg prog =
     (case js_get reg prog of
        Some s \<Rightarrow> (prog, Some s)
      | None \<Rightarrow>
          (let bare = last (split_on (CHR ''/'') prog)
           in if bare \<noteq> [] then (bare, js_get reg bare) else (prog, None)))"

definition or_text :: "string option \<Rightarrow> string \<Rightarrow> string" where
  "or_text v d = (case v of Some (c # t) \<Rightarrow> c # t | _ \<Rightarrow> d)"

definition is_nonexec :: "spec_attrs \<Rightarrow> string list \<Rightarrow> bool" where
  "is_nonexec a as = (case sa_nonExecFlags a of None \<Rightarrow> False | Some fs \<Rightarrow> as \<noteq> [] \<and> hd as \<in> set fs)"

text \<open>Step 4b: the rule that replaces the base risk, looked up under the program and its positional
  arguments, then under the program and its subcommands.\<close>

definition positional_pattern :: "bash_env \<Rightarrow> string \<Rightarrow> string list \<Rightarrow> string" where
  "positional_pattern E prog as =
     (let ps = (case property_get (registry E) prog of
                  Some s \<Rightarrow> (case sa_argSchema (attrs s) of
                               Some sch \<Rightarrow> positionals (parseArgs as sch)
                             | None \<Rightarrow> filter (\<lambda>a. \<not> starts_with a ''-'') as)
                | None \<Rightarrow> filter (\<lambda>a. \<not> starts_with a ''-'') as)
      in if ps \<noteq> [] then prog @ '' '' @ join_with '' '' ps else prog)"

definition subcommand_pattern :: "string \<Rightarrow> risk_spec \<Rightarrow> string list \<Rightarrow> string" where
  "subcommand_pattern prog spec as =
     (let chain = subcommandChain spec as in if chain \<noteq> [] then prog @ '' '' @ join_with '' '' chain else prog)"

definition base_rule :: "bash_env \<Rightarrow> string \<Rightarrow> string \<Rightarrow> risk_spec \<Rightarrow> string list \<Rightarrow> string option \<Rightarrow> rule option" where
  "base_rule E tool prog spec as wd =
     (let pp = positional_pattern E prog as; sp = subcommand_pattern prog spec as
      in case cached_rule E tool pp wd of
           Some r \<Rightarrow> Some r
         | None \<Rightarrow> if sp \<noteq> pp then cached_rule E tool sp wd else None)"

text \<open>Step 5: whether a rule fires, by its three shapes, and the highest rule that does.\<close>

definition rule_fires :: "(string \<Rightarrow> string \<Rightarrow> bool) \<Rightarrow> parsed_args \<Rightarrow> string list \<Rightarrow> arg_rule \<Rightarrow> bool" where
  "rule_fires re p as r =
     (if ar_flags r \<noteq> [] \<and> rule_pattern r \<noteq> None
      then list_ex (\<lambda>f. case js_get (flags p) f of Some (FlagStr v) \<Rightarrow> re (the (rule_pattern r)) v | _ \<Rightarrow> False) (ar_flags r)
           \<or> list_ex (matchesArgRule re r) as
      else if ar_flags r \<noteq> []
      then list_ex (\<lambda>f. js_has (flags p) f) (ar_flags r) \<or> list_ex (matchesArgRule re r) as
      else (case rule_pattern r of
              Some q \<Rightarrow> list_ex (re q) (positionals p) \<or> list_ex (re q) as
            | None \<Rightarrow> True))"

definition rule_max :: "(string \<Rightarrow> string \<Rightarrow> bool) \<Rightarrow> parsed_args \<Rightarrow> string list \<Rightarrow>
    (command_risk \<times> string) option \<Rightarrow> arg_rule \<Rightarrow> (command_risk \<times> string) option" where
  "rule_max re p as best r =
     (if rule_fires re p as r
      then (case best of
              None \<Rightarrow> Some (ar_risk r, ar_reason r)
            | Some (b, why) \<Rightarrow> if ord_gt (ar_risk r) b then Some (ar_risk r, ar_reason r) else Some (b, why))
      else best)"

definition matched_risk :: "(string \<Rightarrow> string \<Rightarrow> bool) \<Rightarrow> arg_rule list \<Rightarrow> parsed_args \<Rightarrow> string list \<Rightarrow> (command_risk \<times> string) option" where
  "matched_risk re rs p as = foldl (rule_max re p as) None rs"

text \<open>Whether some argument is covered by no rule, which keeps the base risk as a floor: a positional
  no pattern-only rule matches, or a non-flag argument no rule matches.\<close>

definition hasUnmatchedNonFlagArg :: "(string \<Rightarrow> string \<Rightarrow> bool) \<Rightarrow> arg_rule list \<Rightarrow> parsed_args \<Rightarrow> string list \<Rightarrow> bool" where
  "hasUnmatchedNonFlagArg re rs p as \<longleftrightarrow>
     list_ex (\<lambda>x. \<not> list_ex (\<lambda>r. ar_flags r = [] \<and> (case rule_pattern r of Some q \<Rightarrow> re q x | None \<Rightarrow> False)) rs)
       (positionals p) \<or>
     list_ex (\<lambda>x. \<not> starts_with x ''-'' \<and>
                  \<not> list_ex (\<lambda>r. matchesArgRule re r x \<or> rule_pattern r \<noteq> None \<and> x \<in> set (ar_flags r)) rs) as"

definition apply_arg_rules ::
    "(string \<Rightarrow> string \<Rightarrow> bool) \<Rightarrow> spec_attrs \<Rightarrow> string list \<Rightarrow> seg_result \<Rightarrow> seg_result" where
  "apply_arg_rules re a as res =
     (let p = parseArgs as (schema_of a) in
      case matched_risk re (sa_argRules a) p as of
        None \<Rightarrow> res
      | Some (m, why) \<Rightarrow>
          if ord_ge m (sr_risk res) \<or> \<not> hasUnmatchedNonFlagArg re (sa_argRules a) p as
          then \<lparr>sr_risk = m, sr_reason = why, sr_matchType = ''registry''\<rparr>
          else res)"

text \<open>Step 6: a \<^verbatim>\<open>$\<close> in some argument raises the risk one level above the base.\<close>

definition expand_variables :: "string \<Rightarrow> command_risk \<Rightarrow> string list \<Rightarrow> seg_result \<Rightarrow> seg_result" where
  "expand_variables prog base as res =
     (if list_ex (\<lambda>a. CHR ''$'' \<in> set a) as
      then (let escalated = escalateOne (maxRisk (sr_risk res) base)
            in if ord_gt escalated (sr_risk res)
               then res\<lparr>sr_risk := escalated, sr_reason := prog @ '' with variable expansion''\<rparr> else res)
      else res)"

definition RM_SAFE_BARE_FILES :: "string list" where
  "RM_SAFE_BARE_FILES = [''BOOTSTRAP.md'']"

definition RM_BENIGN_FLAGS :: "string list" where
  "RM_BENIGN_FLAGS = [''-f'', ''-i'', ''-v'', ''--force'', ''--interactive'', ''--verbose'']"

text \<open>Step 7: removing one known safe file.\<close>

definition rm_downgrade :: "string \<Rightarrow> string \<Rightarrow> string list \<Rightarrow> seg_result \<Rightarrow> seg_result" where
  "rm_downgrade prog tool as res =
     (if prog = ''rm'' \<and> tool = ''bash'' \<and> sr_risk res = RHigh
      then (case filter (\<lambda>a. \<not> starts_with a ''-'') as of
              [f] \<Rightarrow>
                if list_all (\<lambda>a. a \<in> set RM_BENIGN_FLAGS) (filter (\<lambda>a. starts_with a ''-'') as) \<and>
                   CHR ''/'' \<notin> set f \<and> f \<in> set RM_SAFE_BARE_FILES
                then \<lparr>sr_risk = RMedium, sr_reason = ''rm of known safe file: '' @ f, sr_matchType = ''registry''\<rparr>
                else res
            | _ \<Rightarrow> res)
      else res)"

text \<open>Steps 4 to 7, for a command that is not unwrapped.\<close>

definition classify_plain ::
    "bash_env \<Rightarrow> segment \<Rightarrow> string \<Rightarrow> risk_spec \<Rightarrow> string \<Rightarrow> string option \<Rightarrow> seg_result" where
  "classify_plain E seg prog spec tool wd =
     (let a = attrs (fst (resolveSubcommand spec (sg_args seg)));
          rl = base_rule E tool prog spec (sg_args seg) wd;
          base = (case rl of Some r \<Rightarrow> of_level (risk r) | None \<Rightarrow> sa_baseRisk a);
          mt = (case rl of Some r \<Rightarrow> if rl_userModified r \<or> rl_origin r = OriginUser then ''user_rule'' else ''registry''
                | None \<Rightarrow> ''registry'');
          start = \<lparr>sr_risk = base, sr_reason = or_text (sa_reason a) (sg_program seg @ '' (default)''), sr_matchType = mt\<rparr>;
          ruled = (if sa_argRules a \<noteq> [] then apply_arg_rules (re_test E) a (sg_args seg) start else start)
      in rm_downgrade prog tool (sg_args seg) (expand_variables (sg_program seg) base (sg_args seg) ruled))"

function classifySegment :: "bash_env \<Rightarrow> segment \<Rightarrow> string \<Rightarrow> string option \<Rightarrow> seg_result"
and classifyRegistry :: "bash_env \<Rightarrow> segment \<Rightarrow> string \<Rightarrow> string option \<Rightarrow> seg_result" where
  "classifySegment E seg tool wd =
     (case cached_rule E tool (sg_command seg) wd of
        Some r \<Rightarrow>
          if rl_origin r = OriginUser
          then \<lparr>sr_risk = of_level (risk r), sr_reason = description r, sr_matchType = ''user_rule''\<rparr>
          else classifyRegistry E seg tool wd
      | None \<Rightarrow> classifyRegistry E seg tool wd)"
| "classifyRegistry E seg tool wd =
     (case find_spec (registry E) (sg_program seg) of
        (prog, None) \<Rightarrow> \<lparr>sr_risk = RUnknown, sr_reason = ''Unknown command: '' @ sg_program seg, sr_matchType = ''unknown''\<rparr>
      | (prog, Some spec) \<Rightarrow>
          if rs_subcommands spec = None \<and> \<not> sa_isWrapper (attrs spec) \<and>
             hasStandaloneHelpFlag (sg_args seg) (sa_argSchema (attrs spec))
          then \<lparr>sr_risk = RLow, sr_reason = sg_program seg @ '' help output'', sr_matchType = ''registry''\<rparr>
          else if sa_isWrapper (attrs spec) \<and> \<not> is_nonexec (attrs spec) (sg_args seg)
          then (case getWrappedProgramWithArgs (sg_program seg) (sg_args seg) of
                  Some (inner, as) \<Rightarrow>
                    (let r = classifySegment E \<lparr>sg_command = join_with '' '' (inner # as), sg_program = inner, sg_args = as,
                                               sg_operator = sg_operator seg, synthetic = False\<rparr> tool wd
                     in \<lparr>sr_risk = maxRisk (sa_baseRisk (attrs spec)) (sr_risk r),
                         sr_reason = or_text (Some (sr_reason r)) (prog @ '' wrapping '' @ inner),
                         sr_matchType = sr_matchType r\<rparr>)
                | None \<Rightarrow>
                    \<lparr>sr_risk = sa_baseRisk (attrs spec), sr_reason = or_text (sa_reason (attrs spec)) prog,
                     sr_matchType = ''registry''\<rparr>)
          else classify_plain E seg prog spec tool wd)"
  by pat_completeness auto

termination
  by (relation "measures [case_sum (\<lambda>(_, s, _). length (sg_args s)) (\<lambda>(_, s, _). length (sg_args s)),
                          case_sum (\<lambda>_. 1) (\<lambda>_. 0)]")
    (auto simp: getWrappedProgramWithArgs_def dest: wrapped_shorter)

declare classifySegment.simps [simp del] classifyRegistry.simps [simp del]

section \<open>Scope options\<close>

record pattern_option =
  po_pattern :: string
  po_label :: string

definition REGEX_SPECIALS :: "char list" where
  "REGEX_SPECIALS = ''.*+?^${}()|[]'' @ [CHR 0x5C]"

definition escapeRegex :: "string \<Rightarrow> string" where
  "escapeRegex s = concat (map (\<lambda>c. if c \<in> set REGEX_SPECIALS then [CHR 0x5C, c] else [c]) s)"

definition re_boundary :: string where
  "re_boundary = [CHR 0x5C, CHR ''b'']"

definition re_spaces :: string where
  "re_spaces = [CHR 0x5C, CHR ''s'', CHR ''+'']"

definition addOption :: "pattern_option \<Rightarrow> pattern_option list \<Rightarrow> pattern_option list" where
  "addOption x xs = (if po_pattern x \<in> set (map po_pattern xs) then xs else xs @ [x])"

definition exact_option :: "string \<Rightarrow> pattern_option" where
  "exact_option t = \<lparr>po_pattern = ''^'' @ escapeRegex t @ ''$'', po_label = t\<rparr>"

definition program_option :: "string \<Rightarrow> pattern_option" where
  "program_option prog = \<lparr>po_pattern = ''^'' @ escapeRegex prog @ re_boundary, po_label = prog @ '' *''\<rparr>"

definition flat_flags :: "(string, flag_value) js_map \<Rightarrow> string list" where
  "flat_flags m = concat (map (\<lambda>(f, v). case v of FlagStr t \<Rightarrow> [f, t] | FlagTrue \<Rightarrow> [f]) m)"

text \<open>The label and pattern of a rung that keeps some positionals.\<close>

definition kept_option :: "string \<Rightarrow> string list \<Rightarrow> string list \<Rightarrow> string list \<Rightarrow> pattern_option" where
  "kept_option prog sub fs kept =
     \<lparr>po_pattern = ''^'' @ join_with re_spaces (map escapeRegex (filter (\<lambda>t. t \<noteq> []) (prog # sub @ fs @ kept)))
                   @ re_spaces @ ''.*$'',
      po_label = join_with '' '' (prog # sub @ fs @ kept @ [''*''])\<rparr>"

definition flag_positionals :: "risk_spec option \<Rightarrow> string list \<Rightarrow> string list \<times> string list" where
  "flag_positionals spec as =
     (case spec of
        Some s \<Rightarrow>
          (case sa_argSchema (attrs s) of
             Some sch \<Rightarrow> (let p = parseArgs as sch in (flat_flags (flags p), positionals p))
           | None \<Rightarrow> (filter (\<lambda>a. starts_with a ''-'') as, filter (\<lambda>a. \<not> starts_with a ''-'') as))
      | None \<Rightarrow> (filter (\<lambda>a. starts_with a ''-'') as, filter (\<lambda>a. \<not> starts_with a ''-'') as))"

definition detected_subcommand :: "risk_spec option \<Rightarrow> string list \<Rightarrow> string list" where
  "detected_subcommand spec ps =
     (case spec of
        None \<Rightarrow> []
      | Some s \<Rightarrow>
          (case rs_subcommands s of
             None \<Rightarrow> []
           | Some subs \<Rightarrow>
               (case ps of
                  [] \<Rightarrow> []
                | p # _ \<Rightarrow> if property_get subs p \<noteq> None \<and> p \<noteq> [] then [p] else [])))"

definition single_options :: "registry \<Rightarrow> segment \<Rightarrow> pattern_option list" where
  "single_options reg seg =
     (let prog = sg_program seg;
          spec = property_get reg prog;
          opts = addOption (exact_option (sg_command seg)) []
      in if (case spec of Some s \<Rightarrow> sa_complexSyntax (attrs s) | None \<Rightarrow> False)
         then addOption (program_option prog) opts
         else (let (fs, ps) = flag_positionals spec (sg_args seg);
                   sub = detected_subcommand spec ps;
                   wps = (if sub \<noteq> [] then drop 1 ps else ps);
                   opts = foldl (\<lambda>acc drp. addOption (kept_option prog sub fs (take (length wps - drp) wps)) acc)
                            opts [1 ..< length wps];
                   opts = (if fs \<noteq> []
                           then addOption \<lparr>po_pattern = ''^'' @ join_with re_spaces (map escapeRegex (prog # sub)) @ re_boundary,
                                           po_label = join_with '' '' (prog # sub @ [''*''])\<rparr> opts
                           else opts);
                   opts = (if sub \<noteq> []
                           then addOption \<lparr>po_pattern = ''^'' @ escapeRegex prog @ re_spaces @ escapeRegex (hd sub) @ re_boundary,
                                           po_label = prog @ '' '' @ hd sub @ '' *''\<rparr> opts
                           else opts)
               in addOption (program_option prog) opts))"

definition generateScopeOptions :: "registry \<Rightarrow> parsed_command \<Rightarrow> pattern_option list" where
  "generateScopeOptions reg p =
     (case segments p of
        [] \<Rightarrow> []
      | [seg] \<Rightarrow> single_options reg seg
      | _ \<Rightarrow>
          foldl (\<lambda>acc prog. addOption (program_option prog) acc) (addOption (exact_option (originalCommand p)) [])
            (js_set_of (map sg_program (filter (\<lambda>s. \<not> synthetic s) (segments p)))))"

section \<open>Options for a trust rule\<close>

definition labelToActionPattern :: "string \<Rightarrow> string" where
  "labelToActionPattern label =
     ''action:'' @ join_with '' '' (filter (\<lambda>t. \<not> starts_with t ''-'' \<and> t \<noteq> ''*'') (split_spaces label))"

definition later_option :: "pattern_option \<Rightarrow> allowlist_option" where
  "later_option x =
     (let l = po_label x in
      if ends_with l '' *'' \<and> CHR '' '' \<notin> set (take (length l - 2) l)
      then \<lparr>al_label = l, al_description = ''Any '' @ take (length l - 2) l @ '' command'',
            al_pattern = ''action:'' @ take (length l - 2) l\<rparr>
      else \<lparr>al_label = l, al_description = ''Commands matching this pattern'', al_pattern = labelToActionPattern l\<rparr>)"

definition scopeOptionsToAllowlistOptions :: "pattern_option list \<Rightarrow> allowlist_option list" where
  "scopeOptionsToAllowlistOptions opts =
     (case opts of
        [] \<Rightarrow> []
      | x # xs \<Rightarrow>
          dedup_options []
            (\<lparr>al_label = po_label x, al_description = ''This exact command'', al_pattern = po_label x\<rparr> #
             map later_option xs))"

section \<open>Classifying a command\<close>

record bash_assessment =
  ba_riskLevel :: command_risk
  ba_reason :: string
  ba_scopeOptions :: "pattern_option list"
  ba_matchType :: string
  ba_allowlistOptions :: "allowlist_option list"

text \<open>The fold over the segments: the highest risk so far with its reason and match type.\<close>

definition segment_max :: "seg_result \<Rightarrow> seg_result \<Rightarrow> seg_result" where
  "segment_max best r =
     (if ord_gt (sr_risk r) (sr_risk best) then r
      else if sr_reason best = [] \<and> sr_reason r \<noteq> []
      then best\<lparr>sr_reason := sr_reason r, sr_matchType := sr_matchType r\<rparr>
      else best)"

definition segments_risk :: "bash_env \<Rightarrow> segment list \<Rightarrow> string \<Rightarrow> string option \<Rightarrow> seg_result" where
  "segments_risk E ss tool wd =
     foldl segment_max \<lparr>sr_risk = RLow, sr_reason = [], sr_matchType = ''registry''\<rparr>
       (map (\<lambda>s. classifySegment E s tool wd) ss)"

definition raise_to :: "command_risk \<Rightarrow> seg_result \<Rightarrow> seg_result" where
  "raise_to r res = (if ord_gt r (sr_risk res) then res\<lparr>sr_risk := r\<rparr> else res)"

definition parsed_risk :: "bash_env \<Rightarrow> parsed_command \<Rightarrow> string \<Rightarrow> string option \<Rightarrow> seg_result" where
  "parsed_risk E p tool wd =
     (let r1 = (if segments p = []
                then \<lparr>sr_risk = RHigh, sr_reason = ''No parseable command segments'', sr_matchType = ''unknown''\<rparr>
                else segments_risk E (segments p) tool wd);
          r2 = (case dangerousPatterns p of
                  [] \<Rightarrow> r1
                | d # _ \<Rightarrow> (raise_to RHigh r1)\<lparr>sr_reason := dp_description d\<rparr>)
      in if hasOpaqueConstructs p
         then (let r3 = raise_to (if dangerousPatterns p \<noteq> [] then RHigh else RMedium) r2
               in if sr_reason r3 = [] then r3\<lparr>sr_reason := ''Command contains opaque constructs''\<rparr> else r3)
         else r2)"

definition classify_parsed :: "bash_env \<Rightarrow> parsed_command \<Rightarrow> string \<Rightarrow> string option \<Rightarrow> bash_assessment" where
  "classify_parsed E p tool wd =
     (let r = parsed_risk E p tool wd; opts = generateScopeOptions (registry E) p
      in \<lparr>ba_riskLevel = sr_risk r, ba_reason = sr_reason r, ba_scopeOptions = opts,
          ba_matchType = sr_matchType r, ba_allowlistOptions = scopeOptionsToAllowlistOptions opts\<rparr>)"

definition classify_bash ::
    "bash_env \<Rightarrow> (string \<Rightarrow> parsed_command) \<Rightarrow> string \<Rightarrow> string \<Rightarrow> string option \<Rightarrow> bash_assessment" where
  "classify_bash E pf cmd tool wd =
     (if js_trim cmd = []
      then \<lparr>ba_riskLevel = RLow, ba_reason = ''Empty command'', ba_scopeOptions = [], ba_matchType = ''registry'',
            ba_allowlistOptions = []\<rparr>
      else (case cached_rule E tool cmd wd of
              Some r \<Rightarrow>
                if rl_origin r = OriginUser
                then \<lparr>ba_riskLevel = of_level (risk r), ba_reason = description r, ba_scopeOptions = [],
                      ba_matchType = ''user_rule'', ba_allowlistOptions = []\<rparr>
                else classify_parsed E (pf cmd) tool wd
            | None \<Rightarrow> classify_parsed E (pf cmd) tool wd))"

end
