(* ===== verification/Registry_A_L.thy ===== *)
theory Registry_A_L
  imports Bash_Risk
begin

text \<open>
  The entries of the default command registry, one per file of
  \<^verbatim>\<open>gateway/src/risk/command-registry/commands/\<close>, programs from \<^verbatim>\<open>7z\<close> to about \<^verbatim>\<open>m\<close>. A field the
  file leaves out has its default from \<^const>\<open>spec_of\<close>.
\<close>

section \<open>Shared pieces\<close>

definition plain_spec :: "command_risk \<Rightarrow> risk_spec" where
  "plain_spec r = RiskSpec (spec_of r) None"

text \<open>The two patterns many entries share: sensitive dot directories and system directories.\<close>

definition re_sensitive :: string where
  "re_sensitive = ''(?:^|/)(?:'' @ [CHR 0x5C] @ ''.ssh|'' @ [CHR 0x5C] @ ''.gnupg|'' @ [CHR 0x5C] @ ''.aws|'' @
     [CHR 0x5C] @ ''.config|'' @ [CHR 0x5C] @ ''.env)'' @ [CHR 0x5C] @ ''b''"

definition re_system :: string where
  "re_system = ''^/(?:usr|bin|sbin|lib|boot|dev|proc|sys)'' @ [CHR 0x5C] @ ''b''"

section \<open>Entries\<close>

definition cmd__7z :: risk_spec where
  "cmd__7z =
     RiskSpec ((spec_of RMedium)\<lparr>sa_filesystemOp := True,
       sa_argSchema := Some empty_schema\<rparr>) None"

definition cmd__7za :: risk_spec where
  "cmd__7za =
     RiskSpec ((spec_of RMedium)\<lparr>sa_filesystemOp := True,
       sa_argSchema := Some empty_schema\<rparr>) None"

definition cmd_ack :: risk_spec where
  "cmd_ack =
     RiskSpec ((spec_of RLow)\<lparr>sa_sandboxAutoApprove := True,
       sa_argSchema := Some (empty_schema\<lparr>sch_positionals := Some (Descs [\<lparr>pd_role = RPattern, rest = False\<rparr>, \<lparr>pd_role = RPath, rest = True\<rparr>])\<rparr>)\<rparr>) None"

definition cmd_adduser :: risk_spec where
  "cmd_adduser =
     RiskSpec ((spec_of RHigh)\<lparr>sa_reason := Some ''Creates system user''\<rparr>) None"

definition cmd_ag :: risk_spec where
  "cmd_ag =
     RiskSpec ((spec_of RLow)\<lparr>sa_sandboxAutoApprove := True,
       sa_argSchema := Some (empty_schema\<lparr>sch_positionals := Some (Descs [\<lparr>pd_role = RPattern, rest = False\<rparr>, \<lparr>pd_role = RPath, rest = True\<rparr>])\<rparr>)\<rparr>) None"

definition cmd_alias :: risk_spec where
  "cmd_alias =
     plain_spec RLow"

definition cmd_ant :: risk_spec where
  "cmd_ant =
     RiskSpec ((spec_of RHigh)\<lparr>sa_reason := Some ''Executes Ant targets and tasks''\<rparr>) None"

definition cmd_apk :: risk_spec where
  "cmd_apk =
     RiskSpec ((spec_of RHigh)\<lparr>sa_reason := Some ''Installs/removes system packages''\<rparr>) None"

definition cmd_apt :: risk_spec where
  "cmd_apt =
     RiskSpec ((spec_of RHigh)\<lparr>sa_reason := Some ''Installs/removes system packages''\<rparr>) None"

definition cmd_apt_get :: risk_spec where
  "cmd_apt_get =
     RiskSpec ((spec_of RHigh)\<lparr>sa_reason := Some ''Installs/removes system packages''\<rparr>) None"

definition cmd_at :: risk_spec where
  "cmd_at =
     RiskSpec ((spec_of RHigh)\<lparr>sa_reason := Some ''Schedules command execution''\<rparr>) None"

definition cmd_awk :: risk_spec where
  "cmd_awk =
     RiskSpec ((spec_of RMedium)\<lparr>sa_reason := Some ''Can execute shell commands via system()'',
       sa_complexSyntax := True,
       sa_argSchema := Some (empty_schema\<lparr>sch_positionals := Some (Descs [\<lparr>pd_role = RScript, rest = False\<rparr>, \<lparr>pd_role = RPath, rest = True\<rparr>])\<rparr>)\<rparr>) None"

definition cmd_aws :: risk_spec where
  "cmd_aws =
     RiskSpec ((spec_of RHigh)\<lparr>sa_reason := Some ''Can mutate cloud infrastructure''\<rparr>) None"

definition cmd_az :: risk_spec where
  "cmd_az =
     RiskSpec ((spec_of RHigh)\<lparr>sa_reason := Some ''Can mutate cloud infrastructure''\<rparr>) None"

definition cmd_b2sum :: risk_spec where
  "cmd_b2sum =
     RiskSpec ((spec_of RLow)\<lparr>sa_filesystemOp := True\<rparr>) None"

definition cmd_base64 :: risk_spec where
  "cmd_base64 =
     RiskSpec ((spec_of RLow)\<lparr>sa_argSchema := Some empty_schema\<rparr>) None"

definition cmd_basename :: risk_spec where
  "cmd_basename =
     RiskSpec ((spec_of RLow)\<lparr>sa_sandboxAutoApprove := True,
       sa_argSchema := Some empty_schema\<rparr>) None"

definition cmd_bash :: risk_spec where
  "cmd_bash =
     RiskSpec ((spec_of RHigh)\<lparr>sa_reason := Some ''Executes arbitrary shell commands'',
       sa_complexSyntax := True\<rparr>) None"

definition cmd_bazel :: risk_spec where
  "cmd_bazel =
     RiskSpec ((spec_of RHigh)\<lparr>sa_reason := Some ''Executes project-defined build actions''\<rparr>) None"

definition cmd_brew :: risk_spec where
  "cmd_brew =
     RiskSpec (spec_of RMedium) (Some
      [(''list'', (plain_spec RLow)),
       (''info'', (plain_spec RLow)),
       (''search'', (plain_spec RLow)),
       (''install'', (plain_spec RMedium)),
       (''update'', (plain_spec RMedium)),
       (''upgrade'', (plain_spec RMedium)),
       (''uninstall'', (plain_spec RHigh))])"

definition cmd_bun :: risk_spec where
  "cmd_bun =
     RiskSpec (spec_of RMedium) (Some
      [(''install'', (plain_spec RMedium)),
       (''add'', (plain_spec RMedium)),
       (''update'', (plain_spec RMedium)),
       (''test'', (RiskSpec ((spec_of RHigh)\<lparr>sa_reason := Some ''Executes arbitrary test code''\<rparr>) None)),
       (''run'', (RiskSpec ((spec_of RHigh)\<lparr>sa_reason := Some ''Executes arbitrary scripts''\<rparr>) None))])"

definition cmd_bunx :: risk_spec where
  "cmd_bunx =
     RiskSpec ((spec_of RHigh)\<lparr>sa_reason := Some ''Downloads and executes arbitrary packages''\<rparr>) None"

definition cmd_bunzip2 :: risk_spec where
  "cmd_bunzip2 =
     RiskSpec ((spec_of RMedium)\<lparr>sa_filesystemOp := True,
       sa_argSchema := Some empty_schema\<rparr>) None"

definition cmd_bzip2 :: risk_spec where
  "cmd_bzip2 =
     RiskSpec ((spec_of RMedium)\<lparr>sa_filesystemOp := True,
       sa_argSchema := Some empty_schema\<rparr>) None"

definition cmd_cal :: risk_spec where
  "cmd_cal =
     plain_spec RLow"

definition cmd_cargo :: risk_spec where
  "cmd_cargo =
     RiskSpec (spec_of RMedium) (Some
      [(''build'', (plain_spec RMedium)),
       (''check'', (plain_spec RMedium)),
       (''test'', (RiskSpec ((spec_of RHigh)\<lparr>sa_reason := Some ''Executes arbitrary test code''\<rparr>) None)),
       (''run'', (RiskSpec ((spec_of RHigh)\<lparr>sa_reason := Some ''Compiles and executes code''\<rparr>) None)),
       (''install'', (plain_spec RMedium)),
       (''uninstall'', (plain_spec RMedium))])"

definition cmd_cat :: risk_spec where
  "cmd_cat =
     RiskSpec ((spec_of RLow)\<lparr>sa_sandboxAutoApprove := True,
       sa_filesystemOp := True,
       sa_argSchema := Some empty_schema,
       sa_argRules :=
        [\<lparr>ar_id = ''cat:sensitive'', ar_flags = [], ar_valuePattern = Some re_sensitive, ar_risk = RHigh, ar_reason = ''Reads sensitive file''\<rparr>]\<rparr>) None"

definition cmd_cd :: risk_spec where
  "cmd_cd =
     plain_spec RLow"

definition cmd_chgrp :: risk_spec where
  "cmd_chgrp =
     RiskSpec ((spec_of RHigh)\<lparr>sa_reason := Some ''Changes file group'',
       sa_sandboxAutoApprove := True,
       sa_argSchema := Some empty_schema\<rparr>) None"

definition cmd_chmod :: risk_spec where
  "cmd_chmod =
     RiskSpec ((spec_of RHigh)\<lparr>sa_reason := Some ''Changes file permissions'',
       sa_sandboxAutoApprove := True,
       sa_filesystemOp := True,
       sa_argSchema := Some empty_schema\<rparr>) None"

definition cmd_chown :: risk_spec where
  "cmd_chown =
     RiskSpec ((spec_of RHigh)\<lparr>sa_reason := Some ''Changes file ownership'',
       sa_sandboxAutoApprove := True,
       sa_filesystemOp := True,
       sa_argSchema := Some empty_schema\<rparr>) None"

definition cmd_chroot :: risk_spec where
  "cmd_chroot =
     RiskSpec ((spec_of RHigh)\<lparr>sa_reason := Some ''Changes root directory for command''\<rparr>) None"

definition cmd_cksum :: risk_spec where
  "cmd_cksum =
     RiskSpec ((spec_of RLow)\<lparr>sa_filesystemOp := True\<rparr>) None"

definition cmd_cmake :: risk_spec where
  "cmd_cmake =
     RiskSpec ((spec_of RHigh)\<lparr>sa_reason := Some ''Evaluates CMake scripts and can execute commands''\<rparr>) None"

definition cmd_cmp :: risk_spec where
  "cmd_cmp =
     RiskSpec ((spec_of RLow)\<lparr>sa_filesystemOp := True,
       sa_argSchema := Some empty_schema\<rparr>) None"

definition cmd_column :: risk_spec where
  "cmd_column =
     RiskSpec ((spec_of RLow)\<lparr>sa_filesystemOp := True,
       sa_argSchema := Some empty_schema\<rparr>) None"

definition cmd_comm :: risk_spec where
  "cmd_comm =
     RiskSpec ((spec_of RLow)\<lparr>sa_filesystemOp := True,
       sa_argSchema := Some empty_schema\<rparr>) None"

definition cmd_command :: risk_spec where
  "cmd_command =
     RiskSpec ((spec_of RLow)\<lparr>sa_isWrapper := True,
       sa_nonExecFlags := Some [''-v'', ''-V''],
       sa_argRules :=
        [\<lparr>ar_id = ''command:lookup'', ar_flags = [''-v'', ''-V''], ar_valuePattern = None, ar_risk = RLow, ar_reason = ''Command lookup''\<rparr>]\<rparr>) None"

definition cmd_composer :: risk_spec where
  "cmd_composer =
     RiskSpec (spec_of RMedium) (Some
      [(''show'', (plain_spec RLow)),
       (''install'', (plain_spec RMedium)),
       (''update'', (plain_spec RMedium)),
       (''remove'', (plain_spec RMedium)),
       (''run-script'', (RiskSpec ((spec_of RHigh)\<lparr>sa_reason := Some ''Executes arbitrary scripts''\<rparr>) None))])"

definition cmd_cp :: risk_spec where
  "cmd_cp =
     RiskSpec ((spec_of RMedium)\<lparr>sa_sandboxAutoApprove := True,
       sa_filesystemOp := True,
       sa_argSchema := Some (empty_schema\<lparr>valueFlags := [''-t'', ''--target-directory''], pathFlags := [''-t'', ''--target-directory'']\<rparr>),
       sa_argRules :=
        [\<lparr>ar_id = ''cp:system'', ar_flags = [], ar_valuePattern = Some re_system, ar_risk = RHigh, ar_reason = ''Copies to system path''\<rparr>]\<rparr>) None"

definition cmd_crontab :: risk_spec where
  "cmd_crontab =
     RiskSpec ((spec_of RHigh)\<lparr>sa_reason := Some ''Schedules privileged command execution''\<rparr>) None"

definition cmd_csplit :: risk_spec where
  "cmd_csplit =
     RiskSpec ((spec_of RMedium)\<lparr>sa_filesystemOp := True,
       sa_argSchema := Some empty_schema\<rparr>) None"

definition cmd_curl :: risk_spec where
  "cmd_curl =
     RiskSpec ((spec_of RMedium)\<lparr>sa_argSchema := Some (empty_schema\<lparr>valueFlags := [''-d'', ''--data'', ''--data-binary'', ''--data-raw'', ''--data-urlencode'', ''-T'', ''--upload-file'', ''-o'', ''--output'', ''-H'', ''--header'', ''-X'', ''--request'', ''-u'', ''--user'', ''-A'', ''--user-agent'', ''-e'', ''--referer'', ''-b'', ''--cookie'', ''-c'', ''--cookie-jar'', ''--connect-timeout'', ''-m'', ''--max-time'', ''--retry'', ''-w'', ''--write-out''], sch_positionals := Some NoneDef\<rparr>),
       sa_argRules :=
        [\<lparr>ar_id = ''curl:upload-data'', ar_flags = [''-d'', ''--data'', ''--data-binary'', ''--data-raw''], ar_valuePattern = Some ''^@'', ar_risk = RHigh, ar_reason = ''Uploads file contents''\<rparr>,
         \<lparr>ar_id = ''curl:upload-file'', ar_flags = [''-T'', ''--upload-file''], ar_valuePattern = None, ar_risk = RHigh, ar_reason = ''Uploads file''\<rparr>,
         \<lparr>ar_id = ''curl:output-sensitive'', ar_flags = [''-o'', ''--output''], ar_valuePattern = Some re_sensitive, ar_risk = RHigh, ar_reason = ''Writes to sensitive path''\<rparr>,
         \<lparr>ar_id = ''curl:localhost'', ar_flags = [], ar_valuePattern = Some (''^https?://(localhost|127'' @ [CHR 0x5C] @ ''.0'' @ [CHR 0x5C] @ ''.0'' @ [CHR 0x5C] @ ''.1|'' @ [CHR 0x5C] @ ''[::1'' @ [CHR 0x5C] @ ''])''), ar_risk = RLow, ar_reason = ''Local request''\<rparr>]\<rparr>) None"

definition cmd_cut :: risk_spec where
  "cmd_cut =
     RiskSpec ((spec_of RLow)\<lparr>sa_sandboxAutoApprove := True,
       sa_argSchema := Some empty_schema\<rparr>) None"

definition cmd_dash :: risk_spec where
  "cmd_dash =
     RiskSpec ((spec_of RHigh)\<lparr>sa_reason := Some ''Executes arbitrary shell commands'',
       sa_complexSyntax := True\<rparr>) None"

definition cmd_date :: risk_spec where
  "cmd_date =
     plain_spec RLow"

definition cmd_dd :: risk_spec where
  "cmd_dd =
     RiskSpec ((spec_of RHigh)\<lparr>sa_reason := Some (''Low-level block device copy '' @ em_dash @ '' can destroy disks'')\<rparr>) None"

definition cmd_declare :: risk_spec where
  "cmd_declare =
     RiskSpec ((spec_of RMedium)\<lparr>sa_reason := Some ''Defines shell variables/functions''\<rparr>) None"

definition cmd_defaults :: risk_spec where
  "cmd_defaults =
     RiskSpec ((spec_of RMedium)\<lparr>sa_reason := Some ''Modifies macOS preference domains''\<rparr>) None"

definition cmd_deluser :: risk_spec where
  "cmd_deluser =
     RiskSpec ((spec_of RHigh)\<lparr>sa_reason := Some ''Deletes system user''\<rparr>) None"

definition cmd_deno :: risk_spec where
  "cmd_deno =
     RiskSpec ((spec_of RHigh)\<lparr>sa_reason := Some ''Executes arbitrary code''\<rparr>) None"

definition cmd_df :: risk_spec where
  "cmd_df =
     RiskSpec ((spec_of RLow)\<lparr>sa_sandboxAutoApprove := True,
       sa_filesystemOp := True,
       sa_argSchema := Some empty_schema\<rparr>) None"

definition cmd_diff :: risk_spec where
  "cmd_diff =
     RiskSpec ((spec_of RLow)\<lparr>sa_sandboxAutoApprove := True,
       sa_filesystemOp := True,
       sa_argSchema := Some empty_schema\<rparr>) None"

definition cmd_dig :: risk_spec where
  "cmd_dig =
     plain_spec RLow"

definition cmd_dir :: risk_spec where
  "cmd_dir =
     RiskSpec ((spec_of RLow)\<lparr>sa_filesystemOp := True,
       sa_argSchema := Some empty_schema\<rparr>) None"

definition cmd_dirname :: risk_spec where
  "cmd_dirname =
     RiskSpec ((spec_of RLow)\<lparr>sa_sandboxAutoApprove := True,
       sa_argSchema := Some empty_schema\<rparr>) None"

definition cmd_dmesg :: risk_spec where
  "cmd_dmesg =
     RiskSpec ((spec_of RMedium)\<lparr>sa_argRules :=
        [\<lparr>ar_id = ''dmesg:clear'', ar_flags = [''-C'', ''--clear'', ''-c''], ar_valuePattern = None, ar_risk = RHigh, ar_reason = ''Clears kernel ring buffer''\<rparr>]\<rparr>) None"

definition cmd_dnf :: risk_spec where
  "cmd_dnf =
     RiskSpec ((spec_of RHigh)\<lparr>sa_reason := Some ''Installs/removes system packages''\<rparr>) None"

definition cmd_doas :: risk_spec where
  "cmd_doas =
     RiskSpec ((spec_of RHigh)\<lparr>sa_reason := Some ''Elevates privileges (OpenBSD sudo alternative)'',
       sa_isWrapper := True\<rparr>) None"

definition cmd_docker :: risk_spec where
  "cmd_docker =
     RiskSpec ((spec_of RMedium)\<lparr>sa_argSchema := Some (empty_schema\<lparr>valueFlags := [''--host'', ''-H'', ''--config'', ''--context'', ''--log-level'']\<rparr>)\<rparr>) (Some
      [(''ps'', (plain_spec RLow)),
       (''images'', (plain_spec RLow)),
       (''inspect'', (plain_spec RLow)),
       (''logs'', (plain_spec RLow)),
       (''info'', (plain_spec RLow)),
       (''version'', (plain_spec RLow)),
       (''login'', (plain_spec RMedium)),
       (''logout'', (plain_spec RMedium)),
       (''build'', (plain_spec RMedium)),
       (''pull'', (plain_spec RMedium)),
       (''push'', (RiskSpec ((spec_of RHigh)\<lparr>sa_reason := Some ''Pushes image to registry''\<rparr>) None)),
       (''cp'', (plain_spec RMedium)),
       (''restart'', (plain_spec RMedium)),
       (''kill'', (RiskSpec ((spec_of RHigh)\<lparr>sa_reason := Some ''Forcefully stops container''\<rparr>) None)),
       (''prune'', (RiskSpec ((spec_of RHigh)\<lparr>sa_reason := Some ''Deletes unused docker resources''\<rparr>) None)),
       (''system'', (RiskSpec (spec_of RMedium) (Some
           [(''df'', (plain_spec RLow)),
            (''prune'', (RiskSpec ((spec_of RHigh)\<lparr>sa_reason := Some ''Deletes unused docker resources''\<rparr>) None))]))),
       (''network'', (RiskSpec (spec_of RMedium) (Some
           [(''ls'', (plain_spec RLow)),
            (''inspect'', (plain_spec RLow)),
            (''create'', (plain_spec RMedium)),
            (''rm'', (plain_spec RMedium)),
            (''prune'', (RiskSpec ((spec_of RHigh)\<lparr>sa_reason := Some ''Deletes docker networks''\<rparr>) None))]))),
       (''volume'', (RiskSpec (spec_of RMedium) (Some
           [(''ls'', (plain_spec RLow)),
            (''inspect'', (plain_spec RLow)),
            (''create'', (plain_spec RMedium)),
            (''rm'', (plain_spec RMedium)),
            (''prune'', (RiskSpec ((spec_of RHigh)\<lparr>sa_reason := Some ''Deletes docker volumes''\<rparr>) None))]))),
       (''compose'', (RiskSpec (spec_of RMedium) (Some
           [(''ps'', (plain_spec RLow)),
            (''logs'', (plain_spec RLow)),
            (''config'', (plain_spec RLow)),
            (''pull'', (plain_spec RMedium)),
            (''build'', (plain_spec RMedium)),
            (''up'', (plain_spec RMedium)),
            (''down'', (plain_spec RMedium)),
            (''start'', (plain_spec RMedium)),
            (''stop'', (plain_spec RMedium)),
            (''restart'', (plain_spec RMedium)),
            (''rm'', (plain_spec RMedium)),
            (''run'', (RiskSpec ((spec_of RHigh)\<lparr>sa_reason := Some ''Runs one-off container command''\<rparr>) None)),
            (''exec'', (RiskSpec ((spec_of RHigh)\<lparr>sa_reason := Some ''Executes command in service container''\<rparr>) None))]))),
       (''run'', (RiskSpec ((spec_of RHigh)\<lparr>sa_reason := Some ''Runs arbitrary container'',
            sa_argSchema := Some (empty_schema\<lparr>valueFlags := [''-v'', ''--volume'', ''-p'', ''--publish'', ''-e'', ''--env'', ''--name'', ''--network'', ''-w'', ''--workdir'', ''--entrypoint'', ''--mount'', ''--cpus'', ''--memory'', ''--user'', ''--platform'']\<rparr>),
            sa_argRules :=
             [\<lparr>ar_id = ''docker-run:privileged'', ar_flags = [''--privileged''], ar_valuePattern = None, ar_risk = RHigh, ar_reason = ''Privileged container with full host access''\<rparr>,
              \<lparr>ar_id = ''docker-run:volume-root'', ar_flags = [''-v'', ''--volume''], ar_valuePattern = Some ''^/:'', ar_risk = RHigh, ar_reason = ''Mounts host root filesystem''\<rparr>]\<rparr>) None)),
       (''exec'', (RiskSpec ((spec_of RHigh)\<lparr>sa_reason := Some ''Executes command in running container''\<rparr>) None)),
       (''rm'', (plain_spec RHigh)),
       (''rmi'', (plain_spec RHigh)),
       (''stop'', (plain_spec RMedium)),
       (''start'', (plain_spec RMedium))])"

definition cmd_dos2unix :: risk_spec where
  "cmd_dos2unix =
     RiskSpec ((spec_of RMedium)\<lparr>sa_filesystemOp := True,
       sa_argSchema := Some empty_schema\<rparr>) None"

definition cmd_du :: risk_spec where
  "cmd_du =
     RiskSpec ((spec_of RLow)\<lparr>sa_sandboxAutoApprove := True,
       sa_filesystemOp := True,
       sa_argSchema := Some empty_schema\<rparr>) None"

definition cmd_echo :: risk_spec where
  "cmd_echo =
     RiskSpec ((spec_of RLow)\<lparr>sa_sandboxAutoApprove := True,
       sa_argSchema := Some (empty_schema\<lparr>sch_positionals := Some NoneDef\<rparr>)\<rparr>) None"

definition cmd_egrep :: risk_spec where
  "cmd_egrep =
     RiskSpec ((spec_of RLow)\<lparr>sa_filesystemOp := True,
       sa_argSchema := Some (empty_schema\<lparr>sch_positionals := Some (Descs [\<lparr>pd_role = RPattern, rest = False\<rparr>, \<lparr>pd_role = RPath, rest = True\<rparr>])\<rparr>)\<rparr>) None"

definition cmd_env :: risk_spec where
  "cmd_env =
     RiskSpec ((spec_of RLow)\<lparr>sa_isWrapper := True\<rparr>) None"

definition cmd_eval :: risk_spec where
  "cmd_eval =
     RiskSpec ((spec_of RHigh)\<lparr>sa_reason := Some ''Evaluates arbitrary shell code''\<rparr>) None"

definition cmd_exec :: risk_spec where
  "cmd_exec =
     RiskSpec ((spec_of RHigh)\<lparr>sa_reason := Some ''Replaces current shell process'',
       sa_isWrapper := True\<rparr>) None"

definition cmd_expand :: risk_spec where
  "cmd_expand =
     RiskSpec ((spec_of RLow)\<lparr>sa_filesystemOp := True,
       sa_argSchema := Some empty_schema\<rparr>) None"

definition cmd_export :: risk_spec where
  "cmd_export =
     plain_spec RLow"

definition cmd_fd :: risk_spec where
  "cmd_fd =
     RiskSpec ((spec_of RLow)\<lparr>sa_sandboxAutoApprove := True,
       sa_argSchema := Some empty_schema\<rparr>) None"

definition cmd_fdisk :: risk_spec where
  "cmd_fdisk =
     RiskSpec ((spec_of RHigh)\<lparr>sa_reason := Some ''Modifies disk partitions''\<rparr>) None"

definition cmd_fgrep :: risk_spec where
  "cmd_fgrep =
     RiskSpec ((spec_of RLow)\<lparr>sa_filesystemOp := True,
       sa_argSchema := Some (empty_schema\<lparr>sch_positionals := Some (Descs [\<lparr>pd_role = RPattern, rest = False\<rparr>, \<lparr>pd_role = RPath, rest = True\<rparr>])\<rparr>)\<rparr>) None"

definition cmd_file :: risk_spec where
  "cmd_file =
     RiskSpec ((spec_of RLow)\<lparr>sa_sandboxAutoApprove := True,
       sa_filesystemOp := True,
       sa_argSchema := Some empty_schema\<rparr>) None"

definition cmd_find :: risk_spec where
  "cmd_find =
     RiskSpec ((spec_of RLow)\<lparr>sa_complexSyntax := True,
       sa_filesystemOp := True,
       sa_argSchema := Some (empty_schema\<lparr>valueFlags := [''-name'', ''-iname'', ''-path'', ''-ipath'', ''-regex'', ''-iregex'', ''-maxdepth'', ''-mindepth'', ''-newer'', ''-user'', ''-group'', ''-printf'', ''-fprintf'']\<rparr>),
       sa_argRules :=
        [\<lparr>ar_id = ''find:exec'', ar_flags = [''-exec'', ''-execdir''], ar_valuePattern = None, ar_risk = RHigh, ar_reason = ''Executes arbitrary commands on matched files''\<rparr>,
         \<lparr>ar_id = ''find:delete'', ar_flags = [''-delete''], ar_valuePattern = None, ar_risk = RHigh, ar_reason = ''Deletes matched files''\<rparr>]\<rparr>) None"

definition cmd_firewall_cmd :: risk_spec where
  "cmd_firewall_cmd =
     RiskSpec ((spec_of RHigh)\<lparr>sa_reason := Some ''Modifies firewall rules''\<rparr>) None"

definition cmd_fish :: risk_spec where
  "cmd_fish =
     RiskSpec ((spec_of RHigh)\<lparr>sa_reason := Some ''Executes arbitrary shell commands'',
       sa_complexSyntax := True\<rparr>) None"

definition cmd_fmt :: risk_spec where
  "cmd_fmt =
     RiskSpec ((spec_of RLow)\<lparr>sa_filesystemOp := True,
       sa_argSchema := Some empty_schema\<rparr>) None"

definition cmd_fold :: risk_spec where
  "cmd_fold =
     RiskSpec ((spec_of RLow)\<lparr>sa_filesystemOp := True,
       sa_argSchema := Some empty_schema\<rparr>) None"

definition cmd_free :: risk_spec where
  "cmd_free =
     plain_spec RLow"

definition cmd_ftp :: risk_spec where
  "cmd_ftp =
     RiskSpec ((spec_of RMedium)\<lparr>sa_reason := Some ''Transfers files over network''\<rparr>) None"

definition cmd_gateway :: risk_spec where
  "cmd_gateway =
     RiskSpec (spec_of RLow) (Some
      [(''contacts'', (RiskSpec (spec_of RLow) (Some
           [(''list'', (plain_spec RLow)),
            (''get'', (plain_spec RLow)),
            (''set-risk-threshold'', (RiskSpec ((spec_of RHigh)\<lparr>sa_reason := Some ''Writes a contact risk ceiling and can escalate auto-approval''\<rparr>) None))])))])"

definition cmd_gcloud :: risk_spec where
  "cmd_gcloud =
     RiskSpec ((spec_of RHigh)\<lparr>sa_reason := Some ''Can mutate cloud infrastructure''\<rparr>) None"

definition cmd_gem :: risk_spec where
  "cmd_gem =
     RiskSpec (spec_of RMedium) (Some
      [(''list'', (plain_spec RLow)),
       (''search'', (plain_spec RLow)),
       (''install'', (plain_spec RMedium)),
       (''uninstall'', (plain_spec RMedium))])"

definition cmd_gh :: risk_spec where
  "cmd_gh =
     RiskSpec ((spec_of RLow)\<lparr>sa_argSchema := Some (empty_schema\<lparr>valueFlags := [''--repo'', ''-R'']\<rparr>)\<rparr>) (Some
      [(''pr'', (RiskSpec (spec_of RLow) (Some
           [(''view'', (plain_spec RLow)),
            (''list'', (plain_spec RLow)),
            (''create'', (plain_spec RMedium)),
            (''merge'', (RiskSpec ((spec_of RHigh)\<lparr>sa_reason := Some ''Merges pull request''\<rparr>) None))]))),
       (''issue'', (RiskSpec (spec_of RLow) (Some
           [(''view'', (plain_spec RLow)),
            (''list'', (plain_spec RLow)),
            (''create'', (plain_spec RMedium))]))),
       (''repo'', (RiskSpec (spec_of RLow) (Some
           [(''view'', (plain_spec RLow)),
            (''clone'', (plain_spec RLow)),
            (''create'', (plain_spec RHigh)),
            (''delete'', (plain_spec RHigh))]))),
       (''api'', (RiskSpec ((spec_of RMedium)\<lparr>sa_reason := Some ''Makes arbitrary GitHub API calls''\<rparr>) None))])"

definition cmd_git :: risk_spec where
  "cmd_git =
     RiskSpec ((spec_of RMedium)\<lparr>sa_argSchema := Some (empty_schema\<lparr>valueFlags := [''-C'', ''-c'', ''--git-dir'', ''--work-tree'', ''--namespace'', ''--super-prefix'', ''--config-env'']\<rparr>)\<rparr>) (Some
      [(''status'', (plain_spec RLow)),
       (''log'', (plain_spec RLow)),
       (''diff'', (plain_spec RLow)),
       (''show'', (plain_spec RLow)),
       (''branch'', (RiskSpec ((spec_of RLow)\<lparr>sa_argRules :=
             [\<lparr>ar_id = ''git-branch:delete'', ar_flags = [''-d'', ''-D'', ''--delete''], ar_valuePattern = None, ar_risk = RMedium, ar_reason = ''Deletes local branch''\<rparr>,
              \<lparr>ar_id = ''git-branch:move'', ar_flags = [''-m'', ''-M'', ''--move''], ar_valuePattern = None, ar_risk = RMedium, ar_reason = ''Renames local branch''\<rparr>,
              \<lparr>ar_id = ''git-branch:copy'', ar_flags = [''-c'', ''-C'', ''--copy''], ar_valuePattern = None, ar_risk = RMedium, ar_reason = ''Copies local branch''\<rparr>]\<rparr>) None)),
       (''tag'', (RiskSpec ((spec_of RLow)\<lparr>sa_argRules :=
             [\<lparr>ar_id = ''git-tag:delete'', ar_flags = [''-d'', ''--delete''], ar_valuePattern = None, ar_risk = RHigh, ar_reason = ''Deletes git tag''\<rparr>]\<rparr>) None)),
       (''remote'', (RiskSpec (spec_of RLow) (Some
           [(''show'', (plain_spec RLow)),
            (''get-url'', (plain_spec RLow)),
            (''add'', (RiskSpec ((spec_of RMedium)\<lparr>sa_reason := Some ''Adds git remote''\<rparr>) None)),
            (''set-url'', (RiskSpec ((spec_of RMedium)\<lparr>sa_reason := Some ''Changes remote URL''\<rparr>) None)),
            (''rename'', (RiskSpec ((spec_of RMedium)\<lparr>sa_reason := Some ''Renames git remote''\<rparr>) None)),
            (''remove'', (RiskSpec ((spec_of RMedium)\<lparr>sa_reason := Some ''Removes git remote''\<rparr>) None)),
            (''prune'', (RiskSpec ((spec_of RMedium)\<lparr>sa_reason := Some ''Prunes stale remote refs''\<rparr>) None))]))),
       (''stash'', (RiskSpec (spec_of RMedium) (Some
           [(''list'', (plain_spec RLow)),
            (''show'', (plain_spec RLow)),
            (''drop'', (RiskSpec ((spec_of RHigh)\<lparr>sa_reason := Some ''Permanently drops stashed changes''\<rparr>) None))]))),
       (''blame'', (plain_spec RLow)),
       (''shortlog'', (plain_spec RLow)),
       (''describe'', (plain_spec RLow)),
       (''rev-parse'', (plain_spec RLow)),
       (''ls-files'', (plain_spec RLow)),
       (''ls-tree'', (plain_spec RLow)),
       (''cat-file'', (plain_spec RLow)),
       (''reflog'', (plain_spec RLow)),
       (''init'', (plain_spec RMedium)),
       (''clone'', (plain_spec RMedium)),
       (''add'', (plain_spec RMedium)),
       (''commit'', (plain_spec RMedium)),
       (''config'', (RiskSpec ((spec_of RMedium)\<lparr>sa_argRules :=
             [\<lparr>ar_id = ''git-config:global'', ar_flags = [''--global''], ar_valuePattern = None, ar_risk = RHigh, ar_reason = ''Modifies global git configuration''\<rparr>,
              \<lparr>ar_id = ''git-config:system'', ar_flags = [''--system''], ar_valuePattern = None, ar_risk = RHigh, ar_reason = ''Modifies system git configuration''\<rparr>]\<rparr>) None)),
       (''checkout'', (plain_spec RMedium)),
       (''restore'', (plain_spec RMedium)),
       (''switch'', (plain_spec RMedium)),
       (''merge'', (plain_spec RMedium)),
       (''cherry-pick'', (plain_spec RMedium)),
       (''revert'', (plain_spec RMedium)),
       (''rm'', (plain_spec RMedium)),
       (''mv'', (plain_spec RMedium)),
       (''rebase'', (RiskSpec ((spec_of RMedium)\<lparr>sa_argRules :=
             [\<lparr>ar_id = ''git-rebase:interactive'', ar_flags = [''-i'', ''--interactive''], ar_valuePattern = None, ar_risk = RHigh, ar_reason = ''Interactive rebase rewrites history''\<rparr>]\<rparr>) None)),
       (''push'', (RiskSpec ((spec_of RMedium)\<lparr>sa_argRules :=
             [\<lparr>ar_id = ''git-push:force'', ar_flags = [''--force'', ''-f'', ''--force-with-lease''], ar_valuePattern = None, ar_risk = RHigh, ar_reason = ''Force push rewrites remote history''\<rparr>]\<rparr>) None)),
       (''pull'', (plain_spec RMedium)),
       (''fetch'', (RiskSpec ((spec_of RLow)\<lparr>sa_argRules :=
             [\<lparr>ar_id = ''git-fetch:prune'', ar_flags = [''-p'', ''--prune''], ar_valuePattern = None, ar_risk = RMedium, ar_reason = ''Prunes stale remote-tracking refs''\<rparr>]\<rparr>) None)),
       (''reset'', (RiskSpec ((spec_of RMedium)\<lparr>sa_argRules :=
             [\<lparr>ar_id = ''git-reset:hard'', ar_flags = [''--hard''], ar_valuePattern = None, ar_risk = RHigh, ar_reason = ''Discards uncommitted changes''\<rparr>]\<rparr>) None)),
       (''clean'', (RiskSpec ((spec_of RHigh)\<lparr>sa_reason := Some ''Removes untracked files''\<rparr>) None)),
       (''bisect'', (plain_spec RLow)),
       (''worktree'', (plain_spec RMedium)),
       (''submodule'', (plain_spec RMedium))])"

definition cmd_go :: risk_spec where
  "cmd_go =
     RiskSpec (spec_of RLow) (Some
      [(''mod'', (plain_spec RLow)),
       (''vet'', (plain_spec RLow)),
       (''version'', (plain_spec RLow)),
       (''build'', (plain_spec RMedium)),
       (''test'', (RiskSpec ((spec_of RHigh)\<lparr>sa_reason := Some ''Executes arbitrary test code''\<rparr>) None)),
       (''run'', (RiskSpec ((spec_of RHigh)\<lparr>sa_reason := Some ''Compiles and executes Go code''\<rparr>) None)),
       (''get'', (RiskSpec ((spec_of RMedium)\<lparr>sa_reason := Some ''Downloads and installs packages; may execute arbitrary code via tool directives''\<rparr>) None)),
       (''generate'', (RiskSpec ((spec_of RHigh)\<lparr>sa_reason := Some ''Runs arbitrary commands via //go:generate directives''\<rparr>) None))])"

definition cmd_gradle :: risk_spec where
  "cmd_gradle =
     RiskSpec ((spec_of RHigh)\<lparr>sa_reason := Some ''Executes Gradle build scripts and plugins''\<rparr>) None"

definition cmd_grep :: risk_spec where
  "cmd_grep =
     RiskSpec ((spec_of RLow)\<lparr>sa_sandboxAutoApprove := True,
       sa_filesystemOp := True,
       sa_argSchema := Some (empty_schema\<lparr>sch_positionals := Some (Descs [\<lparr>pd_role = RPattern, rest = False\<rparr>, \<lparr>pd_role = RPath, rest = True\<rparr>])\<rparr>)\<rparr>) None"

definition cmd_groupadd :: risk_spec where
  "cmd_groupadd =
     RiskSpec ((spec_of RHigh)\<lparr>sa_reason := Some ''Creates system group''\<rparr>) None"

definition cmd_groupdel :: risk_spec where
  "cmd_groupdel =
     RiskSpec ((spec_of RHigh)\<lparr>sa_reason := Some ''Deletes system group''\<rparr>) None"

definition cmd_groupmod :: risk_spec where
  "cmd_groupmod =
     RiskSpec ((spec_of RHigh)\<lparr>sa_reason := Some ''Modifies system group''\<rparr>) None"

definition cmd_groups :: risk_spec where
  "cmd_groups =
     plain_spec RLow"

definition cmd_gunzip :: risk_spec where
  "cmd_gunzip =
     RiskSpec ((spec_of RMedium)\<lparr>sa_sandboxAutoApprove := True,
       sa_filesystemOp := True,
       sa_argSchema := Some empty_schema\<rparr>) None"

definition cmd_gzip :: risk_spec where
  "cmd_gzip =
     RiskSpec ((spec_of RMedium)\<lparr>sa_sandboxAutoApprove := True,
       sa_filesystemOp := True,
       sa_argSchema := Some empty_schema\<rparr>) None"

definition cmd_halt :: risk_spec where
  "cmd_halt =
     RiskSpec ((spec_of RHigh)\<lparr>sa_reason := Some ''Halts the system''\<rparr>) None"

definition cmd_head :: risk_spec where
  "cmd_head =
     RiskSpec ((spec_of RLow)\<lparr>sa_sandboxAutoApprove := True,
       sa_filesystemOp := True,
       sa_argSchema := Some empty_schema\<rparr>) None"

definition cmd_helm :: risk_spec where
  "cmd_helm =
     RiskSpec (spec_of RMedium) (Some
      [(''list'', (plain_spec RLow)),
       (''search'', (plain_spec RLow)),
       (''status'', (plain_spec RLow)),
       (''get'', (plain_spec RLow)),
       (''template'', (plain_spec RLow)),
       (''install'', (RiskSpec ((spec_of RHigh)\<lparr>sa_reason := Some ''Installs workloads to cluster''\<rparr>) None)),
       (''upgrade'', (RiskSpec ((spec_of RHigh)\<lparr>sa_reason := Some ''Upgrades workloads in cluster''\<rparr>) None)),
       (''rollback'', (RiskSpec ((spec_of RHigh)\<lparr>sa_reason := Some ''Rolls back workloads in cluster''\<rparr>) None)),
       (''uninstall'', (RiskSpec ((spec_of RHigh)\<lparr>sa_reason := Some ''Removes workloads from cluster''\<rparr>) None))])"

definition cmd_help :: risk_spec where
  "cmd_help =
     plain_spec RLow"

definition cmd_hexdump :: risk_spec where
  "cmd_hexdump =
     plain_spec RLow"

definition cmd_hg :: risk_spec where
  "cmd_hg =
     RiskSpec (spec_of RMedium) (Some
      [(''status'', (plain_spec RLow)),
       (''log'', (plain_spec RLow)),
       (''diff'', (plain_spec RLow)),
       (''pull'', (plain_spec RMedium)),
       (''update'', (plain_spec RMedium)),
       (''add'', (plain_spec RMedium)),
       (''commit'', (plain_spec RMedium)),
       (''remove'', (plain_spec RHigh))])"

definition cmd_history :: risk_spec where
  "cmd_history =
     plain_spec RLow"

definition cmd_host :: risk_spec where
  "cmd_host =
     plain_spec RLow"

definition cmd_hostname :: risk_spec where
  "cmd_hostname =
     plain_spec RLow"

definition cmd_htop :: risk_spec where
  "cmd_htop =
     plain_spec RLow"

definition cmd_http :: risk_spec where
  "cmd_http =
     plain_spec RMedium"

definition cmd_iconv :: risk_spec where
  "cmd_iconv =
     RiskSpec ((spec_of RLow)\<lparr>sa_argSchema := Some empty_schema\<rparr>) None"

definition cmd_id :: risk_spec where
  "cmd_id =
     plain_spec RLow"

definition cmd_ifconfig :: risk_spec where
  "cmd_ifconfig =
     RiskSpec ((spec_of RMedium)\<lparr>sa_reason := Some ''Can reconfigure network interfaces''\<rparr>) None"

definition cmd_info :: risk_spec where
  "cmd_info =
     plain_spec RLow"

definition cmd_install :: risk_spec where
  "cmd_install =
     RiskSpec ((spec_of RMedium)\<lparr>sa_filesystemOp := True,
       sa_argSchema := Some (empty_schema\<lparr>valueFlags := [''-t'', ''--target-directory''], pathFlags := [''-t'', ''--target-directory'']\<rparr>),
       sa_argRules :=
        [\<lparr>ar_id = ''install:system'', ar_flags = [], ar_valuePattern = Some re_system, ar_risk = RHigh, ar_reason = ''Installs files into system path''\<rparr>]\<rparr>) None"

definition cmd_ionice :: risk_spec where
  "cmd_ionice =
     RiskSpec ((spec_of RLow)\<lparr>sa_isWrapper := True\<rparr>) None"

definition cmd_iostat :: risk_spec where
  "cmd_iostat =
     plain_spec RLow"

definition cmd_ip :: risk_spec where
  "cmd_ip =
     RiskSpec ((spec_of RHigh)\<lparr>sa_reason := Some ''Can reconfigure networking and routing''\<rparr>) None"

definition cmd_ip6tables :: risk_spec where
  "cmd_ip6tables =
     RiskSpec ((spec_of RHigh)\<lparr>sa_reason := Some ''Modifies IPv6 firewall rules''\<rparr>) None"

definition cmd_iptables :: risk_spec where
  "cmd_iptables =
     RiskSpec ((spec_of RHigh)\<lparr>sa_reason := Some ''Modifies firewall rules''\<rparr>) None"

definition cmd_java :: risk_spec where
  "cmd_java =
     RiskSpec ((spec_of RHigh)\<lparr>sa_reason := Some ''Executes Java bytecode'',
       sa_argRules :=
        [\<lparr>ar_id = ''java:version'', ar_flags = [''-version'', ''--version''], ar_valuePattern = None, ar_risk = RLow, ar_reason = ''Prints version''\<rparr>]\<rparr>) None"

definition cmd_javac :: risk_spec where
  "cmd_javac =
     RiskSpec ((spec_of RHigh)\<lparr>sa_reason := Some ''Compilation can run annotation processors''\<rparr>) None"

definition cmd_join :: risk_spec where
  "cmd_join =
     RiskSpec ((spec_of RLow)\<lparr>sa_filesystemOp := True,
       sa_argSchema := Some empty_schema\<rparr>) None"

definition cmd_jq :: risk_spec where
  "cmd_jq =
     RiskSpec ((spec_of RLow)\<lparr>sa_sandboxAutoApprove := True,
       sa_argSchema := Some empty_schema\<rparr>) None"

definition cmd_kill :: risk_spec where
  "cmd_kill =
     RiskSpec ((spec_of RHigh)\<lparr>sa_reason := Some ''Sends signal to process''\<rparr>) None"

definition cmd_killall :: risk_spec where
  "cmd_killall =
     RiskSpec ((spec_of RHigh)\<lparr>sa_reason := Some ''Kills processes by name''\<rparr>) None"

definition cmd_ksh :: risk_spec where
  "cmd_ksh =
     RiskSpec ((spec_of RHigh)\<lparr>sa_reason := Some ''Executes arbitrary shell commands'',
       sa_complexSyntax := True\<rparr>) None"

definition cmd_kubectl :: risk_spec where
  "cmd_kubectl =
     RiskSpec (spec_of RMedium) (Some
      [(''get'', (plain_spec RLow)),
       (''describe'', (plain_spec RLow)),
       (''logs'', (plain_spec RLow)),
       (''top'', (plain_spec RLow)),
       (''version'', (plain_spec RLow)),
       (''cluster-info'', (plain_spec RLow)),
       (''config'', (plain_spec RMedium)),
       (''apply'', (RiskSpec ((spec_of RHigh)\<lparr>sa_reason := Some ''Applies changes to cluster resources''\<rparr>) None)),
       (''patch'', (RiskSpec ((spec_of RHigh)\<lparr>sa_reason := Some ''Mutates cluster resources''\<rparr>) None)),
       (''edit'', (RiskSpec ((spec_of RHigh)\<lparr>sa_reason := Some ''Mutates cluster resources''\<rparr>) None)),
       (''delete'', (RiskSpec ((spec_of RHigh)\<lparr>sa_reason := Some ''Deletes cluster resources''\<rparr>) None)),
       (''replace'', (RiskSpec ((spec_of RHigh)\<lparr>sa_reason := Some ''Replaces cluster resources''\<rparr>) None)),
       (''scale'', (RiskSpec ((spec_of RHigh)\<lparr>sa_reason := Some ''Scales workloads in cluster''\<rparr>) None)),
       (''exec'', (RiskSpec ((spec_of RHigh)\<lparr>sa_reason := Some ''Executes commands in running cluster workloads''\<rparr>) None)),
       (''cp'', (RiskSpec ((spec_of RHigh)\<lparr>sa_reason := Some ''Copies files to/from workloads''\<rparr>) None)),
       (''port-forward'', (RiskSpec ((spec_of RMedium)\<lparr>sa_reason := Some ''Opens local network tunnel''\<rparr>) None))])"

definition cmd_last :: risk_spec where
  "cmd_last =
     plain_spec RLow"

definition cmd_launchctl :: risk_spec where
  "cmd_launchctl =
     RiskSpec ((spec_of RHigh)\<lparr>sa_reason := Some ''Controls macOS services''\<rparr>) None"

definition cmd_less :: risk_spec where
  "cmd_less =
     RiskSpec ((spec_of RLow)\<lparr>sa_sandboxAutoApprove := True,
       sa_filesystemOp := True,
       sa_argSchema := Some empty_schema\<rparr>) None"

definition cmd_ln :: risk_spec where
  "cmd_ln =
     RiskSpec ((spec_of RMedium)\<lparr>sa_sandboxAutoApprove := True,
       sa_filesystemOp := True,
       sa_argSchema := Some (empty_schema\<lparr>valueFlags := [''-t'', ''--target-directory''], pathFlags := [''-t'', ''--target-directory'']\<rparr>)\<rparr>) None"

definition cmd_locate :: risk_spec where
  "cmd_locate =
     plain_spec RLow"

definition cmd_loginctl :: risk_spec where
  "cmd_loginctl =
     RiskSpec ((spec_of RHigh)\<lparr>sa_reason := Some ''Controls system logind sessions''\<rparr>) None"

definition cmd_ls :: risk_spec where
  "cmd_ls =
     RiskSpec ((spec_of RLow)\<lparr>sa_sandboxAutoApprove := True,
       sa_filesystemOp := True,
       sa_argSchema := Some empty_schema\<rparr>) None"

definition cmd_lsof :: risk_spec where
  "cmd_lsof =
     plain_spec RLow"

definition cmd_ltrace :: risk_spec where
  "cmd_ltrace =
     RiskSpec ((spec_of RMedium)\<lparr>sa_reason := Some ''Traces library calls'',
       sa_isWrapper := True\<rparr>) None"

definition cmd_lua :: risk_spec where
  "cmd_lua =
     RiskSpec ((spec_of RHigh)\<lparr>sa_reason := Some ''Executes arbitrary Lua code'',
       sa_argRules :=
        [\<lparr>ar_id = ''lua:version'', ar_flags = [''-v'', ''--version''], ar_valuePattern = None, ar_risk = RLow, ar_reason = ''Prints version''\<rparr>]\<rparr>) None"

definition cmd_make :: risk_spec where
  "cmd_make =
     RiskSpec ((spec_of RHigh)\<lparr>sa_reason := Some ''Executes arbitrary Makefile targets''\<rparr>) None"

definition cmd_man :: risk_spec where
  "cmd_man =
     plain_spec RLow"

definition cmd_md5 :: risk_spec where
  "cmd_md5 =
     RiskSpec ((spec_of RLow)\<lparr>sa_filesystemOp := True\<rparr>) None"

definition cmd_md5sum :: risk_spec where
  "cmd_md5sum =
     RiskSpec ((spec_of RLow)\<lparr>sa_filesystemOp := True\<rparr>) None"

definition cmd_meson :: risk_spec where
  "cmd_meson =
     RiskSpec ((spec_of RHigh)\<lparr>sa_reason := Some ''Configures builds and can execute project-defined commands''\<rparr>) None"

definition cmd_mkdir :: risk_spec where
  "cmd_mkdir =
     RiskSpec ((spec_of RMedium)\<lparr>sa_sandboxAutoApprove := True,
       sa_filesystemOp := True,
       sa_argSchema := Some empty_schema\<rparr>) None"

definition cmd_mkfs :: risk_spec where
  "cmd_mkfs =
     RiskSpec ((spec_of RHigh)\<lparr>sa_reason := Some (''Formats filesystem '' @ em_dash @ '' destroys all data'')\<rparr>) None"

definition cmd_mktemp :: risk_spec where
  "cmd_mktemp =
     RiskSpec ((spec_of RMedium)\<lparr>sa_filesystemOp := True,
       sa_argSchema := Some empty_schema\<rparr>) None"

definition cmd_more :: risk_spec where
  "cmd_more =
     RiskSpec ((spec_of RLow)\<lparr>sa_sandboxAutoApprove := True,
       sa_filesystemOp := True,
       sa_argSchema := Some empty_schema\<rparr>) None"

definition cmd_mount :: risk_spec where
  "cmd_mount =
     RiskSpec ((spec_of RHigh)\<lparr>sa_reason := Some ''Mounts filesystem''\<rparr>) None"

definition cmd_mtr :: risk_spec where
  "cmd_mtr =
     plain_spec RLow"

definition cmd_mv :: risk_spec where
  "cmd_mv =
     RiskSpec ((spec_of RMedium)\<lparr>sa_sandboxAutoApprove := True,
       sa_filesystemOp := True,
       sa_argSchema := Some empty_schema,
       sa_argRules :=
        [\<lparr>ar_id = ''mv:system'', ar_flags = [], ar_valuePattern = Some re_system, ar_risk = RHigh, ar_reason = ''Moves to system path''\<rparr>]\<rparr>) None"

definition cmd_mvn :: risk_spec where
  "cmd_mvn =
     RiskSpec ((spec_of RHigh)\<lparr>sa_reason := Some ''Executes Maven plugins and build scripts''\<rparr>) None"

definition cmd_nc :: risk_spec where
  "cmd_nc =
     RiskSpec ((spec_of RMedium)\<lparr>sa_reason := Some ''Opens arbitrary network connections''\<rparr>) None"

definition cmd_netcat :: risk_spec where
  "cmd_netcat =
     RiskSpec ((spec_of RMedium)\<lparr>sa_reason := Some ''Opens arbitrary network connections''\<rparr>) None"

definition cmd_netstat :: risk_spec where
  "cmd_netstat =
     plain_spec RLow"

definition cmd_networksetup :: risk_spec where
  "cmd_networksetup =
     RiskSpec ((spec_of RHigh)\<lparr>sa_reason := Some ''Modifies macOS network settings''\<rparr>) None"

definition cmd_nft :: risk_spec where
  "cmd_nft =
     RiskSpec ((spec_of RHigh)\<lparr>sa_reason := Some ''Modifies firewall rules''\<rparr>) None"

end
