(* ===== verification/Registry_M_Z.thy ===== *)
theory Registry_M_Z
  imports Registry_A_L
begin

text \<open>
  The entries of the default command registry, continued: the rest of the files of
  \<^verbatim>\<open>gateway/src/risk/command-registry/commands/\<close> except \<^verbatim>\<open>assistant.ts\<close>, which is built by code.
\<close>

definition cmd_nice :: risk_spec where
  "cmd_nice =
     RiskSpec ((spec_of RLow)\<lparr>sa_isWrapper := True\<rparr>) None"

definition cmd_ninja :: risk_spec where
  "cmd_ninja =
     RiskSpec ((spec_of RHigh)\<lparr>sa_reason := Some ''Executes build graph commands''\<rparr>) None"

definition cmd_nl :: risk_spec where
  "cmd_nl =
     RiskSpec ((spec_of RLow)\<lparr>sa_filesystemOp := True,
       sa_argSchema := Some empty_schema\<rparr>) None"

definition cmd_nmap :: risk_spec where
  "cmd_nmap =
     RiskSpec ((spec_of RMedium)\<lparr>sa_reason := Some ''Performs active network scanning''\<rparr>) None"

definition cmd_nmcli :: risk_spec where
  "cmd_nmcli =
     RiskSpec ((spec_of RHigh)\<lparr>sa_reason := Some ''Controls NetworkManager settings''\<rparr>) None"

definition cmd_node :: risk_spec where
  "cmd_node =
     RiskSpec ((spec_of RHigh)\<lparr>sa_reason := Some ''Executes arbitrary JavaScript'',
       sa_argRules :=
        [\<lparr>ar_id = ''node:version'', ar_flags = [''--version'', ''-v''], ar_valuePattern = None, ar_risk = RLow, ar_reason = ''Prints version''\<rparr>,
         \<lparr>ar_id = ''node:eval'', ar_flags = [''-e'', ''--eval''], ar_valuePattern = None, ar_risk = RHigh, ar_reason = ''Evaluates inline JavaScript''\<rparr>]\<rparr>) None"

definition cmd_nohup :: risk_spec where
  "cmd_nohup =
     RiskSpec ((spec_of RLow)\<lparr>sa_isWrapper := True\<rparr>) None"

definition cmd_npm :: risk_spec where
  "cmd_npm =
     RiskSpec ((spec_of RMedium)\<lparr>sa_argSchema := Some (empty_schema\<lparr>valueFlags := [''--prefix'', ''--userconfig'', ''--globalconfig'', ''--cache'']\<rparr>)\<rparr>) (Some
      [(''ls'', (plain_spec RLow)),
       (''list'', (plain_spec RLow)),
       (''outdated'', (plain_spec RLow)),
       (''view'', (plain_spec RLow)),
       (''info'', (plain_spec RLow)),
       (''install'', (RiskSpec ((spec_of RMedium)\<lparr>sa_reason := Some ''Runs lifecycle scripts, downloads code''\<rparr>) None)),
       (''ci'', (RiskSpec ((spec_of RMedium)\<lparr>sa_reason := Some ''Clean install, runs lifecycle scripts''\<rparr>) None)),
       (''uninstall'', (plain_spec RMedium)),
       (''test'', (RiskSpec ((spec_of RHigh)\<lparr>sa_reason := Some ''Executes arbitrary package scripts''\<rparr>) None)),
       (''run'', (RiskSpec ((spec_of RHigh)\<lparr>sa_reason := Some ''Executes arbitrary package scripts''\<rparr>) None)),
       (''exec'', (RiskSpec ((spec_of RHigh)\<lparr>sa_reason := Some ''Executes package binaries''\<rparr>) None)),
       (''publish'', (RiskSpec ((spec_of RHigh)\<lparr>sa_reason := Some ''Publishes package to registry''\<rparr>) None))])"

definition cmd_npx :: risk_spec where
  "cmd_npx =
     RiskSpec ((spec_of RHigh)\<lparr>sa_reason := Some ''Downloads and executes arbitrary packages''\<rparr>) None"

definition cmd_nslookup :: risk_spec where
  "cmd_nslookup =
     plain_spec RLow"

definition cmd_od :: risk_spec where
  "cmd_od =
     RiskSpec ((spec_of RLow)\<lparr>sa_filesystemOp := True,
       sa_argSchema := Some empty_schema\<rparr>) None"

definition cmd_openssl :: risk_spec where
  "cmd_openssl =
     RiskSpec ((spec_of RMedium)\<lparr>sa_reason := Some ''Performs cryptographic operations''\<rparr>) None"

definition cmd_pacman :: risk_spec where
  "cmd_pacman =
     RiskSpec ((spec_of RHigh)\<lparr>sa_reason := Some ''Installs/removes system packages''\<rparr>) None"

definition cmd_parted :: risk_spec where
  "cmd_parted =
     RiskSpec ((spec_of RHigh)\<lparr>sa_reason := Some ''Modifies disk partitions''\<rparr>) None"

definition cmd_passwd :: risk_spec where
  "cmd_passwd =
     RiskSpec ((spec_of RHigh)\<lparr>sa_reason := Some ''Changes account credentials''\<rparr>) None"

definition cmd_paste :: risk_spec where
  "cmd_paste =
     RiskSpec ((spec_of RLow)\<lparr>sa_filesystemOp := True,
       sa_argSchema := Some empty_schema\<rparr>) None"

definition cmd_perl :: risk_spec where
  "cmd_perl =
     RiskSpec ((spec_of RHigh)\<lparr>sa_reason := Some ''Executes arbitrary Perl code'',
       sa_argRules :=
        [\<lparr>ar_id = ''perl:version'', ar_flags = [''--version'', ''-v''], ar_valuePattern = None, ar_risk = RLow, ar_reason = ''Prints version''\<rparr>]\<rparr>) None"

definition cmd_pgrep :: risk_spec where
  "cmd_pgrep =
     plain_spec RLow"

definition cmd_php :: risk_spec where
  "cmd_php =
     RiskSpec ((spec_of RHigh)\<lparr>sa_reason := Some ''Executes arbitrary PHP code'',
       sa_argRules :=
        [\<lparr>ar_id = ''php:version'', ar_flags = [''--version'', ''-v''], ar_valuePattern = None, ar_risk = RLow, ar_reason = ''Prints version''\<rparr>]\<rparr>) None"

definition cmd_ping :: risk_spec where
  "cmd_ping =
     plain_spec RLow"

definition cmd_pip :: risk_spec where
  "cmd_pip =
     RiskSpec (spec_of RMedium) (Some
      [(''list'', (plain_spec RLow)),
       (''show'', (plain_spec RLow)),
       (''freeze'', (plain_spec RLow)),
       (''install'', (plain_spec RMedium)),
       (''uninstall'', (plain_spec RMedium))])"

definition cmd_pip3 :: risk_spec where
  "cmd_pip3 =
     RiskSpec (spec_of RMedium) (Some
      [(''list'', (plain_spec RLow)),
       (''show'', (plain_spec RLow)),
       (''freeze'', (plain_spec RLow)),
       (''install'', (plain_spec RMedium)),
       (''uninstall'', (plain_spec RMedium))])"

definition cmd_pipx :: risk_spec where
  "cmd_pipx =
     RiskSpec (spec_of RMedium) (Some
      [(''list'', (plain_spec RLow)),
       (''install'', (plain_spec RMedium)),
       (''uninstall'', (plain_spec RMedium)),
       (''run'', (RiskSpec ((spec_of RHigh)\<lparr>sa_reason := Some ''Executes package entrypoint''\<rparr>) None))])"

definition cmd_pkill :: risk_spec where
  "cmd_pkill =
     RiskSpec ((spec_of RHigh)\<lparr>sa_reason := Some ''Kills processes by pattern''\<rparr>) None"

definition cmd_plocate :: risk_spec where
  "cmd_plocate =
     plain_spec RLow"

definition cmd_pnpm :: risk_spec where
  "cmd_pnpm =
     RiskSpec (spec_of RMedium) (Some
      [(''list'', (plain_spec RLow)),
       (''install'', (plain_spec RMedium)),
       (''add'', (plain_spec RMedium)),
       (''remove'', (plain_spec RMedium)),
       (''test'', (RiskSpec ((spec_of RHigh)\<lparr>sa_reason := Some ''Executes arbitrary package scripts''\<rparr>) None)),
       (''run'', (RiskSpec ((spec_of RHigh)\<lparr>sa_reason := Some ''Executes arbitrary package scripts''\<rparr>) None)),
       (''exec'', (RiskSpec ((spec_of RHigh)\<lparr>sa_reason := Some ''Executes package binaries''\<rparr>) None)),
       (''dlx'', (RiskSpec ((spec_of RHigh)\<lparr>sa_reason := Some ''Downloads and executes package''\<rparr>) None))])"

definition cmd_pnpx :: risk_spec where
  "cmd_pnpx =
     RiskSpec ((spec_of RHigh)\<lparr>sa_reason := Some ''Downloads and executes arbitrary packages''\<rparr>) None"

definition cmd_poetry :: risk_spec where
  "cmd_poetry =
     RiskSpec (spec_of RMedium) (Some
      [(''show'', (plain_spec RLow)),
       (''install'', (plain_spec RMedium)),
       (''add'', (plain_spec RMedium)),
       (''remove'', (plain_spec RMedium)),
       (''run'', (RiskSpec ((spec_of RHigh)\<lparr>sa_reason := Some ''Executes arbitrary commands''\<rparr>) None))])"

definition cmd_popd :: risk_spec where
  "cmd_popd =
     plain_spec RLow"

definition cmd_port :: risk_spec where
  "cmd_port =
     RiskSpec ((spec_of RHigh)\<lparr>sa_reason := Some ''Installs/removes system packages''\<rparr>) None"

definition cmd_poweroff :: risk_spec where
  "cmd_poweroff =
     RiskSpec ((spec_of RHigh)\<lparr>sa_reason := Some ''Powers off the system''\<rparr>) None"

definition cmd_powershell :: risk_spec where
  "cmd_powershell =
     RiskSpec ((spec_of RHigh)\<lparr>sa_reason := Some ''Executes arbitrary PowerShell code''\<rparr>) None"

definition cmd_pr :: risk_spec where
  "cmd_pr =
     RiskSpec ((spec_of RLow)\<lparr>sa_filesystemOp := True,
       sa_argSchema := Some empty_schema\<rparr>) None"

definition cmd_printenv :: risk_spec where
  "cmd_printenv =
     plain_spec RLow"

definition cmd_printf :: risk_spec where
  "cmd_printf =
     RiskSpec ((spec_of RLow)\<lparr>sa_sandboxAutoApprove := True,
       sa_argSchema := Some (empty_schema\<lparr>sch_positionals := Some NoneDef\<rparr>)\<rparr>) None"

definition cmd_ps :: risk_spec where
  "cmd_ps =
     plain_spec RLow"

definition cmd_pstree :: risk_spec where
  "cmd_pstree =
     plain_spec RLow"

definition cmd_pushd :: risk_spec where
  "cmd_pushd =
     plain_spec RLow"

definition cmd_pwd :: risk_spec where
  "cmd_pwd =
     RiskSpec ((spec_of RLow)\<lparr>sa_sandboxAutoApprove := True,
       sa_argSchema := Some (empty_schema\<lparr>sch_positionals := Some NoneDef\<rparr>)\<rparr>) None"

definition cmd_pwsh :: risk_spec where
  "cmd_pwsh =
     RiskSpec ((spec_of RHigh)\<lparr>sa_reason := Some ''Executes arbitrary PowerShell code''\<rparr>) None"

definition cmd_python :: risk_spec where
  "cmd_python =
     RiskSpec ((spec_of RHigh)\<lparr>sa_reason := Some ''Executes arbitrary Python code'',
       sa_argRules :=
        [\<lparr>ar_id = ''python:version'', ar_flags = [''--version'', ''-V''], ar_valuePattern = None, ar_risk = RLow, ar_reason = ''Prints version''\<rparr>]\<rparr>) None"

definition cmd_python3 :: risk_spec where
  "cmd_python3 =
     RiskSpec ((spec_of RHigh)\<lparr>sa_reason := Some ''Executes arbitrary Python code'',
       sa_argRules :=
        [\<lparr>ar_id = ''python3:version'', ar_flags = [''--version'', ''-V''], ar_valuePattern = None, ar_risk = RLow, ar_reason = ''Prints version''\<rparr>]\<rparr>) None"

definition cmd_R :: risk_spec where
  "cmd_R =
     RiskSpec ((spec_of RHigh)\<lparr>sa_reason := Some ''Executes arbitrary R code''\<rparr>) None"

definition cmd_readlink :: risk_spec where
  "cmd_readlink =
     RiskSpec ((spec_of RLow)\<lparr>sa_sandboxAutoApprove := True,
       sa_filesystemOp := True,
       sa_argSchema := Some empty_schema\<rparr>) None"

definition cmd_readonly :: risk_spec where
  "cmd_readonly =
     RiskSpec ((spec_of RMedium)\<lparr>sa_reason := Some ''Locks shell variable/function state''\<rparr>) None"

definition cmd_realpath :: risk_spec where
  "cmd_realpath =
     RiskSpec ((spec_of RLow)\<lparr>sa_sandboxAutoApprove := True,
       sa_argSchema := Some empty_schema\<rparr>) None"

definition cmd_reboot :: risk_spec where
  "cmd_reboot =
     RiskSpec ((spec_of RHigh)\<lparr>sa_reason := Some ''Reboots the system''\<rparr>) None"

definition cmd_renice :: risk_spec where
  "cmd_renice =
     RiskSpec ((spec_of RMedium)\<lparr>sa_reason := Some ''Changes process scheduling priority''\<rparr>) None"

definition cmd_rev :: risk_spec where
  "cmd_rev =
     RiskSpec ((spec_of RLow)\<lparr>sa_argSchema := Some empty_schema\<rparr>) None"

definition cmd_rg :: risk_spec where
  "cmd_rg =
     RiskSpec ((spec_of RLow)\<lparr>sa_sandboxAutoApprove := True,
       sa_argSchema := Some (empty_schema\<lparr>sch_positionals := Some (Descs [\<lparr>pd_role = RPattern, rest = False\<rparr>, \<lparr>pd_role = RPath, rest = True\<rparr>])\<rparr>)\<rparr>) None"

definition cmd_rm :: risk_spec where
  "cmd_rm =
     RiskSpec ((spec_of RHigh)\<lparr>sa_sandboxAutoApprove := True,
       sa_filesystemOp := True,
       sa_argSchema := Some empty_schema,
       sa_argRules :=
        [\<lparr>ar_id = ''rm:recursive-force'', ar_flags = [''-rf'', ''-fr'', ''-Rf'', ''-fR''], ar_valuePattern = None, ar_risk = RHigh, ar_reason = ''Recursive force delete''\<rparr>,
         \<lparr>ar_id = ''rm:recursive'', ar_flags = [''-r'', ''-R'', ''--recursive''], ar_valuePattern = None, ar_risk = RHigh, ar_reason = ''Recursive delete''\<rparr>,
         \<lparr>ar_id = ''rm:tmp'', ar_flags = [], ar_valuePattern = Some (''^(?:/tmp|/var/tmp|'' @ [CHR 0x5C] @ ''./|'' @ [CHR 0x5C] @ ''.'' @ [CHR 0x5C] @ ''.'' @ [CHR 0x5C] @ ''/)''), ar_risk = RMedium, ar_reason = ''Removes temp files''\<rparr>,
         \<lparr>ar_id = ''rm:system'', ar_flags = [], ar_valuePattern = Some re_system, ar_risk = RHigh, ar_reason = ''Removes system files''\<rparr>,
         \<lparr>ar_id = ''rm:sensitive'', ar_flags = [], ar_valuePattern = Some re_sensitive, ar_risk = RHigh, ar_reason = ''Removes sensitive files''\<rparr>]\<rparr>) None"

definition cmd_rmdir :: risk_spec where
  "cmd_rmdir =
     RiskSpec ((spec_of RHigh)\<lparr>sa_sandboxAutoApprove := True,
       sa_filesystemOp := True,
       sa_argSchema := Some empty_schema\<rparr>) None"

definition cmd_route :: risk_spec where
  "cmd_route =
     RiskSpec ((spec_of RHigh)\<lparr>sa_reason := Some ''Modifies network routing''\<rparr>) None"

definition cmd_Rscript :: risk_spec where
  "cmd_Rscript =
     RiskSpec ((spec_of RHigh)\<lparr>sa_reason := Some ''Executes arbitrary R code''\<rparr>) None"

definition cmd_rsync :: risk_spec where
  "cmd_rsync =
     RiskSpec ((spec_of RHigh)\<lparr>sa_reason := Some ''Remote file sync''\<rparr>) None"

definition cmd_ruby :: risk_spec where
  "cmd_ruby =
     RiskSpec ((spec_of RHigh)\<lparr>sa_reason := Some ''Executes arbitrary Ruby code''\<rparr>) None"

definition cmd_scp :: risk_spec where
  "cmd_scp =
     RiskSpec ((spec_of RHigh)\<lparr>sa_reason := Some ''Remote file transfer''\<rparr>) None"

definition cmd_screen :: risk_spec where
  "cmd_screen =
     RiskSpec ((spec_of RMedium)\<lparr>sa_reason := Some ''Runs shell commands in managed sessions''\<rparr>) None"

definition cmd_sed :: risk_spec where
  "cmd_sed =
     RiskSpec ((spec_of RMedium)\<lparr>sa_reason := Some ''Can write files or execute commands via sed scripts'',
       sa_sandboxAutoApprove := True,
       sa_filesystemOp := True,
       sa_argSchema := Some (empty_schema\<lparr>sch_positionals := Some (Descs [\<lparr>pd_role = RScript, rest = False\<rparr>, \<lparr>pd_role = RPath, rest = True\<rparr>])\<rparr>),
       sa_argRules :=
        [\<lparr>ar_id = ''sed:inplace'', ar_flags = [''-i'', ''--in-place''], ar_valuePattern = None, ar_risk = RMedium, ar_reason = ''Edits files in place''\<rparr>]\<rparr>) None"

definition cmd_seq :: risk_spec where
  "cmd_seq =
     RiskSpec ((spec_of RLow)\<lparr>sa_argSchema := Some (empty_schema\<lparr>sch_positionals := Some NoneDef\<rparr>)\<rparr>) None"

definition cmd_service :: risk_spec where
  "cmd_service =
     RiskSpec ((spec_of RHigh)\<lparr>sa_reason := Some ''Controls system services''\<rparr>) None"

definition cmd_set :: risk_spec where
  "cmd_set =
     RiskSpec ((spec_of RMedium)\<lparr>sa_reason := Some ''Modifies shell options''\<rparr>) None"

definition cmd_sftp :: risk_spec where
  "cmd_sftp =
     RiskSpec ((spec_of RHigh)\<lparr>sa_reason := Some ''Remote file transfer''\<rparr>) None"

definition cmd_sh :: risk_spec where
  "cmd_sh =
     RiskSpec ((spec_of RHigh)\<lparr>sa_reason := Some ''Executes arbitrary shell commands'',
       sa_complexSyntax := True\<rparr>) None"

definition cmd_sha1sum :: risk_spec where
  "cmd_sha1sum =
     RiskSpec ((spec_of RLow)\<lparr>sa_filesystemOp := True\<rparr>) None"

definition cmd_sha256sum :: risk_spec where
  "cmd_sha256sum =
     RiskSpec ((spec_of RLow)\<lparr>sa_filesystemOp := True\<rparr>) None"

definition cmd_sha512sum :: risk_spec where
  "cmd_sha512sum =
     RiskSpec ((spec_of RLow)\<lparr>sa_filesystemOp := True\<rparr>) None"

definition cmd_shred :: risk_spec where
  "cmd_shred =
     RiskSpec ((spec_of RHigh)\<lparr>sa_filesystemOp := True,
       sa_argSchema := Some empty_schema\<rparr>) None"

definition cmd_shuf :: risk_spec where
  "cmd_shuf =
     RiskSpec ((spec_of RLow)\<lparr>sa_argSchema := Some empty_schema\<rparr>) None"

definition cmd_shutdown :: risk_spec where
  "cmd_shutdown =
     RiskSpec ((spec_of RHigh)\<lparr>sa_reason := Some ''Shuts down the system''\<rparr>) None"

definition cmd_sleep :: risk_spec where
  "cmd_sleep =
     RiskSpec ((spec_of RLow)\<lparr>sa_argSchema := Some (empty_schema\<lparr>sch_positionals := Some NoneDef\<rparr>)\<rparr>) None"

definition cmd_sort :: risk_spec where
  "cmd_sort =
     RiskSpec ((spec_of RLow)\<lparr>sa_sandboxAutoApprove := True,
       sa_filesystemOp := True,
       sa_argSchema := Some (empty_schema\<lparr>valueFlags := [''-o'', ''--output''], pathFlags := [''-o'', ''--output'']\<rparr>),
       sa_argRules :=
        [\<lparr>ar_id = ''sort:output'', ar_flags = [''-o'', ''--output''], ar_valuePattern = None, ar_risk = RMedium, ar_reason = ''Writes sorted output to file''\<rparr>,
         \<lparr>ar_id = ''sort:output-sensitive'', ar_flags = [''-o'', ''--output''], ar_valuePattern = Some re_sensitive, ar_risk = RHigh, ar_reason = ''Writes sorted output to sensitive path''\<rparr>]\<rparr>) None"

definition cmd_source :: risk_spec where
  "cmd_source =
     RiskSpec ((spec_of RHigh)\<lparr>sa_reason := Some ''Executes arbitrary shell script''\<rparr>) None"

definition cmd_split :: risk_spec where
  "cmd_split =
     RiskSpec ((spec_of RMedium)\<lparr>sa_filesystemOp := True,
       sa_argSchema := Some empty_schema\<rparr>) None"

definition cmd_ss :: risk_spec where
  "cmd_ss =
     plain_spec RLow"

definition cmd_ssh :: risk_spec where
  "cmd_ssh =
     RiskSpec ((spec_of RHigh)\<lparr>sa_reason := Some ''Opens remote shell''\<rparr>) None"

definition cmd_ssh_add :: risk_spec where
  "cmd_ssh_add =
     RiskSpec ((spec_of RHigh)\<lparr>sa_reason := Some ''Adds private keys to authentication agent''\<rparr>) None"

definition cmd_ssh_copy_id :: risk_spec where
  "cmd_ssh_copy_id =
     RiskSpec ((spec_of RHigh)\<lparr>sa_reason := Some ''Modifies remote authorized_keys''\<rparr>) None"

definition cmd_ssh_keygen :: risk_spec where
  "cmd_ssh_keygen =
     RiskSpec ((spec_of RMedium)\<lparr>sa_reason := Some ''Generates and can overwrite SSH keys'',
       sa_filesystemOp := True,
       sa_argSchema := Some empty_schema\<rparr>) None"

definition cmd_stat :: risk_spec where
  "cmd_stat =
     RiskSpec ((spec_of RLow)\<lparr>sa_sandboxAutoApprove := True,
       sa_filesystemOp := True,
       sa_argSchema := Some empty_schema\<rparr>) None"

definition cmd_strace :: risk_spec where
  "cmd_strace =
     RiskSpec ((spec_of RMedium)\<lparr>sa_reason := Some ''Traces system calls'',
       sa_isWrapper := True\<rparr>) None"

definition cmd_strings :: risk_spec where
  "cmd_strings =
     RiskSpec ((spec_of RLow)\<lparr>sa_filesystemOp := True,
       sa_argSchema := Some empty_schema\<rparr>) None"

definition cmd_su :: risk_spec where
  "cmd_su =
     RiskSpec ((spec_of RHigh)\<lparr>sa_reason := Some ''Switches user identity''\<rparr>) None"

definition cmd_sudo :: risk_spec where
  "cmd_sudo =
     RiskSpec ((spec_of RHigh)\<lparr>sa_reason := Some ''Elevates to superuser privileges'',
       sa_isWrapper := True\<rparr>) None"

definition cmd_svn :: risk_spec where
  "cmd_svn =
     RiskSpec (spec_of RMedium) (Some
      [(''info'', (plain_spec RLow)),
       (''status'', (plain_spec RLow)),
       (''log'', (plain_spec RLow)),
       (''diff'', (plain_spec RLow)),
       (''update'', (plain_spec RMedium)),
       (''add'', (plain_spec RMedium)),
       (''commit'', (plain_spec RMedium)),
       (''delete'', (plain_spec RHigh))])"

definition cmd_sw_vers :: risk_spec where
  "cmd_sw_vers =
     plain_spec RLow"

definition cmd_swift :: risk_spec where
  "cmd_swift =
     RiskSpec (spec_of RLow) (Some
      [(''package'', (plain_spec RLow)),
       (''build'', (plain_spec RMedium)),
       (''test'', (RiskSpec ((spec_of RHigh)\<lparr>sa_reason := Some ''Executes arbitrary test code''\<rparr>) None)),
       (''run'', (RiskSpec ((spec_of RHigh)\<lparr>sa_reason := Some ''Compiles and executes Swift code''\<rparr>) None))])"

definition cmd_sysctl :: risk_spec where
  "cmd_sysctl =
     RiskSpec ((spec_of RMedium)\<lparr>sa_argSchema := Some (empty_schema\<lparr>valueFlags := [''-w'', ''--write'', ''-p'', ''--load'']\<rparr>),
       sa_argRules :=
        [\<lparr>ar_id = ''sysctl:write'', ar_flags = [''-w'', ''--write''], ar_valuePattern = None, ar_risk = RHigh, ar_reason = ''Writes kernel parameters''\<rparr>,
         \<lparr>ar_id = ''sysctl:load'', ar_flags = [''-p'', ''--load'', ''--system''], ar_valuePattern = None, ar_risk = RHigh, ar_reason = ''Loads kernel parameter settings''\<rparr>]\<rparr>) None"

definition cmd_systemctl :: risk_spec where
  "cmd_systemctl =
     RiskSpec ((spec_of RHigh)\<lparr>sa_reason := Some ''Controls system services''\<rparr>) None"

definition cmd_tail :: risk_spec where
  "cmd_tail =
     RiskSpec ((spec_of RLow)\<lparr>sa_sandboxAutoApprove := True,
       sa_filesystemOp := True,
       sa_argSchema := Some empty_schema\<rparr>) None"

definition cmd_tar :: risk_spec where
  "cmd_tar =
     RiskSpec ((spec_of RMedium)\<lparr>sa_complexSyntax := True,
       sa_sandboxAutoApprove := True,
       sa_filesystemOp := True,
       sa_argSchema := Some (empty_schema\<lparr>valueFlags := [''-C'', ''--directory'', ''-f'', ''--file'', ''-I'', ''--use-compress-program'', ''--to-command'', ''--checkpoint-action''], pathFlags := [''-C'', ''--directory'', ''-f'', ''--file'']\<rparr>),
       sa_argRules :=
        [\<lparr>ar_id = ''tar:to-command'', ar_flags = [''--to-command''], ar_valuePattern = None, ar_risk = RHigh, ar_reason = ''Executes arbitrary command during extraction''\<rparr>,
         \<lparr>ar_id = ''tar:checkpoint-action'', ar_flags = [''--checkpoint-action''], ar_valuePattern = None, ar_risk = RHigh, ar_reason = ''Executes action at checkpoints''\<rparr>,
         \<lparr>ar_id = ''tar:use-compress-program'', ar_flags = [''-I'', ''--use-compress-program''], ar_valuePattern = None, ar_risk = RHigh, ar_reason = ''Executes arbitrary compression program''\<rparr>]\<rparr>) None"

definition cmd_taskset :: risk_spec where
  "cmd_taskset =
     RiskSpec ((spec_of RLow)\<lparr>sa_isWrapper := True\<rparr>) None"

definition cmd_tcsh :: risk_spec where
  "cmd_tcsh =
     RiskSpec ((spec_of RHigh)\<lparr>sa_reason := Some ''Executes arbitrary shell commands'',
       sa_complexSyntax := True\<rparr>) None"

definition cmd_tee :: risk_spec where
  "cmd_tee =
     RiskSpec ((spec_of RMedium)\<lparr>sa_sandboxAutoApprove := True,
       sa_filesystemOp := True,
       sa_argSchema := Some empty_schema\<rparr>) None"

definition cmd_telnet :: risk_spec where
  "cmd_telnet =
     RiskSpec ((spec_of RMedium)\<lparr>sa_reason := Some ''Opens remote terminal connection''\<rparr>) None"

definition cmd_terraform :: risk_spec where
  "cmd_terraform =
     RiskSpec (spec_of RMedium) (Some
      [(''fmt'', (plain_spec RLow)),
       (''validate'', (plain_spec RLow)),
       (''plan'', (plain_spec RMedium)),
       (''apply'', (RiskSpec ((spec_of RHigh)\<lparr>sa_reason := Some ''Applies infrastructure changes''\<rparr>) None)),
       (''destroy'', (RiskSpec ((spec_of RHigh)\<lparr>sa_reason := Some ''Destroys managed infrastructure''\<rparr>) None)),
       (''import'', (RiskSpec ((spec_of RHigh)\<lparr>sa_reason := Some ''Mutates Terraform state''\<rparr>) None)),
       (''state'', (RiskSpec ((spec_of RMedium)\<lparr>sa_reason := Some ''Reads or mutates Terraform state''\<rparr>) None))])"

definition cmd_time :: risk_spec where
  "cmd_time =
     RiskSpec ((spec_of RLow)\<lparr>sa_isWrapper := True\<rparr>) None"

definition cmd_timeout :: risk_spec where
  "cmd_timeout =
     RiskSpec ((spec_of RLow)\<lparr>sa_isWrapper := True,
       sa_nonExecFlags := Some [''--help'', ''--version'']\<rparr>) None"

definition cmd_tmux :: risk_spec where
  "cmd_tmux =
     RiskSpec ((spec_of RMedium)\<lparr>sa_reason := Some ''Runs shell commands in managed sessions''\<rparr>) None"

definition cmd_top :: risk_spec where
  "cmd_top =
     plain_spec RLow"

definition cmd_touch :: risk_spec where
  "cmd_touch =
     RiskSpec ((spec_of RMedium)\<lparr>sa_sandboxAutoApprove := True,
       sa_filesystemOp := True,
       sa_argSchema := Some empty_schema\<rparr>) None"

definition cmd_tr :: risk_spec where
  "cmd_tr =
     RiskSpec ((spec_of RLow)\<lparr>sa_sandboxAutoApprove := True,
       sa_argSchema := Some (empty_schema\<lparr>sch_positionals := Some NoneDef\<rparr>)\<rparr>) None"

definition cmd_tracepath :: risk_spec where
  "cmd_tracepath =
     plain_spec RLow"

definition cmd_traceroute :: risk_spec where
  "cmd_traceroute =
     plain_spec RLow"

definition cmd_tree :: risk_spec where
  "cmd_tree =
     RiskSpec ((spec_of RLow)\<lparr>sa_sandboxAutoApprove := True,
       sa_filesystemOp := True,
       sa_argSchema := Some empty_schema\<rparr>) None"

definition cmd_truncate :: risk_spec where
  "cmd_truncate =
     RiskSpec ((spec_of RMedium)\<lparr>sa_filesystemOp := True,
       sa_argSchema := Some empty_schema\<rparr>) None"

definition cmd_ts_node :: risk_spec where
  "cmd_ts_node =
     RiskSpec ((spec_of RHigh)\<lparr>sa_reason := Some ''Executes TypeScript code''\<rparr>) None"

definition cmd_tsx :: risk_spec where
  "cmd_tsx =
     RiskSpec ((spec_of RHigh)\<lparr>sa_reason := Some ''Executes TypeScript/JavaScript code''\<rparr>) None"

definition cmd_type :: risk_spec where
  "cmd_type =
     plain_spec RLow"

definition cmd_typeset :: risk_spec where
  "cmd_typeset =
     RiskSpec ((spec_of RMedium)\<lparr>sa_reason := Some ''Defines shell variables/functions''\<rparr>) None"

definition cmd_ufw :: risk_spec where
  "cmd_ufw =
     RiskSpec ((spec_of RHigh)\<lparr>sa_reason := Some ''Modifies firewall rules''\<rparr>) None"

definition cmd_umask :: risk_spec where
  "cmd_umask =
     RiskSpec ((spec_of RMedium)\<lparr>sa_reason := Some ''Changes default file permission mask''\<rparr>) None"

definition cmd_umount :: risk_spec where
  "cmd_umount =
     RiskSpec ((spec_of RHigh)\<lparr>sa_reason := Some ''Unmounts filesystem''\<rparr>) None"

definition cmd_uname :: risk_spec where
  "cmd_uname =
     plain_spec RLow"

definition cmd_unexpand :: risk_spec where
  "cmd_unexpand =
     RiskSpec ((spec_of RLow)\<lparr>sa_filesystemOp := True,
       sa_argSchema := Some empty_schema\<rparr>) None"

definition cmd_uniq :: risk_spec where
  "cmd_uniq =
     RiskSpec ((spec_of RLow)\<lparr>sa_sandboxAutoApprove := True,
       sa_argSchema := Some empty_schema\<rparr>) None"

definition cmd_unix2dos :: risk_spec where
  "cmd_unix2dos =
     RiskSpec ((spec_of RMedium)\<lparr>sa_filesystemOp := True,
       sa_argSchema := Some empty_schema\<rparr>) None"

definition cmd_unlink :: risk_spec where
  "cmd_unlink =
     RiskSpec ((spec_of RHigh)\<lparr>sa_filesystemOp := True,
       sa_argSchema := Some empty_schema\<rparr>) None"

definition cmd_unset :: risk_spec where
  "cmd_unset =
     plain_spec RLow"

definition cmd_unxz :: risk_spec where
  "cmd_unxz =
     RiskSpec ((spec_of RMedium)\<lparr>sa_filesystemOp := True,
       sa_argSchema := Some empty_schema\<rparr>) None"

definition cmd_unzip :: risk_spec where
  "cmd_unzip =
     RiskSpec ((spec_of RMedium)\<lparr>sa_sandboxAutoApprove := True,
       sa_filesystemOp := True,
       sa_argSchema := Some empty_schema\<rparr>) None"

definition cmd_unzstd :: risk_spec where
  "cmd_unzstd =
     RiskSpec ((spec_of RMedium)\<lparr>sa_filesystemOp := True,
       sa_argSchema := Some empty_schema\<rparr>) None"

definition cmd_uptime :: risk_spec where
  "cmd_uptime =
     plain_spec RLow"

definition cmd_useradd :: risk_spec where
  "cmd_useradd =
     RiskSpec ((spec_of RHigh)\<lparr>sa_reason := Some ''Creates system user''\<rparr>) None"

definition cmd_userdel :: risk_spec where
  "cmd_userdel =
     RiskSpec ((spec_of RHigh)\<lparr>sa_reason := Some ''Deletes system user''\<rparr>) None"

definition cmd_usermod :: risk_spec where
  "cmd_usermod =
     RiskSpec ((spec_of RHigh)\<lparr>sa_reason := Some ''Modifies system user''\<rparr>) None"

definition cmd_users :: risk_spec where
  "cmd_users =
     plain_spec RLow"

definition cmd_uv :: risk_spec where
  "cmd_uv =
     RiskSpec (spec_of RMedium) (Some
      [(''sync'', (plain_spec RMedium)),
       (''add'', (plain_spec RMedium)),
       (''remove'', (plain_spec RMedium)),
       (''run'', (RiskSpec ((spec_of RHigh)\<lparr>sa_reason := Some ''Executes arbitrary commands''\<rparr>) None)),
       (''tool'', (RiskSpec (spec_of RMedium) (Some
           [(''run'', (RiskSpec ((spec_of RHigh)\<lparr>sa_reason := Some ''Executes installed tool''\<rparr>) None))])))])"

definition cmd_vdir :: risk_spec where
  "cmd_vdir =
     RiskSpec ((spec_of RLow)\<lparr>sa_filesystemOp := True,
       sa_argSchema := Some empty_schema\<rparr>) None"

definition cmd_visudo :: risk_spec where
  "cmd_visudo =
     RiskSpec ((spec_of RHigh)\<lparr>sa_reason := Some ''Edits sudo policy''\<rparr>) None"

definition cmd_vmstat :: risk_spec where
  "cmd_vmstat =
     plain_spec RLow"

definition cmd_w :: risk_spec where
  "cmd_w =
     plain_spec RLow"

definition cmd_watch :: risk_spec where
  "cmd_watch =
     RiskSpec ((spec_of RMedium)\<lparr>sa_reason := Some ''Repeatedly executes command''\<rparr>) None"

definition cmd_wc :: risk_spec where
  "cmd_wc =
     RiskSpec ((spec_of RLow)\<lparr>sa_sandboxAutoApprove := True,
       sa_filesystemOp := True,
       sa_argSchema := Some empty_schema\<rparr>) None"

definition cmd_wget :: risk_spec where
  "cmd_wget =
     RiskSpec ((spec_of RMedium)\<lparr>sa_argSchema := Some (empty_schema\<lparr>valueFlags := [''-O'', ''--output-document'', ''-o'', ''--output-file'', ''--post-file'', ''--method'', ''--body-data'', ''--header''], sch_positionals := Some NoneDef\<rparr>),
       sa_argRules :=
        [\<lparr>ar_id = ''wget:post-file'', ar_flags = [''--post-file''], ar_valuePattern = None, ar_risk = RHigh, ar_reason = ''Uploads file contents''\<rparr>,
         \<lparr>ar_id = ''wget:output-sensitive'', ar_flags = [''-O'', ''--output-document''], ar_valuePattern = Some re_sensitive, ar_risk = RHigh, ar_reason = ''Writes response to sensitive path''\<rparr>,
         \<lparr>ar_id = ''wget:localhost'', ar_flags = [], ar_valuePattern = Some (''^https?://(localhost|127'' @ [CHR 0x5C] @ ''.0'' @ [CHR 0x5C] @ ''.0'' @ [CHR 0x5C] @ ''.1|'' @ [CHR 0x5C] @ ''[::1'' @ [CHR 0x5C] @ ''])''), ar_risk = RLow, ar_reason = ''Local request''\<rparr>]\<rparr>) None"

definition cmd_where :: risk_spec where
  "cmd_where =
     plain_spec RLow"

definition cmd_whereis :: risk_spec where
  "cmd_whereis =
     plain_spec RLow"

definition cmd_which :: risk_spec where
  "cmd_which =
     plain_spec RLow"

definition cmd_who :: risk_spec where
  "cmd_who =
     plain_spec RLow"

definition cmd_whoami :: risk_spec where
  "cmd_whoami =
     plain_spec RLow"

definition cmd_wipefs :: risk_spec where
  "cmd_wipefs =
     RiskSpec ((spec_of RHigh)\<lparr>sa_reason := Some ''Erases filesystem and partition signatures''\<rparr>) None"

definition cmd_xargs :: risk_spec where
  "cmd_xargs =
     RiskSpec ((spec_of RMedium)\<lparr>sa_reason := Some ''Executes command with piped arguments'',
       sa_complexSyntax := True\<rparr>) None"

definition cmd_xxd :: risk_spec where
  "cmd_xxd =
     plain_spec RLow"

definition cmd_xz :: risk_spec where
  "cmd_xz =
     RiskSpec ((spec_of RMedium)\<lparr>sa_filesystemOp := True,
       sa_argSchema := Some empty_schema\<rparr>) None"

definition cmd_yarn :: risk_spec where
  "cmd_yarn =
     RiskSpec (spec_of RMedium) (Some
      [(''list'', (plain_spec RLow)),
       (''info'', (plain_spec RLow)),
       (''why'', (plain_spec RLow)),
       (''install'', (plain_spec RMedium)),
       (''add'', (plain_spec RMedium)),
       (''remove'', (plain_spec RMedium)),
       (''test'', (RiskSpec ((spec_of RHigh)\<lparr>sa_reason := Some ''Executes arbitrary package scripts''\<rparr>) None)),
       (''run'', (RiskSpec ((spec_of RHigh)\<lparr>sa_reason := Some ''Executes arbitrary package scripts''\<rparr>) None)),
       (''dlx'', (RiskSpec ((spec_of RHigh)\<lparr>sa_reason := Some ''Downloads and executes package''\<rparr>) None))])"

definition cmd_yes :: risk_spec where
  "cmd_yes =
     RiskSpec ((spec_of RLow)\<lparr>sa_argSchema := Some (empty_schema\<lparr>sch_positionals := Some NoneDef\<rparr>)\<rparr>) None"

definition cmd_yq :: risk_spec where
  "cmd_yq =
     RiskSpec ((spec_of RLow)\<lparr>sa_sandboxAutoApprove := True,
       sa_argSchema := Some empty_schema\<rparr>) None"

definition cmd_yum :: risk_spec where
  "cmd_yum =
     RiskSpec ((spec_of RHigh)\<lparr>sa_reason := Some ''Installs/removes system packages''\<rparr>) None"

definition cmd_zip :: risk_spec where
  "cmd_zip =
     RiskSpec ((spec_of RMedium)\<lparr>sa_sandboxAutoApprove := True,
       sa_filesystemOp := True,
       sa_argSchema := Some empty_schema\<rparr>) None"

definition cmd_zsh :: risk_spec where
  "cmd_zsh =
     RiskSpec ((spec_of RHigh)\<lparr>sa_reason := Some ''Executes arbitrary shell commands'',
       sa_complexSyntax := True\<rparr>) None"

definition cmd_zstd :: risk_spec where
  "cmd_zstd =
     RiskSpec ((spec_of RMedium)\<lparr>sa_filesystemOp := True,
       sa_argSchema := Some empty_schema\<rparr>) None"

definition cmd_zypper :: risk_spec where
  "cmd_zypper =
     RiskSpec ((spec_of RHigh)\<lparr>sa_reason := Some ''Installs/removes system packages''\<rparr>) None"

end
