(* ===== verification/Bash_Safety.thy ===== *)
theory Bash_Safety
  imports Registry_M_Z
begin

text \<open>
  What the shell classifier guarantees: the order on risk levels as a lattice of joins, the risk of
  a command against its segments and patterns, wrappers, the conditions under which
  an argument rule may lower a risk, and the rules a user saves from the options it offers.
\<close>

section \<open>The order on risk levels\<close>

lemma ord_cases:
  "ord_ge a b \<longleftrightarrow> a \<noteq> RUndefined \<and> b \<noteq> RUndefined \<and> the (riskOrd b) \<le> the (riskOrd a)"
  "ord_gt a b \<longleftrightarrow> a \<noteq> RUndefined \<and> b \<noteq> RUndefined \<and> the (riskOrd b) < the (riskOrd a)"
  by (cases a; cases b; simp add: ord_ge_def ord_gt_def)+

lemma riskOrd_inj: "riskOrd a = riskOrd b \<longleftrightarrow> a = b"
  by (cases a; cases b; simp)

lemma ord_ge_refl [simp]: "ord_ge a a \<longleftrightarrow> a \<noteq> RUndefined"
  by (simp add: ord_cases)

lemma ord_ge_trans: "ord_ge a b \<Longrightarrow> ord_ge b c \<Longrightarrow> ord_ge a c"
  by (auto simp: ord_cases)

lemma ord_not_gt: "a \<noteq> RUndefined \<Longrightarrow> b \<noteq> RUndefined \<Longrightarrow> \<not> ord_gt a b \<longleftrightarrow> ord_ge b a"
  by (auto simp: ord_cases)

lemma ord_gt_ge: "ord_gt a b \<Longrightarrow> ord_ge a b"
  by (simp add: ord_cases)

lemma ord_ge_high [simp]: "ord_ge RHigh a \<longleftrightarrow> a \<noteq> RUndefined" "ord_ge a RHigh \<longleftrightarrow> a = RHigh"
  by (cases a; simp add: ord_ge_def)+

lemma ord_ge_low [simp]: "ord_ge a RLow \<longleftrightarrow> a \<noteq> RUndefined"
  by (cases a; simp add: ord_ge_def)

lemma maxRisk_ge:
  "a \<noteq> RUndefined \<Longrightarrow> b \<noteq> RUndefined \<Longrightarrow> ord_ge (maxRisk a b) a \<and> ord_ge (maxRisk a b) b"
  by (cases a; cases b; simp add: maxRisk_def ord_ge_def)

lemma escalate_ge: "a \<noteq> RUndefined \<Longrightarrow> ord_ge (escalateOne a) a"
  by (cases a; simp add: ord_ge_def)

lemma escalate_defined [simp]: "escalateOne a = RUndefined \<longleftrightarrow> a = RUndefined"
  by (cases a) simp_all

lemma of_level_defined [simp]: "of_level r \<noteq> RUndefined"
  by (cases r) simp_all

text \<open>The rank of a level; a level that is not one ranks lowest, as no comparison lets it through.\<close>

definition rank :: "command_risk \<Rightarrow> nat" where
  "rank r = (case riskOrd r of Some n \<Rightarrow> n | None \<Rightarrow> 0)"

lemma rank_simps [simp]: "rank RLow = 0" "rank RMedium = 1" "rank RUnknown = 2" "rank RHigh = 3" "rank RUndefined = 0"
  by (simp_all add: rank_def)

lemma rank_le: "rank r \<le> 3"
  by (cases r) simp_all

lemma ord_gt_rank: "a \<noteq> RUndefined \<Longrightarrow> ord_gt b a \<longleftrightarrow> rank a < rank b"
  by (cases a; cases b; simp add: ord_gt_def)

lemma ord_ge_rank: "ord_ge a b \<longleftrightarrow> a \<noteq> RUndefined \<and> b \<noteq> RUndefined \<and> rank b \<le> rank a"
  by (cases a; cases b; simp add: ord_ge_def)

lemma rank_inj: "a \<noteq> RUndefined \<Longrightarrow> b \<noteq> RUndefined \<Longrightarrow> rank a = rank b \<longleftrightarrow> a = b"
  by (cases a; cases b; simp)

section \<open>The risk of a command\<close>

lemma segment_max_rank:
  assumes "sr_risk best \<noteq> RUndefined"
  shows "sr_risk (segment_max best r) \<noteq> RUndefined"
    "rank (sr_risk (segment_max best r)) = max (rank (sr_risk best)) (rank (sr_risk r))"
  using assms by (auto simp: segment_max_def ord_gt_rank)

lemma fold_segment_max:
  "sr_risk best \<noteq> RUndefined \<Longrightarrow>
   sr_risk (foldl segment_max best rs) \<noteq> RUndefined \<and>
   rank (sr_risk (foldl segment_max best rs)) = Max (insert (rank (sr_risk best)) (rank ` sr_risk ` set rs))"
proof (induction rs arbitrary: best)
  case (Cons r rs)
  have "sr_risk (segment_max best r) \<noteq> RUndefined" using Cons.prems by (rule segment_max_rank)
  from Cons.IH [OF this] show ?case
    by (cases "rs = []") (simp_all add: segment_max_rank [OF Cons.prems] max.assoc)
qed simp

lemma raise_to_rank:
  assumes "sr_risk res \<noteq> RUndefined"
  shows "sr_risk (raise_to t res) \<noteq> RUndefined"
    "rank (sr_risk (raise_to t res)) = max (rank t) (rank (sr_risk res))"
  using assms by (auto simp: raise_to_def ord_gt_rank)

text \<open>The levels that count for a parsed command: those of its segments, high for a dangerous pattern
  or no segments, medium for an opaque construct.\<close>

definition counted_risks :: "bash_env \<Rightarrow> parsed_command \<Rightarrow> string \<Rightarrow> string option \<Rightarrow> command_risk set" where
  "counted_risks E p tool wd =
     {RLow} \<union> (\<lambda>s. sr_risk (classifySegment E s tool wd)) ` set (segments p) \<union>
     (if dangerousPatterns p \<noteq> [] \<or> segments p = [] then {RHigh} else {}) \<union>
     (if hasOpaqueConstructs p then {RMedium} else {})"

lemma segments_risk_rank:
  "sr_risk (segments_risk E ss tool wd) \<noteq> RUndefined"
  "rank (sr_risk (segments_risk E ss tool wd)) =
     Max (insert 0 (rank ` (\<lambda>s. sr_risk (classifySegment E s tool wd)) ` set ss))"
  using fold_segment_max [of "\<lparr>sr_risk = RLow, sr_reason = [], sr_matchType = ''registry''\<rparr>"
      "map (\<lambda>s. classifySegment E s tool wd) ss"]
  by (simp_all add: segments_risk_def image_image)

lemma parsed_risk_rank:
  "sr_risk (parsed_risk E p tool wd) \<noteq> RUndefined"
  "rank (sr_risk (parsed_risk E p tool wd)) = Max (rank ` counted_risks E p tool wd)"
proof -
  define r1 where "r1 = (if segments p = []
      then \<lparr>sr_risk = RHigh, sr_reason = ''No parseable command segments'', sr_matchType = ''unknown''\<rparr>
      else segments_risk E (segments p) tool wd)"
  define r2 where "r2 = (case dangerousPatterns p of [] \<Rightarrow> r1 | d # _ \<Rightarrow> (raise_to RHigh r1)\<lparr>sr_reason := dp_description d\<rparr>)"
  define S where "S = insert 0 (rank ` (\<lambda>s. sr_risk (classifySegment E s tool wd)) ` set (segments p))"
  have S: "finite S" "S \<noteq> {}" "Max S \<le> 3" using rank_le by (auto simp: S_def)
  have r1: "sr_risk r1 \<noteq> RUndefined" "rank (sr_risk r1) = (if segments p = [] then 3 else Max S)"
    using segments_risk_rank by (simp_all add: r1_def S_def)
  have r2: "sr_risk r2 \<noteq> RUndefined"
      "rank (sr_risk r2) = (if dangerousPatterns p \<noteq> [] \<or> segments p = [] then 3 else Max S)"
    using r1 raise_to_rank [OF r1(1), of RHigh] S(3) by (auto simp: r2_def split: list.splits)
  have eq: "parsed_risk E p tool wd =
      (if hasOpaqueConstructs p
       then (let r3 = raise_to (if dangerousPatterns p \<noteq> [] then RHigh else RMedium) r2
             in if sr_reason r3 = [] then r3\<lparr>sr_reason := ''Command contains opaque constructs''\<rparr> else r3)
       else r2)"
    unfolding parsed_risk_def r1_def r2_def Let_def by (rule refl)
  show "sr_risk (parsed_risk E p tool wd) \<noteq> RUndefined"
    using r2 raise_to_rank(1) [OF r2(1)] by (simp add: eq Let_def)
  have "rank (sr_risk (parsed_risk E p tool wd)) =
      (if hasOpaqueConstructs p
       then max (if dangerousPatterns p \<noteq> [] then 3 else 1) (rank (sr_risk r2)) else rank (sr_risk r2))"
    using raise_to_rank(2) [OF r2(1)] by (simp add: eq Let_def)
  also have "\<dots> = Max (S \<union> (if dangerousPatterns p \<noteq> [] \<or> segments p = [] then {3} else {}) \<union>
      (if hasOpaqueConstructs p then {1} else {}))"
    using S r2(2) by (simp add: max.commute max.absorb1 max.absorb2 split: if_splits)
  also have "\<dots> = Max (rank ` counted_risks E p tool wd)"
    by (rule arg_cong [where f = Max]) (auto simp: counted_risks_def S_def)
  finally show "rank (sr_risk (parsed_risk E p tool wd)) = Max (rank ` counted_risks E p tool wd)" .
qed

section \<open>What may lower a risk\<close>

definition registry_risk :: "command_risk \<Rightarrow> bool" where
  "registry_risk r \<longleftrightarrow> r \<in> {RLow, RMedium, RHigh}"

lemma rule_max_source:
  "foldl (rule_max re p as) best rs = Some (m, why) \<Longrightarrow>
   best = Some (m, why) \<or> (\<exists>r \<in> set rs. rule_fires re p as r \<and> m = ar_risk r \<and> why = ar_reason r)"
proof (induction rs arbitrary: best)
  case (Cons r rs)
  from Cons.IH [OF Cons.prems [unfolded foldl_Cons]] show ?case
    by (auto simp: rule_max_def split: if_splits option.splits)
qed simp

lemmas matched_risk_source = rule_max_source [where best = None, folded matched_risk_def, simplified]

text \<open>The base risk in effect: the user's or seeded rule for the command, else the registry's.\<close>

definition effective_base :: "bash_env \<Rightarrow> segment \<Rightarrow> string \<Rightarrow> risk_spec \<Rightarrow> string \<Rightarrow> string option \<Rightarrow> command_risk" where
  "effective_base E seg prog spec tool wd =
     (case base_rule E tool prog spec (sg_args seg) wd of
        Some r \<Rightarrow> of_level (risk r)
      | None \<Rightarrow> sa_baseRisk (attrs (fst (resolveSubcommand spec (sg_args seg)))))"

text \<open>Every argument accounted for: each positional by a pattern-only rule, each other word that is not a flag
  by some rule.\<close>

definition all_covered :: "(string \<Rightarrow> string \<Rightarrow> bool) \<Rightarrow> spec_attrs \<Rightarrow> string list \<Rightarrow> bool" where
  "all_covered re a as \<longleftrightarrow> \<not> hasUnmatchedNonFlagArg re (sa_argRules a) (parseArgs as (schema_of a)) as"

text \<open>One known safe file, only harmless flags.\<close>

definition safe_rm :: "string list \<Rightarrow> bool" where
  "safe_rm as \<longleftrightarrow>
     (case filter (\<lambda>a. \<not> starts_with a ''-'') as of [f] \<Rightarrow> f \<in> set RM_SAFE_BARE_FILES | _ \<Rightarrow> False) \<and>
     list_all (\<lambda>a. a \<in> set RM_BENIGN_FLAGS) (filter (\<lambda>a. starts_with a ''-'') as)"

lemma rm_downgrade_risk:
  "sr_risk (rm_downgrade prog tool as res) = sr_risk res \<or>
   prog = ''rm'' \<and> tool = ''bash'' \<and> safe_rm as \<and> sr_risk res = RHigh \<and> sr_risk (rm_downgrade prog tool as res) = RMedium"
  by (auto simp: rm_downgrade_def safe_rm_def split: list.splits)

lemma expand_variables_floor:
  assumes "registry_risk (sr_risk res)" "registry_risk base" "\<exists>a \<in> set as. CHR ''$'' \<in> set a"
  shows "ord_ge (sr_risk (expand_variables prog base as res)) (escalateOne base)"
proof -
  have "ord_ge (escalateOne (maxRisk (sr_risk res) base)) (escalateOne base)"
    using assms(1,2) by (auto simp: registry_risk_def maxRisk_def ord_ge_def)
  moreover have "ord_ge (sr_risk (expand_variables prog base as res)) (escalateOne (maxRisk (sr_risk res) base))"
  proof (cases "ord_gt (escalateOne (maxRisk (sr_risk res) base)) (sr_risk res)")
    case True
    then show ?thesis using assms(3) by (auto simp: expand_variables_def list_ex_iff Let_def ord_cases)
  next
    case False
    have "escalateOne (maxRisk (sr_risk res) base) \<noteq> RUndefined" "sr_risk res \<noteq> RUndefined"
      using assms(1,2) by (auto simp: registry_risk_def maxRisk_def)
    then have "ord_ge (sr_risk res) (escalateOne (maxRisk (sr_risk res) base))"
      using False by (simp add: ord_not_gt)
    then show ?thesis using False by (simp add: expand_variables_def Let_def)
  qed
  ultimately show ?thesis using ord_ge_trans by blast
qed

lemma expand_variables_none:
  "\<not> (\<exists>a \<in> set as. CHR ''$'' \<in> set a) \<Longrightarrow> expand_variables prog base as res = res"
  by (auto simp: expand_variables_def list_ex_iff)

lemma apply_arg_rules_cases:
  fixes a :: spec_attrs
  obtains (kept) "apply_arg_rules re a as res = res"
  | (fired) r where "r \<in> set (sa_argRules a)" "rule_fires re (parseArgs as (schema_of a)) as r"
      "sr_risk (apply_arg_rules re a as res) = ar_risk r"
      "ord_ge (ar_risk r) (sr_risk res) \<or> all_covered re a as"
proof (cases "matched_risk re (sa_argRules a) (parseArgs as (schema_of a)) as")
  case None
  then show ?thesis using kept by (simp add: apply_arg_rules_def Let_def)
next
  case (Some mw)
  obtain m why where mw: "mw = (m, why)" by (cases mw)
  obtain r where "r \<in> set (sa_argRules a)" "rule_fires re (parseArgs as (schema_of a)) as r" "m = ar_risk r"
    using matched_risk_source [OF Some [unfolded mw]] by blast
  then show ?thesis
    using Some mw kept fired [of r]
    by (cases "ord_ge m (sr_risk res) \<or> all_covered re a as")
      (simp_all add: apply_arg_rules_def Let_def all_covered_def)
qed

lemma apply_no_rules: "sa_argRules a = [] \<Longrightarrow> apply_arg_rules re a as res = res"
  by (simp add: apply_arg_rules_def matched_risk_def Let_def)

lemma classify_plain_unfold:
  fixes a :: spec_attrs
  assumes "a = attrs (fst (resolveSubcommand spec (sg_args seg)))"
    and "base = effective_base E seg prog spec tool wd"
  obtains start where "sr_risk start = base"
    "classify_plain E seg prog spec tool wd =
       rm_downgrade prog tool (sg_args seg) (expand_variables (sg_program seg) base (sg_args seg)
         (apply_arg_rules (re_test E) a (sg_args seg) start))"
proof -
  define start where "start = \<lparr>sr_risk = base, sr_reason = or_text (sa_reason a) (sg_program seg @ '' (default)''),
     sr_matchType = (case base_rule E tool prog spec (sg_args seg) wd of
        Some r \<Rightarrow> if rl_userModified r \<or> rl_origin r = OriginUser then ''user_rule'' else ''registry''
      | None \<Rightarrow> ''registry'')\<rparr>"
  have "sr_risk start = base" by (simp add: start_def)
  moreover have "classify_plain E seg prog spec tool wd =
       rm_downgrade prog tool (sg_args seg) (expand_variables (sg_program seg) base (sg_args seg)
         (if sa_argRules a \<noteq> [] then apply_arg_rules (re_test E) a (sg_args seg) start else start))"
    unfolding start_def assms classify_plain_def effective_base_def Let_def by (rule refl)
  moreover have "(if sa_argRules a \<noteq> [] then apply_arg_rules (re_test E) a (sg_args seg) start else start) =
      apply_arg_rules (re_test E) a (sg_args seg) start"
    by (simp add: apply_no_rules)
  ultimately show ?thesis using that by simp
qed

text \<open>The later steps of the classification, after the user's rules, the help output and the wrappers.\<close>

lemma classify_plain_floor:
  fixes a :: spec_attrs
  assumes "a = attrs (fst (resolveSubcommand spec (sg_args seg)))"
    and "base = effective_base E seg prog spec tool wd" "registry_risk base"
    and "\<And>r. r \<in> set (sa_argRules a) \<Longrightarrow> registry_risk (ar_risk r)"
    and "got = sr_risk (classify_plain E seg prog spec tool wd)"
  shows "ord_ge got (if \<exists>x \<in> set (sg_args seg). CHR ''$'' \<in> set x then escalateOne base else base) \<or>
    all_covered (re_test E) a (sg_args seg) \<and> \<not> (\<exists>x \<in> set (sg_args seg). CHR ''$'' \<in> set x) \<and>
      (\<exists>r \<in> set (sa_argRules a). rule_fires (re_test E) (parseArgs (sg_args seg) (schema_of a)) (sg_args seg) r \<and> got = ar_risk r) \<or>
    prog = ''rm'' \<and> tool = ''bash'' \<and> safe_rm (sg_args seg) \<and> got = RMedium"
proof -
  let ?as = "sg_args seg"
  obtain start where start: "sr_risk start = base"
    "classify_plain E seg prog spec tool wd =
       rm_downgrade prog tool ?as (expand_variables (sg_program seg) base ?as
         (apply_arg_rules (re_test E) a ?as start))"
    using classify_plain_unfold [OF assms(1,2)] .
  define ruled where "ruled = apply_arg_rules (re_test E) a ?as start"
  define res where "res = expand_variables (sg_program seg) base ?as ruled"
  have rm: "got = sr_risk res \<or> prog = ''rm'' \<and> tool = ''bash'' \<and> safe_rm ?as \<and> got = RMedium"
    using rm_downgrade_risk [of prog tool ?as res] start(2) assms(5) by (auto simp: res_def ruled_def)
  have bd: "ord_ge base base" using assms(3) by (auto simp: registry_risk_def)
  consider (kept) "sr_risk ruled = base"
    | (fired) r where "r \<in> set (sa_argRules a)" "rule_fires (re_test E) (parseArgs ?as (schema_of a)) ?as r"
        "sr_risk ruled = ar_risk r" "ord_ge (ar_risk r) base \<or> all_covered (re_test E) a ?as"
    by (cases rule: apply_arg_rules_cases [of "re_test E" a ?as start]) (auto simp: ruled_def start(1))
  note ruled = this
  then have reg: "registry_risk (sr_risk ruled)" using assms(3,4) by cases auto
  show ?thesis
  proof (cases "\<exists>x \<in> set ?as. CHR ''$'' \<in> set x")
    case True
    have "ord_ge (sr_risk res) (escalateOne base)"
      unfolding res_def by (rule expand_variables_floor [OF reg assms(3) True])
    then show ?thesis using rm True by auto
  next
    case False
    then have same: "sr_risk res = sr_risk ruled" by (simp add: res_def expand_variables_none)
    from ruled show ?thesis
    proof cases
      case kept
      then show ?thesis using rm same bd False by auto
    next
      case (fired r)
      then show ?thesis using rm same False by auto
    qed
  qed
qed

text \<open>C15: The base risk is a floor. For a command of the registry that is not unwrapped and whose risks are levels
  (the base in effect, and those of its argument rules), the classification is below the base in effect only if a rule
  of the user decides it; or it only asks for help, standing alone, of a command without subcommands, which is low; or
  no argument holds a variable and every argument is covered: each positional matches a pattern-only rule and each
  other non-flag word some rule, and then the risk is that of a rule that fired; or it is the removal of one known safe
  file with harmless flags by the bash tool, which is medium. With a variable in some argument the risk is otherwise at
  least one level above the base. A base that is not a level occurs for names inherited from the object prototype.\<close>

theorem base_risk_is_floor:
  fixes a :: spec_attrs
  assumes "find_spec (registry E) (sg_program seg) = (prog, Some spec)"
    and "\<not> sa_isWrapper (attrs spec) \<or> is_nonexec (attrs spec) (sg_args seg)"
    and "a = attrs (fst (resolveSubcommand spec (sg_args seg)))"
    and "base = effective_base E seg prog spec tool wd" "registry_risk base"
    and "\<And>r. r \<in> set (sa_argRules a) \<Longrightarrow> registry_risk (ar_risk r)"
    and "got = sr_risk (classifySegment E seg tool wd)"
  shows "ord_ge got (if \<exists>x \<in> set (sg_args seg). CHR ''$'' \<in> set x then escalateOne base else base) \<or>
    (\<exists>r. cached_rule E tool (sg_command seg) wd = Some r \<and> rl_origin r = OriginUser \<and> got = of_level (risk r)) \<or>
    rs_subcommands spec = None \<and> hasStandaloneHelpFlag (sg_args seg) (sa_argSchema (attrs spec)) \<and> got = RLow \<or>
    all_covered (re_test E) a (sg_args seg) \<and> \<not> (\<exists>x \<in> set (sg_args seg). CHR ''$'' \<in> set x) \<and>
      (\<exists>r \<in> set (sa_argRules a). rule_fires (re_test E) (parseArgs (sg_args seg) (schema_of a)) (sg_args seg) r \<and> got = ar_risk r) \<or>
    prog = ''rm'' \<and> tool = ''bash'' \<and> safe_rm (sg_args seg) \<and> got = RMedium"
proof -
  consider (user) r where "cached_rule E tool (sg_command seg) wd = Some r" "rl_origin r = OriginUser" "got = of_level (risk r)"
    | (registry) "got = sr_risk (classifyRegistry E seg tool wd)"
    using assms(7) by (auto simp: classifySegment.simps split: option.splits if_splits)
  then show ?thesis
  proof cases
    case user
    then show ?thesis by blast
  next
    case registry
    show ?thesis
    proof (cases "rs_subcommands spec = None \<and> \<not> sa_isWrapper (attrs spec) \<and>
        hasStandaloneHelpFlag (sg_args seg) (sa_argSchema (attrs spec))")
      case True
      then show ?thesis using registry assms(1) by (simp add: classifyRegistry.simps)
    next
      case False
      then have "got = sr_risk (classify_plain E seg prog spec tool wd)"
        using registry assms(1,2) by (auto simp: classifyRegistry.simps)
      from classify_plain_floor [OF assms(3,4,5,6) this] show ?thesis by blast
    qed
  qed
qed

section \<open>Rules the user saves\<close>

text \<open>A rule that was just created, as the refreshed cache sees it.\<close>

lemma create_row:
  assumes "wf_rules rows" "create inp i now rows = Inr (r, rows')"
  shows "\<exists>row. live_rule rows' (ci_tool inp) wd (ci_pattern inp) row \<and> r = toTrustRule row \<and>
           rr_origin row = OriginUser \<and> rr_risk row = ci_risk inp \<and> rr_description row = ci_description inp \<or>
         \<not> isScopeMatch (ci_scope inp) wd"
proof -
  define change where "change = (\<lambda>r :: rule_row. r\<lparr>rr_risk := ci_risk inp, rr_description := ci_description inp,
      rr_origin := OriginUser, rr_scope := ci_scope inp, rr_deleted := False, rr_updatedAt := now\<rparr>)"
  define new where "new = \<lparr>rr_id = i, rr_tool = ci_tool inp, rr_pattern = ci_pattern inp, rr_risk = ci_risk inp,
      rr_description = ci_description inp, rr_origin = OriginUser, rr_userModified = False,
      rr_deleted = False, rr_scope = ci_scope inp, rr_createdAt = now, rr_updatedAt = now\<rparr>"
  let ?P = "\<lambda>r. rr_tool r = ci_tool inp \<and> rr_pattern r = ci_pattern inp"
  have key: "rule_key new = (ci_tool inp, ci_pattern inp)" by (simp add: new_def rule_key_def)
  have up: "upsert change (\<lambda>r. True) new rows = Inr rows'" and
    f: "find ?P rows' = Some row \<Longrightarrow> r = toTrustRule row" for row
    using assms(2) unfolding create_def change_def new_def
    by (auto split: sum.splits if_splits option.splits)
  have "\<exists>row. find ?P rows' = Some row"
    using assms(2) unfolding create_def by (auto split: sum.splits if_splits option.splits)
  then obtain row where row: "find ?P rows' = Some row" ..
  have mem: "row \<in> set rows'" "rule_key row = rule_key new"
    using row key by (auto simp: find_Some_iff rule_key_def)
  have "row = new \<or> (\<exists>old. row = change old)"
  proof (cases "list_ex (\<lambda>r. rule_key r = rule_key new) rows")
    case True
    then have "rows' = map (\<lambda>r. if rule_key r = rule_key new then change r else r) rows"
      using up by (simp add: upsert_def)
    then show ?thesis using mem by auto
  next
    case False
    then have "rows' = rows @ [new]" using up by (simp add: upsert_def split: if_splits)
    then show ?thesis using mem False by (auto simp: list_ex_iff)
  qed
  then have "rr_origin row = OriginUser" "rr_risk row = ci_risk inp" "rr_description row = ci_description inp"
      "\<not> rr_deleted row" "rr_scope row = ci_scope inp"
    by (auto simp: change_def new_def)
  then show ?thesis using mem f [OF row] by (auto simp: live_rule_def key)
qed

lemma create_wf: "wf_rules rows \<Longrightarrow> create inp i now rows = Inr (r, rows') \<Longrightarrow> wf_rules rows'"
  using exec_rule_wf [of rows "OpCreate inp i now"] by simp

text \<open>A user rule on the key itself wins the lookup.\<close>

lemma findBaseRisk_user:
  assumes "wf_rules rows" "live_rule rows t wd k row" "rr_origin row = OriginUser"
  shows "findBaseRisk (refresh rows) t k wd = Some (toTrustRule row)"
proof -
  have s: "in_scope wd (cache_get (refresh rows) t k) = Some (toTrustRule row)"
    using in_scope_live [OF assms(1)] assms(2) by blast
  have "js_get (refresh rows) t \<noteq> None"
    using s by (auto simp: cache_get_def in_scope_def split: option.splits)
  moreover have "base_lookup (refresh rows) t wd k = Some (toTrustRule row)"
    using s assms(3) by (simp add: base_lookup_def Let_def isUserRule_def)
  ultimately show ?thesis by (auto simp: findBaseRisk_def)
qed

lemma hd_dedup: "xs \<noteq> [] \<Longrightarrow> hd (dedup_options [] xs) = hd xs \<and> dedup_options [] xs \<noteq> []"
  by (cases xs) simp_all

lemma addOption_hd: "xs \<noteq> [] \<Longrightarrow> addOption x xs \<noteq> [] \<and> hd (addOption x xs) = hd xs"
  by (simp add: addOption_def)

lemma foldl_addOption_hd:
  "acc \<noteq> [] \<Longrightarrow> foldl (\<lambda>acc y. addOption (f y) acc) acc ys \<noteq> [] \<and> hd (foldl (\<lambda>acc y. addOption (f y) acc) acc ys) = hd acc"
  by (induction ys arbitrary: acc) (simp_all add: addOption_hd)

lemma addOption_Nil [simp]: "addOption x [] = [x]"
  by (simp add: addOption_def)

lemma single_options_hd: "single_options reg seg \<noteq> [] \<and> hd (single_options reg seg) = exact_option (sg_command seg)"
  unfolding single_options_def Let_def
  by (simp add: addOption_hd foldl_addOption_hd case_prod_beta)

text \<open>The first option offered for a command is the exact command.\<close>

lemma first_option:
  assumes "segments p \<noteq> []"
  shows "ba_allowlistOptions (classify_parsed E p tool wd) \<noteq> [] \<and>
    al_pattern (hd (ba_allowlistOptions (classify_parsed E p tool wd))) =
      (case segments p of [s] \<Rightarrow> sg_command s | _ \<Rightarrow> originalCommand p)"
proof -
  have "generateScopeOptions reg p \<noteq> [] \<and>
      hd (generateScopeOptions reg p) = exact_option (case segments p of [s] \<Rightarrow> sg_command s | _ \<Rightarrow> originalCommand p)" for reg
    using assms single_options_hd foldl_addOption_hd [of "[exact_option (originalCommand p)]" program_option]
    by (cases "segments p"; cases "tl (segments p)") (auto simp: generateScopeOptions_def)
  from this [of "registry E"] show ?thesis
    by (cases "generateScopeOptions (registry E) p")
      (auto simp: classify_parsed_def Let_def scopeOptionsToAllowlistOptions_def exact_option_def hd_dedup)
qed

text \<open>C19: A rule saved from the exact-command option takes effect. When the user saves the first
  option offered for a command, with no scope that excludes the directory, then after the cache is
  refreshed every segment with that text, and the command itself when the option is its text, is
  classified with the user's risk and description as a user rule, whatever the registry,
  the argument rules or the dangerous patterns say.\<close>

theorem saved_command_sticks:
  assumes "segments (parse ts cmd) \<noteq> []" "js_trim cmd \<noteq> []"
    and "opt = hd (ba_allowlistOptions (classify_parsed E0 (parse ts cmd) tool wd0))"
    and "wf_rules rows" "create inp i now rows = Inr (r, rows')"
    and "ci_tool inp = tool" "ci_pattern inp = al_pattern opt" "isScopeMatch (ci_scope inp) wd"
    and "E = E0\<lparr>rule_cache := Some (refresh rows')\<rparr>"
  shows "(\<forall>s. sg_command s = al_pattern opt \<longrightarrow>
      classifySegment E s tool wd =
        \<lparr>sr_risk = of_level (parse_risk (ci_risk inp)), sr_reason = ci_description inp, sr_matchType = ''user_rule''\<rparr>) \<and>
    (al_pattern opt = cmd \<or> (\<exists>s. segments (parse ts cmd) = [s] \<and> al_pattern opt = sg_command s)) \<and>
    (al_pattern opt = cmd \<longrightarrow>
      classify_bash E pf cmd tool wd =
        \<lparr>ba_riskLevel = of_level (parse_risk (ci_risk inp)), ba_reason = ci_description inp, ba_scopeOptions = [],
         ba_matchType = ''user_rule'', ba_allowlistOptions = []\<rparr>)"
proof -
  obtain row where row: "live_rule rows' tool wd (al_pattern opt) row" "rr_origin row = OriginUser"
      "rr_risk row = ci_risk inp" "rr_description row = ci_description inp"
    using create_row [OF assms(4,5), of wd] assms(6-8) by auto
  have valid: "ci_risk inp \<in> VALID_RISK_VALUES"
    using assms(5) by (simp add: create_def assertValidRisk_def split: if_splits)
  have rule: "risk (toTrustRule row) = parse_risk (ci_risk inp)" "description (toTrustRule row) = ci_description inp"
      "rl_origin (toTrustRule row) = OriginUser"
    using row valid by (simp_all add: toTrustRule_def)
  have look: "cached_rule E tool (al_pattern opt) wd = Some (toTrustRule row)"
    using findBaseRisk_user [OF create_wf [OF assms(4,5)] row(1,2)] assms(9) by (simp add: cached_rule_def)
  have seg: "classifySegment E s tool wd =
      \<lparr>sr_risk = of_level (parse_risk (ci_risk inp)), sr_reason = ci_description inp, sr_matchType = ''user_rule''\<rparr>"
    if "sg_command s = al_pattern opt" for s
    using look that rule by (simp add: classifySegment.simps)
  have "originalCommand (parse ts cmd) = cmd" by (simp add: parse_def Let_def split: option.splits)
  then have "al_pattern opt = cmd \<or> (\<exists>s. segments (parse ts cmd) = [s] \<and> al_pattern opt = sg_command s)"
    using first_option [OF assms(1), of E0 tool wd0] assms(3)
    by (cases "segments (parse ts cmd)"; cases "tl (segments (parse ts cmd))") auto
  moreover have "classify_bash E pf cmd tool wd =
        \<lparr>ba_riskLevel = of_level (parse_risk (ci_risk inp)), ba_reason = ci_description inp, ba_scopeOptions = [],
         ba_matchType = ''user_rule'', ba_allowlistOptions = []\<rparr>" if "al_pattern opt = cmd"
    using look rule assms(2) that by (simp add: classify_bash_def)
  ultimately show ?thesis using seg by blast
qed

text \<open>The comment in \<^verbatim>\<open>classify\<close> says that a compound command only hits the literal step of the rule lookup. It
  does not: the lookup goes on to shorter and shorter word prefixes of the whole command line. So with a
  rule saved for one program, every command line that starts with that program's name has the rule's
  risk, whatever commands follow.\<close>

lemma subcommand_match_first:
  assumes "\<And>k. look k = None \<or> look k = Some r" "look (join_with '' '' (take (Suc 0) parts)) = Some r"
  shows "subcommand_match look parts (Suc n) = Some r"
proof (induction n)
  case 0
  then show ?case using assms(2) by simp
next
  case (Suc n)
  then show ?case using assms(1) [of "join_with '' '' (take (Suc (Suc n)) parts)"] by (auto simp del: take_Suc)
qed

lemma split_spaces_head:
  assumes "\<not> list_ex is_space w"
  shows "\<exists>ps. split_spaces (w @ CHR '' '' # t) = w # ps \<and> ps \<noteq> []"
proof -
  have sp: "is_space (CHR '' '')" by code_simp
  have w: "\<forall>c \<in> set w. \<not> is_space c" using assms by (auto simp: list_ex_iff)
  then have "dropWhile (\<lambda>c. \<not> is_space c) (w @ CHR '' '' # t) = CHR '' '' # t"
      "takeWhile (\<lambda>c. \<not> is_space c) (w @ CHR '' '' # t) = w"
    using sp by (simp_all add: dropWhile_append2 takeWhile_append2)
  moreover have "split_spaces x \<noteq> []" for x by (simp add: split_spaces.simps [of x] split: list.splits)
  ultimately show ?thesis by (simp add: split_spaces.simps [of "w @ CHR '' '' # t"])
qed

theorem prefix_rule_covers_compound:
  assumes "w \<noteq> []" "\<not> list_ex is_space w" "CHR ''/'' \<notin> set w"
    and "create inp i now [] = Inr (r, rows)"
    and "ci_tool inp = tool" "ci_pattern inp = ''action:'' @ w" "isScopeMatch (ci_scope inp) wd"
  shows "ba_riskLevel (classify_bash (E\<lparr>rule_cache := Some (refresh rows)\<rparr>) pf (w @ CHR '' '' # t) tool wd) =
    of_level (parse_risk (ci_risk inp))"
proof -
  define m where "m = refresh rows"
  have wf: "wf_rules rows" by (rule create_wf [OF _ assms(4)]) (simp add: wf_rules_def)
  have rows: "rows = [\<lparr>rr_id = i, rr_tool = tool, rr_pattern = ''action:'' @ w, rr_risk = ci_risk inp,
      rr_description = ci_description inp, rr_origin = OriginUser, rr_userModified = False,
      rr_deleted = False, rr_scope = ci_scope inp, rr_createdAt = now, rr_updatedAt = now\<rparr>]"
    and valid: "ci_risk inp \<in> VALID_RISK_VALUES"
    using assms(4-6) by (auto simp: create_def upsert_def assertValidRisk_def split: if_splits option.splits)
  have only: "cache_get m tool k = (if k = ''action:'' @ w then Some (toTrustRule (hd rows)) else None)" for k
  proof -
    have "m = cache_add [] (toTrustRule (hd rows))" by (simp add: m_def refresh_def listActive_def rows)
    moreover have "rl_tool (toTrustRule (hd rows)) = tool" "rl_pattern (toTrustRule (hd rows)) = ''action:'' @ w"
      by (simp_all add: rows)
    moreover have "cache_get [] tool k = None" by (simp add: cache_get_def)
    ultimately show ?thesis by (simp only: cache_get_add) auto
  qed
  have sc: "in_scope wd (cache_get m tool k) = (if k = ''action:'' @ w then Some (toTrustRule (hd rows)) else None)" for k
    using assms(7) by (simp add: only in_scope_def rows)
  have user: "isUserRule (Some (toTrustRule (hd rows)))" by (simp add: isUserRule_def rows)
  have look: "base_lookup m tool wd k = None \<or> base_lookup m tool wd k = Some (toTrustRule (hd rows))" for k
    by (auto simp: base_lookup_def sc Let_def)
  have hit: "base_lookup m tool wd w = Some (toTrustRule (hd rows))"
    using user by (simp add: base_lookup_def sc Let_def isUserRule_def)
  have tool: "js_get m tool \<noteq> None" using only [of "''action:'' @ w"] by (auto simp: cache_get_def split: option.splits)
  obtain ps where ps: "split_spaces (w @ CHR '' '' # t) = w # ps" "ps \<noteq> []"
    using split_spaces_head [OF assms(2)] by blast
  have "CHR '' '' \<notin> set w" using assms(2) by (auto simp: list_ex_iff is_space_def)
  then have "takeWhile (\<lambda>c. c \<noteq> CHR '' '') (w @ CHR '' '' # t) = w" by (induction w) auto
  then have strip: "stripPath (w @ CHR '' '' # t) = w @ CHR '' '' # t"
    using assms(3) by (simp add: stripPath_def)
  obtain n where n: "length (w # ps) - 1 = Suc n" using ps(2) by (cases ps) auto
  have "subcommand_match (base_lookup m tool wd) (w # ps) (Suc n) = Some (toTrustRule (hd rows))"
    using look hit by (intro subcommand_match_first) simp_all
  then have "findBaseRisk m tool (w @ CHR '' '' # t) wd = Some (toTrustRule (hd rows))"
    using tool look [of "w @ CHR '' '' # t"] strip ps n by (auto simp: findBaseRisk_def Let_def)
  moreover have "js_trim (w @ CHR '' '' # t) \<noteq> []"
  proof -
    obtain c w' where w: "w = c # w'" "\<not> is_space c" using assms(1,2) by (cases w) auto
    then show ?thesis by (simp add: js_trim_def dropWhile_append2)
  qed
  moreover have "risk (toTrustRule (hd rows)) = parse_risk (ci_risk inp)" "rl_origin (toTrustRule (hd rows)) = OriginUser"
    using valid by (simp_all add: rows toTrustRule_def)
  ultimately show ?thesis by (simp add: classify_bash_def cached_rule_def m_def)
qed

section \<open>The whole command\<close>

text \<open>C14: The risk of a command is the join of what it consists of. Unless the user has a rule for the
  command line itself, the level returned is a proper level and exactly the highest of: low, the
  levels of its segments, high when there is a dangerous pattern or no segment could be parsed, and
  medium when something in it is opaque. So no segment and no pattern can be hidden by the others.\<close>

theorem command_risk_is_join:
  assumes "js_trim cmd \<noteq> []" "\<And>r. cached_rule E tool cmd wd = Some r \<Longrightarrow> rl_origin r \<noteq> OriginUser"
  shows "ba_riskLevel (classify_bash E pf cmd tool wd) \<noteq> RUndefined \<and>
    rank (ba_riskLevel (classify_bash E pf cmd tool wd)) = Max (rank ` counted_risks E (pf cmd) tool wd)"
proof -
  have "classify_bash E pf cmd tool wd = classify_parsed E (pf cmd) tool wd"
    using assms by (auto simp: classify_bash_def split: option.splits)
  then show ?thesis using parsed_risk_rank by (simp add: classify_parsed_def Let_def)
qed

text \<open>Entries of the registry with an engine that knows the one pattern the examples need.\<close>

definition demo_bash_env :: bash_env where
  "demo_bash_env =
     \<lparr>re_test = (\<lambda>p s. starts_with p ''^(?:/tmp'' \<and> starts_with s ''/tmp/''),
      registry = [(''rm'', cmd_rm), (''nice'', cmd_nice), (''sudo'', cmd_sudo), (''ls'', cmd_ls)], rule_cache = None\<rparr>"

definition demo_segment :: "string \<Rightarrow> string list \<Rightarrow> operator \<Rightarrow> segment" where
  "demo_segment prog as opr =
     \<lparr>sg_command = join_with '' '' (prog # as), sg_program = prog, sg_args = as, sg_operator = opr, synthetic = False\<rparr>"

definition demo_command :: parsed_command where
  "demo_command =
     \<lparr>originalCommand = ''ls && rm -rf /x'',
      segments = [demo_segment ''ls'' [] NoOp, demo_segment ''rm'' [''-rf'', ''/x''] AndAnd],
      dangerousPatterns = [], hasOpaqueConstructs = False\<rparr>"

theorem command_risk_is_join_witness:
  "rank (ba_riskLevel (classify_bash demo_bash_env (\<lambda>_. demo_command) ''ls && rm -rf /x'' ''bash'' None)) = 3"
proof -
  have "js_trim ''ls && rm -rf /x'' \<noteq> []" "cached_rule demo_bash_env ''bash'' ''ls && rm -rf /x'' None = None"
    by code_simp+
  moreover have "rank ` counted_risks demo_bash_env demo_command ''bash'' None = {0, 3}"
  proof -
    have "sr_risk (classifySegment demo_bash_env (demo_segment ''ls'' [] NoOp) ''bash'' None) = RLow"
      "sr_risk (classifySegment demo_bash_env (demo_segment ''rm'' [''-rf'', ''/x''] AndAnd) ''bash'' None) = RHigh"
      by code_simp+
    then show ?thesis by (auto simp: counted_risks_def demo_command_def)
  qed
  ultimately show ?thesis
    using command_risk_is_join [of "''ls && rm -rf /x''" demo_bash_env "''bash''" None "\<lambda>_. demo_command"] by simp
qed

theorem base_risk_is_floor_witness:
  "ord_gt RHigh (sr_risk (classifySegment demo_bash_env (demo_segment ''rm'' [''/tmp/a''] NoOp) ''bash'' None)) \<and>
   all_covered (re_test demo_bash_env) (attrs cmd_rm) [''/tmp/a'']"
proof -
  let ?seg = "demo_segment ''rm'' [''/tmp/a''] NoOp"
  have got: "sr_risk (classifySegment demo_bash_env ?seg ''bash'' None) = RMedium"
    and spec: "find_spec (registry demo_bash_env) (sg_program ?seg) = (''rm'', Some cmd_rm)"
    and plain: "\<not> sa_isWrapper (attrs cmd_rm) \<or> is_nonexec (attrs cmd_rm) (sg_args ?seg)"
    and a: "attrs (fst (resolveSubcommand cmd_rm (sg_args ?seg))) = attrs cmd_rm"
    and base: "effective_base demo_bash_env ?seg ''rm'' cmd_rm ''bash'' None = RHigh"
    and safe: "\<not> safe_rm (sg_args ?seg)"
    and other: "cached_rule demo_bash_env ''bash'' (sg_command ?seg) None = None"
      "\<not> hasStandaloneHelpFlag (sg_args ?seg) (sa_argSchema (attrs cmd_rm))"
    by code_simp+
  have args: "sg_args ?seg = [''/tmp/a'']" by (simp add: demo_segment_def)
  have rules: "registry_risk (ar_risk r)" if "r \<in> set (sa_argRules (attrs cmd_rm))" for r
    using that by (auto simp: cmd_rm_def registry_risk_def)
  have "all_covered (re_test demo_bash_env) (attrs cmd_rm) (sg_args ?seg)"
    using base_risk_is_floor [OF spec plain a [symmetric] base [symmetric] _ rules got [symmetric]] safe args other
    by (auto simp: registry_risk_def ord_ge_def)
  then show ?thesis using got args by (simp add: ord_gt_def)
qed

section \<open>Wrappers\<close>

text \<open>One step of unwrapping, as the classifier takes it.\<close>

inductive unwraps :: "bash_env \<Rightarrow> string \<Rightarrow> string option \<Rightarrow> segment \<Rightarrow> segment \<Rightarrow> bool"
  for E :: bash_env and tool :: string and wd :: "string option" where
  unwraps_step:
    "find_spec (registry E) (sg_program seg) = (prog, Some spec) \<Longrightarrow> sa_isWrapper (attrs spec) \<Longrightarrow>
     \<not> is_nonexec (attrs spec) (sg_args seg) \<Longrightarrow>
     getWrappedProgramWithArgs (sg_program seg) (sg_args seg) = Some (inner, as) \<Longrightarrow>
     (\<And>r. cached_rule E tool (sg_command seg) wd = Some r \<Longrightarrow> rl_origin r \<noteq> OriginUser) \<Longrightarrow>
     unwraps E tool wd seg
       \<lparr>sg_command = join_with '' '' (inner # as), sg_program = inner, sg_args = as, sg_operator = sg_operator seg, synthetic = False\<rparr>"

inductive_cases unwrapsE: "unwraps E tool wd seg seg'"

definition base_risks_ok :: "registry \<Rightarrow> bool" where
  "base_risks_ok reg \<longleftrightarrow> list_all (\<lambda>e. registry_risk (sa_baseRisk (attrs (snd e)))) reg"

lemma find_spec_mem: "find_spec reg p = (prog, Some spec) \<Longrightarrow> \<exists>k. (k, spec) \<in> set reg"
  by (auto simp: find_spec_def Let_def split: option.splits if_splits dest: js_get_Some_mem)

lemma unwraps_max:
  assumes "unwraps E tool wd seg seg'" "base_risks_ok (registry E)"
  shows "\<exists>b. registry_risk b \<and> sr_risk (classifySegment E seg tool wd) = maxRisk b (sr_risk (classifySegment E seg' tool wd))"
  using assms(1)
proof (rule unwrapsE)
  fix prog spec inner as
  assume h: "seg' = \<lparr>sg_command = join_with '' '' (inner # as), sg_program = inner, sg_args = as, sg_operator = sg_operator seg, synthetic = False\<rparr>"
    "find_spec (registry E) (sg_program seg) = (prog, Some spec)" "sa_isWrapper (attrs spec)"
    "\<not> is_nonexec (attrs spec) (sg_args seg)" "getWrappedProgramWithArgs (sg_program seg) (sg_args seg) = Some (inner, as)"
    "\<And>r. cached_rule E tool (sg_command seg) wd = Some r \<Longrightarrow> rl_origin r \<noteq> OriginUser"
  have "classifySegment E seg tool wd = classifyRegistry E seg tool wd"
    using h(6) by (auto simp: classifySegment.simps [of E seg] split: option.splits)
  then have "sr_risk (classifySegment E seg tool wd) =
      maxRisk (sa_baseRisk (attrs spec)) (sr_risk (classifySegment E seg' tool wd))"
    using h(1-5) by (simp add: classifyRegistry.simps [of E seg] Let_def)
  moreover have "registry_risk (sa_baseRisk (attrs spec))"
    using find_spec_mem [OF h(2)] assms(2) by (force simp: base_risks_ok_def list_all_iff)
  ultimately show ?thesis by blast
qed

text \<open>C18: Wrapping a command never lowers its risk: through any number of wrappers (\<^verbatim>\<open>sudo\<close>, \<^verbatim>\<open>env\<close>,
  \<^verbatim>\<open>nice\<close>, \<^verbatim>\<open>timeout\<close> and so on) that the classifier unwraps, without a user rule on a wrapped form, the
  level is at least the level of the innermost command it arrives at.\<close>

theorem wrappers_never_lower:
  assumes "(unwraps E tool wd)\<^sup>*\<^sup>* seg inner" "base_risks_ok (registry E)"
    and "sr_risk (classifySegment E inner tool wd) \<noteq> RUndefined"
  shows "ord_ge (sr_risk (classifySegment E seg tool wd)) (sr_risk (classifySegment E inner tool wd))"
  using assms(1)
proof (induction rule: converse_rtranclp_induct)
  case base
  then show ?case using assms(3) by simp
next
  case (step seg mid)
  obtain b where b: "registry_risk b"
      "sr_risk (classifySegment E seg tool wd) = maxRisk b (sr_risk (classifySegment E mid tool wd))"
    using unwraps_max [OF step(1) assms(2)] by blast
  have "sr_risk (classifySegment E mid tool wd) \<noteq> RUndefined" using step.IH by (auto simp: ord_cases)
  then have "ord_ge (sr_risk (classifySegment E seg tool wd)) (sr_risk (classifySegment E mid tool wd))"
    using maxRisk_ge b by (auto simp: registry_risk_def)
  then show ?case using step.IH ord_ge_trans by blast
qed

theorem wrappers_never_lower_witness:
  "ord_ge (sr_risk (classifySegment demo_bash_env (demo_segment ''sudo'' [''nice'', ''rm'', ''-rf'', ''/x''] NoOp) ''bash'' None))
     (sr_risk (classifySegment demo_bash_env (demo_segment ''rm'' [''-rf'', ''/x''] NoOp) ''bash'' None))"
proof -
  let ?s = "\<lambda>prog as. demo_segment prog as NoOp"
  have seg: "?s prog as = \<lparr>sg_command = join_with '' '' (prog # as), sg_program = prog, sg_args = as,
      sg_operator = sg_operator (?s prog' as'), synthetic = False\<rparr>" for prog as prog' as'
    by (simp add: demo_segment_def)
  have spec: "find_spec (registry demo_bash_env) (sg_program (?s ''sudo'' as)) = (''sudo'', Some cmd_sudo)"
    "find_spec (registry demo_bash_env) (sg_program (?s ''nice'' as)) = (''nice'', Some cmd_nice)" for as
    by (simp_all add: find_spec_def demo_bash_env_def demo_segment_def js_get_def)
  have flags: "sa_isWrapper (attrs cmd_sudo)" "sa_isWrapper (attrs cmd_nice)"
    "\<not> is_nonexec (attrs cmd_sudo) as" "\<not> is_nonexec (attrs cmd_nice) as" for as
    by (simp_all add: cmd_sudo_def cmd_nice_def is_nonexec_def spec_of_def)
  have wrapped: "getWrappedProgramWithArgs ''sudo'' [''nice'', ''rm'', ''-rf'', ''/x''] = Some (''nice'', [''rm'', ''-rf'', ''/x''])"
    "getWrappedProgramWithArgs ''nice'' [''rm'', ''-rf'', ''/x''] = Some (''rm'', [''-rf'', ''/x''])"
    by code_simp+
  have fields: "sg_program (?s prog as) = prog" "sg_args (?s prog as) = as" for prog as
    by (simp_all add: demo_segment_def)
  have rule: "cached_rule demo_bash_env ''bash'' cmd None \<noteq> Some r" for cmd r
    by (simp add: cached_rule_def demo_bash_env_def)
  have "unwraps demo_bash_env ''bash'' None (?s ''sudo'' [''nice'', ''rm'', ''-rf'', ''/x'']) (?s ''nice'' [''rm'', ''-rf'', ''/x''])"
    by (subst (2) seg, rule unwraps_step [OF spec(1)]) (simp_all add: flags fields wrapped rule)
  moreover have "unwraps demo_bash_env ''bash'' None (?s ''nice'' [''rm'', ''-rf'', ''/x'']) (?s ''rm'' [''-rf'', ''/x''])"
    by (subst (2) seg, rule unwraps_step [OF spec(2)]) (simp_all add: flags fields wrapped rule)
  ultimately have "(unwraps demo_bash_env ''bash'' None)\<^sup>*\<^sup>* (?s ''sudo'' [''nice'', ''rm'', ''-rf'', ''/x'']) (?s ''rm'' [''-rf'', ''/x''])"
    by auto
  moreover have "base_risks_ok (registry demo_bash_env)"
    "sr_risk (classifySegment demo_bash_env (?s ''rm'' [''-rf'', ''/x'']) ''bash'' None) \<noteq> RUndefined"
    by code_simp+
  ultimately show ?thesis by (rule wrappers_never_lower)
qed

text \<open>The unwrapping skips flags but not the values of flags it does not know: in \<^verbatim>\<open>nice -n 10 rm -rf /x\<close>
  the program found is \<^verbatim>\<open>10\<close>, an unknown command, so the line is not high as \<^verbatim>\<open>rm -rf /x\<close> is.\<close>

theorem flag_value_taken_as_program:
  "getWrappedProgramWithArgs ''nice'' [''-n'', ''10'', ''rm'', ''-rf'', ''/x''] = Some (''10'', [''rm'', ''-rf'', ''/x'']) \<and>
   sr_risk (classifySegment demo_bash_env (demo_segment ''nice'' [''-n'', ''10'', ''rm'', ''-rf'', ''/x''] NoOp) ''bash'' None) = RUnknown \<and>
   sr_risk (classifySegment demo_bash_env (demo_segment ''rm'' [''-rf'', ''/x''] NoOp) ''bash'' None) = RHigh"
  by code_simp

section \<open>A rule saved and applied\<close>

definition tok :: "string \<Rightarrow> string \<Rightarrow> tsnode" where
  "tok ty t = TSNode ty t 0 0 True []"

definition demo_ts :: "string \<Rightarrow> tsnode option" where
  "demo_ts cmd =
     (if cmd = ''ls -l''
      then Some (TSNode ''program'' ''ls -l'' 0 5 True
        [TSNode ''command'' ''ls -l'' 0 5 True [tok ''command_name'' ''ls'', tok ''word'' ''-l'']])
      else None)"

definition demo_input :: create_input where
  "demo_input = \<lparr>ci_tool = ''bash'', ci_pattern = ''ls -l'', ci_risk = ''high'', ci_description = ''mine'', ci_scope = None\<rparr>"

theorem saved_command_sticks_witness:
  "\<exists>r rows. create demo_input ''i'' ''now'' [] = Inr (r, rows) \<and>
     ba_riskLevel (classify_bash demo_bash_env (parse demo_ts) ''ls -l'' ''bash'' None) = RLow \<and>
     ba_riskLevel (classify_bash (demo_bash_env\<lparr>rule_cache := Some (refresh rows)\<rparr>) (parse demo_ts) ''ls -l'' ''bash'' None) = RHigh"
proof -
  let ?opt = "hd (ba_allowlistOptions (classify_parsed demo_bash_env (parse demo_ts ''ls -l'') ''bash'' None))"
  have "\<not> isl (create demo_input ''i'' ''now'' [])" by code_simp
  then obtain r rows where c: "create demo_input ''i'' ''now'' [] = Inr (r, rows)"
    by (cases "create demo_input ''i'' ''now'' []") auto
  have h: "segments (parse demo_ts ''ls -l'') \<noteq> []" "js_trim ''ls -l'' \<noteq> []" "wf_rules []"
    and opt: "al_pattern ?opt = ''ls -l''"
    and before: "ba_riskLevel (classify_bash demo_bash_env (parse demo_ts) ''ls -l'' ''bash'' None) = RLow"
    and high: "of_level (parse_risk (ci_risk demo_input)) = RHigh"
    by code_simp+
  have i: "ci_tool demo_input = ''bash''" "ci_pattern demo_input = al_pattern ?opt" "isScopeMatch (ci_scope demo_input) None"
    by (simp_all add: opt) (simp_all add: demo_input_def isScopeMatch_def)
  show ?thesis
    using saved_command_sticks [OF h(1,2) refl h(3) c i refl, of "parse demo_ts"] c before opt high by auto
qed

end
