(* ===== verification/Command_Registry.thy ===== *)
theory Command_Registry
  imports Bash_Safety
begin

text \<open>
  The default command registry (\<^verbatim>\<open>gateway/src/risk/command-registry/index.ts\<close>) with the entry of the
  \<^verbatim>\<open>assistant\<close> program, which \<^verbatim>\<open>commands/assistant.ts\<close> builds from a list of command paths, risk
  overrides and argument rules; then what holds of every entry.
\<close>

section \<open>The assistant's own commands\<close>

definition ASSISTANT_SUPPORTED_COMMAND_PATHS :: "string list" where
  "ASSISTANT_SUPPORTED_COMMAND_PATHS =
     [''apps'', ''apps list'', ''apps inspect'', ''apps refresh'', ''attachment'', ''attachment register'',
      ''attachment lookup'', ''audit'', ''auth'', ''auth info'', ''avatar'', ''avatar generate'',
      ''avatar set'', ''avatar remove'', ''avatar get'', ''avatar character'', ''avatar character update'',
      ''avatar character components'', ''avatar character ascii'', ''backup'', ''backup enable'',
      ''backup disable'', ''backup destinations'', ''backup destinations list'',
      ''backup destinations add'', ''backup destinations remove'', ''backup destinations set-encrypt'',
      ''backup status'', ''backup list'', ''backup create'', ''backup restore'', ''backup verify'',
      ''bash'', ''browser'', ''browser navigate'', ''browser snapshot'', ''browser screenshot'',
      ''browser close'', ''browser attach'', ''browser detach'', ''browser click'', ''browser type'',
      ''browser press-key'', ''browser scroll'', ''browser select-option'', ''browser hover'',
      ''browser wait-for'', ''browser extract'', ''browser wait-for-download'',
      ''browser fill-credential'', ''browser status'', ''cache'', ''cache set'', ''cache get'',
      ''cache delete'', ''changelog'', ''changelog list'', ''changelog show'',
      ''channel-verification-sessions'', ''channel-verification-sessions create'',
      ''channel-verification-sessions status'', ''channel-verification-sessions resend'',
      ''channel-verification-sessions cancel'', ''channel-verification-sessions revoke'', ''channels'',
      ''channels list'', ''channels get'', ''channels request'', ''channels send'', ''clients'',
      ''clients disconnect'', ''clients list'', ''completions'', ''config'', ''config set'',
      ''config get'', ''config schema'', ''config list'', ''config validate-allowlist'', ''contacts'',
      ''contacts list'', ''contacts get'', ''contacts prompt'', ''contacts create'', ''contacts update'',
      ''contacts delete'', ''contacts merge'', ''contacts channels'', ''contacts channels add'',
      ''contacts channels update-status'', ''contacts invites'', ''contacts invites list'',
      ''contacts invites create'', ''contacts invites revoke'', ''contacts invites redeem'',
      ''conversations'', ''conversations import'', ''conversations defer'', ''conversations defer list'',
      ''conversations defer cancel'', ''conversations list'', ''conversations search'',
      ''conversations new'', ''conversations rename'', ''conversations export'', ''conversations clear'',
      ''conversations wake'', ''pending'', ''pending list'', ''credentials'', ''credentials list'',
      ''credentials prompt'', ''credentials set'', ''credentials delete'', ''credentials inspect'',
      ''credentials reveal'', ''credentials status'', ''db'', ''db status'', ''db repair'', ''gateway'',
      ''gateway status'', ''gateway logs'', ''gateway logs tail'', ''image-generation'',
      ''image-generation generate'', ''inference'', ''inference callsites'', ''inference callsites get'',
      ''inference callsites list'', ''inference models'', ''inference models list'',
      ''inference profiles'', ''inference profiles active'', ''inference profiles create'',
      ''inference profiles delete'', ''inference profiles get'', ''inference profiles list'',
      ''inference profiles update'', ''inference providers'', ''inference providers create'',
      ''inference providers delete'', ''inference providers get'', ''inference providers list'',
      ''inference providers update'', ''inference providers connections'',
      ''inference providers connections create'', ''inference providers connections delete'',
      ''inference providers connections get'', ''inference providers connections list'',
      ''inference providers connections update'', ''inference providers default'',
      ''inference providers login-chatgpt'', ''inference send'', ''inference session'',
      ''inference session open'', ''inference session close'', ''inference session list'', ''llm'',
      ''llm send'', ''keys'', ''keys list'', ''keys set'', ''keys delete'', ''mcp'', ''mcp list'',
      ''mcp reload'', ''mcp add'', ''mcp auth'', ''mcp remove'', ''memory'', ''memory ingest'',
      ''memory validate'', ''memory nodes'', ''memory nodes stats'', ''memory nodes list'',
      ''memory nodes delete'', ''memory nodes update'', ''memory items'', ''memory items list'',
      ''memory items get'', ''memory items create'', ''memory items update'', ''memory items delete'',
      ''memory v2'', ''memory v2 reembed'', ''memory v2 reembed-skills'', ''memory v2 activation'',
      ''memory v2 validate'', ''memory v2 ema'', ''memory v2 simulate'', ''memory v2 compare'',
      ''memory v3'', ''memory v3 rebuild-index'', ''memory v3 backfill-sections'', ''memory v3 eval'',
      ''memory v3 eval-tally'', ''memory v3 gate-stats'', ''memory retrospective'',
      ''memory retrospective run'', ''memory retrospective list'', ''memory worker'',
      ''memory worker start'', ''memory worker stop'', ''memory worker status'', ''notifications'',
      ''notifications send'', ''notifications list'', ''oauth'', ''oauth providers'',
      ''oauth providers list'', ''oauth providers get'', ''oauth providers register'',
      ''oauth providers update'', ''oauth providers delete'', ''oauth mode'', ''oauth apps'',
      ''oauth apps list'', ''oauth apps get'', ''oauth apps upsert'', ''oauth apps delete'',
      ''oauth connect'', ''oauth status'', ''oauth ping'', ''oauth request'', ''oauth disconnect'',
      ''oauth token'', ''oauth proxy-url'', ''platform'', ''platform connect'', ''platform status'',
      ''platform credits'', ''platform subscription'', ''platform plans'', ''platform invoices'',
      ''platform invoices list'', ''platform invoices get'', ''platform disconnect'',
      ''platform callback-routes'', ''platform callback-routes register'',
      ''platform callback-routes list'', ''monitoring'', ''monitoring start'', ''monitoring stop'',
      ''monitoring status'', ''ps'', ''roadmap'', ''roadmap list'', ''roadmap get'', ''roadmap create'',
      ''roadmap update'', ''roadmap delete'', ''roadmap upvote'', ''roadmap unvote'', ''routes'',
      ''routes list'', ''routes inspect'', ''schedules'', ''schedules list'', ''schedules get'',
      ''schedules inspect'', ''schedules runs'', ''schedules create'', ''schedules update'',
      ''schedules enable'', ''schedules disable'', ''schedules cancel'', ''schedules delete'',
      ''schedules execute'', ''schedules worker'', ''schedules worker start'', ''schedules worker stop'',
      ''schedules worker status'', ''sequence'', ''sequence list'', ''sequence get'', ''sequence pause'',
      ''sequence resume'', ''sequence cancel-enrollment'', ''sequence stats'', ''sequence guardrails'',
      ''sequence guardrails show'', ''sequence guardrails set'', ''skills'', ''skills inspect'',
      ''skills list'', ''skills search'', ''skills install'', ''skills uninstall'', ''skills add'',
      ''status'', ''stt'', ''stt transcribe'', ''telemetry'', ''telemetry flush'', ''tools'',
      ''tools list'', ''tools run'', ''trust'', ''trust list'', ''tts'', ''tts synthesize'', ''tts voice'',
      ''ui'', ''ui request'', ''ui confirm'', ''ui snapshot'', ''usage'', ''usage totals'',
      ''usage daily'', ''usage breakdown'', ''watchers'', ''watchers list'', ''watchers create'',
      ''watchers update'', ''watchers delete'', ''watchers digest'', ''webhooks'', ''webhooks register'',
      ''webhooks list'', ''domain'', ''domain register'', ''domain status'', ''email'', ''email register'',
      ''email unregister'', ''email status'', ''email list'', ''email download'', ''email send'',
      ''email attachment'', ''plugins'', ''plugins diff'', ''plugins install'', ''plugins inspect'',
      ''plugins list'', ''plugins search'', ''plugins uninstall'', ''plugins upgrade'', ''plugins enable'',
      ''plugins disable'']"

text \<open>\<^verbatim>\<open>path.trim().split(/\s+/).filter(nonempty)\<close>.\<close>

definition path_words :: "string \<Rightarrow> string list" where
  "path_words p = filter (\<lambda>w. w \<noteq> []) (split_spaces (js_trim p))"

text \<open>\<^verbatim>\<open>ensurePath\<close>: the tree with the nodes of the path added at low risk where they are missing.\<close>

fun ensure_words :: "string list \<Rightarrow> risk_spec \<Rightarrow> risk_spec" where
  "ensure_words [] spec = spec"
| "ensure_words (w # ws) spec =
     (let m = (case rs_subcommands spec of None \<Rightarrow> [] | Some m \<Rightarrow> m);
          child = (case js_get m w of Some c \<Rightarrow> c | None \<Rightarrow> plain_spec RLow)
      in RiskSpec (attrs spec) (Some (js_set w (ensure_words ws child) m)))"

definition ensurePath :: "risk_spec \<Rightarrow> string \<Rightarrow> risk_spec" where
  "ensurePath root p = ensure_words (path_words p) root"

text \<open>\<^verbatim>\<open>getExistingPath\<close> followed by an assignment to fields of the node it finds; it throws (\<open>None\<close>)
  when the path is missing.\<close>

fun change_words :: "string list \<Rightarrow> (spec_attrs \<Rightarrow> spec_attrs) \<Rightarrow> risk_spec \<Rightarrow> risk_spec option" where
  "change_words [] f spec = Some (RiskSpec (f (attrs spec)) (rs_subcommands spec))"
| "change_words (w # ws) f spec =
     (case rs_subcommands spec of
        None \<Rightarrow> None
      | Some m \<Rightarrow>
          (case js_get m w of
             None \<Rightarrow> None
           | Some c \<Rightarrow>
               (case change_words ws f c of
                  None \<Rightarrow> None
                | Some c' \<Rightarrow> Some (RiskSpec (attrs spec) (Some (js_set w c' m))))))"

definition changeExistingPath :: "string \<Rightarrow> (spec_attrs \<Rightarrow> spec_attrs) \<Rightarrow> risk_spec \<Rightarrow> risk_spec option" where
  "changeExistingPath p f root = change_words (path_words p) f root"

definition riskOverrides :: "(string \<times> command_risk \<times> string option) list" where
  "riskOverrides =
     [(''oauth token'', RHigh, Some ''Exposes OAuth access token''),
      (''credentials prompt'', RLow, Some (''Prompts user for credential via secure UI '' @ em_dash @ '' user has full control'')),
      (''credentials reveal'', RHigh, Some ''Reveals stored credential value''),
      (''credentials set'', RHigh, Some ''Stores or updates credential value''),
      (''credentials delete'', RHigh, Some ''Deletes stored credential value''),
      (''keys set'', RHigh, Some ''Stores API key material''),
      (''keys delete'', RHigh, Some ''Deletes API key material''),
      (''backup restore'', RHigh, Some ''Restores backup and overwrites workspace state''),
      (''conversations clear'', RMedium, Some ''Deletes conversation history''),
      (''attachment register'', RMedium, None),
      (''apps refresh'', RMedium, Some ''Compiles workspace app source and refreshes open surfaces''),
      (''avatar generate'', RLow, None),
      (''avatar set'', RLow, None),
      (''avatar remove'', RLow, None),
      (''avatar character update'', RLow, None),
      (''backup enable'', RLow, None),
      (''backup disable'', RHigh, None),
      (''backup destinations add'', RHigh, None),
      (''backup destinations remove'', RHigh, None),
      (''backup destinations set-encrypt'', RHigh, None),
      (''backup create'', RLow, None),
      (''cache set'', RLow, None),
      (''cache delete'', RLow, None),
      (''channel-verification-sessions create'', RHigh, None),
      (''channel-verification-sessions resend'', RHigh, None),
      (''channel-verification-sessions cancel'', RLow, None),
      (''channel-verification-sessions revoke'', RLow, None),
      (''config set'', RLow, None),
      (''contacts prompt'', RMedium, None),
      (''contacts create'', RMedium, None),
      (''contacts update'', RMedium, None),
      (''contacts delete'', RHigh, None),
      (''contacts merge'', RHigh, Some (''Permanently deletes the donor contact record, the same irreversible write that makes '' @ [CHR 0x27] @ ''contacts delete'' @ [CHR 0x27] @ '' high. Its channels move to the survivor, so nobody loses access, but a policy that gates high operations should gate this one.'')),
      (''contacts channels add'', RMedium, None),
      (''contacts channels update-status'', RMedium, None),
      (''contacts invites create'', RHigh, None),
      (''contacts invites revoke'', RMedium, None),
      (''contacts invites redeem'', RHigh, None),
      (''conversations import'', RHigh, None),
      (''conversations defer'', RLow, None),
      (''conversations defer cancel'', RLow, None),
      (''conversations new'', RLow, None),
      (''conversations rename'', RLow, None),
      (''conversations wake'', RLow, None),
      (''db repair'', RMedium, Some ''Runs the database repair sequence. First step is a read-only integrity check; future steps will mutate the SQLite database to recover state.''),
      (''domain register'', RMedium, None),
      (''email register'', RMedium, None),
      (''email unregister'', RMedium, None),
      (''email send'', RHigh, None),
      (''image-generation generate'', RMedium, None),
      (''roadmap create'', RHigh, Some (''Publishes an item on the public Vellum roadmap under the assistant'' @ [CHR 0x27] @ ''s name and notifies Vellum staff'')),
      (''roadmap update'', RMedium, Some ''Edits a publicly visible roadmap item''),
      (''roadmap delete'', RHigh, Some ''Permanently removes a publicly visible roadmap item''),
      (''roadmap upvote'', RMedium, Some ''Casts a publicly visible vote attributed to the assistant''),
      (''roadmap unvote'', RMedium, Some ''Withdraws a publicly visible vote, changing state the roadmap shows to everyone''),
      (''inference send'', RMedium, None),
      (''inference models list'', RLow, Some ''Read-only listing of the code-owned model catalog''),
      (''inference profiles list'', RLow, Some ''Read-only listing of the effective inference profiles''),
      (''inference profiles get'', RLow, Some ''Read-only fetch of a single effective profile''),
      (''inference profiles create'', RMedium, Some ''Writes a validated custom profile to llm.profiles; daemon rejects managed names''),
      (''inference profiles update'', RMedium, Some ''Mutates a custom profile in llm.profiles; daemon rejects managed profiles''),
      (''inference profiles delete'', RMedium, Some ''Deletes a custom profile from llm.profiles; daemon rejects managed profiles''),
      (''inference profiles active'', RMedium, Some (''Reads or switches llm.activeProfile '' @ em_dash @ '' the user'' @ [CHR 0x27] @ ''s chat-model selection'')),
      (''inference callsites list'', RLow, Some ''Read-only per-call-site resolution summary''),
      (''inference callsites get'', RLow, Some ''Read-only resolution detail for one call site''),
      (''inference providers login-chatgpt'', RMedium, Some ''Runs a browser OAuth flow and writes ChatGPT subscription credentials to CES''),
      (''inference providers default'', RMedium, Some ''Reads the default provider, or replaces llm.defaultProvider when a name is passed''),
      (''inference providers list'', RLow, Some ''Read-only listing of provider entries''),
      (''inference providers get'', RLow, Some ''Read-only fetch of a single provider entry''),
      (''inference providers create'', RMedium, Some ''Inserts a provider entry referenced by inference profiles''),
      (''inference providers update'', RMedium, Some ''Mutates provider auth config in place''),
      (''inference providers delete'', RMedium, Some ''Deletes a provider entry; the daemon refuses while profiles still reference it''),
      (''inference providers connections list'', RLow, Some ''Read-only listing of provider_connection rows''),
      (''inference providers connections get'', RLow, Some ''Read-only fetch of a single provider_connection row''),
      (''inference providers connections create'', RMedium, Some ''Inserts a provider_connection row referenced by inference profiles''),
      (''inference providers connections update'', RMedium, Some ''Mutates provider_connection auth config in place''),
      (''inference providers connections delete'', RMedium, Some ''Deletes a provider_connection row; refuses unless --force when profiles still reference it''),
      (''llm send'', RMedium, None),
      (''tools run'', RMedium, Some ''Executes a registered tool directly. Runs non-interactive and non-guardian, so prompt-gated tools auto-deny, but it still invokes a tool outside the agent loop.''),
      (''inference session open'', RLow, Some ''Opens a reversible conversation-scoped profile session; server validates the profile name''),
      (''inference session close'', RLow, Some ''Closes an active profile session; idempotent''),
      (''inference session list'', RLow, Some ''Read-only listing of active sessions''),
      (''mcp reload'', RLow, None),
      (''mcp add'', RHigh, None),
      (''mcp auth'', RMedium, None),
      (''mcp remove'', RLow, None),
      (''memory ingest'', RMedium, Some ''Writes concept pages directly into assistant memory, bypassing the consolidation buffer, and enqueues reindex jobs''),
      (''memory nodes delete'', RMedium, Some ''Permanently deletes a memory graph node by content match and removes it from the recall index''),
      (''memory nodes update'', RMedium, Some (''Rewrites a memory graph node'' @ [CHR 0x27] @ ''s content by content match and re-embeds it for recall'')),
      (''memory items create'', RMedium, Some ''Creates a memory item that persists into assistant memory and is embedded for recall''),
      (''memory items update'', RMedium, Some (''Rewrites a memory item'' @ [CHR 0x27] @ ''s content/metadata and re-embeds it for recall'')),
      (''memory items delete'', RMedium, Some (''Soft-deletes a memory item and removes its embeddings from the recall index (restorable via '' @ [CHR 0x27] @ ''memory items update --status active'' @ [CHR 0x27] @ '')'')),
      (''memory v2 reembed'', RMedium, Some ''Enqueues bulk re-embedding of every concept page''),
      (''memory v2 reembed-skills'', RMedium, Some ''Synchronously re-seeds the v2 skill catalog into the concept-page collection''),
      (''memory v2 activation'', RMedium, Some ''Enqueues recompute of persisted activation state''),
      (''memory validate'', RLow, Some ''Read-only diagnostic walk over concept pages and links''),
      (''memory v2 validate'', RLow, Some ''Read-only diagnostic walk over concept pages and edges''),
      (''memory v2 ema'', RLow, Some ''Read-only listing of concept pages sorted by injection-frequency EMA score''),
      (''memory v2 simulate'', RMedium, Some (''Invokes runRouter which calls provider.sendMessage '' @ em_dash @ '' spends a real LLM provider call even though no local state is written'')),
      (''memory v2 compare'', RMedium, Some ''Re-runs the router (one LLM call) for each sampled historical turn; user-controlled --limit means many paid provider calls can be triggered''),
      (''memory v3 backfill-sections'', RMedium, Some (''Embeds every page'' @ [CHR 0x27] @ ''s sections into the v3 dense store and advances the maintain checkpoint'')),
      (''memory v3 eval'', RMedium, Some ''Reads recent conversation turns and memory contents and writes them to eval packet/key files''),
      (''memory v3 rebuild-index'', RLow, Some ''Invalidates the in-memory v3 section lanes so they rebuild on the next turn''),
      (''memory v3 eval-tally'', RMedium, Some ''Daemon handler is read-only, but the CLI writes the tally result to a user-supplied path when --out is provided; classifying medium so file-write invocations are not auto-approved as read-only''),
      (''memory v3 gate-stats'', RLow, Some ''Read-only telemetry diagnostic: queries the local SQLite telemetry outbox and prints gate pass-rate stats; no writes, no daemon required''),
      (''memory retrospective run'', RMedium, Some ''Forks a conversation and wakes a retrospective agent that calls remember on uncovered facts''),
      (''memory worker start'', RMedium, Some ''Spawns a background process that processes memory jobs''),
      (''memory worker stop'', RLow, Some ''Sends SIGTERM to the memory worker process''),
      (''memory worker status'', RLow, Some ''Read-only liveness probe via PID file''),
      (''monitoring start'', RMedium, Some ''Spawns a background process that samples memory and disk''),
      (''monitoring stop'', RLow, Some ''Sends SIGTERM to the resource monitor process''),
      (''monitoring status'', RLow, Some ''Read-only liveness probe via PID file''),
      (''notifications send'', RLow, None),
      (''oauth request'', RMedium, Some ''Makes authenticated OAuth request''),
      (''channels request'', RHigh, Some (''Acts as the channel'' @ [CHR 0x27] @ ''s bot with any effect the bot'' @ [CHR 0x27] @ ''s API allows (sends, edits, deletes, uploads, reactions, as well as reads); the effect is the endpoint'' @ [CHR 0x27] @ ''s, which the command cannot tell apart'')),
      (''channels send'', RHigh, Some (''Posts a message people will read, as the assistant'' @ [CHR 0x27] @ ''s bot, which nobody can take back; the same effect as the messaging tool'' @ [CHR 0x27] @ ''s send, which carries the same rating'')),
      (''oauth connect'', RLow, Some ''Creates OAuth connection''),
      (''oauth disconnect'', RMedium, Some ''Removes OAuth connection''),
      (''oauth providers register'', RMedium, None),
      (''oauth providers update'', RMedium, None),
      (''oauth providers delete'', RMedium, None),
      (''oauth apps delete'', RMedium, None),
      (''oauth proxy-url'', RMedium, Some ''Mints a scoped, expiring grant a third-party CLI presents to reach a provider API through the passthrough proxy''),
      (''platform connect'', RLow, None),
      (''platform disconnect'', RMedium, None),
      (''platform callback-routes register'', RLow, None),
      (''schedules create'', RMedium, Some ''Creates a new recurring schedule that fires assistant-side messages''),
      (''schedules update'', RMedium, Some ''Updates schedule fields (expression, message, mode, script) and mutates assistant schedule state''),
      (''schedules enable'', RMedium, Some ''Enables a schedule and mutates assistant schedule state''),
      (''schedules disable'', RMedium, Some ''Disables a schedule and mutates assistant schedule state''),
      (''schedules cancel'', RMedium, Some ''Cancels a pending schedule and mutates assistant schedule state''),
      (''schedules delete'', RMedium, Some ''Permanently removes a schedule and its run history from assistant state''),
      (''schedules execute'', RHigh, Some (''Triggers immediate schedule execution. Script-mode schedules shell out via sh -c on the host, and the schedule ID arg is opaque to the classifier '' @ em_dash @ '' must conservatively assume host shell execution'')),
      (''schedules worker start'', RMedium, Some ''Spawns a background process that runs scheduled jobs''),
      (''schedules worker stop'', RMedium, Some ''Sends SIGTERM to the schedule worker process''),
      (''schedules worker status'', RLow, Some ''Read-only liveness probe via PID file''),
      (''sequence pause'', RMedium, None),
      (''sequence resume'', RMedium, None),
      (''sequence cancel-enrollment'', RMedium, None),
      (''sequence guardrails set'', RMedium, None),
      (''plugins install'', RHigh, Some ''Fetches and installs external plugin code from GitHub''),
      (''plugins uninstall'', RMedium, Some ''Removes an installed plugin and all its files from the workspace''),
      (''plugins upgrade'', RHigh, Some ''Fetches and re-installs external plugin code from GitHub''),
      (''plugins disable'', RMedium, Some ''Disables a plugin by creating a .disabled sentinel file in the workspace''),
      (''plugins enable'', RMedium, Some ''Re-enables a plugin by removing the .disabled sentinel file''),
      (''skills install'', RHigh, None),
      (''skills uninstall'', RMedium, None),
      (''skills add'', RHigh, None),
      (''stt transcribe'', RMedium, None),
      (''tts synthesize'', RMedium, None),
      (''tts voice'', RLow, None),
      (''watchers create'', RMedium, None),
      (''watchers update'', RMedium, None),
      (''watchers delete'', RMedium, None),
      (''webhooks register'', RHigh, None),
      (''browser navigate'', RMedium, None),
      (''browser close'', RMedium, None),
      (''browser attach'', RMedium, None),
      (''browser detach'', RLow, None),
      (''browser click'', RMedium, None),
      (''browser type'', RMedium, None),
      (''browser press-key'', RMedium, None),
      (''browser scroll'', RLow, None),
      (''browser select-option'', RMedium, None),
      (''browser hover'', RLow, None),
      (''browser wait-for'', RLow, None),
      (''browser wait-for-download'', RMedium, None),
      (''browser fill-credential'', RHigh, None)]"

fun apply_overrides :: "(string \<times> command_risk \<times> string option) list \<Rightarrow> risk_spec \<Rightarrow> risk_spec option" where
  "apply_overrides [] spec = Some spec"
| "apply_overrides ((p, r, why) # os) spec =
     (case changeExistingPath p
             (\<lambda>a. if why = None \<or> why = Some [] then a\<lparr>sa_baseRisk := r\<rparr>
                  else a\<lparr>sa_baseRisk := r, sa_reason := why\<rparr>) spec of
        None \<Rightarrow> None
      | Some spec' \<Rightarrow> apply_overrides os spec')"

definition oauthModeArgRules :: "arg_rule list" where
  "oauthModeArgRules =
     [\<lparr>ar_id = ''assistant-oauth-mode:set'', ar_flags = [''--set''], ar_valuePattern = None, ar_risk = RHigh, ar_reason = ''Changes OAuth mode''\<rparr>]"

text \<open>The keys of \<^verbatim>\<open>CHANNEL_BOT_PROVIDER\<close>'s values (\<^verbatim>\<open>packages/service-contracts/src/channels.ts\<close>).\<close>

definition CHANNEL_BOT_PROVIDER :: "(string, string) js_map" where
  "CHANNEL_BOT_PROVIDER =
     [(''slack'', ''slack_channel''), (''discord'', ''discord_channel''), (''telegram'', ''telegram'')]"

definition botProviderKeyPattern :: string where
  "botProviderKeyPattern = join_with ''|'' (map escapeRegex (js_values CHANNEL_BOT_PROVIDER))"

definition oauthRequestArgRules :: "arg_rule list" where
  "oauthRequestArgRules =
     [\<lparr>ar_id = ''assistant-oauth-request:bot-provider'', ar_flags = [''--provider''], ar_valuePattern = Some (''^('' @ botProviderKeyPattern @ '')$''), ar_risk = RHigh, ar_reason = (''Acts as a channel'' @ [CHR 0x27] @ ''s bot through the OAuth request door, with every effect the bot'' @ [CHR 0x27] @ ''s API allows'')\<rparr>]"

definition assistantBashArgRules :: "arg_rule list" where
  "assistantBashArgRules =
     [\<lparr>ar_id = ''assistant-bash:command'', ar_flags = [], ar_valuePattern = Some ''^(?!bash$|--help$|-h$).+'', ar_risk = RHigh, ar_reason = ''Executes arbitrary shell command''\<rparr>]"

definition scheduleUpdateArgRules :: "arg_rule list" where
  "scheduleUpdateArgRules =
     [\<lparr>ar_id = ''assistant-schedules-update:script'', ar_flags = [''--script''], ar_valuePattern = None, ar_risk = RHigh, ar_reason = ''Persists an arbitrary shell command that the schedule executes on fire''\<rparr>,
      \<lparr>ar_id = ''assistant-schedules-update:mode-script'', ar_flags = [''--mode''], ar_valuePattern = Some ''^script$'', ar_risk = RHigh, ar_reason = ''Switches the schedule to script mode (host shell execution on fire)''\<rparr>]"

definition scheduleCreateArgRules :: "arg_rule list" where
  "scheduleCreateArgRules =
     [\<lparr>ar_id = ''assistant-schedules-create:script'', ar_flags = [''--script''], ar_valuePattern = None, ar_risk = RHigh, ar_reason = ''Persists an arbitrary shell command that the schedule executes on fire''\<rparr>,
      \<lparr>ar_id = ''assistant-schedules-create:mode-script'', ar_flags = [''--mode''], ar_valuePattern = Some ''^script$'', ar_risk = RHigh, ar_reason = ''Switches the schedule to script mode (host shell execution on fire)''\<rparr>]"

text \<open>The statements after the overrides, in order.\<close>

definition late_changes :: "(string \<times> (spec_attrs \<Rightarrow> spec_attrs)) list" where
  "late_changes =
     [(''oauth mode'', \<lambda>a. a\<lparr>sa_argRules := oauthModeArgRules\<rparr>),
      (''oauth request'', \<lambda>a. a\<lparr>sa_argRules := oauthRequestArgRules,
         sa_argSchema := Some (empty_schema\<lparr>valueFlags := [''--provider'', ''--account'', ''--client-id'']\<rparr>)\<rparr>),
      (''bash'', \<lambda>a. a\<lparr>sa_argRules := assistantBashArgRules\<rparr>),
      (''schedules update'', \<lambda>a. a\<lparr>sa_argRules := scheduleUpdateArgRules,
         sa_argSchema := Some (empty_schema\<lparr>valueFlags := [''--mode'', ''--script'']\<rparr>)\<rparr>),
      (''schedules create'', \<lambda>a. a\<lparr>sa_argRules := scheduleCreateArgRules,
         sa_argSchema := Some (empty_schema\<lparr>valueFlags := [''--mode'', ''--script'']\<rparr>)\<rparr>)]"

fun apply_changes :: "(string \<times> (spec_attrs \<Rightarrow> spec_attrs)) list \<Rightarrow> risk_spec \<Rightarrow> risk_spec option" where
  "apply_changes [] spec = Some spec"
| "apply_changes ((p, f) # cs) spec =
     (case changeExistingPath p f spec of None \<Rightarrow> None | Some spec' \<Rightarrow> apply_changes cs spec')"

definition assistant_tree :: risk_spec where
  "assistant_tree =
     ensurePath (foldl ensurePath (RiskSpec (spec_of RLow) (Some [])) ASSISTANT_SUPPORTED_COMMAND_PATHS) ''help''"

definition cmd_assistant :: "risk_spec option" where
  "cmd_assistant =
     (case apply_overrides riskOverrides assistant_tree of
        None \<Rightarrow> None
      | Some spec \<Rightarrow> apply_changes late_changes spec)"

section \<open>The registry\<close>

text \<open>The table, given the assistant's entry; without one the module does not load.\<close>

definition registry_with :: "risk_spec \<Rightarrow> registry" where
  "registry_with assistant =
     [(''7z'', cmd__7z), (''7za'', cmd__7za), (''ack'', cmd_ack), (''adduser'', cmd_adduser),
      (''ag'', cmd_ag), (''alias'', cmd_alias), (''ant'', cmd_ant), (''apk'', cmd_apk), (''apt'', cmd_apt),
      (''apt-get'', cmd_apt_get), (''assistant'', assistant), (''at'', cmd_at), (''awk'', cmd_awk),
      (''aws'', cmd_aws), (''az'', cmd_az), (''b2sum'', cmd_b2sum), (''base64'', cmd_base64),
      (''basename'', cmd_basename), (''bash'', cmd_bash), (''bazel'', cmd_bazel), (''brew'', cmd_brew),
      (''bun'', cmd_bun), (''bunx'', cmd_bunx), (''bunzip2'', cmd_bunzip2), (''bzip2'', cmd_bzip2),
      (''cal'', cmd_cal), (''cargo'', cmd_cargo), (''cat'', cmd_cat), (''cd'', cmd_cd),
      (''chgrp'', cmd_chgrp), (''chmod'', cmd_chmod), (''chown'', cmd_chown), (''chroot'', cmd_chroot),
      (''cksum'', cmd_cksum), (''cmake'', cmd_cmake), (''cmp'', cmd_cmp), (''column'', cmd_column),
      (''comm'', cmd_comm), (''command'', cmd_command), (''composer'', cmd_composer), (''cp'', cmd_cp),
      (''crontab'', cmd_crontab), (''csplit'', cmd_csplit), (''curl'', cmd_curl), (''cut'', cmd_cut),
      (''dash'', cmd_dash), (''date'', cmd_date), (''dd'', cmd_dd), (''declare'', cmd_declare),
      (''defaults'', cmd_defaults), (''deluser'', cmd_deluser), (''deno'', cmd_deno), (''df'', cmd_df),
      (''diff'', cmd_diff), (''dig'', cmd_dig), (''dir'', cmd_dir), (''dirname'', cmd_dirname),
      (''dmesg'', cmd_dmesg), (''dnf'', cmd_dnf), (''doas'', cmd_doas), (''docker'', cmd_docker),
      (''dos2unix'', cmd_dos2unix), (''du'', cmd_du), (''echo'', cmd_echo), (''egrep'', cmd_egrep),
      (''env'', cmd_env), (''eval'', cmd_eval), (''exec'', cmd_exec), (''expand'', cmd_expand),
      (''export'', cmd_export), (''fd'', cmd_fd), (''fdisk'', cmd_fdisk), (''fgrep'', cmd_fgrep),
      (''file'', cmd_file), (''find'', cmd_find), (''firewall-cmd'', cmd_firewall_cmd),
      (''fish'', cmd_fish), (''fmt'', cmd_fmt), (''fold'', cmd_fold), (''free'', cmd_free),
      (''ftp'', cmd_ftp), (''gateway'', cmd_gateway), (''gcloud'', cmd_gcloud), (''gem'', cmd_gem),
      (''gh'', cmd_gh), (''git'', cmd_git), (''go'', cmd_go), (''gradle'', cmd_gradle),
      (''grep'', cmd_grep), (''groupadd'', cmd_groupadd), (''groupdel'', cmd_groupdel),
      (''groupmod'', cmd_groupmod), (''groups'', cmd_groups), (''gunzip'', cmd_gunzip),
      (''gzip'', cmd_gzip), (''halt'', cmd_halt), (''head'', cmd_head), (''helm'', cmd_helm),
      (''help'', cmd_help), (''hexdump'', cmd_hexdump), (''hg'', cmd_hg), (''history'', cmd_history),
      (''host'', cmd_host), (''hostname'', cmd_hostname), (''htop'', cmd_htop), (''http'', cmd_http),
      (''iconv'', cmd_iconv), (''id'', cmd_id), (''ifconfig'', cmd_ifconfig), (''info'', cmd_info),
      (''install'', cmd_install), (''ionice'', cmd_ionice), (''iostat'', cmd_iostat), (''ip'', cmd_ip),
      (''ip6tables'', cmd_ip6tables), (''iptables'', cmd_iptables), (''java'', cmd_java),
      (''javac'', cmd_javac), (''join'', cmd_join), (''jq'', cmd_jq), (''kill'', cmd_kill),
      (''killall'', cmd_killall), (''ksh'', cmd_ksh), (''kubectl'', cmd_kubectl), (''last'', cmd_last),
      (''launchctl'', cmd_launchctl), (''less'', cmd_less), (''ln'', cmd_ln), (''locate'', cmd_locate),
      (''loginctl'', cmd_loginctl), (''ls'', cmd_ls), (''lsof'', cmd_lsof), (''ltrace'', cmd_ltrace),
      (''lua'', cmd_lua), (''make'', cmd_make), (''man'', cmd_man), (''md5'', cmd_md5),
      (''md5sum'', cmd_md5sum), (''meson'', cmd_meson), (''mkdir'', cmd_mkdir), (''mkfs'', cmd_mkfs),
      (''mktemp'', cmd_mktemp), (''more'', cmd_more), (''mount'', cmd_mount), (''mtr'', cmd_mtr),
      (''mv'', cmd_mv), (''mvn'', cmd_mvn), (''nc'', cmd_nc), (''netcat'', cmd_netcat),
      (''netstat'', cmd_netstat), (''networksetup'', cmd_networksetup), (''nft'', cmd_nft),
      (''nice'', cmd_nice), (''ninja'', cmd_ninja), (''nl'', cmd_nl), (''nmap'', cmd_nmap),
      (''nmcli'', cmd_nmcli), (''node'', cmd_node), (''nohup'', cmd_nohup), (''npm'', cmd_npm),
      (''npx'', cmd_npx), (''nslookup'', cmd_nslookup), (''od'', cmd_od), (''openssl'', cmd_openssl),
      (''pacman'', cmd_pacman), (''parted'', cmd_parted), (''passwd'', cmd_passwd), (''paste'', cmd_paste),
      (''perl'', cmd_perl), (''pgrep'', cmd_pgrep), (''php'', cmd_php), (''ping'', cmd_ping),
      (''pip'', cmd_pip), (''pip3'', cmd_pip3), (''pipx'', cmd_pipx), (''pkill'', cmd_pkill),
      (''plocate'', cmd_plocate), (''pnpm'', cmd_pnpm), (''pnpx'', cmd_pnpx), (''poetry'', cmd_poetry),
      (''popd'', cmd_popd), (''port'', cmd_port), (''poweroff'', cmd_poweroff),
      (''powershell'', cmd_powershell), (''pr'', cmd_pr), (''printenv'', cmd_printenv),
      (''printf'', cmd_printf), (''ps'', cmd_ps), (''pstree'', cmd_pstree), (''pushd'', cmd_pushd),
      (''pwd'', cmd_pwd), (''pwsh'', cmd_pwsh), (''python'', cmd_python), (''python3'', cmd_python3),
      (''R'', cmd_R), (''readlink'', cmd_readlink), (''readonly'', cmd_readonly),
      (''realpath'', cmd_realpath), (''reboot'', cmd_reboot), (''renice'', cmd_renice), (''rev'', cmd_rev),
      (''rg'', cmd_rg), (''rm'', cmd_rm), (''rmdir'', cmd_rmdir), (''route'', cmd_route),
      (''Rscript'', cmd_Rscript), (''rsync'', cmd_rsync), (''ruby'', cmd_ruby), (''scp'', cmd_scp),
      (''screen'', cmd_screen), (''sed'', cmd_sed), (''seq'', cmd_seq), (''service'', cmd_service),
      (''set'', cmd_set), (''sftp'', cmd_sftp), (''sh'', cmd_sh), (''sha1sum'', cmd_sha1sum),
      (''sha256sum'', cmd_sha256sum), (''sha512sum'', cmd_sha512sum), (''shred'', cmd_shred),
      (''shuf'', cmd_shuf), (''shutdown'', cmd_shutdown), (''sleep'', cmd_sleep), (''sort'', cmd_sort),
      (''source'', cmd_source), (''split'', cmd_split), (''ss'', cmd_ss), (''ssh'', cmd_ssh),
      (''ssh-add'', cmd_ssh_add), (''ssh-copy-id'', cmd_ssh_copy_id), (''ssh-keygen'', cmd_ssh_keygen),
      (''stat'', cmd_stat), (''strace'', cmd_strace), (''strings'', cmd_strings), (''su'', cmd_su),
      (''sudo'', cmd_sudo), (''svn'', cmd_svn), (''sw_vers'', cmd_sw_vers), (''swift'', cmd_swift),
      (''sysctl'', cmd_sysctl), (''systemctl'', cmd_systemctl), (''tail'', cmd_tail), (''tar'', cmd_tar),
      (''taskset'', cmd_taskset), (''tcsh'', cmd_tcsh), (''tee'', cmd_tee), (''telnet'', cmd_telnet),
      (''terraform'', cmd_terraform), (''time'', cmd_time), (''timeout'', cmd_timeout),
      (''tmux'', cmd_tmux), (''top'', cmd_top), (''touch'', cmd_touch), (''tr'', cmd_tr),
      (''tracepath'', cmd_tracepath), (''traceroute'', cmd_traceroute), (''tree'', cmd_tree),
      (''truncate'', cmd_truncate), (''ts-node'', cmd_ts_node), (''tsx'', cmd_tsx), (''type'', cmd_type),
      (''typeset'', cmd_typeset), (''ufw'', cmd_ufw), (''umask'', cmd_umask), (''umount'', cmd_umount),
      (''uname'', cmd_uname), (''unexpand'', cmd_unexpand), (''uniq'', cmd_uniq),
      (''unix2dos'', cmd_unix2dos), (''unlink'', cmd_unlink), (''unset'', cmd_unset), (''unxz'', cmd_unxz),
      (''unzip'', cmd_unzip), (''unzstd'', cmd_unzstd), (''uptime'', cmd_uptime),
      (''useradd'', cmd_useradd), (''userdel'', cmd_userdel), (''usermod'', cmd_usermod),
      (''users'', cmd_users), (''uv'', cmd_uv), (''vdir'', cmd_vdir), (''visudo'', cmd_visudo),
      (''vmstat'', cmd_vmstat), (''w'', cmd_w), (''watch'', cmd_watch), (''wc'', cmd_wc),
      (''wget'', cmd_wget), (''where'', cmd_where), (''whereis'', cmd_whereis), (''which'', cmd_which),
      (''who'', cmd_who), (''whoami'', cmd_whoami), (''wipefs'', cmd_wipefs), (''xargs'', cmd_xargs),
      (''xxd'', cmd_xxd), (''xz'', cmd_xz), (''yarn'', cmd_yarn), (''yes'', cmd_yes), (''yq'', cmd_yq),
      (''yum'', cmd_yum), (''zip'', cmd_zip), (''zsh'', cmd_zsh), (''zstd'', cmd_zstd),
      (''zypper'', cmd_zypper)]"

definition DEFAULT_COMMAND_REGISTRY :: registry where
  "DEFAULT_COMMAND_REGISTRY = (case cmd_assistant of Some a \<Rightarrow> registry_with a | None \<Rightarrow> [])"

section \<open>The assistant's entry is built\<close>

fun has_path :: "string list \<Rightarrow> risk_spec \<Rightarrow> bool" where
  "has_path [] spec = True"
| "has_path (w # ws) spec =
     (case rs_subcommands spec of
        None \<Rightarrow> False
      | Some m \<Rightarrow> (case js_get m w of None \<Rightarrow> False | Some c \<Rightarrow> has_path ws c))"

lemma ensure_has_path: "has_path ws (ensure_words ws spec)"
  by (induction ws spec rule: ensure_words.induct) (simp_all add: Let_def)

lemma ensure_keeps_path: "has_path vs spec \<Longrightarrow> has_path vs (ensure_words ws spec)"
proof (induction ws spec arbitrary: vs rule: ensure_words.induct)
  case (2 w ws spec)
  then show ?case
    by (cases vs) (auto simp: Let_def split: option.splits)
qed simp

lemma change_words_path:
  "has_path ws spec \<Longrightarrow> \<exists>spec'. change_words ws f spec = Some spec' \<and> (\<forall>vs. has_path vs spec \<longrightarrow> has_path vs spec')"
proof (induction ws f spec rule: change_words.induct)
  case (1 f spec)
  have "has_path vs (RiskSpec (f (attrs spec)) (rs_subcommands spec)) = has_path vs spec" for vs
    by (cases vs) simp_all
  then show ?case by simp
next
  case (2 w ws f spec)
  then obtain m c where m: "rs_subcommands spec = Some m" "js_get m w = Some c" "has_path ws c"
    by (auto split: option.splits)
  obtain c' where c': "change_words ws f c = Some c'" "\<forall>vs. has_path vs c \<longrightarrow> has_path vs c'"
    using 2(1) [OF m] by blast
  have "has_path vs (RiskSpec (attrs spec) (Some (js_set w c' m)))" if "has_path vs spec" for vs
    using that m c' by (cases vs) (auto split: option.splits)
  then show ?case using m c' by simp
qed

lemma apply_overrides_path:
  "(\<forall>x \<in> set os. has_path (path_words (fst x)) spec) \<Longrightarrow>
   \<exists>spec'. apply_overrides os spec = Some spec' \<and> (\<forall>vs. has_path vs spec \<longrightarrow> has_path vs spec')"
proof (induction os spec rule: apply_overrides.induct)
  case (2 p r why os spec)
  let ?f = "\<lambda>a. if why = None \<or> why = Some [] then a\<lparr>sa_baseRisk := r\<rparr> else a\<lparr>sa_baseRisk := r, sa_reason := why\<rparr>"
  have "has_path (path_words p) spec" using 2(2) by simp
  from change_words_path [OF this, of ?f]
  obtain spec1 where s1: "changeExistingPath p ?f spec = Some spec1" "\<forall>vs. has_path vs spec \<longrightarrow> has_path vs spec1"
    by (auto simp: changeExistingPath_def)
  then have "\<forall>x \<in> set os. has_path (path_words (fst x)) spec1" using 2(2) by auto
  from 2(1) [OF s1(1) this] show ?case using s1 by auto
qed simp

lemma apply_changes_path:
  "(\<forall>x \<in> set cs. has_path (path_words (fst x)) spec) \<Longrightarrow> apply_changes cs spec \<noteq> None"
proof (induction cs spec rule: apply_changes.induct)
  case (2 p f cs spec)
  have "has_path (path_words p) spec" using 2(2) by simp
  from change_words_path [OF this, of f]
  obtain spec1 where s1: "changeExistingPath p f spec = Some spec1" "\<forall>vs. has_path vs spec \<longrightarrow> has_path vs spec1"
    by (auto simp: changeExistingPath_def)
  then have "\<forall>x \<in> set cs. has_path (path_words (fst x)) spec1" using 2(2) by auto
  from 2(1) [OF s1(1) this] show ?case using s1 by simp
qed simp

lemma foldl_ensurePath:
  "has_path vs spec \<Longrightarrow> has_path vs (foldl ensurePath spec ps)"
  by (induction ps arbitrary: spec) (simp_all add: ensurePath_def ensure_keeps_path)

lemma foldl_ensurePath_mem:
  "p \<in> set ps \<Longrightarrow> has_path (path_words p) (foldl ensurePath spec ps)"
proof (induction ps arbitrary: spec)
  case (Cons q ps)
  have "has_path (path_words q) (ensurePath spec q)" by (simp add: ensurePath_def ensure_has_path)
  then show ?case using Cons foldl_ensurePath by auto
qed simp

lemma assistant_tree_path: "p \<in> set ASSISTANT_SUPPORTED_COMMAND_PATHS \<Longrightarrow> has_path (path_words p) assistant_tree"
  unfolding assistant_tree_def using ensure_keeps_path [OF foldl_ensurePath_mem] by (simp add: ensurePath_def)

lemma override_paths: "set (map fst riskOverrides) \<subseteq> set ASSISTANT_SUPPORTED_COMMAND_PATHS"
  unfolding riskOverrides_def ASSISTANT_SUPPORTED_COMMAND_PATHS_def list.map fst_conv list.set insert_subset
  by (intro conjI insertI1 insertI2 empty_subsetI)

lemma late_paths: "set (map fst late_changes) \<subseteq> set ASSISTANT_SUPPORTED_COMMAND_PATHS"
  unfolding late_changes_def ASSISTANT_SUPPORTED_COMMAND_PATHS_def list.map fst_conv list.set insert_subset
  by (intro conjI insertI1 insertI2 empty_subsetI)

text \<open>Building the entry never throws: every path that gets an override, argument rules or a schema is one of the
  supported paths.\<close>

theorem assistant_registry_loads: "\<exists>a. cmd_assistant = Some a \<and> DEFAULT_COMMAND_REGISTRY = registry_with a"
proof -
  have "\<forall>x \<in> set riskOverrides. has_path (path_words (fst x)) assistant_tree"
    using override_paths assistant_tree_path by auto
  from apply_overrides_path [OF this] obtain spec where
    spec: "apply_overrides riskOverrides assistant_tree = Some spec" "\<forall>vs. has_path vs assistant_tree \<longrightarrow> has_path vs spec"
    by blast
  have "\<forall>x \<in> set late_changes. has_path (path_words (fst x)) spec"
    using late_paths assistant_tree_path spec(2) by auto
  from apply_changes_path [OF this] spec(1) show ?thesis
    by (auto simp: cmd_assistant_def DEFAULT_COMMAND_REGISTRY_def)
qed

text \<open>Changes below the root leave the root's own attributes.\<close>

lemma change_words_attrs: "ws \<noteq> [] \<Longrightarrow> change_words ws f spec = Some spec' \<Longrightarrow> attrs spec' = attrs spec"
  by (cases ws) (auto split: option.splits)

lemma ensure_words_attrs [simp]: "attrs (ensure_words ws spec) = attrs spec"
  by (cases ws) (simp_all add: Let_def)

lemma assistant_tree_attrs: "attrs assistant_tree = spec_of RLow"
proof -
  have "attrs (foldl ensurePath s ps) = attrs s" for s ps
    by (induction ps arbitrary: s) (simp_all add: ensurePath_def)
  then show ?thesis by (simp add: assistant_tree_def ensurePath_def)
qed

lemma path_words_nonempty:
  assumes "p \<noteq> []" "\<not> is_space (hd p)"
  shows "path_words p \<noteq> []"
proof -
  obtain c cs where c: "p = c # cs" "\<not> is_space c" using assms by (cases p) auto
  have "dropWhile is_space (rev cs @ [c]) = dropWhile is_space (rev cs) @ [c]"
    using c(2) by (induction "rev cs") (auto simp: dropWhile_append split: if_splits)
  then obtain t where t: "js_trim p = c # t" using c by (simp add: js_trim_def)
  have "hd (split_spaces (c # t)) \<noteq> [] \<and> split_spaces (c # t) \<noteq> []"
    using c(2) by (simp add: split_spaces.simps [of "c # t"] split: list.splits)
  then have "\<exists>w \<in> set (split_spaces (c # t)). w \<noteq> []" using hd_in_set by blast
  then show ?thesis by (auto simp: path_words_def t filter_empty_conv)
qed

lemma supported_heads: "list_all (\<lambda>p. p \<noteq> [] \<and> \<not> is_space (hd p)) ASSISTANT_SUPPORTED_COMMAND_PATHS"
  by (simp add: ASSISTANT_SUPPORTED_COMMAND_PATHS_def is_space_def)

lemma supported_words: "p \<in> set ASSISTANT_SUPPORTED_COMMAND_PATHS \<Longrightarrow> path_words p \<noteq> []"
  using supported_heads path_words_nonempty unfolding list_all_iff by blast

lemma apply_overrides_attrs:
  "apply_overrides os spec = Some spec' \<Longrightarrow> \<forall>x \<in> set os. path_words (fst x) \<noteq> [] \<Longrightarrow> attrs spec' = attrs spec"
proof (induction os spec arbitrary: spec' rule: apply_overrides.induct)
  case (2 p r why os spec)
  then show ?case
    by (fastforce simp: changeExistingPath_def dest: change_words_attrs split: option.splits)
qed simp

lemma apply_changes_attrs:
  "apply_changes cs spec = Some spec' \<Longrightarrow> \<forall>x \<in> set cs. path_words (fst x) \<noteq> [] \<Longrightarrow> attrs spec' = attrs spec"
proof (induction cs spec arbitrary: spec' rule: apply_changes.induct)
  case (2 p f cs spec)
  then show ?case
    by (fastforce simp: changeExistingPath_def dest: change_words_attrs split: option.splits)
qed simp

lemma assistant_attrs: "cmd_assistant = Some a \<Longrightarrow> attrs a = spec_of RLow"
proof -
  assume a: "cmd_assistant = Some a"
  then obtain spec where spec: "apply_overrides riskOverrides assistant_tree = Some spec" "apply_changes late_changes spec = Some a"
    by (auto simp: cmd_assistant_def split: option.splits)
  have "\<forall>x \<in> set riskOverrides. path_words (fst x) \<noteq> []" "\<forall>x \<in> set late_changes. path_words (fst x) \<noteq> []"
    using supported_words override_paths late_paths by auto
  then show ?thesis
    using apply_overrides_attrs [OF spec(1)] apply_changes_attrs [OF spec(2)] assistant_tree_attrs by simp
qed

section \<open>What holds of every entry\<close>

lemmas registry_entry_defs =
  cmd__7z_def cmd__7za_def cmd_ack_def cmd_adduser_def cmd_ag_def cmd_alias_def cmd_ant_def cmd_apk_def
  cmd_apt_def cmd_apt_get_def cmd_at_def cmd_awk_def cmd_aws_def cmd_az_def cmd_b2sum_def cmd_base64_def
  cmd_basename_def cmd_bash_def cmd_bazel_def cmd_brew_def cmd_bun_def cmd_bunx_def cmd_bunzip2_def
  cmd_bzip2_def cmd_cal_def cmd_cargo_def cmd_cat_def cmd_cd_def cmd_chgrp_def cmd_chmod_def cmd_chown_def
  cmd_chroot_def cmd_cksum_def cmd_cmake_def cmd_cmp_def cmd_column_def cmd_comm_def cmd_command_def
  cmd_composer_def cmd_cp_def cmd_crontab_def cmd_csplit_def cmd_curl_def cmd_cut_def cmd_dash_def
  cmd_date_def cmd_dd_def cmd_declare_def cmd_defaults_def cmd_deluser_def cmd_deno_def cmd_df_def
  cmd_diff_def cmd_dig_def cmd_dir_def cmd_dirname_def cmd_dmesg_def cmd_dnf_def cmd_doas_def cmd_docker_def
  cmd_dos2unix_def cmd_du_def cmd_echo_def cmd_egrep_def cmd_env_def cmd_eval_def cmd_exec_def
  cmd_expand_def cmd_export_def cmd_fd_def cmd_fdisk_def cmd_fgrep_def cmd_file_def cmd_find_def
  cmd_firewall_cmd_def cmd_fish_def cmd_fmt_def cmd_fold_def cmd_free_def cmd_ftp_def cmd_gateway_def
  cmd_gcloud_def cmd_gem_def cmd_gh_def cmd_git_def cmd_go_def cmd_gradle_def cmd_grep_def cmd_groupadd_def
  cmd_groupdel_def cmd_groupmod_def cmd_groups_def cmd_gunzip_def cmd_gzip_def cmd_halt_def cmd_head_def
  cmd_helm_def cmd_help_def cmd_hexdump_def cmd_hg_def cmd_history_def cmd_host_def cmd_hostname_def
  cmd_htop_def cmd_http_def cmd_iconv_def cmd_id_def cmd_ifconfig_def cmd_info_def cmd_install_def
  cmd_ionice_def cmd_iostat_def cmd_ip_def cmd_ip6tables_def cmd_iptables_def cmd_java_def cmd_javac_def
  cmd_join_def cmd_jq_def cmd_kill_def cmd_killall_def cmd_ksh_def cmd_kubectl_def cmd_last_def
  cmd_launchctl_def cmd_less_def cmd_ln_def cmd_locate_def cmd_loginctl_def cmd_ls_def cmd_lsof_def
  cmd_ltrace_def cmd_lua_def cmd_make_def cmd_man_def cmd_md5_def cmd_md5sum_def cmd_meson_def cmd_mkdir_def
  cmd_mkfs_def cmd_mktemp_def cmd_more_def cmd_mount_def cmd_mtr_def cmd_mv_def cmd_mvn_def cmd_nc_def
  cmd_netcat_def cmd_netstat_def cmd_networksetup_def cmd_nft_def cmd_nice_def cmd_ninja_def cmd_nl_def
  cmd_nmap_def cmd_nmcli_def cmd_node_def cmd_nohup_def cmd_npm_def cmd_npx_def cmd_nslookup_def cmd_od_def
  cmd_openssl_def cmd_pacman_def cmd_parted_def cmd_passwd_def cmd_paste_def cmd_perl_def cmd_pgrep_def
  cmd_php_def cmd_ping_def cmd_pip_def cmd_pip3_def cmd_pipx_def cmd_pkill_def cmd_plocate_def cmd_pnpm_def
  cmd_pnpx_def cmd_poetry_def cmd_popd_def cmd_port_def cmd_poweroff_def cmd_powershell_def cmd_pr_def
  cmd_printenv_def cmd_printf_def cmd_ps_def cmd_pstree_def cmd_pushd_def cmd_pwd_def cmd_pwsh_def
  cmd_python_def cmd_python3_def cmd_R_def cmd_readlink_def cmd_readonly_def cmd_realpath_def cmd_reboot_def
  cmd_renice_def cmd_rev_def cmd_rg_def cmd_rm_def cmd_rmdir_def cmd_route_def cmd_Rscript_def cmd_rsync_def
  cmd_ruby_def cmd_scp_def cmd_screen_def cmd_sed_def cmd_seq_def cmd_service_def cmd_set_def cmd_sftp_def
  cmd_sh_def cmd_sha1sum_def cmd_sha256sum_def cmd_sha512sum_def cmd_shred_def cmd_shuf_def cmd_shutdown_def
  cmd_sleep_def cmd_sort_def cmd_source_def cmd_split_def cmd_ss_def cmd_ssh_def cmd_ssh_add_def
  cmd_ssh_copy_id_def cmd_ssh_keygen_def cmd_stat_def cmd_strace_def cmd_strings_def cmd_su_def cmd_sudo_def
  cmd_svn_def cmd_sw_vers_def cmd_swift_def cmd_sysctl_def cmd_systemctl_def cmd_tail_def cmd_tar_def
  cmd_taskset_def cmd_tcsh_def cmd_tee_def cmd_telnet_def cmd_terraform_def cmd_time_def cmd_timeout_def
  cmd_tmux_def cmd_top_def cmd_touch_def cmd_tr_def cmd_tracepath_def cmd_traceroute_def cmd_tree_def
  cmd_truncate_def cmd_ts_node_def cmd_tsx_def cmd_type_def cmd_typeset_def cmd_ufw_def cmd_umask_def
  cmd_umount_def cmd_uname_def cmd_unexpand_def cmd_uniq_def cmd_unix2dos_def cmd_unlink_def cmd_unset_def
  cmd_unxz_def cmd_unzip_def cmd_unzstd_def cmd_uptime_def cmd_useradd_def cmd_userdel_def cmd_usermod_def
  cmd_users_def cmd_uv_def cmd_vdir_def cmd_visudo_def cmd_vmstat_def cmd_w_def cmd_watch_def cmd_wc_def
  cmd_wget_def cmd_where_def cmd_whereis_def cmd_which_def cmd_who_def cmd_whoami_def cmd_wipefs_def
  cmd_xargs_def cmd_xxd_def cmd_xz_def cmd_yarn_def cmd_yes_def cmd_yq_def cmd_yum_def cmd_zip_def
  cmd_zsh_def cmd_zstd_def cmd_zypper_def

text \<open>The programs a workspace command may run without a prompt.\<close>

definition SANDBOX_PROGRAMS :: "string list" where
  "SANDBOX_PROGRAMS =
     [''ack'', ''ag'', ''basename'', ''cat'', ''chgrp'', ''chmod'', ''chown'', ''cp'', ''cut'', ''df'',
      ''diff'', ''dirname'', ''du'', ''echo'', ''fd'', ''file'', ''grep'', ''gunzip'', ''gzip'',
      ''head'', ''jq'', ''less'', ''ln'', ''ls'', ''mkdir'', ''more'', ''mv'', ''printf'', ''pwd'',
      ''readlink'', ''realpath'', ''rg'', ''rm'', ''rmdir'', ''sed'', ''sort'', ''stat'', ''tail'',
      ''tar'', ''tee'', ''touch'', ''tr'', ''tree'', ''uniq'', ''unzip'', ''wc'', ''yq'', ''zip'']"

definition entry_ok :: "string \<times> risk_spec \<Rightarrow> bool" where
  "entry_ok e \<longleftrightarrow>
     registry_risk (sa_baseRisk (attrs (snd e))) \<and>
     (sa_sandboxAutoApprove (attrs (snd e)) \<longrightarrow>
        sa_argSchema (attrs (snd e)) \<noteq> None \<and> \<not> sa_isWrapper (attrs (snd e)) \<and> rs_subcommands (snd e) = None)"

lemma registry_with_ok: "attrs a = spec_of RLow \<Longrightarrow> list_all entry_ok (registry_with a)"
  by (simp add: registry_with_def entry_ok_def registry_risk_def spec_of_def plain_spec_def empty_schema_def registry_entry_defs)

lemma sandbox_programs_with:
  "map fst (filter (\<lambda>e. sa_sandboxAutoApprove (attrs (snd e))) (registry_with (RiskSpec (spec_of RLow) subs))) = SANDBOX_PROGRAMS"
  by code_simp

lemma default_base_risks: "base_risks_ok DEFAULT_COMMAND_REGISTRY"
proof -
  obtain a where a: "cmd_assistant = Some a" "DEFAULT_COMMAND_REGISTRY = registry_with a"
    using assistant_registry_loads by blast
  show ?thesis using registry_with_ok [OF assistant_attrs [OF a(1)]]
    by (simp add: a(2) base_risks_ok_def entry_ok_def list_all_iff)
qed

text \<open>The registry's auto-approve list is exactly the intended one: the programs tagged for approval in the
  workspace are the 48 file and text utilities listed, in this order; none of them is a wrapper that would run
  another program or has subcommands, and each says how its arguments are parsed, so that its paths can be
  checked. Every entry has a proper base risk.\<close>

theorem sandbox_list_exact:
  "map fst (filter (\<lambda>e. sa_sandboxAutoApprove (attrs (snd e))) DEFAULT_COMMAND_REGISTRY) = SANDBOX_PROGRAMS \<and>
   list_all entry_ok DEFAULT_COMMAND_REGISTRY"
proof -
  obtain a where a: "cmd_assistant = Some a" "DEFAULT_COMMAND_REGISTRY = registry_with a"
    using assistant_registry_loads by blast
  note root = assistant_attrs [OF a(1)]
  then have "map fst (filter (\<lambda>e. sa_sandboxAutoApprove (attrs (snd e))) (registry_with a)) = SANDBOX_PROGRAMS"
    using sandbox_programs_with [of "rs_subcommands a"] by (cases a) simp
  moreover have "list_all entry_ok (registry_with a)" by (rule registry_with_ok [OF root])
  ultimately show ?thesis by (simp only: a(2) simp_thms)
qed

section \<open>Two lookups that go wrong\<close>

text \<open>A value of a global flag that equals a subcommand's name: the positional is the second \<^verbatim>\<open>stash\<close>, but the
  arguments are cut after the first, so \<^verbatim>\<open>drop\<close> is not reached and the line is rated medium, not high.\<close>

theorem subcommand_cut_at_flag_value:
  "sa_baseRisk (attrs (fst (resolveSubcommand cmd_git [''-C'', ''stash'', ''stash'', ''drop'']))) = RMedium \<and>
   sa_baseRisk (attrs (fst (resolveSubcommand cmd_git [''-C'', ''repo'', ''stash'', ''drop'']))) = RHigh"
  by code_simp

text \<open>A positional that names a property of every JavaScript object is found as a subcommand. Its specification has no
  risk; with no cached rule for \<^verbatim>\<open>git\<close> the segment has none, no comparison counts it, and the command is low,
  below the base risk of \<^verbatim>\<open>git\<close>.\<close>

theorem inherited_property_is_subcommand:
  "sr_risk (classifySegment (demo_bash_env\<lparr>registry := [(''git'', cmd_git)]\<rparr>) (demo_segment ''git'' [''valueOf''] NoOp) ''bash'' None) = RUndefined \<and>
   sr_risk (segments_risk (demo_bash_env\<lparr>registry := [(''git'', cmd_git)]\<rparr>) [demo_segment ''git'' [''valueOf''] NoOp] ''bash'' None) = RLow \<and>
   sa_baseRisk (attrs cmd_git) = RMedium"
  by code_simp

end
