(* ===== verification/Risk_Handler.thy ===== *)
theory Risk_Handler
  imports Command_Registry Bash_Safety Directory_Scope
begin

text \<open>
  The handler of \<^verbatim>\<open>classify_risk\<close> for shell commands
  (\<^verbatim>\<open>gateway/src/ipc/risk-classification-handlers.ts\<close>, the branch of \<^verbatim>\<open>bash\<close> and
  \<^verbatim>\<open>host_bash\<close>) and the daemon's treatment of its answer (\<^verbatim>\<open>assistant/src/permissions/checker.ts\<close>).
  The handler adds to the classification the verdict on sandbox auto-approval, the
  paths the command touches with their directory scopes, and the rule for proxied sessions; the
  daemon re-checks the paths through links before the approval policy sees the verdict.
\<close>

section \<open>Sandbox auto-approval\<close>

definition lookupSpec :: "registry \<Rightarrow> string \<Rightarrow> risk_spec option" where
  "lookupSpec reg prog = js_get reg (last (split_on (CHR ''/'') prog))"

text \<open>A path argument as the check reads it: the home directory expanded, absolute paths as they
  are, others resolved; nothing for \<^verbatim>\<open>~user\<close>.\<close>

definition shell_path :: "risk_env \<Rightarrow> string \<Rightarrow> string \<Rightarrow> string option" where
  "shell_path G wd p =
     (if p = ''~'' then Some (gw_home G)
      else if starts_with p ''~/'' then Some (path_join [gw_home G, drop 2 p])
      else if starts_with p ''~'' then None
      else if starts_with p ''/'' then Some p
      else Some (path_resolve (gw_cwd G) [wd, p]))"

text \<open>\<^verbatim>\<open>pathArgs.every(...)\<close>, which collects what it resolves and stops at the first path outside.\<close>

fun check_paths :: "risk_env \<Rightarrow> string \<Rightarrow> string \<Rightarrow> string list \<Rightarrow> bool \<times> string list" where
  "check_paths G wd root [] = (True, [])"
| "check_paths G wd root (p # ps) =
     (case shell_path G wd p of
        None \<Rightarrow> (False, [])
      | Some q \<Rightarrow>
          if isPathWithinRoot G q root
          then (let (ok, qs) = check_paths G wd root ps in (ok, q # qs))
          else (False, [q]))"

definition check_segment ::
    "risk_env \<Rightarrow> registry \<Rightarrow> string \<Rightarrow> string \<Rightarrow> bool \<Rightarrow> segment \<Rightarrow> bool \<times> string list" where
  "check_segment G reg wd root cont s =
     (case lookupSpec reg (sg_program s) of
        None \<Rightarrow> (False, [])
      | Some spec \<Rightarrow>
          if \<not> sa_sandboxAutoApprove (attrs spec) then (False, [])
          else if cont then (True, [])
          else check_paths G wd root (pathArgs (parseArgs (sg_args s) (schema_of (attrs spec)))))"

fun check_segments ::
    "risk_env \<Rightarrow> registry \<Rightarrow> string \<Rightarrow> string \<Rightarrow> bool \<Rightarrow> segment list \<Rightarrow> bool \<times> string list" where
  "check_segments G reg wd root cont [] = (True, [])"
| "check_segments G reg wd root cont (s # ss) =
     (let (ok, qs) = check_segment G reg wd root cont s
      in if ok then (let (ok', qs') = check_segments G reg wd root cont ss in (ok', qs @ qs'))
         else (False, qs))"

definition computeSandboxAutoApprove ::
    "risk_env \<Rightarrow> registry \<Rightarrow> parsed_command \<Rightarrow> string \<Rightarrow> string \<Rightarrow> bool \<Rightarrow> bool \<times> string list" where
  "computeSandboxAutoApprove G reg p wd root cont =
     (if segments p = [] then (False, [])
      else if hasOpaqueConstructs p then (False, [])
      else if dangerousPatterns p \<noteq> [] then (False, [])
      else check_segments G reg wd root cont (segments p))"

section \<open>The paths a command touches\<close>

definition MAX_WRAPPER_DEPTH :: nat where
  "MAX_WRAPPER_DEPTH = 10"

text \<open>The unwrapping loop, with the depth left.\<close>

fun unwrap :: "registry \<Rightarrow> nat \<Rightarrow> string \<Rightarrow> string list \<Rightarrow> string \<times> string list" where
  "unwrap reg 0 prog as = (prog, as)"
| "unwrap reg (Suc left) prog as =
     (case lookupSpec reg prog of
        None \<Rightarrow> (prog, as)
      | Some spec \<Rightarrow>
          if \<not> sa_isWrapper (attrs spec) \<or> is_nonexec (attrs spec) as then (prog, as)
          else (case getWrappedProgramWithArgs prog as of
                  None \<Rightarrow> (prog, as)
                | Some (inner, as') \<Rightarrow> unwrap reg left inner as'))"

record path_walk =
  isComplexSyntax :: bool
  hasFilesystemOp :: bool
  fsPathArgs :: "string list"
  trackedCwd :: string

definition fs_path :: "risk_env \<Rightarrow> string \<Rightarrow> string \<Rightarrow> string" where
  "fs_path G wd p =
     (if p = ''~'' then gw_home G
      else if starts_with p ''~/'' then path_join [gw_home G, drop 2 p]
      else if isAbsolute p then path_resolve (gw_cwd G) [p]
      else path_resolve (gw_cwd G) [wd, p])"

definition collect_paths :: "risk_env \<Rightarrow> string list \<Rightarrow> risk_spec option \<Rightarrow> path_walk \<Rightarrow> path_walk" where
  "collect_paths G as spec w =
     (case spec of
        None \<Rightarrow> w
      | Some s \<Rightarrow>
          (let w = (if sa_complexSyntax (attrs s) then w\<lparr>isComplexSyntax := True\<rparr> else w)
           in if \<not> sa_filesystemOp (attrs s) then w
              else (let ps = pathArgs (parseArgs as (schema_of (attrs s)));
                        qs = (if ps = [] then [trackedCwd w] else map (fs_path G (trackedCwd w)) ps)
                    in w\<lparr>hasFilesystemOp := True, fsPathArgs := foldl (\<lambda>acc q. js_add q acc) (fsPathArgs w) qs\<rparr>)))"

definition track_cd :: "risk_env \<Rightarrow> string \<Rightarrow> string list \<Rightarrow> path_walk \<Rightarrow> path_walk" where
  "track_cd G prog as w =
     (if prog = ''cd''
      then (case filter (\<lambda>a. \<not> starts_with a ''-'') as of
              [target] \<Rightarrow> if target = ''-'' then w else w\<lparr>trackedCwd := fs_path G (trackedCwd w) target\<rparr>
            | _ \<Rightarrow> w)
      else w)"

definition walk_segment :: "risk_env \<Rightarrow> registry \<Rightarrow> path_walk \<Rightarrow> segment \<Rightarrow> path_walk" where
  "walk_segment G reg w s =
     (let (prog, as) = unwrap reg MAX_WRAPPER_DEPTH (sg_program s) (sg_args s)
      in track_cd G prog as (collect_paths G as (lookupSpec reg prog) w))"

definition walk_segments :: "risk_env \<Rightarrow> registry \<Rightarrow> string \<Rightarrow> segment list \<Rightarrow> path_walk" where
  "walk_segments G reg wd ss =
     foldl (walk_segment G reg) \<lparr>isComplexSyntax = False, hasFilesystemOp = False, fsPathArgs = [], trackedCwd = wd\<rparr> ss"

section \<open>The answer\<close>

record risk_params =
  rp_tool :: string
  rp_command :: "string option"
  rp_workingDir :: "string option"
  rp_workspaceRoot :: "string option"
  rp_isContainerized :: "bool option"
  rp_networkMode :: "string option"
  rp_credentialRefCount :: "nat option"

record risk_response =
  rr_level :: command_risk
  rr_reason :: string
  rr_scopeOptions :: "pattern_option list"
  rr_allowlistOptions :: "allowlist_option list"
  rr_actionKeys :: "string list"
  rr_commandCandidates :: "string list"
  rr_dangerousPatterns :: "dangerous_pattern list"
  rr_opaqueConstructs :: bool
  rr_isComplexSyntax :: bool
  rr_sandboxAutoApprove :: bool
  rr_sandboxPathArgs :: "string list option"
  rr_directoryScopeOptions :: "scope_option list option"
  rr_resolvedPaths :: "string list option"
  rr_matchType :: string

text \<open>Candidates for rule matching: the trimmed command, the canonical form of a simple action, the keys.\<close>

definition command_candidates :: "string \<Rightarrow> action_result \<Rightarrow> string list" where
  "command_candidates cmd r =
     (let t = js_trim cmd;
          c1 = (if t \<noteq> [] then [t] else []);
          c2 = (case primarySegment r of
                  Some s \<Rightarrow> if isSimpleAction r \<and> sg_command s \<noteq> t then js_add (sg_command s) c1 else c1
                | None \<Rightarrow> c1)
      in foldl (\<lambda>acc k. js_add k acc) c2 (map key (ar_keys r)))"

text \<open>Sessions behind the egress proxy: high with injected credentials, at most medium without.\<close>

definition proxied_risk :: "risk_params \<Rightarrow> command_risk \<times> string \<Rightarrow> command_risk \<times> string" where
  "proxied_risk P rw =
     (if rp_tool P = ''bash'' \<and> rp_networkMode P = Some ''proxied''
      then (if 0 < (case rp_credentialRefCount P of Some n \<Rightarrow> n | None \<Rightarrow> 0)
            then (RHigh, ''Proxied credential session '' @ em_dash @ '' shell has access to injected credentials'')
            else if fst rw = RHigh then (RMedium, snd rw) else rw)
      else rw)"

definition handleClassifyRisk_shell ::
    "risk_env \<Rightarrow> scope_env \<Rightarrow> bash_env \<Rightarrow> (string \<Rightarrow> parsed_command) \<Rightarrow> risk_params \<Rightarrow> risk_response" where
  "handleClassifyRisk_shell G S E pf P =
     (let cmd = or_else (rp_command P) [];
          wd = or_else (rp_workingDir P) (gw_cwd G);
          cont = (rp_isContainerized P = Some True);
          a = classify_bash E pf cmd (rp_tool P) (Some wd);
          p = pf cmd;
          keys = deriveShellActionKeys (analyzeShellCommand p);
          (approved, autoPaths) =
            (if rp_tool P = ''bash''
             then computeSandboxAutoApprove G (registry E) p wd (or_else (rp_workspaceRoot P) wd) cont
             else (False, []));
          w = walk_segments G (registry E) wd (segments p);
          (level, why) = proxied_risk P (ba_riskLevel a, ba_reason a)
      in \<lparr>rr_level = level, rr_reason = why, rr_scopeOptions = ba_scopeOptions a,
          rr_allowlistOptions = ba_allowlistOptions a, rr_actionKeys = map key (ar_keys keys),
          rr_commandCandidates = command_candidates cmd keys,
          rr_dangerousPatterns = dangerousPatterns p, rr_opaqueConstructs = hasOpaqueConstructs p,
          rr_isComplexSyntax = isComplexSyntax w, rr_sandboxAutoApprove = approved,
          rr_sandboxPathArgs = (if rp_tool P = ''bash'' \<and> \<not> cont \<and> autoPaths \<noteq> [] then Some autoPaths else None),
          rr_directoryScopeOptions =
            (if hasFilesystemOp w then Some (generateDirectoryScopeOptions S (fsPathArgs w) wd (rp_workspaceRoot P)) else None),
          rr_resolvedPaths = (if hasFilesystemOp w \<and> fsPathArgs w \<noteq> [] then Some (fsPathArgs w) else None),
          rr_matchType = ba_matchType a\<rparr>)"

section \<open>The daemon's side\<close>

definition riskStringToLevel :: "command_risk \<Rightarrow> risk_level" where
  "riskStringToLevel r = (if r = RLow then LowRisk else if r = RHigh then HighRisk else MediumRisk)"

text \<open>\<^verbatim>\<open>applyBashSymlinkEscapeCheck\<close>: the verdict that remains.\<close>

definition applyBashSymlinkEscapeCheck :: "workspace_env \<Rightarrow> bool \<Rightarrow> string list option \<Rightarrow> bool" where
  "applyBashSymlinkEscapeCheck W approved paths =
     (if \<not> approved \<or> paths = None \<or> paths = Some [] then approved
      else approved \<and> \<not> list_ex (\<lambda>p. \<not> isPathWithinWorkspaceRoot (ws_host W) p (workspaceDir W)) (the paths))"

text \<open>The part of \<^verbatim>\<open>check\<close> that turns the answer into a decision, given the rest of the context.\<close>

definition check_shell :: "workspace_env \<Rightarrow> risk_response \<Rightarrow> approval_context \<Rightarrow> approval_decision" where
  "check_shell W resp c =
     evaluate (c\<lparr>riskLevel := riskStringToLevel (rr_level resp),
       hasSandboxAutoApprove := Some (applyBashSymlinkEscapeCheck W (rr_sandboxAutoApprove resp) (rr_sandboxPathArgs resp))\<rparr>)"

definition sandbox_reason :: string where
  "sandbox_reason = ''Workspace filesystem operation (sandbox auto-approve)''"

section \<open>Lemmas\<close>

lemma check_paths_all:
  "check_paths G wd root ps = (True, qs) \<Longrightarrow>
   map (shell_path G wd) ps = map Some qs \<and> (\<forall>q \<in> set qs. isPathWithinRoot G q root)"
  by (induction ps arbitrary: qs) (auto split: option.splits if_splits prod.splits)

lemma check_segments_all:
  "check_segments G reg wd root c ss = (True, qs) \<Longrightarrow> s \<in> set ss \<Longrightarrow>
   \<exists>qs'. check_segment G reg wd root c s = (True, qs') \<and> set qs' \<subseteq> set qs"
proof (induction ss arbitrary: qs)
  case (Cons a ss)
  obtain qs1 where one: "check_segment G reg wd root c a = (True, qs1)"
    using Cons.prems(1) by (auto split: prod.splits if_splits)
  obtain qs2 where two: "check_segments G reg wd root c ss = (True, qs2)" "qs = qs1 @ qs2"
    using Cons.prems(1) one by (auto split: prod.splits)
  show ?case
  proof (cases "s = a")
    case True
    then show ?thesis using one two(2) by auto
  next
    case False
    then obtain qs' where "check_segment G reg wd root c s = (True, qs')" "set qs' \<subseteq> set qs2"
      using Cons.IH [OF two(1)] Cons.prems(2) by auto
    then show ?thesis using two(2) by auto
  qed
qed simp

lemma check_segment_true:
  assumes "check_segment G reg wd root c s = (True, qs)"
  obtains spec where "lookupSpec reg (sg_program s) = Some spec" "sa_sandboxAutoApprove (attrs spec)"
    "c \<or> map (shell_path G wd) (pathArgs (parseArgs (sg_args s) (schema_of (attrs spec)))) = map Some qs \<and>
         (\<forall>q \<in> set qs. isPathWithinRoot G q root)"
  using assms check_paths_all by (auto simp: check_segment_def split: option.splits if_splits)

lemma compute_true:
  assumes "computeSandboxAutoApprove G reg p wd root c = (True, qs)"
  shows "segments p \<noteq> []" "\<not> hasOpaqueConstructs p" "dangerousPatterns p = []"
    "check_segments G reg wd root c (segments p) = (True, qs)"
  using assms by (auto simp: computeSandboxAutoApprove_def split: if_splits)

lemma evaluate_sandbox_reason:
  assumes "reason (evaluate c) = sandbox_reason"
  shows "toolName c = ''bash'' \<and> hasSandboxAutoApprove c = Some True \<and> autoApproveUpTo c \<noteq> Some ThrNone"
proof (rule ccontr)
  assume "\<not> ?thesis"
  then have "reason (evaluate c) \<noteq> sandbox_reason"
    by (cases "riskLevel c") (auto simp: evaluate_def sandbox_reason_def)
  with assms show False by simp
qed

section \<open>Properties\<close>

text \<open>C10: A shell command the daemon allows as a workspace file system operation is one. Outside a container, if the
  decision is the sandbox auto-approval, then the command parsed without opaque constructs or dangerous patterns; every
  segment's program is on the registry's auto-approve list; and every path argument the parser finds in any segment is
  lexically within the workspace root as the check reads it. The place such a path leads to through links lies in the
  real workspace directory as well, for every path the kernel can open or create that is read without empty, dot or
  double-dot segments, in a file system whose links do not climb with double dots and in which the workspace root is
  such a path too and exists. The restriction is needed: an absolute argument is checked as written, and double dots
  after a link lead out of the workspace. Which words count as path arguments is the parser's reading of raw text.\<close>

theorem sandbox_allow_stays_inside:
  assumes "resp = handleClassifyRisk_shell G S E pf P" "reason (check_shell W resp c) = sandbox_reason"
    and "rp_isContainerized P \<noteq> Some True" "rp_workspaceRoot P = Some (workspaceDir W)"
    and "wf_fs (files (ws_host W))" "plain_links (files (ws_host W))" "resolved (workspaceDir W)"
    and "destination (files (ws_host W)) (workspaceDir W) = Some r" "r = [] \<or> map_of (files (ws_host W)) r \<noteq> None"
    and "p = pf (or_else (rp_command P) [])" "wd = or_else (rp_workingDir P) (gw_cwd G)" "s \<in> set (segments p)"
  shows "\<not> hasOpaqueConstructs p \<and> dangerousPatterns p = [] \<and>
    (\<exists>spec. lookupSpec (registry E) (sg_program s) = Some spec \<and> sa_sandboxAutoApprove (attrs spec) \<and>
      (\<forall>x \<in> set (pathArgs (parseArgs (sg_args s) (schema_of (attrs spec)))).
         \<exists>q. shell_path G wd x = Some q \<and> isPathWithinRoot G q (workspaceDir W) \<and>
             (\<forall>d. resolved q \<and> destination (files (ws_host W)) q = Some d \<longrightarrow> prefix r d)))"
proof -
  define auto where "auto = computeSandboxAutoApprove G (registry E) p wd (workspaceDir W) False"
  have tool: "rr_sandboxAutoApprove resp \<Longrightarrow> rp_tool P = ''bash'' \<and> rr_sandboxAutoApprove resp = fst auto \<and>
      rr_sandboxPathArgs resp = (if snd auto \<noteq> [] then Some (snd auto) else None)"
    using assms(1,3,4,10,11)
    by (auto simp: handleClassifyRisk_shell_def auto_def Let_def or_else_def split: prod.splits if_splits)
  have "applyBashSymlinkEscapeCheck W (rr_sandboxAutoApprove resp) (rr_sandboxPathArgs resp)"
    using evaluate_sandbox_reason [OF assms(2) [unfolded check_shell_def]] by simp
  then have app: "rr_sandboxAutoApprove resp"
      "\<forall>q \<in> set (snd auto). isPathWithinWorkspaceRoot (ws_host W) q (workspaceDir W)"
    using tool by (auto simp: applyBashSymlinkEscapeCheck_def list_ex_iff split: if_splits)
  then have true: "computeSandboxAutoApprove G (registry E) p wd (workspaceDir W) False = (True, snd auto)"
    using tool by (metis auto_def prod.collapse)
  note t = compute_true [OF true]
  obtain qs where qs: "check_segment G (registry E) wd (workspaceDir W) False s = (True, qs)" "set qs \<subseteq> set (snd auto)"
    using check_segments_all [OF t(4) assms(12)] by blast
  obtain spec where spec: "lookupSpec (registry E) (sg_program s) = Some spec" "sa_sandboxAutoApprove (attrs spec)"
      "map (shell_path G wd) (pathArgs (parseArgs (sg_args s) (schema_of (attrs spec)))) = map Some qs"
      "\<forall>q \<in> set qs. isPathWithinRoot G q (workspaceDir W)"
    using check_segment_true [OF qs(1)] by auto
  have "\<exists>q. shell_path G wd x = Some q \<and> isPathWithinRoot G q (workspaceDir W) \<and>
      (\<forall>d. resolved q \<and> destination (files (ws_host W)) q = Some d \<longrightarrow> prefix r d)"
    if x: "x \<in> set (pathArgs (parseArgs (sg_args s) (schema_of (attrs spec))))" for x
  proof -
    have "shell_path G wd x \<in> set (map Some qs)" using spec(3) x by (metis image_eqI list.set_map)
    then obtain q where q: "shell_path G wd x = Some q" "q \<in> set qs" by auto
    have "prefix r d" if "resolved q" "destination (files (ws_host W)) q = Some d" for d
      using workspace_test_exact [OF assms(5,6) that(1) assms(7) that(2) assms(8,9)] app(2) qs(2) q(2) by auto
    then show ?thesis using q spec(4) by blast
  qed
  then show ?thesis using t spec(1,2) by blast
qed

definition demo_shell_env :: bash_env where
  "demo_shell_env =
     \<lparr>re_test = (\<lambda>p s. False),
      registry = [(''cat'', cmd_cat), (''echo'', cmd_echo), (''rm'', cmd_rm), (''tar'', cmd_tar)], rule_cache = None\<rparr>"

definition demo_gw :: risk_env where
  "demo_gw = \<lparr>gw_cwd = ''/'', gw_home = ''/u'', ruleCache = None\<rparr>"

definition demo_ws :: workspace_env where
  "demo_ws = \<lparr>ws_host = host demo_env, workspaceDir = ''/ws'', ws_containerized = False\<rparr>"

definition demo_params :: "string \<Rightarrow> risk_params" where
  "demo_params cmd =
     \<lparr>rp_tool = ''bash'', rp_command = Some cmd, rp_workingDir = Some ''/ws'', rp_workspaceRoot = Some ''/ws'',
      rp_isContainerized = None, rp_networkMode = None, rp_credentialRefCount = None\<rparr>"

definition shell_context :: approval_context where
  "shell_context =
     \<lparr>riskLevel = HighRisk, toolName = ''bash'', isContainerized = False, isWorkspaceScoped = False, toolOrigin = None,
      isSkillBundled = None, hasManifestOverride = None, hasSandboxAutoApprove = None, autoApproveUpTo = Some ThrLow\<rparr>"

definition demo_scope :: scope_env where
  "demo_scope = \<lparr>sc_host = host demo_env, sc_home = ''/u''\<rparr>"

definition demo_line :: "string \<Rightarrow> tsnode list \<Rightarrow> string \<Rightarrow> tsnode option" where
  "demo_line src words cmd =
     (if cmd = src
      then Some (TSNode ''program'' src 0 (length src) True [TSNode ''command'' src 0 (length src) True words])
      else None)"

text \<open>The verdict depends on few fields of the answer.\<close>

lemma check_shell_verdict:
  assumes "rp_tool P = ''bash''" "rp_isContainerized P = None" "rp_workspaceRoot P = Some root" "rp_workingDir P = Some wd"
    and "rp_command P = Some cmd" "computeSandboxAutoApprove G (registry E) (pf cmd) wd root False = (True, qs)"
    and "list_all (\<lambda>q. isPathWithinWorkspaceRoot (ws_host W) q (workspaceDir W)) qs"
    and "toolName c = ''bash''" "autoApproveUpTo c \<noteq> Some ThrNone"
  shows "check_shell W (handleClassifyRisk_shell G S E pf P) c = \<lparr>decision = Allow, reason = sandbox_reason\<rparr>"
proof -
  let ?r = "handleClassifyRisk_shell G S E pf P"
  have "rr_sandboxAutoApprove ?r" "rr_sandboxPathArgs ?r = (if qs \<noteq> [] then Some qs else None)"
    using assms(1-6) by (simp_all add: handleClassifyRisk_shell_def or_else_def Let_def case_prod_beta)
  then show ?thesis
    using assms(7-9) by (auto simp: check_shell_def evaluate_def sandbox_reason_def applyBashSymlinkEscapeCheck_def list_all_iff list_ex_iff)
qed

lemma shell_verdict:
  assumes "computeSandboxAutoApprove demo_gw (registry demo_shell_env) (pf cmd) ''/ws'' ''/ws'' False = (True, qs)"
    and "list_all (\<lambda>q. isPathWithinWorkspaceRoot (ws_host demo_ws) q (workspaceDir demo_ws)) qs"
  shows "check_shell demo_ws (handleClassifyRisk_shell demo_gw demo_scope demo_shell_env pf (demo_params cmd)) shell_context =
    \<lparr>decision = Allow, reason = sandbox_reason\<rparr>"
  by (rule check_shell_verdict [where cmd = cmd and pf = pf and wd = "''/ws''" and root = "''/ws''", OF _ _ _ _ _ assms])
    (simp_all add: demo_params_def shell_context_def)

theorem sandbox_allow_stays_inside_witness:
  "reason (check_shell demo_ws (handleClassifyRisk_shell demo_gw demo_scope demo_shell_env
      (parse (demo_line ''cat l'' [tok ''command_name'' ''cat'', tok ''word'' ''l''])) (demo_params ''cat l'')) shell_context) = sandbox_reason \<and>
   shell_path demo_gw ''/ws'' ''l'' = Some ''/ws/l'' \<and> prefix [''ws''] [''ws'', ''sub'', ''new'']"
proof -
  let ?pf = "parse (demo_line ''cat l'' [tok ''command_name'' ''cat'', tok ''word'' ''l''])"
  let ?resp = "handleClassifyRisk_shell demo_gw demo_scope demo_shell_env ?pf (demo_params ''cat l'')"
  have fields: "rp_tool (demo_params x) = ''bash''" "rp_isContainerized (demo_params x) = None"
    "rp_workspaceRoot (demo_params x) = Some ''/ws''" "rp_workingDir (demo_params x) = Some ''/ws''"
    "rp_command (demo_params x) = Some x" "toolName shell_context = ''bash''" "autoApproveUpTo shell_context \<noteq> Some ThrNone"
    "workspaceDir demo_ws = ''/ws''" "ws_host demo_ws = host demo_env" for x
    by (simp_all add: demo_params_def shell_context_def demo_ws_def)
  have auto: "computeSandboxAutoApprove demo_gw (registry demo_shell_env) (?pf ''cat l'') ''/ws'' ''/ws'' False = (True, [''/ws/l''])"
    "list_all (\<lambda>q. isPathWithinWorkspaceRoot (ws_host demo_ws) q (workspaceDir demo_ws)) [''/ws/l'']"
    by code_simp+
  have why: "reason (check_shell demo_ws ?resp shell_context) = sandbox_reason"
    using shell_verdict [where pf = ?pf and cmd = "''cat l''", OF auto] by simp
  have host: "wf_fs (files (ws_host demo_ws))" "plain_links (files (ws_host demo_ws))" "resolved (workspaceDir demo_ws)"
    "destination (files (ws_host demo_ws)) (workspaceDir demo_ws) = Some [''ws'']"
    "[''ws''] = [] \<or> map_of (files (ws_host demo_ws)) [''ws''] \<noteq> None"
    "resolved ''/ws/l''" "destination (files (ws_host demo_ws)) ''/ws/l'' = Some [''ws'', ''sub'', ''new'']"
    by code_simp+
  have seg: "demo_segment ''cat'' [''l''] NoOp \<in> set (segments (?pf ''cat l''))"
    and spec: "lookupSpec (registry demo_shell_env) ''cat'' = Some cmd_cat"
    and args: "pathArgs (parseArgs [''l''] (schema_of (attrs cmd_cat))) = [''l'']"
    and path: "shell_path demo_gw ''/ws'' ''l'' = Some ''/ws/l''"
    by code_simp+
  have p: "?pf ''cat l'' = ?pf (or_else (rp_command (demo_params ''cat l'')) [])"
    and wd: "''/ws'' = or_else (rp_workingDir (demo_params ''cat l'')) (gw_cwd demo_gw)"
    by (simp_all add: fields or_else_def)
  have out: "rp_isContainerized (demo_params ''cat l'') \<noteq> Some True"
    "rp_workspaceRoot (demo_params ''cat l'') = Some (workspaceDir demo_ws)"
    by (simp_all add: fields)
  have "prefix [''ws''] [''ws'', ''sub'', ''new'']"
    using sandbox_allow_stays_inside [OF refl why out host(1-5) p wd seg] host(6,7) spec args path
    by (auto simp: demo_segment_def)
  then show ?thesis using why path by simp
qed

section \<open>What the check does not see\<close>

text \<open>Four lines that the sandbox check approves and the daemon allows, below the default threshold:
  a command substitution among the arguments, whose command is no segment; a path in quotes, whose text starts
  with the quote and so reads as a relative name; a path from a variable; and an option by
  which an approved program runs another, rated high by the registry but not consulted by the check.\<close>

definition substitution_line :: "string \<Rightarrow> tsnode option" where
  "substitution_line =
     demo_line ''echo $(rm -rf ~)''
       [tok ''command_name'' ''echo'',
        TSNode ''command_substitution'' ''$(rm -rf ~)'' 5 16 True
          [TSNode ''command'' ''rm -rf ~'' 7 15 True [tok ''command_name'' ''rm'', tok ''word'' ''-rf'', tok ''word'' ''~'']]]"

definition quoted_path :: string where
  "quoted_path = [CHR 0x22] @ ''/etc/passwd'' @ [CHR 0x22]"

definition quoted_line :: "string \<Rightarrow> tsnode option" where
  "quoted_line = demo_line (''rm '' @ quoted_path) [tok ''command_name'' ''rm'', tok ''string'' quoted_path]"

definition variable_line :: "string \<Rightarrow> tsnode option" where
  "variable_line =
     demo_line ''rm -rf $HOME''
       [tok ''command_name'' ''rm'', tok ''word'' ''-rf'',
        TSNode ''simple_expansion'' ''$HOME'' 7 12 True [tok ''variable_name'' ''HOME'']]"

definition option_line :: "string \<Rightarrow> tsnode option" where
  "option_line =
     demo_line ''tar -xf a --to-command=sh''
       [tok ''command_name'' ''tar'', tok ''word'' ''-xf'', tok ''word'' ''a'', tok ''word'' ''--to-command=sh'']"

theorem sandbox_check_blind_spots:
  "list_all (\<lambda>(ts, cmd).
     check_shell demo_ws (handleClassifyRisk_shell demo_gw demo_scope demo_shell_env (parse ts) (demo_params cmd)) shell_context =
       \<lparr>decision = Allow, reason = sandbox_reason\<rparr>)
   [(substitution_line, ''echo $(rm -rf ~)''), (quoted_line, ''rm '' @ quoted_path),
    (variable_line, ''rm -rf $HOME''), (option_line, ''tar -xf a --to-command=sh'')]"
proof -
  have sub: "computeSandboxAutoApprove demo_gw (registry demo_shell_env) (parse substitution_line ''echo $(rm -rf ~)'') ''/ws'' ''/ws'' False = (True, [])"
    by code_simp
  have quo: "computeSandboxAutoApprove demo_gw (registry demo_shell_env) (parse quoted_line (''rm '' @ quoted_path)) ''/ws'' ''/ws'' False = (True, [''/ws/'' @ [CHR 0x22] @ ''/etc/passwd'' @ [CHR 0x22]])"
    by code_simp
  have var: "computeSandboxAutoApprove demo_gw (registry demo_shell_env) (parse variable_line ''rm -rf $HOME'') ''/ws'' ''/ws'' False = (True, [''/ws/$HOME''])"
    by code_simp
  have opt: "computeSandboxAutoApprove demo_gw (registry demo_shell_env) (parse option_line ''tar -xf a --to-command=sh'') ''/ws'' ''/ws'' False = (True, [''/ws/a''])"
    by code_simp
  have within: "list_all (\<lambda>q. isPathWithinWorkspaceRoot (ws_host demo_ws) q (workspaceDir demo_ws)) qs"
    if "qs \<in> {[], [''/ws/'' @ [CHR 0x22] @ ''/etc/passwd'' @ [CHR 0x22]], [''/ws/$HOME''], [''/ws/a'']}" for qs
  proof -
    have "isPathWithinWorkspaceRoot (ws_host demo_ws) (''/ws/'' @ [CHR 0x22] @ ''/etc/passwd'' @ [CHR 0x22]) (workspaceDir demo_ws)"
      "isPathWithinWorkspaceRoot (ws_host demo_ws) ''/ws/$HOME'' (workspaceDir demo_ws)"
      "isPathWithinWorkspaceRoot (ws_host demo_ws) ''/ws/a'' (workspaceDir demo_ws)"
      by code_simp+
    then show ?thesis using that by auto
  qed
  show ?thesis
    using shell_verdict [where pf = "parse substitution_line" and cmd = "''echo $(rm -rf ~)''", OF sub within]
      shell_verdict [where pf = "parse quoted_line" and cmd = "''rm '' @ quoted_path", OF quo within]
      shell_verdict [where pf = "parse variable_line" and cmd = "''rm -rf $HOME''", OF var within]
      shell_verdict [where pf = "parse option_line" and cmd = "''tar -xf a --to-command=sh''", OF opt within]
    by simp
qed

text \<open>The first line classifies as low with no dangerous pattern, though its tree holds a command that removes the
  home directory.\<close>

theorem hidden_command_not_classified:
  "segments (parse substitution_line ''echo $(rm -rf ~)'') \<noteq> [] \<and>
   list_all (\<lambda>s. sg_program s = ''echo'') (segments (parse substitution_line ''echo $(rm -rf ~)'')) \<and>
   dangerousPatterns (parse substitution_line ''echo $(rm -rf ~)'') = [] \<and>
   \<not> hasOpaqueConstructs (parse substitution_line ''echo $(rm -rf ~)'')"
  by code_simp

text \<open>An absolute argument is handed to both containment tests as written. They drop a link together with the double
  dots after it, the kernel follows it: the line reads a file outside.\<close>

definition dotdot_ws :: workspace_env where
  "dotdot_ws =
     \<lparr>ws_host = \<lparr>cwd = ''/'', files = [([''ws''], Dir), ([''etc''], Dir), ([''etc'', ''sub''], Dir), ([''etc'', ''x''], File),
        ([''ws'', ''d''], Link ''/etc/sub'')]\<rparr>, workspaceDir = ''/ws'', ws_containerized = False\<rparr>"

definition dotdot_line :: "string \<Rightarrow> tsnode option" where
  "dotdot_line = demo_line ''cat /ws/d/../x'' [tok ''command_name'' ''cat'', tok ''word'' ''/ws/d/../x'']"

theorem dotdot_after_link_approved:
  "plain_links (files (ws_host dotdot_ws)) \<and>
   destination (files (ws_host dotdot_ws)) ''/ws/d/../x'' = Some [''etc'', ''x''] \<and>
   check_shell dotdot_ws (handleClassifyRisk_shell demo_gw demo_scope demo_shell_env (parse dotdot_line)
       (demo_params ''cat /ws/d/../x'')) shell_context = \<lparr>decision = Allow, reason = sandbox_reason\<rparr>"
proof -
  have auto: "computeSandboxAutoApprove demo_gw (registry demo_shell_env) (parse dotdot_line ''cat /ws/d/../x'') ''/ws'' ''/ws'' False =
      (True, [''/ws/d/../x''])"
    by code_simp
  have inside: "list_all (\<lambda>q. isPathWithinWorkspaceRoot (ws_host dotdot_ws) q (workspaceDir dotdot_ws)) [''/ws/d/../x'']"
    by code_simp
  have "check_shell dotdot_ws (handleClassifyRisk_shell demo_gw demo_scope demo_shell_env (parse dotdot_line)
      (demo_params ''cat /ws/d/../x'')) shell_context = \<lparr>decision = Allow, reason = sandbox_reason\<rparr>"
    by (rule check_shell_verdict [where cmd = "''cat /ws/d/../x''" and root = "''/ws''" and wd = "''/ws''" and G = demo_gw and
          E = demo_shell_env and pf = "parse dotdot_line" and W = dotdot_ws and c = shell_context and P = "demo_params ''cat /ws/d/../x''" and
          qs = "[''/ws/d/../x'']", OF _ _ _ _ _ auto inside])
      (simp_all add: demo_params_def shell_context_def)
  moreover have "plain_links (files (ws_host dotdot_ws))"
    "destination (files (ws_host dotdot_ws)) ''/ws/d/../x'' = Some [''etc'', ''x'']"
    by code_simp+
  ultimately show ?thesis by blast
qed

end
