(* ===== verification/Egress_Policy.thy ===== *)
theory Egress_Policy
  imports Prelude
begin

text \<open>
  Outbound requests and credentials: host patterns
  (\<^verbatim>\<open>assistant/src/outbound-proxy/host-pattern-match.ts\<close>), the policy that picks the
  credential template to inject (\<^verbatim>\<open>policy.ts\<close>) and the router that decides whether a
  connection is intercepted (\<^verbatim>\<open>router.ts\<close>). Host names are ASCII.
\<close>

section \<open>Host patterns\<close>

datatype host_match_kind = NoneMatch | WildcardMatch | ExactMatch

definition matchHostPattern :: "string \<Rightarrow> string \<Rightarrow> bool \<Rightarrow> host_match_kind" where
  "matchHostPattern host pat includeApexForWildcard =
     (let lHost = to_lower host; lPattern = to_lower pat in
      if lHost = lPattern then ExactMatch
      else if starts_with lPattern ''*.''
      then (let suffix = drop 1 lPattern in
            if ends_with lHost suffix \<and> length lHost > length suffix then WildcardMatch
            else if includeApexForWildcard \<and> lHost = drop 2 lPattern then WildcardMatch
            else NoneMatch)
      else NoneMatch)"

fun match_rank :: "host_match_kind \<Rightarrow> int" where
  "match_rank ExactMatch = 2"
| "match_rank WildcardMatch = 1"
| "match_rank NoneMatch = 0"

definition compareMatchSpecificity :: "host_match_kind \<Rightarrow> host_match_kind \<Rightarrow> int" where
  "compareMatchSpecificity a b = match_rank b - match_rank a"

instantiation host_match_kind :: linorder
begin

definition less_eq_host_match_kind :: "host_match_kind \<Rightarrow> host_match_kind \<Rightarrow> bool" where
  "less_eq_host_match_kind a b \<longleftrightarrow> match_rank a \<le> match_rank b"

definition less_host_match_kind :: "host_match_kind \<Rightarrow> host_match_kind \<Rightarrow> bool" where
  "less_host_match_kind a b \<longleftrightarrow> match_rank a < match_rank b"

instance
proof
  fix x y :: host_match_kind
  show "x \<le> y \<Longrightarrow> y \<le> x \<Longrightarrow> x = y"
    by (cases x; cases y) (auto simp: less_eq_host_match_kind_def)
qed (auto simp: less_eq_host_match_kind_def less_host_match_kind_def)

end

section \<open>Templates and decisions\<close>

datatype injection_type = HeaderInjection | QueryInjection

record injection_template =
  hostPattern :: string
  injectionType :: injection_type
  headerName :: "string option"
  valuePrefix :: "string option"
  queryParamName :: "string option"

record target_context =
  tc_hostname :: string
  tc_port :: "int option"
  tc_path :: string
  tc_https :: bool

datatype policy_decision =
    Matched string injection_template
  | Ambiguous "(string \<times> injection_template) list"
  | Missing
  | Unauthenticated
  | AskMissingCredential target_context "string list"
  | AskUnauthenticated target_context

type_synonym template_map = "(string, injection_template list) js_map"

section \<open>Choosing a template\<close>

definition host_kind :: "string \<Rightarrow> injection_template \<Rightarrow> host_match_kind" where
  "host_kind host tpl = matchHostPattern host (hostPattern tpl) True"

text \<open>One credential: the loop over its templates keeps the best match kind and the templates
  that reach it; query templates are skipped.\<close>

fun best_loop ::
  "string \<Rightarrow> injection_template list \<Rightarrow> host_match_kind \<Rightarrow> injection_template list
   \<Rightarrow> host_match_kind \<times> injection_template list" where
  "best_loop host [] best cands = (best, cands)"
| "best_loop host (tpl # tpls) best cands =
     (if injectionType tpl = QueryInjection then best_loop host tpls best cands
      else if host_kind host tpl = NoneMatch then best_loop host tpls best cands
      else let cmp = compareMatchSpecificity (host_kind host tpl) best in
        if cmp < 0 then best_loop host tpls (host_kind host tpl) [tpl]
        else if cmp = 0 then best_loop host tpls best (cands @ [tpl])
        else best_loop host tpls best cands)"

definition best_candidates :: "string \<Rightarrow> injection_template list \<Rightarrow> injection_template list" where
  "best_candidates host tpls = snd (best_loop host tpls NoneMatch [])"

text \<open>All credentials: a tie inside one credential is reported at once.\<close>

fun credential_loop ::
  "string \<Rightarrow> template_map \<Rightarrow> string list \<Rightarrow> (string \<times> injection_template) list \<Rightarrow> policy_decision" where
  "credential_loop host tm [] found =
     (case found of [] \<Rightarrow> Missing | [(i, t)] \<Rightarrow> Matched i t | _ \<Rightarrow> Ambiguous found)"
| "credential_loop host tm (i # is) found =
     (case js_get tm i of
        None \<Rightarrow> credential_loop host tm is found
      | Some tpls \<Rightarrow>
          (case best_candidates host tpls of
             [] \<Rightarrow> credential_loop host tm is found
           | [t] \<Rightarrow> credential_loop host tm is (found @ [(i, t)])
           | ts \<Rightarrow> Ambiguous (map (\<lambda>t. (i, t)) ts)))"

definition evaluateRequest :: "string \<Rightarrow> string \<Rightarrow> string list \<Rightarrow> template_map \<Rightarrow> policy_decision" where
  "evaluateRequest host path ids tm = (if ids = [] then Unauthenticated else credential_loop host tm ids [])"

definition known_patterns :: "string \<Rightarrow> injection_template list \<Rightarrow> string list" where
  "known_patterns host all =
     js_set_of (map hostPattern
       (filter (\<lambda>tpl. injectionType tpl \<noteq> QueryInjection \<and> host_kind host tpl \<noteq> NoneMatch) all))"

definition evaluateRequestWithApproval ::
  "string \<Rightarrow> int option \<Rightarrow> string \<Rightarrow> string list \<Rightarrow> template_map \<Rightarrow> injection_template list \<Rightarrow> bool
   \<Rightarrow> policy_decision" where
  "evaluateRequestWithApproval host port path ids tm all https =
     (let base = evaluateRequest host path ids tm in
      if base \<noteq> Missing \<and> base \<noteq> Unauthenticated then base
      else let target = \<lparr>tc_hostname = host, tc_port = port, tc_path = path, tc_https = https\<rparr>;
               patterns = known_patterns host all
           in if patterns \<noteq> [] then AskMissingCredential target patterns else AskUnauthenticated target)"

section \<open>Routing\<close>

datatype route_action = Mitm | Tunnel

datatype route_reason = CredentialInjection | NoRewrite | NoCredentials

record route_decision =
  action :: route_action
  route_reason :: route_reason

definition any_match :: "string \<Rightarrow> template_map \<Rightarrow> string list \<Rightarrow> bool" where
  "any_match host tm ids \<longleftrightarrow>
     list_ex (\<lambda>i. case js_get tm i of None \<Rightarrow> False
                | Some tpls \<Rightarrow> list_ex (\<lambda>tpl. host_kind host tpl \<noteq> NoneMatch) tpls) ids"

definition routeConnection :: "string \<Rightarrow> int \<Rightarrow> string list \<Rightarrow> template_map \<Rightarrow> route_decision" where
  "routeConnection host port ids tm =
     (if ids = [] then \<lparr>action = Tunnel, route_reason = NoCredentials\<rparr>
      else if any_match host tm ids then \<lparr>action = Mitm, route_reason = CredentialInjection\<rparr>
      else \<lparr>action = Tunnel, route_reason = NoRewrite\<rparr>)"

section \<open>Lemmas\<close>

lemma NoneMatch_least [simp]: "NoneMatch \<le> k"
  by (cases k) (auto simp: less_eq_host_match_kind_def)

lemma compare_neg: "compareMatchSpecificity a b < 0 \<longleftrightarrow> b < a"
  and compare_zero: "compareMatchSpecificity a b = 0 \<longleftrightarrow> a = b"
  by (cases a; cases b; simp add: compareMatchSpecificity_def less_host_match_kind_def)+

definition injectable :: "string \<Rightarrow> injection_template \<Rightarrow> bool" where
  "injectable host tpl \<longleftrightarrow> injectionType tpl \<noteq> QueryInjection \<and> host_kind host tpl \<noteq> NoneMatch"

text \<open>The loop invariant over the templates seen so far: the best kind is an upper bound that
  is reached (or nothing matched), and the candidates are exactly those that reach it.\<close>

definition best_inv ::
  "string \<Rightarrow> injection_template list \<Rightarrow> host_match_kind \<times> injection_template list \<Rightarrow> bool" where
  "best_inv host seen r \<longleftrightarrow>
     snd r = filter (\<lambda>t. injectable host t \<and> host_kind host t = fst r) seen \<and>
     (\<forall>t \<in> set seen. injectable host t \<longrightarrow> host_kind host t \<le> fst r) \<and>
     (fst r = NoneMatch \<or> snd r \<noteq> [])"

lemma injectable_kind: "injectable host t \<Longrightarrow> host_kind host t \<noteq> NoneMatch"
  by (simp add: injectable_def)

lemma best_loop_inv:
  "best_inv host seen (best, cands) \<Longrightarrow> best_inv host (seen @ tpls) (best_loop host tpls best cands)"
proof (induction tpls arbitrary: seen best cands)
  case (Cons tpl tpls)
  let ?k = "host_kind host tpl"
  have next_ok: "best_inv host (seen @ [tpl]) (b, c) \<Longrightarrow>
      best_inv host (seen @ tpl # tpls) (best_loop host tpls b c)" for b c
    using Cons.IH [of "seen @ [tpl]" b c] by simp
  consider (skip) "\<not> injectable host tpl" | (better) "injectable host tpl" "best < ?k"
    | (tie) "injectable host tpl" "?k = best" | (worse) "injectable host tpl" "?k < best"
    by (meson not_less_iff_gr_or_eq)
  then show ?case
  proof cases
    case skip
    then have step: "best_loop host (tpl # tpls) best cands = best_loop host tpls best cands"
      by (auto simp: injectable_def)
    show ?thesis unfolding step using skip Cons.prems by (intro next_ok) (auto simp: best_inv_def)
  next
    case better
    then have step: "best_loop host (tpl # tpls) best cands = best_loop host tpls ?k [tpl]"
      by (simp add: compare_neg injectable_def)
    have "filter (\<lambda>t. injectable host t \<and> host_kind host t = ?k) seen = []"
      using Cons.prems better by (auto simp: best_inv_def filter_empty_conv)
    then show ?thesis unfolding step using better Cons.prems
      by (intro next_ok) (auto simp: best_inv_def)
  next
    case tie
    then have step: "best_loop host (tpl # tpls) best cands = best_loop host tpls best (cands @ [tpl])"
      by (simp add: compare_neg compare_zero injectable_def)
    show ?thesis unfolding step using tie Cons.prems by (intro next_ok) (auto simp: best_inv_def)
  next
    case worse
    then have step: "best_loop host (tpl # tpls) best cands = best_loop host tpls best cands"
      by (auto simp: compare_neg compare_zero injectable_def)
    show ?thesis unfolding step using worse Cons.prems by (intro next_ok) (auto simp: best_inv_def)
  qed
qed simp

lemma best_candidates_inv: "\<exists>m. best_inv host tpls (m, best_candidates host tpls)"
  using best_loop_inv [of host "[]" NoneMatch "[]" tpls] unfolding best_candidates_def
  by (metis append_Nil best_inv_def empty_iff filter.simps(1) fst_conv list.set(1) prod.collapse snd_conv)

lemma best_candidates_mem:
  "t \<in> set (best_candidates host tpls) \<longleftrightarrow> t \<in> set tpls \<and> injectable host t \<and>
     (\<forall>u \<in> set tpls. injectable host u \<longrightarrow> host_kind host u \<le> host_kind host t)"
proof -
  obtain m where m: "best_inv host tpls (m, best_candidates host tpls)" using best_candidates_inv by blast
  then have c: "best_candidates host tpls = filter (\<lambda>t. injectable host t \<and> host_kind host t = m) tpls"
    and le: "\<forall>t \<in> set tpls. injectable host t \<longrightarrow> host_kind host t \<le> m"
    by (auto simp: best_inv_def)
  have "host_kind host t = m" if t: "t \<in> set tpls" "injectable host t"
      "\<forall>u \<in> set tpls. injectable host u \<longrightarrow> host_kind host u \<le> host_kind host t"
  proof -
    have "m \<noteq> NoneMatch"
      using t le injectable_kind [OF t(2)] by (metis NoneMatch_least antisym)
    then obtain u where "u \<in> set tpls" "injectable host u" "host_kind host u = m"
      using m c by (auto simp: best_inv_def filter_empty_conv)
    then show ?thesis using t le by (metis antisym)
  qed
  then show ?thesis using le unfolding c by auto
qed

lemma best_candidates_Nil: "best_candidates host tpls = [] \<longleftrightarrow> (\<forall>t \<in> set tpls. \<not> injectable host t)"
proof -
  obtain m where m: "best_inv host tpls (m, best_candidates host tpls)" using best_candidates_inv by blast
  show ?thesis
  proof
    assume "best_candidates host tpls = []"
    then have "m = NoneMatch" using m by (simp add: best_inv_def)
    then show "\<forall>t \<in> set tpls. \<not> injectable host t"
      using m injectable_kind by (metis NoneMatch_least antisym best_inv_def fst_conv)
  qed (use m in \<open>auto simp: best_inv_def\<close>)
qed

text \<open>What the loop over credentials returns.\<close>

definition sole_best :: "string \<Rightarrow> template_map \<Rightarrow> string \<Rightarrow> injection_template \<Rightarrow> bool" where
  "sole_best host tm i t \<longleftrightarrow> (\<exists>tpls. js_get tm i = Some tpls \<and> best_candidates host tpls = [t])"

definition no_match :: "string \<Rightarrow> template_map \<Rightarrow> string \<Rightarrow> bool" where
  "no_match host tm i \<longleftrightarrow> (\<forall>tpls. js_get tm i = Some tpls \<longrightarrow> (\<forall>t \<in> set tpls. \<not> injectable host t))"

lemma credential_loop_Matched:
  "credential_loop host tm ids found = Matched c t \<Longrightarrow>
     (found = [(c, t)] \<and> (\<forall>i \<in> set ids. no_match host tm i)) \<or>
     (found = [] \<and> (\<exists>as bs. ids = as @ c # bs \<and> sole_best host tm c t \<and>
        (\<forall>i \<in> set as \<union> set bs. no_match host tm i)))"
proof (induction ids arbitrary: found)
  case Nil
  then show ?case by (auto split: list.splits prod.splits)
next
  case (Cons i ids)
  show ?case
  proof (cases "no_match host tm i")
    case True
    then have "credential_loop host tm (i # ids) found = credential_loop host tm ids found"
      by (auto simp: no_match_def best_candidates_Nil [symmetric] split: option.splits)
    with Cons have "(found = [(c, t)] \<and> (\<forall>i \<in> set ids. no_match host tm i)) \<or>
        (found = [] \<and> (\<exists>as bs. ids = as @ c # bs \<and> sole_best host tm c t \<and>
           (\<forall>i \<in> set as \<union> set bs. no_match host tm i)))" by simp
    then show ?thesis using True by (metis Un_iff append_Cons set_ConsD)
  next
    case False
    then obtain tpls where tpls: "js_get tm i = Some tpls" "best_candidates host tpls \<noteq> []"
      by (auto simp: no_match_def best_candidates_Nil)
    then obtain t' where one: "best_candidates host tpls = [t']"
      using Cons.prems by (cases "best_candidates host tpls") (auto split: list.splits)
    have "credential_loop host tm ids (found @ [(i, t')]) = Matched c t" using Cons.prems tpls one by simp
    from Cons.IH [OF this] have "found = []" "i = c" "t' = t" "\<forall>i \<in> set ids. no_match host tm i" by auto
    then show ?thesis using tpls one by (intro disjI2 conjI exI [of _ "[]"] exI [of _ ids]) (auto simp: sole_best_def)
  qed
qed

lemma credential_loop_Missing:
  "credential_loop host tm ids found = Missing \<longleftrightarrow> found = [] \<and> (\<forall>i \<in> set ids. no_match host tm i)"
proof (induction ids arbitrary: found)
  case Nil
  then show ?case by (auto split: list.splits prod.splits)
next
  case (Cons i ids)
  show ?case
  proof (cases "js_get tm i")
    case None
    then show ?thesis using Cons by (simp add: no_match_def)
  next
    case (Some tpls)
    then show ?thesis
      using Cons best_candidates_Nil [of host tpls]
      by (cases "best_candidates host tpls") (auto simp: no_match_def split: list.splits)
  qed
qed

lemma credential_loop_kinds:
  "credential_loop host tm ids found \<noteq> Unauthenticated \<and>
   credential_loop host tm ids found \<noteq> AskMissingCredential tc ps \<and>
   credential_loop host tm ids found \<noteq> AskUnauthenticated tc"
  by (induction host tm ids found rule: credential_loop.induct) (auto split: list.splits option.splits prod.splits)

lemma any_match_iff:
  "any_match host tm ids \<longleftrightarrow>
     (\<exists>i \<in> set ids. \<exists>tpls. js_get tm i = Some tpls \<and> (\<exists>t \<in> set tpls. host_kind host t \<noteq> NoneMatch))"
  unfolding any_match_def list_ex_iff by (intro bex_cong refl) (simp split: option.splits)

lemma matchHostPattern_wild:
  "matchHostPattern host pat apex = WildcardMatch \<longleftrightarrow>
     to_lower host \<noteq> to_lower pat \<and>
     (\<exists>d. to_lower pat = ''*.'' @ d \<and>
        ((\<exists>l. l \<noteq> [] \<and> to_lower host = l @ ''.'' @ d) \<or> (apex \<and> to_lower host = d)))"
proof (cases "\<exists>d. to_lower pat = ''*.'' @ d")
  case True
  then obtain d where d: "to_lower pat = ''*.'' @ d" by blast
  have "(ends_with (to_lower host) (''.'' @ d) \<and> length (to_lower host) > length (''.'' @ d)) \<longleftrightarrow>
      (\<exists>l. l \<noteq> [] \<and> to_lower host = l @ ''.'' @ d)"
    by (auto simp: ends_with_iff simp del: length_to_lower)
  then show ?thesis
    by (simp add: matchHostPattern_def Let_def d starts_with_def del: length_to_lower)
next
  case False
  then have "\<not> starts_with (to_lower pat) ''*.''" by (simp add: starts_with_iff)
  then show ?thesis using False by (auto simp: matchHostPattern_def Let_def)
qed

section \<open>Properties\<close>

text \<open>A host pattern matches exactly when it is the host, up to case, or it is
  \<^verbatim>\<open>*.d\<close> and the host is \<^verbatim>\<open>l.d\<close> with a non-empty \<^verbatim>\<open>l\<close> (or, with apex inclusion, \<^verbatim>\<open>d\<close>
  itself). So \<^verbatim>\<open>*.fal.run\<close> never covers \<^verbatim>\<open>evilfal.run\<close>.\<close>

theorem matchHostPattern_spec:
  "(matchHostPattern host pat apex = ExactMatch \<longleftrightarrow> to_lower host = to_lower pat) \<and>
   (matchHostPattern host pat apex = WildcardMatch \<longleftrightarrow>
     to_lower host \<noteq> to_lower pat \<and>
     (\<exists>d. to_lower pat = ''*.'' @ d \<and>
        ((\<exists>l. l \<noteq> [] \<and> to_lower host = l @ ''.'' @ d) \<or> (apex \<and> to_lower host = d))))"
  using matchHostPattern_wild [of host pat apex]
  by (simp add: matchHostPattern_def Let_def)

text \<open>C31: A credential is injected only when the choice is forced: the session holds it, the
  template is a header template of that credential whose pattern matches the host, every
  other template of the credential that could be injected is strictly less specific, and no
  other entry of the session's credential list has an injectable template for the host.\<close>

theorem evaluateRequest_matched:
  assumes "evaluateRequest host path ids tm = Matched c t"
  shows "\<exists>as bs tpls. ids = as @ c # bs \<and> js_get tm c = Some tpls \<and> t \<in> set tpls \<and>
    injectionType t \<noteq> QueryInjection \<and> host_kind host t \<noteq> NoneMatch \<and>
    (\<forall>u \<in> set (remove1 t tpls). injectable host u \<longrightarrow> host_kind host u < host_kind host t) \<and>
    (\<forall>i \<in> set as \<union> set bs. no_match host tm i)"
proof -
  have "credential_loop host tm ids [] = Matched c t" using assms by (simp add: evaluateRequest_def split: if_splits)
  from credential_loop_Matched [OF this] obtain as bs where
    split: "ids = as @ c # bs" "sole_best host tm c t" "\<forall>i \<in> set as \<union> set bs. no_match host tm i" by auto
  then obtain tpls where tpls: "js_get tm c = Some tpls" "best_candidates host tpls = [t]"
    by (auto simp: sole_best_def)
  then have t: "t \<in> set tpls" "injectable host t"
    "\<forall>u \<in> set tpls. injectable host u \<longrightarrow> host_kind host u \<le> host_kind host t"
    using best_candidates_mem [of t host tpls] by auto
  have "host_kind host u < host_kind host t" if u: "u \<in> set (remove1 t tpls)" "injectable host u" for u
  proof (rule ccontr)
    assume "\<not> host_kind host u < host_kind host t"
    then have k: "host_kind host u = host_kind host t" using t(3) u set_remove1_subset [of t tpls] by (auto simp: not_less intro: antisym)
    obtain m where "best_candidates host tpls = filter (\<lambda>v. injectable host v \<and> host_kind host v = m) tpls"
      using best_candidates_inv [of host tpls] by (auto simp: best_inv_def)
    then have f: "filter (\<lambda>v. injectable host v \<and> host_kind host v = m) tpls = [t]" using tpls by simp
    then have "t \<in> set (filter (\<lambda>v. injectable host v \<and> host_kind host v = m) tpls)" by simp
    then have "host_kind host t = m" by simp
    then have "u \<in> set (filter (\<lambda>v. injectable host v \<and> host_kind host v = m) (remove1 t tpls))"
      using u k by simp
    then show False by (simp only: filter_remove1 f) simp
  qed
  then show ?thesis using split tpls t by (auto simp: injectable_def)
qed

definition sample_templates :: template_map where
  "sample_templates =
     [(''fal'', [\<lparr>hostPattern = ''*.fal.run'', injectionType = HeaderInjection, headerName = Some ''Authorization'',
                  valuePrefix = Some ''Key '', queryParamName = None\<rparr>,
                 \<lparr>hostPattern = ''API.fal.run'', injectionType = HeaderInjection, headerName = Some ''X-Key'',
                  valuePrefix = None, queryParamName = None\<rparr>]),
      (''maps'', [\<lparr>hostPattern = ''maps.example'', injectionType = QueryInjection, headerName = None,
                   valuePrefix = None, queryParamName = Some ''key''\<rparr>])]"

definition fal_template :: injection_template where
  "fal_template = \<lparr>hostPattern = ''API.fal.run'', injectionType = HeaderInjection, headerName = Some ''X-Key'',
     valuePrefix = None, queryParamName = None\<rparr>"

theorem evaluateRequest_matched_witness:
  "\<exists>as bs tpls. [''maps'', ''fal''] = as @ ''fal'' # bs \<and> js_get sample_templates ''fal'' = Some tpls \<and>
     fal_template \<in> set tpls \<and> (\<forall>i \<in> set as \<union> set bs. no_match ''api.fal.run'' sample_templates i)"
proof -
  have "evaluateRequest ''api.fal.run'' ''/'' [''maps'', ''fal''] sample_templates = Matched ''fal'' fal_template"
    by code_simp
  from evaluateRequest_matched [OF this] show ?thesis by blast
qed

text \<open>The approval-aware decision never passes a request through silently: it is a forced
  match, an ambiguity, or a question. It asks for a missing credential exactly when some
  registered header template covers the host, and names each such pattern once.\<close>

theorem evaluateRequestWithApproval_asks:
  "case evaluateRequestWithApproval host port path ids tm all https of
     Missing \<Rightarrow> False
   | Unauthenticated \<Rightarrow> False
   | AskMissingCredential tgt ps \<Rightarrow>
       (\<forall>i \<in> set ids. no_match host tm i) \<and> tc_hostname tgt = host \<and> distinct ps \<and>
       set ps = hostPattern ` {t \<in> set all. injectable host t} \<and> ps \<noteq> []
   | AskUnauthenticated tgt \<Rightarrow>
       (\<forall>i \<in> set ids. no_match host tm i) \<and> tc_hostname tgt = host \<and>
       (\<forall>t \<in> set all. \<not> injectable host t)
   | d \<Rightarrow> d = evaluateRequest host path ids tm"
proof (cases "evaluateRequest host path ids tm = Missing \<or> evaluateRequest host path ids tm = Unauthenticated")
  case True
  then have none: "\<forall>i \<in> set ids. no_match host tm i"
    using credential_loop_Missing [of host tm ids "[]"] credential_loop_kinds [of host tm ids "[]"]
    by (auto simp: evaluateRequest_def split: if_splits)
  have ps: "set (known_patterns host all) = hostPattern ` {t \<in> set all. injectable host t}"
    "distinct (known_patterns host all)"
    by (simp_all add: known_patterns_def injectable_def)
  show ?thesis
    using True none ps by (auto simp: evaluateRequestWithApproval_def Let_def)
next
  case False
  then have "evaluateRequestWithApproval host port path ids tm all https = evaluateRequest host path ids tm"
    by (simp add: evaluateRequestWithApproval_def Let_def)
  then show ?thesis
    using False credential_loop_kinds [of host tm ids "[]"]
    by (auto simp: evaluateRequest_def split: policy_decision.splits if_splits)
qed

theorem evaluateRequestWithApproval_asks_witness:
  "case evaluateRequestWithApproval ''x.fal.run'' None ''/'' [] sample_templates [fal_template] True of
     AskUnauthenticated tgt \<Rightarrow> tc_hostname tgt = ''x.fal.run'' \<and> \<not> injectable ''x.fal.run'' fal_template
   | _ \<Rightarrow> False"
proof -
  have eq: "evaluateRequestWithApproval ''x.fal.run'' None ''/'' [] sample_templates [fal_template] True =
      AskUnauthenticated \<lparr>tc_hostname = ''x.fal.run'', tc_port = None, tc_path = ''/'', tc_https = True\<rparr>"
    by code_simp
  show ?thesis
    using evaluateRequestWithApproval_asks [where host = "''x.fal.run''" and port = None and path = "''/''" and ids = "[]"
        and tm = sample_templates and all = "[fal_template]" and https = True]
    unfolding eq by simp
qed

text \<open>Router and policy agree: a connection is tunnelled without interception exactly when
  no template of the session matches its host, and then the policy injects nothing; a matched
  or ambiguous decision is always on an intercepted connection.\<close>

theorem route_agrees_with_policy:
  "(action (routeConnection host port ids tm) = Tunnel \<longleftrightarrow>
      (\<forall>i \<in> set ids. \<forall>tpls. js_get tm i = Some tpls \<longrightarrow> (\<forall>t \<in> set tpls. host_kind host t = NoneMatch))) \<and>
   (action (routeConnection host port ids tm) = Tunnel \<longrightarrow>
      evaluateRequest host path ids tm = (if ids = [] then Unauthenticated else Missing))"
proof -
  have t: "action (routeConnection host port ids tm) = Tunnel \<longleftrightarrow> \<not> any_match host tm ids"
    by (auto simp: routeConnection_def any_match_def)
  have "\<not> any_match host tm ids \<Longrightarrow> \<forall>i \<in> set ids. no_match host tm i"
    by (auto simp: any_match_iff no_match_def injectable_def)
  then show ?thesis
    unfolding t using credential_loop_Missing [of host tm ids "[]"]
    by (auto simp: any_match_iff evaluateRequest_def)
qed

theorem route_agrees_with_policy_witness:
  "evaluateRequest ''example.org'' ''/'' [''fal''] sample_templates = Missing"
proof -
  have "action (routeConnection ''example.org'' 443 [''fal''] sample_templates) = Tunnel" by code_simp
  then show ?thesis
    using route_agrees_with_policy [of "''example.org''" 443 "[''fal'']" sample_templates "''/''"] by simp
qed

end
