(* ===== verification/Proxy_Session.thy ===== *)
theory Proxy_Session
  imports Prelude "HOL-Library.List_Lexorder" "HOL-Library.Char_ord"
begin

text \<open>
  The session core of the egress proxy (\<^verbatim>\<open>packages/egress-proxy/src/session-core.ts\<close>): the
  session table and its lifecycle operations. The asynchronous operations are cut at their
  awaits: a start that is under way and a server close that is under way are part of the
  state, and each continuation is an event. Port numbers, server handles and the outcomes of
  the caller's hooks come with the events. A timer, a callback and a pending promise are
  represented by whether they are set.
\<close>

section \<open>Sessions\<close>

datatype session_status = Starting | Active | Stopping | Stopped

record session_config =
  idleTimeoutMs :: int
  maxSessionsPerConversation :: int
  allowedTargets :: "json option"

definition DEFAULT_CONFIG :: session_config where
  "DEFAULT_CONFIG = \<lparr>idleTimeoutMs = 5 * 60 * 1000, maxSessionsPerConversation = 3, allowedTargets = None\<rparr>"

record partial_config =
  pc_idleTimeoutMs :: "int option"
  pc_maxSessionsPerConversation :: "int option"
  pc_allowedTargets :: "json option"

definition merge_config :: "partial_config option \<Rightarrow> session_config" where
  "merge_config c =
     (case c of
        None \<Rightarrow> DEFAULT_CONFIG
      | Some p \<Rightarrow>
          \<lparr>idleTimeoutMs = (case pc_idleTimeoutMs p of Some x \<Rightarrow> x | None \<Rightarrow> idleTimeoutMs DEFAULT_CONFIG),
           maxSessionsPerConversation =
             (case pc_maxSessionsPerConversation p of Some x \<Rightarrow> x
              | None \<Rightarrow> maxSessionsPerConversation DEFAULT_CONFIG),
           allowedTargets = pc_allowedTargets p\<rparr>)"

record proxy_session =
  sid :: string
  conversationId :: string
  credentialIds :: "string list"
  status :: session_status
  createdAt :: int
  port :: "nat option"

record managed_session =
  session :: proxy_session
  server :: "nat option"
  idleTimer :: bool
  config :: session_config
  dataDir :: "string option"
  approvalCallback :: bool
  listenHost :: string
  stopPromise :: bool
  combinedCABundlePath :: "string option"

text \<open>Continuations of \<^verbatim>\<open>startSession\<close>: the checks have passed and it awaits the CA setup,
  the server hook, or the listen callback.\<close>

datatype start_phase = AwaitCA | AwaitServer | AwaitListen

record session_store =
  sessions :: "(string, managed_session) js_map"
  starts :: "(string \<times> start_phase) list"
  closes :: "string list"

datatype session_error =
    MaxSessionsReached
  | SessionNotFound
  | NotStarting session_status
  | NotActive

section \<open>Helpers\<close>

definition credentialIdsMatch :: "string list \<Rightarrow> string list \<Rightarrow> bool" where
  "credentialIdsMatch a b =
     (if length a \<noteq> length b then False
      else let sa = sort a; sb = sort b in list_all (\<lambda>i. sa ! i = sb ! i) [0..<length sa])"

definition getSessionsForConversation :: "session_store \<Rightarrow> string \<Rightarrow> proxy_session list" where
  "getSessionsForConversation st c = filter (\<lambda>s. conversationId s = c) (map session (js_values (sessions st)))"

definition getActiveSession :: "session_store \<Rightarrow> string \<Rightarrow> proxy_session option" where
  "getActiveSession st c =
     List.find (\<lambda>s. conversationId s = c \<and> status s = Active) (map session (js_values (sessions st)))"

text \<open>The code mutates a managed session in place; it is visible while it is in the table.\<close>

definition update_session ::
  "string \<Rightarrow> (managed_session \<Rightarrow> managed_session) \<Rightarrow> session_store \<Rightarrow> session_store" where
  "update_session i f st =
     st\<lparr>sessions := map (\<lambda>e. if fst e = i then (fst e, f (snd e)) else e) (sessions st)\<rparr>"

definition set_status :: "session_status \<Rightarrow> managed_session \<Rightarrow> managed_session" where
  "set_status x m = m\<lparr>session := (session m)\<lparr>status := x\<rparr>\<rparr>"

definition resetIdleTimer :: "managed_session \<Rightarrow> managed_session" where
  "resetIdleTimer m = m\<lparr>idleTimer := True\<rparr>"

section \<open>Operations\<close>

definition createSession ::
  "session_store \<Rightarrow> string \<Rightarrow> string \<Rightarrow> string list \<Rightarrow> partial_config option \<Rightarrow> string option \<Rightarrow> bool \<Rightarrow> int
   \<Rightarrow> session_error + (session_store \<times> proxy_session)" where
  "createSession st i conv creds cfg dir cb now =
     (let merged = merge_config cfg;
          live = length (filter (\<lambda>s. status s \<noteq> Stopped) (getSessionsForConversation st conv)) in
      if maxSessionsPerConversation merged \<le> int live then Inl MaxSessionsReached
      else let s = \<lparr>sid = i, conversationId = conv, credentialIds = creds, status = Starting,
                     createdAt = now, port = None\<rparr>
           in Inr (st\<lparr>sessions := js_set i
                        \<lparr>session = s, server = None, idleTimer = False, config = merged, dataDir = dir,
                         approvalCallback = cb, listenHost = ''127.0.0.1'', stopPromise = False,
                         combinedCABundlePath = None\<rparr> (sessions st)\<rparr>, s))"

text \<open>\<^verbatim>\<open>startSession\<close> up to its first await; \<open>hasCA\<close>: the caller supplies the CA hook.\<close>

definition startSession_begin :: "session_store \<Rightarrow> string \<Rightarrow> bool \<Rightarrow> session_error + session_store" where
  "startSession_begin st i hasCA =
     (case js_get (sessions st) i of
        None \<Rightarrow> Inl SessionNotFound
      | Some m \<Rightarrow>
          if status (session m) \<noteq> Starting then Inl (NotStarting (status (session m)))
          else Inr (st\<lparr>starts := starts st @ [(i, if hasCA then AwaitCA else AwaitServer)]\<rparr>))"

text \<open>Its continuations. The CA hook succeeds (possibly recording a bundle) or throws, which
  removes the session; the server hook succeeds or throws; the listen callback runs with an
  address, or listening fails, which removes the session.\<close>

definition ca_done :: "session_store \<Rightarrow> string \<Rightarrow> string option \<Rightarrow> session_store" where
  "ca_done st i bundle =
     (update_session i (\<lambda>m. m\<lparr>combinedCABundlePath := bundle\<rparr>) st)
       \<lparr>starts := remove1 (i, AwaitCA) (starts st) @ [(i, AwaitServer)]\<rparr>"

definition ca_failed :: "session_store \<Rightarrow> string \<Rightarrow> session_store" where
  "ca_failed st i = st\<lparr>sessions := js_delete i (sessions st), starts := remove1 (i, AwaitCA) (starts st)\<rparr>"

definition server_created :: "session_store \<Rightarrow> string \<Rightarrow> session_store" where
  "server_created st i = st\<lparr>starts := remove1 (i, AwaitServer) (starts st) @ [(i, AwaitListen)]\<rparr>"

definition server_failed :: "session_store \<Rightarrow> string \<Rightarrow> session_store" where
  "server_failed st i = st\<lparr>starts := remove1 (i, AwaitServer) (starts st)\<rparr>"

definition listening :: "session_store \<Rightarrow> string \<Rightarrow> nat \<Rightarrow> nat \<Rightarrow> string \<Rightarrow> session_store" where
  "listening st i srv p host =
     (update_session i (\<lambda>m. resetIdleTimer (m\<lparr>server := Some srv,
          session := (session m)\<lparr>port := Some p, status := Active\<rparr>, listenHost := host\<rparr>)) st)
       \<lparr>starts := remove1 (i, AwaitListen) (starts st)\<rparr>"

definition listen_failed :: "session_store \<Rightarrow> string \<Rightarrow> session_store" where
  "listen_failed st i =
     st\<lparr>sessions := js_delete i (sessions st), starts := remove1 (i, AwaitListen) (starts st)\<rparr>"

definition finish_stop :: "managed_session \<Rightarrow> managed_session" where
  "finish_stop m =
     m\<lparr>session := (session m)\<lparr>status := Stopped, port := None\<rparr>, approvalCallback := False, stopPromise := False\<rparr>"

text \<open>\<^verbatim>\<open>stopSession\<close> up to its await. Without a server the shutdown completes at once (and
  the settled promise is what \<^verbatim>\<open>stopPromise\<close> is left with); with one it awaits the close.
  A caller that finds a shutdown under way joins it and changes nothing.\<close>

definition stopSession :: "session_store \<Rightarrow> string \<Rightarrow> session_error + session_store" where
  "stopSession st i =
     (case js_get (sessions st) i of
        None \<Rightarrow> Inl SessionNotFound
      | Some m \<Rightarrow>
          if status (session m) = Stopped then Inr st
          else if status (session m) = Stopping \<and> stopPromise m then Inr st
          else if server m = None
          then Inr (update_session i
                 (\<lambda>m. (finish_stop ((set_status Stopping m)\<lparr>idleTimer := False\<rparr>))\<lparr>stopPromise := True\<rparr>) st)
          else Inr ((update_session i
                 (\<lambda>m. (set_status Stopping m)\<lparr>idleTimer := False, stopPromise := True\<rparr>) st)
                   \<lparr>closes := closes st @ [i]\<rparr>))"

definition close_done :: "session_store \<Rightarrow> string \<Rightarrow> session_store" where
  "close_done st i =
     (update_session i (\<lambda>m. finish_stop (m\<lparr>server := None\<rparr>)) st)\<lparr>closes := remove1 i (closes st)\<rparr>"

definition close_failed :: "session_store \<Rightarrow> string \<Rightarrow> session_store" where
  "close_failed st i = st\<lparr>closes := remove1 i (closes st)\<rparr>"

definition idle_fired :: "session_store \<Rightarrow> string \<Rightarrow> session_store" where
  "idle_fired st i =
     (case js_get (sessions st) i of
        Some m \<Rightarrow>
          (if status (session m) = Active
           then (case stopSession st i of Inr st' \<Rightarrow> st' | Inl _ \<Rightarrow> st) else st)
      | None \<Rightarrow> st)"

definition truthy_str :: "string option \<Rightarrow> bool" where
  "truthy_str x = (case x of None \<Rightarrow> False | Some s \<Rightarrow> s \<noteq> [])"

definition getSessionEnv ::
  "session_store \<Rightarrow> string \<Rightarrow> (string \<Rightarrow> string) option
   \<Rightarrow> session_error + (session_store \<times> (string \<times> string) list)" where
  "getSessionEnv st i getCAPath =
     (case js_get (sessions st) i of
        None \<Rightarrow> Inl SessionNotFound
      | Some m \<Rightarrow>
          (case port (session m) of
             None \<Rightarrow> Inl NotActive
           | Some p \<Rightarrow>
               if status (session m) \<noteq> Active then Inl NotActive
               else let url = ''http://127.0.0.1:'' @ nat_to_string p;
                        base = [(''HTTP_PROXY'', url), (''HTTPS_PROXY'', url),
                                (''NO_PROXY'', ''localhost,127.0.0.1,::1'')];
                        certs = (if truthy_str (dataDir m) \<and> truthy_str (combinedCABundlePath m)
                                 then (case getCAPath of
                                         Some f \<Rightarrow> [(''NODE_EXTRA_CA_CERTS'', f (the (dataDir m)))]
                                       | None \<Rightarrow> []) @
                                      [(''SSL_CERT_FILE'', the (combinedCABundlePath m))]
                                 else [])
                    in Inr (update_session i resetIdleTimer st, base @ certs)))"

text \<open>Shutdown: every session is stopped, then the table is cleared.\<close>

fun stop_each :: "string list \<Rightarrow> session_store \<Rightarrow> session_store" where
  "stop_each [] st = st"
| "stop_each (i # is) st = stop_each is (case stopSession st i of Inr st' \<Rightarrow> st' | Inl _ \<Rightarrow> st)"

definition stopAllSessions_begin :: "session_store \<Rightarrow> session_store" where
  "stopAllSessions_begin st = stop_each (js_keys (sessions st)) st"

definition stopAllSessions_end :: "session_store \<Rightarrow> session_store" where
  "stopAllSessions_end st = st\<lparr>sessions := []\<rparr>"

section \<open>The machine\<close>

datatype session_event =
    Create string string "string list" "partial_config option" "string option" bool int
  | StartBegin string bool
  | CaDone string "string option"
  | CaFailed string
  | ServerCreated string
  | ServerFailed string
  | Listening string nat nat string
  | ListenFailed string
  | Stop string
  | CloseDone string
  | CloseFailed string
  | IdleFired string
  | GetEnv string "(string \<Rightarrow> string) option"
  | StopAllBegin
  | StopAllEnd

definition or_same :: "'a \<Rightarrow> 'e + 'a \<Rightarrow> 'a" where
  "or_same st r = (case r of Inr st' \<Rightarrow> st' | Inl _ \<Rightarrow> st)"

text \<open>A continuation runs only if it is pending; a call that throws leaves the state.\<close>

fun exec :: "session_store \<Rightarrow> session_event \<Rightarrow> session_store" where
  "exec st (Create i c ids cfg dir cb now) =
     (case createSession st i c ids cfg dir cb now of Inr r \<Rightarrow> fst r | Inl _ \<Rightarrow> st)"
| "exec st (StartBegin i ca) = or_same st (startSession_begin st i ca)"
| "exec st (CaDone i b) = (if (i, AwaitCA) \<in> set (starts st) then ca_done st i b else st)"
| "exec st (CaFailed i) = (if (i, AwaitCA) \<in> set (starts st) then ca_failed st i else st)"
| "exec st (ServerCreated i) = (if (i, AwaitServer) \<in> set (starts st) then server_created st i else st)"
| "exec st (ServerFailed i) = (if (i, AwaitServer) \<in> set (starts st) then server_failed st i else st)"
| "exec st (Listening i srv p h) =
     (if (i, AwaitListen) \<in> set (starts st) then listening st i srv p h else st)"
| "exec st (ListenFailed i) = (if (i, AwaitListen) \<in> set (starts st) then listen_failed st i else st)"
| "exec st (Stop i) = or_same st (stopSession st i)"
| "exec st (CloseDone i) = (if i \<in> set (closes st) then close_done st i else st)"
| "exec st (CloseFailed i) = (if i \<in> set (closes st) then close_failed st i else st)"
| "exec st (IdleFired i) =
     (if (case js_get (sessions st) i of Some m \<Rightarrow> idleTimer m | None \<Rightarrow> False) then idle_fired st i else st)"
| "exec st (GetEnv i f) = (case getSessionEnv st i f of Inr r \<Rightarrow> fst r | Inl _ \<Rightarrow> st)"
| "exec st StopAllBegin = stopAllSessions_begin st"
| "exec st StopAllEnd = stopAllSessions_end st"

definition empty_store :: session_store where
  "empty_store = \<lparr>sessions = [], starts = [], closes = []\<rparr>"

section \<open>Lemmas\<close>

text \<open>What a managed session looks like in each status.\<close>

definition managed_ok :: "string \<Rightarrow> managed_session \<Rightarrow> bool" where
  "managed_ok i m \<longleftrightarrow> sid (session m) = i \<and>
     (case status (session m) of
        Starting \<Rightarrow> server m = None \<and> port (session m) = None
      | Active \<Rightarrow> server m \<noteq> None \<and> port (session m) \<noteq> None
      | Stopping \<Rightarrow> stopPromise m
      | Stopped \<Rightarrow> server m = None \<and> port (session m) = None \<and> \<not> approvalCallback m)"

definition store_ok :: "session_store \<Rightarrow> bool" where
  "store_ok st \<longleftrightarrow> wf_map (sessions st) \<and> (\<forall>(i, m) \<in> set (sessions st). managed_ok i m)"

lemma set_js_set_subset: "set (js_set k v m) \<subseteq> insert (k, v) (set m)"
  by (induction k v m rule: js_set.induct) auto

lemma keys_update [simp]: "js_keys (sessions (update_session i f st)) = js_keys (sessions st)"
  by (simp add: update_session_def)

lemma js_get_update:
  "js_get (sessions (update_session i f st)) j =
     (if j = i then map_option f (js_get (sessions st) j) else js_get (sessions st) j)"
proof -
  have "js_get (map (\<lambda>e. if fst e = i then (fst e, f (snd e)) else e) xs) j =
      (if j = i then map_option f (js_get xs j) else js_get xs j)" for xs
    by (induction xs) (auto simp: js_get_def)
  then show ?thesis by (simp add: update_session_def)
qed

lemma store_ok_get: "store_ok st \<Longrightarrow> js_get (sessions st) i = Some m \<Longrightarrow> managed_ok i m"
  using js_get_Some_mem by (fastforce simp: store_ok_def)

lemma store_okI:
  "wf_map (sessions st) \<Longrightarrow> (\<And>i m. js_get (sessions st) i = Some m \<Longrightarrow> managed_ok i m) \<Longrightarrow> store_ok st"
  by (auto simp: store_ok_def dest: js_get_mem)

lemma store_ok_cong: "sessions st' = sessions st \<Longrightarrow> store_ok st' = store_ok st"
  by (simp add: store_ok_def)

lemma store_ok_frame [simp]:
  "store_ok (st\<lparr>starts := x\<rparr>) = store_ok st" "store_ok (st\<lparr>closes := y\<rparr>) = store_ok st"
  "store_ok (st\<lparr>sessions := []\<rparr>)"
  by (simp_all add: store_ok_def)

text \<open>Changing one session keeps the invariant when the change does.\<close>

lemma store_ok_update:
  assumes "store_ok st" "\<And>m. js_get (sessions st) i = Some m \<Longrightarrow> managed_ok i m \<Longrightarrow> managed_ok i (f m)"
  shows "store_ok (update_session i f st)"
proof (rule store_okI)
  show "wf_map (sessions (update_session i f st))" using assms(1) by (simp add: store_ok_def wf_map_def)
  fix j m assume "js_get (sessions (update_session i f st)) j = Some m"
  then show "managed_ok j m"
    using assms store_ok_get [OF assms(1)] by (auto simp: js_get_update split: if_splits)
qed

lemma store_ok_set:
  assumes "store_ok st" "managed_ok i m"
  shows "store_ok (st\<lparr>sessions := js_set i m (sessions st)\<rparr>)"
  using assms set_js_set_subset [of i m "sessions st"] by (fastforce simp: store_ok_def)

lemma store_ok_delete: "store_ok st \<Longrightarrow> store_ok (st\<lparr>sessions := js_delete i (sessions st)\<rparr>)"
  by (auto simp: store_ok_def js_delete_def)

lemmas session_updates = set_status_def resetIdleTimer_def finish_stop_def managed_ok_def

lemma store_ok_stop:
  assumes "store_ok st"
  shows "store_ok (or_same st (stopSession st i))"
proof (cases "js_get (sessions st) i")
  case None
  then show ?thesis using assms by (simp add: stopSession_def or_same_def)
next
  case (Some m)
  let ?quick = "\<lambda>m. (finish_stop ((set_status Stopping m)\<lparr>idleTimer := False\<rparr>))\<lparr>stopPromise := True\<rparr>"
  let ?slow = "\<lambda>m. (set_status Stopping m)\<lparr>idleTimer := False, stopPromise := True\<rparr>"
  have "store_ok (update_session i ?quick st)" if "server m = None"
    using Some that by (intro store_ok_update [OF assms]) (auto simp: session_updates)
  moreover have "store_ok (update_session i ?slow st)"
    by (intro store_ok_update [OF assms]) (auto simp: session_updates)
  ultimately show ?thesis
    using assms Some store_ok_cong [of "(update_session i ?slow st)\<lparr>closes := closes st @ [i]\<rparr>" "update_session i ?slow st"]
    by (simp add: stopSession_def or_same_def)
qed

lemma store_ok_stop_each: "store_ok st \<Longrightarrow> store_ok (stop_each is st)"
proof (induction "is" arbitrary: st)
  case (Cons i "is")
  then show ?case using store_ok_stop [of st i] by (simp add: or_same_def)
qed simp

lemma store_ok_create: "store_ok st \<Longrightarrow> store_ok (exec st (Create i c ids cfg dir cb now))"
  by (auto simp: createSession_def Let_def managed_ok_def intro!: store_ok_set)

lemma store_ok_listening:
  assumes "store_ok st"
  shows "store_ok (listening st i srv p h)"
proof -
  let ?f = "\<lambda>m. resetIdleTimer (m\<lparr>server := Some srv, session := (session m)\<lparr>port := Some p, status := Active\<rparr>,
      listenHost := h\<rparr>)"
  have "store_ok (update_session i ?f st)"
    by (intro store_ok_update [OF assms]) (auto simp: session_updates)
  then show ?thesis by (simp add: listening_def store_ok_def)
qed

lemma store_ok_close_done:
  assumes "store_ok st"
  shows "store_ok (close_done st i)"
proof -
  have "store_ok (update_session i (\<lambda>m. finish_stop (m\<lparr>server := None\<rparr>)) st)"
    by (intro store_ok_update [OF assms]) (auto simp: session_updates)
  then show ?thesis by (simp add: close_done_def store_ok_def)
qed

lemma store_ok_ca_done:
  assumes "store_ok st"
  shows "store_ok (ca_done st i b)"
proof -
  have "store_ok (update_session i (\<lambda>m. m\<lparr>combinedCABundlePath := b\<rparr>) st)"
    by (intro store_ok_update [OF assms]) (auto simp: managed_ok_def split: session_status.splits)
  then show ?thesis by (simp add: ca_done_def store_ok_def)
qed

lemma store_ok_env:
  assumes "store_ok st"
  shows "store_ok (update_session i resetIdleTimer st)"
  by (intro store_ok_update [OF assms]) (auto simp: session_updates split: session_status.splits)

lemma store_ok_exec: "store_ok st \<Longrightarrow> store_ok (exec st e)"
proof (cases e)
  case (IdleFired i)
  then show "store_ok st \<Longrightarrow> ?thesis"
    using store_ok_stop [of st i] by (auto simp: idle_fired_def or_same_def split: option.splits)
next
  case (GetEnv i f)
  then show "store_ok st \<Longrightarrow> ?thesis"
    using store_ok_env [of st i] by (auto simp: getSessionEnv_def Let_def split: option.splits)
next
  case (StartBegin i ca)
  then show "store_ok st \<Longrightarrow> ?thesis"
    by (auto simp: startSession_begin_def or_same_def store_ok_def split: option.splits)
qed (simp_all add: store_ok_create store_ok_ca_done store_ok_stop store_ok_listening store_ok_close_done
     store_ok_stop_each store_ok_delete ca_failed_def listen_failed_def server_created_def server_failed_def
     close_failed_def stopAllSessions_begin_def stopAllSessions_end_def del: exec.simps(1))

interpretation sessions: invariant_machine exec store_ok
  by unfold_locales (rule store_ok_exec)

text \<open>Live sessions of a conversation, as \<^verbatim>\<open>createSession\<close> counts them.\<close>

definition live_count :: "session_store \<Rightarrow> string \<Rightarrow> nat" where
  "live_count st c = length (filter (\<lambda>s. status s \<noteq> Stopped) (getSessionsForConversation st c))"

definition is_live :: "string \<Rightarrow> managed_session \<Rightarrow> bool" where
  "is_live c m \<longleftrightarrow> conversationId (session m) = c \<and> status (session m) \<noteq> Stopped"

lemma live_count_alt: "live_count st c = length (filter (\<lambda>e. is_live c (snd e)) (sessions st))"
  by (simp add: live_count_def getSessionsForConversation_def filter_map o_def is_live_def conj_commute)

lemma live_count_frame [simp]:
  "live_count (st\<lparr>starts := x\<rparr>) c = live_count st c" "live_count (st\<lparr>closes := y\<rparr>) c = live_count st c"
  by (simp_all add: live_count_alt)

lemma live_filter_map:
  assumes "\<And>e. e \<in> set xs \<Longrightarrow> P (g e) \<Longrightarrow> P e"
  shows "length (filter P (map g xs)) \<le> length (filter P xs)"
  using assms
proof (induction xs)
  case (Cons x xs)
  have "length (filter P (map g xs)) \<le> length (filter P xs)" using Cons by simp
  then show ?case using Cons.prems [of x] by (simp del: filter_map)
qed simp

lemma live_count_update:
  assumes "wf_map (sessions st)"
    and "\<And>m. js_get (sessions st) i = Some m \<Longrightarrow> is_live c (f m) \<Longrightarrow> is_live c m"
  shows "live_count (update_session i f st) c \<le> live_count st c"
proof -
  let ?g = "\<lambda>e. if fst e = i then (fst e, f (snd e)) else e"
  have "length (filter (\<lambda>e. is_live c (snd e)) (map ?g (sessions st))) \<le>
      length (filter (\<lambda>e. is_live c (snd e)) (sessions st))"
    using assms js_get_mem [OF assms(1)] by (intro live_filter_map) (auto split: if_splits)
  then show ?thesis by (simp add: live_count_alt update_session_def)
qed

lemma live_count_set: "live_count (st\<lparr>sessions := js_set i m (sessions st)\<rparr>) c \<le> Suc (live_count st c)"
proof -
  have "length (filter (\<lambda>e. is_live c (snd e)) (js_set i m xs)) \<le> Suc (length (filter (\<lambda>e. is_live c (snd e)) xs))" for xs
    by (induction i m xs rule: js_set.induct) auto
  then show ?thesis by (simp add: live_count_alt)
qed

lemma live_count_delete: "live_count (st\<lparr>sessions := js_delete i (sessions st)\<rparr>) c \<le> live_count st c"
proof -
  have "length (filter (\<lambda>e. is_live c (snd e)) (js_delete i xs)) \<le> length (filter (\<lambda>e. is_live c (snd e)) xs)" for xs
    by (induction xs) (auto simp: js_delete_def)
  then show ?thesis by (simp add: live_count_alt)
qed

lemma live_count_stop:
  assumes "wf_map (sessions st)"
  shows "live_count (or_same st (stopSession st i)) c \<le> live_count st c"
proof (cases "js_get (sessions st) i")
  case None
  then show ?thesis by (simp add: stopSession_def or_same_def)
next
  case (Some m)
  let ?quick = "\<lambda>m. (finish_stop ((set_status Stopping m)\<lparr>idleTimer := False\<rparr>))\<lparr>stopPromise := True\<rparr>"
  let ?slow = "\<lambda>m. (set_status Stopping m)\<lparr>idleTimer := False, stopPromise := True\<rparr>"
  have "live_count (update_session i ?quick st) c \<le> live_count st c"
    by (rule live_count_update [OF assms]) (simp add: is_live_def session_updates)
  moreover have "live_count (update_session i ?slow st) c \<le> live_count st c" if "status (session m) \<noteq> Stopped"
    using Some that by (intro live_count_update [OF assms]) (auto simp: is_live_def session_updates)
  ultimately show ?thesis using Some by (simp add: stopSession_def or_same_def)
qed

lemma live_count_stop_each: "store_ok st \<Longrightarrow> live_count (stop_each is st) c \<le> live_count st c"
proof (induction "is" arbitrary: st)
  case (Cons i "is")
  have "live_count (stop_each is (or_same st (stopSession st i))) c \<le> live_count (or_same st (stopSession st i)) c"
    by (rule Cons.IH) (rule store_ok_stop [OF Cons.prems])
  also have "\<dots> \<le> live_count st c" using Cons.prems by (intro live_count_stop) (simp add: store_ok_def)
  finally show ?case by (simp add: or_same_def)
qed simp

text \<open>A listen callback that runs after the session was stopped.\<close>

definition revives :: "session_store \<Rightarrow> session_event \<Rightarrow> bool" where
  "revives st e = (case e of
     Listening i _ _ _ \<Rightarrow> (case js_get (sessions st) i of Some m \<Rightarrow> status (session m) = Stopped | None \<Rightarrow> False)
   | _ \<Rightarrow> False)"

lemma live_count_listening:
  assumes "wf_map (sessions st)" "\<not> revives st (Listening i srv p h)"
  shows "live_count (listening st i srv p h) c \<le> live_count st c"
proof -
  have "live_count (update_session i (\<lambda>m. resetIdleTimer (m\<lparr>server := Some srv,
      session := (session m)\<lparr>port := Some p, status := Active\<rparr>, listenHost := h\<rparr>)) st) c \<le> live_count st c"
    using assms(2) by (intro live_count_update [OF assms(1)]) (auto simp: is_live_def session_updates revives_def)
  then show ?thesis by (simp add: listening_def)
qed

lemma live_count_update_le:
  assumes "wf_map (sessions st)"
  shows "live_count (update_session i f st) c \<le> Suc (live_count st c)"
proof -
  let ?g = "\<lambda>e. if fst e = i then (fst e, f (snd e)) else e" and ?P = "\<lambda>e. is_live c (snd e)"
  have same: "i \<notin> set (js_keys xs) \<Longrightarrow> map ?g xs = xs" for xs by (induction xs) auto
  have "distinct (js_keys xs) \<Longrightarrow> length (filter ?P (map ?g xs)) \<le> Suc (length (filter ?P xs))" for xs
  proof (induction xs)
    case (Cons x xs)
    show ?case
    proof (cases "fst x = i")
      case True
      then have "map ?g xs = xs" using Cons.prems same by auto
      then show ?thesis by (simp del: filter_map)
    next
      case False
      then show ?thesis using Cons by (simp del: filter_map)
    qed
  qed simp
  then show ?thesis using assms by (simp add: live_count_alt update_session_def wf_map_def)
qed

lemma live_count_revive:
  "store_ok st \<Longrightarrow> live_count (exec st (Listening i srv p h)) c \<le> Suc (live_count st c)"
  using live_count_update_le [of st i _ c] by (simp add: listening_def store_ok_def le_SucI)

lemma live_count_exec:
  assumes ok: "store_ok st" and nr: "\<not> revives st e" and nc: "\<And>i c ids cfg dir cb now. e \<noteq> Create i c ids cfg dir cb now"
  shows "live_count (exec st e) c \<le> live_count st c"
proof -
  have wf: "wf_map (sessions st)" using ok by (simp add: store_ok_def)
  have upd: "live_count (update_session i (\<lambda>m. m\<lparr>combinedCABundlePath := b\<rparr>) st) c \<le> live_count st c"
    "live_count (update_session i resetIdleTimer st) c \<le> live_count st c"
    "live_count (update_session i (\<lambda>m. finish_stop (m\<lparr>server := None\<rparr>)) st) c \<le> live_count st c" for i b
    by (rule live_count_update [OF wf]; simp add: is_live_def session_updates)+
  show ?thesis
  proof (cases e)
    case (IdleFired i)
    then show ?thesis using live_count_stop [OF wf, of i c]
      by (auto simp: idle_fired_def or_same_def split: option.splits)
  next
    case (GetEnv i f)
    then show ?thesis using upd(2) [of i]
      by (auto simp: getSessionEnv_def Let_def split: option.splits)
  next
    case (StartBegin i ca)
    then show ?thesis by (auto simp: startSession_begin_def or_same_def split: option.splits)
  next
    case (Listening i srv p h)
    then show ?thesis using live_count_listening [OF wf, of i srv p h c] nr by simp
  next
    case StopAllEnd
    then show ?thesis by (simp add: stopAllSessions_end_def live_count_alt)
  qed (use nc upd live_count_delete [where st = st] live_count_stop [OF wf] live_count_stop_each [OF ok] in
        \<open>simp_all add: ca_done_def ca_failed_def listen_failed_def server_created_def server_failed_def
          close_done_def close_failed_def stopAllSessions_begin_def\<close>)
qed

section \<open>Properties\<close>

text \<open>C32: In every run from the empty table, whatever the order of calls and callbacks, an
  active session has a server and a port, a stopped one has neither and holds no approval
  callback, a session being stopped has its shutdown recorded, and ids are unique. So the
  proxy variables are only ever handed out for a session that listens.\<close>

theorem session_invariant:
  "store_ok (foldl exec empty_store es) \<and>
   (case getSessionEnv (foldl exec empty_store es) i f of
      Inl _ \<Rightarrow> True
    | Inr r \<Rightarrow> (\<exists>m srv p. js_get (sessions (foldl exec empty_store es)) i = Some m \<and> server m = Some srv \<and>
               port (session m) = Some p \<and> js_get (snd r) ''HTTPS_PROXY'' = Some (''http://127.0.0.1:'' @ nat_to_string p)))"
proof -
  have ok: "store_ok (foldl exec empty_store es)"
    by (rule sessions.inv_run) (simp add: empty_store_def store_ok_def)
  show ?thesis
    using ok store_ok_get [OF ok, of i]
    by (auto simp: getSessionEnv_def Let_def managed_ok_def js_get_def split: option.splits sum.splits)
qed

text \<open>The per-conversation limit: creating a session succeeds only while the conversation
  is below its limit and then stays within it, and no other event raises the number of live
  sessions, save a listen callback that revives a stopped session.\<close>

theorem session_limit:
  assumes "store_ok st"
  shows "(case createSession st i c ids cfg dir cb now of
            Inl _ \<Rightarrow> maxSessionsPerConversation (merge_config cfg) \<le> int (live_count st c)
          | Inr r \<Rightarrow> int (live_count (fst r) c) \<le> maxSessionsPerConversation (merge_config cfg)) \<and>
         live_count (exec st e) c' \<le> live_count st c' +
           (case e of Create _ _ _ _ _ _ _ \<Rightarrow> 1 | _ \<Rightarrow> if revives st e then 1 else 0)"
proof
  show "case createSession st i c ids cfg dir cb now of
          Inl _ \<Rightarrow> maxSessionsPerConversation (merge_config cfg) \<le> int (live_count st c)
        | Inr r \<Rightarrow> int (live_count (fst r) c) \<le> maxSessionsPerConversation (merge_config cfg)"
  proof -
    have "int (live_count (st\<lparr>sessions := js_set i m (sessions st)\<rparr>) c) \<le> maxSessionsPerConversation (merge_config cfg)"
      if "\<not> maxSessionsPerConversation (merge_config cfg) \<le> int (live_count st c)" for m
      using live_count_set [where st = st and c = c and i = i and m = m] that by linarith
    then show ?thesis by (simp add: createSession_def Let_def live_count_def [symmetric])
  qed
next
  have cr: "live_count (exec st e) c' \<le> Suc (live_count st c')" if "e = Create a b d f g h k" for a b d f g h k
    using that live_count_set [where st = st and c = c' and i = a] by (auto simp: createSession_def Let_def)
  have rv: "live_count (exec st e) c' \<le> Suc (live_count st c')" if "revives st e"
    using that live_count_revive [OF assms] by (simp add: revives_def split: session_event.splits)
  show "live_count (exec st e) c' \<le> live_count st c' +
      (case e of Create _ _ _ _ _ _ _ \<Rightarrow> 1 | _ \<Rightarrow> if revives st e then 1 else 0)"
    using cr rv live_count_exec [OF assms, of e c'] by (cases e) auto
qed

theorem session_limit_witness:
  "live_count (exec empty_store (Stop ''a'')) ''c'' \<le> live_count empty_store ''c'' + 0"
proof -
  have "store_ok empty_store" by (simp add: empty_store_def store_ok_def)
  from session_limit [OF this, where e = "Stop ''a''" and c' = "''c''"] show ?thesis
    by (simp add: revives_def)
qed

text \<open>Two credential lists match exactly when they are equal as multisets, so reuse of a
  session neither ignores a duplicate nor depends on order.\<close>

theorem credentialIdsMatch_iff: "credentialIdsMatch a b \<longleftrightarrow> mset a = mset b"
proof (cases "length a = length b")
  case True
  have "credentialIdsMatch a b \<longleftrightarrow> sort a = sort b"
    using True by (auto simp: credentialIdsMatch_def Let_def list_all_iff intro: nth_equalityI)
  also have "\<dots> \<longleftrightarrow> mset a = mset b"
    by (metis mset_sort properties_for_sort sorted_sort)
  finally show ?thesis .
next
  case False
  then show ?thesis by (auto simp: credentialIdsMatch_def dest: mset_eq_length)
qed

definition one_session :: "partial_config option" where
  "one_session = Some \<lparr>pc_idleTimeoutMs = None, pc_maxSessionsPerConversation = Some 1, pc_allowedTargets = None\<rparr>"

text \<open>A session stopped while it was starting comes back: the listen callback does not look
  at the status, so after the stop has completed it makes the session active again, and the
  conversation ends with two live sessions under a limit of one.\<close>

theorem stopped_session_revived:
  "let before = foldl exec empty_store
         [Create ''a'' ''c'' [] one_session None False 0, StartBegin ''a'' False, ServerCreated ''a'',
          Stop ''a'', Create ''b'' ''c'' [] one_session None False 1];
       after = exec before (Listening ''a'' 7 8080 ''127.0.0.1'')
   in map (\<lambda>e. status (session (snd e))) (sessions before) = [Stopped, Starting] \<and>
      map (\<lambda>e. status (session (snd e))) (sessions after) = [Active, Starting] \<and>
      live_count after ''c'' = 2"
  by code_simp

text \<open>A failing server hook leaks the session: it stays in the table as starting, no start
  is under way any more, and it counts against the limit, so the next create is refused. (A
  failing CA hook and a failing listen both remove the session.)\<close>

theorem server_hook_failure_leaks:
  "let st = foldl exec empty_store
         [Create ''a'' ''c'' [] one_session None False 0, StartBegin ''a'' False, ServerFailed ''a'']
   in starts st = [] \<and> map (\<lambda>e. status (session (snd e))) (sessions st) = [Starting] \<and>
      createSession st ''b'' ''c'' [] one_session None False 1 = Inl MaxSessionsReached"
  by code_simp

end
