(* ===== verification/Ipc_Framing.thy ===== *)
theory Ipc_Framing
  imports Prelude "HOL-Library.Word"
begin

text \<open>
  Length-prefixed framing of the IPC protocol
  (\<^verbatim>\<open>packages/ipc-server-utils/src/ipc-framing.ts\<close>): the frame writers, and the incremental
  reader with its state machine. Bytes are 8-bit words. The envelope type and the text codec
  are a parameter (\<open>codec\<close>): UTF-8 decoding, \<^verbatim>\<open>JSON.parse\<close>, the lookup in the
  envelope's header map, whether the parsed value is JSON's null, and
  \<^verbatim>\<open>JSON.stringify\<close> followed by UTF-8 encoding. Callbacks are events, in order.
\<close>

type_synonym byte = "8 word"

record 'e codec =
  decode :: "byte list \<Rightarrow> string"
  parse :: "string \<Rightarrow> 'e option"
  header :: "'e \<Rightarrow> string \<Rightarrow> string option"
  is_null :: "'e \<Rightarrow> bool"
  stringify :: "'e \<Rightarrow> byte list"

section \<open>Writing\<close>

definition u32be :: "nat \<Rightarrow> byte list" where
  "u32be n = [word_of_nat (n div 2 ^ 24), word_of_nat (n div 2 ^ 16), word_of_nat (n div 2 ^ 8), word_of_nat n]"

fun readUInt32BE :: "byte list \<Rightarrow> nat" where
  "readUInt32BE (a # b # c # d # _) = unat a * 2 ^ 24 + unat b * 2 ^ 16 + unat c * 2 ^ 8 + unat d"
| "readUInt32BE _ = 0"

text \<open>\<^verbatim>\<open>writeUInt32BE\<close> raises (\<open>None\<close>) for a length that does not fit.\<close>

definition writeFrame :: "byte list \<Rightarrow> byte list option" where
  "writeFrame data = (if length data < 2 ^ 32 then Some (u32be (length data) @ data) else None)"

definition writeMessage :: "'e codec \<Rightarrow> 'e \<Rightarrow> byte list option \<Rightarrow> byte list option" where
  "writeMessage c e binary =
     (case writeFrame (stringify c e) of
        None \<Rightarrow> None
      | Some f \<Rightarrow>
          (case binary of
             None \<Rightarrow> Some f
           | Some b \<Rightarrow> map_option (\<lambda>g. f @ g) (writeFrame b)))"

definition writeLegacyMessage :: "'e codec \<Rightarrow> 'e \<Rightarrow> byte list" where
  "writeLegacyMessage c e = stringify c e @ [0x0A]"

definition writeStreamChunk :: "byte list \<Rightarrow> byte list option" where
  "writeStreamChunk chunk = writeFrame chunk"

definition writeStreamEnd :: "byte list" where
  "writeStreamEnd = [0, 0, 0, 0]"

section \<open>Reading\<close>

datatype reader_state = Detect | ReadLength | ReadPayload | ReadBinary | ReadStreamChunkLength | ReadStreamChunk

record 'e reader =
  buffer :: "byte list"
  state :: reader_state
  pendingLength :: nat
  pendingEnvelope :: "'e option"
  expectBinary :: bool
  isLegacy :: bool

datatype 'e reader_event =
    OnMessage 'e "byte list option"
  | OnError
  | OnLegacyError
  | OnStreamStart 'e
  | OnStreamChunk "byte list"
  | OnStreamEnd
  | Thrown

definition fresh_reader :: "'e reader" where
  "fresh_reader = \<lparr>buffer = [], state = Detect, pendingLength = 0, pendingEnvelope = None,
     expectBinary = False, isLegacy = False\<rparr>"

text \<open>Legacy lines: every newline ends one; what is left after the last stays in the buffer.\<close>

definition legacy_line :: "'e codec \<Rightarrow> byte list \<Rightarrow> 'e reader_event list" where
  "legacy_line c bytes =
     (let line = js_trim (decode c bytes) in
      if line = [] then []
      else (case parse c line of Some e \<Rightarrow> [OnMessage e None] | None \<Rightarrow> [OnLegacyError]))"

definition legacy_lines :: "'e codec \<Rightarrow> byte list \<Rightarrow> 'e reader_event list \<times> byte list" where
  "legacy_lines c buf =
     (let parts = split_on 0x0A buf in (concat (map (legacy_line c) (butlast parts)), last parts))"

definition drainLegacy :: "'e codec \<Rightarrow> 'e reader \<Rightarrow> 'e reader \<times> 'e reader_event list" where
  "drainLegacy c r = (let (evs, rest) = legacy_lines c (buffer r) in (r\<lparr>buffer := rest\<rparr>, evs))"

datatype 'e step_result = Stop "'e reader" "'e reader_event list" | Cont "'e reader" "'e reader_event list"

text \<open>A complete payload. \<^verbatim>\<open>envelope.headers\<close> on JSON's null throws out of the reader.\<close>

definition read_envelope :: "'e codec \<Rightarrow> 'e reader \<Rightarrow> 'e step_result" where
  "read_envelope c r =
     (let payload = take (pendingLength r) (buffer r);
          r1 = r\<lparr>buffer := drop (pendingLength r) (buffer r)\<rparr>
      in case parse c (decode c payload) of
           None \<Rightarrow> Cont (r1\<lparr>state := Detect\<rparr>) [OnError]
         | Some e \<Rightarrow>
             if is_null c e then Stop r1 [Thrown]
             else if header c e ''transfer-encoding'' = Some ''chunked''
             then Cont (r1\<lparr>pendingEnvelope := Some e, state := ReadStreamChunkLength\<rparr>) [OnStreamStart e]
             else if header c e ''content-length'' \<noteq> None
             then Cont (r1\<lparr>pendingEnvelope := Some e, expectBinary := True, state := ReadLength\<rparr>) []
             else Cont (r1\<lparr>expectBinary := False, state := Detect\<rparr>) [OnMessage e None])"

text \<open>One pass through the branch of the loop for the current state.\<close>

definition drain_step :: "'e codec \<Rightarrow> 'e reader \<Rightarrow> 'e step_result" where
  "drain_step c r =
     (case state r of
        Detect \<Rightarrow>
          (if buffer r = [] then Stop r []
           else if hd (buffer r) = 0x7B
           then (case drainLegacy c (r\<lparr>isLegacy := True\<rparr>) of (r', evs) \<Rightarrow> Stop r' evs)
           else Cont (r\<lparr>state := ReadLength\<rparr>) [])
      | ReadLength \<Rightarrow>
          (if length (buffer r) < 4 then Stop r []
           else Cont (r\<lparr>pendingLength := readUInt32BE (buffer r), buffer := drop 4 (buffer r),
                        state := (if expectBinary r then ReadBinary else ReadPayload)\<rparr>) [])
      | ReadPayload \<Rightarrow>
          (if length (buffer r) < pendingLength r then Stop r [] else read_envelope c r)
      | ReadBinary \<Rightarrow>
          (if length (buffer r) < pendingLength r then Stop r []
           else Cont (r\<lparr>buffer := drop (pendingLength r) (buffer r), pendingEnvelope := None,
                        expectBinary := False, state := Detect\<rparr>)
                  (case pendingEnvelope r of
                     Some e \<Rightarrow> [OnMessage e (Some (take (pendingLength r) (buffer r)))] | None \<Rightarrow> []))
      | ReadStreamChunkLength \<Rightarrow>
          (if length (buffer r) < 4 then Stop r []
           else let n = readUInt32BE (buffer r); r1 = r\<lparr>pendingLength := n, buffer := drop 4 (buffer r)\<rparr> in
             if n = 0 then Cont (r1\<lparr>pendingEnvelope := None, state := Detect\<rparr>) [OnStreamEnd]
             else Cont (r1\<lparr>state := ReadStreamChunk\<rparr>) [])
      | ReadStreamChunk \<Rightarrow>
          (if length (buffer r) < pendingLength r then Stop r []
           else Cont (r\<lparr>buffer := drop (pendingLength r) (buffer r), state := ReadStreamChunkLength\<rparr>)
                  [OnStreamChunk (take (pendingLength r) (buffer r))]))"

fun state_weight :: "reader_state \<Rightarrow> nat" where
  "state_weight Detect = 2"
| "state_weight ReadLength = 1"
| "state_weight ReadStreamChunkLength = 1"
| "state_weight _ = 3"

lemma drain_step_decreases:
  "drain_step c r = Cont r' evs \<Longrightarrow>
     length (buffer r') + state_weight (state r') < length (buffer r) + state_weight (state r)"
  by (auto simp: drain_step_def read_envelope_def Let_def
      split: reader_state.splits if_splits option.splits prod.splits)

text \<open>The loop: it ends because every pass consumes input or moves to a lighter state.\<close>

function drain :: "'e codec \<Rightarrow> 'e reader \<Rightarrow> 'e reader \<times> 'e reader_event list" where
  "drain c r =
     (case drain_step c r of
        Stop r' evs \<Rightarrow> (r', evs)
      | Cont r' evs \<Rightarrow> (let (r'', evs') = drain c r' in (r'', evs @ evs')))"
  by pat_completeness auto

termination drain
  by (relation "measure (\<lambda>(c, r). length (buffer r) + state_weight (state r))")
     (simp_all add: drain_step_decreases)

declare drain.simps [simp del]

definition push :: "'e codec \<Rightarrow> 'e reader \<Rightarrow> byte list \<Rightarrow> 'e reader \<times> 'e reader_event list" where
  "push c r chunk = drain c (r\<lparr>buffer := buffer r @ chunk\<rparr>)"

text \<open>A socket delivers its bytes in chunks.\<close>

fun push_all :: "'e codec \<Rightarrow> 'e reader \<Rightarrow> byte list list \<Rightarrow> 'e reader \<times> 'e reader_event list" where
  "push_all c r [] = (r, [])"
| "push_all c r (ch # chs) =
     (let (r1, evs) = push c r ch; (r2, evs') = push_all c r1 chs in (r2, evs @ evs'))"

section \<open>What is sent\<close>

datatype 'e wire_msg = Plain 'e | WithBinary 'e "byte list" | Streamed 'e "byte list list"

fun all_written :: "byte list option list \<Rightarrow> byte list option" where
  "all_written [] = Some []"
| "all_written (x # xs) =
     (case x of None \<Rightarrow> None | Some b \<Rightarrow> map_option (\<lambda>bs. b @ bs) (all_written xs))"

text \<open>The bytes on the socket for one exchange.\<close>

fun wire :: "'e codec \<Rightarrow> 'e wire_msg \<Rightarrow> byte list option" where
  "wire c (Plain e) = writeMessage c e None"
| "wire c (WithBinary e b) = writeMessage c e (Some b)"
| "wire c (Streamed e chs) =
     all_written (writeMessage c e None # map writeStreamChunk chs @ [Some writeStreamEnd])"

fun wire_events :: "'e wire_msg \<Rightarrow> 'e reader_event list" where
  "wire_events (Plain e) = [OnMessage e None]"
| "wire_events (WithBinary e b) = [OnMessage e (Some b)]"
| "wire_events (Streamed e chs) = OnStreamStart e # map OnStreamChunk chs @ [OnStreamEnd]"

text \<open>What the protocol asks of a sender: the headers announce what follows, chunks are not
  empty, and the envelope's length prefix does not start with the byte that announces a
  legacy line. The codec round-trips the envelope.\<close>

definition envelope_ok :: "'e codec \<Rightarrow> 'e \<Rightarrow> bool" where
  "envelope_ok c e \<longleftrightarrow> parse c (decode c (stringify c e)) = Some e \<and> \<not> is_null c e \<and>
     length (stringify c e) div 2 ^ 24 \<noteq> 0x7B"

fun sendable :: "'e codec \<Rightarrow> 'e wire_msg \<Rightarrow> bool" where
  "sendable c (Plain e) \<longleftrightarrow> envelope_ok c e \<and> header c e ''transfer-encoding'' \<noteq> Some ''chunked'' \<and>
     header c e ''content-length'' = None"
| "sendable c (WithBinary e b) \<longleftrightarrow> envelope_ok c e \<and> header c e ''transfer-encoding'' \<noteq> Some ''chunked'' \<and>
     header c e ''content-length'' \<noteq> None"
| "sendable c (Streamed e chs) \<longleftrightarrow> envelope_ok c e \<and> header c e ''transfer-encoding'' = Some ''chunked'' \<and>
     [] \<notin> set chs"

section \<open>Lemmas: the length prefix\<close>

lemma length_u32be [simp]: "length (u32be n) = 4"
  by (simp add: u32be_def)

lemma bytes_of_nat:
  fixes n :: nat
  assumes "n < 2 ^ 32"
  shows "(n div 2 ^ 24 mod 2 ^ 8) * 2 ^ 24 + (n div 2 ^ 16 mod 2 ^ 8) * 2 ^ 16 + (n div 2 ^ 8 mod 2 ^ 8) * 2 ^ 8 +
    n mod 2 ^ 8 = n"
proof -
  define q1 q2 q3 where "q1 = n div 256" and "q2 = q1 div 256" and "q3 = q2 div 256"
  have q: "n div 2 ^ 8 = q1" "n div 2 ^ 16 = q2" "n div 2 ^ 24 = q3"
    by (simp_all add: q1_def q2_def q3_def div_mult2_eq [symmetric])
  have small: "q3 mod 256 = q3" using assms by (simp add: q(3) [symmetric])
  have "n = q1 * 256 + n mod 256" "q1 = q2 * 256 + q1 mod 256" "q2 = q3 * 256 + q2 mod 256"
    by (simp_all add: q1_def q2_def q3_def)
  then show ?thesis unfolding q using small by simp
qed

lemma readUInt32BE_u32be: "n < 2 ^ 32 \<Longrightarrow> readUInt32BE (u32be n @ bs) = n"
proof -
  assume n: "n < 2 ^ 32"
  have "readUInt32BE (u32be n @ bs) =
      (n div 2 ^ 24 mod 2 ^ 8) * 2 ^ 24 + (n div 2 ^ 16 mod 2 ^ 8) * 2 ^ 16 + (n div 2 ^ 8 mod 2 ^ 8) * 2 ^ 8 + n mod 2 ^ 8"
    by (simp add: u32be_def unat_of_nat)
  also have "\<dots> = n" by (rule bytes_of_nat [OF n])
  finally show ?thesis .
qed

lemma readUInt32BE_append: "4 \<le> length xs \<Longrightarrow> readUInt32BE (xs @ ys) = readUInt32BE xs"
  by (cases xs rule: readUInt32BE.cases) auto

lemma u32be_legacy:
  assumes "n < 2 ^ 32" "n div 2 ^ 24 \<noteq> 0x7B"
  shows "hd (u32be n @ bs) \<noteq> 0x7B"
proof
  assume "hd (u32be n @ bs) = 0x7B"
  then have "unat (word_of_nat (n div 2 ^ 24) :: byte) = 0x7B" by (simp add: u32be_def)
  then have "n div 2 ^ 24 mod 2 ^ 8 = 0x7B" by (simp add: unat_of_nat)
  moreover have "n div 2 ^ 24 < 2 ^ 8" using assms(1) by simp
  ultimately show False using assms(2) by simp
qed

section \<open>Lemmas: input arrives in pieces\<close>

definition more :: "byte list \<Rightarrow> 'e reader \<Rightarrow> 'e reader" where
  "more b r = r\<lparr>buffer := buffer r @ b\<rparr>"

lemma more_sel [simp]:
  "buffer (more b r) = buffer r @ b" "state (more b r) = state r" "pendingLength (more b r) = pendingLength r"
  "pendingEnvelope (more b r) = pendingEnvelope r" "expectBinary (more b r) = expectBinary r"
  "isLegacy (more b r) = isLegacy r"
  by (simp_all add: more_def)

lemma more_more: "more b' (more b r) = more (b @ b') r"
  by (simp add: more_def)

lemma read_envelope_extend:
  assumes "pendingLength r \<le> length (buffer r)"
  shows "read_envelope c (more b r) =
    (case read_envelope c r of Stop r' evs \<Rightarrow> Stop (more b r') evs | Cont r' evs \<Rightarrow> Cont (more b r') evs)"
  using assms by (auto simp: read_envelope_def Let_def more_def split: option.splits)

lemma drain_step_extend:
  assumes "drain_step c r = Cont r' evs"
  shows "drain_step c (more b r) = Cont (more b r') evs"
proof (cases "state r")
  case ReadPayload
  then show ?thesis using assms read_envelope_extend [of r c b]
    by (auto simp: drain_step_def split: if_splits step_result.splits)
qed (use assms in \<open>auto simp: drain_step_def more_def Let_def readUInt32BE_append split: if_splits prod.splits option.splits\<close>)

text \<open>The reader left the framed protocol, or threw.\<close>

definition derailed :: "'e reader \<times> 'e reader_event list \<Rightarrow> bool" where
  "derailed x \<longleftrightarrow> isLegacy (fst x) \<or> Thrown \<in> set (snd x)"

lemma drain_step_stop:
  assumes "drain_step c r = Stop r' evs" "\<not> isLegacy r"
  shows "(r' = r \<and> evs = []) \<or>
    (derailed (r', evs) \<and> (\<exists>r'' evs'. drain_step c (more b r) = Stop r'' evs' \<and> derailed (r'', evs')))"
proof (cases "state r")
  case ReadPayload
  then show ?thesis using assms read_envelope_extend [of r c b]
    by (auto simp: drain_step_def read_envelope_def Let_def derailed_def split: if_splits option.splits)
qed (use assms in \<open>auto simp: drain_step_def more_def Let_def drainLegacy_def derailed_def split: if_splits prod.splits\<close>)

lemma drain_Stop: "drain_step c r = Stop r' evs \<Longrightarrow> drain c r = (r', evs)"
  by (simp add: drain.simps)

lemma drain_Cont:
  "drain_step c r = Cont r' evs \<Longrightarrow> drain c r = (fst (drain c r'), evs @ snd (drain c r'))"
  by (subst drain.simps) (simp add: split_def Let_def)

lemma Cont_not_thrown: "drain_step c r = Cont r' evs \<Longrightarrow> Thrown \<notin> set evs \<and> isLegacy r' = isLegacy r"
  by (auto simp: drain_step_def read_envelope_def Let_def
      split: reader_state.splits if_splits option.splits prod.splits)

lemma drain_extend:
  assumes "\<not> isLegacy r"
  shows "(derailed (drain c r) \<and> derailed (drain c (more b r))) \<or>
    (\<not> derailed (drain c r) \<and>
     drain c (more b r) = (fst (drain c (more b (fst (drain c r)))), snd (drain c r) @ snd (drain c (more b (fst (drain c r))))))"
  using assms
proof (induction c r rule: drain.induct)
  case (1 c r)
  show ?case
  proof (cases "drain_step c r")
    case (Stop r' evs)
    then show ?thesis
      using drain_step_stop [OF Stop "1.prems", of b] drain_Stop [of c "more b r"] drain_Stop [OF Stop]
      by (auto simp: derailed_def "1.prems")
  next
    case (Cont r' evs)
    have ih: "(derailed (drain c r') \<and> derailed (drain c (more b r'))) \<or>
        (\<not> derailed (drain c r') \<and> drain c (more b r') =
          (fst (drain c (more b (fst (drain c r')))), snd (drain c r') @ snd (drain c (more b (fst (drain c r'))))))"
      using "1.IH" [OF Cont] Cont_not_thrown [OF Cont] "1.prems" by simp
    have 2: "drain c (more b r) = (fst (drain c (more b r')), evs @ snd (drain c (more b r')))"
      by (rule drain_Cont [OF drain_step_extend [OF Cont]])
    show ?thesis
      using ih Cont_not_thrown [OF Cont] unfolding drain_Cont [OF Cont] 2 by (auto simp: derailed_def)
  qed
qed

lemma push_append:
  assumes "\<not> isLegacy r" "\<not> derailed (push c r (a @ b))"
  shows "\<not> derailed (push c r a) \<and>
    push c r (a @ b) = (fst (push c (fst (push c r a)) b), snd (push c r a) @ snd (push c (fst (push c r a)) b))"
proof -
  have p: "push c q x = drain c (more x q)" for q x by (simp add: push_def more_def)
  show ?thesis
    using drain_extend [of "more a r" c b] assms by (auto simp: p more_more)
qed

lemma push_all_concat:
  assumes "chs \<noteq> []" "\<not> isLegacy r" "\<not> derailed (push c r (concat chs))"
  shows "push_all c r chs = push c r (concat chs)"
  using assms
proof (induction chs arbitrary: r rule: list_nonempty_induct)
  case (single ch)
  then show ?case by (simp add: split_def Let_def)
next
  case (cons ch chs)
  have nd: "\<not> derailed (push c r ch)"
    and eq: "push c r (ch @ concat chs) = (fst (push c (fst (push c r ch)) (concat chs)),
        snd (push c r ch) @ snd (push c (fst (push c r ch)) (concat chs)))"
    using push_append [of r c ch "concat chs"] cons.prems by auto
  have "push_all c (fst (push c r ch)) chs = push c (fst (push c r ch)) (concat chs)"
    using cons.IH nd eq cons.prems by (auto simp: derailed_def)
  then show ?case using eq by (simp add: split_def Let_def)
qed

section \<open>Lemmas: reading back what was written\<close>

text \<open>A reader between messages.\<close>

definition idle :: "byte list \<Rightarrow> nat \<Rightarrow> 'e reader" where
  "idle buf n = \<lparr>buffer = buf, state = Detect, pendingLength = n, pendingEnvelope = None,
     expectBinary = False, isLegacy = False\<rparr>"

lemma writeFrame_Some: "writeFrame d = Some f \<longleftrightarrow> length d < 2 ^ 32 \<and> f = u32be (length d) @ d"
  by (auto simp: writeFrame_def)

text \<open>A frame that starts in \<open>ReadLength\<close> is read whole.\<close>

lemma drain_frame:
  assumes "length d < 2 ^ 32" "state r = ReadLength" "buffer r = u32be (length d) @ d @ rest"
  shows "drain_step c r = Cont (r\<lparr>pendingLength := length d, buffer := d @ rest,
      state := (if expectBinary r then ReadBinary else ReadPayload)\<rparr>) []"
  using assms readUInt32BE_u32be [OF assms(1), of "d @ rest"] by (simp add: drain_step_def)

lemma drain_detect:
  assumes "length d < 2 ^ 32" "length d div 2 ^ 24 \<noteq> 0x7B" "state r = Detect"
    and "buffer r = u32be (length d) @ rest"
  shows "drain_step c r = Cont (r\<lparr>state := ReadLength\<rparr>) []"
proof -
  have "u32be (length d) \<noteq> []" by (simp add: u32be_def)
  then show ?thesis using assms u32be_legacy [OF assms(1,2), of rest] by (simp add: drain_step_def)
qed

text \<open>An envelope is read up to the point where its headers decide.\<close>

definition at_payload :: "byte list \<Rightarrow> byte list \<Rightarrow> 'e reader" where
  "at_payload j rest = (idle (j @ rest) (length j))\<lparr>state := ReadPayload\<rparr>"

lemma drain_envelope:
  assumes ok: "envelope_ok c e" and f: "writeFrame (stringify c e) = Some f"
  shows "drain c (idle (f @ rest) n) = drain c (at_payload (stringify c e) rest)"
proof -
  let ?j = "stringify c e"
  have len: "length ?j < 2 ^ 32" and fe: "f = u32be (length ?j) @ ?j" using f by (auto simp: writeFrame_Some)
  have 1: "drain_step c (idle (f @ rest) n) = Cont ((idle (f @ rest) n)\<lparr>state := ReadLength\<rparr>) []"
    using ok by (intro drain_detect [OF len, where rest = "?j @ rest"]) (simp_all add: envelope_ok_def idle_def fe)
  have 2: "drain_step c ((idle (f @ rest) n)\<lparr>state := ReadLength\<rparr>) = Cont (at_payload ?j rest) []"
    by (subst drain_frame [OF len, where rest = rest]) (simp_all add: idle_def fe at_payload_def)
  show ?thesis using drain_Cont [OF 1] drain_Cont [OF 2] by simp
qed

lemmas payload_simps = drain_step_def read_envelope_def envelope_ok_def at_payload_def idle_def Let_def

lemma drain_plain:
  assumes "sendable c (Plain e)" "wire c (Plain e) = Some w"
  shows "drain c (idle (w @ rest) n) =
    (fst (drain c (idle rest (length (stringify c e)))),
     OnMessage e None # snd (drain c (idle rest (length (stringify c e)))))"
proof -
  have f: "writeFrame (stringify c e) = Some w"
    using assms(2) by (auto simp: writeMessage_def split: option.splits)
  have "drain_step c (at_payload (stringify c e) rest) = Cont (idle rest (length (stringify c e))) [OnMessage e None]"
    using assms(1) by (simp add: payload_simps)
  from drain_Cont [OF this] show ?thesis using drain_envelope [OF _ f, of rest n] assms(1) by simp
qed

lemma drain_binary:
  assumes "sendable c (WithBinary e b)" "wire c (WithBinary e b) = Some w"
  shows "drain c (idle (w @ rest) n) =
    (fst (drain c (idle rest (length b))), OnMessage e (Some b) # snd (drain c (idle rest (length b))))"
proof -
  obtain f g where f: "writeFrame (stringify c e) = Some f" and g: "writeFrame b = Some g" and w: "w = f @ g"
    using assms(2) by (auto simp: writeMessage_def split: option.splits)
  have gl: "length b < 2 ^ 32" "g = u32be (length b) @ b" using g by (auto simp: writeFrame_Some)
  let ?k = "length (stringify c e)"
  let ?r2 = "(idle (g @ rest) ?k)\<lparr>pendingEnvelope := Some e, expectBinary := True, state := ReadLength\<rparr> :: 'a reader"
  let ?r3 = "(idle (b @ rest) (length b))\<lparr>pendingEnvelope := Some e, expectBinary := True, state := ReadBinary\<rparr> :: 'a reader"
  have 1: "drain_step c (at_payload (stringify c e) (g @ rest)) = Cont ?r2 []"
    using assms(1) by (simp add: payload_simps)
  have 2: "drain_step c ?r2 = Cont ?r3 []"
    using drain_frame [OF gl(1), of ?r2 rest c] by (simp add: idle_def gl(2))
  have 3: "drain_step c ?r3 = Cont (idle rest (length b)) [OnMessage e (Some b)]"
    by (simp add: drain_step_def idle_def)
  show ?thesis
    using drain_envelope [OF _ f, of "g @ rest" n] assms(1) drain_Cont [OF 1] drain_Cont [OF 2] drain_Cont [OF 3]
    by (simp add: w)
qed

text \<open>Inside a stream.\<close>

definition in_stream :: "'e \<Rightarrow> byte list \<Rightarrow> nat \<Rightarrow> 'e reader" where
  "in_stream e buf n = (idle buf n)\<lparr>pendingEnvelope := Some e, state := ReadStreamChunkLength\<rparr>"

lemma drain_stream:
  assumes "[] \<notin> set chs" "all_written (map writeStreamChunk chs @ [Some writeStreamEnd]) = Some w"
  shows "drain c (in_stream e (w @ rest) n) =
    (fst (drain c (idle rest 0)), map OnStreamChunk chs @ OnStreamEnd # snd (drain c (idle rest 0)))"
  using assms
proof (induction chs arbitrary: w n)
  case Nil
  then have "w = [0, 0, 0, 0]" by (simp add: writeStreamEnd_def)
  then have "drain_step c (in_stream e (w @ rest) n) = Cont (idle rest 0) [OnStreamEnd]"
    by (simp add: drain_step_def in_stream_def idle_def Let_def)
  from drain_Cont [OF this] show ?case by simp
next
  case (Cons ch chs)
  obtain w1 w2 where "writeStreamChunk ch = Some w1" and w: "w = w1 @ w2"
    and w2: "all_written (map writeStreamChunk chs @ [Some writeStreamEnd]) = Some w2"
    using Cons.prems(2) by (auto split: option.splits)
  then have w1: "writeFrame ch = Some w1" by (simp add: writeStreamChunk_def)
  have ch: "length ch < 2 ^ 32" "w1 = u32be (length ch) @ ch" "ch \<noteq> []"
    using w1 Cons.prems(1) by (auto simp: writeFrame_Some)
  let ?r1 = "(in_stream e (ch @ w2 @ rest) (length ch))\<lparr>state := ReadStreamChunk\<rparr> :: 'a reader"
  have 1: "drain_step c (in_stream e (w @ rest) n) = Cont ?r1 []"
    using readUInt32BE_u32be [OF ch(1), of "ch @ w2 @ rest"] ch
    by (simp add: drain_step_def in_stream_def idle_def Let_def w)
  have 2: "drain_step c ?r1 = Cont (in_stream e (w2 @ rest) (length ch)) [OnStreamChunk ch]"
    by (simp add: drain_step_def in_stream_def idle_def)
  show ?case using drain_Cont [OF 1] drain_Cont [OF 2] Cons.IH [OF _ w2, of "length ch"] Cons.prems(1) by simp
qed

lemma drain_streamed:
  assumes "sendable c (Streamed e chs)" "wire c (Streamed e chs) = Some w"
  shows "drain c (idle (w @ rest) n) =
    (fst (drain c (idle rest 0)), wire_events (Streamed e chs) @ snd (drain c (idle rest 0)))"
proof -
  obtain f g where f: "writeFrame (stringify c e) = Some f" and w: "w = f @ g"
    and g: "all_written (map writeStreamChunk chs @ [Some writeStreamEnd]) = Some g"
    using assms(2) by (auto simp: writeMessage_def split: option.splits)
  let ?k = "length (stringify c e)"
  have 1: "drain_step c (at_payload (stringify c e) (g @ rest)) = Cont (in_stream e (g @ rest) ?k) [OnStreamStart e]"
    using assms(1) by (simp add: payload_simps in_stream_def)
  show ?thesis using drain_envelope [OF _ f, of "g @ rest" n] assms(1) drain_Cont [OF 1] drain_stream [OF _ g, of c e rest ?k] by (simp add: w)
qed

lemma drain_wire:
  assumes "sendable c m" "wire c m = Some w"
  shows "\<exists>k. drain c (idle (w @ rest) n) = (fst (drain c (idle rest k)), wire_events m @ snd (drain c (idle rest k)))"
proof (cases m)
  case (Plain e)
  then show ?thesis using drain_plain [of c e w rest n] assms by (intro exI) simp
next
  case (WithBinary e b)
  then show ?thesis using drain_binary [of c e b w rest n] assms by (intro exI) simp
next
  case (Streamed e chs)
  then show ?thesis using drain_streamed [of c e chs w rest n] assms by blast
qed

lemma drain_wires:
  assumes "list_all (sendable c) ms" "all_written (map (wire c) ms) = Some bytes"
  shows "\<exists>k. drain c (idle bytes n) = (idle [] k, concat (map wire_events ms))"
  using assms
proof (induction ms arbitrary: bytes n)
  case Nil
  then show ?case by (auto simp: drain.simps drain_step_def idle_def)
next
  case (Cons m ms)
  obtain w rest where w: "wire c m = Some w" and rest: "all_written (map (wire c) ms) = Some rest"
    and b: "bytes = w @ rest"
    using Cons.prems(2) by (auto split: option.splits)
  obtain k where "drain c (idle bytes n) = (fst (drain c (idle rest k)), wire_events m @ snd (drain c (idle rest k)))"
    using drain_wire [OF _ w, of rest n] Cons.prems(1) b by auto
  moreover obtain k' where "drain c (idle rest k) = (idle [] k', concat (map wire_events ms))"
    using Cons.IH [OF _ rest, of k] Cons.prems(1) by auto
  ultimately show ?case by auto
qed

lemma idle_fresh: "fresh_reader = idle [] 0"
  by (simp add: fresh_reader_def idle_def)

section \<open>Properties\<close>

text \<open>C30: Whatever a conforming sender writes, the reader delivers: any sequence of plain,
  binary and streamed messages, cut into socket chunks in any way, produces exactly their
  events in order, and leaves the reader between messages with an empty buffer.\<close>

theorem framing_roundtrip:
  assumes "list_all (sendable c) ms" and "all_written (map (wire c) ms) = Some (concat chs)" and "chs \<noteq> []"
  shows "\<exists>k. push_all c fresh_reader chs = (idle [] k, concat (map wire_events ms))"
proof -
  obtain k where k: "drain c (idle (concat chs) 0) = (idle [] k, concat (map wire_events ms))"
    using drain_wires [OF assms(1,2)] by blast
  have p: "push c fresh_reader (concat chs) = drain c (idle (concat chs) 0)"
    by (simp add: push_def idle_fresh idle_def)
  have "Thrown \<notin> set (concat (map wire_events ms))"
  proof -
    have "Thrown \<notin> set (wire_events m)" for m :: "'a wire_msg" by (cases m) auto
    then show ?thesis by auto
  qed
  then have "\<not> derailed (push c fresh_reader (concat chs))"
    using k by (simp add: p derailed_def) (simp add: idle_def)
  then have "push_all c fresh_reader chs = push c fresh_reader (concat chs)"
    using assms(3) by (intro push_all_concat) (simp_all add: idle_fresh idle_def)
  then show ?thesis using k p by auto
qed

text \<open>A codec for tests: an envelope is an ASCII string whose first letter tells its headers.\<close>

definition ascii_codec :: "string codec" where
  "ascii_codec =
     \<lparr>decode = map (\<lambda>b. char_of (unat b)),
      parse = (\<lambda>s. case s of [] \<Rightarrow> None | x # _ \<Rightarrow> if x = CHR ''!'' then None else Some s),
      header = (\<lambda>e k. if k = ''content-length'' \<and> starts_with e ''B'' then Some ''n''
                      else if k = ''transfer-encoding'' \<and> starts_with e ''S'' then Some ''chunked'' else None),
      is_null = (\<lambda>e. e = ''null''),
      stringify = map (\<lambda>x. word_of_nat (of_char x))\<rparr>"

theorem framing_roundtrip_witness:
  "\<exists>k. push_all ascii_codec fresh_reader
     [[0, 0, 0, 1, 80, 0], [0, 0, 1, 66, 0, 0, 0, 2, 7], [8, 0, 0, 0, 1, 83, 0, 0, 0], [1, 9, 0, 0, 0, 0]] =
     (idle [] k, [OnMessage ''P'' None, OnMessage ''B'' (Some [7, 8]), OnStreamStart ''S'', OnStreamChunk [9], OnStreamEnd])"
proof -
  let ?ms = "[Plain ''P'', WithBinary ''B'' [7, 8], Streamed ''S'' [[9]]]"
  let ?chs = "[[0, 0, 0, 1, 80, 0], [0, 0, 1, 66, 0, 0, 0, 2, 7], [8, 0, 0, 0, 1, 83, 0, 0, 0], [1, 9, 0, 0, 0, 0]] :: byte list list"
  have "list_all (sendable ascii_codec) ?ms"
    by (simp add: ascii_codec_def envelope_ok_def starts_with_def char_of_def bit_0)
  moreover have "all_written (map (wire ascii_codec) ?ms) = Some (concat ?chs)"
    by (simp add: ascii_codec_def writeMessage_def writeFrame_def writeStreamChunk_def writeStreamEnd_def u32be_def)
  ultimately show ?thesis using framing_roundtrip [of ascii_codec ?ms ?chs] by simp
qed

text \<open>Legacy mode is not kept for the connection, although the comment on
  \<^verbatim>\<open>drainLegacy\<close> says so: after a first legacy line, a second line that arrives in its own
  chunk with a leading space is read as a length prefix and lost, while the same bytes in one
  chunk are both delivered.\<close>

theorem legacy_mode_not_kept:
  "snd (push_all ascii_codec fresh_reader [[0x7B, 0x7D, 0x0A, 0x20, 0x7B, 0x7D, 0x0A]]) =
     [OnMessage [CHR 0x7B, CHR 0x7D] None, OnMessage [CHR 0x7B, CHR 0x7D] None] \<and>
   snd (push_all ascii_codec fresh_reader [[0x7B, 0x7D, 0x0A], [0x20, 0x7B, 0x7D, 0x0A]]) =
     [OnMessage [CHR 0x7B, CHR 0x7D] None] \<and>
   isLegacy (fst (push_all ascii_codec fresh_reader [[0x7B, 0x7D, 0x0A], [0x20, 0x7B, 0x7D, 0x0A]]))"
  by (simp add: push_def fresh_reader_def drain.simps drain_step_def drainLegacy_def legacy_lines_def legacy_line_def
      ascii_codec_def js_trim_def is_space_def char_of_def bit_0 Let_def)

end
