(* ===== verification/Line_Diff.thy ===== *)
theory Line_Diff
  imports Prelude
begin

text \<open>
  The line diff (\<^verbatim>\<open>assistant/src/util/diff.ts\<close>): the longest-common-subsequence table,
  the walk back through it, the grouping of changes into hunks and the printed forms.
\<close>

section \<open>The table and the walk\<close>

datatype 'a diff_entry = Same 'a | Add 'a | Remove 'a

text \<open>Row \<open>i\<close> of the table from row \<open>i - 1\<close>: \<open>prev\<close> starts at the cell up and left of the
  one to fill, \<open>left\<close> is the cell before it.\<close>

fun dp_cells :: "'a \<Rightarrow> 'a list \<Rightarrow> nat list \<Rightarrow> nat \<Rightarrow> nat list" where
  "dp_cells x (y # ys) (d # u # us) left =
     (let v = (if x = y then d + 1 else max u left) in v # dp_cells x ys (u # us) v)"
| "dp_cells x _ _ left = []"

fun dp_rows :: "'a list \<Rightarrow> 'a list \<Rightarrow> nat list \<Rightarrow> nat list list" where
  "dp_rows [] new row = [row]"
| "dp_rows (x # old) new row = row # dp_rows old new (0 # dp_cells x new row 0)"

definition dp_table :: "'a list \<Rightarrow> 'a list \<Rightarrow> nat list list" where
  "dp_table old new = dp_rows old new (replicate (length new + 1) 0)"

fun walk :: "nat list list \<Rightarrow> 'a list \<Rightarrow> 'a list \<Rightarrow> nat \<Rightarrow> nat \<Rightarrow> 'a diff_entry list \<Rightarrow> 'a diff_entry list" where
  "walk dp old new i j acc =
     (if i > 0 \<and> j > 0 \<and> old ! (i - 1) = new ! (j - 1)
      then walk dp old new (i - 1) (j - 1) (Same (old ! (i - 1)) # acc)
      else if j > 0 \<and> (i = 0 \<or> dp ! i ! (j - 1) \<ge> dp ! (i - 1) ! j)
      then walk dp old new i (j - 1) (Add (new ! (j - 1)) # acc)
      else if i > 0
      then walk dp old new (i - 1) j (Remove (old ! (i - 1)) # acc)
      else acc)"

declare walk.simps [simp del]

definition computeLineDiff :: "'a list \<Rightarrow> 'a list \<Rightarrow> 'a diff_entry list" where
  "computeLineDiff old new = walk (dp_table old new) old new (length old) (length new) []"

section \<open>Hunks\<close>

definition CONTEXT_LINES :: nat where
  "CONTEXT_LINES = 3"

definition DEFAULT_MAX_EXACT_DIFF_LINES :: nat where
  "DEFAULT_MAX_EXACT_DIFF_LINES = 1000"

record 'a hunk =
  oldStart :: nat
  oldCount :: nat
  newStart :: nat
  newCount :: nat
  hunk_lines :: "'a diff_entry list"

fun is_same :: "'a diff_entry \<Rightarrow> bool" where
  "is_same (Same _) = True"
| "is_same _ = False"

definition extend_ranges :: "(nat \<times> nat) list \<Rightarrow> nat \<Rightarrow> (nat \<times> nat) list" where
  "extend_ranges rs i =
     (if rs \<noteq> [] \<and> i - snd (last rs) \<le> CONTEXT_LINES * 2
      then butlast rs @ [(fst (last rs), i + 1)]
      else rs @ [(i, i + 1)])"

fun change_ranges :: "nat \<Rightarrow> 'a diff_entry list \<Rightarrow> (nat \<times> nat) list \<Rightarrow> (nat \<times> nat) list" where
  "change_ranges i [] rs = rs"
| "change_ranges i (e # es) rs = change_ranges (Suc i) es (if is_same e then rs else extend_ranges rs i)"

text \<open>Lines an entry list takes from the old and the new text.\<close>

fun old_lines :: "'a diff_entry list \<Rightarrow> 'a list" where
  "old_lines [] = []"
| "old_lines (Same l # es) = l # old_lines es"
| "old_lines (Remove l # es) = l # old_lines es"
| "old_lines (Add l # es) = old_lines es"

fun new_lines :: "'a diff_entry list \<Rightarrow> 'a list" where
  "new_lines [] = []"
| "new_lines (Same l # es) = l # new_lines es"
| "new_lines (Remove l # es) = new_lines es"
| "new_lines (Add l # es) = l # new_lines es"

definition context_start :: "nat \<times> nat \<Rightarrow> nat" where
  "context_start r = fst r - CONTEXT_LINES"

definition context_end :: "'a diff_entry list \<Rightarrow> nat \<times> nat \<Rightarrow> nat" where
  "context_end es r = min (length es) (snd r + CONTEXT_LINES)"

definition slice :: "nat \<Rightarrow> nat \<Rightarrow> 'a list \<Rightarrow> 'a list" where
  "slice a b xs = take (b - a) (drop a xs)"

definition make_hunk :: "'a diff_entry list \<Rightarrow> nat \<times> nat \<Rightarrow> 'a hunk" where
  "make_hunk es r =
     (let a = context_start r; b = context_end es r; ls = slice a b es in
      \<lparr>oldStart = 1 + length (old_lines (take a es)), oldCount = length (old_lines ls),
       newStart = 1 + length (new_lines (take a es)), newCount = length (new_lines ls), hunk_lines = ls\<rparr>)"

definition buildHunks :: "'a diff_entry list \<Rightarrow> 'a hunk list" where
  "buildHunks es = map (make_hunk es) (change_ranges 0 es [])"

section \<open>Printing\<close>

definition RED :: string where "RED = CHR 0x1B # ''[31m''"
definition GREEN :: string where "GREEN = CHR 0x1B # ''[32m''"
definition CYAN :: string where "CYAN = CHR 0x1B # ''[36m''"
definition DIM :: string where "DIM = CHR 0x1B # ''[2m''"
definition RESET :: string where "RESET = CHR 0x1B # ''[0m''"
definition NL :: string where "NL = [CHR 0x0A]"

definition red_line :: "string \<Rightarrow> string" where
  "red_line l = RED @ ''-'' @ l @ RESET @ NL"

definition green_line :: "string \<Rightarrow> string" where
  "green_line l = GREEN @ ''+'' @ l @ RESET @ NL"

definition file_header :: "string \<Rightarrow> string" where
  "file_header path = DIM @ ''--- a/'' @ path @ RESET @ NL @ DIM @ ''+++ b/'' @ path @ RESET @ NL"

definition formatLargeDiffFallback :: "string list \<Rightarrow> string list \<Rightarrow> string \<Rightarrow> string" where
  "formatLargeDiffFallback old new path =
     file_header path @ CYAN @ ''@@ -1,'' @ nat_to_string (length old) @ '' +1,'' @ nat_to_string (length new) @
       '' @@'' @ RESET @ NL @ concat (map red_line old) @ concat (map green_line new)"

fun format_entry :: "string diff_entry \<Rightarrow> string" where
  "format_entry (Same l) = '' '' @ l @ NL"
| "format_entry (Remove l) = red_line l"
| "format_entry (Add l) = green_line l"

definition format_hunk :: "string hunk \<Rightarrow> string" where
  "format_hunk h =
     CYAN @ ''@@ -'' @ nat_to_string (oldStart h) @ '','' @ nat_to_string (oldCount h) @ '' +'' @
       nat_to_string (newStart h) @ '','' @ nat_to_string (newCount h) @ '' @@'' @ RESET @ NL @
     concat (map format_entry (hunk_lines h))"

definition formatDiff :: "string \<Rightarrow> string \<Rightarrow> string \<Rightarrow> nat option \<Rightarrow> string" where
  "formatDiff oldContent newContent path maxExact =
     (if oldContent = newContent then []
      else
        let old = split_on (CHR 0x0A) oldContent; new = split_on (CHR 0x0A) newContent;
            maxLines = (case maxExact of Some n \<Rightarrow> n | None \<Rightarrow> DEFAULT_MAX_EXACT_DIFF_LINES)
        in if length old > maxLines \<or> length new > maxLines then formatLargeDiffFallback old new path
           else let hunks = buildHunks (computeLineDiff old new) in
             if hunks = [] then [] else file_header path @ concat (map format_hunk hunks))"

text \<open>The limit is an integer or absent; a negative one counts as zero.\<close>

definition formatNewFileDiff :: "string \<Rightarrow> string \<Rightarrow> int option \<Rightarrow> string" where
  "formatNewFileDiff body path maxLines =
     (let ls = split_on (CHR 0x0A) body;
          bound = (case maxLines of Some k \<Rightarrow> nat (max 0 k) | None \<Rightarrow> length ls);
          truncated = length ls > bound;
          display = (if truncated then take bound ls else ls)
      in DIM @ ''--- /dev/null'' @ RESET @ NL @ DIM @ ''+++ b/'' @ path @ RESET @ NL @
         CYAN @ ''@@ -0,0 +1,'' @ nat_to_string (length ls) @ '' @@'' @ RESET @ NL @
         concat (map green_line display) @
         (if truncated then DIM @ ''... '' @ nat_to_string (length ls - bound) @ '' more lines'' @ RESET @ NL else []))"

section \<open>Lemmas: the table\<close>

text \<open>Reference: the length of a longest common subsequence of two prefixes.\<close>

fun lcs :: "'a list \<Rightarrow> 'a list \<Rightarrow> nat \<Rightarrow> nat \<Rightarrow> nat" where
  "lcs old new 0 j = 0"
| "lcs old new (Suc i) 0 = 0"
| "lcs old new (Suc i) (Suc j) =
     (if old ! i = new ! j then lcs old new i j + 1 else max (lcs old new i (Suc j)) (lcs old new (Suc i) j))"

lemma lcs_0 [simp]: "lcs old new i 0 = 0"
  by (cases i) auto

lemma dp_cells_lcs:
  assumes "j \<le> length new"
  shows "dp_cells (old ! i) (drop j new) (map (lcs old new i) [j..<Suc (length new)]) (lcs old new (Suc i) j) =
    map (lcs old new (Suc i)) [Suc j..<Suc (length new)]"
  using assms
proof (induction "length new - j" arbitrary: j)
  case 0
  then show ?case by simp
next
  case (Suc k)
  then have j: "j < length new" by simp
  have d: "drop j new = new ! j # drop (Suc j) new" using j by (simp add: Cons_nth_drop_Suc)
  have u: "[j..<Suc (length new)] = j # Suc j # [Suc (Suc j)..<Suc (length new)]"
    "[Suc j..<Suc (length new)] = Suc j # [Suc (Suc j)..<Suc (length new)]"
    using j by (simp_all add: upt_conv_Cons)
  have ih: "dp_cells (old ! i) (drop (Suc j) new) (map (lcs old new i) [Suc j..<Suc (length new)])
      (lcs old new (Suc i) (Suc j)) = map (lcs old new (Suc i)) [Suc (Suc j)..<Suc (length new)]"
    using Suc j by (intro Suc.hyps) auto
  show ?case unfolding d u list.map dp_cells.simps Let_def
    using ih unfolding u list.map by simp
qed

lemma dp_rows_lcs:
  assumes "i \<le> length old"
  shows "dp_rows (drop i old) new (map (lcs old new i) [0..<Suc (length new)]) =
    map (\<lambda>i. map (lcs old new i) [0..<Suc (length new)]) [i..<Suc (length old)]"
  using assms
proof (induction "length old - i" arbitrary: i)
  case 0
  then show ?case by simp
next
  case (Suc k)
  then have i: "i < length old" by simp
  have d: "drop i old = old ! i # drop (Suc i) old" using i by (simp add: Cons_nth_drop_Suc)
  have row: "0 # dp_cells (old ! i) new (map (lcs old new i) [0..<Suc (length new)]) 0 =
      map (lcs old new (Suc i)) [0..<Suc (length new)]"
    using dp_cells_lcs [of 0 new old i] by (simp add: upt_conv_Cons del: upt_Suc)
  have "[i..<Suc (length old)] = i # [Suc i..<Suc (length old)]" using i by (simp add: upt_conv_Cons)
  then show ?case unfolding d dp_rows.simps row using Suc.hyps(1) [of "Suc i"] Suc.hyps(2) i by simp
qed

lemma dp_table_lcs:
  assumes "i \<le> length old" "j \<le> length new"
  shows "dp_table old new ! i ! j = lcs old new i j"
proof -
  have "replicate (length new + 1) 0 = map (lcs old new 0) [0..<Suc (length new)]"
    by (rule nth_equalityI) (simp_all del: upt_Suc replicate_Suc)
  then have "dp_table old new = map (\<lambda>i. map (lcs old new i) [0..<Suc (length new)]) [0..<Suc (length old)]"
    using dp_rows_lcs [of 0 old new] by (simp add: dp_table_def del: upt_Suc)
  then show ?thesis using assms by (simp del: upt_Suc)
qed

section \<open>Lemmas: the walk\<close>

fun same_count :: "'a diff_entry list \<Rightarrow> nat" where
  "same_count [] = 0"
| "same_count (e # es) = (if is_same e then 1 else 0) + same_count es"

lemma lines_append [simp]:
  "old_lines (xs @ ys) = old_lines xs @ old_lines ys" "new_lines (xs @ ys) = new_lines xs @ new_lines ys"
  "same_count (xs @ ys) = same_count xs + same_count ys"
  by (induction xs rule: old_lines.induct) auto

lemma take_last: "0 < i \<Longrightarrow> i \<le> length xs \<Longrightarrow> take i xs = take (i - 1) xs @ [xs ! (i - 1)]"
  by (cases i) (auto simp: take_Suc_conv_app_nth)

text \<open>The walk puts in front of \<open>acc\<close> a script that turns one prefix into the other and keeps
  as many lines as the table says.\<close>

lemma walk_spec:
  assumes "i \<le> length old" "j \<le> length new"
  shows "\<exists>es. walk (dp_table old new) old new i j acc = es @ acc \<and>
    old_lines es = take i old \<and> new_lines es = take j new \<and> same_count es = lcs old new i j"
  using assms
proof (induction "i + j" arbitrary: i j acc rule: less_induct)
  case less
  note w = walk.simps [of "dp_table old new" old new i j acc]
  consider (ended) "i = 0" "j = 0"
    | (same) "0 < i" "0 < j" "old ! (i - 1) = new ! (j - 1)"
    | (add) "0 < j" "i = 0 \<or> (old ! (i - 1) \<noteq> new ! (j - 1) \<and> lcs old new (i - 1) j \<le> lcs old new i (j - 1))"
    | (remove) "0 < i" "j = 0 \<or> (old ! (i - 1) \<noteq> new ! (j - 1) \<and> lcs old new i (j - 1) < lcs old new (i - 1) j)"
    by (metis gr0I not_le)
  then show ?case
  proof cases
    case ended
    then show ?thesis using w by simp
  next
    case same
    then have lt: "i - 1 + (j - 1) < i + j" "i - 1 \<le> length old" "j - 1 \<le> length new" using less.prems by auto
    obtain es where es: "walk (dp_table old new) old new (i - 1) (j - 1) (Same (old ! (i - 1)) # acc) = es @ Same (old ! (i - 1)) # acc"
      "old_lines es = take (i - 1) old" "new_lines es = take (j - 1) new" "same_count es = lcs old new (i - 1) (j - 1)"
      using less.hyps [of "i - 1" "j - 1" "Same (old ! (i - 1)) # acc", OF lt] by blast
    have "lcs old new i j = lcs old new (i - 1) (j - 1) + 1" using same by (cases i; cases j) auto
    then show ?thesis using es same w less.prems take_last [of i old] take_last [of j new]
      by (intro exI [of _ "es @ [Same (old ! (i - 1))]"]) simp
  next
    case add
    then have cond: "\<not> (i > 0 \<and> j > 0 \<and> old ! (i - 1) = new ! (j - 1))"
      "j > 0 \<and> (i = 0 \<or> dp_table old new ! i ! (j - 1) \<ge> dp_table old new ! (i - 1) ! j)"
      using less.prems by (auto simp: dp_table_lcs)
    have lt: "i + (j - 1) < i + j" "i \<le> length old" "j - 1 \<le> length new" using add less.prems by auto
    obtain es where es: "walk (dp_table old new) old new i (j - 1) (Add (new ! (j - 1)) # acc) = es @ Add (new ! (j - 1)) # acc"
      "old_lines es = take i old" "new_lines es = take (j - 1) new" "same_count es = lcs old new i (j - 1)"
      using less.hyps [of i "j - 1" "Add (new ! (j - 1)) # acc", OF lt] by blast
    have "lcs old new i j = lcs old new i (j - 1)" using add by (cases i; cases j) auto
    then show ?thesis using es w cond less.prems take_last [of j new]
      by (intro exI [of _ "es @ [Add (new ! (j - 1))]"]) (simp only: if_False if_True, simp)
  next
    case remove
    then have cond: "\<not> (i > 0 \<and> j > 0 \<and> old ! (i - 1) = new ! (j - 1))"
      "\<not> (j > 0 \<and> (i = 0 \<or> dp_table old new ! i ! (j - 1) \<ge> dp_table old new ! (i - 1) ! j))"
      using less.prems by (auto simp: dp_table_lcs)
    have lt: "i - 1 + j < i + j" "i - 1 \<le> length old" "j \<le> length new" using remove less.prems by auto
    obtain es where es: "walk (dp_table old new) old new (i - 1) j (Remove (old ! (i - 1)) # acc) = es @ Remove (old ! (i - 1)) # acc"
      "old_lines es = take (i - 1) old" "new_lines es = take j new" "same_count es = lcs old new (i - 1) j"
      using less.hyps [of "i - 1" j "Remove (old ! (i - 1)) # acc", OF lt] by blast
    have "lcs old new i j = lcs old new (i - 1) j" using remove by (cases i; cases j) auto
    then show ?thesis using es w cond remove(1) less.prems take_last [of i old]
      by (intro exI [of _ "es @ [Remove (old ! (i - 1))]"]) (simp only: if_False if_True, simp)
  qed
qed

text \<open>No common subsequence is longer.\<close>

lemma subseq_snocE:
  assumes "subseq zs (as @ [x])"
  shows "subseq zs as \<or> (\<exists>ys. zs = ys @ [x] \<and> subseq ys as)"
proof -
  obtain us vs where "zs = us @ vs" "subseq us as" "subseq vs [x]" using assms by (rule subseq_appendE)
  moreover from this have "vs = [] \<or> vs = [x]" by (cases vs) (auto split: if_splits)
  ultimately show ?thesis by auto
qed

lemma subseq_butlast: "subseq (ys @ [z]) xs \<Longrightarrow> subseq ys xs"
  by (rule subseq_order.order_trans [of _ "ys @ [z]"]) auto

lemma lcs_upper:
  assumes "i \<le> length old" "j \<le> length new" "subseq zs (take i old)" "subseq zs (take j new)"
  shows "length zs \<le> lcs old new i j"
  using assms
proof (induction old new i j arbitrary: zs rule: lcs.induct)
  case (3 old new i j)
  have as: "take (Suc i) old = take i old @ [old ! i]" and bs: "take (Suc j) new = take j new @ [new ! j]"
    using "3.prems"(1,2) by (simp_all add: take_Suc_conv_app_nth)
  from subseq_snocE [of zs "take i old" "old ! i"] "3.prems"(3)
  have o: "subseq zs (take i old) \<or> (\<exists>ys. zs = ys @ [old ! i] \<and> subseq ys (take i old))" by (simp only: as)
  from subseq_snocE [of zs "take j new" "new ! j"] "3.prems"(4)
  have n: "subseq zs (take j new) \<or> (\<exists>ys. zs = ys @ [new ! j] \<and> subseq ys (take j new))" by (simp only: bs)
  show ?case
  proof (cases "old ! i = new ! j")
    case True
    have ih: "length ys \<le> lcs old new i j" if "subseq ys (take i old)" "subseq ys (take j new)" for ys
      using "3.IH"(1) [OF True, of ys] "3.prems"(1,2) that by simp
    have "length zs \<le> lcs old new i j + 1"
    proof (cases zs rule: rev_cases)
      case (snoc ys z)
      then have "subseq ys (take i old)" "subseq ys (take j new)" using o n subseq_butlast by auto
      then show ?thesis using ih [of ys] snoc by simp
    qed simp
    then show ?thesis using True by simp
  next
    case False
    then have "subseq zs (take i old) \<or> subseq zs (take j new)" using o n by auto
    then show ?thesis
    proof
      assume "subseq zs (take i old)"
      then show ?thesis using "3.IH"(2) [OF False, of zs] "3.prems" False by simp
    next
      assume "subseq zs (take j new)"
      then show ?thesis using "3.IH"(3) [OF False, of zs] "3.prems" False by simp
    qed
  qed
qed simp_all

section \<open>Lemmas: the hunks\<close>

text \<open>The change ranges after \<open>k\<close> entries: in order, more than twice the context apart, and
  covering every change so far.\<close>

definition ranges_ok :: "'a diff_entry list \<Rightarrow> nat \<Rightarrow> (nat \<times> nat) list \<Rightarrow> bool" where
  "ranges_ok es k rs \<longleftrightarrow>
     sorted_wrt (\<lambda>r s. snd r + CONTEXT_LINES * 2 < fst s) rs \<and> (\<forall>r \<in> set rs. fst r < snd r \<and> snd r \<le> k) \<and>
     (\<forall>p < k. \<not> is_same (es ! p) \<longrightarrow> (\<exists>r \<in> set rs. fst r \<le> p \<and> p < snd r))"

lemma ranges_ok_same: "ranges_ok es k rs \<Longrightarrow> is_same (es ! k) \<Longrightarrow> ranges_ok es (Suc k) rs"
  by (fastforce simp: ranges_ok_def less_Suc_eq)

lemma ranges_ok_extend:
  assumes ok: "ranges_ok es k rs"
  shows "ranges_ok es (Suc k) (extend_ranges rs k)"
proof (cases "rs \<noteq> [] \<and> k - snd (last rs) \<le> CONTEXT_LINES * 2")
  case True
  then obtain qs a b where rs: "rs = qs @ [(a, b)]" by (metis append_butlast_last_id surj_pair)
  have ext: "extend_ranges rs k = qs @ [(a, Suc k)]" using True by (simp add: extend_ranges_def rs)
  have "a < b" "b \<le> k" using ok by (auto simp: ranges_ok_def rs)
  moreover have "\<exists>r \<in> set (qs @ [(a, Suc k)]). fst r \<le> p \<and> p < snd r" if pk: "p < Suc k" "\<not> is_same (es ! p)" for p
  proof (cases "p = k")
    case True
    then show ?thesis using \<open>a < b\<close> \<open>b \<le> k\<close> by auto
  next
    case False
    then have "p < k" using pk by simp
    then obtain r where "r \<in> set rs" "fst r \<le> p" "p < snd r" using ok pk by (auto simp: ranges_ok_def)
    then show ?thesis using \<open>b \<le> k\<close> unfolding rs by force
  qed
  ultimately show ?thesis using ok unfolding ext by (auto simp: ranges_ok_def rs sorted_wrt_append)
next
  case False
  then have ext: "extend_ranges rs k = rs @ [(k, Suc k)]" by (auto simp: extend_ranges_def)
  have far: "snd r + CONTEXT_LINES * 2 < k" if rin: "r \<in> set rs" for r
  proof -
    obtain qs l where rs: "rs = qs @ [l]" using rin by (cases rs rule: rev_cases) auto
    have "snd l + CONTEXT_LINES * 2 < k" using False rs by auto
    moreover have "snd r \<le> snd l"
      using ok rin by (auto simp: ranges_ok_def rs sorted_wrt_append)
    ultimately show ?thesis by linarith
  qed
  have cover: "\<exists>r \<in> set (rs @ [(k, Suc k)]). fst r \<le> p \<and> p < snd r" if "p < Suc k" "\<not> is_same (es ! p)" for p
    using ok that by (cases "p = k") (auto simp: ranges_ok_def)
  show ?thesis using ok far cover unfolding ext by (auto simp: ranges_ok_def sorted_wrt_append)
qed

lemma change_ranges_ok:
  "ranges_ok es k rs \<Longrightarrow> k \<le> length es \<Longrightarrow> ranges_ok es (length es) (change_ranges k (drop k es) rs)"
proof (induction "length es - k" arbitrary: k rs)
  case 0
  then show ?case by simp
next
  case (Suc n)
  then have k: "k < length es" by simp
  then have d: "drop k es = es ! k # drop (Suc k) es" by (simp add: Cons_nth_drop_Suc)
  have "ranges_ok es (Suc k) (if is_same (es ! k) then rs else extend_ranges rs k)"
    using ranges_ok_same ranges_ok_extend Suc.prems(1) by auto
  then show ?case unfolding d change_ranges.simps using Suc k by (intro Suc.hyps(1)) auto
qed

lemma change_ranges_all: "ranges_ok es (length es) (change_ranges 0 es [])"
  using change_ranges_ok [of es 0 "[]"] by (simp add: ranges_ok_def)

lemma header_lines:
  "take (length (old_lines (slice a b es))) (drop (length (old_lines (take a es))) (old_lines es)) = old_lines (slice a b es)"
  "take (length (new_lines (slice a b es))) (drop (length (new_lines (take a es))) (new_lines es)) = new_lines (slice a b es)"
proof -
  have "es = take a es @ slice a b es @ drop (b - a) (drop a es)" by (simp only: slice_def append_take_drop_id)
  then have "old_lines es = old_lines (take a es) @ old_lines (slice a b es) @ old_lines (drop (b - a) (drop a es))"
    "new_lines es = new_lines (take a es) @ new_lines (slice a b es) @ new_lines (drop (b - a) (drop a es))"
    by (metis lines_append(1), metis lines_append(2))
  then show "take (length (old_lines (slice a b es))) (drop (length (old_lines (take a es))) (old_lines es)) = old_lines (slice a b es)"
    "take (length (new_lines (slice a b es))) (drop (length (new_lines (take a es))) (new_lines es)) = new_lines (slice a b es)"
    by simp_all
qed

section \<open>Properties\<close>

text \<open>The diff is right and minimal: its kept and removed lines are the old text, its kept
  and added lines are the new text, and no script with that property keeps more lines, since
  no common subsequence of the two texts is longer than the number of kept lines.\<close>

theorem computeLineDiff_correct:
  "old_lines (computeLineDiff old new) = old \<and> new_lines (computeLineDiff old new) = new \<and>
   (\<forall>zs. subseq zs old \<longrightarrow> subseq zs new \<longrightarrow> length zs \<le> same_count (computeLineDiff old new))"
proof -
  obtain es where es: "computeLineDiff old new = es" "old_lines es = old" "new_lines es = new"
      "same_count es = lcs old new (length old) (length new)"
    using walk_spec [of "length old" old "length new" new "[]"] by (auto simp: computeLineDiff_def)
  then show ?thesis using lcs_upper [of "length old" old "length new" new] by auto
qed

theorem computeLineDiff_correct_witness:
  "length ''ac'' \<le> same_count (computeLineDiff ''abc'' ''axc'') \<and>
   computeLineDiff ''abc'' ''axc'' = [Same CHR ''a'', Remove CHR ''b'', Add CHR ''x'', Same CHR ''c'']"
proof -
  have "subseq ''ac'' ''abc''" "subseq ''ac'' ''axc''" by simp_all
  then have "length ''ac'' \<le> same_count (computeLineDiff ''abc'' ''axc'')"
    using computeLineDiff_correct [of "''abc''" "''axc''"] by blast
  moreover have "computeLineDiff ''abc'' ''axc'' = [Same CHR ''a'', Remove CHR ''b'', Add CHR ''x'', Same CHR ''c'']"
    by code_simp
  ultimately show ?thesis by blast
qed

text \<open>Hunks tell the whole change: every changed entry lies in the slice of some hunk, the
  slices do not touch, and each header's line numbers and counts select from the old and the
  new text exactly the lines the hunk shows for them.\<close>

theorem buildHunks_correct:
  "(\<forall>p < length es. \<not> is_same (es ! p) \<longrightarrow>
      (\<exists>r \<in> set (change_ranges 0 es []). context_start r \<le> p \<and> p < context_end es r)) \<and>
   sorted_wrt (\<lambda>r s. context_end es r < context_start s) (change_ranges 0 es []) \<and>
   buildHunks es = map (make_hunk es) (change_ranges 0 es []) \<and>
   list_all (\<lambda>h. take (oldCount h) (drop (oldStart h - 1) (old_lines es)) = old_lines (hunk_lines h) \<and>
                 take (newCount h) (drop (newStart h - 1) (new_lines es)) = new_lines (hunk_lines h)) (buildHunks es)"
proof (intro conjI)
  show "\<forall>p < length es. \<not> is_same (es ! p) \<longrightarrow>
      (\<exists>r \<in> set (change_ranges 0 es []). context_start r \<le> p \<and> p < context_end es r)"
  proof (intro allI impI)
    fix p assume p: "p < length es" "\<not> is_same (es ! p)"
    then obtain r where r: "r \<in> set (change_ranges 0 es [])" "fst r \<le> p" "p < snd r"
      using change_ranges_all [of es] by (auto simp: ranges_ok_def)
    then have "context_start r \<le> p \<and> p < context_end es r"
      using p(1) by (simp add: context_start_def context_end_def)
    then show "\<exists>r \<in> set (change_ranges 0 es []). context_start r \<le> p \<and> p < context_end es r" using r(1) by blast
  qed
  show "sorted_wrt (\<lambda>r s. context_end es r < context_start s) (change_ranges 0 es [])"
    using change_ranges_all [of es] unfolding ranges_ok_def
    by (auto elim!: sorted_wrt_mono_rel [rotated] simp: context_start_def context_end_def CONTEXT_LINES_def)
  show "list_all (\<lambda>h. take (oldCount h) (drop (oldStart h - 1) (old_lines es)) = old_lines (hunk_lines h) \<and>
                 take (newCount h) (drop (newStart h - 1) (new_lines es)) = new_lines (hunk_lines h)) (buildHunks es)"
    by (simp add: buildHunks_def list_all_iff make_hunk_def Let_def header_lines)
qed (simp add: buildHunks_def)

theorem buildHunks_correct_witness:
  "\<exists>r \<in> set (change_ranges 0 [Same 1, Add (2 :: nat), Same 3] []). context_start r \<le> 1 \<and>
     1 < context_end [Same 1, Add (2 :: nat), Same 3] r"
  using buildHunks_correct [of "[Same 1, Add (2 :: nat), Same 3]"] by force

end
