(* ===== verification/Split_Text.thy ===== *)
theory Split_Text
  imports Prelude "HOL-Library.Word"
begin

text \<open>
  Splitting outbound text to a channel's limit (\<^verbatim>\<open>gateway/src/util/split-text.ts\<close>). A
  JavaScript string is a list of 16-bit code units. The loop need not end for small limits,
  so it is a partial function: \<open>None\<close> means it does not return.
\<close>

type_synonym code_unit = "16 word"

definition high_surrogate :: "code_unit \<Rightarrow> bool" where
  "high_surrogate u \<longleftrightarrow> 0xD800 \<le> u \<and> u \<le> 0xDBFF"

definition low_surrogate :: "code_unit \<Rightarrow> bool" where
  "low_surrogate u \<longleftrightarrow> 0xDC00 \<le> u \<and> u \<le> 0xDFFF"

text \<open>Where the chunk that starts at \<open>cursor\<close> ends. A read before the start of the text
  gives NaN, which is in no range.\<close>

definition chunk_end :: "code_unit list \<Rightarrow> nat \<Rightarrow> nat \<Rightarrow> nat" where
  "chunk_end text maxLength cursor =
     (let e = min (cursor + maxLength) (length text) in
      if e < length text \<and> 0 < e \<and> high_surrogate (text ! (e - 1)) then e - 1 else e)"

partial_function (option) split_loop ::
  "code_unit list \<Rightarrow> nat \<Rightarrow> nat \<Rightarrow> code_unit list list \<Rightarrow> code_unit list list option" where
  "split_loop text maxLength cursor chunks =
     (if cursor < length text
      then split_loop text maxLength (chunk_end text maxLength cursor)
             (chunks @ [take (chunk_end text maxLength cursor - cursor) (drop cursor text)])
      else Some chunks)"

definition splitText :: "code_unit list \<Rightarrow> nat \<Rightarrow> code_unit list list option" where
  "splitText text maxLength =
     (if length text \<le> maxLength then Some [text] else split_loop text maxLength 0 [])"

section \<open>Lemmas\<close>

lemma high_not_low: "high_surrogate u \<Longrightarrow> \<not> low_surrogate u"
proof
  assume "high_surrogate u" "low_surrogate u"
  then have "(0xDC00 :: code_unit) \<le> 0xDBFF"
    unfolding high_surrogate_def low_surrogate_def by (meson order_trans)
  then show False by simp
qed

lemma chunk_end_bounds:
  assumes "cursor < length text" "2 \<le> maxLength"
  shows "cursor < chunk_end text maxLength cursor" "chunk_end text maxLength cursor \<le> length text"
    "chunk_end text maxLength cursor \<le> cursor + maxLength"
  using assms by (auto simp: chunk_end_def Let_def)

text \<open>A chunk does not end between the halves of a pair.\<close>

definition splits_pair :: "code_unit list \<Rightarrow> nat \<Rightarrow> bool" where
  "splits_pair text p \<longleftrightarrow> 0 < p \<and> p < length text \<and> high_surrogate (text ! (p - 1)) \<and> low_surrogate (text ! p)"

lemma chunk_end_pair: "cursor < length text \<Longrightarrow> 2 \<le> maxLength \<Longrightarrow> \<not> splits_pair text (chunk_end text maxLength cursor)"
  using high_not_low by (auto simp: splits_pair_def chunk_end_def Let_def split: if_splits)

text \<open>The positions between consecutive chunks.\<close>

fun cut_positions :: "nat \<Rightarrow> 'a list list \<Rightarrow> nat list" where
  "cut_positions p [] = []"
| "cut_positions p (c # cs) = (p + length c) # cut_positions (p + length c) cs"

lemma split_loop_returns:
  assumes "2 \<le> maxLength" "cursor \<le> length text"
  shows "\<exists>cs. split_loop text maxLength cursor chunks = Some (chunks @ cs) \<and> concat cs = drop cursor text \<and>
    (\<forall>c \<in> set cs. c \<noteq> [] \<and> length c \<le> maxLength) \<and> (\<forall>p \<in> set (cut_positions cursor cs). \<not> splits_pair text p)"
  using assms(2)
proof (induction "length text - cursor" arbitrary: cursor chunks rule: less_induct)
  case less
  show ?case
  proof (cases "cursor < length text")
    case False
    then show ?thesis by (subst split_loop.simps) (auto intro!: exI [of _ "[]"])
  next
    case True
    let ?e = "chunk_end text maxLength cursor"
    let ?c = "take (?e - cursor) (drop cursor text)"
    note e = chunk_end_bounds [OF True assms(1)]
    have dec: "length text - ?e < length text - cursor" using e True by linarith
    obtain cs where cs: "split_loop text maxLength ?e (chunks @ [?c]) = Some ((chunks @ [?c]) @ cs)"
      "concat cs = drop ?e text" "\<forall>c \<in> set cs. c \<noteq> [] \<and> length c \<le> maxLength"
      "\<forall>p \<in> set (cut_positions ?e cs). \<not> splits_pair text p"
      using less.hyps [OF dec e(2), of "chunks @ [?c]"] by blast
    have "split_loop text maxLength cursor chunks = Some (chunks @ ?c # cs)"
      using True cs(1) by (subst split_loop.simps) simp
    moreover have "?c @ drop ?e text = drop cursor text"
      using e append_take_drop_id [of "?e - cursor" "drop cursor text"] by simp
    moreover have len: "length ?c = ?e - cursor" using e by simp
    moreover have "?c \<noteq> []" using e len by auto
    moreover have "cut_positions cursor (?c # cs) = ?e # cut_positions ?e cs" using len e by simp
    ultimately show ?thesis using cs e chunk_end_pair [OF True assms(1)]
      by (intro exI [of _ "?c # cs"]) auto
  qed
qed

text \<open>With a limit of one, a high surrogate before the end holds the cursor where it is.\<close>

definition stuck :: "code_unit list \<Rightarrow> nat \<Rightarrow> nat \<Rightarrow> bool" where
  "stuck us m cursor \<longleftrightarrow> m = 1 \<and> cursor + 1 < length us \<and> high_surrogate (us ! cursor)"

lemma stuck_step: "stuck us m cursor \<Longrightarrow> cursor < length us \<and> chunk_end us m cursor = cursor"
  by (simp add: stuck_def chunk_end_def)

lemma split_loop_stuck:
  assumes "split_loop us m cursor chunks = Some r"
  shows "\<not> stuck us m cursor"
proof (rule split_loop.raw_induct [where P = "\<lambda>us m cursor chunks r. \<not> stuck us m cursor", OF _ assms])
  fix f :: "code_unit list \<Rightarrow> nat \<Rightarrow> nat \<Rightarrow> code_unit list list \<Rightarrow> code_unit list list option" and us m cursor chunks r
  assume ih: "\<And>us m cursor chunks y. f us m cursor chunks = Some y \<Longrightarrow> \<not> stuck us m cursor"
    and body: "(if cursor < length us
      then f us m (chunk_end us m cursor) (chunks @ [take (chunk_end us m cursor - cursor) (drop cursor us)])
      else Some chunks) = Some r"
  show "\<not> stuck us m cursor"
  proof
    assume st: "stuck us m cursor"
    then have "f us m cursor (chunks @ [take (cursor - cursor) (drop cursor us)]) = Some r"
      using body stuck_step [OF st] by simp
    then show False using ih st by blast
  qed
qed

section \<open>Properties\<close>

text \<open>For every limit of at least two code units, splitting returns; the chunks put
  together are the text, none is longer than the limit, and no cut separates the halves of a
  surrogate pair.\<close>

theorem splitText_correct:
  assumes "2 \<le> maxLength"
  shows "\<exists>cs. splitText text maxLength = Some cs \<and> concat cs = text \<and> (\<forall>c \<in> set cs. length c \<le> maxLength) \<and>
    (\<forall>p \<in> set (cut_positions 0 cs). \<not> splits_pair text p)"
proof (cases "length text \<le> maxLength")
  case True
  then show ?thesis by (auto simp: splitText_def splits_pair_def)
next
  case False
  then show ?thesis using split_loop_returns [OF assms, of 0 "text" "[]"] by (auto simp: splitText_def)
qed

theorem splitText_correct_witness:
  "\<exists>cs. splitText [0x61, 0xD83D, 0xDE00] 2 = Some cs \<and> concat cs = [0x61, 0xD83D, 0xDE00]"
  using splitText_correct [of 2 "[0x61, 0xD83D, 0xDE00]"] by auto

text \<open>With a limit of one code unit a text with a surrogate pair is never finished.\<close>

lemma splitText_one_diverges: "splitText [0xD83D, 0xDE00] 1 = None"
proof (cases "splitText [0xD83D, 0xDE00] 1")
  case (Some r)
  then have "split_loop [0xD83D, 0xDE00] 1 0 [] = Some r" by (simp add: splitText_def)
  from split_loop_stuck [OF this] show ?thesis by (simp add: stuck_def high_surrogate_def)
qed

end
