(* ===== verification/Dedup_Cache.thy ===== *)
theory Dedup_Cache
  imports Prelude "HOL-Library.Product_Lexorder" "HOL-Library.Option_ord"
begin

text \<open>
  Webhook deduplication (\<^verbatim>\<open>gateway/src/dedup-cache.ts\<close>): the update-id cache with its
  high-water mark and generations, and the string-keyed cache with reservations. The mark
  \<^verbatim>\<open>-Infinity\<close> is \<open>None\<close>; each operation reads the clock once (\<open>now\<close>). The periodic
  sweep is the event that calls \<^verbatim>\<open>evictExpired\<close>; starting and stopping its timer changes
  nothing else.
\<close>

section \<open>The update-id cache\<close>

datatype reserve_result = Reserved | Duplicate | AlreadyProcessed

record cache_entry =
  body :: string
  resp_status :: int
  expiresAt :: int
  processing :: bool
  entry_generation :: nat

record dedup_cache =
  cache :: "(int, cache_entry) js_map"
  ttlMs :: int
  maxSize :: nat
  highWaterMark :: "int option"
  generation :: nat

definition new_dedup_cache :: "int \<Rightarrow> nat \<Rightarrow> dedup_cache" where
  "new_dedup_cache ttl cap = \<lparr>cache = [], ttlMs = ttl, maxSize = cap, highWaterMark = None, generation = 0\<rparr>"

definition at_or_below_mark :: "dedup_cache \<Rightarrow> int \<Rightarrow> bool" where
  "at_or_below_mark c u = (case highWaterMark c of None \<Rightarrow> False | Some h \<Rightarrow> u \<le> h)"

definition dedup_get :: "dedup_cache \<Rightarrow> int \<Rightarrow> int \<Rightarrow> dedup_cache \<times> (string \<times> int) option" where
  "dedup_get c u now =
     (case js_get (cache c) u of
        None \<Rightarrow> (c, None)
      | Some e \<Rightarrow>
          if now > expiresAt e then (c\<lparr>cache := js_delete u (cache c)\<rparr>, None)
          else if processing e then (c, None)
          else (c, Some (body e, resp_status e)))"

definition evictExpired :: "int \<Rightarrow> dedup_cache \<Rightarrow> dedup_cache" where
  "evictExpired now c = c\<lparr>cache := filter (\<lambda>e. \<not> now > expiresAt (snd e)) (cache c)\<rparr>"

text \<open>Make room: sweep when full, then drop the oldest entry if still full.\<close>

definition make_room :: "int \<Rightarrow> dedup_cache \<Rightarrow> dedup_cache" where
  "make_room now c =
     (let c1 = (if length (cache c) \<ge> maxSize c then evictExpired now c else c) in
      if length (cache c1) \<ge> maxSize c1 then c1\<lparr>cache := js_drop_oldest (cache c1)\<rparr> else c1)"

definition reserve :: "dedup_cache \<Rightarrow> int \<Rightarrow> int \<Rightarrow> dedup_cache \<times> reserve_result" where
  "reserve c u now =
     (case js_get (cache c) u of
        Some e \<Rightarrow>
          if now \<le> expiresAt e then (c, Duplicate)
          else (let c1 = c\<lparr>cache := js_delete u (cache c)\<rparr> in
             if at_or_below_mark c1 u then (c1, AlreadyProcessed)
             else (let c2 = make_room now c1 in
               (c2\<lparr>cache := js_set u \<lparr>body = [], resp_status = 0, expiresAt = now + ttlMs c2, processing = True,
                  entry_generation = generation c2\<rparr> (cache c2)\<rparr>, Reserved)))
      | None \<Rightarrow>
          if at_or_below_mark c u then (c, AlreadyProcessed)
          else (let c2 = make_room now c in
             (c2\<lparr>cache := js_set u \<lparr>body = [], resp_status = 0, expiresAt = now + ttlMs c2, processing = True,
                entry_generation = generation c2\<rparr> (cache c2)\<rparr>, Reserved)))"

definition unreserve :: "dedup_cache \<Rightarrow> int \<Rightarrow> nat \<Rightarrow> dedup_cache" where
  "unreserve c u reservedIn =
     (if reservedIn \<noteq> generation c then c
      else (case js_get (cache c) u of
              Some e \<Rightarrow> if processing e then c\<lparr>cache := js_delete u (cache c)\<rparr> else c
            | None \<Rightarrow> c))"

definition dedup_set :: "dedup_cache \<Rightarrow> int \<Rightarrow> string \<Rightarrow> int \<Rightarrow> nat \<Rightarrow> int \<Rightarrow> dedup_cache" where
  "dedup_set c u b s reservedIn now =
     (if reservedIn \<noteq> generation c then c
      else let c1 = (if at_or_below_mark c u then c else c\<lparr>highWaterMark := Some u\<rparr>);
               c2 = make_room now c1
           in c2\<lparr>cache := js_set u \<lparr>body = b, resp_status = s, expiresAt = now + ttlMs c2, processing = False,
                  entry_generation = generation c2\<rparr> (cache c2)\<rparr>)"

definition reset :: "dedup_cache \<Rightarrow> dedup_cache" where
  "reset c = c\<lparr>cache := [], highWaterMark := None, generation := generation c + 1\<rparr>"

datatype dedup_event =
    Get int int
  | Reserve int int
  | Unreserve int nat
  | SetResult int string int nat int
  | Sweep int
  | Reset

fun dedup_step :: "dedup_cache \<Rightarrow> dedup_event \<Rightarrow> dedup_cache" where
  "dedup_step c (Get u now) = fst (dedup_get c u now)"
| "dedup_step c (Reserve u now) = fst (reserve c u now)"
| "dedup_step c (Unreserve u g) = unreserve c u g"
| "dedup_step c (SetResult u b s g now) = dedup_set c u b s g now"
| "dedup_step c (Sweep now) = evictExpired now c"
| "dedup_step c Reset = reset c"

section \<open>The string cache\<close>

record string_cache =
  seen_until :: "(string, int) js_map"
  in_process :: "string list"
  s_ttlMs :: int
  s_maxSize :: nat

definition str_evictExpired :: "int \<Rightarrow> string_cache \<Rightarrow> string_cache" where
  "str_evictExpired now c = c\<lparr>seen_until := filter (\<lambda>e. \<not> now > snd e) (seen_until c)\<rparr>"

definition str_has :: "string_cache \<Rightarrow> string \<Rightarrow> int \<Rightarrow> string_cache \<times> bool" where
  "str_has c k now =
     (if k \<in> set (in_process c) then (c, True)
      else (case js_get (seen_until c) k of
              None \<Rightarrow> (c, False)
            | Some t \<Rightarrow> if now \<le> t then (c, True) else (c\<lparr>seen_until := js_delete k (seen_until c)\<rparr>, False)))"

definition str_reserve :: "string_cache \<Rightarrow> string \<Rightarrow> int \<Rightarrow> string_cache \<times> bool" where
  "str_reserve c k now =
     (case str_has c k now of
        (c1, True) \<Rightarrow> (c1, False)
      | (c1, False) \<Rightarrow> (c1\<lparr>in_process := js_add k (in_process c1)\<rparr>, True))"

definition str_unreserve :: "string_cache \<Rightarrow> string \<Rightarrow> string_cache" where
  "str_unreserve c k = c\<lparr>in_process := removeAll k (in_process c)\<rparr>"

definition str_mark :: "string_cache \<Rightarrow> string \<Rightarrow> int \<Rightarrow> string_cache" where
  "str_mark c k now =
     (let c1 = c\<lparr>in_process := removeAll k (in_process c)\<rparr>;
          c2 = (if length (seen_until c1) \<ge> s_maxSize c1 then str_evictExpired now c1 else c1);
          c3 = (if length (seen_until c2) \<ge> s_maxSize c2 then c2\<lparr>seen_until := js_drop_oldest (seen_until c2)\<rparr> else c2)
      in c3\<lparr>seen_until := js_set k (now + s_ttlMs c3) (seen_until c3)\<rparr>)"

definition str_seen :: "string_cache \<Rightarrow> string \<Rightarrow> int \<Rightarrow> string_cache \<times> bool" where
  "str_seen c k now =
     (case str_has c k now of (c1, True) \<Rightarrow> (c1, True) | (c1, False) \<Rightarrow> (str_mark c1 k now, False))"

datatype string_event = SHas string int | SSeen string int | SReserve string int | SUnreserve string | SMark string int | SSweep int

fun string_step :: "string_cache \<Rightarrow> string_event \<Rightarrow> string_cache" where
  "string_step c (SHas k now) = fst (str_has c k now)"
| "string_step c (SSeen k now) = fst (str_seen c k now)"
| "string_step c (SReserve k now) = fst (str_reserve c k now)"
| "string_step c (SUnreserve k) = str_unreserve c k"
| "string_step c (SMark k now) = str_mark c k now"
| "string_step c (SSweep now) = str_evictExpired now c"

section \<open>Lemmas\<close>

lemma make_room_frame [simp]:
  "highWaterMark (make_room now c) = highWaterMark c" "generation (make_room now c) = generation c"
  "maxSize (make_room now c) = maxSize c" "ttlMs (make_room now c) = ttlMs c"
  by (simp_all add: make_room_def evictExpired_def Let_def)

lemma make_room_wf: "wf_map (cache c) \<Longrightarrow> wf_map (cache (make_room now c))"
  by (simp add: make_room_def evictExpired_def Let_def wf_map_drop_oldest)

lemma make_room_length:
  assumes "length (cache c) \<le> max 1 (maxSize c)" "0 < maxSize c"
  shows "length (cache (make_room now c)) < maxSize c"
proof -
  let ?c1 = "if length (cache c) \<ge> maxSize c then evictExpired now c else c"
  have le: "length (cache ?c1) \<le> maxSize c"
    using assms by (auto simp: evictExpired_def intro: order_trans [OF length_filter_le])
  have same: "maxSize ?c1 = maxSize c" by (simp add: evictExpired_def)
  show ?thesis
  proof (cases "maxSize c \<le> length (cache ?c1)")
    case True
    then have "cache ?c1 \<noteq> []" using assms(2) by auto
    from length_drop_oldest [OF this] show ?thesis
      using le True same by (simp add: make_room_def Let_def)
  next
    case False
    then show ?thesis using same by (simp add: make_room_def Let_def)
  qed
qed

definition dedup_ok :: "dedup_cache \<Rightarrow> bool" where
  "dedup_ok c \<longleftrightarrow> wf_map (cache c) \<and> 0 < maxSize c \<and> length (cache c) \<le> maxSize c"

lemma dedup_ok_delete: "dedup_ok c \<Longrightarrow> dedup_ok (c\<lparr>cache := js_delete u (cache c)\<rparr>)"
  by (auto simp: dedup_ok_def intro: order_trans [OF length_js_delete_le])

lemma dedup_ok_insert:
  assumes "dedup_ok c"
  shows "dedup_ok ((make_room now c)\<lparr>cache := js_set u e (cache (make_room now c))\<rparr>)"
proof -
  have "length (cache (make_room now c)) < maxSize c"
    using assms by (intro make_room_length) (auto simp: dedup_ok_def)
  then show ?thesis using assms make_room_wf [of c now] by (auto simp: dedup_ok_def length_js_set)
qed

lemma dedup_ok_step: "dedup_ok c \<Longrightarrow> dedup_ok (dedup_step c e)"
proof (cases e)
  case (Reserve u now)
  then show "dedup_ok c \<Longrightarrow> ?thesis"
    using dedup_ok_delete dedup_ok_insert
    by (auto simp: reserve_def Let_def split: option.splits)
next
  case (SetResult u b s g now)
  have hw: "dedup_ok c \<Longrightarrow> dedup_ok (if at_or_below_mark c u then c else c\<lparr>highWaterMark := Some u\<rparr>)"
    by (simp add: dedup_ok_def)
  then show "dedup_ok c \<Longrightarrow> ?thesis"
    using SetResult dedup_ok_insert [OF hw] by (auto simp: dedup_set_def Let_def)
next
  case (Sweep now)
  then show "dedup_ok c \<Longrightarrow> ?thesis"
    by (auto simp: dedup_ok_def evictExpired_def intro: order_trans [OF length_filter_le])
qed (auto simp: dedup_get_def unreserve_def reset_def dedup_ok_delete split: option.splits, simp add: dedup_ok_def)

interpretation dedup: invariant_machine dedup_step dedup_ok
  by unfold_locales (rule dedup_ok_step)

text \<open>The generation, and within one the mark, only move up.\<close>

definition dedup_rank :: "dedup_cache \<Rightarrow> nat \<times> int option" where
  "dedup_rank c = (generation c, highWaterMark c)"

interpretation dedup_marks: ranked_machine dedup_step dedup_rank
proof
  fix c e
  show "dedup_rank c \<le> dedup_rank (dedup_step c e)"
    by (cases e) (auto simp: dedup_rank_def dedup_get_def reserve_def unreserve_def dedup_set_def evictExpired_def
        reset_def at_or_below_mark_def Let_def less_eq_prod_def split: option.splits)
qed

lemma generation_step: "e \<noteq> Reset \<Longrightarrow> generation (dedup_step c e) = generation c"
  by (cases e) (auto simp: dedup_get_def reserve_def unreserve_def dedup_set_def evictExpired_def Let_def
      split: option.splits)

lemma generation_run: "Reset \<notin> set es \<Longrightarrow> generation (foldl dedup_step c es) = generation c"
  by (induction es arbitrary: c) (auto simp: generation_step)

lemma generation_mono: "generation c \<le> generation (foldl dedup_step c es)"
  using dedup_marks.rank_run [of c es] by (auto simp: dedup_rank_def less_eq_prod_def)

lemma generation_reset:
  assumes "Reset \<in> set es"
  shows "generation c < generation (foldl dedup_step c es)"
proof -
  obtain xs ys where es: "es = xs @ Reset # ys" using split_list [OF assms] by blast
  have "generation c < generation (foldl dedup_step c (xs @ [Reset]))"
    using generation_mono [of c xs] by (simp add: reset_def)
  also have "\<dots> \<le> generation (foldl dedup_step c es)"
    using generation_mono [of "foldl dedup_step c (xs @ [Reset])" ys] by (simp add: es)
  finally show ?thesis .
qed

text \<open>Within a generation the mark never falls.\<close>

lemma mark_run:
  assumes "Reset \<notin> set es" "highWaterMark c = Some h"
  shows "\<exists>h'. highWaterMark (foldl dedup_step c es) = Some h' \<and> h \<le> h'"
proof -
  have "dedup_rank c \<le> dedup_rank (foldl dedup_step c es)" by (rule dedup_marks.rank_run)
  then have "Some h \<le> highWaterMark (foldl dedup_step c es)"
    using generation_run [OF assms(1), of c] assms(2) by (simp add: dedup_rank_def less_eq_prod_def)
  then show ?thesis by (cases "highWaterMark (foldl dedup_step c es)") auto
qed

lemma reserve_below: "at_or_below_mark c u \<Longrightarrow> snd (reserve c u now) \<noteq> Reserved"
  by (auto simp: reserve_def at_or_below_mark_def Let_def split: option.splits)

lemma set_marks: "reservedIn = generation c \<Longrightarrow> \<exists>h. highWaterMark (dedup_set c u b s reservedIn now) = Some h \<and> u \<le> h"
  by (auto simp: dedup_set_def at_or_below_mark_def Let_def split: option.splits)

lemma dropped_finalize: "reservedIn \<noteq> generation c \<Longrightarrow>
    dedup_set c u b s reservedIn now = c \<and> unreserve c u reservedIn = c"
  by (simp add: dedup_set_def unreserve_def)

text \<open>The string cache keeps a reservation until its holder lets go of it.\<close>

lemma string_reservation_kept:
  "k \<in> set (in_process c) \<Longrightarrow> e \<noteq> SUnreserve k \<Longrightarrow> (\<And>now. e \<noteq> SMark k now) \<Longrightarrow>
     k \<in> set (in_process (string_step c e))"
  by (cases e) (auto simp: str_has_def str_seen_def str_reserve_def str_unreserve_def str_mark_def
      str_evictExpired_def Let_def split: option.splits bool.splits if_splits)

lemma string_reserved_refuses: "k \<in> set (in_process c) \<Longrightarrow> snd (str_reserve c k now) = False"
  by (simp add: str_reserve_def str_has_def)

lemma string_reserve_run:
  assumes "k \<in> set (in_process c)" "\<forall>e \<in> set es. e \<noteq> SUnreserve k \<and> (\<forall>now. e \<noteq> SMark k now)"
  shows "k \<in> set (in_process (foldl string_step c es))"
  using assms by (induction es arbitrary: c) (auto intro: string_reservation_kept)

section \<open>Properties\<close>

text \<open>C28: An update that was finalised is never reserved again. Once a result is stored in the
  current generation, no sequence of calls short of a reset lets that update id, or any
  smaller one, be reserved, however long ago its entry expired or was evicted. And a reset cuts off
  work in flight: after any sequence of calls that contains a reset, work that was reserved
  before the sequence (its token is the generation of that time) changes nothing, mark and cache
  included, when it completes or fails, whichever update it is for.\<close>

theorem no_replay:
  assumes "reservedIn = generation c" and "Reset \<notin> set es" and "u' \<le> u" and "Reset \<in> set fs"
  shows "snd (reserve (foldl dedup_step (dedup_set c u b s reservedIn now) es) u' now') \<noteq> Reserved \<and>
    (let c' = foldl dedup_step c fs
     in dedup_set c' v b' s' (generation c) now'' = c' \<and> unreserve c' v (generation c) = c')"
proof -
  obtain h where h: "highWaterMark (dedup_set c u b s reservedIn now) = Some h" "u \<le> h"
    using set_marks [OF assms(1)] by blast
  obtain h' where h': "highWaterMark (foldl dedup_step (dedup_set c u b s reservedIn now) es) = Some h'" "h \<le> h'"
    using mark_run [OF assms(2) h(1)] by blast
  then have "at_or_below_mark (foldl dedup_step (dedup_set c u b s reservedIn now) es) u'"
    using assms(3) h(2) by (simp add: at_or_below_mark_def)
  then show ?thesis
    using reserve_below dropped_finalize [of "generation c"] generation_reset [OF assms(4), of c]
    by (simp add: Let_def)
qed

theorem no_replay_witness:
  "snd (reserve (foldl dedup_step (dedup_set (new_dedup_cache 5 2) 7 ''ok'' 200 0 0) [Sweep 100, Get 7 100]) 7 100) \<noteq> Reserved
   \<and> dedup_set (foldl dedup_step (new_dedup_cache 5 2) [Reserve 7 0, Reset, Reserve 7 1]) 7 ''ok'' 200 0 2
       = foldl dedup_step (new_dedup_cache 5 2) [Reserve 7 0, Reset, Reserve 7 1]"
  using no_replay [of 0 "new_dedup_cache 5 2" "[Sweep 100, Get 7 100]" 7 7 "[Reserve 7 0, Reset, Reserve 7 1]"
      "''ok''" 200 0 100 7 "''ok''" 200 2]
  by (simp add: new_dedup_cache_def Let_def)

text \<open>Memory is bounded: from a fresh cache with room for at least one entry, no sequence
  of calls lets the cache exceed its maximum size.\<close>

theorem dedup_size_bounded:
  assumes "0 < cap"
  shows "length (cache (foldl dedup_step (new_dedup_cache ttl cap) es)) \<le> cap"
proof -
  have "dedup_ok (new_dedup_cache ttl cap)" using assms by (simp add: dedup_ok_def new_dedup_cache_def)
  then have "dedup_ok (foldl dedup_step (new_dedup_cache ttl cap) es)" by (rule dedup.inv_run)
  moreover have "maxSize (dedup_step c e) = maxSize c" for c e
    by (cases e) (auto simp: dedup_get_def reserve_def unreserve_def dedup_set_def evictExpired_def reset_def Let_def
        split: option.splits)
  then have "maxSize (foldl dedup_step c es) = maxSize c" for c by (induction es arbitrary: c) auto
  ultimately show ?thesis by (simp add: dedup_ok_def new_dedup_cache_def)
qed

theorem dedup_size_bounded_witness:
  "length (cache (foldl dedup_step (new_dedup_cache 5 1) [Reserve 1 0, Reserve 2 0, Reserve 3 0])) \<le> 1"
  by (rule dedup_size_bounded) simp

text \<open>A failed update is lost when a later one was finalised first: update 5 is reserved,
  update 6 is reserved and finalised, 5 fails and is released so that it can be retried; the
  retry is refused as already processed.\<close>

lemma released_update_refused:
  "snd (reserve (foldl dedup_step (new_dedup_cache 1000 10)
     [Reserve 5 0, Reserve 6 0, SetResult 6 ''ok'' 200 0 1, Unreserve 5 0]) 5 2) = AlreadyProcessed"
  by code_simp

end
