(* ===== verification/Message_Queue.thy ===== *)
theory Message_Queue
  imports Prelude
begin

text \<open>
  The backlog of a busy conversation (\<^verbatim>\<open>assistant/src/daemon/conversation-queue-manager.ts\<close>):
  queued messages under a byte budget. Strings count by their length in code units; the length of a
  JSON text (\<^verbatim>\<open>JSON.stringify(item.transport).length\<close>) is a parameter. Auth, trust, channel and
  interface contexts and the event callback travel with a message and are opaque here.
\<close>

record attachment =
  data :: string
  extractedText :: "string option"

record queued_message =
  content :: string
  attachments :: "attachment list"
  requestId :: string
  onEvent :: nat
  activeSurfaceId :: "string option"
  currentPage :: "string option"
  metadata :: "json option"
  turnChannelContext :: "json option"
  turnInterfaceContext :: "json option"
  isInteractive :: "bool option"
  sourceActorPrincipalId :: "string option"
  authContext :: "json option"
  trustContext :: "json option"
  transport :: "json option"
  displayContent :: "string option"
  cronRunId :: "string option"
  sentAt :: int
  clientMessageId :: "string option"
  dequeueAnnounced :: "bool option"

definition DEFAULT_MAX_QUEUE_BYTES :: int where
  "DEFAULT_MAX_QUEUE_BYTES = 50 * 1024 * 1024"

record message_queue =
  items :: "queued_message list"
  currentBytes :: int
  maxBytes :: int

definition new_queue :: "int \<Rightarrow> message_queue" where
  "new_queue cap = \<lparr>items = [], currentBytes = 0, maxBytes = cap\<rparr>"

definition attachment_bytes :: "attachment \<Rightarrow> int" where
  "attachment_bytes a =
     int (length (data a)) * 2 + (case extractedText a of None \<Rightarrow> 0 | Some t \<Rightarrow> int (length t) * 2)"

definition estimateItemBytes :: "(json \<Rightarrow> nat) \<Rightarrow> queued_message \<Rightarrow> int" where
  "estimateItemBytes json_length m =
     int (length (content m)) * 2
     + foldl (\<lambda>b a. b + attachment_bytes a) 0 (attachments m)
     + (case transport m of None \<Rightarrow> 0 | Some t \<Rightarrow> int (json_length t) * 2)
     + (case sourceActorPrincipalId m of None \<Rightarrow> 0 | Some p \<Rightarrow> int (length p) * 2)
     + 512"

definition push :: "(json \<Rightarrow> nat) \<Rightarrow> queued_message \<Rightarrow> message_queue \<Rightarrow> message_queue \<times> bool" where
  "push jl m q =
     (let itemBytes = estimateItemBytes jl m in
      if currentBytes q + itemBytes > maxBytes q \<and> length (items q) > 0 then (q, False)
      else (q\<lparr>items := items q @ [m], currentBytes := currentBytes q + itemBytes\<rparr>, True))"

definition shift :: "(json \<Rightarrow> nat) \<Rightarrow> message_queue \<Rightarrow> message_queue \<times> queued_message option" where
  "shift jl q =
     (case items q of
        [] \<Rightarrow> (q, None)
      | m # ms \<Rightarrow> (q\<lparr>items := ms, currentBytes := currentBytes q - estimateItemBytes jl m\<rparr>, Some m))"

definition unshift :: "(json \<Rightarrow> nat) \<Rightarrow> queued_message \<Rightarrow> message_queue \<Rightarrow> message_queue" where
  "unshift jl m q = q\<lparr>items := m # items q, currentBytes := currentBytes q + estimateItemBytes jl m\<rparr>"

definition peek :: "nat \<Rightarrow> message_queue \<Rightarrow> queued_message option" where
  "peek i q = (if i < length (items q) then Some (items q ! i) else None)"

definition snapshot :: "message_queue \<Rightarrow> queued_message list" where
  "snapshot q = items q"

definition shiftN :: "(json \<Rightarrow> nat) \<Rightarrow> int \<Rightarrow> message_queue \<Rightarrow> message_queue \<times> queued_message list" where
  "shiftN jl k q =
     (let n = nat (min (max 0 k) (int (length (items q)))) in
      if n = 0 then (q, [])
      else (let removed = take n (items q)
            in (q\<lparr>items := drop n (items q),
                  currentBytes := foldl (\<lambda>b m. b - estimateItemBytes jl m) (currentBytes q) removed\<rparr>,
                removed)))"

definition clear :: "message_queue \<Rightarrow> message_queue" where
  "clear q = q\<lparr>items := [], currentBytes := 0\<rparr>"

fun find_index :: "('a \<Rightarrow> bool) \<Rightarrow> 'a list \<Rightarrow> nat option" where
  "find_index P [] = None"
| "find_index P (x # xs) = (if P x then Some 0 else map_option Suc (find_index P xs))"

definition promoteToHead :: "string \<Rightarrow> message_queue \<Rightarrow> message_queue \<times> queued_message option" where
  "promoteToHead rid q =
     (case find_index (\<lambda>m. requestId m = rid) (items q) of
        None \<Rightarrow> (q, None)
      | Some i \<Rightarrow>
          if i = 0 then (q, Some (items q ! 0))
          else (let promoted = items q ! i
                in (q\<lparr>items := promoted # (take i (items q) @ drop (Suc i) (items q))\<rparr>, Some promoted)))"

definition findByRequestId :: "string \<Rightarrow> message_queue \<Rightarrow> queued_message option" where
  "findByRequestId rid q = find (\<lambda>m. requestId m = rid) (items q)"

definition removeByRequestId :: "(json \<Rightarrow> nat) \<Rightarrow> string \<Rightarrow> message_queue \<Rightarrow> message_queue \<times> queued_message option" where
  "removeByRequestId jl rid q =
     (case find_index (\<lambda>m. requestId m = rid) (items q) of
        None \<Rightarrow> (q, None)
      | Some i \<Rightarrow>
          (let removed = items q ! i
           in (q\<lparr>items := take i (items q) @ drop (Suc i) (items q),
                 currentBytes := currentBytes q - estimateItemBytes jl removed\<rparr>, Some removed)))"

text \<open>Operations as events; each takes some messages in and gives some out.\<close>

datatype queue_op =
    Push queued_message
  | Shift
  | Unshift queued_message
  | ShiftN int
  | Clear
  | Promote string
  | RemoveById string

definition opt_list :: "'a option \<Rightarrow> 'a list" where
  "opt_list x = (case x of None \<Rightarrow> [] | Some y \<Rightarrow> [y])"

fun queue_step :: "(json \<Rightarrow> nat) \<Rightarrow> message_queue \<Rightarrow> queue_op \<Rightarrow> message_queue" where
  "queue_step jl q (Push m) = fst (push jl m q)"
| "queue_step jl q Shift = fst (shift jl q)"
| "queue_step jl q (Unshift m) = unshift jl m q"
| "queue_step jl q (ShiftN n) = fst (shiftN jl n q)"
| "queue_step jl q Clear = clear q"
| "queue_step jl q (Promote r) = fst (promoteToHead r q)"
| "queue_step jl q (RemoveById r) = fst (removeByRequestId jl r q)"

fun taken_in :: "(json \<Rightarrow> nat) \<Rightarrow> message_queue \<Rightarrow> queue_op \<Rightarrow> queued_message list" where
  "taken_in jl q (Push m) = (if snd (push jl m q) then [m] else [])"
| "taken_in jl q (Unshift m) = [m]"
| "taken_in jl q _ = []"

fun given_out :: "(json \<Rightarrow> nat) \<Rightarrow> message_queue \<Rightarrow> queue_op \<Rightarrow> queued_message list" where
  "given_out jl q Shift = opt_list (snd (shift jl q))"
| "given_out jl q (ShiftN n) = snd (shiftN jl n q)"
| "given_out jl q Clear = items q"
| "given_out jl q (RemoveById r) = opt_list (snd (removeByRequestId jl r q))"
| "given_out jl q _ = []"

fun all_in :: "(json \<Rightarrow> nat) \<Rightarrow> message_queue \<Rightarrow> queue_op list \<Rightarrow> queued_message list" where
  "all_in jl q [] = []"
| "all_in jl q (e # es) = taken_in jl q e @ all_in jl (queue_step jl q e) es"

fun all_out :: "(json \<Rightarrow> nat) \<Rightarrow> message_queue \<Rightarrow> queue_op list \<Rightarrow> queued_message list" where
  "all_out jl q [] = []"
| "all_out jl q (e # es) = given_out jl q e @ all_out jl (queue_step jl q e) es"

section \<open>Byte accounting\<close>

definition accounted :: "(json \<Rightarrow> nat) \<Rightarrow> message_queue \<Rightarrow> bool" where
  "accounted jl q \<longleftrightarrow> currentBytes q = sum_list (map (estimateItemBytes jl) (items q))"

lemma foldl_minus: "foldl (\<lambda>b m. b - f m) (a :: int) ms = a - sum_list (map f ms)"
  by (induction ms arbitrary: a) auto

lemma foldl_plus_ge: "(\<And>x. 0 \<le> f x) \<Longrightarrow> (a :: int) \<le> foldl (\<lambda>b x. b + f x) a xs"
proof (induction xs arbitrary: a)
  case (Cons x xs)
  have "a \<le> a + f x" using Cons.prems [of x] by simp
  also have "\<dots> \<le> foldl (\<lambda>b x. b + f x) (a + f x) xs" by (rule Cons.IH) (rule Cons.prems)
  finally show ?case by simp
qed simp

lemma attachment_bytes_nonneg: "0 \<le> attachment_bytes a"
  by (simp add: attachment_bytes_def split: option.split)

lemma estimate_at_least: "512 \<le> estimateItemBytes jl m"
  using foldl_plus_ge [of attachment_bytes 0 "attachments m"] attachment_bytes_nonneg
  by (simp add: estimateItemBytes_def split: option.split)

lemma find_index_Some:
  "find_index P xs = Some i \<Longrightarrow> i < length xs \<and> P (xs ! i) \<and> xs = take i xs @ xs ! i # drop (Suc i) xs"
proof (induction xs arbitrary: i)
  case (Cons x xs)
  then show ?case by (cases "P x") auto
qed simp

lemma find_index_find: "find P xs = map_option (\<lambda>i. xs ! i) (find_index P xs)"
  by (induction xs) (auto simp: option.map_comp comp_def)

lemma sum_split:
  fixes f :: "'a \<Rightarrow> int"
  assumes "find_index P xs = Some i"
  shows "sum_list (map f xs) = f (xs ! i) + sum_list (map f (take i xs @ drop (Suc i) xs))"
proof -
  have "sum_list (map f xs) = sum_list (map f (take i xs @ xs ! i # drop (Suc i) xs))"
    using find_index_Some [OF assms] by metis
  then show ?thesis by simp
qed

lemma sum_take_drop: "sum_list (map f (take k xs)) + sum_list (map f (drop k xs)) = sum_list (map f xs)"
  for f :: "'a \<Rightarrow> int"
  by (metis append_take_drop_id map_append sum_list_append)

lemma accounted_step: "accounted jl q \<Longrightarrow> accounted jl (queue_step jl q e)"
proof (cases e)
  case Shift
  assume "accounted jl q"
  then show ?thesis using Shift by (cases "items q") (auto simp: accounted_def shift_def)
next
  case (ShiftN n)
  assume "accounted jl q"
  then show ?thesis
    using ShiftN sum_take_drop [of "estimateItemBytes jl" "nat (min n (int (length (items q))))" "items q"]
    by (simp add: accounted_def shiftN_def Let_def foldl_minus)
next
  case (Promote r)
  assume "accounted jl q"
  then show ?thesis using Promote
    by (auto simp: accounted_def promoteToHead_def Let_def split: option.split dest: sum_split [of _ _ _ "estimateItemBytes jl"])
next
  case (RemoveById r)
  assume "accounted jl q"
  then show ?thesis using RemoveById
    by (auto simp: accounted_def removeByRequestId_def Let_def split: option.split dest: sum_split [of _ _ _ "estimateItemBytes jl"])
qed (auto simp: accounted_def push_def unshift_def clear_def Let_def)

interpretation queue_bytes: invariant_machine "queue_step jl" "accounted jl" for jl
  by unfold_locales (rule accounted_step)

text \<open>The byte count of the queue is exact. After any sequence of operations on a new queue, the
  running total equals the sum of the estimates of the messages in the queue, so it is never
  negative, is zero exactly when the queue is empty, and a full queue drains back to a usable one.\<close>

theorem queue_bytes_exact:
  "let q = foldl (queue_step jl) (new_queue cap) es in
     currentBytes q = sum_list (map (estimateItemBytes jl) (items q))
     \<and> 0 \<le> currentBytes q \<and> (currentBytes q = 0 \<longleftrightarrow> items q = [])"
proof -
  define q where "q = foldl (queue_step jl) (new_queue cap) es"
  have acc: "accounted jl q"
    unfolding q_def by (rule queue_bytes.inv_run) (simp add: accounted_def new_queue_def)
  have nonneg: "0 \<le> sum_list (map (estimateItemBytes jl) ms)" for ms
  proof (induction ms)
    case (Cons m ms)
    then show ?case using estimate_at_least [of jl m] by simp
  qed simp
  have pos: "ms \<noteq> [] \<Longrightarrow> 0 < sum_list (map (estimateItemBytes jl) ms)" for ms
  proof (cases ms)
    case (Cons m ms')
    then show ?thesis using nonneg [of ms'] estimate_at_least [of jl m] by simp
  qed simp
  have "currentBytes q = 0 \<longleftrightarrow> items q = []"
    using acc pos [of "items q"] by (cases "items q = []") (auto simp: accounted_def)
  then show ?thesis using acc nonneg [of "items q"] by (simp add: accounted_def q_def [symmetric])
qed

section \<open>No message is lost or duplicated\<close>

lemma mset_split:
  assumes "find_index P xs = Some i"
  shows "mset xs = add_mset (xs ! i) (mset (take i xs @ drop (Suc i) xs))"
proof -
  have "mset xs = mset (take i xs @ xs ! i # drop (Suc i) xs)" using find_index_Some [OF assms] by metis
  then show ?thesis by simp
qed

lemma mset_drop_take: "mset (drop k xs) + mset (take k xs) = mset xs"
  by (metis append_take_drop_id mset_append union_commute)

lemma queue_step_conserves:
  "mset (items (queue_step jl q e)) + mset (given_out jl q e) = mset (items q) + mset (taken_in jl q e)"
proof (cases e)
  case Shift
  then show ?thesis by (cases "items q") (auto simp: shift_def opt_list_def)
next
  case (ShiftN n)
  then show ?thesis by (simp add: shiftN_def Let_def mset_drop_take)
next
  case (Promote r)
  then show ?thesis by (auto simp: promoteToHead_def Let_def split: option.split dest: mset_split)
next
  case (RemoveById r)
  then show ?thesis by (auto simp: removeByRequestId_def Let_def opt_list_def split: option.split dest: mset_split)
qed (auto simp: push_def unshift_def clear_def Let_def)

text \<open>C40: no queued message is lost or handed out twice. Over any sequence of operations, the messages
  accepted (and requeued) are, with their multiplicities, the messages handed out by shifting,
  removal and clearing together with those still in the queue; a refused push leaves no trace.\<close>

theorem queue_conserves_messages:
  "mset (items (foldl (queue_step jl) q es)) + mset (all_out jl q es) = mset (items q) + mset (all_in jl q es)"
proof (induction es arbitrary: q)
  case (Cons e es)
  have "mset (items (foldl (queue_step jl) q (e # es))) + mset (all_out jl q (e # es))
      = mset (given_out jl q e) + (mset (items (queue_step jl q e)) + mset (all_in jl (queue_step jl q e) es))"
    using Cons.IH [of "queue_step jl q e"] by simp
  also have "\<dots> = mset (items q) + mset (all_in jl q (e # es))"
    using queue_step_conserves [of jl q e] by (simp add: ac_simps)
  finally show ?case .
qed simp

section \<open>Order\<close>

definition in_order :: "queue_op \<Rightarrow> bool" where
  "in_order e = (case e of Push _ \<Rightarrow> True | Shift \<Rightarrow> True | ShiftN _ \<Rightarrow> True | Clear \<Rightarrow> True | _ \<Rightarrow> False)"

lemma queue_step_fifo:
  assumes "in_order e"
  shows "given_out jl q e @ items (queue_step jl q e) = items q @ taken_in jl q e"
  using assms
  by (cases e; cases "items q")
    (auto simp: in_order_def push_def shift_def shiftN_def clear_def opt_list_def Let_def)

text \<open>Messages are processed in the order they were accepted. As long as nobody requeues, promotes
  or removes a message, the messages handed out followed by those still queued are the initial
  backlog followed by the accepted messages, in that order, whatever pushes were refused.\<close>

theorem queue_is_fifo:
  assumes "list_all in_order es"
  shows "all_out jl q es @ items (foldl (queue_step jl) q es) = items q @ all_in jl q es"
  using assms
proof (induction es arbitrary: q)
  case (Cons e es)
  have "all_out jl q (e # es) @ items (foldl (queue_step jl) q (e # es))
      = given_out jl q e @ items (queue_step jl q e) @ all_in jl (queue_step jl q e) es"
    using Cons by simp
  also have "\<dots> = items q @ all_in jl q (e # es)"
    using queue_step_fifo [of e jl q] Cons.prems by (simp del: append_assoc add: append_assoc [symmetric])
  finally show ?case .
qed simp

definition sample_message :: "string \<Rightarrow> queued_message" where
  "sample_message r = \<lparr>content = ''hi'', attachments = [], requestId = r, onEvent = 0, activeSurfaceId = None,
     currentPage = None, metadata = None, turnChannelContext = None, turnInterfaceContext = None,
     isInteractive = None, sourceActorPrincipalId = None, authContext = None, trustContext = None,
     transport = None, displayContent = None, cronRunId = None, sentAt = 0, clientMessageId = None,
     dequeueAnnounced = None\<rparr>"

theorem queue_is_fifo_witness:
  "all_out (\<lambda>_. 0) (new_queue 600) [Push (sample_message ''a''), Push (sample_message ''b''), Shift, ShiftN 2]
     @ items (foldl (queue_step (\<lambda>_. 0)) (new_queue 600)
         [Push (sample_message ''a''), Push (sample_message ''b''), Shift, ShiftN 2])
   = items (new_queue 600)
     @ all_in (\<lambda>_. 0) (new_queue 600) [Push (sample_message ''a''), Push (sample_message ''b''), Shift, ShiftN 2]"
  by (rule queue_is_fifo) (simp add: in_order_def)

text \<open>The budget: an accepted push leaves the queue within it, unless the message was taken into an
  empty queue; and a push is refused only when it would go over.\<close>

lemma push_budget:
  "snd (push jl m q) \<Longrightarrow> currentBytes (fst (push jl m q)) \<le> maxBytes q \<or> items (fst (push jl m q)) = [m]"
  "\<not> snd (push jl m q) \<Longrightarrow> fst (push jl m q) = q \<and> maxBytes q < currentBytes q + estimateItemBytes jl m"
  by (auto simp: push_def Let_def split: if_splits)

lemma promote_then_peek:
  "snd (promoteToHead r q) = Some m \<Longrightarrow> peek 0 (fst (promoteToHead r q)) = Some m \<and> requestId m = r"
  using find_index_Some [of "\<lambda>m. requestId m = r" "items q"]
  by (auto simp: promoteToHead_def peek_def Let_def split: option.splits if_splits)

lemma remove_is_find: "snd (removeByRequestId jl r q) = findByRequestId r q"
  by (simp add: removeByRequestId_def findByRequestId_def find_index_find Let_def split: option.split)

end
