(* ===== verification/Sequences.thy ===== *)
theory Sequences
  imports Prelude
begin

text \<open>
  E-mail sequences (\<^verbatim>\<open>assistant/src/sequence/\<close>): the store of sequences and enrollments
  (\<^verbatim>\<open>store.ts\<close>), the guardrails checked before a send (\<^verbatim>\<open>guardrails.ts\<close>), the event log
  (\<^verbatim>\<open>analytics.ts\<close>). The engine and the importer are theories of their own.

  Ids and clock readings are arguments; the local start of a day is a function of the time. JSON columns hold
  their values.
\<close>

section \<open>Data\<close>

datatype sequence_status = SeqActive | SeqPaused | SeqArchived

datatype enrollment_status = Active | Paused | Completed | Replied | Cancelled | Failed

record sequence_step =
  step_index :: nat
  delaySeconds :: int
  subjectTemplate :: string
  bodyPrompt :: string
  replyInSameConversation :: bool
  requireApproval :: bool

record email_sequence =
  sequence_id :: string
  sequence_name :: string
  description :: "string option"
  channel :: string
  steps :: "sequence_step list"
  exitOnReply :: bool
  sequence_status :: sequence_status
  sequence_createdAt :: int
  sequence_updatedAt :: int

record enrollment =
  enrollment_id :: string
  sequenceId :: string
  contactEmail :: string
  contactName :: "string option"
  currentStep :: nat
  status :: enrollment_status
  conversationId :: "string option"
  nextStepAt :: "int option"
  context_of :: "(string \<times> json) list option"
  createdAt :: int
  updatedAt :: int

datatype event_type = SendEvent | ReplyEvent | CompleteEvent | FailEvent | CancelEvent | PauseEvent | ResumeEvent

record sequence_event =
  event_id :: nat
  event_sequence :: string
  event_enrollment :: string
  event_kind :: event_type
  event_step :: "nat option"
  event_metadata :: "json option"
  event_at :: int

record guardrail_config =
  dailySendCap :: nat
  perSequenceHourlyRate :: nat
  minimumStepDelaySec :: int
  maxActiveEnrollments :: nat
  duplicateEnrollmentCheck :: bool
  cooldownPeriodMs :: int

definition DEFAULT_CONFIG :: guardrail_config where
  "DEFAULT_CONFIG = \<lparr>dailySendCap = 50, perSequenceHourlyRate = 10, minimumStepDelaySec = 60,
     maxActiveEnrollments = 200, duplicateEnrollmentCheck = True,
     cooldownPeriodMs = 7 * 24 * 60 * 60 * 1000\<rparr>"

record send_record =
  send_sequence :: string
  send_at :: int

record seq_state =
  sequences :: "email_sequence list"
  enrollments :: "enrollment list"
  sendLog :: "send_record list"
  eventLog :: "sequence_event list"
  eventCounter :: nat
  config :: guardrail_config

datatype seq_error = SequenceNotFound | NoSteps | ConstraintError

section \<open>Store\<close>

definition getSequence :: "seq_state \<Rightarrow> string \<Rightarrow> email_sequence option" where
  "getSequence s i = find (\<lambda>q. sequence_id q = i) (sequences s)"

definition createSequence ::
  "string \<Rightarrow> string option \<Rightarrow> string \<Rightarrow> sequence_step list \<Rightarrow> bool option \<Rightarrow> string \<Rightarrow> int \<Rightarrow> seq_state \<Rightarrow>
   seq_state \<times> (seq_error + email_sequence)" where
  "createSequence name descr ch sts onReply i now s =
     (if getSequence s i \<noteq> None then (s, Inl ConstraintError)
      else (let row = \<lparr>sequence_id = i, sequence_name = name, description = descr, channel = ch, steps = sts,
              exitOnReply = (case onReply of Some b \<Rightarrow> b | None \<Rightarrow> True), sequence_status = SeqActive,
              sequence_createdAt = now, sequence_updatedAt = now\<rparr>
            in (s\<lparr>sequences := sequences s @ [row]\<rparr>, Inr row)))"

definition listSequences :: "seq_state \<Rightarrow> sequence_status option \<Rightarrow> email_sequence list" where
  "listSequences s st = filter (\<lambda>q. st = None \<or> st = Some (sequence_status q)) (sequences s)"

record sequence_patch =
  p_name :: "string option"
  p_description :: "string option"
  p_steps :: "sequence_step list option"
  p_exitOnReply :: "bool option"
  p_status :: "sequence_status option"

definition or_old :: "'a option \<Rightarrow> 'a \<Rightarrow> 'a" where
  "or_old u v = (case u of Some x \<Rightarrow> x | None \<Rightarrow> v)"

definition updateSequence :: "string \<Rightarrow> sequence_patch \<Rightarrow> int \<Rightarrow> seq_state \<Rightarrow> seq_state \<times> email_sequence option" where
  "updateSequence i p now s =
     (let s' = s\<lparr>sequences := map (\<lambda>q. if sequence_id q = i
            then q\<lparr>sequence_name := or_old (p_name p) (sequence_name q),
                   description := or_old (map_option Some (p_description p)) (description q),
                   steps := or_old (p_steps p) (steps q),
                   exitOnReply := or_old (p_exitOnReply p) (exitOnReply q),
                   sequence_status := or_old (p_status p) (sequence_status q),
                   sequence_updatedAt := now\<rparr> else q) (sequences s)\<rparr>
      in (s', getSequence s' i))"

text \<open>Deleting the sequence row deletes its enrollments (the foreign key cascades), after their
  status was set.\<close>

definition deleteSequence :: "string \<Rightarrow> int \<Rightarrow> seq_state \<Rightarrow> seq_state" where
  "deleteSequence i now s =
     (let s1 = s\<lparr>enrollments := map (\<lambda>e. if sequenceId e = i \<and> status e = Active
              then e\<lparr>status := Cancelled, updatedAt := now\<rparr> else e) (enrollments s)\<rparr>
      in if getSequence s1 i = None then s1
         else s1\<lparr>sequences := filter (\<lambda>q. sequence_id q \<noteq> i) (sequences s1),
                 enrollments := filter (\<lambda>e. sequenceId e \<noteq> i) (enrollments s1)\<rparr>)"

definition getEnrollment :: "seq_state \<Rightarrow> string \<Rightarrow> enrollment option" where
  "getEnrollment s i = find (\<lambda>e. enrollment_id e = i) (enrollments s)"

definition enrollContact ::
  "string \<Rightarrow> string \<Rightarrow> string option \<Rightarrow> (string \<times> json) list option \<Rightarrow> string \<Rightarrow> int \<Rightarrow> seq_state \<Rightarrow>
   seq_state \<times> (seq_error + enrollment)" where
  "enrollContact seq email name ctx i now s =
     (case getSequence s seq of
        None \<Rightarrow> (s, Inl SequenceNotFound)
      | Some q \<Rightarrow>
          (case steps q of
             [] \<Rightarrow> (s, Inl NoSteps)
           | first # _ \<Rightarrow>
               if getEnrollment s i \<noteq> None then (s, Inl ConstraintError)
               else (let row = \<lparr>enrollment_id = i, sequenceId = seq, contactEmail = to_lower email,
                       contactName = name, currentStep = 0, status = Active, conversationId = None,
                       nextStepAt = Some (now + delaySeconds first * 1000), context_of = ctx,
                       createdAt = now, updatedAt = now\<rparr>
                     in (s\<lparr>enrollments := enrollments s @ [row]\<rparr>, Inr row))))"

text \<open>An empty filter string is falsy and filters nothing.\<close>

definition listEnrollments ::
  "seq_state \<Rightarrow> string option \<Rightarrow> enrollment_status option \<Rightarrow> string option \<Rightarrow> enrollment list" where
  "listEnrollments s seq st email =
     filter (\<lambda>e. (seq = None \<or> seq = Some [] \<or> seq = Some (sequenceId e)) \<and> (st = None \<or> st = Some (status e))
               \<and> (email = None \<or> email = Some [] \<or> email = Some (contactEmail e))) (enrollments s)"

definition update_enrollment :: "string \<Rightarrow> (enrollment \<Rightarrow> enrollment) \<Rightarrow> seq_state \<Rightarrow> seq_state" where
  "update_enrollment i f s =
     s\<lparr>enrollments := map (\<lambda>e. if enrollment_id e = i then f e else e) (enrollments s)\<rparr>"

definition exitEnrollment :: "string \<Rightarrow> enrollment_status \<Rightarrow> int \<Rightarrow> seq_state \<Rightarrow> seq_state" where
  "exitEnrollment i reason now =
     update_enrollment i (\<lambda>e. e\<lparr>status := reason, nextStepAt := None, updatedAt := now\<rparr>)"

definition pauseEnrollment :: "string \<Rightarrow> int \<Rightarrow> seq_state \<Rightarrow> seq_state" where
  "pauseEnrollment i now =
     update_enrollment i (\<lambda>e. e\<lparr>status := Paused, nextStepAt := None, updatedAt := now\<rparr>)"

definition resumeEnrollment :: "string \<Rightarrow> int \<Rightarrow> seq_state \<Rightarrow> seq_state" where
  "resumeEnrollment i now =
     update_enrollment i (\<lambda>e. e\<lparr>status := Active, nextStepAt := Some now, updatedAt := now\<rparr>)"

definition rescheduleEnrollment :: "string \<Rightarrow> int \<Rightarrow> int \<Rightarrow> seq_state \<Rightarrow> seq_state" where
  "rescheduleEnrollment i at now = update_enrollment i (\<lambda>e. e\<lparr>nextStepAt := Some at, updatedAt := now\<rparr>)"

definition updateEnrollmentConversationId :: "string \<Rightarrow> string \<Rightarrow> int \<Rightarrow> seq_state \<Rightarrow> seq_state" where
  "updateEnrollmentConversationId i c now =
     update_enrollment i (\<lambda>e. e\<lparr>conversationId := Some c, updatedAt := now\<rparr>)"

text \<open>The next time is always passed: a time, or null after the last step.\<close>

definition advanceEnrollment :: "string \<Rightarrow> string option \<Rightarrow> int option \<Rightarrow> int \<Rightarrow> seq_state \<Rightarrow> seq_state" where
  "advanceEnrollment i conv at now s =
     (case getEnrollment s i of
        None \<Rightarrow> s
      | Some cur \<Rightarrow>
          update_enrollment i (\<lambda>e. e\<lparr>currentStep := currentStep cur + 1,
             conversationId := (case conv of Some c \<Rightarrow> Some c | None \<Rightarrow> conversationId e),
             nextStepAt := at, updatedAt := now\<rparr>) s)"

definition findActiveEnrollmentsByEmail :: "seq_state \<Rightarrow> string \<Rightarrow> enrollment list" where
  "findActiveEnrollmentsByEmail s email =
     filter (\<lambda>e. contactEmail e = email \<and> status e = Active) (enrollments s)"

definition countActiveEnrollments :: "seq_state \<Rightarrow> string \<Rightarrow> nat" where
  "countActiveEnrollments s seq =
     length (filter (\<lambda>e. sequenceId e = seq \<and> status e = Active) (enrollments s))"

section \<open>Claiming\<close>

definition due_candidates :: "int \<Rightarrow> nat \<Rightarrow> seq_state \<Rightarrow> enrollment list" where
  "due_candidates now limit s =
     take limit (sort_key (\<lambda>e. the (nextStepAt e))
       (filter (\<lambda>e. status e = Active \<and> nextStepAt e \<noteq> None \<and> the (nextStepAt e) \<le> now) (enrollments s)))"

definition claim_row :: "enrollment \<Rightarrow> int \<Rightarrow> seq_state \<Rightarrow> seq_state \<times> bool" where
  "claim_row row now s =
     (let hit = (\<lambda>e. enrollment_id e = enrollment_id row \<and> status e = Active
                   \<and> nextStepAt e \<noteq> None \<and> nextStepAt e = nextStepAt row)
      in (s\<lparr>enrollments := map (\<lambda>e. if hit e then e\<lparr>nextStepAt := None, updatedAt := now\<rparr> else e) (enrollments s)\<rparr>,
          list_ex hit (enrollments s)))"

text \<open>Other writers may run between the select and the updates: \<open>others k\<close> runs before the
  \<open>k\<close>-th update.\<close>

fun claim_loop ::
  "(nat \<Rightarrow> seq_state \<Rightarrow> seq_state) \<Rightarrow> int \<Rightarrow> nat \<Rightarrow> enrollment list \<Rightarrow> seq_state \<Rightarrow> seq_state \<times> enrollment list" where
  "claim_loop others now k [] s = (s, [])"
| "claim_loop others now k (row # rows) s =
     (let (s1, ok) = claim_row row now (others k s);
          (s2, claimed) = claim_loop others now (Suc k) rows s1
      in (s2, if ok then row\<lparr>nextStepAt := None, updatedAt := now\<rparr> # claimed else claimed))"

definition claimDueEnrollments ::
  "bool \<Rightarrow> (nat \<Rightarrow> seq_state \<Rightarrow> seq_state) \<Rightarrow> int \<Rightarrow> nat \<Rightarrow> seq_state \<Rightarrow> seq_state \<times> enrollment list" where
  "claimDueEnrollments quiesced others now limit s =
     (if quiesced then (s, []) else claim_loop others now 0 (due_candidates now limit s) s)"

section \<open>Event log and guardrails\<close>

definition MAX_EVENT_LOG_SIZE :: nat where
  "MAX_EVENT_LOG_SIZE = 10000"

definition recordEvent ::
  "string \<Rightarrow> string \<Rightarrow> event_type \<Rightarrow> nat option \<Rightarrow> json option \<Rightarrow> int \<Rightarrow> seq_state \<Rightarrow> seq_state" where
  "recordEvent seq enr kind st meta now s =
     (let n = eventCounter s + 1;
          elog = eventLog s @ [\<lparr>event_id = n, event_sequence = seq, event_enrollment = enr, event_kind = kind,
                  event_step = st, event_metadata = meta, event_at = now\<rparr>];
          elog' = (if length elog > MAX_EVENT_LOG_SIZE
                  then drop (length elog - MAX_EVENT_LOG_SIZE div 2) elog else elog)
      in s\<lparr>eventCounter := n, eventLog := elog'\<rparr>)"

record config_patch =
  cp_dailySendCap :: "nat option"
  cp_perSequenceHourlyRate :: "nat option"
  cp_minimumStepDelaySec :: "int option"
  cp_maxActiveEnrollments :: "nat option"
  cp_duplicateEnrollmentCheck :: "bool option"
  cp_cooldownPeriodMs :: "int option"

definition setGuardrailConfig :: "config_patch \<Rightarrow> seq_state \<Rightarrow> seq_state" where
  "setGuardrailConfig p s = s\<lparr>config :=
     \<lparr>dailySendCap = or_old (cp_dailySendCap p) (dailySendCap (config s)),
      perSequenceHourlyRate = or_old (cp_perSequenceHourlyRate p) (perSequenceHourlyRate (config s)),
      minimumStepDelaySec = or_old (cp_minimumStepDelaySec p) (minimumStepDelaySec (config s)),
      maxActiveEnrollments = or_old (cp_maxActiveEnrollments p) (maxActiveEnrollments (config s)),
      duplicateEnrollmentCheck = or_old (cp_duplicateEnrollmentCheck p) (duplicateEnrollmentCheck (config s)),
      cooldownPeriodMs = or_old (cp_cooldownPeriodMs p) (cooldownPeriodMs (config s))\<rparr>\<rparr>"

definition recordSend :: "string \<Rightarrow> int \<Rightarrow> seq_state \<Rightarrow> seq_state" where
  "recordSend seq now s = s\<lparr>sendLog := sendLog s @ [\<lparr>send_sequence = seq, send_at = now\<rparr>]\<rparr>"

definition getSendsToday :: "int \<Rightarrow> seq_state \<Rightarrow> nat" where
  "getSendsToday startOfDay s = length (filter (\<lambda>r. send_at r \<ge> startOfDay) (sendLog s))"

definition getSendsThisHour :: "string \<Rightarrow> int \<Rightarrow> seq_state \<Rightarrow> nat" where
  "getSendsThisHour seq now s =
     length (filter (\<lambda>r. send_sequence r = seq \<and> send_at r \<ge> now - 60 * 60 * 1000) (sendLog s))"

datatype guardrail = DailyCap | HourlyRate | MinDelay | EnrollmentCap | Duplicate | Cooldown

definition checkDailyCap :: "int \<Rightarrow> seq_state \<Rightarrow> guardrail option" where
  "checkDailyCap startOfDay s =
     (if getSendsToday startOfDay s \<ge> dailySendCap (config s) then Some DailyCap else None)"

definition checkHourlyRate :: "string \<Rightarrow> int \<Rightarrow> seq_state \<Rightarrow> guardrail option" where
  "checkHourlyRate seq now s =
     (if getSendsThisHour seq now s \<ge> perSequenceHourlyRate (config s) then Some HourlyRate else None)"

definition checkMinDelay :: "int \<Rightarrow> seq_state \<Rightarrow> guardrail option" where
  "checkMinDelay delaySec s =
     (if delaySec > 0 \<and> delaySec < minimumStepDelaySec (config s) then Some MinDelay else None)"

definition checkEnrollmentCap :: "string \<Rightarrow> seq_state \<Rightarrow> guardrail option" where
  "checkEnrollmentCap seq s =
     (if countActiveEnrollments s seq \<ge> maxActiveEnrollments (config s) then Some EnrollmentCap else None)"

definition checkDuplicateEnrollment :: "string \<Rightarrow> string \<Rightarrow> string option \<Rightarrow> seq_state \<Rightarrow> guardrail option" where
  "checkDuplicateEnrollment seq email exclude s =
     (if \<not> duplicateEnrollmentCheck (config s) then None
      else (let existing = listEnrollments s (Some seq) (Some Active) (Some email);
                duplicates = (case exclude of None \<Rightarrow> existing
                              | Some x \<Rightarrow> filter (\<lambda>e. enrollment_id e \<noteq> x) existing)
            in if duplicates \<noteq> [] then Some Duplicate else None))"

definition checkCooldown :: "string \<Rightarrow> string \<Rightarrow> int \<Rightarrow> seq_state \<Rightarrow> guardrail option" where
  "checkCooldown seq email now s =
     (if cooldownPeriodMs (config s) \<le> 0 then None
      else (let past = listEnrollments s (Some seq) None (Some email)
            in if list_ex (\<lambda>e. (status e = Completed \<or> status e = Replied)
                             \<and> updatedAt e \<ge> now - cooldownPeriodMs (config s)) past
               then Some Cooldown else None))"

text \<open>The first failing check, in the order of the source.\<close>

fun first_failing :: "guardrail option list \<Rightarrow> guardrail option" where
  "first_failing [] = None"
| "first_failing (Some g # cs) = Some g"
| "first_failing (None # cs) = first_failing cs"

definition checkAllPreSend :: "(int \<Rightarrow> int) \<Rightarrow> string \<Rightarrow> enrollment \<Rightarrow> int \<Rightarrow> int \<Rightarrow> seq_state \<Rightarrow> guardrail option" where
  "checkAllPreSend day_start seq e stepDelaySec now s =
     first_failing
       [checkDailyCap (day_start now) s, checkHourlyRate seq now s, checkMinDelay stepDelaySec s,
        checkEnrollmentCap seq s, checkDuplicateEnrollment seq (contactEmail e) (Some (enrollment_id e)) s,
        checkCooldown seq (contactEmail e) now s]"

section \<open>An example state\<close>

definition demo_state :: seq_state where
  "demo_state = \<lparr>
     sequences = [\<lparr>sequence_id = ''q'', sequence_name = ''Intro'', description = None, channel = ''email'',
       steps = [\<lparr>step_index = 0, delaySeconds = 0, subjectTemplate = ''Hi'', bodyPrompt = ''Say hi'',
                 replyInSameConversation = False, requireApproval = False\<rparr>,
                \<lparr>step_index = 1, delaySeconds = 3600, subjectTemplate = ''Bye'', bodyPrompt = ''Say bye'',
                 replyInSameConversation = True, requireApproval = True\<rparr>],
       exitOnReply = True, sequence_status = SeqActive, sequence_createdAt = 0, sequence_updatedAt = 0\<rparr>],
     enrollments = [\<lparr>enrollment_id = ''e'', sequenceId = ''q'', contactEmail = ''a@b.c'', contactName = None,
       currentStep = 0, status = Active, conversationId = None, nextStepAt = Some 5, context_of = None,
       createdAt = 0, updatedAt = 0\<rparr>],
     sendLog = [], eventLog = [], eventCounter = 0, config = DEFAULT_CONFIG\<rparr>"

end
