(* ===== verification/Sequence_Engine.thy ===== *)
theory Sequence_Engine
  imports Sequences
begin

text \<open>
  The engine of the e-mail sequences (\<^verbatim>\<open>assistant/src/sequence/engine.ts\<close>) and the reply matcher
  (\<^verbatim>\<open>reply-matcher.ts\<close>).

  A tick claims due enrollments and processes them one after the other. Each processing awaits a
  background job that writes and sends the mail. The job is outside this component: a \<open>turn\<close> says
  what it returned, the clock before and after it, and the operations other handlers of the daemon
  ran while it was awaited. The engine keeps the sequence and the enrollment it read before the job.
\<close>

section \<open>Reply matcher\<close>

text \<open>Removing every match of the lazy \<^verbatim>\<open>\(.*?\)\<close>: from an opening parenthesis to the next closing
  one on the same line; an opening parenthesis without one stays.\<close>

definition line_terminator :: "char \<Rightarrow> bool" where
  "line_terminator c \<longleftrightarrow> (of_char c :: nat) = 10 \<or> (of_char c :: nat) = 13"

fun close_paren :: "string \<Rightarrow> string option" where
  "close_paren [] = None"
| "close_paren (c # cs) =
     (if c = CHR '')'' then Some cs else if line_terminator c then None else close_paren cs)"

lemma close_paren_shorter: "close_paren s = Some r \<Longrightarrow> length r < length s"
  by (induction s arbitrary: r) (auto split: if_splits)

function strip_comments :: "string \<Rightarrow> string" where
  "strip_comments [] = []"
| "strip_comments (c # cs) =
     (if c = CHR ''('' then (case close_paren cs of Some r \<Rightarrow> strip_comments r | None \<Rightarrow> c # strip_comments cs)
      else c # strip_comments cs)"
  by pat_completeness auto
termination
  by (relation "measure length") (auto dest: close_paren_shorter)

text \<open>The matches of \<^verbatim>\<open><([^>]+)>\<close>, first the captured texts, then the text without the matches.\<close>

definition angle_match :: "string \<Rightarrow> (string \<times> string) option" where
  "angle_match cs =
     (let body = takeWhile (\<lambda>c. c \<noteq> CHR ''>'') cs
      in case drop (length body) cs of
           [] \<Rightarrow> None
         | _ # r \<Rightarrow> if body = [] then None else Some (body, r))"

lemma angle_match_shorter: "angle_match s = Some (b, r) \<Longrightarrow> length r < length s"
  by (auto simp: angle_match_def Let_def split: list.splits if_splits dest!: arg_cong [where f = length])

function angle_segments :: "string \<Rightarrow> string list" where
  "angle_segments [] = []"
| "angle_segments (c # cs) =
     (if c = CHR ''<'' then (case angle_match cs of Some (b, r) \<Rightarrow> b # angle_segments r | None \<Rightarrow> angle_segments cs)
      else angle_segments cs)"
  by pat_completeness auto
termination
  by (relation "measure length") (auto dest: angle_match_shorter)

function strip_angles :: "string \<Rightarrow> string" where
  "strip_angles [] = []"
| "strip_angles (c # cs) =
     (if c = CHR ''<'' then (case angle_match cs of Some (b, r) \<Rightarrow> strip_angles r | None \<Rightarrow> c # strip_angles cs)
      else c # strip_angles cs)"
  by pat_completeness auto
termination
  by (relation "measure length") (auto dest: angle_match_shorter)

definition extractEmail :: "string \<Rightarrow> string option" where
  "extractEmail from =
     (case find (\<lambda>seg. CHR ''@'' \<in> set seg) (rev (angle_segments (strip_comments from))) of
        Some seg \<Rightarrow> Some (to_lower (js_trim seg))
      | None \<Rightarrow>
          (let stripped = to_lower (js_trim (strip_comments (strip_angles from)))
           in if CHR ''@'' \<in> set stripped then Some stripped else None))"

record watcher_payload =
  threadId :: "string option"
  from_of :: "string option"

record reply_match =
  match_enrollment :: string
  match_email :: string
  match_sequence :: string
  match_name :: string
  match_conversation :: "string option"

text \<open>One enrollment of the inner loop. The rows were read before the loop, the sequence is read in it;
  an empty sender is skipped.\<close>

definition reply_one ::
  "string \<Rightarrow> watcher_payload \<Rightarrow> int \<Rightarrow> enrollment \<Rightarrow> seq_state \<times> reply_match list \<Rightarrow> seq_state \<times> reply_match list" where
  "reply_one sender payload now e = (\<lambda>(s, results).
     case getSequence s (sequenceId e) of
       None \<Rightarrow> (s, results)
     | Some q \<Rightarrow>
         if \<not> exitOnReply q then (s, results)
         else if conversationId e \<noteq> None \<and> conversationId e = threadId payload
         then (exitEnrollment (enrollment_id e) Replied now
                 (recordEvent (sequenceId e) (enrollment_id e) ReplyEvent (Some (currentStep e))
                    (Some (JObj [(''senderEmail'', JStr sender), (''conversationId'', JStr (the (threadId payload)))])) now s),
               results @ [\<lparr>match_enrollment = enrollment_id e, match_email = contactEmail e,
                           match_sequence = sequenceId e, match_name = sequence_name q,
                           match_conversation = threadId payload\<rparr>])
         else (s, results))"

definition reply_payload :: "int \<Rightarrow> seq_state \<times> reply_match list \<Rightarrow> watcher_payload \<Rightarrow> seq_state \<times> reply_match list" where
  "reply_payload now = (\<lambda>(s, results) payload.
     case extractEmail (case from_of payload of Some f \<Rightarrow> f | None \<Rightarrow> []) of
       None \<Rightarrow> (s, results)
     | Some sender \<Rightarrow>
         if sender = [] then (s, results)
         else fold (reply_one sender payload now) (findActiveEnrollmentsByEmail s sender) (s, results))"

definition checkForSequenceReplies :: "watcher_payload list \<Rightarrow> int \<Rightarrow> seq_state \<Rightarrow> seq_state \<times> reply_match list" where
  "checkForSequenceReplies payloads now s = foldl (reply_payload now) (s, []) payloads"

section \<open>What other handlers do during a job\<close>

datatype seq_op =
    CreateSeq string "string option" string "sequence_step list" "bool option" string int
  | UpdateSeq string sequence_patch int
  | DeleteSeq string int
  | Enroll string string "string option" "(string \<times> json) list option" string int
  | Cancel string int
  | Pause string int
  | Resume string int
  | Replies "watcher_payload list" int
  | SetConfig config_patch

fun apply_op :: "seq_state \<Rightarrow> seq_op \<Rightarrow> seq_state" where
  "apply_op s (CreateSeq n d c sts r i now) = fst (createSequence n d c sts r i now s)"
| "apply_op s (UpdateSeq i p now) = fst (updateSequence i p now s)"
| "apply_op s (DeleteSeq i now) = deleteSequence i now s"
| "apply_op s (Enroll q em n ctx i now) = fst (enrollContact q em n ctx i now s)"
| "apply_op s (Cancel i now) = exitEnrollment i Cancelled now s"
| "apply_op s (Pause i now) = pauseEnrollment i now s"
| "apply_op s (Resume i now) = resumeEnrollment i now s"
| "apply_op s (Replies ps now) = fst (checkForSequenceReplies ps now s)"
| "apply_op s (SetConfig p) = setGuardrailConfig p s"

section \<open>Engine\<close>

definition BATCH_SIZE :: nat where
  "BATCH_SIZE = 10"

definition ERROR_RETRY_DELAY_MS :: int where
  "ERROR_RETRY_DELAY_MS = 60000"

text \<open>The result of the background job, with the thread id found in its conversation, if any.\<close>

datatype job_result = JobOk "string option" | JobTimeout | JobError

record turn =
  clock_before :: int
  during :: "seq_op list"
  job :: job_result
  clock_after :: int

definition advanceEnrollmentToCurrentStep :: "enrollment \<Rightarrow> int \<Rightarrow> seq_state \<Rightarrow> seq_state" where
  "advanceEnrollmentToCurrentStep e now = rescheduleEnrollment (enrollment_id e) (now + 60000) now"

text \<open>From the job's result on. The second component tells whether the function returned (it throws
  when the job failed otherwise than by a timeout).\<close>

definition finish_step ::
  "turn \<Rightarrow> enrollment \<Rightarrow> email_sequence \<Rightarrow> sequence_step \<Rightarrow> seq_state \<Rightarrow> seq_state \<times> bool" where
  "finish_step tn e q st s =
     (let i = enrollment_id e; now = clock_after tn
      in case job tn of
           JobTimeout \<Rightarrow>
             (exitEnrollment i Failed now
               (recordEvent (sequence_id q) i FailEvent (Some (step_index st))
                 (Some (JObj [(''reason'', JStr ''step_timeout'')])) now s), True)
         | JobError \<Rightarrow> (s, False)
         | JobOk thread \<Rightarrow>
             if requireApproval st
             then (case thread of None \<Rightarrow> s | Some c \<Rightarrow> updateEnrollmentConversationId i c now s, True)
             else
               (let s1 = recordEvent (sequence_id q) i SendEvent (Some (step_index st)) None now
                           (recordSend (sequence_id q) now s);
                    nextStepIndex = currentStep e + 1
                in if nextStepIndex \<ge> length (steps q)
                   then (exitEnrollment i Completed now
                          (recordEvent (sequence_id q) i CompleteEvent (Some (step_index st)) None now
                            (advanceEnrollment i thread None now s1)), True)
                   else (advanceEnrollment i thread
                          (Some (now + delaySeconds (steps q ! nextStepIndex) * 1000)) now s1, True)))"

definition processEnrollment :: "(int \<Rightarrow> int) \<Rightarrow> turn \<Rightarrow> enrollment \<Rightarrow> seq_state \<Rightarrow> seq_state \<times> bool" where
  "processEnrollment day_start tn e s =
     (let i = enrollment_id e; now = clock_before tn
      in case getSequence s (sequenceId e) of
           None \<Rightarrow>
             (exitEnrollment i Failed now
               (recordEvent (sequenceId e) i FailEvent None
                 (Some (JObj [(''reason'', JStr ''sequence_not_found'')])) now s), True)
         | Some q \<Rightarrow>
             if sequence_status q \<noteq> SeqActive then (advanceEnrollmentToCurrentStep e now s, True)
             else if currentStep e \<ge> length (steps q)
             then (exitEnrollment i Completed now (recordEvent (sequence_id q) i CompleteEvent None None now s), True)
             else
               (let st = steps q ! currentStep e
                in case checkAllPreSend day_start (sequence_id q) e (delaySeconds st) now s of
                     Some g \<Rightarrow> (rescheduleEnrollment i (now + ERROR_RETRY_DELAY_MS) now s, True)
                   | None \<Rightarrow> finish_step tn e q st (foldl apply_op s (during tn))))"

text \<open>One iteration of the tick: an exception reschedules the enrollment when it is still active.\<close>

definition tick_one :: "(int \<Rightarrow> int) \<Rightarrow> turn \<Rightarrow> enrollment \<Rightarrow> seq_state \<Rightarrow> seq_state \<times> bool" where
  "tick_one day_start tn e s =
     (let (s1, ok) = processEnrollment day_start tn e s; i = enrollment_id e
      in if ok then (s1, True)
         else (case getEnrollment s1 i of
                 None \<Rightarrow> s1
               | Some cur \<Rightarrow>
                   if status cur = Active
                   then rescheduleEnrollment i (clock_after tn + ERROR_RETRY_DELAY_MS) (clock_after tn) s1
                   else s1, False))"

fun tick_loop :: "(int \<Rightarrow> int) \<Rightarrow> (nat \<Rightarrow> turn) \<Rightarrow> nat \<Rightarrow> enrollment list \<Rightarrow> seq_state \<Rightarrow> seq_state \<times> nat" where
  "tick_loop day_start turns k [] s = (s, 0)"
| "tick_loop day_start turns k (e # es) s =
     (let (s1, ok) = tick_one day_start (turns k) e s;
          (s2, n) = tick_loop day_start turns (Suc k) es s1
      in (s2, (if ok then 1 else 0) + n))"

text \<open>The claim of the engine runs in the daemon's own process without an await, so no other writer
  of this process comes between its statements.\<close>

definition runSequencesOnce ::
  "(int \<Rightarrow> int) \<Rightarrow> bool \<Rightarrow> int \<Rightarrow> (nat \<Rightarrow> turn) \<Rightarrow> seq_state \<Rightarrow> seq_state \<times> nat" where
  "runSequencesOnce day_start quiesced now turns s =
     (let (s1, claimed) = claimDueEnrollments quiesced (\<lambda>_. id) now BATCH_SIZE s
      in tick_loop day_start turns 0 claimed s1)"

section \<open>Frames\<close>

named_theorems seq_frame \<open>what the operations leave alone\<close>

lemma recordEvent_frame [seq_frame, simp]:
  "enrollments (recordEvent a b c d m now s) = enrollments s"
  "sequences (recordEvent a b c d m now s) = sequences s"
  "sendLog (recordEvent a b c d m now s) = sendLog s"
  "config (recordEvent a b c d m now s) = config s"
  by (simp_all add: recordEvent_def Let_def)

lemma recordSend_frame [seq_frame, simp]:
  "enrollments (recordSend a now s) = enrollments s"
  "sequences (recordSend a now s) = sequences s"
  "sendLog (recordSend a now s) = sendLog s @ [\<lparr>send_sequence = a, send_at = now\<rparr>]"
  "config (recordSend a now s) = config s"
  by (simp_all add: recordSend_def)

lemma update_enrollment_frame [seq_frame, simp]:
  "sequences (update_enrollment i f s) = sequences s"
  "sendLog (update_enrollment i f s) = sendLog s"
  "config (update_enrollment i f s) = config s"
  by (simp_all add: update_enrollment_def)

lemmas enrollment_writes =
  exitEnrollment_def pauseEnrollment_def resumeEnrollment_def rescheduleEnrollment_def
  updateEnrollmentConversationId_def advanceEnrollmentToCurrentStep_def

definition sends_unchanged :: "seq_state \<Rightarrow> seq_state \<Rightarrow> bool" where
  "sends_unchanged s s' \<longleftrightarrow> sendLog s' = sendLog s \<and> config s' = config s"

lemma sends_unchanged_refl [simp]: "sends_unchanged s s"
  by (simp add: sends_unchanged_def)

lemma sends_unchanged_trans: "sends_unchanged a b \<Longrightarrow> sends_unchanged b c \<Longrightarrow> sends_unchanged a c"
  by (simp add: sends_unchanged_def)

lemma advanceEnrollment_sends [simp]:
  "sendLog (advanceEnrollment i c a now s) = sendLog s" "config (advanceEnrollment i c a now s) = config s"
  by (simp_all add: advanceEnrollment_def split: option.split)

lemma reply_one_sends: "sends_unchanged (fst p) (fst (reply_one a b now e p))"
  by (cases p) (simp add: reply_one_def sends_unchanged_def enrollment_writes split: option.split)

lemma fold_reply_one_sends: "sends_unchanged (fst p) (fst (fold (reply_one a b now) es p))"
proof (induction es arbitrary: p)
  case (Cons e es)
  show ?case using sends_unchanged_trans [OF reply_one_sends Cons.IH] by simp
qed simp

lemma reply_payload_sends: "sends_unchanged (fst p) (fst (reply_payload now p b))"
  using fold_reply_one_sends [of p]
  by (cases p) (auto simp: reply_payload_def split: option.split)

lemma foldl_reply_payload_sends: "sends_unchanged (fst p) (fst (foldl (reply_payload now) p bs))"
proof (induction bs arbitrary: p)
  case (Cons b bs)
  show ?case using sends_unchanged_trans [OF reply_payload_sends Cons.IH] by simp
qed simp

text \<open>A patch of the guardrails, and a state, whose caps are at most the given ones.\<close>

definition patch_within :: "nat \<Rightarrow> nat \<Rightarrow> config_patch \<Rightarrow> bool" where
  "patch_within D H p \<longleftrightarrow>
     (case cp_dailySendCap p of Some v \<Rightarrow> v \<le> D | None \<Rightarrow> True)
     \<and> (case cp_perSequenceHourlyRate p of Some v \<Rightarrow> v \<le> H | None \<Rightarrow> True)"

definition caps_within :: "nat \<Rightarrow> nat \<Rightarrow> seq_state \<Rightarrow> bool" where
  "caps_within D H s \<longleftrightarrow> dailySendCap (config s) \<le> D \<and> perSequenceHourlyRate (config s) \<le> H"

fun op_patches :: "seq_op \<Rightarrow> config_patch list" where
  "op_patches (SetConfig p) = [p]"
| "op_patches _ = []"

definition ops_patches :: "seq_op list \<Rightarrow> config_patch list" where
  "ops_patches ops = concat (map op_patches ops)"

lemma ops_patches_simps [simp]:
  "ops_patches [] = []" "ops_patches (op # ops) = op_patches op @ ops_patches ops"
  by (simp_all add: ops_patches_def)

lemma setGuardrailConfig_caps:
  "patch_within D H p \<Longrightarrow> caps_within D H s \<Longrightarrow> caps_within D H (setGuardrailConfig p s)"
  by (auto simp: patch_within_def caps_within_def setGuardrailConfig_def or_old_def split: option.splits)

lemma setGuardrailConfig_frame [simp]:
  "sendLog (setGuardrailConfig p s) = sendLog s"
  "enrollments (setGuardrailConfig p s) = enrollments s"
  by (simp_all add: setGuardrailConfig_def)

lemma sends_unchanged_caps: "sends_unchanged s s' \<Longrightarrow> caps_within D H s' = caps_within D H s"
  by (simp add: sends_unchanged_def caps_within_def)

lemma apply_op_sends: "op_patches op = [] \<Longrightarrow> sends_unchanged s (apply_op s op)"
proof (cases op)
  case (Replies ps now)
  then show ?thesis
    using foldl_reply_payload_sends [of "(s, [])"] by (simp add: checkForSequenceReplies_def)
qed (auto simp: sends_unchanged_def createSequence_def updateSequence_def deleteSequence_def enrollContact_def
      enrollment_writes Let_def split: option.split list.split)

lemma apply_op_log: "sendLog (apply_op s op) = sendLog s"
  using apply_op_sends [of op s] by (cases op) (simp_all add: sends_unchanged_def)

lemma apply_op_caps:
  "caps_within D H s \<Longrightarrow> \<forall>p \<in> set (op_patches op). patch_within D H p \<Longrightarrow> caps_within D H (apply_op s op)"
  using sends_unchanged_caps [OF apply_op_sends, of op D H s] by (cases op) (simp_all add: setGuardrailConfig_caps)

lemma apply_ops_log: "sendLog (foldl apply_op s ops) = sendLog s"
  by (induction ops arbitrary: s) (simp_all add: apply_op_log)

lemma apply_ops_caps:
  "caps_within D H s \<Longrightarrow> \<forall>p \<in> set (ops_patches ops). patch_within D H p \<Longrightarrow> caps_within D H (foldl apply_op s ops)"
  by (induction ops arbitrary: s) (auto intro: apply_op_caps)

section \<open>Send caps\<close>

lemma first_failing_None: "first_failing cs = None \<longleftrightarrow> (\<forall>c \<in> set cs. c = None)"
  by (induction cs rule: first_failing.induct) auto

lemma checkAllPreSend_caps:
  assumes "checkAllPreSend day_start q e d now s = None"
  shows "getSendsToday (day_start now) s < dailySendCap (config s)"
    and "getSendsThisHour q now s < perSequenceHourlyRate (config s)"
  using assms
  by (auto simp: checkAllPreSend_def first_failing_None checkDailyCap_def checkHourlyRate_def split: if_splits)

definition day_sends :: "(int \<Rightarrow> int) \<Rightarrow> int \<Rightarrow> seq_state \<Rightarrow> nat" where
  "day_sends day_start d s = length (filter (\<lambda>r. day_start (send_at r) = d) (sendLog s))"

definition window_sends :: "string \<Rightarrow> int \<Rightarrow> seq_state \<Rightarrow> nat" where
  "window_sends q t s =
     length (filter (\<lambda>r. send_sequence r = q \<and> t - 60 * 60 * 1000 \<le> send_at r \<and> send_at r \<le> t) (sendLog s))"

definition sends_ok :: "(int \<Rightarrow> int) \<Rightarrow> nat \<Rightarrow> nat \<Rightarrow> int \<Rightarrow> seq_state \<Rightarrow> bool" where
  "sends_ok day_start D H c s \<longleftrightarrow>
     (\<forall>r \<in> set (sendLog s). send_at r \<le> c)
     \<and> (\<forall>d. day_sends day_start d s \<le> D) \<and> (\<forall>q t. window_sends q t s \<le> H) \<and> caps_within D H s"

lemma sends_ok_later: "sends_ok day_start D H c s \<Longrightarrow> c \<le> c' \<Longrightarrow> sends_ok day_start D H c' s"
  unfolding sends_ok_def by fastforce

lemma sends_ok_same:
  "sends_ok day_start D H c s \<Longrightarrow> sendLog s' = sendLog s \<Longrightarrow> caps_within D H s' \<Longrightarrow> sends_ok day_start D H c s'"
  by (simp add: sends_ok_def day_sends_def window_sends_def)

lemma sends_ok_unchanged: "sends_unchanged s s' \<Longrightarrow> sends_ok day_start D H c s \<Longrightarrow> sends_ok day_start D H c s'"
  by (rule sends_ok_same) (auto simp: sends_unchanged_def sends_ok_def caps_within_def)

text \<open>A send recorded at \<open>t1\<close> after a check at \<open>t0\<close> keeps both caps.\<close>

lemma recordSend_ok:
  assumes ok: "sends_ok day_start D H t0 s" and le: "t0 \<le> t1"
    and mono: "mono day_start" and before: "\<And>x. day_start x \<le> x"
    and today: "getSendsToday (day_start t0) s < D"
    and hour: "getSendsThisHour q t0 s < H"
  shows "sends_ok day_start D H t1 (recordSend q t1 s)"
proof -
  have past: "send_at r \<le> t0" if "r \<in> set (sendLog s)" for r
    using ok that by (simp add: sends_ok_def)
  have "day_sends day_start (day_start t1) s \<le> getSendsToday (day_start t0) s"
    unfolding day_sends_def getSendsToday_def
  proof (rule length_filter_mono)
    fix r assume r: "r \<in> set (sendLog s)" "day_start (send_at r) = day_start t1"
    have "day_start (send_at r) \<le> day_start t0" "day_start t0 \<le> day_start t1"
      using past [OF r(1)] le mono by (auto simp: mono_def)
    then show "day_start t0 \<le> send_at r" using r(2) before [of "send_at r"] by simp
  qed
  then have day: "day_sends day_start d (recordSend q t1 s) \<le> D" for d
    using ok today by (auto simp: sends_ok_def day_sends_def)
  have "window_sends q t s \<le> getSendsThisHour q t0 s" if "t1 \<le> t" for t
    unfolding window_sends_def getSendsThisHour_def
    by (rule length_filter_mono) (use that le in auto)
  then have win: "window_sends q' t (recordSend q t1 s) \<le> H" for q' t
    using ok hour by (force simp: sends_ok_def window_sends_def)
  have caps: "caps_within D H (recordSend q t1 s)"
    using ok by (simp add: sends_ok_def caps_within_def)
  show ?thesis
    using day win caps past le by (fastforce simp: sends_ok_def)
qed

lemma finish_step_ok:
  assumes "sends_ok day_start D H t0 s" "t0 \<le> clock_after tn" "mono day_start" "\<And>x. day_start x \<le> x"
    "getSendsToday (day_start t0) s < D" "getSendsThisHour (sequence_id q) t0 s < H"
  shows "sends_ok day_start D H (clock_after tn) (fst (finish_step tn e q st s))"
proof -
  note sent = recordSend_ok [OF assms(1-6)]
  note idle = sends_ok_later [OF assms(1,2)]
  have frame: "sends_ok day_start D H (clock_after tn) s'"
    if "sendLog s' = sendLog s \<or> sendLog s' = sendLog (recordSend (sequence_id q) (clock_after tn) s)"
      "config s' = config s" for s'
    using that idle sent
      sends_ok_unchanged [of s s'] sends_ok_unchanged [of "recordSend (sequence_id q) (clock_after tn) s" s']
    by (auto simp: sends_unchanged_def)
  show ?thesis
    by (rule frame) (simp_all add: finish_step_def Let_def enrollment_writes split: job_result.split option.split)
qed

text \<open>The caps are read before the job: patches made while it runs do not matter to its send, only to
  later checks.\<close>

lemma processEnrollment_ok:
  assumes "sends_ok day_start D H c s" "c \<le> clock_before tn" "clock_before tn \<le> clock_after tn"
    "mono day_start" "\<And>x. day_start x \<le> x" "\<forall>p \<in> set (ops_patches (during tn)). patch_within D H p"
  shows "sends_ok day_start D H (clock_after tn) (fst (processEnrollment day_start tn e s))"
proof -
  let ?s = "foldl apply_op s (during tn)"
  have now: "sends_ok day_start D H (clock_before tn) s" and later: "sends_ok day_start D H (clock_after tn) s"
    using assms(1-3) sends_ok_later by (blast, force)
  have caps: "caps_within D H s" using assms(1) by (simp add: sends_ok_def)
  have u: "sends_ok day_start D H (clock_before tn) ?s"
    by (rule sends_ok_same [OF now apply_ops_log apply_ops_caps [OF caps assms(6)]])
  have keep: "sends_ok day_start D H (clock_after tn) s'" if "sendLog s' = sendLog s" "config s' = config s" for s'
    using that later sends_ok_unchanged [of s s'] by (simp add: sends_unchanged_def)
  have job: "sends_ok day_start D H (clock_after tn) (fst (finish_step tn e q st ?s))"
    if c: "checkAllPreSend day_start (sequence_id q) e d (clock_before tn) s = None" for q st d
  proof (rule finish_step_ok [OF u assms(3-5)])
    show "getSendsToday (day_start (clock_before tn)) ?s < D"
      "getSendsThisHour (sequence_id q) (clock_before tn) ?s < H"
      using checkAllPreSend_caps [OF c] caps
      by (simp_all add: getSendsToday_def getSendsThisHour_def apply_ops_log caps_within_def)
  qed
  show ?thesis
    by (auto simp: processEnrollment_def Let_def enrollment_writes keep job split: option.split)
qed

lemma tick_one_ok:
  assumes "sends_ok day_start D H c s" "c \<le> clock_before tn" "clock_before tn \<le> clock_after tn"
    "mono day_start" "\<And>x. day_start x \<le> x" "\<forall>p \<in> set (ops_patches (during tn)). patch_within D H p"
  shows "sends_ok day_start D H (clock_after tn) (fst (tick_one day_start tn e s))"
proof -
  obtain s1 ok where p: "processEnrollment day_start tn e s = (s1, ok)" by fastforce
  have s1: "sends_ok day_start D H (clock_after tn) s1"
    using processEnrollment_ok [OF assms, of e] p by simp
  have "sends_unchanged s1 (fst (tick_one day_start tn e s))"
    by (simp add: tick_one_def p Let_def sends_unchanged_def enrollment_writes split: option.split)
  then show ?thesis using s1 sends_ok_unchanged by blast
qed

section \<open>Runs\<close>

text \<open>The scheduler's ticks and the other handlers, in the order in which they run; a tick has the
  clock of its claim and a turn for each claimed enrollment. Ticks do not overlap: the scheduler's timer
  skips a tick while one is running.\<close>

datatype seq_run_event = Tick bool int "nat \<Rightarrow> turn" | Handler seq_op

fun run_event :: "(int \<Rightarrow> int) \<Rightarrow> seq_state \<Rightarrow> seq_run_event \<Rightarrow> seq_state" where
  "run_event day_start s (Tick quiesced now turns) = fst (runSequencesOnce day_start quiesced now turns s)"
| "run_event day_start s (Handler op) = apply_op s op"

definition turn_clocks :: "(nat \<Rightarrow> turn) \<Rightarrow> nat \<Rightarrow> nat \<Rightarrow> int list" where
  "turn_clocks turns k n = concat (map (\<lambda>j. [clock_before (turns j), clock_after (turns j)]) [k..<k + n])"

fun event_clocks :: "seq_run_event \<Rightarrow> int list" where
  "event_clocks (Tick quiesced now turns) = turn_clocks turns 0 BATCH_SIZE"
| "event_clocks (Handler op) = []"

text \<open>The patches of the guardrails made in a run, by a handler of its own or while a job runs.\<close>

fun event_patches :: "seq_run_event \<Rightarrow> config_patch list" where
  "event_patches (Tick quiesced now turns) = concat (map (\<lambda>j. ops_patches (during (turns j))) [0..<BATCH_SIZE])"
| "event_patches (Handler op) = op_patches op"

text \<open>The caps configured at the start and by every patch of the run are at most \<open>D\<close> and \<open>H\<close>.\<close>

definition caps_at_most :: "nat \<Rightarrow> nat \<Rightarrow> seq_state \<Rightarrow> seq_run_event list \<Rightarrow> bool" where
  "caps_at_most D H s es \<longleftrightarrow>
     caps_within D H s \<and> list_all (patch_within D H) (concat (map event_patches es))"

text \<open>The clock does not go backwards.\<close>

definition chronological :: "seq_run_event list \<Rightarrow> bool" where
  "chronological es \<longleftrightarrow> sorted (concat (map event_clocks es))"

lemma turn_clocks_Suc:
  "turn_clocks turns k (Suc n) = clock_before (turns k) # clock_after (turns k) # turn_clocks turns (Suc k) n"
  by (simp add: turn_clocks_def upt_conv_Cons del: upt_Suc)

lemma fst_tick_loop_Cons [simp]:
  "fst (tick_loop day_start turns k (e # es) s) =
     fst (tick_loop day_start turns (Suc k) es (fst (tick_one day_start (turns k) e s)))"
  by (simp add: Let_def case_prod_beta)

lemma fst_claim_loop_Cons [simp]:
  "fst (claim_loop others now k (row # rows) s) =
     fst (claim_loop others now (Suc k) rows (fst (claim_row row now (others k s))))"
  by (simp add: Let_def case_prod_beta)

lemma fst_runSequencesOnce:
  "fst (runSequencesOnce day_start qu now turns s) =
     (let c = claimDueEnrollments qu (\<lambda>_. id) now BATCH_SIZE s in fst (tick_loop day_start turns 0 (snd c) (fst c)))"
  by (simp add: runSequencesOnce_def Let_def case_prod_beta)

lemma tick_loop_ok:
  assumes "sends_ok day_start D H c s" "c \<le> cc" "length es \<le> n" "sorted (turn_clocks turns k n)"
    "\<forall>x \<in> set (turn_clocks turns k n). c \<le> x \<and> x \<le> cc" "mono day_start" "\<And>x. day_start x \<le> x"
    "\<forall>j \<in> {k..<k + n}. \<forall>p \<in> set (ops_patches (during (turns j))). patch_within D H p"
  shows "sends_ok day_start D H cc (fst (tick_loop day_start turns k es s))"
  using assms
proof (induction es arbitrary: s k n c)
  case Nil
  then show ?case using sends_ok_later by auto
next
  case (Cons e es)
  obtain m where n: "n = Suc m" using Cons.prems(3) by (cases n) auto
  note clocks = Cons.prems(4,5) [unfolded n turn_clocks_Suc]
  let ?tn = "turns k"
  have one: "sends_ok day_start D H (clock_after ?tn) (fst (tick_one day_start ?tn e s))"
    by (rule tick_one_ok [OF Cons.prems(1) _ _ Cons.prems(6,7)]) (use clocks Cons.prems(8) n in auto)
  have "sends_ok day_start D H cc (fst (tick_loop day_start turns (Suc k) es (fst (tick_one day_start ?tn e s))))"
    by (rule Cons.IH [OF one _ _ _ _ Cons.prems(6,7)]) (use clocks Cons.prems(3,8) n in auto)
  then show ?case by (simp only: fst_tick_loop_Cons)
qed

lemma claim_loop_sends: "sends_unchanged s (fst (claim_loop (\<lambda>_. id) now k rows s))"
proof (induction rows arbitrary: s k)
  case (Cons row rows)
  have "sends_unchanged s (fst (claim_row row now s))"
    by (simp add: claim_row_def Let_def sends_unchanged_def)
  then show ?case
    using sends_unchanged_trans Cons.IH by (metis fst_claim_loop_Cons id_apply)
qed simp

lemma claim_loop_length: "length (snd (claim_loop others now k rows s)) \<le> length rows"
proof (induction rows arbitrary: s k)
  case (Cons row rows)
  then show ?case by (simp add: Let_def case_prod_beta le_SucI)
qed simp

lemma claimDue_sends: "sends_unchanged s (fst (claimDueEnrollments qu (\<lambda>_. id) now n s))"
  using claim_loop_sends by (simp add: claimDueEnrollments_def)

lemma claimDue_length: "length (snd (claimDueEnrollments qu others now n s)) \<le> n"
  using claim_loop_length [of others now 0 "due_candidates now n s" s]
  by (simp add: claimDueEnrollments_def due_candidates_def)

lemma runSequencesOnce_ok:
  assumes "sends_ok day_start D H c s" "c \<le> cc" "sorted (turn_clocks turns 0 BATCH_SIZE)"
    "\<forall>x \<in> set (turn_clocks turns 0 BATCH_SIZE). c \<le> x \<and> x \<le> cc" "mono day_start" "\<And>x. day_start x \<le> x"
    "\<forall>p \<in> set (event_patches (Tick qu now turns)). patch_within D H p"
  shows "sends_ok day_start D H cc (fst (runSequencesOnce day_start qu now turns s))"
proof -
  obtain s1 claimed where c: "claimDueEnrollments qu (\<lambda>_. id) now BATCH_SIZE s = (s1, claimed)" by fastforce
  have "sends_ok day_start D H c s1" "length claimed \<le> BATCH_SIZE"
    using assms(1) claimDue_sends [of s qu now BATCH_SIZE] claimDue_length [of qu "\<lambda>_. id" now BATCH_SIZE s]
      sends_ok_unchanged c by auto
  then show ?thesis
    using tick_loop_ok [OF _ assms(2) _ assms(3-6), of D H s1 claimed] assms(7) by (auto simp: runSequencesOnce_def c)
qed

lemma sorted_mem_last: "sorted l \<Longrightarrow> x \<in> set l \<Longrightarrow> x \<le> last l"
  by (induction l) auto

lemma run_sends_ok:
  assumes "sends_ok day_start D H c s" "sorted (concat (map event_clocks es))"
    "\<forall>x \<in> set (concat (map event_clocks es)). c \<le> x" "mono day_start" "\<And>x. day_start x \<le> x"
    "\<forall>p \<in> set (concat (map event_patches es)). patch_within D H p"
  shows "\<exists>c'. sends_ok day_start D H c' (foldl (run_event day_start) s es)"
  using assms
proof (induction es arbitrary: s c)
  case (Cons ev es)
  have later: "\<forall>p \<in> set (concat (map event_patches es)). patch_within D H p"
    "\<forall>p \<in> set (event_patches ev). patch_within D H p"
    using Cons.prems(6) by (simp_all del: event_patches.simps)
  show ?case
  proof (cases ev)
    case (Tick qu now turns)
    let ?l = "turn_clocks turns 0 BATCH_SIZE"
    have s: "sorted ?l" "\<forall>x \<in> set ?l. c \<le> x \<and> x \<le> last (c # ?l)" "c \<le> last (c # ?l)"
      "\<forall>x \<in> set (concat (map event_clocks es)). last (c # ?l) \<le> x"
      using Cons.prems(2,3) Tick sorted_mem_last [of ?l] last_in_set [of ?l] by (auto simp: sorted_append)
    have "sends_ok day_start D H (last (c # ?l)) (fst (runSequencesOnce day_start qu now turns s))"
      by (rule runSequencesOnce_ok [OF Cons.prems(1) s(3,1,2) Cons.prems(4,5) later(2) [unfolded Tick]])
    then show ?thesis
      using Cons.IH [OF _ _ s(4) Cons.prems(4,5) later(1)] Cons.prems(2) Tick by (simp add: sorted_append)
  next
    case (Handler op)
    have "sends_ok day_start D H c (apply_op s op)"
      using sends_ok_same [OF Cons.prems(1) apply_op_log apply_op_caps] Cons.prems(1) later(2) Handler
      by (simp add: sends_ok_def)
    then show ?thesis
      using Cons.IH [of c "apply_op s op"] Cons.prems(2-5) later(1) Handler by simp
  qed
qed auto

text \<open>C23: In a run of ticks that do not overlap and of the other handlers, the one that changes the
  guardrail configuration included, interleaved in any way, whatever the background jobs return and the
  handlers do while a job is awaited, as long as the clock does not go backwards and the send log is empty
  at the start: the number of sends recorded on any
  local day (given by a monotone function from a time to the start of its day) is at most D, and the number of
  sends of one sequence recorded in any window of an hour is at most H, for all D and H that no daily cap and no hourly
  rate configured in the run exceeds (the initial ones and every patch); so with no patch the configured
  caps themselves hold, and a patch that lowers a cap does not undo earlier sends.\<close>

theorem sends_within_caps:
  assumes "mono day_start" "\<forall>x. day_start x \<le> x" "chronological es" "sendLog s = []" "caps_at_most D H s es"
  shows "\<forall>d q t. length (filter (\<lambda>r. day_start (send_at r) = d) (sendLog (foldl (run_event day_start) s es))) \<le> D
               \<and> length (filter (\<lambda>r. send_sequence r = q \<and> t - 60 * 60 * 1000 \<le> send_at r \<and> send_at r \<le> t)
                   (sendLog (foldl (run_event day_start) s es))) \<le> H"
proof -
  let ?s = "foldl (run_event day_start) s es"
  define c where "c = Min (insert 0 (set (concat (map event_clocks es))))"
  have "\<forall>x \<in> set (concat (map event_clocks es)). c \<le> x" by (simp add: c_def)
  moreover have "sends_ok day_start D H c s" "\<forall>p \<in> set (concat (map event_patches es)). patch_within D H p"
    using assms(4,5) by (simp_all add: sends_ok_def day_sends_def window_sends_def caps_at_most_def list_all_iff)
  ultimately obtain c' where "sends_ok day_start D H c' ?s"
    using run_sends_ok assms(1-3) unfolding chronological_def by blast
  then show ?thesis
    by (simp add: sends_ok_def day_sends_def window_sends_def)
qed

definition utc_day :: "int \<Rightarrow> int" where
  "utc_day x = x div 86400000 * 86400000"

definition demo_turn :: turn where
  "demo_turn = \<lparr>clock_before = 10, during = [], job = JobOk (Some ''th''), clock_after = 20\<rparr>"

definition cap_patch :: "nat \<Rightarrow> config_patch" where
  "cap_patch n = \<lparr>cp_dailySendCap = Some n, cp_perSequenceHourlyRate = None, cp_minimumStepDelaySec = None,
     cp_maxActiveEnrollments = None, cp_duplicateEnrollmentCheck = None, cp_cooldownPeriodMs = None\<rparr>"

text \<open>The daily cap is lowered to one, and to zero while the job of the only send runs.\<close>

definition demo_run :: "seq_run_event list" where
  "demo_run = [Handler (SetConfig (cap_patch 1)),
     Tick False 9 (\<lambda>_. demo_turn\<lparr>clock_before := 20, during := [SetConfig (cap_patch 0)]\<rparr>)]"

theorem sends_within_caps_witness:
  "length (sendLog (foldl (run_event utc_day) (setGuardrailConfig (cap_patch 1) demo_state) demo_run)) = 1
   \<and> dailySendCap (config (foldl (run_event utc_day) (setGuardrailConfig (cap_patch 1) demo_state) demo_run)) = 0
   \<and> (\<forall>d q t. length (filter (\<lambda>r. utc_day (send_at r) = d)
                  (sendLog (foldl (run_event utc_day) (setGuardrailConfig (cap_patch 1) demo_state) demo_run))) \<le> 1
            \<and> length (filter (\<lambda>r. send_sequence r = q \<and> t - 60 * 60 * 1000 \<le> send_at r \<and> send_at r \<le> t)
                  (sendLog (foldl (run_event utc_day) (setGuardrailConfig (cap_patch 1) demo_state) demo_run)))
                \<le> perSequenceHourlyRate (config demo_state))"
proof (intro conjI)
  show "length (sendLog (foldl (run_event utc_day) (setGuardrailConfig (cap_patch 1) demo_state) demo_run)) = 1"
    "dailySendCap (config (foldl (run_event utc_day) (setGuardrailConfig (cap_patch 1) demo_state) demo_run)) = 0"
    by code_simp+
  have "mono utc_day" by (auto simp: mono_def utc_day_def intro!: zdiv_mono1 mult_right_mono)
  moreover have "\<forall>x. utc_day x \<le> x" by (simp add: utc_day_def) presburger
  moreover have "chronological demo_run" by code_simp
  moreover have "sendLog (setGuardrailConfig (cap_patch 1) demo_state) = []" by code_simp
  moreover have "caps_at_most 1 (perSequenceHourlyRate (config demo_state)) (setGuardrailConfig (cap_patch 1) demo_state) demo_run"
    by code_simp
  ultimately show "\<forall>d q t. length (filter (\<lambda>r. utc_day (send_at r) = d)
                  (sendLog (foldl (run_event utc_day) (setGuardrailConfig (cap_patch 1) demo_state) demo_run))) \<le> 1
            \<and> length (filter (\<lambda>r. send_sequence r = q \<and> t - 60 * 60 * 1000 \<le> send_at r \<and> send_at r \<le> t)
                  (sendLog (foldl (run_event utc_day) (setGuardrailConfig (cap_patch 1) demo_state) demo_run)))
                \<le> perSequenceHourlyRate (config demo_state)"
    by (rule sends_within_caps)
qed

text \<open>Two ticks that overlap both pass the check of the daily cap before either records its send. The
  guard of the scheduler's timer rules that out for its own ticks, the route that drains due work runs one
  outside the guard.\<close>

lemma overlapping_ticks_exceed_cap:
  "let s = setGuardrailConfig (cap_patch 1) demo_state; e = hd (enrollments s); q = hd (sequences s); st = hd (steps q);
       e2 = e\<lparr>enrollment_id := ''en2'', contactEmail := ''x@y.z''\<rparr>;
       s1 = s\<lparr>enrollments := [e, e2]\<rparr>
   in checkAllPreSend utc_day (sequence_id q) e (delaySeconds st) 10 s1 = None
      \<and> checkAllPreSend utc_day (sequence_id q) e2 (delaySeconds st) 10 s1 = None
      \<and> day_sends utc_day 0 (fst (finish_step demo_turn e2 q st (fst (finish_step demo_turn e q st s1))))
          > dailySendCap (config s1)"
  by code_simp

section \<open>Nobody is stranded\<close>

text \<open>An active enrollment without a next time is never claimed again.\<close>

definition stranded :: "seq_state \<Rightarrow> string set" where
  "stranded s = {enrollment_id e | e. e \<in> set (enrollments s) \<and> status e = Active \<and> nextStepAt e = None}"

definition unique_enrollments :: "seq_state \<Rightarrow> bool" where
  "unique_enrollments s \<longleftrightarrow> distinct (map enrollment_id (enrollments s))"

lemma stranded_iff:
  "j \<in> stranded s \<longleftrightarrow> (\<exists>e \<in> set (enrollments s). enrollment_id e = j \<and> status e = Active \<and> nextStepAt e = None)"
  by (auto simp: stranded_def)

lemma unique_update [simp]:
  "(\<And>e. enrollment_id (f e) = enrollment_id e) \<Longrightarrow> unique_enrollments (update_enrollment i f s) = unique_enrollments s"
  by (simp add: unique_enrollments_def update_enrollment_def comp_def if_distrib cong: if_cong)

lemma stranded_update_iff:
  "j \<in> stranded (update_enrollment i f s) \<longleftrightarrow>
     (\<exists>e \<in> set (enrollments s). (if enrollment_id e = i
        then enrollment_id (f e) = j \<and> status (f e) = Active \<and> nextStepAt (f e) = None
        else enrollment_id e = j \<and> status e = Active \<and> nextStepAt e = None))"
  unfolding stranded_iff update_enrollment_def by auto

lemma stranded_update:
  assumes "\<And>e. enrollment_id (f e) = enrollment_id e" "\<And>e. status (f e) \<noteq> Active \<or> nextStepAt (f e) \<noteq> None"
  shows "stranded (update_enrollment i f s) = stranded s - {i}"
proof (rule set_eqI)
  fix j
  show "j \<in> stranded (update_enrollment i f s) \<longleftrightarrow> j \<in> stranded s - {i}"
    unfolding stranded_update_iff Diff_iff singleton_iff unfolding stranded_iff using assms by metis
qed

lemma stranded_update_any:
  assumes "\<And>e. enrollment_id (f e) = enrollment_id e"
  shows "stranded (update_enrollment i f s) \<subseteq> insert i (stranded s)"
proof
  fix j
  assume "j \<in> stranded (update_enrollment i f s)"
  then show "j \<in> insert i (stranded s)"
    unfolding stranded_update_iff insert_iff unfolding stranded_iff using assms by metis
qed

lemma stranded_event [simp]:
  "stranded (recordEvent a b c d m now s) = stranded s"
  "unique_enrollments (recordEvent a b c d m now s) = unique_enrollments s"
  "stranded (recordSend q now s) = stranded s"
  "unique_enrollments (recordSend q now s) = unique_enrollments s"
  by (simp_all add: stranded_def unique_enrollments_def)

lemma stranded_writes [simp]:
  "stranded (exitEnrollment i Failed now s) = stranded s - {i}"
  "stranded (exitEnrollment i Completed now s) = stranded s - {i}"
  "stranded (exitEnrollment i Replied now s) = stranded s - {i}"
  "stranded (exitEnrollment i Cancelled now s) = stranded s - {i}"
  "stranded (pauseEnrollment i now s) = stranded s - {i}"
  "stranded (resumeEnrollment i now s) = stranded s - {i}"
  "stranded (rescheduleEnrollment i a now s) = stranded s - {i}"
  by (simp_all add: exitEnrollment_def pauseEnrollment_def resumeEnrollment_def rescheduleEnrollment_def stranded_update)

lemma unique_writes [simp]:
  "unique_enrollments (exitEnrollment i r now s) = unique_enrollments s"
  "unique_enrollments (pauseEnrollment i now s) = unique_enrollments s"
  "unique_enrollments (resumeEnrollment i now s) = unique_enrollments s"
  "unique_enrollments (rescheduleEnrollment i a now s) = unique_enrollments s"
  "unique_enrollments (updateEnrollmentConversationId i c now s) = unique_enrollments s"
  "unique_enrollments (advanceEnrollment i cv at now s) = unique_enrollments s"
  by (simp_all add: enrollment_writes advanceEnrollment_def split: option.split)

lemma stranded_advance:
  "stranded (advanceEnrollment i cv (Some a) now s) = stranded s - {i}"
  "stranded (advanceEnrollment i cv None now s) \<subseteq> insert i (stranded s)"
proof -
  have "i \<notin> stranded s" if "getEnrollment s i = None"
    using that by (auto simp: getEnrollment_def stranded_def find_None_iff)
  then show "stranded (advanceEnrollment i cv (Some a) now s) = stranded s - {i}"
    by (auto simp: advanceEnrollment_def stranded_update split: option.split)
  show "stranded (advanceEnrollment i cv None now s) \<subseteq> insert i (stranded s)"
    by (simp add: advanceEnrollment_def subset_insertI stranded_update_any split: option.split)
qed

text \<open>What the other handlers keep: they strand nobody.\<close>

definition strands_none :: "seq_state \<Rightarrow> seq_state \<Rightarrow> bool" where
  "strands_none s s' \<longleftrightarrow> stranded s' \<subseteq> stranded s \<and> (unique_enrollments s \<longrightarrow> unique_enrollments s')"

lemma strands_none_refl [simp]: "strands_none s s"
  by (simp add: strands_none_def)

lemma strands_none_trans: "strands_none a b \<Longrightarrow> strands_none b c \<Longrightarrow> strands_none a c"
  by (auto simp: strands_none_def)

lemma reply_one_strands: "strands_none (fst p) (fst (reply_one a b now e p))"
  by (cases p) (auto simp: reply_one_def strands_none_def split: option.split)

lemma fold_reply_one_strands: "strands_none (fst p) (fst (fold (reply_one a b now) es p))"
proof (induction es arbitrary: p)
  case (Cons e es)
  show ?case using strands_none_trans [OF reply_one_strands Cons.IH] by simp
qed simp

lemma reply_payload_strands: "strands_none (fst p) (fst (reply_payload now p b))"
  using fold_reply_one_strands [of p]
  by (cases p) (auto simp: reply_payload_def split: option.split)

lemma foldl_reply_payload_strands: "strands_none (fst p) (fst (foldl (reply_payload now) p bs))"
proof (induction bs arbitrary: p)
  case (Cons b bs)
  show ?case using strands_none_trans [OF reply_payload_strands Cons.IH] by simp
qed simp

lemma strands_none_enrollments:
  "enrollments s' = enrollments s \<Longrightarrow> strands_none s s'"
  by (simp add: strands_none_def stranded_def unique_enrollments_def)

lemma deleteSequence_strands: "strands_none s (deleteSequence i now s)"
proof -
  define cancel where "cancel e = (if sequenceId e = i \<and> status e = Active then e\<lparr>status := Cancelled, updatedAt := now\<rparr> else e)" for e :: enrollment
  have ids: "map enrollment_id (map cancel es) = map enrollment_id es" for es
    by (simp add: cancel_def)
  have d: "enrollments (deleteSequence i now s) = map cancel (enrollments s)
      \<or> enrollments (deleteSequence i now s) = filter (\<lambda>e. sequenceId e \<noteq> i) (map cancel (enrollments s))"
    by (simp add: deleteSequence_def Let_def cancel_def [abs_def])
  then have "\<exists>P. enrollments (deleteSequence i now s) = filter P (map cancel (enrollments s))"
    by (elim disjE) (rule exI [of _ "\<lambda>_. True"], simp, blast)
  then obtain P where P: "enrollments (deleteSequence i now s) = filter P (map cancel (enrollments s))" by blast
  have "unique_enrollments (deleteSequence i now s)" if "unique_enrollments s"
    using that distinct_map_filter [of enrollment_id "map cancel (enrollments s)" P]
    unfolding unique_enrollments_def P ids by blast
  moreover have "stranded (deleteSequence i now s) \<subseteq> stranded s"
  proof
    fix j
    assume "j \<in> stranded (deleteSequence i now s)"
    then obtain e where "e \<in> set (enrollments s)" "enrollment_id (cancel e) = j"
      "status (cancel e) = Active" "nextStepAt (cancel e) = None"
      unfolding stranded_iff P by auto
    then show "j \<in> stranded s"
      by (cases "sequenceId e = i \<and> status e = Active") (auto simp: cancel_def stranded_iff)
  qed
  ultimately show ?thesis by (simp add: strands_none_def)
qed

lemma enrollContact_strands: "strands_none s (fst (enrollContact q em n ctx i now s))"
proof -
  have fresh: "i \<notin> enrollment_id ` set (enrollments s)" if "getEnrollment s i = None"
    using that by (auto simp: getEnrollment_def find_None_iff)
  show ?thesis
    using fresh by (auto simp: enrollContact_def strands_none_def stranded_def unique_enrollments_def Let_def
        split: option.split list.split)
qed

lemma apply_op_strands: "strands_none s (apply_op s op)"
proof (cases op)
  case (Replies ps now)
  then show ?thesis
    using foldl_reply_payload_strands [of "(s, [])"] by (simp add: checkForSequenceReplies_def)
next
  case (CreateSeq n d c sts r i now)
  then show ?thesis by (auto simp: createSequence_def Let_def intro!: strands_none_enrollments)
next
  case (UpdateSeq i p now)
  then show ?thesis by (auto simp: updateSequence_def Let_def intro!: strands_none_enrollments)
next
  case (DeleteSeq i now)
  then show ?thesis by (simp add: deleteSequence_strands)
next
  case (Enroll q em n ctx i now)
  then show ?thesis by (simp add: enrollContact_strands)
next
  case (SetConfig p)
  then show ?thesis by (auto intro!: strands_none_enrollments)
qed (simp_all add: strands_none_def)

lemma apply_ops_strands: "strands_none s (foldl apply_op s ops)"
  by (induction ops arbitrary: s) (auto intro: strands_none_trans apply_op_strands)

text \<open>The enrollments a tick leaves waiting for the approval of a draft.\<close>

definition leaves_draft :: "(int \<Rightarrow> int) \<Rightarrow> turn \<Rightarrow> enrollment \<Rightarrow> seq_state \<Rightarrow> bool" where
  "leaves_draft day_start tn e s \<longleftrightarrow>
     (case getSequence s (sequenceId e) of
        None \<Rightarrow> False
      | Some q \<Rightarrow> sequence_status q = SeqActive \<and> currentStep e < length (steps q)
          \<and> requireApproval (steps q ! currentStep e) \<and> (case job tn of JobOk _ \<Rightarrow> True | _ \<Rightarrow> False)
          \<and> checkAllPreSend day_start (sequence_id q) e (delaySeconds (steps q ! currentStep e)) (clock_before tn) s = None)"

fun drafted :: "(int \<Rightarrow> int) \<Rightarrow> (nat \<Rightarrow> turn) \<Rightarrow> nat \<Rightarrow> enrollment list \<Rightarrow> seq_state \<Rightarrow> string list" where
  "drafted day_start turns k [] s = []"
| "drafted day_start turns k (e # es) s =
     (if leaves_draft day_start (turns k) e s then [enrollment_id e] else [])
     @ drafted day_start turns (Suc k) es (fst (tick_one day_start (turns k) e s))"

lemma finish_step_strands:
  assumes "snd (finish_step tn e q st s)" "\<not> (requireApproval st \<and> (\<exists>c. job tn = JobOk c))"
  shows "stranded (fst (finish_step tn e q st s)) \<subseteq> stranded s - {enrollment_id e}"
proof -
  have "stranded (advanceEnrollment i c None now s') - {i} \<subseteq> stranded s' - {i}" for i c now s'
    using stranded_advance(2) [of i c now s'] by blast
  note last = subset_trans [OF this]
  show ?thesis
    using assms
    by (auto simp: finish_step_def Let_def stranded_advance(1) split: job_result.splits if_splits intro!: last)
qed

lemma finish_step_draft_strands:
  assumes "requireApproval st" "job tn = JobOk c"
  shows "stranded (fst (finish_step tn e q st s)) \<subseteq> insert (enrollment_id e) (stranded s)"
  using assms stranded_update_any
  by (auto simp: finish_step_def Let_def updateEnrollmentConversationId_def split: option.split)

lemma finish_step_unique:
  "unique_enrollments (fst (finish_step tn e q st s)) = unique_enrollments s"
  by (simp add: finish_step_def Let_def split: job_result.split option.split)

lemma processEnrollment_throws:
  "snd (processEnrollment day_start tn e s) \<or> (job tn = JobError
     \<and> fst (processEnrollment day_start tn e s) = foldl apply_op s (during tn))"
  by (auto simp: processEnrollment_def finish_step_def Let_def split: option.split job_result.split)

lemma processEnrollment_cases:
  "stranded (fst (processEnrollment day_start tn e s)) = stranded s - {enrollment_id e}
   \<or> (\<exists>q. processEnrollment day_start tn e s
             = finish_step tn e q (steps q ! currentStep e) (foldl apply_op s (during tn))
          \<and> (requireApproval (steps q ! currentStep e) \<and> (\<exists>c. job tn = JobOk c) \<longrightarrow> leaves_draft day_start tn e s))"
proof (cases "getSequence s (sequenceId e)")
  case None
  then show ?thesis by (intro disjI1) (simp add: processEnrollment_def Let_def)
next
  case (Some q)
  let ?go = "sequence_status q = SeqActive \<and> currentStep e < length (steps q) \<and>
    checkAllPreSend day_start (sequence_id q) e (delaySeconds (steps q ! currentStep e)) (clock_before tn) s = None"
  show ?thesis
  proof (cases ?go)
    case True
    then show ?thesis
      by (intro disjI2 exI [of _ q]) (auto simp: processEnrollment_def leaves_draft_def Some)
  next
    case False
    then show ?thesis
      by (intro disjI1) (auto simp: processEnrollment_def Let_def Some advanceEnrollmentToCurrentStep_def split: option.split)
  qed
qed

lemma processEnrollment_strands:
  assumes "snd (processEnrollment day_start tn e s)"
  shows "stranded (fst (processEnrollment day_start tn e s))
    \<subseteq> (stranded s - {enrollment_id e}) \<union> (if leaves_draft day_start tn e s then {enrollment_id e} else {})"
proof -
  let ?s = "foldl apply_op s (during tn)"
  have ops: "stranded ?s \<subseteq> stranded s"
    using apply_ops_strands [of s "during tn"] by (simp add: strands_none_def)
  show ?thesis
  proof (cases "leaves_draft day_start tn e s")
    case True
    then obtain q c where q: "processEnrollment day_start tn e s = finish_step tn e q (steps q ! currentStep e) ?s"
      "requireApproval (steps q ! currentStep e)" "job tn = JobOk c"
      by (auto simp: leaves_draft_def processEnrollment_def split: option.splits job_result.splits)
    then show ?thesis
      using finish_step_draft_strands [OF q(2,3), of e q ?s] ops True by auto
  next
    case False
    show ?thesis
      using processEnrollment_cases
    proof
      assume "\<exists>q. processEnrollment day_start tn e s = finish_step tn e q (steps q ! currentStep e) ?s
        \<and> (requireApproval (steps q ! currentStep e) \<and> (\<exists>c. job tn = JobOk c) \<longrightarrow> leaves_draft day_start tn e s)"
      then show ?thesis using finish_step_strands [of tn e _ _ ?s] assms ops False by fastforce
    qed simp
  qed
qed

lemma processEnrollment_unique:
  assumes "unique_enrollments s"
  shows "unique_enrollments (fst (processEnrollment day_start tn e s))"
  using assms apply_ops_strands [of s "during tn"]
  by (auto simp: processEnrollment_def Let_def finish_step_unique strands_none_def advanceEnrollmentToCurrentStep_def
      split: option.split)

lemma getEnrollment_not_active:
  assumes "unique_enrollments s" "getEnrollment s i = Some c" "status c \<noteq> Active"
  shows "i \<notin> stranded s"
proof
  assume "i \<in> stranded s"
  then obtain e where e: "e \<in> set (enrollments s)" "enrollment_id e = i" "status e = Active"
    unfolding stranded_iff by blast
  have "c \<in> set (enrollments s)" "enrollment_id c = i"
    using assms(2) by (auto simp: getEnrollment_def find_Some_iff)
  then have "e = c"
    using assms(1) e by (auto simp: unique_enrollments_def distinct_map inj_on_def)
  then show False using e assms(3) by simp
qed

lemma tick_one_strands:
  assumes "unique_enrollments s"
  shows "stranded (fst (tick_one day_start tn e s))
      \<subseteq> (stranded s - {enrollment_id e}) \<union> (if leaves_draft day_start tn e s then {enrollment_id e} else {})"
    and "unique_enrollments (fst (tick_one day_start tn e s))"
proof -
  obtain s1 ok where p: "processEnrollment day_start tn e s = (s1, ok)" by fastforce
  have u: "unique_enrollments s1" using processEnrollment_unique [OF assms, of day_start tn e] p by simp
  then show "unique_enrollments (fst (tick_one day_start tn e s))"
    by (simp add: tick_one_def p Let_def split: option.split)
  show "stranded (fst (tick_one day_start tn e s))
      \<subseteq> (stranded s - {enrollment_id e}) \<union> (if leaves_draft day_start tn e s then {enrollment_id e} else {})"
  proof (cases ok)
    case True
    then show ?thesis using processEnrollment_strands [of day_start tn e s] p by (simp add: tick_one_def)
  next
    case False
    then have "stranded s1 \<subseteq> stranded s"
      using processEnrollment_throws [of day_start tn e s] apply_ops_strands [of s "during tn"] p
      by (auto simp: strands_none_def)
    moreover have "enrollment_id e \<notin> stranded s1" if "getEnrollment s1 (enrollment_id e) = None"
      using that by (auto simp: getEnrollment_def stranded_iff find_None_iff)
    ultimately have "stranded (fst (tick_one day_start tn e s)) \<subseteq> stranded s - {enrollment_id e}"
      using False getEnrollment_not_active [OF u]
      by (cases "getEnrollment s1 (enrollment_id e)") (auto simp: tick_one_def p Let_def)
    then show ?thesis by blast
  qed
qed

lemma tick_loop_strands:
  "unique_enrollments s \<Longrightarrow> stranded (fst (tick_loop day_start turns k es s))
     \<subseteq> (stranded s - enrollment_id ` set es) \<union> set (drafted day_start turns k es s)"
proof (induction es arbitrary: k s)
  case (Cons e es)
  let ?s = "fst (tick_one day_start (turns k) e s)"
  show ?case
    using Cons.IH [OF tick_one_strands(2) [OF Cons.prems], of "Suc k" day_start "turns k" e]
      tick_one_strands(1) [OF Cons.prems, of day_start "turns k" e]
    by (auto simp del: tick_loop.simps(2) split: if_splits)
qed simp

lemma claim_row_strands:
  "stranded (fst (claim_row row now s)) \<subseteq> stranded s \<union> (if snd (claim_row row now s) then {enrollment_id row} else {})"
proof
  fix j
  assume "j \<in> stranded (fst (claim_row row now s))"
  then show "j \<in> stranded s \<union> (if snd (claim_row row now s) then {enrollment_id row} else {})"
    unfolding claim_row_def Let_def stranded_iff list_ex_iff by (auto simp: stranded_iff split: if_splits)
qed

lemma claim_row_unique: "unique_enrollments (fst (claim_row row now s)) = unique_enrollments s"
proof -
  have "map enrollment_id (enrollments (fst (claim_row row now s))) = map enrollment_id (enrollments s)"
    by (simp add: claim_row_def)
  then show ?thesis by (simp add: unique_enrollments_def)
qed

lemma claim_loop_strands:
  "stranded (fst (claim_loop (\<lambda>_. id) now k rows s))
     \<subseteq> stranded s \<union> enrollment_id ` set (snd (claim_loop (\<lambda>_. id) now k rows s))"
  "unique_enrollments (fst (claim_loop (\<lambda>_. id) now k rows s)) = unique_enrollments s"
proof (induction rows arbitrary: k s)
  case (Cons row rows)
  {
    case 1
    let ?s = "fst (claim_row row now s)"
    have "snd (claim_loop (\<lambda>_. id) now k (row # rows) s) =
        (if snd (claim_row row now s) then [row\<lparr>nextStepAt := None, updatedAt := now\<rparr>] else [])
        @ snd (claim_loop (\<lambda>_. id) now (Suc k) rows ?s)"
      by (simp add: Let_def case_prod_beta)
    then have "enrollment_id ` set (snd (claim_loop (\<lambda>_. id) now k (row # rows) s)) =
        (if snd (claim_row row now s) then {enrollment_id row} else {})
        \<union> enrollment_id ` set (snd (claim_loop (\<lambda>_. id) now (Suc k) rows ?s))"
      by simp
    then show ?case
      using Cons.IH(1) [of "Suc k" ?s] claim_row_strands [of row now s]
      unfolding fst_claim_loop_Cons id_apply by blast
  next
    case 2
    show ?case
      using Cons.IH(2) [of "Suc k" "fst (claim_row row now s)"] claim_row_unique [of row now s]
      by (simp add: Let_def case_prod_beta)
  }
qed simp_all

text \<open>C24: A tick strands nobody. Whatever the jobs return and the other handlers do meanwhile, an
  enrollment that is active without a next time after the tick was so before the tick, or the tick has just
  produced the draft of a step that requires approval for it: failed jobs, blocked guardrails and inactive
  sequences all leave the claimed enrollments with a time at which they are tried again, or inactive.\<close>

theorem tick_strands_nobody:
  assumes "unique_enrollments s"
  shows "let (s1, claimed) = claimDueEnrollments quiesced (\<lambda>_. id) now BATCH_SIZE s
         in stranded (fst (runSequencesOnce day_start quiesced now turns s))
              \<subseteq> stranded s \<union> set (drafted day_start turns 0 claimed s1)"
proof -
  obtain s1 claimed where c: "claimDueEnrollments quiesced (\<lambda>_. id) now BATCH_SIZE s = (s1, claimed)" by fastforce
  have "stranded s1 \<subseteq> stranded s \<union> enrollment_id ` set claimed" "unique_enrollments s1"
    using claim_loop_strands [of now 0 "due_candidates now BATCH_SIZE s" s] assms c
    by (auto simp: claimDueEnrollments_def split: if_splits)
  then show ?thesis
    using tick_loop_strands [of s1 day_start turns 0 claimed] by (auto simp: fst_runSequencesOnce c Let_def)
qed

theorem tick_strands_nobody_witness:
  "unique_enrollments demo_state \<and>
   (let (s1, claimed) = claimDueEnrollments False (\<lambda>_. id) 9 BATCH_SIZE demo_state
    in claimed \<noteq> [] \<and> stranded (fst (runSequencesOnce utc_day False 9 (\<lambda>_. demo_turn\<lparr>job := JobError\<rparr>) demo_state))
         \<subseteq> stranded demo_state \<union> set (drafted utc_day (\<lambda>_. demo_turn\<lparr>job := JobError\<rparr>) 0 claimed s1))"
proof -
  have u: "unique_enrollments demo_state" by code_simp
  have n: "snd (claimDueEnrollments False (\<lambda>_. id) 9 BATCH_SIZE demo_state) \<noteq> []" by code_simp
  show ?thesis
    using tick_strands_nobody [OF u, of False 9 utc_day "\<lambda>_. demo_turn\<lparr>job := JobError\<rparr>"] u n
    by (simp add: case_prod_beta Let_def)
qed

section \<open>Observations\<close>

text \<open>A reply that arrives while the job of the last step runs is overwritten: the enrollment ends as
  completed although the reply exited it first.\<close>

definition last_step_state :: seq_state where
  "last_step_state = demo_state\<lparr>
     sequences := map (\<lambda>q. q\<lparr>steps := take 1 (steps q)\<rparr>) (sequences demo_state),
     enrollments := map (\<lambda>e. e\<lparr>conversationId := Some ''th''\<rparr>) (enrollments demo_state)\<rparr>"

definition reply_during_job :: "nat \<Rightarrow> turn" where
  "reply_during_job = (\<lambda>_. demo_turn\<lparr>during :=
     [Replies [\<lparr>threadId = Some ''th'', from_of = Some ''Ann <a@b.c>''\<rparr>] 15]\<rparr>)"

lemma reply_overwritten:
  "(let s' = fst (runSequencesOnce utc_day False 9 reply_during_job last_step_state)
    in map status (enrollments s') = [Completed]
       \<and> map event_kind (eventLog s') = [ReplyEvent, SendEvent, CompleteEvent])"
  by code_simp

text \<open>The enrollment cap is meant for new enrollments; checked before a send it blocks every send of a
  sequence that is exactly full.\<close>

lemma full_sequence_sends_nothing:
  assumes "countActiveEnrollments s q = maxActiveEnrollments (config s)"
  shows "checkAllPreSend day_start q e d now s \<noteq> None"
  using assms by (auto simp: checkAllPreSend_def first_failing_None checkEnrollmentCap_def)

text \<open>A step with a delay between one second and the minimum never passes its guardrail: it is
  rescheduled at every tick.\<close>

lemma short_delay_never_sends:
  assumes "0 < d" "d < minimumStepDelaySec (config s)"
  shows "checkAllPreSend day_start q e d now s \<noteq> None"
  using assms by (auto simp: checkAllPreSend_def first_failing_None checkMinDelay_def)

end
