(* ===== verification/Contact_Import.thy ===== *)
theory Contact_Import
  imports Sequences
begin

text \<open>
  The contact importer of the e-mail sequences (\<^verbatim>\<open>assistant/src/sequence/importer.ts\<close>): splitting a
  CSV text into rows, parsing a row, finding the columns, validating addresses and enrolling the
  contacts. The content of the file is an argument; error reasons are a datatype.
\<close>

section \<open>Addresses\<close>

text \<open>\<^verbatim>\<open>/^[^\s@]+@[^\s@]+\.[^\s@]+$/\<close>: one at sign, no white space, and after the at sign a dot that is neither
  the first nor the last character.\<close>

definition isValidEmail :: "string \<Rightarrow> bool" where
  "isValidEmail email \<longleftrightarrow>
     (\<forall>c \<in> set email. \<not> is_space c) \<and>
     (case split_on (CHR ''@'') email of
        [name, host] \<Rightarrow> name \<noteq> [] \<and> CHR ''.'' \<in> set (butlast (tl host))
      | _ \<Rightarrow> False)"

section \<open>Columns\<close>

definition EMAIL_HEADERS :: "string list" where
  "EMAIL_HEADERS = [''email'', ''e_mail'', ''email_address'', ''emailaddress'', ''mail'']"

definition NAME_HEADERS :: "string list" where
  "NAME_HEADERS = [''name'', ''full_name'', ''fullname'', ''display_name'', ''displayname'']"

definition FIRST_NAME_HEADERS :: "string list" where
  "FIRST_NAME_HEADERS = [''first_name'', ''firstname'', ''first'']"

definition LAST_NAME_HEADERS :: "string list" where
  "LAST_NAME_HEADERS = [''last_name'', ''lastname'', ''last'']"

definition word_char :: "char \<Rightarrow> bool" where
  "word_char c \<longleftrightarrow> (let n = (of_char c :: nat) in (97 \<le> n \<and> n \<le> 122) \<or> (48 \<le> n \<and> n \<le> 57) \<or> n = 95)"

definition normalizeHeader :: "string \<Rightarrow> string" where
  "normalizeHeader h = map (\<lambda>c. if word_char c then c else CHR ''_'') (to_lower (js_trim h))"

text \<open>\<^verbatim>\<open>findIndex\<close>; \<open>None\<close> stands for -1.\<close>

fun findIndex :: "('a \<Rightarrow> bool) \<Rightarrow> 'a list \<Rightarrow> nat option" where
  "findIndex P [] = None"
| "findIndex P (x # xs) = (if P x then Some 0 else map_option Suc (findIndex P xs))"

record columns =
  emailIdx :: "nat option"
  nameIdx :: "nat option"
  firstNameIdx :: "nat option"
  lastNameIdx :: "nat option"
  contextIdxs :: "nat list"

definition detectColumns :: "string list \<Rightarrow> columns" where
  "detectColumns headers =
     (let normalized = map normalizeHeader headers;
          em = findIndex (\<lambda>h. h \<in> set EMAIL_HEADERS) normalized;
          nm = findIndex (\<lambda>h. h \<in> set NAME_HEADERS) normalized;
          fn = findIndex (\<lambda>h. h \<in> set FIRST_NAME_HEADERS) normalized;
          ln = findIndex (\<lambda>h. h \<in> set LAST_NAME_HEADERS) normalized
      in \<lparr>emailIdx = em, nameIdx = nm, firstNameIdx = fn, lastNameIdx = ln,
          contextIdxs = filter (\<lambda>i. Some i \<notin> {em, nm, fn, ln}) [0..<length headers]\<rparr>)"

section \<open>CSV\<close>

definition detectDelimiter :: "string \<Rightarrow> char" where
  "detectDelimiter firstLine =
     (if CHR 0x09 \<in> set firstLine then CHR 0x09
      else if CHR '';'' \<in> set firstLine then CHR '';'' else CHR '','')"

text \<open>The loop state: the fields so far, the current field, whether inside quotes.\<close>

fun csv_loop :: "char \<Rightarrow> string list \<Rightarrow> string \<Rightarrow> bool \<Rightarrow> string \<Rightarrow> string list" where
  "csv_loop d cells cur inQuotes [] = cells @ [js_trim cur]"
| "csv_loop d cells cur True (c # cs) =
     (if c = CHR 0x22
      then (case cs of
              c' # cs' \<Rightarrow> if c' = CHR 0x22 then csv_loop d cells (cur @ [CHR 0x22]) True cs'
                          else csv_loop d cells cur False cs
            | [] \<Rightarrow> csv_loop d cells cur False cs)
      else csv_loop d cells (cur @ [c]) True cs)"
| "csv_loop d cells cur False (c # cs) =
     (if c = CHR 0x22 then csv_loop d cells cur True cs
      else if c = d then csv_loop d (cells @ [js_trim cur]) [] False cs
      else csv_loop d cells (cur @ [c]) False cs)"

definition parseCSVLine :: "string \<Rightarrow> char \<Rightarrow> string list" where
  "parseCSVLine line d = csv_loop d [] [] False line"

definition push_row :: "string list \<Rightarrow> string \<Rightarrow> string list" where
  "push_row rows cur = (if js_trim cur \<noteq> [] then rows @ [cur] else rows)"

fun rows_loop :: "string list \<Rightarrow> string \<Rightarrow> bool \<Rightarrow> string \<Rightarrow> string list" where
  "rows_loop rows cur inQuotes [] = push_row rows cur"
| "rows_loop rows cur True (c # cs) =
     (if c = CHR 0x22
      then (case cs of
              c' # cs' \<Rightarrow> if c' = CHR 0x22 then rows_loop rows (cur @ [CHR 0x22, CHR 0x22]) True cs'
                          else rows_loop rows (cur @ [c]) False cs
            | [] \<Rightarrow> rows_loop rows (cur @ [c]) False cs)
      else rows_loop rows (cur @ [c]) True cs)"
| "rows_loop rows cur False (c # cs) =
     (if c = CHR 0x22 then rows_loop rows (cur @ [c]) True cs
      else if c = CHR 0x0D \<and> cs \<noteq> [] \<and> hd cs = CHR 0x0A then rows_loop (push_row rows cur) [] False (tl cs)
      else if c = CHR 0x0A then rows_loop (push_row rows cur) [] False cs
      else rows_loop rows (cur @ [c]) False cs)"

definition splitCSVRows :: "string \<Rightarrow> string list" where
  "splitCSVRows content = rows_loop [] [] False content"

section \<open>Contact files\<close>

record parsed_contact =
  c_email :: string
  c_name :: "string option"
  c_context :: "(string, string) js_map"

text \<open>The order of the context's keys is not significant.\<close>

datatype row_error = FileEmpty | MissingEmail | InvalidEmail string | DuplicateEmail string

record parse_result =
  contacts :: "parsed_contact list"
  errors :: "(nat \<times> row_error) list"
  headers :: "string list"

text \<open>\<^verbatim>\<open>fields[i]?.trim()\<close> with an absent field or index as the empty string.\<close>

definition field_at :: "string list \<Rightarrow> nat option \<Rightarrow> string" where
  "field_at cells i =
     (case i of Some n \<Rightarrow> if n < length cells then js_trim (cells ! n) else [] | None \<Rightarrow> [])"

definition non_empty :: "string \<Rightarrow> string option" where
  "non_empty s = (if s = [] then None else Some s)"

definition contact_name :: "columns \<Rightarrow> string list \<Rightarrow> string option" where
  "contact_name cols cells =
     (case nameIdx cols of
        Some n \<Rightarrow> non_empty (field_at cells (Some n))
      | None \<Rightarrow>
          (case firstNameIdx cols of
             Some f \<Rightarrow> non_empty (join_with '' '' (filter (\<lambda>p. p \<noteq> [])
                         [field_at cells (Some f), field_at cells (lastNameIdx cols)]))
           | None \<Rightarrow> None))"

definition contact_context :: "columns \<Rightarrow> string list \<Rightarrow> string list \<Rightarrow> (string, string) js_map" where
  "contact_context cols hs cells =
     foldl (\<lambda>ctx i. if field_at cells (Some i) \<noteq> [] then js_set (normalizeHeader (hs ! i)) (field_at cells (Some i)) ctx
                    else ctx) [] (contextIdxs cols)"

text \<open>What a row is: an error, or a contact. The addresses seen so far are those of the contacts.\<close>

definition classify_row :: "columns \<Rightarrow> string list \<Rightarrow> string list \<Rightarrow> string list \<Rightarrow> row_error + parsed_contact" where
  "classify_row cols hs seenEmails cells =
     (let rawEmail = field_at cells (case emailIdx cols of Some i \<Rightarrow> Some i | None \<Rightarrow> Some 0);
          email = to_lower rawEmail
      in if rawEmail = [] then Inl MissingEmail
         else if \<not> isValidEmail email then Inl (InvalidEmail rawEmail)
         else if email \<in> set seenEmails then Inl (DuplicateEmail email)
         else Inr \<lparr>c_email = email, c_name = contact_name cols cells, c_context = contact_context cols hs cells\<rparr>)"

fun parse_rows ::
  "columns \<Rightarrow> string list \<Rightarrow> char \<Rightarrow> nat \<Rightarrow> string list \<Rightarrow>
   parsed_contact list \<times> (nat \<times> row_error) list \<times> string list \<Rightarrow> parsed_contact list \<times> (nat \<times> row_error) list" where
  "parse_rows cols hs d n [] (cs, errs, seen) = (cs, errs)"
| "parse_rows cols hs d n (l # ls) (cs, errs, seen) =
     parse_rows cols hs d (Suc n) ls
       (case classify_row cols hs seen (parseCSVLine l d) of
          Inl e \<Rightarrow> (cs, errs @ [(n, e)], seen)
        | Inr c \<Rightarrow> (cs @ [c], errs, js_add (c_email c) seen))"

definition hasHeaders :: "string list \<Rightarrow> bool" where
  "hasHeaders firstRow = list_ex (\<lambda>f. normalizeHeader f \<in> set EMAIL_HEADERS) firstRow"

definition parseContactFile :: "string \<Rightarrow> parse_result" where
  "parseContactFile content =
     (case splitCSVRows content of
        [] \<Rightarrow> \<lparr>contacts = [], errors = [(0, FileEmpty)], headers = []\<rparr>
      | first # rest \<Rightarrow>
          (let d = detectDelimiter first;
               firstRow = parseCSVLine first d;
               hs = (if hasHeaders firstRow then firstRow
                     else [''email'', ''name''] @ map (\<lambda>i. ''col_'' @ nat_to_string (i + 3)) [0..<length firstRow - 2]);
               start = (if hasHeaders firstRow then 1 else 0);
               (cs, errs) = parse_rows (detectColumns hs) hs d (start + 1) (drop start (first # rest)) ([], [], [])
           in \<lparr>contacts = cs, errors = errs, headers = hs\<rparr>))"

section \<open>Enrolling\<close>

record enroll_result =
  enrolled :: "string list"
  skipped :: "(string \<times> guardrail) list"
  failed :: "(string \<times> seq_error) list"

text \<open>One contact, with the id and the clock of its enrollment.\<close>

definition enroll_one ::
  "string \<Rightarrow> parsed_contact \<Rightarrow> string \<Rightarrow> int \<Rightarrow> seq_state \<times> enroll_result \<Rightarrow> seq_state \<times> enroll_result" where
  "enroll_one seq c i now = (\<lambda>(s, r).
     case first_failing [checkEnrollmentCap seq s, checkDuplicateEnrollment seq (c_email c) None s,
                         checkCooldown seq (c_email c) now s] of
       Some g \<Rightarrow> (s, r\<lparr>skipped := skipped r @ [(c_email c, g)]\<rparr>)
     | None \<Rightarrow>
         (case enrollContact seq (c_email c) (c_name c)
                (if c_context c = [] then None else Some (map (\<lambda>(k, v). (k, JStr v)) (c_context c))) i now s of
            (s', Inr e) \<Rightarrow> (s', r\<lparr>enrolled := enrolled r @ [c_email c]\<rparr>)
          | (s', Inl err) \<Rightarrow> (s', r\<lparr>failed := failed r @ [(c_email c, err)]\<rparr>)))"

fun enroll_all ::
  "string \<Rightarrow> (nat \<Rightarrow> string) \<Rightarrow> (nat \<Rightarrow> int) \<Rightarrow> nat \<Rightarrow> parsed_contact list \<Rightarrow> seq_state \<times> enroll_result \<Rightarrow>
   seq_state \<times> enroll_result" where
  "enroll_all seq ids clock k [] p = p"
| "enroll_all seq ids clock k (c # cs) p = enroll_all seq ids clock (Suc k) cs (enroll_one seq c (ids k) (clock k) p)"

definition bulkEnroll ::
  "string \<Rightarrow> parsed_contact list \<Rightarrow> (nat \<Rightarrow> string) \<Rightarrow> (nat \<Rightarrow> int) \<Rightarrow> seq_state \<Rightarrow> seq_state \<times> (seq_error + enroll_result)" where
  "bulkEnroll seq cs ids clock s =
     (case getSequence s seq of
        None \<Rightarrow> (s, Inl SequenceNotFound)
      | Some q \<Rightarrow>
          (let (s', r) = enroll_all seq ids clock 0 cs (s, \<lparr>enrolled = [], skipped = [], failed = []\<rparr>)
           in (s', Inr r)))"

section \<open>Round trip of quoted files\<close>

definition escape_field :: "string \<Rightarrow> string" where
  "escape_field f = concat (map (\<lambda>c. if c = CHR 0x22 then [CHR 0x22, CHR 0x22] else [c]) f)"

definition quote_field :: "string \<Rightarrow> string" where
  "quote_field f = [CHR 0x22] @ escape_field f @ [CHR 0x22]"

definition csv_line :: "char \<Rightarrow> string list \<Rightarrow> string" where
  "csv_line d cells = join_with [d] (map quote_field cells)"

definition csv_text :: "char \<Rightarrow> string \<Rightarrow> string list list \<Rightarrow> string" where
  "csv_text d eol rows = join_with eol (map (csv_line d) rows)"

lemma escape_field_simps [simp]:
  "escape_field [] = []"
  "escape_field (c # cs) = (if c = CHR 0x22 then [CHR 0x22, CHR 0x22] else [c]) @ escape_field cs"
  by (simp_all add: escape_field_def)

lemma csv_loop_escaped:
  assumes "rest = [] \<or> hd rest \<noteq> CHR 0x22"
  shows "csv_loop d fs cur True (escape_field f @ CHR 0x22 # rest) = csv_loop d fs (cur @ f) False rest"
  using assms
proof (induction f arbitrary: cur)
  case Nil
  then show ?case by (cases rest) auto
qed auto

lemma rows_loop_escaped:
  assumes "rest = [] \<or> hd rest \<noteq> CHR 0x22"
  shows "rows_loop rows cur True (escape_field f @ CHR 0x22 # rest)
           = rows_loop rows (cur @ escape_field f @ [CHR 0x22]) False rest"
  using assms
proof (induction f arbitrary: cur)
  case Nil
  then show ?case by (cases rest) auto
qed auto

lemma csv_line_Cons:
  "csv_line d (f # fs) = CHR 0x22 # escape_field f @ CHR 0x22 # (if fs = [] then [] else d # csv_line d fs)"
  by (cases fs) (simp_all add: csv_line_def quote_field_def)

lemma csv_loop_line:
  assumes "d \<noteq> CHR 0x22"
  shows "cells \<noteq> [] \<Longrightarrow> csv_loop d acc [] False (csv_line d cells) = acc @ map js_trim cells"
proof (induction cells arbitrary: acc)
  case (Cons f fs)
  show ?case
    using assms Cons.IH [of "acc @ [js_trim f]"]
      csv_loop_escaped [of "if fs = [] then [] else d # csv_line d fs" d acc "[]" f]
    by (cases "fs = []") (simp_all add: csv_line_Cons)
qed simp

lemma rows_loop_line:
  assumes "d \<notin> {CHR 0x22, CHR 0x0A, CHR 0x0D}" "rest = [] \<or> hd rest \<noteq> CHR 0x22"
  shows "cells \<noteq> [] \<Longrightarrow>
    rows_loop rows cur False (csv_line d cells @ rest) = rows_loop rows (cur @ csv_line d cells) False rest"
proof (induction cells arbitrary: cur)
  case (Cons f fs)
  let ?tail = "(if fs = [] then [] else d # csv_line d fs) @ rest"
  have "rows_loop rows cur False (csv_line d (f # fs) @ rest) =
        rows_loop rows (cur @ [CHR 0x22] @ escape_field f @ [CHR 0x22]) False ?tail"
    using assms rows_loop_escaped [of ?tail rows "cur @ [CHR 0x22]" f] by (auto simp: csv_line_Cons)
  then show ?case
    using assms(1) Cons.IH [of "cur @ [CHR 0x22] @ escape_field f @ [CHR 0x22, d]"]
    by (cases "fs = []") (simp_all add: csv_line_Cons)
qed simp

lemma dropWhile_eq_Nil_iff_all: "dropWhile P xs = [] \<longleftrightarrow> (\<forall>x \<in> set xs. P x)"
  by (induction xs) auto

lemma js_trim_Nil_iff: "js_trim s = [] \<longleftrightarrow> (\<forall>c \<in> set s. is_space c)"
proof -
  have "js_trim s = [] \<longleftrightarrow> (\<forall>c \<in> set (dropWhile is_space s). is_space c)"
    by (simp add: js_trim_def dropWhile_eq_Nil_iff_all)
  also have "\<dots> \<longleftrightarrow> dropWhile is_space s = []"
    by (metis dropWhile_eq_Nil_iff_all hd_dropWhile hd_in_set empty_iff list.set(1))
  finally show ?thesis by (simp add: dropWhile_eq_Nil_iff_all)
qed

lemma csv_line_not_blank: "cells \<noteq> [] \<Longrightarrow> js_trim (csv_line d cells) \<noteq> []"
  by (cases cells) (auto simp: js_trim_Nil_iff csv_line_Cons is_space_def)

lemma rows_loop_text:
  assumes "d \<notin> {CHR 0x22, CHR 0x0A, CHR 0x0D}" "eol = [CHR 0x0A] \<or> eol = [CHR 0x0D, CHR 0x0A]"
  shows "\<forall>r \<in> set rows. r \<noteq> [] \<Longrightarrow> rows_loop acc [] False (csv_text d eol rows) = acc @ map (csv_line d) rows"
proof (induction rows arbitrary: acc)
  case Nil
  then show ?case by (simp add: csv_text_def push_row_def js_trim_def)
next
  case (Cons r rs)
  show ?case
  proof (cases rs)
    case Nil
    then show ?thesis
      using rows_loop_line [OF assms(1), of "[]" r acc "[]"] Cons.prems csv_line_not_blank
      by (simp add: csv_text_def push_row_def)
  next
    case (Cons r' rs')
    have "rows_loop acc [] False (csv_text d eol (r # rs)) = rows_loop acc (csv_line d r) False (eol @ csv_text d eol rs)"
      using rows_loop_line [OF assms(1), of "eol @ csv_text d eol rs" r acc "[]"] Cons.prems assms(2) Cons
      by (auto simp: csv_text_def)
    also have "\<dots> = rows_loop (push_row acc (csv_line d r)) [] False (csv_text d eol rs)"
      using assms(2) by auto
    also have "\<dots> = acc @ map (csv_line d) (r # rs)"
      using Cons.IH [of "push_row acc (csv_line d r)"] Cons.prems csv_line_not_blank by (simp add: push_row_def)
    finally show ?thesis .
  qed
qed

text \<open>A table written as a CSV text with every field quoted (inner quotes doubled), whatever the
  fields contain: delimiters, quotes, line breaks, and with either line ending, is read back by the row
  splitter and the line parser as the same table, up to the white space around a field.\<close>

theorem csv_roundtrip:
  assumes "d \<notin> {CHR 0x22, CHR 0x0A, CHR 0x0D}" "eol = [CHR 0x0A] \<or> eol = [CHR 0x0D, CHR 0x0A]"
    "\<forall>r \<in> set rows. r \<noteq> []"
  shows "map (\<lambda>l. parseCSVLine l d) (splitCSVRows (csv_text d eol rows)) = map (map js_trim) rows"
proof -
  have "parseCSVLine (csv_line d r) d = map js_trim r" if "r \<in> set rows" for r
    using csv_loop_line [of d r "[]"] assms that by (auto simp: parseCSVLine_def)
  then show ?thesis
    using rows_loop_text [OF assms, of "[]"] by (simp add: splitCSVRows_def)
qed

theorem csv_roundtrip_witness:
  "map (\<lambda>l. parseCSVLine l (CHR '',''))
     (splitCSVRows (csv_text (CHR '','') [CHR 0x0D, CHR 0x0A] [[''a@b.c'', ''Ann, the '' @ [CHR 0x22, CHR 0x0A]], [''x'']]))
   = map (map js_trim) [[''a@b.c'', ''Ann, the '' @ [CHR 0x22, CHR 0x0A]], [''x'']]"
  by (rule csv_roundtrip) simp_all

section \<open>What a contact file means\<close>

text \<open>The address cell of a line, and what is wrong with a line that follows \<open>earlier\<close>.\<close>

definition raw_email :: "columns \<Rightarrow> char \<Rightarrow> string \<Rightarrow> string" where
  "raw_email cols d l = field_at (parseCSVLine l d) (case emailIdx cols of Some i \<Rightarrow> Some i | None \<Rightarrow> Some 0)"

definition verdict :: "columns \<Rightarrow> char \<Rightarrow> string list \<Rightarrow> string \<Rightarrow> row_error option" where
  "verdict cols d earlier l =
     (let raw = raw_email cols d l in
      if raw = [] then Some MissingEmail
      else if \<not> isValidEmail (to_lower raw) then Some (InvalidEmail raw)
      else if \<exists>l' \<in> set earlier. isValidEmail (to_lower (raw_email cols d l')) \<and> to_lower (raw_email cols d l') = to_lower raw
      then Some (DuplicateEmail (to_lower raw))
      else None)"

definition contact_of :: "columns \<Rightarrow> string list \<Rightarrow> char \<Rightarrow> string \<Rightarrow> parsed_contact" where
  "contact_of cols hs d l =
     \<lparr>c_email = to_lower (raw_email cols d l), c_name = contact_name cols (parseCSVLine l d),
      c_context = contact_context cols hs (parseCSVLine l d)\<rparr>"

definition data_contacts :: "columns \<Rightarrow> string list \<Rightarrow> char \<Rightarrow> string list \<Rightarrow> string list \<Rightarrow> parsed_contact list" where
  "data_contacts cols hs d pre ls =
     map (\<lambda>i. contact_of cols hs d (ls ! i))
       (filter (\<lambda>i. verdict cols d (pre @ take i ls) (ls ! i) = None) [0..<length ls])"

definition data_errors :: "columns \<Rightarrow> char \<Rightarrow> nat \<Rightarrow> string list \<Rightarrow> string list \<Rightarrow> (nat \<times> row_error) list" where
  "data_errors cols d n pre ls =
     concat (map (\<lambda>i. case verdict cols d (pre @ take i ls) (ls ! i) of None \<Rightarrow> [] | Some e \<Rightarrow> [(n + i, e)])
       [0..<length ls])"

lemma upt_shift: "[0..<Suc n] = 0 # map Suc [0..<n]"
  by (simp add: upt_conv_Cons map_Suc_upt del: upt_Suc)

lemma data_contacts_Cons:
  "data_contacts cols hs d pre (l # ls) =
     (if verdict cols d pre l = None then [contact_of cols hs d l] else []) @ data_contacts cols hs d (pre @ [l]) ls"
  unfolding data_contacts_def length_Cons upt_shift by (simp add: filter_map comp_def)

lemma data_errors_Cons:
  "data_errors cols d n pre (l # ls) =
     (case verdict cols d pre l of None \<Rightarrow> [] | Some e \<Rightarrow> [(n, e)]) @ data_errors cols d (Suc n) (pre @ [l]) ls"
  unfolding data_errors_def length_Cons upt_shift by (simp add: comp_def cong: option.case_cong)

lemma isValidEmail_Nil [simp]: "\<not> isValidEmail []"
  by (simp add: isValidEmail_def)

definition seen_after :: "columns \<Rightarrow> char \<Rightarrow> string list \<Rightarrow> string set" where
  "seen_after cols d pre = {to_lower (raw_email cols d l) | l. l \<in> set pre \<and> isValidEmail (to_lower (raw_email cols d l))}"

lemma classify_row_verdict:
  assumes "set seen = seen_after cols d pre"
  shows "classify_row cols hs seen (parseCSVLine l d) =
           (case verdict cols d pre l of Some e \<Rightarrow> Inl e | None \<Rightarrow> Inr (contact_of cols hs d l))"
proof -
  have "email \<in> set seen \<longleftrightarrow>
      (\<exists>l' \<in> set pre. isValidEmail (to_lower (raw_email cols d l')) \<and> to_lower (raw_email cols d l') = email)" for email
    using assms by (auto simp: seen_after_def)
  then show ?thesis
    by (auto simp: classify_row_def verdict_def contact_of_def raw_email_def [symmetric] Let_def)
qed

lemma seen_after_snoc:
  assumes "set seen = seen_after cols d pre"
  shows "(case verdict cols d pre l of None \<Rightarrow> insert (to_lower (raw_email cols d l)) (set seen) | Some e \<Rightarrow> set seen)
           = seen_after cols d (pre @ [l])"
  unfolding assms by (auto simp: seen_after_def verdict_def Let_def) metis

lemma parse_rows_spec:
  assumes "set seen = seen_after cols d pre"
  shows "parse_rows cols hs d n ls (cs, errs, seen) =
           (cs @ data_contacts cols hs d pre ls, errs @ data_errors cols d n pre ls)"
  using assms
proof (induction ls arbitrary: n cs errs seen pre)
  case Nil
  then show ?case by (simp add: data_contacts_def data_errors_def)
next
  case (Cons l ls)
  show ?case
  proof (cases "verdict cols d pre l")
    case None
    have "set (js_add (to_lower (raw_email cols d l)) seen) = seen_after cols d (pre @ [l])"
      using seen_after_snoc [OF Cons.prems, of l] None by simp
    note IH = Cons.IH [OF this]
    show ?thesis
      by (simp add: classify_row_verdict [OF Cons.prems] None data_contacts_Cons data_errors_Cons)
         (simp add: contact_of_def IH)
  next
    case (Some e)
    have "set seen = seen_after cols d (pre @ [l])"
      using seen_after_snoc [OF Cons.prems, of l] Some by simp
    note IH = Cons.IH [OF this]
    show ?thesis
      by (simp add: classify_row_verdict [OF Cons.prems] Some data_contacts_Cons data_errors_Cons IH)
  qed
qed

definition file_headers :: "string list \<Rightarrow> string list" where
  "file_headers firstRow =
     (if hasHeaders firstRow then firstRow
      else [''email'', ''name''] @ map (\<lambda>i. ''col_'' @ nat_to_string (i + 3)) [0..<length firstRow - 2])"

lemma parseContactFile_rows:
  assumes "splitCSVRows content = first # rest"
  shows "parseContactFile content =
     (let d = detectDelimiter first; firstRow = parseCSVLine first d; hs = file_headers firstRow;
          start = (if hasHeaders firstRow then 1 else 0); cols = detectColumns hs
      in \<lparr>contacts = data_contacts cols hs d [] (drop start (first # rest)),
          errors = data_errors cols d (start + 1) [] (drop start (first # rest)), headers = hs\<rparr>)"
  using assms parse_rows_spec [of "[]" _ _ "[]"]
  by (simp add: parseContactFile_def file_headers_def Let_def seen_after_def)

text \<open>C38: An import reports exactly the rows it refuses, in file order, each with its number and its first
  fault: an empty address, an address of the wrong form, or the address of an earlier well-formed row;
  every other data row becomes a contact, in file order. Rows are those of the CSV splitter, which knows
  quoted line breaks and drops blank rows; the number of a row is its place among these rows, from 1, a
  header row counted, so after a blank line it is less than the line number in the file. A file with no
  row has the single error of an empty file, with the number 0, and no contact.\<close>

theorem import_errors_exact:
  "case splitCSVRows content of
     [] \<Rightarrow> errors (parseContactFile content) = [(0, FileEmpty)] \<and> contacts (parseContactFile content) = []
   | first # rest \<Rightarrow>
       (let d = detectDelimiter first; firstRow = parseCSVLine first d; hs = file_headers firstRow;
            start = (if hasHeaders firstRow then 1 else 0); cols = detectColumns hs; ls = drop start (first # rest)
        in errors (parseContactFile content) =
             concat (map (\<lambda>i. case verdict cols d (take i ls) (ls ! i) of None \<Rightarrow> [] | Some e \<Rightarrow> [(start + 1 + i, e)])
               [0..<length ls])
           \<and> contacts (parseContactFile content) =
             map (\<lambda>i. contact_of cols hs d (ls ! i))
               (filter (\<lambda>i. verdict cols d (take i ls) (ls ! i) = None) [0..<length ls]))"
proof (cases "splitCSVRows content")
  case Nil
  then show ?thesis by (simp add: parseContactFile_def)
next
  case (Cons first rest)
  show ?thesis
    unfolding parseContactFile_rows [OF Cons] Let_def data_contacts_def data_errors_def by (simp add: Cons)
qed

text \<open>The row number is not the line number: the bad address is on line 3 of the file and reported as
  row 2.\<close>

lemma blank_lines_not_counted:
  "errors (parseContactFile (''email'' @ [CHR 0x0A, CHR 0x0A] @ ''bad'')) = [(2, InvalidEmail ''bad'')]"
  by code_simp

definition demo_file :: string where
  "demo_file = ''Email,Name'' @ [CHR 0x0A] @ ''A@b.co,Ann'' @ [CHR 0x0A] @ '',Bob'' @ [CHR 0x0A] @ ''a@b.co,Al'' @ [CHR 0x0A] @ ''nobody''"

theorem import_errors_exact_witness:
  "splitCSVRows demo_file = ''Email,Name'' # [''A@b.co,Ann'', '',Bob'', ''a@b.co,Al'', ''nobody''] \<and>
   errors (parseContactFile demo_file) = [(3, MissingEmail), (4, DuplicateEmail ''a@b.co''), (5, InvalidEmail ''nobody'')]"
proof -
  have s: "splitCSVRows demo_file = ''Email,Name'' # [''A@b.co,Ann'', '',Bob'', ''a@b.co,Al'', ''nobody'']"
    by code_simp
  have v: "verdict (detectColumns (file_headers (parseCSVLine ''Email,Name'' (detectDelimiter ''Email,Name''))))
      (detectDelimiter ''Email,Name'') [] ''A@b.co,Ann'' = None"
    "verdict (detectColumns (file_headers (parseCSVLine ''Email,Name'' (detectDelimiter ''Email,Name''))))
      (detectDelimiter ''Email,Name'') [''A@b.co,Ann''] '',Bob'' = Some MissingEmail"
    "verdict (detectColumns (file_headers (parseCSVLine ''Email,Name'' (detectDelimiter ''Email,Name''))))
      (detectDelimiter ''Email,Name'') [''A@b.co,Ann'', '',Bob''] ''a@b.co,Al'' = Some (DuplicateEmail ''a@b.co'')"
    "verdict (detectColumns (file_headers (parseCSVLine ''Email,Name'' (detectDelimiter ''Email,Name''))))
      (detectDelimiter ''Email,Name'') [''A@b.co,Ann'', '',Bob'', ''a@b.co,Al''] ''nobody'' = Some (InvalidEmail ''nobody'')"
    by code_simp+
  have h: "hasHeaders (parseCSVLine ''Email,Name'' (detectDelimiter ''Email,Name''))" by code_simp
  show ?thesis using import_errors_exact [of demo_file] s h by (simp add: Let_def v)
qed

section \<open>Contacts are well formed\<close>

lemma lower_char_idem [simp]: "lower_char (lower_char c) = lower_char c"
  by (auto simp: lower_char_def)

lemma to_lower_idem [simp]: "to_lower (to_lower s) = to_lower s"
  by (simp add: to_lower_def)

definition contact_ok :: "parsed_contact \<Rightarrow> bool" where
  "contact_ok c \<longleftrightarrow> isValidEmail (c_email c) \<and> to_lower (c_email c) = c_email c \<and> c_name c \<noteq> Some []
     \<and> wf_map (c_context c) \<and> [] \<notin> snd ` set (c_context c)"

lemma js_set_values: "snd ` set (js_set k v m) \<subseteq> insert v (snd ` set m)"
  by (induction k v m rule: js_set.induct) auto

lemma contact_context_ok:
  "wf_map (contact_context cols hs cells) \<and> [] \<notin> snd ` set (contact_context cols hs cells)"
  unfolding contact_context_def
proof (rule invariant_machine.inv_run [OF invariant_machine.intro, of "\<lambda>m. wf_map m \<and> [] \<notin> snd ` set m"])
  fix m :: "(string, string) js_map" and i
  assume "wf_map m \<and> [] \<notin> snd ` set m"
  then show "wf_map (if field_at cells (Some i) \<noteq> [] then js_set (normalizeHeader (hs ! i)) (field_at cells (Some i)) m else m)
      \<and> [] \<notin> snd ` set (if field_at cells (Some i) \<noteq> [] then js_set (normalizeHeader (hs ! i)) (field_at cells (Some i)) m else m)"
    using js_set_values [of "normalizeHeader (hs ! i)" "field_at cells (Some i)" m] by auto
qed simp

lemma contact_of_ok: "verdict cols d pre l = None \<Longrightarrow> contact_ok (contact_of cols hs d l)"
  using contact_context_ok
  by (auto simp: verdict_def contact_of_def contact_ok_def contact_name_def non_empty_def Let_def
      split: if_splits option.split)

lemma data_contacts_ok: "c \<in> set (data_contacts cols hs d pre ls) \<Longrightarrow> contact_ok c"
  by (auto simp: data_contacts_def contact_of_ok)

lemma data_contacts_distinct:
  "distinct (map c_email (data_contacts cols hs d pre ls)) \<and>
   c_email ` set (data_contacts cols hs d pre ls) \<inter> seen_after cols d pre = {}"
proof (induction ls arbitrary: pre)
  case Nil
  then show ?case by (simp add: data_contacts_def)
next
  case (Cons l ls)
  have mono: "seen_after cols d pre \<subseteq> seen_after cols d (pre @ [l])" by (auto simp: seen_after_def)
  have new: "c_email (contact_of cols hs d l) \<in> seen_after cols d (pre @ [l]) - seen_after cols d pre"
    if "verdict cols d pre l = None"
    using that by (auto simp: verdict_def Let_def contact_of_def seen_after_def split: if_splits)
  show ?case
    using Cons.IH [of "pre @ [l]"] mono new by (auto simp: data_contacts_Cons)
qed

lemma parsed_contacts_ok: "c \<in> set (contacts (parseContactFile content)) \<Longrightarrow> contact_ok c"
  using data_contacts_ok parseContactFile_rows [of content]
  by (cases "splitCSVRows content") (auto simp: parseContactFile_def Let_def simp del: drop_Suc_Cons)

lemma parsed_contacts_lower: "c \<in> set (contacts (parseContactFile content)) \<Longrightarrow> to_lower (c_email c) = c_email c"
  using parsed_contacts_ok contact_ok_def by blast

text \<open>Every contact an import returns is well formed: a valid address in lower case, no empty name,
  context entries with distinct keys and non-empty values; and no address occurs twice.\<close>

theorem import_contacts_well_formed:
  "distinct (map c_email (contacts (parseContactFile content)))
   \<and> (\<forall>c \<in> set (contacts (parseContactFile content)).
        isValidEmail (c_email c) \<and> to_lower (c_email c) = c_email c \<and> c_name c \<noteq> Some []
        \<and> wf_map (c_context c) \<and> [] \<notin> snd ` set (c_context c))"
proof (cases "splitCSVRows content")
  case Nil
  then show ?thesis by (simp add: parseContactFile_def)
next
  case (Cons first rest)
  show ?thesis
    unfolding parseContactFile_rows [OF Cons] Let_def
    using data_contacts_distinct data_contacts_ok contact_ok_def by (auto simp del: drop_Suc_Cons)
qed

theorem import_contacts_well_formed_witness:
  "map c_email (contacts (parseContactFile demo_file)) = [''a@b.co''] \<and> isValidEmail ''a@b.co''"
proof -
  have m: "map c_email (contacts (parseContactFile demo_file)) = [''a@b.co'']" by code_simp
  then obtain c where "c \<in> set (contacts (parseContactFile demo_file))" "c_email c = ''a@b.co''" by auto
  then show ?thesis using import_contacts_well_formed [of demo_file] m by metis
qed

section \<open>Bulk enrollment\<close>

definition active_emails :: "string \<Rightarrow> enrollment list \<Rightarrow> string set" where
  "active_emails seq es = contactEmail ` {e \<in> set es. sequenceId e = seq \<and> status e = Active}"

definition enrolls :: "string \<Rightarrow> seq_state \<Rightarrow> nat \<Rightarrow> seq_state \<times> enroll_result \<Rightarrow> bool" where
  "enrolls seq s n p \<longleftrightarrow>
     config (fst p) = config s
     \<and> (\<exists>new. enrollments (fst p) = enrollments s @ new \<and> map contactEmail new = enrolled (snd p)
           \<and> (\<forall>e \<in> set new. sequenceId e = seq \<and> status e = Active \<and> currentStep e = 0 \<and> nextStepAt e \<noteq> None))
     \<and> countActiveEnrollments (fst p) seq \<le> max (countActiveEnrollments s seq) (maxActiveEnrollments (config s))
     \<and> length (enrolled (snd p)) + length (skipped (snd p)) + length (failed (snd p)) = n
     \<and> (duplicateEnrollmentCheck (config s) \<longrightarrow>
          distinct (enrolled (snd p)) \<and> set (enrolled (snd p)) \<inter> active_emails seq (enrollments s) = {})"

lemma countActive_snoc:
  "countActiveEnrollments (s\<lparr>enrollments := enrollments s @ [e]\<rparr>) seq =
     countActiveEnrollments s seq + (if sequenceId e = seq \<and> status e = Active then 1 else 0)"
  by (simp add: countActiveEnrollments_def)

lemma first_failing_NoneD: "first_failing cs = None \<Longrightarrow> c \<in> set cs \<Longrightarrow> c = None"
  by (induction cs rule: first_failing.induct) auto

lemma duplicate_check_passed:
  assumes "checkDuplicateEnrollment seq email None s = None" "duplicateEnrollmentCheck (config s)"
  shows "email \<notin> active_emails seq (enrollments s)"
  using assms
  by (auto simp: checkDuplicateEnrollment_def listEnrollments_def active_emails_def filter_empty_conv split: if_splits)

lemma enrollContact_ok:
  assumes "enrollContact seq email name ctx i now s = (s', Inr e)"
  shows "s' = s\<lparr>enrollments := enrollments s @ [e]\<rparr>" "sequenceId e = seq" "status e = Active" "currentStep e = 0"
    "nextStepAt e \<noteq> None" "contactEmail e = to_lower email"
  using assms by (auto simp: enrollContact_def Let_def split: option.splits list.splits if_splits)

lemma enrollContact_fails:
  "enrollContact seq email name ctx i now s = (s', Inl e) \<Longrightarrow> s' = s"
  by (auto simp: enrollContact_def Let_def split: option.splits list.splits if_splits)

lemma enroll_one_enrolls:
  assumes p: "enrolls seq s n p" and low: "to_lower (c_email c) = c_email c"
  shows "enrolls seq s (Suc n) (enroll_one seq c i now p)"
proof -
  obtain s1 r where p1: "p = (s1, r)" by fastforce
  let ?checks = "[checkEnrollmentCap seq s1, checkDuplicateEnrollment seq (c_email c) None s1, checkCooldown seq (c_email c) now s1]"
  let ?e = "enrollContact seq (c_email c) (c_name c)
    (if c_context c = [] then None else Some (map (\<lambda>(k, v). (k, JStr v)) (c_context c))) i now s1"
  show ?thesis
  proof (cases "first_failing ?checks")
    case (Some g)
    then show ?thesis using p by (simp add: p1 enroll_one_def enrolls_def)
  next
    case None
    have cap: "countActiveEnrollments s1 seq < maxActiveEnrollments (config s1)"
      using first_failing_NoneD [OF None, of "checkEnrollmentCap seq s1"] by (simp add: checkEnrollmentCap_def split: if_splits)
    have fresh: "duplicateEnrollmentCheck (config s1) \<Longrightarrow> c_email c \<notin> active_emails seq (enrollments s1)"
      using first_failing_NoneD [OF None] duplicate_check_passed by simp
    obtain s2 v where e: "?e = (s2, v)" by fastforce
    show ?thesis
    proof (cases v)
      case (Inl err)
      then show ?thesis using p e enrollContact_fails [OF e [unfolded Inl]]
        by (simp add: p1 enroll_one_def enrolls_def None)
    next
      case (Inr row)
      note row = enrollContact_ok [OF e [unfolded Inr]]
      obtain new where new: "enrollments s1 = enrollments s @ new" "map contactEmail new = enrolled r"
        "\<forall>e \<in> set new. sequenceId e = seq \<and> status e = Active \<and> currentStep e = 0 \<and> nextStepAt e \<noteq> None"
        using p by (auto simp: p1 enrolls_def)
      have act: "active_emails seq (enrollments s1) = active_emails seq (enrollments s) \<union> set (enrolled r)"
        using new by (auto simp: active_emails_def new(2) [symmetric])
      have "enroll_one seq c i now p = (s2, r\<lparr>enrolled := enrolled r @ [c_email c]\<rparr>)"
        using e Inr by (simp add: p1 enroll_one_def None)
      moreover have "\<exists>new'. enrollments s2 = enrollments s @ new' \<and> map contactEmail new' = enrolled r @ [c_email c]
           \<and> (\<forall>e \<in> set new'. sequenceId e = seq \<and> status e = Active \<and> currentStep e = 0 \<and> nextStepAt e \<noteq> None)"
        using new row low by (intro exI [of _ "new @ [row]"]) auto
      ultimately show ?thesis
        using p cap fresh act countActive_snoc [of s1 row seq] row
        by (auto simp: p1 enrolls_def)
    qed
  qed
qed

lemma enroll_all_enrolls:
  "enrolls seq s n p \<Longrightarrow> \<forall>c \<in> set cs. to_lower (c_email c) = c_email c \<Longrightarrow>
   enrolls seq s (n + length cs) (enroll_all seq ids clock k cs p)"
proof (induction cs arbitrary: n k p)
  case (Cons c cs)
  then show ?case using Cons.IH [of "Suc n" "enroll_one seq c (ids k) (clock k) p" "Suc k"] enroll_one_enrolls by simp
qed simp

text \<open>Importing parsed contacts respects the guardrails: existing enrollments are kept, exactly the
  reported contacts are added as active enrollments at the first step with a time to run, the number of
  active enrollments never passes the cap (unless it had before), every contact is reported once, and with the
  duplicate check on no address that is active in the sequence is enrolled again.\<close>

theorem bulk_import_respects_guardrails:
  assumes "bulkEnroll seq (contacts (parseContactFile content)) ids clock s = (s', Inr r)"
  shows "(\<exists>new. enrollments s' = enrollments s @ new \<and> map contactEmail new = enrolled r
           \<and> (\<forall>e \<in> set new. sequenceId e = seq \<and> status e = Active \<and> currentStep e = 0 \<and> nextStepAt e \<noteq> None))
     \<and> countActiveEnrollments s' seq \<le> max (countActiveEnrollments s seq) (maxActiveEnrollments (config s))
     \<and> length (enrolled r) + length (skipped r) + length (failed r) = length (contacts (parseContactFile content))
     \<and> (duplicateEnrollmentCheck (config s) \<longrightarrow>
          distinct (enrolled r) \<and> set (enrolled r) \<inter> active_emails seq (enrollments s) = {})"
proof -
  let ?r0 = "\<lparr>enrolled = [], skipped = [], failed = []\<rparr>"
  have "enrolls seq s 0 (s, ?r0)" by (simp add: enrolls_def)
  moreover have "\<forall>c \<in> set (contacts (parseContactFile content)). to_lower (c_email c) = c_email c"
    using parsed_contacts_lower by blast
  ultimately have "enrolls seq s (0 + length (contacts (parseContactFile content)))
      (enroll_all seq ids clock 0 (contacts (parseContactFile content)) (s, ?r0))"
    by (rule enroll_all_enrolls)
  moreover have "enroll_all seq ids clock 0 (contacts (parseContactFile content)) (s, ?r0) = (s', r)"
    using assms by (auto simp: bulkEnroll_def split: option.splits prod.splits)
  ultimately show ?thesis by (simp add: enrolls_def)
qed

theorem bulk_import_respects_guardrails_witness:
  "\<exists>s' r. bulkEnroll ''q'' (contacts (parseContactFile demo_file)) (\<lambda>_. ''n'') (\<lambda>_. 7) demo_state = (s', Inr r)
      \<and> enrolled r = [''a@b.co''] \<and> countActiveEnrollments s' ''q'' \<le> max (countActiveEnrollments demo_state ''q'') 200
      \<and> distinct (enrolled r)"
proof -
  let ?b = "bulkEnroll ''q'' (contacts (parseContactFile demo_file)) (\<lambda>_. ''n'') (\<lambda>_. 7) demo_state"
  have e: "(case snd ?b of Inr r \<Rightarrow> enrolled r = [''a@b.co''] | Inl _ \<Rightarrow> False)" by code_simp
  then obtain s' r where b: "?b = (s', Inr r)" "enrolled r = [''a@b.co'']"
    by (cases ?b) (auto split: sum.splits)
  have c: "maxActiveEnrollments (config demo_state) = 200" "duplicateEnrollmentCheck (config demo_state)"
    by code_simp+
  show ?thesis using bulk_import_respects_guardrails [OF b(1)] b c by auto
qed

end
