(* ===== verification/Verification_Sessions.thy ===== *)
theory Verification_Sessions
  imports Prelude
begin

text \<open>
  The gateway's channel verification sessions (\<^verbatim>\<open>gateway/src/db/session-store.ts\<close>), the identity a
  session is bound to (\<^verbatim>\<open>packages/gateway-client/src/verification-session-contract.ts\<close>) and the test
  whether an actor may redeem a code (\<^verbatim>\<open>gateway/src/verification/identity-match.ts\<close>).

  The table is a list of rows in insertion order, its primary key is the session id. Every operation is
  one synchronous section on the gateway's only connection, so it is one step. Clock readings are
  arguments; a select without an order takes the first matching row.
\<close>

section \<open>Rows\<close>

datatype session_status =
    Pending | Consumed | PendingBootstrap | AwaitingResponse | Verified | Expired | Revoked | Locked

datatype verification_purpose = Guardian | TrustedContact

datatype identity_binding_status = BindingPendingBootstrap | Bound

record vsession =
  id_of :: string
  channel :: string
  challengeHash :: string
  expiresAt :: int
  status :: session_status
  sourceConversationId :: "string option"
  consumedByExternalUserId :: "string option"
  consumedByChatId :: "string option"
  expectedExternalUserId :: "string option"
  expectedChatId :: "string option"
  expectedPhoneE164 :: "string option"
  identityBindingStatus :: "identity_binding_status option"
  destinationAddress :: "string option"
  lastSentAt :: "int option"
  sendCount :: nat
  nextResendAt :: "int option"
  codeDigits :: nat
  maxAttempts :: nat
  verificationPurpose :: verification_purpose
  bootstrapTokenHash :: "string option"
  createdAt :: int
  updatedAt :: int

type_synonym session_table = "vsession list"

definition INTERCEPTABLE_STATUSES :: "session_status list" where
  "INTERCEPTABLE_STATUSES = [Pending, PendingBootstrap, AwaitingResponse]"

definition OUTBOUND_LIVE_STATUSES :: "session_status list" where
  "OUTBOUND_LIVE_STATUSES = [PendingBootstrap, AwaitingResponse]"

definition interceptable :: "vsession \<Rightarrow> bool" where
  "interceptable v \<longleftrightarrow> status v \<in> set INTERCEPTABLE_STATUSES"

definition outbound_live :: "vsession \<Rightarrow> bool" where
  "outbound_live v \<longleftrightarrow> status v \<in> set OUTBOUND_LIVE_STATUSES"

section \<open>Bound identity\<close>

datatype identity_field = PhoneE164 | ExternalUserId | ChatId

definition boundIdentity ::
  "string option \<Rightarrow> string option \<Rightarrow> string option \<Rightarrow> (identity_field \<times> string) option" where
  "boundIdentity phone user chat =
     (case phone of
        Some p \<Rightarrow> Some (PhoneE164, p)
      | None \<Rightarrow>
          (case user of
             Some u \<Rightarrow> Some (ExternalUserId, u)
           | None \<Rightarrow> (case chat of Some c \<Rightarrow> Some (ChatId, c) | None \<Rightarrow> None)))"

definition session_identity :: "vsession \<Rightarrow> (identity_field \<times> string) option" where
  "session_identity v = boundIdentity (expectedPhoneE164 v) (expectedExternalUserId v) (expectedChatId v)"

definition bindsSameIdentity :: "(identity_field \<times> string) option \<Rightarrow> (identity_field \<times> string) option \<Rightarrow> bool" where
  "bindsSameIdentity a b \<longleftrightarrow> a \<noteq> None \<and> b \<noteq> None \<and> fst (the a) = fst (the b) \<and> snd (the a) = snd (the b)"

definition checkIdentityMatch :: "vsession \<Rightarrow> string \<Rightarrow> string \<Rightarrow> bool" where
  "checkIdentityMatch v actorExternalUserId actorChatId =
     (case session_identity v of
        None \<Rightarrow> True
      | Some (f, x) \<Rightarrow>
          if identityBindingStatus v \<noteq> Some Bound then True
          else if f = ChatId then actorChatId = x else actorExternalUserId = x)"

section \<open>Operations\<close>

text \<open>An insert fails on an existing id (primary key); the statements before it have run.\<close>

definition insert_session :: "vsession \<Rightarrow> session_table \<Rightarrow> session_table \<times> vsession option" where
  "insert_session row t = (if id_of row \<in> id_of ` set t then (t, None) else (t @ [row], Some row))"

definition update_where :: "(vsession \<Rightarrow> bool) \<Rightarrow> (vsession \<Rightarrow> vsession) \<Rightarrow> session_table \<Rightarrow> session_table" where
  "update_where P f t = map (\<lambda>v. if P v then f v else v) t"

definition revokePendingSessions :: "string \<Rightarrow> int \<Rightarrow> session_table \<Rightarrow> session_table" where
  "revokePendingSessions ch now =
     update_where (\<lambda>v. channel v = ch \<and> status v = Pending) (\<lambda>v. v\<lparr>status := Revoked, updatedAt := now\<rparr>)"

definition createInboundSession ::
  "string \<Rightarrow> string \<Rightarrow> string \<Rightarrow> int \<Rightarrow> string option \<Rightarrow> int \<Rightarrow> session_table \<Rightarrow> session_table \<times> vsession option" where
  "createInboundSession i ch hash expires src now t =
     insert_session
       \<lparr>id_of = i, channel = ch, challengeHash = hash, expiresAt = expires, status = Pending,
        sourceConversationId = src, consumedByExternalUserId = None, consumedByChatId = None,
        expectedExternalUserId = None, expectedChatId = None, expectedPhoneE164 = None,
        identityBindingStatus = None, destinationAddress = None, lastSentAt = None, sendCount = 0,
        nextResendAt = None, codeDigits = 6, maxAttempts = 3, verificationPurpose = Guardian,
        bootstrapTokenHash = None, createdAt = now, updatedAt = now\<rparr>
       (revokePendingSessions ch now t)"

definition findPendingSessionByHash :: "string \<Rightarrow> string \<Rightarrow> int \<Rightarrow> session_table \<Rightarrow> vsession option" where
  "findPendingSessionByHash ch hash now t =
     find (\<lambda>v. channel v = ch \<and> challengeHash v = hash \<and> interceptable v \<and> expiresAt v > now) t"

definition findPendingSessionForChannel :: "string \<Rightarrow> int \<Rightarrow> session_table \<Rightarrow> vsession option" where
  "findPendingSessionForChannel ch now t =
     find (\<lambda>v. channel v = ch \<and> status v = Pending \<and> expiresAt v > now) t"

text \<open>An empty filter string is falsy and filters nothing. The order is by creation time and then by
  insertion, newest first.\<close>

definition filter_user :: "string option \<Rightarrow> vsession \<Rightarrow> bool" where
  "filter_user u v \<longleftrightarrow> (case u of None \<Rightarrow> True | Some x \<Rightarrow> x = [] \<or> expectedExternalUserId v = Some x)"

fun newest :: "vsession list \<Rightarrow> vsession option" where
  "newest [] = None"
| "newest (v # vs) = (case newest vs of None \<Rightarrow> Some v | Some w \<Rightarrow> if createdAt w \<ge> createdAt v then Some w else Some v)"

definition findLatestSessionByStatuses ::
  "string \<Rightarrow> session_status list \<Rightarrow> string option \<Rightarrow> verification_purpose option \<Rightarrow> int \<Rightarrow> session_table \<Rightarrow> vsession option" where
  "findLatestSessionByStatuses ch statuses user purpose now t =
     newest (filter (\<lambda>v. channel v = ch \<and> status v \<in> set statuses \<and> expiresAt v > now \<and> filter_user user v
       \<and> (purpose = None \<or> purpose = Some (verificationPurpose v))) t)"

definition findActiveSession ::
  "string \<Rightarrow> string option \<Rightarrow> verification_purpose option \<Rightarrow> int \<Rightarrow> session_table \<Rightarrow> vsession option" where
  "findActiveSession ch user purpose now t =
     findLatestSessionByStatuses ch OUTBOUND_LIVE_STATUSES user purpose now t"

definition hasInterceptableSession :: "string \<Rightarrow> int \<Rightarrow> session_table \<Rightarrow> bool" where
  "hasInterceptableSession ch now t =
     list_ex (\<lambda>v. channel v = ch \<and> interceptable v \<and> expiresAt v > now) t"

definition consumeSession :: "string \<Rightarrow> string \<Rightarrow> string \<Rightarrow> int \<Rightarrow> session_table \<Rightarrow> session_table \<times> int option" where
  "consumeSession i user chat now t =
     (let hit = (\<lambda>v. id_of v = i \<and> interceptable v)
      in (update_where hit (\<lambda>v. v\<lparr>status := Consumed, consumedByExternalUserId := Some user,
            consumedByChatId := Some chat, updatedAt := now\<rparr>) t,
          if list_ex hit t then Some now else None))"

definition claimBootstrapSession :: "string \<Rightarrow> string \<Rightarrow> int \<Rightarrow> session_table \<Rightarrow> session_table \<times> bool" where
  "claimBootstrapSession i ch now t =
     (let hit = (\<lambda>v. id_of v = i \<and> channel v = ch \<and> status v = PendingBootstrap)
      in (update_where hit (\<lambda>v. v\<lparr>status := Revoked, updatedAt := now\<rparr>) t, list_ex hit t))"

definition revokeSameIdentityOutbound ::
  "string \<Rightarrow> (identity_field \<times> string) option \<Rightarrow> int \<Rightarrow> session_table \<Rightarrow> session_table" where
  "revokeSameIdentityOutbound ch mint now t =
     (if mint = None then t
      else (let superseded = map id_of (filter (\<lambda>v. bindsSameIdentity (session_identity v) mint)
                  (filter (\<lambda>v. channel v = ch \<and> outbound_live v) t))
            in if superseded = [] then t
               else update_where (\<lambda>v. id_of v \<in> set superseded) (\<lambda>v. v\<lparr>status := Revoked, updatedAt := now\<rparr>) t))"

record outbound_params =
  o_channel :: string
  o_expectedExternalUserId :: "string option"
  o_expectedChatId :: "string option"
  o_expectedPhoneE164 :: "string option"
  o_identityBindingStatus :: "identity_binding_status option"
  o_destinationAddress :: "string option"
  o_codeDigits :: "nat option"
  o_maxAttempts :: "nat option"
  o_verificationPurpose :: "verification_purpose option"
  o_bootstrapTokenHash :: "string option"

definition with_default :: "'a \<Rightarrow> 'a option \<Rightarrow> 'a" where
  "with_default d x = (case x of Some v \<Rightarrow> v | None \<Rightarrow> d)"

definition params_identity :: "outbound_params \<Rightarrow> (identity_field \<times> string) option" where
  "params_identity p = boundIdentity (o_expectedPhoneE164 p) (o_expectedExternalUserId p) (o_expectedChatId p)"

definition createOutboundSession ::
  "string \<Rightarrow> string \<Rightarrow> int \<Rightarrow> session_status \<Rightarrow> outbound_params \<Rightarrow> int \<Rightarrow> session_table \<Rightarrow> session_table \<times> vsession option" where
  "createOutboundSession i hash expires st p now t =
     insert_session
       \<lparr>id_of = i, channel = o_channel p, challengeHash = hash, expiresAt = expires, status = st,
        sourceConversationId = None, consumedByExternalUserId = None, consumedByChatId = None,
        expectedExternalUserId = o_expectedExternalUserId p, expectedChatId = o_expectedChatId p,
        expectedPhoneE164 = o_expectedPhoneE164 p,
        identityBindingStatus = Some (with_default Bound (o_identityBindingStatus p)),
        destinationAddress = o_destinationAddress p, lastSentAt = None, sendCount = 0, nextResendAt = None,
        codeDigits = with_default 6 (o_codeDigits p), maxAttempts = with_default 3 (o_maxAttempts p),
        verificationPurpose = with_default Guardian (o_verificationPurpose p),
        bootstrapTokenHash = o_bootstrapTokenHash p, createdAt = now, updatedAt = now\<rparr>
       (revokeSameIdentityOutbound (o_channel p) (params_identity p) now t)"

definition getSessionById :: "string \<Rightarrow> session_table \<Rightarrow> vsession option" where
  "getSessionById i t = find (\<lambda>v. id_of v = i) t"

definition findSessionByBootstrapTokenHash :: "string \<Rightarrow> string \<Rightarrow> int \<Rightarrow> session_table \<Rightarrow> vsession option" where
  "findSessionByBootstrapTokenHash ch hash now t =
     find (\<lambda>v. channel v = ch \<and> bootstrapTokenHash v = Some hash \<and> status v = PendingBootstrap \<and> expiresAt v > now) t"

definition updateSessionStatus ::
  "string \<Rightarrow> session_status \<Rightarrow> string option \<Rightarrow> string option \<Rightarrow> int \<Rightarrow> session_table \<Rightarrow> session_table" where
  "updateSessionStatus i st user chat now =
     update_where (\<lambda>v. id_of v = i)
       (\<lambda>v. v\<lparr>status := st, updatedAt := now,
              consumedByExternalUserId := (case user of Some u \<Rightarrow> Some u | None \<Rightarrow> consumedByExternalUserId v),
              consumedByChatId := (case chat of Some c \<Rightarrow> Some c | None \<Rightarrow> consumedByChatId v)\<rparr>)"

definition updateSessionDelivery :: "string \<Rightarrow> int \<Rightarrow> nat \<Rightarrow> int option \<Rightarrow> int \<Rightarrow> session_table \<Rightarrow> session_table" where
  "updateSessionDelivery i sent n next now =
     update_where (\<lambda>v. id_of v = i)
       (\<lambda>v. v\<lparr>lastSentAt := Some sent, sendCount := n, nextResendAt := next, updatedAt := now\<rparr>)"

definition countRecentSendsToDestination :: "string \<Rightarrow> string \<Rightarrow> int \<Rightarrow> int \<Rightarrow> session_table \<Rightarrow> nat" where
  "countRecentSendsToDestination ch dest window now t =
     length (filter (\<lambda>v. channel v = ch \<and> destinationAddress v = Some dest
       \<and> (case lastSentAt v of Some s \<Rightarrow> s \<ge> now - window | None \<Rightarrow> False)) t)"

definition bindSessionIdentity :: "string \<Rightarrow> string \<Rightarrow> string \<Rightarrow> int \<Rightarrow> session_table \<Rightarrow> session_table" where
  "bindSessionIdentity i user chat now =
     update_where (\<lambda>v. id_of v = i)
       (\<lambda>v. v\<lparr>expectedExternalUserId := Some user, expectedChatId := Some chat,
              identityBindingStatus := Some Bound, updatedAt := now\<rparr>)"

section \<open>Statements\<close>

text \<open>What the IPC handlers and the service run against the table.\<close>

datatype session_stmt =
    CreateInbound string string string int "string option" int
  | CreateOutbound string string int session_status outbound_params int
  | Consume string string string int
  | ClaimBootstrap string string int
  | RevokePending string int
  | BindIdentity string string string int
  | UpdateDelivery string int nat "int option" int
  | UpdateStatus string session_status "string option" "string option" int

fun exec_session :: "session_table \<Rightarrow> session_stmt \<Rightarrow> session_table" where
  "exec_session t (CreateInbound i ch h ex src now) = fst (createInboundSession i ch h ex src now t)"
| "exec_session t (CreateOutbound i h ex st p now) = fst (createOutboundSession i h ex st p now t)"
| "exec_session t (Consume i u c now) = fst (consumeSession i u c now t)"
| "exec_session t (ClaimBootstrap i ch now) = fst (claimBootstrapSession i ch now t)"
| "exec_session t (RevokePending ch now) = revokePendingSessions ch now t"
| "exec_session t (BindIdentity i u c now) = bindSessionIdentity i u c now t"
| "exec_session t (UpdateDelivery i sent n nx now) = updateSessionDelivery i sent n nx now t"
| "exec_session t (UpdateStatus i st u c now) = updateSessionStatus i st u c now t"

fun redeems :: "string \<Rightarrow> session_table \<Rightarrow> session_stmt \<Rightarrow> bool" where
  "redeems k t (Consume i u c now) = (i = k \<and> snd (consumeSession i u c now t) \<noteq> None)"
| "redeems k t (ClaimBootstrap i ch now) = (i = k \<and> snd (claimBootstrapSession i ch now t))"
| "redeems k t _ = False"

text \<open>A status update that puts the session back into a redeemable status.\<close>

fun reopens_session :: "string \<Rightarrow> session_stmt \<Rightarrow> bool" where
  "reopens_session k (UpdateStatus i st u c now) = (i = k \<and> st \<in> set INTERCEPTABLE_STATUSES)"
| "reopens_session k _ = False"

definition redeemed :: "string \<Rightarrow> session_table \<Rightarrow> bool" where
  "redeemed k t \<longleftrightarrow> k \<in> id_of ` set t \<and> (\<forall>v \<in> set t. id_of v = k \<longrightarrow> \<not> interceptable v)"

section \<open>A code is redeemed once\<close>

lemma ids_update_where:
  "(\<And>v. id_of (f v) = id_of v) \<Longrightarrow> map id_of (update_where P f t) = map id_of t"
  by (simp add: update_where_def)

lemma redeemed_update_where:
  assumes "redeemed k t" "\<And>v. id_of (f v) = id_of v" "\<And>v. id_of v = k \<Longrightarrow> P v \<Longrightarrow> interceptable (f v) \<Longrightarrow> interceptable v"
  shows "redeemed k (update_where P f t)"
proof -
  have "id_of ` set (update_where P f t) = id_of ` set t"
    using ids_update_where [OF assms(2), of P t] by (metis list.set_map)
  moreover have "\<not> interceptable w" if "w \<in> set (update_where P f t)" "id_of w = k" for w
  proof -
    obtain v where v: "v \<in> set t" "w = (if P v then f v else v)"
      using \<open>w \<in> set (update_where P f t)\<close> by (auto simp: update_where_def)
    then have "id_of v = k" using that(2) assms(2) by (metis (full_types))
    then have "\<not> interceptable v" using assms(1) v(1) by (simp add: redeemed_def)
    then show ?thesis using v(2) assms(3) \<open>id_of v = k\<close> by auto
  qed
  ultimately show ?thesis using assms(1) by (simp add: redeemed_def)
qed

lemma redeemed_insert: "redeemed k t \<Longrightarrow> redeemed k (fst (insert_session row t))"
  by (auto simp: insert_session_def redeemed_def)

lemma revoked_not_interceptable [simp]: "\<not> interceptable (v\<lparr>status := Revoked, updatedAt := now\<rparr>)"
  by (simp add: interceptable_def INTERCEPTABLE_STATUSES_def)

lemma redeemed_revoke:
  "redeemed k t \<Longrightarrow> redeemed k (update_where P (\<lambda>v. v\<lparr>status := Revoked, updatedAt := now\<rparr>) t)"
  by (rule redeemed_update_where) simp_all

lemma redeemed_stays: "redeemed k t \<Longrightarrow> \<not> reopens_session k e \<Longrightarrow> redeemed k (exec_session t e)"
proof (cases e)
  case (CreateInbound i ch h ex src now)
  then show "redeemed k t \<Longrightarrow> ?thesis"
    by (simp add: createInboundSession_def redeemed_insert revokePendingSessions_def redeemed_revoke)
next
  case (CreateOutbound i h ex st p now)
  then show "redeemed k t \<Longrightarrow> ?thesis"
    by (simp add: createOutboundSession_def redeemed_insert revokeSameIdentityOutbound_def Let_def redeemed_revoke)
next
  case (RevokePending ch now)
  then show "redeemed k t \<Longrightarrow> ?thesis" by (simp add: revokePendingSessions_def redeemed_revoke)
next
  case (ClaimBootstrap i ch now)
  then show "redeemed k t \<Longrightarrow> ?thesis" by (simp add: claimBootstrapSession_def Let_def redeemed_revoke)
qed (auto simp: consumeSession_def bindSessionIdentity_def updateSessionDelivery_def updateSessionStatus_def
      interceptable_def INTERCEPTABLE_STATUSES_def Let_def elim!: redeemed_update_where)

lemma redeemed_by_update:
  assumes "\<And>v. id_of (f v) = id_of v" "k \<in> id_of ` set t"
    "\<And>v. v \<in> set t \<Longrightarrow> id_of v = k \<Longrightarrow> (P v \<longrightarrow> \<not> interceptable (f v)) \<and> (\<not> P v \<longrightarrow> \<not> interceptable v)"
  shows "redeemed k (update_where P f t)"
proof -
  have "id_of ` set (update_where P f t) = id_of ` set t"
    using ids_update_where [OF assms(1), of P t] by (metis list.set_map)
  moreover have "\<not> interceptable w" if "w \<in> set (update_where P f t)" "id_of w = k" for w
  proof -
    obtain v where v: "v \<in> set t" "w = (if P v then f v else v)"
      using \<open>w \<in> set (update_where P f t)\<close> by (auto simp: update_where_def)
    then have "id_of v = k" using that(2) assms(1) by (metis (full_types))
    then show ?thesis using v assms(3) by auto
  qed
  ultimately show ?thesis using assms(2) by (simp add: redeemed_def)
qed

definition unique_sessions :: "session_table \<Rightarrow> bool" where
  "unique_sessions t \<longleftrightarrow> distinct (map id_of t)"

lemma unique_update_where [simp]:
  "(\<And>v. id_of (f v) = id_of v) \<Longrightarrow> unique_sessions (update_where P f t) = unique_sessions t"
  by (simp add: unique_sessions_def ids_update_where)

lemma unique_insert: "unique_sessions t \<Longrightarrow> unique_sessions (fst (insert_session row t))"
  by (auto simp: insert_session_def unique_sessions_def)

lemma unique_exec: "unique_sessions t \<Longrightarrow> unique_sessions (exec_session t e)"
  by (cases e)
     (simp_all add: createInboundSession_def createOutboundSession_def unique_insert revokePendingSessions_def
        revokeSameIdentityOutbound_def consumeSession_def claimBootstrapSession_def bindSessionIdentity_def
        updateSessionDelivery_def updateSessionStatus_def Let_def)

lemma same_session: "unique_sessions t \<Longrightarrow> v \<in> set t \<Longrightarrow> w \<in> set t \<Longrightarrow> id_of v = id_of w \<Longrightarrow> v = w"
  by (auto simp: unique_sessions_def distinct_map inj_on_def)

lemma redeems_redeemed:
  assumes "unique_sessions t" "redeems k t e"
  shows "redeemed k (exec_session t e)"
proof (cases e)
  case (Consume i u c now)
  have "redeemed k (update_where (\<lambda>v. id_of v = i \<and> interceptable v)
      (\<lambda>v. v\<lparr>status := Consumed, consumedByExternalUserId := Some u, consumedByChatId := Some c, updatedAt := now\<rparr>) t)"
    by (rule redeemed_by_update)
       (use assms(2) Consume in \<open>auto simp: consumeSession_def Let_def list_ex_iff interceptable_def
          INTERCEPTABLE_STATUSES_def split: if_splits\<close>)
  then show ?thesis using Consume by (simp add: consumeSession_def Let_def)
next
  case (ClaimBootstrap i ch now)
  then obtain v where v: "v \<in> set t" "id_of v = k" "channel v = ch" "status v = PendingBootstrap" "i = k"
    using assms(2) by (auto simp: claimBootstrapSession_def Let_def list_ex_iff)
  have "redeemed k (update_where (\<lambda>v. id_of v = i \<and> channel v = ch \<and> status v = PendingBootstrap)
      (\<lambda>v. v\<lparr>status := Revoked, updatedAt := now\<rparr>) t)"
  proof (rule redeemed_by_update)
    fix w
    assume "w \<in> set t" "id_of w = k"
    then have "w = v" using same_session [OF assms(1)] v by simp
    then show "(id_of w = i \<and> channel w = ch \<and> status w = PendingBootstrap \<longrightarrow>
          \<not> interceptable (w\<lparr>status := Revoked, updatedAt := now\<rparr>)) \<and>
        (\<not> (id_of w = i \<and> channel w = ch \<and> status w = PendingBootstrap) \<longrightarrow> \<not> interceptable w)"
      using v by simp
  qed (use v in auto)
  then show ?thesis using ClaimBootstrap by (simp add: claimBootstrapSession_def Let_def)
qed (use assms(2) in auto)

lemma redeemed_not_redeems: "redeemed k t \<Longrightarrow> \<not> redeems k t e"
  by (cases e) (auto simp: redeemed_def consumeSession_def claimBootstrapSession_def Let_def list_ex_iff
      interceptable_def INTERCEPTABLE_STATUSES_def)

text \<open>The session table as a store with reopening, on tables with unique ids.\<close>

definition wins_session :: "string \<Rightarrow> session_table \<Rightarrow> session_stmt \<Rightarrow> bool" where
  "wins_session k t e \<longleftrightarrow> unique_sessions t \<and> redeems k t e"

interpretation codes: reopenable_store exec_session wins_session redeemed reopens_session
  by unfold_locales (auto simp: wins_session_def redeems_redeemed redeemed_stays redeemed_not_redeems)

lemma count_wins_session:
  "unique_sessions t \<Longrightarrow> count_wins exec_session (redeems k) t es = count_wins exec_session (wins_session k) t es"
  by (induction es arbitrary: t) (auto simp: wins_session_def unique_exec)

text \<open>C21: A verification code is good for one redemption. In every sequence of statements on the session
  table (mints, supersessions, consumptions and bootstrap claims by any number of competing requests, identity
  bindings, delivery updates, status updates) a session is consumed or claimed at most once, plus once for each
  status update that explicitly puts it back into a redeemable status.\<close>

theorem code_redeemed_once:
  assumes "distinct (map id_of t)"
  shows "count_wins exec_session (redeems k) t es \<le> 1 + length (filter (reopens_session k) es)"
  using codes.wins_bounded [of k t es] count_wins_session [of t k es] assms
  by (simp add: unique_sessions_def split: if_splits)

definition demo_params :: outbound_params where
  "demo_params = \<lparr>o_channel = ''slack'', o_expectedExternalUserId = Some ''u1'', o_expectedChatId = Some ''c1'',
     o_expectedPhoneE164 = None, o_identityBindingStatus = None, o_destinationAddress = None, o_codeDigits = None,
     o_maxAttempts = None, o_verificationPurpose = None, o_bootstrapTokenHash = None\<rparr>"

theorem code_redeemed_once_witness:
  "count_wins exec_session (redeems ''s1'') []
     [CreateOutbound ''s1'' ''h'' 1000 AwaitingResponse demo_params 1, Consume ''s1'' ''u1'' ''c1'' 2,
      Consume ''s1'' ''u1'' ''c1'' 3] = 1
   \<and> count_wins exec_session (redeems ''s1'') []
     [CreateOutbound ''s1'' ''h'' 1000 AwaitingResponse demo_params 1, Consume ''s1'' ''u1'' ''c1'' 2,
      Consume ''s1'' ''u1'' ''c1'' 3] \<le> 1 + length (filter (reopens_session ''s1'')
     [CreateOutbound ''s1'' ''h'' 1000 AwaitingResponse demo_params 1, Consume ''s1'' ''u1'' ''c1'' 2,
      Consume ''s1'' ''u1'' ''c1'' 3])"
proof (rule conjI)
  show "count_wins exec_session (redeems ''s1'') []
     [CreateOutbound ''s1'' ''h'' 1000 AwaitingResponse demo_params 1, Consume ''s1'' ''u1'' ''c1'' 2,
      Consume ''s1'' ''u1'' ''c1'' 3] = 1" by code_simp
qed (rule code_redeemed_once, simp)

section \<open>A mint supersedes\<close>

text \<open>After an outbound session has been minted for an identity, it is the only live outbound session
  of the channel bound to that identity, and no other session has changed: neither those of other identities
  or channels nor pending inbound challenges.\<close>

theorem mint_supersedes:
  assumes "distinct (map id_of t)" "createOutboundSession i hash expires st p now t = (t', Some row)"
  shows "(\<forall>v \<in> set t'. channel v = o_channel p \<and> outbound_live v \<and> params_identity p \<noteq> None
             \<and> session_identity v = params_identity p \<longrightarrow> v = row)
       \<and> (\<forall>v \<in> set t. \<not> (channel v = o_channel p \<and> outbound_live v \<and> params_identity p \<noteq> None
             \<and> session_identity v = params_identity p) \<longrightarrow> v \<in> set t')
       \<and> id_of ` set t' = insert i (id_of ` set t)"
proof -
  let ?hit = "\<lambda>v. channel v = o_channel p \<and> outbound_live v \<and> params_identity p \<noteq> None
    \<and> session_identity v = params_identity p"
  let ?rev = "\<lambda>v. v\<lparr>status := Revoked, updatedAt := now\<rparr>"
  let ?t = "revokeSameIdentityOutbound (o_channel p) (params_identity p) now t"
  have same: "bindsSameIdentity a b \<longleftrightarrow> a \<noteq> None \<and> a = b" for a b :: "(identity_field \<times> string) option"
    by (cases a; cases b) (auto simp: bindsSameIdentity_def prod_eq_iff)
  have hits: "?t = update_where ?hit ?rev t"
  proof -
    have ids: "id_of v \<in> set (map id_of (filter (\<lambda>v. bindsSameIdentity (session_identity v) (params_identity p))
        (filter (\<lambda>v. channel v = o_channel p \<and> outbound_live v) t))) \<longleftrightarrow> ?hit v" if "v \<in> set t" for v
      using same_session [of t _ v] assms(1) that same by (auto simp: unique_sessions_def image_iff)
    then show ?thesis
      by (auto simp: revokeSameIdentityOutbound_def update_where_def Let_def filter_empty_conv same
          intro!: map_idI [symmetric])
  qed
  have row: "t' = ?t @ [row]" "id_of row = i" "channel row = o_channel p"
    using assms(2) by (auto simp: createOutboundSession_def insert_session_def split: if_splits)
  have dead: "\<not> outbound_live (?rev v)" for v
    by (simp add: outbound_live_def OUTBOUND_LIVE_STATUSES_def)
  have "map id_of ?t = map id_of t"
    unfolding hits by (rule ids_update_where) simp
  then have "id_of ` set ?t = id_of ` set t"
    by (metis list.set_map)
  then show ?thesis
    using dead unfolding row hits by (auto simp: update_where_def row(2))
qed

theorem mint_supersedes_witness:
  "\<exists>t' row. createOutboundSession ''s2'' ''h2'' 1000 AwaitingResponse demo_params 5
      (exec_session [] (CreateOutbound ''s1'' ''h'' 1000 AwaitingResponse demo_params 1)) = (t', Some row)
    \<and> length t' = 2
    \<and> (\<forall>v \<in> set t'. channel v = ''slack'' \<and> outbound_live v \<and> session_identity v = Some (ExternalUserId, ''u1'') \<longrightarrow> v = row)"
proof -
  let ?t = "exec_session [] (CreateOutbound ''s1'' ''h'' 1000 AwaitingResponse demo_params 1)"
  let ?c = "createOutboundSession ''s2'' ''h2'' 1000 AwaitingResponse demo_params 5 ?t"
  have d: "distinct (map id_of ?t)" by code_simp
  have e: "snd ?c \<noteq> None \<and> length (fst ?c) = 2" by code_simp
  then obtain t' row where c: "?c = (t', Some row)" "length t' = 2" by (cases ?c) auto
  have p: "o_channel demo_params = ''slack''" "params_identity demo_params = Some (ExternalUserId, ''u1'')"
    by code_simp+
  show ?thesis using mint_supersedes [OF d c(1)] c p by auto
qed

end
