(* ===== verification/Guardian_Binding.thy ===== *)
theory Guardian_Binding
  imports Prelude "HOL-Library.Product_Lexorder"
begin

text \<open>
  Guardian bindings in the gateway database: the lookups and the revocation of
  \<^verbatim>\<open>gateway/src/verification/binding-helpers.ts\<close>, the channel status lookup of
  \<^verbatim>\<open>contact-helpers.ts\<close> and the upserts of \<^verbatim>\<open>gateway/src/auth/guardian-bootstrap.ts\<close>.

  The contact and channel tables are lists of rows. A join lists the pairs in table order; a select with a limit
  and no order takes the first. Roles, statuses and policies are text columns. \<open>None\<close> as a result of the
  upserts is the exception of the unique index on type and address. Clock readings and fresh ids are arguments.
\<close>

section \<open>Tables\<close>

record gw_contact =
  ct_id :: string
  ct_displayName :: string
  ct_role :: string
  ct_principalId :: "string option"
  ct_autoApproveThreshold :: "string option"
  ct_createdAt :: int
  ct_updatedAt :: int

record gw_channel =
  cc_id :: string
  cc_contactId :: string
  cc_type :: string
  cc_address :: string
  cc_isPrimary :: bool
  cc_externalChatId :: "string option"
  cc_status :: string
  cc_policy :: string
  cc_verifiedAt :: "int option"
  cc_verifiedVia :: "string option"
  cc_revokedReason :: "string option"
  cc_blockedReason :: "string option"
  cc_inviteId :: "string option"
  cc_lastSeenAt :: "int option"
  cc_interactionCount :: nat
  cc_lastInteraction :: "int option"
  cc_createdAt :: int
  cc_updatedAt :: "int option"

record gw_contacts =
  gwContacts :: "gw_contact list"
  gwContactChannels :: "gw_channel list"

text \<open>\<^verbatim>\<open>COLLATE NOCASE\<close> folds ASCII letters.\<close>

definition nocase_eq :: "string \<Rightarrow> string \<Rightarrow> bool" where
  "nocase_eq a b \<longleftrightarrow> to_lower a = to_lower b"

definition guardian_channels :: "gw_contacts \<Rightarrow> string \<Rightarrow> (gw_contact \<times> gw_channel) list" where
  "guardian_channels s ty =
     concat (map (\<lambda>c. map (Pair c) (filter (\<lambda>h. cc_contactId h = ct_id c \<and> ct_role c = ''guardian'' \<and> cc_type h = ty)
       (gwContactChannels s))) (gwContacts s))"

section \<open>Lookups\<close>

definition first_of :: "'a list \<Rightarrow> 'a option" where
  "first_of xs = (case xs of [] \<Rightarrow> None | x # _ \<Rightarrow> Some x)"

definition getExistingGuardianBinding :: "string \<Rightarrow> gw_contacts \<Rightarrow> string option" where
  "getExistingGuardianBinding ty s =
     map_option (\<lambda>(c, h). cc_address h) (first_of (filter (\<lambda>(c, h). cc_status h = ''active'') (guardian_channels s ty)))"

definition getMostRecentChannelGuardianTimestamp :: "string \<Rightarrow> gw_contacts \<Rightarrow> int option" where
  "getMostRecentChannelGuardianTimestamp ty s =
     (let stamps = map (\<lambda>(c, h). case cc_updatedAt h of Some u \<Rightarrow> u | None \<Rightarrow> cc_createdAt h)
            (filter (\<lambda>(c, h). cc_status h = ''active'' \<or> cc_status h = ''revoked'') (guardian_channels s ty))
      in if stamps = [] then None else Some (foldl max (hd stamps) (tl stamps)))"

definition resolveCanonicalPrincipal :: "string \<Rightarrow> gw_contacts \<Rightarrow> string" where
  "resolveCanonicalPrincipal fallback s =
     (case first_of (filter (\<lambda>(c, h). cc_status h = ''active'') (guardian_channels s ''vellum'')) of
        Some (c, h) \<Rightarrow> (case ct_principalId c of Some p \<Rightarrow> p | None \<Rightarrow> fallback)
      | None \<Rightarrow> fallback)"

definition gatewayChannelStatus :: "string \<Rightarrow> string \<Rightarrow> gw_contacts \<Rightarrow> string option" where
  "gatewayChannelStatus ty addr s =
     map_option cc_status (find (\<lambda>h. cc_type h = ty \<and> nocase_eq (cc_address h) addr) (gwContactChannels s))"

section \<open>Writes\<close>

definition revokeExistingChannelGuardian :: "string \<Rightarrow> int \<Rightarrow> gw_contacts \<Rightarrow> gw_contacts" where
  "revokeExistingChannelGuardian ty now s =
     (let revoked = map (\<lambda>(c, h). cc_id h) (filter (\<lambda>(c, h). cc_status h = ''active'') (guardian_channels s ty))
      in s\<lparr>gwContactChannels := map (\<lambda>h. if cc_id h \<in> set revoked
              then h\<lparr>cc_status := ''revoked'', cc_policy := ''deny'', cc_updatedAt := Some now\<rparr> else h)
            (gwContactChannels s)\<rparr>)"

record binding_params =
  b_channel :: string
  b_externalUserId :: string
  b_deliveryChatId :: string
  b_guardianPrincipalId :: string
  b_displayName :: "string option"
  b_verifiedVia :: "string option"
  b_reactivateRevoked :: bool

record binding_writes =
  w_contactId :: string
  w_channelId :: string
  w_channel :: string
  w_address :: string
  w_deliveryChatId :: string
  w_displayName :: string
  w_guardianPrincipalId :: string
  w_claimedFromContactId :: "string option"

definition status_rank :: "string \<Rightarrow> nat" where
  "status_rank st = (if st = ''active'' then 0 else if st = ''unverified'' then 1 else 2)"

text \<open>The claimable channel: of the non-blocked rows with the address, first those of the guardian contact, then
  active before unverified before the rest, then the latest update (null last).\<close>

definition claim_key :: "string \<Rightarrow> gw_channel \<Rightarrow> nat \<times> nat \<times> nat \<times> int" where
  "claim_key guardianId h =
     (if cc_contactId h = guardianId then 0 else 1, status_rank (cc_status h),
      case cc_updatedAt h of Some u \<Rightarrow> (0, - u) | None \<Rightarrow> (1, 0))"

definition claimable_channel :: "binding_params \<Rightarrow> string option \<Rightarrow> gw_contacts \<Rightarrow> gw_channel option" where
  "claimable_channel p guardianId s =
     first_of (sort_key (claim_key (case guardianId of Some g \<Rightarrow> g | None \<Rightarrow> []))
       (filter (\<lambda>h. cc_type h = b_channel p \<and> cc_status h \<noteq> ''blocked'' \<and> nocase_eq (cc_address h) (b_externalUserId p))
         (gwContactChannels s)))"

definition existing_guardian_contact :: "binding_params \<Rightarrow> gw_contacts \<Rightarrow> string option" where
  "existing_guardian_contact p s =
     map_option ct_id (find (\<lambda>c. ct_role c = ''guardian'' \<and> ct_principalId c = Some (b_guardianPrincipalId p)) (gwContacts s))"

definition upsert_contact :: "string \<Rightarrow> string \<Rightarrow> string \<Rightarrow> int \<Rightarrow> gw_contact list \<Rightarrow> gw_contact list" where
  "upsert_contact i name prin now cs =
     (if i \<in> ct_id ` set cs
      then map (\<lambda>c. if ct_id c = i
             then c\<lparr>ct_displayName := name, ct_role := ''guardian'', ct_principalId := Some prin, ct_updatedAt := now\<rparr>
             else c) cs
      else cs @ [\<lparr>ct_id = i, ct_displayName = name, ct_role = ''guardian'', ct_principalId = Some prin,
                  ct_autoApproveThreshold = None, ct_createdAt = now, ct_updatedAt = now\<rparr>])"

definition channel_set :: "binding_params \<Rightarrow> string \<Rightarrow> int \<Rightarrow> gw_channel \<Rightarrow> gw_channel" where
  "channel_set p contactId now h =
     h\<lparr>cc_contactId := contactId, cc_address := b_externalUserId p, cc_externalChatId := Some (b_deliveryChatId p),
       cc_isPrimary := True, cc_status := ''active'', cc_policy := ''allow'', cc_verifiedAt := Some now,
       cc_verifiedVia := Some (case b_verifiedVia p of Some v \<Rightarrow> v | None \<Rightarrow> ''challenge''),
       cc_revokedReason := None, cc_blockedReason := None, cc_updatedAt := Some now\<rparr>"

text \<open>The unique index on type and address: writing the address to row \<open>i\<close> fails when another row has it.\<close>

definition address_taken :: "binding_params \<Rightarrow> string \<Rightarrow> string \<Rightarrow> gw_channel list \<Rightarrow> bool" where
  "address_taken p ty i hs \<longleftrightarrow>
     list_ex (\<lambda>h. cc_id h \<noteq> i \<and> cc_type h = ty \<and> cc_address h = b_externalUserId p) hs"

definition update_channel :: "string \<Rightarrow> (gw_channel \<Rightarrow> gw_channel) \<Rightarrow> gw_channel list \<Rightarrow> gw_channel list" where
  "update_channel i f hs = map (\<lambda>h. if cc_id h = i then f h else h) hs"

definition write_channel :: "binding_params \<Rightarrow> string \<Rightarrow> string \<Rightarrow> int \<Rightarrow> gw_channel list \<Rightarrow> gw_channel list option" where
  "write_channel p contactId channelId now hs =
     (case find (\<lambda>h. cc_type h = b_channel p \<and> nocase_eq (cc_address h) (b_externalUserId p)) hs of
        Some g \<Rightarrow>
          if cc_status g = ''blocked'' \<or> (cc_status g = ''revoked'' \<and> \<not> b_reactivateRevoked p) then Some hs
          else if address_taken p (cc_type g) (cc_id g) hs then None
          else Some (update_channel (cc_id g) (channel_set p contactId now) hs)
      | None \<Rightarrow>
          (case find (\<lambda>h. cc_id h = channelId) hs of
             Some g \<Rightarrow>
               if address_taken p (cc_type g) channelId hs then None
               else Some (update_channel channelId (channel_set p contactId now) hs)
           | None \<Rightarrow>
               if address_taken p (b_channel p) channelId hs then None
               else Some (hs @ [channel_set p contactId now
                 \<lparr>cc_id = channelId, cc_contactId = contactId, cc_type = b_channel p, cc_address = b_externalUserId p,
                  cc_isPrimary = True, cc_externalChatId = None, cc_status = ''active'', cc_policy = ''allow'',
                  cc_verifiedAt = None, cc_verifiedVia = None, cc_revokedReason = None, cc_blockedReason = None,
                  cc_inviteId = None, cc_lastSeenAt = None,
                  cc_interactionCount = 0, cc_lastInteraction = None, cc_createdAt = now, cc_updatedAt = None\<rparr>])))"

definition applyGuardianBindingGatewayWrites ::
  "binding_params \<Rightarrow> string \<Rightarrow> string \<Rightarrow> int \<Rightarrow> gw_contacts \<Rightarrow> (gw_contacts \<times> binding_writes) option" where
  "applyGuardianBindingGatewayWrites p freshContact freshChannel now s =
     (let displayName = (case b_displayName p of Some n \<Rightarrow> n | None \<Rightarrow> b_externalUserId p);
          guardian = existing_guardian_contact p s;
          claimable = claimable_channel p guardian s;
          contactId = (case guardian of Some g \<Rightarrow> g
                       | None \<Rightarrow> (case claimable of Some h \<Rightarrow> cc_contactId h | None \<Rightarrow> freshContact));
          existingChannel = (if claimable = None \<and> guardian \<noteq> None
             then map_option cc_id (find (\<lambda>h. cc_contactId h = contactId \<and> cc_type h = b_channel p) (gwContactChannels s))
             else None);
          channelId = (case claimable of Some h \<Rightarrow> cc_id h
                       | None \<Rightarrow> (case existingChannel of Some i \<Rightarrow> i | None \<Rightarrow> freshChannel))
      in case write_channel p contactId channelId now (gwContactChannels s) of
           None \<Rightarrow> None
         | Some hs \<Rightarrow>
             Some (\<lparr>gwContacts = upsert_contact contactId displayName (b_guardianPrincipalId p) now (gwContacts s),
                    gwContactChannels = hs\<rparr>,
                   \<lparr>w_contactId = contactId, w_channelId = channelId, w_channel = b_channel p, w_address = b_externalUserId p,
                    w_deliveryChatId = b_deliveryChatId p, w_displayName = displayName,
                    w_guardianPrincipalId = b_guardianPrincipalId p,
                    w_claimedFromContactId = (case claimable of
                       Some h \<Rightarrow> if cc_contactId h \<noteq> contactId then Some (cc_contactId h) else None
                     | None \<Rightarrow> None)\<rparr>))"

section \<open>The phone guardian\<close>

text \<open>\<^verbatim>\<open>applyPhoneGuardianBindingGatewayWrites\<close> of the session service. The outer option is an exception, the
  inner result \<open>None\<close> a skipped binding.\<close>

definition phone_params :: "string \<Rightarrow> string \<Rightarrow> string \<Rightarrow> binding_params" where
  "phone_params phone chat prin =
     \<lparr>b_channel = ''phone'', b_externalUserId = phone, b_deliveryChatId = chat, b_guardianPrincipalId = prin,
      b_displayName = None, b_verifiedVia = Some ''challenge'', b_reactivateRevoked = True\<rparr>"

definition applyPhoneGuardianBindingGatewayWrites ::
  "string \<Rightarrow> string \<Rightarrow> int \<Rightarrow> string \<Rightarrow> string \<Rightarrow> int \<Rightarrow> gw_contacts \<Rightarrow> (gw_contacts \<times> binding_writes option) option" where
  "applyPhoneGuardianBindingGatewayWrites phone chat sessionUpdatedAt freshContact freshChannel now s =
     (let lastBindingTs = getMostRecentChannelGuardianTimestamp ''phone'' s
      in if lastBindingTs \<noteq> None \<and> sessionUpdatedAt \<le> the lastBindingTs then Some (s, None)
         else
           (let prin = resolveCanonicalPrincipal phone s;
                existing = getExistingGuardianBinding ''phone'' s
            in if existing = Some phone then Some (s, None)
               else
                 (let s1 = (if existing \<noteq> None then revokeExistingChannelGuardian ''phone'' now s else s)
                  in map_option (\<lambda>(s2, w). (s2, Some w))
                       (applyGuardianBindingGatewayWrites (phone_params phone chat prin) freshContact freshChannel now s1))))"

section \<open>The binding is exclusive\<close>

lemma find_SomeD: "find P xs = Some x \<Longrightarrow> x \<in> set xs \<and> P x"
  by (induction xs) (auto split: if_splits)

lemma guardian_channels_mem:
  "(c, h) \<in> set (guardian_channels s ty) \<longleftrightarrow>
     c \<in> set (gwContacts s) \<and> h \<in> set (gwContactChannels s) \<and> cc_contactId h = ct_id c
     \<and> ct_role c = ''guardian'' \<and> cc_type h = ty"
  by (auto simp: guardian_channels_def)

definition active_guardian_addresses :: "string \<Rightarrow> gw_contacts \<Rightarrow> string set" where
  "active_guardian_addresses ty s = {cc_address h | c h. (c, h) \<in> set (guardian_channels s ty) \<and> cc_status h = ''active''}"

lemma first_of_None [simp]: "first_of xs = None \<longleftrightarrow> xs = []"
  by (cases xs) (simp_all add: first_of_def)

lemma no_binding_no_active:
  "getExistingGuardianBinding ty s = None \<longleftrightarrow> active_guardian_addresses ty s = {}"
  by (auto simp: getExistingGuardianBinding_def active_guardian_addresses_def filter_empty_conv)

lemma revoke_frame [simp]: "gwContacts (revokeExistingChannelGuardian ty now s) = gwContacts s"
  by (simp add: revokeExistingChannelGuardian_def Let_def)

lemma revoke_clears: "active_guardian_addresses ty (revokeExistingChannelGuardian ty now s) = {}"
proof -
  let ?s = "revokeExistingChannelGuardian ty now s"
  let ?ids = "set (map (\<lambda>(c, h). cc_id h) (filter (\<lambda>(c, h). cc_status h = ''active'') (guardian_channels s ty)))"
  have ch: "gwContactChannels ?s = map (\<lambda>h. if cc_id h \<in> ?ids
      then h\<lparr>cc_status := ''revoked'', cc_policy := ''deny'', cc_updatedAt := Some now\<rparr> else h) (gwContactChannels s)"
    by (simp add: revokeExistingChannelGuardian_def Let_def)
  have False if m: "(c, k) \<in> set (guardian_channels ?s ty)" and act: "cc_status k = ''active''" for c k
  proof -
    have k: "k \<in> set (gwContactChannels ?s)" and c: "c \<in> set (gwContacts s)" "ct_role c = ''guardian''"
      "cc_contactId k = ct_id c" "cc_type k = ty"
      using m by (auto simp: guardian_channels_mem)
    obtain h where h: "h \<in> set (gwContactChannels s)" "k = (if cc_id h \<in> ?ids
        then h\<lparr>cc_status := ''revoked'', cc_policy := ''deny'', cc_updatedAt := Some now\<rparr> else h)"
    proof -
      from k obtain h where "h \<in> set (gwContactChannels s)" "k = (if cc_id h \<in> ?ids
          then h\<lparr>cc_status := ''revoked'', cc_policy := ''deny'', cc_updatedAt := Some now\<rparr> else h)"
        unfolding ch set_map image_def mem_Collect_eq by (elim bexE)
      then show thesis by (rule that)
    qed
    then have "cc_id h \<notin> ?ids" "k = h" using act by (auto split: if_splits)
    then have "(c, h) \<in> set (guardian_channels s ty) \<and> cc_status h = ''active''"
      using h(1) c act by (simp add: guardian_channels_mem)
    then show False using \<open>cc_id h \<notin> ?ids\<close> by force
  qed
  then show ?thesis by (auto simp: active_guardian_addresses_def)
qed

lemma revoke_status:
  "gatewayChannelStatus ty' addr s \<noteq> Some ''blocked'' \<Longrightarrow>
   gatewayChannelStatus ty' addr (revokeExistingChannelGuardian ty now s) \<noteq> Some ''blocked''"
proof -
  have "find P (map f hs) = map_option f (find P hs)" if "\<And>h. P (f h) = P h" for P :: "gw_channel \<Rightarrow> bool" and f hs
    using that by (induction hs) auto
  from this [of "\<lambda>h. cc_type h = ty' \<and> nocase_eq (cc_address h) addr"]
  show "gatewayChannelStatus ty' addr s \<noteq> Some ''blocked'' \<Longrightarrow>
      gatewayChannelStatus ty' addr (revokeExistingChannelGuardian ty now s) \<noteq> Some ''blocked''"
    by (auto simp: gatewayChannelStatus_def revokeExistingChannelGuardian_def Let_def split: if_splits)
qed

lemma upsert_guardians:
  assumes "c0 \<in> set cs" "ct_id c0 = i" "ct_role c0 = ''guardian''"
    "c \<in> set (upsert_contact i name prin now cs)" "ct_role c = ''guardian''"
  shows "\<exists>c' \<in> set cs. ct_role c' = ''guardian'' \<and> ct_id c' = ct_id c"
  using assms by (auto simp: upsert_contact_def split: if_splits)

lemma upsert_keeps_guardian:
  assumes "c0 \<in> set cs" "ct_id c0 = i"
  shows "\<exists>c \<in> set (upsert_contact i name prin now cs). ct_role c = ''guardian'' \<and> ct_id c = i"
proof -
  have "c0\<lparr>ct_displayName := name, ct_role := ''guardian'', ct_principalId := Some prin, ct_updatedAt := now\<rparr>
      \<in> set (upsert_contact i name prin now cs)"
    using assms by (force simp: upsert_contact_def)
  then show ?thesis using assms(2) by (intro bexI) auto
qed

lemma channel_set_simps [simp]:
  "cc_contactId (channel_set p i now h) = i" "cc_status (channel_set p i now h) = ''active''"
  "cc_address (channel_set p i now h) = b_externalUserId p" "cc_type (channel_set p i now h) = cc_type h"
  by (simp_all add: channel_set_def)

text \<open>What the channel write does to the rows: the rows it writes are active, with the contact and the address;
  the others stay; and one row of the type is written.\<close>

lemma write_channel_rows:
  assumes "write_channel p i ch now hs = Some hs'"
    "\<And>g. find (\<lambda>h. cc_type h = b_channel p \<and> nocase_eq (cc_address h) (b_externalUserId p)) hs = Some g \<Longrightarrow>
       cc_status g \<noteq> ''blocked'' \<and> b_reactivateRevoked p"
    "\<And>h. find (\<lambda>h. cc_type h = b_channel p \<and> nocase_eq (cc_address h) (b_externalUserId p)) hs = None \<Longrightarrow>
       h \<in> set hs \<Longrightarrow> cc_id h = ch \<Longrightarrow> cc_type h = b_channel p"
  shows "\<exists>h \<in> set hs'. cc_type h = b_channel p \<and> cc_contactId h = i \<and> cc_status h = ''active'' \<and> cc_address h = b_externalUserId p"
    and "\<forall>h \<in> set hs'. h \<in> set hs \<or> (cc_contactId h = i \<and> cc_status h = ''active'' \<and> cc_address h = b_externalUserId p)"
proof -
  have upd: "\<exists>k \<in> set (update_channel (cc_id x) (channel_set p i now) hs).
      cc_type k = cc_type x \<and> cc_contactId k = i \<and> cc_status k = ''active'' \<and> cc_address k = b_externalUserId p"
    if "x \<in> set hs" for x
    using that by (intro bexI [of _ "channel_set p i now x"]) (auto simp: update_channel_def)
  have rest: "\<forall>k \<in> set (update_channel j (channel_set p i now) hs).
      k \<in> set hs \<or> (cc_contactId k = i \<and> cc_status k = ''active'' \<and> cc_address k = b_externalUserId p)" for j
    by (auto simp: update_channel_def)
  let ?find = "find (\<lambda>h. cc_type h = b_channel p \<and> nocase_eq (cc_address h) (b_externalUserId p)) hs"
  have "(\<exists>h \<in> set hs'. cc_type h = b_channel p \<and> cc_contactId h = i \<and> cc_status h = ''active'' \<and> cc_address h = b_externalUserId p)
    \<and> (\<forall>h \<in> set hs'. h \<in> set hs \<or> (cc_contactId h = i \<and> cc_status h = ''active'' \<and> cc_address h = b_externalUserId p))"
  proof (cases ?find)
    case (Some x)
    then have x: "x \<in> set hs" "cc_type x = b_channel p" by (auto simp: find_Some_iff)
    have "hs' = update_channel (cc_id x) (channel_set p i now) hs"
      using assms(1) assms(2) [OF Some] Some by (auto simp: write_channel_def split: if_splits)
    then show ?thesis using upd [OF x(1)] rest x(2) by simp
  next
    case None
    show ?thesis
    proof (cases "find (\<lambda>h. cc_id h = ch) hs")
      case found: (Some x)
      then have x: "x \<in> set hs" "cc_id x = ch" by (auto simp: find_Some_iff)
      have "hs' = update_channel ch (channel_set p i now) hs"
        using assms(1) None found by (auto simp: write_channel_def split: if_splits)
      then show ?thesis using upd [OF x(1)] rest assms(3) [OF None x] x(2) by simp
    next
      case absent: None
      then show ?thesis
        using assms(1) None by (auto simp: write_channel_def split: if_splits)
    qed
  qed
  then show "\<exists>h \<in> set hs'. cc_type h = b_channel p \<and> cc_contactId h = i \<and> cc_status h = ''active'' \<and> cc_address h = b_externalUserId p"
    "\<forall>h \<in> set hs'. h \<in> set hs \<or> (cc_contactId h = i \<and> cc_status h = ''active'' \<and> cc_address h = b_externalUserId p)"
    by blast+
qed

lemma applyGuardianBinding_rows:
  assumes w: "applyGuardianBindingGatewayWrites p fc fch now s = Some (s', w)"
    and c0: "existing_guardian_contact p s = Some g"
    and open_row: "gatewayChannelStatus (b_channel p) (b_externalUserId p) s \<noteq> Some ''blocked''" "b_reactivateRevoked p"
    and fresh: "fch \<notin> cc_id ` set (gwContactChannels s)" and unique: "distinct (map cc_id (gwContactChannels s))"
    and clear: "active_guardian_addresses (b_channel p) s = {}"
  shows "active_guardian_addresses (b_channel p) s' = {b_externalUserId p}"
proof -
  let ?hs = "gwContactChannels s"
  let ?find = "find (\<lambda>h. cc_type h = b_channel p \<and> nocase_eq (cc_address h) (b_externalUserId p)) ?hs"
  obtain ch name where ch: "write_channel p g ch now ?hs = Some (gwContactChannels s')"
    and contacts: "gwContacts s' = upsert_contact g name (b_guardianPrincipalId p) now (gwContacts s)"
    and chId: "claimable_channel p (Some g) s = None \<Longrightarrow>
      ch = (case map_option cc_id (find (\<lambda>h. cc_contactId h = g \<and> cc_type h = b_channel p) ?hs) of Some i \<Rightarrow> i | None \<Rightarrow> fch)"
    using w c0 by (auto simp: applyGuardianBindingGatewayWrites_def Let_def split: option.splits)
  obtain k where k: "k \<in> set (gwContacts s)" "ct_id k = g" "ct_role k = ''guardian''"
    using c0 by (auto simp: existing_guardian_contact_def dest: find_SomeD)
  have notblocked: "cc_status x \<noteq> ''blocked'' \<and> b_reactivateRevoked p" if "?find = Some x" for x
    using open_row that by (simp add: gatewayChannelStatus_def)
  have typed: "cc_type h = b_channel p" if none: "?find = None" and h: "h \<in> set ?hs" "cc_id h = ch" for h
  proof -
    have "claimable_channel p (Some g) s = None"
      using none by (auto simp: claimable_channel_def filter_empty_conv find_None_iff)
    note ch_eq = chId [OF this]
    show ?thesis
    proof (cases "find (\<lambda>h. cc_contactId h = g \<and> cc_type h = b_channel p) ?hs")
      case None
      then show ?thesis using ch_eq h fresh by auto
    next
      case (Some x)
      have x: "x \<in> set ?hs" "cc_type x = b_channel p" using find_SomeD [OF Some] by auto
      have "h = x" using ch_eq Some h x(1) unique by (auto simp: distinct_map inj_on_def)
      then show ?thesis using x(2) by simp
    qed
  qed
  note rows = write_channel_rows [OF ch notblocked typed]
  have only: "cc_address h = b_externalUserId p"
    if m: "(c, h) \<in> set (guardian_channels s' (b_channel p))" "cc_status h = ''active''" for c h
  proof (cases "h \<in> set ?hs")
    case True
    have c: "c \<in> set (gwContacts s')" "ct_role c = ''guardian''" "cc_contactId h = ct_id c" "cc_type h = b_channel p"
      using m(1) by (auto simp: guardian_channels_mem)
    obtain c' where "c' \<in> set (gwContacts s)" "ct_role c' = ''guardian''" "ct_id c' = ct_id c"
      using upsert_guardians [OF k] c(1,2) unfolding contacts by blast
    then have "(c', h) \<in> set (guardian_channels s (b_channel p))"
      using True c(3,4) by (simp add: guardian_channels_mem)
    then have "cc_address h \<in> active_guardian_addresses (b_channel p) s"
      using m(2) by (auto simp: active_guardian_addresses_def)
    then show ?thesis using clear by simp
  next
    case False
    have "h \<in> set (gwContactChannels s')" using m(1) by (simp add: guardian_channels_mem)
    then show ?thesis using rows(2) False by blast
  qed
  obtain h where h: "h \<in> set (gwContactChannels s')" "cc_type h = b_channel p" "cc_contactId h = g"
      "cc_status h = ''active''" "cc_address h = b_externalUserId p"
    using rows(1) by blast
  obtain c where c: "c \<in> set (gwContacts s')" "ct_role c = ''guardian''" "ct_id c = g"
    using upsert_keeps_guardian [OF k(1,2)] unfolding contacts by blast
  have "(c, h) \<in> set (guardian_channels s' (b_channel p))"
    using h c by (simp add: guardian_channels_mem)
  then have "b_externalUserId p \<in> active_guardian_addresses (b_channel p) s'"
    unfolding active_guardian_addresses_def using h(4,5) by force
  moreover have "active_guardian_addresses (b_channel p) s' \<subseteq> {b_externalUserId p}"
    unfolding active_guardian_addresses_def using only by auto
  ultimately show ?thesis by blast
qed

lemma revoke_ids: "map cc_id (gwContactChannels (revokeExistingChannelGuardian ty now s)) = map cc_id (gwContactChannels s)"
  by (simp add: revokeExistingChannelGuardian_def Let_def)

text \<open>C37: A phone number that redeemed a guardian code becomes the only active guardian binding of the phone
  channel: whatever bindings there were, when the guardian contact of the canonical principal exists, the number
  is not blocked and the write is not skipped, exactly this number is bound afterwards.\<close>

theorem phone_guardian_exclusive:
  assumes "applyPhoneGuardianBindingGatewayWrites phone chat ts fc fch now s = Some (s', Some w)"
    "existing_guardian_contact (phone_params phone chat (resolveCanonicalPrincipal phone s)) s \<noteq> None"
    "gatewayChannelStatus ''phone'' phone s \<noteq> Some ''blocked''"
    "distinct (map cc_id (gwContactChannels s))" "fch \<notin> cc_id ` set (gwContactChannels s)"
  shows "active_guardian_addresses ''phone'' s' = {phone}"
proof -
  let ?p = "phone_params phone chat (resolveCanonicalPrincipal phone s)"
  let ?s = "if getExistingGuardianBinding ''phone'' s \<noteq> None then revokeExistingChannelGuardian ''phone'' now s else s"
  have w: "applyGuardianBindingGatewayWrites ?p fc fch now ?s = Some (s', w)"
    using assms(1) by (auto simp: applyPhoneGuardianBindingGatewayWrites_def Let_def split: if_splits)
  obtain g where g: "existing_guardian_contact ?p ?s = Some g"
    using assms(2) by (cases "getExistingGuardianBinding ''phone'' s") (auto simp: existing_guardian_contact_def)
  have p: "b_channel ?p = ''phone''" "b_externalUserId ?p = phone" "b_reactivateRevoked ?p"
    by (simp_all add: phone_params_def)
  have ids: "map cc_id (gwContactChannels ?s) = map cc_id (gwContactChannels s)"
    by (simp add: revoke_ids)
  have "active_guardian_addresses ''phone'' ?s = {}"
    using no_binding_no_active revoke_clears by auto
  moreover have "gatewayChannelStatus ''phone'' phone ?s \<noteq> Some ''blocked''"
    using assms(3) revoke_status by auto
  moreover have "fch \<notin> cc_id ` set (gwContactChannels ?s)"
    using assms(5) ids by (metis list.set_map)
  ultimately show ?thesis
    using applyGuardianBinding_rows [OF w g] p assms(4) ids by simp
qed

definition demo_contacts :: gw_contacts where
  "demo_contacts = \<lparr>
     gwContacts = [\<lparr>ct_id = ''g'', ct_displayName = ''Ann'', ct_role = ''guardian'', ct_principalId = Some ''p'',
       ct_autoApproveThreshold = None, ct_createdAt = 1, ct_updatedAt = 1\<rparr>],
     gwContactChannels =
       [\<lparr>cc_id = ''v'', cc_contactId = ''g'', cc_type = ''vellum'', cc_address = ''p'', cc_isPrimary = True,
         cc_externalChatId = None, cc_status = ''active'', cc_policy = ''allow'', cc_verifiedAt = None,
         cc_verifiedVia = None, cc_revokedReason = None, cc_blockedReason = None, cc_inviteId = None,
         cc_lastSeenAt = None, cc_interactionCount = 0, cc_lastInteraction = None, cc_createdAt = 1, cc_updatedAt = Some 1\<rparr>,
        \<lparr>cc_id = ''h'', cc_contactId = ''g'', cc_type = ''phone'', cc_address = ''+1555'', cc_isPrimary = True,
         cc_externalChatId = None, cc_status = ''active'', cc_policy = ''allow'', cc_verifiedAt = Some 1,
         cc_verifiedVia = Some ''challenge'', cc_revokedReason = None, cc_blockedReason = None, cc_inviteId = None,
         cc_lastSeenAt = None, cc_interactionCount = 0, cc_lastInteraction = None, cc_createdAt = 1, cc_updatedAt = Some 1\<rparr>]\<rparr>"

theorem phone_guardian_exclusive_witness:
  "\<exists>s' w. applyPhoneGuardianBindingGatewayWrites ''+1666'' ''+1666'' 9 ''fc'' ''fh'' 9 demo_contacts = Some (s', Some w)
    \<and> active_guardian_addresses ''phone'' s' = {''+1666''}"
proof -
  let ?a = "applyPhoneGuardianBindingGatewayWrites ''+1666'' ''+1666'' 9 ''fc'' ''fh'' 9 demo_contacts"
  have "(case ?a of Some (s', Some w) \<Rightarrow> True | _ \<Rightarrow> False)" by code_simp
  then obtain s' w where a: "?a = Some (s', Some w)" by (auto split: option.splits)
  have g: "existing_guardian_contact (phone_params ''+1666'' ''+1666'' (resolveCanonicalPrincipal ''+1666'' demo_contacts))
      demo_contacts \<noteq> None" by code_simp
  have b: "gatewayChannelStatus ''phone'' ''+1666'' demo_contacts \<noteq> Some ''blocked''" by code_simp
  have d: "distinct (map cc_id (gwContactChannels demo_contacts))" by code_simp
  have f: "''fh'' \<notin> cc_id ` set (gwContactChannels demo_contacts)" by code_simp
  show ?thesis using phone_guardian_exclusive [OF a g b d f] a by blast
qed

end
