(* ===== verification/Inbound_Identity.thy ===== *)
theory Inbound_Identity
  imports Prelude
begin

text \<open>
  Who a sender is: the canonical form of an inbound sender id
  (\<^verbatim>\<open>gateway/src/verification/identity.ts\<close>), the contact key of a plugin's sender
  (\<^verbatim>\<open>gateway/src/channels/plugin-inbound.ts\<close>) and the strength of a verified binding
  (\<^verbatim>\<open>packages/gateway-client/src/binding-strength-contract.ts\<close>).
\<close>

section \<open>Canonical sender ids\<close>

datatype identity_kind = PhoneKind | EmailKind | OpaqueKind

definition identityKindFor :: "string \<Rightarrow> identity_kind" where
  "identityKindFor ch =
     (if ch = ''phone'' \<or> ch = ''whatsapp'' then PhoneKind else if ch = ''email'' then EmailKind else OpaqueKind)"

text \<open>\<^verbatim>\<open>input.replace(/\(0\)/g, "")\<close>.\<close>

fun drop_trunk_zero :: "string \<Rightarrow> string" where
  "drop_trunk_zero [] = []"
| "drop_trunk_zero (c # s) =
     (if starts_with (c # s) ''(0)'' then drop_trunk_zero (drop 2 s) else c # drop_trunk_zero s)"

definition phone_filler :: "char \<Rightarrow> bool" where
  "phone_filler c \<longleftrightarrow> is_space c \<or> c \<in> {CHR ''-'', CHR ''('', CHR '')'', CHR ''.''}"

definition all_digits :: "string \<Rightarrow> bool" where
  "all_digits s \<longleftrightarrow> s \<noteq> [] \<and> list_all is_digit s"

definition normalizePhoneNumber :: "string \<Rightarrow> string option" where
  "normalizePhoneNumber input =
     (let stripped = filter (\<lambda>c. \<not> phone_filler c) (drop_trunk_zero input)
      in if stripped = [] then None
         else if starts_with stripped ''+''
         then (let digits = tl stripped
               in if all_digits digits \<and> 10 \<le> length digits \<and> length digits \<le> 15 then Some stripped else None)
         else if \<not> all_digits stripped then None
         else if length stripped = 10 then Some (''+1'' @ stripped)
         else if length stripped = 11 \<and> starts_with stripped ''1'' then Some (''+'' @ stripped)
         else None)"

definition canonicalizeIdentityAs :: "identity_kind \<Rightarrow> string \<Rightarrow> string option" where
  "canonicalizeIdentityAs k raw =
     (let trimmed = js_trim raw
      in if trimmed = [] then None
         else Some (case k of
                      PhoneKind \<Rightarrow> (case normalizePhoneNumber trimmed of Some p \<Rightarrow> p | None \<Rightarrow> trimmed)
                    | EmailKind \<Rightarrow> to_lower trimmed
                    | OpaqueKind \<Rightarrow> trimmed))"

definition canonicalizeInboundIdentity :: "string \<Rightarrow> string \<Rightarrow> string option" where
  "canonicalizeInboundIdentity ch raw = canonicalizeIdentityAs (identityKindFor ch) raw"

definition canonicalSenderIdFor :: "string \<Rightarrow> string option \<Rightarrow> string option" where
  "canonicalSenderIdFor ch actor =
     (case actor of
        None \<Rightarrow> None
      | Some a \<Rightarrow> if js_trim a = [] then None else canonicalizeInboundIdentity ch (js_trim a))"

text \<open>The address writes are keyed by: the canonical id, or the raw one when it is blank.\<close>

definition canonical_address :: "string \<Rightarrow> string \<Rightarrow> string" where
  "canonical_address ch raw = (case canonicalizeInboundIdentity ch raw of Some a \<Rightarrow> a | None \<Rightarrow> raw)"

text \<open>Plugins share one channel; the vendor prefix of the id is the type their contacts are stored under.\<close>

definition pluginMemberIdentity :: "string \<Rightarrow> string \<Rightarrow> string \<times> string" where
  "pluginMemberIdentity ch actor =
     (if ch \<noteq> ''plugin'' then (ch, actor)
      else (case index_of (CHR '':'') actor of
              None \<Rightarrow> (ch, actor)
            | Some i \<Rightarrow>
                if i = 0 then (ch, actor)
                else (let ty = take i actor; addr = drop (Suc i) actor
                      in if ty = [] \<or> addr = [] then (ch, actor) else (ty, addr))))"

section \<open>Strength of a binding\<close>

definition PROVEN_VERIFIED_VIA :: "string list" where
  "PROVEN_VERIFIED_VIA =
     [''challenge'', ''invite'', ''voice'', ''bootstrap'', ''platform_auto_register'', ''webhook_registration'']"

definition knownStrengthRank :: "string option \<Rightarrow> nat option" where
  "knownStrengthRank via =
     (case via of
        None \<Rightarrow> Some 0
      | Some v \<Rightarrow>
          if v = [] then Some 0
          else if v \<in> set PROVEN_VERIFIED_VIA then Some 3
          else if v = ''manual'' then Some 2
          else if v = ''manual_channel_claim'' then Some 1
          else None)"

definition isBindingDemotion :: "string option \<Rightarrow> string option \<Rightarrow> bool" where
  "isBindingDemotion existingVia incomingVia =
     (case (knownStrengthRank existingVia, knownStrengthRank incomingVia) of
        (Some e, Some i) \<Rightarrow> i < e
      | _ \<Rightarrow> False)"

definition bindingStrengthForVerifiedVia :: "string option \<Rightarrow> string option" where
  "bindingStrengthForVerifiedVia via =
     (if via = Some ''challenge'' then Some ''verified_handshake''
      else if via = Some ''manual'' then Some ''internal_workspace_match''
      else if via = Some ''manual_channel_claim'' then Some ''inbound_channel_claim''
      else None)"

section \<open>Canonical ids are stable\<close>

lemma js_trim_idem [simp]: "js_trim (js_trim s) = js_trim s"
proof -
  have d: "dropWhile is_space (dropWhile is_space x) = dropWhile is_space x" for x
    by (induction x) auto
  have "dropWhile is_space (rev (dropWhile is_space (rev x))) = rev (dropWhile is_space (rev x))"
    if "dropWhile is_space x = x" for x
  proof (cases x)
    case (Cons a ys)
    then have a: "\<not> is_space a" using that by (auto dest: arg_cong [of _ _ length] split: if_splits)
      (metis dropWhile.simps(2) dropWhile_eq_self_iff list.sel(1) list.simps(3) that)
    then show ?thesis using Cons by (simp add: dropWhile_append3)
  qed simp
  from this [of "dropWhile is_space s"] show ?thesis by (simp add: js_trim_def d)
qed

lemma js_trim_nonspace: "list_all (\<lambda>c. \<not> is_space c) s \<Longrightarrow> js_trim s = s"
proof -
  have *: "dropWhile is_space x = x" if "list_all (\<lambda>c. \<not> is_space c) x" for x
    using that by (cases x) auto
  assume "list_all (\<lambda>c. \<not> is_space c) s"
  then show ?thesis by (simp add: js_trim_def * list_all_rev)
qed

lemma lower_space [simp]: "is_space (lower_char c) \<longleftrightarrow> is_space c"
  by (auto simp: is_space_def lower_char_def)

lemma lower_lower [simp]: "to_lower (to_lower s) = to_lower s"
proof -
  have "lower_char (lower_char c) = lower_char c" for c
    by (auto simp: lower_char_def)
  then show ?thesis by (simp add: to_lower_def)
qed

lemma trim_lower: "js_trim (to_lower s) = to_lower (js_trim s)"
  by (simp add: js_trim_def to_lower_def dropWhile_map rev_map comp_def)

lemma digit_char: "is_digit c \<Longrightarrow> \<not> is_space c \<and> \<not> phone_filler c \<and> c \<noteq> CHR ''('' \<and> c \<noteq> CHR ''+''"
  by (auto simp: is_digit_def is_space_def phone_filler_def)

lemma drop_trunk_none: "CHR ''('' \<notin> set s \<Longrightarrow> drop_trunk_zero s = s"
  by (induction s rule: drop_trunk_zero.induct) (auto simp: starts_with_iff)

lemma normalize_shape:
  assumes "normalizePhoneNumber s = Some p"
  obtains ds where "p = CHR ''+'' # ds" "all_digits ds" "10 \<le> length ds" "length ds \<le> 15"
proof -
  define st where "st = filter (\<lambda>c. \<not> phone_filler c) (drop_trunk_zero s)"
  consider "p = st" "starts_with st ''+''" "all_digits (tl st)" "10 \<le> length (tl st)" "length (tl st) \<le> 15"
    | "p = ''+1'' @ st" "all_digits st" "length st = 10"
    | "p = ''+'' @ st" "all_digits st" "length st = 11"
    using assms unfolding normalizePhoneNumber_def Let_def st_def [symmetric] by (auto split: if_splits)
  then show thesis
  proof cases
    case 1
    then show ?thesis using that [of "tl st"] by (cases st) (auto simp: starts_with_iff)
  next
    case 2
    then show ?thesis using that [of "CHR ''1'' # st"] by (simp add: all_digits_def is_digit_def)
  next
    case 3
    then show ?thesis using that [of st] by simp
  qed
qed

lemma normalize_stable:
  assumes "normalizePhoneNumber s = Some p"
  shows "normalizePhoneNumber p = Some p" "js_trim p = p" "p \<noteq> []"
proof -
  obtain ds where ds: "p = CHR ''+'' # ds" "all_digits ds" "10 \<le> length ds" "length ds \<le> 15"
    using normalize_shape [OF assms] .
  have chars: "list_all (\<lambda>c. \<not> is_space c \<and> \<not> phone_filler c \<and> c \<noteq> CHR ''('') p"
    using ds(2) digit_char by (simp add: ds(1) all_digits_def list_all_iff is_space_def phone_filler_def)
  then have "filter (\<lambda>c. \<not> phone_filler c) p = p" by (simp add: filter_id_conv list_all_iff)
  moreover have "drop_trunk_zero p = p" using chars by (intro drop_trunk_none) (auto simp: list_all_iff)
  ultimately show "normalizePhoneNumber p = Some p"
    using ds by (simp add: normalizePhoneNumber_def starts_with_iff)
  show "js_trim p = p" using chars by (intro js_trim_nonspace) (auto simp: list_all_iff)
  show "p \<noteq> []" by (simp add: ds(1))
qed

theorem canonical_stable:
  "canonicalizeInboundIdentity ch raw = Some a \<Longrightarrow> canonicalizeInboundIdentity ch a = Some a"
proof -
  assume *: "canonicalizeInboundIdentity ch raw = Some a"
  then have t: "js_trim raw \<noteq> []"
    by (auto simp: canonicalizeInboundIdentity_def canonicalizeIdentityAs_def Let_def split: if_splits)
  show ?thesis
  proof (cases "identityKindFor ch")
    case PhoneKind
    show ?thesis
    proof (cases "normalizePhoneNumber (js_trim raw)")
      case None
      then show ?thesis using * PhoneKind t
        by (auto simp: canonicalizeInboundIdentity_def canonicalizeIdentityAs_def)
    next
      case (Some p)
      then have "a = p" using * PhoneKind t
        by (auto simp: canonicalizeInboundIdentity_def canonicalizeIdentityAs_def)
      then show ?thesis using normalize_stable [OF Some] PhoneKind
        by (simp add: canonicalizeInboundIdentity_def canonicalizeIdentityAs_def)
    qed
  next
    case EmailKind
    then have "a = to_lower (js_trim raw)" using * t
      by (simp add: canonicalizeInboundIdentity_def canonicalizeIdentityAs_def)
    then show ?thesis using EmailKind t
      by (simp add: canonicalizeInboundIdentity_def canonicalizeIdentityAs_def trim_lower)
  next
    case OpaqueKind
    then show ?thesis using * t
      by (auto simp: canonicalizeInboundIdentity_def canonicalizeIdentityAs_def)
  qed
qed

lemma canonical_address_stable [simp]: "canonical_address ch (canonical_address ch raw) = canonical_address ch raw"
  using canonical_stable by (cases "canonicalizeInboundIdentity ch raw") (auto simp: canonical_address_def)

end
