(* ===== verification/Inbound_Admission.thy ===== *)
theory Inbound_Admission
  imports Guardian_Binding Inbound_Identity Verification_Sessions
begin

text \<open>
  Who may talk to the assistant, from the gateway's tables to the daemon's decision. The gateway resolves
  a trust verdict for the sender (\<^verbatim>\<open>gateway/src/risk/trust-verdict-resolver.ts\<close>,
  \<^verbatim>\<open>auth/guardian-integrity.ts\<close>, the admission part of \<^verbatim>\<open>handlers/handle-inbound.ts\<close>) and the
  channel's admission policy (\<^verbatim>\<open>db/admission-policy-store.ts\<close>, \<^verbatim>\<open>risk/admission-policy-cache.ts\<close>,
  \<^verbatim>\<open>db/seed-admission-policy.ts\<close>); the daemon checks the verdict
  (\<^verbatim>\<open>assistant/src/runtime/trust-verdict-consumer.ts\<close>), applies the access list
  (\<^verbatim>\<open>inbound-stages/acl-enforcement.ts\<close>) and then the floor (\<^verbatim>\<open>inbound-stages/admission-policy.ts\<close>).
  Replies and notifications of a denied sender are left out; what decides their wording, whether a challenge was
  initiated, is an argument.
\<close>

section \<open>Admission policies\<close>

datatype admission_policy = NoOne | GuardianOnly | TrustedContacts | AnyContact | Strangers

definition policy_name :: "admission_policy \<Rightarrow> string" where
  "policy_name p =
     (case p of NoOne \<Rightarrow> ''no_one'' | GuardianOnly \<Rightarrow> ''guardian_only'' | TrustedContacts \<Rightarrow> ''trusted_contacts''
      | AnyContact \<Rightarrow> ''any_contact'' | Strangers \<Rightarrow> ''strangers'')"

definition ADMISSION_POLICY_VALUES :: "admission_policy list" where
  "ADMISSION_POLICY_VALUES = [NoOne, GuardianOnly, TrustedContacts, AnyContact, Strangers]"

text \<open>\<^verbatim>\<open>isAdmissionPolicy\<close>, giving the policy.\<close>

definition parse_policy :: "string \<Rightarrow> admission_policy option" where
  "parse_policy s = find (\<lambda>p. policy_name p = s) ADMISSION_POLICY_VALUES"

definition ADMISSION_POLICY_DEFAULT :: admission_policy where
  "ADMISSION_POLICY_DEFAULT = TrustedContacts"

fun ADMISSION_FLOOR :: "admission_policy \<Rightarrow> nat" where
  "ADMISSION_FLOOR NoOne = 5"
| "ADMISSION_FLOOR GuardianOnly = 4"
| "ADMISSION_FLOOR TrustedContacts = 3"
| "ADMISSION_FLOOR AnyContact = 2"
| "ADMISSION_FLOOR Strangers = 1"

definition TRUST_CLASSES :: "string list" where
  "TRUST_CLASSES = [''guardian'', ''trusted_contact'', ''unverified_contact'', ''unknown'']"

definition TRUST_CLASS_RANK :: "string \<Rightarrow> nat" where
  "TRUST_CLASS_RANK c =
     (if c = ''guardian'' then 4 else if c = ''trusted_contact'' then 3 else if c = ''unverified_contact'' then 2 else 1)"

definition meetsAdmissionFloor :: "admission_policy \<Rightarrow> string \<Rightarrow> bool" where
  "meetsAdmissionFloor p c \<longleftrightarrow> ADMISSION_FLOOR p \<le> TRUST_CLASS_RANK c"

definition isAdmissionPolicyExemptChannel :: "string \<Rightarrow> bool" where
  "isAdmissionPolicyExemptChannel ch \<longleftrightarrow> ch = ''platform'' \<or> ch = ''a2a''"

definition isAdmissionPolicyHiddenChannel :: "string \<Rightarrow> bool" where
  "isAdmissionPolicyHiddenChannel ch \<longleftrightarrow> ch = ''vellum'' \<or> ch = ''whatsapp''"

definition CHANNEL_IDS :: "string list" where
  "CHANNEL_IDS =
     [''telegram'', ''phone'', ''vellum'', ''whatsapp'', ''slack'', ''email'', ''a2a'', ''discord'', ''plugin'']"

section \<open>The policy store and its cache\<close>

record policy_row =
  pr_channelType :: string
  pr_policy :: string
  pr_note :: "string option"
  pr_updatedAt :: int

type_synonym policy_table = "policy_row list"

definition coercePolicy :: "string \<Rightarrow> admission_policy" where
  "coercePolicy s = (case parse_policy s of Some p \<Rightarrow> p | None \<Rightarrow> ADMISSION_POLICY_DEFAULT)"

definition policy_get :: "policy_table \<Rightarrow> string \<Rightarrow> admission_policy" where
  "policy_get t ch =
     (case find (\<lambda>r. pr_channelType r = ch) t of None \<Rightarrow> ADMISSION_POLICY_DEFAULT | Some r \<Rightarrow> coercePolicy (pr_policy r))"

text \<open>\<^verbatim>\<open>list()\<close>: the rows of known channels.\<close>

definition policy_list :: "policy_table \<Rightarrow> (string \<times> admission_policy) list" where
  "policy_list t =
     map (\<lambda>r. (pr_channelType r, coercePolicy (pr_policy r))) (filter (\<lambda>r. pr_channelType r \<in> set CHANNEL_IDS) t)"

definition policy_set :: "string \<Rightarrow> admission_policy \<Rightarrow> string option \<Rightarrow> int \<Rightarrow> policy_table \<Rightarrow> policy_table" where
  "policy_set ch p note now t =
     (if ch \<in> pr_channelType ` set t
      then map (\<lambda>r. if pr_channelType r = ch
                    then r\<lparr>pr_policy := policy_name p, pr_note := note, pr_updatedAt := now\<rparr> else r) t
      else t @ [\<lparr>pr_channelType = ch, pr_policy = policy_name p, pr_note = note, pr_updatedAt = now\<rparr>])"

definition policy_remove :: "string \<Rightarrow> policy_table \<Rightarrow> policy_table \<times> bool" where
  "policy_remove ch t =
     (if ch \<in> pr_channelType ` set t then (filter (\<lambda>r. pr_channelType r \<noteq> ch) t, True) else (t, False))"

definition seedDefault :: "string \<Rightarrow> admission_policy \<Rightarrow> int \<Rightarrow> policy_table \<Rightarrow> policy_table" where
  "seedDefault ch p now t =
     (if ch \<in> pr_channelType ` set t then t
      else t @ [\<lparr>pr_channelType = ch, pr_policy = policy_name p, pr_note = None, pr_updatedAt = now\<rparr>])"

definition channel_default :: "string \<Rightarrow> admission_policy" where
  "channel_default ch = (if ch = ''vellum'' \<or> ch = ''plugin'' then GuardianOnly else ADMISSION_POLICY_DEFAULT)"

definition seed_channel :: "int \<Rightarrow> policy_table \<Rightarrow> string \<Rightarrow> policy_table" where
  "seed_channel now t ch =
     (if isAdmissionPolicyExemptChannel ch then t
      else (let t1 = seedDefault ch (channel_default ch) now t
            in if isAdmissionPolicyHiddenChannel ch \<and> policy_get t1 ch \<noteq> channel_default ch
               then policy_set ch (channel_default ch) None now t1 else t1))"

definition seedAdmissionPolicyDefaults :: "int \<Rightarrow> policy_table \<Rightarrow> policy_table" where
  "seedAdmissionPolicyDefaults now t = foldl (seed_channel now) t CHANNEL_IDS"

type_synonym policy_cache = "(string, admission_policy) js_map"

definition cache_refresh :: "policy_table \<Rightarrow> policy_cache" where
  "cache_refresh t = foldl (\<lambda>m (ch, p). js_set ch p m) [] (policy_list t)"

definition cache_policy :: "policy_cache \<Rightarrow> string \<Rightarrow> admission_policy" where
  "cache_policy m ch = (case js_get m ch of Some p \<Rightarrow> p | None \<Rightarrow> ADMISSION_POLICY_DEFAULT)"

definition resolveAdmissionPolicy :: "bool \<Rightarrow> policy_cache \<Rightarrow> string \<Rightarrow> admission_policy option" where
  "resolveAdmissionPolicy floorsOn m ch =
     (if \<not> floorsOn then None
      else if isAdmissionPolicyExemptChannel ch then None
      else if ch \<notin> set CHANNEL_IDS then None
      else Some (cache_policy m ch))"

section \<open>Whether the guardian's row was lost\<close>

definition STATE_TTL_MS :: int where
  "STATE_TTL_MS = 30000"

definition hasGuardianContactRow :: "gw_contacts \<Rightarrow> bool" where
  "hasGuardianContactRow s \<longleftrightarrow> list_ex (\<lambda>c. ct_role c = ''guardian'') (gwContacts s)"

definition hasEvidenceOfPriorGuardian :: "bool \<Rightarrow> gw_contacts \<Rightarrow> bool" where
  "hasEvidenceOfPriorGuardian hasActorTokens s \<longleftrightarrow> gwContacts s \<noteq> [] \<or> hasActorTokens"

text \<open>\<^verbatim>\<open>computeState\<close>: true is \<^verbatim>\<open>missing_guardian\<close>.\<close>

definition missing_guardian :: "bool \<Rightarrow> gw_contacts \<Rightarrow> bool" where
  "missing_guardian hasActorTokens s \<longleftrightarrow> \<not> hasGuardianContactRow s \<and> hasEvidenceOfPriorGuardian hasActorTokens s"

type_synonym integrity_cache = "(bool \<times> int) option"

definition guardianIntegrityState :: "bool \<Rightarrow> int \<Rightarrow> gw_contacts \<Rightarrow> integrity_cache \<Rightarrow> bool \<times> integrity_cache" where
  "guardianIntegrityState hasActorTokens now s cache =
     (case cache of
        Some (st, at) \<Rightarrow>
          if now - at < STATE_TTL_MS then (st, cache)
          else (missing_guardian hasActorTokens s, Some (missing_guardian hasActorTokens s, now))
      | None \<Rightarrow> (missing_guardian hasActorTokens s, Some (missing_guardian hasActorTokens s, now)))"

section \<open>The trust verdict\<close>

text \<open>The wire shape: absent fields are \<open>None\<close>.\<close>

record trust_verdict =
  tv_trustClass :: string
  tv_canonicalSenderId :: "string option"
  tv_resolutionFailed :: bool
  tv_guardianExternalUserId :: "string option"
  tv_guardianDeliveryChatId :: "string option"
  tv_guardianPrincipalId :: "string option"
  tv_guardianDisplayName :: "string option"
  tv_contactId :: "string option"
  tv_channelId :: "string option"
  tv_type :: "string option"
  tv_address :: "string option"
  tv_externalChatId :: "string option"
  tv_status :: "string option"
  tv_policy :: "string option"
  tv_verifiedAt :: "int option"
  tv_memberDisplayName :: "string option"
  tv_autoApproveThreshold :: "string option"
  tv_interactionCount :: "nat option"
  tv_hasInterceptableSession :: "bool option"

definition makeUnauthenticatedSenderVerdict :: "string option \<Rightarrow> trust_verdict" where
  "makeUnauthenticatedSenderVerdict i =
     \<lparr>tv_trustClass = ''unknown'', tv_canonicalSenderId = i, tv_resolutionFailed = False,
      tv_guardianExternalUserId = None, tv_guardianDeliveryChatId = None, tv_guardianPrincipalId = None,
      tv_guardianDisplayName = None, tv_contactId = None, tv_channelId = None, tv_type = None, tv_address = None,
      tv_externalChatId = None, tv_status = None, tv_policy = None, tv_verifiedAt = None,
      tv_memberDisplayName = None, tv_autoApproveThreshold = None, tv_interactionCount = None,
      tv_hasInterceptableSession = None\<rparr>"

definition makeResolutionFailedVerdict :: "string option \<Rightarrow> trust_verdict" where
  "makeResolutionFailedVerdict i = (makeUnauthenticatedSenderVerdict i)\<lparr>tv_resolutionFailed := True\<rparr>"

definition parseContactAutoApproveThreshold :: "string option \<Rightarrow> string option" where
  "parseContactAutoApproveThreshold v =
     (case v of Some x \<Rightarrow> if x \<in> {''none'', ''low'', ''medium'', ''high''} then Some x else None | None \<Rightarrow> None)"

text \<open>A string that is present and not empty, as a JavaScript condition reads it.\<close>

definition truthy :: "string option \<Rightarrow> bool" where
  "truthy v \<longleftrightarrow> v \<noteq> None \<and> v \<noteq> Some []"

text \<open>Descending by \<^verbatim>\<open>verified_at\<close>, null last.\<close>

definition verified_key :: "gw_contact \<times> gw_channel \<Rightarrow> nat \<times> int" where
  "verified_key = (\<lambda>(c, h). case cc_verifiedAt h of Some v \<Rightarrow> (0, - v) | None \<Rightarrow> (1, 0))"

definition guardian_row :: "string \<Rightarrow> gw_contacts \<Rightarrow> (gw_contact \<times> gw_channel) option" where
  "guardian_row ty s =
     first_of (sort_key verified_key (filter (\<lambda>(c, h). cc_status h = ''active'') (guardian_channels s ty)))"

definition contact_of :: "gw_contacts \<Rightarrow> gw_channel \<Rightarrow> gw_contact option" where
  "contact_of s h = find (\<lambda>c. ct_id c = cc_contactId h) (gwContacts s)"

definition member_row :: "string \<Rightarrow> string option \<Rightarrow> gw_contacts \<Rightarrow> (gw_contact \<times> gw_channel) option" where
  "member_row ty sender s =
     (case sender of
        None \<Rightarrow> None
      | Some a \<Rightarrow>
          if a = [] then None
          else first_of (concat (map (\<lambda>h. case contact_of s h of None \<Rightarrow> [] | Some c \<Rightarrow> [(c, h)])
                 (filter (\<lambda>h. cc_type h = ty \<and> nocase_eq (cc_address h) a) (gwContactChannels s)))))"

definition has_active_channel :: "gw_contacts \<Rightarrow> gw_contact \<Rightarrow> bool" where
  "has_active_channel s c \<longleftrightarrow> list_ex (\<lambda>h. cc_contactId h = ct_id c \<and> cc_status h = ''active'') (gwContactChannels s)"

text \<open>The sender's own row belongs to the guardian contact, is not denied by its status, and the contact still has an
  active channel.\<close>

definition guardian_identity_match :: "gw_contacts \<Rightarrow> (gw_contact \<times> gw_channel) option \<Rightarrow> gw_contact option" where
  "guardian_identity_match s m =
     (case m of
        None \<Rightarrow> None
      | Some (c, h) \<Rightarrow>
          if ct_role c = ''guardian'' \<and> cc_status h \<in> {''active'', ''pending'', ''unverified''} \<and> has_active_channel s c
          then Some c else None)"

definition member_class :: "(gw_contact \<times> gw_channel) option \<Rightarrow> string" where
  "member_class m =
     (case m of
        None \<Rightarrow> ''unknown''
      | Some (c, h) \<Rightarrow>
          if cc_status h = ''active'' then ''trusted_contact''
          else if cc_status h = ''unverified'' \<or> cc_status h = ''pending'' then ''unverified_contact''
          else ''unknown'')"

definition with_guardian :: "(gw_contact \<times> gw_channel) option \<Rightarrow> gw_contact option \<Rightarrow> trust_verdict \<Rightarrow> trust_verdict" where
  "with_guardian g byPrincipal v =
     (case g of
        Some (c, h) \<Rightarrow>
          v\<lparr>tv_guardianExternalUserId := Some (cc_address h), tv_guardianDeliveryChatId := cc_externalChatId h,
            tv_guardianPrincipalId := (if truthy (ct_principalId c) then ct_principalId c else None),
            tv_guardianDisplayName := Some (ct_displayName c)\<rparr>
      | None \<Rightarrow>
          (case byPrincipal of
             None \<Rightarrow> v
           | Some c \<Rightarrow>
               v\<lparr>tv_guardianPrincipalId := (if truthy (ct_principalId c) then ct_principalId c else None),
                 tv_guardianDisplayName := (if ct_displayName c \<noteq> [] then Some (ct_displayName c) else None)\<rparr>))"

definition with_member :: "(gw_contact \<times> gw_channel) option \<Rightarrow> trust_verdict \<Rightarrow> trust_verdict" where
  "with_member m v =
     (case m of
        None \<Rightarrow> v
      | Some (c, h) \<Rightarrow>
          v\<lparr>tv_contactId := Some (cc_contactId h), tv_channelId := Some (cc_id h), tv_type := Some (cc_type h),
            tv_address := Some (cc_address h), tv_externalChatId := cc_externalChatId h, tv_status := Some (cc_status h),
            tv_policy := Some (cc_policy h), tv_verifiedAt := cc_verifiedAt h,
            tv_interactionCount := Some (cc_interactionCount h), tv_memberDisplayName := Some (ct_displayName c),
            tv_autoApproveThreshold := parseContactAutoApproveThreshold (ct_autoApproveThreshold c)\<rparr>)"

text \<open>What the resolver reads beside the contacts: whether there are actor tokens, the sessions, the clock.\<close>

record resolver_env =
  re_hasActorTokens :: bool
  re_sessions :: session_table
  re_now :: int

definition resolveTrustVerdict ::
    "resolver_env \<Rightarrow> gw_contacts \<Rightarrow> integrity_cache \<Rightarrow> string \<Rightarrow> string option \<Rightarrow> trust_verdict \<times> integrity_cache" where
  "resolveTrustVerdict E s cache ch actor =
     (let (ty, addr) = (case actor of
             Some a \<Rightarrow> if a = [] then (ch, actor) else map_prod id Some (pluginMemberIdentity ch a)
           | None \<Rightarrow> (ch, None));
          sender = canonicalSenderIdFor ty addr;
          g = guardian_row ty s;
          m = member_row ty sender s;
          isGuardian = (case (g, sender) of
             (Some (c, h), Some a) \<Rightarrow> a \<noteq> [] \<and> to_lower (cc_address h) = to_lower a | _ \<Rightarrow> False);
          identity = (if isGuardian then None else guardian_identity_match s m)
      in if identity \<noteq> None \<and> \<not> truthy (ct_principalId (the identity))
         then (makeResolutionFailedVerdict sender, cache)
         else
           (let cls = (if isGuardian \<or> identity \<noteq> None then ''guardian'' else member_class m);
                (missing, cache') = guardianIntegrityState (re_hasActorTokens E) (re_now E) s cache;
                v = (makeUnauthenticatedSenderVerdict sender)\<lparr>tv_trustClass := cls,
                      tv_resolutionFailed := (missing \<and> cls = ''unknown''),
                      tv_hasInterceptableSession := Some (hasInterceptableSession ch (re_now E) (re_sessions E))\<rparr>
            in (with_member m (with_guardian g identity v), cache')))"

text \<open>The gateway's part of admission: the kill switch, and the downgrade of a sender the channel could not
  authenticate.\<close>

definition inbound_verdict :: "bool option \<Rightarrow> trust_verdict \<Rightarrow> trust_verdict" where
  "inbound_verdict senderAuthenticated v =
     (if senderAuthenticated = Some False
      then (makeUnauthenticatedSenderVerdict (tv_canonicalSenderId v))\<lparr>tv_resolutionFailed := tv_resolutionFailed v\<rparr>
      else v)"

section \<open>The daemon reads the verdict\<close>

definition CHANNEL_STATUS_VALUES :: "string list" where
  "CHANNEL_STATUS_VALUES = [''active'', ''pending'', ''revoked'', ''blocked'', ''unverified'']"

definition CHANNEL_POLICY_VALUES :: "string list" where
  "CHANNEL_POLICY_VALUES = [''allow'', ''deny'']"

record verdict_member =
  vm_contactId :: string
  vm_channelId :: string
  vm_status :: string
  vm_policy :: string
  vm_verifiedAt :: "int option"
  vm_displayName :: "string option"

definition verdictMemberFromVerdict :: "trust_verdict \<Rightarrow> verdict_member option" where
  "verdictMemberFromVerdict v =
     (if \<not> truthy (tv_contactId v) \<or> \<not> truthy (tv_channelId v) then None
      else if \<not> truthy (tv_status v) \<or> \<not> truthy (tv_policy v) then None
      else if the (tv_status v) \<notin> set CHANNEL_STATUS_VALUES \<or> the (tv_policy v) \<notin> set CHANNEL_POLICY_VALUES then None
      else Some \<lparr>vm_contactId = the (tv_contactId v), vm_channelId = the (tv_channelId v), vm_status = the (tv_status v),
                 vm_policy = the (tv_policy v), vm_verifiedAt = tv_verifiedAt v, vm_displayName = tv_memberDisplayName v\<rparr>)"

definition verdictMemberUnresolvable :: "trust_verdict \<Rightarrow> bool" where
  "verdictMemberUnresolvable v \<longleftrightarrow>
     (truthy (tv_contactId v) \<or> truthy (tv_channelId v)) \<and> verdictMemberFromVerdict v = None"

datatype verdict_unusable = Missing | ResolutionFailed | MemberUnresolvable | UnrecognizedClass | GuardianWithoutMember

definition verdictUsability :: "trust_verdict option \<Rightarrow> verdict_unusable + trust_verdict" where
  "verdictUsability ov =
     (case ov of
        None \<Rightarrow> Inl Missing
      | Some v \<Rightarrow>
          if tv_resolutionFailed v then Inl ResolutionFailed
          else if verdictMemberUnresolvable v then Inl MemberUnresolvable
          else if tv_trustClass v \<notin> set TRUST_CLASSES then Inl UnrecognizedClass
          else if tv_trustClass v = ''guardian'' \<and> verdictMemberFromVerdict v = None then Inl GuardianWithoutMember
          else Inr v)"

definition channelStatusToMemberStatus :: "string \<Rightarrow> string" where
  "channelStatusToMemberStatus st = (if st = ''unverified'' then ''pending'' else st)"

definition isKeptOutStatus :: "string \<Rightarrow> bool" where
  "isKeptOutStatus st \<longleftrightarrow> st = ''revoked'' \<or> st = ''blocked''"

section \<open>The access list\<close>

text \<open>What the stage is given. \<open>ap_bootstrap\<close> is the payload of a \<^verbatim>\<open>/start gv_...\<close> command,
  \<open>ap_bootstrapStatus\<close> the status of the session the gateway resolves it to, \<open>ap_challengeInitiated\<close> whether a
  verification challenge could be started for the sender.\<close>

record acl_params =
  ap_canonicalSenderId :: "string option"
  ap_rawSenderId :: "string option"
  ap_sourceChannel :: string
  ap_verdict :: "trust_verdict option"
  ap_policy :: "admission_policy option"
  ap_isBot :: bool
  ap_isCallback :: bool
  ap_actorUnattributed :: bool
  ap_bootstrap :: bool
  ap_bootstrapStatus :: "string option"
  ap_challengeInitiated :: bool

datatype acl_result =
    AclDeny (denied_member: "verdict_member option") (deny_reason: string)
  | AclPass (passed_member: "verdict_member option") (bootstrap_session: bool)

definition valid_bootstrap :: "acl_params \<Rightarrow> bool" where
  "valid_bootstrap P \<longleftrightarrow> ap_bootstrap P \<and> ap_bootstrapStatus P = Some ''pending_bootstrap''"

definition sender_known :: "acl_params \<Rightarrow> bool" where
  "sender_known P \<longleftrightarrow> truthy (case ap_canonicalSenderId P of Some i \<Rightarrow> Some i | None \<Rightarrow> ap_rawSenderId P)"

definition hasSenderIdentityClaim :: "acl_params \<Rightarrow> bool" where
  "hasSenderIdentityClaim P \<longleftrightarrow> ap_rawSenderId P \<noteq> None"

text \<open>Guardians: admitted with a member row that is neither kept out nor denied.\<close>

definition acl_guardian :: "verdict_member option \<Rightarrow> acl_result" where
  "acl_guardian om =
     (case om of
        None \<Rightarrow> AclDeny None ''not_a_member''
      | Some m \<Rightarrow>
          if isKeptOutStatus (vm_status m) then AclDeny None ''not_a_member''
          else if vm_policy m = ''deny'' then AclDeny (Some m) ''policy_deny''
          else AclPass (Some m) False)"

definition acl_nonmember :: "acl_params \<Rightarrow> acl_result" where
  "acl_nonmember P =
     (if valid_bootstrap P then AclPass None True
      else if ap_policy P = Some Strangers \<or> ap_policy P = Some GuardianOnly then AclPass None False
      else if (ap_sourceChannel P = ''slack'' \<and> \<not> ap_isBot P \<or> ap_sourceChannel P = ''email'') \<and>
              sender_known P \<and> \<not> ap_isCallback P \<and> ap_challengeInitiated P
      then AclDeny None ''verification_challenge_sent''
      else AclDeny None ''not_a_member'')"

text \<open>An inactive member stays denied unless it re-verifies through a bootstrap command or the floor is to decide.\<close>

definition inactive_denied :: "acl_params \<Rightarrow> string \<Rightarrow> bool" where
  "inactive_denied P st \<longleftrightarrow>
     st = ''blocked'' \<or>
     \<not> valid_bootstrap P \<and>
     \<not> (ap_policy P = Some Strangers \<and> st \<noteq> ''revoked'') \<and>
     \<not> ((ap_policy P = Some AnyContact \<or> ap_policy P = Some GuardianOnly) \<and> (st = ''pending'' \<or> st = ''unverified''))"

definition inactive_reason :: "acl_params \<Rightarrow> string \<Rightarrow> string" where
  "inactive_reason P st =
     (if ap_sourceChannel P = ''slack'' \<and> \<not> ap_isBot P \<and> sender_known P \<and> \<not> isKeptOutStatus st \<and>
         \<not> ap_isCallback P \<and> ap_challengeInitiated P
      then ''verification_challenge_sent'' else ''member_'' @ channelStatusToMemberStatus st)"

definition acl_member :: "acl_params \<Rightarrow> verdict_member \<Rightarrow> acl_result" where
  "acl_member P m =
     (if vm_status m \<noteq> ''active'' \<and> inactive_denied P (vm_status m)
      then AclDeny (Some m) (inactive_reason P (vm_status m))
      else if vm_policy m = ''deny'' then AclDeny (Some m) ''policy_deny''
      else AclPass (Some m) (vm_status m \<noteq> ''active'' \<and> vm_status m \<noteq> ''blocked'' \<and> valid_bootstrap P))"

definition enforceIngressAcl :: "acl_params \<Rightarrow> acl_result" where
  "enforceIngressAcl P =
     (if ap_actorUnattributed P then AclPass None False
      else (case verdictUsability (ap_verdict P) of
              Inl _ \<Rightarrow> AclDeny None ''not_a_member''
            | Inr v \<Rightarrow>
                (let om = verdictMemberFromVerdict v
                 in if tv_trustClass v = ''guardian'' then acl_guardian om
                    else if ap_canonicalSenderId P \<noteq> None \<or> hasSenderIdentityClaim P
                    then (case om of None \<Rightarrow> acl_nonmember P | Some m \<Rightarrow> acl_member P m)
                    else AclPass om False)))"

section \<open>The floor\<close>

datatype admission_result = Admitted | NotAdmitted (na_reason: string) (shouldChallenge: bool)

definition trustedContactPromotionClearsFloor :: "admission_policy \<Rightarrow> bool" where
  "trustedContactPromotionClearsFloor p \<longleftrightarrow> ADMISSION_FLOOR p \<le> TRUST_CLASS_RANK ''trusted_contact''"

definition enforceAdmissionPolicy :: "string \<Rightarrow> string \<Rightarrow> string option \<Rightarrow> admission_policy \<Rightarrow> admission_result" where
  "enforceAdmissionPolicy ch cls memberStatus p =
     (if isAdmissionPolicyExemptChannel ch then Admitted
      else if memberStatus = Some ''blocked'' then NotAdmitted ''member_blocked'' False
      else if memberStatus = Some ''revoked'' then NotAdmitted ''member_revoked'' False
      else if ADMISSION_FLOOR p \<le> TRUST_CLASS_RANK cls then Admitted
      else NotAdmitted (''admission_policy_'' @ policy_name p) (p = AnyContact \<or> p = Strangers))"

text \<open>The two stages as the message handler runs them. \<open>stamped\<close> is the policy on the message's metadata; the
  trust class of a message without a verdict is \<^verbatim>\<open>unknown\<close>.\<close>

definition daemon_admits :: "bool \<Rightarrow> admission_policy option \<Rightarrow> acl_params \<Rightarrow> bool" where
  "daemon_admits floorsOn stamped P =
     (let p = (case stamped of Some p \<Rightarrow> p | None \<Rightarrow> ADMISSION_POLICY_DEFAULT);
          P' = P\<lparr>ap_policy := (if floorsOn then Some p else None)\<rparr>
      in case enforceIngressAcl P' of
           AclDeny _ _ \<Rightarrow> False
         | AclPass om boot \<Rightarrow>
             \<not> floorsOn \<or> boot \<or>
             enforceAdmissionPolicy (ap_sourceChannel P)
               (case ap_verdict P of Some v \<Rightarrow> tv_trustClass v | None \<Rightarrow> ''unknown'') (map_option vm_status om) p = Admitted)"

text \<open>Gateway and daemon together, for a message that no intercept consumes. Both processes read the same flag.\<close>

record inbound_message =
  im_channel :: string
  im_actor :: "string option"
  im_senderAuthenticated :: "bool option"
  im_isBot :: bool
  im_isCallback :: bool

definition acl_params_of :: "inbound_message \<Rightarrow> trust_verdict \<Rightarrow> bool \<Rightarrow> acl_params" where
  "acl_params_of M v challenge =
     \<lparr>ap_canonicalSenderId = (case im_actor M of
         Some a \<Rightarrow> if a = [] then None else canonicalizeInboundIdentity (im_channel M) a | None \<Rightarrow> None),
      ap_rawSenderId = im_actor M, ap_sourceChannel = im_channel M, ap_verdict = Some v, ap_policy = None,
      ap_isBot = im_isBot M, ap_isCallback = im_isCallback M, ap_actorUnattributed = False, ap_bootstrap = False,
      ap_bootstrapStatus = None, ap_challengeInitiated = challenge\<rparr>"

definition inbound_admitted ::
    "bool \<Rightarrow> policy_cache \<Rightarrow> resolver_env \<Rightarrow> gw_contacts \<Rightarrow> integrity_cache \<Rightarrow> inbound_message \<Rightarrow> bool \<Rightarrow> bool" where
  "inbound_admitted floorsOn policies E s cache M challenge =
     (let p = resolveAdmissionPolicy floorsOn policies (im_channel M)
      in if p = Some NoOne then False
         else (let v = inbound_verdict (im_senderAuthenticated M) (fst (resolveTrustVerdict E s cache (im_channel M) (im_actor M)))
               in daemon_admits floorsOn p (acl_params_of M v challenge)))"

section \<open>Who is admitted\<close>

text \<open>The tables as the schema and the code keep them: unique contact ids, one row per type and folded address,
  known statuses and policies.\<close>

definition channel_row_ok :: "gw_channel \<Rightarrow> bool" where
  "channel_row_ok h \<longleftrightarrow>
     cc_id h \<noteq> [] \<and> cc_contactId h \<noteq> [] \<and> cc_status h \<in> set CHANNEL_STATUS_VALUES \<and>
     cc_policy h \<in> set CHANNEL_POLICY_VALUES"

definition channel_key :: "gw_channel \<Rightarrow> string \<times> string" where
  "channel_key h = (cc_type h, to_lower (cc_address h))"

definition tables_ok :: "gw_contacts \<Rightarrow> bool" where
  "tables_ok s \<longleftrightarrow>
     distinct (map ct_id (gwContacts s)) \<and> distinct (map channel_key (gwContactChannels s)) \<and>
     list_all channel_row_ok (gwContactChannels s)"

text \<open>The standing of a sender's row: \<open>None\<close> is denied on every policy.\<close>

definition row_standing :: "gw_contacts \<Rightarrow> string \<Rightarrow> gw_contact \<Rightarrow> gw_channel \<Rightarrow> nat option" where
  "row_standing s ty c h =
     (if cc_policy h = ''deny'' \<or> cc_status h = ''revoked'' \<or> cc_status h = ''blocked'' then None
      else if guardian_row ty s = Some (c, h) then Some 4
      else if ct_role c = ''guardian'' \<and> has_active_channel s c
      then (if truthy (ct_principalId c) then Some 4 else None)
      else if cc_status h = ''active'' then Some 3 else Some 2)"

text \<open>A sender without a row is a stranger, unless the guardian's row seems lost.\<close>

definition sender_standing :: "bool \<Rightarrow> gw_contacts \<Rightarrow> string \<Rightarrow> string \<Rightarrow> nat option" where
  "sender_standing lost s ty addr =
     (case find (\<lambda>h. cc_type h = ty \<and> nocase_eq (cc_address h) addr \<and> contact_of s h \<noteq> None) (gwContactChannels s) of
        Some h \<Rightarrow> row_standing s ty (the (contact_of s h)) h
      | None \<Rightarrow> if lost then None else Some 1)"

lemma contact_of_eq:
  assumes "distinct (map ct_id (gwContacts s))" "c \<in> set (gwContacts s)" "ct_id c = cc_contactId h"
  shows "contact_of s h = Some c"
proof -
  obtain c' where c': "contact_of s h = Some c'"
    using assms(2,3) by (cases "contact_of s h") (auto simp: contact_of_def find_None_iff)
  then have "c' \<in> set (gwContacts s)" "ct_id c' = ct_id c"
    using find_SomeD assms(3) by (fastforce simp: contact_of_def)+
  then show ?thesis using c' assms(1,2) by (auto simp: distinct_map inj_on_def)
qed

lemma first_concat_options:
  "first_of (concat (map (\<lambda>h. case f h of None \<Rightarrow> [] | Some c \<Rightarrow> [(c, h)]) hs)) =
     map_option (\<lambda>h. (the (f h), h)) (find (\<lambda>h. f h \<noteq> None) hs)"
  by (induction hs) (auto simp: first_of_def split: option.splits)

lemma find_filter: "find P (filter Q xs) = find (\<lambda>x. Q x \<and> P x) xs"
  by (induction xs) auto

lemma member_row_find:
  "a \<noteq> [] \<Longrightarrow> member_row ty (Some a) s =
     map_option (\<lambda>h. (the (contact_of s h), h))
       (find (\<lambda>h. cc_type h = ty \<and> nocase_eq (cc_address h) a \<and> contact_of s h \<noteq> None) (gwContactChannels s))"
  by (simp add: member_row_def first_concat_options find_filter conj_assoc)

lemma sort_key_first_mem: "first_of (sort_key k xs) = Some x \<Longrightarrow> x \<in> set xs"
  by (auto simp: first_of_def split: list.splits) (metis list.set_intros(1) set_sort)

lemma guardian_row_mem:
  assumes "guardian_row ty s = Some (c, h)"
  shows "c \<in> set (gwContacts s)" "h \<in> set (gwContactChannels s)" "cc_contactId h = ct_id c" "ct_role c = ''guardian''"
    "cc_type h = ty" "cc_status h = ''active''"
  using sort_key_first_mem [OF assms [unfolded guardian_row_def]] by (auto simp: guardian_channels_def)

text \<open>The sender is the bound guardian just when the bound row is the sender's own.\<close>

lemma binding_is_member:
  assumes ok: "tables_ok s" and a: "a \<noteq> []"
  shows "(case guardian_row ty s of Some (c, h) \<Rightarrow> to_lower (cc_address h) = to_lower a | None \<Rightarrow> False) \<longleftrightarrow>
    (\<exists>m. member_row ty (Some a) s = Some m \<and> guardian_row ty s = Some m)" (is "?L \<longleftrightarrow> ?R")
proof
  assume ?R
  then obtain c h where m: "member_row ty (Some a) s = Some (c, h)" "guardian_row ty s = Some (c, h)" by auto
  then have "nocase_eq (cc_address h) a" using a by (auto simp: member_row_find dest: find_SomeD)
  then show ?L using m by (simp add: nocase_eq_def)
next
  assume ?L
  then obtain c h where g: "guardian_row ty s = Some (c, h)" and l: "nocase_eq (cc_address h) a"
    by (auto simp: nocase_eq_def split: option.splits)
  note gm = guardian_row_mem [OF g]
  have c: "contact_of s h = Some c" using contact_of_eq ok gm by (auto simp: tables_ok_def)
  let ?P = "\<lambda>h. cc_type h = ty \<and> nocase_eq (cc_address h) a \<and> contact_of s h \<noteq> None"
  obtain h' where h': "find ?P (gwContactChannels s) = Some h'"
    using gm l c by (cases "find ?P (gwContactChannels s)") (auto simp: find_None_iff)
  then have "h' \<in> set (gwContactChannels s)" "channel_key h' = channel_key h"
    using find_SomeD gm l by (fastforce simp: channel_key_def nocase_eq_def)+
  then have "h' = h" using ok gm by (auto simp: tables_ok_def distinct_map inj_on_def)
  then show ?R using h' g c a by (simp add: member_row_find)
qed

lemmas acl_defs = enforceIngressAcl_def acl_guardian_def acl_nonmember_def acl_member_def inactive_denied_def
  isKeptOutStatus_def valid_bootstrap_def hasSenderIdentityClaim_def

lemma params_of_simps [simp]:
  "ap_sourceChannel (acl_params_of M v b) = im_channel M" "ap_rawSenderId (acl_params_of M v b) = im_actor M"
  "ap_verdict (acl_params_of M v b) = Some v" "ap_bootstrap (acl_params_of M v b) = False"
  "ap_actorUnattributed (acl_params_of M v b) = False"
  by (simp_all add: acl_params_of_def)

lemma floor_simps [simp]: "ADMISSION_FLOOR p \<le> 4 \<longleftrightarrow> p \<noteq> NoOne" "ADMISSION_FLOOR p \<le> 3 \<longleftrightarrow> p \<notin> {NoOne, GuardianOnly}"
  "ADMISSION_FLOOR p \<le> 2 \<longleftrightarrow> p \<in> {AnyContact, Strangers}" "ADMISSION_FLOOR p \<le> 1 \<longleftrightarrow> p = Strangers"
  "ADMISSION_FLOOR p \<le> Suc 0 \<longleftrightarrow> p = Strangers"
  by (cases p; simp)+

lemma admits_member:
  assumes v: "verdictUsability (Some v) = Inr v" "verdictMemberFromVerdict v = Some m"
    and st: "vm_status m \<in> set CHANNEL_STATUS_VALUES"
    and cls: "tv_trustClass v = ''guardian'' \<or> tv_trustClass v = (if vm_status m = ''active'' then ''trusted_contact''
        else if vm_status m = ''unverified'' \<or> vm_status m = ''pending'' then ''unverified_contact'' else ''unknown'')"
    and ch: "\<not> isAdmissionPolicyExemptChannel (im_channel M)" "im_actor M \<noteq> None" "p \<noteq> NoOne"
  shows "daemon_admits True (Some p) (acl_params_of M v b) \<longleftrightarrow>
    vm_policy m \<noteq> ''deny'' \<and> vm_status m \<noteq> ''revoked'' \<and> vm_status m \<noteq> ''blocked'' \<and>
    ADMISSION_FLOOR p \<le> TRUST_CLASS_RANK (tv_trustClass v)"
proof -
  consider "vm_status m = ''active''" | "vm_status m = ''pending''" | "vm_status m = ''revoked''"
    | "vm_status m = ''blocked''" | "vm_status m = ''unverified''"
    using st by (auto simp: CHANNEL_STATUS_VALUES_def)
  then show ?thesis
  proof cases
    case 1
    show ?thesis using cls unfolding 1 by (cases p) (use ch in \<open>auto simp: 1 v acl_defs daemon_admits_def
      enforceAdmissionPolicy_def TRUST_CLASS_RANK_def\<close>)
  next
    case 2
    show ?thesis using cls unfolding 2 by (cases p) (use ch in \<open>auto simp: 2 v acl_defs daemon_admits_def
      enforceAdmissionPolicy_def TRUST_CLASS_RANK_def\<close>)
  next
    case 3
    show ?thesis using cls unfolding 3 by (cases p) (use ch in \<open>auto simp: 3 v acl_defs daemon_admits_def
      enforceAdmissionPolicy_def TRUST_CLASS_RANK_def\<close>)
  next
    case 4
    show ?thesis using cls unfolding 4 by (cases p) (use ch in \<open>auto simp: 4 v acl_defs daemon_admits_def
      enforceAdmissionPolicy_def TRUST_CLASS_RANK_def\<close>)
  next
    case 5
    show ?thesis using cls unfolding 5 by (cases p) (use ch in \<open>auto simp: 5 v acl_defs daemon_admits_def
      enforceAdmissionPolicy_def TRUST_CLASS_RANK_def\<close>)
  qed
qed

lemma admits_stranger:
  assumes v: "verdictUsability (Some v) = Inr v" "verdictMemberFromVerdict v = None" "tv_trustClass v = ''unknown''"
    and ch: "\<not> isAdmissionPolicyExemptChannel (im_channel M)" "im_actor M \<noteq> None"
  shows "daemon_admits True (Some p) (acl_params_of M v b) \<longleftrightarrow> p = Strangers"
  using ch by (cases p) (auto simp: v acl_defs daemon_admits_def enforceAdmissionPolicy_def TRUST_CLASS_RANK_def)

lemma admits_unusable:
  "tv_resolutionFailed v \<Longrightarrow> \<not> daemon_admits on p (acl_params_of M v b)"
  by (simp add: daemon_admits_def enforceIngressAcl_def verdictUsability_def Let_def)

lemma canonical_nonempty: "canonicalSenderIdFor ty (Some addr) = Some i \<Longrightarrow> i \<noteq> []"
  using normalize_stable(3) by (fastforce simp: canonicalSenderIdFor_def canonicalizeInboundIdentity_def
      canonicalizeIdentityAs_def Let_def split: if_splits identity_kind.splits option.splits)

lemma with_guardian_simps [simp]:
  "tv_trustClass (with_guardian g p v) = tv_trustClass v" "tv_resolutionFailed (with_guardian g p v) = tv_resolutionFailed v"
  "tv_contactId (with_guardian g p v) = tv_contactId v" "tv_channelId (with_guardian g p v) = tv_channelId v"
  "tv_status (with_guardian g p v) = tv_status v" "tv_policy (with_guardian g p v) = tv_policy v"
  by (auto simp: with_guardian_def split: option.splits)

lemma with_member_simps [simp]:
  "tv_trustClass (with_member m v) = tv_trustClass v" "tv_resolutionFailed (with_member m v) = tv_resolutionFailed v"
  by (auto simp: with_member_def split: option.splits)

lemma member_of_verdict:
  "verdictMemberFromVerdict (with_member None (with_guardian g p (makeUnauthenticatedSenderVerdict i
      \<lparr>tv_trustClass := cls, tv_resolutionFailed := f, tv_hasInterceptableSession := k\<rparr>))) = None"
  "channel_row_ok h \<Longrightarrow> verdictMemberFromVerdict (with_member (Some (c, h)) v) =
     Some \<lparr>vm_contactId = cc_contactId h, vm_channelId = cc_id h, vm_status = cc_status h, vm_policy = cc_policy h,
           vm_verifiedAt = cc_verifiedAt h, vm_displayName = Some (ct_displayName c)\<rparr>"
  by (auto simp: verdictMemberFromVerdict_def with_member_def makeUnauthenticatedSenderVerdict_def truthy_def channel_row_ok_def
      CHANNEL_STATUS_VALUES_def CHANNEL_POLICY_VALUES_def)

lemma class_ranks:
  "TRUST_CLASS_RANK ''guardian'' = 4" "TRUST_CLASS_RANK ''trusted_contact'' = 3" "TRUST_CLASS_RANK ''unverified_contact'' = 2"
  "TRUST_CLASS_RANK ''unknown'' = 1"
  by (simp_all add: TRUST_CLASS_RANK_def)

text \<open>The class of a resolved verdict, and when the resolver cannot vouch for a guardian.\<close>

definition resolved_class :: "gw_contacts \<Rightarrow> string \<Rightarrow> (gw_contact \<times> gw_channel) option \<Rightarrow> string" where
  "resolved_class s ty m =
     (if m \<noteq> None \<and> guardian_row ty s = m \<or> guardian_identity_match s m \<noteq> None then ''guardian'' else member_class m)"

definition unvouched :: "gw_contacts \<Rightarrow> string \<Rightarrow> (gw_contact \<times> gw_channel) option \<Rightarrow> bool" where
  "unvouched s ty m \<longleftrightarrow>
     guardian_row ty s \<noteq> m \<and>
     (case guardian_identity_match s m of Some c \<Rightarrow> \<not> truthy (ct_principalId c) | None \<Rightarrow> False)"

lemma resolve_eq:
  fixes s ty i
  defines "m \<equiv> member_row ty (Some i) s"
  assumes ok: "tables_ok s" and id: "pluginMemberIdentity ch a = (ty, addr)" "a \<noteq> []"
    and i: "canonicalSenderIdFor ty (Some addr) = Some i"
  shows "\<exists>p k. fst (resolveTrustVerdict E s cache ch (Some a)) =
    (if unvouched s ty m then makeResolutionFailedVerdict (Some i)
     else with_member m (with_guardian (guardian_row ty s) p ((makeUnauthenticatedSenderVerdict (Some i))
       \<lparr>tv_trustClass := resolved_class s ty m,
        tv_resolutionFailed := fst (guardianIntegrityState (re_hasActorTokens E) (re_now E) s cache) \<and>
          resolved_class s ty m = ''unknown'',
        tv_hasInterceptableSession := k\<rparr>)))"
proof -
  have ne: "i \<noteq> []" using canonical_nonempty i by blast
  let ?g = "guardian_row ty s"
  define B where "B \<longleftrightarrow> m \<noteq> None \<and> ?g = m"
  have g: "(case ?g of None \<Rightarrow> False | Some x \<Rightarrow> to_lower (cc_address (snd x)) = to_lower i) \<longleftrightarrow> B"
    using binding_is_member [OF ok ne, of ty] by (auto simp: B_def m_def split: option.splits)
  have gi: "m = None \<Longrightarrow> guardian_identity_match s m = None" by (simp add: guardian_identity_match_def)
  let ?i = "if B then None else guardian_identity_match s m"
  have u: "unvouched s ty m \<longleftrightarrow> ?i \<noteq> None \<and> \<not> truthy (ct_principalId (the ?i))"
    using gi by (cases m) (auto simp: B_def unvouched_def split: option.splits)
  have c: "resolved_class s ty m = (if B \<or> ?i \<noteq> None then ''guardian'' else member_class m)"
    by (auto simp: B_def resolved_class_def)
  have "fst (resolveTrustVerdict E s cache ch (Some a)) =
    (if unvouched s ty m then makeResolutionFailedVerdict (Some i)
     else with_member m (with_guardian ?g ?i ((makeUnauthenticatedSenderVerdict (Some i))
       \<lparr>tv_trustClass := resolved_class s ty m,
        tv_resolutionFailed := fst (guardianIntegrityState (re_hasActorTokens E) (re_now E) s cache) \<and>
          resolved_class s ty m = ''unknown'',
        tv_hasInterceptableSession := Some (hasInterceptableSession ch (re_now E) (re_sessions E))\<rparr>)))"
    unfolding u c using id i by (simp add: resolveTrustVerdict_def Let_def split_beta g ne m_def [symmetric]
      del: split_paired_All split_paired_Ex not_None_eq cong: option.case_cong)
  then show ?thesis by blast
qed

lemma usable_simps:
  "verdictUsability (Some v) =
     (if tv_resolutionFailed v then Inl ResolutionFailed
      else if verdictMemberUnresolvable v then Inl MemberUnresolvable
      else if tv_trustClass v \<notin> set TRUST_CLASSES then Inl UnrecognizedClass
      else if tv_trustClass v = ''guardian'' \<and> verdictMemberFromVerdict v = None then Inl GuardianWithoutMember
      else Inr v)"
  by (simp add: verdictUsability_def)

lemma resolved_class_known: "resolved_class s ty m \<in> set TRUST_CLASSES"
  by (auto simp: resolved_class_def member_class_def TRUST_CLASSES_def split: option.splits prod.splits)

lemma member_row_mem:
  assumes "member_row ty (Some i) s = Some (c, h)" "i \<noteq> []"
  shows "h \<in> set (gwContactChannels s)" "contact_of s h = Some c" "cc_type h = ty" "nocase_eq (cc_address h) i"
  using assms by (auto simp: member_row_find dest!: find_SomeD)

lemma has_active_self:
  assumes "h \<in> set (gwContactChannels s)" "contact_of s h = Some c" "cc_status h = ''active''"
  shows "has_active_channel s c"
proof -
  have "ct_id c = cc_contactId h" using assms(2) find_SomeD by (fastforce simp: contact_of_def)
  then show ?thesis using assms by (auto simp: has_active_channel_def list_ex_iff)
qed

lemma row_rank:
  assumes "channel_row_ok h" "h \<in> set (gwContactChannels s)" "contact_of s h = Some c"
    "cc_policy h \<noteq> ''deny''" "cc_status h \<noteq> ''revoked''" "cc_status h \<noteq> ''blocked''"
  shows "row_standing s ty c h = (if unvouched s ty (Some (c, h)) then None
    else Some (TRUST_CLASS_RANK (resolved_class s ty (Some (c, h)))))"
  using assms has_active_self [OF assms(2,3)]
  by (auto simp: row_standing_def unvouched_def resolved_class_def guardian_identity_match_def member_class_def
      class_ranks channel_row_ok_def CHANNEL_STATUS_VALUES_def)

lemma admission_by_standing:
  assumes ok: "tables_ok s" and ch: "ch \<in> set CHANNEL_IDS" "\<not> isAdmissionPolicyExemptChannel ch"
    and id: "pluginMemberIdentity ch a = (ty, addr)" "a \<noteq> []"
    and i: "canonicalSenderIdFor ty (Some addr) = Some i"
  shows "inbound_admitted True policies E s cache
      \<lparr>im_channel = ch, im_actor = Some a, im_senderAuthenticated = None, im_isBot = isBot, im_isCallback = isCallback\<rparr> challenge =
    (case sender_standing (fst (guardianIntegrityState (re_hasActorTokens E) (re_now E) s cache)) s ty i of
       None \<Rightarrow> False | Some r \<Rightarrow> ADMISSION_FLOOR (cache_policy policies ch) \<le> r)"
proof -
  let ?M = "\<lparr>im_channel = ch, im_actor = Some a, im_senderAuthenticated = None, im_isBot = isBot, im_isCallback = isCallback\<rparr>"
  let ?p = "cache_policy policies ch" and ?m = "member_row ty (Some i) s"
  let ?v = "fst (resolveTrustVerdict E s cache ch (Some a))"
  let ?lost = "fst (guardianIntegrityState (re_hasActorTokens E) (re_now E) s cache)"
  have ne: "i \<noteq> []" using canonical_nonempty i by blast
  have adm: "inbound_admitted True policies E s cache ?M challenge \<longleftrightarrow>
      ?p \<noteq> NoOne \<and> daemon_admits True (Some ?p) (acl_params_of ?M ?v challenge)"
    using ch by (simp add: inbound_admitted_def resolveAdmissionPolicy_def inbound_verdict_def)
  obtain p k where v: "?v = (if unvouched s ty ?m then makeResolutionFailedVerdict (Some i)
     else with_member ?m (with_guardian (guardian_row ty s) p ((makeUnauthenticatedSenderVerdict (Some i))
       \<lparr>tv_trustClass := resolved_class s ty ?m, tv_resolutionFailed := ?lost \<and> resolved_class s ty ?m = ''unknown'',
        tv_hasInterceptableSession := k\<rparr>)))"
    using resolve_eq [OF ok id i] by blast
  have r5: "TRUST_CLASS_RANK c < 5" for c by (simp add: TRUST_CLASS_RANK_def)
  show ?thesis
  proof (cases ?m)
    case None
    then have st: "sender_standing ?lost s ty i = (if ?lost then None else Some 1)"
      using ne by (simp add: member_row_find sender_standing_def)
    have u: "\<not> unvouched s ty None" "resolved_class s ty None = ''unknown''"
      by (simp_all add: unvouched_def resolved_class_def member_class_def guardian_identity_match_def)
    have v': "verdictMemberFromVerdict ?v = None" "tv_trustClass ?v = ''unknown''" "tv_resolutionFailed ?v = ?lost"
      "tv_contactId ?v = None" "tv_channelId ?v = None"
      by (simp_all add: v u None with_member_def makeUnauthenticatedSenderVerdict_def verdictMemberFromVerdict_def truthy_def)
    show ?thesis
    proof (cases ?lost)
      case True
      then show ?thesis using admits_unusable v'(3) st adm by simp
    next
      case False
      then have "verdictUsability (Some ?v) = Inr ?v"
        using v' by (simp add: usable_simps verdictMemberUnresolvable_def truthy_def TRUST_CLASSES_def)
      from admits_stranger [OF this v'(1,2), of ?M] show ?thesis using adm st ch False by auto
    qed
  next
    case (Some ch')
    obtain c h where m: "?m = Some (c, h)" using Some by (cases ch') auto
    note h = member_row_mem [OF m ne]
    have hk: "channel_row_ok h" using ok h(1) by (simp add: tables_ok_def list_all_iff)
    have st: "sender_standing ?lost s ty i = row_standing s ty c h"
      using m ne by (auto simp: member_row_find sender_standing_def)
    show ?thesis
    proof (cases "unvouched s ty ?m")
      case True
      then have "row_standing s ty c h = None"
        using row_rank [OF hk h(1,2)] m by (auto simp: row_standing_def)
      moreover have "tv_resolutionFailed ?v" by (simp add: v True makeResolutionFailedVerdict_def)
      ultimately show ?thesis using admits_unusable st adm by simp
    next
      case False
      let ?w = "\<lparr>vm_contactId = cc_contactId h, vm_channelId = cc_id h, vm_status = cc_status h, vm_policy = cc_policy h,
        vm_verifiedAt = cc_verifiedAt h, vm_displayName = Some (ct_displayName c)\<rparr>"
      have v': "verdictMemberFromVerdict ?v = Some ?w" "tv_trustClass ?v = resolved_class s ty ?m"
        "tv_resolutionFailed ?v = (?lost \<and> resolved_class s ty ?m = ''unknown'')"
        using False by (simp_all add: v m member_of_verdict(2) [OF hk])
      show ?thesis
      proof (cases "tv_resolutionFailed ?v")
        case True
        then have "resolved_class s ty (Some (c, h)) = ''unknown''" using v' m by simp
        then have "cc_status h = ''revoked'' \<or> cc_status h = ''blocked''"
          using hk by (auto simp: resolved_class_def member_class_def channel_row_ok_def CHANNEL_STATUS_VALUES_def
              split: if_splits)
        then have "row_standing s ty c h = None" by (auto simp: row_standing_def)
        then show ?thesis using admits_unusable [OF True] st adm by simp
      next
        case False
        then have u: "verdictUsability (Some ?v) = Inr ?v"
          using v' resolved_class_known by (simp add: usable_simps verdictMemberUnresolvable_def)
        have cls: "tv_trustClass ?v = ''guardian'' \<or> tv_trustClass ?v = (if vm_status ?w = ''active'' then ''trusted_contact''
            else if vm_status ?w = ''unverified'' \<or> vm_status ?w = ''pending'' then ''unverified_contact'' else ''unknown'')"
          by (simp add: v'(2) m resolved_class_def member_class_def)
        show ?thesis
        proof (cases "?p = NoOne")
          case True
          then show ?thesis using adm st by (auto simp: row_standing_def)
        next
          case pol: False
          have "daemon_admits True (Some ?p) (acl_params_of ?M ?v challenge) \<longleftrightarrow>
              cc_policy h \<noteq> ''deny'' \<and> cc_status h \<noteq> ''revoked'' \<and> cc_status h \<noteq> ''blocked'' \<and>
              ADMISSION_FLOOR ?p \<le> TRUST_CLASS_RANK (tv_trustClass ?v)"
            using admits_member [OF u v'(1) _ cls, of ?M ?p challenge] hk ch pol by (simp add: channel_row_ok_def)
          then show ?thesis
            using adm pol st row_rank [OF hk h(1,2), of ty] \<open>\<not> unvouched s ty ?m\<close> v'(2) m
            by (auto simp: row_standing_def)
        qed
      qed
    qed
  qed
qed

text \<open>Only a failed authentication changes the verdict, and then the sender is judged as a stranger.\<close>

lemma admission_authenticated:
  assumes "auth \<noteq> Some False"
  shows "inbound_admitted on policies E s cache
      \<lparr>im_channel = ch, im_actor = A, im_senderAuthenticated = auth, im_isBot = isBot, im_isCallback = isCallback\<rparr> challenge =
    inbound_admitted on policies E s cache
      \<lparr>im_channel = ch, im_actor = A, im_senderAuthenticated = None, im_isBot = isBot, im_isCallback = isCallback\<rparr> challenge"
  using assms by (cases A) (simp_all add: inbound_admitted_def inbound_verdict_def acl_params_of_def)

lemma unauthenticated_is_stranger:
  assumes ch: "ch \<in> set CHANNEL_IDS" "\<not> isAdmissionPolicyExemptChannel ch"
  shows "inbound_admitted True policies E s cache
      \<lparr>im_channel = ch, im_actor = Some a, im_senderAuthenticated = Some False, im_isBot = isBot, im_isCallback = isCallback\<rparr> challenge \<longleftrightarrow>
    cache_policy policies ch = Strangers \<and> \<not> tv_resolutionFailed (fst (resolveTrustVerdict E s cache ch (Some a)))"
proof -
  let ?M = "\<lparr>im_channel = ch, im_actor = Some a, im_senderAuthenticated = Some False, im_isBot = isBot, im_isCallback = isCallback\<rparr>"
  let ?v = "inbound_verdict (Some False) (fst (resolveTrustVerdict E s cache ch (Some a)))"
  have f: "tv_resolutionFailed ?v = tv_resolutionFailed (fst (resolveTrustVerdict E s cache ch (Some a)))"
    by (simp add: inbound_verdict_def)
  have adm: "inbound_admitted True policies E s cache ?M challenge \<longleftrightarrow>
      cache_policy policies ch \<noteq> NoOne \<and> daemon_admits True (Some (cache_policy policies ch)) (acl_params_of ?M ?v challenge)"
    using ch by (simp add: inbound_admitted_def resolveAdmissionPolicy_def Let_def)
  show ?thesis
  proof (cases "tv_resolutionFailed ?v")
    case True
    then show ?thesis using admits_unusable adm f by simp
  next
    case False
    then have "verdictUsability (Some ?v) = Inr ?v" "verdictMemberFromVerdict ?v = None" "tv_trustClass ?v = ''unknown''"
      by (simp_all add: inbound_verdict_def makeUnauthenticatedSenderVerdict_def usable_simps verdictMemberUnresolvable_def
          verdictMemberFromVerdict_def truthy_def TRUST_CLASSES_def)
    from admits_stranger [OF this, of ?M "cache_policy policies ch" challenge] False f adm ch show ?thesis by auto
  qed
qed


definition admission_env :: resolver_env where
  "admission_env = \<lparr>re_hasActorTokens = True, re_sessions = [], re_now = 5\<rparr>"

definition admission_demo :: gw_contacts where
  "admission_demo = demo_contacts
     \<lparr>gwContacts := gwContacts demo_contacts @ [\<lparr>ct_id = ''b'', ct_displayName = ''Bob'', ct_role = ''contact'',
        ct_principalId = None, ct_autoApproveThreshold = None, ct_createdAt = 1, ct_updatedAt = 1\<rparr>],
      gwContactChannels := gwContactChannels demo_contacts @
        [(hd (gwContactChannels demo_contacts))\<lparr>cc_id := ''t'', cc_contactId := ''b'', cc_type := ''telegram'',
           cc_address := ''42'', cc_status := ''pending''\<rparr>]\<rparr>"

definition admission_msg :: "string \<Rightarrow> string \<Rightarrow> inbound_message" where
  "admission_msg ch a =
     \<lparr>im_channel = ch, im_actor = Some a, im_senderAuthenticated = None, im_isBot = False, im_isCallback = False\<rparr>"


end
