(* ===== verification/Contact_Channels.thy ===== *)
theory Contact_Channels
  imports Inbound_Admission
begin

text \<open>
  The writers of the gateway's contact tables: the channel operations of \<^verbatim>\<open>gateway/src/db/contact-store.ts\<close>
  (lookups, inbound seeding, ownership, status changes, attestation, revocation, contact upserts and merges) and the
  verified-channel writes of \<^verbatim>\<open>gateway/src/verification/contact-helpers.ts\<close>.

  A thrown exception is \<open>None\<close> or \<open>Inl\<close>; operations that are not one transaction also give the tables as they
  were when it was thrown. The daemon's mirror of the tables is a parameter: what it answers to a lookup. Fresh ids
  and clock readings are arguments.
\<close>

section \<open>Lookups\<close>

definition by_key :: "string \<Rightarrow> string \<Rightarrow> gw_channel \<Rightarrow> bool" where
  "by_key ty addr h \<longleftrightarrow> cc_type h = ty \<and> nocase_eq (cc_address h) addr"

definition getContact :: "string \<Rightarrow> gw_contacts \<Rightarrow> gw_contact option" where
  "getContact i s = find (\<lambda>c. ct_id c = i) (gwContacts s)"

definition getGatewayChannelByKey :: "string \<Rightarrow> string \<Rightarrow> gw_contacts \<Rightarrow> gw_channel option" where
  "getGatewayChannelByKey ty addr s = find (by_key ty addr) (gwContactChannels s)"

text \<open>Delivery chat ids are not unique: a row of the preferred contact wins, then an active one, then the first.\<close>

definition chat_score :: "string option \<Rightarrow> gw_channel \<Rightarrow> nat" where
  "chat_score preferred h =
     (if Some (cc_contactId h) = preferred then 2 else 0) + (if cc_status h = ''active'' then 1 else 0)"

definition getGatewayChannelByExternalChatId ::
    "string \<Rightarrow> string \<Rightarrow> string option \<Rightarrow> gw_contacts \<Rightarrow> gw_channel option" where
  "getGatewayChannelByExternalChatId ty chat preferred s =
     (case filter (\<lambda>h. cc_type h = ty \<and> cc_externalChatId h = Some chat) (gwContactChannels s) of
        [] \<Rightarrow> None
      | r # rs \<Rightarrow> Some (foldl (\<lambda>best h. if chat_score preferred h > chat_score preferred best then h else best) r rs))"

definition findChannelIdByAddress :: "string \<Rightarrow> string \<Rightarrow> string option \<Rightarrow> gw_contacts \<Rightarrow> string option" where
  "findChannelIdByAddress ty addr chat s =
     (case getGatewayChannelByKey ty addr s of
        Some h \<Rightarrow> Some (cc_id h)
      | None \<Rightarrow>
          (case chat of
             None \<Rightarrow> None
           | Some c \<Rightarrow>
               map_option cc_id
                 (find (\<lambda>h. cc_type h = ty \<and> cc_externalChatId h = Some c) (gwContactChannels s))))"

definition getContactByPhoneNumber :: "string \<Rightarrow> gw_contacts \<Rightarrow> (gw_contact \<times> gw_channel) option" where
  "getContactByPhoneNumber phone s =
     first_of (concat (map (\<lambda>c. map (Pair c) (filter (\<lambda>h. cc_contactId h = ct_id c \<and> by_key ''phone'' phone h \<and>
       cc_status h \<noteq> ''revoked'') (gwContactChannels s))) (gwContacts s)))"

text \<open>A channel id the daemon knows: the gateway's row of that id, or the row with the logical key the mirror gives.\<close>

definition resolveGatewayChannel :: "string \<Rightarrow> (string \<times> string) option \<Rightarrow> gw_contacts \<Rightarrow> gw_channel option" where
  "resolveGatewayChannel i mirror s =
     (case find (\<lambda>h. cc_id h = i) (gwContactChannels s) of
        Some h \<Rightarrow> Some h
      | None \<Rightarrow> (case mirror of None \<Rightarrow> None | Some (ty, addr) \<Rightarrow> getGatewayChannelByKey ty addr s))"

section \<open>Writing rows\<close>

text \<open>The primary key and the unique index on type and address.\<close>

definition index_ok :: "gw_channel list \<Rightarrow> bool" where
  "index_ok hs \<longleftrightarrow> distinct (map cc_id hs) \<and> distinct (map (\<lambda>h. (cc_type h, cc_address h)) hs)"

definition update_rows :: "(gw_channel \<Rightarrow> bool) \<Rightarrow> (gw_channel \<Rightarrow> gw_channel) \<Rightarrow> gw_contacts \<Rightarrow> gw_contacts" where
  "update_rows P f s = s\<lparr>gwContactChannels := map (\<lambda>h. if P h then f h else h) (gwContactChannels s)\<rparr>"

definition update_rows_checked ::
    "(gw_channel \<Rightarrow> bool) \<Rightarrow> (gw_channel \<Rightarrow> gw_channel) \<Rightarrow> gw_contacts \<Rightarrow> gw_contacts option" where
  "update_rows_checked P f s =
     (let s' = update_rows P f s in if index_ok (gwContactChannels s') then Some s' else None)"

text \<open>An insert with \<^verbatim>\<open>onConflictDoNothing\<close>, and whether it inserted.\<close>

definition insert_or_skip :: "gw_channel \<Rightarrow> gw_contacts \<Rightarrow> gw_contacts \<times> bool" where
  "insert_or_skip h s =
     (if index_ok (gwContactChannels s @ [h]) then (s\<lparr>gwContactChannels := gwContactChannels s @ [h]\<rparr>, True) else (s, False))"

definition plain_contact :: "string \<Rightarrow> string \<Rightarrow> string option \<Rightarrow> int \<Rightarrow> gw_contact" where
  "plain_contact i name threshold now =
     \<lparr>ct_id = i, ct_displayName = name, ct_role = ''contact'', ct_principalId = None, ct_autoApproveThreshold = threshold,
      ct_createdAt = now, ct_updatedAt = now\<rparr>"

definition fresh_channel :: "string \<Rightarrow> string \<Rightarrow> string \<Rightarrow> string \<Rightarrow> int \<Rightarrow> gw_channel" where
  "fresh_channel i contactId ty addr now =
     \<lparr>cc_id = i, cc_contactId = contactId, cc_type = ty, cc_address = addr, cc_isPrimary = False, cc_externalChatId = None,
      cc_status = ''unverified'', cc_policy = ''allow'', cc_verifiedAt = None, cc_verifiedVia = None,
      cc_revokedReason = None, cc_blockedReason = None, cc_inviteId = None, cc_lastSeenAt = None,
      cc_interactionCount = 0, cc_lastInteraction = None, cc_createdAt = now, cc_updatedAt = Some now\<rparr>"

definition ensureContactRow :: "string \<Rightarrow> string \<Rightarrow> int \<Rightarrow> gw_contacts \<Rightarrow> gw_contacts" where
  "ensureContactRow i name now s =
     (if i \<in> ct_id ` set (gwContacts s) then s
      else s\<lparr>gwContacts := gwContacts s @ [plain_contact i name None now]\<rparr>)"

section \<open>Inbound seeding and ownership\<close>

datatype seed_result = SeedBlocked | SeedExisting string string | SeedCreated string string

record seed_params =
  sd_type :: string
  sd_address :: string
  sd_externalChatId :: "string option"
  sd_displayName :: string

definition refresh_identity :: "seed_params \<Rightarrow> int \<Rightarrow> gw_channel \<Rightarrow> gw_channel" where
  "refresh_identity p now h =
     h\<lparr>cc_address := sd_address p,
       cc_externalChatId := (if truthy (sd_externalChatId p) then sd_externalChatId p else cc_externalChatId h),
       cc_updatedAt := Some now\<rparr>"

definition seed_existing :: "seed_params \<Rightarrow> int \<Rightarrow> gw_channel \<Rightarrow> gw_contacts \<Rightarrow> (gw_contacts \<times> seed_result) option" where
  "seed_existing p now e s =
     (if cc_status e = ''blocked'' then Some (s, SeedBlocked)
      else map_option (\<lambda>s'. (s', SeedExisting (cc_contactId e) (cc_id e)))
             (update_rows_checked (\<lambda>h. cc_id h = cc_id e) (refresh_identity p now) s))"

definition seedInboundChannel ::
    "seed_params \<Rightarrow> string \<Rightarrow> string \<Rightarrow> int \<Rightarrow> gw_contacts \<Rightarrow> (gw_contacts \<times> seed_result) option" where
  "seedInboundChannel p freshContact freshChannel now s =
     (case getGatewayChannelByKey (sd_type p) (sd_address p) s of
        Some e \<Rightarrow> seed_existing p now e s
      | None \<Rightarrow>
          if freshContact \<in> ct_id ` set (gwContacts s) then None
          else
            (let s1 = s\<lparr>gwContacts := gwContacts s @ [plain_contact freshContact (sd_displayName p) None now]\<rparr>;
                 (s2, inserted) = insert_or_skip ((fresh_channel freshChannel freshContact (sd_type p) (sd_address p) now)
                   \<lparr>cc_externalChatId := sd_externalChatId p\<rparr>) s1
             in if inserted then Some (s2, SeedCreated freshContact freshChannel)
                else (case getGatewayChannelByKey (sd_type p) (sd_address p) s of
                        None \<Rightarrow> Some (s, SeedBlocked)
                      | Some r \<Rightarrow> seed_existing p now r s)))"

text \<open>\<^verbatim>\<open>upsertContactChannel\<close> up to the mirror.\<close>

definition upsertContactChannel ::
    "string \<Rightarrow> string \<Rightarrow> string option \<Rightarrow> string option \<Rightarrow> string option \<Rightarrow> string \<Rightarrow> string \<Rightarrow> int \<Rightarrow> gw_contacts \<Rightarrow>
     (gw_contacts \<times> seed_result) option" where
  "upsertContactChannel ch user chat displayName username freshContact freshChannel now s =
     (let addr = canonical_address ch user;
          name = (case displayName of Some n \<Rightarrow> n | None \<Rightarrow> (case username of Some n \<Rightarrow> n | None \<Rightarrow> addr))
      in seedInboundChannel \<lparr>sd_type = ch, sd_address = addr, sd_externalChatId = chat, sd_displayName = name\<rparr>
           freshContact freshChannel now s)"

text \<open>Moves the channel to a contact, which is created when missing. The result names the previous owner.\<close>

definition reassignChannelOwner ::
    "string \<Rightarrow> string \<Rightarrow> string \<Rightarrow> string \<Rightarrow> int \<Rightarrow> gw_contacts \<Rightarrow> gw_contacts \<times> string option" where
  "reassignChannelOwner ty addr to name now s =
     (let s1 = ensureContactRow to name now s
      in case getGatewayChannelByKey ty addr s1 of
           None \<Rightarrow> (s1, None)
         | Some h \<Rightarrow>
             if cc_contactId h = to then (s1, None)
             else (update_rows (by_key ty addr) (\<lambda>h. h\<lparr>cc_contactId := to, cc_updatedAt := Some now\<rparr>) s1,
                   Some (cc_contactId h)))"

section \<open>Verified channels\<close>

record verified_write =
  vw_channelId :: string
  vw_contactId :: string
  vw_type :: string
  vw_address :: string
  vw_externalChatId :: string
  vw_verifiedVia :: string
  vw_now :: int
  vw_verifiedAt :: "int option"
  vw_allowRevoked :: bool

definition reactivatable :: "bool \<Rightarrow> gw_channel \<Rightarrow> bool" where
  "reactivatable allowRevoked h \<longleftrightarrow> cc_status h \<noteq> ''blocked'' \<and> (allowRevoked \<or> cc_status h \<noteq> ''revoked'')"

definition verified_set :: "verified_write \<Rightarrow> gw_channel \<Rightarrow> gw_channel" where
  "verified_set w h =
     h\<lparr>cc_status := ''active'', cc_policy := ''allow'', cc_address := vw_address w,
       cc_externalChatId := Some (vw_externalChatId w),
       cc_verifiedAt := Some (case vw_verifiedAt w of Some t \<Rightarrow> t | None \<Rightarrow> vw_now w),
       cc_verifiedVia := Some (vw_verifiedVia w), cc_revokedReason := None, cc_blockedReason := None,
       cc_updatedAt := Some (vw_now w)\<rparr>"

text \<open>By the daemon's id, else by the logical key, else inserted. \<open>None\<close> is an exception, of the update or none.\<close>

definition writeVerifiedGatewayChannel :: "verified_write \<Rightarrow> gw_contacts \<Rightarrow> gw_contacts \<times> bool option" where
  "writeVerifiedGatewayChannel w s =
     (let ok = reactivatable (vw_allowRevoked w);
          byId = (\<lambda>h. cc_id h = vw_channelId w \<and> ok h);
          byKey = (\<lambda>h. by_key (vw_type w) (vw_address w) h \<and> ok h);
          write = (\<lambda>P. case update_rows_checked P (verified_set w) s of None \<Rightarrow> (s, None) | Some s' \<Rightarrow> (s', Some True))
      in if list_ex byId (gwContactChannels s) then write byId
         else if list_ex byKey (gwContactChannels s) then write byKey
         else (let (s', inserted) = insert_or_skip
                     (verified_set w (fresh_channel (vw_channelId w) (vw_contactId w) (vw_type w) (vw_address w) (vw_now w)))
                     (ensureContactRow (vw_contactId w) (vw_address w) (vw_now w) s)
               in (s', Some inserted)))"

record verify_params =
  vp_sourceChannel :: string
  vp_externalUserId :: string
  vp_externalChatId :: string
  vp_displayName :: "string option"
  vp_username :: "string option"
  vp_verifiedVia :: "string option"
  vp_contactId :: "string option"
  vp_allowRevoked :: bool

record mirror_plan =
  mp_contactId :: string
  mp_channelId :: "string option"
  mp_type :: string
  mp_address :: string
  mp_externalChatId :: string
  mp_displayName :: string
  mp_reassign :: bool
  mp_orphan :: "string option"

datatype verified_result = NotVerified | Verified mirror_plan

definition param_name :: "verify_params \<Rightarrow> string \<Rightarrow> string" where
  "param_name p addr =
     (case vp_displayName p of Some n \<Rightarrow> n | None \<Rightarrow> (case vp_username p of Some n \<Rightarrow> n | None \<Rightarrow> addr))"

text \<open>The provenance and time to record: a stronger proof on an active row is kept.\<close>

definition effective_proof :: "string \<Rightarrow> gw_channel option \<Rightarrow> string \<times> int option" where
  "effective_proof via row =
     (case row of
        Some h \<Rightarrow>
          if cc_status h = ''active'' \<and> isBindingDemotion (cc_verifiedVia h) (Some via)
          then (case cc_verifiedVia h of Some v \<Rightarrow> v | None \<Rightarrow> via, cc_verifiedAt h)
          else (via, None)
      | None \<Rightarrow> (via, None))"

text \<open>\<open>mirror\<close> is the daemon's row for the key: channel id and contact.\<close>

definition applyVerifiedChannelGatewayWrites ::
    "verify_params \<Rightarrow> (string \<times> string) option \<Rightarrow> string \<Rightarrow> string \<Rightarrow> int \<Rightarrow> gw_contacts \<Rightarrow>
     gw_contacts \<times> verified_result option" where
  "applyVerifiedChannelGatewayWrites p mirror freshContact freshChannel now s =
     (let via = (case vp_verifiedVia p of Some v \<Rightarrow> v | None \<Rightarrow> ''challenge'');
          ty = vp_sourceChannel p;
          addr = canonical_address ty (vp_externalUserId p);
          name = param_name p addr;
          row = getGatewayChannelByKey ty addr s;
          (via', at') = effective_proof via row;
          plan = (\<lambda>c i re orphan. \<lparr>mp_contactId = c, mp_channelId = i, mp_type = ty, mp_address = addr,
             mp_externalChatId = vp_externalChatId p, mp_displayName = name, mp_reassign = re,
             mp_orphan = (if truthy orphan then orphan else None)\<rparr>);
          w = (\<lambda>i c. \<lparr>vw_channelId = i, vw_contactId = c, vw_type = ty, vw_address = addr,
             vw_externalChatId = vp_externalChatId p, vw_verifiedVia = via', vw_now = now, vw_verifiedAt = at',
             vw_allowRevoked = vp_allowRevoked p\<rparr>);
          finish = (\<lambda>pl (s', wrote). (s', map_option (\<lambda>ok. if ok then Verified pl else NotVerified) wrote))
      in if (case row of Some h \<Rightarrow> \<not> reactivatable (vp_allowRevoked p) h | None \<Rightarrow> False) then (s, Some NotVerified)
         else
           (case mirror of
              Some (channelId, owner) \<Rightarrow>
                (let bound = (if truthy (vp_contactId p) then the (vp_contactId p) else owner);
                     moved = (bound \<noteq> owner);
                     (s1, donor) = (if moved then reassignChannelOwner ty addr bound name now s else (s, None));
                     orphan = (if moved then (case donor of Some d \<Rightarrow> Some d | None \<Rightarrow> Some owner) else None)
                 in finish (plan bound None moved orphan) (writeVerifiedGatewayChannel (w channelId bound) s1))
            | None \<Rightarrow>
                (let contact = (case vp_contactId p of Some c \<Rightarrow> c | None \<Rightarrow> freshContact);
                     moved = truthy (vp_contactId p);
                     (s1, donor) = (if moved then reassignChannelOwner ty addr contact name now s
                                    else (ensureContactRow contact name now s, None))
                 in finish (plan contact (Some freshChannel) moved donor)
                      (writeVerifiedGatewayChannel (w freshChannel contact) s1))))"

section \<open>Status changes\<close>

datatype store_error = CannotRevokeBlockedError | CannotDowngradeGuardianError | MergeContactsError

definition channel_by_id :: "string \<Rightarrow> gw_contacts \<Rightarrow> gw_channel option" where
  "channel_by_id i s = find (\<lambda>h. cc_id h = i) (gwContactChannels s)"

text \<open>The guardian's explicit status or policy. \<open>g\<close> is the row as resolved, before the daemon was awaited.\<close>

definition status_set :: "string option \<Rightarrow> string option \<Rightarrow> string option \<Rightarrow> int \<Rightarrow> gw_channel \<Rightarrow> gw_channel" where
  "status_set st policy reason now h =
     (let h1 = h\<lparr>cc_updatedAt := Some now\<rparr>;
          h2 = (case st of
             None \<Rightarrow> h1
           | Some x \<Rightarrow> h1\<lparr>cc_status := x, cc_revokedReason := (if x = ''revoked'' then reason else None),
                          cc_blockedReason := (if x = ''blocked'' then reason else None)\<rparr>)
      in case policy of None \<Rightarrow> h2 | Some q \<Rightarrow> h2\<lparr>cc_policy := q\<rparr>)"

definition updateChannelStatus ::
    "gw_channel option \<Rightarrow> string option \<Rightarrow> string option \<Rightarrow> string option \<Rightarrow> int \<Rightarrow> gw_contacts \<Rightarrow>
     store_error + gw_contacts \<times> gw_channel option" where
  "updateChannelStatus row st policy reason now s =
     (case row of
        None \<Rightarrow> Inr (s, None)
      | Some g \<Rightarrow>
          if st = Some ''revoked'' \<and> cc_status g = ''blocked'' then Inl CannotRevokeBlockedError
          else (let s' = update_rows (\<lambda>h. cc_id h = cc_id g) (status_set st policy reason now) s
                in Inr (s', channel_by_id (cc_id g) s')))"

definition markChannelVerified ::
    "gw_channel option \<Rightarrow> string \<Rightarrow> int \<Rightarrow> gw_contacts \<Rightarrow> gw_contacts \<times> (gw_channel \<times> bool) option" where
  "markChannelVerified row via now s =
     (case row of
        None \<Rightarrow> (s, None)
      | Some g \<Rightarrow>
          if cc_status g = ''active'' \<and> isBindingDemotion (cc_verifiedVia g) (Some via) then (s, Some (g, False))
          else
            (let hit = (\<lambda>h. cc_id h = cc_id g \<and> (cc_status h \<noteq> ''active'' \<or> cc_verifiedVia h \<noteq> Some via));
                 s' = update_rows hit (\<lambda>h. h\<lparr>cc_status := ''active'', cc_verifiedAt := Some now,
                        cc_verifiedVia := Some via, cc_updatedAt := Some now\<rparr>) s
             in (s', map_option (\<lambda>h. (h, list_ex hit (gwContactChannels s))) (channel_by_id (cc_id g) s'))))"

definition GUARDIAN_BINDING_REVOKE_REASON :: string where
  "GUARDIAN_BINDING_REVOKE_REASON = ''guardian_binding_revoked''"

definition markChannelRevokedById ::
    "string \<Rightarrow> string option \<Rightarrow> int \<Rightarrow> gw_contacts \<Rightarrow> store_error + gw_contacts \<times> (gw_channel \<times> bool) option" where
  "markChannelRevokedById i reason now s =
     (case channel_by_id i s of
        None \<Rightarrow> Inr (s, None)
      | Some h \<Rightarrow>
          if map_option ct_role (getContact (cc_contactId h) s) = Some ''guardian'' \<and>
             reason \<noteq> Some GUARDIAN_BINDING_REVOKE_REASON
          then Inl CannotDowngradeGuardianError
          else if cc_status h = ''blocked'' then Inr (s, Some (h, False))
          else if cc_status h = ''revoked'' \<and> cc_revokedReason h = reason then Inr (s, Some (h, False))
          else
            (let s' = update_rows (\<lambda>x. cc_id x = i) (\<lambda>x. x\<lparr>cc_status := ''revoked'', cc_revokedReason := reason,
                        cc_blockedReason := None, cc_updatedAt := Some now\<rparr>) s
             in Inr (s', map_option (\<lambda>x. (x, True)) (channel_by_id i s'))))"

definition touchChannelLastSeen :: "string \<Rightarrow> int \<Rightarrow> gw_contacts \<Rightarrow> gw_contacts" where
  "touchChannelLastSeen i now =
     update_rows (\<lambda>h. cc_id h = i) (\<lambda>h. h\<lparr>cc_lastSeenAt := Some now, cc_updatedAt := Some now\<rparr>)"

definition touchContactInteraction :: "string \<Rightarrow> int \<Rightarrow> gw_contacts \<Rightarrow> gw_contacts" where
  "touchContactInteraction i now =
     update_rows (\<lambda>h. cc_id h = i) (\<lambda>h. h\<lparr>cc_lastInteraction := Some now,
       cc_interactionCount := cc_interactionCount h + 1, cc_updatedAt := Some now\<rparr>)"

section \<open>Contact upserts\<close>

text \<open>The channels of an upsert. An omitted field is \<open>None\<close>; a field that may be null is an option of an option.\<close>

record channel_input =
  ci_id :: "string option"
  ci_type :: string
  ci_address :: string
  ci_isPrimary :: "bool option"
  ci_externalChatId :: "string option"
  ci_status :: "string option"
  ci_policy :: "string option"
  ci_verifiedAt :: "int option option"
  ci_verifiedVia :: "string option option"
  ci_inviteId :: "string option option"
  ci_revokedReason :: "string option option"
  ci_blockedReason :: "string option option"

definition given :: "'a option \<Rightarrow> 'a \<Rightarrow> 'a" where
  "given v old = (case v of Some x \<Rightarrow> x | None \<Rightarrow> old)"

definition sync_set :: "channel_input \<Rightarrow> int \<Rightarrow> gw_channel \<Rightarrow> gw_channel" where
  "sync_set ch now h =
     (let h1 = h\<lparr>cc_updatedAt := Some now, cc_isPrimary := given (ci_isPrimary ch) (cc_isPrimary h),
                cc_externalChatId := (if ci_externalChatId ch \<noteq> None then ci_externalChatId ch else cc_externalChatId h),
                cc_inviteId := given (ci_inviteId ch) (cc_inviteId h)\<rparr>;
          h2 = (if cc_status h = ''blocked'' then h1
                else h1\<lparr>cc_status := given (ci_status ch) (cc_status h), cc_policy := given (ci_policy ch) (cc_policy h),
                        cc_revokedReason := given (ci_revokedReason ch) (cc_revokedReason h),
                        cc_blockedReason := given (ci_blockedReason ch) (cc_blockedReason h)\<rparr>)
      in if cc_status h = ''active'' \<and>
            (case ci_verifiedVia ch of Some via \<Rightarrow> isBindingDemotion (cc_verifiedVia h) via | None \<Rightarrow> False)
         then h2
         else h2\<lparr>cc_verifiedAt := given (ci_verifiedAt ch) (cc_verifiedAt h),
                 cc_verifiedVia := given (ci_verifiedVia ch) (cc_verifiedVia h)\<rparr>)"

definition sync_new :: "string \<Rightarrow> channel_input \<Rightarrow> string \<Rightarrow> int \<Rightarrow> gw_channel" where
  "sync_new contactId ch freshChannel now =
     (fresh_channel (given (ci_id ch) freshChannel) contactId (ci_type ch) (ci_address ch) now)
       \<lparr>cc_isPrimary := given (ci_isPrimary ch) False, cc_externalChatId := ci_externalChatId ch,
        cc_status := given (ci_status ch) ''unverified'', cc_policy := given (ci_policy ch) ''allow'',
        cc_verifiedAt := given (ci_verifiedAt ch) None, cc_verifiedVia := given (ci_verifiedVia ch) None,
        cc_inviteId := given (ci_inviteId ch) None, cc_revokedReason := given (ci_revokedReason ch) None,
        cc_blockedReason := given (ci_blockedReason ch) None\<rparr>"

text \<open>One channel; \<open>None\<close> is the exception of the insert.\<close>

definition sync_one :: "string \<Rightarrow> channel_input \<Rightarrow> string \<Rightarrow> int \<Rightarrow> gw_contacts \<Rightarrow> gw_contacts option" where
  "sync_one contactId ch freshChannel now s =
     (case find (\<lambda>h. cc_contactId h = contactId \<and> by_key (ci_type ch) (ci_address ch) h) (gwContactChannels s) of
        Some e \<Rightarrow> Some (update_rows (\<lambda>h. cc_id h = cc_id e) (sync_set ch now) s)
      | None \<Rightarrow>
          if getGatewayChannelByKey (ci_type ch) (ci_address ch) s \<noteq> None then Some s
          else (let (s', inserted) = insert_or_skip (sync_new contactId ch freshChannel now) s
                in if inserted then Some s' else None))"

text \<open>The channels in turn with the fresh ids; the flag is whether an insert threw.\<close>

fun syncChannels :: "string \<Rightarrow> channel_input list \<Rightarrow> (nat \<Rightarrow> string) \<Rightarrow> int \<Rightarrow> gw_contacts \<Rightarrow> gw_contacts \<times> bool" where
  "syncChannels contactId [] ids now s = (s, False)"
| "syncChannels contactId (ch # chs) ids now s =
     (case sync_one contactId ch (ids 0) now s of
        None \<Rightarrow> (s, True)
      | Some s' \<Rightarrow> syncChannels contactId chs (\<lambda>n. ids (Suc n)) now s')"

record upsert_params =
  up_id :: "string option"
  up_displayName :: "string option"
  up_autoApproveThreshold :: "string option option"
  up_channels :: "channel_input list option"

definition update_contact :: "upsert_params \<Rightarrow> int \<Rightarrow> string \<Rightarrow> gw_contacts \<Rightarrow> gw_contacts" where
  "update_contact p now i s =
     s\<lparr>gwContacts := map (\<lambda>c. if ct_id c = i
         then c\<lparr>ct_displayName := given (up_displayName p) (ct_displayName c),
                ct_autoApproveThreshold := given (up_autoApproveThreshold p) (ct_autoApproveThreshold c),
                ct_updatedAt := now\<rparr> else c) (gwContacts s)\<rparr>"

definition canonical_channels :: "upsert_params \<Rightarrow> channel_input list" where
  "canonical_channels p =
     (case up_channels p of
        None \<Rightarrow> []
      | Some chs \<Rightarrow> map (\<lambda>ch. ch\<lparr>ci_address := canonical_address (ci_type ch) (ci_address ch)\<rparr>) chs)"

text \<open>The contact by its id, else by one of its channels, else a new one; then its channels. The result names the
  contact, whether it was created, and whether the channel sync threw.\<close>

definition upsertContactGatewayWrites ::
    "upsert_params \<Rightarrow> string \<Rightarrow> (nat \<Rightarrow> string) \<Rightarrow> int \<Rightarrow> gw_contacts \<Rightarrow> gw_contacts \<times> string \<times> bool \<times> bool" where
  "upsertContactGatewayWrites p freshContact ids now s =
     (let chs = canonical_channels p;
          name = (case up_displayName p of Some n \<Rightarrow> n
                  | None \<Rightarrow> (case chs of [] \<Rightarrow> ''Unknown'' | ch # _ \<Rightarrow> ci_address ch));
          insert = (\<lambda>i. s\<lparr>gwContacts := gwContacts s @ [plain_contact i name (given (up_autoApproveThreshold p) None) now]\<rparr>);
          (s1, contactId, created) =
            (if truthy (up_id p)
             then (let i = the (up_id p)
                   in if getContact i s \<noteq> None then (update_contact p now i s, i, False) else (insert i, i, True))
             else (case List.map_filter (\<lambda>ch. getGatewayChannelByKey (ci_type ch) (ci_address ch) s) chs of
                     h # _ \<Rightarrow> (update_contact p now (cc_contactId h) s, cc_contactId h, False)
                   | [] \<Rightarrow> (insert freshContact, freshContact, True)));
          (s2, threw) = syncChannels contactId chs ids now s1
      in (s2, contactId, created, threw))"

section \<open>Removing contacts\<close>

text \<open>Deleting a contact cascades to its channels.\<close>

definition delete_contact :: "string \<Rightarrow> gw_contacts \<Rightarrow> gw_contacts" where
  "delete_contact i s =
     \<lparr>gwContacts = filter (\<lambda>c. ct_id c \<noteq> i) (gwContacts s),
      gwContactChannels = filter (\<lambda>h. cc_contactId h \<noteq> i) (gwContactChannels s)\<rparr>"

text \<open>One channel of the contact that is merged away: moved unless the survivor has its key.\<close>

definition merge_move :: "string \<Rightarrow> int \<Rightarrow> gw_contacts \<Rightarrow> gw_channel \<Rightarrow> gw_contacts" where
  "merge_move keepId now s ch =
     (if list_ex (\<lambda>h. cc_contactId h = keepId \<and> by_key (cc_type ch) (cc_address ch) h) (gwContactChannels s) then s
      else update_rows (\<lambda>h. cc_id h = cc_id ch) (\<lambda>h. h\<lparr>cc_contactId := keepId, cc_updatedAt := Some now\<rparr>) s)"

definition mergeContacts :: "string \<Rightarrow> string \<Rightarrow> int \<Rightarrow> gw_contacts \<Rightarrow> store_error + gw_contacts" where
  "mergeContacts keepId mergeId now s =
     (if keepId = mergeId then Inl MergeContactsError
      else (case (getContact keepId s, getContact mergeId s) of
              (Some k, Some m) \<Rightarrow>
                if ct_role m = ''guardian'' then Inl MergeContactsError
                else
                  (let s1 = s\<lparr>gwContacts := map (\<lambda>c. if ct_id c = keepId then c\<lparr>ct_updatedAt := now\<rparr> else c) (gwContacts s)\<rparr>;
                       donors = filter (\<lambda>h. cc_contactId h = mergeId) (gwContactChannels s)
                   in Inr (delete_contact mergeId (foldl (merge_move keepId now) s1 donors)))
            | _ \<Rightarrow> Inl MergeContactsError))"

text \<open>The guarded delete of \<^verbatim>\<open>deleteContactIfOrphaned\<close>. \<open>invited\<close> is whether an invite targets the contact.\<close>

definition orphaned :: "bool \<Rightarrow> string \<Rightarrow> gw_contacts \<Rightarrow> bool" where
  "orphaned invited i s \<longleftrightarrow>
     list_ex (\<lambda>c. ct_id c = i \<and> ct_role c = ''contact'' \<and> ct_principalId c = None \<and> ct_autoApproveThreshold c = None)
       (gwContacts s) \<and>
     \<not> list_ex (\<lambda>h. cc_contactId h = i) (gwContactChannels s) \<and> \<not> invited"

text \<open>What the daemon answers about its mirror: \<open>None\<close> when it is not reachable, \<open>Some None\<close> when the probe fails.\<close>

record mirror_probe =
  mb_exists :: bool
  mb_hasChannels :: bool
  mb_notes :: "string option"
  mb_userFile :: "string option"
  mb_contactType :: "string option"
  mb_hasMetadata :: bool

definition mirror_vetoes :: "mirror_probe option option \<Rightarrow> bool" where
  "mirror_vetoes probe =
     (case probe of
        None \<Rightarrow> False
      | Some None \<Rightarrow> True
      | Some (Some b) \<Rightarrow>
          mb_hasChannels b \<or>
          mb_exists b \<and>
            ((case mb_notes b of Some n \<Rightarrow> js_trim n \<noteq> [] | None \<Rightarrow> False) \<or>
             (case mb_userFile b of Some n \<Rightarrow> js_trim n \<noteq> [] | None \<Rightarrow> False) \<or>
             mb_contactType b \<noteq> Some ''human'' \<or> mb_hasMetadata b))"

text \<open>\<open>others\<close> is what happens to the tables while the probe is awaited.\<close>

definition deleteContactIfOrphaned ::
    "string \<Rightarrow> (gw_contacts \<Rightarrow> bool) \<Rightarrow> mirror_probe option option \<Rightarrow> (gw_contacts \<Rightarrow> gw_contacts) \<Rightarrow> gw_contacts \<Rightarrow>
     gw_contacts \<times> bool" where
  "deleteContactIfOrphaned i invited probe others s =
     (if \<not> orphaned (invited s) i s then (s, False)
      else (let s1 = others s
            in if mirror_vetoes probe then (s1, False)
               else if orphaned (invited s1) i s1 then (delete_contact i s1, True) else (s1, False)))"

end
