(* ===== verification/Rate_Limits.thy ===== *)
theory Rate_Limits
  imports Prelude
begin

text \<open>
  The gateway's limiters: authentication failures per IP (\<^verbatim>\<open>gateway/src/auth-rate-limiter.ts\<close>),
  rejection notices per recipient (\<^verbatim>\<open>rejection-rate-limiter.ts\<close>) and verification attempts
  per actor with a lockout (\<^verbatim>\<open>verification/rate-limit-helpers.ts\<close>, whose row update is one
  SQL statement). Each operation gets the clock reading it makes; the JSON column of timestamps is
  the list of them.
\<close>

section \<open>Authentication failures\<close>

definition DEFAULT_MAX_FAILURES :: nat where
  "DEFAULT_MAX_FAILURES = 10"

definition DEFAULT_WINDOW_MS :: int where
  "DEFAULT_WINDOW_MS = 60000"

definition MAX_TRACKED_IPS :: nat where
  "MAX_TRACKED_IPS = 50000"

record auth_limiter =
  failures :: "(string, int list) js_map"
  maxFailures :: nat
  windowMs :: int

definition new_auth_limiter :: "nat \<Rightarrow> int \<Rightarrow> auth_limiter" where
  "new_auth_limiter m w = \<lparr>failures = [], maxFailures = m, windowMs = w\<rparr>"

text \<open>Shift expired timestamps off the front.\<close>

definition drop_expired :: "int \<Rightarrow> int list \<Rightarrow> int list" where
  "drop_expired cutoff ts = dropWhile (\<lambda>t. t \<le> cutoff) ts"

definition evictStale :: "int \<Rightarrow> auth_limiter \<Rightarrow> auth_limiter" where
  "evictStale now l =
     (let cutoff = now - windowMs l
      in l\<lparr>failures := filter (\<lambda>e. snd e \<noteq> [])
             (map (\<lambda>e. (fst e, drop_expired cutoff (snd e))) (failures l))\<rparr>)"

definition recordFailure :: "string \<Rightarrow> int \<Rightarrow> auth_limiter \<Rightarrow> auth_limiter" where
  "recordFailure ip now l =
     (case js_get (failures l) ip of
        Some ts \<Rightarrow> l\<lparr>failures := js_set ip (ts @ [now]) (failures l)\<rparr>
      | None \<Rightarrow>
          (let l1 = (if length (failures l) \<ge> MAX_TRACKED_IPS then evictStale now l else l);
               l2 = (if length (failures l) \<ge> MAX_TRACKED_IPS \<and> length (failures l1) \<ge> MAX_TRACKED_IPS
                     then l1\<lparr>failures := js_drop_oldest (failures l1)\<rparr> else l1)
           in l2\<lparr>failures := js_set ip [now] (failures l2)\<rparr>))"

definition isBlocked :: "string \<Rightarrow> int \<Rightarrow> auth_limiter \<Rightarrow> auth_limiter \<times> bool" where
  "isBlocked ip now l =
     (case js_get (failures l) ip of
        None \<Rightarrow> (l, False)
      | Some ts \<Rightarrow>
          (let ts' = drop_expired (now - windowMs l) ts in
           if ts' = [] then (l\<lparr>failures := js_delete ip (failures l)\<rparr>, False)
           else (l\<lparr>failures := js_set ip ts' (failures l)\<rparr>, maxFailures l \<le> length ts')))"

definition clearIp :: "string \<Rightarrow> auth_limiter \<Rightarrow> auth_limiter" where
  "clearIp ip l = l\<lparr>failures := js_delete ip (failures l)\<rparr>"

text \<open>The hard cap would drop a tracked IP: the map is full even after the stale entries went.\<close>

definition at_hard_cap :: "string \<Rightarrow> int \<Rightarrow> auth_limiter \<Rightarrow> bool" where
  "at_hard_cap ip now l \<longleftrightarrow> js_get (failures l) ip = None \<and> length (failures l) \<ge> MAX_TRACKED_IPS
     \<and> length (failures (evictStale now l)) \<ge> MAX_TRACKED_IPS"

text \<open>The tracked IP the hard cap drops: the one that has been in the map longest.\<close>

definition oldest_ip :: "int \<Rightarrow> auth_limiter \<Rightarrow> string" where
  "oldest_ip now l = fst (hd (failures (evictStale now l)))"

subsection \<open>Specification: all failures since the last success\<close>

text \<open>
  The specification keeps every failure time of every IP since it was last cleared, or dropped by the
  hard cap, which forgets the oldest IP when a new one fails and as many others as the limiter can
  hold have failures in the window. A run pairs the limiter with that history under a clock that does
  not go back.
\<close>

inductive auth_run :: "auth_limiter \<Rightarrow> (string \<Rightarrow> int list) \<Rightarrow> int \<Rightarrow> bool" where
  auth_start: "auth_run (new_auth_limiter m w) (\<lambda>_. []) t0"
| auth_failure: "auth_run l h t \<Longrightarrow> t \<le> now \<Longrightarrow> \<not> at_hard_cap ip now l \<Longrightarrow>
    auth_run (recordFailure ip now l) (h(ip := h ip @ [now])) now"
| auth_failure_at_cap: "auth_run l h t \<Longrightarrow> t \<le> now \<Longrightarrow> at_hard_cap ip now l \<Longrightarrow>
    auth_run (recordFailure ip now l) (h(oldest_ip now l := [], ip := h ip @ [now])) now"
| auth_check: "auth_run l h t \<Longrightarrow> t \<le> now \<Longrightarrow> auth_run (fst (isBlocked ip now l)) h now"
| auth_clear: "auth_run l h t \<Longrightarrow> auth_run (clearIp ip l) (h(ip := [])) t"

definition in_window :: "auth_limiter \<Rightarrow> int \<Rightarrow> int list \<Rightarrow> int list" where
  "in_window l now ts = filter (\<lambda>t. now - windowMs l < t) ts"

definition times_of :: "auth_limiter \<Rightarrow> string \<Rightarrow> int list" where
  "times_of l ip = (case js_get (failures l) ip of None \<Rightarrow> [] | Some ts \<Rightarrow> ts)"

definition tracks :: "auth_limiter \<Rightarrow> (string \<Rightarrow> int list) \<Rightarrow> int \<Rightarrow> bool" where
  "tracks l h t \<longleftrightarrow> wf_map (failures l) \<and>
     (\<forall>ip. sorted (times_of l ip) \<and> (\<forall>x \<in> set (times_of l ip). x \<le> t)
        \<and> in_window l t (times_of l ip) = in_window l t (h ip))"

lemma drop_expired_sorted: "sorted ts \<Longrightarrow> drop_expired c ts = filter (\<lambda>t. c < t) ts"
proof (induction ts)
  case (Cons x ts)
  show ?case
  proof (cases "x \<le> c")
    case True
    then show ?thesis using Cons by (simp add: drop_expired_def)
  next
    case False
    then have "\<forall>t \<in> set (x # ts). c < t" using Cons.prems by auto
    then show ?thesis using False by (simp add: drop_expired_def)
  qed
qed (simp add: drop_expired_def)

lemma in_window_later: "t \<le> now \<Longrightarrow> in_window l now (in_window l t ts) = in_window l now ts"
  by (auto simp: in_window_def intro!: filter_cong)

lemma in_window_idem [simp]: "in_window l now (in_window l now ts) = in_window l now ts"
  by (simp add: in_window_def)

lemma sorted_in_window: "sorted ts \<Longrightarrow> sorted (in_window l now ts)"
  by (simp add: in_window_def sorted_filter [of id, simplified])

lemma set_in_window: "set (in_window l now ts) \<subseteq> set ts"
  by (auto simp: in_window_def)

lemma length_drop_oldest_less:
  assumes "length m \<le> n" "0 < n"
  shows "length (js_drop_oldest m) < n"
proof (cases "m = []")
  case False
  then show ?thesis using length_drop_oldest [OF False] assms(1) by linarith
qed (simp add: js_drop_oldest_def assms(2))

lemma windowMs_ops [simp]:
  "windowMs (recordFailure ip now l) = windowMs l" "windowMs (fst (isBlocked ip now l)) = windowMs l"
  "windowMs (clearIp ip l) = windowMs l" "windowMs (evictStale now l) = windowMs l"
  by (auto simp: recordFailure_def isBlocked_def clearIp_def evictStale_def Let_def split: option.splits)

lemma in_window_ops:
  "windowMs l' = windowMs l \<Longrightarrow> in_window l' now ts = in_window l now ts"
  by (simp add: in_window_def)

lemma tracks_later:
  assumes "tracks l h t" "t \<le> now"
  shows "tracks l h now"
proof -
  have "in_window l now (times_of l ip) = in_window l now (h ip)" for ip
    using assms in_window_later [OF assms(2), of l "times_of l ip"] in_window_later [OF assms(2), of l "h ip"]
    by (simp add: tracks_def)
  then show ?thesis using assms unfolding tracks_def by fastforce
qed

lemma js_get_map_values:
  "js_get (map (\<lambda>e. (fst e, f (snd e))) m) k = map_option f (js_get m k)"
  by (induction m) (auto simp: js_get_def)

lemma evictStale_tracks:
  assumes "tracks l h now"
  shows "tracks (evictStale now l) h now"
proof -
  let ?c = "now - windowMs l"
  let ?m = "map (\<lambda>e. (fst e, drop_expired ?c (snd e))) (failures l)"
  have wf: "wf_map ?m" using assms by (simp add: tracks_def wf_map_def comp_def)
  have times: "times_of (evictStale now l) ip = in_window l now (times_of l ip)" for ip
  proof -
    have "sorted (times_of l ip)" using assms by (simp add: tracks_def)
    then have s: "js_get (failures l) ip = Some ts \<Longrightarrow> drop_expired ?c ts = filter (\<lambda>t. ?c < t) ts" for ts
      by (simp add: times_of_def drop_expired_sorted)
    have "js_get (failures (evictStale now l)) ip =
        (case js_get ?m ip of None \<Rightarrow> None | Some v \<Rightarrow> if v \<noteq> [] then Some v else None)"
      unfolding evictStale_def Let_def using js_get_filter_wf [OF wf, of "\<lambda>e. snd e \<noteq> []" ip]
      by (simp split: option.splits)
    then show ?thesis
      using s by (auto simp: times_of_def js_get_map_values in_window_def split: option.splits)
  qed
  have "wf_map (failures (evictStale now l))"
    using wf by (simp add: evictStale_def Let_def)
  moreover have "sorted (in_window l now (times_of l ip))" for ip
    using assms unfolding tracks_def by (intro sorted_in_window) blast
  moreover have "\<forall>x \<in> set (in_window l now (times_of l ip)). x \<le> now" for ip
    using assms set_in_window unfolding tracks_def by blast
  ultimately show ?thesis
    using assms by (simp add: tracks_def times in_window_ops [of "evictStale now l" l])
qed

lemma tracks_set:
  assumes "tracks l h now" "sorted ts" "\<forall>x \<in> set ts. x \<le> now" "in_window l now ts = in_window l now hs"
  shows "tracks (l\<lparr>failures := js_set ip ts (failures l)\<rparr>) (h(ip := hs)) now"
  using assms by (auto simp: tracks_def times_of_def in_window_def)

lemma tracks_delete:
  assumes "tracks l h now" "in_window l now hs = []"
  shows "tracks (l\<lparr>failures := js_delete ip (failures l)\<rparr>) (h(ip := hs)) now"
  using assms by (auto simp: tracks_def times_of_def in_window_def)

lemma in_window_append: "in_window l now (xs @ ys) = in_window l now xs @ in_window l now ys"
  by (simp add: in_window_def)

lemma recordFailure_tracks:
  assumes "tracks l h now" "\<not> at_hard_cap ip now l"
  shows "tracks (recordFailure ip now l) (h(ip := h ip @ [now])) now"
proof (cases "js_get (failures l) ip")
  case (Some ts)
  then have "times_of l ip = ts" by (simp add: times_of_def)
  then show ?thesis
    using assms(1) Some tracks_set [OF assms(1), of "ts @ [now]" "h ip @ [now]" ip]
    by (auto simp: recordFailure_def tracks_def in_window_append sorted_append)
next
  case None
  define l2 where "l2 = (if length (failures l) \<ge> MAX_TRACKED_IPS then evictStale now l else l)"
  have rf: "recordFailure ip now l = l2\<lparr>failures := js_set ip [now] (failures l2)\<rparr>"
    using None assms(2) unfolding recordFailure_def l2_def at_hard_cap_def Let_def by (auto split: if_splits)
  have t2: "tracks l2 h now" using assms(1) evictStale_tracks by (simp add: l2_def)
  have "times_of l ip = []" using None by (simp add: times_of_def)
  then have "in_window l now (h ip) = []"
    using assms(1) unfolding tracks_def by (metis filter.simps(1) in_window_def)
  then have "in_window l2 now [now] = in_window l2 now (h ip @ [now])"
    by (auto simp: in_window_def l2_def split: if_splits)
  then show ?thesis unfolding rf by (intro tracks_set [OF t2]) simp_all
qed

lemma recordFailure_tracks_at_cap:
  assumes "tracks l h now" "at_hard_cap ip now l"
  shows "tracks (recordFailure ip now l) (h(oldest_ip now l := [], ip := h ip @ [now])) now"
proof -
  let ?e = "evictStale now l"
  define l2 where "l2 = ?e\<lparr>failures := js_delete (oldest_ip now l) (failures ?e)\<rparr>"
  have None: "js_get (failures l) ip = None" and ne: "failures ?e \<noteq> []"
    using assms(2) by (auto simp: at_hard_cap_def MAX_TRACKED_IPS_def)
  have rf: "recordFailure ip now l = l2\<lparr>failures := js_set ip [now] (failures l2)\<rparr>"
    using assms(2) ne unfolding recordFailure_def l2_def at_hard_cap_def oldest_ip_def Let_def
    by (cases "failures ?e") (auto simp: js_drop_oldest_def)
  have t2: "tracks l2 (h(oldest_ip now l := [])) now"
    unfolding l2_def by (rule tracks_delete [OF evictStale_tracks [OF assms(1)]]) (simp add: in_window_def)
  have "times_of l ip = []" using None by (simp add: times_of_def)
  then have "in_window l now (h ip) = []"
    using assms(1) unfolding tracks_def by (metis filter.simps(1) in_window_def)
  then have "in_window l2 now [now] = in_window l2 now (h ip @ [now])"
    by (simp add: in_window_def l2_def)
  then show ?thesis unfolding rf by (intro tracks_set [OF t2]) simp_all
qed

lemma isBlocked_tracks:
  assumes "tracks l h now"
  shows "tracks (fst (isBlocked ip now l)) h now"
    and "0 < maxFailures l \<Longrightarrow> snd (isBlocked ip now l) \<longleftrightarrow> maxFailures l \<le> length (in_window l now (h ip))"
proof -
  have win: "in_window l now (times_of l ip) = in_window l now (h ip)" and sorted: "sorted (times_of l ip)"
    and le: "\<forall>x \<in> set (times_of l ip). x \<le> now"
    using assms by (auto simp: tracks_def)
  have drop: "drop_expired (now - windowMs l) (times_of l ip) = in_window l now (times_of l ip)"
    using drop_expired_sorted [OF sorted] by (simp add: in_window_def)
  have "tracks (fst (isBlocked ip now l)) (h(ip := h ip)) now"
  proof (cases "js_get (failures l) ip")
    case None
    then show ?thesis using assms by (simp add: isBlocked_def)
  next
    case (Some ts)
    then have ts: "times_of l ip = ts" by (simp add: times_of_def)
    show ?thesis
    proof (cases "in_window l now ts = []")
      case True
      then have "tracks (l\<lparr>failures := js_delete ip (failures l)\<rparr>) (h(ip := h ip)) now"
        using win ts by (intro tracks_delete [OF assms]) simp
      then show ?thesis using Some True drop ts by (simp add: isBlocked_def Let_def)
    next
      case False
      have "sorted (in_window l now ts)" "\<forall>x \<in> set (in_window l now ts). x \<le> now"
        using sorted le ts by (auto simp: sorted_in_window) (simp add: in_window_def)
      then have "tracks (l\<lparr>failures := js_set ip (in_window l now ts) (failures l)\<rparr>) (h(ip := h ip)) now"
        using win ts by (intro tracks_set [OF assms]) simp_all
      then show ?thesis using Some False drop ts by (simp add: isBlocked_def Let_def)
    qed
  qed
  then show "tracks (fst (isBlocked ip now l)) h now" by simp
  show "snd (isBlocked ip now l) \<longleftrightarrow> maxFailures l \<le> length (in_window l now (h ip))" if "0 < maxFailures l"
    using that win drop by (cases "js_get (failures l) ip") (auto simp: isBlocked_def Let_def times_of_def in_window_def)
qed

lemma auth_run_tracks: "auth_run l h t \<Longrightarrow> tracks l h t"
proof (induction rule: auth_run.induct)
  case (auth_start m w t0)
  then show ?case by (simp add: tracks_def new_auth_limiter_def times_of_def in_window_def)
next
  case (auth_failure l h t now ip)
  then show ?case using recordFailure_tracks [OF tracks_later] by blast
next
  case (auth_failure_at_cap l h t now ip)
  then show ?case using recordFailure_tracks_at_cap [OF tracks_later] by blast
next
  case (auth_check l h t now ip)
  then show ?case using isBlocked_tracks(1) [OF tracks_later] by blast
next
  case (auth_clear l h t ip)
  then show ?case unfolding clearIp_def by (intro tracks_delete) (simp_all add: in_window_def)
qed

text \<open>C33: the failure limiter implements its sliding window exactly. In every run of recorded
  failures, checks and clears under a clock that does not go back, of a limiter with a positive
  threshold, an IP is blocked if and only if at least the configured number of its failures since
  its last success, or since the hard cap last dropped it, lie in the window before now, although the
  limiter keeps only unexpired timestamps and evicts idle IPs. The hard cap drops the IP that has been
  in the map longest, and only when a new IP fails while as many others as the cap
  allows have failures in the window; runs include those failures.\<close>

theorem auth_limiter_exact:
  assumes "auth_run l h t" and "t \<le> now" and "0 < maxFailures l"
  shows "snd (isBlocked ip now l) \<longleftrightarrow>
    maxFailures l \<le> length (filter (\<lambda>x. now - windowMs l < x) (h ip))"
  using isBlocked_tracks(2) [OF tracks_later [OF auth_run_tracks [OF assms(1)] assms(2)] assms(3)]
  by (simp add: in_window_def)

lemma auth_sample_run:
  "auth_run (recordFailure ''ip'' 10 (recordFailure ''ip'' 5 (new_auth_limiter 2 60)))
     (\<lambda>i. if i = ''ip'' then [5, 10] else []) 10"
proof -
  have "auth_run (recordFailure ''ip'' 10 (recordFailure ''ip'' 5 (new_auth_limiter 2 60)))
      ((\<lambda>_. [])(''ip'' := [5 :: int], ''ip'' := [5, 10])) 10"
    using auth_failure [OF auth_failure [OF auth_start [of 2 60 0], of 5 "''ip''"], of 10 "''ip''"]
    by (simp add: at_hard_cap_def new_auth_limiter_def recordFailure_def MAX_TRACKED_IPS_def js_get_Cons)
  moreover have "(\<lambda>_. [])(''ip'' := [5 :: int], ''ip'' := [5, 10]) = (\<lambda>i. if i = ''ip'' then [5, 10] else [])"
    by auto
  ultimately show ?thesis by simp
qed

theorem auth_limiter_exact_witness:
  "snd (isBlocked ''ip'' 20 (recordFailure ''ip'' 10 (recordFailure ''ip'' 5 (new_auth_limiter 2 60))))"
  using auth_limiter_exact [OF auth_sample_run, of 20 "''ip''"]
  by (simp add: new_auth_limiter_def recordFailure_def MAX_TRACKED_IPS_def js_get_Cons)

lemma recordFailure_bounded:
  assumes "length (failures l) \<le> MAX_TRACKED_IPS"
  shows "length (failures (recordFailure ip now l)) \<le> MAX_TRACKED_IPS"
proof (cases "js_get (failures l) ip")
  case (Some ts)
  then show ?thesis using assms by (simp add: recordFailure_def length_js_set)
next
  case None
  let ?l1 = "if length (failures l) \<ge> MAX_TRACKED_IPS then evictStale now l else l"
  have pos: "0 < MAX_TRACKED_IPS" by (simp add: MAX_TRACKED_IPS_def)
  have "length (failures (evictStale now l)) \<le> length (failures l)"
    unfolding evictStale_def Let_def by (simp add: le_trans [OF length_filter_le])
  then have l1: "length (failures ?l1) \<le> MAX_TRACKED_IPS" using assms by auto
  have room: "length (js_drop_oldest (failures ?l1)) < MAX_TRACKED_IPS"
    by (rule length_drop_oldest_less [OF l1 pos])
  have set_le: "length (js_set ip [now] m) \<le> Suc (length m)" for m by (simp add: length_js_set)
  show ?thesis
  proof (cases "length (failures l) \<ge> MAX_TRACKED_IPS \<and> length (failures ?l1) \<ge> MAX_TRACKED_IPS")
    case True
    then have "length (failures (evictStale now l)) \<ge> MAX_TRACKED_IPS" by (auto split: if_splits)
    then show ?thesis
      using True None room le_trans [OF set_le Suc_leI [OF room]] by (simp add: recordFailure_def Let_def)
  next
    case False
    then have "length (failures ?l1) < MAX_TRACKED_IPS" by (auto split: if_splits)
    then show ?thesis
      using None False le_trans [OF set_le Suc_leI] by (auto simp: recordFailure_def Let_def)
  qed
qed

section \<open>Rejection notices\<close>

definition REJECTION_NOTICE_COOLDOWN_MS :: int where
  "REJECTION_NOTICE_COOLDOWN_MS = 5 * 60 * 1000"

definition MAX_REJECTION_CACHE_SIZE :: nat where
  "MAX_REJECTION_CACHE_SIZE = 10000"

type_synonym rejections = "(string, int) js_map"

definition purge_rejections :: "int \<Rightarrow> rejections \<Rightarrow> rejections" where
  "purge_rejections now m =
     (if length m \<ge> MAX_REJECTION_CACHE_SIZE
      then (let m1 = filter (\<lambda>e. \<not> now - snd e \<ge> REJECTION_NOTICE_COOLDOWN_MS) m in
            if length m1 \<ge> MAX_REJECTION_CACHE_SIZE
            then (let toRemove = length m1 - MAX_REJECTION_CACHE_SIZE + 1
                  in foldl (\<lambda>acc e. js_delete (fst e) acc) m1 (take toRemove (sort_key snd m1)))
            else m1)
      else m)"

definition shouldSend :: "string \<Rightarrow> int \<Rightarrow> rejections \<Rightarrow> rejections \<times> bool" where
  "shouldSend r now m =
     (case js_get m r of
        Some lastSent \<Rightarrow>
          if now - lastSent < REJECTION_NOTICE_COOLDOWN_MS then (m, False)
          else (js_set r now (purge_rejections now (js_delete r m)), True)
      | None \<Rightarrow> (js_set r now (purge_rejections now m), True))"

lemma js_delete_many:
  "wf_map m \<Longrightarrow> wf_map (foldl (\<lambda>acc e. js_delete (fst e) acc) m es)
     \<and> length (foldl (\<lambda>acc e. js_delete (fst e) acc) m es) \<le> length m"
proof (induction es arbitrary: m)
  case (Cons e es)
  have le: "length (js_delete (fst e) m) \<le> length m" by simp
  show ?case using Cons.IH [of "js_delete (fst e) m"] Cons.prems le_trans [OF _ le] by auto
qed simp

lemma js_delete_some:
  assumes "wf_map m" "es \<noteq> []" "fst (hd es) \<in> set (js_keys m)"
  shows "length (foldl (\<lambda>acc e. js_delete (fst e) acc) m es) < length m"
proof -
  obtain e es' where es: "es = e # es'" using assms(2) by (cases es) auto
  have "js_get m (fst e) \<noteq> None" using assms(3) es by (simp add: js_get_None_iff)
  then have "length (js_delete (fst e) m) < length m" by (rule length_js_delete_present)
  then show ?thesis using js_delete_many [of "js_delete (fst e) m" es'] assms(1) es by simp
qed

lemma purge_bounded:
  assumes "wf_map m" "length m \<le> MAX_REJECTION_CACHE_SIZE"
  shows "wf_map (purge_rejections now m)" "length (purge_rejections now m) < MAX_REJECTION_CACHE_SIZE"
proof -
  let ?m1 = "filter (\<lambda>e. \<not> now - snd e \<ge> REJECTION_NOTICE_COOLDOWN_MS) m"
  let ?d = "foldl (\<lambda>acc e. js_delete (fst e) acc) ?m1
     (take (length ?m1 - MAX_REJECTION_CACHE_SIZE + 1) (sort_key snd ?m1))"
  have pos: "0 < MAX_REJECTION_CACHE_SIZE" by (simp add: MAX_REJECTION_CACHE_SIZE_def)
  have wf1: "wf_map ?m1" using assms(1) by simp
  have le1: "length ?m1 \<le> MAX_REJECTION_CACHE_SIZE" using assms(2) length_filter_le le_trans by blast
  show "wf_map (purge_rejections now m)"
    using assms(1) wf1 js_delete_many [OF wf1] unfolding purge_rejections_def Let_def by auto
  have "length ?d < MAX_REJECTION_CACHE_SIZE" if full: "length ?m1 \<ge> MAX_REJECTION_CACHE_SIZE"
  proof -
    have ne: "sort_key snd ?m1 \<noteq> []" using full pos by (metis length_0_conv length_sort not_le)
    have "hd (sort_key snd ?m1) \<in> set ?m1" using ne by (metis hd_in_set set_sort)
    then have "fst (hd (take (length ?m1 - MAX_REJECTION_CACHE_SIZE + 1) (sort_key snd ?m1))) \<in> set (js_keys ?m1)"
      using ne by (simp add: hd_take)
    then have "length ?d < length ?m1" using ne by (intro js_delete_some [OF wf1]) simp_all
    then show ?thesis using le1 by linarith
  qed
  then show "length (purge_rejections now m) < MAX_REJECTION_CACHE_SIZE"
    using assms(2) le1 unfolding purge_rejections_def Let_def by auto
qed

text \<open>The cache stays within its cap, and a notice is refused exactly while the last one is recent.\<close>

lemma shouldSend_bounded:
  assumes "wf_map m" "length m \<le> MAX_REJECTION_CACHE_SIZE"
  shows "wf_map (fst (shouldSend r now m)) \<and> length (fst (shouldSend r now m)) \<le> MAX_REJECTION_CACHE_SIZE"
proof -
  have "length (js_set r now m') \<le> Suc (length m')" for m' by (simp add: length_js_set)
  moreover have "length (purge_rejections now m') < MAX_REJECTION_CACHE_SIZE" "wf_map (purge_rejections now m')"
    if "m' = m \<or> m' = js_delete r m" for m'
    using that assms purge_bounded [of m' now] le_trans [OF length_js_delete_le assms(2), of r] by auto
  ultimately show ?thesis
    using assms by (auto simp: shouldSend_def split: option.splits intro: le_trans [OF _ Suc_leI])
qed

lemma shouldSend_refused_iff:
  "snd (shouldSend r now m) = False \<longleftrightarrow>
     (\<exists>t. js_get m r = Some t \<and> now - t < REJECTION_NOTICE_COOLDOWN_MS)"
  by (auto simp: shouldSend_def split: option.splits)

lemma shouldSend_records:
  "snd (shouldSend r now m) \<Longrightarrow> js_get (fst (shouldSend r now m)) r = Some now"
  by (auto simp: shouldSend_def split: option.splits if_splits)

section \<open>Verification attempts\<close>

definition RATE_LIMIT_MAX_ATTEMPTS :: nat where
  "RATE_LIMIT_MAX_ATTEMPTS = 5"

definition RATE_LIMIT_WINDOW_MS :: int where
  "RATE_LIMIT_WINDOW_MS = 15 * 60 * 1000"

definition RATE_LIMIT_LOCKOUT_MS :: int where
  "RATE_LIMIT_LOCKOUT_MS = 30 * 60 * 1000"

record rate_limit_record =
  attemptTimestamps :: "int list"
  lockedUntil :: "int option"

text \<open>The table, by its unique key: channel, external user and chat.\<close>

type_synonym actor = "string \<times> string \<times> string"

type_synonym rate_limits = "(actor, rate_limit_record) js_map"

definition getRateLimit :: "rate_limits \<Rightarrow> actor \<Rightarrow> rate_limit_record option" where
  "getRateLimit db a = js_get db a"

definition isRateLimited :: "rate_limits \<Rightarrow> actor \<Rightarrow> int \<Rightarrow> bool" where
  "isRateLimited db a now =
     (case getRateLimit db a of
        None \<Rightarrow> False
      | Some r \<Rightarrow> (case lockedUntil r of None \<Rightarrow> False | Some u \<Rightarrow> now < u))"

definition recordInvalidAttempt :: "actor \<Rightarrow> int \<Rightarrow> rate_limits \<Rightarrow> rate_limits" where
  "recordInvalidAttempt a now db =
     (case js_get db a of
        None \<Rightarrow> js_set a \<lparr>attemptTimestamps = [now], lockedUntil = None\<rparr> db
      | Some r \<Rightarrow>
          (let kept = filter (\<lambda>t. t > now - RATE_LIMIT_WINDOW_MS) (attemptTimestamps r) @ [now]
           in js_set a \<lparr>attemptTimestamps = kept,
                lockedUntil = (if length kept \<ge> RATE_LIMIT_MAX_ATTEMPTS then Some (now + RATE_LIMIT_LOCKOUT_MS)
                               else lockedUntil r)\<rparr> db))"

definition resetRateLimit :: "actor \<Rightarrow> rate_limits \<Rightarrow> rate_limits" where
  "resetRateLimit a db =
     (if js_get db a = None then db else js_set a \<lparr>attemptTimestamps = [], lockedUntil = None\<rparr> db)"

subsection \<open>Specification: the attempts since the last reset\<close>

text \<open>An attempt completes a burst when it is at least the fifth in the window that ends with it.\<close>

definition completes_burst :: "int list \<Rightarrow> int \<Rightarrow> bool" where
  "completes_burst before t \<longleftrightarrow>
     RATE_LIMIT_MAX_ATTEMPTS \<le> length (filter (\<lambda>x. x > t - RATE_LIMIT_WINDOW_MS) before) + 1"

inductive limits_run :: "rate_limits \<Rightarrow> (actor \<Rightarrow> int list) \<Rightarrow> int \<Rightarrow> bool" where
  limits_start: "limits_run [] (\<lambda>_. []) t0"
| limits_attempt: "limits_run db h t \<Longrightarrow> t \<le> now \<Longrightarrow>
    limits_run (recordInvalidAttempt a now db) (h(a := h a @ [now])) now"
| limits_reset: "limits_run db h t \<Longrightarrow> limits_run (resetRateLimit a db) (h(a := [])) t"

definition last_burst :: "int list \<Rightarrow> int option \<Rightarrow> bool" where
  "last_burst h u \<longleftrightarrow>
     (case u of
        None \<Rightarrow> (\<forall>p t q. h = p @ t # q \<longrightarrow> \<not> completes_burst p t)
      | Some v \<Rightarrow> (\<exists>p t q. h = p @ t # q \<and> completes_burst p t \<and> v = t + RATE_LIMIT_LOCKOUT_MS)
          \<and> (\<forall>p t q. h = p @ t # q \<longrightarrow> completes_burst p t \<longrightarrow> t + RATE_LIMIT_LOCKOUT_MS \<le> v))"

definition record_ok :: "rate_limit_record option \<Rightarrow> int list \<Rightarrow> int \<Rightarrow> bool" where
  "record_ok r h t \<longleftrightarrow> (\<forall>x \<in> set h. x \<le> t) \<and>
     (case r of
        None \<Rightarrow> h = []
      | Some x \<Rightarrow> last_burst h (lockedUntil x)
          \<and> filter (\<lambda>y. y > t - RATE_LIMIT_WINDOW_MS) (attemptTimestamps x) =
            filter (\<lambda>y. y > t - RATE_LIMIT_WINDOW_MS) h)"

lemma snoc_split: "xs @ [x] = p @ t # q \<longleftrightarrow> (q = [] \<and> p = xs \<and> t = x) \<or> (\<exists>q'. q = q' @ [x] \<and> xs = p @ t # q')"
  by (cases q rule: rev_cases) auto

lemma last_burst_snoc:
  assumes "last_burst h u" "\<forall>x \<in> set h. x \<le> now"
  shows "last_burst (h @ [now])
    (if completes_burst h now then Some (now + RATE_LIMIT_LOCKOUT_MS) else u)"
proof -
  have le: "h = p @ t # q \<Longrightarrow> t \<le> now" for p t q using assms(2) by simp
  show ?thesis
    using assms(1) le
    by (cases u) (auto simp: last_burst_def snoc_split)
qed

lemma filter_window_later:
  assumes "filter (\<lambda>y. y > t - w) xs = filter (\<lambda>y. y > t - w) ys" "t \<le> (now :: int)"
  shows "filter (\<lambda>y. y > now - w) xs = filter (\<lambda>y. y > now - w) ys"
proof -
  have "filter (\<lambda>y. y > now - w) zs = filter (\<lambda>y. y > now - w) (filter (\<lambda>y. y > t - w) zs)" for zs
    using assms(2) by (auto intro!: filter_cong)
  then show ?thesis using assms(1) by metis
qed

lemma record_ok_later: "record_ok r h t \<Longrightarrow> t \<le> now \<Longrightarrow> record_ok r h now"
  unfolding record_ok_def by (cases r) (auto intro: filter_window_later)

lemma record_ok_attempt:
  assumes "record_ok (js_get db a) (h a) now"
  shows "record_ok (js_get (recordInvalidAttempt a now db) a) (h a @ [now]) now"
proof (cases "js_get db a")
  case None
  then have "h a = []" using assms by (simp add: record_ok_def)
  moreover have "last_burst [now] None"
    by (auto simp: last_burst_def completes_burst_def RATE_LIMIT_MAX_ATTEMPTS_def Cons_eq_append_conv)
  ultimately show ?thesis using None by (simp add: record_ok_def recordInvalidAttempt_def)
next
  case (Some r)
  let ?k = "filter (\<lambda>t. t > now - RATE_LIMIT_WINDOW_MS) (attemptTimestamps r)"
  have k: "?k = filter (\<lambda>t. t > now - RATE_LIMIT_WINDOW_MS) (h a)"
    and lb: "last_burst (h a) (lockedUntil r)" and le: "\<forall>x \<in> set (h a). x \<le> now"
    using assms Some by (auto simp: record_ok_def)
  have "completes_burst (h a) now \<longleftrightarrow> RATE_LIMIT_MAX_ATTEMPTS \<le> length (?k @ [now])"
    by (simp add: completes_burst_def k)
  then show ?thesis
    using Some last_burst_snoc [OF lb le] le k by (simp add: record_ok_def recordInvalidAttempt_def Let_def)
qed

lemma limits_run_ok: "limits_run db h t \<Longrightarrow> record_ok (js_get db a) (h a) t"
proof (induction arbitrary: a rule: limits_run.induct)
  case (limits_start t0)
  then show ?case by (simp add: record_ok_def)
next
  case (limits_attempt db h t now b)
  have "record_ok (js_get db a) (h a) now" using limits_attempt.IH limits_attempt.hyps(2) record_ok_later by blast
  then show ?case
    using record_ok_attempt [of db b h now] record_ok_later [OF limits_attempt.IH limits_attempt.hyps(2)]
    by (cases "a = b") (auto simp: recordInvalidAttempt_def Let_def split: option.splits)
next
  case (limits_reset db h t b)
  have "last_burst [] None" by (simp add: last_burst_def)
  then show ?case using limits_reset.IH [of a]
    by (cases "a = b") (auto simp: resetRateLimit_def record_ok_def)
qed

text \<open>the verification lockout is exact. In every history of invalid attempts and resets by any
  actors, an actor is locked out at a moment if and only if, since its last reset, some attempt was at
  least the fifth within fifteen minutes and that attempt is less than thirty minutes ago. Other
  actors' attempts do not count.\<close>

theorem verification_lockout_exact:
  assumes "limits_run db h t"
  shows "isRateLimited db a now \<longleftrightarrow>
    (\<exists>p x q. h a = p @ x # q \<and> completes_burst p x \<and> now < x + RATE_LIMIT_LOCKOUT_MS)"
proof (cases "js_get db a")
  case None
  then show ?thesis using limits_run_ok [OF assms, of a] by (simp add: record_ok_def isRateLimited_def getRateLimit_def)
next
  case (Some r)
  then have "last_burst (h a) (lockedUntil r)" using limits_run_ok [OF assms, of a] by (simp add: record_ok_def)
  then have burst: "last_burst (h a) (lockedUntil r)" .
  show ?thesis
  proof (cases "lockedUntil r")
    case None
    then have "\<not> completes_burst p x" if "h a = p @ x # q" for p x q
      using burst that unfolding last_burst_def None option.case by blast
    then show ?thesis using Some None by (simp add: isRateLimited_def getRateLimit_def) blast
  next
    case locked: (Some v)
    obtain p x q where "h a = p @ x # q" "completes_burst p x" "v = x + RATE_LIMIT_LOCKOUT_MS"
      using burst unfolding last_burst_def locked option.case by blast
    moreover have "x + RATE_LIMIT_LOCKOUT_MS \<le> v" if "h a = p @ x # q" "completes_burst p x" for p x q
      using burst that unfolding last_burst_def locked option.case by blast
    ultimately have "now < v \<longleftrightarrow>
        (\<exists>p x q. h a = p @ x # q \<and> completes_burst p x \<and> now < x + RATE_LIMIT_LOCKOUT_MS)"
      by (meson order_less_le_trans)
    then show ?thesis using Some locked by (simp add: isRateLimited_def getRateLimit_def)
  qed
qed

lemma five_attempts_run:
  "limits_run (foldl (\<lambda>db n. recordInvalidAttempt (''sms'', ''u'', ''c'') n db) [] [1, 2, 3, 4, 5])
     ((\<lambda>_. [])((''sms'', ''u'', ''c'') := [1, 2, 3, 4, 5])) 5"
  using limits_attempt [OF limits_attempt [OF limits_attempt [OF limits_attempt [OF limits_attempt [OF
      limits_start [of 0], of 1 "(''sms'', ''u'', ''c'')"], of 2 "(''sms'', ''u'', ''c'')"],
      of 3 "(''sms'', ''u'', ''c'')"], of 4 "(''sms'', ''u'', ''c'')"], of 5 "(''sms'', ''u'', ''c'')"]
  by simp

theorem verification_lockout_exact_witness:
  "isRateLimited (foldl (\<lambda>db n. recordInvalidAttempt (''sms'', ''u'', ''c'') n db) [] [1, 2, 3, 4, 5])
     (''sms'', ''u'', ''c'') 1800004"
proof -
  have "completes_burst [1, 2, 3, 4] 5"
    by (simp add: completes_burst_def RATE_LIMIT_MAX_ATTEMPTS_def RATE_LIMIT_WINDOW_MS_def)
  moreover have "[1, 2, 3, 4, 5 :: int] = [1, 2, 3, 4] @ 5 # []" by simp
  moreover have "(1800004 :: int) < 5 + RATE_LIMIT_LOCKOUT_MS" by (simp add: RATE_LIMIT_LOCKOUT_MS_def)
  ultimately show ?thesis
    unfolding verification_lockout_exact [OF five_attempts_run] fun_upd_same by blast
qed

end
