(* ===== verification/Verification_Service.thy ===== *)
theory Verification_Service
  imports Verification_Sessions Contact_Channels Rate_Limits
begin

text \<open>
  The verification service of the gateway (\<^verbatim>\<open>gateway/src/verification/session-service.ts\<close>): minting
  sessions, the guarded mint, and redeeming a code with its rate limit, identity check, atomic consumption and
  guardian binding. It composes the session table, the guardian bindings and the attempt limiter.

  The SHA-256 digest and the random secrets are parameters. Each synchronous section reads the clock once. The
  trusted-contact side effect spans a call to the daemon: its outcome, what it and the other handlers do to the
  gateway's state meanwhile, and the clock after it are arguments. So are what others do while the daemon's mirror of a
  committed guardian binding is awaited, and what the collection of the contact it stripped is told.
\<close>

record gw_state =
  v_sessions :: session_table
  v_limits :: rate_limits
  v_contacts :: gw_contacts

definition CHALLENGE_TTL_MS :: int where
  "CHALLENGE_TTL_MS = 10 * 60 * 1000"

section \<open>Minting\<close>

text \<open>\<open>num\<close> is the random 32-bit number.\<close>

definition generateNumericSecret :: "nat \<Rightarrow> nat \<Rightarrow> string" where
  "generateNumericSecret digits num =
     (let s = nat_to_string (num mod 10 ^ digits) in replicate (digits - length s) (CHR ''0'') @ s)"

definition createInboundVerificationSession ::
  "(string \<Rightarrow> string) \<Rightarrow> string \<Rightarrow> string option \<Rightarrow> string \<Rightarrow> string \<Rightarrow> int \<Rightarrow> gw_state \<Rightarrow> gw_state \<times> vsession option" where
  "createInboundVerificationSession hash ch src secret i now s =
     (let (t, row) = createInboundSession i ch (hash secret) (now + CHALLENGE_TTL_MS) src now (v_sessions s)
      in (s\<lparr>v_sessions := t\<rparr>, row))"

text \<open>The secret is the high-entropy one for an unbound session and the numeric code otherwise.\<close>

definition outbound_secret :: "outbound_params \<Rightarrow> string \<Rightarrow> nat \<Rightarrow> string" where
  "outbound_secret p hex num =
     (if o_identityBindingStatus p = Some BindingPendingBootstrap then hex
      else generateNumericSecret (with_default 6 (o_codeDigits p)) num)"

definition mintOutboundSession ::
  "(string \<Rightarrow> string) \<Rightarrow> outbound_params \<Rightarrow> string \<Rightarrow> nat \<Rightarrow> string \<Rightarrow> int \<Rightarrow> gw_state \<Rightarrow> gw_state \<times> vsession option" where
  "mintOutboundSession hash p hex num i now s =
     (let unbound = (o_identityBindingStatus p = Some BindingPendingBootstrap);
          (t, row) = createOutboundSession i (hash (outbound_secret p hex num)) (now + CHALLENGE_TTL_MS)
                       (if unbound then PendingBootstrap else AwaitingResponse)
                       (p\<lparr>o_identityBindingStatus := Some (with_default Bound (o_identityBindingStatus p))\<rparr>) now (v_sessions s)
      in (s\<lparr>v_sessions := t\<rparr>, row))"

datatype mint_result = Minted "vsession option" | ActiveSessionExists | SourceSessionNotPending

definition createOutboundSessionGuarded ::
  "(string \<Rightarrow> string) \<Rightarrow> outbound_params \<Rightarrow> string option \<Rightarrow> string option \<Rightarrow> string \<Rightarrow> nat \<Rightarrow> string \<Rightarrow> int \<Rightarrow> gw_state \<Rightarrow>
   gw_state \<times> mint_result" where
  "createOutboundSessionGuarded hash p source noneActive hex num i now s =
     (if (case noneActive of Some u \<Rightarrow> findActiveSession (o_channel p) (Some u) None now (v_sessions s) \<noteq> None
          | None \<Rightarrow> False)
      then (s, ActiveSessionExists)
      else
        (let (t, claimed) = (case source of
               None \<Rightarrow> (v_sessions s, True)
             | Some j \<Rightarrow> claimBootstrapSession j (o_channel p) now (v_sessions s))
         in if \<not> claimed then (s\<lparr>v_sessions := t\<rparr>, SourceSessionNotPending)
            else (let (s', row) = mintOutboundSession hash p hex num i now (s\<lparr>v_sessions := t\<rparr>) in (s', Minted row))))"

section \<open>Redeeming\<close>

datatype consume_result = Redeemed verification_purpose | ConsumeFailure | SideEffectError

datatype contact_outcome = ContactVerified | ContactRejected | ContactThrew

record side_effect =
  outcome :: contact_outcome
  meanwhile :: "gw_state \<Rightarrow> gw_state"
  clock_then :: int
  stub_invited :: "gw_contacts \<Rightarrow> bool"
  stub_probe :: "mirror_probe option option"
  stub_meanwhile :: "gw_state \<Rightarrow> gw_state"

text \<open>After a guardian binding is committed: the daemon's mirror is told, then the contact from which the binding
  claimed the channel is collected if nothing holds it any more, which asks the mirror once.\<close>

definition mirrorGuardianBinding :: "side_effect \<Rightarrow> binding_writes \<Rightarrow> gw_state \<Rightarrow> gw_state" where
  "mirrorGuardianBinding eff b s =
     (let s1 = meanwhile eff s
      in case w_claimedFromContactId b of
           None \<Rightarrow> s1
         | Some i \<Rightarrow>
             if i = [] \<or> \<not> orphaned (stub_invited eff (v_contacts s1)) i (v_contacts s1) then s1
             else (let s2 = stub_meanwhile eff s1
                   in s2\<lparr>v_contacts := fst (deleteContactIfOrphaned i (stub_invited eff) (stub_probe eff) (\<lambda>_. v_contacts s2)
                        (v_contacts s1))\<rparr>))"

definition validateAndConsumeSession ::
  "(string \<Rightarrow> string) \<Rightarrow> string \<Rightarrow> string \<Rightarrow> string \<Rightarrow> string \<Rightarrow> int \<Rightarrow> string \<Rightarrow> string \<Rightarrow> side_effect \<Rightarrow> gw_state \<Rightarrow>
   gw_state \<times> consume_result" where
  "validateAndConsumeSession hash ch secret user chat now fc fch eff s =
     (let a = (ch, user, chat);
          bad = (s\<lparr>v_limits := recordInvalidAttempt a now (v_limits s)\<rparr>, ConsumeFailure)
      in if isRateLimited (v_limits s) a now then (s, ConsumeFailure)
         else
           (case findPendingSessionByHash ch (hash secret) now (v_sessions s) of
              None \<Rightarrow> bad
            | Some v \<Rightarrow>
                if \<not> checkIdentityMatch v user chat then bad
                else
                  (case consumeSession (id_of v) user chat now (v_sessions s) of
                     (t, None) \<Rightarrow> (s, ConsumeFailure)
                   | (t, Some at) \<Rightarrow>
                       if verificationPurpose v \<noteq> TrustedContact \<and> ch = ''phone'' \<and> expectedPhoneE164 v \<noteq> None
                       then
                         if gatewayChannelStatus ch user (v_contacts s) = Some ''blocked''
                         then (s\<lparr>v_sessions := t\<rparr>, ConsumeFailure)
                         else
                           (case applyPhoneGuardianBindingGatewayWrites user chat at fc fch now (v_contacts s) of
                              None \<Rightarrow> (s, SideEffectError)
                            | Some (cs, w) \<Rightarrow>
                                (let s1 = s\<lparr>v_sessions := t, v_contacts := cs, v_limits := resetRateLimit a (v_limits s)\<rparr>
                                 in (case w of Some b \<Rightarrow> mirrorGuardianBinding eff b s1 | None \<Rightarrow> s1,
                                     Redeemed (verificationPurpose v))))
                       else
                         (let s1 = s\<lparr>v_sessions := t, v_limits := resetRateLimit a (v_limits s)\<rparr>
                          in if verificationPurpose v = TrustedContact
                             then
                               (let s2 = meanwhile eff s1
                                in case outcome eff of
                                     ContactThrew \<Rightarrow>
                                       (s2\<lparr>v_sessions := updateSessionStatus (id_of v) (status v) None None (clock_then eff)
                                            (v_sessions s2)\<rparr>, SideEffectError)
                                   | ContactRejected \<Rightarrow> (s2, ConsumeFailure)
                                   | ContactVerified \<Rightarrow> (s2, Redeemed TrustedContact))
                             else (s1, Redeemed (verificationPurpose v))))))"

section \<open>What a redemption means\<close>

lemma consume_redeems:
  assumes "v \<in> set t" "interceptable v" "unique_sessions t"
  shows "snd (consumeSession (id_of v) user chat now t) = Some now"
    and "redeemed (id_of v) (fst (consumeSession (id_of v) user chat now t))"
proof -
  show s: "snd (consumeSession (id_of v) user chat now t) = Some now"
    using assms(1,2) by (auto simp: consumeSession_def Let_def list_ex_iff)
  then show "redeemed (id_of v) (fst (consumeSession (id_of v) user chat now t))"
    using redeems_redeemed [OF assms(3), of "id_of v" "Consume (id_of v) user chat now"] by simp
qed

text \<open>C20: A redemption reports success only to an actor who is not locked out and presents the secret of a live,
  unexpired session of the channel whose bound identity, if it is bound, is the actor's; the reported purpose is the
  session's; and at that moment the session has stopped being redeemable and the actor's attempts are cleared. Between
  that moment and the answer others run in two cases only: while the daemon applies a trusted contact, and while it
  mirrors a guardian's binding by phone, after which the contact the binding stripped may be collected. Session ids are
  distinct.\<close>

theorem redemption_is_authorised:
  assumes "distinct (map id_of (v_sessions s))"
    "validateAndConsumeSession hash ch secret user chat now fc fch eff s = (s', Redeemed pu)"
  shows "\<exists>v s1 w. \<not> isRateLimited (v_limits s) (ch, user, chat) now
     \<and> v \<in> set (v_sessions s) \<and> channel v = ch \<and> challengeHash v = hash secret \<and> interceptable v \<and> now < expiresAt v
     \<and> verificationPurpose v = pu
     \<and> (identityBindingStatus v = Some Bound \<longrightarrow>
          (case session_identity v of None \<Rightarrow> True | Some (f, x) \<Rightarrow> (if f = ChatId then chat else user) = x))
     \<and> redeemed (id_of v) (v_sessions s1) \<and> \<not> isRateLimited (v_limits s1) (ch, user, chat) now
     \<and> s' = (if pu = TrustedContact then meanwhile eff s1
             else case w of Some b \<Rightarrow> mirrorGuardianBinding eff b s1 | None \<Rightarrow> s1)
     \<and> (w \<noteq> None \<longrightarrow> ch = ''phone'' \<and> expectedPhoneE164 v \<noteq> None \<and> pu \<noteq> TrustedContact \<and>
          (\<exists>n. applyPhoneGuardianBindingGatewayWrites user chat n fc fch now (v_contacts s) = Some (v_contacts s1, w)))"
proof -
  let ?a = "(ch, user, chat)"
  have nl: "\<not> isRateLimited (v_limits s) ?a now"
    using assms(2) by (auto simp: validateAndConsumeSession_def Let_def)
  have reset: "\<not> isRateLimited (resetRateLimit ?a (v_limits s)) ?a now"
    by (simp add: isRateLimited_def resetRateLimit_def getRateLimit_def)
  obtain v where v: "findPendingSessionByHash ch (hash secret) now (v_sessions s) = Some v" "checkIdentityMatch v user chat"
    using assms(2) nl by (auto simp: validateAndConsumeSession_def Let_def split: option.splits if_splits)
  have live: "v \<in> set (v_sessions s)" "channel v = ch" "challengeHash v = hash secret" "interceptable v" "now < expiresAt v"
    using v(1) find_SomeD [of _ "v_sessions s" v] by (auto simp: findPendingSessionByHash_def)
  obtain t where t: "consumeSession (id_of v) user chat now (v_sessions s) = (t, Some now)" "redeemed (id_of v) t"
    using consume_redeems [OF live(1,4), of user chat now] assms(1) by (cases "consumeSession (id_of v) user chat now (v_sessions s)") (auto simp: unique_sessions_def)
  let ?s1 = "\<lambda>cs. s\<lparr>v_sessions := t, v_contacts := cs, v_limits := resetRateLimit ?a (v_limits s)\<rparr>"
  have clear: "redeemed (id_of v) (v_sessions (?s1 cs)) \<and> \<not> isRateLimited (v_limits (?s1 cs)) ?a now" for cs
    using t(2) reset by simp
  have pu: "verificationPurpose v = pu"
    using assms(2) nl v t by (auto simp: validateAndConsumeSession_def Let_def split: if_splits option.splits contact_outcome.splits)
  have "\<exists>cs w. s' = (if pu = TrustedContact then meanwhile eff (?s1 cs)
             else case w of Some b \<Rightarrow> mirrorGuardianBinding eff b (?s1 cs) | None \<Rightarrow> ?s1 cs)
     \<and> (w \<noteq> None \<longrightarrow> ch = ''phone'' \<and> expectedPhoneE164 v \<noteq> None \<and> pu \<noteq> TrustedContact \<and>
          (\<exists>n. applyPhoneGuardianBindingGatewayWrites user chat n fc fch now (v_contacts s) = Some (cs, w)))"
  proof (cases "pu \<noteq> TrustedContact \<and> ch = ''phone'' \<and> expectedPhoneE164 v \<noteq> None")
    case True
    then obtain cs w where w: "applyPhoneGuardianBindingGatewayWrites user chat now fc fch now (v_contacts s) = Some (cs, w)"
        "s' = (case w of Some b \<Rightarrow> mirrorGuardianBinding eff b (?s1 cs) | None \<Rightarrow> ?s1 cs)"
      using assms(2) nl v t pu by (auto simp: validateAndConsumeSession_def Let_def split: if_splits option.splits)
    show ?thesis by (rule exI [of _ cs], rule exI [of _ w]) (use w True in auto)
  next
    case False
    then have "s' = (if pu = TrustedContact then meanwhile eff (?s1 (v_contacts s)) else ?s1 (v_contacts s))"
      using assms(2) nl v t pu
      by (auto simp: validateAndConsumeSession_def Let_def split: if_splits option.splits contact_outcome.splits)
    then show ?thesis by (intro exI [of _ "v_contacts s"] exI [of _ None]) simp
  qed
  then obtain cs w where w: "s' = (if pu = TrustedContact then meanwhile eff (?s1 cs)
             else case w of Some b \<Rightarrow> mirrorGuardianBinding eff b (?s1 cs) | None \<Rightarrow> ?s1 cs)"
     "w \<noteq> None \<longrightarrow> ch = ''phone'' \<and> expectedPhoneE164 v \<noteq> None \<and> pu \<noteq> TrustedContact \<and>
          (\<exists>n. applyPhoneGuardianBindingGatewayWrites user chat n fc fch now (v_contacts s) = Some (cs, w))"
    by blast
  have contacts: "v_contacts (?s1 cs) = cs" by simp
  have "identityBindingStatus v = Some Bound \<longrightarrow>
      (case session_identity v of None \<Rightarrow> True | Some (f, x) \<Rightarrow> (if f = ChatId then chat else user) = x)"
    using v(2) by (auto simp: checkIdentityMatch_def split: option.splits if_splits)
  then show ?thesis
    using nl live pu clear [of cs] w
    by (intro exI [of _ v] exI [of _ "?s1 cs"] exI [of _ w] conjI) (simp_all only: contacts not_False_eq_True)
qed

definition demo_effect :: side_effect where
  "demo_effect = \<lparr>outcome = ContactVerified, meanwhile = (\<lambda>s. s), clock_then = 9,
     stub_invited = (\<lambda>_. False), stub_probe = None, stub_meanwhile = (\<lambda>s. s)\<rparr>"

definition demo_gateway :: gw_state where
  "demo_gateway = \<lparr>v_sessions = fst (createOutboundSession ''s1'' ''123456'' 1000 AwaitingResponse demo_params 1 []),
     v_limits = [], v_contacts = demo_contacts\<rparr>"

theorem redemption_is_authorised_witness:
  "snd (validateAndConsumeSession (\<lambda>x. x) ''slack'' ''123456'' ''u1'' ''c1'' 5 ''f'' ''g'' demo_effect demo_gateway) = Redeemed Guardian
   \<and> (\<exists>v. v \<in> set (v_sessions demo_gateway) \<and> challengeHash v = ''123456'' \<and> verificationPurpose v = Guardian)"
proof -
  let ?r = "validateAndConsumeSession (\<lambda>x. x) ''slack'' ''123456'' ''u1'' ''c1'' 5 ''f'' ''g'' demo_effect demo_gateway"
  have d: "distinct (map id_of (v_sessions demo_gateway))" by code_simp
  have r: "snd ?r = Redeemed Guardian" by code_simp
  then have "?r = (fst ?r, Redeemed Guardian)" by (metis prod.collapse)
  from redemption_is_authorised [OF d this] r show ?thesis by blast
qed

section \<open>Guessing is bounded\<close>

text \<open>Guesses of one actor at a channel; between them the session and contact tables may change in any way.\<close>

record guess =
  g_secret :: string
  g_now :: int
  g_sessions :: session_table
  g_contacts :: gw_contacts
  g_fresh :: string
  g_effect :: side_effect

definition before_guess :: "guess \<Rightarrow> gw_state \<Rightarrow> gw_state" where
  "before_guess g s = s\<lparr>v_sessions := g_sessions g, v_contacts := g_contacts g\<rparr>"

definition run_guess :: "(string \<Rightarrow> string) \<Rightarrow> actor \<Rightarrow> gw_state \<Rightarrow> guess \<Rightarrow> gw_state" where
  "run_guess hash a s g =
     (case a of (ch, user, chat) \<Rightarrow>
        fst (validateAndConsumeSession hash ch (g_secret g) user chat (g_now g) (g_fresh g) (g_fresh g) (g_effect g)
          (before_guess g s)))"

text \<open>A wrong guess: no session the actor may redeem has this secret.\<close>

definition wrong_guess :: "(string \<Rightarrow> string) \<Rightarrow> actor \<Rightarrow> guess \<Rightarrow> bool" where
  "wrong_guess hash a g =
     (case a of (ch, user, chat) \<Rightarrow>
        (case findPendingSessionByHash ch (hash (g_secret g)) (g_now g) (g_sessions g) of
           None \<Rightarrow> True
         | Some v \<Rightarrow> \<not> checkIdentityMatch v user chat))"

text \<open>The clock readings of the guesses that were compared with the table, not turned away by the lockout.\<close>

fun compared :: "(string \<Rightarrow> string) \<Rightarrow> actor \<Rightarrow> gw_state \<Rightarrow> guess list \<Rightarrow> int list" where
  "compared hash a s [] = []"
| "compared hash a s (g # gs) =
     (if isRateLimited (v_limits s) a (g_now g) then [] else [g_now g]) @ compared hash a (run_guess hash a s g) gs"

lemma wrong_guess_limits:
  assumes "wrong_guess hash a g"
  shows "v_limits (run_guess hash a s g) =
     (if isRateLimited (v_limits s) a (g_now g) then v_limits s else recordInvalidAttempt a (g_now g) (v_limits s))"
  using assms
  by (cases a) (auto simp: run_guess_def wrong_guess_def validateAndConsumeSession_def before_guess_def Let_def
      split: option.splits)

definition window_ok :: "int list \<Rightarrow> bool" where
  "window_ok h \<longleftrightarrow> (\<forall>x. length (filter (\<lambda>y. x - RATE_LIMIT_WINDOW_MS < y \<and> y \<le> x) h) \<le> RATE_LIMIT_MAX_ATTEMPTS)"

text \<open>An attempt that is not locked out keeps every window within the limit.\<close>

lemma unlocked_keeps_window:
  assumes ok: "record_ok r h now" and sorted: "sorted h" and win: "window_ok h"
    and unlocked: "case r of None \<Rightarrow> True | Some q \<Rightarrow> (case lockedUntil q of None \<Rightarrow> True | Some u \<Rightarrow> \<not> now < u)"
  shows "window_ok (h @ [now])"
proof -
  have past: "y \<le> now" if "y \<in> set h" for y using ok that by (simp add: record_ok_def)
  have "length (filter (\<lambda>y. x - RATE_LIMIT_WINDOW_MS < y \<and> y \<le> x) h) < RATE_LIMIT_MAX_ATTEMPTS"
    if x: "x - RATE_LIMIT_WINDOW_MS < now" "now \<le> x" for x
  proof (rule ccontr)
    let ?f = "filter (\<lambda>y. x - RATE_LIMIT_WINDOW_MS < y \<and> y \<le> x)"
    assume "\<not> length (?f h) < RATE_LIMIT_MAX_ATTEMPTS"
    then have five: "RATE_LIMIT_MAX_ATTEMPTS \<le> length (?f h)" by simp
    then have "?f h \<noteq> []" by (auto simp: RATE_LIMIT_MAX_ATTEMPTS_def)
    then obtain y where y: "y \<in> set h" "x - RATE_LIMIT_WINDOW_MS < y" by (auto simp: filter_empty_conv)
    then obtain p l where h: "h = p @ [l]" by (cases h rule: rev_cases) auto
    have l: "y \<le> l" "l \<le> now" using y(1) sorted past h by (auto simp: sorted_append)
    have "length (?f p) \<le> length (filter (\<lambda>z. z > l - RATE_LIMIT_WINDOW_MS) p)"
      using l(2) x(2) by (intro length_filter_mono) auto
    moreover have "length (?f h) \<le> length (?f p) + 1" by (simp add: h)
    ultimately have burst: "completes_burst p l" using five by (simp add: completes_burst_def)
    obtain q where q: "r = Some q" "last_burst h (lockedUntil q)"
      using ok h by (cases r) (auto simp: record_ok_def)
    obtain v where v: "lockedUntil q = Some v" "l + RATE_LIMIT_LOCKOUT_MS \<le> v"
      using q(2) burst h by (cases "lockedUntil q") (auto simp: last_burst_def)
    have "now < v" using v(2) y(2) l x by (simp add: RATE_LIMIT_LOCKOUT_MS_def RATE_LIMIT_WINDOW_MS_def)
    then show False using unlocked q(1) v(1) by simp
  qed
  then show ?thesis using win by (fastforce simp: window_ok_def)
qed

lemma guesses_bounded:
  assumes "\<forall>g \<in> set gs. wrong_guess hash a g" "sorted (t # map g_now gs)"
    "record_ok (js_get (v_limits s) a) h t" "sorted h" "window_ok h"
  shows "window_ok (h @ compared hash a s gs)"
  using assms
proof (induction gs arbitrary: s h t)
  case (Cons g gs)
  have ok: "record_ok (js_get (v_limits s) a) h (g_now g)"
    using Cons.prems(2,3) record_ok_later by (cases gs) auto
  have lim: "v_limits (run_guess hash a s g) =
      (if isRateLimited (v_limits s) a (g_now g) then v_limits s else recordInvalidAttempt a (g_now g) (v_limits s))"
    using Cons.prems(1) wrong_guess_limits by simp
  show ?case
  proof (cases "isRateLimited (v_limits s) a (g_now g)")
    case True
    then show ?thesis
      using Cons.IH [of "g_now g" "run_guess hash a s g" h] Cons.prems ok lim by simp
  next
    case False
    have "window_ok (h @ [g_now g])"
      using unlocked_keeps_window [OF ok Cons.prems(4,5)] False
      by (auto simp: isRateLimited_def getRateLimit_def split: option.splits)
    moreover have "record_ok (js_get (v_limits (run_guess hash a s g)) a) (h @ [g_now g]) (g_now g)"
      using record_ok_attempt [of "v_limits s" a "\<lambda>_. h"] ok lim False by simp
    moreover have "sorted (h @ [g_now g])"
      using Cons.prems(4) ok by (auto simp: sorted_append record_ok_def)
    ultimately show ?thesis
      using Cons.IH [of "g_now g" "run_guess hash a s g" "h @ [g_now g]"] Cons.prems False by simp
  qed
qed simp

text \<open>No attempt is on record and no lockout: at first, and after each redemption.\<close>

definition record_cleared :: "rate_limits \<Rightarrow> actor \<Rightarrow> bool" where
  "record_cleared db a \<longleftrightarrow> (case js_get db a of None \<Rightarrow> True | Some r \<Rightarrow> attemptTimestamps r = [] \<and> lockedUntil r = None)"

lemma reset_clears: "record_cleared (resetRateLimit a db) a"
  by (simp add: record_cleared_def resetRateLimit_def split: option.splits)

text \<open>C22: Codes cannot be guessed by brute force. Of an unbroken series of wrong codes of an actor, however the
  sessions and contacts change between them, at most five in any fifteen minutes are compared with the stored codes; the
  others are turned away by the lockout. The series starts from a cleared record, as a new actor has it and as every
  redemption leaves it (so that a right code in between starts a new series), and the clock does not go backwards. A
  code is wrong when no live session of the channel that the actor may redeem has its digest.\<close>

theorem guessing_is_bounded:
  assumes "\<forall>g \<in> set gs. wrong_guess hash a g" "sorted (map g_now gs)" "record_cleared (v_limits s) a"
  shows "length (filter (\<lambda>y. x - 15 * 60 * 1000 < y \<and> y \<le> x) (compared hash a s gs)) \<le> 5"
proof -
  have "record_ok (js_get (v_limits s) a) [] t" for t
    using assms(3) by (auto simp: record_cleared_def record_ok_def last_burst_def split: option.splits)
  moreover have "window_ok []" by (simp add: window_ok_def)
  moreover obtain t where "sorted (t # map g_now gs)" using assms(2) by (cases gs) (auto intro: that)
  ultimately have "window_ok ([] @ compared hash a s gs)"
    using guesses_bounded [OF assms(1), of t s "[]"] by simp
  then show ?thesis by (simp add: window_ok_def RATE_LIMIT_WINDOW_MS_def RATE_LIMIT_MAX_ATTEMPTS_def)
qed

definition demo_guess :: "int \<Rightarrow> guess" where
  "demo_guess n = \<lparr>g_secret = ''000000'', g_now = n, g_sessions = v_sessions demo_gateway, g_contacts = demo_contacts,
     g_fresh = ''f'', g_effect = demo_effect\<rparr>"

theorem guessing_is_bounded_witness:
  "compared (\<lambda>x. x) (''slack'', ''u1'', ''c1'') demo_gateway (map demo_guess [1, 2, 3, 4, 5, 6, 7]) = [1, 2, 3, 4, 5]
   \<and> length (filter (\<lambda>y. 7 - 15 * 60 * 1000 < y \<and> y \<le> 7)
       (compared (\<lambda>x. x) (''slack'', ''u1'', ''c1'') demo_gateway (map demo_guess [1, 2, 3, 4, 5, 6, 7]))) \<le> 5"
proof (rule conjI)
  show "compared (\<lambda>x. x) (''slack'', ''u1'', ''c1'') demo_gateway (map demo_guess [1, 2, 3, 4, 5, 6, 7]) = [1, 2, 3, 4, 5]"
    by code_simp
  have "list_all (wrong_guess (\<lambda>x. x) (''slack'', ''u1'', ''c1'')) (map demo_guess [1, 2, 3, 4, 5, 6, 7])" by code_simp
  then have "\<forall>g \<in> set (map demo_guess [1, 2, 3, 4, 5, 6, 7]). wrong_guess (\<lambda>x. x) (''slack'', ''u1'', ''c1'') g"
    by (simp add: list_all_iff)
  moreover have "sorted (map g_now (map demo_guess [1, 2, 3, 4, 5, 6, 7]))" by code_simp
  moreover have "record_cleared (v_limits demo_gateway) (''slack'', ''u1'', ''c1'')" by code_simp
  ultimately show "length (filter (\<lambda>y. 7 - 15 * 60 * 1000 < y \<and> y \<le> 7)
       (compared (\<lambda>x. x) (''slack'', ''u1'', ''c1'') demo_gateway (map demo_guess [1, 2, 3, 4, 5, 6, 7]))) \<le> 5"
    by (rule guessing_is_bounded)
qed

section \<open>An observation\<close>

text \<open>The compensation after a failed trusted-contact side effect restores the session although a newer code was
  minted for the same identity meanwhile: two codes of that identity are then redeemable.\<close>

definition contact_params :: outbound_params where
  "contact_params = demo_params\<lparr>o_verificationPurpose := Some TrustedContact\<rparr>"

definition newer_mint :: side_effect where
  "newer_mint = \<lparr>outcome = ContactThrew,
     meanwhile = (\<lambda>s. s\<lparr>v_sessions := fst (createOutboundSession ''s2'' ''654321'' 2000 AwaitingResponse contact_params 7 (v_sessions s))\<rparr>),
     clock_then = 9, stub_invited = (\<lambda>_. False), stub_probe = None, stub_meanwhile = (\<lambda>s. s)\<rparr>"

lemma superseded_code_restored:
  "(let s = demo_gateway\<lparr>v_sessions := fst (createOutboundSession ''s1'' ''123456'' 1000 AwaitingResponse contact_params 1 [])\<rparr>;
        r = validateAndConsumeSession (\<lambda>x. x) ''slack'' ''123456'' ''u1'' ''c1'' 5 ''f'' ''g'' newer_mint s
    in snd r = SideEffectError \<and> map outbound_live (v_sessions (fst r)) = [True, True]
       \<and> map session_identity (v_sessions (fst r)) = [Some (ExternalUserId, ''u1''), Some (ExternalUserId, ''u1'')])"
  by code_simp

end
