(* ===== verification/Credential_Handles.thy ===== *)
theory Credential_Handles
  imports Prelude
begin

text \<open>
  Credential handles (\<^verbatim>\<open>packages/service-contracts/src/handles.ts\<close>): the strings by which the assistant
  names a credential without holding it, their constructors and the parser. Parse errors are a datatype; the
  \<^verbatim>\<open>raw\<close> field of a parsed handle is the parsed string.
\<close>

section \<open>Handles\<close>

datatype parsed_handle =
    LocalStaticHandle string string string
  | LocalOAuthHandle string string string
  | PlatformOAuthHandle string string

datatype handle_error =
    MissingPrefix string
  | InvalidLocalStatic string
  | InvalidLocalOAuth string
  | MissingConnectionId string
  | UnknownPrefix string string

definition LocalStatic :: string where "LocalStatic = ''local_static''"
definition LocalOAuth :: string where "LocalOAuth = ''local_oauth''"
definition PlatformOAuth :: string where "PlatformOAuth = ''platform_oauth''"

definition localStaticHandle :: "string \<Rightarrow> string \<Rightarrow> string" where
  "localStaticHandle service field = LocalStatic @ '':'' @ service @ ''/'' @ field"

definition localOAuthHandle :: "string \<Rightarrow> string \<Rightarrow> string" where
  "localOAuthHandle providerKey connectionId = LocalOAuth @ '':'' @ providerKey @ ''/'' @ connectionId"

definition platformOAuthHandle :: "string \<Rightarrow> string" where
  "platformOAuthHandle connectionId = PlatformOAuth @ '':'' @ connectionId"

text \<open>The two parts around the first slash; none when the slash is missing, first or last.\<close>

definition slash_parts :: "string \<Rightarrow> (string \<times> string) option" where
  "slash_parts rest =
     (case index_of (CHR ''/'') rest of
        None \<Rightarrow> None
      | Some i \<Rightarrow> if i = 0 \<or> i = length rest - 1 then None else Some (take i rest, drop (i + 1) rest))"

definition parseHandle :: "string \<Rightarrow> handle_error + parsed_handle" where
  "parseHandle raw =
     (case index_of (CHR '':'') raw of
        None \<Rightarrow> Inl (MissingPrefix raw)
      | Some colonIdx \<Rightarrow>
          (let prefix = take colonIdx raw; rest = drop (colonIdx + 1) raw
           in if prefix = LocalStatic
              then (case slash_parts rest of
                      None \<Rightarrow> Inl (InvalidLocalStatic raw)
                    | Some (service, field) \<Rightarrow> Inr (LocalStaticHandle service field raw))
              else if prefix = LocalOAuth
              then (case slash_parts rest of
                      None \<Rightarrow> Inl (InvalidLocalOAuth raw)
                    | Some (providerKey, connectionId) \<Rightarrow> Inr (LocalOAuthHandle providerKey connectionId raw))
              else if prefix = PlatformOAuth
              then (if rest = [] then Inl (MissingConnectionId raw) else Inr (PlatformOAuthHandle rest raw))
              else Inl (UnknownPrefix prefix raw)))"

definition valid_handle :: "string \<Rightarrow> bool" where
  "valid_handle val = (case parseHandle val of Inr _ \<Rightarrow> True | Inl _ \<Rightarrow> False)"

section \<open>Round trip\<close>

lemma index_of_Some_iff: "index_of c s = Some i \<longleftrightarrow> (\<exists>p r. s = p @ c # r \<and> c \<notin> set p \<and> length p = i)"
proof
  assume "index_of c s = Some i"
  then show "\<exists>p r. s = p @ c # r \<and> c \<notin> set p \<and> length p = i"
  proof (induction s arbitrary: i)
    case (Cons x xs)
    show ?case
    proof (cases "x = c")
      case True
      then show ?thesis using Cons.prems by (intro exI [of _ "[]"] exI [of _ xs]) auto
    next
      case False
      then obtain j where "index_of c xs = Some j" "i = Suc j" using Cons.prems by auto
      with Cons.IH obtain p r where "xs = p @ c # r" "c \<notin> set p" "length p = j" by blast
      then show ?thesis using False \<open>i = Suc j\<close> by (intro exI [of _ "x # p"] exI [of _ r]) auto
    qed
  qed simp
next
  assume "\<exists>p r. s = p @ c # r \<and> c \<notin> set p \<and> length p = i"
  then obtain p r where "s = p @ c # r" "c \<notin> set p" "length p = i" by blast
  then show "index_of c s = Some i" by (induction p arbitrary: s i) auto
qed

lemma slash_parts_iff:
  "slash_parts rest = Some (a, b) \<longleftrightarrow> rest = a @ ''/'' @ b \<and> CHR ''/'' \<notin> set a \<and> a \<noteq> [] \<and> b \<noteq> []"
proof
  assume "slash_parts rest = Some (a, b)"
  then obtain i where i: "index_of (CHR ''/'') rest = Some i" "i \<noteq> 0" "i \<noteq> length rest - 1"
    "a = take i rest" "b = drop (i + 1) rest"
    by (auto simp: slash_parts_def split: option.splits if_splits)
  from i(1) obtain p r where "rest = p @ CHR ''/'' # r" "CHR ''/'' \<notin> set p" "length p = i"
    unfolding index_of_Some_iff by blast
  then show "rest = a @ ''/'' @ b \<and> CHR ''/'' \<notin> set a \<and> a \<noteq> [] \<and> b \<noteq> []" using i by auto
next
  assume r: "rest = a @ ''/'' @ b \<and> CHR ''/'' \<notin> set a \<and> a \<noteq> [] \<and> b \<noteq> []"
  then have "index_of (CHR ''/'') rest = Some (length a)" unfolding index_of_Some_iff by auto
  then show "slash_parts rest = Some (a, b)" using r by (auto simp: slash_parts_def)
qed

text \<open>The string a handle stands for, and which parts a handle may have.\<close>

fun print_handle :: "parsed_handle \<Rightarrow> string" where
  "print_handle (LocalStaticHandle service field raw) = localStaticHandle service field"
| "print_handle (LocalOAuthHandle providerKey connectionId raw) = localOAuthHandle providerKey connectionId"
| "print_handle (PlatformOAuthHandle connectionId raw) = platformOAuthHandle connectionId"

fun raw_of :: "parsed_handle \<Rightarrow> string" where
  "raw_of (LocalStaticHandle service field raw) = raw"
| "raw_of (LocalOAuthHandle providerKey connectionId raw) = raw"
| "raw_of (PlatformOAuthHandle connectionId raw) = raw"

fun handle_ok :: "parsed_handle \<Rightarrow> bool" where
  "handle_ok (LocalStaticHandle service field raw) = (service \<noteq> [] \<and> field \<noteq> [] \<and> CHR ''/'' \<notin> set service)"
| "handle_ok (LocalOAuthHandle providerKey connectionId raw) =
     (providerKey \<noteq> [] \<and> connectionId \<noteq> [] \<and> CHR ''/'' \<notin> set providerKey)"
| "handle_ok (PlatformOAuthHandle connectionId raw) = (connectionId \<noteq> [])"

lemmas handle_types = LocalStatic_def LocalOAuth_def PlatformOAuth_def

lemma colon_split: "CHR '':'' \<notin> set p \<Longrightarrow> index_of (CHR '':'') (p @ '':'' @ r) = Some (length p)"
  unfolding index_of_Some_iff by auto

lemma parseHandle_prefixed:
  assumes "CHR '':'' \<notin> set p"
  shows "parseHandle (p @ '':'' @ r) =
     (let raw = p @ '':'' @ r
      in if p = LocalStatic
         then (case slash_parts r of None \<Rightarrow> Inl (InvalidLocalStatic raw) | Some (a, b) \<Rightarrow> Inr (LocalStaticHandle a b raw))
         else if p = LocalOAuth
         then (case slash_parts r of None \<Rightarrow> Inl (InvalidLocalOAuth raw) | Some (a, b) \<Rightarrow> Inr (LocalOAuthHandle a b raw))
         else if p = PlatformOAuth
         then (if r = [] then Inl (MissingConnectionId raw) else Inr (PlatformOAuthHandle r raw))
         else Inl (UnknownPrefix p raw))"
  unfolding parseHandle_def colon_split [OF assms] option.case Let_def by simp

lemma parse_print: "handle_ok h \<Longrightarrow> raw_of h = print_handle h \<Longrightarrow> parseHandle (print_handle h) = Inr h"
proof (cases h)
  case (LocalStaticHandle a b raw)
  assume "handle_ok h" "raw_of h = print_handle h"
  then have "slash_parts (a @ ''/'' @ b) = Some (a, b)" "raw = LocalStatic @ '':'' @ a @ ''/'' @ b"
    using LocalStaticHandle by (auto simp: slash_parts_iff localStaticHandle_def)
  then show ?thesis
    using LocalStaticHandle parseHandle_prefixed [of LocalStatic "a @ ''/'' @ b"]
    by (simp add: localStaticHandle_def handle_types)
next
  case (LocalOAuthHandle a b raw)
  assume "handle_ok h" "raw_of h = print_handle h"
  then have "slash_parts (a @ ''/'' @ b) = Some (a, b)" "raw = LocalOAuth @ '':'' @ a @ ''/'' @ b"
    using LocalOAuthHandle by (auto simp: slash_parts_iff localOAuthHandle_def)
  then show ?thesis
    using LocalOAuthHandle parseHandle_prefixed [of LocalOAuth "a @ ''/'' @ b"]
    by (simp add: localOAuthHandle_def handle_types)
next
  case (PlatformOAuthHandle c raw)
  assume "handle_ok h" "raw_of h = print_handle h"
  then show ?thesis
    using PlatformOAuthHandle parseHandle_prefixed [of PlatformOAuth c]
    by (simp add: platformOAuthHandle_def handle_types)
qed

lemma print_parse:
  assumes "parseHandle raw = Inr h"
  shows "handle_ok h \<and> raw_of h = raw \<and> print_handle h = raw"
proof -
  obtain i where "index_of (CHR '':'') raw = Some i"
    using assms by (cases "index_of (CHR '':'') raw") (auto simp: parseHandle_def)
  then obtain p r where r: "raw = p @ '':'' @ r" "CHR '':'' \<notin> set p"
    unfolding index_of_Some_iff by auto
  show ?thesis
    using assms unfolding r(1) parseHandle_prefixed [OF r(2)] Let_def
    by (auto simp: slash_parts_iff localStaticHandle_def localOAuthHandle_def platformOAuthHandle_def
        split: if_splits option.splits)
qed

text \<open>Parsing and printing handles are inverse to each other: a string parses to a handle exactly when it is the
  string built by that handle's constructor from non-empty parts, the first of them without a slash.\<close>

theorem handle_roundtrip:
  "parseHandle raw = Inr h \<longleftrightarrow> handle_ok h \<and> raw_of h = raw \<and> print_handle h = raw"
  using parse_print print_parse by metis

lemma first_split_unique:
  assumes "p @ c # r = p' @ c # r'" "c \<notin> set p" "c \<notin> set p'"
  shows "p = p' \<and> r = r'"
proof -
  have "index_of c (p @ c # r) = Some (length p)" "index_of c (p' @ c # r') = Some (length p')"
    using assms(2,3) unfolding index_of_Some_iff by blast+
  then have "length p = length p'" using assms(1) by simp
  then show ?thesis using assms(1) by simp
qed

definition ill_formed :: "string \<Rightarrow> bool" where
  "ill_formed r \<longleftrightarrow> CHR ''/'' \<notin> set r \<or> hd r = CHR ''/'' \<or> (\<exists>a. r = a @ ''/'' \<and> CHR ''/'' \<notin> set a)"

lemma slash_parts_None: "slash_parts r = None \<longleftrightarrow> ill_formed r"
proof (cases "CHR ''/'' \<in> set r")
  case False
  then have "index_of (CHR ''/'') r = None" by (simp add: index_of_None)
  then show ?thesis using False by (simp add: slash_parts_def ill_formed_def)
next
  case True
  then obtain a b where r: "r = a @ CHR ''/'' # b" "CHR ''/'' \<notin> set a" using split_list_first by metis
  then have "index_of (CHR ''/'') r = Some (length a)" unfolding index_of_Some_iff by blast
  then have none: "slash_parts r = None \<longleftrightarrow> a = [] \<or> b = []" using r by (auto simp: slash_parts_def)
  have "hd r = CHR ''/'' \<longleftrightarrow> a = []" using r by (cases a) auto
  moreover have "(\<exists>a'. r = a' @ ''/'' \<and> CHR ''/'' \<notin> set a') \<longleftrightarrow> b = []"
    using r first_split_unique [of a "CHR ''/''" b _ "[]"] by auto
  ultimately show ?thesis using none True by (simp add: ill_formed_def)
qed

lemma parseHandle_prefixed_error:
  assumes "CHR '':'' \<notin> set p" "raw = p @ '':'' @ r"
  shows "parseHandle raw = Inl e \<longleftrightarrow>
     p = LocalStatic \<and> ill_formed r \<and> e = InvalidLocalStatic raw
     \<or> p = LocalOAuth \<and> ill_formed r \<and> e = InvalidLocalOAuth raw
     \<or> p = PlatformOAuth \<and> r = [] \<and> e = MissingConnectionId raw
     \<or> p \<notin> {LocalStatic, LocalOAuth, PlatformOAuth} \<and> e = UnknownPrefix p raw"
  unfolding assms(2) parseHandle_prefixed [OF assms(1)] Let_def slash_parts_None [symmetric]
  by (auto simp: handle_types split: option.split)

text \<open>The parser fails exactly on these strings, each with its own error: no colon; a local handle whose rest
  has no slash, starts with its first slash or ends with it; a platform handle with nothing after the colon; and any
  other type prefix.\<close>

theorem handle_errors:
  "parseHandle raw = Inl e \<longleftrightarrow>
     (CHR '':'' \<notin> set raw \<and> e = MissingPrefix raw)
     \<or> (\<exists>p r. raw = p @ '':'' @ r \<and> CHR '':'' \<notin> set p
         \<and> (p = LocalStatic \<and> ill_formed r \<and> e = InvalidLocalStatic raw
            \<or> p = LocalOAuth \<and> ill_formed r \<and> e = InvalidLocalOAuth raw
            \<or> p = PlatformOAuth \<and> r = [] \<and> e = MissingConnectionId raw
            \<or> p \<notin> {LocalStatic, LocalOAuth, PlatformOAuth} \<and> e = UnknownPrefix p raw))"
proof (cases "CHR '':'' \<in> set raw")
  case False
  then have "index_of (CHR '':'') raw = None" by (simp add: index_of_None)
  then show ?thesis using False by (auto simp: parseHandle_def)
next
  case True
  then obtain p r where r: "raw = p @ '':'' @ r" "CHR '':'' \<notin> set p"
    using split_list_first [OF True] by auto
  have "p' = p \<and> r' = r" if "raw = p' @ '':'' @ r'" "CHR '':'' \<notin> set p'" for p' r'
    using that r first_split_unique [of p "CHR '':''" r p' r'] by auto
  then show ?thesis
    unfolding parseHandle_prefixed_error [OF r(2,1)] using r True by blast
qed

end
