(* ===== verification/Call_Store.thy ===== *)
theory Call_Store
  imports Prelude
begin

text \<open>
  Telephone calls (\<^verbatim>\<open>assistant/src/calls/\<close>): the status machine
  (\<^verbatim>\<open>call-state-machine.ts\<close>), the session, event and question tables
  (\<^verbatim>\<open>call-store.ts\<close>) and the lease file that tells other processes which calls are
  live (\<^verbatim>\<open>active-call-lease.ts\<close>).

  A table is the list of its rows in rowid order; the constraints of the schema (primary keys,
  the unique provider/SID index, foreign keys) are errors of the insert or update that violates
  them. Ids (\<^verbatim>\<open>uuid()\<close>) and clock readings are arguments, one reading per operation.
  The lease file is absent, unreadable, or a version with its leases; \<open>disk\<close> says whether
  the file writes of an operation succeed.
\<close>

section \<open>The status machine\<close>

datatype call_status =
    Initiated | Ringing | InProgress | WaitingOnUser | Completed | Failed | Cancelled

fun ALLOWED_TRANSITIONS :: "call_status \<Rightarrow> call_status list" where
  "ALLOWED_TRANSITIONS Initiated = [Ringing, InProgress, WaitingOnUser, Completed, Failed, Cancelled]"
| "ALLOWED_TRANSITIONS Ringing = [InProgress, WaitingOnUser, Completed, Failed, Cancelled]"
| "ALLOWED_TRANSITIONS InProgress = [WaitingOnUser, Completed, Failed, Cancelled]"
| "ALLOWED_TRANSITIONS WaitingOnUser = [InProgress, Completed, Failed, Cancelled]"
| "ALLOWED_TRANSITIONS Completed = []"
| "ALLOWED_TRANSITIONS Failed = []"
| "ALLOWED_TRANSITIONS Cancelled = []"

definition TERMINAL_STATES :: "call_status list" where
  "TERMINAL_STATES = [Completed, Failed, Cancelled]"

definition isTerminalState :: "call_status \<Rightarrow> bool" where
  "isTerminalState st \<longleftrightarrow> st \<in> set TERMINAL_STATES"

datatype transition_result = Valid | FromTerminal call_status | NotAllowed call_status call_status

definition validateTransition :: "call_status \<Rightarrow> call_status \<Rightarrow> transition_result" where
  "validateTransition current next =
     (if current = next then Valid
      else if isTerminalState current then FromTerminal current
      else if next \<notin> set (ALLOWED_TRANSITIONS current) then NotAllowed current next
      else Valid)"

section \<open>Rows\<close>

datatype call_mode = NormalMode | VerificationMode | InviteMode

record call_session =
  session_id :: string
  conversationId :: string
  provider :: string
  providerCallSid :: "string option"
  fromNumber :: string
  toNumber :: string
  task :: "string option"
  status :: call_status
  callMode :: "call_mode option"
  verificationSessionId :: "string option"
  inviteFriendName :: "string option"
  inviteGuardianName :: "string option"
  callerIdentityMode :: "string option"
  callerIdentitySource :: "string option"
  skipDisclosure :: bool
  initiatedFromConversationId :: "string option"
  startedAt :: "int option"
  endedAt :: "int option"
  lastError :: "string option"
  createdAt :: int
  updatedAt :: int

record call_event =
  ev_id :: string
  ev_session :: string
  ev_type :: string
  ev_payload :: json
  ev_createdAt :: int

datatype question_status = PendingQ | AnsweredQ | ExpiredQ | CancelledQ

record pending_question =
  q_id :: string
  q_session :: string
  questionText :: string
  q_status :: question_status
  askedAt :: int
  answeredAt :: "int option"
  answerText :: "string option"

record lease =
  callSessionId :: string
  leaseCallSid :: "string option"
  leaseUpdatedAt :: int

datatype lease_file = NoFile | UnreadableFile | LeaseFile int "lease list"

record call_state =
  conversation_ids :: "string list"
  call_sessions :: "call_session list"
  call_events :: "call_event list"
  questions :: "pending_question list"
  lease_file :: lease_file

datatype call_error = ConstraintError | LeaseWriteError

section \<open>The lease file\<close>

definition ACTIVE_CALL_LEASES_VERSION :: int where
  "ACTIVE_CALL_LEASES_VERSION = 1"

definition loadLeaseFile :: "lease_file \<Rightarrow> lease list" where
  "loadLeaseFile f =
     (case f of
        NoFile \<Rightarrow> []
      | UnreadableFile \<Rightarrow> []
      | LeaseFile v ls \<Rightarrow>
          if v \<noteq> ACTIVE_CALL_LEASES_VERSION then [] else sort_key leaseUpdatedAt ls)"

definition saveLeaseFile :: "bool \<Rightarrow> lease list \<Rightarrow> call_error + lease_file" where
  "saveLeaseFile disk ls =
     (if disk then Inr (LeaseFile ACTIVE_CALL_LEASES_VERSION (sort_key leaseUpdatedAt ls))
      else Inl LeaseWriteError)"

text \<open>A failed unlink is logged and the file stays.\<close>

definition clearActiveCallLeases :: "bool \<Rightarrow> lease_file \<Rightarrow> lease_file" where
  "clearActiveCallLeases disk f = (if f = NoFile then f else if disk then NoFile else f)"

definition getActiveCallLease :: "lease_file \<Rightarrow> string \<Rightarrow> lease option" where
  "getActiveCallLease f sid = find (\<lambda>l. callSessionId l = sid) (loadLeaseFile f)"

definition lease_map :: "lease list \<Rightarrow> (string, lease) js_map" where
  "lease_map ls = foldl (\<lambda>m l. js_set (callSessionId l) l m) [] ls"

definition upsertActiveCallLease ::
  "bool \<Rightarrow> string \<Rightarrow> string option \<Rightarrow> int \<Rightarrow> lease_file \<Rightarrow> call_error + lease_file" where
  "upsertActiveCallLease disk sid callSid now f =
     (let current = lease_map (loadLeaseFile f);
          existing = js_get current sid;
          nextLease = \<lparr>callSessionId = sid,
            leaseCallSid = (case callSid of Some c \<Rightarrow> Some c
                            | None \<Rightarrow> Option.bind existing leaseCallSid),
            leaseUpdatedAt = now\<rparr>
      in saveLeaseFile disk (js_values (js_set sid nextLease current)))"

definition removeActiveCallLease :: "bool \<Rightarrow> string \<Rightarrow> lease_file \<Rightarrow> call_error + lease_file" where
  "removeActiveCallLease disk sid f =
     (let current = loadLeaseFile f;
          rest = filter (\<lambda>l. callSessionId l \<noteq> sid) current
      in if length rest = length current then Inr f
         else if rest = [] then Inr (clearActiveCallLeases disk f)
         else saveLeaseFile disk rest)"

text \<open>The three columns of a session the synchronisation reads
  (\<^verbatim>\<open>Pick<CallSession, "id" | "providerCallSid" | "status">\<close>).\<close>

record session_ref =
  ref_id :: string
  ref_sid :: "string option"
  ref_status :: call_status

definition ref_of :: "call_session \<Rightarrow> session_ref" where
  "ref_of r = \<lparr>ref_id = session_id r, ref_sid = providerCallSid r, ref_status = status r\<rparr>"

definition syncActiveCallLeaseFromSession ::
  "bool \<Rightarrow> int \<Rightarrow> session_ref option \<Rightarrow> lease_file \<Rightarrow> call_error + lease_file" where
  "syncActiveCallLeaseFromSession disk now sess f =
     (case sess of
        None \<Rightarrow> Inr f
      | Some r \<Rightarrow>
          if isTerminalState (ref_status r) then removeActiveCallLease disk (ref_id r) f
          else if getActiveCallLease f (ref_id r) = None \<and> ref_sid r = None then Inr f
          else upsertActiveCallLease disk (ref_id r) (ref_sid r) now f)"

definition session_lease :: "int \<Rightarrow> call_session \<Rightarrow> lease" where
  "session_lease now r =
     \<lparr>callSessionId = session_id r, leaseCallSid = providerCallSid r, leaseUpdatedAt = now\<rparr>"

definition reconcileActiveCallLeases ::
  "bool \<Rightarrow> int \<Rightarrow> call_session list \<Rightarrow> lease_file \<Rightarrow> call_error + lease_file" where
  "reconcileActiveCallLeases disk now sessions f =
     (let nextLeases = map (session_lease now) (filter (\<lambda>r. \<not> isTerminalState (status r)) sessions)
      in if nextLeases = [] then Inr (clearActiveCallLeases disk f)
         else saveLeaseFile disk nextLeases)"

section \<open>Sessions\<close>

record call_opts =
  o_conversationId :: string
  o_provider :: string
  o_fromNumber :: string
  o_toNumber :: string
  o_task :: "string option"
  o_callMode :: "call_mode option"
  o_verificationSessionId :: "string option"
  o_inviteFriendName :: "string option"
  o_inviteGuardianName :: "string option"
  o_callerIdentityMode :: "string option"
  o_callerIdentitySource :: "string option"
  o_skipDisclosure :: "bool option"
  o_initiatedFrom :: "string option"

definition new_session :: "call_opts \<Rightarrow> string \<Rightarrow> int \<Rightarrow> call_session" where
  "new_session opts i now =
     \<lparr>session_id = i, conversationId = o_conversationId opts, provider = o_provider opts,
      providerCallSid = None, fromNumber = o_fromNumber opts, toNumber = o_toNumber opts,
      task = o_task opts, status = Initiated, callMode = o_callMode opts,
      verificationSessionId = o_verificationSessionId opts,
      inviteFriendName = o_inviteFriendName opts, inviteGuardianName = o_inviteGuardianName opts,
      callerIdentityMode = o_callerIdentityMode opts,
      callerIdentitySource = o_callerIdentitySource opts,
      skipDisclosure = (case o_skipDisclosure opts of Some b \<Rightarrow> b | None \<Rightarrow> False),
      initiatedFromConversationId = o_initiatedFrom opts,
      startedAt = None, endedAt = None, lastError = None, createdAt = now, updatedAt = now\<rparr>"

definition getCallSession :: "call_state \<Rightarrow> string \<Rightarrow> call_session option" where
  "getCallSession s i = find (\<lambda>r. session_id r = i) (call_sessions s)"

definition createCallSession ::
  "call_opts \<Rightarrow> string \<Rightarrow> int \<Rightarrow> call_state \<Rightarrow> call_state \<times> (call_error + call_session)" where
  "createCallSession opts i now s =
     (if getCallSession s i \<noteq> None \<or> o_conversationId opts \<notin> set (conversation_ids s)
      then (s, Inl ConstraintError)
      else (let row = new_session opts i now
            in (s\<lparr>call_sessions := call_sessions s @ [row]\<rparr>, Inr row)))"

definition getCallSessionByCallSid :: "call_state \<Rightarrow> string \<Rightarrow> call_session option" where
  "getCallSessionByCallSid s callSid =
     find (\<lambda>r. providerCallSid r = Some callSid) (call_sessions s)"

text \<open>Most recent first; \<^verbatim>\<open>get()\<close> takes the first row.\<close>

definition getActiveCallSessionForConversation :: "call_state \<Rightarrow> string \<Rightarrow> call_session option" where
  "getActiveCallSessionForConversation s c =
     (case sort_key (\<lambda>r. - createdAt r)
             (filter (\<lambda>r. (conversationId r = c \<or> initiatedFromConversationId r = Some c)
                          \<and> status r \<notin> {Completed, Failed, Cancelled}) (call_sessions s)) of
        [] \<Rightarrow> None
      | r # _ \<Rightarrow> Some r)"

definition listRecoverableCalls :: "call_state \<Rightarrow> call_session list" where
  "listRecoverableCalls s =
     filter (\<lambda>r. status r \<notin> {Completed, Failed, Cancelled}) (call_sessions s)"

record call_updates =
  u_status :: "call_status option"
  u_providerCallSid :: "string option option"
  u_startedAt :: "int option option"
  u_endedAt :: "int option option"
  u_lastError :: "string option option"
  u_conversationId :: "string option"
  u_initiatedFrom :: "string option option"

definition no_updates :: call_updates where
  "no_updates = \<lparr>u_status = None, u_providerCallSid = None, u_startedAt = None, u_endedAt = None,
     u_lastError = None, u_conversationId = None, u_initiatedFrom = None\<rparr>"

definition or_keep :: "'a option \<Rightarrow> 'a \<Rightarrow> 'a" where
  "or_keep u old = (case u of Some v \<Rightarrow> v | None \<Rightarrow> old)"

definition apply_updates :: "call_updates \<Rightarrow> int \<Rightarrow> call_session \<Rightarrow> call_session" where
  "apply_updates u now r =
     r\<lparr>status := or_keep (u_status u) (status r),
       providerCallSid := or_keep (u_providerCallSid u) (providerCallSid r),
       startedAt := or_keep (u_startedAt u) (startedAt r),
       endedAt := or_keep (u_endedAt u) (endedAt r),
       lastError := or_keep (u_lastError u) (lastError r),
       conversationId := or_keep (u_conversationId u) (conversationId r),
       initiatedFromConversationId := or_keep (u_initiatedFrom u) (initiatedFromConversationId r),
       updatedAt := now\<rparr>"

text \<open>The constraints an update is checked against, on the columns it sets: a known conversation,
  and a provider/SID pair no other row has.\<close>

definition row_allowed :: "call_state \<Rightarrow> call_updates \<Rightarrow> call_session \<Rightarrow> bool" where
  "row_allowed s u r \<longleftrightarrow>
     (u_conversationId u = None \<or> conversationId r \<in> set (conversation_ids s)) \<and>
     (u_providerCallSid u = None \<or> providerCallSid r = None \<or>
      \<not> list_ex (\<lambda>r'. session_id r' \<noteq> session_id r \<and> provider r' = provider r
                      \<and> providerCallSid r' = providerCallSid r) (call_sessions s))"

definition update_row :: "string \<Rightarrow> call_updates \<Rightarrow> int \<Rightarrow> call_state \<Rightarrow> call_error + call_state" where
  "update_row i u now s =
     (case getCallSession s i of
        None \<Rightarrow> Inr s
      | Some r \<Rightarrow>
          if row_allowed s u (apply_updates u now r)
          then Inr (s\<lparr>call_sessions :=
                 map (\<lambda>r. if session_id r = i then apply_updates u now r else r) (call_sessions s)\<rparr>)
          else Inl ConstraintError)"

definition transition_refused :: "call_state \<Rightarrow> string \<Rightarrow> call_updates \<Rightarrow> bool" where
  "transition_refused s i u =
     (case u_status u of
        None \<Rightarrow> False
      | Some st \<Rightarrow>
          (case getCallSession s i of
             None \<Rightarrow> False
           | Some cur \<Rightarrow> validateTransition (status cur) st \<noteq> Valid))"

type_synonym call_hook = "call_state \<Rightarrow> call_state \<times> call_error option"

text \<open>The session update: refuse an invalid transition without an error, write the row, run the
  caller's hook, then bring the lease file in line. A failing lease write is logged only.\<close>

definition updateCallSession ::
  "string \<Rightarrow> call_updates \<Rightarrow> call_hook option \<Rightarrow> bool \<Rightarrow> int \<Rightarrow> call_state \<Rightarrow>
   call_state \<times> call_error option" where
  "updateCallSession i u beforeLeaseSync disk now s =
     (let shouldSync = (u_providerCallSid u \<noteq> None \<or> u_status u \<noteq> None) in
      if transition_refused s i u then (s, None)
      else (case update_row i u now s of
              Inl e \<Rightarrow> (s, Some e)
            | Inr s1 \<Rightarrow>
                (case (case beforeLeaseSync of None \<Rightarrow> (s1, None) | Some h \<Rightarrow> h s1) of
                   (s2, Some e) \<Rightarrow> (s2, Some e)
                 | (s2, None) \<Rightarrow>
                     if \<not> shouldSync then (s2, None)
                     else (case syncActiveCallLeaseFromSession disk now (map_option ref_of (getCallSession s2 i)) (lease_file s2) of
                             Inl _ \<Rightarrow> (s2, None)
                           | Inr f \<Rightarrow> (s2\<lparr>lease_file := f\<rparr>, None)))))"

section \<open>Events and questions\<close>

definition recordCallEvent ::
  "string \<Rightarrow> string \<Rightarrow> json option \<Rightarrow> string \<Rightarrow> int \<Rightarrow> call_state \<Rightarrow> call_state \<times> call_error option" where
  "recordCallEvent sid eventType payload i now s =
     (if getCallSession s sid = None \<or> list_ex (\<lambda>e. ev_id e = i) (call_events s)
      then (s, Some ConstraintError)
      else (s\<lparr>call_events := call_events s @
              [\<lparr>ev_id = i, ev_session = sid, ev_type = eventType,
                ev_payload = (case payload of Some p \<Rightarrow> p | None \<Rightarrow> JObj []), ev_createdAt = now\<rparr>]\<rparr>,
            None))"

definition getCallEvents :: "call_state \<Rightarrow> string \<Rightarrow> call_event list" where
  "getCallEvents s sid = sort_key ev_createdAt (filter (\<lambda>e. ev_session e = sid) (call_events s))"

definition createPendingQuestion ::
  "string \<Rightarrow> string \<Rightarrow> string \<Rightarrow> int \<Rightarrow> call_state \<Rightarrow> call_state \<times> call_error option" where
  "createPendingQuestion sid qtext i now s =
     (if getCallSession s sid = None \<or> list_ex (\<lambda>q. q_id q = i) (questions s)
      then (s, Some ConstraintError)
      else (s\<lparr>questions := questions s @
              [\<lparr>q_id = i, q_session = sid, questionText = qtext, q_status = PendingQ, askedAt = now,
                answeredAt = None, answerText = None\<rparr>]\<rparr>, None))"

definition getPendingQuestion :: "call_state \<Rightarrow> string \<Rightarrow> pending_question option" where
  "getPendingQuestion s sid =
     (case sort_key (\<lambda>q. - askedAt q)
             (filter (\<lambda>q. q_session q = sid \<and> q_status q = PendingQ) (questions s)) of
        [] \<Rightarrow> None
      | q # _ \<Rightarrow> Some q)"

definition answerPendingQuestion :: "string \<Rightarrow> string \<Rightarrow> int \<Rightarrow> call_state \<Rightarrow> call_state" where
  "answerPendingQuestion i answer now s =
     s\<lparr>questions := map (\<lambda>q. if q_id q = i \<and> q_status q = PendingQ
        then q\<lparr>q_status := AnsweredQ, answerText := Some answer, answeredAt := Some now\<rparr> else q)
        (questions s)\<rparr>"

definition expirePendingQuestions :: "string \<Rightarrow> call_state \<Rightarrow> call_state" where
  "expirePendingQuestions sid s =
     s\<lparr>questions := map (\<lambda>q. if q_session q = sid \<and> q_status q = PendingQ
        then q\<lparr>q_status := ExpiredQ\<rparr> else q) (questions s)\<rparr>"

section \<open>Operations as steps\<close>

text \<open>
  The calls the rest of the daemon makes on this component. \<open>UpdateWithEvent\<close> is the update the
  status webhook makes, whose hook records a call event (\<^verbatim>\<open>twilio-routes.ts\<close>). The last two
  are the direct lease writes of the code that places calls (\<^verbatim>\<open>call-domain.ts\<close>): the lease of a
  new call, written after the callback URLs were awaited, and the cancellation of a call that was
  aborted before it was placed.
\<close>

definition leaseNewCall :: "string \<Rightarrow> bool \<Rightarrow> int \<Rightarrow> call_state \<Rightarrow> call_state \<times> call_error option" where
  "leaseNewCall i disk now s =
     (case upsertActiveCallLease disk i None now (lease_file s) of
        Inl e \<Rightarrow> (s, Some e)
      | Inr f \<Rightarrow> (s\<lparr>lease_file := f\<rparr>, None))"

definition cancelBeforePlacing :: "string \<Rightarrow> bool \<Rightarrow> int \<Rightarrow> call_state \<Rightarrow> call_state \<times> call_error option" where
  "cancelBeforePlacing i disk now s =
     (case updateCallSession i (no_updates\<lparr>u_status := Some Cancelled, u_endedAt := Some (Some now),
               u_lastError := Some (Some ''Cancelled before the call was placed'')\<rparr>) None disk now s of
        (s1, Some e) \<Rightarrow> (s1, Some e)
      | (s1, None) \<Rightarrow>
          (case syncActiveCallLeaseFromSession disk now
                  (Some \<lparr>ref_id = i, ref_sid = None, ref_status = Cancelled\<rparr>) (lease_file s1) of
             Inl e \<Rightarrow> (s1, Some e)
           | Inr f \<Rightarrow> (s1\<lparr>lease_file := f\<rparr>, None)))"

datatype call_op =
    CreateSession call_opts string int
  | UpdateSession string call_updates bool int
  | UpdateWithEvent string call_updates string "json option" string bool int
  | RecordEvent string string "json option" string int
  | AskQuestion string string string int
  | AnswerQuestion string string int
  | ExpireQuestions string
  | LeaseNewCall string bool int
  | CancelBeforePlacing string bool int

fun call_step :: "call_state \<Rightarrow> call_op \<Rightarrow> call_state" where
  "call_step s (CreateSession opts i now) = fst (createCallSession opts i now s)"
| "call_step s (UpdateSession i u disk now) = fst (updateCallSession i u None disk now s)"
| "call_step s (UpdateWithEvent i u ty p ei disk now) =
     fst (updateCallSession i u (Some (recordCallEvent i ty p ei now)) disk now s)"
| "call_step s (RecordEvent sid ty p i now) = fst (recordCallEvent sid ty p i now s)"
| "call_step s (AskQuestion sid q i now) = fst (createPendingQuestion sid q i now s)"
| "call_step s (AnswerQuestion i a now) = answerPendingQuestion i a now s"
| "call_step s (ExpireQuestions sid) = expirePendingQuestions sid s"
| "call_step s (LeaseNewCall i disk now) = fst (leaseNewCall i disk now s)"
| "call_step s (CancelBeforePlacing i disk now) = fst (cancelBeforePlacing i disk now s)"

definition disk_works :: "call_op \<Rightarrow> bool" where
  "disk_works e =
     (case e of UpdateSession _ _ d _ \<Rightarrow> d | UpdateWithEvent _ _ _ _ _ d _ \<Rightarrow> d
      | LeaseNewCall _ d _ \<Rightarrow> d | CancelBeforePlacing _ d _ \<Rightarrow> d | _ \<Rightarrow> True)"

section \<open>Terminal calls\<close>

text \<open>The statuses on their own: a requested status is taken when the transition is valid.\<close>

definition status_step :: "call_status \<Rightarrow> call_status option \<Rightarrow> call_status" where
  "status_step cur req =
     (case req of None \<Rightarrow> cur
      | Some st \<Rightarrow> if validateTransition cur st = Valid then st else cur)"

lemma isTerminalState_iff: "isTerminalState st \<longleftrightarrow> st = Completed \<or> st = Failed \<or> st = Cancelled"
  by (auto simp: isTerminalState_def TERMINAL_STATES_def)

lemma terminal_no_transition:
  "isTerminalState st \<Longrightarrow> validateTransition st st' = Valid \<Longrightarrow> st' = st"
  by (auto simp: validateTransition_def split: if_splits)

lemma live_can_fail: "\<not> isTerminalState st \<Longrightarrow> isTerminalState st' \<Longrightarrow> validateTransition st st' = Valid"
  by (cases st) (auto simp: validateTransition_def isTerminalState_iff)

interpretation call_statuses: absorbing_machine status_step "\<lambda>_. True" isTerminalState
  by unfold_locales (auto simp: status_step_def dest: terminal_no_transition split: option.splits)

lemma find_map_same_key:
  assumes "\<And>x. k (f x) = k x"
  shows "find (\<lambda>x. k x = i) (map f xs) = map_option f (find (\<lambda>x. k x = i) xs)"
  by (induction xs) (simp_all add: assms)

lemma find_append_None:
  "find P (xs @ ys) = (case find P xs of None \<Rightarrow> find P ys | Some x \<Rightarrow> Some x)"
  by (induction xs) auto

lemma find_mem: "find P xs = Some x \<Longrightarrow> x \<in> set xs \<and> P x"
  by (induction xs) (auto split: if_splits)

lemma session_id_apply [simp]: "session_id (apply_updates u now r) = session_id r"
  by (simp add: apply_updates_def)

lemma getCallSession_id: "getCallSession s i = Some r \<Longrightarrow> session_id r = i"
  unfolding getCallSession_def by (drule find_mem) simp

lemma update_row_session:
  assumes "update_row i u now s = Inr s'"
  shows "getCallSession s' j =
    (if j = i then map_option (apply_updates u now) (getCallSession s i) else getCallSession s j)"
proof -
  let ?f = "\<lambda>r. if session_id r = i then apply_updates u now r else r"
  have *: "find (\<lambda>r. session_id r = j) (map ?f (call_sessions s)) =
      map_option ?f (find (\<lambda>r. session_id r = j) (call_sessions s))"
    by (rule find_map_same_key) simp
  show ?thesis
  proof (cases "getCallSession s i")
    case None
    then show ?thesis using assms by (simp add: update_row_def)
  next
    case (Some r)
    then have sess: "call_sessions s' = map ?f (call_sessions s)"
      using assms by (auto simp: update_row_def split: if_splits)
    have id_j: "\<And>r'. getCallSession s j = Some r' \<Longrightarrow> session_id r' = j"
      unfolding getCallSession_def by (drule find_mem) simp
    have "getCallSession s' j = map_option ?f (getCallSession s j)"
      unfolding getCallSession_def sess by (rule *)
    then show ?thesis using id_j by (cases "getCallSession s j") auto
  qed
qed

lemma update_row_frame:
  "update_row i u now s = Inr s' \<Longrightarrow>
     lease_file s' = lease_file s \<and> questions s' = questions s \<and> call_events s' = call_events s
     \<and> conversation_ids s' = conversation_ids s"
  by (auto simp: update_row_def split: option.splits if_splits)

lemma recordCallEvent_frame [simp]:
  "call_sessions (fst (recordCallEvent sid ty p i now s)) = call_sessions s"
  "lease_file (fst (recordCallEvent sid ty p i now s)) = lease_file s"
  "questions (fst (recordCallEvent sid ty p i now s)) = questions s"
  by (simp_all add: recordCallEvent_def)

lemma getCallSession_frame:
  "call_sessions s' = call_sessions s \<Longrightarrow> getCallSession s' i = getCallSession s i"
  by (simp add: getCallSession_def)

text \<open>A hook that leaves the session table alone, as the webhook's does.\<close>

definition hook_keeps_sessions :: "call_hook option \<Rightarrow> bool" where
  "hook_keeps_sessions h \<longleftrightarrow>
     (\<forall>g s. h = Some g \<longrightarrow> call_sessions (fst (g s)) = call_sessions s
        \<and> lease_file (fst (g s)) = lease_file s)"

lemma hook_keeps_simps [simp]:
  "hook_keeps_sessions None" "hook_keeps_sessions (Some (recordCallEvent sid ty p i now))"
  by (simp_all add: hook_keeps_sessions_def)

definition hook_result :: "call_hook option \<Rightarrow> call_state \<Rightarrow> call_state \<times> call_error option" where
  "hook_result h s = (case h of None \<Rightarrow> (s, None) | Some g \<Rightarrow> g s)"

lemma hook_result_frame:
  assumes "hook_keeps_sessions h"
  shows "call_sessions (fst (hook_result h s)) = call_sessions s"
    and "lease_file (fst (hook_result h s)) = lease_file s"
  using assms by (auto simp: hook_result_def hook_keeps_sessions_def split: option.splits)

text \<open>What an update does to the session rows, on every branch.\<close>

lemma updateCallSession_sessions:
  assumes "hook_keeps_sessions h"
  shows "call_sessions (fst (updateCallSession i u h disk now s)) =
    (if transition_refused s i u then call_sessions s
     else (case update_row i u now s of Inl _ \<Rightarrow> call_sessions s | Inr s1 \<Rightarrow> call_sessions s1))"
  using hook_result_frame(1) [OF assms]
  unfolding updateCallSession_def Let_def hook_result_def [symmetric]
  by (auto split: sum.splits prod.splits option.splits) (metis fst_conv)+

lemma updateCallSession_get:
  assumes "hook_keeps_sessions h" "getCallSession s j = Some r"
  shows "getCallSession (fst (updateCallSession i u h disk now s)) j =
    (if j = i \<and> \<not> transition_refused s i u \<and> (\<exists>s1. update_row i u now s = Inr s1)
     then Some (apply_updates u now r) else Some r)"
proof (cases "update_row i u now s")
  case (Inl e)
  then show ?thesis
    using updateCallSession_sessions [OF assms(1), of i u disk now s] assms(2)
    by (simp add: getCallSession_def)
next
  case (Inr s1)
  then show ?thesis
    using updateCallSession_sessions [OF assms(1), of i u disk now s] assms(2)
      update_row_session [OF Inr, of j]
    by (auto simp: getCallSession_def)
qed

lemma status_apply: "status (apply_updates u now r) = or_keep (u_status u) (status r)"
  by (simp add: apply_updates_def)

lemma updateCallSession_status:
  assumes "hook_keeps_sessions h" "getCallSession s j = Some r"
  shows "\<exists>r' req. getCallSession (fst (updateCallSession i u h disk now s)) j = Some r'
    \<and> status r' = status_step (status r) req"
proof (cases "j = i \<and> \<not> transition_refused s i u \<and> (\<exists>s1. update_row i u now s = Inr s1)")
  case True
  then have "status (apply_updates u now r) = status_step (status r) (u_status u)"
    using assms(2) by (auto simp: status_apply or_keep_def status_step_def transition_refused_def
        split: option.splits)
  then show ?thesis using updateCallSession_get [OF assms, of i u disk now] True by auto
next
  case False
  then show ?thesis
    using updateCallSession_get [OF assms, of i u disk now]
    by (auto simp: status_step_def intro!: exI [of _ None])
qed

lemma getCallSession_create:
  assumes "getCallSession s j = Some r"
  shows "getCallSession (fst (createCallSession opts i now s)) j = Some r"
  using assms by (simp add: createCallSession_def Let_def getCallSession_def find_append_None)

lemma leaseNewCall_frame [simp]:
  "call_sessions (fst (leaseNewCall i disk now s)) = call_sessions s"
  "questions (fst (leaseNewCall i disk now s)) = questions s"
  by (simp_all add: leaseNewCall_def split: sum.split)

definition cancel_update :: "int \<Rightarrow> call_updates" where
  "cancel_update now = no_updates\<lparr>u_status := Some Cancelled, u_endedAt := Some (Some now),
     u_lastError := Some (Some ''Cancelled before the call was placed'')\<rparr>"

text \<open>To the tables a cancellation is its update; the lease is dropped when the update and the write
  succeed.\<close>

lemma cancelBeforePlacing_result:
  "fst (cancelBeforePlacing i disk now s) = fst (updateCallSession i (cancel_update now) None disk now s)
   \<or> (\<exists>f. fst (cancelBeforePlacing i disk now s)
             = (fst (updateCallSession i (cancel_update now) None disk now s))\<lparr>lease_file := f\<rparr>)"
  unfolding cancelBeforePlacing_def cancel_update_def [symmetric] by (auto split: prod.split option.split sum.split)

lemma cancelBeforePlacing_frame:
  "call_sessions (fst (cancelBeforePlacing i disk now s))
     = call_sessions (fst (updateCallSession i (cancel_update now) None disk now s))"
  "questions (fst (cancelBeforePlacing i disk now s))
     = questions (fst (updateCallSession i (cancel_update now) None disk now s))"
  using cancelBeforePlacing_result [of i disk now s] by auto

lemma call_step_status:
  assumes "getCallSession s j = Some r"
  shows "\<exists>r' req. getCallSession (call_step s e) j = Some r' \<and> status r' = status_step (status r) req"
proof -
  have same: "getCallSession s' j = Some r \<Longrightarrow>
      \<exists>r' req. getCallSession s' j = Some r' \<and> status r' = status_step (status r) req" for s'
    by (auto simp: status_step_def intro!: exI [of _ None])
  show ?thesis
  proof (cases e)
    case (CreateSession opts i now)
    then show ?thesis by (intro same) (simp add: getCallSession_create [OF assms])
  next
    case (AskQuestion sid q i now)
    then show ?thesis using assms by (intro same) (simp add: createPendingQuestion_def getCallSession_def)
  next
    case (AnswerQuestion i a now)
    then show ?thesis using assms by (intro same) (simp add: answerPendingQuestion_def getCallSession_def)
  next
    case (ExpireQuestions sid)
    then show ?thesis using assms by (intro same) (simp add: expirePendingQuestions_def getCallSession_def)
  next
    case (RecordEvent sid ty p i now)
    then show ?thesis using assms by (intro same) (simp add: getCallSession_def)
  next
    case (LeaseNewCall i d now)
    then show ?thesis using assms by (intro same) (simp add: getCallSession_def)
  next
    case (CancelBeforePlacing i d now)
    then show ?thesis
      using updateCallSession_status [OF hook_keeps_simps(1) assms, of i "cancel_update now" d now]
        getCallSession_frame [OF cancelBeforePlacing_frame(1), of i d now s j] by simp
  qed (simp_all del: ex_simps add: updateCallSession_status [OF hook_keeps_simps(1) assms]
      updateCallSession_status [OF hook_keeps_simps(2) assms])
qed

text \<open>Every run of the store moves the status of a session along the status machine.\<close>

lemma call_run_status:
  assumes "getCallSession s j = Some r"
  shows "\<exists>r' reqs. getCallSession (foldl call_step s es) j = Some r'
    \<and> status r' = foldl status_step (status r) reqs"
  using assms
proof (induction es arbitrary: s r)
  case Nil
  then show ?case by (auto intro!: exI [of _ "[]"])
next
  case (Cons e es)
  obtain r1 req where r1: "getCallSession (call_step s e) j = Some r1"
      "status r1 = status_step (status r) req"
    using call_step_status [OF Cons.prems] by blast
  obtain r' reqs where "getCallSession (foldl call_step (call_step s e) es) j = Some r'"
      "status r' = foldl status_step (status r1) reqs"
    using Cons.IH [OF r1(1)] by blast
  then show ?case using r1(2) by (auto intro!: exI [of _ "req # reqs"])
qed

text \<open>C34: a call that has ended stays ended. Whatever sequence of store operations follows
  (updates asking for other statuses, webhooks, questions, new sessions, failing disk writes), a
  session whose status is completed, failed or cancelled keeps its row and exactly that status.\<close>

theorem terminal_call_is_final:
  assumes "getCallSession s j = Some r" and "isTerminalState (status r)"
  shows "\<exists>r'. getCallSession (foldl call_step s es) j = Some r' \<and> status r' = status r"
  using call_run_status [OF assms(1), of es] call_statuses.final_run [OF TrueI assms(2)] by metis

definition sample_opts :: call_opts where
  "sample_opts = \<lparr>o_conversationId = ''c'', o_provider = ''twilio'', o_fromNumber = ''1'',
     o_toNumber = ''2'', o_task = None, o_callMode = None, o_verificationSessionId = None,
     o_inviteFriendName = None, o_inviteGuardianName = None, o_callerIdentityMode = None,
     o_callerIdentitySource = None, o_skipDisclosure = None, o_initiatedFrom = None\<rparr>"

definition sample_calls :: call_state where
  "sample_calls = \<lparr>conversation_ids = [''c''],
     call_sessions = [(new_session sample_opts ''s'' 0)\<lparr>status := Failed\<rparr>],
     call_events = [], questions = [], lease_file = NoFile\<rparr>"

theorem terminal_call_is_final_witness:
  "\<exists>r'. getCallSession (foldl call_step sample_calls
      [UpdateSession ''s'' (no_updates\<lparr>u_status := Some InProgress\<rparr>) True 5]) ''s'' = Some r'
    \<and> status r' = Failed"
  using terminal_call_is_final [of sample_calls "''s''" "(new_session sample_opts ''s'' 0)\<lparr>status := Failed\<rparr>"]
  by (simp add: sample_calls_def getCallSession_def new_session_def isTerminalState_iff
      del: foldl_Cons foldl_Nil)

section \<open>The lease file mirrors the live calls\<close>

definition file_ok :: "lease_file \<Rightarrow> bool" where
  "file_ok f \<longleftrightarrow> distinct (map callSessionId (loadLeaseFile f))"

lemma find_distinct_iff:
  "distinct (map k xs) \<Longrightarrow> find (\<lambda>x. k x = i) xs = Some x \<longleftrightarrow> x \<in> set xs \<and> k x = i"
  by (induction xs) auto

lemma find_None_iff_key: "find (\<lambda>x. k x = i) xs = None \<longleftrightarrow> i \<notin> set (map k xs)"
  by (auto simp: find_None_iff)

lemma find_cong_set:
  assumes "distinct (map k xs)" "distinct (map k ys)"
    and "\<And>x. k x = i \<Longrightarrow> x \<in> set xs \<longleftrightarrow> x \<in> set ys"
  shows "find (\<lambda>x. k x = i) xs = find (\<lambda>x. k x = i) ys"
proof -
  have "find (\<lambda>x. k x = i) xs = Some x \<longleftrightarrow> find (\<lambda>x. k x = i) ys = Some x" for x
    using assms(3) [of x] by (auto simp: find_distinct_iff [OF assms(1)] find_distinct_iff [OF assms(2)])
  then show ?thesis by (metis option.exhaust)
qed

lemma distinct_map_sort: "distinct (map k (sort_key g xs)) = distinct (map k xs)"
  by (metis distinct_map distinct_sort set_sort)

lemma loadLeaseFile_saved:
  "saveLeaseFile disk ls = Inr f \<Longrightarrow> set (loadLeaseFile f) = set ls
     \<and> distinct (map callSessionId (loadLeaseFile f)) = distinct (map callSessionId ls)"
  by (auto simp: saveLeaseFile_def loadLeaseFile_def distinct_map_sort split: if_splits)

lemma saved_lookup:
  assumes "saveLeaseFile disk ls = Inr f" "distinct (map callSessionId ls)"
  shows "file_ok f" and "getActiveCallLease f i = find (\<lambda>l. callSessionId l = i) ls"
proof -
  show "file_ok f" using loadLeaseFile_saved [OF assms(1)] assms(2) by (simp add: file_ok_def)
  show "getActiveCallLease f i = find (\<lambda>l. callSessionId l = i) ls"
    unfolding getActiveCallLease_def
    using loadLeaseFile_saved [OF assms(1)] assms(2) by (intro find_cong_set) auto
qed

text \<open>The \<^verbatim>\<open>Map\<close> built from the leases of the file.\<close>

definition lease_map_ok :: "(string, lease) js_map \<Rightarrow> bool" where
  "lease_map_ok m \<longleftrightarrow> wf_map m \<and> (\<forall>e \<in> set m. callSessionId (snd e) = fst e)"

lemma js_set_entries: "e \<in> set (js_set k v m) \<Longrightarrow> e = (k, v) \<or> e \<in> set m"
  by (induction k v m rule: js_set.induct) (auto split: if_splits)

lemma lease_map_ok_set: "lease_map_ok m \<Longrightarrow> callSessionId l = k \<Longrightarrow> lease_map_ok (js_set k l m)"
  by (auto simp: lease_map_ok_def dest!: js_set_entries)

lemma lease_map_snoc: "lease_map (ls @ [l]) = js_set (callSessionId l) l (lease_map ls)"
  by (simp add: lease_map_def)

lemma lease_map_ok_leases: "lease_map_ok (lease_map ls)"
  by (induction ls rule: rev_induct)
    (simp_all add: lease_map_snoc lease_map_ok_set, simp add: lease_map_def lease_map_ok_def)

lemma lease_map_get:
  "distinct (map callSessionId ls) \<Longrightarrow> js_get (lease_map ls) i = find (\<lambda>l. callSessionId l = i) ls"
proof (induction ls rule: rev_induct)
  case (snoc l ls)
  have "callSessionId l = i \<Longrightarrow> find (\<lambda>l. callSessionId l = i) ls = None"
    using snoc.prems by (simp add: find_None_iff_key)
  then show ?case using snoc by (auto simp: lease_map_snoc find_append_None split: option.splits)
qed (simp add: lease_map_def)

lemma lease_map_values:
  assumes "lease_map_ok m"
  shows "map callSessionId (js_values m) = js_keys m"
    and "find (\<lambda>l. callSessionId l = i) (js_values m) = js_get m i"
  using assms by (induction m) (auto simp: lease_map_ok_def wf_map_def js_get_def)

lemma upsert_lookup:
  assumes "file_ok f" "upsertActiveCallLease disk sid c now f = Inr f'"
  shows "file_ok f'"
    and "getActiveCallLease f' i =
      (if i = sid then Some \<lparr>callSessionId = sid,
          leaseCallSid = (case c of Some x \<Rightarrow> Some x
             | None \<Rightarrow> Option.bind (getActiveCallLease f sid) leaseCallSid),
          leaseUpdatedAt = now\<rparr>
       else getActiveCallLease f i)"
proof -
  let ?m = "lease_map (loadLeaseFile f)"
  have get: "js_get ?m k = getActiveCallLease f k" for k
    using assms(1) by (simp add: lease_map_get file_ok_def getActiveCallLease_def)
  define l where "l = \<lparr>callSessionId = sid, leaseCallSid = (case c of Some x \<Rightarrow> Some x
      | None \<Rightarrow> Option.bind (getActiveCallLease f sid) leaseCallSid), leaseUpdatedAt = now\<rparr>"
  have ok: "lease_map_ok (js_set sid l ?m)"
    by (rule lease_map_ok_set [OF lease_map_ok_leases]) (simp add: l_def)
  have saved: "saveLeaseFile disk (js_values (js_set sid l ?m)) = Inr f'"
    using assms(2) unfolding upsertActiveCallLease_def Let_def get l_def .
  have "distinct (map callSessionId (js_values (js_set sid l ?m)))"
    using ok unfolding lease_map_values(1) [OF ok] by (simp add: lease_map_ok_def wf_map_def)
  note look = saved_lookup [OF saved this]
  show "file_ok f'" by (rule look)
  show "getActiveCallLease f' i = (if i = sid then Some \<lparr>callSessionId = sid,
          leaseCallSid = (case c of Some x \<Rightarrow> Some x
             | None \<Rightarrow> Option.bind (getActiveCallLease f sid) leaseCallSid),
          leaseUpdatedAt = now\<rparr> else getActiveCallLease f i)"
    unfolding look(2) lease_map_values(2) [OF ok] by (simp add: get l_def)
qed

lemma find_filter_other:
  "find (\<lambda>x. k x = i) (filter (\<lambda>x. k x \<noteq> j) xs) = (if i = j then None else find (\<lambda>x. k x = i) xs)"
  by (induction xs) auto

lemma remove_lookup:
  assumes "file_ok f" "removeActiveCallLease True sid f = Inr f'"
  shows "file_ok f'" and "getActiveCallLease f' i = (if i = sid then None else getActiveCallLease f i)"
proof -
  let ?ls = "loadLeaseFile f"
  let ?rest = "filter (\<lambda>l. callSessionId l \<noteq> sid) ?ls"
  have d: "distinct (map callSessionId ?rest)"
    using assms(1) by (simp add: file_ok_def distinct_map_filter)
  have look: "find (\<lambda>l. callSessionId l = i) ?rest = (if i = sid then None else getActiveCallLease f i)"
    unfolding getActiveCallLease_def by (rule find_filter_other)
  consider (same) "length ?rest = length ?ls" "f' = f"
    | (none) "?rest = []" "f' = clearActiveCallLeases True f"
    | (saved) "saveLeaseFile True ?rest = Inr f'"
    using assms(2) unfolding removeActiveCallLease_def Let_def by (metis sum.inject(2))
  then have "file_ok f' \<and> getActiveCallLease f' i = find (\<lambda>l. callSessionId l = i) ?rest"
  proof cases
    case same
    then have "?rest = ?ls" by (metis filter_True length_filter_less less_irrefl)
    then show ?thesis using assms(1) same by (simp add: getActiveCallLease_def)
  next
    case none
    then have "loadLeaseFile f' = []" by (auto simp: clearActiveCallLeases_def loadLeaseFile_def)
    then show ?thesis using none(1) by (simp add: file_ok_def getActiveCallLease_def)
  next
    case saved
    then show ?thesis using saved_lookup [OF saved d] by simp
  qed
  then show "file_ok f'" "getActiveCallLease f' i = (if i = sid then None else getActiveCallLease f i)"
    using look by auto
qed

text \<open>The contract between the tables and the lease file: an ended call has no lease, and a live
  call whose provider SID is known has a lease that names it.\<close>

definition lease_for :: "call_session option \<Rightarrow> lease option \<Rightarrow> bool" where
  "lease_for sess l =
     (case sess of
        None \<Rightarrow> l = None
      | Some r \<Rightarrow>
          if isTerminalState (status r) then l = None
          else (case providerCallSid r of None \<Rightarrow> True
                | Some c \<Rightarrow> \<exists>le. l = Some le \<and> leaseCallSid le = Some c))"

definition leases_match :: "call_state \<Rightarrow> bool" where
  "leases_match s \<longleftrightarrow> file_ok (lease_file s) \<and>
     (\<forall>i. lease_for (getCallSession s i) (getActiveCallLease (lease_file s) i))"

lemma sync_lookup:
  assumes "file_ok f" "session_id r = j" "syncActiveCallLeaseFromSession True now (Some (ref_of r)) f = Inr f'"
  shows "file_ok f'" "lease_for (Some r) (getActiveCallLease f' j)"
    and "i \<noteq> j \<Longrightarrow> getActiveCallLease f' i = getActiveCallLease f i"
proof -
  consider (ended) "isTerminalState (status r)" "removeActiveCallLease True j f = Inr f'"
    | (quiet) "\<not> isTerminalState (status r)" "providerCallSid r = None" "f' = f"
    | (live) "\<not> isTerminalState (status r)"
        "upsertActiveCallLease True j (providerCallSid r) now f = Inr f'"
    using assms(2,3) unfolding syncActiveCallLeaseFromSession_def ref_of_def option.case session_ref.simps
    by (metis sum.inject(2))
  then have "file_ok f' \<and> lease_for (Some r) (getActiveCallLease f' j) \<and>
      (i \<noteq> j \<longrightarrow> getActiveCallLease f' i = getActiveCallLease f i)"
  proof cases
    case ended
    then show ?thesis using remove_lookup [OF assms(1) ended(2)] by (simp add: lease_for_def)
  next
    case quiet
    then show ?thesis using assms(1) by (simp add: lease_for_def)
  next
    case live
    then show ?thesis using upsert_lookup [OF assms(1) live(2)]
      by (auto simp: lease_for_def split: option.splits)
  qed
  then show "file_ok f'" "lease_for (Some r) (getActiveCallLease f' j)"
    "i \<noteq> j \<Longrightarrow> getActiveCallLease f' i = getActiveCallLease f i" by auto
qed

lemma sync_succeeds: "\<exists>f'. syncActiveCallLeaseFromSession True now sess f = Inr f'"
  by (auto simp: syncActiveCallLeaseFromSession_def removeActiveCallLease_def upsertActiveCallLease_def
      saveLeaseFile_def Let_def split: option.splits)

lemma lease_for_cong:
  "status r = status r' \<Longrightarrow> providerCallSid r = providerCallSid r' \<Longrightarrow>
     lease_for (Some r) l = lease_for (Some r') l"
  by (simp add: lease_for_def)

text \<open>A hook fails only on a session that does not exist.\<close>

definition hook_safe :: "call_hook option \<Rightarrow> string \<Rightarrow> call_state \<Rightarrow> bool" where
  "hook_safe h i s \<longleftrightarrow>
     (\<forall>s1. call_events s1 = call_events s \<longrightarrow> getCallSession s1 i \<noteq> None \<longrightarrow>
        snd (hook_result h s1) = None)"

lemma hook_safe_simps:
  "hook_safe None i s"
  "\<not> list_ex (\<lambda>e. ev_id e = ei) (call_events s) \<Longrightarrow> hook_safe (Some (recordCallEvent i ty p ei now)) i s"
  by (simp_all add: hook_safe_def hook_result_def recordCallEvent_def)

lemma updateCallSession_unfold:
  "updateCallSession i u h disk now s =
     (if transition_refused s i u then (s, None)
      else case update_row i u now s of
        Inl e \<Rightarrow> (s, Some e)
      | Inr s1 \<Rightarrow>
          (case hook_result h s1 of
             (s2, Some e) \<Rightarrow> (s2, Some e)
           | (s2, None) \<Rightarrow>
               if u_providerCallSid u = None \<and> u_status u = None then (s2, None)
               else (case syncActiveCallLeaseFromSession disk now (map_option ref_of (getCallSession s2 i)) (lease_file s2) of
                       Inl _ \<Rightarrow> (s2, None)
                     | Inr f \<Rightarrow> (s2\<lparr>lease_file := f\<rparr>, None))))"
  unfolding updateCallSession_def Let_def hook_result_def de_Morgan_disj not_not by (rule refl)

text \<open>An update on a session that exists and passes its guards, with a hook that does not fail.\<close>

lemma updateCallSession_result:
  assumes h: "hook_keeps_sessions h" "hook_safe h i s"
    and ok: "\<not> transition_refused s i u" "update_row i u now s = Inr s1" "getCallSession s i = Some r"
  obtains s2 f where
    "call_sessions s2 = call_sessions s1" "lease_file s2 = f"
    "fst (updateCallSession i u h True now s) = s2"
    "if u_providerCallSid u = None \<and> u_status u = None then f = lease_file s
     else syncActiveCallLeaseFromSession True now (Some (ref_of (apply_updates u now r))) (lease_file s) = Inr f"
proof -
  have get1: "getCallSession s1 i = Some (apply_updates u now r)"
    using update_row_session [OF ok(2), of i] ok(3) by simp
  obtain s2 where s2: "hook_result h s1 = (s2, None)"
    using h(2) get1 update_row_frame [OF ok(2)] unfolding hook_safe_def
    by (metis option.distinct(1) surjective_pairing)
  have frame: "call_sessions s2 = call_sessions s1" "lease_file s2 = lease_file s"
    using hook_result_frame [OF h(1), of s1] s2 update_row_frame [OF ok(2)] by simp_all
  have get2: "getCallSession s2 i = Some (apply_updates u now r)"
    using get1 getCallSession_frame [OF frame(1)] by simp
  show thesis
  proof (cases "u_providerCallSid u = None \<and> u_status u = None")
    case True
    then show thesis using that [of s2 "lease_file s"] frame
      by (simp add: updateCallSession_unfold ok s2)
  next
    case False
    obtain f where "syncActiveCallLeaseFromSession True now (Some (ref_of (apply_updates u now r))) (lease_file s) = Inr f"
      using sync_succeeds by blast
    then show thesis using that [of "s2\<lparr>lease_file := f\<rparr>" f] frame False
      by (simp add: updateCallSession_unfold ok s2 get2)
  qed
qed

text \<open>The contract outside a set of ids.\<close>

definition leases_match_but :: "string set \<Rightarrow> call_state \<Rightarrow> bool" where
  "leases_match_but X s \<longleftrightarrow> file_ok (lease_file s) \<and>
     (\<forall>i. i \<notin> X \<longrightarrow> lease_for (getCallSession s i) (getActiveCallLease (lease_file s) i))"

lemma leases_match_but_empty: "leases_match_but {} s = leases_match s"
  by (simp add: leases_match_but_def leases_match_def)

lemma leases_match_but_mono: "leases_match_but X s \<Longrightarrow> X \<subseteq> Y \<Longrightarrow> leases_match_but Y s"
  by (auto simp: leases_match_but_def)

lemma leases_match_but_frame:
  "call_sessions s' = call_sessions s \<Longrightarrow> lease_file s' = lease_file s \<Longrightarrow>
     leases_match_but X s' = leases_match_but X s"
  by (simp add: leases_match_but_def getCallSession_def)

lemma updateCallSession_leases:
  assumes h: "hook_keeps_sessions h" "hook_safe h i s" and m: "leases_match_but X s"
  shows "leases_match_but X (fst (updateCallSession i u h True now s))"
proof (cases "getCallSession s i")
  case None
  then have "update_row i u now s = Inr s" "\<not> transition_refused s i u"
    by (auto simp: update_row_def transition_refused_def split: option.splits)
  moreover obtain s2 e where s2: "hook_result h s = (s2, e)" by (metis surj_pair)
  moreover have frame: "call_sessions s2 = call_sessions s" "lease_file s2 = lease_file s"
    using hook_result_frame [OF h(1), of s] s2 by simp_all
  moreover have "getCallSession s2 i = None" using None getCallSession_frame [OF frame(1)] by simp
  ultimately have "fst (updateCallSession i u h True now s) = s2"
    by (cases e) (simp_all add: updateCallSession_unfold syncActiveCallLeaseFromSession_def)
  then show ?thesis using m leases_match_but_frame [OF frame] by simp
next
  case (Some r)
  show ?thesis
  proof (cases "transition_refused s i u \<or> (\<exists>e. update_row i u now s = Inl e)")
    case True
    then show ?thesis using m by (auto simp: updateCallSession_unfold)
  next
    case False
    then obtain s1 where s1: "\<not> transition_refused s i u" "update_row i u now s = Inr s1"
      by (metis sumE)
    obtain s2 f where s2: "call_sessions s2 = call_sessions s1" "lease_file s2 = f"
      "fst (updateCallSession i u h True now s) = s2"
      "if u_providerCallSid u = None \<and> u_status u = None then f = lease_file s
       else syncActiveCallLeaseFromSession True now (Some (ref_of (apply_updates u now r))) (lease_file s) = Inr f"
      using updateCallSession_result [OF h s1 Some] by blast
    have get: "getCallSession s2 k = (if k = i then Some (apply_updates u now r) else getCallSession s k)" for k
      using getCallSession_frame [OF s2(1)] update_row_session [OF s1(2)] Some by simp
    have ok: "file_ok (lease_file s)"
      and lf: "k \<notin> X \<Longrightarrow> lease_for (getCallSession s k) (getActiveCallLease (lease_file s) k)" for k
      using m by (auto simp: leases_match_but_def)
    have id_r: "session_id (apply_updates u now r) = i" using getCallSession_id [OF Some] by simp
    show ?thesis
    proof (cases "u_providerCallSid u = None \<and> u_status u = None")
      case True
      have "lease_for (Some (apply_updates u now r)) l = lease_for (Some r) l" for l
        by (rule lease_for_cong) (simp_all add: apply_updates_def or_keep_def True)
      then show ?thesis using True s2 lf ok Some lf [of i] by (auto simp: leases_match_but_def get)
    next
      case False
      then have "syncActiveCallLeaseFromSession True now (Some (ref_of (apply_updates u now r))) (lease_file s) = Inr f"
        using s2(4) by auto
      note sync = sync_lookup [OF ok id_r this]
      show ?thesis unfolding leases_match_but_def s2(2,3) get using sync lf by auto
    qed
  qed
qed

lemma create_leases:
  assumes "leases_match_but X s"
  shows "leases_match_but X (fst (createCallSession opts i now s))"
proof (cases "getCallSession s i \<noteq> None \<or> o_conversationId opts \<notin> set (conversation_ids s)")
  case True
  then show ?thesis using assms by (auto simp: createCallSession_def)
next
  case False
  let ?s = "s\<lparr>call_sessions := call_sessions s @ [new_session opts i now]\<rparr>"
  have get: "getCallSession ?s j = (if j = i then Some (new_session opts i now) else getCallSession s j)" for j
    using False by (auto simp: getCallSession_def find_append_None new_session_def split: option.splits)
  have "lease_for (Some (new_session opts i now)) l" for l
    by (simp add: lease_for_def new_session_def isTerminalState_iff)
  then have "leases_match_but X ?s" using assms unfolding leases_match_but_def get by simp
  then show ?thesis using False by (simp add: createCallSession_def Let_def)
qed

text \<open>Writing the lease of a call that is live keeps the contract.\<close>

lemma leaseNewCall_leases:
  assumes m: "leases_match_but X s"
    and live: "i \<in> X \<or> (\<exists>r. getCallSession s i = Some r \<and> \<not> isTerminalState (status r))"
  shows "leases_match_but X (fst (leaseNewCall i d now s))"
proof (cases "upsertActiveCallLease d i None now (lease_file s)")
  case (Inr f)
  have ok: "file_ok (lease_file s)" using m by (simp add: leases_match_but_def)
  note up = upsert_lookup [OF ok Inr]
  have "lease_for (getCallSession s k) (getActiveCallLease f k)" if "k \<notin> X" for k
  proof -
    have old: "lease_for (getCallSession s k) (getActiveCallLease (lease_file s) k)"
      using m that by (simp add: leases_match_but_def)
    show ?thesis
    proof (cases "k = i")
      case True
      then obtain r where "getCallSession s k = Some r" "\<not> isTerminalState (status r)" using live \<open>k \<notin> X\<close> by auto
      then show ?thesis using old True by (auto simp: up(2) lease_for_def split: option.splits)
    next
      case False
      then show ?thesis using old by (simp add: up(2))
    qed
  qed
  then show ?thesis using up(1) by (simp add: leaseNewCall_def Inr leases_match_but_def getCallSession_def)
qed (simp add: leaseNewCall_def m)

text \<open>After the cancellation's update the call is over, so dropping its lease keeps the contract.\<close>

lemma cancel_update_ends:
  assumes "getCallSession (fst (updateCallSession i (cancel_update now) None d now s)) i = Some r'"
  shows "isTerminalState (status r')"
proof (cases "getCallSession s i")
  case None
  then have "fst (updateCallSession i (cancel_update now) None d now s) = s"
    by (simp add: updateCallSession_unfold hook_result_def update_row_def transition_refused_def
        syncActiveCallLeaseFromSession_def split: option.split)
  then show ?thesis using None assms by simp
next
  case (Some r)
  have row: "\<exists>s1. update_row i (cancel_update now) now s = Inr s1"
    using Some by (simp add: update_row_def row_allowed_def cancel_update_def no_updates_def)
  have "isTerminalState (status r)" if "transition_refused s i (cancel_update now)"
    using that live_can_fail [of "status r" Cancelled] Some
    by (auto simp: transition_refused_def cancel_update_def isTerminalState_iff)
  moreover have "status (apply_updates (cancel_update now) now r) = Cancelled"
    by (simp add: status_apply cancel_update_def or_keep_def)
  ultimately show ?thesis
    using updateCallSession_get [OF hook_keeps_simps(1) Some, of i "cancel_update now" d now] assms row
    by (auto simp: isTerminalState_iff split: if_splits)
qed

lemma cancelBeforePlacing_leases:
  assumes m: "leases_match_but X s"
  shows "leases_match_but X (fst (cancelBeforePlacing i True now s))"
proof -
  obtain s1 e where u: "updateCallSession i (cancel_update now) None True now s = (s1, e)" by fastforce
  have m1: "leases_match_but X s1"
    using updateCallSession_leases [OF hook_keeps_simps(1) hook_safe_simps(1) m, of i "cancel_update now" now] u
    by simp
  have ended: "getCallSession s1 i = Some r' \<Longrightarrow> isTerminalState (status r')" for r'
    using cancel_update_ends [of i now True s r'] u by simp
  show ?thesis
  proof (cases e)
    case None
    let ?ref = "\<lparr>ref_id = i, ref_sid = None, ref_status = Cancelled\<rparr>"
    have sync: "syncActiveCallLeaseFromSession True now (Some ?ref) (lease_file s1) = removeActiveCallLease True i (lease_file s1)"
      by (simp add: syncActiveCallLeaseFromSession_def isTerminalState_iff)
    then obtain f where f: "removeActiveCallLease True i (lease_file s1) = Inr f"
      using sync_succeeds [of now "Some ?ref" "lease_file s1"] by auto
    have ok: "file_ok (lease_file s1)" using m1 by (simp add: leases_match_but_def)
    have "leases_match_but X (s1\<lparr>lease_file := f\<rparr>)"
      using m1 remove_lookup [OF ok f] ended [unfolded getCallSession_def]
      by (auto simp: leases_match_but_def getCallSession_def lease_for_def split: option.split)
    then show ?thesis
      unfolding cancelBeforePlacing_def cancel_update_def [symmetric] u by (simp add: None sync f)
  next
    case (Some x)
    then show ?thesis
      unfolding cancelBeforePlacing_def cancel_update_def [symmetric] u using m1 by simp
  qed
qed

text \<open>The call the new lease is for has ended meanwhile, or is gone.\<close>

definition late_lease :: "call_state \<Rightarrow> call_op \<Rightarrow> string list" where
  "late_lease s e =
     (case e of
        LeaseNewCall i _ _ \<Rightarrow>
          (case getCallSession s i of Some r \<Rightarrow> if isTerminalState (status r) then [i] else [] | None \<Rightarrow> [i])
      | _ \<Rightarrow> [])"

text \<open>Event ids (UUIDs) are fresh.\<close>

definition event_fresh :: "call_state \<Rightarrow> call_op \<Rightarrow> bool" where
  "event_fresh s e =
     (case e of UpdateWithEvent _ _ _ _ ei _ _ \<Rightarrow> \<not> list_ex (\<lambda>v. ev_id v = ei) (call_events s) | _ \<Rightarrow> True)"

lemma call_step_leases_but:
  assumes "leases_match_but X s" "disk_works e" "event_fresh s e" "set (late_lease s e) \<subseteq> X"
  shows "leases_match_but X (call_step s e)"
proof (cases e)
  case (CreateSession opts i now)
  then show ?thesis using create_leases [OF assms(1)] by simp
next
  case (UpdateSession i u d now)
  have d: "d" using assms(2) UpdateSession by (simp add: disk_works_def)
  show ?thesis
    using updateCallSession_leases [OF hook_keeps_simps(1) hook_safe_simps(1) assms(1), of i u now]
    by (simp add: UpdateSession d)
next
  case (UpdateWithEvent i u ty p ei d now)
  then have d: "d" and safe: "hook_safe (Some (recordCallEvent i ty p ei now)) i s"
    using assms(2,3) by (simp_all add: disk_works_def event_fresh_def hook_safe_simps)
  show ?thesis
    using updateCallSession_leases [OF hook_keeps_simps(2) safe assms(1), of u now] d
    by (simp add: UpdateWithEvent)
next
  case (RecordEvent sid ty p i now)
  then show ?thesis using assms(1) leases_match_but_frame [of "call_step s e" s X] by simp
next
  case (AskQuestion sid q i now)
  then show ?thesis using assms(1) leases_match_but_frame [of "call_step s e" s X] by (simp add: createPendingQuestion_def)
next
  case (AnswerQuestion i a now)
  then show ?thesis using assms(1) leases_match_but_frame [of "call_step s e" s X] by (simp add: answerPendingQuestion_def)
next
  case (ExpireQuestions sid)
  then show ?thesis using assms(1) leases_match_but_frame [of "call_step s e" s X] by (simp add: expirePendingQuestions_def)
next
  case (LeaseNewCall i d now)
  then show ?thesis
    using assms(4) leaseNewCall_leases [OF assms(1), of i d now]
    by (auto simp: late_lease_def split: option.splits if_splits)
next
  case (CancelBeforePlacing i d now)
  then show ?thesis using assms(2) cancelBeforePlacing_leases [OF assms(1)] by (simp add: disk_works_def)
qed

lemma call_step_leases:
  "leases_match s \<Longrightarrow> disk_works e \<Longrightarrow> event_fresh s e \<Longrightarrow> late_lease s e = [] \<Longrightarrow> leases_match (call_step s e)"
  using call_step_leases_but [of "{}" s e] by (simp add: leases_match_but_empty)

subsection \<open>Runs of the daemon\<close>

text \<open>Beside the operations of the store, conversations come and go; the schema deletes the call rows of a
  conversation with it (\<^verbatim>\<open>onDelete: "cascade"\<close>), and nothing touches the lease file then.\<close>

definition deleteConversationRows :: "string \<Rightarrow> call_state \<Rightarrow> call_state" where
  "deleteConversationRows c s =
     (let gone = map session_id (filter (\<lambda>r. conversationId r = c) (call_sessions s))
      in s\<lparr>conversation_ids := removeAll c (conversation_ids s),
           call_sessions := filter (\<lambda>r. conversationId r \<noteq> c) (call_sessions s),
           call_events := filter (\<lambda>e. ev_session e \<notin> set gone) (call_events s),
           questions := filter (\<lambda>q. q_session q \<notin> set gone) (questions s)\<rparr>)"

datatype daemon_op = StoreOp call_op | NewConversation string | DeleteConversation string

fun daemon_step :: "call_state \<Rightarrow> daemon_op \<Rightarrow> call_state" where
  "daemon_step s (StoreOp e) = call_step s e"
| "daemon_step s (NewConversation c) = s\<lparr>conversation_ids := conversation_ids s @ [c]\<rparr>"
| "daemon_step s (DeleteConversation c) = deleteConversationRows c s"

text \<open>The ids a step exposes: a call whose lease is written after it ended, and the calls that still
  have a lease when their conversation is deleted.\<close>

fun exposed :: "call_state \<Rightarrow> daemon_op \<Rightarrow> string list" where
  "exposed s (StoreOp e) = late_lease s e"
| "exposed s (NewConversation c) = []"
| "exposed s (DeleteConversation c) =
     map session_id (filter (\<lambda>r. conversationId r = c \<and> getActiveCallLease (lease_file s) (session_id r) \<noteq> None)
       (call_sessions s))"

text \<open>A run in which the disk accepts the lease writes and event ids are fresh, with the ids it exposed.\<close>

inductive clean_run :: "call_state \<Rightarrow> string list \<Rightarrow> call_state \<Rightarrow> bool" where
  clean_refl: "clean_run s [] s"
| clean_store: "clean_run s xs s' \<Longrightarrow> disk_works e \<Longrightarrow> event_fresh s' e \<Longrightarrow>
    clean_run s (exposed s' (StoreOp e) @ xs) (daemon_step s' (StoreOp e))"
| clean_new: "clean_run s xs s' \<Longrightarrow> clean_run s xs (daemon_step s' (NewConversation c))"
| clean_delete: "clean_run s xs s' \<Longrightarrow>
    clean_run s (exposed s' (DeleteConversation c) @ xs) (daemon_step s' (DeleteConversation c))"

definition unique_calls :: "call_state \<Rightarrow> bool" where
  "unique_calls s \<longleftrightarrow> distinct (map session_id (call_sessions s))"

lemma updateCallSession_ids:
  assumes "hook_keeps_sessions h"
  shows "map session_id (call_sessions (fst (updateCallSession i u h d now s))) = map session_id (call_sessions s)"
  using updateCallSession_sessions [OF assms, of i u d now s]
  by (auto simp: update_row_def split: option.splits sum.splits if_splits)

lemma call_step_unique: "unique_calls s \<Longrightarrow> unique_calls (call_step s e)"
proof (cases e)
  case (CreateSession opts i now)
  then show "unique_calls s \<Longrightarrow> ?thesis"
    by (auto simp: unique_calls_def createCallSession_def new_session_def getCallSession_def Let_def find_None_iff)
qed (simp_all add: unique_calls_def updateCallSession_ids cancelBeforePlacing_frame createPendingQuestion_def
    answerPendingQuestion_def expirePendingQuestions_def)

lemma deleteConversation_leases:
  assumes m: "leases_match_but X s" and u: "unique_calls s" and x: "set (exposed s (DeleteConversation c)) \<subseteq> X"
  shows "leases_match_but X (deleteConversationRows c s)"
proof -
  let ?s = "deleteConversationRows c s"
  have u': "distinct (map session_id (call_sessions ?s))"
    using u by (simp add: unique_calls_def deleteConversationRows_def Let_def distinct_map_filter)
  have "lease_for (getCallSession ?s k) (getActiveCallLease (lease_file s) k)" if k: "k \<notin> X" for k
  proof -
    have old: "lease_for (getCallSession s k) (getActiveCallLease (lease_file s) k)"
      using m k by (simp add: leases_match_but_def)
    show ?thesis
    proof (cases "getCallSession ?s k")
      case (Some r)
      then have "r \<in> set (call_sessions s)" "session_id r = k"
        by (auto simp: getCallSession_def deleteConversationRows_def Let_def dest!: find_mem)
      then have "getCallSession s k = Some r"
        using find_distinct_iff [OF u [unfolded unique_calls_def]] by (simp add: getCallSession_def)
      then show ?thesis using old Some by simp
    next
      case None
      show ?thesis
      proof (cases "getCallSession s k")
        case (Some r)
        then have r: "r \<in> set (call_sessions s)" "session_id r = k" by (auto simp: getCallSession_def dest!: find_mem)
        then have "conversationId r = c"
          using None by (auto simp: getCallSession_def deleteConversationRows_def Let_def find_None_iff)
        then have "k \<in> set (exposed s (DeleteConversation c))" if "getActiveCallLease (lease_file s) k \<noteq> None"
          using that r by force
        then have "getActiveCallLease (lease_file s) k = None" using x k by blast
        then show ?thesis using None by (simp add: lease_for_def)
      qed (use old None in \<open>simp add: lease_for_def\<close>)
    qed
  qed
  then show ?thesis using m by (simp add: leases_match_but_def deleteConversationRows_def Let_def)
qed

lemma clean_run_leases:
  "clean_run s xs s' \<Longrightarrow> leases_match s \<Longrightarrow> unique_calls s \<Longrightarrow> leases_match_but (set xs) s' \<and> unique_calls s'"
proof (induction rule: clean_run.induct)
  case (clean_refl s)
  then show ?case by (simp add: leases_match_but_empty)
next
  case (clean_store s xs s' e)
  let ?X = "set (exposed s' (StoreOp e) @ xs)"
  have "leases_match_but ?X s'" using clean_store by (auto intro: leases_match_but_mono)
  then show ?case using clean_store call_step_leases_but [of ?X s' e] call_step_unique by simp
next
  case (clean_new s xs s' c)
  then show ?case by (simp add: leases_match_but_def unique_calls_def getCallSession_def)
next
  case (clean_delete s xs s' c)
  let ?X = "set (exposed s' (DeleteConversation c) @ xs)"
  have "leases_match_but ?X s'" using clean_delete by (auto intro: leases_match_but_mono)
  moreover have "unique_calls (deleteConversationRows c s')"
    using clean_delete by (simp add: unique_calls_def deleteConversationRows_def Let_def distinct_map_filter)
  ultimately show ?case using clean_delete deleteConversation_leases [of ?X s' c] by simp
qed

text \<open>C29: the lease file mirrors the call table. Take any run of store operations, of the direct lease
  writes of the code that places calls, and of creations and deletions of conversations (which delete
  their calls), in which lease writes succeed and event ids are fresh, from a store with unique call ids
  where file and table agree. Then afterwards an ended call (and an unknown id) has no lease, and every
  live call whose provider SID is recorded has a lease carrying that SID. The exceptions are the calls the
  run exposed, which the theorem lists: a call whose first lease was written after it had already ended
  or been deleted (the write follows an await), and a call that still had a lease when its conversation
  was deleted. A run that exposes no call has no exception.\<close>

theorem leases_mirror_calls:
  assumes "clean_run s xs s'" and "leases_match s" and "distinct (map session_id (call_sessions s))"
    and "i \<notin> set xs"
  shows "case getCallSession s' i of
           None \<Rightarrow> getActiveCallLease (lease_file s') i = None
         | Some r \<Rightarrow>
             if isTerminalState (status r) then getActiveCallLease (lease_file s') i = None
             else (case providerCallSid r of
                     None \<Rightarrow> True
                   | Some c \<Rightarrow> \<exists>l. getActiveCallLease (lease_file s') i = Some l \<and> leaseCallSid l = Some c)"
proof -
  have "leases_match_but (set xs) s'"
    using clean_run_leases [OF assms(1,2)] assms(3) by (simp add: unique_calls_def)
  then have "lease_for (getCallSession s' i) (getActiveCallLease (lease_file s') i)"
    using assms(4) by (simp add: leases_match_but_def)
  then show ?thesis by (simp add: lease_for_def)
qed

definition started_call :: call_state where
  "started_call = \<lparr>conversation_ids = [''c''], call_sessions = [new_session sample_opts ''s'' 0],
     call_events = [], questions = [], lease_file = NoFile\<rparr>"

lemma started_call_match: "leases_match started_call"
  by (simp add: started_call_def leases_match_def lease_for_def getCallSession_def file_ok_def
      getActiveCallLease_def loadLeaseFile_def new_session_def isTerminalState_iff)

text \<open>A call is leased, gets its SID and ends; its lease is gone.\<close>

definition placed_call :: "call_op list" where
  "placed_call = [LeaseNewCall ''s'' True 5, UpdateSession ''s'' (no_updates\<lparr>u_providerCallSid := Some (Some ''CA1'')\<rparr>) True 7,
     UpdateSession ''s'' (no_updates\<lparr>u_status := Some Completed\<rparr>) True 9]"

lemma placed_call_clean: "clean_run started_call [] (foldl call_step started_call placed_call)"
proof -
  have l: "late_lease started_call (LeaseNewCall ''s'' True 5) = []" by code_simp
  have "clean_run started_call [] (call_step started_call (LeaseNewCall ''s'' True 5))"
    using clean_store [OF clean_refl [of started_call], of "LeaseNewCall ''s'' True 5"] l
    by (simp add: disk_works_def event_fresh_def del: call_step.simps)
  from clean_store [OF this, of "UpdateSession ''s'' (no_updates\<lparr>u_providerCallSid := Some (Some ''CA1'')\<rparr>) True 7"]
  have "clean_run started_call [] (call_step (call_step started_call (LeaseNewCall ''s'' True 5))
      (UpdateSession ''s'' (no_updates\<lparr>u_providerCallSid := Some (Some ''CA1'')\<rparr>) True 7))"
    by (simp add: disk_works_def event_fresh_def late_lease_def del: call_step.simps)
  from clean_store [OF this, of "UpdateSession ''s'' (no_updates\<lparr>u_status := Some Completed\<rparr>) True 9"]
  show ?thesis
    unfolding placed_call_def by (simp add: disk_works_def event_fresh_def late_lease_def del: call_step.simps)
qed

theorem leases_mirror_calls_witness:
  "getActiveCallLease (lease_file (foldl call_step started_call (take 2 placed_call))) ''s'' \<noteq> None
   \<and> getActiveCallLease (lease_file (foldl call_step started_call placed_call)) ''s'' = None"
proof
  show "getActiveCallLease (lease_file (foldl call_step started_call (take 2 placed_call))) ''s'' \<noteq> None"
    by code_simp
  have "map_option status (getCallSession (foldl call_step started_call placed_call) ''s'') = Some Completed"
    by code_simp
  moreover have "distinct (map session_id (call_sessions started_call))" by code_simp
  ultimately show "getActiveCallLease (lease_file (foldl call_step started_call placed_call)) ''s'' = None"
    using leases_mirror_calls [OF placed_call_clean started_call_match, of "''s''"]
    by (auto simp: isTerminalState_iff split: option.splits)
qed

text \<open>A run that exposes a call: it is cancelled while the callback URLs are awaited, then its lease is
  written, and placing it fails. The ended call keeps its lease.\<close>

lemma late_lease_stays:
  "let s' = foldl call_step started_call [UpdateSession ''s'' (no_updates\<lparr>u_status := Some Cancelled\<rparr>) True 3,
        LeaseNewCall ''s'' True 5, UpdateSession ''s'' (no_updates\<lparr>u_status := Some Failed\<rparr>) True 7]
   in map_option status (getCallSession s' ''s'') = Some Cancelled \<and> getActiveCallLease (lease_file s') ''s'' \<noteq> None"
  by code_simp

text \<open>Deleting the conversation of a leased call leaves the lease of an id no table knows.\<close>

lemma orphaned_lease:
  "let s' = deleteConversationRows ''c'' (foldl call_step started_call (take 2 placed_call))
   in call_sessions s' = [] \<and> getActiveCallLease (lease_file s') ''s'' \<noteq> None"
  by code_simp

text \<open>The second step of the run evaluated: the lease of the call carries its SID.\<close>

lemma started_call_lease:
  "getActiveCallLease (lease_file (call_step started_call
      (UpdateSession ''s'' (no_updates\<lparr>u_providerCallSid := Some (Some ''CA1'')\<rparr>) True 7))) ''s''
   = Some \<lparr>callSessionId = ''s'', leaseCallSid = Some ''CA1'', leaseUpdatedAt = 7\<rparr>"
  by code_simp

section \<open>Questions\<close>

text \<open>A question leaves the pending state once and is never changed after that.\<close>

definition question_settled :: "call_state \<Rightarrow> pending_question \<Rightarrow> bool" where
  "question_settled s q \<longleftrightarrow> q \<in> set (questions s) \<and> q_status q \<noteq> PendingQ"

lemma updateCallSession_questions:
  "(\<And>s. questions (fst (hook_result h s)) = questions s) \<Longrightarrow>
     questions (fst (updateCallSession i u h disk now s)) = questions s"
  unfolding updateCallSession_unfold
  by (auto dest!: update_row_frame split: sum.splits prod.splits option.splits) (metis fst_conv)+

lemma call_step_settled:
  assumes "question_settled s q"
  shows "question_settled (call_step s e) q"
proof (cases e)
  case (UpdateSession i u d now)
  then show ?thesis using assms updateCallSession_questions [of None]
    by (simp add: question_settled_def hook_result_def)
next
  case (UpdateWithEvent i u ty p ei d now)
  then show ?thesis using assms updateCallSession_questions [of "Some (recordCallEvent i ty p ei now)"]
    by (simp add: question_settled_def hook_result_def)
next
  case (CancelBeforePlacing i d now)
  then show ?thesis using assms updateCallSession_questions [of None] cancelBeforePlacing_frame(2)
    by (simp add: question_settled_def hook_result_def)
qed (use assms in \<open>auto simp: question_settled_def createCallSession_def createPendingQuestion_def
    answerPendingQuestion_def expirePendingQuestions_def Let_def image_iff intro!: bexI [of _ q]\<close>)

interpretation settled_questions: invariant_machine call_step "\<lambda>s. question_settled s q" for q
  by unfold_locales (rule call_step_settled)

text \<open>An answer is recorded at most once. Answering a pending question stores the answer, and
  after any further operations (a second answer, expiry of the session's questions, call updates)
  the question's row is still exactly that answered row.\<close>

theorem first_answer_wins:
  assumes "q \<in> set (questions s)" and "q_status q = PendingQ"
  shows "q\<lparr>q_status := AnsweredQ, answerText := Some a, answeredAt := Some now\<rparr>
    \<in> set (questions (foldl call_step (answerPendingQuestion (q_id q) a now s) es))"
proof -
  let ?q = "q\<lparr>q_status := AnsweredQ, answerText := Some a, answeredAt := Some now\<rparr>"
  have "question_settled (answerPendingQuestion (q_id q) a now s) ?q"
    using assms by (auto simp: question_settled_def answerPendingQuestion_def image_iff intro!: bexI [of _ q])
  from settled_questions.inv_run [OF this, of es] show ?thesis by (simp add: question_settled_def)
qed

definition asked_call :: call_state where
  "asked_call = fst (createPendingQuestion ''s'' ''Which day?'' ''q'' 3 started_call)"

theorem first_answer_wins_witness:
  "\<lparr>q_id = ''q'', q_session = ''s'', questionText = ''Which day?'', q_status = AnsweredQ, askedAt = 3,
     answeredAt = Some 4, answerText = Some ''Monday''\<rparr>
   \<in> set (questions (foldl call_step (answerPendingQuestion ''q'' ''Monday'' 4 asked_call)
       [AnswerQuestion ''q'' ''Tuesday'' 5, ExpireQuestions ''s'']))"
proof -
  have q: "questions asked_call = [\<lparr>q_id = ''q'', q_session = ''s'', questionText = ''Which day?'',
      q_status = PendingQ, askedAt = 3, answeredAt = None, answerText = None\<rparr>]"
    by (simp add: asked_call_def createPendingQuestion_def started_call_def getCallSession_def new_session_def)
  then show ?thesis
    using first_answer_wins [of "hd (questions asked_call)" asked_call 4 "''Monday''"
        "[AnswerQuestion ''q'' ''Tuesday'' 5, ExpireQuestions ''s'']"]
    by (simp del: foldl_Cons foldl_Nil)
qed

end
