(* ===== verification/Call_Claims.thy ===== *)
theory Call_Claims
  imports Prelude
begin

text \<open>
  Callback idempotency of the call store (\<^verbatim>\<open>assistant/src/calls/call-store.ts\<close>, last section):
  a status webhook is processed by the handler that claims its dedupe key. A claim expires after a
  minute unless it is finalized, and the claim id is the ownership token of release and finalize.

  The table \<^verbatim>\<open>processed_callbacks\<close> is the list of its rows. Row ids, claim ids and the clock
  are arguments; the foreign key to the session table is the list of known session ids. An
  operation reads the clock once.
\<close>

record claim_row =
  row_id :: string
  dedupe_key :: string
  call_session_id :: string
  claim_id :: string
  created_at :: int

type_synonym claim_table = "claim_row list"

definition CLAIM_EXPIRY_MS :: int where
  "CLAIM_EXPIRY_MS = 60000"

definition buildCallbackDedupeKey ::
  "string \<Rightarrow> string \<Rightarrow> string option \<Rightarrow> string option \<Rightarrow> string" where
  "buildCallbackDedupeKey callSid callStatus ts sequenceNumber =
     (let discriminator = (case sequenceNumber of Some n \<Rightarrow> n
            | None \<Rightarrow> (case ts of Some t \<Rightarrow> t | None \<Rightarrow> []))
      in callSid @ '':'' @ callStatus @ '':'' @ discriminator)"

datatype claim_result = Won string | Taken | ForeignKeyError

definition claimCallback ::
  "string list \<Rightarrow> string \<Rightarrow> string \<Rightarrow> string \<Rightarrow> string \<Rightarrow> int \<Rightarrow> claim_table \<Rightarrow> claim_table \<times> claim_result" where
  "claimCallback sessions key sess rid cid now t =
     (let t1 = filter (\<lambda>r. \<not> (dedupe_key r = key \<and> created_at r < now - CLAIM_EXPIRY_MS)) t in
      if list_ex (\<lambda>r. dedupe_key r = key \<or> row_id r = rid) t1 then (t1, Taken)
      else if sess \<notin> set sessions then (t1, ForeignKeyError)
      else (t1 @ [\<lparr>row_id = rid, dedupe_key = key, call_session_id = sess, claim_id = cid,
                   created_at = now\<rparr>], Won cid))"

definition releaseCallbackClaim :: "string \<Rightarrow> string \<Rightarrow> claim_table \<Rightarrow> claim_table" where
  "releaseCallbackClaim key cid t = filter (\<lambda>r. \<not> (dedupe_key r = key \<and> claim_id r = cid)) t"

definition NEVER_EXPIRE :: "int \<Rightarrow> int" where
  "NEVER_EXPIRE now = now + 100 * 365 * 24 * 60 * 60 * 1000"

definition finalizeCallbackClaim :: "string \<Rightarrow> string \<Rightarrow> int \<Rightarrow> claim_table \<Rightarrow> claim_table \<times> bool" where
  "finalizeCallbackClaim key cid now t =
     (map (\<lambda>r. if dedupe_key r = key \<and> claim_id r = cid then r\<lparr>created_at := NEVER_EXPIRE now\<rparr> else r) t,
      list_ex (\<lambda>r. dedupe_key r = key \<and> claim_id r = cid) t)"

datatype claim_op =
    Claim "string list" string string string string int
  | Release string string
  | Finalize string string int

fun claim_exec :: "claim_table \<Rightarrow> claim_op \<Rightarrow> claim_table" where
  "claim_exec t (Claim ss k s r c now) = fst (claimCallback ss k s r c now t)"
| "claim_exec t (Release k c) = releaseCallbackClaim k c t"
| "claim_exec t (Finalize k c now) = fst (finalizeCallbackClaim k c now t)"

text \<open>Does this operation win the key?\<close>

fun claim_wins :: "string \<Rightarrow> claim_table \<Rightarrow> claim_op \<Rightarrow> bool" where
  "claim_wins key t (Claim ss k s r c now) = (k = key \<and> snd (claimCallback ss k s r c now t) = Won c)"
| "claim_wins key t _ = False"

section \<open>One row per key\<close>

definition keys_unique :: "claim_table \<Rightarrow> bool" where
  "keys_unique t \<longleftrightarrow> distinct (map dedupe_key t)"

lemma keys_unique_step: "keys_unique t \<Longrightarrow> keys_unique (claim_exec t e)"
proof (cases e)
  case (Claim ss k s r c now)
  assume "keys_unique t"
  then show ?thesis
    using Claim by (auto simp: keys_unique_def claimCallback_def Let_def distinct_map_filter list_ex_iff)
next
  case (Release k c)
  assume "keys_unique t"
  then show ?thesis using Release by (simp add: keys_unique_def releaseCallbackClaim_def distinct_map_filter)
next
  case (Finalize k c now)
  assume "keys_unique t"
  moreover have "map dedupe_key (map (\<lambda>r. if dedupe_key r = k \<and> claim_id r = c
      then r\<lparr>created_at := NEVER_EXPIRE now\<rparr> else r) t) = map dedupe_key t"
    by (induction t) auto
  ultimately show ?thesis using Finalize by (simp add: keys_unique_def finalizeCallbackClaim_def del: map_map)
qed

interpretation claim_keys: invariant_machine claim_exec keys_unique
  by unfold_locales (rule keys_unique_step)

section \<open>Exclusive claims\<close>

text \<open>The key is held by a claim id, and the hold was last renewed at or after \<open>since\<close>.\<close>

definition held :: "string \<Rightarrow> string \<Rightarrow> int \<Rightarrow> claim_table \<Rightarrow> bool" where
  "held key cid since t \<longleftrightarrow>
     list_ex (\<lambda>r. dedupe_key r = key \<and> claim_id r = cid \<and> since \<le> created_at r) t"

text \<open>An operation that does not end the hold: not the owner's release, not a claim made after
  expiry, and not a finalize by the owner with a clock a century behind \<open>since\<close>.\<close>

fun leaves_hold :: "string \<Rightarrow> string \<Rightarrow> int \<Rightarrow> claim_op \<Rightarrow> bool" where
  "leaves_hold key cid since (Claim ss k s r c now) = (k = key \<longrightarrow> now \<le> since + CLAIM_EXPIRY_MS)"
| "leaves_hold key cid since (Release k c) = (\<not> (k = key \<and> c = cid))"
| "leaves_hold key cid since (Finalize k c now) = (k = key \<and> c = cid \<longrightarrow> since \<le> NEVER_EXPIRE now)"

lemma held_step:
  assumes "held key cid since t" "leaves_hold key cid since e"
  shows "held key cid since (claim_exec t e)" and "\<not> claim_wins key t e"
proof -
  obtain r where r: "r \<in> set t" "dedupe_key r = key" "claim_id r = cid" "since \<le> created_at r"
    using assms(1) by (auto simp: held_def list_ex_iff)
  show "held key cid since (claim_exec t e)"
  proof (cases e)
    case (Claim ss k s ri c now)
    then have "r \<in> set (claim_exec t e)"
      using r assms(2) by (auto simp: claimCallback_def Let_def)
    then show ?thesis using r by (auto simp: held_def list_ex_iff)
  next
    case (Release k c)
    then have "r \<in> set (claim_exec t e)"
      using r assms(2) by (auto simp: releaseCallbackClaim_def)
    then show ?thesis using r by (auto simp: held_def list_ex_iff)
  next
    case (Finalize k c now)
    let ?f = "\<lambda>r. if dedupe_key r = k \<and> claim_id r = c then r\<lparr>created_at := NEVER_EXPIRE now\<rparr> else r"
    have "?f r \<in> set (claim_exec t e)" using r Finalize by (auto simp: finalizeCallbackClaim_def)
    moreover have "dedupe_key (?f r) = key \<and> claim_id (?f r) = cid \<and> since \<le> created_at (?f r)"
      using r assms(2) Finalize by auto
    ultimately show ?thesis unfolding held_def list_ex_iff by blast
  qed
  show "\<not> claim_wins key t e"
  proof (cases e)
    case (Claim ss k s ri c now)
    then show ?thesis
      using r assms(2) by (auto simp: claimCallback_def Let_def list_ex_iff)
  qed simp_all
qed

text \<open>C36: a callback claim is exclusive. While a handler holds a dedupe key (it claimed or finalized
  it at \<open>since\<close> and has not released it), no other claim on that key succeeds: in every
  interleaving of claims, releases and finalizes by other handlers and on other keys, as long as
  the claims on this key come at most a minute after \<open>since\<close>, the number of successful claims
  is zero and the hold remains. Finalizing moves \<open>since\<close> a hundred years ahead.\<close>

theorem claim_exclusive:
  assumes "held key cid since t" and "list_all (leaves_hold key cid since) es"
  shows "count_wins claim_exec (claim_wins key) t es = 0
    \<and> held key cid since (foldl claim_exec t es)"
  using assms
proof (induction es arbitrary: t)
  case (Cons e es)
  then show ?case using held_step [of key cid since t e] by simp
qed simp

theorem claim_exclusive_witness:
  "count_wins claim_exec (claim_wins ''k'')
     (fst (finalizeCallbackClaim ''k'' ''A'' 20 (fst (claimCallback [''s''] ''k'' ''s'' ''r1'' ''A'' 0 []))))
     [Claim [''s''] ''k'' ''s'' ''r2'' ''B'' 1000000, Release ''k'' ''B''] = 0"
  using claim_exclusive [of "''k''" "''A''" "NEVER_EXPIRE 20"
      "fst (finalizeCallbackClaim ''k'' ''A'' 20 (fst (claimCallback [''s''] ''k'' ''s'' ''r1'' ''A'' 0 [])))"
      "[Claim [''s''] ''k'' ''s'' ''r2'' ''B'' 1000000, Release ''k'' ''B'']"]
  by (simp add: held_def finalizeCallbackClaim_def claimCallback_def NEVER_EXPIRE_def CLAIM_EXPIRY_MS_def
      del: count_wins.simps)

text \<open>Exactly when a claim is won. On a table with one row per key, a claim for a known session
  with a fresh row id wins if and only if every row of that key has expired, and then the key is
  held by the new claim from now on. So a claim whose handler crashed blocks the key for a minute
  and no longer.\<close>

theorem claimCallback_wins_iff:
  assumes "sess \<in> set sessions" and "rid \<notin> row_id ` set t"
  shows "(snd (claimCallback sessions key sess rid cid now t) = Won cid \<longleftrightarrow>
      (\<forall>r \<in> set t. dedupe_key r = key \<longrightarrow> created_at r + CLAIM_EXPIRY_MS < now))
    \<and> (snd (claimCallback sessions key sess rid cid now t) = Won cid \<longrightarrow>
      held key cid now (fst (claimCallback sessions key sess rid cid now t)))"
  using assms by (auto simp: claimCallback_def Let_def list_ex_iff held_def split: if_splits)

theorem claimCallback_wins_iff_witness:
  "snd (claimCallback [''s''] ''k'' ''s'' ''r2'' ''B'' 60001
     (fst (claimCallback [''s''] ''k'' ''s'' ''r1'' ''A'' 0 []))) = Won ''B''"
  using claimCallback_wins_iff [of "''s''" "[''s'']" "''r2''"
      "fst (claimCallback [''s''] ''k'' ''s'' ''r1'' ''A'' 0 [])" "''k''" "''B''" 60001]
  by (simp add: claimCallback_def CLAIM_EXPIRY_MS_def)

text \<open>A finalize that returns false is by a handler that no longer holds the key, and changes
  nothing.\<close>

lemma finalize_lost:
  assumes "\<not> snd (finalizeCallbackClaim key cid now t)"
  shows "fst (finalizeCallbackClaim key cid now t) = t" "\<not> held key cid since t"
  using assms by (auto simp: finalizeCallbackClaim_def held_def list_ex_iff intro!: map_idI)

end
