(* ===== verification/Call_Recovery.thy ===== *)
theory Call_Recovery
  imports Call_Store
begin

text \<open>
  Startup recovery of calls (\<^verbatim>\<open>assistant/src/calls/call-recovery.ts\<close>). The provider's
  \<^verbatim>\<open>getCallStatus\<close> is a parameter: it returns a status string or fails with a message. While
  it is awaited other handlers may run; what they do is a list of store operations per session.
  Each session is processed with one clock reading. \<open>disk\<close> says whether lease writes succeed.
\<close>

definition NO_SID_GRACE_PERIOD_MS :: int where
  "NO_SID_GRACE_PERIOD_MS = 5 * 60000"

definition mapProviderStatus :: "string \<Rightarrow> call_status option" where
  "mapProviderStatus st =
     (if st = ''queued'' \<or> st = ''ringing'' then Some Ringing
      else if st = ''in-progress'' then Some InProgress
      else if st = ''completed'' then Some Completed
      else if st = ''failed'' \<or> st = ''busy'' \<or> st = ''no-answer'' \<or> st = ''canceled'' then Some Failed
      else None)"

record recovery_env =
  getCallStatus :: "string \<Rightarrow> string + string"
  while_awaiting :: "string \<Rightarrow> call_op list"
  clock_at :: "string \<Rightarrow> int"
  disk_ok :: bool

definition end_call :: "recovery_env \<Rightarrow> string \<Rightarrow> call_status \<Rightarrow> string option \<Rightarrow> call_state \<Rightarrow> call_state" where
  "end_call env i st err s =
     expirePendingQuestions i
       (fst (updateCallSession i
          (no_updates\<lparr>u_status := Some st, u_endedAt := Some (Some (clock_at env i)),
                      u_lastError := map_option Some err\<rparr>)
          None (disk_ok env) (clock_at env i) s))"

text \<open>\<^verbatim>\<open>!session.providerCallSid\<close>: null or the empty string.\<close>

definition has_sid :: "call_session \<Rightarrow> bool" where
  "has_sid r \<longleftrightarrow> (case providerCallSid r of None \<Rightarrow> False | Some c \<Rightarrow> c \<noteq> [])"

definition is_stale :: "recovery_env \<Rightarrow> call_session \<Rightarrow> bool" where
  "is_stale env r \<longleftrightarrow> clock_at env (session_id r) - createdAt r \<ge> NO_SID_GRACE_PERIOD_MS"

text \<open>The message of a failed orphan; the source has an em dash where this has a hyphen.\<close>

definition ORPHAN_ERROR :: string where
  "ORPHAN_ERROR =
     ''Daemon restarted before provider SID persisted; grace period expired - orphan session failed''"

definition AWAITING_NOTE :: string where
  "AWAITING_NOTE = ''Daemon restarted before provider SID persisted; awaiting webhook''"

definition fetch_error :: "string \<Rightarrow> string" where
  "fetch_error msg = ''Recovery: failed to fetch provider status: '' @ msg"

definition unknown_status_error :: "string \<Rightarrow> string" where
  "unknown_status_error st = ''Recovery: unrecognised provider status '' @ [CHR 0x27] @ st @ [CHR 0x27]"

definition recover_one :: "recovery_env \<Rightarrow> call_session \<Rightarrow> call_state \<Rightarrow> call_state" where
  "recover_one env r s =
     (let i = session_id r in
      if \<not> has_sid r then
        (if is_stale env r
         then end_call env i Failed
                (Some ORPHAN_ERROR) s
         else fst (updateCallSession i
                (no_updates\<lparr>u_lastError :=
                   Some (Some AWAITING_NOTE)\<rparr>)
                None (disk_ok env) (clock_at env i) s))
      else
        (let s1 = foldl call_step s (while_awaiting env i) in
         case getCallStatus env (the (providerCallSid r)) of
           Inl msg \<Rightarrow> end_call env i Failed (Some (fetch_error msg)) s1
         | Inr st \<Rightarrow>
             (case mapProviderStatus st of
                None \<Rightarrow> end_call env i Failed
                          (Some (unknown_status_error st)) s1
              | Some m \<Rightarrow> if isTerminalState m then end_call env i m None s1 else s1)))"

definition reconcileCallsOnStartup :: "recovery_env \<Rightarrow> int \<Rightarrow> call_state \<Rightarrow> call_state \<times> call_error option" where
  "reconcileCallsOnStartup env now s =
     (let recoverable = listRecoverableCalls s in
      case reconcileActiveCallLeases (disk_ok env) now recoverable (lease_file s) of
        Inl e \<Rightarrow> (s, Some e)
      | Inr f \<Rightarrow> (foldl (\<lambda>st r. recover_one env r st) (s\<lparr>lease_file := f\<rparr>) recoverable, None))"

section \<open>Recovery as store operations\<close>

definition end_ops :: "recovery_env \<Rightarrow> string \<Rightarrow> call_status \<Rightarrow> string option \<Rightarrow> call_op list" where
  "end_ops env i st err =
     [UpdateSession i (no_updates\<lparr>u_status := Some st, u_endedAt := Some (Some (clock_at env i)),
                       u_lastError := map_option Some err\<rparr>) (disk_ok env) (clock_at env i),
      ExpireQuestions i]"

lemma end_call_ops: "end_call env i st err s = foldl call_step s (end_ops env i st err)"
  by (simp add: end_call_def end_ops_def)

lemma no_updates_status [simp]: "u_status no_updates = None" "u_providerCallSid no_updates = None"
  "u_conversationId no_updates = None"
  by (simp_all add: no_updates_def)

lemma end_ops_terminal:
  assumes "getCallSession s i = Some r" "isTerminalState st"
  shows "\<exists>r'. getCallSession (foldl call_step s (end_ops env i st err)) i = Some r' \<and> isTerminalState (status r')"
proof -
  let ?u = "no_updates\<lparr>u_status := Some st, u_endedAt := Some (Some (clock_at env i)),
     u_lastError := map_option Some err\<rparr>"
  let ?s = "fst (updateCallSession i ?u None (disk_ok env) (clock_at env i) s)"
  have row: "\<exists>s1. update_row i ?u (clock_at env i) s = Inr s1"
    using assms(1) by (simp add: update_row_def row_allowed_def)
  have "\<exists>r'. getCallSession ?s i = Some r' \<and> isTerminalState (status r')"
  proof (cases "isTerminalState (status r)")
    case True
    have "foldl call_step s [UpdateSession i ?u (disk_ok env) (clock_at env i)] = ?s" by simp
    then show ?thesis using call_run_status [OF assms(1)] call_statuses.final_run [OF TrueI True] True
      by metis
  next
    case False
    then have "\<not> transition_refused s i ?u"
      using live_can_fail [OF False assms(2)] assms(1) by (simp add: transition_refused_def)
    then show ?thesis
      using updateCallSession_get [OF hook_keeps_simps(1) assms(1), of i ?u "disk_ok env" "clock_at env i"]
        row assms(2) by (auto simp: status_apply or_keep_def)
  qed
  then show ?thesis by (simp add: end_ops_def expirePendingQuestions_def getCallSession_def)
qed

text \<open>What recovery decides about a session, and the operations it runs for it.\<close>

definition must_end :: "recovery_env \<Rightarrow> call_session \<Rightarrow> bool" where
  "must_end env r \<longleftrightarrow>
     (if has_sid r then
        (case getCallStatus env (the (providerCallSid r)) of
           Inl _ \<Rightarrow> True
         | Inr st \<Rightarrow> (case mapProviderStatus st of None \<Rightarrow> True | Some m \<Rightarrow> isTerminalState m))
      else is_stale env r)"

definition decision :: "recovery_env \<Rightarrow> call_session \<Rightarrow> call_op list" where
  "decision env r =
     (let i = session_id r in
      if \<not> has_sid r then
        (if is_stale env r then end_ops env i Failed (Some ORPHAN_ERROR)
         else [UpdateSession i (no_updates\<lparr>u_lastError := Some (Some AWAITING_NOTE)\<rparr>) (disk_ok env) (clock_at env i)])
      else (case getCallStatus env (the (providerCallSid r)) of
              Inl msg \<Rightarrow> end_ops env i Failed (Some (fetch_error msg))
            | Inr st \<Rightarrow> (case mapProviderStatus st of
                None \<Rightarrow> end_ops env i Failed (Some (unknown_status_error st))
              | Some m \<Rightarrow> if isTerminalState m then end_ops env i m None else [])))"

definition awaited :: "recovery_env \<Rightarrow> call_session \<Rightarrow> call_op list" where
  "awaited env r = (if has_sid r then while_awaiting env (session_id r) else [])"

lemma recover_one_ops: "recover_one env r s = foldl call_step s (awaited env r @ decision env r)"
  unfolding recover_one_def decision_def awaited_def Let_def end_call_ops
  by (simp split: sum.split option.split)

lemma decision_ends:
  assumes "must_end env r"
  shows "\<exists>st err. isTerminalState st \<and> decision env r = end_ops env (session_id r) st err"
proof -
  have "isTerminalState Failed" by (simp add: isTerminalState_iff)
  then show ?thesis using assms unfolding must_end_def decision_def Let_def
    by (auto split: sum.split_asm option.split_asm if_split_asm)
qed

lemma decision_keeps:
  assumes "\<not> must_end env r"
  shows "decision env r = [] \<or> decision env r =
    [UpdateSession (session_id r) (no_updates\<lparr>u_lastError := Some (Some AWAITING_NOTE)\<rparr>)
       (disk_ok env) (clock_at env (session_id r))]"
  using assms unfolding must_end_def decision_def Let_def
  by (simp split: sum.split_asm option.split_asm if_split_asm)

lemma recover_one_exists:
  "getCallSession s i = Some r \<Longrightarrow> \<exists>r'. getCallSession (recover_one env x s) i = Some r'"
  unfolding recover_one_ops using call_run_status by blast

lemma recover_one_keeps_terminal:
  assumes "getCallSession s i = Some r" "isTerminalState (status r)"
  shows "\<exists>r'. getCallSession (recover_one env x s) i = Some r' \<and> isTerminalState (status r')"
  unfolding recover_one_ops
  using call_run_status [OF assms(1)] call_statuses.final_run [OF TrueI assms(2)] assms(2) by metis

lemma recover_one_ends:
  assumes "getCallSession s (session_id x) = Some r" "must_end env x"
  shows "\<exists>r'. getCallSession (recover_one env x s) (session_id x) = Some r' \<and> isTerminalState (status r')"
proof -
  obtain st err where ops: "isTerminalState st"
      "recover_one env x s = foldl call_step (foldl call_step s (awaited env x)) (end_ops env (session_id x) st err)"
    using recover_one_ops [of env x] decision_ends [OF assms(2)] by auto
  obtain r1 where "getCallSession (foldl call_step s (awaited env x)) (session_id x) = Some r1"
    using call_run_status [OF assms(1)] by blast
  from end_ops_terminal [OF this ops(1)] show ?thesis unfolding ops(2) .
qed

lemma recover_all_ends:
  assumes "\<And>x. x \<in> set xs \<Longrightarrow> \<exists>r. getCallSession s (session_id x) = Some r"
    and "x \<in> set xs" "must_end env x"
  shows "\<exists>r'. getCallSession (foldl (\<lambda>st r. recover_one env r st) s xs) (session_id x) = Some r'
    \<and> isTerminalState (status r')"
  using assms
proof (induction xs arbitrary: s)
  case (Cons y ys)
  have keep: "\<exists>r'. getCallSession (foldl (\<lambda>st r. recover_one env r st) s' zs) i = Some r' \<and> isTerminalState (status r')"
    if "getCallSession s' i = Some r" "isTerminalState (status r)" for s' zs i r
    using that
  proof (induction zs arbitrary: s' r)
    case (Cons z zs)
    then show ?case using recover_one_keeps_terminal [of s' i r env z] by force
  qed auto
  show ?case
  proof (cases "x = y")
    case True
    then obtain r where "getCallSession (recover_one env y s) (session_id x) = Some r" "isTerminalState (status r)"
      using recover_one_ends Cons.prems by (metis list.set_intros(1))
    then show ?thesis using keep by simp
  next
    case False
    have "\<exists>r. getCallSession (recover_one env y s) (session_id z) = Some r" if "z \<in> set ys" for z
      using Cons.prems(1) [of z] that recover_one_exists by fastforce
    then show ?thesis using Cons.IH [of "recover_one env y s"] Cons.prems(2,3) False by simp
  qed
qed simp

lemma getCallSession_mem:
  assumes "r \<in> set (call_sessions s)"
  shows "\<exists>r'. getCallSession s (session_id r) = Some r'"
  using assms by (cases "getCallSession s (session_id r)") (auto simp: getCallSession_def find_None_iff)

lemma recovery_ends:
  assumes "reconcileCallsOnStartup env now s = (s', None)"
    and "x \<in> set (listRecoverableCalls s)" and "must_end env x"
  shows "\<exists>r. getCallSession s' (session_id x) = Some r \<and> isTerminalState (status r)"
proof -
  obtain f where s': "s' = foldl (\<lambda>st r. recover_one env r st) (s\<lparr>lease_file := f\<rparr>) (listRecoverableCalls s)"
    using assms(1) by (auto simp: reconcileCallsOnStartup_def Let_def split: sum.splits)
  have "\<exists>r. getCallSession (s\<lparr>lease_file := f\<rparr>) (session_id y) = Some r" if "y \<in> set (listRecoverableCalls s)" for y
    using that getCallSession_mem [of y "s\<lparr>lease_file := f\<rparr>"] by (simp add: listRecoverableCalls_def)
  then show ?thesis unfolding s' by (rule recover_all_ends [OF _ assms(2,3)])
qed

text \<open>C35: recovery leaves no dead call running. Every call that was live at startup and that the
  provider no longer knows, reports as ended or cannot report on, or that never got a provider SID
  and is older than the grace period, is in a terminal state when recovery finishes, whatever
  other handlers did to the store while the provider was being asked.\<close>

theorem recovery_ends_dead_calls:
  assumes "reconcileCallsOnStartup env now s = (s', None)"
    and "x \<in> set (listRecoverableCalls s)" and "must_end env x"
  shows "\<exists>r. getCallSession s' (session_id x) = Some r \<and> isTerminalState (status r)"
  using assms by (rule recovery_ends)

definition recovery_sample :: recovery_env where
  "recovery_sample = \<lparr>getCallStatus = (\<lambda>_. Inr ''busy''), while_awaiting = (\<lambda>_. []),
     clock_at = (\<lambda>_. 400000), disk_ok = True\<rparr>"

lemma recovery_sample_runs:
  "reconcileCallsOnStartup recovery_sample 400000 started_call =
     (fst (reconcileCallsOnStartup recovery_sample 400000 started_call), None)"
  "new_session sample_opts ''s'' 0 \<in> set (listRecoverableCalls started_call)"
  "must_end recovery_sample (new_session sample_opts ''s'' 0)"
  by (simp_all add: reconcileCallsOnStartup_def recovery_sample_def reconcileActiveCallLeases_def
      listRecoverableCalls_def started_call_def new_session_def clearActiveCallLeases_def saveLeaseFile_def
      must_end_def has_sid_def is_stale_def NO_SID_GRACE_PERIOD_MS_def Let_def split: sum.split)

theorem recovery_ends_dead_calls_witness:
  "\<exists>r. getCallSession (fst (reconcileCallsOnStartup recovery_sample 400000 started_call)) ''s'' = Some r
     \<and> isTerminalState (status r)"
  using recovery_ends_dead_calls [OF recovery_sample_runs] by (simp add: new_session_def)

section \<open>Undisturbed recovery\<close>

lemma find_session_lease:
  "find (\<lambda>l. callSessionId l = i) (map (session_lease now) rs) =
     map_option (session_lease now) (find (\<lambda>r. session_id r = i) rs)"
  by (induction rs) (simp_all add: session_lease_def)

lemma reconcile_leases:
  assumes "distinct (map session_id (call_sessions s))"
    and "reconcileActiveCallLeases True now (listRecoverableCalls s) (lease_file s) = Inr f"
  shows "leases_match (s\<lparr>lease_file := f\<rparr>)"
proof -
  let ?live = "filter (\<lambda>r. \<not> isTerminalState (status r)) (call_sessions s)"
  have live: "filter (\<lambda>r. \<not> isTerminalState (status r)) (listRecoverableCalls s) = ?live"
    by (simp add: listRecoverableCalls_def isTerminalState_iff cong: conj_cong)
  let ?ls = "map (session_lease now) ?live"
  have ids: "map callSessionId ?ls = map session_id ?live" by (simp add: session_lease_def)
  have d: "distinct (map callSessionId ?ls)" unfolding ids using assms(1) by (simp add: distinct_map_filter)
  have look: "find (\<lambda>l. callSessionId l = i) ?ls =
      map_option (session_lease now) (find (\<lambda>r. session_id r = i) ?live)" for i
    by (rule find_session_lease)
  have f: "(?ls = [] \<and> f = clearActiveCallLeases True (lease_file s)) \<or> saveLeaseFile True ?ls = Inr f"
    using assms(2) unfolding reconcileActiveCallLeases_def live Let_def by (metis sum.inject(2))
  have look_f: "file_ok f \<and> getActiveCallLease f i = find (\<lambda>l. callSessionId l = i) ?ls" for i
    using f
  proof
    assume "?ls = [] \<and> f = clearActiveCallLeases True (lease_file s)"
    then have "loadLeaseFile f = []" "?live = []"
      by (auto simp: clearActiveCallLeases_def loadLeaseFile_def)
    then show ?thesis by (simp add: file_ok_def getActiveCallLease_def)
  next
    assume "saveLeaseFile True ?ls = Inr f"
    then show ?thesis using saved_lookup [OF _ d] by blast
  qed
  have "lease_for (getCallSession s i) (map_option (session_lease now) (find (\<lambda>r. session_id r = i) ?live))" for i
  proof (cases "getCallSession s i")
    case None
    then have "find (\<lambda>r. session_id r = i) ?live = None"
      unfolding getCallSession_def find_None_iff by simp
    then show ?thesis using None by (simp add: lease_for_def)
  next
    case (Some r)
    then have r: "r \<in> set (call_sessions s)" "session_id r = i"
      unfolding getCallSession_def by (auto dest: find_mem)
    have dl: "distinct (map session_id ?live)" using assms(1) by (simp add: distinct_map_filter)
    show ?thesis
    proof (cases "isTerminalState (status r)")
      case True
      have "find (\<lambda>r. session_id r = i) ?live = None"
        using r True assms(1) unfolding find_None_iff_key
        by (auto simp: distinct_map inj_on_def)
      then show ?thesis using Some True by (simp add: lease_for_def)
    next
      case False
      then have "find (\<lambda>r. session_id r = i) ?live = Some r"
        using r find_distinct_iff [OF dl, of i r] by simp
      then show ?thesis using Some False by (simp add: lease_for_def session_lease_def split: option.split)
    qed
  qed
  then show ?thesis using look_f by (simp add: leases_match_def look getCallSession_def)
qed

lemma call_step_other:
  assumes "getCallSession s i = Some r" "j \<noteq> i \<or> u_status u = None"
  shows "\<exists>r'. getCallSession (call_step s (UpdateSession j u d now)) i = Some r' \<and> status r' = status r"
  using updateCallSession_get [OF hook_keeps_simps(1) assms(1), of j u d now] assms(2)
  by (auto simp: status_apply or_keep_def)

lemma recover_one_spares:
  assumes "getCallSession s i = Some r" "awaited env x = []" "session_id x \<noteq> i \<or> \<not> must_end env x"
  shows "\<exists>r'. getCallSession (recover_one env x s) i = Some r' \<and> status r' = status r"
proof -
  have own: "u_status (no_updates\<lparr>u_lastError := e\<rparr>) = None" for e by (simp add: no_updates_def)
  show ?thesis
  proof (cases "must_end env x")
    case True
    then obtain st err where "decision env x = end_ops env (session_id x) st err"
      using decision_ends by blast
    then show ?thesis using call_step_other [OF assms(1)] assms(2,3) True
      by (simp add: recover_one_ops end_ops_def expirePendingQuestions_def getCallSession_def)
  next
    case False
    then show ?thesis
      using decision_keeps [OF False] call_step_other [OF assms(1) disjI2 [OF own]] assms(1,2)
      by (auto simp: recover_one_ops simp del: call_step.simps)
  qed
qed

lemma recover_all_spares:
  assumes "getCallSession s i = Some r" "\<And>x. awaited env x = []"
    and "\<And>x. x \<in> set xs \<Longrightarrow> session_id x \<noteq> i \<or> \<not> must_end env x"
  shows "\<exists>r'. getCallSession (foldl (\<lambda>st r. recover_one env r st) s xs) i = Some r' \<and> status r' = status r"
  using assms
proof (induction xs arbitrary: s r)
  case (Cons x xs)
  obtain r1 where "getCallSession (recover_one env x s) i = Some r1" "status r1 = status r"
    using recover_one_spares [OF Cons.prems(1,2), of x] Cons.prems(3) by auto
  then show ?case using Cons.IH [of "recover_one env x s" r1] Cons.prems(2,3) by auto
qed simp

lemma decision_clean:
  assumes "disk_ok env" "e \<in> set (decision env x)"
  shows "disk_works e \<and> event_fresh s e \<and> late_lease s e = []"
proof (cases "must_end env x")
  case True
  then show ?thesis using decision_ends [OF True] assms
    by (auto simp: end_ops_def disk_works_def event_fresh_def late_lease_def)
next
  case False
  then show ?thesis using decision_keeps [OF False] assms by (auto simp: disk_works_def event_fresh_def late_lease_def)
qed

lemma recover_one_leases:
  assumes "leases_match s" "disk_ok env" "awaited env x = []"
  shows "leases_match (recover_one env x s)"
proof -
  have "leases_match (foldl call_step s es)" if "leases_match s" "set es \<subseteq> set (decision env x)" for es s
    using that
  proof (induction es arbitrary: s)
    case (Cons e es)
    then have "leases_match (call_step s e)"
      using call_step_leases [of s e] decision_clean [OF assms(2), of e x s] by simp
    then show ?case using Cons by simp
  qed simp
  then show ?thesis using assms(1,3) by (simp add: recover_one_ops)
qed

text \<open>What an undisturbed recovery does. With unique session ids, working lease writes and no
  other handler running, recovery succeeds and: a call that was live at startup is terminal
  afterwards if and only if the provider or the grace period says it is over, and the lease file
  agrees with the call table again, whatever it held before (stale leases, a wrong version,
  unreadable content).\<close>

theorem recovery_undisturbed:
  assumes "distinct (map session_id (call_sessions s))" and "disk_ok env"
    and "while_awaiting env = (\<lambda>_. [])"
  shows "\<exists>s'. reconcileCallsOnStartup env now s = (s', None) \<and> leases_match s' \<and>
    (\<forall>x \<in> set (listRecoverableCalls s). \<exists>r. getCallSession s' (session_id x) = Some r
       \<and> (isTerminalState (status r) \<longleftrightarrow> must_end env x))"
proof -
  let ?xs = "listRecoverableCalls s"
  have aw: "awaited env x = []" for x using assms(3) by (simp add: awaited_def)
  obtain f where f: "reconcileActiveCallLeases True now ?xs (lease_file s) = Inr f"
    unfolding reconcileActiveCallLeases_def saveLeaseFile_def Let_def by (metis (full_types))
  define s0 where "s0 = s\<lparr>lease_file := f\<rparr>"
  define s' where "s' = foldl (\<lambda>st r. recover_one env r st) s0 ?xs"
  have run: "reconcileCallsOnStartup env now s = (s', None)"
    using f assms(2) by (simp add: reconcileCallsOnStartup_def s'_def s0_def)
  have "leases_match (foldl (\<lambda>st r. recover_one env r st) t zs)" if "leases_match t" for t zs
    using that by (induction zs arbitrary: t) (simp_all add: recover_one_leases assms(2) aw)
  then have lm: "leases_match s'" using reconcile_leases [OF assms(1) f] by (simp add: s'_def s0_def)
  have "\<exists>r. getCallSession s' (session_id x) = Some r \<and> (isTerminalState (status r) \<longleftrightarrow> must_end env x)"
    if x: "x \<in> set ?xs" for x
  proof (cases "must_end env x")
    case True
    then show ?thesis using recovery_ends [OF run x True] by auto
  next
    case False
    have mem: "x \<in> set (call_sessions s)" and live: "\<not> isTerminalState (status x)"
      using x by (auto simp: listRecoverableCalls_def isTerminalState_iff)
    have get: "getCallSession s0 (session_id x) = Some x"
      using mem find_distinct_iff [OF assms(1)] by (simp add: getCallSession_def s0_def)
    have "session_id y \<noteq> session_id x \<or> \<not> must_end env y" if "y \<in> set ?xs" for y
      using that False mem assms(1) by (auto simp: listRecoverableCalls_def distinct_map inj_on_def)
    then obtain r where "getCallSession s' (session_id x) = Some r" "status r = status x"
      using recover_all_spares [OF get aw, of ?xs] unfolding s'_def by blast
    then show ?thesis using live False by auto
  qed
  then show ?thesis using run lm by blast
qed

theorem recovery_undisturbed_witness:
  "\<exists>s'. reconcileCallsOnStartup recovery_sample 400000 started_call = (s', None) \<and> leases_match s' \<and>
    (\<forall>x \<in> set (listRecoverableCalls started_call). \<exists>r. getCallSession s' (session_id x) = Some r
       \<and> (isTerminalState (status r) \<longleftrightarrow> must_end recovery_sample x))"
  by (rule recovery_undisturbed) (simp_all add: started_call_def recovery_sample_def)

end
