(* ===== verification/A2A_Tasks.thy ===== *)
theory A2A_Tasks
  imports Prelude
begin

text \<open>
  The task store of the agent-to-agent protocol (\<^verbatim>\<open>assistant/src/a2a/task-store.ts\<close>, types in
  \<^verbatim>\<open>protocol-types.ts\<close>). The table \<^verbatim>\<open>a2a_tasks\<close> is the list of its rows; JSON columns
  hold the value that was stringified. Task ids, message ids and the clock are arguments, and a
  timestamp stays in milliseconds instead of the ISO text of it.
\<close>

datatype task_state = Submitted | Working | TaskCompleted | TaskFailed | Canceled | InputRequired | Rejected

datatype message_role = UserRole | AgentRole

datatype part =
    TextPart string
  | DataPart "(string \<times> json) list" "string option"
  | FilePart "string option" "string option" "string option" "string option"

record a2a_message =
  message_id :: string
  msg_context_id :: "string option"
  msg_task_id :: "string option"
  msg_role :: message_role
  parts :: "part list"
  msg_metadata :: "(string \<times> json) list option"

record artifact =
  artifact_id :: string
  artifact_parts :: "part list"
  artifact_metadata :: "(string \<times> json) list option"

record task_status =
  status_state :: task_state
  status_message :: "a2a_message option"
  status_timestamp :: int

record a2a_task =
  a2a_id :: string
  context_id :: "string option"
  a2a_status :: task_status
  artifacts :: "artifact list option"

record task_row =
  task_id :: string
  contextId :: "string option"
  conversationId :: "string option"
  state :: task_state
  statusMessage :: "string option"
  requestMessage :: a2a_message
  artifactsJson :: "artifact list option"
  pushUrl :: "string option"
  senderAssistantId :: string
  createdAt :: int
  updatedAt :: int

type_synonym task_table = "task_row list"

definition TERMINAL_TASK_STATES :: "task_state list" where
  "TERMINAL_TASK_STATES = [TaskCompleted, TaskFailed, Canceled, Rejected]"

datatype task_error = TaskNotFound string | TerminalState string task_state task_state | DuplicateTaskId

definition find_task :: "task_table \<Rightarrow> string \<Rightarrow> task_row option" where
  "find_task t i = find (\<lambda>r. task_id r = i) t"

definition assertNonTerminal :: "task_table \<Rightarrow> string \<Rightarrow> task_state \<Rightarrow> task_error option" where
  "assertNonTerminal t i target =
     (case find_task t i of
        None \<Rightarrow> Some (TaskNotFound i)
      | Some r \<Rightarrow> if state r \<in> set TERMINAL_TASK_STATES then Some (TerminalState i (state r) target) else None)"

text \<open>An empty status message counts as none.\<close>

definition rowToTask :: "string \<Rightarrow> task_row \<Rightarrow> a2a_task" where
  "rowToTask mid r =
     \<lparr>a2a_id = task_id r, context_id = contextId r,
      a2a_status = \<lparr>status_state = state r,
        status_message =
          (case statusMessage r of
             None \<Rightarrow> None
           | Some m \<Rightarrow> if m = [] then None
               else Some \<lparr>message_id = mid, msg_context_id = None, msg_task_id = None,
                          msg_role = AgentRole, parts = [TextPart m], msg_metadata = None\<rparr>),
        status_timestamp = updatedAt r\<rparr>,
      artifacts = artifactsJson r\<rparr>"

definition createTask ::
  "string option \<Rightarrow> string \<Rightarrow> a2a_message \<Rightarrow> string option \<Rightarrow> string \<Rightarrow> int \<Rightarrow> string \<Rightarrow> task_table \<Rightarrow>
   task_table \<times> (task_error + a2a_task)" where
  "createTask ctx sender req push i now mid t =
     (if find_task t i \<noteq> None then (t, Inl DuplicateTaskId)
      else (let row = \<lparr>task_id = i, contextId = ctx, conversationId = None, state = Submitted,
                       statusMessage = None, requestMessage = req, artifactsJson = None, pushUrl = push,
                       senderAssistantId = sender, createdAt = now, updatedAt = now\<rparr>
            in (t @ [row], Inr (rowToTask mid row))))"

definition getTask :: "task_table \<Rightarrow> string \<Rightarrow> string \<Rightarrow> a2a_task option" where
  "getTask t i mid = map_option (rowToTask mid) (find_task t i)"

definition update_task :: "string \<Rightarrow> (task_row \<Rightarrow> task_row) \<Rightarrow> task_table \<Rightarrow> task_table" where
  "update_task i f t = map (\<lambda>r. if task_id r = i then f r else r) t"

definition updateState ::
  "string \<Rightarrow> task_state \<Rightarrow> string option \<Rightarrow> int \<Rightarrow> string \<Rightarrow> task_table \<Rightarrow> task_table \<times> (task_error + a2a_task)" where
  "updateState i st msg now mid t =
     (case assertNonTerminal t i st of
        Some e \<Rightarrow> (t, Inl e)
      | None \<Rightarrow>
          (let t' = update_task i (\<lambda>r. r\<lparr>state := st, statusMessage := msg, updatedAt := now\<rparr>) t
           in (t', Inr (rowToTask mid (the (find_task t' i))))))"

definition completeWithArtifacts ::
  "string \<Rightarrow> artifact list \<Rightarrow> int \<Rightarrow> string \<Rightarrow> task_table \<Rightarrow> task_table \<times> (task_error + a2a_task)" where
  "completeWithArtifacts i arts now mid t =
     (case assertNonTerminal t i TaskCompleted of
        Some e \<Rightarrow> (t, Inl e)
      | None \<Rightarrow>
          (let t' = update_task i (\<lambda>r. r\<lparr>state := TaskCompleted, statusMessage := None,
                      artifactsJson := Some arts, updatedAt := now\<rparr>) t
           in (t', Inr (rowToTask mid (the (find_task t' i))))))"

definition linkConversation :: "string \<Rightarrow> string \<Rightarrow> int \<Rightarrow> task_table \<Rightarrow> task_table \<times> task_error option" where
  "linkConversation i conv now t =
     (if find_task t i = None then (t, Some (TaskNotFound i))
      else (update_task i (\<lambda>r. r\<lparr>conversationId := Some conv, updatedAt := now\<rparr>) t, None))"

definition getPushUrl :: "task_table \<Rightarrow> string \<Rightarrow> string option" where
  "getPushUrl t i = Option.bind (find_task t i) pushUrl"

datatype task_op =
    CreateOp "string option" string a2a_message "string option" string int
  | UpdateOp string task_state "string option" int
  | CompleteOp string "artifact list" int
  | LinkOp string string int

fun task_exec :: "task_table \<Rightarrow> task_op \<Rightarrow> task_table" where
  "task_exec t (CreateOp ctx sender req push i now) = fst (createTask ctx sender req push i now [] t)"
| "task_exec t (UpdateOp i st msg now) = fst (updateState i st msg now [] t)"
| "task_exec t (CompleteOp i arts now) = fst (completeWithArtifacts i arts now [] t)"
| "task_exec t (LinkOp i conv now) = fst (linkConversation i conv now t)"

section \<open>The outcome of a task\<close>

text \<open>What a peer sees of a finished task: its state, status message and artifacts. The outcomes
  form a machine that stops at a terminal state.\<close>

type_synonym outcome = "task_state \<times> string option \<times> artifact list option"

definition outcome_of :: "task_row \<Rightarrow> outcome" where
  "outcome_of r = (state r, statusMessage r, artifactsJson r)"

definition terminal_outcome :: "outcome \<Rightarrow> bool" where
  "terminal_outcome x \<longleftrightarrow> fst x \<in> set TERMINAL_TASK_STATES"

definition outcome_step :: "outcome \<Rightarrow> outcome option \<Rightarrow> outcome" where
  "outcome_step x req = (case req of None \<Rightarrow> x | Some y \<Rightarrow> if terminal_outcome x then x else y)"

interpretation outcomes: absorbing_machine outcome_step "\<lambda>_. True" terminal_outcome
  by unfold_locales (auto simp: outcome_step_def split: option.splits)

lemma find_task_update:
  assumes "\<And>r. task_id (f r) = task_id r"
  shows "find_task (update_task i f t) j = (if j = i then map_option f (find_task t i) else find_task t j)"
  by (induction t) (auto simp: find_task_def update_task_def assms)

lemma find_task_append: "find_task t i = Some r \<Longrightarrow> find_task (t @ u) i = Some r"
  by (induction t) (auto simp: find_task_def)

lemma task_exec_outcome:
  assumes "find_task t i = Some r"
  shows "\<exists>r' req. find_task (task_exec t e) i = Some r' \<and> outcome_of r' = outcome_step (outcome_of r) req"
proof -
  have keep: "\<exists>r' req. find_task t' i = Some r' \<and> outcome_of r' = outcome_step (outcome_of r) req"
    if "find_task t' i = Some r'" "outcome_of r' = outcome_of r" for t' r'
    using that by (auto simp: outcome_step_def intro!: exI [of _ None])
  have written: "\<exists>r' req. find_task (update_task j f t) i = Some r' \<and> outcome_of r' = outcome_step (outcome_of r) req"
    if "assertNonTerminal t j st = None" "\<And>r. task_id (f r) = task_id r" for j f st
  proof (cases "j = i")
    case True
    then have "outcome_of (f r) = outcome_step (outcome_of r) (Some (outcome_of (f r)))"
      using that(1) assms by (auto simp: assertNonTerminal_def outcome_step_def terminal_outcome_def
          outcome_of_def split: if_splits)
    then show ?thesis using True assms find_task_update [of f, OF that(2)] by auto
  next
    case False
    then show ?thesis using keep [of "update_task j f t" r] assms find_task_update [of f, OF that(2)] by simp
  qed
  show ?thesis
  proof (cases e)
    case (CreateOp ctx sender req push k now)
    then show ?thesis
      using keep [of "task_exec t e" r] assms find_task_append [OF assms] by (simp add: createTask_def Let_def)
  next
    case (UpdateOp k st msg now)
    then show ?thesis
      using keep [OF assms] written [of k st] by (simp add: updateState_def Let_def split: option.split)
  next
    case (CompleteOp k arts now)
    then show ?thesis
      using keep [OF assms] written [of k TaskCompleted] by (simp add: completeWithArtifacts_def Let_def split: option.split)
  next
    case (LinkOp k conv now)
    then show ?thesis
      using keep [of "task_exec t e"] assms
      by (auto simp: linkConversation_def find_task_update outcome_of_def outcome_step_def intro!: exI [of _ None])
  qed
qed

lemma task_run_outcome:
  assumes "find_task t i = Some r"
  shows "\<exists>r' reqs. find_task (foldl task_exec t es) i = Some r' \<and> outcome_of r' = foldl outcome_step (outcome_of r) reqs"
  using assms
proof (induction es arbitrary: t r)
  case Nil
  then show ?case by (auto intro!: exI [of _ "[]"])
next
  case (Cons e es)
  obtain r1 req where r1: "find_task (task_exec t e) i = Some r1" "outcome_of r1 = outcome_step (outcome_of r) req"
    using task_exec_outcome [OF Cons.prems] by blast
  obtain r' reqs where "find_task (foldl task_exec (task_exec t e) es) i = Some r'"
      "outcome_of r' = foldl outcome_step (outcome_of r1) reqs"
    using Cons.IH [OF r1(1)] by blast
  then show ?case using r1(2) by (auto intro!: exI [of _ "req # reqs"])
qed

text \<open>a finished task is final. Once a task is completed, failed, canceled or rejected, every later
  state update and every completion is refused with the terminal-state error and leaves the table
  as it is, and after any sequence of store operations (new tasks, conversation links, updates of
  any task) the task still has the same state, status message and artifacts.\<close>

theorem finished_task_is_final:
  assumes "find_task t i = Some r" and "state r \<in> set TERMINAL_TASK_STATES"
  shows "updateState i st msg now mid t = (t, Inl (TerminalState i (state r) st))
    \<and> completeWithArtifacts i arts now mid t = (t, Inl (TerminalState i (state r) TaskCompleted))
    \<and> (\<exists>r'. find_task (foldl task_exec t es) i = Some r' \<and> state r' = state r
         \<and> statusMessage r' = statusMessage r \<and> artifactsJson r' = artifactsJson r)"
proof -
  have "terminal_outcome (outcome_of r)" using assms(2) by (simp add: terminal_outcome_def outcome_of_def)
  then obtain r' where "find_task (foldl task_exec t es) i = Some r'" "outcome_of r' = outcome_of r"
    using task_run_outcome [OF assms(1)] outcomes.final_run [OF TrueI] by metis
  then show ?thesis
    using assms by (simp add: updateState_def completeWithArtifacts_def assertNonTerminal_def outcome_of_def)
qed

definition sample_request :: a2a_message where
  "sample_request = \<lparr>message_id = ''m'', msg_context_id = None, msg_task_id = None, msg_role = UserRole,
     parts = [TextPart ''hi''], msg_metadata = None\<rparr>"

definition finished_table :: task_table where
  "finished_table = foldl task_exec []
     [CreateOp None ''peer'' sample_request None ''t'' 0, UpdateOp ''t'' Working None 1, CompleteOp ''t'' [] 2]"

theorem finished_task_is_final_witness:
  "\<exists>r'. find_task (foldl task_exec finished_table [UpdateOp ''t'' Working None 3, LinkOp ''t'' ''c'' 4]) ''t'' = Some r'
     \<and> state r' = TaskCompleted \<and> statusMessage r' = None \<and> artifactsJson r' = Some []"
proof -
  have f: "find_task finished_table ''t'' = Some (hd finished_table) \<and> state (hd finished_table) = TaskCompleted
      \<and> statusMessage (hd finished_table) = None \<and> artifactsJson (hd finished_table) = Some []"
    by code_simp
  then show ?thesis
    using finished_task_is_final [of finished_table "''t''" "hd finished_table"]
    by (simp add: TERMINAL_TASK_STATES_def del: foldl_Cons foldl_Nil)
qed

text \<open>Reading back what was written: the task returned by an update is the task a later read returns.\<close>

lemma update_then_get:
  assumes "updateState i st msg now mid t = (t', Inr task)"
  shows "getTask t' i mid = Some task \<and> status_state (a2a_status task) = st"
proof -
  obtain r where r: "find_task t i = Some r"
    using assms by (cases "find_task t i") (auto simp: updateState_def assertNonTerminal_def)
  have "find_task (update_task i (\<lambda>r. r\<lparr>state := st, statusMessage := msg, updatedAt := now\<rparr>) t) i =
      Some (r\<lparr>state := st, statusMessage := msg, updatedAt := now\<rparr>)"
    using r by (simp add: find_task_update)
  then show ?thesis
    using assms by (auto simp: updateState_def getTask_def Let_def rowToTask_def split: option.splits)
qed

end
