(* ===== verification/Breakers.thy ===== *)
theory Breakers
  imports Prelude
begin

text \<open>
  The assistant's circuit breakers: compaction of a conversation
  (\<^verbatim>\<open>assistant/src/agent/compaction-circuit.ts\<close>), the vector store
  (\<^verbatim>\<open>persistence/embeddings/qdrant-circuit-breaker.ts\<close>, module state as a record) and
  embedding billing (\<^verbatim>\<open>embedding-billing-breaker.ts\<close>). An operation gets the clock reading it
  makes; log output is not modelled.
\<close>

section \<open>Compaction circuit\<close>

definition COMPACTION_CIRCUIT_FAILURE_THRESHOLD :: nat where
  "COMPACTION_CIRCUIT_FAILURE_THRESHOLD = 3"

definition COMPACTION_CIRCUIT_COOLDOWN_MS :: int where
  "COMPACTION_CIRCUIT_COOLDOWN_MS = 60 * 60 * 1000"

record compaction_circuit =
  circuitConversationId :: string
  consecutiveCompactionFailures :: nat
  compactionCircuitOpenUntil :: "int option"
  lastPostCompactionEstimate :: "nat option"

datatype circuit_event = CircuitOpen string int | CircuitClosed string

definition new_circuit :: "string \<Rightarrow> compaction_circuit" where
  "new_circuit c = \<lparr>circuitConversationId = c, consecutiveCompactionFailures = 0,
     compactionCircuitOpenUntil = None, lastPostCompactionEstimate = None\<rparr>"

definition recordOutcome :: "bool \<Rightarrow> int \<Rightarrow> compaction_circuit \<Rightarrow> compaction_circuit \<times> circuit_event list" where
  "recordOutcome summaryFailed now c =
     (if summaryFailed then
        (let c1 = c\<lparr>consecutiveCompactionFailures := consecutiveCompactionFailures c + 1\<rparr>;
             circuitDormant = (case compactionCircuitOpenUntil c1 of None \<Rightarrow> True | Some u \<Rightarrow> now \<ge> u)
         in if consecutiveCompactionFailures c1 \<ge> COMPACTION_CIRCUIT_FAILURE_THRESHOLD \<and> circuitDormant
            then (let openUntil = now + COMPACTION_CIRCUIT_COOLDOWN_MS
                  in (c1\<lparr>compactionCircuitOpenUntil := Some openUntil\<rparr>,
                      [CircuitOpen (circuitConversationId c1) openUntil]))
            else (c1, []))
      else
        (let wasOpen = (compactionCircuitOpenUntil c \<noteq> None)
         in (c\<lparr>consecutiveCompactionFailures := 0, compactionCircuitOpenUntil := None\<rparr>,
             if wasOpen then [CircuitClosed (circuitConversationId c)] else [])))"

definition isOpen :: "int \<Rightarrow> compaction_circuit \<Rightarrow> bool" where
  "isOpen now c = (case compactionCircuitOpenUntil c of None \<Rightarrow> False | Some u \<Rightarrow> now < u)"

definition circuit_after :: "string \<Rightarrow> (bool \<times> int) list \<Rightarrow> compaction_circuit" where
  "circuit_after c es = foldl (\<lambda>s e. fst (recordOutcome (fst e) (snd e) s)) (new_circuit c) es"

definition trailing_failures :: "(bool \<times> int) list \<Rightarrow> nat" where
  "trailing_failures es = length (takeWhile fst (rev es))"

lemma circuit_after_snoc:
  "circuit_after c (es @ [e]) = fst (recordOutcome (fst e) (snd e) (circuit_after c es))"
  by (simp add: circuit_after_def)

lemma trailing_snoc:
  "trailing_failures (es @ [e]) = (if fst e then Suc (trailing_failures es) else 0)"
  by (simp add: trailing_failures_def)

lemma circuit_counts:
  "consecutiveCompactionFailures (circuit_after c es) = trailing_failures es
   \<and> (compactionCircuitOpenUntil (circuit_after c es) \<noteq> None \<longrightarrow> 3 \<le> trailing_failures es)"
proof (induction es rule: rev_induct)
  case Nil
  then show ?case by (simp add: circuit_after_def new_circuit_def trailing_failures_def)
next
  case (snoc e es)
  then show ?case
    by (auto simp: circuit_after_snoc trailing_snoc recordOutcome_def Let_def
        COMPACTION_CIRCUIT_FAILURE_THRESHOLD_def split: option.splits if_splits)
qed

text \<open>The compaction breaker trips on three strikes. Right after any outcome is recorded, at that
  moment, the breaker is open if and only if that outcome and at least the two before it were
  failures; in particular a success always closes it. Any earlier trips and cooldowns do not matter.\<close>

theorem circuit_open_iff_three_strikes:
  "isOpen (snd e) (circuit_after c (es @ [e])) \<longleftrightarrow> 3 \<le> trailing_failures (es @ [e])"
proof (cases "fst e")
  case True
  have "trailing_failures (es @ [e]) = Suc (trailing_failures es)" using True by (simp add: trailing_snoc)
  then show ?thesis
    using circuit_counts [of c es] True
    by (auto simp: isOpen_def circuit_after_snoc recordOutcome_def Let_def COMPACTION_CIRCUIT_COOLDOWN_MS_def
        COMPACTION_CIRCUIT_FAILURE_THRESHOLD_def split: option.splits)
next
  case False
  then show ?thesis by (simp add: isOpen_def circuit_after_snoc recordOutcome_def trailing_snoc Let_def)
qed

text \<open>A trip suspends compaction for the whole cooldown and no longer.\<close>

lemma trip_lasts_an_hour:
  assumes "snd (recordOutcome failed t c) = [CircuitOpen cid u]"
  shows "isOpen now (fst (recordOutcome failed t c)) \<longleftrightarrow> now < t + COMPACTION_CIRCUIT_COOLDOWN_MS"
  using assms by (auto simp: recordOutcome_def isOpen_def Let_def split: if_splits option.splits)

text \<open>After a cooldown has passed, one more failure trips the breaker again: the counter is not
  reset, so there is no new three-strike window.\<close>

lemma one_strike_after_cooldown:
  assumes "compactionCircuitOpenUntil c = Some u" "u \<le> now" "3 \<le> consecutiveCompactionFailures c"
  shows "\<not> isOpen now c" "isOpen now (fst (recordOutcome True now c))"
  using assms by (simp_all add: isOpen_def recordOutcome_def Let_def COMPACTION_CIRCUIT_COOLDOWN_MS_def
      COMPACTION_CIRCUIT_FAILURE_THRESHOLD_def)

section \<open>Vector store breaker\<close>

definition FAILURE_THRESHOLD :: nat where
  "FAILURE_THRESHOLD = 5"

definition COOLDOWN_MS :: int where
  "COOLDOWN_MS = 30000"

datatype breaker_state = Closed | Open | HalfOpen

record qdrant_breaker =
  breakerState :: breaker_state
  consecutiveFailures :: nat
  openedAt :: int
  halfOpenProbeInFlight :: bool

definition fresh_breaker :: qdrant_breaker where
  "fresh_breaker = \<lparr>breakerState = Closed, consecutiveFailures = 0, openedAt = 0, halfOpenProbeInFlight = False\<rparr>"

definition allows :: "int \<Rightarrow> qdrant_breaker \<Rightarrow> qdrant_breaker \<times> bool" where
  "allows now b =
     (case breakerState b of
        Closed \<Rightarrow> (b, True)
      | Open \<Rightarrow>
          if now - openedAt b \<ge> COOLDOWN_MS
          then (b\<lparr>breakerState := HalfOpen, halfOpenProbeInFlight := True\<rparr>, True)
          else (b, False)
      | HalfOpen \<Rightarrow>
          if halfOpenProbeInFlight b then (b, False)
          else (b\<lparr>halfOpenProbeInFlight := True\<rparr>, True))"

definition recordSuccess :: "qdrant_breaker \<Rightarrow> qdrant_breaker" where
  "recordSuccess b = b\<lparr>consecutiveFailures := 0, breakerState := Closed, openedAt := 0,
     halfOpenProbeInFlight := False\<rparr>"

definition recordFailure :: "int \<Rightarrow> qdrant_breaker \<Rightarrow> qdrant_breaker" where
  "recordFailure now b =
     (let b1 = b\<lparr>consecutiveFailures := consecutiveFailures b + 1, halfOpenProbeInFlight := False\<rparr>
      in if consecutiveFailures b1 \<ge> FAILURE_THRESHOLD then b1\<lparr>breakerState := Open, openedAt := now\<rparr>
         else if breakerState b1 = HalfOpen then b1\<lparr>breakerState := Open, openedAt := now\<rparr>
         else b1)"

definition isQdrantBreakerOpen :: "qdrant_breaker \<Rightarrow> bool" where
  "isQdrantBreakerOpen b \<longleftrightarrow> breakerState b \<noteq> Closed"

definition shouldAllowQdrantProbe :: "int \<Rightarrow> qdrant_breaker \<Rightarrow> bool" where
  "shouldAllowQdrantProbe now b \<longleftrightarrow> breakerState b = Open \<and> now - openedAt b \<ge> COOLDOWN_MS"

text \<open>
  \<^verbatim>\<open>withQdrantBreaker\<close> suspends while its operation runs, so calls overlap. A call either is
  refused at the start (\<^verbatim>\<open>QdrantCircuitOpenError\<close>) or joins the calls in flight; later one of
  those ends, well or badly. The state is the breaker with the number of calls in flight.
\<close>

datatype breaker_event = BeginCall int | EndCall bool int

fun breaker_step :: "qdrant_breaker \<times> nat \<Rightarrow> breaker_event \<Rightarrow> qdrant_breaker \<times> nat" where
  "breaker_step (b, n) (BeginCall now) = (let (b', ok) = allows now b in (b', if ok then Suc n else n))"
| "breaker_step (b, n) (EndCall ok now) =
     (if n = 0 then (b, n) else (if ok then recordSuccess b else recordFailure now b, n - 1))"

text \<open>Reachable without the breaker closing on the way.\<close>

inductive recovering :: "qdrant_breaker \<times> nat \<Rightarrow> qdrant_breaker \<times> nat \<Rightarrow> bool" for s where
  recovering_start: "recovering s s"
| recovering_step: "recovering s s' \<Longrightarrow> breakerState (fst (breaker_step s' e)) \<noteq> Closed \<Longrightarrow>
    recovering s (breaker_step s' e)"

definition probing :: "qdrant_breaker \<times> nat \<Rightarrow> bool" where
  "probing s \<longleftrightarrow>
     (case breakerState (fst s) of
        Closed \<Rightarrow> False
      | Open \<Rightarrow> snd s = 0
      | HalfOpen \<Rightarrow> snd s \<le> 1 \<and> (halfOpenProbeInFlight (fst s) \<longleftrightarrow> snd s = 1))"

lemma probing_step:
  assumes "probing s" "breakerState (fst (breaker_step s e)) \<noteq> Closed"
  shows "probing (breaker_step s e)"
proof -
  obtain b n where s: "s = (b, n)" by (cases s)
  show ?thesis
  proof (cases e)
    case (BeginCall now)
    then show ?thesis using assms s
      by (cases "breakerState b") (auto simp: probing_def allows_def split: if_splits)
  next
    case (EndCall ok now)
    then show ?thesis using assms s
      by (cases "breakerState b")
        (auto simp: probing_def recordFailure_def recordSuccess_def Let_def split: if_splits)
  qed
qed

text \<open>while the vector store recovers it sees one call at a time. Once the breaker is open with no
  call left over from before, and for as long as it has not closed again, in every interleaving of
  attempts and completions at most one operation is in flight, none while the breaker is open, and an
  attempt before the cooldown has passed is refused.\<close>

theorem probe_is_single:
  assumes "recovering (b0, 0) (b, n)" and "breakerState b0 = Open"
  shows "n \<le> 1 \<and> (breakerState b = Open \<longrightarrow> n = 0
    \<and> (now - openedAt b < COOLDOWN_MS \<longrightarrow> breaker_step (b, n) (BeginCall now) = (b, n)))"
proof -
  have "probing s" if "recovering (b0, 0) s" for s
    using that
  proof (induction rule: recovering.induct)
    case recovering_start
    then show ?case using assms(2) by (simp add: probing_def)
  next
    case (recovering_step s' e)
    then show ?case using probing_step by blast
  qed
  from this [OF assms(1)] show ?thesis
    by (cases "breakerState b") (auto simp: probing_def allows_def)
qed

definition open_breaker :: qdrant_breaker where
  "open_breaker = \<lparr>breakerState = Open, consecutiveFailures = 5, openedAt = 0, halfOpenProbeInFlight = False\<rparr>"

theorem probe_is_single_witness:
  "snd (breaker_step (breaker_step (open_breaker, 0) (BeginCall 30000)) (BeginCall 30001)) \<le> 1"
proof -
  have "recovering (open_breaker, 0) (breaker_step (breaker_step (open_breaker, 0) (BeginCall 30000)) (BeginCall 30001))"
    by (intro recovering_step recovering_start)
      (simp_all add: open_breaker_def allows_def COOLDOWN_MS_def)
  then show ?thesis
    using probe_is_single [of open_breaker] by (metis open_breaker_def prod.collapse qdrant_breaker.select_convs(1))
qed

text \<open>A call left over from before the trip breaks this: its failure during the probe re-opens the
  breaker, and after the cooldown a second probe joins the first.\<close>

lemma leftover_call_two_probes:
  "snd (foldl breaker_step (fresh_breaker, 0)
     (replicate 6 (BeginCall 0) @ replicate 5 (EndCall False 0)
      @ [BeginCall 30000, EndCall False 30001, BeginCall 60001])) = 2"
  by code_simp

lemma opens_on_fifth_failure:
  "breakerState ((recordFailure now ^^ n) fresh_breaker) = (if n < 5 then Closed else Open)
   \<and> consecutiveFailures ((recordFailure now ^^ n) fresh_breaker) = n"
  by (induction n) (auto simp: recordFailure_def fresh_breaker_def Let_def FAILURE_THRESHOLD_def)

section \<open>Billing breaker\<close>

definition BILLING_COOLDOWN_MS :: int where
  "BILLING_COOLDOWN_MS = 5 * 60 * 1000"

record billing_breaker =
  billingOpen :: bool
  billingOpenedAt :: int

definition recordBillingBlock :: "int \<Rightarrow> billing_breaker \<Rightarrow> billing_breaker" where
  "recordBillingBlock now b = b\<lparr>billingOpen := True, billingOpenedAt := now\<rparr>"

definition recordBillingSuccess :: "int \<Rightarrow> billing_breaker \<Rightarrow> billing_breaker" where
  "recordBillingSuccess now b =
     (if \<not> billingOpen b then b
      else if now - billingOpenedAt b < BILLING_COOLDOWN_MS then b
      else b\<lparr>billingOpen := False, billingOpenedAt := 0\<rparr>)"

definition isEmbeddingBillingBreakerOpen :: "int \<Rightarrow> billing_breaker \<Rightarrow> bool" where
  "isEmbeddingBillingBreakerOpen now b =
     (if \<not> billingOpen b then False else if now - billingOpenedAt b \<ge> BILLING_COOLDOWN_MS then False else True)"

definition shouldAllowBillingProbe :: "int \<Rightarrow> billing_breaker \<Rightarrow> bool" where
  "shouldAllowBillingProbe now b \<longleftrightarrow> billingOpen b \<and> now - billingOpenedAt b \<ge> BILLING_COOLDOWN_MS"

text \<open>A block holds for the cooldown whatever successes come in from calls that started earlier.\<close>

lemma billing_block_holds:
  assumes "billingOpen b" "list_all (\<lambda>t. t - billingOpenedAt b < BILLING_COOLDOWN_MS) ts"
    and "now - billingOpenedAt b < BILLING_COOLDOWN_MS"
  shows "isEmbeddingBillingBreakerOpen now (foldl (\<lambda>s t. recordBillingSuccess t s) b ts)"
proof -
  have "foldl (\<lambda>s t. recordBillingSuccess t s) b ts = b"
    using assms(1,2) by (induction ts) (simp_all add: recordBillingSuccess_def)
  then show ?thesis using assms(1,3) by (simp add: isEmbeddingBillingBreakerOpen_def)
qed

text \<open>After the cooldown every caller is admitted, not one probe: the check does not change the
  state it reads.\<close>

lemma billing_probes_unlimited:
  "shouldAllowBillingProbe now b \<Longrightarrow> now \<le> now' \<Longrightarrow>
     shouldAllowBillingProbe now' b \<and> \<not> isEmbeddingBillingBreakerOpen now' b"
  by (simp add: shouldAllowBillingProbe_def isEmbeddingBillingBreakerOpen_def)

end
