(* ===== verification/Guardian_Requests.thy ===== *)
theory Guardian_Requests
  imports Verification_Service Contact_Channels
begin

text \<open>
  Requests a guardian decides: the two tables of \<^verbatim>\<open>gateway/src/db/guardian-request-store.ts\<close> with
  every operation, and \<^verbatim>\<open>gateway/src/approvals/guardian-request-service.ts\<close>, whose decision writes the
  status and the access outcome in one transaction. Shared types and rules are from
  \<^verbatim>\<open>packages/gateway-client/src/guardian-request-contract.ts\<close>.

  A transaction that throws leaves the state as it was. What the daemon's mirror answered before the transaction, the
  fresh ids, the secrets of a minted session and the clock are arguments. The mirror writes after the commit are not
  part of the operation; the plan for them is in the result.
\<close>

section \<open>The tables\<close>

datatype request_status = ReqPending | ReqApproved | ReqDenied | ReqExpired | ReqCancelled

record guardian_request =
  gr_id :: string
  gr_kind :: string
  gr_sourceChannel :: "string option"
  gr_sourceConversationId :: "string option"
  gr_requesterExternalUserId :: "string option"
  gr_requesterChatId :: "string option"
  gr_guardianExternalUserId :: "string option"
  gr_guardianPrincipalId :: "string option"
  gr_callSessionId :: "string option"
  gr_pendingQuestionId :: "string option"
  gr_questionText :: "string option"
  gr_requestCode :: "string option"
  gr_toolName :: "string option"
  gr_inputDigest :: "string option"
  gr_commandPreview :: "string option"
  gr_riskLevel :: "string option"
  gr_activityText :: "string option"
  gr_executionTarget :: "string option"
  gr_requesterSignals :: "string option"
  gr_requestTrigger :: "string option"
  gr_status :: request_status
  gr_answerText :: "string option"
  gr_decidedByExternalUserId :: "string option"
  gr_decidedByPrincipalId :: "string option"
  gr_followupState :: "string option"
  gr_expiresAt :: "int option"
  gr_createdAt :: int
  gr_updatedAt :: int

type_synonym request_table = "guardian_request list"

record delivery =
  gd_id :: string
  gd_requestId :: string
  gd_destinationChannel :: string
  gd_destinationConversationId :: "string option"
  gd_destinationChatId :: "string option"
  gd_destinationMessageId :: "string option"
  gd_status :: string
  gd_createdAt :: int
  gd_updatedAt :: int

type_synonym delivery_table = "delivery list"

record guardian_store =
  gq_requests :: request_table
  gq_deliveries :: delivery_table

definition deriveGuardianRequestSourceType :: "string option \<Rightarrow> string" where
  "deriveGuardianRequestSourceType ch =
     (if ch = Some ''phone'' then ''voice'' else if ch = Some ''vellum'' then ''desktop'' else ''channel'')"

text \<open>A deadline of zero counts as no deadline here.\<close>

definition isGuardianRequestExpired :: "int \<Rightarrow> guardian_request \<Rightarrow> bool" where
  "isGuardianRequestExpired now r =
     (case gr_expiresAt r of Some e \<Rightarrow> e \<noteq> 0 \<and> e < now | None \<Rightarrow> False)"

section \<open>Reads\<close>

definition getGuardianRequest :: "string \<Rightarrow> guardian_store \<Rightarrow> guardian_request option" where
  "getGuardianRequest i Q = find (\<lambda>r. gr_id r = i) (gq_requests Q)"

definition getGuardianRequestByCode :: "string \<Rightarrow> guardian_store \<Rightarrow> guardian_request option" where
  "getGuardianRequestByCode code Q =
     find (\<lambda>r. gr_requestCode r = Some code \<and> gr_status r = ReqPending) (gq_requests Q)"

definition sourceTypeCondition :: "string \<Rightarrow> guardian_request \<Rightarrow> bool" where
  "sourceTypeCondition ty r =
     (if ty = ''voice'' then gr_sourceChannel r = Some ''phone''
      else if ty = ''desktop'' then gr_sourceChannel r = Some ''vellum''
      else gr_sourceChannel r \<notin> {Some ''phone'', Some ''vellum''})"

record request_filters =
  rf_status :: "request_status option"
  rf_guardianExternalUserId :: "string option"
  rf_guardianPrincipalId :: "string option"
  rf_requesterExternalUserId :: "string option"
  rf_sourceConversationId :: "string option"
  rf_sourceType :: "string option"
  rf_sourceChannel :: "string option"
  rf_kind :: "string option"
  rf_toolName :: "string option"

text \<open>An absent or empty filter does not restrict.\<close>

definition filter_ok :: "string option \<Rightarrow> (string \<Rightarrow> bool) \<Rightarrow> bool" where
  "filter_ok f P = (case f of Some x \<Rightarrow> x = [] \<or> P x | None \<Rightarrow> True)"

definition listGuardianRequests :: "request_filters \<Rightarrow> guardian_store \<Rightarrow> guardian_request list" where
  "listGuardianRequests f Q =
     filter (\<lambda>r. (case rf_status f of Some st \<Rightarrow> gr_status r = st | None \<Rightarrow> True) \<and>
        filter_ok (rf_guardianExternalUserId f) (\<lambda>x. gr_guardianExternalUserId r = Some x) \<and>
        filter_ok (rf_guardianPrincipalId f) (\<lambda>x. gr_guardianPrincipalId r = Some x) \<and>
        filter_ok (rf_requesterExternalUserId f) (\<lambda>x. gr_requesterExternalUserId r = Some x) \<and>
        filter_ok (rf_sourceConversationId f) (\<lambda>x. gr_sourceConversationId r = Some x) \<and>
        filter_ok (rf_sourceType f) (\<lambda>x. sourceTypeCondition x r) \<and>
        filter_ok (rf_sourceChannel f) (\<lambda>x. gr_sourceChannel r = Some x) \<and>
        filter_ok (rf_kind f) (\<lambda>x. gr_kind r = x) \<and>
        filter_ok (rf_toolName f) (\<lambda>x. gr_toolName r = Some x)) (gq_requests Q)"

definition no_filters :: request_filters where
  "no_filters =
     \<lparr>rf_status = None, rf_guardianExternalUserId = None, rf_guardianPrincipalId = None, rf_requesterExternalUserId = None,
      rf_sourceConversationId = None, rf_sourceType = None, rf_sourceChannel = None, rf_kind = None, rf_toolName = None\<rparr>"

definition listDeliveries :: "string \<Rightarrow> guardian_store \<Rightarrow> delivery list" where
  "listDeliveries i Q = filter (\<lambda>d. gd_requestId d = i) (gq_deliveries Q)"

definition listDeliveriesByChat :: "string \<Rightarrow> string \<Rightarrow> guardian_store \<Rightarrow> delivery list" where
  "listDeliveriesByChat ch chat Q =
     filter (\<lambda>d. gd_destinationChannel d = ch \<and> gd_destinationChatId d = Some chat) (gq_deliveries Q)"

text \<open>The pending requests of some deliveries, each once.\<close>

definition pendingRequestsForDeliveries :: "delivery list \<Rightarrow> guardian_store \<Rightarrow> guardian_request list" where
  "pendingRequestsForDeliveries ds Q =
     List.map_filter (\<lambda>i. case getGuardianRequest i Q of
         Some r \<Rightarrow> if gr_status r = ReqPending then Some r else None
       | None \<Rightarrow> None)
       (js_set_of (map gd_requestId ds))"

definition listPendingByDestinationChat :: "string \<Rightarrow> string \<Rightarrow> guardian_store \<Rightarrow> guardian_request list" where
  "listPendingByDestinationChat ch chat Q = pendingRequestsForDeliveries (listDeliveriesByChat ch chat Q) Q"

definition listPendingByDestinationConversation :: "string \<Rightarrow> string option \<Rightarrow> guardian_store \<Rightarrow> guardian_request list" where
  "listPendingByDestinationConversation conv ch Q =
     pendingRequestsForDeliveries
       (filter (\<lambda>d. gd_destinationConversationId d = Some conv \<and> filter_ok ch (\<lambda>x. gd_destinationChannel d = x))
          (gq_deliveries Q)) Q"

text \<open>The first of each id that is not past its deadline.\<close>

fun scope_pick :: "int \<Rightarrow> string list \<Rightarrow> guardian_request list \<Rightarrow> guardian_request list" where
  "scope_pick now seen [] = []"
| "scope_pick now seen (r # rs) =
     (if gr_id r \<notin> set seen \<and> \<not> isGuardianRequestExpired now r then r # scope_pick now (gr_id r # seen) rs
      else scope_pick now seen rs)"

definition listPendingByConversationScope :: "string \<Rightarrow> string option \<Rightarrow> int \<Rightarrow> guardian_store \<Rightarrow> guardian_request list" where
  "listPendingByConversationScope conv ch now Q =
     scope_pick now []
       (listGuardianRequests (no_filters\<lparr>rf_sourceConversationId := Some conv, rf_status := Some ReqPending\<rparr>) Q @
        listPendingByDestinationConversation conv ch Q)"

definition isRequestInConversationScope :: "string \<Rightarrow> string \<Rightarrow> guardian_store \<Rightarrow> bool" where
  "isRequestInConversationScope i conv Q =
     (case getGuardianRequest i Q of
        None \<Rightarrow> False
      | Some r \<Rightarrow> gr_sourceConversationId r = Some conv \<or>
          list_ex (\<lambda>d. gd_destinationConversationId d = Some conv) (listDeliveries i Q))"

fun latest_created :: "guardian_request list \<Rightarrow> guardian_request option" where
  "latest_created [] = None"
| "latest_created (r # rs) =
     (case latest_created rs of
        None \<Rightarrow> Some r
      | Some q \<Rightarrow> if gr_createdAt q > gr_createdAt r then Some q else Some r)"

definition getPendingByCallSessionId :: "string \<Rightarrow> guardian_store \<Rightarrow> guardian_request option" where
  "getPendingByCallSessionId c Q =
     latest_created (filter (\<lambda>r. gr_callSessionId r = Some c \<and> gr_status r = ReqPending) (gq_requests Q))"

definition getByPendingQuestionId :: "string \<Rightarrow> guardian_store \<Rightarrow> guardian_request option" where
  "getByPendingQuestionId q Q = find (\<lambda>r. gr_pendingQuestionId r = Some q) (gq_requests Q)"

text \<open>\<^verbatim>\<open>listPendingRequestsByDestination\<close> of the service; \<open>None\<close> is its error.\<close>

definition listPendingRequestsByDestination ::
    "string option \<Rightarrow> string option \<Rightarrow> string option \<Rightarrow> guardian_store \<Rightarrow> guardian_request list option" where
  "listPendingRequestsByDestination conv ch chat Q =
     (if truthy conv then Some (listPendingByDestinationConversation (the conv) ch Q)
      else if truthy ch \<and> truthy chat then Some (listPendingByDestinationChat (the ch) (the chat) Q)
      else None)"

section \<open>Creating\<close>

text \<open>Six characters of a UUID without its hyphens, in upper case.\<close>

definition upper_char :: "char \<Rightarrow> char" where
  "upper_char c = (if 97 \<le> (of_char c :: nat) \<and> (of_char c :: nat) \<le> 122
                   then char_of ((of_char c :: nat) - 32) else c)"

definition new_code :: "string \<Rightarrow> string" where
  "new_code uuid = map upper_char (take 6 (filter (\<lambda>c. c \<noteq> CHR ''-'') uuid))"

text \<open>Some tries for a code no pending request has; then the next one whatever it is.\<close>

fun code_tries :: "nat \<Rightarrow> (nat \<Rightarrow> string) \<Rightarrow> guardian_store \<Rightarrow> string" where
  "code_tries 0 uuids Q = new_code (uuids 0)"
| "code_tries (Suc n) uuids Q =
     (if getGuardianRequestByCode (new_code (uuids 0)) Q = None then new_code (uuids 0)
      else code_tries n (\<lambda>k. uuids (Suc k)) Q)"

definition generateRequestCode :: "(nat \<Rightarrow> string) \<Rightarrow> guardian_store \<Rightarrow> string" where
  "generateRequestCode uuids Q = code_tries 5 uuids Q"

definition DECISIONABLE_KINDS :: "string list" where
  "DECISIONABLE_KINDS = [''tool_approval'', ''tool_grant_request'', ''pending_question'', ''access_request'']"

record create_request_params =
  cp_id :: "string option"
  cp_kind :: string
  cp_sourceChannel :: "string option"
  cp_sourceConversationId :: "string option"
  cp_requesterExternalUserId :: "string option"
  cp_requesterChatId :: "string option"
  cp_guardianExternalUserId :: "string option"
  cp_guardianPrincipalId :: "string option"
  cp_callSessionId :: "string option"
  cp_pendingQuestionId :: "string option"
  cp_questionText :: "string option"
  cp_requestCode :: "string option"
  cp_toolName :: "string option"
  cp_inputDigest :: "string option"
  cp_commandPreview :: "string option"
  cp_riskLevel :: "string option"
  cp_activityText :: "string option"
  cp_executionTarget :: "string option"
  cp_requesterSignals :: "string option"
  cp_requestTrigger :: "string option"
  cp_status :: "request_status option"
  cp_answerText :: "string option"
  cp_decidedByExternalUserId :: "string option"
  cp_decidedByPrincipalId :: "string option"
  cp_followupState :: "string option"
  cp_expiresAt :: "int option"

datatype request_error = GuardianPrincipalRequired | ConstraintFailed

definition request_row :: "create_request_params \<Rightarrow> string \<Rightarrow> string \<Rightarrow> int \<Rightarrow> guardian_request" where
  "request_row p fresh code now =
     \<lparr>gr_id = given (cp_id p) fresh, gr_kind = cp_kind p, gr_sourceChannel = cp_sourceChannel p,
      gr_sourceConversationId = cp_sourceConversationId p, gr_requesterExternalUserId = cp_requesterExternalUserId p,
      gr_requesterChatId = cp_requesterChatId p, gr_guardianExternalUserId = cp_guardianExternalUserId p,
      gr_guardianPrincipalId = cp_guardianPrincipalId p, gr_callSessionId = cp_callSessionId p,
      gr_pendingQuestionId = cp_pendingQuestionId p, gr_questionText = cp_questionText p,
      gr_requestCode = Some (given (cp_requestCode p) code), gr_toolName = cp_toolName p,
      gr_inputDigest = cp_inputDigest p, gr_commandPreview = cp_commandPreview p, gr_riskLevel = cp_riskLevel p,
      gr_activityText = cp_activityText p, gr_executionTarget = cp_executionTarget p,
      gr_requesterSignals = cp_requesterSignals p, gr_requestTrigger = cp_requestTrigger p,
      gr_status = given (cp_status p) ReqPending, gr_answerText = cp_answerText p,
      gr_decidedByExternalUserId = cp_decidedByExternalUserId p, gr_decidedByPrincipalId = cp_decidedByPrincipalId p,
      gr_followupState = cp_followupState p, gr_expiresAt = cp_expiresAt p, gr_createdAt = now, gr_updatedAt = now\<rparr>"

definition createGuardianRequest ::
    "create_request_params \<Rightarrow> string \<Rightarrow> (nat \<Rightarrow> string) \<Rightarrow> int \<Rightarrow> guardian_store \<Rightarrow>
     request_error + guardian_store \<times> guardian_request" where
  "createGuardianRequest p fresh uuids now Q =
     (if cp_kind p \<in> set DECISIONABLE_KINDS \<and> \<not> truthy (cp_guardianPrincipalId p) then Inl GuardianPrincipalRequired
      else
        (let row = request_row p fresh (generateRequestCode uuids Q) now
         in if getGuardianRequest (gr_id row) Q \<noteq> None then Inl ConstraintFailed
            else Inr (Q\<lparr>gq_requests := gq_requests Q @ [row]\<rparr>, row)))"

section \<open>Updating and resolving\<close>

definition update_requests :: "(guardian_request \<Rightarrow> bool) \<Rightarrow> (guardian_request \<Rightarrow> guardian_request) \<Rightarrow> guardian_store \<Rightarrow> guardian_store" where
  "update_requests P f Q = Q\<lparr>gq_requests := map (\<lambda>r. if P r then f r else r) (gq_requests Q)\<rparr>"

record request_patch =
  pt_status :: "request_status option"
  pt_answerText :: "string option"
  pt_decidedByExternalUserId :: "string option"
  pt_decidedByPrincipalId :: "string option"
  pt_followupState :: "string option option"
  pt_expiresAt :: "int option"

definition keep_if_none :: "'a option \<Rightarrow> 'a option \<Rightarrow> 'a option" where
  "keep_if_none v old = (if v \<noteq> None then v else old)"

definition patch_set :: "request_patch \<Rightarrow> int \<Rightarrow> guardian_request \<Rightarrow> guardian_request" where
  "patch_set u now r =
     r\<lparr>gr_status := given (pt_status u) (gr_status r), gr_answerText := keep_if_none (pt_answerText u) (gr_answerText r),
       gr_decidedByExternalUserId := keep_if_none (pt_decidedByExternalUserId u) (gr_decidedByExternalUserId r),
       gr_decidedByPrincipalId := keep_if_none (pt_decidedByPrincipalId u) (gr_decidedByPrincipalId r),
       gr_followupState := given (pt_followupState u) (gr_followupState r),
       gr_expiresAt := keep_if_none (pt_expiresAt u) (gr_expiresAt r), gr_updatedAt := now\<rparr>"

definition updateGuardianRequest :: "string \<Rightarrow> request_patch \<Rightarrow> int \<Rightarrow> guardian_store \<Rightarrow> guardian_store \<times> guardian_request option" where
  "updateGuardianRequest i u now Q =
     (let Q' = update_requests (\<lambda>r. gr_id r = i) (patch_set u now) Q in (Q', getGuardianRequest i Q'))"

record decision =
  dc_status :: request_status
  dc_answerText :: "string option"
  dc_decidedByExternalUserId :: "string option"
  dc_decidedByPrincipalId :: "string option"

definition decision_set :: "decision \<Rightarrow> int \<Rightarrow> guardian_request \<Rightarrow> guardian_request" where
  "decision_set d now r =
     r\<lparr>gr_status := dc_status d, gr_answerText := keep_if_none (dc_answerText d) (gr_answerText r),
       gr_decidedByExternalUserId := keep_if_none (dc_decidedByExternalUserId d) (gr_decidedByExternalUserId r),
       gr_decidedByPrincipalId := keep_if_none (dc_decidedByPrincipalId d) (gr_decidedByPrincipalId r),
       gr_updatedAt := now\<rparr>"

definition resolvable :: "string \<Rightarrow> request_status \<Rightarrow> bool \<Rightarrow> int \<Rightarrow> guardian_request \<Rightarrow> bool" where
  "resolvable i expected requireUnexpired now r \<longleftrightarrow>
     gr_id r = i \<and> gr_status r = expected \<and>
     (requireUnexpired \<longrightarrow> (case gr_expiresAt r of Some e \<Rightarrow> now \<le> e | None \<Rightarrow> True))"

text \<open>The compare-and-swap; \<open>None\<close> is that it did not apply.\<close>

definition resolveGuardianRequest ::
    "string \<Rightarrow> request_status \<Rightarrow> decision \<Rightarrow> bool \<Rightarrow> int \<Rightarrow> guardian_store \<Rightarrow> guardian_store \<times> guardian_request option" where
  "resolveGuardianRequest i expected d requireUnexpired now Q =
     (let Q' = update_requests (resolvable i expected requireUnexpired now) (decision_set d now) Q
      in if list_ex (resolvable i expected requireUnexpired now) (gq_requests Q) then (Q', getGuardianRequest i Q')
         else (Q', None))"

section \<open>Expiry\<close>

definition INTERACTION_BOUND_KINDS :: "string list" where
  "INTERACTION_BOUND_KINDS = [''tool_approval'', ''pending_question'']"

definition interaction_bound :: "guardian_request \<Rightarrow> bool" where
  "interaction_bound r \<longleftrightarrow> gr_status r = ReqPending \<and> gr_kind r \<in> set INTERACTION_BOUND_KINDS"

definition expireAllPendingInteractionBound :: "int \<Rightarrow> guardian_store \<Rightarrow> guardian_store \<times> nat" where
  "expireAllPendingInteractionBound now Q =
     (update_requests interaction_bound (\<lambda>r. r\<lparr>gr_status := ReqExpired, gr_updatedAt := now\<rparr>) Q,
      length (filter interaction_bound (gq_requests Q)))"

definition MAX_EXPIRED_PENDING_BATCH :: int where
  "MAX_EXPIRED_PENDING_BATCH = 200"

text \<open>Past the deadline, strictly; the oldest deadlines first.\<close>

definition listExpiredPendingGuardianRequests :: "int \<Rightarrow> int \<Rightarrow> guardian_store \<Rightarrow> guardian_request list" where
  "listExpiredPendingGuardianRequests now limit Q =
     take (nat (min (max 1 limit) MAX_EXPIRED_PENDING_BATCH))
       (sort_key (\<lambda>r. case gr_expiresAt r of Some e \<Rightarrow> e | None \<Rightarrow> 0)
         (filter (\<lambda>r. gr_status r = ReqPending \<and> (case gr_expiresAt r of Some e \<Rightarrow> e < now | None \<Rightarrow> False)) (gq_requests Q)))"

definition update_deliveries :: "(delivery \<Rightarrow> bool) \<Rightarrow> (delivery \<Rightarrow> delivery) \<Rightarrow> guardian_store \<Rightarrow> guardian_store" where
  "update_deliveries P f Q = Q\<lparr>gq_deliveries := map (\<lambda>d. if P d then f d else d) (gq_deliveries Q)\<rparr>"

definition expireGuardianRequest :: "string \<Rightarrow> int \<Rightarrow> guardian_store \<Rightarrow> guardian_store" where
  "expireGuardianRequest i now Q =
     (if map_option gr_status (getGuardianRequest i Q) \<noteq> Some ReqPending then Q
      else update_deliveries (\<lambda>d. gd_requestId d = i \<and> gd_status d \<noteq> ''withdrawn'')
             (\<lambda>d. d\<lparr>gd_status := ''expired'', gd_updatedAt := now\<rparr>)
             (update_requests (\<lambda>r. gr_id r = i) (\<lambda>r. r\<lparr>gr_status := ReqExpired, gr_updatedAt := now\<rparr>) Q))"

section \<open>Deliveries\<close>

record create_delivery_params =
  dp_id :: "string option"
  dp_requestId :: string
  dp_destinationChannel :: string
  dp_destinationConversationId :: "string option"
  dp_destinationChatId :: "string option"
  dp_destinationMessageId :: "string option"
  dp_status :: "string option"

definition createDelivery ::
    "create_delivery_params \<Rightarrow> string \<Rightarrow> int \<Rightarrow> guardian_store \<Rightarrow> request_error + guardian_store \<times> delivery" where
  "createDelivery p fresh now Q =
     (let row = \<lparr>gd_id = given (dp_id p) fresh, gd_requestId = dp_requestId p,
            gd_destinationChannel = dp_destinationChannel p,
            gd_destinationConversationId = dp_destinationConversationId p,
            gd_destinationChatId = dp_destinationChatId p, gd_destinationMessageId = dp_destinationMessageId p,
            gd_status = given (dp_status p) ''pending'', gd_createdAt = now, gd_updatedAt = now\<rparr>
      in if gd_id row \<in> gd_id ` set (gq_deliveries Q) \<or> getGuardianRequest (dp_requestId p) Q = None
         then Inl ConstraintFailed
         else Inr (Q\<lparr>gq_deliveries := gq_deliveries Q @ [row]\<rparr>, row))"

text \<open>A withdrawn delivery keeps its status.\<close>

definition updateDelivery ::
    "string \<Rightarrow> string option \<Rightarrow> string option \<Rightarrow> int \<Rightarrow> guardian_store \<Rightarrow> guardian_store \<times> delivery option" where
  "updateDelivery i st message now Q =
     (let Q1 = update_deliveries (\<lambda>d. gd_id d = i)
                 (\<lambda>d. d\<lparr>gd_destinationMessageId := keep_if_none message (gd_destinationMessageId d), gd_updatedAt := now\<rparr>) Q;
          Q2 = (case st of
                  None \<Rightarrow> Q1
                | Some x \<Rightarrow> update_deliveries (\<lambda>d. gd_id d = i \<and> gd_status d \<noteq> ''withdrawn'')
                              (\<lambda>d. d\<lparr>gd_status := x, gd_updatedAt := now\<rparr>) Q1)
      in (Q2, find (\<lambda>d. gd_id d = i) (gq_deliveries Q2)))"

section \<open>Deciding\<close>

record activate_member =
  am_sourceChannel :: string
  am_externalUserId :: "string option"
  am_externalChatId :: "string option"
  am_contactId :: "string option"
  am_displayName :: "string option"
  am_username :: "string option"
  am_verifiedVia :: "string option"

record contact_seed =
  sc_sourceChannel :: string
  sc_externalUserId :: string
  sc_displayName :: "string option"

datatype acl_outcome =
    ActivateMember activate_member
  | SeedUnverified contact_seed
  | BlockSender contact_seed "string option"
  | MintOutboundSession outbound_params "string option" "string option"

definition outcome_type :: "acl_outcome \<Rightarrow> string" where
  "outcome_type x = (case x of
     ActivateMember _ \<Rightarrow> ''activate_member'' | SeedUnverified _ \<Rightarrow> ''seed_unverified''
   | BlockSender _ _ \<Rightarrow> ''block'' | MintOutboundSession _ _ _ \<Rightarrow> ''mint_outbound_session'')"

definition OUTCOME_TYPES_BY_DECISION_STATUS :: "request_status \<Rightarrow> string list" where
  "OUTCOME_TYPES_BY_DECISION_STATUS st =
     (case st of
        ReqApproved \<Rightarrow> [''activate_member'', ''mint_outbound_session'']
      | ReqDenied \<Rightarrow> [''seed_unverified'', ''block'']
      | _ \<Rightarrow> [])"

record decide_params =
  dd_id :: string
  dd_decision :: decision
  dd_outcome :: "acl_outcome option"

text \<open>The request schema: a decision approves or denies, with an outcome that fits.\<close>

definition decide_params_ok :: "decide_params \<Rightarrow> bool" where
  "decide_params_ok p \<longleftrightarrow>
     dd_id p \<noteq> [] \<and> dc_status (dd_decision p) \<in> {ReqApproved, ReqDenied} \<and>
     (case dd_outcome p of
        None \<Rightarrow> True
      | Some x \<Rightarrow> outcome_type x \<in> set (OUTCOME_TYPES_BY_DECISION_STATUS (dc_status (dd_decision p))))"

record decide_env =
  de_mirror :: "(string \<times> string) option"
  de_freshContact :: string
  de_freshChannel :: string
  de_channelIds :: "nat \<Rightarrow> string"
  de_hash :: "string \<Rightarrow> string"
  de_hex :: string
  de_num :: nat
  de_sessionId :: string

record service_state =
  ss_requests :: guardian_store
  ss_gateway :: gw_state

record outcome_writes =
  ow_session :: "vsession option"
  ow_mirror :: "mirror_plan option"

text \<open>The outcomes on the gateway's tables; \<open>None\<close> is an exception.\<close>

definition applyActivateMemberOutcome ::
    "decide_env \<Rightarrow> activate_member \<Rightarrow> int \<Rightarrow> gw_contacts \<Rightarrow> (gw_contacts \<times> mirror_plan) option" where
  "applyActivateMemberOutcome E a now s =
     (let address = (if am_externalUserId a \<noteq> None then am_externalUserId a else am_externalChatId a);
          chat = (if am_externalChatId a \<noteq> None then am_externalChatId a else am_externalUserId a)
      in if \<not> truthy address \<or> \<not> truthy chat then None
         else
           (case applyVerifiedChannelGatewayWrites
                   \<lparr>vp_sourceChannel = am_sourceChannel a, vp_externalUserId = the address, vp_externalChatId = the chat,
                    vp_displayName = am_displayName a, vp_username = am_username a,
                    vp_verifiedVia = Some (given (am_verifiedVia a) ''invite''), vp_contactId = am_contactId a,
                    vp_allowRevoked = True\<rparr>
                   (de_mirror E) (de_freshContact E) (de_freshChannel E) now s of
              (s', Some (Verified plan)) \<Rightarrow> Some (s', plan)
            | _ \<Rightarrow> None))"

definition seed_address :: "contact_seed \<Rightarrow> string" where
  "seed_address c =
     (case canonicalizeInboundIdentity (sc_sourceChannel c) (sc_externalUserId c) of
        Some a \<Rightarrow> a | None \<Rightarrow> js_trim (sc_externalUserId c))"

definition seed_upsert :: "contact_seed \<Rightarrow> upsert_params" where
  "seed_upsert c =
     \<lparr>up_id = None, up_displayName = sc_displayName c, up_autoApproveThreshold = None,
      up_channels = Some [\<lparr>ci_id = None, ci_type = sc_sourceChannel c, ci_address = seed_address c, ci_isPrimary = Some True,
        ci_externalChatId = None, ci_status = None, ci_policy = None, ci_verifiedAt = None, ci_verifiedVia = None,
        ci_inviteId = None, ci_revokedReason = None, ci_blockedReason = None\<rparr>]\<rparr>"

definition applyContactSeedOutcome ::
    "decide_env \<Rightarrow> contact_seed \<Rightarrow> int \<Rightarrow> gw_contacts \<Rightarrow> (gw_contacts \<times> string) option" where
  "applyContactSeedOutcome E c now s =
     (case upsertContactGatewayWrites (seed_upsert c) (de_freshContact E) (de_channelIds E) now s of
        (s', contactId, created, threw) \<Rightarrow> if threw then None else Some (s', contactId))"

definition applyBlockOutcome ::
    "decide_env \<Rightarrow> contact_seed \<Rightarrow> string option \<Rightarrow> int \<Rightarrow> gw_contacts \<Rightarrow> gw_contacts option" where
  "applyBlockOutcome E c reason now s =
     (case applyContactSeedOutcome E c now s of
        None \<Rightarrow> None
      | Some (s1, contactId) \<Rightarrow>
          (case find (\<lambda>h. cc_contactId h = contactId \<and> cc_type h = sc_sourceChannel c \<and>
                  to_lower (cc_address h) = to_lower (seed_address c)) (gwContactChannels s1) of
             None \<Rightarrow> None
           | Some h \<Rightarrow>
               (case markChannelRevokedById (cc_id h) reason now s1 of
                  Inr (s2, Some _) \<Rightarrow> Some s2
                | _ \<Rightarrow> None)))"

definition applyAclOutcomeGatewayWrites ::
    "decide_env \<Rightarrow> acl_outcome \<Rightarrow> int \<Rightarrow> gw_state \<Rightarrow> (gw_state \<times> outcome_writes) option" where
  "applyAclOutcomeGatewayWrites E x now g =
     (case x of
        ActivateMember a \<Rightarrow>
          map_option (\<lambda>(s', plan). (g\<lparr>v_contacts := s'\<rparr>, \<lparr>ow_session = None, ow_mirror = Some plan\<rparr>))
            (applyActivateMemberOutcome E a now (v_contacts g))
      | SeedUnverified c \<Rightarrow>
          map_option (\<lambda>(s', _). (g\<lparr>v_contacts := s'\<rparr>, \<lparr>ow_session = None, ow_mirror = None\<rparr>))
            (applyContactSeedOutcome E c now (v_contacts g))
      | BlockSender c reason \<Rightarrow>
          map_option (\<lambda>s'. (g\<lparr>v_contacts := s'\<rparr>, \<lparr>ow_session = None, ow_mirror = None\<rparr>))
            (applyBlockOutcome E c reason now (v_contacts g))
      | MintOutboundSession p source noneActive \<Rightarrow>
          (case createOutboundSessionGuarded (de_hash E) p source noneActive (de_hex E) (de_num E) (de_sessionId E) now g of
             (g', Minted (Some row)) \<Rightarrow> Some (g', \<lparr>ow_session = Some row, ow_mirror = None\<rparr>)
           | _ \<Rightarrow> None))"

datatype decide_result = InvalidDecision | StatusConflict | OutcomeFailed | Applied guardian_request outcome_writes

text \<open>The route's schema check, the compare-and-swap, the outcome. Whatever throws rolls the transaction back.\<close>

definition decideGuardianRequest ::
    "decide_env \<Rightarrow> decide_params \<Rightarrow> int \<Rightarrow> service_state \<Rightarrow> service_state \<times> decide_result" where
  "decideGuardianRequest E p now S =
     (if \<not> decide_params_ok p then (S, InvalidDecision)
      else
        (case resolveGuardianRequest (dd_id p) ReqPending (dd_decision p) True now (ss_requests S) of
           (_, None) \<Rightarrow> (S, StatusConflict)
         | (Q, Some r) \<Rightarrow>
             (case dd_outcome p of
                None \<Rightarrow> (S\<lparr>ss_requests := Q\<rparr>, Applied r \<lparr>ow_session = None, ow_mirror = None\<rparr>)
              | Some x \<Rightarrow>
                  (case applyAclOutcomeGatewayWrites E x now (ss_gateway S) of
                     None \<Rightarrow> (S, OutcomeFailed)
                   | Some (g, w) \<Rightarrow> (\<lparr>ss_requests = Q, ss_gateway = g\<rparr>, Applied r w)))))"

end
