(* ===== verification/Contact_Safety.thy ===== *)
theory Contact_Safety
  imports Contact_Channels
begin

text \<open>
  What the writers of the gateway's contact tables keep, one lemma per operation of \<^verbatim>\<open>Contact_Channels\<close>: unique
  ids, one row per type and folded address, known statuses and policies, a contact for every channel, and every
  blocked row. From these and the admission theorem: a blocked sender stays out.
\<close>

section \<open>What every writer keeps\<close>

text \<open>The tables with their keys: ids are unique and every channel has its contact.\<close>

definition store_ok :: "gw_contacts \<Rightarrow> bool" where
  "store_ok s \<longleftrightarrow>
     tables_ok s \<and> distinct (map cc_id (gwContactChannels s)) \<and>
     list_all (\<lambda>h. cc_contactId h \<in> ct_id ` set (gwContacts s)) (gwContactChannels s)"

text \<open>The blocked rows, as far as nothing but the guardian may change them.\<close>

definition blocked_rows :: "gw_contacts \<Rightarrow> (string \<times> string \<times> string \<times> string) set" where
  "blocked_rows s =
     (\<lambda>h. (cc_id h, cc_type h, to_lower (cc_address h), cc_policy h)) ` {h \<in> set (gwContactChannels s). cc_status h = ''blocked''}"

definition row_kept :: "gw_contacts \<Rightarrow> (gw_channel \<Rightarrow> gw_channel) \<Rightarrow> gw_channel \<Rightarrow> bool" where
  "row_kept s f h \<longleftrightarrow>
     cc_id (f h) = cc_id h \<and> channel_key (f h) = channel_key h \<and> channel_row_ok (f h) \<and>
     cc_contactId (f h) \<in> ct_id ` set (gwContacts s) \<and>
     (cc_status h = ''blocked'' \<longrightarrow> cc_status (f h) = ''blocked'' \<and> cc_policy (f h) = cc_policy h)"

lemma store_okD:
  assumes "store_ok s"
  shows "distinct (map ct_id (gwContacts s))" "distinct (map channel_key (gwContactChannels s))"
    "distinct (map cc_id (gwContactChannels s))"
    "\<And>h. h \<in> set (gwContactChannels s) \<Longrightarrow> channel_row_ok h \<and> cc_contactId h \<in> ct_id ` set (gwContacts s)"
  using assms by (auto simp: store_ok_def tables_ok_def list_all_iff)

lemma by_key_iff: "by_key ty addr h \<longleftrightarrow> channel_key h = (ty, to_lower addr)"
  by (auto simp: by_key_def channel_key_def nocase_eq_def)

lemma index_ok_keys: "distinct (map cc_id hs) \<Longrightarrow> distinct (map channel_key hs) \<Longrightarrow> index_ok hs"
  by (simp add: index_ok_def distinct_map inj_on_def channel_key_def)

lemma update_rows_contacts [simp]: "gwContacts (update_rows P f s) = gwContacts s"
  by (simp add: update_rows_def)

lemma update_rows_channels: "gwContactChannels (update_rows P f s) = map (\<lambda>h. if P h then f h else h) (gwContactChannels s)"
  by (simp add: update_rows_def)

lemma update_rows_kept:
  assumes ok: "store_ok s" and f: "\<And>h. h \<in> set (gwContactChannels s) \<Longrightarrow> P h \<Longrightarrow> row_kept s f h"
  shows "store_ok (update_rows P f s)" "blocked_rows s \<subseteq> blocked_rows (update_rows P f s)"
    "update_rows_checked P f s = Some (update_rows P f s)"
proof -
  let ?g = "\<lambda>h. if P h then f h else h" and ?hs = "gwContactChannels s"
  have same: "map cc_id (map ?g ?hs) = map cc_id ?hs" "map channel_key (map ?g ?hs) = map channel_key ?hs"
    using f by (auto simp: row_kept_def)
  have "channel_row_ok (f h) \<and> cc_contactId (f h) \<in> ct_id ` set (gwContacts s)" if "h \<in> set ?hs" "P h" for h
    using f [OF that] by (simp add: row_kept_def)
  then have rows: "list_all channel_row_ok (map ?g ?hs)"
    "list_all (\<lambda>h. cc_contactId h \<in> ct_id ` set (gwContacts s)) (map ?g ?hs)"
    using store_okD(4) [OF ok] by (auto simp: list_all_iff)
  show ok': "store_ok (update_rows P f s)"
    unfolding store_ok_def tables_ok_def update_rows_contacts update_rows_channels same
    using store_okD(1-3) [OF ok] rows by blast
  show "update_rows_checked P f s = Some (update_rows P f s)"
    using store_okD [OF ok'] index_ok_keys by (simp add: update_rows_checked_def)
  show "blocked_rows s \<subseteq> blocked_rows (update_rows P f s)"
  proof
    fix x assume "x \<in> blocked_rows s"
    then obtain h where h: "h \<in> set ?hs" "cc_status h = ''blocked''"
      "x = (cc_id h, cc_type h, to_lower (cc_address h), cc_policy h)" by (auto simp: blocked_rows_def)
    have "x = (cc_id (?g h), cc_type (?g h), to_lower (cc_address (?g h)), cc_policy (?g h))"
      "cc_status (?g h) = ''blocked''" using f [OF h(1)] h by (auto simp: row_kept_def channel_key_def)
    then show "x \<in> blocked_rows (update_rows P f s)"
      using h(1) unfolding blocked_rows_def update_rows_def by (auto intro!: image_eqI [of _ _ "?g h"])
  qed
qed

lemma insert_kept:
  assumes ok: "store_ok s" and h: "channel_row_ok h" "cc_contactId h \<in> ct_id ` set (gwContacts s)"
    and key: "channel_key h \<notin> channel_key ` set (gwContactChannels s)"
  shows "store_ok (fst (insert_or_skip h s))" "blocked_rows s \<subseteq> blocked_rows (fst (insert_or_skip h s))"
proof -
  show "store_ok (fst (insert_or_skip h s))"
    using store_okD [OF ok] h key ok
    by (auto simp: insert_or_skip_def index_ok_def store_ok_def tables_ok_def list_all_iff)
  show "blocked_rows s \<subseteq> blocked_rows (fst (insert_or_skip h s))"
    by (auto simp: insert_or_skip_def blocked_rows_def)
qed

lemma insert_skip_cases: "insert_or_skip h s = (s', b) \<Longrightarrow> s' = s \<or> s' = s\<lparr>gwContactChannels := gwContactChannels s @ [h]\<rparr>"
  by (auto simp: insert_or_skip_def split: if_splits)

lemma contacts_kept:
  assumes ok: "store_ok s" and "distinct (map ct_id cs)" "ct_id ` set (gwContacts s) \<subseteq> ct_id ` set cs"
  shows "store_ok (s\<lparr>gwContacts := cs\<rparr>)" "blocked_rows (s\<lparr>gwContacts := cs\<rparr>) = blocked_rows s"
  using assms by (auto simp: store_ok_def tables_ok_def list_all_iff blocked_rows_def subset_iff)

lemma add_contact_kept:
  assumes "store_ok s" "i \<notin> ct_id ` set (gwContacts s)" "ct_id c = i"
  shows "store_ok (s\<lparr>gwContacts := gwContacts s @ [c]\<rparr>)"
    "blocked_rows (s\<lparr>gwContacts := gwContacts s @ [c]\<rparr>) = blocked_rows s"
  using contacts_kept [of s "gwContacts s @ [c]"] assms store_okD(1) [OF assms(1)] by auto

lemma update_contact_map: "map ct_id (gwContacts (update_contact p now i s)) = map ct_id (gwContacts s)"
  by (simp add: update_contact_def)

lemma update_contact_ids [simp]: "ct_id ` set (gwContacts (update_contact p now i s)) = ct_id ` set (gwContacts s)"
  "gwContactChannels (update_contact p now i s) = gwContactChannels s"
  by (metis list.set_map update_contact_map) (simp add: update_contact_def)

lemma update_contact_kept:
  assumes "store_ok s" shows "store_ok (update_contact p now i s)" "blocked_rows (update_contact p now i s) = blocked_rows s"
proof -
  have s: "update_contact p now i s = s\<lparr>gwContacts := gwContacts (update_contact p now i s)\<rparr>"
    by (simp add: update_contact_def)
  have d: "distinct (map ct_id (gwContacts (update_contact p now i s)))"
    using store_okD(1) [OF assms] by (simp only: update_contact_map)
  show "store_ok (update_contact p now i s)" "blocked_rows (update_contact p now i s) = blocked_rows s"
    using contacts_kept [OF assms d] s by auto
qed

lemma plain_contact_id [simp]: "ct_id (plain_contact i n t now) = i" "ct_role (plain_contact i n t now) = ''contact''"
  by (simp_all add: plain_contact_def)

lemma ensure_kept:
  assumes "store_ok s"
  shows "store_ok (ensureContactRow i n now s)" "blocked_rows (ensureContactRow i n now s) = blocked_rows s"
    "i \<in> ct_id ` set (gwContacts (ensureContactRow i n now s))"
    "ct_id ` set (gwContacts s) \<subseteq> ct_id ` set (gwContacts (ensureContactRow i n now s))"
    "gwContactChannels (ensureContactRow i n now s) = gwContactChannels s"
  using add_contact_kept [OF assms, of i] assms by (auto simp: ensureContactRow_def)

text \<open>One statement per writer: the tables stay good and no blocked row is lost.\<close>

definition keeps :: "gw_contacts \<Rightarrow> gw_contacts \<Rightarrow> bool" where
  "keeps s s' \<longleftrightarrow> store_ok s' \<and> blocked_rows s \<subseteq> blocked_rows s'"

lemma keeps_refl: "store_ok s \<Longrightarrow> keeps s s"
  by (simp add: keeps_def)

lemma keeps_trans: "keeps s t \<Longrightarrow> keeps t u \<Longrightarrow> keeps s u"
  by (auto simp: keeps_def)

lemma keeps_update:
  "store_ok s \<Longrightarrow> (\<And>h. h \<in> set (gwContactChannels s) \<Longrightarrow> P h \<Longrightarrow> row_kept s f h) \<Longrightarrow> keeps s (update_rows P f s)"
  using update_rows_kept by (simp add: keeps_def)

lemma keeps_ensure: "store_ok s \<Longrightarrow> keeps s (ensureContactRow i n now s)"
  using ensure_kept by (simp add: keeps_def)

lemma row_kept_self: "store_ok s \<Longrightarrow> h \<in> set (gwContactChannels s) \<Longrightarrow> row_kept s id h"
  using store_okD(4) by (simp add: row_kept_def)

lemma same_row:
  assumes "store_ok s" "h \<in> set (gwContactChannels s)" "e \<in> set (gwContactChannels s)" "cc_id h = cc_id e"
  shows "h = e"
  using store_okD(3) [OF assms(1)] assms(2-4) by (auto simp: distinct_map inj_on_def)

lemma key_found:
  assumes "getGatewayChannelByKey ty addr s = Some h"
  shows "h \<in> set (gwContactChannels s)" "by_key ty addr h"
  using assms by (auto simp: getGatewayChannelByKey_def dest: find_SomeD)

lemma key_missing:
  "getGatewayChannelByKey ty addr s = None \<longleftrightarrow> (ty, to_lower addr) \<notin> channel_key ` set (gwContactChannels s)"
  unfolding getGatewayChannelByKey_def find_None_iff by_key_iff by (metis imageE image_eqI)

lemma row_ok_simps [simp]:
  "channel_row_ok (h\<lparr>cc_updatedAt := u\<rparr>) = channel_row_ok h" "channel_row_ok (h\<lparr>cc_address := a\<rparr>) = channel_row_ok h"
  "channel_row_ok (h\<lparr>cc_externalChatId := x\<rparr>) = channel_row_ok h" "channel_row_ok (h\<lparr>cc_lastSeenAt := l\<rparr>) = channel_row_ok h"
  "channel_row_ok (h\<lparr>cc_interactionCount := n\<rparr>) = channel_row_ok h"
  "channel_row_ok (h\<lparr>cc_lastInteraction := l\<rparr>) = channel_row_ok h"
  by (simp_all add: channel_row_ok_def)

lemma seed_existing_kept:
  assumes ok: "store_ok s" and e: "e \<in> set (gwContactChannels s)" "by_key (sd_type p) (sd_address p) e"
    and r: "seed_existing p now e s = Some (s', r)"
  shows "keeps s s'"
proof (cases "cc_status e = ''blocked''")
  case True
  then show ?thesis using r ok by (simp add: seed_existing_def keeps_refl)
next
  case False
  have f: "row_kept s (refresh_identity p now) h" if "h \<in> set (gwContactChannels s)" "cc_id h = cc_id e" for h
  proof -
    have "h = e" using same_row [OF ok that(1) e(1) that(2)] .
    then show ?thesis using e store_okD(4) [OF ok e(1)] False
      by (simp add: row_kept_def refresh_identity_def channel_key_def by_key_def nocase_eq_def)
  qed
  have "update_rows_checked (\<lambda>h. cc_id h = cc_id e) (refresh_identity p now) s =
      Some (update_rows (\<lambda>h. cc_id h = cc_id e) (refresh_identity p now) s)"
    by (rule update_rows_kept(3) [OF ok f])
  then show ?thesis using r False keeps_update [OF ok f] by (auto simp: seed_existing_def)
qed

lemma fresh_channel_simps [simp]:
  "cc_contactId (fresh_channel i c ty a now) = c" "cc_type (fresh_channel i c ty a now) = ty"
  "cc_address (fresh_channel i c ty a now) = a" "cc_id (fresh_channel i c ty a now) = i"
  "channel_row_ok (fresh_channel i c ty a now) \<longleftrightarrow> i \<noteq> [] \<and> c \<noteq> []"
  by (simp_all add: fresh_channel_def channel_row_ok_def CHANNEL_STATUS_VALUES_def CHANNEL_POLICY_VALUES_def)

lemma keeps_insert:
  assumes "store_ok s" "channel_row_ok h" "cc_contactId h \<in> ct_id ` set (gwContacts s)"
    "getGatewayChannelByKey (cc_type h) (cc_address h) s = None"
  shows "keeps s (fst (insert_or_skip h s))"
  using insert_kept [OF assms(1-3)] assms(4) by (simp add: keeps_def key_missing channel_key_def)

lemma seed_kept:
  assumes ok: "store_ok s" and f: "fc \<noteq> []" "fh \<noteq> []" and r: "seedInboundChannel p fc fh now s = Some (s', r)"
  shows "keeps s s'"
proof (cases "getGatewayChannelByKey (sd_type p) (sd_address p) s")
  case (Some e)
  then show ?thesis using r seed_existing_kept [OF ok key_found [OF Some]] by (simp add: seedInboundChannel_def)
next
  case None
  then have new: "fc \<notin> ct_id ` set (gwContacts s)" using r by (auto simp: seedInboundChannel_def split: if_splits)
  let ?s1 = "s\<lparr>gwContacts := gwContacts s @ [plain_contact fc (sd_displayName p) None now]\<rparr>"
  let ?h = "(fresh_channel fh fc (sd_type p) (sd_address p) now)\<lparr>cc_externalChatId := sd_externalChatId p\<rparr>"
  have s1: "keeps s ?s1" "store_ok ?s1" using add_contact_kept [OF ok new] by (simp_all add: keeps_def)
  have "keeps ?s1 (fst (insert_or_skip ?h ?s1))"
    by (rule keeps_insert [OF s1(2)]) (use f None in \<open>simp_all add: getGatewayChannelByKey_def\<close>)
  then show ?thesis
    using r None new keeps_trans [OF s1(1)] keeps_refl [OF ok]
    by (auto simp: seedInboundChannel_def Let_def split: if_splits prod.splits)
qed

lemma reassign_frame:
  fixes s ty addr to name now
  defines "s' \<equiv> fst (reassignChannelOwner ty addr to name now s)"
  shows "to \<in> ct_id ` set (gwContacts s')" "map channel_key (gwContactChannels s') = map channel_key (gwContactChannels s)"
    "map cc_id (gwContactChannels s') = map cc_id (gwContactChannels s)"
    "map cc_status (gwContactChannels s') = map cc_status (gwContactChannels s)"
  by (auto simp: s'_def reassignChannelOwner_def ensureContactRow_def Let_def update_rows_channels channel_key_def
      split: option.split)

lemma reassign_kept:
  assumes ok: "store_ok s" and to: "to \<noteq> []"
  shows "keeps s (fst (reassignChannelOwner ty addr to name now s))"
proof -
  let ?s1 = "ensureContactRow to name now s"
  note e = ensure_kept [OF ok, of to name now]
  have "keeps ?s1 (update_rows (by_key ty addr) (\<lambda>h. h\<lparr>cc_contactId := to, cc_updatedAt := Some now\<rparr>) ?s1)"
    by (rule keeps_update [OF e(1)])
      (use e(3) store_okD(4) [OF e(1)] to in \<open>auto simp: row_kept_def channel_key_def channel_row_ok_def\<close>)
  then show ?thesis using keeps_ensure [OF ok] keeps_trans
    by (fastforce simp: reassignChannelOwner_def Let_def split: option.split)
qed

text \<open>The daemon's channel id is that of the gateway's row for the key, or unknown to the gateway.\<close>

definition mirror_agrees :: "string \<Rightarrow> string \<Rightarrow> string \<Rightarrow> gw_contacts \<Rightarrow> bool" where
  "mirror_agrees i ty addr s \<longleftrightarrow> list_all (\<lambda>h. cc_id h = i \<longrightarrow> by_key ty addr h) (gwContactChannels s)"

lemma verified_set_simps [simp]:
  "cc_id (verified_set w h) = cc_id h" "cc_type (verified_set w h) = cc_type h" "cc_address (verified_set w h) = vw_address w"
  "cc_contactId (verified_set w h) = cc_contactId h" "cc_status (verified_set w h) = ''active''"
  "cc_policy (verified_set w h) = ''allow''" "channel_row_ok (verified_set w h) \<longleftrightarrow> cc_id h \<noteq> [] \<and> cc_contactId h \<noteq> []"
  by (simp_all add: verified_set_def channel_row_ok_def CHANNEL_STATUS_VALUES_def CHANNEL_POLICY_VALUES_def)

lemma row_ok_ids: "channel_row_ok h \<Longrightarrow> cc_id h \<noteq> [] \<and> cc_contactId h \<noteq> []"
  by (simp add: channel_row_ok_def)

lemma row_kept_verified:
  assumes "store_ok s" "h \<in> set (gwContactChannels s)" "by_key (vw_type w) (vw_address w) h" "reactivatable a h"
  shows "row_kept s (verified_set w) h"
  using assms store_okD(4) [OF assms(1,2)] row_ok_ids
  by (auto simp: row_kept_def channel_key_def by_key_def nocase_eq_def reactivatable_def)

lemma write_verified_kept:
  assumes ok: "store_ok s" and m: "mirror_agrees (vw_channelId w) (vw_type w) (vw_address w) s"
    and ne: "vw_channelId w \<noteq> []" "vw_contactId w \<noteq> []"
    and pre: "list_all (\<lambda>h. by_key (vw_type w) (vw_address w) h \<longrightarrow> reactivatable (vw_allowRevoked w) h) (gwContactChannels s)"
  shows "keeps s (fst (writeVerifiedGatewayChannel w s))"
proof -
  let ?ok = "reactivatable (vw_allowRevoked w)"
  let ?id = "\<lambda>h. cc_id h = vw_channelId w \<and> ?ok h" and ?key = "\<lambda>h. by_key (vw_type w) (vw_address w) h \<and> ?ok h"
  have id: "row_kept s (verified_set w) h" if "h \<in> set (gwContactChannels s)" "?id h" for h
    using row_kept_verified [OF ok that(1)] m that by (auto simp: mirror_agrees_def list_all_iff)
  have key: "row_kept s (verified_set w) h" if "h \<in> set (gwContactChannels s)" "?key h" for h
    using row_kept_verified [OF ok that(1)] that by blast
  have up: "keeps s (fst (case update_rows_checked P (verified_set w) s of None \<Rightarrow> (s, None) | Some s' \<Rightarrow> (s', Some True)))"
    if "\<And>h. h \<in> set (gwContactChannels s) \<Longrightarrow> P h \<Longrightarrow> row_kept s (verified_set w) h" for P
    using update_rows_kept(3) [OF ok that] keeps_update [OF ok that] by simp
  let ?s1 = "ensureContactRow (vw_contactId w) (vw_address w) (vw_now w) s"
  let ?h = "verified_set w (fresh_channel (vw_channelId w) (vw_contactId w) (vw_type w) (vw_address w) (vw_now w))"
  note e = ensure_kept [OF ok, of "vw_contactId w" "vw_address w" "vw_now w"]
  have ins: "keeps s (fst (insert_or_skip ?h ?s1))" if "\<not> list_ex ?key (gwContactChannels s)"
  proof -
    have "getGatewayChannelByKey (vw_type w) (vw_address w) ?s1 = None"
      using that pre e(5) by (auto simp: getGatewayChannelByKey_def find_None_iff list_ex_iff list_all_iff)
    then have "keeps ?s1 (fst (insert_or_skip ?h ?s1))" using ne e by (intro keeps_insert) simp_all
    then show ?thesis using keeps_ensure [OF ok] keeps_trans by blast
  qed
  show ?thesis using up [OF id] up [OF key] ins
    by (auto simp: writeVerifiedGatewayChannel_def Let_def split_beta)
qed

text \<open>The verified-channel writes, given a mirror that agrees with the tables.\<close>

lemma pre_all:
  assumes ok: "store_ok s" and pre: "\<not> (case getGatewayChannelByKey ty addr s of Some h \<Rightarrow> \<not> reactivatable a h | None \<Rightarrow> False)"
  shows "list_all (\<lambda>h. by_key ty addr h \<longrightarrow> reactivatable a h) (gwContactChannels s)"
proof (cases "getGatewayChannelByKey ty addr s")
  case None
  then show ?thesis by (auto simp: getGatewayChannelByKey_def find_None_iff list_all_iff)
next
  case (Some e)
  have "h = e" if "h \<in> set (gwContactChannels s)" "by_key ty addr h" for h
    using that key_found [OF Some] store_okD(2) [OF ok] by (auto simp: by_key_iff distinct_map inj_on_def)
  then show ?thesis using pre Some by (auto simp: list_all_iff)
qed

lemma frame_all:
  assumes "map channel_key hs' = map channel_key hs" "map cc_id hs' = map cc_id hs" "map cc_status hs' = map cc_status hs"
    and "list_all (\<lambda>h. P (channel_key h) (cc_id h) (cc_status h)) hs"
  shows "list_all (\<lambda>h. P (channel_key h) (cc_id h) (cc_status h)) hs'"
  using assms
proof (induction hs arbitrary: hs')
  case (Cons h hs)
  then show ?case by (cases hs') auto
qed simp


lemma apply_verified_kept:
  assumes ok: "store_ok s" and ne: "fc \<noteq> []" "fh \<noteq> []" "vp_contactId p \<noteq> Some []"
    and m: "case mirror of Some (i, owner) \<Rightarrow> i \<noteq> [] \<and> owner \<noteq> [] \<and>
        mirror_agrees i (vp_sourceChannel p) (canonical_address (vp_sourceChannel p) (vp_externalUserId p)) s
      | None \<Rightarrow> mirror_agrees fh (vp_sourceChannel p) (canonical_address (vp_sourceChannel p) (vp_externalUserId p)) s"
  shows "keeps s (fst (applyVerifiedChannelGatewayWrites p mirror fc fh now s))"
proof -
  let ?ty = "vp_sourceChannel p" and ?addr = "canonical_address (vp_sourceChannel p) (vp_externalUserId p)"
  let ?pre = "\<lambda>s. list_all (\<lambda>h. by_key ?ty ?addr h \<longrightarrow> reactivatable (vp_allowRevoked p) h) (gwContactChannels s)"
  show ?thesis
  proof (cases "case getGatewayChannelByKey ?ty ?addr s of Some h \<Rightarrow> \<not> reactivatable (vp_allowRevoked p) h | None \<Rightarrow> False")
    case True
    then show ?thesis using keeps_refl [OF ok] by (simp add: applyVerifiedChannelGatewayWrites_def Let_def split_beta)
  next
    case False
    have pre: "?pre s" by (rule pre_all [OF ok False])
    have re: "keeps s (fst (reassignChannelOwner ?ty ?addr to nm now s)) \<and>
        ?pre (fst (reassignChannelOwner ?ty ?addr to nm now s)) \<and>
        (mirror_agrees i ?ty ?addr s \<longrightarrow> mirror_agrees i ?ty ?addr (fst (reassignChannelOwner ?ty ?addr to nm now s)))"
      if "to \<noteq> []" for to nm i
    proof -
      note fr = reassign_frame [of ?ty ?addr to nm now s]
      have "?pre (fst (reassignChannelOwner ?ty ?addr to nm now s))"
        using frame_all [OF fr(2-4), of "\<lambda>k i st. k = (?ty, to_lower ?addr) \<longrightarrow> st \<noteq> ''blocked'' \<and>
          (vp_allowRevoked p \<or> st \<noteq> ''revoked'')"] pre
        by (simp add: by_key_iff reactivatable_def)
      moreover have "mirror_agrees i ?ty ?addr s \<longrightarrow> mirror_agrees i ?ty ?addr (fst (reassignChannelOwner ?ty ?addr to nm now s))"
        using frame_all [OF fr(2-4), of "\<lambda>k j st. j = i \<longrightarrow> k = (?ty, to_lower ?addr)"]
        by (simp add: by_key_iff mirror_agrees_def)
      ultimately show ?thesis using reassign_kept [OF ok that] by blast
    qed
    have en: "keeps s (ensureContactRow i n now s) \<and> ?pre (ensureContactRow i n now s) \<and>
        (mirror_agrees j ?ty ?addr s \<longrightarrow> mirror_agrees j ?ty ?addr (ensureContactRow i n now s))" for i n j
      using keeps_ensure [OF ok] ensure_kept(5) [OF ok] pre by (simp add: mirror_agrees_def)
    have wr: "keeps s (fst (writeVerifiedGatewayChannel w s1))"
      if "keeps s s1" "?pre s1" "mirror_agrees (vw_channelId w) ?ty ?addr s1" "vw_type w = ?ty" "vw_address w = ?addr"
        "vw_allowRevoked w = vp_allowRevoked p" "vw_channelId w \<noteq> []" "vw_contactId w \<noteq> []" for w s1
      using write_verified_kept [of s1 w] that keeps_trans [OF that(1)] by (simp add: keeps_def)
    show ?thesis
    proof (cases mirror)
      case None
      then show ?thesis using False m ne re en keeps_refl [OF ok]
        by (auto simp: applyVerifiedChannelGatewayWrites_def Let_def split_beta truthy_def intro!: wr split: option.splits)
    next
      case (Some r)
      then show ?thesis using False m ne re pre keeps_refl [OF ok]
        by (cases r) (auto simp: applyVerifiedChannelGatewayWrites_def Let_def split_beta truthy_def intro!: wr split: option.splits)
    qed
  qed
qed

lemma row_kept_fields:
  assumes "store_ok s" "h \<in> set (gwContactChannels s)" "cc_id (f h) = cc_id h" "cc_type (f h) = cc_type h"
    "cc_address (f h) = cc_address h" "cc_contactId (f h) = cc_contactId h" "cc_status (f h) \<in> set CHANNEL_STATUS_VALUES"
    "cc_policy (f h) \<in> set CHANNEL_POLICY_VALUES"
    "cc_status h = ''blocked'' \<Longrightarrow> cc_status (f h) = ''blocked'' \<and> cc_policy (f h) = cc_policy h"
  shows "row_kept s f h"
  using assms store_okD(4) [OF assms(1,2)] by (auto simp: row_kept_def channel_key_def channel_row_ok_def)

lemma known_values [simp]:
  "''revoked'' \<in> set CHANNEL_STATUS_VALUES" "''active'' \<in> set CHANNEL_STATUS_VALUES" "''unverified'' \<in> set CHANNEL_STATUS_VALUES"
  "''blocked'' \<in> set CHANNEL_STATUS_VALUES" "''allow'' \<in> set CHANNEL_POLICY_VALUES" "''deny'' \<in> set CHANNEL_POLICY_VALUES"
  by (simp_all add: CHANNEL_STATUS_VALUES_def CHANNEL_POLICY_VALUES_def)

lemma row_values: "store_ok s \<Longrightarrow> h \<in> set (gwContactChannels s) \<Longrightarrow>
    cc_status h \<in> set CHANNEL_STATUS_VALUES \<and> cc_policy h \<in> set CHANNEL_POLICY_VALUES"
  using store_okD(4) by (auto simp: channel_row_ok_def)

lemma revoke_kept:
  assumes ok: "store_ok s" and r: "markChannelRevokedById i reason now s = Inr (s', x)"
  shows "keeps s s'"
proof (cases "channel_by_id i s")
  case None
  then show ?thesis using r keeps_refl [OF ok] by (simp add: markChannelRevokedById_def)
next
  case (Some e)
  then have e: "e \<in> set (gwContactChannels s)" "cc_id e = i" by (auto simp: channel_by_id_def dest: find_SomeD)
  show ?thesis
  proof (cases "cc_status e = ''blocked''")
    case True
    then show ?thesis using r Some keeps_refl [OF ok] by (auto simp: markChannelRevokedById_def split: if_splits)
  next
    case False
    have "keeps s (update_rows (\<lambda>x. cc_id x = i) (\<lambda>x. x\<lparr>cc_status := ''revoked'', cc_revokedReason := reason,
        cc_blockedReason := None, cc_updatedAt := Some now\<rparr>) s)"
    proof (rule keeps_update [OF ok], rule row_kept_fields [OF ok])
      fix h assume h: "h \<in> set (gwContactChannels s)" "cc_id h = i"
      then have "h = e" using same_row [OF ok h(1) e(1)] e(2) by simp
      then show "cc_status h = ''blocked'' \<Longrightarrow> cc_status (h\<lparr>cc_status := ''revoked'', cc_revokedReason := reason,
          cc_blockedReason := None, cc_updatedAt := Some now\<rparr>) = ''blocked'' \<and> cc_policy (h\<lparr>cc_status := ''revoked'',
          cc_revokedReason := reason, cc_blockedReason := None, cc_updatedAt := Some now\<rparr>) = cc_policy h"
        using False by simp
    qed (use row_values [OF ok] in auto)
    then show ?thesis using r Some keeps_refl [OF ok]
      by (auto simp: markChannelRevokedById_def Let_def split: if_splits)
  qed
qed

lemma touch_kept:
  assumes "store_ok s"
  shows "keeps s (touchChannelLastSeen i now s)" "keeps s (touchContactInteraction i now s)"
  unfolding touchChannelLastSeen_def touchContactInteraction_def
  by (rule keeps_update [OF assms], rule row_kept_fields [OF assms]; use row_values [OF assms] in simp)+

lemma guardian_revoke_kept:
  assumes ok: "store_ok s" shows "keeps s (revokeExistingChannelGuardian ty now s)"
proof -
  let ?ids = "map (\<lambda>(c, h). cc_id h) (filter (\<lambda>(c, h). cc_status h = ''active'') (guardian_channels s ty))"
  let ?f = "\<lambda>h. h\<lparr>cc_status := ''revoked'', cc_policy := ''deny'', cc_updatedAt := Some now\<rparr>"
  have "keeps s (update_rows (\<lambda>h. cc_id h \<in> set ?ids) ?f s)"
  proof (rule keeps_update [OF ok], rule row_kept_fields [OF ok])
    fix h assume h: "h \<in> set (gwContactChannels s)" "cc_id h \<in> set ?ids"
    then obtain e where "e \<in> set (gwContactChannels s)" "cc_id e = cc_id h" "cc_status e = ''active''"
      by (auto simp: guardian_channels_def)
    then have "cc_status h = ''active''" using same_row [OF ok h(1)] by metis
    then show "cc_status h = ''blocked'' \<Longrightarrow> cc_status (?f h) = ''blocked'' \<and> cc_policy (?f h) = cc_policy h" by simp
  qed auto
  then show ?thesis by (simp add: revokeExistingChannelGuardian_def update_rows_def)
qed

text \<open>The values of an upsert are those of the row types.\<close>

definition input_ok :: "channel_input \<Rightarrow> bool" where
  "input_ok ch \<longleftrightarrow>
     ci_id ch \<noteq> Some [] \<and> (case ci_status ch of Some x \<Rightarrow> x \<in> set CHANNEL_STATUS_VALUES | None \<Rightarrow> True) \<and>
     (case ci_policy ch of Some x \<Rightarrow> x \<in> set CHANNEL_POLICY_VALUES | None \<Rightarrow> True)"

lemma given_simps [simp]: "given None x = x" "given (Some y) x = y"
  by (simp_all add: given_def)

lemma sync_set_fields:
  "cc_id (sync_set ch now h) = cc_id h" "cc_type (sync_set ch now h) = cc_type h" "cc_address (sync_set ch now h) = cc_address h"
  "cc_contactId (sync_set ch now h) = cc_contactId h"
  "cc_status (sync_set ch now h) = (if cc_status h = ''blocked'' then ''blocked'' else given (ci_status ch) (cc_status h))"
  "cc_policy (sync_set ch now h) = (if cc_status h = ''blocked'' then cc_policy h else given (ci_policy ch) (cc_policy h))"
  by (simp_all add: sync_set_def Let_def)

lemma sync_one_kept:
  assumes ok: "store_ok s" and ch: "input_ok ch" "fh \<noteq> []" and c: "contactId \<in> ct_id ` set (gwContacts s)" "contactId \<noteq> []"
    and r: "sync_one contactId ch fh now s = Some s'"
  shows "keeps s s' \<and> gwContacts s' = gwContacts s"
proof (cases "find (\<lambda>h. cc_contactId h = contactId \<and> by_key (ci_type ch) (ci_address ch) h) (gwContactChannels s)")
  case (Some e)
  have "keeps s (update_rows (\<lambda>h. cc_id h = cc_id e) (sync_set ch now) s)"
  proof (rule keeps_update [OF ok], rule row_kept_fields [OF ok])
    fix h assume "h \<in> set (gwContactChannels s)" "cc_id h = cc_id e"
    then show "cc_status (sync_set ch now h) \<in> set CHANNEL_STATUS_VALUES" "cc_policy (sync_set ch now h) \<in> set CHANNEL_POLICY_VALUES"
      using ch row_values [OF ok] by (auto simp: sync_set_fields input_ok_def split: option.splits)
  qed (simp_all add: sync_set_fields)
  then show ?thesis using r Some by (auto simp: sync_one_def)
next
  case None
  show ?thesis
  proof (cases "getGatewayChannelByKey (ci_type ch) (ci_address ch) s")
    case None
    have "keeps s (fst (insert_or_skip (sync_new contactId ch fh now) s))"
    proof (rule keeps_insert [OF ok])
      show "channel_row_ok (sync_new contactId ch fh now)"
        using ch c by (auto simp: sync_new_def channel_row_ok_def input_ok_def given_def split: option.splits)
    qed (use c None in \<open>simp_all add: sync_new_def\<close>)
    then show ?thesis using r None \<open>find _ _ = None\<close> insert_skip_cases
      by (fastforce simp: sync_one_def Let_def split: prod.splits if_splits)
  qed (use r None keeps_refl [OF ok] in \<open>simp add: sync_one_def\<close>)
qed

lemma sync_kept:
  assumes "store_ok s" "list_all input_ok chs" "\<And>n. ids n \<noteq> []" "contactId \<in> ct_id ` set (gwContacts s)" "contactId \<noteq> []"
  shows "keeps s (fst (syncChannels contactId chs ids now s))"
  using assms
proof (induction contactId chs ids now s rule: syncChannels.induct)
  case (1 contactId ids now s)
  then show ?case by (simp add: keeps_refl)
next
  case (2 contactId ch chs ids now s)
  show ?case
  proof (cases "sync_one contactId ch (ids 0) now s")
    case None
    then show ?thesis using "2.prems" by (simp add: keeps_refl)
  next
    case (Some s')
    have k: "keeps s s' \<and> gwContacts s' = gwContacts s"
      using sync_one_kept [OF "2.prems"(1) _ "2.prems"(3) "2.prems"(4,5) Some] "2.prems"(2) by simp
    then have "keeps s' (fst (syncChannels contactId chs (\<lambda>n. ids (Suc n)) now s'))"
      using "2.IH" [OF Some] "2.prems" by (simp add: keeps_def)
    then show ?thesis using k keeps_trans Some by auto
  qed
qed

lemma input_ok_address [simp]: "input_ok (ch\<lparr>ci_address := a\<rparr>) = input_ok ch"
  by (simp add: input_ok_def)

lemma upsert_kept:
  assumes ok: "store_ok s" and chs: "case up_channels p of Some chs \<Rightarrow> list_all input_ok chs | None \<Rightarrow> True"
    and ids: "\<And>n. ids n \<noteq> []" and fc: "fc \<noteq> []" "fc \<notin> ct_id ` set (gwContacts s)"
  shows "keeps s (fst (upsertContactGatewayWrites p fc ids now s))"
proof -
  have c: "list_all input_ok (canonical_channels p)"
    using chs by (auto simp: canonical_channels_def list_all_iff split: option.splits)
  have sync: "keeps s (fst (syncChannels i (canonical_channels p) ids now s1))"
    if "keeps s s1" "i \<in> ct_id ` set (gwContacts s1)" "i \<noteq> []" for i s1
    using keeps_trans [OF that(1) sync_kept [OF _ c ids that(2,3)]] that(1) by (simp add: keeps_def)
  have new: "keeps s (s\<lparr>gwContacts := gwContacts s @ [plain_contact i nm th now]\<rparr>)"
    if "i \<notin> ct_id ` set (gwContacts s)" for i nm th
    using add_contact_kept [OF ok that] by (simp add: keeps_def)
  have upd: "keeps s (update_contact p now i s)" for i using update_contact_kept [OF ok] by (simp add: keeps_def)
  have gone: "getContact i s = None \<Longrightarrow> i \<notin> ct_id ` set (gwContacts s)" for i
    by (auto simp: getContact_def find_None_iff)
  have here: "getContact i s = Some x \<Longrightarrow> i \<in> ct_id ` set (gwContacts s)" for i x
    by (auto simp: getContact_def dest!: find_SomeD)
  show ?thesis
  proof (cases "truthy (up_id p)")
    case True
    then show ?thesis using new gone here upd
      by (auto simp: upsertContactGatewayWrites_def Let_def split_beta truthy_def intro!: sync)
  next
    case False
    show ?thesis
    proof (cases "List.map_filter (\<lambda>ch. getGatewayChannelByKey (ci_type ch) (ci_address ch) s) (canonical_channels p)")
      case Nil
      then show ?thesis using False new fc by (auto simp: upsertContactGatewayWrites_def Let_def split_beta intro!: sync)
    next
      case (Cons h hs)
      then have "h \<in> set (gwContactChannels s)"
        using key_found(1) by (force simp: map_filter_def filter_eq_Cons_iff)
      then have "cc_contactId h \<in> ct_id ` set (gwContacts s)" "cc_contactId h \<noteq> []"
        using store_okD(4) [OF ok] row_ok_ids by auto
      then show ?thesis using False Cons upd
        by (auto simp: upsertContactGatewayWrites_def Let_def split_beta intro!: sync)
    qed
  qed
qed

lemma delete_kept:
  assumes ok: "store_ok s" and none: "\<not> list_ex (\<lambda>h. cc_contactId h = i) (gwContactChannels s)"
  shows "keeps s (delete_contact i s)"
proof -
  have hs: "filter (\<lambda>h. cc_contactId h \<noteq> i) (gwContactChannels s) = gwContactChannels s"
    using none by (auto simp: list_ex_iff filter_id_conv)
  have "distinct (map ct_id (filter (\<lambda>c. ct_id c \<noteq> i) (gwContacts s)))"
    using store_okD(1) [OF ok] by (rule distinct_map_filter)
  moreover have "ct_id ` {x \<in> set (gwContacts s). ct_id x \<noteq> i} = ct_id ` set (gwContacts s) - {i}" by auto
  ultimately show ?thesis using ok none hs
    by (auto simp: keeps_def delete_contact_def store_ok_def tables_ok_def blocked_rows_def list_all_iff list_ex_iff)
qed

lemma orphan_kept: "store_ok s \<Longrightarrow> orphaned invited i s \<Longrightarrow> keeps s (delete_contact i s)"
  by (simp add: delete_kept orphaned_def)

text \<open>Merging: every channel of the contact that goes is moved first.\<close>

definition merge_left :: "string \<Rightarrow> gw_channel list \<Rightarrow> gw_contacts \<Rightarrow> bool" where
  "merge_left mergeId ds s \<longleftrightarrow>
     (\<forall>h \<in> set (gwContactChannels s). cc_contactId h = mergeId \<longrightarrow> cc_id h \<in> cc_id ` set ds) \<and>
     (\<forall>d \<in> set ds. \<exists>h \<in> set (gwContactChannels s). cc_id h = cc_id d \<and> channel_key h = channel_key d \<and> cc_contactId h = mergeId)"

lemma merge_move_kept:
  assumes ok: "store_ok s" and keep: "keepId \<in> ct_id ` set (gwContacts s)" "keepId \<noteq> mergeId" "keepId \<noteq> []"
    and left: "merge_left mergeId (d # ds) s" and d: "cc_id d \<notin> cc_id ` set ds"
  shows "keeps s (merge_move keepId now s d)" "merge_left mergeId ds (merge_move keepId now s d)"
    "gwContacts (merge_move keepId now s d) = gwContacts s"
proof -
  obtain h where h: "h \<in> set (gwContactChannels s)" "cc_id h = cc_id d" "channel_key h = channel_key d" "cc_contactId h = mergeId"
    using left by (auto simp: merge_left_def)
  have no: "\<not> list_ex (\<lambda>h. cc_contactId h = keepId \<and> by_key (cc_type d) (cc_address d) h) (gwContactChannels s)"
  proof
    assume "list_ex (\<lambda>h. cc_contactId h = keepId \<and> by_key (cc_type d) (cc_address d) h) (gwContactChannels s)"
    then obtain x where x: "x \<in> set (gwContactChannels s)" "cc_contactId x = keepId" "channel_key x = channel_key d"
      by (auto simp: list_ex_iff by_key_iff channel_key_def)
    then have "x = h" using h store_okD(2) [OF ok] by (auto simp: distinct_map inj_on_def)
    then show False using x h keep by simp
  qed
  let ?f = "\<lambda>h. h\<lparr>cc_contactId := keepId, cc_updatedAt := Some now\<rparr>"
  have m: "merge_move keepId now s d = update_rows (\<lambda>h. cc_id h = cc_id d) ?f s" using no by (simp add: merge_move_def)
  show "keeps s (merge_move keepId now s d)" unfolding m
    by (rule keeps_update [OF ok]) (use keep store_okD(4) [OF ok] in \<open>auto simp: row_kept_def channel_key_def channel_row_ok_def\<close>)
  show "gwContacts (merge_move keepId now s d) = gwContacts s" by (simp add: m)
  show "merge_left mergeId ds (merge_move keepId now s d)" unfolding merge_left_def
  proof (intro conjI ballI impI)
    fix x assume "x \<in> set (gwContactChannels (merge_move keepId now s d))" "cc_contactId x = mergeId"
    then show "cc_id x \<in> cc_id ` set ds" using left keep
      by (auto simp: m update_rows_channels merge_left_def split: if_splits)
  next
    fix e assume e: "e \<in> set ds"
    then obtain x where x: "x \<in> set (gwContactChannels s)" "cc_id x = cc_id e" "channel_key x = channel_key e" "cc_contactId x = mergeId"
      using left by (auto simp: merge_left_def)
    moreover have "cc_id x \<noteq> cc_id d" using d e x(2) by (metis image_eqI)
    ultimately show "\<exists>h \<in> set (gwContactChannels (merge_move keepId now s d)). cc_id h = cc_id e \<and>
        channel_key h = channel_key e \<and> cc_contactId h = mergeId"
      by (force simp: m update_rows_channels)
  qed
qed

lemma merge_moves_kept:
  assumes "store_ok s" "keepId \<in> ct_id ` set (gwContacts s)" "keepId \<noteq> mergeId" "keepId \<noteq> []" "merge_left mergeId ds s"
    "distinct (map cc_id ds)"
  shows "keeps s (foldl (merge_move keepId now) s ds) \<and> merge_left mergeId [] (foldl (merge_move keepId now) s ds)"
  using assms
proof (induction ds arbitrary: s)
  case Nil
  then show ?case by (simp add: keeps_refl)
next
  case (Cons d ds)
  have d: "cc_id d \<notin> cc_id ` set ds" "distinct (map cc_id ds)" using Cons.prems(6) by auto
  note m = merge_move_kept [OF Cons.prems(1-5) d(1), of now]
  have "store_ok (merge_move keepId now s d)" using m(1) by (simp add: keeps_def)
  from Cons.IH [OF this _ Cons.prems(3,4) m(2) d(2)] show ?case
    using m(1,3) keeps_trans Cons.prems(2) by fastforce
qed

lemma merge_kept:
  assumes ok: "store_ok s" and ne: "keepId \<noteq> []" and r: "mergeContacts keepId mergeId now s = Inr s'"
  shows "keeps s s'"
proof -
  let ?s1 = "s\<lparr>gwContacts := map (\<lambda>c. if ct_id c = keepId then c\<lparr>ct_updatedAt := now\<rparr> else c) (gwContacts s)\<rparr>"
  let ?ds = "filter (\<lambda>h. cc_contactId h = mergeId) (gwContactChannels s)"
  have k: "keepId \<noteq> mergeId" "getContact keepId s \<noteq> None" "s' = delete_contact mergeId (foldl (merge_move keepId now) ?s1 ?ds)"
    using r by (auto simp: mergeContacts_def Let_def split: if_splits option.splits)
  have ids: "map ct_id (gwContacts ?s1) = map ct_id (gwContacts s)" by simp
  have set_ids: "ct_id ` set (gwContacts ?s1) = ct_id ` set (gwContacts s)"
    using arg_cong [OF ids, of set] by (simp only: list.set_map)
  have "store_ok (s\<lparr>gwContacts := gwContacts ?s1\<rparr>) \<and> blocked_rows (s\<lparr>gwContacts := gwContacts ?s1\<rparr>) = blocked_rows s"
    by (intro conjI contacts_kept [OF ok]) (simp_all only: ids set_ids store_okD(1) [OF ok] subset_refl)
  moreover have "s\<lparr>gwContacts := gwContacts ?s1\<rparr> = ?s1" by simp
  ultimately have s1: "store_ok ?s1" "keeps s ?s1" unfolding keeps_def by (metis subset_refl)+
  have "keepId \<in> ct_id ` set (gwContacts s)"
    using k(2) by (auto simp: getContact_def dest!: find_SomeD)
  then have "keepId \<in> ct_id ` set (gwContacts ?s1)" by (simp only: set_ids)
  moreover have "merge_left mergeId ?ds ?s1" by (auto simp: merge_left_def)
  moreover have "distinct (map cc_id ?ds)" using store_okD(3) [OF ok] by (rule distinct_map_filter)
  ultimately have m: "keeps ?s1 (foldl (merge_move keepId now) ?s1 ?ds)" "merge_left mergeId [] (foldl (merge_move keepId now) ?s1 ?ds)"
    using merge_moves_kept [OF s1(1) _ k(1) ne] by blast+
  define t where "t = foldl (merge_move keepId now) ?s1 ?ds"
  have "keeps t (delete_contact mergeId t)"
    by (rule delete_kept) (use m in \<open>auto simp: t_def [symmetric] keeps_def merge_left_def list_ex_iff\<close>)
  then show ?thesis using keeps_trans [OF keeps_trans [OF s1(2) m(1)], of s'] by (simp only: k(3) t_def)
qed

section \<open>The blocked stay out\<close>

text \<open>Everything that writes the tables but the guardian's own decisions (a status set by hand, a manual attestation,
  the binding of a guardian).\<close>

inductive writer_step :: "gw_contacts \<Rightarrow> gw_contacts \<Rightarrow> bool" where
  seed: "fc \<noteq> [] \<Longrightarrow> fh \<noteq> [] \<Longrightarrow> seedInboundChannel p fc fh now s = Some (s', r) \<Longrightarrow> writer_step s s'"
| move: "to \<noteq> [] \<Longrightarrow> writer_step s (fst (reassignChannelOwner ty addr to name now s))"
| verify: "fc \<noteq> [] \<Longrightarrow> fh \<noteq> [] \<Longrightarrow> vp_contactId p \<noteq> Some [] \<Longrightarrow>
    (case mirror of
       Some (i, owner) \<Rightarrow> i \<noteq> [] \<and> owner \<noteq> [] \<and>
         mirror_agrees i (vp_sourceChannel p) (canonical_address (vp_sourceChannel p) (vp_externalUserId p)) s
     | None \<Rightarrow> mirror_agrees fh (vp_sourceChannel p) (canonical_address (vp_sourceChannel p) (vp_externalUserId p)) s) \<Longrightarrow>
    writer_step s (fst (applyVerifiedChannelGatewayWrites p mirror fc fh now s))"
| revoke: "markChannelRevokedById i reason now s = Inr (s', x) \<Longrightarrow> writer_step s s'"
| seen: "writer_step s (touchChannelLastSeen i now s)"
| interaction: "writer_step s (touchContactInteraction i now s)"
| upsert: "(case up_channels p of Some chs \<Rightarrow> list_all input_ok chs | None \<Rightarrow> True) \<Longrightarrow> (\<And>n. ids n \<noteq> []) \<Longrightarrow> fc \<noteq> [] \<Longrightarrow>
    fc \<notin> ct_id ` set (gwContacts s) \<Longrightarrow> writer_step s (fst (upsertContactGatewayWrites p fc ids now s))"
| merge: "keepId \<noteq> [] \<Longrightarrow> mergeContacts keepId mergeId now s = Inr s' \<Longrightarrow> writer_step s s'"
| collect: "orphaned invited i s \<Longrightarrow> writer_step s (delete_contact i s)"
| unbind: "writer_step s (revokeExistingChannelGuardian ty now s)"

lemma writer_step_keeps: "writer_step s s' \<Longrightarrow> store_ok s \<Longrightarrow> keeps s s'"
proof (induction rule: writer_step.induct)
  case (verify fc fh p mirror s now)
  then show ?case by (intro apply_verified_kept)
qed (auto intro: seed_kept reassign_kept revoke_kept touch_kept upsert_kept merge_kept orphan_kept guardian_revoke_kept)

lemma writers_keep: "writer_step\<^sup>*\<^sup>* s s' \<Longrightarrow> store_ok s \<Longrightarrow> keeps s s'"
proof (induction rule: rtranclp_induct)
  case base
  then show ?case by (rule keeps_refl)
next
  case (step t u)
  then show ?case using writer_step_keeps keeps_trans by (meson keeps_def)
qed

text \<open>The one row of a sender decides its standing.\<close>

lemma sender_row_standing:
  assumes ok: "store_ok s" and h: "h \<in> set (gwContactChannels s)" "by_key ty i h"
  obtains c where "c \<in> set (gwContacts s)" "ct_id c = cc_contactId h" "sender_standing lost s ty i = row_standing s ty c h"
proof -
  have one: "x = h" if "x \<in> set (gwContactChannels s)" "by_key ty i x" for x
    using that h store_okD(2) [OF ok] by (auto simp: by_key_iff distinct_map inj_on_def)
  obtain c where c: "contact_of s h = Some c"
    using store_okD(4) [OF ok h(1)] by (cases "contact_of s h") (auto simp: contact_of_def find_None_iff)
  let ?P = "\<lambda>h. cc_type h = ty \<and> nocase_eq (cc_address h) i \<and> contact_of s h \<noteq> None"
  have "find ?P (gwContactChannels s) = Some h"
  proof (cases "find ?P (gwContactChannels s)")
    case None
    then show ?thesis using h c by (auto simp: find_None_iff by_key_def)
  next
    case (Some x)
    then show ?thesis using one find_SomeD [OF Some] by (auto simp: by_key_def)
  qed
  then have "sender_standing lost s ty i = row_standing s ty c h" using c by (simp add: sender_standing_def)
  moreover have "c \<in> set (gwContacts s)" "ct_id c = cc_contactId h"
    using c by (auto simp: contact_of_def dest: find_SomeD)
  ultimately show thesis using that by blast
qed

lemma kept_out_denied:
  assumes ok: "store_ok s"
    and b: "\<exists>h \<in> set (gwContactChannels s). by_key ty i h \<and> (cc_status h = ''blocked'' \<or> cc_status h = ''revoked'')"
  shows "sender_standing lost s ty i = None"
proof -
  obtain h where h: "h \<in> set (gwContactChannels s)" "by_key ty i h" "cc_status h = ''blocked'' \<or> cc_status h = ''revoked''"
    using b by blast
  obtain c where "sender_standing lost s ty i = row_standing s ty c h"
    using sender_row_standing [OF ok h(1,2)] by metis
  then show ?thesis using h(3) by (auto simp: row_standing_def)
qed

text \<open>A row of a plain contact that nobody keeps out ranks by its status.\<close>

lemma contact_row_standing:
  assumes ok: "store_ok s" and h: "h \<in> set (gwContactChannels s)" "by_key ty i h"
    and st: "cc_status h \<noteq> ''blocked''" "cc_status h \<noteq> ''revoked''" "cc_policy h = ''allow''"
    and c: "list_all (\<lambda>c. ct_id c = cc_contactId h \<longrightarrow> ct_role c = ''contact'') (gwContacts s)"
  shows "sender_standing lost s ty i = Some (if cc_status h = ''active'' then 3 else 2)"
proof -
  obtain c' where c': "c' \<in> set (gwContacts s)" "ct_id c' = cc_contactId h"
      "sender_standing lost s ty i = row_standing s ty c' h"
    using sender_row_standing [OF ok h] by metis
  then have role: "ct_role c' = ''contact''" using c by (auto simp: list_all_iff)
  moreover have "guardian_row ty s \<noteq> Some (c', h)" using guardian_row_mem(4) role by fastforce
  ultimately show ?thesis using c'(3) st by (simp add: row_standing_def)
qed

text \<open>C4: A blocked sender stays out. Once a sender's channel is blocked, no sequence of inbound seeding, verification
  codes, invite bindings, channel moves, profile upserts, merges, revocations, garbage collection or unbinding of
  guardians makes a message of that sender reach the agent
  on a channel with a floor, whatever the channel's policy and whatever the tables and caches hold otherwise; except that a message whose sender failed channel authentication is judged as a stranger's,
  so that it can reach the agent, but only on a channel open to strangers. The tables start well formed, fresh ids are
  not empty, and the channel id the daemon's mirror answers to a verified write belongs to the sender's key in the
  gateway's table or to no row; binding a guardian is not among the operations, it can drop a block.\<close>

theorem blocked_sender_stays_out:
  assumes ok: "store_ok s" and row: "h \<in> set (gwContactChannels s)" "cc_status h = ''blocked''"
    and run: "writer_step\<^sup>*\<^sup>* s s'"
    and ch: "ch \<in> set CHANNEL_IDS" "\<not> isAdmissionPolicyExemptChannel ch"
    and id: "pluginMemberIdentity ch a = (cc_type h, addr)" "a \<noteq> []"
    and i: "canonicalSenderIdFor (cc_type h) (Some addr) = Some i" "nocase_eq (cc_address h) i"
  shows "inbound_admitted True policies E s' cache
      \<lparr>im_channel = ch, im_actor = Some a, im_senderAuthenticated = auth, im_isBot = isBot, im_isCallback = isCallback\<rparr> challenge
    \<longrightarrow> auth = Some False \<and> cache_policy policies ch = Strangers"
proof -
  have k: "store_ok s'" "blocked_rows s \<subseteq> blocked_rows s'" using writers_keep [OF run ok] by (simp_all add: keeps_def)
  have "(cc_id h, cc_type h, to_lower (cc_address h), cc_policy h) \<in> blocked_rows s'"
    using row k(2) by (auto simp: blocked_rows_def)
  then have "\<exists>h' \<in> set (gwContactChannels s'). by_key (cc_type h) i h' \<and> cc_status h' = ''blocked''"
    using i(2) by (fastforce simp: blocked_rows_def by_key_def nocase_eq_def)
  then have "\<exists>h' \<in> set (gwContactChannels s'). by_key (cc_type h) i h' \<and> (cc_status h' = ''blocked'' \<or> cc_status h' = ''revoked'')"
    by blast
  note out = kept_out_denied [OF k(1) this]
  have "\<not> inbound_admitted True policies E s' cache
      \<lparr>im_channel = ch, im_actor = Some a, im_senderAuthenticated = None, im_isBot = isBot, im_isCallback = isCallback\<rparr> challenge"
    using admission_by_standing [OF _ ch id i(1), of s'] k(1) out by (simp add: store_ok_def)
  then show ?thesis
    using unauthenticated_is_stranger [OF ch, of policies E s' cache a isBot isCallback challenge]
      admission_authenticated [of auth True policies E s' cache ch "Some a"] by blast
qed

definition blocked_demo :: gw_contacts where
  "blocked_demo = update_rows (\<lambda>h. cc_id h = ''t'') (\<lambda>h. h\<lparr>cc_status := ''blocked''\<rparr>) admission_demo"

definition blocked_run :: gw_contacts where
  "blocked_run =
     touchContactInteraction ''t'' 9
       (fst (applyVerifiedChannelGatewayWrites
          \<lparr>vp_sourceChannel = ''telegram'', vp_externalUserId = ''42'', vp_externalChatId = ''42'', vp_displayName = None,
           vp_username = None, vp_verifiedVia = Some ''invite'', vp_contactId = Some ''g'', vp_allowRevoked = True\<rparr>
          None ''n'' ''m'' 8 blocked_demo))"

theorem blocked_sender_stays_out_witness:
  "\<not> inbound_admitted True [(''telegram'', Strangers)] admission_env blocked_run None (admission_msg ''telegram'' ''42'') False"
proof -
  let ?p = "\<lparr>vp_sourceChannel = ''telegram'', vp_externalUserId = ''42'', vp_externalChatId = ''42'', vp_displayName = None,
    vp_username = None, vp_verifiedVia = Some ''invite'', vp_contactId = Some ''g'', vp_allowRevoked = True\<rparr>"
  let ?h = "(gwContactChannels blocked_demo) ! 2"
  have ok: "store_ok blocked_demo" by code_simp
  have row: "?h \<in> set (gwContactChannels blocked_demo)" "cc_status ?h = ''blocked''" by code_simp+
  have "writer_step blocked_demo (fst (applyVerifiedChannelGatewayWrites ?p None ''n'' ''m'' 8 blocked_demo))"
    by (rule writer_step.verify) (simp_all, code_simp)
  then have run: "writer_step\<^sup>*\<^sup>* blocked_demo blocked_run"
    unfolding blocked_run_def by (rule converse_rtranclp_into_rtranclp) (rule r_into_rtranclp, rule writer_step.interaction)
  have h: "''telegram'' \<in> set CHANNEL_IDS" "\<not> isAdmissionPolicyExemptChannel ''telegram''"
    "pluginMemberIdentity ''telegram'' ''42'' = (cc_type ?h, ''42'')" "''42'' \<noteq> ''''"
    "canonicalSenderIdFor (cc_type ?h) (Some ''42'') = Some ''42''" "nocase_eq (cc_address ?h) ''42''"
    by code_simp+
  show ?thesis
    using blocked_sender_stays_out [OF ok row run h, where policies = "[(''telegram'', Strangers)]" and E = admission_env
      and cache = None and isBot = False and isCallback = False and challenge = False and auth = None]
    by (simp add: admission_msg_def)
qed

text \<open>The exception is real: on an open channel the blocked sender's mail reaches the agent once it fails authentication.\<close>

definition blocked_mail_demo :: gw_contacts where
  "blocked_mail_demo = update_rows (\<lambda>h. cc_id h = ''t'') (\<lambda>h. h\<lparr>cc_type := ''email'', cc_address := ''eve@x.org''\<rparr>) blocked_demo"

lemma unauthenticated_block_evaded:
  "inbound_admitted True [(''email'', Strangers)] admission_env blocked_mail_demo None
     \<lparr>im_channel = ''email'', im_actor = Some ''eve@x.org'', im_senderAuthenticated = auth, im_isBot = False, im_isCallback = False\<rparr> False
   \<longleftrightarrow> auth = Some False"
proof -
  have h: "tables_ok blocked_mail_demo" "pluginMemberIdentity ''email'' ''eve@x.org'' = (''email'', ''eve@x.org'')"
    "''eve@x.org'' \<noteq> []" "canonicalSenderIdFor ''email'' (Some ''eve@x.org'') = Some ''eve@x.org''"
    by code_simp+
  have ch: "''email'' \<in> set CHANNEL_IDS" "\<not> isAdmissionPolicyExemptChannel ''email''" by code_simp+
  have lost: "\<not> fst (guardianIntegrityState (re_hasActorTokens admission_env) (re_now admission_env) blocked_mail_demo None)"
    "\<not> unvouched blocked_mail_demo ''email'' (member_row ''email'' (Some ''eve@x.org'') blocked_mail_demo)"
    "cache_policy [(''email'', Strangers)] ''email'' = Strangers"
    "\<And>lost. sender_standing lost blocked_mail_demo ''email'' ''eve@x.org'' = None"
    by code_simp+
  have "\<not> tv_resolutionFailed (fst (resolveTrustVerdict admission_env blocked_mail_demo None ''email'' (Some ''eve@x.org'')))"
    using resolve_eq [OF h, of admission_env None] lost by auto
  then show ?thesis
    using unauthenticated_is_stranger [OF ch] admission_authenticated [of auth True "[(''email'', Strangers)]"]
      admission_by_standing [OF h(1) ch h(2-4)] lost(3,4) by (cases "auth = Some False") auto
qed

text \<open>Binding the guardian is not among these writers: a new address overwrites the guardian contact's row of the
  channel even when that row is blocked, and the block is gone with it.\<close>

definition own_block_demo :: gw_contacts where
  "own_block_demo = update_rows (\<lambda>h. cc_id h = ''t'') (\<lambda>h. h\<lparr>cc_contactId := ''g''\<rparr>) blocked_demo"

lemma rebind_drops_block:
  "getGatewayChannelByKey ''telegram'' ''42'' own_block_demo \<noteq> None"
  "(case applyGuardianBindingGatewayWrites
      \<lparr>b_channel = ''telegram'', b_externalUserId = ''77'', b_deliveryChatId = ''77'', b_guardianPrincipalId = ''p'',
       b_displayName = None, b_verifiedVia = None, b_reactivateRevoked = False\<rparr> ''n'' ''m'' 9 own_block_demo of
      Some (s', w) \<Rightarrow> map_option cc_status (channel_by_id ''t'' s') = Some ''active'' \<and>
        getGatewayChannelByKey ''telegram'' ''42'' s' = None
    | None \<Rightarrow> False)"
  by code_simp+

text \<open>A manual attestation of a row that unbinding set to deny reports success and leaves it denied.\<close>

lemma attested_stays_denied:
  "let s = revokeExistingChannelGuardian ''phone'' 5 demo_contacts;
       (s', r) = markChannelVerified (channel_by_id ''h'' s) ''manual'' 6 s
   in map_option snd r = Some True \<and> map_option cc_status (channel_by_id ''h'' s') = Some ''active'' \<and>
      map_option cc_policy (channel_by_id ''h'' s') = Some ''deny'' \<and>
      sender_standing False s' ''phone'' ''+1555'' = None"
  by code_simp

end
