(* ===== verification/Code_Parsing.thy ===== *)
theory Code_Parsing
  imports Prelude
begin

text \<open>
  Codes in messages (\<^verbatim>\<open>gateway/src/verification/code-parsing.ts\<close>): the fresh part of an e-mail reply and the bare
  verification code, and the invite token of a start command (\<^verbatim>\<open>verification/invite-redemption.ts\<close>). The regular
  expressions are written out as tests on lines.
\<close>

section \<open>The fresh part of an e-mail\<close>

text \<open>\<^verbatim>\<open>split(/\r?\n/)\<close>: every piece but the last loses one carriage return at its end.\<close>

definition CR :: char where "CR = CHR 0x0D"
definition LF :: char where "LF = CHR 0x0A"

definition drop_cr :: "string \<Rightarrow> string" where
  "drop_cr s = (if s \<noteq> [] \<and> last s = CR then butlast s else s)"

definition email_lines :: "string \<Rightarrow> string list" where
  "email_lines body = (let ls = split_on LF body in map drop_cr (butlast ls) @ [last ls])"

definition rtrim :: "string \<Rightarrow> string" where
  "rtrim s = rev (dropWhile is_space (rev s))"

text \<open>\<^verbatim>\<open>/^On .+ wrote:\s*$/\<close>\<close>

definition reply_header :: "string \<Rightarrow> bool" where
  "reply_header line \<longleftrightarrow>
     (let l = rtrim line; mid = take (length l - 10) (drop 3 l)
      in starts_with l ''On '' \<and> ends_with l '' wrote:'' \<and> 11 \<le> length l \<and> list_all (\<lambda>c. c \<noteq> CR \<and> c \<noteq> LF) mid)"

text \<open>\<^verbatim>\<open>/^-{2,}\s*(Original Message|Forwarded message)/i\<close>\<close>

definition forward_header :: "string \<Rightarrow> bool" where
  "forward_header line \<longleftrightarrow>
     (let dashes = takeWhile (\<lambda>c. c = CHR ''-'') line;
          rest = to_lower (dropWhile is_space (dropWhile (\<lambda>c. c = CHR ''-'') line))
      in 2 \<le> length dashes \<and> (starts_with rest ''original message'' \<or> starts_with rest ''forwarded message''))"

text \<open>\<^verbatim>\<open>/^(From|Sent|To|Subject):\s/i\<close>\<close>

definition field_header :: "string \<Rightarrow> bool" where
  "field_header line \<longleftrightarrow>
     list_ex (\<lambda>f. starts_with (to_lower line) f \<and> length f < length line \<and> is_space (line ! length f))
       [''from:'', ''sent:'', ''to:'', ''subject:'']"

definition quote_start :: "string list \<Rightarrow> string \<Rightarrow> bool" where
  "quote_start fresh line \<longleftrightarrow>
     starts_with line ''>'' \<or> reply_header line \<or> forward_header line \<or> line = ''-- '' \<or> line = ''--'' \<or>
     field_header line \<and> fresh \<noteq> []"

fun fresh_lines :: "string list \<Rightarrow> string list \<Rightarrow> string list" where
  "fresh_lines fresh [] = fresh"
| "fresh_lines fresh (l # ls) = (if quote_start fresh l then fresh else fresh_lines (fresh @ [l]) ls)"

definition extractEmailReplyBody :: "string \<Rightarrow> string" where
  "extractEmailReplyBody body = js_trim (join_with [LF] (fresh_lines [] (email_lines body)))"

section \<open>Verification codes\<close>

definition mrkdwn_mark :: "char \<Rightarrow> bool" where
  "mrkdwn_mark c \<longleftrightarrow> c = CHR ''*'' \<or> c = CHR ''_'' \<or> c = CHR ''~'' \<or> c = CHR 0x60"

definition stripMrkdwnFormatting :: "string \<Rightarrow> string" where
  "stripMrkdwnFormatting s = rev (dropWhile mrkdwn_mark (rev (dropWhile mrkdwn_mark s)))"

definition is_hex :: "char \<Rightarrow> bool" where
  "is_hex c \<longleftrightarrow> is_digit c \<or> lower_char c \<in> set ''abcdef''"

definition parseVerificationCode :: "string \<Rightarrow> string option" where
  "parseVerificationCode content =
     (let s = stripMrkdwnFormatting (js_trim content)
      in if length s = 64 \<and> list_all is_hex s \<or> length s = 6 \<and> list_all is_digit s then Some s else None)"

section \<open>Invite tokens\<close>

record command_intent =
  cmd_type :: string
  cmd_payload :: "string option"

definition INVITE_TOKEN_PREFIX :: string where
  "INVITE_TOKEN_PREFIX = ''iv_''"

text \<open>\<^verbatim>\<open>/^\/start\s+iv_(\S+)/\<close>\<close>

definition start_token :: "string \<Rightarrow> string option" where
  "start_token content =
     (let rest = drop 6 content; arg = dropWhile is_space rest;
          token = takeWhile (\<lambda>c. \<not> is_space c) (drop 3 arg)
      in if starts_with content ''/start'' \<and> arg \<noteq> rest \<and> starts_with arg ''iv_'' \<and> token \<noteq> [] then Some token else None)"

definition extractInviteToken :: "command_intent option \<Rightarrow> string \<Rightarrow> string option" where
  "extractInviteToken intent content =
     (case intent of
        Some c \<Rightarrow>
          if cmd_type c = ''start''
          then (case cmd_payload c of
                  Some p \<Rightarrow>
                    (let token = drop 3 p
                     in if starts_with p INVITE_TOKEN_PREFIX \<and> js_trim token \<noteq> [] then Some token else None)
                | None \<Rightarrow> None)
          else start_token content
      | None \<Rightarrow> start_token content)"

end
