(* ===== verification/Invites.thy ===== *)
theory Invites
  imports Contact_Safety Code_Parsing "HOL-Library.List_Lexorder" "HOL-Library.Char_ord"
begin

text \<open>
  Invites: the table of \<^verbatim>\<open>gateway/src/db/contact-store.ts\<close> with its atomic statements, the liveness gate of
  \<^verbatim>\<open>gateway/src/verification/invite-liveness.ts\<close> and the redemption engine and intercept of
  \<^verbatim>\<open>gateway/src/verification/invite-redemption.ts\<close>.

  A redemption runs in two atomic parts: everything up to the claim of a use, then, after the daemon's mirror was
  asked, the write of the channel. What others do in between is an argument, as are the hash functions, the clock and
  fresh ids.
\<close>

section \<open>The table\<close>

record invite =
  iv_id :: string
  iv_sourceChannel :: string
  iv_inviteCodeHash :: string
  iv_tokenHash :: "string option"
  iv_voiceCodeHash :: "string option"
  iv_voiceCodeDigits :: "nat option"
  iv_expectedExternalUserId :: "string option"
  iv_friendName :: "string option"
  iv_guardianName :: "string option"
  iv_sourceConversationId :: "string option"
  iv_note :: "string option"
  iv_maxUses :: nat
  iv_useCount :: nat
  iv_expiresAt :: int
  iv_status :: string
  iv_redeemedByExternalUserId :: "string option"
  iv_redeemedByExternalChatId :: "string option"
  iv_redeemedAt :: "int option"
  iv_contactId :: string
  iv_createdAt :: int
  iv_updatedAt :: int

type_synonym invite_table = "invite list"

definition NO_INVITE_CODE_HASH :: string where
  "NO_INVITE_CODE_HASH = ''''"

record create_invite_params =
  cip_id :: string
  cip_sourceChannel :: string
  cip_inviteCodeHash :: "string option"
  cip_contactId :: string
  cip_note :: "string option"
  cip_maxUses :: "nat option"
  cip_expiresAt :: int
  cip_tokenHash :: "string option"
  cip_voiceCodeHash :: "string option"
  cip_voiceCodeDigits :: "nat option"
  cip_expectedExternalUserId :: "string option"
  cip_friendName :: "string option"
  cip_guardianName :: "string option"
  cip_sourceConversationId :: "string option"

text \<open>\<open>None\<close> is the exception of the primary key.\<close>

definition createInvite :: "create_invite_params \<Rightarrow> int \<Rightarrow> invite_table \<Rightarrow> (invite_table \<times> invite) option" where
  "createInvite p now t =
     (let r = \<lparr>iv_id = cip_id p, iv_sourceChannel = cip_sourceChannel p,
                iv_inviteCodeHash = (case cip_inviteCodeHash p of Some c \<Rightarrow> c | None \<Rightarrow> NO_INVITE_CODE_HASH),
                iv_tokenHash = cip_tokenHash p, iv_voiceCodeHash = cip_voiceCodeHash p,
                iv_voiceCodeDigits = cip_voiceCodeDigits p, iv_expectedExternalUserId = cip_expectedExternalUserId p,
                iv_friendName = cip_friendName p, iv_guardianName = cip_guardianName p,
                iv_sourceConversationId = cip_sourceConversationId p, iv_note = cip_note p,
                iv_maxUses = (case cip_maxUses p of Some m \<Rightarrow> m | None \<Rightarrow> 1), iv_useCount = 0,
                iv_expiresAt = cip_expiresAt p, iv_status = ''active'', iv_redeemedByExternalUserId = None,
                iv_redeemedByExternalChatId = None, iv_redeemedAt = None, iv_contactId = cip_contactId p,
                iv_createdAt = now, iv_updatedAt = now\<rparr>
      in if cip_id p \<in> iv_id ` set t then None else Some (t @ [r], r))"

definition update_invites :: "(invite \<Rightarrow> bool) \<Rightarrow> (invite \<Rightarrow> invite) \<Rightarrow> invite_table \<Rightarrow> invite_table" where
  "update_invites P f t = map (\<lambda>r. if P r then f r else r) t"

definition active_id :: "string \<Rightarrow> invite \<Rightarrow> bool" where
  "active_id i r \<longleftrightarrow> iv_id r = i \<and> iv_status r = ''active''"

definition getInviteById :: "string \<Rightarrow> invite_table \<Rightarrow> invite option" where
  "getInviteById i t = find (\<lambda>r. iv_id r = i) t"

definition revokeInvite :: "string \<Rightarrow> int \<Rightarrow> invite_table \<Rightarrow> invite_table \<times> invite option" where
  "revokeInvite i now t =
     (let t' = update_invites (active_id i) (\<lambda>r. r\<lparr>iv_status := ''revoked'', iv_updatedAt := now\<rparr>) t
      in (t', getInviteById i t'))"

definition redeem_set :: "string option \<Rightarrow> string option \<Rightarrow> int \<Rightarrow> invite \<Rightarrow> invite" where
  "redeem_set user chat now r =
     r\<lparr>iv_useCount := iv_useCount r + 1, iv_redeemedAt := Some now, iv_redeemedByExternalUserId := user,
       iv_redeemedByExternalChatId := chat,
       iv_status := (if iv_maxUses r \<le> iv_useCount r + 1 then ''redeemed'' else ''active''), iv_updatedAt := now\<rparr>"

definition recordInviteRedemption ::
    "string \<Rightarrow> string option \<Rightarrow> string option \<Rightarrow> int \<Rightarrow> invite_table \<Rightarrow> invite_table \<times> bool" where
  "recordInviteRedemption i user chat now t =
     (update_invites (active_id i) (redeem_set user chat now) t, list_ex (active_id i) t)"

definition findInviteByTokenHash :: "string \<Rightarrow> invite_table \<Rightarrow> invite option" where
  "findInviteByTokenHash h t = find (\<lambda>r. iv_tokenHash r = Some h) t"

definition findInviteByCodeHash :: "string \<Rightarrow> string \<Rightarrow> invite_table \<Rightarrow> invite option" where
  "findInviteByCodeHash h ch t =
     (if h = NO_INVITE_CODE_HASH then None
      else find (\<lambda>r. iv_inviteCodeHash r = h \<and> iv_sourceChannel r = ch \<and> iv_status r = ''active'') t)"

definition findInviteByCodeHashAnyChannel :: "string \<Rightarrow> int \<Rightarrow> invite_table \<Rightarrow> invite option" where
  "findInviteByCodeHashAnyChannel h now t =
     (if h = NO_INVITE_CODE_HASH then None
      else find (\<lambda>r. iv_inviteCodeHash r = h \<and> iv_status r = ''active'' \<and> iv_expiresAt r > now) t)"

definition findActiveVoiceInvites :: "string \<Rightarrow> invite_table \<Rightarrow> invite list" where
  "findActiveVoiceInvites user t =
     filter (\<lambda>r. iv_sourceChannel r = ''phone'' \<and> iv_status r = ''active'' \<and> iv_expectedExternalUserId r = Some user) t"

definition markInviteExpired :: "string \<Rightarrow> int \<Rightarrow> invite_table \<Rightarrow> invite_table \<times> bool" where
  "markInviteExpired i now t =
     (update_invites (active_id i) (\<lambda>r. r\<lparr>iv_status := ''expired'', iv_updatedAt := now\<rparr>) t, list_ex (active_id i) t)"

text \<open>Newest first, ties by descending id.\<close>

definition listInvites ::
    "string option \<Rightarrow> string option \<Rightarrow> string option \<Rightarrow> nat option \<Rightarrow> nat option \<Rightarrow> invite_table \<Rightarrow> invite list" where
  "listInvites ch st contact lim off t =
     take (case lim of Some n \<Rightarrow> n | None \<Rightarrow> 100) (drop (case off of Some n \<Rightarrow> n | None \<Rightarrow> 0)
       (rev (sort_key (\<lambda>r. (iv_createdAt r, iv_id r))
         (filter (\<lambda>r. (case ch of Some c \<Rightarrow> iv_sourceChannel r = c | None \<Rightarrow> True) \<and>
            (case st of Some x \<Rightarrow> iv_status r = x | None \<Rightarrow> True) \<and>
            (case contact of Some c \<Rightarrow> iv_contactId r = c | None \<Rightarrow> True)) t))))"

text \<open>\<^verbatim>\<open>ensureInviteLive\<close>: the status when it is not live.\<close>

definition ensureInviteLive :: "invite \<Rightarrow> int \<Rightarrow> invite_table \<Rightarrow> invite_table \<times> string option" where
  "ensureInviteLive r now t =
     (if iv_status r \<noteq> ''active'' then (t, Some (iv_status r))
      else if iv_expiresAt r \<le> now then (fst (markInviteExpired (iv_id r) now t), Some ''expired'')
      else (t, None))"

section \<open>The gateway's tables together\<close>

record gw_store =
  gs_acl :: gw_contacts
  gs_invites :: invite_table

definition has_invite :: "string \<Rightarrow> gw_store \<Rightarrow> bool" where
  "has_invite c S \<longleftrightarrow> list_ex (\<lambda>r. iv_contactId r = c) (gs_invites S)"

text \<open>Deleting a contact cascades to its invites too.\<close>

definition delete_contact_rows :: "string \<Rightarrow> gw_store \<Rightarrow> gw_store" where
  "delete_contact_rows c S =
     \<lparr>gs_acl = delete_contact c (gs_acl S), gs_invites = filter (\<lambda>r. iv_contactId r \<noteq> c) (gs_invites S)\<rparr>"

text \<open>The first name that is not blank.\<close>

definition or_trimmed :: "string option \<Rightarrow> string option \<Rightarrow> string option" where
  "or_trimmed a b = (case a of Some x \<Rightarrow> if js_trim x \<noteq> [] then Some (js_trim x) else b | None \<Rightarrow> b)"

definition resolveInviteeName :: "gw_store \<Rightarrow> invite \<Rightarrow> string option \<Rightarrow> string option" where
  "resolveInviteeName S r fallback =
     or_trimmed (map_option ct_displayName (getContact (iv_contactId r) (gs_acl S)))
       (or_trimmed (iv_friendName r) (or_trimmed fallback None))"

section \<open>Redemption\<close>

datatype fail_reason = InvalidToken | Expired | RevokedInvite | MaxUsesReached | ChannelMismatch | MissingIdentity

definition reasonForStatus :: "string \<Rightarrow> fail_reason" where
  "reasonForStatus st =
     (if st = ''expired'' then Expired else if st = ''revoked'' then RevokedInvite
      else if st = ''redeemed'' then MaxUsesReached else InvalidToken)"

record redeem_params =
  rp_sourceChannel :: string
  rp_externalUserId :: "string option"
  rp_externalChatId :: "string option"
  rp_displayName :: "string option"
  rp_username :: "string option"

record redeem_outcome =
  oc_inviteId :: string
  oc_contactId :: string
  oc_sourceChannel :: string
  oc_memberExternalUserId :: string
  oc_memberExternalChatId :: "string option"
  oc_displayName :: "string option"
  oc_username :: "string option"
  oc_sourceConversationId :: "string option"

datatype redeem_result = Redeemed redeem_outcome | AlreadyMember redeem_outcome | RedeemFailed fail_reason | NoMatch

definition canonical_user :: "redeem_params \<Rightarrow> string option" where
  "canonical_user p =
     (case rp_externalUserId p of
        Some u \<Rightarrow> if u = [] then None else Some (canonical_address (rp_sourceChannel p) u)
      | None \<Rightarrow> None)"

text \<open>\<^verbatim>\<open>externalUserId ?? externalChatId!\<close>\<close>

definition redeem_address :: "redeem_params \<Rightarrow> string" where
  "redeem_address p =
     (case rp_externalUserId p of Some u \<Rightarrow> u | None \<Rightarrow> (case rp_externalChatId p of Some c \<Rightarrow> c | None \<Rightarrow> []))"

definition existing_member :: "redeem_params \<Rightarrow> invite \<Rightarrow> gw_contacts \<Rightarrow> gw_channel option" where
  "existing_member p r s =
     (case canonical_user p of
        Some u \<Rightarrow> getGatewayChannelByKey (rp_sourceChannel p) u s
      | None \<Rightarrow>
          (case rp_externalChatId p of
             Some c \<Rightarrow>
               if c = [] then None
               else getGatewayChannelByExternalChatId (rp_sourceChannel p) c (Some (iv_contactId r)) s
           | None \<Rightarrow> None))"

definition nonempty :: "string option \<Rightarrow> string option" where
  "nonempty v = (if truthy v then v else None)"

definition outcome_of :: "redeem_params \<Rightarrow> invite \<Rightarrow> string \<Rightarrow> string \<Rightarrow> redeem_outcome" where
  "outcome_of p r contact member =
     \<lparr>oc_inviteId = iv_id r, oc_contactId = contact, oc_sourceChannel = rp_sourceChannel p, oc_memberExternalUserId = member,
      oc_memberExternalChatId = nonempty (rp_externalChatId p), oc_displayName = None, oc_username = None,
      oc_sourceConversationId = None\<rparr>"

text \<open>The first part, up to the claim: a result, or the name to bind the channel with.\<close>

definition claim_phase :: "invite \<Rightarrow> redeem_params \<Rightarrow> int \<Rightarrow> gw_store \<Rightarrow> gw_store \<times> (redeem_result + string option)" where
  "claim_phase r p now S =
     (case ensureInviteLive r now (gs_invites S) of
        (t, Some st) \<Rightarrow> (S\<lparr>gs_invites := t\<rparr>, Inl (RedeemFailed (reasonForStatus st)))
      | (_, None) \<Rightarrow>
          if iv_maxUses r \<le> iv_useCount r then (S, Inl (RedeemFailed MaxUsesReached))
          else if iv_sourceChannel r \<noteq> rp_sourceChannel p then (S, Inl (RedeemFailed ChannelMismatch))
          else
            (let existing = existing_member p r (gs_acl S);
                 claim = (let (t, won) = recordInviteRedemption (iv_id r) (rp_externalUserId p) (rp_externalChatId p) now (gs_invites S)
                          in if \<not> won then (S\<lparr>gs_invites := t\<rparr>, Inl (RedeemFailed InvalidToken))
                             else (S\<lparr>gs_invites := t\<rparr>, Inr (resolveInviteeName S r (rp_displayName p))))
             in case existing of
                  None \<Rightarrow> claim
                | Some h \<Rightarrow>
                    if cc_status h = ''active'' \<and> cc_contactId h = iv_contactId r
                    then (S, Inl (AlreadyMember (outcome_of p r (cc_contactId h)
                           (case canonical_user p of Some u \<Rightarrow> u | None \<Rightarrow> cc_address h))))
                    else if cc_status h = ''blocked'' then (S, Inl (RedeemFailed InvalidToken))
                    else claim))"

record redeem_env =
  rv_between :: "gw_store \<Rightarrow> gw_store"
  rv_mirror :: "(string \<times> string) option"
  rv_freshContact :: string
  rv_freshChannel :: string
  rv_activateAt :: int

definition redeem_verify_params :: "invite \<Rightarrow> redeem_params \<Rightarrow> string option \<Rightarrow> verify_params" where
  "redeem_verify_params r p name =
     \<lparr>vp_sourceChannel = rp_sourceChannel p, vp_externalUserId = redeem_address p,
      vp_externalChatId = (case rp_externalChatId p of Some c \<Rightarrow> c | None \<Rightarrow> redeem_address p),
      vp_displayName = name, vp_username = rp_username p, vp_verifiedVia = Some ''invite'',
      vp_contactId = Some (iv_contactId r), vp_allowRevoked = True\<rparr>"

text \<open>The second part, after the mirror answered; a failed lookup is no answer. The mirror's own update follows.\<close>

definition activate_phase ::
    "redeem_env \<Rightarrow> invite \<Rightarrow> redeem_params \<Rightarrow> string option \<Rightarrow> gw_store \<Rightarrow> gw_store \<times> redeem_result" where
  "activate_phase E r p name S =
     (let (acl, res) = applyVerifiedChannelGatewayWrites (redeem_verify_params r p name) (rv_mirror E) (rv_freshContact E)
            (rv_freshChannel E) (rv_activateAt E) (gs_acl S);
          S' = S\<lparr>gs_acl := acl\<rparr>
      in case res of
           Some (Verified plan) \<Rightarrow>
             (S', Redeemed ((outcome_of p r (iv_contactId r)
                (case canonical_user p of Some u \<Rightarrow> u | None \<Rightarrow> redeem_address p))
                \<lparr>oc_displayName := nonempty name, oc_username := nonempty (rp_username p),
                 oc_sourceConversationId := nonempty (iv_sourceConversationId r)\<rparr>))
         | _ \<Rightarrow> (S', RedeemFailed InvalidToken))"

definition finishRedemption :: "redeem_env \<Rightarrow> invite \<Rightarrow> redeem_params \<Rightarrow> int \<Rightarrow> gw_store \<Rightarrow> gw_store \<times> redeem_result" where
  "finishRedemption E r p now S =
     (case claim_phase r p now S of
        (S1, Inl res) \<Rightarrow> (S1, res)
      | (S1, Inr name) \<Rightarrow> activate_phase E r p name (rv_between E S1))"

definition no_identity :: "redeem_params \<Rightarrow> bool" where
  "no_identity p \<longleftrightarrow> \<not> truthy (rp_externalUserId p) \<and> \<not> truthy (rp_externalChatId p)"

definition redeemInviteByCode ::
    "(string \<Rightarrow> string) \<Rightarrow> redeem_env \<Rightarrow> string \<Rightarrow> redeem_params \<Rightarrow> int \<Rightarrow> gw_store \<Rightarrow> gw_store \<times> redeem_result" where
  "redeemInviteByCode hashInviteCode E code p now S =
     (if no_identity p then (S, RedeemFailed MissingIdentity)
      else (let h = hashInviteCode code
            in case findInviteByCodeHash h (rp_sourceChannel p) (gs_invites S) of
                 Some r \<Rightarrow> finishRedemption E r p now S
               | None \<Rightarrow>
                   if findInviteByCodeHashAnyChannel h now (gs_invites S) \<noteq> None then (S, RedeemFailed ChannelMismatch)
                   else (S, NoMatch)))"

definition redeemInviteByToken ::
    "(string \<Rightarrow> string) \<Rightarrow> redeem_env \<Rightarrow> string \<Rightarrow> redeem_params \<Rightarrow> int \<Rightarrow> gw_store \<Rightarrow> gw_store \<times> redeem_result" where
  "redeemInviteByToken hashInviteToken E token p now S =
     (if no_identity p then (S, RedeemFailed MissingIdentity)
      else (case findInviteByTokenHash (hashInviteToken token) (gs_invites S) of
              Some r \<Rightarrow> finishRedemption E r p now S
            | None \<Rightarrow> (S, RedeemFailed InvalidToken)))"

section \<open>Voice invites\<close>

definition sweepExpiredVoiceInvites :: "invite list \<Rightarrow> int \<Rightarrow> invite_table \<Rightarrow> invite_table" where
  "sweepExpiredVoiceInvites cands now t = foldl (\<lambda>t r. fst (ensureInviteLive r now t)) t cands"

definition DEFAULT_VOICE_CODE_DIGITS :: nat where
  "DEFAULT_VOICE_CODE_DIGITS = 6"

text \<open>The invite's id, the invitee's and the guardian's name and the number of digits.\<close>

definition getActiveVoiceInviteForCaller ::
    "string \<Rightarrow> int \<Rightarrow> gw_store \<Rightarrow> gw_store \<times> (string \<times> string option \<times> string option \<times> nat) option" where
  "getActiveVoiceInviteForCaller caller now S =
     (let cands = findActiveVoiceInvites caller (gs_invites S);
          S' = S\<lparr>gs_invites := sweepExpiredVoiceInvites cands now (gs_invites S)\<rparr>
      in (S', map_option (\<lambda>r. (iv_id r, resolveInviteeName S' r None, or_trimmed (iv_guardianName r) None,
                case iv_voiceCodeDigits r of Some n \<Rightarrow> n | None \<Rightarrow> DEFAULT_VOICE_CODE_DIGITS))
              (find (\<lambda>r. iv_expiresAt r > now) cands)))"

text \<open>Every failure is the same: \<open>None\<close>.\<close>

definition redeemVoiceInvite ::
    "(string \<Rightarrow> string) \<Rightarrow> redeem_env \<Rightarrow> string \<Rightarrow> string \<Rightarrow> int \<Rightarrow> gw_store \<Rightarrow> gw_store \<times> redeem_result option" where
  "redeemVoiceInvite hashInviteCode E caller code now S =
     (if caller = [] then (S, None)
      else
        (let cands = findActiveVoiceInvites caller (gs_invites S); h = hashInviteCode code
         in case find (\<lambda>r. iv_voiceCodeHash r = Some h \<and> iv_expiresAt r > now \<and> iv_useCount r < iv_maxUses r) cands of
              None \<Rightarrow> (S\<lparr>gs_invites := sweepExpiredVoiceInvites cands now (gs_invites S)\<rparr>, None)
            | Some r \<Rightarrow>
                (let (S', res) = finishRedemption E r \<lparr>rp_sourceChannel = ''phone'', rp_externalUserId = Some caller,
                       rp_externalChatId = Some caller, rp_displayName = None, rp_username = None\<rparr> now S
                 in (S', case res of Redeemed oc \<Rightarrow> Some res | AlreadyMember oc \<Rightarrow> Some res | _ \<Rightarrow> None))))"

section \<open>The intercept of inbound text\<close>

definition INVITE_CODE_REDEMPTION_CHANNELS :: "string list" where
  "INVITE_CODE_REDEMPTION_CHANNELS = [''telegram'', ''whatsapp'', ''slack'', ''email'', ''discord'']"

datatype intercept_outcome = WasRedeemed | WasMember | WasFailed

definition invite_gate :: "trust_verdict option \<Rightarrow> bool" where
  "invite_gate ov =
     (case ov of
        None \<Rightarrow> False
      | Some v \<Rightarrow> \<not> tv_resolutionFailed v \<and> (tv_trustClass v = ''unknown'' \<or> tv_trustClass v = ''unverified_contact''))"

definition tryInviteRedemptionIntercept ::
    "(string \<Rightarrow> string) \<Rightarrow> (string \<Rightarrow> string) \<Rightarrow> redeem_env \<Rightarrow> string \<Rightarrow> command_intent option \<Rightarrow> trust_verdict option \<Rightarrow>
     redeem_params \<Rightarrow> int \<Rightarrow> gw_store \<Rightarrow> gw_store \<times> intercept_outcome option" where
  "tryInviteRedemptionIntercept hashCode hashToken E content intent verdict p now S =
     (if rp_sourceChannel p \<notin> set INVITE_CODE_REDEMPTION_CHANNELS then (S, None)
      else
        (let text = js_trim (if rp_sourceChannel p = ''email'' then extractEmailReplyBody content else content);
             token = extractInviteToken intent text;
             isCode = (token = None \<and> length text = 6 \<and> list_all is_digit text)
         in if token = None \<and> \<not> isCode then (S, None)
            else if \<not> invite_gate verdict then (S, None)
            else
              (let (S', res) = (case token of
                     Some tk \<Rightarrow> redeemInviteByToken hashToken E tk p now S
                   | None \<Rightarrow> redeemInviteByCode hashCode E text p now S)
               in (S', case res of
                         NoMatch \<Rightarrow> None
                       | RedeemFailed _ \<Rightarrow> Some WasFailed
                       | Redeemed _ \<Rightarrow> Some WasRedeemed
                       | AlreadyMember _ \<Rightarrow> Some WasMember))))"

end
