(* ===== verification/Invite_Safety.thy ===== *)
theory Invite_Safety
  imports Invites
begin

text \<open>
  What invites promise: the uses of an invite are bounded under every interleaving of what touches the table, and a
  redeemed invite makes the sender a trusted contact for the admission decision. Three evaluated runs show where the
  redemption's two halves and the mirror give something else.
\<close>

section \<open>An invite is used at most as often as it allows\<close>

text \<open>Everything that touches the invite table. A redemption reads its row and claims in one atomic part;
  \<open>StoreAcl\<close> is any change of the contact tables.\<close>

datatype store_event =
    StoreCreate create_invite_params int
  | StoreRevoke string int
  | StoreExpire string int
  | StoreRedeem string redeem_params int
  | StoreDelete string
  | StoreAcl gw_contacts

fun store_step :: "gw_store \<Rightarrow> store_event \<Rightarrow> gw_store" where
  "store_step S (StoreCreate p now) =
     (case createInvite p now (gs_invites S) of None \<Rightarrow> S | Some (t, _) \<Rightarrow> S\<lparr>gs_invites := t\<rparr>)"
| "store_step S (StoreRevoke i now) = S\<lparr>gs_invites := fst (revokeInvite i now (gs_invites S))\<rparr>"
| "store_step S (StoreExpire i now) = S\<lparr>gs_invites := fst (markInviteExpired i now (gs_invites S))\<rparr>"
| "store_step S (StoreRedeem i p now) =
     (case getInviteById i (gs_invites S) of None \<Rightarrow> S | Some r \<Rightarrow> fst (claim_phase r p now S))"
| "store_step S (StoreDelete c) = delete_contact_rows c S"
| "store_step S (StoreAcl acl) = S\<lparr>gs_acl := acl\<rparr>"

text \<open>The event takes a use of the invite.\<close>

fun takes_use :: "string \<Rightarrow> gw_store \<Rightarrow> store_event \<Rightarrow> bool" where
  "takes_use i S (StoreRedeem j p now) \<longleftrightarrow>
     i = j \<and> (case getInviteById i (gs_invites S) of
                None \<Rightarrow> False | Some r \<Rightarrow> (case snd (claim_phase r p now S) of Inl _ \<Rightarrow> False | Inr _ \<Rightarrow> True))"
| "takes_use i S _ \<longleftrightarrow> False"

fun creates :: "string \<Rightarrow> store_event \<Rightarrow> bool" where
  "creates i (StoreCreate p now) \<longleftrightarrow> cip_id p = i"
| "creates i _ \<longleftrightarrow> False"

definition uses_left :: "string \<Rightarrow> gw_store \<Rightarrow> nat" where
  "uses_left i S =
     (case getInviteById i (gs_invites S) of
        None \<Rightarrow> 0
      | Some r \<Rightarrow> if iv_status r = ''active'' then iv_maxUses r - iv_useCount r else 0)"

definition ids_unique :: "gw_store \<Rightarrow> bool" where
  "ids_unique S \<longleftrightarrow> distinct (map iv_id (gs_invites S))"

lemma update_invites_ids:
  "(\<And>r. iv_id (f r) = iv_id r) \<Longrightarrow> map iv_id (update_invites P f t) = map iv_id t"
  by (induction t) (auto simp: update_invites_def)

lemma get_update:
  "(\<And>r. iv_id (f r) = iv_id r) \<Longrightarrow>
     getInviteById i (update_invites P f t) = map_option (\<lambda>r. if P r then f r else r) (getInviteById i t)"
  by (induction t) (auto simp: update_invites_def getInviteById_def)

lemma get_found: "getInviteById i t = Some r \<Longrightarrow> r \<in> set t \<and> iv_id r = i"
  by (auto simp: getInviteById_def dest: find_SomeD)

lemma table_ops:
  "fst (revokeInvite i now t) = update_invites (active_id i) (\<lambda>r. r\<lparr>iv_status := ''revoked'', iv_updatedAt := now\<rparr>) t"
  "fst (markInviteExpired i now t) = update_invites (active_id i) (\<lambda>r. r\<lparr>iv_status := ''expired'', iv_updatedAt := now\<rparr>) t"
  by (simp_all add: revokeInvite_def markInviteExpired_def Let_def)

lemma active_id_found:
  assumes "getInviteById i t = Some r" "iv_status r = ''active''" shows "list_ex (active_id i) t"
  using get_found [OF assms(1)] assms(2) by (auto simp: list_ex_iff active_id_def)

lemma claim_phase_table:
  "gs_invites (fst (claim_phase r p now S)) \<in>
     {gs_invites S, update_invites (active_id (iv_id r)) (\<lambda>r. r\<lparr>iv_status := ''expired'', iv_updatedAt := now\<rparr>) (gs_invites S),
      update_invites (active_id (iv_id r)) (redeem_set (rp_externalUserId p) (rp_externalChatId p) now) (gs_invites S)}"
  by (auto simp: claim_phase_def ensureInviteLive_def recordInviteRedemption_def table_ops Let_def split: option.splits prod.splits if_splits)

lemma claim_phase_won:
  assumes "claim_phase r p now S = (S', Inr name)"
  shows "iv_status r = ''active''" "now < iv_expiresAt r" "iv_useCount r < iv_maxUses r" "iv_sourceChannel r = rp_sourceChannel p"
    "S' = S\<lparr>gs_invites := update_invites (active_id (iv_id r)) (redeem_set (rp_externalUserId p) (rp_externalChatId p) now) (gs_invites S)\<rparr>"
    "case existing_member p r (gs_acl S) of Some h \<Rightarrow> cc_status h \<noteq> ''blocked'' | None \<Rightarrow> True"
    "name = resolveInviteeName S r (rp_displayName p)"
  using assms
  by (auto simp: claim_phase_def ensureInviteLive_def recordInviteRedemption_def Let_def split: option.splits prod.splits if_splits)

lemma claim_phase_lost:
  assumes "claim_phase r p now S = (S', Inl res)" "getInviteById (iv_id r) (gs_invites S) = Some r"
  shows "gs_invites S' = gs_invites S \<or>
    iv_status r = ''active'' \<and> gs_invites S' = update_invites (active_id (iv_id r)) (\<lambda>r. r\<lparr>iv_status := ''expired'', iv_updatedAt := now\<rparr>) (gs_invites S)"
  using assms active_id_found [OF assms(2)]
  by (auto simp: claim_phase_def ensureInviteLive_def recordInviteRedemption_def table_ops Let_def split: option.splits prod.splits if_splits)

lemma claim_phase_ids: "map iv_id (gs_invites (fst (claim_phase r p now S))) = map iv_id (gs_invites S)"
  using claim_phase_table [of r p now S] by (elim insertE emptyE) (simp_all add: update_invites_ids redeem_set_def)

interpretation invites: invariant_machine store_step ids_unique
proof
  fix S e assume u: "ids_unique S"
  have d: "distinct (map iv_id (filter P (gs_invites S)))" for P
    using u by (auto simp: ids_unique_def intro: distinct_map_filter)
  show "ids_unique (store_step S e)"
  proof (cases e)
    case (StoreRedeem i p now)
    then show ?thesis using u by (simp add: ids_unique_def claim_phase_ids split: option.split)
  qed (use u d in \<open>auto simp: ids_unique_def createInvite_def Let_def table_ops update_invites_ids delete_contact_rows_def
      split: option.splits\<close>)
qed

lemma get_filter:
  "distinct (map iv_id t) \<Longrightarrow> getInviteById i (filter P t) = (case getInviteById i t of Some r \<Rightarrow> if P r then Some r else None | None \<Rightarrow> None)"
proof (induction t)
  case (Cons r t)
  have "getInviteById i t = None" if "iv_id r = i"
    using Cons.prems that unfolding getInviteById_def find_None_iff by (metis distinct.simps(2) image_eqI list.set_map list.simps(9))
  then show ?case using Cons by (cases "iv_id r = i") (auto simp: getInviteById_def split: option.splits)
qed (simp add: getInviteById_def)

lemma get_append: "getInviteById i (t @ [r]) = (case getInviteById i t of Some x \<Rightarrow> Some x | None \<Rightarrow> if iv_id r = i then Some r else None)"
  by (induction t) (auto simp: getInviteById_def)

lemma uses_left_step:
  assumes u: "ids_unique S" and new: "\<not> creates i e"
  shows "uses_left i (store_step S e) + (if takes_use i S e then 1 else 0) \<le> uses_left i S"
proof (cases e)
  case (StoreCreate p now)
  then show ?thesis using new by (auto simp: uses_left_def createInvite_def Let_def get_append split: option.splits)
next
  case (StoreRevoke j now)
  then show ?thesis by (auto simp: uses_left_def table_ops get_update active_id_def split: option.splits)
next
  case (StoreExpire j now)
  then show ?thesis by (auto simp: uses_left_def table_ops get_update active_id_def split: option.splits)
next
  case (StoreDelete c)
  then show ?thesis using u by (auto simp: uses_left_def delete_contact_rows_def get_filter ids_unique_def split: option.splits)
next
  case (StoreAcl acl)
  then show ?thesis by (simp add: uses_left_def)
next
  case (StoreRedeem j p now)
  show ?thesis
  proof (cases "getInviteById j (gs_invites S)")
    case None
    then show ?thesis using StoreRedeem by (auto simp: uses_left_def)
  next
    case (Some r)
    then have id: "iv_id r = j" using get_found by blast
    obtain S' res where c: "claim_phase r p now S = (S', res)" by fastforce
    show ?thesis
    proof (cases res)
      case (Inl x)
      note lost = claim_phase_lost [OF c [unfolded Inl]]
      show ?thesis using lost Some id StoreRedeem c Inl
        by (auto simp: uses_left_def get_update active_id_def split: option.splits)
    next
      case (Inr name)
      note won = claim_phase_won [OF c [unfolded Inr]]
      have g: "getInviteById i (gs_invites S') = map_option (\<lambda>x. if active_id j x
          then redeem_set (rp_externalUserId p) (rp_externalChatId p) now x else x) (getInviteById i (gs_invites S))"
        unfolding won(5) id by (simp add: get_update redeem_set_def)
      show ?thesis using Some won(1,3) StoreRedeem c Inr g id get_found
        by (auto simp: uses_left_def active_id_def redeem_set_def split: option.splits)
    qed
  qed
qed

text \<open>C6: However creations, redemptions, revocations, expiries, deletions of contacts and changes of the contact
  tables are interleaved, an invite grants at most the uses it has left, and none once it is revoked, expired or used
  up.\<close>

theorem invite_uses_bounded:
  assumes "ids_unique S" and "list_all (\<lambda>e. \<not> creates i e) es"
  shows "count_wins store_step (takes_use i) S es \<le>
    (case getInviteById i (gs_invites S) of
       None \<Rightarrow> 0 | Some r \<Rightarrow> if iv_status r = ''active'' then iv_maxUses r - iv_useCount r else 0)"
proof -
  have "count_wins store_step (takes_use i) S es \<le> uses_left i S"
    using assms
  proof (induction es arbitrary: S)
    case (Cons e es)
    then have "count_wins store_step (takes_use i) (store_step S e) es \<le> uses_left i (store_step S e)"
      using invites.inv_step by simp
    then show ?case using uses_left_step [OF Cons.prems(1), of i e] Cons.prems(2) by (auto split: if_splits)
  qed simp
  then show ?thesis by (simp add: uses_left_def)
qed

section \<open>What a redemption gives\<close>

lemma reassign_moves:
  assumes "h \<in> set (gwContactChannels (fst (reassignChannelOwner ty addr to name now s)))" "by_key ty addr h" "store_ok s"
  shows "cc_contactId h = to"
proof -
  let ?s1 = "ensureContactRow to name now s"
  have ch: "gwContactChannels ?s1 = gwContactChannels s" using ensure_kept(5) [OF assms(3)] .
  show ?thesis
  proof (cases "getGatewayChannelByKey ty addr ?s1")
    case None
    then have "\<not> by_key ty addr x" if "x \<in> set (gwContactChannels ?s1)" for x
      using that by (auto simp: getGatewayChannelByKey_def find_None_iff)
    then show ?thesis using assms(1,2) None by (simp add: reassignChannelOwner_def Let_def)
  next
    case (Some e)
    have one: "x = e" if "x \<in> set (gwContactChannels s)" "by_key ty addr x" for x
      using that key_found [OF Some] ch store_okD(2) [OF assms(3)] by (auto simp: by_key_iff distinct_map inj_on_def)
    show ?thesis
    proof (cases "cc_contactId e = to")
      case True
      then show ?thesis using assms(1,2) one Some ch by (auto simp: reassignChannelOwner_def Let_def)
    next
      case False
      then have "fst (reassignChannelOwner ty addr to name now s) =
          update_rows (by_key ty addr) (\<lambda>h. h\<lparr>cc_contactId := to, cc_updatedAt := Some now\<rparr>) ?s1"
        using Some by (simp add: reassignChannelOwner_def Let_def)
      then have "h \<in> (\<lambda>x. if by_key ty addr x then x\<lparr>cc_contactId := to, cc_updatedAt := Some now\<rparr> else x) ` set (gwContactChannels ?s1)"
        using assms(1) by (simp only: update_rows_channels set_map)
      then obtain x where "h = (if by_key ty addr x then x\<lparr>cc_contactId := to, cc_updatedAt := Some now\<rparr> else x)"
        by (elim imageE)
      then show ?thesis using assms(2) by (cases "by_key ty addr x") simp_all
    qed
  qed
qed

lemma write_verified_row:
  assumes ok: "store_ok s" and w: "writeVerifiedGatewayChannel w s = (s', Some True)"
    and m: "mirror_agrees (vw_channelId w) (vw_type w) (vw_address w) s"
    and own: "\<And>h. h \<in> set (gwContactChannels s) \<Longrightarrow> by_key (vw_type w) (vw_address w) h \<Longrightarrow> P (cc_contactId h)"
    and new: "P (vw_contactId w)"
  shows "\<exists>h \<in> set (gwContactChannels s'). by_key (vw_type w) (vw_address w) h \<and> cc_status h = ''active'' \<and>
    cc_policy h = ''allow'' \<and> P (cc_contactId h)"
proof -
  let ?ok = "reactivatable (vw_allowRevoked w)"
  let ?id = "\<lambda>h. cc_id h = vw_channelId w \<and> ?ok h" and ?key = "\<lambda>h. by_key (vw_type w) (vw_address w) h \<and> ?ok h"
  have up: "\<exists>h \<in> set (gwContactChannels s'). by_key (vw_type w) (vw_address w) h \<and> cc_status h = ''active'' \<and>
      cc_policy h = ''allow'' \<and> P (cc_contactId h)"
    if "s' = update_rows Q (verified_set w) s" "x \<in> set (gwContactChannels s)" "Q x" "by_key (vw_type w) (vw_address w) x" for Q x
    using that own [OF that(2,4)]
    by (intro bexI [of _ "verified_set w x"]) (auto simp: update_rows_channels by_key_def nocase_eq_def)
  consider (id) x where "x \<in> set (gwContactChannels s)" "?id x" | (key) x where "\<not> list_ex ?id (gwContactChannels s)"
      "x \<in> set (gwContactChannels s)" "?key x" | (new) "\<not> list_ex ?id (gwContactChannels s)" "\<not> list_ex ?key (gwContactChannels s)"
    by (auto simp: list_ex_iff)
  then show ?thesis
  proof cases
    case (id x)
    then have "list_ex ?id (gwContactChannels s)" by (auto simp: list_ex_iff)
    then have "s' = update_rows ?id (verified_set w) s"
      using w by (auto simp: writeVerifiedGatewayChannel_def Let_def update_rows_checked_def split: if_splits option.splits)
    then show ?thesis using up [OF _ id(1)] id(2) id(1) m by (auto simp: mirror_agrees_def list_all_iff)
  next
    case (key x)
    then have "list_ex ?key (gwContactChannels s)" by (auto simp: list_ex_iff)
    then have "s' = update_rows ?key (verified_set w) s"
      using w key(1) by (auto simp: writeVerifiedGatewayChannel_def Let_def update_rows_checked_def split: if_splits option.splits)
    then show ?thesis using up [OF _ key(2)] key(3) by auto
  next
    case new
    then show ?thesis using w assms(5)
      by (auto simp: writeVerifiedGatewayChannel_def Let_def insert_or_skip_def by_key_def nocase_eq_def split: if_splits prod.splits)
  qed
qed

text \<open>Contacts are only added by these writes, as plain ones.\<close>

lemma ensure_roles: "c \<in> set (gwContacts (ensureContactRow i n now s)) \<Longrightarrow> c \<in> set (gwContacts s) \<or> ct_role c = ''contact''"
  by (auto simp: ensureContactRow_def split: if_splits)

lemma reassign_roles:
  "c \<in> set (gwContacts (fst (reassignChannelOwner ty addr to n now s))) \<Longrightarrow> c \<in> set (gwContacts s) \<or> ct_role c = ''contact''"
  using ensure_roles [of c to n now s] by (auto simp: reassignChannelOwner_def Let_def split: option.splits if_splits)

lemma write_roles:
  "c \<in> set (gwContacts (fst (writeVerifiedGatewayChannel w s))) \<Longrightarrow> c \<in> set (gwContacts s) \<or> ct_role c = ''contact''"
  using ensure_roles [of c "vw_contactId w" "vw_address w" "vw_now w" s]
  by (auto simp: writeVerifiedGatewayChannel_def Let_def insert_or_skip_def update_rows_checked_def split: if_splits option.splits prod.splits)

lemma apply_roles:
  "c \<in> set (gwContacts (fst (applyVerifiedChannelGatewayWrites p mirror fc fh now s))) \<Longrightarrow> c \<in> set (gwContacts s) \<or> ct_role c = ''contact''"
  using write_roles reassign_roles ensure_roles
  by (fastforce simp: applyVerifiedChannelGatewayWrites_def Let_def split_beta split: if_splits option.splits prod.splits)

lemma apply_verified_row:
  assumes ty: "vp_sourceChannel p = ty" and addr: "canonical_address ty (vp_externalUserId p) = addr"
    and ok: "store_ok s" and t: "vp_contactId p = Some t" "t \<noteq> []"
    and m: "case mirror of Some (i, owner) \<Rightarrow> owner \<noteq> t \<and> mirror_agrees i ty addr s | None \<Rightarrow> mirror_agrees fh ty addr s"
    and r: "applyVerifiedChannelGatewayWrites p mirror fc fh now s = (s', Some (Verified plan))"
  shows "\<exists>h \<in> set (gwContactChannels s'). by_key ty addr h \<and> cc_status h = ''active'' \<and> cc_policy h = ''allow'' \<and> cc_contactId h = t"
proof -
  have ag: "mirror_agrees i ty addr (fst (reassignChannelOwner ty addr t n now s))" if "mirror_agrees i ty addr s" for i n
    using frame_all [OF reassign_frame(2-4), of "\<lambda>k j st. j = i \<longrightarrow> k = (ty, to_lower addr)"] that
    by (simp add: by_key_iff mirror_agrees_def)
  have ok1: "store_ok (fst (reassignChannelOwner ty addr t n now s))" for n
    using reassign_kept [OF ok t(2)] by (simp add: keeps_def)
  note moves = reassign_moves [OF _ _ ok]
  have key: "\<exists>h \<in> set (gwContactChannels (fst (writeVerifiedGatewayChannel w (fst (reassignChannelOwner ty addr t n now s))))).
      by_key ty addr h \<and> cc_status h = ''active'' \<and> cc_policy h = ''allow'' \<and> cc_contactId h = t"
    if "snd (writeVerifiedGatewayChannel w (fst (reassignChannelOwner ty addr t n now s))) = Some True" "vw_type w = ty"
      "vw_address w = addr" "vw_contactId w = t" "mirror_agrees (vw_channelId w) ty addr s" for w n
    using write_verified_row [OF ok1 prod_eqI [of "writeVerifiedGatewayChannel w (fst (reassignChannelOwner ty addr t n now s))"
        "(_, Some True)"], where P = "\<lambda>x. x = t"] that ag moves by simp
  show ?thesis
  proof (cases mirror)
    case None
    then show ?thesis using r t m
      by (auto simp: applyVerifiedChannelGatewayWrites_def Let_def split_beta truthy_def ty addr
          intro!: key split: if_splits option.splits prod.splits)
  next
    case (Some x)
    then show ?thesis using r t m
      by (cases x) (auto simp: applyVerifiedChannelGatewayWrites_def Let_def split_beta truthy_def ty addr
          intro!: key split: if_splits option.splits prod.splits)
  qed
qed

lemma canonical_sender_address:
  assumes "canonicalSenderIdFor ch (Some a) = Some i"
  shows "canonical_address ch a = i"
  using assms
  by (auto simp: canonicalSenderIdFor_def canonical_address_def canonicalizeInboundIdentity_def canonicalizeIdentityAs_def
      Let_def split: if_splits option.splits identity_kind.splits)

lemma redeemed_parts:
  assumes "finishRedemption E r p now S = (S', Redeemed oc)"
  obtains S1 name plan where "claim_phase r p now S = (S1, Inr name)"
    "applyVerifiedChannelGatewayWrites (redeem_verify_params r p name) (rv_mirror E) (rv_freshContact E) (rv_freshChannel E)
       (rv_activateAt E) (gs_acl (rv_between E S1)) = (gs_acl S', Some (Verified plan))"
    "gs_invites S' = gs_invites (rv_between E S1)"
proof -
  obtain S1 x where c: "claim_phase r p now S = (S1, x)" by fastforce
  show thesis
  proof (cases x)
    case (Inl res)
    have "res \<noteq> Redeemed oc" using c Inl
      by (auto simp: claim_phase_def Let_def split: option.splits prod.splits if_splits)
    then show ?thesis using assms c Inl by (simp add: finishRedemption_def)
  next
    case (Inr name)
    then show ?thesis using assms c that
      by (auto simp: finishRedemption_def activate_phase_def Let_def split: option.splits prod.splits verified_result.splits)
  qed
qed

text \<open>C5: Redeeming an invite gives what it says. When the answer is that the invite was redeemed, it was active,
  unexpired, meant for this channel and had a use left, that use is recorded, and in the tables the redemption leaves,
  a message of the sender reaches the agent exactly under the floors a trusted contact meets, unless the sender failed
  channel authentication. This is for a sender with a user id on a channel that has a floor, other than the plugin
  channel; for an invite to a contact of role contact (a guardian's would rank higher, and nothing refuses such an
  invite); and for tables that are well formed after what others write while the mirror is asked, and ids that are not
  empty. The mirror's
  channel must be the sender's in the gateway's table or unknown there, and the mirror must not already list it under
  the invite's contact: then the gateway's row is left with its owner.\<close>

theorem redeemed_sender_is_trusted:
  assumes red: "finishRedemption E r p now S = (S', Redeemed oc)"
    and row: "getInviteById (iv_id r) (gs_invites S) = Some r" "iv_contactId r \<noteq> []"
    and user: "rp_externalUserId p = Some a" "a \<noteq> []" "rp_sourceChannel p = ch" "canonicalSenderIdFor ch (Some a) = Some i"
    and ch: "ch \<in> set CHANNEL_IDS" "\<not> isAdmissionPolicyExemptChannel ch" "ch \<noteq> ''plugin''"
    and tables: "store_ok (gs_acl (rv_between E (fst (claim_phase r p now S))))"
    and role: "list_all (\<lambda>c. ct_id c = iv_contactId r \<longrightarrow> ct_role c = ''contact'')
        (gwContacts (gs_acl (rv_between E (fst (claim_phase r p now S)))))"
    and auth: "auth \<noteq> Some False"
    and fresh: "rv_freshContact E \<noteq> []" "rv_freshChannel E \<noteq> []"
    and mirror: "case rv_mirror E of
        Some (j, owner) \<Rightarrow> j \<noteq> [] \<and> owner \<noteq> [] \<and> owner \<noteq> iv_contactId r \<and>
          mirror_agrees j ch i (gs_acl (rv_between E (fst (claim_phase r p now S))))
      | None \<Rightarrow> mirror_agrees (rv_freshChannel E) ch i (gs_acl (rv_between E (fst (claim_phase r p now S))))"
  shows "iv_status r = ''active'' \<and> now < iv_expiresAt r \<and> iv_useCount r < iv_maxUses r \<and> iv_sourceChannel r = ch \<and>
    getInviteById (iv_id r) (gs_invites (fst (claim_phase r p now S))) =
      Some (redeem_set (Some a) (rp_externalChatId p) now r) \<and>
    inbound_admitted True policies R (gs_acl S') cache
      \<lparr>im_channel = ch, im_actor = Some a, im_senderAuthenticated = auth, im_isBot = isBot, im_isCallback = isCallback\<rparr> challenge =
    (ADMISSION_FLOOR (cache_policy policies ch) \<le> 3)"
proof -
  obtain S1 name plan where c: "claim_phase r p now S = (S1, Inr name)"
    and w: "applyVerifiedChannelGatewayWrites (redeem_verify_params r p name) (rv_mirror E) (rv_freshContact E) (rv_freshChannel E)
       (rv_activateAt E) (gs_acl (rv_between E S1)) = (gs_acl S', Some (Verified plan))"
    using redeemed_parts [OF red] by metis
  note won = claim_phase_won [OF c]
  let ?p = "redeem_verify_params r p name" and ?s = "gs_acl (rv_between E S1)"
  have S1: "fst (claim_phase r p now S) = S1" by (simp add: c)
  have addr: "canonical_address ch (vp_externalUserId ?p) = i"
    using user canonical_sender_address by (simp add: redeem_verify_params_def redeem_address_def)
  have ty: "vp_sourceChannel ?p = ch" "vp_contactId ?p = Some (iv_contactId r)"
    using user by (simp_all add: redeem_verify_params_def)
  have ok: "store_ok ?s" using tables S1 by simp
  have "keeps ?s (gs_acl S')"
    using apply_verified_kept [OF ok fresh, of ?p "rv_mirror E" "rv_activateAt E"] row(2) mirror w ty addr S1
    by (auto split: option.splits)
  then have ok': "store_ok (gs_acl S')" by (simp add: keeps_def)
  obtain h where h: "h \<in> set (gwContactChannels (gs_acl S'))" "by_key ch i h" "cc_status h = ''active''" "cc_policy h = ''allow''"
      "cc_contactId h = iv_contactId r"
    using apply_verified_row [OF ty(1) addr ok ty(2) row(2) _ w] mirror S1 by (auto split: option.splits)
  have "list_all (\<lambda>c. ct_id c = cc_contactId h \<longrightarrow> ct_role c = ''contact'') (gwContacts (gs_acl S'))"
    using apply_roles [of _ ?p "rv_mirror E" "rv_freshContact E" "rv_freshChannel E" "rv_activateAt E" ?s] role w S1 h(5)
    by (fastforce simp: list_all_iff)
  from contact_row_standing [OF ok' h(1,2) _ _ h(4) this] h(3)
  have st: "sender_standing lost (gs_acl S') ch i = Some 3" for lost by simp
  have pl: "pluginMemberIdentity ch a = (ch, a)" using ch(3) by (simp add: pluginMemberIdentity_def)
  have "tables_ok (gs_acl S')" using ok' by (simp add: store_ok_def)
  from admission_by_standing [OF this ch(1,2) pl user(2,4)] st
  have adm: "inbound_admitted True policies R (gs_acl S') cache
      \<lparr>im_channel = ch, im_actor = Some a, im_senderAuthenticated = auth, im_isBot = isBot, im_isCallback = isCallback\<rparr> challenge =
    (ADMISSION_FLOOR (cache_policy policies ch) \<le> 3)" by (simp add: admission_authenticated [OF auth])
  have "getInviteById (iv_id r) (gs_invites S1) = Some (redeem_set (Some a) (rp_externalChatId p) now r)"
    unfolding won(5) using row(1) won(1) user(1) by (simp add: get_update redeem_set_def active_id_def)
  then show ?thesis using won(1-4) adm user(3) S1 by simp
qed

definition invite_demo :: invite where
  "invite_demo =
     \<lparr>iv_id = ''i'', iv_sourceChannel = ''telegram'', iv_inviteCodeHash = ''H123456'', iv_tokenHash = None,
      iv_voiceCodeHash = None, iv_voiceCodeDigits = None, iv_expectedExternalUserId = None, iv_friendName = None,
      iv_guardianName = None, iv_sourceConversationId = None, iv_note = None, iv_maxUses = 1, iv_useCount = 0,
      iv_expiresAt = 100, iv_status = ''active'', iv_redeemedByExternalUserId = None,
      iv_redeemedByExternalChatId = None, iv_redeemedAt = None, iv_contactId = ''b'', iv_createdAt = 1, iv_updatedAt = 1\<rparr>"

definition invite_store :: gw_store where
  "invite_store = \<lparr>gs_acl = admission_demo, gs_invites = [invite_demo]\<rparr>"

definition redeem_demo_env :: redeem_env where
  "redeem_demo_env = \<lparr>rv_between = id, rv_mirror = None, rv_freshContact = ''n'', rv_freshChannel = ''m'', rv_activateAt = 9\<rparr>"

definition redeem_demo :: redeem_params where
  "redeem_demo = \<lparr>rp_sourceChannel = ''telegram'', rp_externalUserId = Some ''99'', rp_externalChatId = Some ''99'',
     rp_displayName = None, rp_username = None\<rparr>"

theorem redeemed_sender_is_trusted_witness:
  "inbound_admitted True [(''telegram'', TrustedContacts)] admission_env
     (gs_acl (fst (finishRedemption redeem_demo_env invite_demo redeem_demo 8 invite_store))) None
     (admission_msg ''telegram'' ''99'') False"
proof -
  let ?R = "finishRedemption redeem_demo_env invite_demo redeem_demo 8 invite_store"
  have "(case snd ?R of Redeemed _ \<Rightarrow> True | _ \<Rightarrow> False)" by code_simp
  then obtain oc where red: "?R = (fst ?R, Redeemed oc)" by (cases "snd ?R") (auto simp: prod_eq_iff)
  have h: "getInviteById (iv_id invite_demo) (gs_invites invite_store) = Some invite_demo" "iv_contactId invite_demo \<noteq> []"
    "rp_externalUserId redeem_demo = Some ''99''" "''99'' \<noteq> ''''" "rp_sourceChannel redeem_demo = ''telegram''"
    "canonicalSenderIdFor ''telegram'' (Some ''99'') = Some ''99''"
    "''telegram'' \<in> set CHANNEL_IDS" "\<not> isAdmissionPolicyExemptChannel ''telegram''" "''telegram'' \<noteq> ''plugin''"
    "store_ok (gs_acl (rv_between redeem_demo_env (fst (claim_phase invite_demo redeem_demo 8 invite_store))))"
    "list_all (\<lambda>c. ct_id c = iv_contactId invite_demo \<longrightarrow> ct_role c = ''contact'')
       (gwContacts (gs_acl (rv_between redeem_demo_env (fst (claim_phase invite_demo redeem_demo 8 invite_store)))))"
    "rv_freshContact redeem_demo_env \<noteq> []" "rv_freshChannel redeem_demo_env \<noteq> []"
    "case rv_mirror redeem_demo_env of
        Some (j, owner) \<Rightarrow> j \<noteq> [] \<and> owner \<noteq> [] \<and> owner \<noteq> iv_contactId invite_demo \<and>
          mirror_agrees j ''telegram'' ''99'' (gs_acl (rv_between redeem_demo_env (fst (claim_phase invite_demo redeem_demo 8 invite_store))))
      | None \<Rightarrow> mirror_agrees (rv_freshChannel redeem_demo_env) ''telegram'' ''99''
          (gs_acl (rv_between redeem_demo_env (fst (claim_phase invite_demo redeem_demo 8 invite_store))))"
    by code_simp+
  have "cache_policy [(''telegram'', TrustedContacts)] ''telegram'' = TrustedContacts" by code_simp
  then show ?thesis
    using redeemed_sender_is_trusted [OF red h(1-11) _ h(12-14), where auth = None and policies = "[(''telegram'', TrustedContacts)]" and R = admission_env
      and cache = None and isBot = False and isCallback = False and challenge = False]
    by (simp add: admission_msg_def)
qed

theorem invite_uses_bounded_witness:
  "count_wins store_step (takes_use ''i'') invite_store
     [StoreRedeem ''i'' redeem_demo 8, StoreRedeem ''i'' redeem_demo 9, StoreRevoke ''i'' 10] \<le> 1"
proof -
  have "ids_unique invite_store" "list_all (\<lambda>e. \<not> creates ''i'' e)
      [StoreRedeem ''i'' redeem_demo 8, StoreRedeem ''i'' redeem_demo 9, StoreRevoke ''i'' 10]" by code_simp+
  from invite_uses_bounded [OF this] show ?thesis
    by (simp add: invite_store_def getInviteById_def invite_demo_def)
qed

text \<open>When the mirror already lists the channel under the invite's contact, the gateway's row is activated but stays
  with another contact.\<close>

lemma stale_mirror_keeps_owner:
  "let E = redeem_demo_env\<lparr>rv_mirror := Some (''x'', ''b'')\<rparr>;
       S = invite_store\<lparr>gs_acl := update_rows (\<lambda>h. cc_id h = ''t'') (\<lambda>h. h\<lparr>cc_contactId := ''g'', cc_address := ''99''\<rparr>) admission_demo\<rparr>;
       (S', res) = finishRedemption E invite_demo redeem_demo 8 S
   in (case res of Redeemed oc \<Rightarrow> oc_contactId oc = ''b'' | _ \<Rightarrow> False) \<and>
      map_option cc_contactId (getGatewayChannelByKey ''telegram'' ''99'' (gs_acl S')) = Some ''g''"
  by code_simp

text \<open>A contact deleted while the redemption waits for the mirror comes back with the active channel.\<close>

lemma deleted_contact_returns:
  "let E = redeem_demo_env\<lparr>rv_between := delete_contact_rows ''b''\<rparr>;
       (S', res) = finishRedemption E invite_demo redeem_demo 8 invite_store
   in (case res of Redeemed oc \<Rightarrow> True | _ \<Rightarrow> False) \<and> getContact ''b'' (gs_acl S') \<noteq> None \<and>
      map_option cc_status (getGatewayChannelByKey ''telegram'' ''99'' (gs_acl S')) = Some ''active''"
  by code_simp

text \<open>A voice invite bound to the guardian's own number moves the guardian's active channel to the invited contact.\<close>

lemma voice_invite_takes_guardian_channel:
  "let S = invite_store\<lparr>gs_invites := [invite_demo\<lparr>iv_sourceChannel := ''phone'', iv_voiceCodeHash := Some ''123456'',
             iv_expectedExternalUserId := Some ''+15551234567''\<rparr>],
           gs_acl := update_rows (\<lambda>h. cc_id h = ''h'') (\<lambda>h. h\<lparr>cc_address := ''+15551234567''\<rparr>) admission_demo\<rparr>;
       (S', res) = redeemVoiceInvite id redeem_demo_env ''+15551234567'' ''123456'' 8 S
   in res \<noteq> None \<and> sender_standing False (gs_acl S) ''phone'' ''+15551234567'' = Some 4 \<and>
      sender_standing False (gs_acl S') ''phone'' ''+15551234567'' = Some 3"
  by code_simp

end
