(* ===== verification/Request_Safety.thy ===== *)
theory Request_Safety
  imports Guardian_Requests Invite_Safety
begin

text \<open>
  Guardian requests: a request is decided once in every interleaving of the store's statements, a decision and its
  access outcome land together, and the outcome is what the inbound admission decision then sees.
\<close>

section \<open>What a verified write gives without an invite\<close>

lemma apply_verified_active:
  assumes ty: "vp_sourceChannel p = ty" and addr: "canonical_address ty (vp_externalUserId p) = addr"
    and ok: "store_ok s" and t: "vp_contactId p \<noteq> Some []"
    and m: "case mirror of Some (i, owner) \<Rightarrow> mirror_agrees i ty addr s | None \<Rightarrow> mirror_agrees fh ty addr s"
    and r: "applyVerifiedChannelGatewayWrites p mirror fc fh now s = (s', Some (Verified plan))"
  shows "\<exists>h \<in> set (gwContactChannels s'). by_key ty addr h \<and> cc_status h = ''active'' \<and> cc_policy h = ''allow''"
proof -
  have wr: "\<exists>h \<in> set (gwContactChannels (fst (writeVerifiedGatewayChannel w s1))). by_key ty addr h \<and>
      cc_status h = ''active'' \<and> cc_policy h = ''allow''"
    if "snd (writeVerifiedGatewayChannel w s1) = Some True" "store_ok s1" "vw_type w = ty" "vw_address w = addr"
      "mirror_agrees (vw_channelId w) ty addr s1" for w s1
    using write_verified_row [OF that(2) prod_eqI [of "writeVerifiedGatewayChannel w s1" "(_, Some True)"],
        where P = "\<lambda>_. True"] that by simp
  have re: "store_ok (fst (reassignChannelOwner ty addr to n now s)) \<and>
      (mirror_agrees i ty addr s \<longrightarrow> mirror_agrees i ty addr (fst (reassignChannelOwner ty addr to n now s)))"
    if "to \<noteq> []" for i to n
    using reassign_kept [OF ok that] frame_all [OF reassign_frame(2-4), of "\<lambda>k j st. j = i \<longrightarrow> k = (ty, to_lower addr)"]
    by (simp add: by_key_iff mirror_agrees_def keeps_def)
  have en: "store_ok (ensureContactRow c n now s) \<and> mirror_agrees i ty addr (ensureContactRow c n now s) = mirror_agrees i ty addr s"
    for c n i using keeps_ensure [OF ok] ensure_kept(5) [OF ok] by (simp add: keeps_def mirror_agrees_def)
  show ?thesis
  proof (cases mirror)
    case None
    then show ?thesis using r t m re en
      by (cases "vp_contactId p")
         (auto simp: applyVerifiedChannelGatewayWrites_def Let_def split_beta truthy_def ty addr
           intro!: wr split: if_splits option.splits prod.splits)
  next
    case (Some x)
    then show ?thesis using r t m re ok
      by (cases x; cases "vp_contactId p")
         (auto simp: applyVerifiedChannelGatewayWrites_def Let_def split_beta truthy_def ty addr
           intro!: wr split: if_splits option.splits prod.splits)
  qed
qed

text \<open>An active, allowed row ranks three or more, unless its contact is a guardian without a principal.\<close>

definition guardians_known :: "gw_contacts \<Rightarrow> bool" where
  "guardians_known s \<longleftrightarrow> list_all (\<lambda>c. ct_role c = ''guardian'' \<longrightarrow> truthy (ct_principalId c)) (gwContacts s)"

lemma active_row_standing:
  assumes ok: "store_ok s" and known: "guardians_known s"
    and h: "h \<in> set (gwContactChannels s)" "by_key ty i h" "cc_status h = ''active''" "cc_policy h = ''allow''"
  shows "\<exists>r. sender_standing lost s ty i = Some r \<and> 3 \<le> r"
proof -
  obtain c where c: "c \<in> set (gwContacts s)" "sender_standing lost s ty i = row_standing s ty c h"
    using sender_row_standing [OF ok h(1,2)] by metis
  then have "ct_role c = ''guardian'' \<longrightarrow> truthy (ct_principalId c)" using known by (simp add: guardians_known_def list_all_iff)
  then show ?thesis using h(3,4) c(2) by (auto simp: row_standing_def)
qed

lemma guardians_stay_known:
  "guardians_known s \<Longrightarrow> guardians_known (fst (applyVerifiedChannelGatewayWrites p mirror fc fh now s))"
  using apply_roles [of _ p mirror fc fh now s] by (fastforce simp: guardians_known_def list_all_iff)

section \<open>A request is decided once\<close>

text \<open>What handlers do to the requests. \<open>OtherWrite\<close> is any change of the other tables of the gateway.\<close>

datatype request_event =
    EvCreate create_request_params string "nat \<Rightarrow> string" int
  | EvUpdate string request_patch int
  | EvDecide decide_env decide_params int
  | EvExpire string int
  | EvExpireInteractionBound int
  | EvCreateDelivery create_delivery_params string int
  | EvUpdateDelivery string "string option" "string option" int
  | OtherWrite "gw_state \<Rightarrow> gw_state"

definition on_requests :: "(guardian_store \<Rightarrow> guardian_store) \<Rightarrow> service_state \<Rightarrow> service_state" where
  "on_requests f S = S\<lparr>ss_requests := f (ss_requests S)\<rparr>"

definition ok_or :: "guardian_store \<Rightarrow> 'e + guardian_store \<times> 'a \<Rightarrow> guardian_store" where
  "ok_or Q r = (case r of Inl _ \<Rightarrow> Q | Inr (Q', _) \<Rightarrow> Q')"

fun request_step :: "service_state \<Rightarrow> request_event \<Rightarrow> service_state" where
  "request_step S (EvCreate p fresh uuids now) = on_requests (\<lambda>Q. ok_or Q (createGuardianRequest p fresh uuids now Q)) S"
| "request_step S (EvUpdate i u now) = on_requests (\<lambda>Q. fst (updateGuardianRequest i u now Q)) S"
| "request_step S (EvDecide E p now) = fst (decideGuardianRequest E p now S)"
| "request_step S (EvExpire i now) = on_requests (expireGuardianRequest i now) S"
| "request_step S (EvExpireInteractionBound now) = on_requests (\<lambda>Q. fst (expireAllPendingInteractionBound now Q)) S"
| "request_step S (EvCreateDelivery p fresh now) = on_requests (\<lambda>Q. ok_or Q (createDelivery p fresh now Q)) S"
| "request_step S (EvUpdateDelivery i st m now) = on_requests (\<lambda>Q. fst (updateDelivery i st m now Q)) S"
| "request_step S (OtherWrite f) = S\<lparr>ss_gateway := f (ss_gateway S)\<rparr>"

fun decides :: "string \<Rightarrow> service_state \<Rightarrow> request_event \<Rightarrow> bool" where
  "decides k S (EvDecide E p now) =
     (dd_id p = k \<and> (case snd (decideGuardianRequest E p now S) of Applied _ _ \<Rightarrow> True | _ \<Rightarrow> False))"
| "decides k S _ = False"

text \<open>The update operation writes any status, also back to pending.\<close>

fun reopens_request :: "string \<Rightarrow> request_event \<Rightarrow> bool" where
  "reopens_request k (EvUpdate i u now) = (i = k \<and> pt_status u = Some ReqPending)"
| "reopens_request k _ = False"

definition settled :: "string \<Rightarrow> service_state \<Rightarrow> bool" where
  "settled k S \<longleftrightarrow>
     k \<in> gr_id ` set (gq_requests (ss_requests S)) \<and>
     list_all (\<lambda>r. gr_id r = k \<longrightarrow> gr_status r \<noteq> ReqPending) (gq_requests (ss_requests S))"

definition unique_requests :: "service_state \<Rightarrow> bool" where
  "unique_requests S \<longleftrightarrow> distinct (map gr_id (gq_requests (ss_requests S)))"

lemma update_requests_rows: "gq_requests (update_requests P f Q) = map (\<lambda>r. if P r then f r else r) (gq_requests Q)"
  by (simp add: update_requests_def)

lemma update_requests_ids:
  "(\<And>r. gr_id (f r) = gr_id r) \<Longrightarrow> map gr_id (gq_requests (update_requests P f Q)) = map gr_id (gq_requests Q)"
  by (simp add: update_requests_rows)

lemma update_requests_simps [simp]:
  "gq_deliveries (update_requests P f Q) = gq_deliveries Q"
  "gq_requests (update_deliveries P' f' Q) = gq_requests Q"
  by (simp_all add: update_requests_def update_deliveries_def)

lemma set_fields [simp]:
  "gr_id (patch_set u now r) = gr_id r" "gr_id (decision_set d now r) = gr_id r"
  "gr_status (patch_set u now r) = given (pt_status u) (gr_status r)" "gr_status (decision_set d now r) = dc_status d"
  by (simp_all add: patch_set_def decision_set_def)

lemma resolve_requests:
  "fst (resolveGuardianRequest i e d u now Q) = update_requests (resolvable i e u now) (decision_set d now) Q"
  by (simp add: resolveGuardianRequest_def Let_def)

text \<open>What a decision does to the requests: nothing, or the compare-and-swap on a pending row.\<close>

lemma decide_cases:
  obtains (kept) "ss_requests (fst (decideGuardianRequest E p now S)) = ss_requests S"
      "\<not> (case snd (decideGuardianRequest E p now S) of Applied _ _ \<Rightarrow> True | _ \<Rightarrow> False)"
  | (decided) r w where "snd (decideGuardianRequest E p now S) = Applied r w" "decide_params_ok p"
      "list_ex (resolvable (dd_id p) ReqPending True now) (gq_requests (ss_requests S))"
      "ss_requests (fst (decideGuardianRequest E p now S)) =
        update_requests (resolvable (dd_id p) ReqPending True now) (decision_set (dd_decision p) now) (ss_requests S)"
      "getGuardianRequest (dd_id p) (ss_requests (fst (decideGuardianRequest E p now S))) = Some r"
proof (cases "snd (decideGuardianRequest E p now S)")
  case (Applied r w)
  then show ?thesis
    by (intro decided [of r w])
       (auto simp: decideGuardianRequest_def resolveGuardianRequest_def Let_def split: if_splits option.splits prod.splits)
qed (auto simp: decideGuardianRequest_def split: if_splits option.splits prod.splits intro!: kept)

lemma decision_status: "decide_params_ok p \<Longrightarrow> dc_status (dd_decision p) \<noteq> ReqPending"
  by (auto simp: decide_params_ok_def)

lemma settled_update:
  assumes "settled k S" "\<And>r. gr_id (f r) = gr_id r"
    "\<And>r. gr_id r = k \<Longrightarrow> gr_status r \<noteq> ReqPending \<Longrightarrow> P r \<Longrightarrow> gr_status (f r) \<noteq> ReqPending"
  shows "settled k (S\<lparr>ss_requests := update_requests P f (ss_requests S)\<rparr>)"
proof -
  have "gr_id ` set (gq_requests (update_requests P f (ss_requests S))) = gr_id ` set (gq_requests (ss_requests S))"
    using update_requests_ids [OF assms(2), of P "ss_requests S"] by (metis list.set_map)
  then show ?thesis using assms by (auto simp: settled_def list_all_iff update_requests_rows)
qed

lemma settled_requests: "gq_requests (ss_requests S') = gq_requests (ss_requests S) \<Longrightarrow> settled k S' = settled k S"
  by (simp add: settled_def)

lemma settled_stays: "settled k S \<Longrightarrow> \<not> reopens_request k e \<Longrightarrow> settled k (request_step S e)"
proof (cases e)
  case (EvCreate p fresh uuids now)
  then show "settled k S \<Longrightarrow> ?thesis"
    by (auto simp: on_requests_def ok_or_def createGuardianRequest_def Let_def settled_def getGuardianRequest_def
        find_None_iff list_all_iff image_iff split: if_splits sum.splits)
next
  case (EvUpdate i u now)
  then show "settled k S \<Longrightarrow> \<not> reopens_request k e \<Longrightarrow> ?thesis"
    by (auto simp: on_requests_def updateGuardianRequest_def Let_def given_def intro!: settled_update split: option.splits)
next
  case (EvDecide E p now)
  assume s: "settled k S"
  show ?thesis
  proof (cases rule: decide_cases [of E p now S])
    case kept
    then show ?thesis using s EvDecide settled_requests [of "request_step S e" S k] by simp
  next
    case (decided r w)
    have "settled k (S\<lparr>ss_requests := update_requests (resolvable (dd_id p) ReqPending True now)
        (decision_set (dd_decision p) now) (ss_requests S)\<rparr>)"
      by (rule settled_update [OF s]) (simp_all add: decision_status [OF decided(2)])
    then show ?thesis using EvDecide decided(4) by (simp add: settled_def)
  qed
next
  case (EvExpire i now)
  then show "settled k S \<Longrightarrow> ?thesis"
    using settled_update [of k S "\<lambda>r. r\<lparr>gr_status := ReqExpired, gr_updatedAt := now\<rparr>" "\<lambda>r. gr_id r = i"]
    by (auto simp: on_requests_def expireGuardianRequest_def settled_def)
next
  case (EvExpireInteractionBound now)
  then show "settled k S \<Longrightarrow> ?thesis"
    by (auto simp: on_requests_def expireAllPendingInteractionBound_def intro!: settled_update)
qed (auto simp: on_requests_def ok_or_def createDelivery_def updateDelivery_def Let_def settled_def
    split: if_splits sum.splits option.splits)

lemma unique_step: "unique_requests S \<Longrightarrow> unique_requests (request_step S e)"
proof (cases e)
  case (EvCreate p fresh uuids now)
  then show "unique_requests S \<Longrightarrow> ?thesis"
    by (auto simp: on_requests_def ok_or_def createGuardianRequest_def Let_def unique_requests_def getGuardianRequest_def
        find_None_iff split: if_splits sum.splits)
next
  case (EvDecide E p now)
  then show "unique_requests S \<Longrightarrow> ?thesis"
    by (cases rule: decide_cases [of E p now S]) (simp_all add: unique_requests_def update_requests_ids)
qed (auto simp: on_requests_def ok_or_def createDelivery_def updateDelivery_def updateGuardianRequest_def expireGuardianRequest_def
    expireAllPendingInteractionBound_def Let_def unique_requests_def update_requests_ids
    split: if_splits sum.splits option.splits)

lemma decides_settles:
  assumes "unique_requests S" "decides k S e"
  shows "settled k (request_step S e)"
proof -
  obtain E p now where e: "e = EvDecide E p now" "dd_id p = k" using assms(2) by (cases e) auto
  show ?thesis
  proof (cases rule: decide_cases [of E p now S])
    case kept
    then show ?thesis using assms(2) e by simp
  next
    case (decided r w)
    then obtain x where x: "x \<in> set (gq_requests (ss_requests S))" "resolvable k ReqPending True now x"
      using e(2) by (auto simp: list_ex_iff)
    have one: "y = x" if "y \<in> set (gq_requests (ss_requests S))" "gr_id y = k" for y
      using assms(1) x that by (auto simp: unique_requests_def distinct_map inj_on_def resolvable_def)
    let ?Q = "update_requests (resolvable k ReqPending True now) (decision_set (dd_decision p) now) (ss_requests S)"
    have ids: "gr_id ` set (gq_requests ?Q) = gr_id ` set (gq_requests (ss_requests S))"
      using update_requests_ids [of "decision_set (dd_decision p) now"] by (metis list.set_map set_fields(2))
    have "k \<in> gr_id ` set (gq_requests (ss_requests S))" using x by (auto simp: resolvable_def)
    moreover have "gr_status y \<noteq> ReqPending" if "y \<in> set (gq_requests ?Q)" "gr_id y = k" for y
    proof -
      have "y \<in> (\<lambda>z. if resolvable k ReqPending True now z then decision_set (dd_decision p) now z else z) `
          set (gq_requests (ss_requests S))" using that(1) by (simp only: update_requests_rows set_map)
      then obtain z where z: "z \<in> set (gq_requests (ss_requests S))"
          "y = (if resolvable k ReqPending True now z then decision_set (dd_decision p) now z else z)" by blast
      then have "z = x" using one that(2) by (metis set_fields(2))
      then show ?thesis using z x(2) decision_status [OF decided(2)] by simp
    qed
    ultimately show ?thesis using ids e decided(4) by (simp add: settled_def list_all_iff)
  qed
qed

lemma settled_not_decides: "settled k S \<Longrightarrow> \<not> decides k S e"
proof (cases e)
  case (EvDecide E p now)
  then show "settled k S \<Longrightarrow> ?thesis"
    by (cases rule: decide_cases [of E p now S]) (auto simp: settled_def list_ex_iff list_all_iff resolvable_def)
qed auto

definition wins_decision :: "string \<Rightarrow> service_state \<Rightarrow> request_event \<Rightarrow> bool" where
  "wins_decision k S e \<longleftrightarrow> unique_requests S \<and> decides k S e"

interpretation decisions: reopenable_store request_step wins_decision settled reopens_request
  by unfold_locales (auto simp: wins_decision_def decides_settles settled_stays settled_not_decides)

lemma count_decisions:
  "unique_requests S \<Longrightarrow> count_wins request_step (decides k) S es = count_wins request_step (wins_decision k) S es"
  by (induction es arbitrary: S) (auto simp: wins_decision_def unique_step)

lemma decided_once:
  "unique_requests S \<Longrightarrow> count_wins request_step (decides k) S es \<le> 1 + length (filter (reopens_request k) es)"
  using decisions.wins_bounded [of k S es] count_decisions [of S k es] by (simp split: if_splits)

section \<open>A decision takes effect\<close>

lemma seed_address_eq:
  assumes "canonicalSenderIdFor (sc_sourceChannel c) (Some (sc_externalUserId c)) = Some i"
  shows "seed_address c = i"
  using assms
  by (auto simp: seed_address_def canonicalSenderIdFor_def canonicalizeInboundIdentity_def canonicalizeIdentityAs_def Let_def
      split: if_splits)

lemma seed_channels:
  "canonical_channels (seed_upsert c) =
    [\<lparr>ci_id = None, ci_type = sc_sourceChannel c, ci_address = canonical_address (sc_sourceChannel c) (seed_address c),
      ci_isPrimary = Some True, ci_externalChatId = None, ci_status = None, ci_policy = None, ci_verifiedAt = None,
      ci_verifiedVia = None, ci_inviteId = None, ci_revokedReason = None, ci_blockedReason = None\<rparr>]"
  by (simp add: canonical_channels_def seed_upsert_def)

lemma seed_fields [simp]:
  "up_id (seed_upsert c) = None" "up_displayName (seed_upsert c) = sc_displayName c"
  "up_autoApproveThreshold (seed_upsert c) = None"
  by (simp_all add: seed_upsert_def)

lemma seed_outcome_kept:
  assumes ok: "store_ok s" and fresh: "de_freshContact E \<noteq> []" "de_freshContact E \<notin> ct_id ` set (gwContacts s)"
      "\<And>n. de_channelIds E n \<noteq> []"
    and r: "applyContactSeedOutcome E c now s = Some (s', owner)"
  shows "keeps s s'"
proof -
  have "keeps s (fst (upsertContactGatewayWrites (seed_upsert c) (de_freshContact E) (de_channelIds E) now s))"
    by (rule upsert_kept [OF ok _ fresh(3,1,2)]) (simp add: seed_upsert_def input_ok_def)
  then show ?thesis using r by (auto simp: applyContactSeedOutcome_def split: prod.splits if_splits)
qed

text \<open>A sender without a row becomes an unverified contact.\<close>

lemma seed_outcome_new:
  assumes addr: "canonical_address (sc_sourceChannel c) (seed_address c) = i"
    and none: "getGatewayChannelByKey (sc_sourceChannel c) i s = None"
    and fresh: "list_all (\<lambda>h. cc_contactId h \<noteq> de_freshContact E) (gwContactChannels s)"
      "de_freshContact E \<notin> ct_id ` set (gwContacts s)"
    and r: "applyContactSeedOutcome E c now s = Some (s', owner)"
  obtains h where "h \<in> set (gwContactChannels s')" "by_key (sc_sourceChannel c) i h" "cc_status h = ''unverified''"
    "cc_policy h = ''allow''" "list_all (\<lambda>x. ct_id x = cc_contactId h \<longrightarrow> ct_role x = ''contact'') (gwContacts s')"
proof -
  let ?ch = "hd (canonical_channels (seed_upsert c))"
  let ?s1 = "s\<lparr>gwContacts := gwContacts s @ [plain_contact (de_freshContact E)
      (case sc_displayName c of Some n \<Rightarrow> n | None \<Rightarrow> i) None now]\<rparr>"
  let ?h = "sync_new (de_freshContact E) ?ch (de_channelIds E 0) now"
  have key: "getGatewayChannelByKey (sc_sourceChannel c) i ?s1 = None" using none by (simp add: getGatewayChannelByKey_def)
  have nofind: "find (\<lambda>h. cc_contactId h = de_freshContact E \<and> P h) (gwContactChannels ?s1) = None" for P
    using fresh(1) by (auto simp: find_None_iff list_all_iff)
  have up: "upsertContactGatewayWrites (seed_upsert c) (de_freshContact E) (de_channelIds E) now s =
      (case insert_or_skip ?h ?s1 of (s2, True) \<Rightarrow> (s2, de_freshContact E, True, False) | (_, False) \<Rightarrow> (?s1, de_freshContact E, True, True))"
    using none nofind key
    by (cases "sc_displayName c")
       (auto simp: upsertContactGatewayWrites_def seed_channels addr Let_def map_filter_simps sync_one_def
        truthy_def given_def split: prod.splits bool.splits)
  have "insert_or_skip ?h ?s1 = (s', True)"
    using r unfolding applyContactSeedOutcome_def up by (auto split: prod.splits bool.splits if_splits)
  then have s': "s' = ?s1\<lparr>gwContactChannels := gwContactChannels ?s1 @ [?h]\<rparr>"
    by (auto simp: insert_or_skip_def split: if_splits)
  show thesis
  proof (rule that [of ?h])
    show "list_all (\<lambda>x. ct_id x = cc_contactId ?h \<longrightarrow> ct_role x = ''contact'') (gwContacts s')"
      using fresh(2) by (force simp: s' list_all_iff sync_new_def)
  qed (simp_all add: s' sync_new_def seed_channels addr by_key_def nocase_eq_def given_def)
qed

lemma block_outcome_row:
  assumes ok: "store_ok s" and fresh: "de_freshContact E \<noteq> []" "de_freshContact E \<notin> ct_id ` set (gwContacts s)"
      "\<And>n. de_channelIds E n \<noteq> []"
    and r: "applyBlockOutcome E c reason now s = Some s'" and addr: "seed_address c = i"
  shows "store_ok s' \<and> (\<exists>h \<in> set (gwContactChannels s'). by_key (sc_sourceChannel c) i h \<and>
    (cc_status h = ''blocked'' \<or> cc_status h = ''revoked''))"
proof -
  obtain s1 owner h x where s1: "applyContactSeedOutcome E c now s = Some (s1, owner)"
    and h: "find (\<lambda>h. cc_contactId h = owner \<and> cc_type h = sc_sourceChannel c \<and>
        to_lower (cc_address h) = to_lower (seed_address c)) (gwContactChannels s1) = Some h"
    and rev: "markChannelRevokedById (cc_id h) reason now s1 = Inr (s', Some x)"
    using r by (auto simp: applyBlockOutcome_def split: option.splits sum.splits prod.splits)
  have ok1: "store_ok s1" using seed_outcome_kept [OF ok fresh s1] by (simp add: keeps_def)
  have mem: "h \<in> set (gwContactChannels s1)" "by_key (sc_sourceChannel c) i h"
    using find_SomeD [OF h] addr by (auto simp: by_key_def nocase_eq_def)
  have byid: "channel_by_id (cc_id h) s1 = Some h"
  proof (cases "channel_by_id (cc_id h) s1")
    case None
    then show ?thesis using mem(1) by (auto simp: channel_by_id_def find_None_iff)
  next
    case (Some y)
    then have "y \<in> set (gwContactChannels s1)" "cc_id y = cc_id h" by (auto simp: channel_by_id_def dest: find_SomeD)
    then show ?thesis using Some same_row [OF ok1 _ mem(1)] by simp
  qed
  let ?f = "\<lambda>x. x\<lparr>cc_status := ''revoked'', cc_revokedReason := reason, cc_blockedReason := None, cc_updatedAt := Some now\<rparr>"
  have "s' = s1 \<and> (cc_status h = ''blocked'' \<or> cc_status h = ''revoked'') \<or> s' = update_rows (\<lambda>x. cc_id x = cc_id h) ?f s1"
    using rev byid by (auto simp: markChannelRevokedById_def Let_def split: if_splits)
  moreover have "\<exists>y \<in> set (gwContactChannels (update_rows (\<lambda>x. cc_id x = cc_id h) ?f s1)). by_key (sc_sourceChannel c) i y \<and>
      (cc_status y = ''blocked'' \<or> cc_status y = ''revoked'')"
    using mem by (intro bexI [of _ "?f h"]) (auto simp: update_rows_channels by_key_def)
  ultimately show ?thesis using mem revoke_kept [OF ok1 rev] by (auto simp: keeps_def)
qed

lemma found_by_id:
  "distinct (map gr_id rs) \<Longrightarrow> x \<in> set rs \<Longrightarrow> gr_id x = k \<Longrightarrow> find (\<lambda>r. gr_id r = k) rs = Some x"
  by (induction rs) auto

lemma cas_row:
  assumes "unique_requests S" "list_ex (resolvable k ReqPending True now) (gq_requests (ss_requests S))"
    and "getGuardianRequest k (update_requests (resolvable k ReqPending True now) (decision_set d now) (ss_requests S)) = Some r"
  obtains r0 where "getGuardianRequest k (ss_requests S) = Some r0" "resolvable k ReqPending True now r0"
    "r = decision_set d now r0"
proof -
  obtain x where x: "x \<in> set (gq_requests (ss_requests S))" "resolvable k ReqPending True now x"
    using assms(2) by (auto simp: list_ex_iff)
  then have k: "gr_id x = k" by (simp add: resolvable_def)
  let ?Q = "update_requests (resolvable k ReqPending True now) (decision_set d now) (ss_requests S)"
  have "decision_set d now x \<in> set (gq_requests ?Q)" using x by (force simp: update_requests_rows)
  then have "getGuardianRequest k ?Q = Some (decision_set d now x)"
    using assms(1) k found_by_id [of "gq_requests ?Q"] update_requests_ids [of "decision_set d now"]
    by (simp add: getGuardianRequest_def unique_requests_def)
  moreover have "getGuardianRequest k (ss_requests S) = Some x"
    using assms(1) x(1) k found_by_id by (simp add: getGuardianRequest_def unique_requests_def)
  ultimately show thesis using that x(2) assms(3) by simp
qed

definition demo_decide_env :: decide_env where
  "demo_decide_env =
     \<lparr>de_mirror = None, de_freshContact = ''n'', de_freshChannel = ''m'', de_channelIds = (\<lambda>_. ''m''), de_hash = id,
      de_hex = ''ff'', de_num = 7, de_sessionId = ''v''\<rparr>"

abbreviation message_from :: "string \<Rightarrow> string \<Rightarrow> bool option \<Rightarrow> bool \<Rightarrow> bool \<Rightarrow> inbound_message" where
  "message_from ch a auth isBot isCallback \<equiv>
     \<lparr>im_channel = ch, im_actor = Some a, im_senderAuthenticated = auth, im_isBot = isBot, im_isCallback = isCallback\<rparr>"

lemma mint_adds_session:
  assumes "createOutboundSessionGuarded hash p src noneActive hex num i now g = (g', Minted (Some row))"
  shows "row \<in> set (v_sessions g') \<and> interceptable row \<and> channel row = o_channel p \<and> v_contacts g' = v_contacts g"
  using assms
  by (auto simp: createOutboundSessionGuarded_def mintOutboundSession_def createOutboundSession_def insert_session_def Let_def
      interceptable_def INTERCEPTABLE_STATUSES_def split: if_splits option.splits prod.splits)

text \<open>The standing each outcome gives the sender it names.\<close>

lemma activated_standing:
  assumes ok: "store_ok s" "guardians_known s" and user: "canonicalSenderIdFor ch (Some a) = Some i" "a \<noteq> []"
    and m: "am_sourceChannel m = ch" "am_externalUserId m = Some a" "am_contactId m \<noteq> Some []"
    and fresh: "de_freshContact E \<noteq> []" "de_freshChannel E \<noteq> []"
    and mirror: "case de_mirror E of Some (j, owner) \<Rightarrow> j \<noteq> [] \<and> owner \<noteq> [] \<and> mirror_agrees j ch i s
      | None \<Rightarrow> mirror_agrees (de_freshChannel E) ch i s"
    and r: "applyActivateMemberOutcome E m now s = Some (s', plan)"
  shows "store_ok s' \<and> (\<exists>k. sender_standing lost s' ch i = Some k \<and> 3 \<le> k)"
proof -
  let ?p = "\<lparr>vp_sourceChannel = ch, vp_externalUserId = a,
      vp_externalChatId = the (if am_externalChatId m \<noteq> None then am_externalChatId m else Some a),
      vp_displayName = am_displayName m, vp_username = am_username m,
      vp_verifiedVia = Some (given (am_verifiedVia m) ''invite''), vp_contactId = am_contactId m, vp_allowRevoked = True\<rparr>"
  have w: "applyVerifiedChannelGatewayWrites ?p (de_mirror E) (de_freshContact E) (de_freshChannel E) now s =
      (s', Some (Verified plan))"
    using r m user(2) by (auto simp: applyActivateMemberOutcome_def Let_def split: if_splits option.splits prod.splits verified_result.splits)
  have addr: "canonical_address ch a = i" using canonical_sender_address [OF user(1)] .
  have "keeps s (fst (applyVerifiedChannelGatewayWrites ?p (de_mirror E) (de_freshContact E) (de_freshChannel E) now s))"
    by (rule apply_verified_kept [OF ok(1) fresh]) (use m mirror addr in \<open>auto split: option.splits\<close>)
  then have ok': "store_ok s'" using w by (simp add: keeps_def)
  have known: "guardians_known s'" using guardians_stay_known [OF ok(2)] w by (metis fst_conv)
  obtain h where "h \<in> set (gwContactChannels s')" "by_key ch i h" "cc_status h = ''active''" "cc_policy h = ''allow''"
    using apply_verified_active [OF _ _ ok(1) _ _ w, of ch i] m addr mirror by (auto split: option.splits)
  from active_row_standing [OF ok' known this] show ?thesis using ok' by blast
qed

lemma blocked_standing:
  assumes "store_ok s" "canonicalSenderIdFor ch (Some a) = Some i" "sc_sourceChannel c = ch" "sc_externalUserId c = a"
    "de_freshContact E \<noteq> []" "de_freshContact E \<notin> ct_id ` set (gwContacts s)" "\<And>n. de_channelIds E n \<noteq> []"
    "applyBlockOutcome E c reason now s = Some s'"
  shows "store_ok s' \<and> sender_standing lost s' ch i = None"
proof -
  have "seed_address c = i" using seed_address_eq assms(2-4) by simp
  from block_outcome_row [OF assms(1,5-8) this] show ?thesis using kept_out_denied [of s' ch i lost] assms(3) by simp
qed

lemma seeded_standing:
  assumes ok: "store_ok s" and user: "canonicalSenderIdFor ch (Some a) = Some i"
    and c: "sc_sourceChannel c = ch" "sc_externalUserId c = a" and none: "getGatewayChannelByKey ch i s = None"
    and fresh: "de_freshContact E \<noteq> []" "de_freshContact E \<notin> ct_id ` set (gwContacts s)" "\<And>n. de_channelIds E n \<noteq> []"
    and r: "applyContactSeedOutcome E c now s = Some (s', owner)"
  shows "store_ok s' \<and> sender_standing lost s' ch i = Some 2"
proof -
  have ok': "store_ok s'" using seed_outcome_kept [OF ok fresh r] by (simp add: keeps_def)
  have sa: "seed_address c = i" using seed_address_eq user c by blast
  have "canonical_address ch i = i"
    using user canonical_stable by (auto simp: canonicalSenderIdFor_def canonical_address_def split: if_splits option.splits)
  then have addr: "canonical_address (sc_sourceChannel c) (seed_address c) = i" using sa c(1) by simp
  have "list_all (\<lambda>h. cc_contactId h \<noteq> de_freshContact E) (gwContactChannels s)"
    unfolding list_all_iff using store_okD(4) [OF ok] fresh(2) by metis
  then obtain h where h: "h \<in> set (gwContactChannels s')" "by_key (sc_sourceChannel c) i h" "cc_status h = ''unverified''"
      "cc_policy h = ''allow''" "list_all (\<lambda>x. ct_id x = cc_contactId h \<longrightarrow> ct_role x = ''contact'') (gwContacts s')"
    using seed_outcome_new [OF addr _ _ fresh(2) r] none c(1) by auto
  have "sender_standing lost s' ch i = Some (if cc_status h = ''active'' then 3 else 2)"
    by (rule contact_row_standing [OF ok' h(1) _ _ _ h(4,5)]) (use h c(1) in simp_all)
  then show ?thesis using h(3) ok' by simp
qed

lemma outcome_effect:
  assumes tables: "store_ok (v_contacts g)" "guardians_known (v_contacts g)"
    and user: "canonicalSenderIdFor ch (Some a) = Some i" "a \<noteq> []"
    and ch: "ch \<in> set CHANNEL_IDS" "\<not> isAdmissionPolicyExemptChannel ch" "ch \<noteq> ''plugin''"
    and fresh: "de_freshContact E \<noteq> []" "de_freshContact E \<notin> ct_id ` set (gwContacts (v_contacts g))"
      "de_freshChannel E \<noteq> []" "\<And>n. de_channelIds E n \<noteq> []"
    and mirror: "case de_mirror E of Some (j, owner) \<Rightarrow> j \<noteq> [] \<and> owner \<noteq> [] \<and> mirror_agrees j ch i (v_contacts g)
      | None \<Rightarrow> mirror_agrees (de_freshChannel E) ch i (v_contacts g)"
    and out: "applyAclOutcomeGatewayWrites E x now g = Some (g', w)"
  shows "case x of
      ActivateMember m \<Rightarrow>
        am_sourceChannel m = ch \<and> am_externalUserId m = Some a \<and> am_contactId m \<noteq> Some [] \<and>
        ADMISSION_FLOOR (cache_policy policies ch) \<le> 3 \<and> auth \<noteq> Some False \<longrightarrow>
        inbound_admitted True policies R (v_contacts g') cache (message_from ch a auth isBot isCallback) challenge
    | BlockSender c reason \<Rightarrow>
        sc_sourceChannel c = ch \<and> sc_externalUserId c = a \<and>
        inbound_admitted True policies R (v_contacts g') cache (message_from ch a auth isBot isCallback) challenge \<longrightarrow>
        auth = Some False \<and> cache_policy policies ch = Strangers
    | SeedUnverified c \<Rightarrow>
        sc_sourceChannel c = ch \<and> sc_externalUserId c = a \<and> getGatewayChannelByKey ch i (v_contacts g) = None \<and>
        auth \<noteq> Some False \<longrightarrow>
        inbound_admitted True policies R (v_contacts g') cache (message_from ch a auth isBot isCallback) challenge =
        (ADMISSION_FLOOR (cache_policy policies ch) \<le> 2)
    | MintOutboundSession q src noneActive \<Rightarrow>
        (\<exists>row. ow_session w = Some row \<and> row \<in> set (v_sessions g') \<and> interceptable row \<and> channel row = o_channel q)"
proof -
  let ?s = "v_contacts g" and ?s' = "v_contacts g'"
  have pl: "pluginMemberIdentity ch a = (ch, a)" using ch(3) by (simp add: pluginMemberIdentity_def)
  have adm: "inbound_admitted True policies R s cache (message_from ch a auth isBot isCallback) challenge =
      (case sender_standing (fst (guardianIntegrityState (re_hasActorTokens R) (re_now R) s cache)) s ch i of
         None \<Rightarrow> False | Some k \<Rightarrow> ADMISSION_FLOOR (cache_policy policies ch) \<le> k)" if "store_ok s" "auth \<noteq> Some False" for s
    using admission_by_standing [OF _ ch(1,2) pl user(2,1)] that(1) by (simp add: store_ok_def admission_authenticated [OF that(2)])
  show ?thesis
  proof (cases x)
    case (ActivateMember m)
    then obtain s2 plan where s2: "applyActivateMemberOutcome E m now ?s = Some (s2, plan)"
        "g' = g\<lparr>v_contacts := s2\<rparr>"
      using out by (auto simp: applyAclOutcomeGatewayWrites_def)
    then have w: "applyActivateMemberOutcome E m now ?s = Some (?s', plan)" by simp
    have "inbound_admitted True policies R ?s' cache (message_from ch a auth isBot isCallback) challenge"
      if m: "am_sourceChannel m = ch" "am_externalUserId m = Some a" "am_contactId m \<noteq> Some []"
        and floor: "ADMISSION_FLOOR (cache_policy policies ch) \<le> 3" "auth \<noteq> Some False"
    proof -
      have st: "store_ok ?s' \<and> (\<exists>k. sender_standing lost ?s' ch i = Some k \<and> 3 \<le> k)" for lost
        by (rule activated_standing [OF tables user m fresh(1,3) mirror w])
      obtain k where "sender_standing (fst (guardianIntegrityState (re_hasActorTokens R) (re_now R) ?s' cache)) ?s' ch i = Some k"
          "3 \<le> k" using st by blast
      then show ?thesis using adm [of ?s'] st floor by simp
    qed
    then show ?thesis using ActivateMember by simp
  next
    case (SeedUnverified c)
    then obtain s2 owner where s2: "applyContactSeedOutcome E c now ?s = Some (s2, owner)"
        "g' = g\<lparr>v_contacts := s2\<rparr>"
      using out by (auto simp: applyAclOutcomeGatewayWrites_def)
    then have w: "applyContactSeedOutcome E c now ?s = Some (?s', owner)" by simp
    have "inbound_admitted True policies R ?s' cache (message_from ch a auth isBot isCallback) challenge =
        (ADMISSION_FLOOR (cache_policy policies ch) \<le> 2)"
      if c: "sc_sourceChannel c = ch" "sc_externalUserId c = a" "getGatewayChannelByKey ch i ?s = None" and auth: "auth \<noteq> Some False"
      using adm [OF _ auth, of ?s'] seeded_standing [OF tables(1) user(1) c fresh(1,2,4) w] by simp
    then show ?thesis using SeedUnverified by simp
  next
    case (BlockSender c reason)
    then obtain s2 where s2: "applyBlockOutcome E c reason now ?s = Some s2"
        "g' = g\<lparr>v_contacts := s2\<rparr>"
      using out by (auto simp: applyAclOutcomeGatewayWrites_def)
    then have w: "applyBlockOutcome E c reason now ?s = Some ?s'" by simp
    have "\<not> inbound_admitted True policies R ?s' cache (message_from ch a auth isBot isCallback) challenge"
      if c: "sc_sourceChannel c = ch" "sc_externalUserId c = a" and auth: "auth \<noteq> Some False"
      using adm [OF _ auth, of ?s'] blocked_standing [OF tables(1) user(1) c fresh(1,2,4) w] by simp
    then show ?thesis
      using BlockSender unauthenticated_is_stranger [OF ch(1,2), of policies R ?s' cache a isBot isCallback challenge] by auto
  next
    case (MintOutboundSession q src noneActive)
    then obtain row where "createOutboundSessionGuarded (de_hash E) q src noneActive (de_hex E) (de_num E) (de_sessionId E) now
        g = (g', Minted (Some row))" "ow_session w = Some row"
      using out by (auto simp: applyAclOutcomeGatewayWrites_def split: prod.splits mint_result.splits option.splits)
    then show ?thesis using mint_adds_session [of "de_hash E" q] MintOutboundSession by auto
  qed
qed

text \<open>C7: A decision and its access outcome land together. When deciding a request is answered with applied, the
  request was pending and within its deadline, it now carries the decision, and in the tables left behind the outcome
  holds for the messages of the sender it names, unless they failed channel authentication: approved with activation,
  they reach the agent under every floor a trusted contact meets; blocked, under none (failed authentication makes
  them a stranger's, let in only by a channel open to strangers); left unverified without a row before, exactly under
  the floors an unverified contact meets; a minted session can be answered. With any other answer nothing has changed,
  in no table. This is for well-formed tables in which every guardian contact has a principal, a sender with a user id
  on a channel that has a floor, other than the plugin channel, unused fresh ids, and a mirror whose channel is the
  sender's in the gateway's table or unknown there.\<close>

theorem decision_takes_effect:
  assumes tables: "unique_requests S" "store_ok (v_contacts (ss_gateway S))" "guardians_known (v_contacts (ss_gateway S))"
    and user: "canonicalSenderIdFor ch (Some a) = Some i" "a \<noteq> []"
    and ch: "ch \<in> set CHANNEL_IDS" "\<not> isAdmissionPolicyExemptChannel ch" "ch \<noteq> ''plugin''"
    and fresh: "de_freshContact E \<noteq> []" "de_freshContact E \<notin> ct_id ` set (gwContacts (v_contacts (ss_gateway S)))"
      "de_freshChannel E \<noteq> []" "\<And>n. de_channelIds E n \<noteq> []"
    and mirror: "case de_mirror E of
        Some (j, owner) \<Rightarrow> j \<noteq> [] \<and> owner \<noteq> [] \<and> mirror_agrees j ch i (v_contacts (ss_gateway S))
      | None \<Rightarrow> mirror_agrees (de_freshChannel E) ch i (v_contacts (ss_gateway S))"
    and dec: "decideGuardianRequest E p now S = (S', res)"
  shows "case res of
      Applied r w \<Rightarrow>
        (\<exists>r0. getGuardianRequest (dd_id p) (ss_requests S) = Some r0 \<and> gr_status r0 = ReqPending \<and>
           (case gr_expiresAt r0 of Some deadline \<Rightarrow> now \<le> deadline | None \<Rightarrow> True) \<and> r = decision_set (dd_decision p) now r0) \<and>
        getGuardianRequest (dd_id p) (ss_requests S') = Some r \<and>
        (case dd_outcome p of
           None \<Rightarrow> ss_gateway S' = ss_gateway S
         | Some (ActivateMember m) \<Rightarrow>
             am_sourceChannel m = ch \<and> am_externalUserId m = Some a \<and> am_contactId m \<noteq> Some [] \<and>
             ADMISSION_FLOOR (cache_policy policies ch) \<le> 3 \<and> auth \<noteq> Some False \<longrightarrow>
             inbound_admitted True policies R (v_contacts (ss_gateway S')) cache (message_from ch a auth isBot isCallback) challenge
         | Some (BlockSender c reason) \<Rightarrow>
             sc_sourceChannel c = ch \<and> sc_externalUserId c = a \<and>
             inbound_admitted True policies R (v_contacts (ss_gateway S')) cache (message_from ch a auth isBot isCallback) challenge \<longrightarrow>
             auth = Some False \<and> cache_policy policies ch = Strangers
         | Some (SeedUnverified c) \<Rightarrow>
             sc_sourceChannel c = ch \<and> sc_externalUserId c = a \<and>
             getGatewayChannelByKey ch i (v_contacts (ss_gateway S)) = None \<and> auth \<noteq> Some False \<longrightarrow>
             inbound_admitted True policies R (v_contacts (ss_gateway S')) cache (message_from ch a auth isBot isCallback) challenge =
             (ADMISSION_FLOOR (cache_policy policies ch) \<le> 2)
         | Some (MintOutboundSession q src noneActive) \<Rightarrow>
             (\<exists>row. ow_session w = Some row \<and> row \<in> set (v_sessions (ss_gateway S')) \<and> interceptable row \<and>
                channel row = o_channel q))
    | _ \<Rightarrow> S' = S"
proof (cases res)
  case (Applied r w)
  let ?Q = "update_requests (resolvable (dd_id p) ReqPending True now) (decision_set (dd_decision p) now) (ss_requests S)"
  have cas: "list_ex (resolvable (dd_id p) ReqPending True now) (gq_requests (ss_requests S))"
      "ss_requests S' = ?Q" "getGuardianRequest (dd_id p) ?Q = Some r"
    using dec Applied by (auto simp: decideGuardianRequest_def resolveGuardianRequest_def Let_def
        split: if_splits option.splits prod.splits)
  have out: "case dd_outcome p of None \<Rightarrow> ss_gateway S' = ss_gateway S
      | Some x \<Rightarrow> applyAclOutcomeGatewayWrites E x now (ss_gateway S) = Some (ss_gateway S', w)"
    using dec Applied by (auto simp: decideGuardianRequest_def split: if_splits option.splits prod.splits)
  obtain r0 where r0: "getGuardianRequest (dd_id p) (ss_requests S) = Some r0" "resolvable (dd_id p) ReqPending True now r0"
      "r = decision_set (dd_decision p) now r0"
    using cas_row [OF tables(1) cas(1,3)] by metis
  then have live: "gr_status r0 = ReqPending" "case gr_expiresAt r0 of Some deadline \<Rightarrow> now \<le> deadline | None \<Rightarrow> True"
    by (simp_all add: resolvable_def)
  show ?thesis
  proof (cases "dd_outcome p")
    case None
    then show ?thesis using r0 live cas out Applied by simp
  next
    case (Some x)
    then have "applyAclOutcomeGatewayWrites E x now (ss_gateway S) = Some (ss_gateway S', w)" using out by simp
    note effect = outcome_effect [OF tables(2,3) user ch fresh mirror this, of policies auth R cache isBot isCallback challenge]
    show ?thesis using r0 live cas effect Applied Some by simp
  qed
qed (use dec in \<open>auto simp: decideGuardianRequest_def split: if_splits option.splits prod.splits\<close>)

definition demo_request :: create_request_params where
  "demo_request =
     \<lparr>cp_id = Some ''r'', cp_kind = ''access_request'', cp_sourceChannel = Some ''telegram'', cp_sourceConversationId = None,
      cp_requesterExternalUserId = Some ''99'', cp_requesterChatId = Some ''99'', cp_guardianExternalUserId = None,
      cp_guardianPrincipalId = Some ''p'', cp_callSessionId = None, cp_pendingQuestionId = None, cp_questionText = None,
      cp_requestCode = None, cp_toolName = None, cp_inputDigest = None, cp_commandPreview = None, cp_riskLevel = None,
      cp_activityText = None, cp_executionTarget = None, cp_requesterSignals = None, cp_requestTrigger = None,
      cp_status = None, cp_answerText = None, cp_decidedByExternalUserId = None, cp_decidedByPrincipalId = None,
      cp_followupState = None, cp_expiresAt = Some 50\<rparr>"

definition demo_service :: service_state where
  "demo_service =
     request_step \<lparr>ss_requests = \<lparr>gq_requests = [], gq_deliveries = []\<rparr>,
         ss_gateway = \<lparr>v_sessions = [], v_limits = [], v_contacts = admission_demo\<rparr>\<rparr>
       (EvCreate demo_request ''x'' (\<lambda>_. ''ab-cdef01'') 5)"

definition demo_decide :: "request_status \<Rightarrow> acl_outcome option \<Rightarrow> decide_params" where
  "demo_decide st x =
     \<lparr>dd_id = ''r'', dd_decision = \<lparr>dc_status = st, dc_answerText = None, dc_decidedByExternalUserId = None,
        dc_decidedByPrincipalId = Some ''p''\<rparr>, dd_outcome = x\<rparr>"

definition demo_activation :: acl_outcome where
  "demo_activation = ActivateMember
     \<lparr>am_sourceChannel = ''telegram'', am_externalUserId = Some ''99'', am_externalChatId = Some ''99'', am_contactId = None,
      am_displayName = None, am_username = None, am_verifiedVia = Some ''manual''\<rparr>"

theorem decision_takes_effect_witness:
  "inbound_admitted True [(''telegram'', TrustedContacts)] admission_env
     (v_contacts (ss_gateway (fst (decideGuardianRequest demo_decide_env (demo_decide ReqApproved (Some demo_activation)) 9 demo_service))))
     None (message_from ''telegram'' ''99'' None False False) False"
proof -
  let ?d = "demo_decide ReqApproved (Some demo_activation)"
  let ?R = "decideGuardianRequest demo_decide_env ?d 9 demo_service"
  have "(case snd ?R of Applied _ _ \<Rightarrow> True | _ \<Rightarrow> False)" by code_simp
  then obtain r w where dec: "?R = (fst ?R, Applied r w)" by (cases "snd ?R") (auto simp: prod_eq_iff)
  have h: "unique_requests demo_service" "store_ok (v_contacts (ss_gateway demo_service))"
    "guardians_known (v_contacts (ss_gateway demo_service))" "canonicalSenderIdFor ''telegram'' (Some ''99'') = Some ''99''"
    "''99'' \<noteq> ''''" "''telegram'' \<in> set CHANNEL_IDS" "\<not> isAdmissionPolicyExemptChannel ''telegram''"
    "''telegram'' \<noteq> ''plugin''" "de_freshContact demo_decide_env \<noteq> []"
    "de_freshContact demo_decide_env \<notin> ct_id ` set (gwContacts (v_contacts (ss_gateway demo_service)))"
    "de_freshChannel demo_decide_env \<noteq> []"
    by code_simp+
  have n: "de_channelIds demo_decide_env n \<noteq> []" for n by (simp add: demo_decide_env_def)
  have m: "case de_mirror demo_decide_env of
        Some (j, owner) \<Rightarrow> j \<noteq> [] \<and> owner \<noteq> [] \<and> mirror_agrees j ''telegram'' ''99'' (v_contacts (ss_gateway demo_service))
      | None \<Rightarrow> mirror_agrees (de_freshChannel demo_decide_env) ''telegram'' ''99'' (v_contacts (ss_gateway demo_service))"
    by code_simp
  have "cache_policy [(''telegram'', TrustedContacts)] ''telegram'' = TrustedContacts" by code_simp
  then show ?thesis
    using decision_takes_effect [OF h n m dec, where policies = "[(''telegram'', TrustedContacts)]" and R = admission_env
      and cache = None and isBot = False and isCallback = False and challenge = False and auth = None]
    by (simp add: demo_decide_def demo_activation_def)
qed

lemma expire_keeps_persistent:
  "r \<in> set (gq_requests Q) \<Longrightarrow> gr_kind r \<notin> set INTERACTION_BOUND_KINDS \<Longrightarrow>
   r \<in> set (gq_requests (fst (expireAllPendingInteractionBound now Q)))"
  by (force simp: expireAllPendingInteractionBound_def update_requests_rows interaction_bound_def image_iff)

end
