(* ===== verification/Prompts.thy ===== *)
theory Prompts
  imports Prelude
begin

text \<open>
  Prompts that wait for a person: the registry of \<^verbatim>\<open>assistant/src/runtime/pending-interactions.ts\<close>, the
  permission prompter (\<^verbatim>\<open>permissions/prompter.ts\<close>), the question prompter
  (\<^verbatim>\<open>permissions/question-prompter.ts\<close>) and the answering of questions
  (\<^verbatim>\<open>runtime/question-resolution.ts\<close>).

  A caller waits on a promise per prompt; the log of answers lists what each promise was given. An entry's timer runs
  while the entry is registered: the registry clears it when the entry goes. The display payload of an interaction, the
  target ids of host requests and the events sent to clients other than the one that says an interaction is
  resolved are not part of the state.
\<close>

section \<open>The registry\<close>

datatype interaction_kind =
    KConfirmation | KSecret | KQuestion | KHostBash | KHostFile | KHostCu | KHostBrowser | KHostAppControl
  | KHostTransfer | KHostUiSnapshot | KAcpConfirmation

datatype resolution_state = StApproved | StRejected | StAnswered | StCancelled | StSuperseded

datatype user_decision = UserAllow | UserDeny

datatype deny_cause = ByUser | ByTimeout | BySystem | ByAbort

datatype entry_result = AnsweredOption string string | AnsweredText string string | Skipped string | TimedOut string | Aborted string

datatype overall = Completed | Closed | OverallTimedOut | OverallAborted

datatype prompt_answer =
    ConfirmAnswer user_decision deny_cause
  | ConfirmDisposed
  | QuestionAnswer "entry_result list" overall
  | SecretAnswer resolution_state

text \<open>\<open>it_rpc\<close>: the entry carries the callback that answers the promise; \<open>it_direct\<close>: it is answered without a prompter.\<close>

record interaction =
  it_conversationId :: "string option"
  it_kind :: interaction_kind
  it_direct :: bool
  it_rpc :: bool
  it_metadata :: "(string list \<times> (string, string list) js_map) option"
  it_toolUseId :: "string option"

record registry =
  rg_pending :: "(string, interaction) js_map"
  rg_events :: "(string \<times> string \<times> interaction_kind \<times> resolution_state) list"
  rg_answers :: "(string \<times> prompt_answer) list"

definition register :: "string \<Rightarrow> interaction \<Rightarrow> registry \<Rightarrow> registry" where
  "register i x g = g\<lparr>rg_pending := js_set i x (rg_pending g)\<rparr>"

definition get_interaction :: "string \<Rightarrow> registry \<Rightarrow> interaction option" where
  "get_interaction i g = js_get (rg_pending g) i"

definition emitResolved :: "string \<Rightarrow> interaction \<Rightarrow> resolution_state \<Rightarrow> registry \<Rightarrow> registry" where
  "emitResolved i x st g =
     (case it_conversationId x of
        None \<Rightarrow> g
      | Some c \<Rightarrow> g\<lparr>rg_events := rg_events g @ [(i, c, it_kind x, st)]\<rparr>)"

definition resolve :: "string \<Rightarrow> resolution_state \<Rightarrow> registry \<Rightarrow> registry \<times> interaction option" where
  "resolve i st g =
     (case get_interaction i g of
        None \<Rightarrow> (g, None)
      | Some x \<Rightarrow> (emitResolved i x st (g\<lparr>rg_pending := js_delete i (rg_pending g)\<rparr>), Some x))"

definition answer :: "string \<Rightarrow> prompt_answer \<Rightarrow> registry \<Rightarrow> registry" where
  "answer i a g = g\<lparr>rg_answers := rg_answers g @ [(i, a)]\<rparr>"

definition getByConversation :: "string \<Rightarrow> registry \<Rightarrow> (string \<times> interaction) list" where
  "getByConversation c g = filter (\<lambda>(i, x). it_conversationId x = Some c) (rg_pending g)"

definition getByKind :: "interaction_kind \<Rightarrow> registry \<Rightarrow> (string \<times> interaction) list" where
  "getByKind k g = filter (\<lambda>(i, x). it_kind x = k) (rg_pending g)"

definition settleSecret :: "string \<Rightarrow> resolution_state \<Rightarrow> registry \<Rightarrow> registry" where
  "settleSecret i st g =
     (case resolve i st g of
        (g', Some x) \<Rightarrow> if it_rpc x then answer i (SecretAnswer (if st = StSuperseded then StSuperseded else StCancelled)) g' else g'
      | (g', None) \<Rightarrow> g')"

definition KEPT_KINDS :: "interaction_kind list" where
  "KEPT_KINDS = [KHostBash, KHostFile, KHostCu, KHostBrowser, KHostAppControl, KHostTransfer, KAcpConfirmation, KQuestion]"

definition remove_one :: "string \<Rightarrow> resolution_state \<Rightarrow> registry \<Rightarrow> string \<times> interaction \<Rightarrow> registry" where
  "remove_one c st g e =
     (case e of (i, x) \<Rightarrow>
        if it_conversationId x = Some c \<and> it_kind x \<notin> set KEPT_KINDS
        then (if it_kind x = KSecret then settleSecret i st g else fst (resolve i st g))
        else g)"

definition removeByConversation :: "string \<Rightarrow> resolution_state \<Rightarrow> registry \<Rightarrow> registry" where
  "removeByConversation c st g = foldl (remove_one c st) g (rg_pending g)"

definition supersede_one :: "string \<Rightarrow> resolution_state \<Rightarrow> registry \<Rightarrow> string \<times> interaction \<Rightarrow> registry" where
  "supersede_one c st g e =
     (case e of (i, x) \<Rightarrow> if it_conversationId x = Some c \<and> it_kind x = KSecret then settleSecret i st g else g)"

definition supersedePendingSecrets :: "string \<Rightarrow> resolution_state \<Rightarrow> registry \<Rightarrow> registry" where
  "supersedePendingSecrets c st g = foldl (supersede_one c st) g (rg_pending g)"

section \<open>The permission prompter\<close>

text \<open>Each prompter has the ids it owns. \<open>pm_owned\<close> maps a prompter's conversation to them.\<close>

record prompts =
  pm_registry :: registry
  pm_owned :: "string \<Rightarrow> string list"

definition on_registry :: "(registry \<Rightarrow> registry) \<Rightarrow> prompts \<Rightarrow> prompts" where
  "on_registry f P = P\<lparr>pm_registry := f (pm_registry P)\<rparr>"

definition disown :: "string \<Rightarrow> string \<Rightarrow> prompts \<Rightarrow> prompts" where
  "disown p i P = P\<lparr>pm_owned := (pm_owned P)(p := filter (\<lambda>j. j \<noteq> i) (pm_owned P p))\<rparr>"

text \<open>The entry goes, the id is disowned, and the answer is given when the entry was there.\<close>

definition settle :: "string \<Rightarrow> string \<Rightarrow> resolution_state \<Rightarrow> prompt_answer \<Rightarrow> prompts \<Rightarrow> prompts" where
  "settle p i st a P =
     (case resolve i st (pm_registry P) of
        (g, Some x) \<Rightarrow> disown p i (P\<lparr>pm_registry := if it_rpc x then answer i a g else g\<rparr>)
      | (g, None) \<Rightarrow> disown p i (P\<lparr>pm_registry := g\<rparr>))"

definition confirmation :: "string option \<Rightarrow> string option \<Rightarrow> interaction" where
  "confirmation conv tool =
     \<lparr>it_conversationId = Some (case conv of Some c \<Rightarrow> c | None \<Rightarrow> []), it_kind = KConfirmation, it_direct = False, it_rpc = True,
      it_metadata = None, it_toolUseId = tool\<rparr>"

text \<open>A signal that is already aborted denies without a prompt.\<close>

definition prompt_confirmation :: "string \<Rightarrow> string \<Rightarrow> string option \<Rightarrow> string option \<Rightarrow> bool \<Rightarrow> prompts \<Rightarrow> prompts" where
  "prompt_confirmation p i conv tool aborted P =
     (if aborted then on_registry (answer i (ConfirmAnswer UserDeny ByAbort)) P
      else on_registry (register i (confirmation conv tool)) (P\<lparr>pm_owned := (pm_owned P)(p := js_add i (pm_owned P p))\<rparr>))"

definition confirmation_timeout :: "string \<Rightarrow> string \<Rightarrow> prompts \<Rightarrow> prompts" where
  "confirmation_timeout p i P = settle p i StCancelled (ConfirmAnswer UserDeny ByTimeout) P"

definition confirmation_abort :: "string \<Rightarrow> string \<Rightarrow> prompts \<Rightarrow> prompts" where
  "confirmation_abort p i P =
     (if i \<in> set (pm_owned P p)
      then on_registry (\<lambda>g. answer i (ConfirmAnswer UserDeny ByAbort) (fst (resolve i StCancelled g))) (disown p i P)
      else P)"

definition resolveConfirmation :: "string \<Rightarrow> string \<Rightarrow> user_decision \<Rightarrow> prompts \<Rightarrow> prompts" where
  "resolveConfirmation p i d P =
     (if i \<notin> set (pm_owned P p) then P
      else settle p i (if d = UserAllow then StApproved else StRejected) (ConfirmAnswer d ByUser) P)"

definition denyAllPending :: "string \<Rightarrow> prompts \<Rightarrow> prompts" where
  "denyAllPending p P = foldl (\<lambda>P i. settle p i StSuperseded (ConfirmAnswer UserDeny BySystem) P) P (pm_owned P p)"

definition dispose_prompter :: "string \<Rightarrow> prompts \<Rightarrow> prompts" where
  "dispose_prompter p P = foldl (\<lambda>P i. settle p i StCancelled ConfirmDisposed P) P (pm_owned P p)"

text \<open>\<^verbatim>\<open>Conversation.handleConfirmationResponse\<close>.\<close>

definition handleConfirmationResponse :: "string \<Rightarrow> string \<Rightarrow> user_decision \<Rightarrow> prompts \<Rightarrow> prompts" where
  "handleConfirmationResponse p i d P = (if i \<notin> set (pm_owned P p) then P else resolveConfirmation p i d P)"

section \<open>Questions\<close>

datatype submission = SubmitOption string string | SubmitText string string | SubmitSkip string

definition sub_id :: "submission \<Rightarrow> string" where
  "sub_id s = (case s of SubmitOption q _ \<Rightarrow> q | SubmitText q _ \<Rightarrow> q | SubmitSkip q \<Rightarrow> q)"

definition options_of :: "(string, string list) js_map \<Rightarrow> string \<Rightarrow> string list" where
  "options_of m q = (case js_get m q of Some os \<Rightarrow> os | None \<Rightarrow> [])"

fun submissions_ok :: "(string, string list) js_map \<Rightarrow> string list \<Rightarrow> submission list \<Rightarrow> bool" where
  "submissions_ok m seen [] = True"
| "submissions_ok m seen (s # ss) =
     (sub_id s \<in> set (js_keys m) \<and> sub_id s \<notin> set seen \<and>
      (case s of SubmitOption q o1 \<Rightarrow> o1 \<in> set (options_of m q) | _ \<Rightarrow> True) \<and> submissions_ok m (sub_id s # seen) ss)"

definition entry_of :: "submission \<Rightarrow> entry_result" where
  "entry_of s = (case s of SubmitOption q o1 \<Rightarrow> AnsweredOption q o1 | SubmitText q t \<Rightarrow> AnsweredText q t | SubmitSkip q \<Rightarrow> Skipped q)"

text \<open>\<open>None\<close> is a validation error.\<close>

definition buildBatchEntries :: "string list \<Rightarrow> (string, string list) js_map \<Rightarrow> submission list \<Rightarrow> entry_result list option" where
  "buildBatchEntries ids m ss =
     (if submissions_ok m [] ss \<and> set ids \<subseteq> set (map sub_id ss)
      then Some (map (\<lambda>q. entry_of (the (find (\<lambda>s. sub_id s = q) ss))) ids) else None)"

definition readBatchMetadata :: "interaction \<Rightarrow> string list \<times> (string, string list) js_map" where
  "readBatchMetadata x = (case it_metadata x of Some m \<Rightarrow> m | None \<Rightarrow> ([], []))"

definition buildCompletedResult :: "submission list \<Rightarrow> interaction \<Rightarrow> (entry_result list \<times> overall) option" where
  "buildCompletedResult ss x =
     (case readBatchMetadata x of (ids, m) \<Rightarrow>
        if ids = [] then None else map_option (\<lambda>es. (es, Completed)) (buildBatchEntries ids m ss))"

datatype question_input = Submit "submission list" | CloseQuestion

datatype question_outcome = QResolved "entry_result list \<times> overall" "string option" | QNotFound | QInvalid

text \<open>The question prompter's \<^verbatim>\<open>finish\<close>: the promise is given its answer once.\<close>

definition finish_question :: "string \<Rightarrow> entry_result list \<times> overall \<Rightarrow> registry \<Rightarrow> registry" where
  "finish_question i r g =
     (if i \<in> fst ` set (rg_answers g) then g
      else answer i (QuestionAnswer (fst r) (snd r)) (fst (resolve i StCancelled g)))"

definition resolvePendingQuestion :: "string \<Rightarrow> question_input \<Rightarrow> registry \<Rightarrow> registry \<times> question_outcome" where
  "resolvePendingQuestion i inp g =
     (case get_interaction i g of
        None \<Rightarrow> (g, QNotFound)
      | Some x \<Rightarrow>
          if it_kind x \<noteq> KQuestion then (g, QNotFound)
          else
            (case (case inp of
                     CloseQuestion \<Rightarrow> Some (map Skipped (fst (readBatchMetadata x)), Closed)
                   | Submit ss \<Rightarrow> buildCompletedResult ss x) of
               None \<Rightarrow> (g, QInvalid)
             | Some r \<Rightarrow>
                 (let g1 = fst (resolve i (if inp = CloseQuestion then StCancelled else StAnswered) g)
                  in (if it_rpc x then finish_question i r g1 else g1, QResolved r (it_conversationId x)))))"

definition question_ids :: "string list list \<Rightarrow> string list" where
  "question_ids qs = map (\<lambda>n. ''q'' @ nat_to_string (Suc n)) [0..<length qs]"

definition question_entry :: "string \<Rightarrow> string list list \<Rightarrow> string option \<Rightarrow> interaction" where
  "question_entry conv qs tool =
     \<lparr>it_conversationId = Some conv, it_kind = KQuestion, it_direct = False, it_rpc = True,
      it_metadata = Some (question_ids qs, zip (question_ids qs) qs), it_toolUseId = tool\<rparr>"

text \<open>The questions are given by their options. An aborted signal answers without a prompt.\<close>

definition prompt_questions ::
    "string \<Rightarrow> string \<Rightarrow> string list list \<Rightarrow> string option \<Rightarrow> bool \<Rightarrow> registry \<Rightarrow> registry option" where
  "prompt_questions i conv qs tool aborted g =
     (if qs = [] then None
      else if aborted then Some (answer i (QuestionAnswer (map Aborted (question_ids qs)) OverallAborted) g)
      else Some (register i (question_entry conv qs tool) g))"

definition question_stopped :: "string \<Rightarrow> bool \<Rightarrow> string list \<Rightarrow> registry \<Rightarrow> registry" where
  "question_stopped i aborted ids g =
     finish_question i (if aborted then (map Aborted ids, OverallAborted) else (map TimedOut ids, OverallTimedOut)) g"

end
