(* ===== verification/Prompt_Safety.thy ===== *)
theory Prompt_Safety
  imports Prompts
begin

text \<open>
  Prompts in any order of their events: a prompt is answered at most once, a permission is given only by a response
  that allows it, a completed question carries an offered option per answer, and a new message or the end of a
  conversation answers every permission prompt that is still open.
\<close>

section \<open>Events\<close>

text \<open>
  \<open>AskOther\<close> registers an interaction that no prompter owns (a secret, a host request, a direct confirmation);
  \<open>TakeOther\<close> is its handler taking it from the registry. A timer belongs to the prompter that asked, and the timer and the abort
  listener of a question exist only while the question is registered.
\<close>

datatype prompt_event =
    Ask string string "string option" "string option" bool
  | Timeout string string
  | Abort string string
  | Respond string string user_decision
  | DenyAll string
  | Dispose string
  | AskQuestion string string "string list list" "string option" bool
  | StopQuestion string bool
  | AnswerQuestion string question_input
  | AskOther string interaction
  | TakeOther string resolution_state
  | RemoveConversation string resolution_state
  | SupersedeSecrets string resolution_state

definition other_kind :: "interaction \<Rightarrow> bool" where
  "other_kind x \<longleftrightarrow> it_kind x \<noteq> KQuestion \<and> (it_kind x = KConfirmation \<longrightarrow> it_direct x)"

fun prompt_step :: "prompts \<Rightarrow> prompt_event \<Rightarrow> prompts" where
  "prompt_step P (Ask p i conv tool aborted) = prompt_confirmation p i conv tool aborted P"
| "prompt_step P (Timeout p i) = (if i \<in> set (pm_owned P p) then confirmation_timeout p i P else P)"
| "prompt_step P (Abort p i) = confirmation_abort p i P"
| "prompt_step P (Respond p i d) = handleConfirmationResponse p i d P"
| "prompt_step P (DenyAll p) = denyAllPending p P"
| "prompt_step P (Dispose p) = dispose_prompter p P"
| "prompt_step P (AskQuestion i conv qs tool aborted) =
     (case prompt_questions i conv qs tool aborted (pm_registry P) of None \<Rightarrow> P | Some g \<Rightarrow> P\<lparr>pm_registry := g\<rparr>)"
| "prompt_step P (StopQuestion i aborted) =
     (case get_interaction i (pm_registry P) of
        None \<Rightarrow> P
      | Some x \<Rightarrow> if it_kind x = KQuestion then on_registry (question_stopped i aborted (fst (readBatchMetadata x))) P else P)"
| "prompt_step P (AnswerQuestion i inp) = on_registry (\<lambda>g. fst (resolvePendingQuestion i inp g)) P"
| "prompt_step P (AskOther i x) = (if other_kind x then on_registry (register i x) P else P)"
| "prompt_step P (TakeOther i st) =
     (case get_interaction i (pm_registry P) of
        None \<Rightarrow> P
      | Some x \<Rightarrow> if other_kind x then on_registry (\<lambda>g. fst (resolve i st g)) P else P)"
| "prompt_step P (RemoveConversation c st) = on_registry (removeByConversation c st) P"
| "prompt_step P (SupersedeSecrets c st) = on_registry (supersedePendingSecrets c st) P"

definition prompt_start :: prompts where
  "prompt_start = \<lparr>pm_registry = \<lparr>rg_pending = [], rg_events = [], rg_answers = []\<rparr>, pm_owned = (\<lambda>_. [])\<rparr>"

definition prompt_run :: "prompt_event list \<Rightarrow> prompts" where
  "prompt_run es = foldl prompt_step prompt_start es"

text \<open>The ids a run draws: they are UUIDs, so no two are equal.\<close>

fun asked :: "prompt_event \<Rightarrow> string list" where
  "asked (Ask p i conv tool aborted) = [i]"
| "asked (AskQuestion i conv qs tool aborted) = [i]"
| "asked (AskOther i x) = [i]"
| "asked _ = []"

definition fresh_prompts :: "prompt_event list \<Rightarrow> bool" where
  "fresh_prompts es \<longleftrightarrow> distinct (concat (map asked es))"

section \<open>The state per id\<close>

definition answers_of :: "prompts \<Rightarrow> (string \<times> prompt_answer) list" where
  "answers_of P = rg_answers (pm_registry P)"

definition open_ids :: "prompts \<Rightarrow> string set" where
  "open_ids P = set (js_keys (rg_pending (pm_registry P)))"

definition answered_ids :: "prompts \<Rightarrow> string set" where
  "answered_ids P = fst ` set (answers_of P)"

abbreviation entry_at :: "prompts \<Rightarrow> string \<Rightarrow> interaction option" where
  "entry_at P i \<equiv> js_get (rg_pending (pm_registry P)) i"

lemma open_iff: "i \<in> open_ids P \<longleftrightarrow> entry_at P i \<noteq> None"
  by (simp add: open_ids_def js_get_None_iff)

text \<open>Where an answer comes from, given the events so far.\<close>

definition offered :: "string list list \<Rightarrow> submission list \<Rightarrow> entry_result list \<Rightarrow> bool" where
  "offered qs ss es \<longleftrightarrow>
     distinct (map sub_id ss) \<and>
     list_all2 (\<lambda>(q, os) e. case e of
         AnsweredOption q' o1 \<Rightarrow> q' = q \<and> o1 \<in> set os \<and> SubmitOption q o1 \<in> set ss
       | AnsweredText q' t \<Rightarrow> q' = q \<and> SubmitText q t \<in> set ss
       | Skipped q' \<Rightarrow> q' = q \<and> SubmitSkip q \<in> set ss
       | _ \<Rightarrow> False) (zip (question_ids qs) qs) es"

definition justified :: "prompt_event list \<Rightarrow> string \<Rightarrow> prompt_answer \<Rightarrow> bool" where
  "justified es i a \<longleftrightarrow>
     (case a of
        ConfirmAnswer UserAllow c \<Rightarrow>
          c = ByUser \<and> (\<exists>p conv tool. Ask p i conv tool False \<in> set es \<and> Respond p i UserAllow \<in> set es)
      | QuestionAnswer rs Completed \<Rightarrow>
          (\<exists>conv qs tool ss. AskQuestion i conv qs tool False \<in> set es \<and> AnswerQuestion i (Submit ss) \<in> set es \<and> offered qs ss rs)
      | _ \<Rightarrow> True)"

text \<open>A sweep that finds a permission prompt of its conversation open takes it away unanswered.\<close>

definition open_prompt_in :: "string \<Rightarrow> prompts \<Rightarrow> bool" where
  "open_prompt_in c P \<longleftrightarrow>
     list_ex (\<lambda>(i, x). it_conversationId x = Some c \<and> it_kind x = KConfirmation \<and> \<not> it_direct x) (rg_pending (pm_registry P))"

definition sweeps_early :: "prompts \<Rightarrow> prompt_event \<Rightarrow> bool" where
  "sweeps_early P e \<longleftrightarrow> (case e of RemoveConversation c st \<Rightarrow> open_prompt_in c P | _ \<Rightarrow> False)"

fun early_from :: "prompts \<Rightarrow> prompt_event list \<Rightarrow> bool" where
  "early_from P [] = False"
| "early_from P (e # es) = (sweeps_early P e \<or> early_from (prompt_step P e) es)"

definition early_sweep :: "prompt_event list \<Rightarrow> bool" where
  "early_sweep es = early_from prompt_start es"

lemma early_snoc: "early_sweep (es @ [e]) \<longleftrightarrow> early_sweep es \<or> sweeps_early (prompt_run es) e"
proof -
  have "early_from P (es @ [e]) \<longleftrightarrow> early_from P es \<or> sweeps_early (foldl prompt_step P es) e" for P
    by (induction es arbitrary: P) auto
  then show ?thesis by (simp add: early_sweep_def prompt_run_def)
qed

text \<open>
  The invariant: ids are known; answered ones are neither open nor owned; an owned one is a permission prompt of its
  only owner; and a permission prompt that is neither answered nor open was swept away with its conversation.
\<close>

definition known_ids :: "prompts \<Rightarrow> string set" where
  "known_ids P = answered_ids P \<union> open_ids P \<union> (\<Union>p. set (pm_owned P p))"

definition ids_ok :: "prompts \<Rightarrow> bool" where
  "ids_ok P \<longleftrightarrow>
     wf_map (rg_pending (pm_registry P)) \<and> distinct (map fst (answers_of P)) \<and>
     answered_ids P \<inter> open_ids P = {} \<and> (\<forall>p. answered_ids P \<inter> set (pm_owned P p) = {}) \<and>
     (\<forall>p q i. i \<in> set (pm_owned P p) \<and> i \<in> set (pm_owned P q) \<longrightarrow> p = q)"

definition entry_ok :: "prompt_event list \<Rightarrow> prompts \<Rightarrow> string \<Rightarrow> interaction \<Rightarrow> bool" where
  "entry_ok es P i x \<longleftrightarrow>
     (if other_kind x then \<forall>p. i \<notin> set (pm_owned P p)
      else if it_kind x = KQuestion
      then (\<forall>p. i \<notin> set (pm_owned P p)) \<and> (\<exists>conv qs tool. AskQuestion i conv qs tool False \<in> set es \<and> x = question_entry conv qs tool)
      else (\<exists>p conv tool. i \<in> set (pm_owned P p) \<and> Ask p i conv tool False \<in> set es \<and> x = confirmation conv tool))"

definition prompts_ok :: "prompt_event list \<Rightarrow> prompts \<Rightarrow> bool" where
  "prompts_ok es P \<longleftrightarrow>
     ids_ok P \<and> known_ids P \<subseteq> set (concat (map asked es)) \<and>
     (\<forall>i x. entry_at P i = Some x \<longrightarrow> entry_ok es P i x) \<and>
     (\<forall>p i. i \<in> set (pm_owned P p) \<longrightarrow> (\<exists>conv tool. Ask p i conv tool False \<in> set es)) \<and>
     (\<forall>i a. (i, a) \<in> set (answers_of P) \<longrightarrow> justified es i a) \<and>
     (\<forall>p i conv tool. Ask p i conv tool False \<in> set es \<longrightarrow>
        i \<in> answered_ids P \<or> (i \<in> set (pm_owned P p) \<and> i \<in> open_ids P) \<or> early_sweep es)"

lemma prompts_okI:
  assumes "ids_ok P" "known_ids P \<subseteq> set (concat (map asked es))"
    "\<And>i x. entry_at P i = Some x \<Longrightarrow> entry_ok es P i x"
    "\<And>p i. i \<in> set (pm_owned P p) \<Longrightarrow> \<exists>conv tool. Ask p i conv tool False \<in> set es"
    "\<And>i a. (i, a) \<in> set (answers_of P) \<Longrightarrow> justified es i a"
    "\<And>p i conv tool. Ask p i conv tool False \<in> set es \<Longrightarrow>
       i \<in> answered_ids P \<or> (i \<in> set (pm_owned P p) \<and> i \<in> open_ids P) \<or> early_sweep es"
  shows "prompts_ok es P"
  using assms unfolding prompts_ok_def by blast+

lemma prompts_okD:
  assumes "prompts_ok es P"
  shows "ids_ok P" "known_ids P \<subseteq> set (concat (map asked es))"
    "\<And>i x. entry_at P i = Some x \<Longrightarrow> entry_ok es P i x"
    "\<And>p i. i \<in> set (pm_owned P p) \<Longrightarrow> \<exists>conv tool. Ask p i conv tool False \<in> set es"
    "\<And>i a. (i, a) \<in> set (answers_of P) \<Longrightarrow> justified es i a"
    "\<And>p i conv tool. Ask p i conv tool False \<in> set es \<Longrightarrow>
       i \<in> answered_ids P \<or> (i \<in> set (pm_owned P p) \<and> i \<in> open_ids P) \<or> early_sweep es"
  using assms unfolding prompts_ok_def by blast+

lemma entry_ok_cong:
  "(\<And>q. (i \<in> set (pm_owned P q)) = (i \<in> set (pm_owned Q q))) \<Longrightarrow> entry_ok es P i x = entry_ok es Q i x"
  by (simp add: entry_ok_def)

section \<open>An entry goes\<close>

definition gone :: "string \<Rightarrow> (string \<times> prompt_answer) list \<Rightarrow> prompts \<Rightarrow> prompts \<Rightarrow> bool" where
  "gone i as P P' \<longleftrightarrow>
     (\<forall>j. entry_at P' j = (if j = i then None else entry_at P j)) \<and>
     (wf_map (rg_pending (pm_registry P)) \<longrightarrow> wf_map (rg_pending (pm_registry P'))) \<and>
     answers_of P' = answers_of P @ as \<and>
     (\<forall>q j. j \<in> set (pm_owned P' q) \<longrightarrow> j \<in> set (pm_owned P q)) \<and>
     (\<forall>q j. j \<in> set (pm_owned P q) \<longrightarrow> j = i \<or> j \<in> set (pm_owned P' q))"

lemma gone_sets:
  assumes "gone i as P P'"
  shows "answered_ids P' = answered_ids P \<union> fst ` set as" "open_ids P' = open_ids P - {i}"
    "\<And>q. set (pm_owned P' q) \<subseteq> set (pm_owned P q)"
proof -
  have e: "entry_at P' j = (if j = i then None else entry_at P j)" for j using assms by (simp add: gone_def)
  show "open_ids P' = open_ids P - {i}" by (simp add: set_eq_iff open_iff e)
qed (use assms in \<open>auto simp: gone_def answered_ids_def\<close>)

lemma gone_ids:
  assumes g: "gone i as P P'" and ok: "ids_ok P"
    and as: "as = [] \<or> (\<exists>a. as = [(i, a)] \<and> i \<notin> answered_ids P \<and> (\<forall>q. i \<notin> set (pm_owned P' q)))"
  shows "ids_ok P'"
proof -
  note sets = gone_sets [OF g]
  have "wf_map (rg_pending (pm_registry P'))" using g ok by (simp add: gone_def ids_ok_def)
  moreover have "distinct (map fst (answers_of P'))"
  proof -
    have "answers_of P' = answers_of P @ as" "distinct (map fst (answers_of P))" using g ok by (simp_all add: gone_def ids_ok_def)
    then show ?thesis using as by (auto simp: answered_ids_def simp del: set_map simp flip: set_map)
  qed
  moreover have "answered_ids P' \<inter> open_ids P' = {}" using sets(1,2) ok as by (auto simp: ids_ok_def)
  moreover have "answered_ids P' \<inter> set (pm_owned P' q) = {}" for q
  proof -
    have "answered_ids P \<inter> set (pm_owned P q) = {}" using ok by (simp add: ids_ok_def)
    then show ?thesis using sets(1) sets(3) [of q] as by auto
  qed
  moreover have "p = q" if "j \<in> set (pm_owned P' p)" "j \<in> set (pm_owned P' q)" for p q j
    using that sets(3) [of p] sets(3) [of q] ok unfolding ids_ok_def by blast
  ultimately show ?thesis unfolding ids_ok_def by blast
qed

lemma owner_unique: "ids_ok P \<Longrightarrow> i \<in> set (pm_owned P p) \<Longrightarrow> i \<in> set (pm_owned P q) \<Longrightarrow> p = q"
  unfolding ids_ok_def by blast

lemma not_answered:
  "ids_ok P \<Longrightarrow> i \<in> set (pm_owned P p) \<Longrightarrow> i \<notin> answered_ids P"
  "ids_ok P \<Longrightarrow> entry_at P i = Some x \<Longrightarrow> i \<notin> answered_ids P"
  by (auto simp: ids_ok_def disjoint_iff open_iff)

lemma gone_known:
  assumes g: "gone i as P P'" and as: "as = [] \<or> (\<exists>a. as = [(i, a)] \<and> i \<in> known_ids P)"
  shows "known_ids P' \<subseteq> known_ids P"
proof
  fix j assume j: "j \<in> known_ids P'"
  have "j \<in> set (pm_owned P' q) \<Longrightarrow> j \<in> set (pm_owned P q)" for q using gone_sets(3) [OF g, of q] by blast
  then have "j \<in> known_ids P \<or> j \<in> fst ` set as" using j gone_sets(1,2) [OF g] by (auto simp: known_ids_def)
  then show "j \<in> known_ids P" using as by auto
qed

lemma gone_safe:
  assumes ok: "prompts_ok es P" and g: "gone i as P P'"
    and as: "(as = [] \<and> ((\<forall>q. i \<notin> set (pm_owned P q)) \<or> entry_at P i = None \<or> early_sweep es)) \<or>
      (\<exists>a. as = [(i, a)] \<and> justified es i a \<and> i \<in> known_ids P \<and> i \<notin> answered_ids P \<and> (\<forall>q. i \<notin> set (pm_owned P' q)))"
  shows "prompts_ok es P'"
proof -
  have ids: "ids_ok P'" using gone_ids [OF g] ok as by (auto simp: prompts_ok_def)
  have known: "known_ids P' \<subseteq> known_ids P" using gone_known [OF g] as by blast
  have ent: "entry_ok es P' j x" if "entry_at P' j = Some x" for j x
  proof -
    have j: "j \<noteq> i" "entry_at P j = Some x" using that g by (auto simp: gone_def split: if_splits)
    then have "(j \<in> set (pm_owned P' q)) = (j \<in> set (pm_owned P q))" for q using g unfolding gone_def by blast
    moreover have "entry_ok es P j x" using ok j(2) by (simp add: prompts_ok_def)
    ultimately show ?thesis using entry_ok_cong [of j P' P] by simp
  qed
  have own: "\<exists>conv tool. Ask p j conv tool False \<in> set es" if "j \<in> set (pm_owned P' p)" for p j
    using that g ok unfolding gone_def prompts_ok_def by blast
  have just: "justified es j a" if "(j, a) \<in> set (answers_of P')" for j a
    using that prompts_okD(5) [OF ok, of j a] g as by (auto simp: gone_def)
  have live: "j \<in> answered_ids P' \<or> (j \<in> set (pm_owned P' p) \<and> j \<in> open_ids P') \<or> early_sweep es"
    if a: "Ask p j conv tool False \<in> set es" for p j conv tool
  proof -
    have old: "j \<in> answered_ids P \<or> (j \<in> set (pm_owned P p) \<and> j \<in> open_ids P) \<or> early_sweep es"
      using ok a unfolding prompts_ok_def by blast
    have ans: "j \<in> answered_ids P \<Longrightarrow> j \<in> answered_ids P'" using g by (auto simp: gone_def answered_ids_def)
    show ?thesis
    proof (cases "j = i")
      case True
      then show ?thesis using old ans as g by (auto simp: gone_def answered_ids_def open_iff)
    next
      case False
      then show ?thesis using old ans g by (auto simp: gone_def open_iff)
    qed
  qed
  show ?thesis using ids known ent own just live prompts_okD(2) [OF ok] by (intro prompts_okI) blast+
qed

section \<open>What the operations take away\<close>

lemma resolve_effect [simp]:
  "rg_pending (fst (resolve i st g)) = js_delete i (rg_pending g)"
  "rg_answers (fst (resolve i st g)) = rg_answers g"
  "snd (resolve i st g) = js_get (rg_pending g) i"
  by (auto simp: resolve_def get_interaction_def emitResolved_def js_delete_absent split: option.splits)

lemma answer_effect [simp]:
  "rg_pending (answer i a g) = rg_pending g" "rg_answers (answer i a g) = rg_answers g @ [(i, a)]"
  by (simp_all add: answer_def)

lemma settle_eq:
  "settle p i st a P = disown p i (P\<lparr>pm_registry :=
     (case entry_at P i of
        Some x \<Rightarrow> if it_rpc x then answer i a (fst (resolve i st (pm_registry P))) else fst (resolve i st (pm_registry P))
      | None \<Rightarrow> fst (resolve i st (pm_registry P)))\<rparr>)"
  using resolve_effect(3) [of i st "pm_registry P"]
  by (cases "resolve i st (pm_registry P)") (auto simp: settle_def split: option.splits)

lemma disown_fields [simp]:
  "pm_registry (disown p i P) = pm_registry P"
  "set (pm_owned (disown p i P) q) = (if q = p then set (pm_owned P p) - {i} else set (pm_owned P q))"
  by (auto simp: disown_def)

lemma settle_gone:
  "gone i (case entry_at P i of Some x \<Rightarrow> if it_rpc x then [(i, a)] else [] | None \<Rightarrow> []) P (settle p i st a P)"
  by (auto simp: gone_def settle_eq answers_of_def split: option.splits)

lemma settle_disowns: "i \<notin> set (pm_owned (settle p i st a P) p)"
  by (simp add: settle_eq)

definition owner_settles :: "string \<Rightarrow> string \<Rightarrow> prompts \<Rightarrow> bool" where
  "owner_settles p i P \<longleftrightarrow> (entry_at P i \<noteq> None \<longrightarrow> i \<in> set (pm_owned P p))"

lemma owner_settles_stays:
  assumes "gone i as P P'" "owner_settles p j P" "j \<noteq> i \<or> entry_at P' j = None"
  shows "owner_settles p j P'"
  using assms unfolding gone_def owner_settles_def by metis

lemma settle_safe:
  assumes ok: "prompts_ok es P" and own: "owner_settles p i P" and just: "justified es i a"
  shows "prompts_ok es (settle p i st a P)"
proof (cases "entry_at P i")
  case None
  then show ?thesis using gone_safe [OF ok settle_gone [of i a P p st]] by simp
next
  case (Some x)
  then have i: "i \<in> set (pm_owned P p)" using own by (simp add: owner_settles_def)
  have e: "entry_ok es P i x" "ids_ok P" using ok Some by (simp_all add: prompts_ok_def)
  have x: "it_rpc x" using e(1) i by (auto simp: entry_ok_def confirmation_def split: if_splits)
  note one = owner_unique [OF e(2)] and un = not_answered(1) [OF e(2) i]
  have "i \<notin> set (pm_owned (settle p i st a P) q)" for q
    using one [of i q p] i settle_disowns [of i p st a P] gone_sets(3) [OF settle_gone [of i a P p st], of q] by blast
  then show ?thesis
    using gone_safe [OF ok settle_gone [of i a P p st]] Some x i un just by (auto simp: known_ids_def)
qed

lemma settle_all_safe:
  assumes "prompts_ok es P" "\<And>i. i \<in> set is \<Longrightarrow> owner_settles p i P" "\<And>i. i \<in> set is \<Longrightarrow> justified es i (f i)"
  shows "prompts_ok es (foldl (\<lambda>P i. settle p i st (f i) P) P is)"
  using assms
proof (induction "is" arbitrary: P)
  case (Cons i js)
  have "owner_settles p j (settle p i st (f i) P)" if "j \<in> set js" for j
    using owner_settles_stays [OF settle_gone [of i "f i" P p st], of p j] Cons.prems(2) [of j] that
      settle_gone [of i "f i" P p st] by (auto simp: gone_def)
  then show ?case using Cons settle_safe [of es P p i "f i" st] by simp
qed simp

lemma on_registry_fields [simp]:
  "pm_registry (on_registry f P) = f (pm_registry P)" "pm_owned (on_registry f P) = pm_owned P"
  by (simp_all add: on_registry_def)

lemma registry_gone:
  assumes "rg_pending (f (pm_registry P)) = js_delete i (rg_pending (pm_registry P))"
    "rg_answers (f (pm_registry P)) = rg_answers (pm_registry P) @ as"
  shows "gone i as P (on_registry f P)"
  using assms by (simp add: gone_def answers_of_def)

text \<open>An entry that no prompter owns may go with or without an answer; an owned one only with its conversation.\<close>

lemma registry_safe:
  assumes ok: "prompts_ok es P" and x: "entry_at P i = Some x"
    and f: "rg_pending (f (pm_registry P)) = js_delete i (rg_pending (pm_registry P))"
      "rg_answers (f (pm_registry P)) = rg_answers (pm_registry P) @ as"
    and as: "as = [] \<or> (\<exists>a. as = [(i, a)] \<and> justified es i a \<and> (other_kind x \<or> it_kind x = KQuestion))"
    and sweep: "other_kind x \<or> it_kind x = KQuestion \<or> early_sweep es"
  shows "prompts_ok es (on_registry f P)"
proof (rule gone_safe [OF ok registry_gone [of f P i as, OF f]])
  have e: "entry_ok es P i x" "ids_ok P" using ok x by (simp_all add: prompts_ok_def)
  then have "other_kind x \<or> it_kind x = KQuestion \<Longrightarrow> i \<notin> set (pm_owned P q)" for q by (auto simp: entry_ok_def split: if_splits)
  then show "(as = [] \<and> ((\<forall>q. i \<notin> set (pm_owned P q)) \<or> entry_at P i = None \<or> early_sweep es)) \<or>
      (\<exists>a. as = [(i, a)] \<and> justified es i a \<and> i \<in> known_ids P \<and> i \<notin> answered_ids P \<and>
        (\<forall>q. i \<notin> set (pm_owned (on_registry f P) q)))"
    using as sweep not_answered(2) [OF e(2) x] x by (auto simp: known_ids_def open_iff)
qed

section \<open>Sweeps over a conversation\<close>

lemma settleSecret_effect:
  "rg_pending (settleSecret i st g) = js_delete i (rg_pending g)"
  "rg_answers (settleSecret i st g) = rg_answers g @
     (case js_get (rg_pending g) i of
        Some x \<Rightarrow> if it_rpc x then [(i, SecretAnswer (if st = StSuperseded then StSuperseded else StCancelled))] else []
      | None \<Rightarrow> [])"
  using resolve_effect [of i st g]
  by (cases "resolve i st g"; force simp: settleSecret_def js_delete_absent split: option.splits)+

lemma secret_other: "it_kind x = KSecret \<Longrightarrow> other_kind x"
  by (simp add: other_kind_def)

lemma settleSecret_safe:
  assumes "prompts_ok es P" "entry_at P i = Some x" "it_kind x = KSecret"
  shows "prompts_ok es (on_registry (settleSecret i st) P)"
  using registry_safe [of es P i x "settleSecret i st", OF assms(1,2) settleSecret_effect(1) settleSecret_effect(2)]
    assms(2) secret_other [OF assms(3)]
  by (simp add: justified_def)

text \<open>A sweep visits a snapshot: an entry it visits is still the one it read, or gone.\<close>

definition snapshot_of :: "(string \<times> interaction) list \<Rightarrow> prompts \<Rightarrow> bool" where
  "snapshot_of xs P \<longleftrightarrow> (\<forall>i x. (i, x) \<in> set xs \<longrightarrow> entry_at P i = Some x \<or> entry_at P i = None)"

lemma sweep_safe:
  assumes one: "\<And>P e. e \<in> A \<Longrightarrow> prompts_ok es P \<Longrightarrow> snapshot_of [e] P \<Longrightarrow> prompts_ok es (on_registry (\<lambda>g. f g e) P)"
    and shrink: "\<And>g e j. js_get (rg_pending (f g e)) j = js_get (rg_pending g) j \<or> js_get (rg_pending (f g e)) j = None"
    and ok: "prompts_ok es P" "snapshot_of xs P" "set xs \<subseteq> A"
  shows "prompts_ok es (on_registry (\<lambda>g. foldl f g xs) P)"
  using ok
proof (induction xs arbitrary: P)
  case Nil
  then show ?case by (simp add: on_registry_def)
next
  case (Cons e xs)
  let ?P = "on_registry (\<lambda>g. f g e) P"
  have "prompts_ok es ?P" using Cons.prems one by (simp add: snapshot_of_def)
  moreover have "entry_at ?P i = Some x \<or> entry_at ?P i = None" if "(i, x) \<in> set xs" for i x
  proof -
    have "entry_at P i = Some x \<or> entry_at P i = None" using that Cons.prems(2) by (simp add: snapshot_of_def)
    then show ?thesis using shrink [of "pm_registry P" e i] by auto
  qed
  then have "snapshot_of xs ?P" unfolding snapshot_of_def by blast
  ultimately have "prompts_ok es (on_registry (\<lambda>g. foldl f g xs) ?P)" using Cons.prems(3) by (intro Cons.IH) auto
  then show ?case by (simp add: on_registry_def)
qed

lemma sweep_shrinks:
  "js_get (rg_pending (remove_one c st g e)) j = js_get (rg_pending g) j \<or> js_get (rg_pending (remove_one c st g e)) j = None"
  "js_get (rg_pending (supersede_one c st g e)) j = js_get (rg_pending g) j \<or> js_get (rg_pending (supersede_one c st g e)) j = None"
  by (auto simp: remove_one_def supersede_one_def settleSecret_effect split: prod.splits)

lemma settleSecret_absent: "js_get (rg_pending g) i = None \<Longrightarrow> settleSecret i st g = g"
  by (simp add: settleSecret_def resolve_def get_interaction_def)

lemma resolve_absent: "js_get (rg_pending g) i = None \<Longrightarrow> resolve i st g = (g, None)"
  by (simp add: resolve_def get_interaction_def)

lemma remove_one_safe:
  assumes ok: "prompts_ok es P" and e: "snapshot_of [(i, x)] P"
    and sweep: "it_conversationId x = Some c \<and> it_kind x = KConfirmation \<and> \<not> it_direct x \<longrightarrow> early_sweep es"
  shows "prompts_ok es (on_registry (\<lambda>g. remove_one c st g (i, x)) P)"
proof (cases "entry_at P i")
  case None
  then have "on_registry (\<lambda>g. remove_one c st g (i, x)) P = P"
    by (simp add: on_registry_def remove_one_def settleSecret_absent resolve_absent)
  then show ?thesis using ok by simp
next
  case (Some y)
  then have y: "entry_at P i = Some x" using e by (simp add: snapshot_of_def)
  consider "it_conversationId x = Some c" "it_kind x = KSecret"
    | "it_conversationId x = Some c" "it_kind x \<noteq> KSecret" "it_kind x \<notin> set KEPT_KINDS"
    | "\<not> (it_conversationId x = Some c \<and> it_kind x \<notin> set KEPT_KINDS)"
    by blast
  then show ?thesis
  proof cases
    case 1
    then show ?thesis using settleSecret_safe [OF ok y] by (simp add: remove_one_def KEPT_KINDS_def)
  next
    case 2
    then show ?thesis using registry_safe [of es P i x "\<lambda>g. fst (resolve i st g)" "[]", OF ok y] sweep by (auto simp: remove_one_def other_kind_def)
  next
    case 3
    then have "on_registry (\<lambda>g. remove_one c st g (i, x)) P = P" by (auto simp: remove_one_def on_registry_def)
    then show ?thesis using ok by simp
  qed
qed

lemma supersede_one_safe:
  assumes ok: "prompts_ok es P" and e: "snapshot_of [(i, x)] P"
  shows "prompts_ok es (on_registry (\<lambda>g. supersede_one c st g (i, x)) P)"
proof (cases "it_conversationId x = Some c \<and> it_kind x = KSecret \<and> entry_at P i \<noteq> None")
  case True
  then show ?thesis using settleSecret_safe [OF ok, of i x st] e by (auto simp: supersede_one_def snapshot_of_def)
next
  case False
  then have "on_registry (\<lambda>g. supersede_one c st g (i, x)) P = P"
    by (auto simp: supersede_one_def on_registry_def settleSecret_absent)
  then show ?thesis using ok by simp
qed

lemma snapshot_now: "prompts_ok es P \<Longrightarrow> snapshot_of (rg_pending (pm_registry P)) P"
  by (auto simp: snapshot_of_def prompts_ok_def ids_ok_def intro: js_get_mem)

lemma removeByConversation_safe:
  assumes ok: "prompts_ok es P" and early: "open_prompt_in c P \<longrightarrow> early_sweep es"
  shows "prompts_ok es (on_registry (removeByConversation c st) P)"
proof -
  have "prompts_ok es (on_registry (\<lambda>g. foldl (remove_one c st) g (rg_pending (pm_registry P))) P)"
  proof (rule sweep_safe [OF _ sweep_shrinks(1) ok snapshot_now [OF ok] subset_refl])
    fix Q e assume e: "e \<in> set (rg_pending (pm_registry P))" "prompts_ok es Q" "snapshot_of [e] Q"
    obtain i x where x: "e = (i, x)" by (cases e)
    then have "it_conversationId x = Some c \<and> it_kind x = KConfirmation \<and> \<not> it_direct x \<longrightarrow> early_sweep es"
      using e(1) early by (auto simp: open_prompt_in_def list_ex_iff)
    then show "prompts_ok es (on_registry (\<lambda>g. remove_one c st g e) Q)" using remove_one_safe e(2,3) x by simp
  qed
  then show ?thesis by (simp add: on_registry_def removeByConversation_def)
qed

lemma supersedePendingSecrets_safe:
  assumes "prompts_ok es P"
  shows "prompts_ok es (on_registry (supersedePendingSecrets c st) P)"
proof -
  have "prompts_ok es (on_registry (\<lambda>g. foldl (supersede_one c st) g (rg_pending (pm_registry P))) P)"
    by (rule sweep_safe [OF _ sweep_shrinks(2) assms snapshot_now [OF assms] subset_refl]) (auto intro: supersede_one_safe)
  then show ?thesis by (simp add: on_registry_def supersedePendingSecrets_def)
qed

section \<open>A new prompt\<close>

lemma justified_mono: "justified es i a \<Longrightarrow> set es \<subseteq> set fs \<Longrightarrow> justified fs i a"
  by (auto simp: justified_def split: prompt_answer.splits user_decision.splits overall.splits)

lemma entry_ok_mono: "entry_ok es P i x \<Longrightarrow> set es \<subseteq> set fs \<Longrightarrow> entry_ok fs P i x"
  by (auto simp: entry_ok_def split: if_splits)

lemma more_events:
  assumes ok: "prompts_ok es P" and e: "\<And>p i conv tool. e \<noteq> Ask p i conv tool False"
  shows "prompts_ok (es @ [e]) P"
proof (rule prompts_okI)
  have sub: "set es \<subseteq> set (es @ [e])" by auto
  note old = prompts_okD [OF ok]
  show "ids_ok P" by (rule old(1))
  show "known_ids P \<subseteq> set (concat (map asked (es @ [e])))" using old(2) by auto
  show "entry_ok (es @ [e]) P i x" if "entry_at P i = Some x" for i x by (rule entry_ok_mono [OF old(3) [OF that] sub])
  show "\<exists>conv tool. Ask p i conv tool False \<in> set (es @ [e])" if "i \<in> set (pm_owned P p)" for p i
    using old(4) [OF that] by auto
  show "justified (es @ [e]) i a" if "(i, a) \<in> set (answers_of P)" for i a by (rule justified_mono [OF old(5) [OF that] sub])
  show "i \<in> answered_ids P \<or> (i \<in> set (pm_owned P p) \<and> i \<in> open_ids P) \<or> early_sweep (es @ [e])"
    if "Ask p i conv tool False \<in> set (es @ [e])" for p i conv tool
    using old(6) [of p i conv tool] that e [of p i conv tool] by (auto simp: early_snoc)
qed

lemma answer_fresh:
  assumes ok: "prompts_ok es P" and i: "i \<notin> known_ids P" "i \<in> set (concat (map asked es))" and a: "justified es i a"
  shows "prompts_ok es (on_registry (answer i a) P)"
proof -
  let ?P = "on_registry (answer i a) P"
  note old = prompts_okD [OF ok]
  have f: "answers_of ?P = answers_of P @ [(i, a)]" "answered_ids ?P = insert i (answered_ids P)" "open_ids ?P = open_ids P"
    by (simp_all add: answers_of_def answered_ids_def open_ids_def)
  have n: "i \<notin> fst ` set (answers_of P)" "i \<notin> open_ids P" "\<And>q. i \<notin> set (pm_owned P q)"
    using i(1) by (auto simp: known_ids_def answered_ids_def)
  show ?thesis
  proof (rule prompts_okI)
    show "ids_ok ?P" using old(1) n unfolding ids_ok_def f by simp
    show "known_ids ?P \<subseteq> set (concat (map asked es))" using old(2) i(2) by (auto simp: known_ids_def f)
    show "justified es j b" if "(j, b) \<in> set (answers_of ?P)" for j b using that old(5) [of j b] a by (auto simp: f)
    show "entry_ok es ?P j x" if "entry_at ?P j = Some x" for j x
      using that old(3) [of j x] entry_ok_cong [of j ?P P] by simp
  qed (use old(4,6) in \<open>auto simp: f\<close>)
qed

text \<open>Registering under a fresh id, for an owner or for none.\<close>

lemma register_ids:
  assumes ok: "ids_ok P" and i: "i \<notin> known_ids P"
    and own: "\<And>q j. j \<in> set (ow q) \<longleftrightarrow> j \<in> set (pm_owned P q) \<or> (own \<and> q = p \<and> j = i)"
  shows "ids_ok (on_registry (register i x) (P\<lparr>pm_owned := ow\<rparr>))"
proof -
  let ?P = "on_registry (register i x) (P\<lparr>pm_owned := ow\<rparr>)"
  have f: "answers_of ?P = answers_of P" "answered_ids ?P = answered_ids P" "open_ids ?P = insert i (open_ids P)"
    by (simp_all add: answers_of_def answered_ids_def open_ids_def register_def js_keys_set del: set_map)
  have n: "i \<notin> answered_ids P" "\<And>q. i \<notin> set (pm_owned P q)" using i by (auto simp: known_ids_def)
  have "wf_map (rg_pending (pm_registry ?P))" using ok by (simp add: register_def ids_ok_def)
  moreover have "answered_ids P \<inter> set (ow q) = {}" for q
  proof -
    have "answered_ids P \<inter> set (pm_owned P q) = {}" using ok by (simp add: ids_ok_def)
    then show ?thesis using own n(1) by blast
  qed
  moreover have "\<forall>q r j. j \<in> set (ow q) \<and> j \<in> set (ow r) \<longrightarrow> q = r" using own owner_unique [OF ok] n(2) by metis
  ultimately show ?thesis using ok n(1) unfolding ids_ok_def f by simp
qed

text \<open>\<open>new\<close> says that \<open>p\<close> owns the new prompt.\<close>

lemma register_fresh:
  assumes ok: "prompts_ok es P" and i: "i \<notin> known_ids P" "i \<in> set (asked e)"
    and own: "\<And>q j. j \<in> set (ow q) \<longleftrightarrow> j \<in> set (pm_owned P q) \<or> (new \<and> q = p \<and> j = i)"
    and x: "entry_ok (es @ [e]) (P\<lparr>pm_owned := ow\<rparr>) i x"
    and e: "if new then \<exists>conv tool. e = Ask p i conv tool False else \<forall>q j conv tool. e \<noteq> Ask q j conv tool False"
  shows "prompts_ok (es @ [e]) (on_registry (register i x) (P\<lparr>pm_owned := ow\<rparr>))"
proof -
  let ?P = "on_registry (register i x) (P\<lparr>pm_owned := ow\<rparr>)"
  have sub: "set es \<subseteq> set (es @ [e])" by auto
  note old = prompts_okD [OF ok]
  have f: "answers_of ?P = answers_of P" "answered_ids ?P = answered_ids P" "open_ids ?P = insert i (open_ids P)" "pm_owned ?P = ow"
    by (simp_all add: answers_of_def answered_ids_def open_ids_def register_def js_keys_set del: set_map)
  show ?thesis
  proof (rule prompts_okI)
    show "ids_ok ?P" by (rule register_ids [OF old(1) i(1) own])
    have "known_ids ?P \<subseteq> insert i (known_ids P)" using own by (auto simp: known_ids_def f)
    then show "known_ids ?P \<subseteq> set (concat (map asked (es @ [e])))" using old(2) i(2) by auto
    show "entry_ok (es @ [e]) ?P j y" if j: "entry_at ?P j = Some y" for j y
    proof (cases "j = i")
      case True
      then show ?thesis using j x entry_ok_cong [of i ?P "P\<lparr>pm_owned := ow\<rparr>"] by (simp add: register_def)
    next
      case False
      then have "entry_ok (es @ [e]) P j y" using j entry_ok_mono [OF old(3) sub] by (simp add: register_def)
      then show ?thesis using own False entry_ok_cong [of j ?P P] by (simp add: f)
    qed
    show "\<exists>conv tool. Ask q j conv tool False \<in> set (es @ [e])" if "j \<in> set (pm_owned ?P q)" for q j
    proof (cases "j \<in> set (pm_owned P q)")
      case True
      then show ?thesis using old(4) [of j q] by auto
    next
      case False
      then show ?thesis using that own [of j q] e by (auto simp: f)
    qed
    show "justified (es @ [e]) j a" if "(j, a) \<in> set (answers_of ?P)" for j a
      using that justified_mono [OF old(5) sub] by (simp add: f)
    show "j \<in> answered_ids ?P \<or> (j \<in> set (pm_owned ?P q) \<and> j \<in> open_ids ?P) \<or> early_sweep (es @ [e])"
      if "Ask q j conv tool False \<in> set (es @ [e])" for q j conv tool
      using that old(6) [of q j conv tool] own [of j q] e by (auto simp: f early_snoc split: if_splits)
  qed
qed

section \<open>Every event keeps the invariant\<close>

lemma fresh_unknown: "prompts_ok es P \<Longrightarrow> fresh_prompts (es @ [e]) \<Longrightarrow> i \<in> set (asked e) \<Longrightarrow> i \<notin> known_ids P"
  using prompts_okD(2) [of es P] by (fastforce simp: fresh_prompts_def)

lemma ask_safe:
  assumes ok: "prompts_ok es P" and new: "fresh_prompts (es @ [e])" and e: "e = Ask p i conv tool aborted"
  shows "prompts_ok (es @ [e]) (prompt_confirmation p i conv tool aborted P)"
proof (cases aborted)
  case True
  have "prompts_ok (es @ [e]) (on_registry (answer i (ConfirmAnswer UserDeny ByAbort)) P)"
    using fresh_unknown [OF ok new, of i] e True
    by (intro answer_fresh more_events [OF ok]) (auto simp: justified_def)
  then show ?thesis using True by (simp add: prompt_confirmation_def)
next
  case False
  have "prompts_ok (es @ [e]) (on_registry (register i (confirmation conv tool)) (P\<lparr>pm_owned := (pm_owned P)(p := js_add i (pm_owned P p))\<rparr>))"
    by (rule register_fresh [OF ok fresh_unknown [OF ok new], where new = True and p = p])
       (use e False in \<open>auto simp: entry_ok_def confirmation_def other_kind_def\<close>)
  then show ?thesis using False by (simp add: prompt_confirmation_def)
qed

lemma register_other_safe:
  assumes ok: "prompts_ok es P" and new: "fresh_prompts (es @ [e])" and i: "i \<in> set (asked e)"
    and e: "\<And>q j conv tool. e \<noteq> Ask q j conv tool False"
    and x: "other_kind x \<or> (\<exists>conv qs tool. e = AskQuestion i conv qs tool False \<and> x = question_entry conv qs tool)"
  shows "prompts_ok (es @ [e]) (on_registry (register i x) P)"
proof -
  have "i \<notin> set (pm_owned P q)" for q using fresh_unknown [OF ok new i] by (auto simp: known_ids_def)
  then have "prompts_ok (es @ [e]) (on_registry (register i x) (P\<lparr>pm_owned := pm_owned P\<rparr>))"
    by (intro register_fresh [OF ok fresh_unknown [OF ok new i] i, where new = False and p = "[]"])
       (use e x in \<open>auto simp: entry_ok_def question_entry_def other_kind_def\<close>)
  then show ?thesis by simp
qed

lemma question_unoffered [simp]: "justified es i (QuestionAnswer rs OverallAborted)" "justified es i (QuestionAnswer rs OverallTimedOut)"
  "justified es i (QuestionAnswer rs Closed)" "justified es i (ConfirmAnswer UserDeny c)" "justified es i ConfirmDisposed"
  by (simp_all add: justified_def)

lemma finish_question_effect:
  assumes "i \<notin> fst ` set (rg_answers g)"
  shows "rg_pending (finish_question i r g) = js_delete i (rg_pending g)"
    "rg_answers (finish_question i r g) = rg_answers g @ [(i, QuestionAnswer (fst r) (snd r))]"
  using assms by (simp_all add: finish_question_def)

lemma stop_safe:
  assumes ok: "prompts_ok es P" and x: "entry_at P i = Some x" "it_kind x = KQuestion"
  shows "prompts_ok es (on_registry (question_stopped i aborted qs) P)"
proof -
  have "i \<notin> fst ` set (rg_answers (pm_registry P))"
    using not_answered(2) [OF prompts_okD(1) [OF ok] x(1)] by (simp add: answered_ids_def answers_of_def)
  then show ?thesis
    using registry_safe [of es P i x "question_stopped i aborted qs", OF ok x(1)] x(2)
    by (simp add: question_stopped_def finish_question_effect)
qed

section \<open>A completed question offers what it answers\<close>

definition decimal_value :: "string \<Rightarrow> nat" where
  "decimal_value s = foldl (\<lambda>a c. 10 * a + (of_char c - 48)) 0 s"

lemma decimal_value_of: "decimal_value (nat_to_string n) = n"
proof (induction n rule: nat_to_string.induct)
  case (1 n)
  have d: "(of_char (char_of (48 + n mod 10) :: char) :: nat) - 48 = n mod 10" by simp
  show ?case
  proof (cases "n < 10")
    case True
    then show ?thesis using d by (subst nat_to_string.simps) (simp add: decimal_value_def)
  next
    case False
    then have "decimal_value (nat_to_string n) = 10 * (n div 10) + n mod 10"
      using 1 d by (subst nat_to_string.simps) (simp add: decimal_value_def)
    then show ?thesis by simp
  qed
qed

lemma question_ids_distinct: "distinct (question_ids qs)"
proof -
  have "inj_on (\<lambda>n. ''q'' @ nat_to_string (Suc n)) {0..<length qs}"
  proof (rule inj_onI)
    fix a b assume "''q'' @ nat_to_string (Suc a) = ''q'' @ nat_to_string (Suc b)"
    then have "Suc a = Suc b" by (metis append_same_eq decimal_value_of same_append_eq)
    then show "a = b" by simp
  qed
  then show ?thesis by (simp add: question_ids_def distinct_map)
qed

lemma question_ids_length [simp]: "length (question_ids qs) = length qs"
  by (simp add: question_ids_def)

lemma submissions_found:
  "submissions_ok m seen ss \<Longrightarrow> q \<in> sub_id ` set ss \<Longrightarrow>
   \<exists>s \<in> set ss. find (\<lambda>s. sub_id s = q) ss = Some s \<and> sub_id s = q \<and> (\<forall>o1. s = SubmitOption q o1 \<longrightarrow> o1 \<in> set (options_of m q))"
proof (induction ss arbitrary: seen)
  case (Cons s ss)
  then show ?case by (cases "sub_id s = q") auto
qed simp

lemma submissions_distinct: "submissions_ok m seen ss \<Longrightarrow> distinct (map sub_id ss) \<and> sub_id ` set ss \<inter> set seen = {}"
  by (induction m seen ss rule: submissions_ok.induct) auto

lemma completed_offered:
  assumes "buildCompletedResult ss (question_entry conv qs tool) = Some r"
  shows "snd r = Completed" "offered qs ss (fst r)"
proof -
  let ?ids = "question_ids qs"
  let ?f = "\<lambda>q. entry_of (the (find (\<lambda>s. sub_id s = q) ss))"
  have ok: "submissions_ok (zip ?ids qs) [] ss" "set ?ids \<subseteq> sub_id ` set ss" and r: "r = (map ?f ?ids, Completed)"
    using assms by (auto simp: buildCompletedResult_def readBatchMetadata_def question_entry_def buildBatchEntries_def split: if_splits)
  show "snd r = Completed" using r by simp
  have "case (?ids ! n, qs ! n) of (q, os) \<Rightarrow> (case ?f (?ids ! n) of
        AnsweredOption q' o1 \<Rightarrow> q' = q \<and> o1 \<in> set os \<and> SubmitOption q o1 \<in> set ss
      | AnsweredText q' t \<Rightarrow> q' = q \<and> SubmitText q t \<in> set ss
      | Skipped q' \<Rightarrow> q' = q \<and> SubmitSkip q \<in> set ss | _ \<Rightarrow> False)" if n: "n < length qs" for n
  proof -
    have "?ids ! n \<in> sub_id ` set ss" using ok(2) n by (simp add: nth_mem subset_iff)
    then obtain s where s: "s \<in> set ss" "find (\<lambda>s. sub_id s = ?ids ! n) ss = Some s" "sub_id s = ?ids ! n"
        "\<And>o1. s = SubmitOption (?ids ! n) o1 \<Longrightarrow> o1 \<in> set (options_of (zip ?ids qs) (?ids ! n))"
      using submissions_found [OF ok(1)] by blast
    have "js_get (zip ?ids qs) (?ids ! n) = Some (qs ! n)"
      using n question_ids_distinct [of qs] by (simp add: js_get_def map_of_zip_nth)
    then show ?thesis using s by (cases s) (auto simp: entry_of_def sub_id_def options_of_def)
  qed
  then show "offered qs ss (fst r)"
    using submissions_distinct [OF ok(1)] by (simp add: r offered_def list_all2_conv_all_nth)
qed

lemma delete_twice [simp]: "js_delete i (js_delete i m) = js_delete i m"
  by (simp add: js_delete_def)

lemma question_safe:
  assumes ok: "prompts_ok es P" and e: "AnswerQuestion i inp \<in> set es"
  shows "prompts_ok es (on_registry (\<lambda>g. fst (resolvePendingQuestion i inp g)) P)"
proof -
  let ?f = "\<lambda>g. fst (resolvePendingQuestion i inp g)"
  let ?g = "pm_registry P"
  show ?thesis
  proof (cases "?f ?g = ?g")
    case True
    then show ?thesis using ok by (simp add: on_registry_def)
  next
    case False
    then obtain x r where x: "entry_at P i = Some x" "it_kind x = KQuestion"
      and r: "(case inp of CloseQuestion \<Rightarrow> Some (map Skipped (fst (readBatchMetadata x)), Closed) | Submit ss \<Rightarrow> buildCompletedResult ss x) = Some r"
      by (auto simp: resolvePendingQuestion_def get_interaction_def split: option.splits if_splits)
    obtain conv qs tool where q: "AskQuestion i conv qs tool False \<in> set es" "x = question_entry conv qs tool"
      using prompts_okD(3) [OF ok x(1)] x(2) by (auto simp: entry_ok_def other_kind_def)
    let ?g1 = "fst (resolve i (if inp = CloseQuestion then StCancelled else StAnswered) ?g)"
    have f: "?f ?g = finish_question i r ?g1"
    proof -
      have "it_rpc x" using q(2) by (simp add: question_entry_def)
      then show ?thesis using x by (simp add: resolvePendingQuestion_def get_interaction_def r Let_def)
    qed
    have n: "i \<notin> fst ` set (rg_answers ?g1)"
      using not_answered(2) [OF prompts_okD(1) [OF ok] x(1)] by (simp add: answered_ids_def answers_of_def)
    have j: "justified es i (QuestionAnswer (fst r) (snd r))"
    proof (cases inp)
      case (Submit ss)
      then have "buildCompletedResult ss (question_entry conv qs tool) = Some r" using r q(2) by simp
      then show ?thesis using completed_offered [of ss conv qs tool r] q(1) e Submit by (auto simp: justified_def)
    next
      case CloseQuestion
      then show ?thesis using r by auto
    qed
    show ?thesis
      by (rule registry_safe [of es P i x ?f "[(i, QuestionAnswer (fst r) (snd r))]", OF ok x(1)])
         (use x(2) j finish_question_effect [OF n] f in simp_all)
  qed
qed

section \<open>Runs\<close>

lemma respond_safe:
  assumes "prompts_ok es P" "Respond p i d \<in> set es"
  shows "prompts_ok es (handleConfirmationResponse p i d P)"
proof (cases "i \<in> set (pm_owned P p)")
  case True
  obtain conv tool where "Ask p i conv tool False \<in> set es" using prompts_okD(4) [OF assms(1) True] by blast
  then have "justified es i (ConfirmAnswer d ByUser)"
    using assms(2) by (cases d) (auto simp: justified_def)
  then show ?thesis
    using True settle_safe [OF assms(1), of p i] by (simp add: handleConfirmationResponse_def resolveConfirmation_def owner_settles_def)
qed (use assms in \<open>simp add: handleConfirmationResponse_def\<close>)

lemma abort_safe:
  assumes ok: "prompts_ok es P"
  shows "prompts_ok es (confirmation_abort p i P)"
proof (cases "i \<in> set (pm_owned P p)")
  case True
  let ?P = "on_registry (\<lambda>g. answer i (ConfirmAnswer UserDeny ByAbort) (fst (resolve i StCancelled g))) (disown p i P)"
  note ids = prompts_okD(1) [OF ok]
  have "gone i [(i, ConfirmAnswer UserDeny ByAbort)] P ?P" by (auto simp: gone_def answers_of_def)
  moreover have "i \<notin> set (pm_owned ?P q)" for q using owner_unique [OF ids True, of q] by auto
  moreover have "i \<in> known_ids P" using True by (auto simp: known_ids_def)
  ultimately have "prompts_ok es ?P" using gone_safe [OF ok] not_answered(1) [OF ids True] by simp
  then show ?thesis using True by (simp add: confirmation_abort_def)
qed (use ok in \<open>simp add: confirmation_abort_def\<close>)

theorem prompts_ok_step:
  assumes ok: "prompts_ok es P" and new: "fresh_prompts (es @ [e])" and run: "P = prompt_run es"
  shows "prompts_ok (es @ [e]) (prompt_step P e)"
proof -
  have more: "prompts_ok (es @ [e]) P" if "\<And>p i conv tool. e \<noteq> Ask p i conv tool False" by (rule more_events [OF ok that])
  show ?thesis
  proof (cases e)
    case (Ask p i conv tool aborted)
    then show ?thesis using ask_safe [OF ok new] by simp
  next
    case (Timeout p i)
    then show ?thesis using more settle_safe [of "es @ [e]" P p i] by (simp add: confirmation_timeout_def owner_settles_def)
  next
    case (Abort p i)
    then show ?thesis using more abort_safe by simp
  next
    case (Respond p i d)
    then show ?thesis using respond_safe [OF more, of p i d] by simp
  next
    case (DenyAll p)
    then show ?thesis
      using settle_all_safe [OF more, of "pm_owned P p" p "\<lambda>_. ConfirmAnswer UserDeny BySystem"]
      by (simp add: denyAllPending_def owner_settles_def)
  next
    case (Dispose p)
    then show ?thesis
      using settle_all_safe [OF more, of "pm_owned P p" p "\<lambda>_. ConfirmDisposed"]
      by (simp add: dispose_prompter_def owner_settles_def)
  next
    case (AskQuestion i conv qs tool aborted)
    note m = more [unfolded AskQuestion, simplified]
    have n: "i \<notin> known_ids P" using fresh_unknown [OF ok new] AskQuestion by simp
    have "prompts_ok (es @ [e]) (on_registry (answer i (QuestionAnswer rs OverallAborted)) P)" for rs
      using answer_fresh [OF more n] AskQuestion by simp
    moreover have "prompts_ok (es @ [e]) (on_registry (register i (question_entry conv qs tool)) P)" if "\<not> aborted"
      using register_other_safe [OF ok new, of i] AskQuestion that by simp
    ultimately show ?thesis
      using m AskQuestion by (cases aborted; cases "qs = []") (simp_all add: prompt_questions_def on_registry_def)
  next
    case (StopQuestion i aborted)
    then show ?thesis using more stop_safe [OF more, of i] by (auto simp: get_interaction_def split: option.splits)
  next
    case (AnswerQuestion i inp)
    then show ?thesis using question_safe [OF more, of i inp] by simp
  next
    case (AskOther i x)
    then show ?thesis using more register_other_safe [OF ok new, of i x] by simp
  next
    case (TakeOther i st)
    then show ?thesis
      using more registry_safe [of "es @ [e]" P i _ "\<lambda>g. fst (resolve i st g)" "[]"] by (auto simp: get_interaction_def split: option.splits)
  next
    case (RemoveConversation c st)
    then have "open_prompt_in c P \<longrightarrow> early_sweep (es @ [e])" using run by (simp add: early_snoc sweeps_early_def)
    then show ?thesis using removeByConversation_safe [OF more, of c st] RemoveConversation by simp
  next
    case (SupersedeSecrets c st)
    then show ?thesis using supersedePendingSecrets_safe [OF more, of c st] by simp
  qed
qed

lemma prompts_ok_start: "prompts_ok [] prompt_start"
  by (auto simp: prompts_ok_def prompt_start_def ids_ok_def known_ids_def answered_ids_def answers_of_def open_ids_def wf_map_def)

lemma prompts_ok_run: "fresh_prompts es \<Longrightarrow> prompts_ok es (prompt_run es)"
proof (induction es rule: rev_induct)
  case Nil
  then show ?case using prompts_ok_start by (simp add: prompt_run_def)
next
  case (snoc e es)
  then have "fresh_prompts es" by (simp add: fresh_prompts_def)
  then show ?case using snoc prompts_ok_step [of es "prompt_run es" e] by (simp add: prompt_run_def)
qed

section \<open>What callers can rely on\<close>

text \<open>C8: A prompt is answered at most once, whatever the order of responses, timeouts, aborts, new messages and sweeps;
  a permission is allowed only by a user's allow to that prompt, which was asked; and a completed question answers each
  of its questions in order exactly as one submission to it said, which names each question once: an option that was
  offered for that question, a text or a skip. Prompt ids are never drawn twice.\<close>

theorem prompt_answers_sound:
  assumes "fresh_prompts es"
  shows "distinct (map fst (rg_answers (pm_registry (prompt_run es)))) \<and>
    (\<forall>i c. (i, ConfirmAnswer UserAllow c) \<in> set (rg_answers (pm_registry (prompt_run es))) \<longrightarrow>
       c = ByUser \<and> (\<exists>p conv tool. Ask p i conv tool False \<in> set es \<and> Respond p i UserAllow \<in> set es)) \<and>
    (\<forall>i rs. (i, QuestionAnswer rs Completed) \<in> set (rg_answers (pm_registry (prompt_run es))) \<longrightarrow>
       (\<exists>conv qs tool ss. AskQuestion i conv qs tool False \<in> set es \<and> AnswerQuestion i (Submit ss) \<in> set es \<and> offered qs ss rs))"
proof -
  note ok = prompts_okD [OF prompts_ok_run [OF assms]]
  have "distinct (map fst (answers_of (prompt_run es)))" using ok(1) unfolding ids_ok_def by blast
  moreover have "c = ByUser \<and> (\<exists>p conv tool. Ask p i conv tool False \<in> set es \<and> Respond p i UserAllow \<in> set es)"
    if "(i, ConfirmAnswer UserAllow c) \<in> set (answers_of (prompt_run es))" for i c
    using ok(5) [OF that] by (simp add: justified_def)
  moreover have "\<exists>conv qs tool ss. AskQuestion i conv qs tool False \<in> set es \<and> AnswerQuestion i (Submit ss) \<in> set es \<and> offered qs ss rs"
    if "(i, QuestionAnswer rs Completed) \<in> set (answers_of (prompt_run es))" for i rs
    using ok(5) [OF that] by (simp add: justified_def)
  ultimately show ?thesis unfolding answers_of_def by blast
qed

definition demo_prompts :: "prompt_event list" where
  "demo_prompts =
     [Ask ''c'' ''1'' (Some ''c'') None False, AskQuestion ''2'' ''c'' [[''yes'', ''no'']] None False, Respond ''c'' ''1'' UserAllow,
      Timeout ''c'' ''1'', AnswerQuestion ''2'' (Submit [SubmitOption ''q1'' ''maybe'']),
      AnswerQuestion ''2'' (Submit [SubmitOption ''q1'' ''no'']), Ask ''c'' ''3'' None None False, DenyAll ''c'']"

lemma demo_prompts_fresh: "fresh_prompts demo_prompts"
  by code_simp

lemma demo_prompts_answers:
  "rg_answers (pm_registry (prompt_run demo_prompts)) =
     [(''1'', ConfirmAnswer UserAllow ByUser), (''2'', QuestionAnswer [AnsweredOption ''q1'' ''no''] Completed),
      (''3'', ConfirmAnswer UserDeny BySystem)]"
  by code_simp

theorem prompt_answers_sound_witness:
  "\<exists>p conv tool. Ask p ''1'' conv tool False \<in> set demo_prompts \<and> Respond p ''1'' UserAllow \<in> set demo_prompts"
  using prompt_answers_sound [OF demo_prompts_fresh] unfolding demo_prompts_answers by simp

lemma settle_owned: "set (pm_owned (settle p i st a P) p) = set (pm_owned P p) - {i}"
  by (simp add: settle_eq)

lemma settle_all_owned:
  "set (pm_owned (foldl (\<lambda>P i. settle p i st (f i) P) P is) p) = set (pm_owned P p) - set is"
  by (induction "is" arbitrary: P) (auto simp: settle_owned)

lemma stopped_owns_nothing:
  assumes "e = DenyAll p \<or> e = Dispose p"
  shows "set (pm_owned (prompt_run (es @ [e])) p) = {}"
  using assms
    settle_all_owned [of p StSuperseded "\<lambda>_. ConfirmAnswer UserDeny BySystem" "prompt_run es" "pm_owned (prompt_run es) p"]
    settle_all_owned [of p StCancelled "\<lambda>_. ConfirmDisposed" "prompt_run es" "pm_owned (prompt_run es) p"]
  by (auto simp: prompt_run_def denyAllPending_def dispose_prompter_def)

text \<open>The conversation a permission prompt is registered under.\<close>

definition prompt_conversation :: "string option \<Rightarrow> string" where
  "prompt_conversation conv = (case conv of Some c \<Rightarrow> c | None \<Rightarrow> [])"

lemma denied_nothing_open:
  assumes "fresh_prompts es" and own: "\<And>q j conv tool. Ask q j conv tool False \<in> set es \<Longrightarrow> prompt_conversation conv = c \<Longrightarrow> q = p"
  shows "\<not> open_prompt_in c (prompt_run (es @ [DenyAll p]))"
proof
  let ?P = "prompt_run (es @ [DenyAll p])"
  have "fresh_prompts (es @ [DenyAll p])" using assms(1) by (simp add: fresh_prompts_def)
  note ok = prompts_okD [OF prompts_ok_run [OF this]]
  assume "open_prompt_in c ?P"
  then obtain i x where x: "(i, x) \<in> set (rg_pending (pm_registry ?P))" "it_conversationId x = Some c"
      "it_kind x = KConfirmation" "\<not> it_direct x" by (auto simp: open_prompt_in_def list_ex_iff)
  have "entry_at ?P i = Some x" using ok(1) x(1) by (auto simp: ids_ok_def intro: js_get_mem)
  then obtain q conv tool where q: "i \<in> set (pm_owned ?P q)" "Ask q i conv tool False \<in> set es" "x = confirmation conv tool"
    using ok(3) [of i x] x(3,4) by (auto simp: entry_ok_def other_kind_def)
  then have "prompt_conversation conv = c" using x(2) by (simp add: confirmation_def prompt_conversation_def)
  then show False using own [OF q(2)] q(1) stopped_owns_nothing [of "DenyAll p" p es] by simp
qed

text \<open>C9: When a new message comes or the prompter is disposed of, every permission prompt it has asked has been
  answered, in every run in which no sweep over a conversation found a permission prompt of that conversation open (such
  a sweep removes the entry without answering). Denying first, as every caller of the sweep does, keeps runs that way:
  a sweep right after the denial finds none, when all prompts of the conversation are asked by the prompter that is
  denied. Prompt ids are never drawn twice.\<close>

theorem confirmations_all_answered:
  assumes "fresh_prompts es" "\<not> early_sweep es" "Ask p i conv tool False \<in> set es" "e = DenyAll p \<or> e = Dispose p"
  shows "i \<in> fst ` set (rg_answers (pm_registry (prompt_run (es @ [e])))) \<and>
    ((\<forall>q j conv' tool'. Ask q j conv' tool' False \<in> set es \<longrightarrow> prompt_conversation conv' = c \<longrightarrow> q = p) \<longrightarrow>
     \<not> early_sweep (es @ [DenyAll p, RemoveConversation c st]))"
proof
  let ?P = "prompt_run (es @ [e])"
  have "fresh_prompts (es @ [e])" using assms(1,4) by (auto simp: fresh_prompts_def)
  then have ok: "prompts_ok (es @ [e]) ?P" by (rule prompts_ok_run)
  have "\<not> early_sweep (es @ [e])" using assms(2,4) by (auto simp: early_snoc sweeps_early_def)
  moreover have "Ask p i conv tool False \<in> set (es @ [e])" using assms(3) by simp
  ultimately have "i \<in> answered_ids ?P"
    using prompts_okD(6) [OF ok, of p i conv tool] stopped_owns_nothing [OF assms(4), of es] by auto
  then show "i \<in> fst ` set (rg_answers (pm_registry ?P))" by (simp add: answered_ids_def answers_of_def)
  have "early_sweep (es @ [DenyAll p, RemoveConversation c st]) \<longleftrightarrow> open_prompt_in c (prompt_run (es @ [DenyAll p]))"
    using assms(2) early_snoc [of "es @ [DenyAll p]" "RemoveConversation c st"] early_snoc [of es "DenyAll p"]
    by (simp add: sweeps_early_def)
  then show "(\<forall>q j conv' tool'. Ask q j conv' tool' False \<in> set es \<longrightarrow> prompt_conversation conv' = c \<longrightarrow> q = p) \<longrightarrow>
     \<not> early_sweep (es @ [DenyAll p, RemoveConversation c st])"
    using denied_nothing_open [OF assms(1), of c p] by blast
qed

text \<open>The witness runs a sweep in the production order before the second prompt.\<close>

definition demo_sweep :: "prompt_event list" where
  "demo_sweep = [Ask ''c'' ''1'' (Some ''c'') None False, DenyAll ''c'', RemoveConversation ''c'' StSuperseded,
     Ask ''c'' ''2'' (Some ''c'') None False]"

theorem confirmations_all_answered_witness:
  "''2'' \<in> fst ` set (rg_answers (pm_registry (prompt_run (demo_sweep @ [Dispose ''c'']))))"
proof -
  have "fresh_prompts demo_sweep" "\<not> early_sweep demo_sweep" "Ask ''c'' ''2'' (Some ''c'') None False \<in> set demo_sweep"
    by code_simp+
  from confirmations_all_answered [OF this, of "Dispose ''c''"] show ?thesis by blast
qed

end
