(* ===== verification/Spec2Isabelle.thy ===== *)
theory Spec2Isabelle
  imports
    History_Repair
    Approval_Policy
    Arg_Parser
    Approval_Grants
    Directory_Scope
    Risk_Handler
    Egress_Policy
    Proxy_Session
    Ipc_Framing
    Line_Diff
    Split_Text
    Dedup_Cache
    Message_Queue
    Sequence_Engine
    Contact_Import
    Verification_Service
    Credential_Handles
    Call_Store
    Call_Claims
    Call_Recovery
    A2A_Tasks
    Rate_Limits
    Breakers
    Request_Safety
    Prompt_Safety
begin

text \<open>
  A verification library for the assistant platform in this repository: a daemon
  (\<^verbatim>\<open>assistant/src\<close>) that runs conversations with language models and tools, a gateway
  (\<^verbatim>\<open>gateway/src\<close>) that receives webhooks and classifies the risk of commands, and packages
  both share (\<^verbatim>\<open>packages/\<close>). The parts below are the ones that decide something or keep
  state: what may run without asking, which credential leaves the machine, what a provider is sent,
  which message is processed twice or never, and what survives a restart. Everything is a definition
  that computes; time, fresh ids, randomness and other processes are arguments.

  \<^bold>\<open>Shared vocabulary.\<close> \<^verbatim>\<open>Prelude\<close> models the JavaScript containers (insertion-ordered
  maps and sets), JSON and string operations, and holds the interfaces: \<open>keyed_store\<close> (maps),
  \<open>invariant_machine\<close>, \<open>absorbing_machine\<close> and \<open>ranked_machine\<close> (step functions with an
  invariant, a final state, a rank that never falls), \<open>reopenable_store\<close> (keys won once, plus once per
  explicit reopening, under any interleaving) and \<open>claim_store\<close>, its case without reopening. Each is
  interpreted on the definitions of the components that promise it: JS maps, call statuses and task outcomes
  (absorbing), proxy sessions, dedup caches, callback keys, settled questions, the invite table and the trust-rule table (invariant), the
  high-water mark (ranked), grants (claims), verification codes and guardian requests (reopenable).

  \<^bold>\<open>What the model is sent.\<close> \<^verbatim>\<open>Messages\<close> has content blocks and the pairing analysis of
  server-side tools (\<^verbatim>\<open>providers/types.ts\<close>, \<^verbatim>\<open>content-blocks.ts\<close>,
  \<^verbatim>\<open>server-tool-pairing.ts\<close>). \<^verbatim>\<open>History_Repair\<close> translates
  \<^verbatim>\<open>agent/history-repair/history-repair.ts\<close>: the loop over messages with its pending tool
  calls, the merge of equal roles, the deep repair. Shown: every repaired history obeys the
  provider's rules, the index map carries each message's own content, good histories are left alone,
  the repair is idempotent without server-side blocks, and a counterexample with them.

  \<^bold>\<open>What may run.\<close> \<^verbatim>\<open>Approval_Policy\<close> (\<^verbatim>\<open>permissions/approval-policy.ts\<close> and the
  gateway's user-rule override): the decision as one rule, and that it is monotone in risk and
  threshold. \<^verbatim>\<open>Arg_Parser\<close> (\<^verbatim>\<open>gateway/src/risk/arg-parser.ts\<close>): no token is lost and no
  path argument is missed. \<^verbatim>\<open>Approval_Grants\<close> (\<^verbatim>\<open>approvals/scoped-approval-grants.ts\<close>,
  \<^verbatim>\<open>approval-primitive.ts\<close>): the table of grants with its SQL statements, the
  compare-and-swap loops with other writers' statements between select and update, minting and the
  polling loop (fuel is the number of sleeps the deadline allows, which the termination theorem shows
  is enough). Shown: a grant authorises one execution in every interleaving, consumption is sound and
  complete, expiry and revocation touch exactly their rows, polling ends.

  \<^bold>\<open>Which files.\<close> \<^verbatim>\<open>Posix_Paths\<close> has the \<^verbatim>\<open>node:path\<close> functions on strings
  and their laws on segments, with the locale \<open>containment\<close>: the contract of a test that a path lies in a
  directory, interpreted on the five tests the source writes by hand. \<^verbatim>\<open>File_System\<close> is a file system with
  links, the kernel's walk as the reference (40 links, as on Linux; the source's own loop allows 64, which is
  enough), and the canonicalisers of \<^verbatim>\<open>util/fs-symlinks.ts\<close>, \<^verbatim>\<open>path-policy.ts\<close> and
  \<^verbatim>\<open>workspace-policy.ts\<close>. \<^verbatim>\<open>Path_Policy\<close>
  (\<^verbatim>\<open>tools/shared/filesystem/path-policy.ts\<close>) and \<^verbatim>\<open>Workspace_Policy\<close>
  (\<^verbatim>\<open>permissions/workspace-policy.ts\<close>) decide on canonical paths. \<^verbatim>\<open>Trust_Rules\<close>
  (\<^verbatim>\<open>gateway/src/db/trust-rule-store.ts\<close>, \<^verbatim>\<open>seed-trust-rules.ts\<close>,
  \<^verbatim>\<open>risk/trust-rule-cache.ts\<close>) is the rule table, its seeding and the cache.
  \<^verbatim>\<open>File_Risk\<close> (\<^verbatim>\<open>risk/file-risk-classifier.ts\<close> and the daemon's side in
  \<^verbatim>\<open>permissions/checker.ts\<close>) and \<^verbatim>\<open>Directory_Scope\<close> (\<^verbatim>\<open>risk/directory-scope.ts\<close>,
  \<^verbatim>\<open>project-boundary.ts\<close>) compose them. Shown: the canonical path is where the bytes land; the sandbox
  boundary and the secret-bearing paths hold at that place; a write into a directory that is loaded as code is
  high risk from the daemon's input to the verdict of the rules built in, before a rule of the user is applied; the
  override found is the active rule; seeding keeps what the user chose, also when it throws; every scope offered covers
  the targets and is recognised again. The lemmas on canonical paths assume that no link target climbs with double dots; a concrete file system shows the escape when one does.

  \<^bold>\<open>Which commands.\<close> The shell chain of the gateway. \<^verbatim>\<open>Shell_Parser\<close>
  (\<^verbatim>\<open>gateway/src/risk/shell-parser.ts\<close>) works on the syntax tree that tree-sitter, a parameter, gives:
  segments, dangerous patterns, opaque constructs. Shown: the segments are exactly the command nodes reachable
  without entering the words of a command or a redirection. \<^verbatim>\<open>Shell_Identity\<close>
  (\<^verbatim>\<open>shell-identity.ts\<close>): the parse cache as a machine under interleaved calls, and action keys.
  \<^verbatim>\<open>Bash_Risk\<close> (\<^verbatim>\<open>bash-risk-classifier.ts\<close>) is the classifier with its option ladder; the
  JavaScript engine that runs the argument rules' regular expressions is the field \<open>re_test\<close> of its
  environment, on which nothing is assumed. Its recursion through wrappers and subcommands ends because the
  arguments get fewer. \<^verbatim>\<open>Registry_A_L\<close> and \<^verbatim>\<open>Registry_M_Z\<close> hold the entries of
  \<^verbatim>\<open>command-registry/commands\<close>, one definition per file, \<^verbatim>\<open>Command_Registry\<close> the assistant's own
  command tree and the index. \<^verbatim>\<open>Bash_Safety\<close> shows that the level of a command is the join of the levels
  of its parts, that the base risk is a floor unless every argument is covered, help is asked for
  or a rule of the user decides, that wrappers never lower a level, and that a rule saved from the exact option decides. \<^verbatim>\<open>Risk_Handler\<close>
  (\<^verbatim>\<open>gateway/src/ipc/risk-classification-handlers.ts\<close> and \<^verbatim>\<open>assistant/src/permissions/checker.ts\<close>)
  puts the chain together: what the daemon allows as a workspace operation has only listed programs and only path
  arguments inside the workspace, before and after links are followed, where no link target climbs and no double dots
  follow a link. Concrete lines show what the check cannot see: double dots after a link, quoted paths,
  variables, substitutions, an option that runs a program.

  \<^bold>\<open>What leaves the machine.\<close> \<^verbatim>\<open>Egress_Policy\<close> (\<^verbatim>\<open>outbound-proxy/host-pattern-match.ts\<close>,
  \<^verbatim>\<open>policy.ts\<close>, \<^verbatim>\<open>router.ts\<close>): a credential is injected only when the choice is forced,
  and router and policy agree. \<^verbatim>\<open>Proxy_Session\<close> (\<^verbatim>\<open>packages/egress-proxy/src/session-core.ts\<close>):
  session life cycle as a machine whose events are the calls and the completions of their awaits; the
  table invariant, the per-conversation limit, and two life-cycle faults.

  \<^bold>\<open>What comes in.\<close> \<^verbatim>\<open>Ipc_Framing\<close> (\<^verbatim>\<open>packages/ipc-server-utils/src/ipc-framing.ts\<close>):
  writers and the incremental reader over 8-bit words, with JSON as a codec parameter whose laws are
  hypotheses; what is written is read back however the bytes are cut. \<^verbatim>\<open>Dedup_Cache\<close>
  (\<^verbatim>\<open>gateway/src/dedup-cache.ts\<close>): finalised updates never run again, a reset cuts off the work in
  flight, caches stay within their size. \<^verbatim>\<open>Rate_Limits\<close> (\<^verbatim>\<open>gateway/src/auth-rate-limiter.ts\<close>,
  \<^verbatim>\<open>rejection-rate-limiter.ts\<close>, \<^verbatim>\<open>verification/rate-limit-helpers.ts\<close>): the limiters
  refine specifications that keep the whole history, which forget an address when the hard cap drops it.
  \<^verbatim>\<open>Split_Text\<close>
  (\<^verbatim>\<open>gateway/src/util/split-text.ts\<close>) works on 16-bit words as a partial function; it returns
  for every limit of two or more and never cuts a surrogate pair. \<^verbatim>\<open>Line_Diff\<close>
  (\<^verbatim>\<open>assistant/src/util/diff.ts\<close>): the diff rebuilds both texts and is minimal, hunks show every
  change. \<^verbatim>\<open>Message_Queue\<close> (\<^verbatim>\<open>assistant/src/daemon/conversation-queue-manager.ts\<close>): the
  backlog of a busy conversation loses and repeats no message, keeps their order, and its byte count
  is exact.

  \<^bold>\<open>Calls and tasks.\<close> \<^verbatim>\<open>Call_Store\<close>, \<^verbatim>\<open>Call_Claims\<close> and \<^verbatim>\<open>Call_Recovery\<close>
  (\<^verbatim>\<open>assistant/src/calls/call-state-machine.ts\<close>, \<^verbatim>\<open>call-store.ts\<close>,
  \<^verbatim>\<open>active-call-lease.ts\<close>, \<^verbatim>\<open>call-recovery.ts\<close>): tables with their constraints, the
  lease file with failing writes and the direct lease writes of \<^verbatim>\<open>call-domain.ts\<close>, the cascade from deleted
  conversations, callback claims, startup recovery with a provider parameter and interleaved handlers. Shown: ended
  calls stay ended, the lease file mirrors the live calls except those a late lease write or a deleted conversation
  exposes, claims are exclusive, recovery ends exactly the dead calls. \<^verbatim>\<open>A2A_Tasks\<close>
  (\<^verbatim>\<open>assistant/src/a2a/task-store.ts\<close>): finished tasks are final. \<^verbatim>\<open>Breakers\<close>
  (\<^verbatim>\<open>agent/compaction-circuit.ts\<close>, the vector-store and billing breakers): three strikes, one probe
  at a time.

  \<^bold>\<open>Who is who.\<close> \<^verbatim>\<open>Verification_Sessions\<close> (\<^verbatim>\<open>gateway/src/db/session-store.ts\<close>,
  \<^verbatim>\<open>identity-match.ts\<close> and the bound identity of the shared contract): the session table with all its
  operations; a code is redeemed once, a mint supersedes the older codes of its identity and nothing else.
  \<^verbatim>\<open>Guardian_Binding\<close> (\<^verbatim>\<open>verification/binding-helpers.ts\<close>,
  \<^verbatim>\<open>auth/guardian-bootstrap.ts\<close>): the contact and channel tables and the transactional upserts; a phone
  rebind leaves exactly one active number. \<^verbatim>\<open>Verification_Service\<close>
  (\<^verbatim>\<open>verification/session-service.ts\<close>) composes both with the attempt limiter of
  \<^verbatim>\<open>Rate_Limits\<close>: success only for an authorised actor, with what others write while the
  daemon is awaited in the trusted-contact and in the phone-guardian branch, and a bound on wrong guesses between two
  right codes that holds whatever happens to the sessions meanwhile. SHA-256 is a parameter with no law assumed.
  \<^verbatim>\<open>Credential_Handles\<close>
  (\<^verbatim>\<open>packages/service-contracts/src/handles.ts\<close>): parsing and printing are inverse, and the errors are exact.

  \<^bold>\<open>Who may talk.\<close> \<^verbatim>\<open>Inbound_Identity\<close> (\<^verbatim>\<open>gateway/src/verification/identity.ts\<close>, the
  binding-strength contract) has canonical sender ids and the strength order of proofs. \<^verbatim>\<open>Inbound_Admission\<close>
  composes the gateway's trust verdict (\<^verbatim>\<open>risk/trust-verdict-resolver.ts\<close>), its policy table and kill switch with
  the daemon's verdict checks, access list and floor (\<^verbatim>\<open>acl-enforcement.ts\<close>, \<^verbatim>\<open>admission-policy.ts\<close>) into one
  decision, and shows that it is a comparison of the sender's standing with the channel's floor.
  \<^verbatim>\<open>Contact_Channels\<close> (\<^verbatim>\<open>db/contact-store.ts\<close>, \<^verbatim>\<open>verification/contact-helpers.ts\<close>) has every writer
  of the channel rows; \<^verbatim>\<open>Contact_Safety\<close> is the step relation of those writers, under which a blocked sender
  stays out, unless mail fails authentication on a channel open to strangers.
  \<^verbatim>\<open>Code_Parsing\<close> (\<^verbatim>\<open>verification/code-parsing.ts\<close>) and \<^verbatim>\<open>Invites\<close>
  (\<^verbatim>\<open>verification/invite-redemption.ts\<close>, \<^verbatim>\<open>invite-liveness.ts\<close> and the invite part of the contact store) are
  the invite rows and their redemption, which waits once for the daemon's mirror: what other handlers write meanwhile
  is a function on the tables. \<^verbatim>\<open>Invite_Safety\<close> shows that an invite grants no more uses than it has left in
  every interleaving, and that a sender told to be redeemed passes the admission decision right after. Concrete
  tables show the exceptions: a stale mirror, a contact deleted meanwhile, an invite for the guardian's own number, a
  rebound guardian, an attested row that stays denied.

  \<^bold>\<open>Asking the guardian.\<close> \<^verbatim>\<open>Guardian_Requests\<close> (\<^verbatim>\<open>db/guardian-request-store.ts\<close>,
  \<^verbatim>\<open>approvals/guardian-request-service.ts\<close>) has the request and delivery rows with their codes, deadlines and
  scopes, and the decision, which applies its access outcome in the transaction of its compare-and-swap.
  \<^verbatim>\<open>Request_Safety\<close> shows that a request is decided once in every interleaving and that the outcome of a
  decision that applied is what the admission decision then sees. \<^verbatim>\<open>Prompts\<close> (\<^verbatim>\<open>runtime/pending-interactions.ts\<close>,
  \<^verbatim>\<open>permissions/prompter.ts\<close>, \<^verbatim>\<open>question-prompter.ts\<close>, \<^verbatim>\<open>runtime/question-resolution.ts\<close>) is the
  registry on which callers wait for a person, with the answers they are given; \<^verbatim>\<open>Prompt_Safety\<close> runs its
  operations in any order: a prompt is answered at most once, allowed only by the user, and never forgotten
  once its conversation's prompter denies what is pending before the registry is swept.

  \<^bold>\<open>E-mail sequences.\<close> \<^verbatim>\<open>Sequences\<close> (\<^verbatim>\<open>assistant/src/sequence/store.ts\<close>,
  \<^verbatim>\<open>guardrails.ts\<close>, \<^verbatim>\<open>analytics.ts\<close>), \<^verbatim>\<open>Sequence_Engine\<close>
  (\<^verbatim>\<open>engine.ts\<close>, \<^verbatim>\<open>reply-matcher.ts\<close>) and \<^verbatim>\<open>Contact_Import\<close>
  (\<^verbatim>\<open>importer.ts\<close>). A tick's background job is a value given with the operations other handlers run while
  it is awaited; a run is a list of ticks, which do not overlap, and handler operations, changes of the
  guardrails included. Shown: the send caps hold in every run with a clock that does not go backwards, no tick
  strands an enrollment, CSV tables are read back, imports report exactly the rows they refuse and respect the
  guardrails.

  \<^bold>\<open>Conventions.\<close> An SQL statement is atomic and a table is the list of its rows in rowid order;
  constraint violations are errors. \<^verbatim>\<open>Date.now()\<close> is an integer argument, read once per
  operation. Strings are ASCII character lists, except where code units matter. Logging is left out.

  \<^bold>\<open>Not modelled.\<close> Network, database and file access beyond the states above; the agent loop and
  conversation runtime; the tree-sitter parser and how it is loaded; the PowerShell classifier; channel adapters;
  voice media; clients, command line tools, skills and migrations. Within modelled parts: acquisition locks of
  proxy sessions, the web, skill and schedule classifiers, and the daemon's resolvers of guardian requests.
\<close>

end
